(* ===== verification/CoachPrelude.thy ===== *)
theory CoachPrelude
  imports Main "HOL-Library.AList" "HOL-Library.Multiset" "HOL-Library.Char_ord"
    "HOL-Library.List_Lexorder" "HOL-Library.Product_Lexorder"
begin

text \<open>
  Shared vocabulary of the development: Go's time and duration arithmetic, 64-bit
  wrap-around, association lists as Go maps, comparator-based stable sorting, and the
  lemma collections the component theories use.

  Strings are Go's byte strings (lists of characters, each one byte); the library's
  lexicographic order on them is Go's string order.  Integers that the code keeps as
  Go's 64-bit int are HOL integers; where an overflow can change a result the
  wrap-around is written out with \<open>wrap64\<close>.
\<close>

section \<open>Lemma collections\<close>

named_theorems store_defs "the operations of a job store, for unfolding"
named_theorems queue_defs "the operations of a task queue, for unfolding"
named_theorems worker_defs "the steps of the job worker, for unfolding"
named_theorems cmp_laws "sign rules of the three-way comparisons"

section \<open>Time\<close>

text \<open>
  An instant is the number of nanoseconds since Go's zero time, so that the zero value
  a struct field starts with (and \<open>Time.IsZero\<close> recognises) is 0.  A duration is a signed 64-bit
  count of nanoseconds: \<open>Time.Sub\<close> saturates at its ends, multiplication wraps.
\<close>

type_synonym time = int
type_synonym duration = int

definition max_duration :: duration where
  "max_duration = 2 ^ 63 - 1"

definition min_duration :: duration where
  "min_duration = - (2 ^ 63)"

definition time_sub :: "time \<Rightarrow> time \<Rightarrow> duration" where
  "time_sub t u = max min_duration (min max_duration (t - u))"

definition time_add :: "time \<Rightarrow> duration \<Rightarrow> time" where
  "time_add t d = t + d"

definition is_zero_time :: "time \<Rightarrow> bool" where
  "is_zero_time t \<longleftrightarrow> t = 0"

definition wrap64 :: "int \<Rightarrow> int" where
  "wrap64 x = (x + 2 ^ 63) mod 2 ^ 64 - 2 ^ 63"

definition second :: duration where
  "second = 1000000000"

lemma wrap64_id: "- (2 ^ 63) \<le> x \<Longrightarrow> x < 2 ^ 63 \<Longrightarrow> wrap64 x = x"
  by (simp add: wrap64_def)

lemma wrap64_range: "- (2 ^ 63) \<le> wrap64 x \<and> wrap64 x < 2 ^ 63"
  by (simp add: wrap64_def)

lemma time_sub_less_iff:
  "min_duration < d \<Longrightarrow> d \<le> max_duration \<Longrightarrow> time_sub t u < d \<longleftrightarrow> t - u < d"
  by (auto simp: time_sub_def min_def max_def)

lemma time_sub_self [simp]: "time_sub t t = 0"
  by (simp add: time_sub_def min_duration_def max_duration_def)

lemma time_sub_mono: "t \<le> t' \<Longrightarrow> time_sub t u \<le> time_sub t' u"
  by (auto simp: time_sub_def)

section \<open>Association lists as Go maps\<close>

text \<open>
  A Go map that the code also ranges over is a list of entries with distinct keys: the
  list's order is the order one range statement happens to visit.  Lookup and assignment
  are \<open>map_of\<close> and \<open>AList.update\<close>.
\<close>

lemma map_of_alist_update [simp]:
  "map_of (AList.update k v m) = (map_of m)(k \<mapsto> v)"
  by (rule update_conv')

lemma distinct_alist_update [simp]:
  "distinct (map fst m) \<Longrightarrow> distinct (map fst (AList.update k v m))"
  by (rule distinct_update)

lemma keys_alist_update [simp]:
  "fst ` set (AList.update k v m) = insert k (fst ` set m)"
  by (simp add: dom_update)

lemma map_of_map_value:
  "map_of (map (\<lambda>(k, v). (k, f k v)) m) k = map_option (f k) (map_of m k)"
  by (induction m) auto

lemma map_fst_map_value [simp]:
  "map fst (map (\<lambda>(k, v). (k, f k v)) m) = map fst m"
  by (induction m) auto

lemma map_of_Some_iff_in_set:
  "distinct (map fst m) \<Longrightarrow> map_of m k = Some v \<longleftrightarrow> (k, v) \<in> set m"
  by (auto dest: map_of_SomeD map_of_is_SomeI)

lemma map_of_alist_delete [simp]: "map_of (AList.delete k m) = (map_of m)(k := None)"
  by (rule delete_conv')

lemma distinct_alist_delete [simp]:
  "distinct (map fst m) \<Longrightarrow> distinct (map fst (AList.delete k m))"
  by (rule distinct_delete)

lemma mset_alist_delete:
  "distinct (map fst m) \<Longrightarrow> map_of m k = Some v \<Longrightarrow> mset m = add_mset (k, v) (mset (AList.delete k m))"
proof (induction m)
  case Nil
  then show ?case by simp
next
  case (Cons e m)
  then show ?case by (cases e) (auto split: if_splits)
qed

lemma mset_alist_update:
  assumes "distinct (map fst m)"
  shows "mset (AList.update k v m) = add_mset (k, v) (mset (AList.delete k m))"
proof -
  have "mset (AList.update k v m) = add_mset (k, v) (mset (AList.delete k (AList.update k v m)))"
    by (rule mset_alist_delete) (simp_all add: assms)
  then show ?thesis by (simp only: AList.delete_update_same)
qed

lemma find_SomeD: "find P xs = Some x \<Longrightarrow> x \<in> set xs \<and> P x"
  by (induction xs) (auto split: if_splits)

section \<open>Options and results\<close>

text \<open>A fallible operation on a state returns the new state and an error or a value.\<close>

type_synonym ('s, 'e, 'a) outcome = "'s \<times> ('e + 'a)"

lemma sum_eq_cases: "(\<And>e. r = Inl e \<Longrightarrow> P) \<Longrightarrow> (\<And>v. r = Inr v \<Longrightarrow> P) \<Longrightarrow> P"
  by (cases r) auto

definition is_ok :: "'e + 'a \<Rightarrow> bool" where
  "is_ok r \<longleftrightarrow> (case r of Inl _ \<Rightarrow> False | Inr _ \<Rightarrow> True)"

lemma is_ok_simps [simp]: "is_ok (Inr v)" "\<not> is_ok (Inl e)"
  by (simp_all add: is_ok_def)

section \<open>Strings\<close>

text \<open>
  \<open>strings.TrimSpace(s) == ""\<close>: only white space as Unicode defines it, in UTF-8.
\<close>

definition ascii_space :: "nat \<Rightarrow> bool" where
  "ascii_space n \<longleftrightarrow> n = 32 \<or> 9 \<le> n \<and> n \<le> 13"

fun blank_codes :: "nat list \<Rightarrow> bool" where
  "blank_codes [] = True"
| "blank_codes (a # rest) =
     (if ascii_space a then blank_codes rest
      else (case rest of
              b # rest1 \<Rightarrow>
                if a = 0xC2 \<and> (b = 0x85 \<or> b = 0xA0) then blank_codes rest1
                else (case rest1 of
                        c # rest2 \<Rightarrow>
                          (a = 0xE1 \<and> b = 0x9A \<and> c = 0x80
                           \<or> a = 0xE2 \<and> b = 0x80 \<and> (c \<le> 0x8A \<and> 0x80 \<le> c \<or> c = 0xA8 \<or> c = 0xA9 \<or> c = 0xAF)
                           \<or> a = 0xE2 \<and> b = 0x81 \<and> c = 0x9F
                           \<or> a = 0xE3 \<and> b = 0x80 \<and> c = 0x80)
                          \<and> blank_codes rest2
                      | [] \<Rightarrow> False)
            | [] \<Rightarrow> False))"

definition blank_string :: "string \<Rightarrow> bool" where
  "blank_string s = blank_codes (map of_char s)"

text \<open>\<open>strings.HasPrefix\<close> and \<open>path.Clean\<close>, \<open>path.Dir\<close> of the standard library.\<close>

definition has_prefix :: "string \<Rightarrow> string \<Rightarrow> bool" where
  "has_prefix s p \<longleftrightarrow> take (length p) s = p"

fun split_slash :: "string \<Rightarrow> string \<Rightarrow> string list" where
  "split_slash [] acc = [rev acc]"
| "split_slash (ch # s) acc =
     (if ch = CHR ''/'' then rev acc # split_slash s [] else split_slash s (ch # acc))"

fun join_with :: "string \<Rightarrow> string list \<Rightarrow> string" where
  "join_with sep [] = []"
| "join_with sep [s] = s"
| "join_with sep (s # t # ss) = s @ sep @ join_with sep (t # ss)"

text \<open>The stack of kept elements, innermost first.\<close>

fun clean_elements :: "bool \<Rightarrow> string list \<Rightarrow> string list \<Rightarrow> string list" where
  "clean_elements rooted [] stack = rev stack"
| "clean_elements rooted (e # es) stack =
     (if e = [] \<or> e = ''.'' then clean_elements rooted es stack
      else if e = ''..''
      then (case stack of
              inner # below \<Rightarrow>
                if inner = ''..'' then clean_elements rooted es (''..'' # stack)
                else clean_elements rooted es below
            | [] \<Rightarrow> if rooted then clean_elements rooted es []
                    else clean_elements rooted es [''..''])
      else clean_elements rooted es (e # stack))"

definition path_clean :: "string \<Rightarrow> string" where
  "path_clean p =
     (let rooted = (p \<noteq> [] \<and> hd p = CHR ''/'');
          out = join_with ''/'' (clean_elements rooted (split_slash p []) [])
      in if rooted then CHR ''/'' # out else if out = [] then ''.'' else out)"

definition path_dir :: "string \<Rightarrow> string" where
  "path_dir p = path_clean (rev (dropWhile (\<lambda>ch. ch \<noteq> CHR ''/'') (rev p)))"

text \<open>\<open>strconv.Atoi\<close>: an optional sign and decimal digits, within 64 bits.\<close>

fun digits_value :: "nat list \<Rightarrow> int \<Rightarrow> int option" where
  "digits_value [] acc = Some acc"
| "digits_value (n # ns) acc =
     (if 48 \<le> n \<and> n \<le> 57 then digits_value ns (acc * 10 + int (n - 48)) else None)"

definition atoi :: "string \<Rightarrow> int option" where
  "atoi s =
     (let codes = map of_char s;
          neg = (codes \<noteq> [] \<and> hd codes = 45);
          body = (if codes \<noteq> [] \<and> (hd codes = 45 \<or> hd codes = 43) then tl codes else codes)
      in if body = [] then None
         else (case digits_value body 0 of
                 None \<Rightarrow> None
               | Some n \<Rightarrow>
                   let v = (if neg then - n else n) in
                   if - (2 ^ 63) \<le> v \<and> v < 2 ^ 63 then Some v else None))"

section \<open>Three-way comparison and stable sorting\<close>

text \<open>
  Go's \<open>cmp.Compare\<close> and \<open>strings.Compare\<close> return -1, 0 or 1; \<open>cmp.Or\<close>
  returns its first non-zero argument.  \<open>slices.SortStableFunc\<close> and
  \<open>sort.SliceStable\<close> are determined by their contract: the result is a permutation,
  ordered by the comparison, that keeps the input order of elements comparing equal.
  \<open>stable_sort\<close> computes it by insertion.
\<close>

definition cmp_compare :: "'a::linorder \<Rightarrow> 'a \<Rightarrow> int" where
  "cmp_compare a b = (if a < b then -1 else if b < a then 1 else 0)"

fun cmp_or :: "int list \<Rightarrow> int" where
  "cmp_or [] = 0"
| "cmp_or (c # cs) = (if c \<noteq> 0 then c else cmp_or cs)"

fun insert_by :: "('a \<Rightarrow> 'a \<Rightarrow> int) \<Rightarrow> 'a \<Rightarrow> 'a list \<Rightarrow> 'a list" where
  "insert_by c x [] = [x]"
| "insert_by c x (y # ys) = (if c x y \<le> 0 then x # y # ys else y # insert_by c x ys)"

fun stable_sort :: "('a \<Rightarrow> 'a \<Rightarrow> int) \<Rightarrow> 'a list \<Rightarrow> 'a list" where
  "stable_sort c [] = []"
| "stable_sort c (x # xs) = insert_by c x (stable_sort c xs)"

lemma mset_insert_by [simp]: "mset (insert_by c x xs) = add_mset x (mset xs)"
  by (induction xs) auto

lemma mset_stable_sort [simp]: "mset (stable_sort c xs) = mset xs"
  by (induction xs) auto

lemma set_stable_sort [simp]: "set (stable_sort c xs) = set xs"
  by (metis mset_stable_sort set_mset_mset)

lemma length_stable_sort [simp]: "length (stable_sort c xs) = length xs"
  by (metis mset_stable_sort size_mset)

lemma cmp_compare_laws [cmp_laws]:
  "cmp_compare a a = 0"
  "cmp_compare a b \<le> 0 \<longleftrightarrow> a \<le> b"
  "cmp_compare a b = 0 \<longleftrightarrow> a = b"
  "cmp_compare a b < 0 \<longleftrightarrow> a < b"
  by (auto simp: cmp_compare_def)

text \<open>
  A comparison the code sorts with.  The laws say that its sign is that of a total
  preorder; the client lemmas are the contract of a stable sort.
\<close>

locale comparison =
  fixes c :: "'a \<Rightarrow> 'a \<Rightarrow> int"
  assumes total: "c x y \<le> 0 \<or> c y x \<le> 0"
    and trans: "c x y \<le> 0 \<Longrightarrow> c y z \<le> 0 \<Longrightarrow> c x z \<le> 0"
begin

lemma refl_le: "c x x \<le> 0"
  using total by blast

lemma set_insert_by: "set (insert_by c x xs) = insert x (set xs)"
  by (metis mset_insert_by set_mset_add_mset_insert set_mset_mset)

lemma sorted_insert_by:
  "sorted_wrt (\<lambda>a b. c a b \<le> 0) xs \<Longrightarrow> sorted_wrt (\<lambda>a b. c a b \<le> 0) (insert_by c x xs)"
proof (induction xs)
  case Nil
  then show ?case by simp
next
  case (Cons y ys)
  show ?case
  proof (cases "c x y \<le> 0")
    case True
    then show ?thesis using Cons.prems by (auto intro: trans)
  next
    case False
    then have "c y x \<le> 0" using total by blast
    then show ?thesis using Cons False by (auto simp: set_insert_by)
  qed
qed

lemma sorted_result: "sorted_wrt (\<lambda>a b. c a b \<le> 0) (stable_sort c xs)"
  by (induction xs) (auto intro: sorted_insert_by)

lemma filter_insert_by_other:
  "\<not> P x \<Longrightarrow> filter P (insert_by c x xs) = filter P xs"
  by (induction xs) auto

lemma filter_insert_by_same:
  assumes "P x" and "\<And>y. y \<in> set xs \<Longrightarrow> P y \<Longrightarrow> c x y \<le> 0"
    and "sorted_wrt (\<lambda>a b. c a b \<le> 0) xs"
  shows "filter P (insert_by c x xs) = x # filter P xs"
  using assms
proof (induction xs)
  case Nil
  then show ?case by simp
next
  case (Cons y ys)
  then show ?case by (auto intro: Cons.IH)
qed

lemma stable_result:
  assumes "\<And>a b. P a \<Longrightarrow> P b \<Longrightarrow> c a b \<le> 0"
  shows "filter P (stable_sort c xs) = filter P xs"
proof (induction xs)
  case Nil
  then show ?case by simp
next
  case (Cons x xs)
  then show ?case
    using assms sorted_result
    by (cases "P x") (simp_all add: filter_insert_by_other filter_insert_by_same)
qed

lemma insert_by_smallest: "(\<And>y. y \<in> set ys \<Longrightarrow> c x y \<le> 0) \<Longrightarrow> insert_by c x ys = x # ys"
  by (cases ys) auto

lemma sort_of_sorted:
  "sorted_wrt (\<lambda>a b. c a b \<le> 0) xs \<Longrightarrow> stable_sort c xs = xs"
  by (induction xs) (auto intro: insert_by_smallest)

lemma idempotent: "stable_sort c (stable_sort c xs) = stable_sort c xs"
  by (rule sort_of_sorted [OF sorted_result])

lemma sorted_perm_unique:
  assumes anti: "\<And>x y. c x y \<le> 0 \<Longrightarrow> c y x \<le> 0 \<Longrightarrow> x = y"
    and "mset xs = mset ys" "sorted_wrt (\<lambda>a b. c a b \<le> 0) xs" "sorted_wrt (\<lambda>a b. c a b \<le> 0) ys"
  shows "xs = ys"
  using assms(2-)
proof (induction xs arbitrary: ys)
  case Nil
  then show ?case by simp
next
  case (Cons x xs)
  then obtain y zs where ys: "ys = y # zs"
    by (cases ys) auto
  have "x \<in> set ys" and "y \<in> set (x # xs)"
    using Cons.prems(1) ys by (metis list.set_intros(1) set_mset_mset)+
  then have "x = y"
    using Cons.prems(2,3) ys anti by (auto simp: refl_le)
  then show ?case using Cons ys by auto
qed

lemma sorted_perm_unique_on:
  assumes "\<And>x y. x \<in> set xs \<Longrightarrow> y \<in> set xs \<Longrightarrow> c x y \<le> 0 \<Longrightarrow> c y x \<le> 0 \<Longrightarrow> x = y"
    and "mset xs = mset ys" "sorted_wrt (\<lambda>a b. c a b \<le> 0) xs" "sorted_wrt (\<lambda>a b. c a b \<le> 0) ys"
  shows "xs = ys"
  using assms
proof (induction xs arbitrary: ys)
  case Nil
  then show ?case by simp
next
  case (Cons x xs)
  then obtain y zs where ys: "ys = y # zs"
    by (cases ys) auto
  have mem: "x \<in> set ys" "y \<in> set (x # xs)"
    using Cons.prems(2) ys by (metis list.set_intros(1) set_mset_mset)+
  then have "c x y \<le> 0" "c y x \<le> 0"
    using Cons.prems(3,4) ys by (auto simp: refl_le)
  then have "x = y" using Cons.prems(1) mem(2) by (meson list.set_intros(1))
  then show ?case using Cons ys by auto
qed

lemma order_independent_on:
  assumes "\<And>x y. x \<in> set xs \<Longrightarrow> y \<in> set xs \<Longrightarrow> c x y \<le> 0 \<Longrightarrow> c y x \<le> 0 \<Longrightarrow> x = y" and "mset xs = mset ys"
  shows "stable_sort c xs = stable_sort c ys"
  by (rule sorted_perm_unique_on) (use assms sorted_result in \<open>auto\<close>)

lemma order_independent:
  assumes "\<And>x y. c x y \<le> 0 \<Longrightarrow> c y x \<le> 0 \<Longrightarrow> x = y" and "mset xs = mset ys"
  shows "stable_sort c xs = stable_sort c ys"
  using sorted_perm_unique [OF assms(1)] assms(2) sorted_result by (metis mset_stable_sort)

end

text \<open>A comparison that agrees with the order of a key.\<close>

lemma comparison_by_key:
  fixes k :: "'a \<Rightarrow> 'k::linorder"
  assumes "\<And>x y. c x y \<le> 0 \<longleftrightarrow> k x \<le> k y"
  shows "comparison c"
  by unfold_locales (auto simp: assms)

text \<open>\<open>cmp.Or\<close> over comparisons is a lexicographic order; a swapped comparison descends.\<close>

lemma cmp_or_last: "cmp_or [cmp_compare a b] \<le> 0 \<longleftrightarrow> a \<le> b"
  by (simp add: cmp_laws)

lemma cmp_or_asc: "cmp_or cs \<le> 0 \<longleftrightarrow> x \<le> y \<Longrightarrow> cmp_or (cmp_compare a b # cs) \<le> 0 \<longleftrightarrow> (a, x) \<le> (b, y)"
  by (auto simp: cmp_compare_def less_eq_prod_simp)

lemma cmp_or_desc:
  fixes a b :: int
  shows "cmp_or cs \<le> 0 \<longleftrightarrow> x \<le> y \<Longrightarrow> cmp_or (cmp_compare b a # cs) \<le> 0 \<longleftrightarrow> (- a, x) \<le> (- b, y)"
  by (auto simp: cmp_compare_def less_eq_prod_simp)

interpretation by_value: comparison "cmp_compare :: 'a::linorder \<Rightarrow> 'a \<Rightarrow> int"
  by unfold_locales (auto simp: cmp_laws)

text \<open>\<open>sort.Strings\<close>.\<close>

definition sort_strings :: "string list \<Rightarrow> string list" where
  "sort_strings xs = stable_sort cmp_compare xs"

lemma sort_strings_sorted: "sorted (sort_strings xs)"
  using by_value.sorted_result [of xs]
  by (simp add: sort_strings_def cmp_laws sorted_wrt_iff_nth_less sorted_iff_nth_mono_less)

lemma sort_strings_mset [simp]: "mset (sort_strings xs) = mset xs"
  by (simp add: sort_strings_def)

lemma sort_strings_set [simp]: "set (sort_strings xs) = set xs"
  by (simp add: sort_strings_def)

lemma sort_strings_perm: "mset xs = mset ys \<Longrightarrow> sort_strings xs = sort_strings ys"
  unfolding sort_strings_def by (rule by_value.order_independent) (auto simp: cmp_laws)

end
