(* ===== verification/CoachStrings.thy ===== *)
theory CoachStrings
  imports CoachPrelude
begin

text \<open>
  The string functions of Go's standard library that the signal and schema code uses:
  decimal rendering and its inverse, trimming, replacement, quoting.
\<close>

section \<open>Decimal numbers\<close>

text \<open>\<open>strconv.FormatUint(n, 10)\<close> and \<open>strconv.Itoa\<close>.\<close>

fun decimal :: "nat \<Rightarrow> string" where
  "decimal n = (if n < 10 then [char_of (48 + n)] else decimal (n div 10) @ [char_of (48 + n mod 10)])"

declare decimal.simps [simp del]

definition itoa :: "int \<Rightarrow> string" where
  "itoa n = (if n < 0 then CHR ''-'' # decimal (nat (- n)) else decimal (nat n))"

lemma digit_code:
  assumes "d < 10"
  shows "(of_char (char_of (48 + d :: nat)) :: nat) = 48 + d"
proof -
  have "(48 + d) mod 256 = 48 + d" using assms by (intro mod_less) simp
  then show ?thesis by (simp only: of_char_of)
qed

lemma digits_value_append:
  "digits_value (xs @ ys) acc = (case digits_value xs acc of None \<Rightarrow> None | Some v \<Rightarrow> digits_value ys v)"
  by (induction xs arbitrary: acc) auto

lemma decimal_small: "n < 10 \<Longrightarrow> decimal n = [char_of (48 + n)]"
  by (subst decimal.simps) (simp only: if_True)

lemma decimal_big: "\<not> n < 10 \<Longrightarrow> decimal n = decimal (n div 10) @ [char_of (48 + n mod 10)]"
  by (subst decimal.simps) (simp only: if_False)

lemma digits_value_digit: "d < 10 \<Longrightarrow> digits_value [48 + d] acc = Some (acc * 10 + int d)"
  by simp

lemma digits_value_decimal: "digits_value (map of_char (decimal n)) 0 = Some (int n)"
proof (induction n rule: decimal.induct)
  case (1 n)
  show ?case
  proof (cases "n < 10")
    case True
    have "map of_char (decimal n) = [48 + n]" using decimal_small [OF True] digit_code [OF True] by simp
    then show ?thesis using digits_value_digit [OF True, of 0] by simp
  next
    case False
    have d: "n mod 10 < 10" by simp
    have "map of_char (decimal n) = map of_char (decimal (n div 10)) @ [48 + n mod 10]"
      using decimal_big [OF False] digit_code [OF d] by (simp only: map_append list.map)
    then have "digits_value (map of_char (decimal n)) 0 = digits_value [48 + n mod 10] (int (n div 10))"
      using "1.IH" [OF False] by (simp only: digits_value_append option.case)
    also have "\<dots> = Some (int (n div 10) * 10 + int (n mod 10))" by (rule digits_value_digit [OF d])
    also have "int (n div 10) * 10 + int (n mod 10) = int n"
      by (metis div_mult_mod_eq of_nat_add of_nat_mult of_nat_numeral)
    finally show ?thesis .
  qed
qed

lemma decimal_inject [simp]: "decimal m = decimal n \<longleftrightarrow> m = n"
  using digits_value_decimal by (metis option.inject of_nat_eq_iff)

lemma decimal_hd: "\<exists>c cs. decimal n = c # cs \<and> 48 \<le> (of_char c :: nat) \<and> (of_char c :: nat) \<le> 57"
proof (induction n rule: decimal.induct)
  case (1 n)
  then show ?case
  proof (cases "n < 10")
    case True
    then show ?thesis using decimal_small [OF True] digit_code [OF True] by simp
  next
    case False
    then show ?thesis using 1 decimal_big [OF False] by auto
  qed
qed

lemma decimal_nonempty [simp]: "decimal n \<noteq> []"
  using decimal_hd [of n] by auto

text \<open>Reading back a rendered 64-bit number.\<close>

lemma atoi_itoa:
  assumes "- (2 ^ 63) \<le> n" "n < 2 ^ 63"
  shows "atoi (itoa n) = Some n"
proof (cases "n < 0")
  case True
  then show ?thesis
    using assms digits_value_decimal [of "nat (- n)"] by (simp add: atoi_def itoa_def Let_def)
next
  case False
  obtain c cs where c: "decimal (nat n) = c # cs" "48 \<le> (of_char c :: nat)" "(of_char c :: nat) \<le> 57"
    using decimal_hd [of "nat n"] by blast
  have "digits_value (map of_char (c # cs)) 0 = Some n"
    using digits_value_decimal [of "nat n"] False c(1) by simp
  moreover have "(of_char c :: nat) \<noteq> 45" "(of_char c :: nat) \<noteq> 43" using c(2) by auto
  ultimately show ?thesis using assms False c(1) by (simp add: atoi_def itoa_def Let_def)
qed

lemma itoa_inject [simp]:
  "- (2 ^ 63) \<le> m \<Longrightarrow> m < 2 ^ 63 \<Longrightarrow> - (2 ^ 63) \<le> n \<Longrightarrow> n < 2 ^ 63 \<Longrightarrow> itoa m = itoa n \<longleftrightarrow> m = n"
  using atoi_itoa by (metis option.inject)

section \<open>Trimming and replacing\<close>

definition trim_prefix :: "string \<Rightarrow> string \<Rightarrow> string" where
  "trim_prefix p s = (if has_prefix s p then drop (length p) s else s)"

text \<open>\<open>strings.CutPrefix\<close>.\<close>

definition cut_prefix :: "string \<Rightarrow> string \<Rightarrow> string option" where
  "cut_prefix p s = (if has_prefix s p then Some (drop (length p) s) else None)"

lemma cut_prefix_append [simp]: "cut_prefix p (p @ s) = Some s"
  by (simp add: cut_prefix_def has_prefix_def)

text \<open>\<open>strings.TrimLeft\<close> with a cutset of one character, \<open>strings.ReplaceAll\<close> of single characters.\<close>

definition trim_left_char :: "char \<Rightarrow> string \<Rightarrow> string" where
  "trim_left_char ch s = dropWhile (\<lambda>x. x = ch) s"

definition replace_char :: "char \<Rightarrow> char \<Rightarrow> string \<Rightarrow> string" where
  "replace_char a b s = map (\<lambda>x. if x = a then b else x) s"

text \<open>
  \<open>strings.TrimSpace\<close> on UTF-8: \<open>space_rune\<close> tells how many bytes of a white space character a
  list of bytes starts with, read forwards, and \<open>space_enur\<close> read backwards.
\<close>

definition space_rune :: "nat list \<Rightarrow> nat" where
  "space_rune bs =
     (case bs of
        [] \<Rightarrow> 0
      | a # rest \<Rightarrow>
          if ascii_space a then 1
          else (case rest of
                  [] \<Rightarrow> 0
                | b # rest1 \<Rightarrow>
                    if a = 0xC2 \<and> (b = 0x85 \<or> b = 0xA0) then 2
                    else (case rest1 of
                            [] \<Rightarrow> 0
                          | c # _ \<Rightarrow> if blank_codes [a, b, c] \<and> 0x80 \<le> a then 3 else 0)))"

definition space_enur :: "nat list \<Rightarrow> nat" where
  "space_enur bs =
     (if space_rune (rev (take 1 bs)) = 1 then 1
      else if space_rune (rev (take 2 bs)) = 2 then 2
      else if space_rune (rev (take 3 bs)) = 3 then 3 else 0)"

function trim_runes :: "(nat list \<Rightarrow> nat) \<Rightarrow> string \<Rightarrow> string" where
  "trim_runes f s = (let k = f (map of_char s) in if k = 0 \<or> s = [] then s else trim_runes f (drop k s))"
  by pat_completeness auto

termination
  by (relation "measure (\<lambda>(f, s). length s)") auto

declare trim_runes.simps [simp del]

definition trim_space :: "string \<Rightarrow> string" where
  "trim_space s = rev (trim_runes space_enur (rev (trim_runes space_rune s)))"

section \<open>Quoting\<close>

text \<open>
  \<open>strconv.Quote\<close>, after decoding UTF-8; which code points from 256 on are printable is its
  table of Unicode, the argument \<open>printable\<close>.
\<close>

definition cont :: "nat \<Rightarrow> bool" where
  "cont b \<longleftrightarrow> 0x80 \<le> b \<and> b \<le> 0xBF"

text \<open>\<open>utf8.DecodeRune\<close>: the code point and its width, or None for an invalid byte.\<close>

definition decode_rune :: "nat list \<Rightarrow> (nat \<times> nat) option" where
  "decode_rune bs =
     (case bs of
        [] \<Rightarrow> None
      | a # r1 \<Rightarrow>
          if a < 0x80 then Some (a, 1)
          else (case r1 of
                  [] \<Rightarrow> None
                | b # r2 \<Rightarrow>
                    if 0xC2 \<le> a \<and> a \<le> 0xDF \<and> cont b then Some ((a - 0xC0) * 64 + (b - 0x80), 2)
                    else (case r2 of
                            [] \<Rightarrow> None
                          | c # r3 \<Rightarrow>
                              if 0xE0 \<le> a \<and> a \<le> 0xEF \<and> cont b \<and> cont c \<and> (a = 0xE0 \<longrightarrow> 0xA0 \<le> b)
                                 \<and> (a = 0xED \<longrightarrow> b \<le> 0x9F)
                              then Some ((a - 0xE0) * 4096 + (b - 0x80) * 64 + (c - 0x80), 3)
                              else (case r3 of
                                      [] \<Rightarrow> None
                                    | d # _ \<Rightarrow>
                                        if 0xF0 \<le> a \<and> a \<le> 0xF4 \<and> cont b \<and> cont c \<and> cont d
                                           \<and> (a = 0xF0 \<longrightarrow> 0x90 \<le> b) \<and> (a = 0xF4 \<longrightarrow> b \<le> 0x8F)
                                        then Some ((a - 0xF0) * 262144 + (b - 0x80) * 4096 + (c - 0x80) * 64 + (d - 0x80), 4)
                                        else None))))"

definition quote_digit :: "nat \<Rightarrow> char" where
  "quote_digit d = ''0123456789abcdef'' ! (d mod 16)"

fun hex :: "nat \<Rightarrow> nat \<Rightarrow> string" where
  "hex 0 n = []"
| "hex (Suc k) n = hex k (n div 16) @ [quote_digit (n mod 16)]"

definition backslash :: char where
  "backslash = char_of (92::nat)"

definition is_print :: "(nat \<Rightarrow> bool) \<Rightarrow> nat \<Rightarrow> bool" where
  "is_print printable r =
     (if r \<le> 0xFF then 0x20 \<le> r \<and> r \<le> 0x7E \<or> 0xA1 \<le> r \<and> r \<noteq> 0xAD else printable r)"

definition escape_of :: "(nat \<times> char) list" where
  "escape_of = [(7, CHR ''a''), (8, CHR ''b''), (12, CHR ''f''), (10, CHR ''n''), (13, CHR ''r''), (9, CHR ''t''), (11, CHR ''v'')]"

definition quote_rune :: "(nat \<Rightarrow> bool) \<Rightarrow> nat \<Rightarrow> string \<Rightarrow> string" where
  "quote_rune printable r bytes =
     (if r = 34 \<or> r = 92 then [backslash, char_of r]
      else if is_print printable r then bytes
      else case map_of escape_of r of
             Some ch \<Rightarrow> [backslash, ch]
           | None \<Rightarrow>
               if r < 32 \<or> r = 0x7F then [backslash, CHR ''x''] @ hex 2 r
               else if r < 0x10000 then [backslash, CHR ''u''] @ hex 4 r
               else [backslash, CHR ''U''] @ hex 8 r)"

function quote_runes :: "(nat \<Rightarrow> bool) \<Rightarrow> string \<Rightarrow> string" where
  "quote_runes printable [] = []"
| "quote_runes printable (ch # s) =
     (case decode_rune (map of_char (ch # s)) of
        None \<Rightarrow> [backslash, CHR ''x''] @ hex 2 (of_char ch) @ quote_runes printable s
      | Some (r, width) \<Rightarrow>
          quote_rune printable r (take width (ch # s)) @ quote_runes printable (drop (width - 1) s))"
  by pat_completeness auto

termination
  by (relation "measure (\<lambda>(p, s). length s)") auto

definition quote_go :: "(nat \<Rightarrow> bool) \<Rightarrow> string \<Rightarrow> string" where
  "quote_go printable s = CHR 0x22 # quote_runes printable s @ [CHR 0x22]"

text \<open>\<open>hex.EncodeToString\<close>.\<close>

definition hex_digit :: "nat \<Rightarrow> char" where
  "hex_digit n = ''0123456789abcdef'' ! n"

definition hex_encode :: "string \<Rightarrow> string" where
  "hex_encode s = concat (map (\<lambda>ch. let n = of_char ch :: nat in [hex_digit (n div 16), hex_digit (n mod 16)]) s)"

section \<open>Extensions and case\<close>

text \<open>\<open>path.Ext\<close>: the suffix from the last dot of the last element.\<close>

definition path_ext :: "string \<Rightarrow> string" where
  "path_ext p =
     (let tail = takeWhile (\<lambda>ch. ch \<noteq> CHR ''/'' \<and> ch \<noteq> CHR ''.'') (rev p);
          rest = drop (length tail) (rev p)
      in if rest \<noteq> [] \<and> hd rest = CHR ''.'' then CHR ''.'' # rev tail else [])"

text \<open>\<open>path.Base\<close>.\<close>

definition path_base :: "string \<Rightarrow> string" where
  "path_base p =
     (if p = [] then ''.''
      else let q = rev (trim_left_char CHR ''/'' (rev p));
               b = rev (takeWhile (\<lambda>ch. ch \<noteq> CHR ''/'') (rev q))
           in if b = [] then ''/'' else b)"

definition lower_byte :: "nat \<Rightarrow> nat" where
  "lower_byte n = (if 65 \<le> n \<and> n \<le> 90 then n + 32 else n)"

text \<open>
  \<open>strings.ToLower\<close>, as far as the table can tell: outside ASCII only the dotted capital I and
  the Kelvin sign have an ASCII lower case.
\<close>

fun lower_bytes :: "nat list \<Rightarrow> nat list" where
  "lower_bytes [] = []"
| "lower_bytes (b # bs) =
     (if b = 0xC4 \<and> take 1 bs = [0xB0] then 105 # lower_bytes (drop 1 bs)
      else if b = 0xE2 \<and> take 2 bs = [0x84, 0xAA] then 107 # lower_bytes (drop 2 bs)
      else lower_byte b # lower_bytes bs)"

definition to_lower :: "string \<Rightarrow> string" where
  "to_lower s = map char_of (lower_bytes (map of_char s))"

section \<open>Joined and relative paths\<close>

text \<open>\<open>filepath.Join\<close> cleans the joined path; an empty element is left out.\<close>

definition path_join :: "string \<Rightarrow> string \<Rightarrow> string" where
  "path_join dir p = path_clean (if p = [] then dir else dir @ ''/'' @ p)"

text \<open>\<open>filepath.Rel\<close>; None is its error.\<close>

definition rooted :: "string \<Rightarrow> bool" where "rooted p \<longleftrightarrow> p \<noteq> [] \<and> hd p = CHR ''/''"

definition path_elements :: "string \<Rightarrow> string list" where
  "path_elements p = clean_elements (rooted p) (split_slash p []) []"

fun strip_common :: "string list \<Rightarrow> string list \<Rightarrow> string list \<times> string list" where
  "strip_common (b # bs) (t # ts) = (if b = t then strip_common bs ts else (b # bs, t # ts))"
| "strip_common bs ts = (bs, ts)"

definition rel_path :: "string \<Rightarrow> string \<Rightarrow> string option" where
  "rel_path base target =
     (if rooted base \<noteq> rooted target then None
      else
        let (b, t) = strip_common (path_elements base) (path_elements target) in
        if ''..'' \<in> set b then None
        else
          let es = map (\<lambda>_. ''..'') b @ t in
          Some (if es = [] then ''.'' else join_with ''/'' es))"

end
