(* ===== verification/GoJson.thy ===== *)
theory GoJson
  imports CoachStrings Complex_Main
begin

text \<open>
  encoding/json as the program uses it: decoded documents, matching of keys to struct
  fields, and a typed codec.  A Go type is a \<open>gty\<close> (struct fields carry their tag name and
  omitempty), a Go value a \<open>gval\<close>; \<open>decode\<close> merges a document into a current value the way
  Unmarshal does, \<open>encode\<close> is Marshal.

  A JSON document is represented by what Go's parser makes of it: \<open>RawNil\<close> is a nil
  RawMessage, \<open>RawBad\<close> holds bytes that are not valid JSON, \<open>RawJson\<close> a parsed value.
  Object members keep the document's order and its duplicate keys; a number is the
  (rational) value of the finite float64 that json.Unmarshal decodes.
  Integer fields are decoded by that value, which is what encoding/json does for integers
  written without a fraction or an exponent.
\<close>

section \<open>JSON values\<close>

datatype json =
    JNull
  | JBool bool
  | JNum rat
  | JStr string
  | JArr "json list"
  | JObj "(string \<times> json) list"

datatype raw_message = RawNil | RawBad string | RawJson json

text \<open>ASCII case folding, which is how encoding/json matches a key to a field name.\<close>

definition fold_char :: "char \<Rightarrow> char" where
  "fold_char ch = (let n = of_char ch :: nat in
     if 65 \<le> n \<and> n \<le> 90 then char_of (n + 32) else ch)"

definition fold_name :: "string \<Rightarrow> string" where
  "fold_name s = map fold_char s"

section \<open>Structs of strings\<close>

text \<open>
  Decoding an object into a struct of strings: keys match a field up to case, where the
  Kelvin sign and the long s (in UTF-8) fold to k and s.  A null leaves the field alone,
  another value that is not a string fails, and so does an unknown key when those are
  disallowed.  A field is given by its name and its value so far.
\<close>

fun fold_json_codes :: "nat list \<Rightarrow> nat list" where
  "fold_json_codes [] = []"
| "fold_json_codes (a # rest) =
     (if take 3 (a # rest) = [0xE2, 0x84, 0xAA] then 107 # fold_json_codes (drop 2 rest)
      else if take 2 (a # rest) = [0xC5, 0xBF] then 115 # fold_json_codes (drop 1 rest)
      else (if 65 \<le> a \<and> a \<le> 90 then a + 32 else a) # fold_json_codes rest)"

definition field_name :: "string \<Rightarrow> string" where
  "field_name k = map char_of (fold_json_codes (map of_char k))"

text \<open>An ASCII name without capitals is its own key; evaluation uses this.\<close>

fun caseless_char :: "char \<Rightarrow> bool" where
  "caseless_char (Char b0 b1 b2 b3 b4 b5 b6 b7) \<longleftrightarrow> \<not> b7 \<and> (b6 \<longrightarrow> b5 \<or> b4 \<and> b3 \<and> b2 \<and> b1 \<and> b0)"

lemma caseless_code: "caseless_char ch \<Longrightarrow> of_char ch < (128::nat) \<and> \<not> (65 \<le> (of_char ch :: nat) \<and> (of_char ch :: nat) \<le> 90)"
  by (cases ch) (auto simp: of_char_Char split: if_splits)

lemma caseless_codes: "\<forall>ch\<in>set k. caseless_char ch \<Longrightarrow> fold_json_codes (map of_char k) = map of_char k"
proof (induction k)
  case (Cons ch k)
  have "of_char ch < (128::nat)" "\<not> (65 \<le> (of_char ch :: nat) \<and> (of_char ch :: nat) \<le> 90)"
    using caseless_code [of ch] Cons.prems by simp_all
  then show ?case using Cons by simp
qed simp

lemma caseless_field_name: "\<forall>ch\<in>set k. caseless_char ch \<Longrightarrow> field_name k = k"
  by (simp add: field_name_def caseless_codes comp_def)

lemma field_name_code [code]:
  "field_name k = (if list_all caseless_char k then k else map char_of (fold_json_codes (map of_char k)))"
  by (simp add: list_all_iff caseless_field_name) (simp add: field_name_def)

fun decode_strings :: "(string \<times> string) list \<Rightarrow> (string \<times> json) list \<Rightarrow> (string \<times> string) list option" where
  "decode_strings flds [] = Some flds"
| "decode_strings flds ((k, v) # ms) =
     (if map_of flds (field_name k) = None then None
      else (case v of
              JStr s \<Rightarrow> decode_strings (AList.update (field_name k) s flds) ms
            | JNull \<Rightarrow> decode_strings flds ms
            | _ \<Rightarrow> None))"

definition decode_string_fields :: "(string \<times> string) list \<Rightarrow> raw_message \<Rightarrow> (string \<times> string) list option" where
  "decode_string_fields flds body =
     (case body of
        RawJson (JObj ms) \<Rightarrow> decode_strings flds ms
      | RawJson JNull \<Rightarrow> Some flds
      | _ \<Rightarrow> None)"

section \<open>Typed codec\<close>

datatype gty =
    TyString
  | TyBool
  | TyInt int int
  | TyRaw
  | TyPtr gty
  | TySlice gty
  | TyMap gty
  | TyStruct "(string \<times> bool \<times> gty) list"

text \<open>\<open>GNil\<close> is the nil of pointers, slices and maps.\<close>

datatype gval =
    GNil
  | GString string
  | GBool bool
  | GInt int
  | GRaw raw_message
  | GPtr gval
  | GSlice "gval list"
  | GMap "(string \<times> gval) list"
  | GStruct "gval list"

fun zero_value :: "gty \<Rightarrow> gval" and zero_fields :: "(string \<times> bool \<times> gty) list \<Rightarrow> gval list" where
  "zero_value TyString = GString []"
| "zero_value TyBool = GBool False"
| "zero_value (TyInt lo hi) = GInt 0"
| "zero_value TyRaw = GRaw RawNil"
| "zero_value (TyPtr t) = GNil"
| "zero_value (TySlice t) = GNil"
| "zero_value (TyMap t) = GNil"
| "zero_value (TyStruct fs) = GStruct (zero_fields fs)"
| "zero_fields [] = []"
| "zero_fields ((n, om, t) # fs) = zero_value t # zero_fields fs"

subsection \<open>Unmarshal\<close>

fun field_index :: "string \<Rightarrow> (string \<times> bool \<times> gty) list \<Rightarrow> nat option" where
  "field_index k [] = None"
| "field_index k ((n, om, t) # fs) = (if n = k then Some 0 else map_option Suc (field_index k fs))"

definition pointee :: "gty \<Rightarrow> gval \<Rightarrow> gval" where
  "pointee t cur = (case cur of GPtr v \<Rightarrow> v | _ \<Rightarrow> zero_value t)"

definition elements :: "gval \<Rightarrow> gval list" where
  "elements cur = (case cur of GSlice vs \<Rightarrow> vs | _ \<Rightarrow> [])"

definition map_entries :: "gval \<Rightarrow> (string \<times> gval) list" where
  "map_entries cur = (case cur of GMap m \<Rightarrow> m | _ \<Rightarrow> [])"

definition fields_of :: "gval \<Rightarrow> gval list" where
  "fields_of cur = (case cur of GStruct vs \<Rightarrow> vs | _ \<Rightarrow> [])"

definition decode_int :: "int \<Rightarrow> int \<Rightarrow> rat \<Rightarrow> gval option" where
  "decode_int lo hi q =
     (let n = \<lfloor>q\<rfloor> in if of_int n = q \<and> lo \<le> n \<and> n \<le> hi then Some (GInt n) else None)"

text \<open>
  A null sets pointers, slices and maps to nil and leaves other values alone; a
  RawMessage takes any value as it is.  A known key of a struct decodes onto the field's
  current value, an unknown key is skipped.
\<close>

function json_decode :: "gty \<Rightarrow> gval \<Rightarrow> json \<Rightarrow> gval option"
  and decode_elems :: "gty \<Rightarrow> gval list \<Rightarrow> json list \<Rightarrow> gval list option"
  and decode_entries :: "gty \<Rightarrow> (string \<times> gval) list \<Rightarrow> (string \<times> json) list \<Rightarrow> (string \<times> gval) list option"
  and decode_members :: "(string \<times> bool \<times> gty) list \<Rightarrow> gval list \<Rightarrow> (string \<times> json) list \<Rightarrow> gval list option" where
  "json_decode TyRaw cur j = Some (GRaw (RawJson j))"
| "json_decode (TyPtr t) cur j =
     (if j = JNull then Some GNil else map_option GPtr (json_decode t (pointee t cur) j))"
| "json_decode TyString cur j =
     (case j of JNull \<Rightarrow> Some cur | JStr s \<Rightarrow> Some (GString s) | _ \<Rightarrow> None)"
| "json_decode TyBool cur j =
     (case j of JNull \<Rightarrow> Some cur | JBool b \<Rightarrow> Some (GBool b) | _ \<Rightarrow> None)"
| "json_decode (TyInt lo hi) cur j =
     (case j of JNull \<Rightarrow> Some cur | JNum q \<Rightarrow> decode_int lo hi q | _ \<Rightarrow> None)"
| "json_decode (TySlice t) cur j =
     (case j of
        JNull \<Rightarrow> Some GNil
      | JArr js \<Rightarrow> map_option GSlice (decode_elems t (elements cur) js)
      | _ \<Rightarrow> None)"
| "json_decode (TyMap t) cur j =
     (case j of
        JNull \<Rightarrow> Some GNil
      | JObj ms \<Rightarrow> map_option GMap (decode_entries t (map_entries cur) ms)
      | _ \<Rightarrow> None)"
| "json_decode (TyStruct fs) cur j =
     (case j of
        JNull \<Rightarrow> Some cur
      | JObj ms \<Rightarrow> map_option GStruct (decode_members fs (fields_of cur) ms)
      | _ \<Rightarrow> None)"
| "decode_elems t olds [] = Some []"
| "decode_elems t olds (j # js) =
     (case json_decode t (case olds of v # _ \<Rightarrow> v | [] \<Rightarrow> zero_value t) j of
        None \<Rightarrow> None
      | Some v \<Rightarrow> map_option ((#) v) (decode_elems t (drop 1 olds) js))"
| "decode_entries t m [] = Some m"
| "decode_entries t m ((k, j) # ms) =
     (case json_decode t (zero_value t) j of
        None \<Rightarrow> None
      | Some v \<Rightarrow> decode_entries t (AList.update k v m) ms)"
| "decode_members fs vs [] = Some vs"
| "decode_members fs vs ((k, j) # ms) =
     (case field_index (field_name k) fs of
        None \<Rightarrow> decode_members fs vs ms
      | Some i \<Rightarrow>
          (case json_decode (snd (snd (fs ! i))) (vs ! i) j of
             None \<Rightarrow> None
           | Some v \<Rightarrow> decode_members fs (vs[i := v]) ms))"
  by pat_completeness auto

termination
  by (relation "measures
    [\<lambda>x. case x of Inl (Inl (t, c, j)) \<Rightarrow> size j | Inl (Inr (t, vs, js)) \<Rightarrow> size_list size js
      | Inr (Inl (t, m, ms)) \<Rightarrow> size_list (size_prod (\<lambda>_. 0) size) ms
      | Inr (Inr (fs, vs, ms)) \<Rightarrow> size_list (size_prod (\<lambda>_. 0) size) ms,
     \<lambda>x. case x of Inl (Inl (t, c, j)) \<Rightarrow> size t | _ \<Rightarrow> 0]")
    (auto simp: size_list_conv_sum_list)

definition unmarshal :: "gty \<Rightarrow> raw_message \<Rightarrow> gval option" where
  "unmarshal t raw = (case raw of RawJson j \<Rightarrow> json_decode t (zero_value t) j | _ \<Rightarrow> None)"

subsection \<open>Marshal\<close>

definition empty_value :: "gval \<Rightarrow> bool" where
  "empty_value v \<longleftrightarrow> v \<in> {GNil, GBool False, GInt 0, GString [], GSlice [], GMap [], GRaw RawNil, GRaw (RawBad [])}"

fun json_encode :: "gty \<Rightarrow> gval \<Rightarrow> json option"
  and encode_elems :: "gty \<Rightarrow> gval list \<Rightarrow> json list option"
  and encode_entries :: "gty \<Rightarrow> (string \<times> gval) list \<Rightarrow> (string \<times> json) list option"
  and encode_fields :: "(string \<times> bool \<times> gty) list \<Rightarrow> gval list \<Rightarrow> (string \<times> json) list option" where
  "json_encode t GNil = Some JNull"
| "json_encode t (GString s) = Some (JStr s)"
| "json_encode t (GBool b) = Some (JBool b)"
| "json_encode t (GInt n) = Some (JNum (of_int n))"
| "json_encode t (GRaw r) = (case r of RawNil \<Rightarrow> Some JNull | RawBad s \<Rightarrow> None | RawJson j \<Rightarrow> Some j)"
| "json_encode t (GPtr v) = (case t of TyPtr u \<Rightarrow> json_encode u v | _ \<Rightarrow> None)"
| "json_encode t (GSlice vs) = (case t of TySlice u \<Rightarrow> map_option JArr (encode_elems u vs) | _ \<Rightarrow> None)"
| "json_encode t (GMap m) =
     (case t of TyMap u \<Rightarrow> map_option (JObj \<circ> sort_key fst) (encode_entries u m) | _ \<Rightarrow> None)"
| "json_encode t (GStruct vs) = (case t of TyStruct fs \<Rightarrow> map_option JObj (encode_fields fs vs) | _ \<Rightarrow> None)"
| "encode_elems t [] = Some []"
| "encode_elems t (v # vs) =
     (case json_encode t v of None \<Rightarrow> None | Some j \<Rightarrow> map_option ((#) j) (encode_elems t vs))"
| "encode_entries t [] = Some []"
| "encode_entries t ((k, v) # m) =
     (case json_encode t v of None \<Rightarrow> None | Some j \<Rightarrow> map_option ((#) (k, j)) (encode_entries t m))"
| "encode_fields ((n, om, t) # fs) (v # vs) =
     (if om \<and> empty_value v then encode_fields fs vs
      else (case json_encode t v of None \<Rightarrow> None | Some j \<Rightarrow> map_option ((#) (n, j)) (encode_fields fs vs)))"
| "encode_fields [] vs = Some []"
| "encode_fields ((n, om, t) # fs) [] = Some []"

definition marshal :: "gty \<Rightarrow> gval \<Rightarrow> raw_message option" where
  "marshal t v = map_option RawJson (json_encode t v)"

section \<open>Round trip\<close>

text \<open>
  Values that survive: well typed, no pointer to something written as null, an omitted
  field at its zero, map keys sorted, field names distinct and in lower case.
\<close>

fun plain :: "gty \<Rightarrow> gval \<Rightarrow> bool"
  and plain_fields :: "(string \<times> bool \<times> gty) list \<Rightarrow> gval list \<Rightarrow> bool" where
  "plain t GNil \<longleftrightarrow> (case t of TyPtr u \<Rightarrow> True | TySlice u \<Rightarrow> True | TyMap u \<Rightarrow> True | _ \<Rightarrow> False)"
| "plain t (GString s) \<longleftrightarrow> t = TyString"
| "plain t (GBool b) \<longleftrightarrow> t = TyBool"
| "plain t (GInt n) \<longleftrightarrow> (case t of TyInt lo hi \<Rightarrow> lo \<le> n \<and> n \<le> hi | _ \<Rightarrow> False)"
| "plain t (GRaw r) \<longleftrightarrow> t = TyRaw \<and> (case r of RawJson j \<Rightarrow> True | _ \<Rightarrow> False)"
| "plain t (GPtr v) \<longleftrightarrow> (case t of TyPtr u \<Rightarrow> plain u v \<and> json_encode u v \<noteq> Some JNull | _ \<Rightarrow> False)"
| "plain t (GSlice vs) \<longleftrightarrow> (case t of TySlice u \<Rightarrow> (\<forall>v\<in>set vs. plain u v) | _ \<Rightarrow> False)"
| "plain t (GMap m) \<longleftrightarrow>
     (case t of TyMap u \<Rightarrow> sorted (map fst m) \<and> distinct (map fst m) \<and> (\<forall>e\<in>set m. plain u (snd e)) | _ \<Rightarrow> False)"
| "plain t (GStruct vs) \<longleftrightarrow>
     (case t of TyStruct fs \<Rightarrow> distinct (map fst fs) \<and> (\<forall>f\<in>set fs. field_name (fst f) = fst f) \<and> plain_fields fs vs
      | _ \<Rightarrow> False)"
| "plain_fields [] vs \<longleftrightarrow> vs = []"
| "plain_fields ((n, om, t) # fs) (v # vs) \<longleftrightarrow>
     (if om \<and> empty_value v then v = zero_value t else plain t v) \<and> plain_fields fs vs"
| "plain_fields ((n, om, t) # fs) [] \<longleftrightarrow> False"

lemma field_index_append:
  "n \<notin> fst ` set pre \<Longrightarrow> field_index n (pre @ (n, om, t) # fs) = Some (length pre)"
  by (induction pre) auto

lemma update_fresh: "k \<notin> fst ` set m \<Longrightarrow> AList.update k v m = m @ [(k, v)]"
  by (induction m) auto

definition survives :: "gty \<Rightarrow> gval \<Rightarrow> bool" where
  "survives t v \<longleftrightarrow> (\<exists>j. json_encode t v = Some j \<and> json_decode t (zero_value t) j = Some v)"

lemma elems_survive:
  "\<forall>v\<in>set vs. survives t v \<Longrightarrow>
   \<exists>js. encode_elems t vs = Some js \<and> decode_elems t [] js = Some vs"
  by (induction vs) (auto simp: survives_def)

lemma entries_survive:
  "\<forall>e\<in>set m. survives t (snd e) \<Longrightarrow> distinct (map fst (pre @ m)) \<Longrightarrow>
   \<exists>ms. encode_entries t m = Some ms \<and> map fst ms = map fst m \<and> decode_entries t pre ms = Some (pre @ m)"
proof (induction m arbitrary: pre)
  case Nil
  then show ?case by simp
next
  case (Cons e m)
  obtain k v where e: "e = (k, v)" by fastforce
  obtain j where j: "json_encode t v = Some j" "json_decode t (zero_value t) j = Some v"
    using Cons.prems(1) e by (auto simp: survives_def)
  obtain ms where ms: "encode_entries t m = Some ms" "map fst ms = map fst m"
    "decode_entries t (pre @ [(k, v)]) ms = Some ((pre @ [(k, v)]) @ m)"
    using Cons.IH [of "pre @ [(k, v)]"] Cons.prems e by auto
  have "k \<notin> fst ` set pre" using Cons.prems(2) e by force
  then show ?case using e j ms by (simp add: update_fresh)
qed

lemma fields_survive:
  assumes "plain_fields fs vs" "\<And>i. i < length fs \<Longrightarrow> plain (snd (snd (fs ! i))) (vs ! i) \<Longrightarrow> survives (snd (snd (fs ! i))) (vs ! i)"
    and "distinct (map fst (pre @ fs))" "\<forall>f\<in>set fs. field_name (fst f) = fst f" "length us = length pre"
  shows "\<exists>ms. encode_fields fs vs = Some ms \<and> decode_members (pre @ fs) (us @ zero_fields fs) ms = Some (us @ vs)"
  using assms
proof (induction fs arbitrary: vs pre us)
  case Nil
  then show ?case by simp
next
  case (Cons f fs)
  obtain n om t where f: "f = (n, om, t)" by (metis prod_cases3)
  obtain v vs' where vs: "vs = v # vs'" using Cons.prems(1) f by (cases vs) auto
  have IH: "\<exists>ms. encode_fields fs vs' = Some ms
      \<and> decode_members ((pre @ [f]) @ fs) ((us @ [v]) @ zero_fields fs) ms = Some ((us @ [v]) @ vs')"
  proof (rule Cons.IH)
    show "plain_fields fs vs'" using Cons.prems(1) f vs by simp
    show "survives (snd (snd (fs ! i))) (vs' ! i)" if "i < length fs" "plain (snd (snd (fs ! i))) (vs' ! i)" for i
      using Cons.prems(2) [of "Suc i"] that vs by simp
  qed (use Cons.prems in auto)
  then obtain ms where ms: "encode_fields fs vs' = Some ms"
    "decode_members (pre @ f # fs) (us @ v # zero_fields fs) ms = Some (us @ v # vs')" by auto
  show ?case
  proof (cases "om \<and> empty_value v")
    case True
    then have "v = zero_value t" using Cons.prems(1) f vs by simp
    then show ?thesis using True ms f vs by simp
  next
    case False
    then have "plain t v" using Cons.prems(1) f vs by (simp split: if_splits)
    then obtain j where j: "json_encode t v = Some j" "json_decode t (zero_value t) j = Some v"
      using Cons.prems(2) [of 0] f vs by (auto simp: survives_def)
    have idx: "field_index (field_name n) (pre @ f # fs) = Some (length pre)"
      using Cons.prems(3,4) f by (simp add: field_index_append)
    have at: "(pre @ f # fs) ! length pre = f" by simp
    have cur: "(us @ z # zs) ! length pre = z" for z zs
      unfolding Cons.prems(5) [symmetric] by simp
    have upd: "(us @ z # zs)[length pre := v] = us @ v # zs" for z zs
      unfolding Cons.prems(5) [symmetric] by simp
    have "json_decode (snd (snd f)) (zero_value t) j = Some v" using j(2) f by simp
    then have "decode_members (pre @ f # fs) (us @ zero_value t # zero_fields fs) ((n, j) # ms) = Some (us @ v # vs')"
      unfolding decode_members.simps idx option.case at cur by (simp add: ms(2) upd)
    then show ?thesis using False j(1) ms(1) f vs by auto
  qed
qed

lemma plain_fields_length: "plain_fields fs vs \<Longrightarrow> length vs = length fs"
  by (induction fs vs rule: plain_plain_fields.induct(2) [where P = "\<lambda>_ _. True"]) auto

lemma plain_survives: "plain t v \<Longrightarrow> survives t v"
proof (induction v arbitrary: t)
  case (GStruct vs)
  obtain fs where fs: "t = TyStruct fs" "distinct (map fst fs)" "\<forall>f\<in>set fs. field_name (fst f) = fst f" "plain_fields fs vs"
    using GStruct.prems by (auto split: gty.splits)
  have "\<exists>ms. encode_fields fs vs = Some ms \<and> decode_members ([] @ fs) ([] @ zero_fields fs) ms = Some ([] @ vs)"
    by (rule fields_survive) (use fs GStruct.IH plain_fields_length [OF fs(4)] in auto)
  then show ?case using fs(1) by (auto simp: survives_def fields_of_def)
next
  case (GMap m)
  obtain u where u: "t = TyMap u" "sorted (map fst m)" "distinct (map fst m)" "\<forall>e\<in>set m. plain u (snd e)"
    using GMap.prems by (auto split: gty.splits)
  have "\<forall>e\<in>set m. survives u (snd e)" using u(4) GMap.IH by (metis prod_set_simps(2) singletonI surj_pair snd_conv snds.intros)
  then obtain ms where ms: "encode_entries u m = Some ms" "map fst ms = map fst m" "decode_entries u [] ms = Some m"
    using entries_survive [of m u "[]"] u(3) by auto
  then have "sort_key fst ms = ms" using u(2) by (simp add: sort_key_id_if_sorted)
  then show ?case using ms u(1) by (auto simp: survives_def map_entries_def)
next
  case (GSlice vs)
  then obtain u where u: "t = TySlice u" "\<forall>v\<in>set vs. survives u v" by (auto split: gty.splits)
  then show ?case using elems_survive [of vs u] by (auto simp: survives_def elements_def)
next
  case (GPtr v)
  from GPtr.prems obtain u where u: "t = TyPtr u" "plain u v" "json_encode u v \<noteq> Some JNull"
    by (simp split: gty.splits)
  obtain j where "json_encode u v = Some j" "json_decode u (zero_value u) j = Some v"
    using GPtr.IH [OF u(2)] by (auto simp: survives_def)
  then show ?case using u(1,3) by (simp add: survives_def pointee_def)
next
  case (GInt n)
  then show ?case by (auto simp: survives_def decode_int_def split: gty.splits)
qed (auto simp: survives_def split: gty.splits raw_message.splits)

text \<open>A value that survives is read back by Unmarshal from what Marshal wrote.\<close>

lemma codec_round_trip:
  assumes "plain t v"
  obtains raw where "marshal t v = Some raw" "unmarshal t raw = Some v"
  using plain_survives [OF assms] by (auto simp: survives_def marshal_def unmarshal_def)

end
