(* ===== verification/JobDomain.thy ===== *)
theory JobDomain
  imports GoJson
begin

text \<open>
  The coach platform's job domain (internal/coachapi): jobs, attempt-scoped findings and
  diagnostics, reports and their assembly, the store errors, and the persistence port
  WorkerJobStore as a record of operations.
\<close>

section \<open>Jobs\<close>

datatype job_status = JobQueued | JobRunning | JobCompleted | JobFailed | JobOther string

type_synonym job_kind = string

definition JobKindRepoBaselineScan :: job_kind where
  "JobKindRepoBaselineScan = ''repo_baseline_scan''"

type_synonym finding_source = string

definition FindingSourceDeterministic :: finding_source where
  "FindingSourceDeterministic = ''deterministic''"

definition FindingSourceAgent :: finding_source where
  "FindingSourceAgent = ''agent''"

record job =
  job_id :: string
  job_kind :: job_kind
  job_params :: raw_message
  job_status :: job_status
  job_error :: "string option"
  job_created_at :: time
  job_started_at :: "time option"
  job_finished_at :: "time option"
  job_claimed_by :: "string option"
  job_heartbeat_at :: "time option"
  job_attempt :: int
  job_created_by_provider :: string
  job_created_by_subject :: string
  job_created_by_login :: string

record job_finding =
  jf_id :: string
  jf_job_id :: string
  jf_attempt :: int
  jf_source :: finding_source
  jf_rubric_id :: "string option"
  jf_rubric_version :: "string option"
  jf_model_identity :: "string option"
  jf_payload :: raw_message
  jf_payload_hash :: string
  jf_created_at :: time

record job_diagnostic =
  jd_id :: string
  jd_job_id :: string
  jd_attempt :: int
  jd_scope :: string
  jd_message :: string
  jd_created_at :: time

record principal =
  pr_provider :: string
  pr_subject :: string
  pr_login :: string

text \<open>The parameters of a repository scan, decoded.\<close>

record scan_params =
  sp_RepoOwner :: string
  sp_RepoName :: string
  sp_Ref :: string

definition decode_scan_params :: "raw_message \<Rightarrow> scan_params option" where
  "decode_scan_params raw =
     (case decode_string_fields [(''repo_owner'', []), (''repo_name'', []), (''ref'', [])] raw of
        None \<Rightarrow> None
      | Some flds \<Rightarrow>
          Some \<lparr>sp_RepoOwner = the (map_of flds ''repo_owner''), sp_RepoName = the (map_of flds ''repo_name''),
                sp_Ref = the (map_of flds ''ref'')\<rparr>)"

section \<open>Reports\<close>

record report_versions =
  rv_analyzer :: string
  rv_rubrics :: "(string \<times> string) list"

definition no_versions :: report_versions where
  "no_versions = \<lparr>rv_analyzer = [], rv_rubrics = []\<rparr>"

record finding =
  fi_source :: finding_source
  fi_rubric_id :: "string option"
  fi_rubric_version :: "string option"
  fi_model_identity :: "string option"
  fi_payload :: raw_message

record diagnostic =
  di_scope :: string
  di_message :: string

type_synonym finding_counts = "string \<rightharpoonup> (string \<rightharpoonup> int)"

record report_summary =
  rs_finding_counts :: finding_counts
  rs_pr_count :: "int option"
  rs_pr_failed_count :: "int option"

record report =
  rp_report_version :: string
  rp_job_id :: string
  rp_kind :: job_kind
  rp_params :: raw_message
  rp_commit_sha :: string
  rp_summary :: report_summary
  rp_findings :: "finding list"
  rp_diagnostics :: "diagnostic list"
  rp_error :: "string option"
  rp_versions :: report_versions
  rp_generated_at :: time

definition ReportVersion1 :: string where
  "ReportVersion1 = ''1''"

record completion =
  cp_attempt :: int
  cp_commit_sha :: string
  cp_findings :: "job_finding list"
  cp_diagnostics :: "job_diagnostic list"
  cp_versions :: report_versions
  cp_finished_at :: time
  cp_generated_at :: time

subsection \<open>Summary counts\<close>

text \<open>
  Decoding a payload into a struct whose only field is the string \<open>rule_id\<close>: the keys
  are visited in order, a later match overwrites an earlier one, null leaves the field
  alone, and any other value of a matching key makes the whole call fail (\<open>None\<close>), as
  does a document that is neither an object nor null.
\<close>

fun unmarshal_rule_id_members :: "(string \<times> json) list \<Rightarrow> string \<Rightarrow> string option" where
  "unmarshal_rule_id_members [] acc = Some acc"
| "unmarshal_rule_id_members ((k, v) # ms) acc =
     (if fold_name k = ''rule_id''
      then (case v of JStr s \<Rightarrow> unmarshal_rule_id_members ms s
            | JNull \<Rightarrow> unmarshal_rule_id_members ms acc
            | _ \<Rightarrow> None)
      else unmarshal_rule_id_members ms acc)"

definition findingRuleID :: "raw_message \<Rightarrow> string" where
  "findingRuleID payload =
     (case payload of
        RawJson (JObj ms) \<Rightarrow>
          (case unmarshal_rule_id_members ms [] of None \<Rightarrow> [] | Some r \<Rightarrow> r)
      | _ \<Rightarrow> [])"

definition findingSummaryKey :: "job_finding \<Rightarrow> string" where
  "findingSummaryKey f =
     (if jf_source f = FindingSourceAgent
      then (case jf_rubric_id f of Some r \<Rightarrow> r | None \<Rightarrow> [])
      else findingRuleID (jf_payload f))"

definition count_finding :: "finding_counts \<Rightarrow> job_finding \<Rightarrow> finding_counts" where
  "count_finding counts f =
     (let key = findingSummaryKey f in
      if key = [] then counts
      else let source = jf_source f;
               row = (case counts source of None \<Rightarrow> Map.empty | Some m \<Rightarrow> m);
               n = (case row key of None \<Rightarrow> 0 | Some n \<Rightarrow> n)
           in counts(source \<mapsto> row(key \<mapsto> n + 1)))"

definition SummarizeFindings :: "job_finding list \<Rightarrow> report_summary" where
  "SummarizeFindings findings =
     \<lparr>rs_finding_counts = foldl count_finding Map.empty findings,
      rs_pr_count = None, rs_pr_failed_count = None\<rparr>"

definition ReportFindings :: "job_finding list \<Rightarrow> finding list" where
  "ReportFindings jfs =
     map (\<lambda>f. \<lparr>fi_source = jf_source f, fi_rubric_id = jf_rubric_id f,
                fi_rubric_version = jf_rubric_version f,
                fi_model_identity = jf_model_identity f, fi_payload = jf_payload f\<rparr>) jfs"

definition ReportDiagnostics :: "job_diagnostic list \<Rightarrow> diagnostic list" where
  "ReportDiagnostics jds = map (\<lambda>d. \<lparr>di_scope = jd_scope d, di_message = jd_message d\<rparr>) jds"

text \<open>How often a summary reports a key under a source: 0 where the nested map has no entry.\<close>

definition summary_count :: "report_summary \<Rightarrow> finding_source \<Rightarrow> string \<Rightarrow> int" where
  "summary_count rs source key =
     (case rs_finding_counts rs source of
        None \<Rightarrow> 0
      | Some row \<Rightarrow> (case row key of None \<Rightarrow> 0 | Some n \<Rightarrow> n))"

definition counted_as :: "finding_source \<Rightarrow> string \<Rightarrow> job_finding \<Rightarrow> bool" where
  "counted_as source key f \<longleftrightarrow> jf_source f = source \<and> findingSummaryKey f = key"

lemma summary_count_fold:
  "key \<noteq> [] \<Longrightarrow>
   summary_count \<lparr>rs_finding_counts = foldl count_finding m fs, rs_pr_count = a, rs_pr_failed_count = b\<rparr> source key =
   summary_count \<lparr>rs_finding_counts = m, rs_pr_count = a, rs_pr_failed_count = b\<rparr> source key
     + int (length (filter (counted_as source key) fs))"
proof (induction fs arbitrary: m)
  case Nil
  then show ?case by simp
next
  case (Cons f fs)
  then show ?case
    by (auto simp: count_finding_def summary_count_def counted_as_def Let_def split: option.splits)
qed

lemma count_finding_no_empty_key:
  "(\<And>s row. m s = Some row \<Longrightarrow> row [] = None) \<Longrightarrow> count_finding m f s = Some row \<Longrightarrow> row [] = None"
  by (auto simp: count_finding_def Let_def split: if_splits option.splits)

lemma fold_no_empty_key:
  assumes "\<And>s row. m s = Some row \<Longrightarrow> row [] = None" and "foldl count_finding m fs s = Some row"
  shows "row [] = None"
  using assms
proof (induction fs arbitrary: m)
  case Nil
  then show ?case by simp
next
  case (Cons f fs)
  show ?case
    by (rule Cons.IH [of "count_finding m f"])
      (use Cons.prems count_finding_no_empty_key [of m f] in \<open>auto\<close>)
qed

section \<open>The persistence port\<close>

datatype store_error =
    ErrJobNotFound
  | ErrNotClaimable
  | ErrClaimLost
  | ErrStoreFailure string

record claim_lease =
  cl_job_id :: string
  cl_worker_id :: string
  cl_attempt :: int
  cl_started_at :: time

text \<open>
  coachapi.JobStore and coachapi.WorkerJobStore as a record of operations on a store
  state.  An operation returns the new state and an error or its value.
\<close>

record 's store_ops =
  so_create_job :: "'s \<Rightarrow> job \<Rightarrow> ('s, store_error, unit) outcome"
  so_get_job :: "'s \<Rightarrow> string \<Rightarrow> store_error + job"
  so_get_report :: "'s \<Rightarrow> string \<Rightarrow> store_error + report"
  so_claim_job :: "'s \<Rightarrow> string \<Rightarrow> string \<Rightarrow> time \<Rightarrow> duration \<Rightarrow> ('s, store_error, claim_lease) outcome"
  so_heartbeat :: "'s \<Rightarrow> string \<Rightarrow> string \<Rightarrow> int \<Rightarrow> time \<Rightarrow> ('s, store_error, unit) outcome"
  so_insert_findings :: "'s \<Rightarrow> string \<Rightarrow> string \<Rightarrow> int \<Rightarrow> job_finding list \<Rightarrow> ('s, store_error, unit) outcome"
  so_insert_diagnostics :: "'s \<Rightarrow> string \<Rightarrow> string \<Rightarrow> int \<Rightarrow> job_diagnostic list \<Rightarrow> ('s, store_error, unit) outcome"
  so_complete_job :: "'s \<Rightarrow> string \<Rightarrow> string \<Rightarrow> int \<Rightarrow> completion \<Rightarrow> ('s, store_error, unit) outcome"
  so_fail_job :: "'s \<Rightarrow> string \<Rightarrow> string \<Rightarrow> int \<Rightarrow> string \<Rightarrow> time \<Rightarrow> ('s, store_error, unit) outcome"
  so_release_claim :: "'s \<Rightarrow> string \<Rightarrow> string \<Rightarrow> int \<Rightarrow> ('s, store_error, unit) outcome"
  so_list_queued :: "'s \<Rightarrow> time \<Rightarrow> store_error + job list"
  so_release_stale :: "'s \<Rightarrow> time \<Rightarrow> duration \<Rightarrow> ('s, store_error, nat) outcome"

text \<open>
  The lease fence and the claim rule, on a job row: what every store implementation
  decides on.
\<close>

definition fence_row :: "job \<Rightarrow> string \<Rightarrow> int \<Rightarrow> bool" where
  "fence_row j wid attempt \<longleftrightarrow>
     job_status j = JobRunning \<and> job_claimed_by j = Some wid \<and> job_attempt j = attempt"

definition stale_row :: "job \<Rightarrow> time \<Rightarrow> duration \<Rightarrow> bool" where
  "stale_row j now stale_after \<longleftrightarrow>
     (case job_heartbeat_at j of None \<Rightarrow> True | Some hb \<Rightarrow> \<not> time_sub now hb < stale_after)"

definition claimable_row :: "job \<Rightarrow> time \<Rightarrow> duration \<Rightarrow> bool" where
  "claimable_row j now stale_after \<longleftrightarrow>
     job_status j = JobQueued \<or> job_status j = JobRunning \<and> stale_row j now stale_after"

definition claimed_row :: "job \<Rightarrow> string \<Rightarrow> time \<Rightarrow> job" where
  "claimed_row j wid now =
     j\<lparr>job_attempt := job_attempt j + 1, job_status := JobRunning, job_claimed_by := Some wid,
       job_heartbeat_at := Some now, job_started_at := Some now, job_finished_at := None,
       job_error := None\<rparr>"

definition released_row :: "job \<Rightarrow> job" where
  "released_row j = j\<lparr>job_status := JobQueued, job_claimed_by := None, job_heartbeat_at := None\<rparr>"

definition terminal_row :: "job \<Rightarrow> bool" where
  "terminal_row j \<longleftrightarrow> job_status j = JobCompleted \<or> job_status j = JobFailed"

lemma fence_row_claimed [simp]: "fence_row (claimed_row j w now) w (job_attempt j + 1)"
  by (simp add: fence_row_def claimed_row_def)

lemma terminal_not_claimable: "terminal_row j \<Longrightarrow> \<not> claimable_row j now stale"
  by (auto simp: terminal_row_def claimable_row_def)

lemma terminal_not_fenced: "terminal_row j \<Longrightarrow> \<not> fence_row j w a"
  by (auto simp: terminal_row_def fence_row_def)

end
