(* ===== verification/StoreContract.thy ===== *)
theory StoreContract
  imports JobDomain
begin

text \<open>
  The contract of coachapi.WorkerJobStore (internal/coachapi/claim.go) as an abstract
  machine on job rows, the interface locale \<open>job_store\<close> that says an implementation
  refines it, and what every client may conclude: attempts never go down, a lost lease
  is lost for good, a terminal job stays as it is.
\<close>

section \<open>Calls\<close>

datatype store_call =
    CallCreate job
  | CallClaim string string time duration
  | CallHeartbeat string string int time
  | CallInsertFindings string string int "job_finding list"
  | CallInsertDiagnostics string string int "job_diagnostic list"
  | CallComplete string string int completion
  | CallFail string string int string time
  | CallRelease string string int
  | CallReleaseStale time duration

datatype call_result = RUnit | RLease claim_lease | RCount nat

definition map_result :: "('a \<Rightarrow> 'b) \<Rightarrow> ('s, 'e, 'a) outcome \<Rightarrow> ('s, 'e, 'b) outcome" where
  "map_result f o1 = (fst o1, case snd o1 of Inl e \<Rightarrow> Inl e | Inr v \<Rightarrow> Inr (f v))"

fun exec_call :: "'s store_ops \<Rightarrow> store_call \<Rightarrow> 's \<Rightarrow> ('s, store_error, call_result) outcome" where
  "exec_call S (CallCreate j) s = map_result (\<lambda>_. RUnit) (so_create_job S s j)"
| "exec_call S (CallClaim jid w now st) s = map_result RLease (so_claim_job S s jid w now st)"
| "exec_call S (CallHeartbeat jid w a now) s = map_result (\<lambda>_. RUnit) (so_heartbeat S s jid w a now)"
| "exec_call S (CallInsertFindings jid w a fs) s = map_result (\<lambda>_. RUnit) (so_insert_findings S s jid w a fs)"
| "exec_call S (CallInsertDiagnostics jid w a ds) s = map_result (\<lambda>_. RUnit) (so_insert_diagnostics S s jid w a ds)"
| "exec_call S (CallComplete jid w a c) s = map_result (\<lambda>_. RUnit) (so_complete_job S s jid w a c)"
| "exec_call S (CallFail jid w a msg t) s = map_result (\<lambda>_. RUnit) (so_fail_job S s jid w a msg t)"
| "exec_call S (CallRelease jid w a) s = map_result (\<lambda>_. RUnit) (so_release_claim S s jid w a)"
| "exec_call S (CallReleaseStale now st) s = map_result RCount (so_release_stale S s now st)"

fun run_calls :: "'s store_ops \<Rightarrow> store_call list \<Rightarrow> 's \<Rightarrow> 's" where
  "run_calls S [] s = s"
| "run_calls S (c # cs) s = run_calls S cs (fst (exec_call S c s))"

lemma run_calls_append: "run_calls S (cs @ ds) s = run_calls S ds (run_calls S cs s)"
  by (induction cs arbitrary: s) auto

section \<open>The abstract machine\<close>

type_synonym job_rows = "string \<rightharpoonup> job"

text \<open>A write under a lease: unknown job, lost fence, or the row updated.\<close>

definition fenced :: "job_rows \<Rightarrow> string \<Rightarrow> string \<Rightarrow> int \<Rightarrow> (job \<Rightarrow> job) \<Rightarrow> (job_rows, store_error, call_result) outcome" where
  "fenced rows jid w a upd =
     (case rows jid of
        None \<Rightarrow> (rows, Inl ErrJobNotFound)
      | Some j \<Rightarrow> if fence_row j w a then (rows(jid \<mapsto> upd j), Inr RUnit) else (rows, Inl ErrClaimLost))"

definition completed_row :: "completion \<Rightarrow> job \<Rightarrow> job" where
  "completed_row c j =
     j\<lparr>job_status := JobCompleted, job_finished_at := Some (cp_finished_at c), job_error := None\<rparr>"

definition failed_row :: "string \<Rightarrow> time \<Rightarrow> job \<Rightarrow> job" where
  "failed_row msg t j = j\<lparr>job_status := JobFailed, job_error := Some msg, job_finished_at := Some t\<rparr>"

definition stale_running :: "time \<Rightarrow> duration \<Rightarrow> job \<Rightarrow> bool" where
  "stale_running now st j \<longleftrightarrow> job_status j = JobRunning \<and> stale_row j now st"

definition release_all :: "time \<Rightarrow> duration \<Rightarrow> job_rows \<Rightarrow> job_rows" where
  "release_all now st rows =
     (\<lambda>k. map_option (\<lambda>j. if stale_running now st j then released_row j else j) (rows k))"

fun spec_call :: "store_call \<Rightarrow> job_rows \<Rightarrow> (job_rows, store_error, call_result) outcome" where
  "spec_call (CallCreate j) rows =
     (case rows (job_id j) of
        None \<Rightarrow> (rows(job_id j \<mapsto> j), Inr RUnit)
      | Some _ \<Rightarrow> (rows, Inl (ErrStoreFailure ''already exists'')))"
| "spec_call (CallClaim jid w now st) rows =
     (case rows jid of
        None \<Rightarrow> (rows, Inl ErrJobNotFound)
      | Some j \<Rightarrow>
          if claimable_row j now st
          then (rows(jid \<mapsto> claimed_row j w now),
                Inr (RLease \<lparr>cl_job_id = jid, cl_worker_id = w, cl_attempt = job_attempt j + 1,
                             cl_started_at = now\<rparr>))
          else (rows, Inl ErrNotClaimable))"
| "spec_call (CallHeartbeat jid w a now) rows =
     fenced rows jid w a (\<lambda>j. j\<lparr>job_heartbeat_at := Some now\<rparr>)"
| "spec_call (CallInsertFindings jid w a fs) rows = fenced rows jid w a id"
| "spec_call (CallInsertDiagnostics jid w a ds) rows = fenced rows jid w a id"
| "spec_call (CallComplete jid w a c) rows = fenced rows jid w a (completed_row c)"
| "spec_call (CallFail jid w a msg t) rows = fenced rows jid w a (failed_row msg t)"
| "spec_call (CallRelease jid w a) rows = fenced rows jid w a released_row"
| "spec_call (CallReleaseStale now st) rows =
     (release_all now st rows,
      Inr (RCount (card {k. \<exists>j. rows k = Some j \<and> stale_running now st j})))"

text \<open>
  An insert of no rows is the one call whose answer on a lost fence differs between the
  two stores (postgres answers success without looking), so the contract leaves its
  answer open and only says that it changes nothing.
\<close>

fun empty_insert :: "store_call \<Rightarrow> bool" where
  "empty_insert (CallInsertFindings _ _ _ fs) \<longleftrightarrow> fs = []"
| "empty_insert (CallInsertDiagnostics _ _ _ ds) \<longleftrightarrow> ds = []"
| "empty_insert _ \<longleftrightarrow> False"

text \<open>
  What an implementation may do: exactly the abstract step, or report an infrastructure
  failure, in which case the step either did not happen or happened unacknowledged.
\<close>

definition refines_call ::
  "store_call \<Rightarrow> job_rows \<Rightarrow> job_rows \<Rightarrow> store_error + call_result \<Rightarrow> bool" where
  "refines_call c rows rows' r \<longleftrightarrow>
     (if empty_insert c then rows' = rows
      else (rows', r) = spec_call c rows
           \<or> (\<exists>msg. r = Inl (ErrStoreFailure msg)) \<and> (rows' = rows \<or> rows' = fst (spec_call c rows)))"

section \<open>Row transitions\<close>

inductive row_step :: "job \<Rightarrow> job \<Rightarrow> bool" where
  claim: "claimable_row j now st \<Longrightarrow> row_step j (claimed_row j w now)"
| heartbeat: "fence_row j w a \<Longrightarrow> row_step j (j\<lparr>job_heartbeat_at := Some now\<rparr>)"
| complete: "fence_row j w a \<Longrightarrow> row_step j (completed_row c j)"
| fail: "fence_row j w a \<Longrightarrow> row_step j (failed_row msg t j)"
| release: "job_status j = JobRunning \<Longrightarrow> row_step j (released_row j)"

inductive_cases row_stepE: "row_step j j'"

definition rows_advance :: "job_rows \<Rightarrow> job_rows \<Rightarrow> bool" where
  "rows_advance rows rows' \<longleftrightarrow>
     (\<forall>k j. rows k = Some j \<longrightarrow> (\<exists>j'. rows' k = Some j' \<and> row_step\<^sup>*\<^sup>* j j'))"

lemma rows_advance_refl [simp]: "rows_advance rows rows"
  by (auto simp: rows_advance_def)

lemma rows_advance_trans [trans]:
  "rows_advance r1 r2 \<Longrightarrow> rows_advance r2 r3 \<Longrightarrow> rows_advance r1 r3"
  unfolding rows_advance_def by (meson rtranclp_trans)

lemma rows_advance_upd:
  "rows k = Some j \<Longrightarrow> row_step j j' \<Longrightarrow> rows_advance rows (rows(k \<mapsto> j'))"
  by (auto simp: rows_advance_def)

lemma rows_advance_fenced:
  assumes "\<And>j. fence_row j w a \<Longrightarrow> row_step\<^sup>*\<^sup>* j (upd j)"
  shows "rows_advance rows (fst (fenced rows jid w a upd))"
  using assms by (auto simp: fenced_def rows_advance_def split: option.splits)

lemma rows_advance_release_all: "rows_advance rows (release_all now st rows)"
  by (auto simp: rows_advance_def release_all_def stale_running_def intro: row_step.release)

lemma spec_call_advances: "rows_advance rows (fst (spec_call c rows))"
proof (cases c)
  case (CallCreate j)
  then show ?thesis by (auto simp: rows_advance_def split: option.splits)
next
  case (CallClaim jid w now st)
  then show ?thesis
    by (auto simp: split: option.splits intro: rows_advance_upd row_step.claim)
next
  case (CallRelease jid w a)
  then show ?thesis
    by (auto intro!: rows_advance_fenced r_into_rtranclp row_step.release simp: fence_row_def)
next
  case (CallInsertFindings jid w a fs)
  then show ?thesis by (auto intro!: rows_advance_fenced)
next
  case (CallInsertDiagnostics jid w a ds)
  then show ?thesis by (auto intro!: rows_advance_fenced)
next
  case (CallReleaseStale now st)
  then show ?thesis by (simp add: rows_advance_release_all)
qed (auto intro!: rows_advance_fenced r_into_rtranclp intro: row_step.intros)

lemma refines_call_advances: "refines_call c rows rows' r \<Longrightarrow> rows_advance rows rows'"
  unfolding refines_call_def
  by (metis fst_conv rows_advance_refl spec_call_advances)

section \<open>Invariants of row transitions\<close>

lemma row_step_attempt: "row_step j j' \<Longrightarrow> job_attempt j \<le> job_attempt j'"
  by (auto elim!: row_stepE simp: claimed_row_def completed_row_def failed_row_def released_row_def)

lemma row_steps_attempt: "row_step\<^sup>*\<^sup>* j j' \<Longrightarrow> job_attempt j \<le> job_attempt j'"
  by (induction rule: rtranclp_induct) (auto dest: row_step_attempt)

text \<open>A lease that no longer passes the fence on a row at or past its attempt.\<close>

definition lease_lost :: "job \<Rightarrow> string \<Rightarrow> int \<Rightarrow> bool" where
  "lease_lost j w a \<longleftrightarrow> a \<le> job_attempt j \<and> \<not> fence_row j w a"

lemma row_step_lease_lost: "row_step j j' \<Longrightarrow> lease_lost j w a \<Longrightarrow> lease_lost j' w a"
  by (auto elim!: row_stepE
      simp: lease_lost_def fence_row_def claimed_row_def completed_row_def failed_row_def released_row_def)

lemma row_steps_lease_lost: "row_step\<^sup>*\<^sup>* j j' \<Longrightarrow> lease_lost j w a \<Longrightarrow> lease_lost j' w a"
  by (induction rule: rtranclp_induct) (auto dest: row_step_lease_lost)

lemma row_step_terminal: "row_step j j' \<Longrightarrow> terminal_row j \<Longrightarrow> j' = j"
  by (auto elim!: row_stepE simp: terminal_row_def claimable_row_def fence_row_def)

lemma row_steps_terminal: "row_step\<^sup>*\<^sup>* j j' \<Longrightarrow> terminal_row j \<Longrightarrow> j' = j"
  by (induction rule: rtranclp_induct) (auto dest: row_step_terminal)

text \<open>Creation data of a job never changes.\<close>

definition job_identity :: "job \<Rightarrow> string \<times> job_kind \<times> raw_message \<times> time \<times> string \<times> string \<times> string" where
  "job_identity j = (job_id j, job_kind j, job_params j, job_created_at j, job_created_by_provider j,
     job_created_by_subject j, job_created_by_login j)"

lemma row_steps_identity: "row_step\<^sup>*\<^sup>* j j' \<Longrightarrow> job_identity j' = job_identity j"
  by (induction rule: rtranclp_induct)
    (auto elim!: row_stepE
      simp: job_identity_def claimed_row_def completed_row_def failed_row_def released_row_def)

section \<open>The interface\<close>

text \<open>
  What every store promises whatever the precision of its columns: calls only move rows
  along their transitions, and a job found is the row.  \<open>job_store\<close> adds that each call is
  exactly a step of the abstract machine.
\<close>

locale advancing_store =
  fixes S :: "'s store_ops"
    and rows :: "'s \<Rightarrow> job_rows"
    and wf :: "'s \<Rightarrow> bool"
  assumes wf_call: "wf s \<Longrightarrow> wf (fst (exec_call S c s))"
    and call_advances: "wf s \<Longrightarrow> rows_advance (rows s) (rows (fst (exec_call S c s)))"
    and row_key: "wf s \<Longrightarrow> rows s k = Some j \<Longrightarrow> job_id j = k"
    and get_found: "wf s \<Longrightarrow> so_get_job S s jid = Inr j \<Longrightarrow> rows s jid = Some j"
    and get_missing: "wf s \<Longrightarrow> so_get_job S s jid = Inl ErrJobNotFound \<Longrightarrow> rows s jid = None"
begin

lemma wf_run: "wf s \<Longrightarrow> wf (run_calls S cs s)"
  by (induction cs arbitrary: s) (auto intro: wf_call)

lemma run_advances: "wf s \<Longrightarrow> rows_advance (rows s) (rows (run_calls S cs s))"
proof (induction cs arbitrary: s)
  case Nil
  then show ?case by simp
next
  case (Cons c cs)
  from Cons.prems have "rows_advance (rows s) (rows (fst (exec_call S c s)))"
    by (rule call_advances)
  also have "rows_advance \<dots> (rows (run_calls S cs (fst (exec_call S c s))))"
    by (rule Cons.IH [OF wf_call [OF Cons.prems]])
  finally show ?case by simp
qed

lemma run_row:
  assumes "wf s" "rows s jid = Some j"
  obtains j' where "rows (run_calls S cs s) jid = Some j'" "row_step\<^sup>*\<^sup>* j j'"
  using run_advances [OF assms(1)] assms(2) unfolding rows_advance_def by blast

lemma attempts_grow:
  "wf s \<Longrightarrow> rows s jid = Some j \<Longrightarrow>
   \<exists>j'. rows (run_calls S cs s) jid = Some j' \<and> job_attempt j \<le> job_attempt j'"
  by (metis run_row row_steps_attempt)

lemma lost_forever:
  "wf s \<Longrightarrow> rows s jid = Some j \<Longrightarrow> lease_lost j w a \<Longrightarrow>
   \<exists>j'. rows (run_calls S cs s) jid = Some j' \<and> lease_lost j' w a"
  by (metis run_row row_steps_lease_lost)

lemma terminal_forever:
  "wf s \<Longrightarrow> rows s jid = Some j \<Longrightarrow> terminal_row j \<Longrightarrow> rows (run_calls S cs s) jid = Some j"
  by (metis run_row row_steps_terminal)

end

locale job_store =
  fixes S :: "'s store_ops"
    and rows :: "'s \<Rightarrow> job_rows"
    and wf :: "'s \<Rightarrow> bool"
  assumes wf_call: "wf s \<Longrightarrow> wf (fst (exec_call S c s))"
    and refines: "wf s \<Longrightarrow> refines_call c (rows s) (rows (fst (exec_call S c s))) (snd (exec_call S c s))"
    and row_key: "wf s \<Longrightarrow> rows s k = Some j \<Longrightarrow> job_id j = k"
    and get_found: "wf s \<Longrightarrow> so_get_job S s jid = Inr j \<Longrightarrow> rows s jid = Some j"
    and get_missing: "wf s \<Longrightarrow> so_get_job S s jid = Inl ErrJobNotFound \<Longrightarrow> rows s jid = None"
    and list_queued: "wf s \<Longrightarrow> so_list_queued S s t = Inr js \<Longrightarrow>
      set js = {j. \<exists>k. rows s k = Some j \<and> job_status j = JobQueued \<and> job_created_at j < t}"

sublocale job_store \<subseteq> advancing: advancing_store S rows wf
  by unfold_locales
    (auto intro: wf_call refines_call_advances [OF refines] row_key get_found get_missing)

context job_store
begin

lemmas wf_run = advancing.wf_run
lemmas run_row = advancing.run_row
lemmas attempts_grow = advancing.attempts_grow
lemmas lost_forever = advancing.lost_forever
lemmas terminal_forever = advancing.terminal_forever

text \<open>The calls one by one, in the form the worker's proofs use.\<close>

lemma claim_ok:
  assumes "wf s" "so_claim_job S s jid w now st = (s', Inr l)"
  obtains j where "rows s jid = Some j" "claimable_row j now st"
    "rows s' = (rows s)(jid \<mapsto> claimed_row j w now)"
    "l = \<lparr>cl_job_id = jid, cl_worker_id = w, cl_attempt = job_attempt j + 1, cl_started_at = now\<rparr>"
  using refines [OF assms(1), of "CallClaim jid w now st"] assms(2)
  by (auto simp: refines_call_def map_result_def split: option.splits if_splits)

lemma claim_not_claimable:
  assumes "wf s" "so_claim_job S s jid w now st = (s', Inl ErrNotClaimable)"
  shows "rows s' = rows s \<and> (\<exists>j. rows s jid = Some j \<and> \<not> claimable_row j now st)"
  using refines [OF assms(1), of "CallClaim jid w now st"] assms(2)
  by (auto simp: refines_call_def map_result_def split: option.splits if_splits)

lemma release_ok:
  assumes "wf s" "so_release_claim S s jid w a = (s', Inr u)"
  shows "\<exists>j. rows s jid = Some j \<and> fence_row j w a \<and> rows s' = (rows s)(jid \<mapsto> released_row j)"
  using refines [OF assms(1), of "CallRelease jid w a"] assms(2)
  by (auto simp: refines_call_def map_result_def fenced_def split: option.splits if_splits)

lemma fail_ok:
  assumes "wf s" "so_fail_job S s jid w a msg t = (s', Inr u)"
  shows "\<exists>j. rows s jid = Some j \<and> fence_row j w a \<and> rows s' = (rows s)(jid \<mapsto> failed_row msg t j)"
  using refines [OF assms(1), of "CallFail jid w a msg t"] assms(2)
  by (auto simp: refines_call_def map_result_def fenced_def split: option.splits if_splits)

lemma complete_ok:
  assumes "wf s" "so_complete_job S s jid w a c = (s', Inr u)"
  shows "\<exists>j. rows s jid = Some j \<and> fence_row j w a \<and> rows s' = (rows s)(jid \<mapsto> completed_row c j)"
  using refines [OF assms(1), of "CallComplete jid w a c"] assms(2)
  by (auto simp: refines_call_def map_result_def fenced_def split: option.splits if_splits)

lemma release_stale_ok:
  assumes "wf s" "so_release_stale S s now st = (s', Inr n)"
  shows "rows s' = release_all now st (rows s)"
  using refines [OF assms(1), of "CallReleaseStale now st"] assms(2)
  by (auto simp: refines_call_def map_result_def)

lemma claim_lost_unchanged:
  assumes "wf s" "\<not> empty_insert c" "snd (exec_call S c s) = Inl ErrClaimLost"
  shows "rows (fst (exec_call S c s)) = rows s"
proof -
  have "(rows (fst (exec_call S c s)), Inl ErrClaimLost) = spec_call c (rows s)"
    using refines [OF assms(1), of c] assms(2,3) by (auto simp: refines_call_def)
  then show ?thesis
    by (cases c) (auto simp: fenced_def split: option.splits if_splits)
qed

end

end
