(* ===== verification/MemoryStore.thy ===== *)
theory MemoryStore
  imports StoreContract
begin

text \<open>
  The in-process store of internal/coachapi/store/memory.  Every method takes the
  store's mutex for its whole body, so each is one atomic function on the state.  The
  state is the field \<open>jobs\<close>: job records under their ids.  The clone helpers of the source
  keep callers from sharing memory with the store; values in HOL are not shared, so they
  are the identity and have no definition here.
\<close>

section \<open>State\<close>

record job_record =
  jr_job :: job
  jr_completed :: bool
  jr_commit_sha :: string
  jr_findings :: "job_finding list"
  jr_diagnostics :: "job_diagnostic list"
  jr_versions :: report_versions
  jr_generated_at :: time

type_synonym mem_store = "(string \<times> job_record) list"

definition NewStore :: mem_store where
  "NewStore = []"

definition new_record :: "job \<Rightarrow> job_record" where
  "new_record j =
     \<lparr>jr_job = j, jr_completed = False, jr_commit_sha = [], jr_findings = [],
      jr_diagnostics = [], jr_versions = no_versions, jr_generated_at = 0\<rparr>"

section \<open>Job rows and reports\<close>

definition CreateJob :: "mem_store \<Rightarrow> job \<Rightarrow> (mem_store, store_error, unit) outcome" where
  "CreateJob m j =
     (case map_of m (job_id j) of
        Some _ \<Rightarrow> (m, Inl (ErrStoreFailure ''already exists''))
      | None \<Rightarrow> (AList.update (job_id j) (new_record j) m, Inr ()))"

definition GetJob :: "mem_store \<Rightarrow> string \<Rightarrow> store_error + job" where
  "GetJob m jid =
     (case map_of m jid of None \<Rightarrow> Inl ErrJobNotFound | Some r \<Rightarrow> Inr (jr_job r))"

definition findingsForAttempt :: "job_finding list \<Rightarrow> int \<Rightarrow> job_finding list" where
  "findingsForAttempt fs attempt = filter (\<lambda>f. jf_attempt f = attempt) fs"

definition diagnosticsForAttempt :: "job_diagnostic list \<Rightarrow> int \<Rightarrow> job_diagnostic list" where
  "diagnosticsForAttempt ds attempt = filter (\<lambda>d. jd_attempt d = attempt) ds"

definition GetReport :: "mem_store \<Rightarrow> string \<Rightarrow> store_error + report" where
  "GetReport m jid =
     (case map_of m jid of
        None \<Rightarrow> Inl ErrJobNotFound
      | Some r \<Rightarrow>
          if \<not> jr_completed r then Inl ErrJobNotFound
          else
            let fs = findingsForAttempt (jr_findings r) (job_attempt (jr_job r));
                ds = diagnosticsForAttempt (jr_diagnostics r) (job_attempt (jr_job r))
            in Inr \<lparr>rp_report_version = ReportVersion1,
                    rp_job_id = job_id (jr_job r),
                    rp_kind = job_kind (jr_job r),
                    rp_params = job_params (jr_job r),
                    rp_commit_sha = jr_commit_sha r,
                    rp_summary = SummarizeFindings fs,
                    rp_findings = ReportFindings fs,
                    rp_diagnostics = ReportDiagnostics ds,
                    rp_error = job_error (jr_job r),
                    rp_versions = jr_versions r,
                    rp_generated_at = jr_generated_at r\<rparr>)"

definition RecordCompletion :: "mem_store \<Rightarrow> string \<Rightarrow> completion \<Rightarrow> (mem_store, store_error, unit) outcome" where
  "RecordCompletion m jid c =
     (case map_of m jid of
        None \<Rightarrow> (m, Inl ErrJobNotFound)
      | Some r \<Rightarrow>
          (AList.update jid
             (r\<lparr>jr_job := (jr_job r)\<lparr>job_status := JobCompleted, job_attempt := cp_attempt c,
                                     job_finished_at := Some (cp_finished_at c), job_error := None\<rparr>,
                jr_commit_sha := cp_commit_sha c, jr_versions := cp_versions c,
                jr_generated_at := cp_generated_at c, jr_findings := cp_findings c,
                jr_diagnostics := cp_diagnostics c, jr_completed := True\<rparr>) m,
           Inr ()))"

definition RecordFailure :: "mem_store \<Rightarrow> string \<Rightarrow> string \<Rightarrow> time \<Rightarrow> (mem_store, store_error, unit) outcome" where
  "RecordFailure m jid msg finished =
     (case map_of m jid of
        None \<Rightarrow> (m, Inl ErrJobNotFound)
      | Some r \<Rightarrow>
          (AList.update jid
             (r\<lparr>jr_job := (jr_job r)\<lparr>job_status := JobFailed, job_error := Some msg,
                                     job_finished_at := Some finished\<rparr>\<rparr>) m,
           Inr ()))"

section \<open>Claims\<close>

definition fenceMatches :: "job \<Rightarrow> string \<Rightarrow> int \<Rightarrow> bool" where
  "fenceMatches j wid attempt \<longleftrightarrow>
     job_status j = JobRunning
     \<and> (case job_claimed_by j of None \<Rightarrow> False | Some w \<Rightarrow> w = wid)
     \<and> job_attempt j = attempt"

definition ClaimJob :: "mem_store \<Rightarrow> string \<Rightarrow> string \<Rightarrow> time \<Rightarrow> duration \<Rightarrow> (mem_store, store_error, claim_lease) outcome" where
  "ClaimJob m jid wid now stale_after =
     (case map_of m jid of
        None \<Rightarrow> (m, Inl ErrJobNotFound)
      | Some r \<Rightarrow>
          let j = jr_job r;
              claim =
                (AList.update jid
                   (r\<lparr>jr_job := j\<lparr>job_attempt := job_attempt j + 1, job_status := JobRunning,
                                  job_claimed_by := Some wid, job_heartbeat_at := Some now,
                                  job_started_at := Some now, job_finished_at := None,
                                  job_error := None\<rparr>,
                      jr_findings := [], jr_diagnostics := [], jr_completed := False,
                      jr_commit_sha := [], jr_versions := no_versions, jr_generated_at := 0\<rparr>) m,
                 Inr \<lparr>cl_job_id = jid, cl_worker_id = wid, cl_attempt = job_attempt j + 1,
                      cl_started_at = now\<rparr>)
          in (case job_status j of
                JobQueued \<Rightarrow> claim
              | JobRunning \<Rightarrow>
                  (case job_heartbeat_at j of
                     Some hb \<Rightarrow>
                       if time_sub now hb < stale_after then (m, Inl ErrNotClaimable) else claim
                   | None \<Rightarrow> claim)
              | _ \<Rightarrow> (m, Inl ErrNotClaimable)))"

definition Heartbeat :: "mem_store \<Rightarrow> string \<Rightarrow> string \<Rightarrow> int \<Rightarrow> time \<Rightarrow> (mem_store, store_error, unit) outcome" where
  "Heartbeat m jid wid attempt now =
     (case map_of m jid of
        None \<Rightarrow> (m, Inl ErrJobNotFound)
      | Some r \<Rightarrow>
          if \<not> fenceMatches (jr_job r) wid attempt then (m, Inl ErrClaimLost)
          else (AList.update jid (r\<lparr>jr_job := (jr_job r)\<lparr>job_heartbeat_at := Some now\<rparr>\<rparr>) m, Inr ()))"

definition ReleaseClaim :: "mem_store \<Rightarrow> string \<Rightarrow> string \<Rightarrow> int \<Rightarrow> (mem_store, store_error, unit) outcome" where
  "ReleaseClaim m jid wid attempt =
     (case map_of m jid of
        None \<Rightarrow> (m, Inl ErrJobNotFound)
      | Some r \<Rightarrow>
          if \<not> fenceMatches (jr_job r) wid attempt then (m, Inl ErrClaimLost)
          else (AList.update jid
                  (r\<lparr>jr_job := (jr_job r)\<lparr>job_status := JobQueued, job_claimed_by := None,
                                          job_heartbeat_at := None\<rparr>\<rparr>) m,
                Inr ()))"

section \<open>Attempt-scoped rows\<close>

definition stamp_findings :: "string \<Rightarrow> int \<Rightarrow> job_finding list \<Rightarrow> job_finding list" where
  "stamp_findings jid attempt fs = map (\<lambda>f. f\<lparr>jf_job_id := jid, jf_attempt := attempt\<rparr>) fs"

definition stamp_diagnostics :: "string \<Rightarrow> int \<Rightarrow> job_diagnostic list \<Rightarrow> job_diagnostic list" where
  "stamp_diagnostics jid attempt ds = map (\<lambda>d. d\<lparr>jd_job_id := jid, jd_attempt := attempt\<rparr>) ds"

definition InsertFindings :: "mem_store \<Rightarrow> string \<Rightarrow> string \<Rightarrow> int \<Rightarrow> job_finding list \<Rightarrow> (mem_store, store_error, unit) outcome" where
  "InsertFindings m jid wid attempt fs =
     (case map_of m jid of
        None \<Rightarrow> (m, Inl ErrJobNotFound)
      | Some r \<Rightarrow>
          if \<not> fenceMatches (jr_job r) wid attempt then (m, Inl ErrClaimLost)
          else (AList.update jid
                  (r\<lparr>jr_findings := jr_findings r @ stamp_findings jid attempt fs\<rparr>) m,
                Inr ()))"

definition InsertDiagnostics :: "mem_store \<Rightarrow> string \<Rightarrow> string \<Rightarrow> int \<Rightarrow> job_diagnostic list \<Rightarrow> (mem_store, store_error, unit) outcome" where
  "InsertDiagnostics m jid wid attempt ds =
     (case map_of m jid of
        None \<Rightarrow> (m, Inl ErrJobNotFound)
      | Some r \<Rightarrow>
          if \<not> fenceMatches (jr_job r) wid attempt then (m, Inl ErrClaimLost)
          else (AList.update jid
                  (r\<lparr>jr_diagnostics := jr_diagnostics r @ stamp_diagnostics jid attempt ds\<rparr>) m,
                Inr ()))"

section \<open>Terminal transitions\<close>

definition CompleteJob :: "mem_store \<Rightarrow> string \<Rightarrow> string \<Rightarrow> int \<Rightarrow> completion \<Rightarrow> (mem_store, store_error, unit) outcome" where
  "CompleteJob m jid wid attempt c =
     (case map_of m jid of
        None \<Rightarrow> (m, Inl ErrJobNotFound)
      | Some r \<Rightarrow>
          if \<not> fenceMatches (jr_job r) wid attempt then (m, Inl ErrClaimLost)
          else
            let r1 = r\<lparr>jr_job := (jr_job r)\<lparr>job_status := JobCompleted, job_attempt := attempt,
                                            job_finished_at := Some (cp_finished_at c),
                                            job_error := None\<rparr>,
                       jr_commit_sha := cp_commit_sha c, jr_versions := cp_versions c,
                       jr_generated_at := cp_generated_at c\<rparr>;
                r2 = (if length (cp_findings c) > 0
                      then r1\<lparr>jr_findings := jr_findings r1 @ stamp_findings jid attempt (cp_findings c)\<rparr>
                      else r1);
                r3 = (if length (cp_diagnostics c) > 0
                      then r2\<lparr>jr_diagnostics := jr_diagnostics r2 @ stamp_diagnostics jid attempt (cp_diagnostics c)\<rparr>
                      else r2)
            in (AList.update jid (r3\<lparr>jr_completed := True\<rparr>) m, Inr ()))"

definition FailJob :: "mem_store \<Rightarrow> string \<Rightarrow> string \<Rightarrow> int \<Rightarrow> string \<Rightarrow> time \<Rightarrow> (mem_store, store_error, unit) outcome" where
  "FailJob m jid wid attempt msg finished =
     (case map_of m jid of
        None \<Rightarrow> (m, Inl ErrJobNotFound)
      | Some r \<Rightarrow>
          if \<not> fenceMatches (jr_job r) wid attempt then (m, Inl ErrClaimLost)
          else (AList.update jid
                  (r\<lparr>jr_job := (jr_job r)\<lparr>job_status := JobFailed, job_error := Some msg,
                                          job_finished_at := Some finished\<rparr>\<rparr>) m,
                Inr ()))"

section \<open>Reconciliation\<close>

definition ListQueuedOlderThan :: "mem_store \<Rightarrow> time \<Rightarrow> store_error + job list" where
  "ListQueuedOlderThan m older_than =
     Inr (map (jr_job \<circ> snd)
            (filter (\<lambda>(k, r). job_status (jr_job r) = JobQueued \<and> job_created_at (jr_job r) < older_than) m))"

definition release_if_stale :: "time \<Rightarrow> duration \<Rightarrow> job_record \<Rightarrow> job_record \<times> nat" where
  "release_if_stale now stale_after r =
     (let j = jr_job r in
      if job_status j \<noteq> JobRunning then (r, 0)
      else if (case job_heartbeat_at j of None \<Rightarrow> False | Some hb \<Rightarrow> time_sub now hb < stale_after)
      then (r, 0)
      else (r\<lparr>jr_job := j\<lparr>job_status := JobQueued, job_claimed_by := None, job_heartbeat_at := None\<rparr>\<rparr>, 1))"

fun release_stale_loop :: "time \<Rightarrow> duration \<Rightarrow> mem_store \<Rightarrow> nat \<Rightarrow> mem_store \<times> nat" where
  "release_stale_loop now stale_after [] released = ([], released)"
| "release_stale_loop now stale_after ((k, r) # rest) released =
     (let (r', n) = release_if_stale now stale_after r;
          (rest', total) = release_stale_loop now stale_after rest (released + n)
      in ((k, r') # rest', total))"

definition ReleaseStaleRunning :: "mem_store \<Rightarrow> time \<Rightarrow> duration \<Rightarrow> (mem_store, store_error, nat) outcome" where
  "ReleaseStaleRunning m now stale_after =
     (let (m', released) = release_stale_loop now stale_after m 0 in (m', Inr released))"

definition memory_ops :: "mem_store store_ops" where
  "memory_ops =
     \<lparr>so_create_job = CreateJob, so_get_job = GetJob, so_get_report = GetReport,
      so_claim_job = ClaimJob, so_heartbeat = Heartbeat,
      so_insert_findings = InsertFindings, so_insert_diagnostics = InsertDiagnostics,
      so_complete_job = CompleteJob, so_fail_job = FailJob, so_release_claim = ReleaseClaim,
      so_list_queued = ListQueuedOlderThan, so_release_stale = ReleaseStaleRunning\<rparr>"

lemmas memory_store_defs [store_defs] =
  CreateJob_def GetJob_def GetReport_def ClaimJob_def Heartbeat_def InsertFindings_def
  InsertDiagnostics_def CompleteJob_def FailJob_def ReleaseClaim_def ListQueuedOlderThan_def
  ReleaseStaleRunning_def


section \<open>The memory store keeps the contract\<close>

definition mem_rows :: "mem_store \<Rightarrow> job_rows" where
  "mem_rows m = (\<lambda>k. map_option jr_job (map_of m k))"

text \<open>Distinct keys; every record is filed under its job's id and holds only rows of its own
  current attempt.\<close>

definition own_rows :: "string \<Rightarrow> job_record \<Rightarrow> bool" where
  "own_rows k r \<longleftrightarrow> job_id (jr_job r) = k
     \<and> (\<forall>f \<in> set (jr_findings r). jf_job_id f = k \<and> jf_attempt f = job_attempt (jr_job r))
     \<and> (\<forall>d \<in> set (jr_diagnostics r). jd_job_id d = k \<and> jd_attempt d = job_attempt (jr_job r))"

definition mem_wf :: "mem_store \<Rightarrow> bool" where
  "mem_wf m \<longleftrightarrow> distinct (map fst m) \<and> (\<forall>k r. map_of m k = Some r \<longrightarrow> own_rows k r)"

lemma fenceMatches_row [simp]: "fenceMatches j w a \<longleftrightarrow> fence_row j w a"
  by (auto simp: fenceMatches_def fence_row_def split: option.splits)

lemma mem_rows_update [simp]:
  "mem_rows (AList.update k r m) = (mem_rows m)(k \<mapsto> jr_job r)"
  by (auto simp: mem_rows_def)

lemma release_stale_loop_eq:
  "release_stale_loop now st m n =
     (map (\<lambda>(k, r). (k, fst (release_if_stale now st r))) m,
      n + length (filter (\<lambda>(k, r). stale_running now st (jr_job r)) m))"
  by (induction now st m n rule: release_stale_loop.induct)
    (auto simp: release_if_stale_def stale_running_def stale_row_def Let_def split: option.splits prod.splits)

lemma release_if_stale_row:
  "jr_job (fst (release_if_stale now st r)) =
     (if stale_running now st (jr_job r) then released_row (jr_job r) else jr_job r)"
  by (auto simp: release_if_stale_def stale_running_def stale_row_def released_row_def Let_def
      split: option.splits)

lemma mem_rows_release:
  "mem_rows (fst (release_stale_loop now st m n)) = release_all now st (mem_rows m)"
  by (rule ext) (auto simp: release_stale_loop_eq mem_rows_def release_all_def map_of_map_value
      release_if_stale_row option.map_comp comp_def)

lemma card_stale:
  assumes "distinct (map fst m)"
  shows "length (filter (\<lambda>(k, r). stale_running now st (jr_job r)) m) =
    card {k. \<exists>j. mem_rows m k = Some j \<and> stale_running now st j}"
proof -
  let ?P = "\<lambda>(k, r). stale_running now st (jr_job r)"
  have "{k. \<exists>j. mem_rows m k = Some j \<and> stale_running now st j} = fst ` set (filter ?P m)"
    using assms by (force simp: mem_rows_def map_of_Some_iff_in_set)
  moreover have "distinct (map fst (filter ?P m))"
    using assms by (simp add: distinct_map_filter)
  ultimately show ?thesis
    by (metis (no_types, lifting) card_set length_map list.set_map remdups_id_iff_distinct)
qed


lemma mem_wf_update: "mem_wf m \<Longrightarrow> own_rows k r \<Longrightarrow> mem_wf (AList.update k r m)"
  by (auto simp: mem_wf_def)

lemma mem_wf_get: "mem_wf m \<Longrightarrow> map_of m k = Some r \<Longrightarrow> own_rows k r"
  by (simp add: mem_wf_def)

lemma own_rows_new [simp]: "own_rows k (new_record j) \<longleftrightarrow> job_id j = k"
  by (simp add: own_rows_def new_record_def)

lemma own_rows_claimed: "own_rows k r \<Longrightarrow> job_id (claimed_row (jr_job r) w now) = k"
  by (simp add: own_rows_def claimed_row_def)

lemma own_rows_release_if_stale: "own_rows k r \<Longrightarrow> own_rows k (fst (release_if_stale now st r))"
  by (auto simp: own_rows_def release_if_stale_def Let_def)

lemma mem_wf_release: "mem_wf m \<Longrightarrow> mem_wf (fst (release_stale_loop now st m n))"
  unfolding mem_wf_def release_stale_loop_eq fst_conv
    map_fst_map_value [of "\<lambda>k r. fst (release_if_stale now st r)"]
    map_of_map_value [of "\<lambda>k r. fst (release_if_stale now st r)"]
  by (auto simp: own_rows_release_if_stale)

text \<open>The writes under a lease are one shape: check the fence, then update the record.\<close>

definition fenced_write ::
  "mem_store \<Rightarrow> string \<Rightarrow> string \<Rightarrow> int \<Rightarrow> (job_record \<Rightarrow> job_record) \<Rightarrow> (mem_store, store_error, unit) outcome" where
  "fenced_write m jid wid attempt upd =
     (case map_of m jid of
        None \<Rightarrow> (m, Inl ErrJobNotFound)
      | Some r \<Rightarrow> if \<not> fenceMatches (jr_job r) wid attempt then (m, Inl ErrClaimLost)
                  else (AList.update jid (upd r) m, Inr ()))"

definition completed_record :: "string \<Rightarrow> int \<Rightarrow> completion \<Rightarrow> job_record \<Rightarrow> job_record" where
  "completed_record jid a c r =
     \<lparr>jr_job = (completed_row c (jr_job r))\<lparr>job_attempt := a\<rparr>, jr_completed = True,
      jr_commit_sha = cp_commit_sha c,
      jr_findings = jr_findings r @ stamp_findings jid a (cp_findings c),
      jr_diagnostics = jr_diagnostics r @ stamp_diagnostics jid a (cp_diagnostics c),
      jr_versions = cp_versions c, jr_generated_at = cp_generated_at c\<rparr>"

lemma stamp_append [simp]:
  "stamp_findings jid a (fs @ gs) = stamp_findings jid a fs @ stamp_findings jid a gs"
  "stamp_diagnostics jid a (ds @ es) = stamp_diagnostics jid a ds @ stamp_diagnostics jid a es"
  "stamp_findings jid a [] = []" "stamp_diagnostics jid a [] = []"
  by (simp_all add: stamp_findings_def stamp_diagnostics_def)

lemma fenced_write_eqs:
  "Heartbeat m jid w a now = fenced_write m jid w a (\<lambda>r. r\<lparr>jr_job := (jr_job r)\<lparr>job_heartbeat_at := Some now\<rparr>\<rparr>)"
  "ReleaseClaim m jid w a = fenced_write m jid w a (\<lambda>r. r\<lparr>jr_job := released_row (jr_job r)\<rparr>)"
  "InsertFindings m jid w a fs =
     fenced_write m jid w a (\<lambda>r. r\<lparr>jr_findings := jr_findings r @ stamp_findings jid a fs\<rparr>)"
  "InsertDiagnostics m jid w a ds =
     fenced_write m jid w a (\<lambda>r. r\<lparr>jr_diagnostics := jr_diagnostics r @ stamp_diagnostics jid a ds\<rparr>)"
  "FailJob m jid w a msg t = fenced_write m jid w a (\<lambda>r. r\<lparr>jr_job := failed_row msg t (jr_job r)\<rparr>)"
  unfolding fenced_write_def released_row_def failed_row_def
  by (simp_all only: Heartbeat_def ReleaseClaim_def InsertFindings_def InsertDiagnostics_def FailJob_def)

lemma completed_record_alt:
  "completed_record jid a c r =
     (let r1 = r\<lparr>jr_job := (jr_job r)\<lparr>job_status := JobCompleted, job_attempt := a,
                                    job_finished_at := Some (cp_finished_at c), job_error := None\<rparr>,
                 jr_commit_sha := cp_commit_sha c, jr_versions := cp_versions c,
                 jr_generated_at := cp_generated_at c\<rparr>;
          r2 = (if length (cp_findings c) > 0
                then r1\<lparr>jr_findings := jr_findings r1 @ stamp_findings jid a (cp_findings c)\<rparr> else r1);
          r3 = (if length (cp_diagnostics c) > 0
                then r2\<lparr>jr_diagnostics := jr_diagnostics r2 @ stamp_diagnostics jid a (cp_diagnostics c)\<rparr> else r2)
      in r3\<lparr>jr_completed := True\<rparr>)"
  by (cases r, cases "jr_job r") (simp add: completed_record_def completed_row_def Let_def)

lemma CompleteJob_eq: "CompleteJob m jid w a c = fenced_write m jid w a (completed_record jid a c)"
  unfolding CompleteJob_def fenced_write_def completed_record_alt Let_def by (rule refl)

lemmas write_eqs = fenced_write_eqs CompleteJob_eq

lemma memory_ops_simps [simp]:
  "so_create_job memory_ops = CreateJob" "so_get_job memory_ops = GetJob"
  "so_get_report memory_ops = GetReport" "so_claim_job memory_ops = ClaimJob"
  "so_heartbeat memory_ops = Heartbeat" "so_insert_findings memory_ops = InsertFindings"
  "so_insert_diagnostics memory_ops = InsertDiagnostics" "so_complete_job memory_ops = CompleteJob"
  "so_fail_job memory_ops = FailJob" "so_release_claim memory_ops = ReleaseClaim"
  "so_list_queued memory_ops = ListQueuedOlderThan" "so_release_stale memory_ops = ReleaseStaleRunning"
  by (simp_all add: memory_ops_def)

lemma ReleaseStaleRunning_eq [simp]:
  "ReleaseStaleRunning m now st =
     (fst (release_stale_loop now st m 0), Inr (snd (release_stale_loop now st m 0)))"
  by (simp add: ReleaseStaleRunning_def split: prod.splits)

lemma fenced_write_wf:
  assumes "mem_wf m" "\<And>r. own_rows jid r \<Longrightarrow> job_attempt (jr_job r) = a \<Longrightarrow> own_rows jid (upd r)"
  shows "mem_wf (fst (fenced_write m jid w a upd))"
  using assms mem_wf_get [OF assms(1)]
  by (auto simp: fenced_write_def fence_row_def intro!: mem_wf_update split: option.splits)

lemma fenced_write_rows:
  assumes "\<And>r. job_attempt (jr_job r) = a \<Longrightarrow> jr_job (upd r) = row_upd (jr_job r)"
  shows "(mem_rows (fst (map_result (\<lambda>_. RUnit) (fenced_write m jid w a upd))),
          snd (map_result (\<lambda>_. RUnit) (fenced_write m jid w a upd))) =
         fenced (mem_rows m) jid w a row_upd"
  using assms
  by (auto simp: fenced_write_def fenced_def map_result_def mem_rows_def fence_row_def split: option.splits)

lemma map_result_fst [simp]: "fst (map_result f o1) = fst o1"
  by (simp add: map_result_def)

lemma new_record_claimed:
  "new_record (claimed_row (jr_job r) w now) =
     r\<lparr>jr_job := (jr_job r)\<lparr>job_attempt := job_attempt (jr_job r) + 1, job_status := JobRunning,
                          job_claimed_by := Some w, job_heartbeat_at := Some now,
                          job_started_at := Some now, job_finished_at := None, job_error := None\<rparr>,
       jr_findings := [], jr_diagnostics := [], jr_completed := False,
       jr_commit_sha := [], jr_versions := no_versions, jr_generated_at := 0\<rparr>"
  by (cases r) (simp add: new_record_def claimed_row_def)

lemma ClaimJob_cases:
  "ClaimJob m jid w now st =
     (case map_of m jid of
        None \<Rightarrow> (m, Inl ErrJobNotFound)
      | Some r \<Rightarrow>
          if claimable_row (jr_job r) now st
          then (AList.update jid (new_record (claimed_row (jr_job r) w now)) m,
                Inr \<lparr>cl_job_id = jid, cl_worker_id = w, cl_attempt = job_attempt (jr_job r) + 1,
                     cl_started_at = now\<rparr>)
          else (m, Inl ErrNotClaimable))"
  by (simp add: ClaimJob_def claimable_row_def stale_row_def new_record_claimed Let_def
      split: option.split job_status.split)

lemma mem_wf_call: "mem_wf m \<Longrightarrow> mem_wf (fst (exec_call memory_ops c m))"
proof (cases c)
  case (CallCreate j)
  then show "mem_wf m \<Longrightarrow> ?thesis"
    by (auto simp: CreateJob_def intro: mem_wf_update split: option.splits)
next
  case (CallClaim jid w now st)
  then show "mem_wf m \<Longrightarrow> ?thesis"
    by (auto simp: ClaimJob_cases intro!: mem_wf_update dest: own_rows_claimed [OF mem_wf_get]
        split: option.splits)
qed (simp_all add: write_eqs mem_wf_release,
     auto intro!: fenced_write_wf
       simp: own_rows_def completed_record_def completed_row_def stamp_findings_def stamp_diagnostics_def
         released_row_def failed_row_def)

lemma mem_refines_call:
  assumes "mem_wf m"
  shows "(mem_rows (fst (exec_call memory_ops c m)), snd (exec_call memory_ops c m)) =
    spec_call c (mem_rows m)"
proof (cases c)
  case (CallCreate j)
  then show ?thesis
    by (auto simp: map_result_def CreateJob_def mem_rows_def new_record_def split: option.splits)
next
  case (CallClaim jid w now st)
  then show ?thesis
    by (auto simp: map_result_def ClaimJob_cases mem_rows_def new_record_def split: option.splits)
next
  case (CallReleaseStale now st)
  have "distinct (map fst m)" using assms by (simp add: mem_wf_def)
  then show ?thesis
    using CallReleaseStale mem_rows_release [of now st m 0] card_stale [of m now st]
    by (simp add: map_result_def) (simp add: release_stale_loop_eq)
next
  case (CallComplete jid w a c)
  then show ?thesis
    by (simp only: exec_call.simps memory_ops_simps write_eqs spec_call.simps)
      (rule fenced_write_rows, simp add: completed_record_def completed_row_def)
qed (simp_all only: exec_call.simps memory_ops_simps write_eqs spec_call.simps,
     (rule fenced_write_rows, simp)+)

interpretation mem: job_store memory_ops mem_rows mem_wf
proof unfold_locales
  fix c k and m :: mem_store and jid j t js
  assume wf: "mem_wf m"
  show "mem_wf (fst (exec_call memory_ops c m))" by (rule mem_wf_call [OF wf])
  show "refines_call c (mem_rows m) (mem_rows (fst (exec_call memory_ops c m))) (snd (exec_call memory_ops c m))"
    using mem_refines_call [OF wf, of c]
    by (cases c) (auto simp: refines_call_def fenced_def split: option.splits if_splits)
  show "mem_rows m k = Some j \<Longrightarrow> job_id j = k"
    using wf by (auto simp: mem_rows_def mem_wf_def own_rows_def)
  show "so_get_job memory_ops m jid = Inr j \<Longrightarrow> mem_rows m jid = Some j"
    by (auto simp: memory_ops_def GetJob_def mem_rows_def split: option.splits)
  show "so_get_job memory_ops m jid = Inl ErrJobNotFound \<Longrightarrow> mem_rows m jid = None"
    by (auto simp: memory_ops_def GetJob_def mem_rows_def split: option.splits)
  show "so_list_queued memory_ops m t = Inr js \<Longrightarrow>
      set js = {j. \<exists>k. mem_rows m k = Some j \<and> job_status j = JobQueued \<and> job_created_at j < t}"
    using wf by (force simp: memory_ops_def ListQueuedOlderThan_def mem_rows_def mem_wf_def
        map_of_Some_iff_in_set)
qed

section \<open>One lease's effects\<close>

text \<open>The rows a call inserts under one lease of one job.\<close>

fun call_findings :: "string \<Rightarrow> string \<Rightarrow> int \<Rightarrow> store_call \<Rightarrow> job_finding list" where
  "call_findings jid w a (CallInsertFindings jid' w' a' fs) =
     (if jid' = jid \<and> w' = w \<and> a' = a then fs else [])"
| "call_findings jid w a _ = []"

fun call_diagnostics :: "string \<Rightarrow> string \<Rightarrow> int \<Rightarrow> store_call \<Rightarrow> job_diagnostic list" where
  "call_diagnostics jid w a (CallInsertDiagnostics jid' w' a' ds) =
     (if jid' = jid \<and> w' = w \<and> a' = a then ds else [])"
| "call_diagnostics jid w a _ = []"

lemma release_if_stale_fields [simp]:
  "jr_findings (fst (release_if_stale now st r)) = jr_findings r"
  "jr_diagnostics (fst (release_if_stale now st r)) = jr_diagnostics r"
  by (simp_all add: release_if_stale_def Let_def)

text \<open>What one call leaves under a key.\<close>

lemma fenced_write_lookup:
  "map_of (fst (fenced_write m jid w a upd)) k =
     map_option (\<lambda>r. if k = jid \<and> fence_row (jr_job r) w a then upd r else r) (map_of m k)"
  by (cases "map_of m jid"; cases "map_of m k") (auto simp: fenced_write_def)

lemma claim_lookup:
  "map_of (fst (ClaimJob m jid w now st)) k =
     map_option (\<lambda>r. if k = jid \<and> claimable_row (jr_job r) now st
                     then new_record (claimed_row (jr_job r) w now) else r) (map_of m k)"
  by (cases "map_of m jid"; cases "map_of m k") (auto simp: ClaimJob_cases)

lemma release_stale_lookup:
  "map_of (fst (release_stale_loop now st m n)) k =
     map_option (\<lambda>r. fst (release_if_stale now st r)) (map_of m k)"
  by (simp add: release_stale_loop_eq map_of_map_value)

lemma create_lookup:
  "map_of m k = Some r \<Longrightarrow> map_of (fst (CreateJob m j)) k = Some r"
  by (auto simp: CreateJob_def split: option.splits)

lemmas call_lookups = write_eqs fenced_write_lookup claim_lookup release_stale_lookup create_lookup

lemma fence_unique: "fence_row j w a \<Longrightarrow> fence_row j w' a' \<longleftrightarrow> w' = w \<and> a' = a"
  by (auto simp: fence_row_def)

lemma not_fenced_after:
  "fence_row j w a \<Longrightarrow> \<not> fence_row (claimed_row j w' now) w a"
  "\<not> fence_row (jr_job (completed_record jid a' c r)) w a"
  by (auto simp: fence_row_def claimed_row_def completed_record_def completed_row_def)

lemma fenced_call_rows:
  assumes "map_of m jid = Some r" "fence_row (jr_job r) w a"
    and "map_of (fst (exec_call memory_ops c m)) jid = Some r'" "fence_row (jr_job r') w a"
  shows "jr_findings r' = jr_findings r @ stamp_findings jid a (call_findings jid w a c)
    \<and> jr_diagnostics r' = jr_diagnostics r @ stamp_diagnostics jid a (call_diagnostics jid w a c)"
  using assms(3)
  by (cases c)
    (use assms(1,4) in \<open>auto simp: call_lookups fence_unique [OF assms(2)] new_record_def
       not_fenced_after(1) [OF assms(2)] not_fenced_after(2) split: if_splits\<close>)

lemma fence_not_lost: "a \<le> job_attempt j \<Longrightarrow> \<not> lease_lost j w a \<Longrightarrow> fence_row j w a"
  by (simp add: lease_lost_def)

lemma fenced_run_rows:
  assumes "mem_wf m" "map_of m jid = Some r" "fence_row (jr_job r) w a"
    and "map_of (run_calls memory_ops cs m) jid = Some r'" "fence_row (jr_job r') w a"
  shows "jr_findings r' = jr_findings r @ stamp_findings jid a (concat (map (call_findings jid w a) cs))
    \<and> jr_diagnostics r' = jr_diagnostics r @ stamp_diagnostics jid a (concat (map (call_diagnostics jid w a) cs))"
  using assms
proof (induction cs arbitrary: m r)
  case Nil
  then show ?case by simp
next
  case (Cons c cs)
  let ?m1 = "fst (exec_call memory_ops c m)"
  have wf1: "mem_wf ?m1" by (rule mem_wf_call [OF Cons.prems(1)])
  have row: "mem_rows m jid = Some (jr_job r)" using Cons.prems(2) by (simp add: mem_rows_def)
  obtain r1 where r1: "map_of ?m1 jid = Some r1" and "job_attempt (jr_job r) \<le> job_attempt (jr_job r1)"
    using mem.attempts_grow [OF Cons.prems(1) row, of "[c]"] by (auto simp: mem_rows_def)
  moreover have "\<not> lease_lost (jr_job r1) w a"
  proof
    assume "lease_lost (jr_job r1) w a"
    then have "lease_lost (jr_job r') w a"
      using mem.lost_forever [OF wf1, of jid "jr_job r1" w a cs] r1 Cons.prems(4)
      by (auto simp: mem_rows_def)
    then show False using Cons.prems(5) by (simp add: lease_lost_def)
  qed
  ultimately have f1: "fence_row (jr_job r1) w a"
    using Cons.prems(3) by (auto simp: fence_row_def lease_lost_def)
  show ?case
    using fenced_call_rows [OF Cons.prems(2,3) r1 f1] Cons.IH [OF wf1 r1 f1] Cons.prems(4,5) by simp
qed

lemma ReportFindings_stamp [simp]: "ReportFindings (stamp_findings jid a fs) = ReportFindings fs"
  by (simp add: ReportFindings_def stamp_findings_def)

lemma ReportDiagnostics_stamp [simp]: "ReportDiagnostics (stamp_diagnostics jid a ds) = ReportDiagnostics ds"
  by (simp add: ReportDiagnostics_def stamp_diagnostics_def)

lemma findingSummaryKey_stamp [simp]:
  "findingSummaryKey (f\<lparr>jf_job_id := jid, jf_attempt := a\<rparr>) = findingSummaryKey f"
  by (simp add: findingSummaryKey_def)

lemma foldl_count_stamp [simp]:
  "foldl count_finding m (stamp_findings jid a fs) = foldl count_finding m fs"
  by (induction fs arbitrary: m) (simp_all add: stamp_findings_def count_finding_def Let_def)

lemma SummarizeFindings_stamp [simp]: "SummarizeFindings (stamp_findings jid a fs) = SummarizeFindings fs"
  by (simp add: SummarizeFindings_def)

lemma findingsForAttempt_stamp [simp]: "findingsForAttempt (stamp_findings jid a fs) a = stamp_findings jid a fs"
  by (simp add: findingsForAttempt_def stamp_findings_def)

lemma diagnosticsForAttempt_stamp [simp]:
  "diagnosticsForAttempt (stamp_diagnostics jid a ds) a = stamp_diagnostics jid a ds"
  by (simp add: diagnosticsForAttempt_def stamp_diagnostics_def)

text \<open>A terminal record is never written again.\<close>

lemma terminal_call_record:
  assumes "map_of m jid = Some r" "terminal_row (jr_job r)"
  shows "map_of (fst (exec_call memory_ops c m)) jid = Some r"
proof (cases c)
  case (CallReleaseStale now st)
  then show ?thesis using assms
    by (auto simp: call_lookups release_if_stale_def terminal_row_def)
qed (use assms in \<open>simp_all add: call_lookups terminal_not_fenced terminal_not_claimable\<close>)

lemma terminal_run_record:
  "map_of m jid = Some r \<Longrightarrow> terminal_row (jr_job r) \<Longrightarrow> map_of (run_calls memory_ops cs m) jid = Some r"
  by (induction cs arbitrary: m) (auto simp: terminal_call_record)

section \<open>Reachable stores\<close>

text \<open>The stores the exported operations can build: any calls, starting from an empty store.\<close>

definition reachable_store :: "mem_store \<Rightarrow> bool" where
  "reachable_store m \<longleftrightarrow> (\<exists>cs. m = run_calls memory_ops cs NewStore)"

lemma mem_wf_new: "mem_wf NewStore"
  by (simp add: mem_wf_def NewStore_def)

lemma reachable_wf: "reachable_store m \<Longrightarrow> mem_wf m"
  unfolding reachable_store_def using mem.wf_run [OF mem_wf_new] by blast

lemma reachable_new: "reachable_store NewStore"
  unfolding reachable_store_def by (rule exI [of _ "[]"]) simp

lemma reachable_run: "reachable_store m \<Longrightarrow> reachable_store (run_calls memory_ops cs m)"
  unfolding reachable_store_def by (metis run_calls_append)

lemma claim_reachable: "ClaimJob m jid w now st = (m1, x) \<Longrightarrow> reachable_store m \<Longrightarrow> reachable_store m1"
  using reachable_run [of m "[CallClaim jid w now st]"] by simp

lemma claim_success:
  assumes "ClaimJob m jid w now st = (m1, Inr l)"
  obtains r where "map_of m jid = Some r" "claimable_row (jr_job r) now st"
    "map_of m1 jid = Some (new_record (claimed_row (jr_job r) w now))"
    "cl_attempt l = job_attempt (jr_job r) + 1"
  using assms by (auto simp: ClaimJob_cases split: option.splits if_splits)

lemma fenced_write_success:
  assumes "fenced_write m jid w a upd = (m1, Inr u)"
  obtains r where "map_of m jid = Some r" "fence_row (jr_job r) w a" "map_of m1 jid = Some (upd r)"
  using assms by (auto simp: fenced_write_def split: option.splits if_splits)

lemma fenced_write_lost:
  "mem_rows m jid = Some j \<Longrightarrow> \<not> fence_row j w a \<Longrightarrow>
   fenced_write m jid w a upd = (m, Inl ErrClaimLost)"
  by (auto simp: fenced_write_def mem_rows_def)

lemma GetReport_completed:
  assumes "map_of m jid = Some (completed_record jid a c r)"
    and "jr_findings r = stamp_findings jid a fs" "jr_diagnostics r = stamp_diagnostics jid a ds"
  shows "GetReport m jid =
    Inr \<lparr>rp_report_version = ReportVersion1, rp_job_id = job_id (jr_job r), rp_kind = job_kind (jr_job r),
         rp_params = job_params (jr_job r), rp_commit_sha = cp_commit_sha c,
         rp_summary = SummarizeFindings (fs @ cp_findings c),
         rp_findings = ReportFindings (fs @ cp_findings c),
         rp_diagnostics = ReportDiagnostics (ds @ cp_diagnostics c),
         rp_error = None, rp_versions = cp_versions c, rp_generated_at = cp_generated_at c\<rparr>"
  using assms
  by (simp add: GetReport_def completed_record_def completed_row_def Let_def stamp_append [symmetric]
      del: stamp_append)

section \<open>Properties\<close>



text \<open>C33. Fencing: once a job has been claimed again (by any worker, the same one
  included), the second lease's attempt is higher, and whatever is called afterwards,
  every write under the first lease returns ErrClaimLost and changes nothing.\<close>

theorem reclaimed_lease_is_dead:
  assumes "reachable_store m"
    and "ClaimJob m jid w now st = (m1, Inr l)"
    and "ClaimJob (run_calls memory_ops cs m1) jid w' now' st' = (m2, Inr l')"
    and m3_def: "m3 = run_calls memory_ops ds m2"
  shows "cl_attempt l < cl_attempt l'
    \<and> Heartbeat m3 jid w (cl_attempt l) t = (m3, Inl ErrClaimLost)
    \<and> InsertFindings m3 jid w (cl_attempt l) fs = (m3, Inl ErrClaimLost)
    \<and> InsertDiagnostics m3 jid w (cl_attempt l) dgs = (m3, Inl ErrClaimLost)
    \<and> CompleteJob m3 jid w (cl_attempt l) c = (m3, Inl ErrClaimLost)
    \<and> FailJob m3 jid w (cl_attempt l) msg t = (m3, Inl ErrClaimLost)
    \<and> ReleaseClaim m3 jid w (cl_attempt l) = (m3, Inl ErrClaimLost)"
proof -
  obtain r :: job_record where r1: "map_of m1 jid = Some (new_record (claimed_row (jr_job r) w now))"
    and a: "cl_attempt l = job_attempt (jr_job r) + 1"
    by (rule claim_success [OF assms(2)]) blast
  obtain r2 where r2: "map_of (run_calls memory_ops cs m1) jid = Some r2"
    and r2': "map_of m2 jid = Some (new_record (claimed_row (jr_job r2) w' now'))"
    and a': "cl_attempt l' = job_attempt (jr_job r2) + 1"
    by (rule claim_success [OF assms(3)]) blast
  have reach: "reachable_store m1" by (rule claim_reachable [OF assms(2,1)])
  have reach2: "reachable_store m2" by (rule claim_reachable [OF assms(3) reachable_run [OF reach]])
  have less: "cl_attempt l < cl_attempt l'"
    using mem.attempts_grow [OF reachable_wf [OF reach], of jid _ cs] r1 r2 a a'
    by (fastforce simp: mem_rows_def new_record_def claimed_row_def)
  have "lease_lost (claimed_row (jr_job r2) w' now') w (cl_attempt l)"
    using less a' by (simp add: lease_lost_def fence_row_def claimed_row_def)
  moreover have "mem_rows m2 jid = Some (claimed_row (jr_job r2) w' now')"
    using r2' by (simp add: mem_rows_def new_record_def)
  ultimately obtain j where "mem_rows m3 jid = Some j" "lease_lost j w (cl_attempt l)"
    using mem.lost_forever [OF reachable_wf [OF reach2]] unfolding m3_def by blast
  then show ?thesis
    using less by (simp add: write_eqs fenced_write_lost lease_lost_def)
qed

text \<open>A completed or failed job is final: no sequence of calls changes its row or what
  GetReport answers for it.\<close>

theorem terminal_job_is_final:
  assumes "GetJob m jid = Inr j" "job_status j = JobCompleted \<or> job_status j = JobFailed"
  shows "GetJob (run_calls memory_ops cs m) jid = Inr j
    \<and> GetReport (run_calls memory_ops cs m) jid = GetReport m jid"
proof -
  obtain r where r: "map_of m jid = Some r" "jr_job r = j"
    using assms(1) by (auto simp: GetJob_def split: option.splits)
  then have "map_of (run_calls memory_ops cs m) jid = Some r"
    using assms(2) by (intro terminal_run_record) (auto simp: terminal_row_def)
  then show ?thesis using r by (simp add: GetJob_def GetReport_def)
qed

text \<open>A report summary counts exactly: the entry for a source and key is the number of
  findings with that source whose rubric (agent) or payload rule (otherwise) is the key,
  and findings without a key are not counted.\<close>

theorem summary_counts_exact:
  "summary_count (SummarizeFindings fs) source key =
     (if key = [] then 0 else int (length (filter (counted_as source key) fs)))"
proof (cases "key = []")
  case True
  then show ?thesis
    using fold_no_empty_key [of Map.empty fs source]
    by (auto simp: summary_count_def SummarizeFindings_def split: option.splits)
next
  case False
  then show ?thesis
    using summary_count_fold [OF False, of Map.empty fs None None source]
    by (simp add: SummarizeFindings_def summary_count_def)
qed

section \<open>Witnesses\<close>

definition demo_job :: job where
  "demo_job = \<lparr>job_id = ''j'', job_kind = JobKindRepoBaselineScan, job_params = RawNil,
     job_status = JobQueued, job_error = None, job_created_at = 1, job_started_at = None,
     job_finished_at = None, job_claimed_by = None, job_heartbeat_at = None, job_attempt = 0,
     job_created_by_provider = ''p'', job_created_by_subject = ''s'', job_created_by_login = ''l''\<rparr>"

definition demo_finding :: job_finding where
  "demo_finding = \<lparr>jf_id = ''f'', jf_job_id = [], jf_attempt = 0, jf_source = FindingSourceAgent,
     jf_rubric_id = Some ''r'', jf_rubric_version = None, jf_model_identity = None,
     jf_payload = RawNil, jf_payload_hash = ''h'', jf_created_at = 2\<rparr>"

definition demo_completion :: completion where
  "demo_completion = \<lparr>cp_attempt = 1, cp_commit_sha = ''c'', cp_findings = [demo_finding],
     cp_diagnostics = [], cp_versions = no_versions, cp_finished_at = 9, cp_generated_at = 9\<rparr>"

definition demo_store :: mem_store where
  "demo_store = run_calls memory_ops [CallCreate demo_job] NewStore"

lemma demo_reachable: "reachable_store demo_store"
  by (simp only: demo_store_def reachable_run [OF reachable_new])

lemmas demo_defs = demo_store_def demo_job_def demo_finding_def demo_completion_def NewStore_def
  CreateJob_def ClaimJob_def CompleteJob_def map_result_def new_record_def Let_def fenceMatches_def
  fence_row_def time_sub_def max_duration_def min_duration_def



lemma reclaimed_lease_is_dead_witness:
  "\<exists>m1 l m2 l'. ClaimJob demo_store ''j'' ''w'' 5 10 = (m1, Inr l)
    \<and> ClaimJob (run_calls memory_ops [] m1) ''j'' ''w'' 15 10 = (m2, Inr l')
    \<and> CompleteJob m2 ''j'' ''w'' (cl_attempt l) demo_completion = (m2, Inl ErrClaimLost)"
proof -
  obtain m1 l where c: "ClaimJob demo_store ''j'' ''w'' 5 10 = (m1, Inr l)"
    by (simp add: demo_defs)
  obtain m2 l' where d: "ClaimJob (run_calls memory_ops [] m1) ''j'' ''w'' 15 10 = (m2, Inr l')"
    using c by (auto simp: demo_defs)
  show ?thesis
    using c d reclaimed_lease_is_dead [OF demo_reachable c d, of m2 "[]"] by auto
qed

lemma terminal_job_is_final_witness:
  "GetJob (run_calls memory_ops [CallClaim ''j'' ''w'' 5 10]
     [(''j'', new_record (demo_job\<lparr>job_status := JobFailed\<rparr>))]) ''j'' = Inr (demo_job\<lparr>job_status := JobFailed\<rparr>)"
  using terminal_job_is_final [of "[(''j'', new_record (demo_job\<lparr>job_status := JobFailed\<rparr>))]" "''j''"
      "demo_job\<lparr>job_status := JobFailed\<rparr>" "[CallClaim ''j'' ''w'' 5 10]"]
  by (simp add: GetJob_def new_record_def)

end
