(* ===== verification/TaskQueue.thy ===== *)
theory TaskQueue
  imports JobDomain
begin

text \<open>
  The queue port (internal/coachapi/queue): tasks, claims, backend capabilities, the
  TaskQueue interface as a record of operations, and its contract as the locale
  \<open>task_queue\<close>: a settled or superseded claim token is dead for good, and a permanent
  failure reaches the poison destination exactly once per acknowledged Nack.  Also the
  versioned task payload (internal/coachapi/task_payload.go).
\<close>

section \<open>Tasks, claims and capabilities\<close>

record task =
  tk_id :: string
  tk_payload :: string

record queue_claim =
  qc_task_id :: string
  qc_attempt :: int
  qc_token :: string

datatype queue_error =
    StaleClaim string
  | QueueFailure string

record capabilities =
  NativeDeadLetterQueue :: bool
  DelayedDelivery :: bool
  OrderedDelivery :: bool
  LeaseExtension :: bool
  NativeFanOut :: bool

definition RequireCapabilities :: "capabilities \<Rightarrow> capabilities \<Rightarrow> string list option" where
  "RequireCapabilities have want =
     (let missing =
        (if NativeDeadLetterQueue want \<and> \<not> NativeDeadLetterQueue have then [''NativeDeadLetterQueue''] else [])
        @ (if DelayedDelivery want \<and> \<not> DelayedDelivery have then [''DelayedDelivery''] else [])
        @ (if OrderedDelivery want \<and> \<not> OrderedDelivery have then [''OrderedDelivery''] else [])
        @ (if LeaseExtension want \<and> \<not> LeaseExtension have then [''LeaseExtension''] else [])
        @ (if NativeFanOut want \<and> \<not> NativeFanOut have then [''NativeFanOut''] else [])
      in if length missing = 0 then None else Some missing)"

text \<open>The no-op event bus: publishing succeeds, a subscription delivers nothing.\<close>

definition NoOpPublish :: "string \<Rightarrow> string \<Rightarrow> string option" where
  "NoOpPublish topic payload = None"

definition NoOpSubscribe :: "string \<Rightarrow> string + string list" where
  "NoOpSubscribe topic = Inr []"

section \<open>Task payloads\<close>

text \<open>
  The text encoding/json writes for a string: two-character escapes, \<open>u00xx\<close> escapes for
  the other control characters and for the three HTML characters.  Bytes from 128 up
  belong to multi-byte UTF-8 sequences and are copied.
\<close>

definition json_escape :: "char \<Rightarrow> string" where
  "json_escape ch = (let n = of_char ch :: nat in
     if n = 34 \<or> n = 92 then [CHR 0x5C, ch]
     else if n = 8 then [CHR 0x5C, CHR ''b'']
     else if n = 12 then [CHR 0x5C, CHR ''f'']
     else if n = 10 then [CHR 0x5C, CHR ''n'']
     else if n = 13 then [CHR 0x5C, CHR ''r'']
     else if n = 9 then [CHR 0x5C, CHR ''t'']
     else if n < 32 \<or> n = 60 \<or> n = 62 \<or> n = 38
     then [CHR 0x5C, CHR ''u'', CHR ''0'', CHR ''0'', hex_digit (n div 16), hex_digit (n mod 16)]
     else [ch])"

definition json_quote :: "string \<Rightarrow> string" where
  "json_quote s = [CHR 0x22] @ concat (map json_escape s) @ [CHR 0x22]"

definition MarshalTaskPayload :: "string \<Rightarrow> string" where
  "MarshalTaskPayload jid =
     ''{'' @ json_quote ''schema_version'' @ '':1,'' @ json_quote ''job_id'' @ '':'' @ json_quote jid @ ''}''"

section \<open>The interface\<close>

record 'q queue_ops =
  qo_enqueue :: "'q \<Rightarrow> task \<Rightarrow> ('q, queue_error, unit) outcome"
  qo_claim :: "'q \<Rightarrow> ('q, queue_error, queue_claim option) outcome"
  qo_complete :: "'q \<Rightarrow> queue_claim \<Rightarrow> ('q, queue_error, unit) outcome"
  qo_nack :: "'q \<Rightarrow> queue_claim \<Rightarrow> bool \<Rightarrow> ('q, queue_error, unit) outcome"

datatype queue_call =
    QEnqueue task
  | QClaim
  | QComplete queue_claim
  | QNack queue_claim bool

fun exec_queue :: "'q queue_ops \<Rightarrow> queue_call \<Rightarrow> 'q \<Rightarrow> 'q" where
  "exec_queue Q (QEnqueue t) q = fst (qo_enqueue Q q t)"
| "exec_queue Q QClaim q = fst (qo_claim Q q)"
| "exec_queue Q (QComplete c) q = fst (qo_complete Q q c)"
| "exec_queue Q (QNack c p) q = fst (qo_nack Q q c p)"

fun run_queue :: "'q queue_ops \<Rightarrow> queue_call list \<Rightarrow> 'q \<Rightarrow> 'q" where
  "run_queue Q [] q = q"
| "run_queue Q (c # cs) q = run_queue Q cs (exec_queue Q c q)"

lemma run_queue_append: "run_queue Q (cs @ ds) q = run_queue Q ds (run_queue Q cs q)"
  by (induction cs arbitrary: q) auto

text \<open>
  \<open>owner q token\<close> is the task a token entitles its holder to settle, if any;
  \<open>spent q\<close> holds the tokens that once were outstanding and no longer are;
  \<open>poison q\<close> lists the tasks routed to the poison destination.
\<close>

locale task_queue =
  fixes Q :: "'q queue_ops"
    and qwf :: "'q \<Rightarrow> bool"
    and owner :: "'q \<Rightarrow> string \<Rightarrow> string option"
    and spent :: "'q \<Rightarrow> string set"
    and poison :: "'q \<Rightarrow> string list"
  assumes qwf_step: "qwf q \<Longrightarrow> qwf (exec_queue Q c q)"
    and spent_mono: "qwf q \<Longrightarrow> spent q \<subseteq> spent (exec_queue Q c q)"
    and spent_dead: "qwf q \<Longrightarrow> t \<in> spent q \<Longrightarrow> owner q t = None"
    and claim_owner: "qwf q \<Longrightarrow> qo_claim Q q = (q', Inr (Some cl)) \<Longrightarrow>
      owner q' (qc_token cl) = Some (qc_task_id cl)"
    and complete_ok: "qwf q \<Longrightarrow> qo_complete Q q cl = (q', Inr u) \<Longrightarrow>
      owner q (qc_token cl) = Some (qc_task_id cl) \<and> qc_token cl \<in> spent q' \<and> poison q' = poison q"
    and nack_ok: "qwf q \<Longrightarrow> qo_nack Q q cl p = (q', Inr u) \<Longrightarrow>
      owner q (qc_token cl) = Some (qc_task_id cl) \<and> qc_token cl \<in> spent q'
      \<and> poison q' = poison q @ (if p then [qc_task_id cl] else [])"
begin

lemma qwf_run: "qwf q \<Longrightarrow> qwf (run_queue Q cs q)"
  by (induction cs arbitrary: q) (auto intro: qwf_step)

lemma spent_forever: "qwf q \<Longrightarrow> spent q \<subseteq> spent (run_queue Q cs q)"
proof (induction cs arbitrary: q)
  case Nil
  then show ?case by simp
next
  case (Cons c cs)
  then show ?case
    using spent_mono [of q c] Cons.IH [OF qwf_step [OF Cons.prems]] by auto
qed

lemma spent_rejected:
  assumes "qwf q" "qc_token c \<in> spent q"
  shows "\<not> is_ok (snd (qo_complete Q q c)) \<and> \<not> is_ok (snd (qo_nack Q q c p))"
proof -
  have "owner q (qc_token c) = None" using spent_dead [OF assms] .
  then show ?thesis
    using complete_ok [OF assms(1), of c] nack_ok [OF assms(1), of c p]
    by (cases "qo_complete Q q c"; cases "qo_nack Q q c p";
        cases "snd (qo_complete Q q c)"; cases "snd (qo_nack Q q c p)") auto
qed

text \<open>A claim settles at most once, whatever happens in between.\<close>

lemma settled_once:
  assumes "qwf q" "qo_complete Q q c = (q', Inr u) \<or> qo_nack Q q c p = (q', Inr u)"
  shows "\<not> is_ok (snd (qo_complete Q (run_queue Q cs q') c))
    \<and> \<not> is_ok (snd (qo_nack Q (run_queue Q cs q') c p'))"
proof -
  have "qwf q'"
    using qwf_step [OF assms(1), of "QComplete c"] qwf_step [OF assms(1), of "QNack c p"] assms(2) by auto
  moreover have "qc_token c \<in> spent q'"
    using complete_ok [OF assms(1), of c] nack_ok [OF assms(1), of c p] assms(2) by blast
  ultimately show ?thesis
    using spent_forever [of q' cs] spent_rejected [OF qwf_run] by blast
qed

end

end
