(* ===== verification/JobWorker.thy ===== *)
theory JobWorker
  imports MemoryStore TaskQueue "HOL-Library.Word"
begin

text \<open>
  The coach worker (internal/coachapi/worker): configuration defaults, one ProcessNext
  cycle (load, settle, claim, run, disposition), the requeue reconciler and its
  start/stop slot.

  A world is a store, a queue, and how often the worker has read the clock and accessed
  the store.  Other workers act on the store at any time: before the worker's n-th store
  access the calls \<open>wk_others W n\<close> run, an arbitrary list.  A handler is outside this
  package: what it writes, when heartbeats tick meanwhile, and how it ends are given by
  \<open>wk_handler W job lease\<close>.  The log records every queue call with the store it found.
\<close>

section \<open>Errors\<close>

datatype go_error =
    ErrText string
  | ErrStore store_error
  | ErrQueue queue_error
  | ErrCtx string
  | ErrWrap string go_error
  | ErrRetryable go_error

fun Retryable :: "go_error option \<Rightarrow> go_error option" where
  "Retryable None = None"
| "Retryable (Some e) = Some (ErrRetryable e)"

fun IsRetryable :: "go_error \<Rightarrow> bool" where
  "IsRetryable (ErrRetryable e) = True"
| "IsRetryable (ErrWrap s e) = IsRetryable e"
| "IsRetryable _ = False"

text \<open>\<open>errors.Is(err, coachapi.ErrClaimLost)\<close>.\<close>

fun is_claim_lost :: "go_error \<Rightarrow> bool" where
  "is_claim_lost (ErrStore e) \<longleftrightarrow> e = ErrClaimLost"
| "is_claim_lost (ErrRetryable e) \<longleftrightarrow> is_claim_lost e"
| "is_claim_lost (ErrWrap s e) \<longleftrightarrow> is_claim_lost e"
| "is_claim_lost _ \<longleftrightarrow> False"

fun store_error_text :: "store_error \<Rightarrow> string" where
  "store_error_text ErrJobNotFound = ''coachapi: job not found''"
| "store_error_text ErrNotClaimable = ''coachapi: job not claimable''"
| "store_error_text ErrClaimLost = ''coachapi: claim lost''"
| "store_error_text (ErrStoreFailure msg) = msg"

fun error_text :: "go_error \<Rightarrow> string" where
  "error_text (ErrText s) = s"
| "error_text (ErrStore e) = store_error_text e"
| "error_text (ErrQueue e) = (case e of StaleClaim s \<Rightarrow> s | QueueFailure s \<Rightarrow> s)"
| "error_text (ErrCtx s) = s"
| "error_text (ErrWrap s e) = s @ '': '' @ error_text e"
| "error_text (ErrRetryable e) = error_text e"

section \<open>Configuration\<close>

record worker_config =
  wc_WorkerID :: string
  wc_HeartbeatInterval :: duration
  wc_StaleAfter :: duration
  wc_ReconcileInterval :: duration
  wc_QueuedAgeThreshold :: duration
  wc_MaxAttempts :: int

definition defaultHeartbeatInterval :: duration where "defaultHeartbeatInterval = 15 * second"
definition defaultStaleAfter :: duration where "defaultStaleAfter = 60 * second"
definition defaultReconcileInterval :: duration where "defaultReconcileInterval = 30 * second"
definition defaultQueuedAgeThreshold :: duration where "defaultQueuedAgeThreshold = 30 * second"
definition defaultMaxAttempts :: int where "defaultMaxAttempts = 5"

datatype worker_config_error = WorkerIDRequired | StaleAfterTooShort

definition withDefaults :: "worker_config \<Rightarrow> worker_config_error + worker_config" where
  "withDefaults c =
     (if wc_WorkerID c = [] then Inl WorkerIDRequired
      else
        let c1 = (if wc_HeartbeatInterval c \<le> 0 then c\<lparr>wc_HeartbeatInterval := defaultHeartbeatInterval\<rparr> else c);
            c2 = (if wc_StaleAfter c1 \<le> 0 then c1\<lparr>wc_StaleAfter := defaultStaleAfter\<rparr> else c1);
            c3 = (if wc_ReconcileInterval c2 \<le> 0 then c2\<lparr>wc_ReconcileInterval := defaultReconcileInterval\<rparr> else c2);
            c4 = (if wc_QueuedAgeThreshold c3 \<le> 0 then c3\<lparr>wc_QueuedAgeThreshold := defaultQueuedAgeThreshold\<rparr> else c3);
            c5 = (if wc_MaxAttempts c4 \<le> 0 then c4\<lparr>wc_MaxAttempts := defaultMaxAttempts\<rparr> else c4)
        in if wc_StaleAfter c5 < wrap64 (3 * wc_HeartbeatInterval c5) then Inl StaleAfterTooShort
           else Inr c5)"

section \<open>Worlds\<close>

text \<open>Queue calls with the store they found and whether they succeeded.\<close>

datatype 's queue_event =
    EvComplete queue_claim 's bool
  | EvNack queue_claim bool 's bool
  | EvEnqueue task 's bool

record ('s, 'q) world =
  wd_store :: 's
  wd_queue :: 'q
  wd_clock :: nat
  wd_access :: nat
  wd_log :: "'s queue_event list"

datatype run_event =
    HandlerFindings "job_finding list"
  | HandlerDiagnostics "job_diagnostic list"
  | HeartbeatTick

text \<open>
  How the select in runClaimed ends: the caller's context, or the handler's return value.
  \<open>fence_seen\<close> says whether the select took the fence channel when that was closed too.
\<close>

datatype run_end =
    EndContext string
  | EndHandler "completion option" "go_error option" bool

record handler_run =
  hr_events :: "run_event list"
  hr_end :: run_end

record ('s, 'q) worker =
  wk_store :: "'s store_ops"
  wk_queue :: "'q queue_ops"
  wk_handler :: "job \<Rightarrow> claim_lease \<Rightarrow> handler_run"
  wk_cfg :: worker_config
  wk_now :: "nat \<Rightarrow> time"
  wk_others :: "nat \<Rightarrow> store_call list"

definition clock_now :: "('s, 'q) worker \<Rightarrow> ('s, 'q) world \<Rightarrow> ('s, 'q) world \<times> time" where
  "clock_now W w = (w\<lparr>wd_clock := wd_clock w + 1\<rparr>, wk_now W (wd_clock w))"

definition store_do ::
  "('s, 'q) worker \<Rightarrow> ('s \<Rightarrow> 's \<times> 'r) \<Rightarrow> ('s, 'q) world \<Rightarrow> ('s, 'q) world \<times> 'r" where
  "store_do W f w =
     (let s = run_calls (wk_store W) (wk_others W (wd_access w)) (wd_store w);
          (s', r) = f s
      in (w\<lparr>wd_store := s', wd_access := wd_access w + 1\<rparr>, r))"

definition get_job :: "('s, 'q) worker \<Rightarrow> string \<Rightarrow> ('s, 'q) world \<Rightarrow> ('s, 'q) world \<times> (store_error + job)" where
  "get_job W jid = store_do W (\<lambda>s. (s, so_get_job (wk_store W) s jid))"

definition queue_complete :: "('s, 'q) worker \<Rightarrow> queue_claim \<Rightarrow> ('s, 'q) world \<Rightarrow> ('s, 'q) world \<times> go_error option" where
  "queue_complete W c w =
     (let (q', r) = qo_complete (wk_queue W) (wd_queue w) c
      in (w\<lparr>wd_queue := q', wd_log := wd_log w @ [EvComplete c (wd_store w) (is_ok r)]\<rparr>,
          case r of Inl e \<Rightarrow> Some (ErrQueue e) | Inr _ \<Rightarrow> None))"

definition queue_nack :: "('s, 'q) worker \<Rightarrow> queue_claim \<Rightarrow> bool \<Rightarrow> ('s, 'q) world \<Rightarrow> ('s, 'q) world \<times> go_error option" where
  "queue_nack W c permanent w =
     (let (q', r) = qo_nack (wk_queue W) (wd_queue w) c permanent
      in (w\<lparr>wd_queue := q', wd_log := wd_log w @ [EvNack c permanent (wd_store w) (is_ok r)]\<rparr>,
          case r of Inl e \<Rightarrow> Some (ErrQueue e) | Inr _ \<Rightarrow> None))"

definition queue_enqueue :: "('s, 'q) worker \<Rightarrow> task \<Rightarrow> ('s, 'q) world \<Rightarrow> ('s, 'q) world \<times> go_error option" where
  "queue_enqueue W t w =
     (let (q', r) = qo_enqueue (wk_queue W) (wd_queue w) t
      in (w\<lparr>wd_queue := q', wd_log := wd_log w @ [EvEnqueue t (wd_store w) (is_ok r)]\<rparr>,
          case r of Inl e \<Rightarrow> Some (ErrQueue e) | Inr _ \<Rightarrow> None))"

section \<open>Settling duplicates and terminal jobs\<close>

datatype settle_mode = settleForClaim | settleForDuplicate

definition hasLiveHeartbeat :: "job \<Rightarrow> time \<Rightarrow> duration \<Rightarrow> bool" where
  "hasLiveHeartbeat j now stale_after =
     (case job_heartbeat_at j of None \<Rightarrow> False | Some hb \<Rightarrow> time_sub now hb < stale_after)"

definition settleRunning ::
  "('s, 'q) worker \<Rightarrow> queue_claim \<Rightarrow> job \<Rightarrow> time \<Rightarrow> settle_mode \<Rightarrow> ('s, 'q) world \<Rightarrow> ('s, 'q) world \<times> bool \<times> go_error option" where
  "settleRunning W qc j now mode w =
     (if hasLiveHeartbeat j now (wc_StaleAfter (wk_cfg W))
      then (let (w', e) = queue_complete W qc w in (w', True, e))
      else if mode = settleForDuplicate then (w, True, None)
      else (w, False, None))"

definition settleQueueClaim ::
  "('s, 'q) worker \<Rightarrow> queue_claim \<Rightarrow> job \<Rightarrow> settle_mode \<Rightarrow> ('s, 'q) world \<Rightarrow> ('s, 'q) world \<times> bool \<times> go_error option" where
  "settleQueueClaim W qc j mode w0 =
     (let (w, now) = clock_now W w0 in
      case job_status j of
        JobCompleted \<Rightarrow> (let (w', e) = queue_complete W qc w in (w', True, e))
      | JobFailed \<Rightarrow> (let (w', e) = queue_nack W qc True w in (w', True, e))
      | JobRunning \<Rightarrow> settleRunning W qc j now mode w
      | JobQueued \<Rightarrow> (if mode = settleForDuplicate then (w, True, None) else (w, False, None))
      | JobOther _ \<Rightarrow>
          (if mode = settleForClaim
           then (let (w', e) = queue_complete W qc w in (w', True, e))
           else (w, True, None)))"

section \<open>Running a claimed job\<close>

text \<open>The writer a handler gets stamps the lease's job and attempt before the store does.\<close>

definition stamp_lease_findings :: "claim_lease \<Rightarrow> job_finding list \<Rightarrow> job_finding list" where
  "stamp_lease_findings l fs = map (\<lambda>f. f\<lparr>jf_job_id := cl_job_id l, jf_attempt := cl_attempt l\<rparr>) fs"

definition stamp_lease_diagnostics :: "claim_lease \<Rightarrow> job_diagnostic list \<Rightarrow> job_diagnostic list" where
  "stamp_lease_diagnostics l ds = map (\<lambda>d. d\<lparr>jd_job_id := cl_job_id l, jd_attempt := cl_attempt l\<rparr>) ds"

definition writer_InsertFindings ::
  "('s, 'q) worker \<Rightarrow> claim_lease \<Rightarrow> job_finding list \<Rightarrow> ('s, 'q) world \<Rightarrow> ('s, 'q) world \<times> (store_error + unit)" where
  "writer_InsertFindings W l fs =
     store_do W (\<lambda>s. so_insert_findings (wk_store W) s (cl_job_id l) (cl_worker_id l) (cl_attempt l)
                       (stamp_lease_findings l fs))"

definition writer_InsertDiagnostics ::
  "('s, 'q) worker \<Rightarrow> claim_lease \<Rightarrow> job_diagnostic list \<Rightarrow> ('s, 'q) world \<Rightarrow> ('s, 'q) world \<times> (store_error + unit)" where
  "writer_InsertDiagnostics W l ds =
     store_do W (\<lambda>s. so_insert_diagnostics (wk_store W) s (cl_job_id l) (cl_worker_id l) (cl_attempt l)
                       (stamp_lease_diagnostics l ds))"

text \<open>A store call that failed because its context ended reports the context's own error text.\<close>

definition is_context_error :: "store_error \<Rightarrow> bool" where
  "is_context_error e \<longleftrightarrow>
     e = ErrStoreFailure ''context canceled'' \<or> e = ErrStoreFailure ''context deadline exceeded''"

text \<open>One heartbeat: whether the loop should exit, and whether the fence was lost.\<close>

definition beatOnce ::
  "('s, 'q) worker \<Rightarrow> claim_lease \<Rightarrow> ('s, 'q) world \<Rightarrow> ('s, 'q) world \<times> bool \<times> bool" where
  "beatOnce W l w0 =
     (let (w1, now) = clock_now W w0;
          (w2, r) = store_do W (\<lambda>s. so_heartbeat (wk_store W) s (cl_job_id l) (cl_worker_id l) (cl_attempt l) now) w1
      in case r of
           Inr _ \<Rightarrow> (w2, False, False)
         | Inl e \<Rightarrow> if e = ErrClaimLost then (w2, True, True)
                    else if is_context_error e then (w2, True, False)
                    else (w2, False, False))"

text \<open>
  The handler and the heartbeat loop side by side, in the order the events come:
  \<open>beating\<close> says whether the loop still runs, \<open>lost\<close> whether the fence channel is closed.
\<close>

fun run_handler ::
  "('s, 'q) worker \<Rightarrow> claim_lease \<Rightarrow> run_event list \<Rightarrow> bool \<Rightarrow> bool \<Rightarrow> ('s, 'q) world \<Rightarrow> ('s, 'q) world \<times> bool" where
  "run_handler W l [] beating lost w = (w, lost)"
| "run_handler W l (HandlerFindings fs # es) beating lost w =
     run_handler W l es beating lost (fst (writer_InsertFindings W l fs w))"
| "run_handler W l (HandlerDiagnostics ds # es) beating lost w =
     run_handler W l es beating lost (fst (writer_InsertDiagnostics W l ds w))"
| "run_handler W l (HeartbeatTick # es) beating lost w =
     (if beating
      then (let (w', stop, fence) = beatOnce W l w
            in run_handler W l es (\<not> stop) (lost \<or> fence) w')
      else run_handler W l es beating lost w)"

section \<open>Disposition\<close>

definition releaseForRetry ::
  "('s, 'q) worker \<Rightarrow> queue_claim \<Rightarrow> claim_lease \<Rightarrow> ('s, 'q) world \<Rightarrow> ('s, 'q) world \<times> go_error option" where
  "releaseForRetry W qc l w =
     (case store_do W (\<lambda>s. so_release_claim (wk_store W) s (cl_job_id l) (cl_worker_id l) (cl_attempt l)) w of
        (w1, Inl e) \<Rightarrow>
          if e = ErrClaimLost then (w1, Some (ErrStore ErrClaimLost))
          else (w1, Some (ErrWrap ''worker: release claim'' (ErrStore e)))
      | (w1, Inr _) \<Rightarrow>
          (case queue_nack W qc False w1 of
             (w2, Some e) \<Rightarrow> (w2, Some (ErrWrap ''worker: nack retryable'' e))
           | (w2, None) \<Rightarrow> (w2, None)))"

definition failPermanently ::
  "('s, 'q) worker \<Rightarrow> queue_claim \<Rightarrow> claim_lease \<Rightarrow> go_error \<Rightarrow> ('s, 'q) world \<Rightarrow> ('s, 'q) world \<times> go_error option" where
  "failPermanently W qc l err w0 =
     (let (w, finished) = clock_now W w0 in
      case store_do W (\<lambda>s. so_fail_job (wk_store W) s (cl_job_id l) (cl_worker_id l) (cl_attempt l)
                             (error_text err) finished) w of
        (w1, Inl e) \<Rightarrow>
          if e = ErrClaimLost then (w1, Some (ErrStore ErrClaimLost))
          else (w1, Some (ErrWrap ''worker: fail job'' (ErrStore e)))
      | (w1, Inr _) \<Rightarrow>
          (case queue_nack W qc True w1 of
             (w2, Some e) \<Rightarrow> (w2, Some (ErrWrap ''worker: nack permanent'' e))
           | (w2, None) \<Rightarrow> (w2, None)))"

definition dispositionHandlerError ::
  "('s, 'q) worker \<Rightarrow> queue_claim \<Rightarrow> claim_lease \<Rightarrow> go_error \<Rightarrow> ('s, 'q) world \<Rightarrow> ('s, 'q) world \<times> go_error option" where
  "dispositionHandlerError W qc l err w =
     (if IsRetryable err \<and> cl_attempt l < wc_MaxAttempts (wk_cfg W)
      then releaseForRetry W qc l w
      else failPermanently W qc l err w)"

definition completion_defaults ::
  "('s, 'q) worker \<Rightarrow> claim_lease \<Rightarrow> completion \<Rightarrow> ('s, 'q) world \<Rightarrow> ('s, 'q) world \<times> completion" where
  "completion_defaults W l c0 w0 =
     (let c1 = (if cp_attempt c0 = 0 then c0\<lparr>cp_attempt := cl_attempt l\<rparr> else c0);
          (w1, c2) = (if is_zero_time (cp_finished_at c1)
                      then (let (w', t) = clock_now W w0 in (w', c1\<lparr>cp_finished_at := t\<rparr>))
                      else (w0, c1));
          c3 = (if is_zero_time (cp_generated_at c2) then c2\<lparr>cp_generated_at := cp_finished_at c2\<rparr> else c2)
      in (w1, c3))"

definition completeClaimed ::
  "('s, 'q) worker \<Rightarrow> queue_claim \<Rightarrow> claim_lease \<Rightarrow> completion \<Rightarrow> ('s, 'q) world \<Rightarrow> ('s, 'q) world \<times> go_error option" where
  "completeClaimed W qc l c0 w0 =
     (let (w1, c) = completion_defaults W l c0 w0 in
      case store_do W (\<lambda>s. so_complete_job (wk_store W) s (cl_job_id l) (cl_worker_id l) (cl_attempt l) c) w1 of
        (w2, Inl e) \<Rightarrow>
          if e = ErrClaimLost then (w2, Some (ErrStore ErrClaimLost))
          else (w2, Some (ErrWrap ''worker: complete job'' (ErrStore e)))
      | (w2, Inr _) \<Rightarrow> queue_complete W qc w2)"

definition finishHandlerOutcome ::
  "('s, 'q) worker \<Rightarrow> queue_claim \<Rightarrow> claim_lease \<Rightarrow> completion option \<Rightarrow> go_error option \<Rightarrow> ('s, 'q) world
   \<Rightarrow> ('s, 'q) world \<times> go_error option" where
  "finishHandlerOutcome W qc l completion err w =
     (case err of
        Some e \<Rightarrow>
          if is_claim_lost e then (w, Some (ErrStore ErrClaimLost))
          else dispositionHandlerError W qc l e w
      | None \<Rightarrow>
          (case completion of
             None \<Rightarrow> dispositionHandlerError W qc l (ErrText ''handler returned nil completion'') w
           | Some c \<Rightarrow> completeClaimed W qc l c w))"

definition runClaimed ::
  "('s, 'q) worker \<Rightarrow> queue_claim \<Rightarrow> job \<Rightarrow> claim_lease \<Rightarrow> ('s, 'q) world \<Rightarrow> ('s, 'q) world \<times> go_error option" where
  "runClaimed W qc j l w =
     (let (w1, lost) = run_handler W l (hr_events (wk_handler W j l)) True False w in
      case hr_end (wk_handler W j l) of
        EndContext e \<Rightarrow> (w1, Some (ErrCtx e))
      | EndHandler completion err fence_seen \<Rightarrow>
          if lost \<and> fence_seen then (w1, Some (ErrStore ErrClaimLost))
          else finishHandlerOutcome W qc l completion err w1)"

section \<open>One cycle\<close>

definition ackIfDuplicateOrTerminal ::
  "('s, 'q) worker \<Rightarrow> queue_claim \<Rightarrow> ('s, 'q) world \<Rightarrow> ('s, 'q) world \<times> go_error option" where
  "ackIfDuplicateOrTerminal W qc w =
     (case get_job W (qc_task_id qc) w of
        (w1, Inl e) \<Rightarrow>
          if e = ErrJobNotFound then queue_complete W qc w1 else (w1, Some (ErrStore e))
      | (w1, Inr j) \<Rightarrow>
          (let (w2, settled, err) = settleQueueClaim W qc j settleForDuplicate w1 in (w2, err)))"

definition claimAndRun ::
  "('s, 'q) worker \<Rightarrow> queue_claim \<Rightarrow> job \<Rightarrow> ('s, 'q) world \<Rightarrow> ('s, 'q) world \<times> go_error option" where
  "claimAndRun W qc j w0 =
     (let (w, now) = clock_now W w0 in
      case store_do W (\<lambda>s. so_claim_job (wk_store W) s (job_id j) (wc_WorkerID (wk_cfg W)) now
                             (wc_StaleAfter (wk_cfg W))) w of
        (w1, Inl e) \<Rightarrow>
          if e = ErrNotClaimable then ackIfDuplicateOrTerminal W qc w1
          else (w1, Some (ErrWrap ''worker: claim job'' (ErrStore e)))
      | (w1, Inr l) \<Rightarrow>
          (case get_job W (cl_job_id l) w1 of
             (w2, Inl e) \<Rightarrow> (w2, Some (ErrWrap ''worker: reload job after claim'' (ErrStore e)))
           | (w2, Inr j') \<Rightarrow> runClaimed W qc j' l w2))"

definition loadJobForClaim ::
  "('s, 'q) worker \<Rightarrow> queue_claim \<Rightarrow> ('s, 'q) world \<Rightarrow> ('s, 'q) world \<times> job option \<times> go_error option" where
  "loadJobForClaim W qc w =
     (case get_job W (qc_task_id qc) w of
        (w1, Inl e) \<Rightarrow>
          if e = ErrJobNotFound then (let (w2, err) = queue_complete W qc w1 in (w2, None, err))
          else (w1, None, Some (ErrWrap ''worker: get job'' (ErrStore e)))
      | (w1, Inr j) \<Rightarrow> (w1, Some j, None))"

definition processQueueClaim ::
  "('s, 'q) worker \<Rightarrow> queue_claim \<Rightarrow> ('s, 'q) world \<Rightarrow> ('s, 'q) world \<times> go_error option" where
  "processQueueClaim W qc w =
     (case loadJobForClaim W qc w of
        (w1, _, Some e) \<Rightarrow> (w1, Some e)
      | (w1, None, None) \<Rightarrow> (w1, None)
      | (w1, Some j, None) \<Rightarrow>
          (case settleQueueClaim W qc j settleForClaim w1 of
             (w2, settled, err) \<Rightarrow>
               if err \<noteq> None \<or> settled then (w2, err) else claimAndRun W qc j w2))"

definition ProcessNext :: "('s, 'q) worker \<Rightarrow> ('s, 'q) world \<Rightarrow> ('s, 'q) world \<times> bool \<times> go_error option" where
  "ProcessNext W w =
     (case qo_claim (wk_queue W) (wd_queue w) of
        (q', Inl e) \<Rightarrow> (w\<lparr>wd_queue := q'\<rparr>, False, Some (ErrWrap ''worker: queue claim'' (ErrQueue e)))
      | (q', Inr None) \<Rightarrow> (w\<lparr>wd_queue := q'\<rparr>, False, None)
      | (q', Inr (Some qc)) \<Rightarrow>
          (let (w', err) = processQueueClaim W qc (w\<lparr>wd_queue := q'\<rparr>) in (w', True, err)))"

section \<open>The reconciler\<close>

definition enqueueJob :: "('s, 'q) worker \<Rightarrow> string \<Rightarrow> ('s, 'q) world \<Rightarrow> ('s, 'q) world \<times> go_error option" where
  "enqueueJob W jid w = queue_enqueue W \<lparr>tk_id = jid, tk_payload = MarshalTaskPayload jid\<rparr> w"

fun reenqueueQueued ::
  "('s, 'q) worker \<Rightarrow> job list \<Rightarrow> go_error option \<Rightarrow> ('s, 'q) world \<Rightarrow> ('s, 'q) world \<times> go_error option" where
  "reenqueueQueued W [] first_err w = (w, first_err)"
| "reenqueueQueued W (j # js) first_err w =
     (let (w', err) = enqueueJob W (job_id j) w
      in reenqueueQueued W js (if err \<noteq> None \<and> first_err = None then err else first_err) w')"

definition ReconcileOnce :: "('s, 'q) worker \<Rightarrow> ('s, 'q) world \<Rightarrow> ('s, 'q) world \<times> go_error option" where
  "ReconcileOnce W w0 =
     (let (w, now) = clock_now W w0 in
      case store_do W (\<lambda>s. so_release_stale (wk_store W) s now (wc_StaleAfter (wk_cfg W))) w of
        (w1, Inl e) \<Rightarrow> (w1, Some (ErrWrap ''worker: release stale running'' (ErrStore e)))
      | (w1, Inr _) \<Rightarrow>
          (let older_than = time_add now (- wc_QueuedAgeThreshold (wk_cfg W)) in
           case store_do W (\<lambda>s. (s, so_list_queued (wk_store W) s older_than)) w1 of
             (w2, Inl e) \<Rightarrow> (w2, Some (ErrWrap ''worker: list queued'' (ErrStore e)))
           | (w2, Inr jobs) \<Rightarrow> reenqueueQueued W jobs None w2))"

section \<open>What justifies a settlement\<close>

text \<open>
  A queue message may be acknowledged only when the store shows that it needs no further
  work: the job is unknown, completed, of a status this program does not write, or alive
  under another worker.  It may go to the poison destination only when the job has failed
  for good, and back to the queue only when the job is queued again.
\<close>

fun ack_justified :: "('s \<Rightarrow> job_rows) \<Rightarrow> (nat \<Rightarrow> time) \<Rightarrow> duration \<Rightarrow> 's queue_event \<Rightarrow> bool" where
  "ack_justified rows clock st (EvComplete c s ok) \<longleftrightarrow>
     (case rows s (qc_task_id c) of
        None \<Rightarrow> True
      | Some j \<Rightarrow> job_status j = JobCompleted \<or> (\<exists>x. job_status j = JobOther x)
                  \<or> job_status j = JobRunning \<and> (\<exists>n. hasLiveHeartbeat j (clock n) st))"
| "ack_justified rows clock st (EvNack c permanent s ok) \<longleftrightarrow>
     (\<exists>j. rows s (qc_task_id c) = Some j
        \<and> job_status j = (if permanent then JobFailed else JobQueued))"
| "ack_justified rows clock st (EvEnqueue t s ok) \<longleftrightarrow> False"

fun event_claim :: "'s queue_event \<Rightarrow> queue_claim option" where
  "event_claim (EvComplete c s ok) = Some c"
| "event_claim (EvNack c p s ok) = Some c"
| "event_claim (EvEnqueue t s ok) = None"

definition settles_once ::
  "('s \<Rightarrow> job_rows) \<Rightarrow> ('s, 'q) worker \<Rightarrow> queue_claim \<Rightarrow> ('s, 'q) world \<Rightarrow> ('s, 'q) world \<Rightarrow> bool" where
  "settles_once rows W qc w w' \<longleftrightarrow>
     wd_log w' = wd_log w
     \<or> (\<exists>e. wd_log w' = wd_log w @ [e] \<and> event_claim e = Some qc
          \<and> ack_justified rows (wk_now W) (wc_StaleAfter (wk_cfg W)) e)"

definition before_access :: "('s, 'q) worker \<Rightarrow> ('s, 'q) world \<Rightarrow> 's" where
  "before_access W w = run_calls (wk_store W) (wk_others W (wd_access w)) (wd_store w)"

lemma store_do_eq:
  "store_do W f w =
     (w\<lparr>wd_store := fst (f (before_access W w)), wd_access := wd_access w + 1\<rparr>, snd (f (before_access W w)))"
  by (simp add: store_do_def before_access_def Let_def split: prod.splits)

lemma clock_now_simps [simp]:
  "wd_store (fst (clock_now W w)) = wd_store w" "wd_log (fst (clock_now W w)) = wd_log w"
  "wd_queue (fst (clock_now W w)) = wd_queue w" "snd (clock_now W w) = wk_now W (wd_clock w)"
  "before_access W (fst (clock_now W w)) = before_access W w"
  by (simp_all add: clock_now_def before_access_def)

lemma queue_complete_log:
  "queue_complete W c w = (w', e) \<Longrightarrow>
   (\<exists>ok. wd_log w' = wd_log w @ [EvComplete c (wd_store w) ok]) \<and> wd_store w' = wd_store w
   \<and> (\<forall>x. e = Some x \<longrightarrow> \<not> is_claim_lost x)"
  by (auto simp: queue_complete_def split: prod.splits sum.splits)

lemma queue_nack_log:
  "queue_nack W c p w = (w', e) \<Longrightarrow>
   (\<exists>ok. wd_log w' = wd_log w @ [EvNack c p (wd_store w) ok]) \<and> wd_store w' = wd_store w
   \<and> (\<forall>x. e = Some x \<longrightarrow> \<not> is_claim_lost x)"
  by (auto simp: queue_nack_def split: prod.splits sum.splits)

lemma completion_defaults_world:
  assumes "completion_defaults W l c w = (w', c')"
  shows "wd_log w' = wd_log w \<and> wd_store w' = wd_store w \<and> before_access W w' = before_access W w"
proof (cases "is_zero_time (cp_finished_at c)")
  case True
  then show ?thesis
    using assms by (cases "cp_attempt c = 0") (auto simp: completion_defaults_def clock_now_def Let_def before_access_def)
next
  case False
  then show ?thesis
    using assms by (cases "cp_attempt c = 0") (auto simp: completion_defaults_def Let_def)
qed

lemma settleQueueClaim_log:
  assumes "settleQueueClaim W qc j mode w = (w', settled, e)" "rows (wd_store w) (qc_task_id qc) = Some j"
  shows "settles_once rows W qc w w' \<and> wd_store w' = wd_store w
    \<and> (\<not> settled \<longrightarrow> wd_log w' = wd_log w \<and> e = None)
    \<and> (\<forall>x. e = Some x \<longrightarrow> \<not> is_claim_lost x)"
proof -
  obtain w1 where c: "clock_now W w = (w1, wk_now W (wd_clock w))" and
    w1: "wd_store w1 = wd_store w" "wd_log w1 = wd_log w"
    by (simp add: clock_now_def)
  show ?thesis
    using assms w1
    by (auto simp: settleQueueClaim_def c settleRunning_def settles_once_def
        dest!: queue_complete_log queue_nack_log
        split: job_status.splits if_splits prod.splits)
qed

context job_store
begin

lemma before_wf: "wk_store W = S \<Longrightarrow> wf (wd_store w) \<Longrightarrow> wf (before_access W w)"
  by (simp add: before_access_def wf_run)

lemma writer_wf:
  assumes "wk_store W = S" "wf (wd_store w)"
  shows "wf (wd_store (fst (writer_InsertFindings W l fs w)))"
    "wf (wd_store (fst (writer_InsertDiagnostics W l ds w)))"
  using wf_call [OF before_wf [OF assms], of "CallInsertFindings (cl_job_id l) (cl_worker_id l) (cl_attempt l)
      (stamp_lease_findings l fs)"]
    wf_call [OF before_wf [OF assms], of "CallInsertDiagnostics (cl_job_id l) (cl_worker_id l) (cl_attempt l)
      (stamp_lease_diagnostics l ds)"]
  by (simp_all add: writer_InsertFindings_def writer_InsertDiagnostics_def store_do_eq assms(1))

lemma beat_wf:
  assumes "wk_store W = S" "wf (wd_store w)" "beatOnce W l w = (w', r)"
  shows "wf (wd_store w')" "wd_log w' = wd_log w"
proof -
  let ?w1 = "fst (clock_now W w)"
  have w: "w' = fst (store_do W (\<lambda>s. so_heartbeat S s (cl_job_id l) (cl_worker_id l) (cl_attempt l)
      (wk_now W (wd_clock w))) ?w1)"
    using assms(3) by (auto simp: beatOnce_def clock_now_def assms(1) split: prod.splits sum.splits if_splits)
  show "wd_log w' = wd_log w" by (simp add: w store_do_eq)
  show "wf (wd_store w')"
    using wf_call [OF before_wf [OF assms(1,2)], of "CallHeartbeat (cl_job_id l) (cl_worker_id l) (cl_attempt l)
        (wk_now W (wd_clock w))"]
    by (simp add: w store_do_eq)
qed

lemma writer_log [simp]:
  "wd_log (fst (writer_InsertFindings W l fs w)) = wd_log w"
  "wd_log (fst (writer_InsertDiagnostics W l ds w)) = wd_log w"
  by (simp_all add: writer_InsertFindings_def writer_InsertDiagnostics_def store_do_eq)

lemma run_handler_log:
  assumes "wk_store W = S"
  shows "wf (wd_store w) \<Longrightarrow> run_handler W l es beating lost w = (w', r) \<Longrightarrow>
    wd_log w' = wd_log w \<and> wf (wd_store w')"
proof (induction es arbitrary: beating lost w)
  case Nil
  then show ?case by simp
next
  case (Cons ev es)
  show ?case
  proof (cases ev)
    case (HandlerFindings fs)
    then show ?thesis
      using Cons.IH [OF writer_wf(1) [OF assms Cons.prems(1)]] Cons.prems(2) by simp
  next
    case (HandlerDiagnostics ds)
    then show ?thesis
      using Cons.IH [OF writer_wf(2) [OF assms Cons.prems(1)]] Cons.prems(2) by simp
  next
    case HeartbeatTick
    show ?thesis
    proof (cases beating)
      case False
      then show ?thesis using HeartbeatTick Cons.IH [OF Cons.prems(1)] Cons.prems(2) by simp
    next
      case True
      obtain w1 stop fence where b: "beatOnce W l w = (w1, stop, fence)" by (cases "beatOnce W l w") auto
      note one = beat_wf [OF assms Cons.prems(1) b]
      show ?thesis
        using HeartbeatTick True b Cons.IH [OF one(1)] one(2) Cons.prems(2) by simp
    qed
  qed
qed

text \<open>After a successful fenced call the row is what the contract says; a lost fence leaves no event.\<close>

lemma release_log:
  assumes "wk_store W = S" "wf (wd_store w)" "releaseForRetry W qc l w = (w', e)"
    and "cl_job_id l = qc_task_id qc"
  shows "settles_once rows W qc w w' \<and> (\<forall>x. e = Some x \<longrightarrow> is_claim_lost x \<longrightarrow> wd_log w' = wd_log w)"
proof -
  obtain w1 r where d: "store_do W (\<lambda>s. so_release_claim (wk_store W) s (cl_job_id l) (cl_worker_id l) (cl_attempt l)) w = (w1, r)"
    by fastforce
  then have w1: "(wd_store w1, r) = so_release_claim S (before_access W w) (cl_job_id l) (cl_worker_id l) (cl_attempt l)"
    and log: "wd_log w1 = wd_log w"
    by (auto simp: store_do_eq assms(1))
  show ?thesis
  proof (cases r)
    case (Inl x)
    then show ?thesis using assms(3) d log by (auto simp: releaseForRetry_def settles_once_def split: if_splits)
  next
    case (Inr u)
    then obtain j where "rows (wd_store w1) (qc_task_id qc) = Some (released_row j)"
      using release_ok [OF before_wf [OF assms(1,2)] w1 [unfolded Inr, symmetric]] assms(4) by auto
    then show ?thesis
      using assms(3) d log Inr
      by (auto simp: releaseForRetry_def settles_once_def released_row_def dest!: queue_nack_log
          split: prod.splits option.splits)
  qed
qed

lemma fail_log:
  assumes "wk_store W = S" "wf (wd_store w)" "failPermanently W qc l err w = (w', e)"
    and "cl_job_id l = qc_task_id qc"
  shows "settles_once rows W qc w w' \<and> (\<forall>x. e = Some x \<longrightarrow> is_claim_lost x \<longrightarrow> wd_log w' = wd_log w)"
proof -
  let ?now = "wk_now W (wd_clock w)"
  obtain w0 where c: "clock_now W w = (w0, ?now)" and w0: "wd_log w0 = wd_log w" "wf (wd_store w0)"
    using assms(2) by (simp add: clock_now_def)
  obtain w1 r where d: "store_do W (\<lambda>s. so_fail_job (wk_store W) s (cl_job_id l) (cl_worker_id l) (cl_attempt l)
      (error_text err) ?now) w0 = (w1, r)"
    by fastforce
  then have w1: "(wd_store w1, r) = so_fail_job S (before_access W w0) (cl_job_id l) (cl_worker_id l) (cl_attempt l)
      (error_text err) ?now"
    and log: "wd_log w1 = wd_log w"
    using w0 by (auto simp: store_do_eq assms(1))
  show ?thesis
  proof (cases r)
    case (Inl x)
    then show ?thesis using assms(3) c d log by (auto simp: failPermanently_def settles_once_def split: if_splits)
  next
    case (Inr u)
    then obtain j where "rows (wd_store w1) (qc_task_id qc) = Some (failed_row (error_text err) ?now j)"
      using fail_ok [OF before_wf [OF assms(1) w0(2)] w1 [unfolded Inr, symmetric]] assms(4) by auto
    then show ?thesis
      using assms(3) c d log Inr
      by (auto simp: failPermanently_def settles_once_def failed_row_def dest!: queue_nack_log
          split: prod.splits option.splits)
  qed
qed

lemma complete_log:
  assumes "wk_store W = S" "wf (wd_store w)" "completeClaimed W qc l c w = (w', e)"
    and "cl_job_id l = qc_task_id qc"
  shows "settles_once rows W qc w w' \<and> (\<forall>x. e = Some x \<longrightarrow> is_claim_lost x \<longrightarrow> wd_log w' = wd_log w)"
proof -
  obtain w0 c3 where def3: "completion_defaults W l c w = (w0, c3)" by fastforce
  have w0: "wd_log w0 = wd_log w" "wf (wd_store w0)"
    using completion_defaults_world [OF def3] assms(2) by simp_all
  have res: "(w', e) = (case store_do W (\<lambda>s. so_complete_job (wk_store W) s (cl_job_id l) (cl_worker_id l) (cl_attempt l) c3) w0 of
           (w2, Inl e) \<Rightarrow>
             if e = ErrClaimLost then (w2, Some (ErrStore ErrClaimLost))
             else (w2, Some (ErrWrap ''worker: complete job'' (ErrStore e)))
         | (w2, Inr _) \<Rightarrow> queue_complete W qc w2)"
    using assms(3) by (simp add: completeClaimed_def def3)
  obtain w1 r where d: "store_do W (\<lambda>s. so_complete_job (wk_store W) s (cl_job_id l) (cl_worker_id l) (cl_attempt l) c3) w0 = (w1, r)"
    by fastforce
  then have w1: "(wd_store w1, r) = so_complete_job S (before_access W w0) (cl_job_id l) (cl_worker_id l) (cl_attempt l) c3"
    and log: "wd_log w1 = wd_log w"
    using w0 by (auto simp: store_do_eq assms(1))
  show ?thesis
  proof (cases r)
    case (Inl x)
    then show ?thesis using res d log by (auto simp: settles_once_def split: if_splits)
  next
    case (Inr u)
    then obtain j where "rows (wd_store w1) (qc_task_id qc) = Some (completed_row c3 j)"
      using complete_ok [OF before_wf [OF assms(1) w0(2)] w1 [unfolded Inr, symmetric]] assms(4) by auto
    then show ?thesis
      using res [symmetric] d log Inr
      by (auto simp: settles_once_def completed_row_def dest!: queue_complete_log)
  qed
qed

lemma disposition_log:
  assumes "wk_store W = S" "wf (wd_store w)" "dispositionHandlerError W qc l err w = (w', e)"
    and "cl_job_id l = qc_task_id qc"
  shows "settles_once rows W qc w w' \<and> (\<forall>x. e = Some x \<longrightarrow> is_claim_lost x \<longrightarrow> wd_log w' = wd_log w)"
  using assms release_log fail_log unfolding dispositionHandlerError_def by (cases "IsRetryable err \<and> cl_attempt l < wc_MaxAttempts (wk_cfg W)") (simp, blast)+

lemma finish_log:
  assumes "wk_store W = S" "wf (wd_store w)" "finishHandlerOutcome W qc l completion err w = (w', e)"
    and "cl_job_id l = qc_task_id qc"
  shows "settles_once rows W qc w w' \<and> (\<forall>x. e = Some x \<longrightarrow> is_claim_lost x \<longrightarrow> wd_log w' = wd_log w)"
proof (cases err)
  case (Some x)
  then show ?thesis
    using assms disposition_log [OF assms(1,2) _ assms(4), of x]
    by (cases "is_claim_lost x") (auto simp: finishHandlerOutcome_def settles_once_def)
next
  case None
  then show ?thesis
    using assms disposition_log [OF assms(1,2) _ assms(4)] complete_log [OF assms(1,2) _ assms(4)]
    by (cases completion) (auto simp: finishHandlerOutcome_def)
qed

lemma settles_once_cong:
  "wd_log w1 = wd_log w \<Longrightarrow> settles_once rows W qc w1 w' \<longleftrightarrow> settles_once rows W qc w w'"
  by (simp add: settles_once_def)

lemma run_log:
  assumes "wk_store W = S" "wf (wd_store w)" "runClaimed W qc j l w = (w', e)"
    and "cl_job_id l = qc_task_id qc"
  shows "settles_once rows W qc w w' \<and> (\<forall>x. e = Some x \<longrightarrow> is_claim_lost x \<longrightarrow> wd_log w' = wd_log w)"
proof -
  obtain w1 lost where r: "run_handler W l (hr_events (wk_handler W j l)) True False w = (w1, lost)" by fastforce
  note h = run_handler_log [OF assms(1,2) r]
  show ?thesis
  proof (cases "hr_end (wk_handler W j l)")
    case (EndContext x)
    then show ?thesis using assms(3) r h by (auto simp: runClaimed_def settles_once_def)
  next
    case (EndHandler c err seen)
    show ?thesis
    proof (cases "lost \<and> seen")
      case True
      then show ?thesis using EndHandler assms(3) r h by (auto simp: runClaimed_def settles_once_def)
    next
      case False
      then have "finishHandlerOutcome W qc l c err w1 = (w', e)"
        using EndHandler assms(3) r by (auto simp: runClaimed_def)
      from finish_log [OF assms(1) _ this assms(4)] h show ?thesis
        by (auto simp: settles_once_cong [of w1 w])
    qed
  qed
qed

lemma get_job_eq:
  assumes "wk_store W = S" "wf (wd_store w)" "get_job W jid w = (w', r)"
  shows "wd_log w' = wd_log w" "wf (wd_store w')"
    "r = Inr j \<Longrightarrow> rows (wd_store w') jid = Some j"
    "r = Inl ErrJobNotFound \<Longrightarrow> rows (wd_store w') jid = None"
  using assms before_wf [OF assms(1,2)] get_found [OF before_wf [OF assms(1,2)]]
    get_missing [OF before_wf [OF assms(1,2)]]
  by (auto simp: get_job_def store_do_eq)

lemma ackIfDuplicate_log:
  assumes "wk_store W = S" "wf (wd_store w)" "ackIfDuplicateOrTerminal W qc w = (w', e)"
  shows "settles_once rows W qc w w' \<and> (\<forall>x. e = Some x \<longrightarrow> is_claim_lost x \<longrightarrow> wd_log w' = wd_log w)"
proof -
  obtain w1 r where g: "get_job W (qc_task_id qc) w = (w1, r)" by fastforce
  note got = get_job_eq [OF assms(1,2) g]
  show ?thesis
  proof (cases r)
    case (Inl x)
    then show ?thesis
      using assms(3) g got
      by (auto simp: ackIfDuplicateOrTerminal_def settles_once_def dest!: queue_complete_log split: if_splits)
  next
    case (Inr j)
    obtain w2 b e2 where s: "settleQueueClaim W qc j settleForDuplicate w1 = (w2, b, e2)" by (metis prod_cases3)
    show ?thesis
      using settleQueueClaim_log [where rows = rows, OF s got(3) [OF Inr]] assms(3) g Inr s got(1)
      by (auto simp: ackIfDuplicateOrTerminal_def settles_once_cong [of w1 w])
  qed
qed

lemma claim_and_run_log:
  assumes "wk_store W = S" "wf (wd_store w)" "claimAndRun W qc j w = (w', e)" "job_id j = qc_task_id qc"
  shows "settles_once rows W qc w w' \<and> (\<forall>x. e = Some x \<longrightarrow> is_claim_lost x \<longrightarrow> wd_log w' = wd_log w)"
proof -
  let ?now = "wk_now W (wd_clock w)" and ?wid = "wc_WorkerID (wk_cfg W)" and ?st = "wc_StaleAfter (wk_cfg W)"
  obtain w0 where c: "clock_now W w = (w0, ?now)" and w0: "wd_log w0 = wd_log w" "wf (wd_store w0)"
    using assms(2) by (simp add: clock_now_def)
  obtain w1 r where d: "store_do W (\<lambda>s. so_claim_job (wk_store W) s (job_id j) ?wid ?now ?st) w0 = (w1, r)"
    by fastforce
  then have w1: "(wd_store w1, r) = so_claim_job S (before_access W w0) (job_id j) ?wid ?now ?st"
    and log: "wd_log w1 = wd_log w"
    using w0 by (auto simp: store_do_eq assms(1))
  have wf1: "wf (wd_store w1)"
    using wf_call [OF before_wf [OF assms(1) w0(2)], of "CallClaim (job_id j) ?wid ?now ?st"] w1 [symmetric]
    by (simp add: map_result_def)
  show ?thesis
  proof (cases r)
    case (Inl x)
    show ?thesis
    proof (cases "x = ErrNotClaimable")
      case True
      have "ackIfDuplicateOrTerminal W qc w1 = (w', e)"
        using assms(3) c d Inl True by (simp add: claimAndRun_def)
      from ackIfDuplicate_log [OF assms(1) wf1 this] log show ?thesis
        by (simp add: settles_once_cong [of w1 w])
    next
      case False
      then have "w' = w1"
        using assms(3) c d Inl by (simp add: claimAndRun_def)
      then show ?thesis using log by (simp add: settles_once_def)
    qed
  next
    case (Inr l)
    have jid: "cl_job_id l = qc_task_id qc"
      by (rule claim_ok [OF before_wf [OF assms(1) w0(2)] w1 [unfolded Inr, symmetric]]) (simp add: assms(4))
    obtain w2 r2 where g: "get_job W (cl_job_id l) w1 = (w2, r2)" by fastforce
    note got = get_job_eq [OF assms(1) wf1 g]
    show ?thesis
    proof (cases r2)
      case (Inl x)
      then have "w' = w2" using assms(3) c d Inr g by (simp add: claimAndRun_def)
      then show ?thesis using got(1) log by (simp add: settles_once_def)
    next
      case (Inr j')
      have "runClaimed W qc j' l w2 = (w', e)"
        using assms(3) c d \<open>r = Inr l\<close> g Inr by (simp add: claimAndRun_def)
      from run_log [OF assms(1) got(2) this jid] got(1) log show ?thesis
        by (simp add: settles_once_cong [of w2 w])
    qed
  qed
qed

lemma process_log:
  assumes "wk_store W = S" "wf (wd_store w)" "processQueueClaim W qc w = (w', e)"
  shows "settles_once rows W qc w w' \<and> (\<forall>x. e = Some x \<longrightarrow> is_claim_lost x \<longrightarrow> wd_log w' = wd_log w)"
proof -
  obtain w1 r where g: "get_job W (qc_task_id qc) w = (w1, r)" by fastforce
  note got = get_job_eq [OF assms(1,2) g]
  show ?thesis
  proof (cases r)
    case (Inl x)
    then show ?thesis
      using assms(3) g got
      by (auto simp: processQueueClaim_def loadJobForClaim_def settles_once_def dest!: queue_complete_log
          split: if_splits prod.splits option.splits)
  next
    case (Inr j)
    obtain w2 b e2 where s: "settleQueueClaim W qc j settleForClaim w1 = (w2, b, e2)" by (metis prod_cases3)
    note settled = settleQueueClaim_log [where rows = rows, OF s got(3) [OF Inr]]
    show ?thesis
    proof (cases "e2 \<noteq> None \<or> b")
      case True
      then show ?thesis
        using assms(3) g Inr s settled got(1)
        by (auto simp: processQueueClaim_def loadJobForClaim_def settles_once_cong [of w1 w])
    next
      case False
      have "claimAndRun W qc j w2 = (w', e)"
        using assms(3) g Inr s False by (auto simp: processQueueClaim_def loadJobForClaim_def)
      moreover have "wf (wd_store w2)" using settled got(2) by simp
      moreover have "job_id j = qc_task_id qc" using row_key [OF got(2) got(3) [OF Inr]] .
      moreover have "wd_log w2 = wd_log w" using settled False got(1) by simp
      ultimately show ?thesis
        using claim_and_run_log [OF assms(1)] settles_once_cong [of w2 w] by metis
    qed
  qed
qed

text \<open>What a disposition that returns no error has done.\<close>

lemma disposition_rows:
  assumes "wk_store W = S" "wf (wd_store w)" "dispositionHandlerError W qc l err w = (w', None)"
  shows "\<exists>j. rows (before_access W w) (cl_job_id l) = Some j \<and> fence_row j (cl_worker_id l) (cl_attempt l)
    \<and> (if IsRetryable err \<and> cl_attempt l < wc_MaxAttempts (wk_cfg W)
       then rows (wd_store w') = (rows (before_access W w))(cl_job_id l \<mapsto> released_row j)
            \<and> wd_log w' = wd_log w @ [EvNack qc False (wd_store w') True]
       else rows (wd_store w') = (rows (before_access W w))
              (cl_job_id l \<mapsto> failed_row (error_text err) (wk_now W (wd_clock w)) j)
            \<and> wd_log w' = wd_log w @ [EvNack qc True (wd_store w') True])"
proof (cases "IsRetryable err \<and> cl_attempt l < wc_MaxAttempts (wk_cfg W)")
  case True
  let ?o = "so_release_claim S (before_access W w) (cl_job_id l) (cl_worker_id l) (cl_attempt l)"
  obtain u where u: "snd ?o = Inr u"
    using assms(1,3) True
    by (auto simp: dispositionHandlerError_def releaseForRetry_def store_do_eq split: sum.splits prod.splits if_splits)
  have "wd_store w' = fst ?o \<and> wd_log w' = wd_log w @ [EvNack qc False (wd_store w') True]"
    using assms(1,3) True u
    by (auto simp: dispositionHandlerError_def releaseForRetry_def store_do_eq queue_nack_def
        split: sum.splits prod.splits option.splits)
  then show ?thesis
    using release_ok [OF before_wf [OF assms(1,2)], of "cl_job_id l" "cl_worker_id l" "cl_attempt l" "fst ?o" u] u True
    by (auto simp: prod_eq_iff)
next
  case False
  let ?now = "wk_now W (wd_clock w)"
  let ?o = "so_fail_job S (before_access W w) (cl_job_id l) (cl_worker_id l) (cl_attempt l) (error_text err) ?now"
  have b: "before_access W (w\<lparr>wd_clock := Suc (wd_clock w)\<rparr>) = before_access W w"
    by (simp add: before_access_def)
  have fp: "failPermanently W qc l err w = (w', None)"
    using assms(3) False by (simp add: dispositionHandlerError_def)
  obtain u where u: "snd ?o = Inr u"
    using fp assms(1)
    by (auto simp: failPermanently_def clock_now_def store_do_eq b split: sum.splits prod.splits if_splits)
  have "wd_store w' = fst ?o \<and> wd_log w' = wd_log w @ [EvNack qc True (wd_store w') True]"
    using fp assms(1) u
    by (auto simp: failPermanently_def clock_now_def store_do_eq b queue_nack_def
        split: sum.splits prod.splits option.splits)
  then show ?thesis
    using fail_ok [OF before_wf [OF assms(1,2)], of "cl_job_id l" "cl_worker_id l" "cl_attempt l" "error_text err" ?now "fst ?o" u] u False
    by (auto simp: prod_eq_iff)
qed

end

section \<open>Reconciliation\<close>

definition requeue_task :: "job \<Rightarrow> task" where
  "requeue_task j = \<lparr>tk_id = job_id j, tk_payload = MarshalTaskPayload (job_id j)\<rparr>"

text \<open>Every job of the list is tried, whatever fails; the result is an error if one failed.\<close>

lemma reenqueue_all:
  "reenqueueQueued W js fe w = (w', e) \<Longrightarrow>
   \<exists>oks. length oks = length js
     \<and> wd_log w' = wd_log w @ map (\<lambda>(j, ok). EvEnqueue (requeue_task j) (wd_store w) ok) (zip js oks)
     \<and> wd_store w' = wd_store w \<and> (e = None \<longleftrightarrow> fe = None \<and> (\<forall>ok \<in> set oks. ok))"
proof (induction js arbitrary: fe w)
  case Nil
  then show ?case by auto
next
  case (Cons j js)
  obtain w1 err where q: "enqueueJob W (job_id j) w = (w1, err)" by fastforce
  define ok where "ok = is_ok (snd (qo_enqueue (wk_queue W) (wd_queue w) (requeue_task j)))"
  have one: "wd_log w1 = wd_log w @ [EvEnqueue (requeue_task j) (wd_store w) ok]"
      "wd_store w1 = wd_store w" "err = None \<longleftrightarrow> ok"
    using q by (auto simp: ok_def enqueueJob_def queue_enqueue_def requeue_task_def split: prod.splits sum.splits)
  have "reenqueueQueued W js (if err \<noteq> None \<and> fe = None then err else fe) w1 = (w', e)"
    using Cons.prems q by simp
  from Cons.IH [OF this] obtain oks where oks: "length oks = length js"
      "wd_log w' = wd_log w1 @ map (\<lambda>(j, ok). EvEnqueue (requeue_task j) (wd_store w1) ok) (zip js oks)"
      "wd_store w' = wd_store w1"
      "e = None \<longleftrightarrow> (if err \<noteq> None \<and> fe = None then err else fe) = None \<and> (\<forall>ok \<in> set oks. ok)"
    by blast
  show ?case
    by (rule exI [of _ "ok # oks"]) (use oks one in \<open>auto split: if_splits\<close>)
qed

context job_store
begin

lemma reconcile_events:
  assumes "wk_store W = S" "wf (wd_store w)" "\<And>n. wk_others W n = []"
    and "ReconcileOnce W w = (w', None)"
  shows "\<exists>js. rows (wd_store w') = release_all (wk_now W (wd_clock w)) (wc_StaleAfter (wk_cfg W)) (rows (wd_store w))
    \<and> so_list_queued S (wd_store w') (time_add (wk_now W (wd_clock w)) (- wc_QueuedAgeThreshold (wk_cfg W))) = Inr js
    \<and> wd_log w' = wd_log w @ map (\<lambda>j. EvEnqueue (requeue_task j) (wd_store w') True) js
    \<and> wf (wd_store w')"
proof -
  let ?now = "wk_now W (wd_clock w)" and ?st = "wc_StaleAfter (wk_cfg W)"
  let ?thr = "time_add ?now (- wc_QueuedAgeThreshold (wk_cfg W))"
  have b: "before_access W x = wd_store x" for x
    by (simp add: before_access_def assms(3))
  let ?o = "so_release_stale S (wd_store w) ?now ?st"
  obtain n where n: "snd ?o = Inr n"
    using assms(1,4) b by (auto simp: ReconcileOnce_def clock_now_def store_do_eq split: sum.splits prod.splits)
  obtain js where js: "so_list_queued S (fst ?o) ?thr = Inr js"
    using assms(1,4) b n
    by (auto simp: ReconcileOnce_def clock_now_def store_do_eq Let_def split: sum.splits prod.splits)
  obtain w2 where w2: "reenqueueQueued W js None w2 = (w', None)" "wd_store w2 = fst ?o" "wd_log w2 = wd_log w"
    using assms(1,4) b n js
    by (auto simp: ReconcileOnce_def clock_now_def store_do_eq Let_def split: sum.splits prod.splits)
  obtain oks where oks: "length oks = length js" "\<forall>ok \<in> set oks. ok"
    "wd_log w' = wd_log w2 @ map (\<lambda>(j, ok). EvEnqueue (requeue_task j) (wd_store w2) ok) (zip js oks)"
    "wd_store w' = wd_store w2"
    using reenqueue_all [OF w2(1)] by auto
  have "oks = replicate (length js) True"
    using oks(1,2) by (metis replicate_length_same)
  then have "map (\<lambda>(j, ok). EvEnqueue (requeue_task j) (wd_store w2) ok) (zip js oks) =
      map (\<lambda>j. EvEnqueue (requeue_task j) (wd_store w2) True) js"
    by (simp add: zip_replicate2 comp_def)
  moreover have "rows (fst ?o) = release_all ?now ?st (rows (wd_store w))"
    by (rule release_stale_ok [OF assms(2), of _ _ _ n]) (simp add: prod_eq_iff n)
  moreover have "wf (fst ?o)"
    using wf_call [OF assms(2), of "CallReleaseStale ?now ?st"] by (simp add: map_result_def)
  ultimately show ?thesis using oks w2 js by auto
qed

end

section \<open>The reconciler slot\<close>

text \<open>
  StartReconciler, StopReconciler and the exit of a reconciler loop, each under the
  worker's mutex.  A loop is known by its start number; its cancel function is what
  \<open>stopReconcile\<close> holds.  The generation is Go's uint64.
\<close>

record reconciler_loop =
  lp_id :: nat
  lp_gen :: "64 word"
  lp_live :: bool

record reconciler_slot =
  rs_stop :: "nat option"
  rs_gen :: "64 word"
  rs_next :: nat
  rs_loops :: "reconciler_loop list"

definition cancel_loop :: "nat \<Rightarrow> reconciler_loop list \<Rightarrow> reconciler_loop list" where
  "cancel_loop k ls = map (\<lambda>lp. if lp_id lp = k then lp\<lparr>lp_live := False\<rparr> else lp) ls"

definition StartReconciler :: "reconciler_slot \<Rightarrow> reconciler_slot" where
  "StartReconciler s =
     (if rs_stop s \<noteq> None then s
      else s\<lparr>rs_gen := rs_gen s + 1, rs_stop := Some (rs_next s), rs_next := rs_next s + 1,
             rs_loops := rs_loops s @ [\<lparr>lp_id = rs_next s, lp_gen = rs_gen s + 1, lp_live = True\<rparr>]\<rparr>)"

definition clearReconcilerSlot :: "64 word \<Rightarrow> reconciler_slot \<Rightarrow> reconciler_slot" where
  "clearReconcilerSlot gen s = (if rs_gen s = gen then s\<lparr>rs_stop := None\<rparr> else s)"

definition StopReconciler :: "reconciler_slot \<Rightarrow> reconciler_slot" where
  "StopReconciler s =
     (case rs_stop s of
        None \<Rightarrow> s
      | Some k \<Rightarrow> s\<lparr>rs_loops := cancel_loop k (rs_loops s), rs_stop := None, rs_gen := rs_gen s + 1\<rparr>)"

inductive slot_step :: "reconciler_slot \<Rightarrow> reconciler_slot \<Rightarrow> bool" where
  start: "slot_step s (StartReconciler s)"
| stop: "slot_step s (StopReconciler s)"
| parent_cancel: "slot_step s (s\<lparr>rs_loops := cancel_loop k (rs_loops s)\<rparr>)"
| loop_exit: "lp \<in> set (rs_loops s) \<Longrightarrow> \<not> lp_live lp \<Longrightarrow>
    slot_step s (clearReconcilerSlot (lp_gen lp) (s\<lparr>rs_loops := removeAll lp (rs_loops s)\<rparr>))"

inductive_cases slot_stepE: "slot_step s s'"

definition new_slot :: reconciler_slot where
  "new_slot = \<lparr>rs_stop = None, rs_gen = 0, rs_next = 0, rs_loops = []\<rparr>"

inductive slot_run :: "nat \<Rightarrow> reconciler_slot \<Rightarrow> bool" where
  init: "slot_run 0 new_slot"
| step: "slot_run n s \<Longrightarrow> slot_step s s' \<Longrightarrow> slot_run (Suc n) s'"

text \<open>The generation counts starts and stops; a loop that is not the slot's is from an earlier one.\<close>

definition slot_inv :: "nat \<Rightarrow> reconciler_slot \<Rightarrow> bool" where
  "slot_inv n s \<longleftrightarrow>
     (\<exists>g h. g \<le> n \<and> rs_gen s = of_nat g
        \<and> distinct (map lp_id (rs_loops s))
        \<and> (\<forall>lp \<in> set (rs_loops s).
             lp_gen lp = of_nat (h (lp_id lp)) \<and> h (lp_id lp) \<le> g \<and> lp_id lp < rs_next s
             \<and> (lp_live lp \<longrightarrow> rs_stop s = Some (lp_id lp))
             \<and> (rs_stop s = Some (lp_id lp) \<or> rs_stop s = None \<or> h (lp_id lp) < g)))"

lemma of_nat_word_inj:
  assumes "a < 2 ^ 64" "b < 2 ^ 64"
  shows "(of_nat a :: 64 word) = of_nat b \<longleftrightarrow> a = b"
proof
  assume eq: "(of_nat a :: 64 word) = of_nat b"
  have "unat (of_nat a :: 64 word) = a"
    by (rule of_nat_inverse [OF refl]) (simp add: assms(1) [simplified])
  moreover have "unat (of_nat b :: 64 word) = b"
    by (rule of_nat_inverse [OF refl]) (simp add: assms(2) [simplified])
  ultimately show "a = b" unfolding eq by simp
qed simp

lemma cancel_loop_props:
  "map lp_id (cancel_loop k ls) = map lp_id ls"
  "lp \<in> set (cancel_loop k ls) \<Longrightarrow> \<exists>lp' \<in> set ls. lp_id lp = lp_id lp' \<and> lp_gen lp = lp_gen lp'
     \<and> (lp_live lp \<longrightarrow> lp_live lp' \<and> lp_id lp \<noteq> k)"
  by (auto simp: cancel_loop_def)

lemma distinct_removeAll_map: "distinct (map f xs) \<Longrightarrow> distinct (map f (removeAll x xs))"
  by (simp add: distinct_map inj_on_def distinct_removeAll)

lemma slot_inv_step:
  assumes "slot_inv n s" "slot_step s s'" "Suc n < 2 ^ 64"
  shows "slot_inv (Suc n) s'"
proof -
  obtain g h where g: "g \<le> n" "rs_gen s = of_nat g" and d: "distinct (map lp_id (rs_loops s))"
    and lps: "\<And>lp. lp \<in> set (rs_loops s) \<Longrightarrow>
             lp_gen lp = of_nat (h (lp_id lp)) \<and> h (lp_id lp) \<le> g \<and> lp_id lp < rs_next s
             \<and> (lp_live lp \<longrightarrow> rs_stop s = Some (lp_id lp))
             \<and> (rs_stop s = Some (lp_id lp) \<or> rs_stop s = None \<or> h (lp_id lp) < g)"
    using assms(1) unfolding slot_inv_def by blast
  from assms(2) show ?thesis
  proof cases
    case start
    show ?thesis
    proof (cases "rs_stop s")
      case None
      show ?thesis
        unfolding slot_inv_def
        by (rule exI [of _ "Suc g"], rule exI [of _ "h(rs_next s := Suc g)"])
          (use None start g d lps in \<open>fastforce simp: StartReconciler_def\<close>)
    next
      case (Some k)
      then show ?thesis
        using start g d lps unfolding slot_inv_def
        by (intro exI [of _ g] exI [of _ h]) (simp add: StartReconciler_def)
    qed
  next
    case stop
    show ?thesis
    proof (cases "rs_stop s")
      case None
      then show ?thesis
        using stop g d lps unfolding slot_inv_def
        by (intro exI [of _ g] exI [of _ h]) (simp add: StopReconciler_def)
    next
      case (Some k)
      show ?thesis
        unfolding slot_inv_def
        by (rule exI [of _ "Suc g"], rule exI [of _ h])
          (use Some stop g d lps cancel_loop_props in \<open>fastforce simp: StopReconciler_def\<close>)
    qed
  next
    case (parent_cancel k)
    show ?thesis
      unfolding slot_inv_def
      by (rule exI [of _ g], rule exI [of _ h])
        (use parent_cancel g d lps cancel_loop_props in \<open>fastforce\<close>)
  next
    case (loop_exit lp)
    have lp: "lp_gen lp = of_nat (h (lp_id lp))" "h (lp_id lp) \<le> g"
      "rs_stop s = Some (lp_id lp) \<or> rs_stop s = None \<or> h (lp_id lp) < g"
      using lps [OF loop_exit(2)] by auto
    have gen: "rs_gen s = lp_gen lp \<longleftrightarrow> h (lp_id lp) = g"
      using of_nat_word_inj [of g "h (lp_id lp)"] lp(1,2) g assms(3) by auto
    have other: "lp' \<in> set (removeAll lp (rs_loops s)) \<Longrightarrow> lp_id lp' \<noteq> lp_id lp" for lp'
      using d loop_exit(2) by (auto simp: distinct_map inj_on_def)
    have dead: "h (lp_id lp) = g \<Longrightarrow> lp' \<in> set (removeAll lp (rs_loops s)) \<Longrightarrow> \<not> lp_live lp'" for lp'
      using lps [of lp'] lp(3) other [of lp'] by auto
    show ?thesis
      unfolding slot_inv_def
      by (rule exI [of _ g], rule exI [of _ h])
        (use loop_exit g d lps lp gen dead in
          \<open>auto simp: clearReconcilerSlot_def distinct_removeAll_map\<close>)
  qed
qed

lemma slot_run_inv: "slot_run n s \<Longrightarrow> n < 2 ^ 64 \<Longrightarrow> slot_inv n s"
proof (induction rule: slot_run.induct)
  case init
  show ?case by (simp add: slot_inv_def new_slot_def)
next
  case (step n s s')
  then show ?case using slot_inv_step by simp
qed

section \<open>Properties\<close>

text \<open>C1. Settlement is justified: whatever the handler writes and returns, however other
  workers act on the store meanwhile and whichever queue is used, processing one queue
  claim makes at most one settling queue call, on that claim; it acknowledges only a job
  the store shows as unknown, completed, of a foreign status or alive under a heartbeat
  younger than StaleAfter, poisons only a failed job, and requeues only a queued one.\<close>

theorem worker_settlement_is_justified:
  assumes "wk_store W = memory_ops" "reachable_store (wd_store w)"
    and "processQueueClaim W qc w = (w', e)"
  shows "wd_log w' = wd_log w
    \<or> (\<exists>ev. wd_log w' = wd_log w @ [ev] \<and> event_claim ev = Some qc
         \<and> ack_justified mem_rows (wk_now W) (wc_StaleAfter (wk_cfg W)) ev)"
  using mem.process_log [OF assms(1) reachable_wf [OF assms(2)] assms(3)] by (simp add: settles_once_def)

text \<open>C35. A worker that lost its claim leaves the message alone: when processing ends with
  ErrClaimLost (from a heartbeat, the handler, or a fenced write), no queue call was made,
  so the queue can redeliver the task.\<close>

theorem claim_lost_leaves_message:
  assumes "wk_store W = memory_ops" "reachable_store (wd_store w)"
    and "processQueueClaim W qc w = (w', Some e)" "is_claim_lost e"
  shows "wd_log w' = wd_log w"
  using mem.process_log [OF assms(1) reachable_wf [OF assms(2)] assms(3)] assms(4) by blast

text \<open>Failure mapping: a handler error whose disposition succeeds either returns the job
  to the queue (retryable, attempt below MaxAttempts: the row is queued, unclaimed and the
  message nacked for redelivery) or ends it (otherwise: the row is failed with the error's
  text at the clock's time and the message poisoned); no other row changes.\<close>

theorem handler_error_disposition:
  assumes "wk_store W = memory_ops" "reachable_store (wd_store w)"
    and "dispositionHandlerError W qc l err w = (w', None)"
  shows "\<exists>j. mem_rows (before_access W w) (cl_job_id l) = Some j \<and> fence_row j (cl_worker_id l) (cl_attempt l)
    \<and> (if IsRetryable err \<and> cl_attempt l < wc_MaxAttempts (wk_cfg W)
       then mem_rows (wd_store w') = (mem_rows (before_access W w))(cl_job_id l \<mapsto>
              j\<lparr>job_status := JobQueued, job_claimed_by := None, job_heartbeat_at := None\<rparr>)
            \<and> wd_log w' = wd_log w @ [EvNack qc False (wd_store w') True]
       else mem_rows (wd_store w') = (mem_rows (before_access W w))(cl_job_id l \<mapsto>
              j\<lparr>job_status := JobFailed, job_error := Some (error_text err),
                job_finished_at := Some (wk_now W (wd_clock w))\<rparr>)
            \<and> wd_log w' = wd_log w @ [EvNack qc True (wd_store w') True])"
  using mem.disposition_rows [OF assms(1) reachable_wf [OF assms(2)] assms(3)]
  unfolding released_row_def failed_row_def .

text \<open>One pass of the reconciler over the in-process store.\<close>

lemma reconcile_enqueues:
  assumes "wk_store W = memory_ops" "reachable_store (wd_store w)" "\<And>n. wk_others W n = []"
    and "ReconcileOnce W w = (w', None)"
  shows "\<exists>ids. wd_log w' = wd_log w @
      map (\<lambda>k. EvEnqueue \<lparr>tk_id = k, tk_payload = MarshalTaskPayload k\<rparr> (wd_store w') True) ids
    \<and> distinct ids
    \<and> set ids = {k. \<exists>j. mem_rows (wd_store w) k = Some j
         \<and> (job_status j = JobQueued
            \<or> stale_running (wk_now W (wd_clock w)) (wc_StaleAfter (wk_cfg W)) j)
         \<and> job_created_at j < wk_now W (wd_clock w) - wc_QueuedAgeThreshold (wk_cfg W)}"
proof -
  let ?now = "wk_now W (wd_clock w)" and ?st = "wc_StaleAfter (wk_cfg W)"
  let ?thr = "time_add ?now (- wc_QueuedAgeThreshold (wk_cfg W))"
  obtain js where rel: "mem_rows (wd_store w') = release_all ?now ?st (mem_rows (wd_store w))"
    and js: "ListQueuedOlderThan (wd_store w') ?thr = Inr js"
    and log: "wd_log w' = wd_log w @ map (\<lambda>j. EvEnqueue (requeue_task j) (wd_store w') True) js"
    and wf: "mem_wf (wd_store w')"
    using mem.reconcile_events [OF assms(1) reachable_wf [OF assms(2)] assms(3,4)] by auto
  let ?es = "filter (\<lambda>(k, r). job_status (jr_job r) = JobQueued \<and> job_created_at (jr_job r) < ?thr) (wd_store w')"
  have js_eq: "js = map (jr_job \<circ> snd) ?es" using js by (simp add: ListQueuedOlderThan_def)
  have ids: "map job_id js = map fst ?es"
    using wf unfolding js_eq mem_wf_def by (auto simp: own_rows_def map_of_Some_iff_in_set)
  have "distinct (map job_id js)"
    using wf unfolding ids mem_wf_def by (simp add: distinct_map_filter)
  moreover have "set (map job_id js) = {k. \<exists>j. mem_rows (wd_store w') k = Some j
      \<and> job_status j = JobQueued \<and> job_created_at j < ?thr}"
    using wf unfolding ids mem_wf_def by (force simp: mem_rows_def map_of_Some_iff_in_set)
  moreover have "\<dots> = {k. \<exists>j. mem_rows (wd_store w) k = Some j
      \<and> (job_status j = JobQueued \<or> stale_running ?now ?st j) \<and> job_created_at j < ?thr}"
  proof (rule Collect_cong)
    fix k
    show "(\<exists>j. mem_rows (wd_store w') k = Some j \<and> job_status j = JobQueued \<and> job_created_at j < ?thr)
      \<longleftrightarrow> (\<exists>j. mem_rows (wd_store w) k = Some j
          \<and> (job_status j = JobQueued \<or> stale_running ?now ?st j) \<and> job_created_at j < ?thr)"
      unfolding rel
      by (cases "mem_rows (wd_store w) k") (auto simp: release_all_def released_row_def stale_running_def)
  qed
  ultimately show ?thesis
    using log by (intro exI [of _ "map job_id js"]) (simp add: requeue_task_def comp_def time_add_def)
qed


text \<open>At most one reconciler runs: in every interleaving of fewer than 2^64 starts, stops,
  cancellations from outside and loop exits, at most one loop is not cancelled, and it is
  the one StopReconciler would cancel.\<close>

theorem one_live_reconciler:
  assumes "slot_run n s" "n < 2 ^ 64"
  shows "length (filter lp_live (rs_loops s)) \<le> 1
    \<and> (\<forall>lp \<in> set (rs_loops s). lp_live lp \<longrightarrow> rs_stop s = Some (lp_id lp))"
proof -
  have d: "distinct (map lp_id (rs_loops s))"
    and live: "\<forall>lp \<in> set (rs_loops s). lp_live lp \<longrightarrow> rs_stop s = Some (lp_id lp)"
    using slot_run_inv [OF assms] by (auto simp: slot_inv_def)
  have "set (map lp_id (filter lp_live (rs_loops s))) \<subseteq> set_option (rs_stop s)"
    using live by auto
  then have "card (set (map lp_id (filter lp_live (rs_loops s)))) \<le> card (set_option (rs_stop s))"
    by (rule card_mono [rotated]) simp
  moreover have "distinct (map lp_id (filter lp_live (rs_loops s)))"
    using d by (simp add: distinct_map_filter)
  moreover have "card (set_option (rs_stop s)) \<le> 1" by (cases "rs_stop s") auto
  ultimately have "length (map lp_id (filter lp_live (rs_loops s))) \<le> 1"
    by (metis distinct_card le_trans)
  then show ?thesis using live by simp
qed

text \<open>A configuration that withDefaults accepts is usable: a worker id, positive timings
  and attempt limit, every positive setting kept, applying the defaults again changes
  nothing, and StaleAfter is at least three heartbeats as long as tripling the heartbeat
  interval fits in 64 bits.\<close>

theorem worker_config_defaults:
  assumes "withDefaults c = Inr c'"
  shows "wc_WorkerID c' \<noteq> [] \<and> 0 < wc_HeartbeatInterval c' \<and> 0 < wc_StaleAfter c'
    \<and> 0 < wc_ReconcileInterval c' \<and> 0 < wc_QueuedAgeThreshold c' \<and> 0 < wc_MaxAttempts c'
    \<and> (wc_HeartbeatInterval c > 0 \<longrightarrow> wc_HeartbeatInterval c' = wc_HeartbeatInterval c)
    \<and> (wc_StaleAfter c > 0 \<longrightarrow> wc_StaleAfter c' = wc_StaleAfter c)
    \<and> (wc_ReconcileInterval c > 0 \<longrightarrow> wc_ReconcileInterval c' = wc_ReconcileInterval c)
    \<and> (wc_QueuedAgeThreshold c > 0 \<longrightarrow> wc_QueuedAgeThreshold c' = wc_QueuedAgeThreshold c)
    \<and> (wc_MaxAttempts c > 0 \<longrightarrow> wc_MaxAttempts c' = wc_MaxAttempts c)
    \<and> withDefaults c' = Inr c'
    \<and> (3 * wc_HeartbeatInterval c' < 2 ^ 63 \<longrightarrow> 3 * wc_HeartbeatInterval c' \<le> wc_StaleAfter c')"
proof -
  have pos: "0 < second" by (simp add: second_def)
  have fields: "wc_WorkerID c \<noteq> []" "wc_WorkerID c' = wc_WorkerID c"
    "wc_HeartbeatInterval c' = (if wc_HeartbeatInterval c \<le> 0 then 15 * second else wc_HeartbeatInterval c)"
    "wc_StaleAfter c' = (if wc_StaleAfter c \<le> 0 then 60 * second else wc_StaleAfter c)"
    "wc_ReconcileInterval c' = (if wc_ReconcileInterval c \<le> 0 then 30 * second else wc_ReconcileInterval c)"
    "wc_QueuedAgeThreshold c' = (if wc_QueuedAgeThreshold c \<le> 0 then 30 * second else wc_QueuedAgeThreshold c)"
    "wc_MaxAttempts c' = (if wc_MaxAttempts c \<le> 0 then 5 else wc_MaxAttempts c)"
    "\<not> wc_StaleAfter c' < wrap64 (3 * wc_HeartbeatInterval c')"
    using assms
    by (auto simp: withDefaults_def Let_def defaultHeartbeatInterval_def defaultStaleAfter_def
        defaultReconcileInterval_def defaultQueuedAgeThreshold_def defaultMaxAttempts_def split: if_splits)
  have again: "withDefaults c' = Inr c'"
    using fields pos by (simp add: withDefaults_def Let_def)
  show ?thesis
    using fields pos again wrap64_id [of "3 * wc_HeartbeatInterval c'"] by auto
qed

section \<open>Witnesses\<close>

definition idle_queue :: "unit queue_ops" where
  "idle_queue = \<lparr>qo_enqueue = (\<lambda>q t. (q, Inr ())), qo_claim = (\<lambda>q. (q, Inr None)),
     qo_complete = (\<lambda>q c. (q, Inr ())), qo_nack = (\<lambda>q c p. (q, Inr ()))\<rparr>"

definition demo_wcfg :: worker_config where
  "demo_wcfg = \<lparr>wc_WorkerID = ''w'', wc_HeartbeatInterval = 10, wc_StaleAfter = 30,
     wc_ReconcileInterval = 5, wc_QueuedAgeThreshold = 5, wc_MaxAttempts = 2\<rparr>"

definition demo_worker :: "handler_run \<Rightarrow> (mem_store, unit) worker" where
  "demo_worker run = \<lparr>wk_store = memory_ops, wk_queue = idle_queue, wk_handler = (\<lambda>j l. run), wk_cfg = demo_wcfg,
     wk_now = (\<lambda>n. 10 + int n), wk_others = (\<lambda>n. [])\<rparr>"

definition demo_world :: "(mem_store, unit) world" where
  "demo_world = \<lparr>wd_store = demo_store, wd_queue = (), wd_clock = 0, wd_access = 0, wd_log = []\<rparr>"

definition demo_qc :: queue_claim where
  "demo_qc = \<lparr>qc_task_id = ''j'', qc_attempt = 0, qc_token = ''t''\<rparr>"

lemma demo_worker_store: "wk_store (demo_worker run) = memory_ops" "reachable_store (wd_store demo_world)"
  by (simp_all add: demo_worker_def demo_world_def demo_reachable)

lemmas worker_demo_defs = demo_worker_def demo_world_def demo_wcfg_def demo_qc_def idle_queue_def
  processQueueClaim_def loadJobForClaim_def get_job_def store_do_def GetJob_def settleQueueClaim_def
  clock_now_def claimAndRun_def runClaimed_def finishHandlerOutcome_def dispositionHandlerError_def
  failPermanently_def releaseForRetry_def queue_nack_def queue_complete_def FailJob_def ReleaseClaim_def

lemma worker_settlement_is_justified_witness:
  "\<exists>w' ev. processQueueClaim (demo_worker \<lparr>hr_events = [], hr_end = EndHandler None (Some (ErrText ''x'')) False\<rparr>)
       demo_qc demo_world = (w', None)
    \<and> wd_log w' = [ev] \<and> ack_justified mem_rows (\<lambda>n. 10 + int n) 30 ev"
proof -
  let ?W = "demo_worker \<lparr>hr_events = [], hr_end = EndHandler None (Some (ErrText ''x'')) False\<rparr>"
  obtain w' where p: "processQueueClaim ?W demo_qc demo_world = (w', None)" and n: "wd_log w' \<noteq> []"
    by (simp add: worker_demo_defs demo_defs)
  have "wd_log demo_world = []" "wk_now ?W = (\<lambda>n. 10 + int n)" "wc_StaleAfter (wk_cfg ?W) = 30"
    by (simp_all add: demo_world_def demo_worker_def demo_wcfg_def)
  then show ?thesis
    using worker_settlement_is_justified [OF demo_worker_store p] p n by auto
qed

lemma claim_lost_leaves_message_witness:
  "\<exists>w'. processQueueClaim (demo_worker \<lparr>hr_events = [], hr_end = EndHandler None (Some (ErrStore ErrClaimLost)) False\<rparr>)
      demo_qc demo_world = (w', Some (ErrStore ErrClaimLost)) \<and> wd_log w' = []"
proof -
  let ?W = "demo_worker \<lparr>hr_events = [], hr_end = EndHandler None (Some (ErrStore ErrClaimLost)) False\<rparr>"
  obtain w' where p: "processQueueClaim ?W demo_qc demo_world = (w', Some (ErrStore ErrClaimLost))"
    by (simp add: worker_demo_defs demo_defs)
  then show ?thesis
    using claim_lost_leaves_message [OF demo_worker_store p] by (simp add: demo_world_def)
qed

lemma handler_error_disposition_witness:
  "\<exists>w' j. dispositionHandlerError (demo_worker \<lparr>hr_events = [], hr_end = EndContext []\<rparr>) demo_qc
      \<lparr>cl_job_id = ''j'', cl_worker_id = ''w'', cl_attempt = 1, cl_started_at = 5\<rparr>
      (ErrRetryable (ErrText ''x''))
      (demo_world\<lparr>wd_store := run_calls memory_ops [CallClaim ''j'' ''w'' 5 10] demo_store\<rparr>) = (w', None)
    \<and> mem_rows (wd_store w') ''j'' = Some j \<and> job_status j = JobQueued"
proof -
  let ?W = "demo_worker \<lparr>hr_events = [], hr_end = EndContext []\<rparr>"
  let ?w = "demo_world\<lparr>wd_store := run_calls memory_ops [CallClaim ''j'' ''w'' 5 10] demo_store\<rparr>"
  let ?l = "\<lparr>cl_job_id = ''j'', cl_worker_id = ''w'', cl_attempt = 1, cl_started_at = 5\<rparr>"
  have r: "reachable_store (wd_store ?w)"
    by (simp del: run_calls.simps add: reachable_run [OF demo_reachable])
  obtain w' where p: "dispositionHandlerError ?W demo_qc ?l (ErrRetryable (ErrText ''x'')) ?w = (w', None)"
    by (simp add: worker_demo_defs demo_defs)
  then show ?thesis
    using handler_error_disposition [OF demo_worker_store(1) r p]
    by (auto simp: demo_worker_def demo_wcfg_def)
qed


lemma one_live_reconciler_witness:
  "slot_run 1 (StartReconciler new_slot) \<and> length (filter lp_live (rs_loops (StartReconciler new_slot))) \<le> 1
    \<and> rs_stop (StartReconciler new_slot) = Some 0"
proof -
  have r: "slot_run 1 (StartReconciler new_slot)"
    using slot_run.step [OF slot_run.init slot_step.start] by simp
  show ?thesis
    using r one_live_reconciler [OF r] by (simp add: StartReconciler_def new_slot_def)
qed

lemma worker_config_defaults_witness:
  "withDefaults demo_wcfg = Inr demo_wcfg \<and> 3 * wc_HeartbeatInterval demo_wcfg \<le> wc_StaleAfter demo_wcfg"
proof -
  have d: "withDefaults demo_wcfg = Inr demo_wcfg"
    by (simp add: withDefaults_def demo_wcfg_def Let_def wrap64_def)
  show ?thesis using worker_config_defaults [OF d] d by (simp add: demo_wcfg_def)
qed

end
