(* ===== verification/PostgresStore.thy ===== *)
theory PostgresStore
  imports StoreContract CoachStrings
begin

text \<open>
  The durable job store of internal/coachapi/store/postgres, over the tables of
  internal/coachapi/migrations.

  A statement is a function on the tables that fails or gives the new tables and a result.
  The argument \<open>pg_env\<close> says what the database adds to that: which values its column types
  accept (UUID spellings are the canonical ones), how JSONB writes a document back, and
  for the n-th statement whether the connection fails before or after its effect.  A
  transaction keeps its statements' effects only if its commit takes effect.  A
  TIMESTAMPTZ holds whole microseconds: \<open>micro\<close>.  Each operation is one atomic step; the
  fence check that follows a failed update outside a transaction is part of it.
\<close>

section \<open>Tables\<close>

record pg_job =
  pj_job :: job
  pj_commit_sha :: "string option"
  pj_versions :: "report_versions option"
  pj_generated_at :: "time option"

record pg_db =
  db_jobs :: "pg_job list"
  db_findings :: "job_finding list"
  db_diagnostics :: "job_diagnostic list"

datatype pg_fault =
    NoFault
  | FailBefore string
  | FailAfter string

record pg_env =
  pe_uuid :: "string \<Rightarrow> bool"
  pe_text :: "string \<Rightarrow> bool"
  pe_jsonb :: "raw_message \<Rightarrow> raw_message option"
  pe_fault :: "nat \<Rightarrow> pg_fault"
  pe_now :: "nat \<Rightarrow> time"

record pg_store =
  ps_db :: pg_db
  ps_stmt :: nat

definition empty_db :: pg_db where
  "empty_db = \<lparr>db_jobs = [], db_findings = [], db_diagnostics = []\<rparr>"

definition micro :: "time \<Rightarrow> time" where
  "micro t = t - t mod 1000"

definition int4 :: "int \<Rightarrow> bool" where
  "int4 n \<longleftrightarrow> - (2 ^ 31) \<le> n \<and> n < 2 ^ 31"

section \<open>Statements and transactions\<close>

type_synonym 'a statement = "pg_db \<Rightarrow> string + (pg_db \<times> 'a)"

definition pg_fail :: "string \<Rightarrow> string \<Rightarrow> store_error" where
  "pg_fail what e = ErrStoreFailure (''coachapi: '' @ what @ '': '' @ e)"

definition exec_stmt :: "pg_env \<Rightarrow> string \<Rightarrow> 'a statement \<Rightarrow> pg_store \<Rightarrow> (pg_store, store_error, 'a) outcome" where
  "exec_stmt E what f s =
     (let s1 = s\<lparr>ps_stmt := ps_stmt s + 1\<rparr> in
      case pe_fault E (ps_stmt s) of
        FailBefore e \<Rightarrow> (s1, Inl (pg_fail what e))
      | NoFault \<Rightarrow>
          (case f (ps_db s) of
             Inl e \<Rightarrow> (s1, Inl (pg_fail what e))
           | Inr (db, v) \<Rightarrow> (s1\<lparr>ps_db := db\<rparr>, Inr v))
      | FailAfter e \<Rightarrow>
          (case f (ps_db s) of
             Inl e' \<Rightarrow> (s1, Inl (pg_fail what e'))
           | Inr (db, v) \<Rightarrow> (s1\<lparr>ps_db := db\<rparr>, Inl (pg_fail what e))))"

definition and_then ::
  "(pg_store, store_error, 'a) outcome \<Rightarrow> ('a \<Rightarrow> pg_store \<Rightarrow> (pg_store, store_error, 'b) outcome) \<Rightarrow>
   (pg_store, store_error, 'b) outcome" where
  "and_then o1 f = (case snd o1 of Inl e \<Rightarrow> (fst o1, Inl e) | Inr v \<Rightarrow> f v (fst o1))"

text \<open>
  pool.Begin, the body, tx.Commit; the deferred Rollback undoes an uncommitted body.
\<close>

definition transaction ::
  "pg_env \<Rightarrow> string \<Rightarrow> (pg_store \<Rightarrow> (pg_store, store_error, 'a) outcome) \<Rightarrow> pg_store \<Rightarrow>
   (pg_store, store_error, 'a) outcome" where
  "transaction E what body s =
     and_then (exec_stmt E (what @ '': begin tx'') (\<lambda>db. Inr (db, ())) s)
       (\<lambda>_ s1. case body s1 of
          (s2, Inl e) \<Rightarrow> (s2\<lparr>ps_db := ps_db s\<rparr>, Inl e)
        | (s2, Inr v) \<Rightarrow>
            (let s3 = s2\<lparr>ps_stmt := ps_stmt s2 + 1\<rparr> in
             case pe_fault E (ps_stmt s2) of
               NoFault \<Rightarrow> (s3, Inr v)
             | FailBefore e \<Rightarrow> (s3\<lparr>ps_db := ps_db s\<rparr>, Inl (pg_fail (what @ '': commit'') e))
             | FailAfter e \<Rightarrow> (s3, Inl (pg_fail (what @ '': commit'') e))))"

text \<open>\<open>UPDATE jobs SET .. WHERE ..\<close>, with the number of rows affected.\<close>

definition update_jobs :: "(pg_job \<Rightarrow> bool) \<Rightarrow> (pg_job \<Rightarrow> pg_job) \<Rightarrow> nat statement" where
  "update_jobs P f db =
     Inr (db\<lparr>db_jobs := map (\<lambda>r. if P r then f r else r) (db_jobs db)\<rparr>, length (filter P (db_jobs db)))"

definition find_job :: "pg_db \<Rightarrow> string \<Rightarrow> pg_job option" where
  "find_job db jid = find (\<lambda>r. job_id (pj_job r) = jid) (db_jobs db)"

definition with_uuid :: "pg_env \<Rightarrow> string \<Rightarrow> 'a statement \<Rightarrow> 'a statement" where
  "with_uuid E jid f db = (if \<not> pe_uuid E jid then Inl ''invalid input syntax for type uuid'' else f db)"

text \<open>The parameters of a lease: the job id, the worker id as text, the attempt as a four-byte integer.\<close>

definition with_lease :: "pg_env \<Rightarrow> string \<Rightarrow> string \<Rightarrow> int \<Rightarrow> 'a statement \<Rightarrow> 'a statement" where
  "with_lease E jid wid attempt f =
     with_uuid E jid (\<lambda>db. if \<not> pe_text E wid \<or> \<not> int4 attempt then Inl ''invalid value'' else f db)"

definition job_exists :: "pg_env \<Rightarrow> string \<Rightarrow> bool statement" where
  "job_exists E jid = with_uuid E jid (\<lambda>db. Inr (db, find_job db jid \<noteq> None))"

text \<open>fenceFailure and fenceFailureTx.\<close>

definition fenceFailure :: "pg_env \<Rightarrow> string \<Rightarrow> pg_store \<Rightarrow> (pg_store, store_error, 'a) outcome" where
  "fenceFailure E jid s =
     and_then (exec_stmt E ''fence check job'' (job_exists E jid) s)
       (\<lambda>exists s1. if \<not> exists then (s1, Inl ErrJobNotFound) else (s1, Inl ErrClaimLost))"

definition fence_where :: "string \<Rightarrow> string \<Rightarrow> int \<Rightarrow> pg_job \<Rightarrow> bool" where
  "fence_where jid wid attempt r \<longleftrightarrow>
     job_id (pj_job r) = jid \<and> job_status (pj_job r) = JobRunning
     \<and> job_claimed_by (pj_job r) = Some wid \<and> job_attempt (pj_job r) = attempt"

definition on_job :: "(job \<Rightarrow> job) \<Rightarrow> pg_job \<Rightarrow> pg_job" where
  "on_job f r = r\<lparr>pj_job := f (pj_job r)\<rparr>"

text \<open>A single fenced UPDATE outside a transaction, and the check when it hit no row.\<close>

definition fenced_update ::
  "pg_env \<Rightarrow> string \<Rightarrow> string \<Rightarrow> string \<Rightarrow> int \<Rightarrow> (job \<Rightarrow> job) \<Rightarrow> pg_store \<Rightarrow> (pg_store, store_error, unit) outcome" where
  "fenced_update E what jid wid attempt f s =
     and_then (exec_stmt E what (with_lease E jid wid attempt (update_jobs (fence_where jid wid attempt) (on_job f))) s)
       (\<lambda>n s1. if n = 0 then fenceFailure E jid s1 else (s1, Inr ()))"

section \<open>Jobs\<close>

definition job_texts :: "job \<Rightarrow> string list" where
  "job_texts j =
     [job_kind j, job_created_by_provider j, job_created_by_subject j, job_created_by_login j]
     @ (case job_error j of None \<Rightarrow> [] | Some e \<Rightarrow> [e])
     @ (case job_claimed_by j of None \<Rightarrow> [] | Some w \<Rightarrow> [w])"

definition insert_job :: "pg_env \<Rightarrow> job \<Rightarrow> unit statement" where
  "insert_job E j = with_uuid E (job_id j) (\<lambda>db.
     case pe_jsonb E (job_params j) of
       None \<Rightarrow> Inl ''invalid value for column params''
     | Some params \<Rightarrow>
         if \<not> list_all (pe_text E) (job_texts j) \<or> \<not> int4 (job_attempt j) then Inl ''invalid value''
         else if find_job db (job_id j) \<noteq> None
         then Inl ''duplicate key value violates unique constraint jobs_pkey''
         else Inr (db\<lparr>db_jobs := db_jobs db @
           [\<lparr>pj_job = j\<lparr>job_params := params, job_created_at := micro (job_created_at j),
                        job_started_at := map_option micro (job_started_at j),
                        job_finished_at := map_option micro (job_finished_at j),
                        job_heartbeat_at := map_option micro (job_heartbeat_at j)\<rparr>,
              pj_commit_sha = None, pj_versions = None, pj_generated_at = None\<rparr>]\<rparr>, ()))"

definition pg_CreateJob :: "pg_env \<Rightarrow> pg_store \<Rightarrow> job \<Rightarrow> (pg_store, store_error, unit) outcome" where
  "pg_CreateJob E s j = exec_stmt E ''create job'' (insert_job E j) s"

text \<open>A query; its effect on the statement counter is not kept, since it changes nothing.\<close>

definition query :: "pg_env \<Rightarrow> string \<Rightarrow> 'a statement \<Rightarrow> pg_store \<Rightarrow> store_error + 'a" where
  "query E what f s = snd (exec_stmt E what f s)"

definition scanJob :: "pg_job option \<Rightarrow> store_error + job" where
  "scanJob row = (case row of None \<Rightarrow> Inl ErrJobNotFound | Some r \<Rightarrow> Inr (pj_job r))"

definition pg_GetJob :: "pg_env \<Rightarrow> pg_store \<Rightarrow> string \<Rightarrow> store_error + job" where
  "pg_GetJob E s jid =
     (case query E ''get job'' (with_uuid E jid (\<lambda>db. Inr (db, find_job db jid))) s of
        Inl e \<Rightarrow> Inl e
      | Inr row \<Rightarrow> scanJob row)"

definition pg_RecordFailure :: "pg_env \<Rightarrow> pg_store \<Rightarrow> string \<Rightarrow> string \<Rightarrow> time \<Rightarrow> (pg_store, store_error, unit) outcome" where
  "pg_RecordFailure E s jid msg finished =
     and_then (exec_stmt E ''record failure: updating job''
        (with_uuid E jid (\<lambda>db. if \<not> pe_text E msg then Inl ''invalid value'' else
          update_jobs (\<lambda>r. job_id (pj_job r) = jid)
            (on_job (\<lambda>j. j\<lparr>job_status := JobFailed, job_error := Some msg, job_finished_at := Some (micro finished)\<rparr>)) db)) s)
       (\<lambda>n s1. if n = 0 then (s1, Inl ErrJobNotFound) else (s1, Inr ()))"

section \<open>Claims\<close>

definition claim_where :: "string \<Rightarrow> time \<Rightarrow> pg_job \<Rightarrow> bool" where
  "claim_where jid stale_before r \<longleftrightarrow>
     job_id (pj_job r) = jid
     \<and> (job_status (pj_job r) = JobQueued
        \<or> job_status (pj_job r) = JobRunning
          \<and> (case job_heartbeat_at (pj_job r) of None \<Rightarrow> True | Some hb \<Rightarrow> hb \<le> stale_before))"

definition claim_set :: "string \<Rightarrow> time \<Rightarrow> pg_job \<Rightarrow> pg_job" where
  "claim_set wid now r =
     \<lparr>pj_job = (pj_job r)\<lparr>job_attempt := job_attempt (pj_job r) + 1, job_status := JobRunning,
        job_claimed_by := Some wid, job_heartbeat_at := Some now, job_started_at := Some now,
        job_finished_at := None, job_error := None\<rparr>,
      pj_commit_sha = None, pj_versions = None, pj_generated_at = None\<rparr>"

text \<open>The claiming UPDATE .. RETURNING attempt: no row, or the new attempt.\<close>

definition update_claim :: "pg_env \<Rightarrow> string \<Rightarrow> string \<Rightarrow> time \<Rightarrow> time \<Rightarrow> int option statement" where
  "update_claim E jid wid now stale_before = with_uuid E jid (\<lambda>db.
     case find (claim_where jid (micro stale_before)) (db_jobs db) of
       None \<Rightarrow> Inr (db, None)
     | Some r \<Rightarrow>
         if \<not> pe_text E wid then Inl ''invalid value''
         else if \<not> int4 (job_attempt (pj_job r) + 1) then Inl ''integer out of range''
         else (case update_jobs (claim_where jid (micro stale_before)) (claim_set wid (micro now)) db of
                 Inl e \<Rightarrow> Inl e
               | Inr (db', _) \<Rightarrow> Inr (db', Some (job_attempt (pj_job r) + 1))))"

definition delete_findings :: "string \<Rightarrow> unit statement" where
  "delete_findings jid db = Inr (db\<lparr>db_findings := filter (\<lambda>f. jf_job_id f \<noteq> jid) (db_findings db)\<rparr>, ())"

definition delete_diagnostics :: "string \<Rightarrow> unit statement" where
  "delete_diagnostics jid db =
     Inr (db\<lparr>db_diagnostics := filter (\<lambda>d. jd_job_id d \<noteq> jid) (db_diagnostics db)\<rparr>, ())"

definition pg_ClaimJob ::
  "pg_env \<Rightarrow> pg_store \<Rightarrow> string \<Rightarrow> string \<Rightarrow> time \<Rightarrow> duration \<Rightarrow> (pg_store, store_error, claim_lease) outcome" where
  "pg_ClaimJob E s jid wid now stale_after =
     (let stale_before = time_add now (- stale_after) in
      transaction E ''claim job''
        (\<lambda>s1. and_then (exec_stmt E ''claim job'' (update_claim E jid wid now stale_before) s1)
          (\<lambda>hit s2. case hit of
             None \<Rightarrow>
               and_then (exec_stmt E ''claim job'' (job_exists E jid) s2)
                 (\<lambda>exists s3. if \<not> exists then (s3, Inl ErrJobNotFound) else (s3, Inl ErrNotClaimable))
           | Some attempt \<Rightarrow>
               and_then (exec_stmt E ''claim job: delete findings'' (delete_findings jid) s2)
                 (\<lambda>_ s3. and_then (exec_stmt E ''claim job: delete diagnostics'' (delete_diagnostics jid) s3)
                   (\<lambda>_ s4. (s4, Inr \<lparr>cl_job_id = jid, cl_worker_id = wid, cl_attempt = attempt,
                                     cl_started_at = now\<rparr>))))) s)"

definition pg_ReleaseClaim ::
  "pg_env \<Rightarrow> pg_store \<Rightarrow> string \<Rightarrow> string \<Rightarrow> int \<Rightarrow> (pg_store, store_error, unit) outcome" where
  "pg_ReleaseClaim E s jid wid attempt =
     fenced_update E ''release claim'' jid wid attempt
       (\<lambda>j. j\<lparr>job_status := JobQueued, job_claimed_by := None, job_heartbeat_at := None\<rparr>) s"

definition pg_Heartbeat ::
  "pg_env \<Rightarrow> pg_store \<Rightarrow> string \<Rightarrow> string \<Rightarrow> int \<Rightarrow> time \<Rightarrow> (pg_store, store_error, unit) outcome" where
  "pg_Heartbeat E s jid wid attempt now =
     fenced_update E ''heartbeat job'' jid wid attempt (\<lambda>j. j\<lparr>job_heartbeat_at := Some (micro now)\<rparr>) s"

section \<open>Findings and diagnostics\<close>

definition finding_texts :: "job_finding \<Rightarrow> string list" where
  "finding_texts f =
     [jf_source f, jf_payload_hash f]
     @ (case jf_rubric_id f of None \<Rightarrow> [] | Some x \<Rightarrow> [x])
     @ (case jf_rubric_version f of None \<Rightarrow> [] | Some x \<Rightarrow> [x])
     @ (case jf_model_identity f of None \<Rightarrow> [] | Some x \<Rightarrow> [x])"

text \<open>The constraint job_findings_provenance_chk and the unique key of job_findings.\<close>

definition provenance_chk :: "job_finding \<Rightarrow> bool" where
  "provenance_chk f \<longleftrightarrow>
     jf_source f = ''deterministic'' \<and> jf_rubric_id f = None \<and> jf_rubric_version f = None \<and> jf_model_identity f = None
     \<or> jf_source f = ''agent'' \<and> jf_rubric_id f \<noteq> None \<and> jf_rubric_version f \<noteq> None \<and> jf_model_identity f \<noteq> None"

definition finding_key :: "job_finding \<Rightarrow> string \<times> int \<times> string \<times> string option \<times> string" where
  "finding_key f = (jf_job_id f, jf_attempt f, jf_source f, jf_rubric_id f, jf_payload_hash f)"

text \<open>The VALUES form of the INSERT; the row is stored with its created_at to the microsecond.\<close>

definition insert_finding :: "pg_env \<Rightarrow> job_finding \<Rightarrow> unit statement" where
  "insert_finding E f = with_uuid E (jf_id f) (with_uuid E (jf_job_id f) (\<lambda>db.
     case pe_jsonb E (jf_payload f) of
       None \<Rightarrow> Inl ''invalid value for column payload''
     | Some payload \<Rightarrow>
         if \<not> list_all (pe_text E) (finding_texts f) \<or> \<not> int4 (jf_attempt f) \<or> \<not> provenance_chk f
         then Inl ''invalid value''
         else if jf_id f \<in> set (map jf_id (db_findings db)) \<or> finding_key f \<in> set (map finding_key (db_findings db))
         then Inl ''duplicate key value violates unique constraint''
         else if find_job db (jf_job_id f) = None
         then Inl ''insert violates foreign key constraint''
         else Inr (db\<lparr>db_findings := db_findings db @
                [f\<lparr>jf_payload := payload, jf_created_at := micro (jf_created_at f)\<rparr>]\<rparr>, ())))"

definition insert_diagnostic :: "pg_env \<Rightarrow> job_diagnostic \<Rightarrow> unit statement" where
  "insert_diagnostic E d = with_uuid E (jd_id d) (with_uuid E (jd_job_id d) (\<lambda>db.
     if \<not> pe_text E (jd_scope d) \<or> \<not> pe_text E (jd_message d) \<or> \<not> int4 (jd_attempt d) then Inl ''invalid value''
     else if jd_id d \<in> set (map jd_id (db_diagnostics db))
     then Inl ''duplicate key value violates unique constraint''
     else if find_job db (jd_job_id d) = None then Inl ''insert violates foreign key constraint''
     else Inr (db\<lparr>db_diagnostics := db_diagnostics db @ [d\<lparr>jd_created_at := micro (jd_created_at d)\<rparr>]\<rparr>, ())))"

text \<open>The form \<open>INSERT .. SELECT .. WHERE EXISTS (fence)\<close>: no row when the fence does not hold.\<close>

definition fenced_insert :: "string \<Rightarrow> string \<Rightarrow> int \<Rightarrow> unit statement \<Rightarrow> nat statement" where
  "fenced_insert jid wid attempt ins db =
     (if list_ex (fence_where jid wid attempt) (db_jobs db)
      then (case ins db of Inl e \<Rightarrow> Inl e | Inr (db', _) \<Rightarrow> Inr (db', 1))
      else Inr (db, 0))"

definition stamped_at :: "pg_env \<Rightarrow> nat \<Rightarrow> time \<Rightarrow> time" where
  "stamped_at E n t = (if is_zero_time t then pe_now E n else t)"

fun insert_findings_loop ::
  "pg_env \<Rightarrow> string \<Rightarrow> string \<Rightarrow> int \<Rightarrow> job_finding list \<Rightarrow> pg_store \<Rightarrow> (pg_store, store_error, unit) outcome" where
  "insert_findings_loop E jid wid attempt [] s = (s, Inr ())"
| "insert_findings_loop E jid wid attempt (f # fs) s =
     (let row = f\<lparr>jf_job_id := jid, jf_attempt := attempt, jf_created_at := stamped_at E (ps_stmt s) (jf_created_at f)\<rparr>
      in and_then (exec_stmt E ''insert findings: inserting''
            (with_lease E jid wid attempt (fenced_insert jid wid attempt (insert_finding E row))) s)
          (\<lambda>n s1. if n = 0 then fenceFailure E jid s1 else insert_findings_loop E jid wid attempt fs s1))"

definition pg_InsertFindings ::
  "pg_env \<Rightarrow> pg_store \<Rightarrow> string \<Rightarrow> string \<Rightarrow> int \<Rightarrow> job_finding list \<Rightarrow> (pg_store, store_error, unit) outcome" where
  "pg_InsertFindings E s jid wid attempt fs =
     (if length fs = 0 then (s, Inr ())
      else transaction E ''insert findings'' (insert_findings_loop E jid wid attempt fs) s)"

fun insert_diagnostics_loop ::
  "pg_env \<Rightarrow> string \<Rightarrow> string \<Rightarrow> int \<Rightarrow> job_diagnostic list \<Rightarrow> pg_store \<Rightarrow> (pg_store, store_error, unit) outcome" where
  "insert_diagnostics_loop E jid wid attempt [] s = (s, Inr ())"
| "insert_diagnostics_loop E jid wid attempt (d # ds) s =
     (let row = d\<lparr>jd_job_id := jid, jd_attempt := attempt, jd_created_at := stamped_at E (ps_stmt s) (jd_created_at d)\<rparr>
      in and_then (exec_stmt E ''insert diagnostics: inserting''
            (with_lease E jid wid attempt (fenced_insert jid wid attempt (insert_diagnostic E row))) s)
          (\<lambda>n s1. if n = 0 then fenceFailure E jid s1 else insert_diagnostics_loop E jid wid attempt ds s1))"

definition pg_InsertDiagnostics ::
  "pg_env \<Rightarrow> pg_store \<Rightarrow> string \<Rightarrow> string \<Rightarrow> int \<Rightarrow> job_diagnostic list \<Rightarrow> (pg_store, store_error, unit) outcome" where
  "pg_InsertDiagnostics E s jid wid attempt ds =
     (if length ds = 0 then (s, Inr ())
      else transaction E ''insert diagnostics'' (insert_diagnostics_loop E jid wid attempt ds) s)"

section \<open>Completion\<close>

text \<open>
  The loops over findings, then diagnostics, with created_at advancing by \<open>unit\<close> from
  GeneratedAt: a microsecond in RecordCompletion, a nanosecond in CompleteJob.
\<close>

fun completion_findings ::
  "pg_env \<Rightarrow> string \<Rightarrow> time \<Rightarrow> duration \<Rightarrow> nat \<Rightarrow> job_finding list \<Rightarrow> pg_store \<Rightarrow> (pg_store, store_error, nat) outcome" where
  "completion_findings E what generated step k [] s = (s, Inr k)"
| "completion_findings E what generated step k (f # fs) s =
     and_then (exec_stmt E (what @ '': inserting finding'')
        (insert_finding E (f\<lparr>jf_created_at := time_add generated (int k * step)\<rparr>)) s)
       (\<lambda>_ s1. completion_findings E what generated step (k + 1) fs s1)"

fun completion_diagnostics ::
  "pg_env \<Rightarrow> string \<Rightarrow> time \<Rightarrow> duration \<Rightarrow> nat \<Rightarrow> job_diagnostic list \<Rightarrow> pg_store \<Rightarrow> (pg_store, store_error, unit) outcome" where
  "completion_diagnostics E what generated step k [] s = (s, Inr ())"
| "completion_diagnostics E what generated step k (d # ds) s =
     and_then (exec_stmt E (what @ '': inserting diagnostic'')
        (insert_diagnostic E (d\<lparr>jd_created_at := time_add generated (int k * step)\<rparr>)) s)
       (\<lambda>_ s1. completion_diagnostics E what generated step (k + 1) ds s1)"

definition completion_set :: "int \<Rightarrow> completion \<Rightarrow> pg_job \<Rightarrow> pg_job" where
  "completion_set attempt c r =
     \<lparr>pj_job = (pj_job r)\<lparr>job_status := JobCompleted, job_attempt := attempt,
        job_finished_at := Some (micro (cp_finished_at c)), job_error := None\<rparr>,
      pj_commit_sha = Some (cp_commit_sha c), pj_versions = Some (cp_versions c),
      pj_generated_at = Some (micro (cp_generated_at c))\<rparr>"

definition update_completion ::
  "pg_env \<Rightarrow> string \<Rightarrow> (pg_job \<Rightarrow> bool) \<Rightarrow> int \<Rightarrow> completion \<Rightarrow> nat statement" where
  "update_completion E jid P attempt c = with_uuid E jid (\<lambda>db.
     if \<not> pe_text E (cp_commit_sha c) \<or> \<not> int4 attempt then Inl ''invalid value''
     else update_jobs P (completion_set attempt c) db)"

definition pg_RecordCompletion :: "pg_env \<Rightarrow> pg_store \<Rightarrow> string \<Rightarrow> completion \<Rightarrow> (pg_store, store_error, unit) outcome" where
  "pg_RecordCompletion E s jid c =
     transaction E ''record completion''
       (\<lambda>s1. and_then (exec_stmt E ''record completion: updating job''
           (update_completion E jid (\<lambda>r. job_id (pj_job r) = jid) (cp_attempt c) c) s1)
         (\<lambda>n s2. if n = 0 then (s2, Inl ErrJobNotFound)
                 else and_then (completion_findings E ''record completion'' (cp_generated_at c) 1000 0 (cp_findings c) s2)
                   (\<lambda>k s3. completion_diagnostics E ''record completion'' (cp_generated_at c) 1000 k (cp_diagnostics c) s3))) s"

definition lease_findings :: "string \<Rightarrow> int \<Rightarrow> job_finding list \<Rightarrow> job_finding list" where
  "lease_findings jid attempt fs = map (\<lambda>f. f\<lparr>jf_job_id := jid, jf_attempt := attempt\<rparr>) fs"

definition lease_diagnostics :: "string \<Rightarrow> int \<Rightarrow> job_diagnostic list \<Rightarrow> job_diagnostic list" where
  "lease_diagnostics jid attempt ds = map (\<lambda>d. d\<lparr>jd_job_id := jid, jd_attempt := attempt\<rparr>) ds"

definition pg_CompleteJob ::
  "pg_env \<Rightarrow> pg_store \<Rightarrow> string \<Rightarrow> string \<Rightarrow> int \<Rightarrow> completion \<Rightarrow> (pg_store, store_error, unit) outcome" where
  "pg_CompleteJob E s jid wid attempt c =
     transaction E ''complete job''
       (\<lambda>s1. and_then (exec_stmt E ''complete job''
           (with_lease E jid wid attempt (update_completion E jid (fence_where jid wid attempt) attempt c)) s1)
         (\<lambda>n s2. if n = 0 then fenceFailure E jid s2
                 else and_then (completion_findings E ''complete job'' (cp_generated_at c) 1 0
                                  (lease_findings jid attempt (cp_findings c)) s2)
                   (\<lambda>k s3. completion_diagnostics E ''complete job'' (cp_generated_at c) 1 k
                             (lease_diagnostics jid attempt (cp_diagnostics c)) s3))) s"

definition pg_FailJob ::
  "pg_env \<Rightarrow> pg_store \<Rightarrow> string \<Rightarrow> string \<Rightarrow> int \<Rightarrow> string \<Rightarrow> time \<Rightarrow> (pg_store, store_error, unit) outcome" where
  "pg_FailJob E s jid wid attempt msg finished =
     (if pe_text E msg
      then fenced_update E ''fail job'' jid wid attempt
             (\<lambda>j. j\<lparr>job_status := JobFailed, job_error := Some msg, job_finished_at := Some (micro finished)\<rparr>) s
      else exec_stmt E ''fail job'' (\<lambda>db. Inl ''invalid value'') s)"

section \<open>Reports\<close>

definition cmp_created :: "(time \<times> string) \<Rightarrow> (time \<times> string) \<Rightarrow> int" where
  "cmp_created a b = cmp_or [cmp_compare (fst a) (fst b), cmp_compare (snd a) (snd b)]"

definition findingsForReport :: "pg_db \<Rightarrow> string \<Rightarrow> job_finding list" where
  "findingsForReport db jid =
     stable_sort (\<lambda>f g. cmp_created (jf_created_at f, jf_id f) (jf_created_at g, jf_id g))
       (filter (\<lambda>f. jf_job_id f = jid
          \<and> list_ex (\<lambda>r. job_id (pj_job r) = jid \<and> job_attempt (pj_job r) = jf_attempt f) (db_jobs db)) (db_findings db))"

definition diagnosticsForReport :: "pg_db \<Rightarrow> string \<Rightarrow> job_diagnostic list" where
  "diagnosticsForReport db jid =
     stable_sort (\<lambda>d e. cmp_created (jd_created_at d, jd_id d) (jd_created_at e, jd_id e))
       (filter (\<lambda>d. jd_job_id d = jid
          \<and> list_ex (\<lambda>r. job_id (pj_job r) = jid \<and> job_attempt (pj_job r) = jd_attempt d) (db_jobs db)) (db_diagnostics db))"

text \<open>A NULL commit_sha or report_versions in a row with generated_at fails to scan or decode.\<close>

definition report_row :: "pg_env \<Rightarrow> string \<Rightarrow> (pg_job \<times> string \<times> report_versions \<times> time) option statement" where
  "report_row E jid = with_uuid E jid (\<lambda>db.
     case find_job db jid of
       None \<Rightarrow> Inr (db, None)
     | Some r \<Rightarrow>
         (case pj_generated_at r of
            None \<Rightarrow> Inr (db, None)
          | Some g \<Rightarrow>
              (case (pj_commit_sha r, pj_versions r) of
                 (Some sha, Some vs) \<Rightarrow> Inr (db, Some (r, sha, vs, g))
               | _ \<Rightarrow> Inl ''cannot scan NULL'')))"

definition pg_GetReport :: "pg_env \<Rightarrow> pg_store \<Rightarrow> string \<Rightarrow> store_error + report" where
  "pg_GetReport E s jid =
     snd (and_then (exec_stmt E ''get report'' (report_row E jid) s)
       (\<lambda>row s1. case row of
          None \<Rightarrow> (s1, Inl ErrJobNotFound)
        | Some (r, sha, vs, g) \<Rightarrow>
            and_then (exec_stmt E ''get report: querying findings'' (\<lambda>db. Inr (db, findingsForReport db jid)) s1)
              (\<lambda>fs s2. and_then (exec_stmt E ''get report: querying diagnostics'' (\<lambda>db. Inr (db, diagnosticsForReport db jid)) s2)
                (\<lambda>ds s3. (s3, Inr \<lparr>rp_report_version = ReportVersion1, rp_job_id = jid,
                    rp_kind = job_kind (pj_job r), rp_params = job_params (pj_job r), rp_commit_sha = sha,
                    rp_summary = SummarizeFindings fs, rp_findings = ReportFindings fs,
                    rp_diagnostics = ReportDiagnostics ds, rp_error = job_error (pj_job r),
                    rp_versions = vs, rp_generated_at = g\<rparr>)))))"

section \<open>Reconciliation\<close>

definition pg_ListQueuedOlderThan :: "pg_env \<Rightarrow> pg_store \<Rightarrow> time \<Rightarrow> store_error + job list" where
  "pg_ListQueuedOlderThan E s older_than =
     query E ''list queued older than'' (\<lambda>db. Inr (db,
       stable_sort (\<lambda>i j. cmp_compare (job_created_at i) (job_created_at j))
         (map pj_job (filter (\<lambda>r. job_status (pj_job r) = JobQueued
            \<and> job_created_at (pj_job r) < micro older_than) (db_jobs db))))) s"

definition pg_ReleaseStaleRunning ::
  "pg_env \<Rightarrow> pg_store \<Rightarrow> time \<Rightarrow> duration \<Rightarrow> (pg_store, store_error, nat) outcome" where
  "pg_ReleaseStaleRunning E s now stale_after =
     exec_stmt E ''release stale running''
       (update_jobs
          (\<lambda>r. job_status (pj_job r) = JobRunning
             \<and> (case job_heartbeat_at (pj_job r) of
                  None \<Rightarrow> True | Some hb \<Rightarrow> hb \<le> micro (time_add now (- stale_after))))
          (on_job (\<lambda>j. j\<lparr>job_status := JobQueued, job_claimed_by := None, job_heartbeat_at := None\<rparr>))) s"

definition postgres_ops :: "pg_env \<Rightarrow> pg_store store_ops" where
  "postgres_ops E =
     \<lparr>so_create_job = pg_CreateJob E, so_get_job = pg_GetJob E, so_get_report = pg_GetReport E,
      so_claim_job = pg_ClaimJob E, so_heartbeat = pg_Heartbeat E,
      so_insert_findings = pg_InsertFindings E, so_insert_diagnostics = pg_InsertDiagnostics E,
      so_complete_job = pg_CompleteJob E, so_fail_job = pg_FailJob E, so_release_claim = pg_ReleaseClaim E,
      so_list_queued = pg_ListQueuedOlderThan E, so_release_stale = pg_ReleaseStaleRunning E\<rparr>"

section \<open>Reasoning about statements\<close>

text \<open>
  \<open>triple P m Q X\<close>: run on tables satisfying P, m ends with Q of its value and the tables,
  or with X of its error and the tables.
\<close>

definition triple ::
  "(pg_db \<Rightarrow> bool) \<Rightarrow> (pg_store \<Rightarrow> (pg_store, store_error, 'a) outcome) \<Rightarrow> ('a \<Rightarrow> pg_db \<Rightarrow> bool) \<Rightarrow>
   (store_error \<Rightarrow> pg_db \<Rightarrow> bool) \<Rightarrow> bool" where
  "triple P m Q X \<longleftrightarrow>
     (\<forall>s. P (ps_db s) \<longrightarrow>
        (case snd (m s) of Inr v \<Rightarrow> Q v (ps_db (fst (m s))) | Inl e \<Rightarrow> X e (ps_db (fst (m s)))))"

definition on_failure :: "(store_error \<Rightarrow> pg_db \<Rightarrow> bool) \<Rightarrow> pg_db \<Rightarrow> bool" where
  "on_failure X db \<longleftrightarrow> (\<forall>m. X (ErrStoreFailure m) db)"

lemma triple_stmt:
  assumes "\<And>db db' v. P db \<Longrightarrow> f db = Inr (db', v) \<Longrightarrow> Q v db' \<and> on_failure X db'"
    and "\<And>db. P db \<Longrightarrow> on_failure X db"
  shows "triple P (exec_stmt E what f) Q X"
  using assms
  by (fastforce simp: triple_def exec_stmt_def on_failure_def pg_fail_def Let_def
      split: pg_fault.splits sum.splits prod.splits)

lemma triple_then:
  assumes "triple P m Q X" "\<And>v. triple (Q v) (f v) Q' X"
  shows "triple P (\<lambda>s. and_then (m s) f) Q' X"
  using assms by (fastforce simp: triple_def and_then_def split: sum.splits)

lemma triple_return: "(\<And>db. P db \<Longrightarrow> Q v db) \<Longrightarrow> triple P (\<lambda>s. (s, Inr v)) Q X"
  by (simp add: triple_def)

lemma triple_raise: "(\<And>db. P db \<Longrightarrow> X e db) \<Longrightarrow> triple P (\<lambda>s. (s, Inl e)) Q X"
  by (simp add: triple_def)

lemma triple_if:
  "(b \<Longrightarrow> triple P m Q X) \<Longrightarrow> (\<not> b \<Longrightarrow> triple P m' Q X) \<Longrightarrow> triple P (\<lambda>s. if b then m s else m' s) Q X"
  by (simp add: triple_def)

lemma triple_each: "(\<And>d. P d \<Longrightarrow> triple (\<lambda>db. db = d) m Q X) \<Longrightarrow> triple P m Q X"
  by (simp add: triple_def)

lemma triple_transaction:
  assumes "triple (\<lambda>db. db = d) body Q (\<lambda>e db. X e d)" "on_failure X d"
    and "\<And>v db. Q v db \<Longrightarrow> on_failure X db"
  shows "triple (\<lambda>db. db = d) (transaction E what body) Q X"
proof -
  have "case snd (transaction E what body s) of
      Inr v \<Rightarrow> Q v (ps_db (fst (transaction E what body s)))
    | Inl e \<Rightarrow> X e (ps_db (fst (transaction E what body s)))" if d: "ps_db s = d" for s
  proof -
    let ?s1 = "s\<lparr>ps_stmt := ps_stmt s + 1\<rparr>"
    obtain s2 r where b: "body ?s1 = (s2, r)" by fastforce
    have body: "case r of Inr v \<Rightarrow> Q v (ps_db s2) | Inl e \<Rightarrow> X e d"
      using assms(1) [unfolded triple_def, rule_format, of ?s1] d b by (cases r) simp_all
    have same: "s\<lparr>ps_stmt := Suc (ps_stmt s), ps_db := ps_db s\<rparr> = ?s1" by simp
    show ?thesis
    proof (cases "pe_fault E (ps_stmt s)")
      case NoFault
      then have t: "transaction E what body s =
          (case body (s\<lparr>ps_stmt := Suc (ps_stmt s)\<rparr>) of
            (s2, Inl e) \<Rightarrow> (s2\<lparr>ps_db := ps_db s\<rparr>, Inl e)
          | (s2, Inr v) \<Rightarrow>
              (let s3 = s2\<lparr>ps_stmt := Suc (ps_stmt s2)\<rparr> in
               case pe_fault E (ps_stmt s2) of
                 NoFault \<Rightarrow> (s3, Inr v)
               | FailBefore e \<Rightarrow> (s3\<lparr>ps_db := ps_db s\<rparr>, Inl (pg_fail (what @ '': commit'') e))
               | FailAfter e \<Rightarrow> (s3, Inl (pg_fail (what @ '': commit'') e))))"
        by (simp add: transaction_def and_then_def exec_stmt_def same)
      show ?thesis
      proof (cases r)
        case (Inl e)
        then show ?thesis using body d b unfolding t by simp
      next
        case (Inr v)
        then have "Q v (ps_db s2)" "on_failure X (ps_db s2)" using body assms(3) by auto
        then show ?thesis
          using assms(2) d b unfolding t Inr
          by (cases "pe_fault E (ps_stmt s2)") (simp_all add: on_failure_def pg_fail_def Let_def)
      qed
    qed (use d assms(2) in \<open>simp_all add: transaction_def and_then_def exec_stmt_def on_failure_def pg_fail_def\<close>)
  qed
  then show ?thesis by (simp add: triple_def)
qed

section \<open>The tables as job rows\<close>

definition db_rows :: "pg_db \<Rightarrow> job_rows" where
  "db_rows db = (\<lambda>k. map_option pj_job (find_job db k))"

definition precise_job :: "job \<Rightarrow> bool" where
  "precise_job j \<longleftrightarrow> micro (job_created_at j) = job_created_at j
     \<and> map_option micro (job_heartbeat_at j) = job_heartbeat_at j"

definition wf_db :: "pg_db \<Rightarrow> bool" where
  "wf_db db \<longleftrightarrow> distinct (map (job_id \<circ> pj_job) (db_jobs db)) \<and> list_all (precise_job \<circ> pj_job) (db_jobs db)"

definition pg_rows :: "pg_store \<Rightarrow> job_rows" where
  "pg_rows s = db_rows (ps_db s)"

definition pg_wf :: "pg_store \<Rightarrow> bool" where
  "pg_wf s \<longleftrightarrow> wf_db (ps_db s)"

lemma micro_micro [simp]: "micro (micro t) = micro t"
  by (simp add: micro_def mod_diff_eq)

lemma find_map:
  "(\<And>r. job_id (pj_job (f r)) = job_id (pj_job r)) \<Longrightarrow>
   find (\<lambda>r. job_id (pj_job r) = k) (map f rs) = map_option f (find (\<lambda>r. job_id (pj_job r) = k) rs)"
  by (induction rs) auto

lemma find_in_distinct:
  "distinct (map (job_id \<circ> pj_job) rs) \<Longrightarrow> r \<in> set rs \<Longrightarrow> find (\<lambda>x. job_id (pj_job x) = job_id (pj_job r)) rs = Some r"
  by (induction rs) (auto simp: image_iff)

lemma find_job_iff:
  "wf_db db \<Longrightarrow> find_job db k = Some r \<longleftrightarrow> r \<in> set (db_jobs db) \<and> job_id (pj_job r) = k"
  using find_in_distinct [of "db_jobs db"] by (auto simp: find_job_def wf_db_def dest: find_SomeD)

text \<open>An UPDATE whose assignments keep the id.\<close>

lemma update_rows:
  assumes "update_jobs P f db = Inr (db', n)" "\<And>r. job_id (pj_job (f r)) = job_id (pj_job r)"
  shows "db_rows db' = (\<lambda>k. map_option (\<lambda>r. pj_job (if P r then f r else r)) (find_job db k))"
    and "n = length (filter P (db_jobs db))"
proof -
  have db': "db' = db\<lparr>db_jobs := map (\<lambda>r. if P r then f r else r) (db_jobs db)\<rparr>"
    and n: "n = length (filter P (db_jobs db))"
    using assms(1) by (auto simp: update_jobs_def)
  show "db_rows db' = (\<lambda>k. map_option (\<lambda>r. pj_job (if P r then f r else r)) (find_job db k))"
    unfolding db_rows_def find_job_def db'
    by (simp add: find_map assms(2) option.map_comp comp_def)
  show "n = length (filter P (db_jobs db))" by (rule n)
qed

lemma update_wf:
  assumes "update_jobs P f db = Inr (db', n)" "wf_db db" "\<And>r. job_id (pj_job (f r)) = job_id (pj_job r)"
    and "\<And>r. r \<in> set (db_jobs db) \<Longrightarrow> P r \<Longrightarrow> precise_job (pj_job (f r))"
  shows "wf_db db'"
proof -
  have jobs: "db_jobs db' = map (\<lambda>r. if P r then f r else r) (db_jobs db)"
    using assms(1) by (auto simp: update_jobs_def)
  have "map (job_id \<circ> pj_job) (db_jobs db') = map (job_id \<circ> pj_job) (db_jobs db)"
    unfolding jobs by (simp add: assms(3))
  then have "distinct (map (job_id \<circ> pj_job) (db_jobs db'))" using assms(2) by (simp add: wf_db_def)
  moreover have "list_all (precise_job \<circ> pj_job) (db_jobs db')"
    using assms(2,4) unfolding wf_db_def jobs by (auto simp: list_all_iff)
  ultimately show ?thesis by (simp add: wf_db_def)
qed

lemma fence_count:
  assumes "wf_db db"
  shows "length (filter (fence_where jid w a) (db_jobs db)) = 0 \<longleftrightarrow>
    \<not> (\<exists>j. db_rows db jid = Some j \<and> fence_row j w a)"
  using find_job_iff [OF assms, of jid]
  by (auto simp: filter_empty_conv db_rows_def fence_where_def fence_row_def)

lemma fence_rows:
  assumes "wf_db db" "db_rows db jid = Some j" "fence_row j w a"
  shows "(\<lambda>k. map_option (\<lambda>r. pj_job (if fence_where jid w a r then f r else r)) (find_job db k)) =
    (db_rows db)(jid \<mapsto> pj_job (f (the (find_job db jid))))"
proof
  fix k
  obtain r where r: "find_job db jid = Some r" "pj_job r = j"
    using assms(2) by (auto simp: db_rows_def)
  show "map_option (\<lambda>r. pj_job (if fence_where jid w a r then f r else r)) (find_job db k) =
    ((db_rows db)(jid \<mapsto> pj_job (f (the (find_job db jid))))) k"
  proof (cases "k = jid")
    case True
    have "job_id (pj_job r) = jid" using r(1) find_job_iff [OF assms(1)] by simp
    then have "fence_where jid w a r" using r(2) assms(3) by (simp add: fence_where_def fence_row_def)
    then show ?thesis using True r(1) by simp
  next
    case False
    show ?thesis
    proof (cases "find_job db k")
      case None
      then show ?thesis using False by (simp add: db_rows_def)
    next
      case (Some x)
      have "job_id (pj_job x) = k" using Some find_job_iff [OF assms(1)] by simp
      then have "\<not> fence_where jid w a x" using False by (simp add: fence_where_def)
      then show ?thesis using False Some by (simp add: db_rows_def)
    qed
  qed
qed

section \<open>What the statements do to the job rows\<close>

text \<open>
  The abstract machine at the precision of the columns.  It is \<open>spec_call\<close> on calls whose
  instants are whole microseconds (\<open>sql_call_precise\<close> below).
\<close>

definition stored_job :: "pg_env \<Rightarrow> job \<Rightarrow> job" where
  "stored_job E j =
     j\<lparr>job_params := (case pe_jsonb E (job_params j) of None \<Rightarrow> job_params j | Some p \<Rightarrow> p),
       job_created_at := micro (job_created_at j), job_started_at := map_option micro (job_started_at j),
       job_finished_at := map_option micro (job_finished_at j),
       job_heartbeat_at := map_option micro (job_heartbeat_at j)\<rparr>"

definition sql_stale :: "time \<Rightarrow> job \<Rightarrow> bool" where
  "sql_stale stale_before j \<longleftrightarrow> (case job_heartbeat_at j of None \<Rightarrow> True | Some hb \<Rightarrow> hb \<le> stale_before)"

definition sql_claimable :: "time \<Rightarrow> job \<Rightarrow> bool" where
  "sql_claimable stale_before j \<longleftrightarrow>
     job_status j = JobQueued \<or> job_status j = JobRunning \<and> sql_stale stale_before j"

definition sql_release :: "time \<Rightarrow> job \<Rightarrow> job" where
  "sql_release stale_before j =
     (if job_status j = JobRunning \<and> sql_stale stale_before j then released_row j else j)"

fun sql_call :: "pg_env \<Rightarrow> store_call \<Rightarrow> job_rows \<Rightarrow> (job_rows, store_error, call_result) outcome" where
  "sql_call E (CallCreate j) rows =
     (case rows (job_id j) of
        None \<Rightarrow> (rows(job_id j \<mapsto> stored_job E j), Inr RUnit)
      | Some _ \<Rightarrow> (rows, Inl (ErrStoreFailure ''already exists'')))"
| "sql_call E (CallClaim jid w now st) rows =
     (case rows jid of
        None \<Rightarrow> (rows, Inl ErrJobNotFound)
      | Some j \<Rightarrow>
          if sql_claimable (micro (time_add now (- st))) j
          then (rows(jid \<mapsto> claimed_row j w (micro now)),
                Inr (RLease \<lparr>cl_job_id = jid, cl_worker_id = w, cl_attempt = job_attempt j + 1, cl_started_at = now\<rparr>))
          else (rows, Inl ErrNotClaimable))"
| "sql_call E (CallHeartbeat jid w a now) rows =
     fenced rows jid w a (\<lambda>j. j\<lparr>job_heartbeat_at := Some (micro now)\<rparr>)"
| "sql_call E (CallInsertFindings jid w a fs) rows = fenced rows jid w a id"
| "sql_call E (CallInsertDiagnostics jid w a ds) rows = fenced rows jid w a id"
| "sql_call E (CallComplete jid w a c) rows =
     fenced rows jid w a (completed_row (c\<lparr>cp_finished_at := micro (cp_finished_at c)\<rparr>))"
| "sql_call E (CallFail jid w a msg t) rows = fenced rows jid w a (failed_row msg (micro t))"
| "sql_call E (CallRelease jid w a) rows = fenced rows jid w a released_row"
| "sql_call E (CallReleaseStale now st) rows =
     (\<lambda>k. map_option (sql_release (micro (time_add now (- st)))) (rows k),
      Inr (RCount (card {k. \<exists>j. rows k = Some j \<and> job_status j = JobRunning
                             \<and> sql_stale (micro (time_add now (- st))) j})))"

definition sql_refines ::
  "pg_env \<Rightarrow> store_call \<Rightarrow> job_rows \<Rightarrow> job_rows \<Rightarrow> store_error + call_result \<Rightarrow> bool" where
  "sql_refines E c rows rows' r \<longleftrightarrow>
     (if empty_insert c then rows' = rows
      else (rows', r) = sql_call E c rows
           \<or> (\<exists>msg. r = Inl (ErrStoreFailure msg)) \<and> (rows' = rows \<or> rows' = fst (sql_call E c rows)))"

definition pg_post :: "pg_env \<Rightarrow> store_call \<Rightarrow> pg_db \<Rightarrow> store_error + call_result \<Rightarrow> pg_db \<Rightarrow> bool" where
  "pg_post E c d r db \<longleftrightarrow> wf_db db \<and> sql_refines E c (db_rows d) (db_rows db) r"

text \<open>A failure is always allowed before the call's effect and after it.\<close>

lemma pg_post_fail:
  assumes "wf_db db" "db_rows db = db_rows d \<or> db_rows db = fst (sql_call E c (db_rows d))"
    and "\<not> empty_insert c"
  shows "on_failure (\<lambda>e. pg_post E c d (Inl e)) db"
  using assms by (auto simp: on_failure_def pg_post_def sql_refines_def)

lemma pg_post_exact:
  "wf_db db \<Longrightarrow> (db_rows db, r) = sql_call E c (db_rows d) \<Longrightarrow> \<not> empty_insert c \<Longrightarrow> pg_post E c d r db"
  by (simp add: pg_post_def sql_refines_def)

lemma pg_post_ok_fail:
  assumes "pg_post E c d (Inr v) db" "\<not> empty_insert c"
  shows "on_failure (\<lambda>e. pg_post E c d (Inl e)) db"
proof (rule pg_post_fail)
  have "(db_rows db, Inr v) = sql_call E c (db_rows d)"
    using assms by (auto simp: pg_post_def sql_refines_def)
  then show "db_rows db = db_rows d \<or> db_rows db = fst (sql_call E c (db_rows d))" by (metis fst_conv)
qed (use assms in \<open>auto simp: pg_post_def\<close>)

text \<open>The operation of a call, with its value as the call's result.\<close>

definition implements ::
  "pg_env \<Rightarrow> store_call \<Rightarrow> pg_db \<Rightarrow> (pg_store \<Rightarrow> (pg_store, store_error, 'a) outcome) \<Rightarrow> ('a \<Rightarrow> call_result) \<Rightarrow> bool" where
  "implements E c d m res \<longleftrightarrow>
     triple (\<lambda>db. db = d) m (\<lambda>v. pg_post E c d (Inr (res v))) (\<lambda>e. pg_post E c d (Inl e))"

subsection \<open>Fences\<close>

definition lease_holds :: "pg_db \<Rightarrow> string \<Rightarrow> string \<Rightarrow> int \<Rightarrow> bool" where
  "lease_holds db jid w a \<longleftrightarrow> (\<exists>j. db_rows db jid = Some j \<and> fence_row j w a)"

definition lease_error :: "pg_db \<Rightarrow> string \<Rightarrow> store_error" where
  "lease_error db jid = (if db_rows db jid = None then ErrJobNotFound else ErrClaimLost)"

lemma fenced_not:
  "\<not> lease_holds db jid w a \<Longrightarrow> fenced (db_rows db) jid w a upd = (db_rows db, Inl (lease_error db jid))"
  by (auto simp: lease_holds_def lease_error_def fenced_def split: option.splits)

lemma fenced_yes:
  "lease_holds db jid w a \<Longrightarrow>
   fenced (db_rows db) jid w a upd = ((db_rows db)(jid \<mapsto> upd (the (db_rows db jid))), Inr RUnit)"
  by (auto simp: lease_holds_def fenced_def split: option.splits)

lemma fence_list_ex:
  "wf_db db \<Longrightarrow> list_ex (fence_where jid w a) (db_jobs db) \<longleftrightarrow> lease_holds db jid w a"
  using fence_count [of db jid w a] by (auto simp: lease_holds_def list_ex_iff filter_empty_conv)

lemma fenceFailure_triple:
  assumes "X (lease_error d jid) d'" "on_failure X d'" "db_jobs d' = db_jobs d"
  shows "triple (\<lambda>db. db = d') (fenceFailure E jid) Q X"
proof -
  have rows: "find_job d' jid = None \<longleftrightarrow> db_rows d jid = None"
    using assms(3) by (simp add: db_rows_def find_job_def)
  show ?thesis
    unfolding fenceFailure_def
  proof (rule triple_then [where Q = "\<lambda>b db. db = d' \<and> (b \<longleftrightarrow> db_rows d jid \<noteq> None)"])
    show "triple (\<lambda>db. db = d') (exec_stmt E ''fence check job'' (job_exists E jid))
        (\<lambda>b db. db = d' \<and> (b \<longleftrightarrow> db_rows d jid \<noteq> None)) X"
      by (rule triple_stmt) (use assms(2) rows in \<open>auto simp: job_exists_def with_uuid_def split: if_splits\<close>)
    show "triple (\<lambda>db. db = d' \<and> (b \<longleftrightarrow> db_rows d jid \<noteq> None))
        (\<lambda>s1. if \<not> b then (s1, Inl ErrJobNotFound) else (s1, Inl ErrClaimLost)) Q X" for b
      using assms(1) by (auto simp: triple_def lease_error_def)
  qed
qed

lemma on_job_id: "(\<And>j. job_id (f j) = job_id j) \<Longrightarrow> job_id (pj_job (on_job f r)) = job_id (pj_job r)"
  by (simp add: on_job_def)

text \<open>An UPDATE under a lease: nothing without the lease, the assignments with it.\<close>

lemma leased_update:
  assumes "wf_db d" "with_lease E jid w a (update_jobs (fence_where jid w a) g) d = Inr (db', n)"
    and "\<And>r. job_id (pj_job (g r)) = job_id (pj_job r)"
    and "\<And>r. precise_job (pj_job r) \<Longrightarrow> precise_job (pj_job (g r))"
  shows "if n = 0 then db' = d \<and> \<not> lease_holds d jid w a
    else lease_holds d jid w a \<and> wf_db db'
      \<and> db_rows db' = (db_rows d)(jid \<mapsto> pj_job (g (the (find_job d jid))))"
proof -
  have u: "update_jobs (fence_where jid w a) g d = Inr (db', n)"
    using assms(2) by (auto simp: with_lease_def with_uuid_def split: if_splits)
  note rows = update_rows [OF u assms(3)]
  have n: "n = 0 \<longleftrightarrow> \<not> lease_holds d jid w a"
    using fence_count [OF assms(1), of jid w a] rows(2) by (simp add: lease_holds_def)
  have wf: "wf_db db'"
    by (rule update_wf [OF u assms(1,3)]) (use assms(1,4) in \<open>auto simp: wf_db_def list_all_iff\<close>)
  have same: "db' = d" if "n = 0"
  proof -
    have "map (\<lambda>r. if fence_where jid w a r then g r else r) (db_jobs d) = db_jobs d"
      using that rows(2) by (intro map_idI) (auto simp: filter_empty_conv)
    then show ?thesis using u by (simp add: update_jobs_def)
  qed
  show ?thesis
    using n wf same rows(1) fence_rows [OF assms(1)] by (auto simp: lease_holds_def)
qed

lemma fenced_update_implements:
  assumes "wf_db d" "\<And>rows. sql_call E c rows = fenced rows jid w a f" "\<not> empty_insert c"
    and "\<And>j. job_id (f j) = job_id j" "\<And>j. precise_job j \<Longrightarrow> precise_job (f j)"
  shows "implements E c d (fenced_update E what jid w a f) (\<lambda>_. RUnit)"
  unfolding implements_def fenced_update_def
proof (rule triple_then [where Q = "\<lambda>n db. if n = 0 then db = d \<and> \<not> lease_holds d jid w a else pg_post E c d (Inr RUnit) db"])
  show "triple (\<lambda>db. db = d)
      (exec_stmt E what (with_lease E jid w a (update_jobs (fence_where jid w a) (on_job f))))
      (\<lambda>n db. if n = 0 then db = d \<and> \<not> lease_holds d jid w a else pg_post E c d (Inr RUnit) db)
      (\<lambda>e. pg_post E c d (Inl e))"
  proof (rule triple_stmt)
    fix db db' n
    assume db: "db = d" and st: "with_lease E jid w a (update_jobs (fence_where jid w a) (on_job f)) db = Inr (db', n)"
    have u: "if n = 0 then db' = d \<and> \<not> lease_holds d jid w a
      else lease_holds d jid w a \<and> wf_db db'
        \<and> db_rows db' = (db_rows d)(jid \<mapsto> pj_job (on_job f (the (find_job d jid))))"
      by (rule leased_update [OF assms(1) st [unfolded db]])
        (use assms(4,5) in \<open>simp_all add: on_job_def\<close>)
    show "(if n = 0 then db' = d \<and> \<not> lease_holds d jid w a else pg_post E c d (Inr RUnit) db')
      \<and> on_failure (\<lambda>e. pg_post E c d (Inl e)) db'"
    proof (cases "n = 0")
      case True
      then show ?thesis using u assms(1,3) by (auto intro: pg_post_fail)
    next
      case False
      then have h: "lease_holds d jid w a" "wf_db db'" and r: "db_rows db' = (db_rows d)(jid \<mapsto> pj_job (on_job f (the (find_job d jid))))"
        using u by auto
      have the: "pj_job (on_job f (the (find_job d jid))) = f (the (db_rows d jid))"
        using h(1) by (auto simp: lease_holds_def db_rows_def on_job_def)
      have "(db_rows db', Inr RUnit) = sql_call E c (db_rows d)"
        using h(1) by (simp add: assms(2) fenced_yes r the)
      then show ?thesis
        using False h(2) assms(3) pg_post_exact [of db' "Inr RUnit" E c d] pg_post_fail [of db' d E c]
        by (metis fst_conv)
    qed
  qed (use assms(1,3) in \<open>auto intro: pg_post_fail\<close>)
  show "triple (\<lambda>db. if n = 0 then db = d \<and> \<not> lease_holds d jid w a else pg_post E c d (Inr RUnit) db)
      (\<lambda>s1. if n = 0 then fenceFailure E jid s1 else (s1, Inr ()))
      (\<lambda>v. pg_post E c d (Inr RUnit)) (\<lambda>e. pg_post E c d (Inl e))" for n
  proof (rule triple_if)
    assume n: "n = 0"
    show "triple (\<lambda>db. if n = 0 then db = d \<and> \<not> lease_holds d jid w a else pg_post E c d (Inr RUnit) db)
      (fenceFailure E jid) (\<lambda>v. pg_post E c d (Inr RUnit)) (\<lambda>e. pg_post E c d (Inl e))"
    proof (cases "lease_holds d jid w a")
      case True
      then show ?thesis using n by (simp add: triple_def)
    next
      case False
      have "pg_post E c d (Inl (lease_error d jid)) d"
        by (rule pg_post_exact) (use assms(1,3) False in \<open>simp_all add: assms(2) fenced_not\<close>)
      then show ?thesis
        using n False fenceFailure_triple [of "\<lambda>e. pg_post E c d (Inl e)" d jid d] pg_post_fail [OF assms(1) _ assms(3)]
        by simp
    qed
  next
    assume "n \<noteq> 0"
    then show "triple (\<lambda>db. if n = 0 then db = d \<and> \<not> lease_holds d jid w a else pg_post E c d (Inr RUnit) db)
      (\<lambda>s. (s, Inr ())) (\<lambda>v. pg_post E c d (Inr RUnit)) (\<lambda>e. pg_post E c d (Inl e))"
      by (simp add: triple_def)
  qed
qed

lemma heartbeat_implements:
  "wf_db d \<Longrightarrow> implements E (CallHeartbeat jid w a now) d (\<lambda>s. pg_Heartbeat E s jid w a now) (\<lambda>_. RUnit)"
  unfolding pg_Heartbeat_def
  by (rule fenced_update_implements) (simp_all add: precise_job_def)

lemma released_row_eta: "(\<lambda>j. j\<lparr>job_status := JobQueued, job_claimed_by := None, job_heartbeat_at := None\<rparr>) = released_row"
  by (rule ext) (simp add: released_row_def)

lemma release_implements:
  "wf_db d \<Longrightarrow> implements E (CallRelease jid w a) d (\<lambda>s. pg_ReleaseClaim E s jid w a) (\<lambda>_. RUnit)"
  unfolding pg_ReleaseClaim_def released_row_eta
  by (rule fenced_update_implements) (simp_all add: precise_job_def released_row_def)

lemma failed_row_eta:
  "(\<lambda>j. j\<lparr>job_status := JobFailed, job_error := Some msg, job_finished_at := Some t\<rparr>) = failed_row msg t"
  by (rule ext) (simp add: failed_row_def)

lemma rejected_implements:
  assumes "wf_db d" "\<not> empty_insert c" "\<And>db db' v. f db \<noteq> Inr (db', v)"
  shows "implements E c d (exec_stmt E what f) res"
  unfolding implements_def
  by (rule triple_stmt) (use assms in \<open>auto intro: pg_post_fail\<close>)

lemma fail_implements:
  assumes "wf_db d"
  shows "implements E (CallFail jid w a msg t) d (\<lambda>s. pg_FailJob E s jid w a msg t) (\<lambda>_. RUnit)"
proof (cases "pe_text E msg")
  case True
  then show ?thesis
    using assms unfolding pg_FailJob_def failed_row_eta
    by (simp, intro fenced_update_implements) (simp_all add: precise_job_def failed_row_def)
next
  case False
  have "implements E (CallFail jid w a msg t) d (exec_stmt E ''fail job'' (\<lambda>db. Inl ''invalid value'')) (\<lambda>_. RUnit)"
    by (rule rejected_implements) (use assms in simp_all)
  then show ?thesis using False by (simp add: pg_FailJob_def)
qed

subsection \<open>Creation and release of stale claims\<close>

lemma create_implements:
  assumes "wf_db d"
  shows "implements E (CallCreate j) d (\<lambda>s. pg_CreateJob E s j) (\<lambda>_. RUnit)"
  unfolding implements_def pg_CreateJob_def
proof (rule triple_stmt)
  fix db db' v assume db: "db = d" and ins: "insert_job E j db = Inr (db', v)"
  have none: "find_job d (job_id j) = None"
    and jobs: "db_jobs db' = db_jobs d @ [\<lparr>pj_job = stored_job E j, pj_commit_sha = None, pj_versions = None, pj_generated_at = None\<rparr>]"
    using ins db by (auto simp: insert_job_def with_uuid_def stored_job_def split: if_splits option.splits)
  have rows: "db_rows db' = (db_rows d)(job_id j \<mapsto> stored_job E j)"
  proof
    fix k
    have split: "find P (xs @ [x]) = (case find P xs of Some y \<Rightarrow> Some y | None \<Rightarrow> if P x then Some x else None)"
      for P :: "pg_job \<Rightarrow> bool" and xs x by (induction xs) auto
    show "db_rows db' k = ((db_rows d)(job_id j \<mapsto> stored_job E j)) k"
      using none by (auto simp: db_rows_def find_job_def jobs split stored_job_def split: option.splits)
  qed
  have "job_id j \<notin> set (map (job_id \<circ> pj_job) (db_jobs d))"
    using none by (auto simp: find_job_def find_None_iff)
  then have wf: "wf_db db'"
    using assms by (auto simp: wf_db_def jobs stored_job_def precise_job_def option.map_comp comp_def)
  have "db_rows d (job_id j) = None" using none by (simp add: db_rows_def)
  then have call: "sql_call E (CallCreate j) (db_rows d) = (db_rows db', Inr RUnit)" by (simp add: rows)
  show "pg_post E (CallCreate j) d (Inr RUnit) db' \<and> on_failure (\<lambda>e. pg_post E (CallCreate j) d (Inl e)) db'"
    using pg_post_exact [OF wf call [symmetric]] pg_post_fail [OF wf, of d E "CallCreate j"] call by simp
qed (use assms in \<open>auto intro: pg_post_fail\<close>)

lemma card_filter_jobs:
  assumes "wf_db d"
  shows "card {k. \<exists>j. db_rows d k = Some j \<and> P j} = length (filter (\<lambda>r. P (pj_job r)) (db_jobs d))"
proof -
  have "{k. \<exists>j. db_rows d k = Some j \<and> P j} = (job_id \<circ> pj_job) ` set (filter (\<lambda>r. P (pj_job r)) (db_jobs d))"
    using find_job_iff [OF assms] by (auto simp: db_rows_def)
  moreover have "distinct (map (job_id \<circ> pj_job) (filter (\<lambda>r. P (pj_job r)) (db_jobs d)))"
    using assms by (simp add: wf_db_def distinct_map_filter)
  ultimately show ?thesis by (metis distinct_card length_map set_map)
qed

lemma release_stale_implements:
  assumes "wf_db d"
  shows "implements E (CallReleaseStale now st) d (\<lambda>s. pg_ReleaseStaleRunning E s now st) RCount"
  unfolding implements_def pg_ReleaseStaleRunning_def released_row_eta
proof (rule triple_stmt)
  let ?t = "micro (time_add now (- st))"
  let ?P = "\<lambda>r. job_status (pj_job r) = JobRunning
    \<and> (case job_heartbeat_at (pj_job r) of None \<Rightarrow> True | Some hb \<Rightarrow> hb \<le> ?t)"
  have P: "?P r \<longleftrightarrow> job_status (pj_job r) = JobRunning \<and> sql_stale ?t (pj_job r)" for r
    by (simp add: sql_stale_def)
  fix db db' n assume db: "db = d" and u: "update_jobs ?P (on_job released_row) db = Inr (db', n)"
  note u = u [unfolded db]
  have keep: "job_id (pj_job (on_job released_row r)) = job_id (pj_job r)" for r
    by (simp add: on_job_def released_row_def)
  have wf: "wf_db db'"
    by (rule update_wf [OF u assms keep])
      (use assms in \<open>auto simp: wf_db_def list_all_iff on_job_def released_row_def precise_job_def\<close>)
  have rows: "db_rows db' = (\<lambda>k. map_option (sql_release ?t) (db_rows d k))"
    unfolding update_rows(1) [OF u keep]
    by (rule ext) (simp add: db_rows_def P sql_release_def on_job_def option.map_comp comp_def if_distrib [of pj_job] cong: if_cong)
  have n: "n = card {k. \<exists>j. db_rows d k = Some j \<and> job_status j = JobRunning \<and> sql_stale ?t j}"
    unfolding update_rows(2) [OF u keep] card_filter_jobs [OF assms, of "\<lambda>j. job_status j = JobRunning \<and> sql_stale ?t j"]
    by (simp add: P)
  have call: "sql_call E (CallReleaseStale now st) (db_rows d) = (db_rows db', Inr (RCount n))"
    by (simp add: rows n)
  show "pg_post E (CallReleaseStale now st) d (Inr (RCount n)) db'
      \<and> on_failure (\<lambda>e. pg_post E (CallReleaseStale now st) d (Inl e)) db'"
    using pg_post_exact [OF wf call [symmetric]] pg_post_fail [OF wf, of d E "CallReleaseStale now st"] call by simp
qed (use assms in \<open>auto intro: pg_post_fail\<close>)

subsection \<open>Claims\<close>

lemma claim_where_iff:
  "claim_where jid t r \<longleftrightarrow> job_id (pj_job r) = jid \<and> sql_claimable t (pj_job r)"
  by (auto simp: claim_where_def sql_claimable_def sql_stale_def)

lemma claim_set_job: "pj_job (claim_set w t r) = claimed_row (pj_job r) w t"
  by (simp add: claim_set_def claimed_row_def)

lemma find_claim:
  assumes "wf_db d"
  shows "find (claim_where jid t) (db_jobs d) =
    (case find_job d jid of None \<Rightarrow> None | Some r \<Rightarrow> if sql_claimable t (pj_job r) then Some r else None)"
proof -
  have "find (\<lambda>r. job_id (pj_job r) = jid \<and> P r) rs =
      (case find (\<lambda>r. job_id (pj_job r) = jid) rs of None \<Rightarrow> None | Some r \<Rightarrow> if P r then Some r else None)"
    if "distinct (map (job_id \<circ> pj_job) rs)" for rs and P :: "pg_job \<Rightarrow> bool"
    using that
  proof (induction rs)
    case Nil
    then show ?case by simp
  next
    case (Cons r rs)
    have "find (\<lambda>x. job_id (pj_job x) = jid) rs = None" if "job_id (pj_job r) = jid"
      using Cons.prems that by (auto simp: find_None_iff image_iff)
    then show ?case using Cons by auto
  qed
  then show ?thesis
    using assms by (simp add: find_job_def wf_db_def claim_where_iff [abs_def])
qed

lemma claim_rows:
  assumes "wf_db d" "find_job d jid = Some r" "sql_claimable t (pj_job r)"
    and "update_jobs (claim_where jid t) (claim_set w n) d = Inr (db', k)"
  shows "wf_db db' \<and> db_rows db' = (db_rows d)(jid \<mapsto> claimed_row (pj_job r) w n) \<or> \<not> micro n = n"
proof -
  have keep: "job_id (pj_job (claim_set w n r)) = job_id (pj_job r)" for r
    by (simp add: claim_set_job claimed_row_def)
  have "wf_db db'" if "micro n = n"
    by (rule update_wf [OF assms(4,1) keep])
      (use assms(1) that in \<open>auto simp: wf_db_def list_all_iff claim_set_job claimed_row_def precise_job_def\<close>)
  moreover have "db_rows db' = (db_rows d)(jid \<mapsto> claimed_row (pj_job r) w n)"
  proof
    fix x
    show "db_rows db' x = ((db_rows d)(jid \<mapsto> claimed_row (pj_job r) w n)) x"
    proof (cases "find_job d x")
      case None
      then show ?thesis using assms(2) unfolding update_rows(1) [OF assms(4) keep] by (auto simp: db_rows_def)
    next
      case (Some y)
      have "job_id (pj_job y) = x" using Some find_job_iff [OF assms(1)] by simp
      then show ?thesis
        using Some assms(2,3) unfolding update_rows(1) [OF assms(4) keep]
        by (auto simp: db_rows_def claim_where_iff claim_set_job)
    qed
  qed
  ultimately show ?thesis by blast
qed

text \<open>The tables after the claiming UPDATE hit the row, and after it hit one row or none.\<close>

definition claimed_post :: "pg_env \<Rightarrow> pg_db \<Rightarrow> string \<Rightarrow> string \<Rightarrow> time \<Rightarrow> duration \<Rightarrow> int \<Rightarrow> pg_db \<Rightarrow> bool" where
  "claimed_post E d jid w now st attempt db \<longleftrightarrow> wf_db db \<and>
     sql_call E (CallClaim jid w now st) (db_rows d) =
       (db_rows db, Inr (RLease \<lparr>cl_job_id = jid, cl_worker_id = w, cl_attempt = attempt, cl_started_at = now\<rparr>))"

definition claim_hit :: "pg_env \<Rightarrow> pg_db \<Rightarrow> string \<Rightarrow> string \<Rightarrow> time \<Rightarrow> duration \<Rightarrow> int option \<Rightarrow> pg_db \<Rightarrow> bool" where
  "claim_hit E d jid w now st hit db \<longleftrightarrow>
     (case hit of
        None \<Rightarrow> db = d \<and> (case find_job d jid of None \<Rightarrow> True
                          | Some r \<Rightarrow> \<not> sql_claimable (micro (time_add now (- st))) (pj_job r))
      | Some attempt \<Rightarrow> claimed_post E d jid w now st attempt db)"

lemma claim_implements:
  assumes "wf_db d"
  shows "implements E (CallClaim jid w now st) d (\<lambda>s. pg_ClaimJob E s jid w now st) RLease"
proof -
  let ?c = "CallClaim jid w now st"
  let ?t = "micro (time_add now (- st))"
  let ?X = "\<lambda>e. pg_post E ?c d (Inl e)"
  let ?claimed = "claimed_post E d jid w now st"
  let ?after = "claim_hit E d jid w now st"
  have fail_d: "on_failure ?X d" by (rule pg_post_fail) (use assms in simp_all)
  have fail: "on_failure ?X db" if "?claimed attempt db" for attempt db
    using that by (intro pg_post_fail) (auto simp: claimed_post_def)
  have finish: "pg_post E ?c d (Inr (RLease \<lparr>cl_job_id = jid, cl_worker_id = w, cl_attempt = attempt, cl_started_at = now\<rparr>)) db"
    if "?claimed attempt db" for attempt db
    using that by (intro pg_post_exact) (auto simp: claimed_post_def)
  have first: "triple (\<lambda>db. db = d) (exec_stmt E what (update_claim E jid w now (time_add now (- st)))) ?after
      (\<lambda>e db. ?X e d)" for what
  proof (rule triple_stmt)
    fix db db' hit
    assume db: "db = d" and u: "update_claim E jid w now (time_add now (- st)) db = Inr (db', hit)"
    note u = u [unfolded db update_claim_def with_uuid_def find_claim [OF assms]]
    show "?after hit db' \<and> on_failure (\<lambda>e db. ?X e d) db'"
    proof (cases "find_job d jid")
      case None
      then show ?thesis using u fail_d by (auto simp: claim_hit_def on_failure_def split: if_splits)
    next
      case (Some r)
      show ?thesis
      proof (cases "sql_claimable ?t (pj_job r)")
        case False
        then show ?thesis using u Some fail_d by (auto simp: claim_hit_def on_failure_def split: if_splits)
      next
        case True
        obtain k where k: "update_jobs (claim_where jid ?t) (claim_set w (micro now)) d = Inr (db', k)"
          and hit: "hit = Some (job_attempt (pj_job r) + 1)"
          using u Some True by (auto split: if_splits sum.splits)
        have "?claimed (job_attempt (pj_job r) + 1) db'"
          using claim_rows [OF assms Some True k] Some True by (simp add: claimed_post_def db_rows_def)
        then show ?thesis using hit fail_d by (simp add: claim_hit_def on_failure_def)
      qed
    qed
  qed (use fail_d in \<open>simp add: on_failure_def\<close>)
  have keeps: "triple (?claimed attempt) (exec_stmt E what f) (\<lambda>_. ?claimed attempt) (\<lambda>e db. ?X e d)"
    if "\<And>db db' v. f db = Inr (db', v) \<Longrightarrow> db_jobs db' = db_jobs db" for attempt what and f :: "unit statement"
  proof (rule triple_stmt)
    fix db db' v assume "?claimed attempt db" "f db = Inr (db', v)"
    then show "?claimed attempt db' \<and> on_failure (\<lambda>e db. ?X e d) db'"
      using that [of db db' v] fail_d by (auto simp: claimed_post_def wf_db_def db_rows_def find_job_def on_failure_def)
  qed (use fail_d in \<open>simp add: on_failure_def\<close>)
  show ?thesis
    unfolding implements_def pg_ClaimJob_def Let_def
  proof (rule triple_transaction)
    show "triple (\<lambda>db. db = d)
      (\<lambda>s1. and_then (exec_stmt E ''claim job'' (update_claim E jid w now (time_add now (- st))) s1)
          (\<lambda>hit s2. case hit of
             None \<Rightarrow>
               and_then (exec_stmt E ''claim job'' (job_exists E jid) s2)
                 (\<lambda>exists s3. if \<not> exists then (s3, Inl ErrJobNotFound) else (s3, Inl ErrNotClaimable))
           | Some attempt \<Rightarrow>
               and_then (exec_stmt E ''claim job: delete findings'' (delete_findings jid) s2)
                 (\<lambda>_ s3. and_then (exec_stmt E ''claim job: delete diagnostics'' (delete_diagnostics jid) s3)
                   (\<lambda>_ s4. (s4, Inr \<lparr>cl_job_id = jid, cl_worker_id = w, cl_attempt = attempt,
                                     cl_started_at = now\<rparr>)))))
      (\<lambda>v. pg_post E ?c d (Inr (RLease v))) (\<lambda>e db. ?X e d)"
    proof (rule triple_then [OF first])
      fix hit
      show "triple (?after hit)
        (\<lambda>s2. case hit of
             None \<Rightarrow>
               and_then (exec_stmt E ''claim job'' (job_exists E jid) s2)
                 (\<lambda>exists s3. if \<not> exists then (s3, Inl ErrJobNotFound) else (s3, Inl ErrNotClaimable))
           | Some attempt \<Rightarrow>
               and_then (exec_stmt E ''claim job: delete findings'' (delete_findings jid) s2)
                 (\<lambda>_ s3. and_then (exec_stmt E ''claim job: delete diagnostics'' (delete_diagnostics jid) s3)
                   (\<lambda>_ s4. (s4, Inr \<lparr>cl_job_id = jid, cl_worker_id = w, cl_attempt = attempt,
                                     cl_started_at = now\<rparr>))))
        (\<lambda>v. pg_post E ?c d (Inr (RLease v))) (\<lambda>e db. ?X e d)"
      proof (cases hit)
        case (Some attempt)
        have pre: "?after hit = ?claimed attempt" by (rule ext) (simp add: claim_hit_def Some)
        show ?thesis
          unfolding pre unfolding Some option.case
          by (rule triple_then [OF keeps] triple_return finish | simp add: delete_findings_def delete_diagnostics_def | assumption)+
      next
        case None
        let ?m = "find_job d jid"
        have miss: "(b \<longleftrightarrow> ?m \<noteq> None) \<Longrightarrow> ?after None db \<Longrightarrow>
            pg_post E ?c d (Inl (if \<not> b then ErrJobNotFound else ErrNotClaimable)) d" for b db
          by (rule pg_post_exact) (use assms in \<open>auto simp: claim_hit_def db_rows_def split: option.splits\<close>)
        show ?thesis
          unfolding None option.case
        proof (rule triple_then [where Q = "\<lambda>b db. ?after None db \<and> (b \<longleftrightarrow> ?m \<noteq> None)"])
          show "triple (?after None) (exec_stmt E ''claim job'' (job_exists E jid))
              (\<lambda>b db. ?after None db \<and> (b \<longleftrightarrow> ?m \<noteq> None)) (\<lambda>e db. ?X e d)"
            by (rule triple_stmt)
              (use fail_d in \<open>auto simp: job_exists_def with_uuid_def claim_hit_def on_failure_def split: if_splits\<close>)
          show "triple (\<lambda>db. ?after None db \<and> (b \<longleftrightarrow> ?m \<noteq> None))
              (\<lambda>s3. if \<not> b then (s3, Inl ErrJobNotFound) else (s3, Inl ErrNotClaimable))
              (\<lambda>v. pg_post E ?c d (Inr (RLease v))) (\<lambda>e db. ?X e d)" for b
            using miss [of b] by (auto simp: triple_def)
        qed
      qed
    qed
    show "on_failure ?X d" by (rule fail_d)
    show "on_failure ?X db" if "pg_post E ?c d (Inr (RLease v)) db" for v db
      using that by (rule pg_post_ok_fail) simp
  qed
qed

subsection \<open>Inserts\<close>

lemma insert_finding_jobs: "insert_finding E f db = Inr (db', u) \<Longrightarrow> db_jobs db' = db_jobs db"
  by (auto simp: insert_finding_def with_uuid_def split: if_splits option.splits)

lemma insert_diagnostic_jobs: "insert_diagnostic E f db = Inr (db', u) \<Longrightarrow> db_jobs db' = db_jobs db"
  by (auto simp: insert_diagnostic_def with_uuid_def split: if_splits)

lemma same_jobs: "db_jobs db = db_jobs d \<Longrightarrow> db_rows db = db_rows d \<and> (wf_db db \<longleftrightarrow> wf_db d)"
  by (simp add: db_rows_def find_job_def wf_db_def)

text \<open>One fenced INSERT: rejected, or a row if and only if the lease holds.\<close>

lemma fenced_insert_triple:
  assumes "wf_db d" "on_failure X d" "\<And>db db' u. ins db = Inr (db', u) \<Longrightarrow> db_jobs db' = db_jobs db"
    and "\<And>e db. X e db = X e d"
  shows "triple (\<lambda>db. db_jobs db = db_jobs d)
      (exec_stmt E what (with_lease E jid w a (fenced_insert jid w a ins)))
      (\<lambda>n db. db_jobs db = db_jobs d \<and> (n = 0 \<longleftrightarrow> \<not> lease_holds d jid w a)) X"
proof (rule triple_stmt)
  fix db db' n
  assume db: "db_jobs db = db_jobs d" and st: "with_lease E jid w a (fenced_insert jid w a ins) db = Inr (db', n)"
  have fence: "list_ex (fence_where jid w a) (db_jobs db) \<longleftrightarrow> lease_holds d jid w a"
    unfolding db by (rule fence_list_ex [OF assms(1)])
  have "db_jobs db' = db_jobs d \<and> (n = 0 \<longleftrightarrow> \<not> lease_holds d jid w a)"
  proof (cases "lease_holds d jid w a")
    case True
    then obtain u where "ins db = Inr (db', u)" "n = 1"
      using st fence by (auto simp: with_lease_def with_uuid_def fenced_insert_def split: if_splits sum.splits)
    then show ?thesis using True db assms(3) [of db db' u] by simp
  next
    case False
    then show ?thesis
      using st fence db by (auto simp: with_lease_def with_uuid_def fenced_insert_def split: if_splits)
  qed
  then show "(db_jobs db' = db_jobs d \<and> (n = 0 \<longleftrightarrow> \<not> lease_holds d jid w a)) \<and> on_failure X db'"
    using assms(2,4) by (auto simp: on_failure_def)
qed (use assms(2,4) in \<open>auto simp: on_failure_def\<close>)

text \<open>
  The loops: an error of a lost lease is the right one, and a run over at least one row
  ends without error only under the lease.
\<close>

definition insert_post :: "pg_db \<Rightarrow> string \<Rightarrow> string \<Rightarrow> int \<Rightarrow> bool \<Rightarrow> unit \<Rightarrow> pg_db \<Rightarrow> bool" where
  "insert_post d jid w a some u db \<longleftrightarrow> db_jobs db = db_jobs d \<and> (some \<longrightarrow> lease_holds d jid w a)"

lemma insert_step:
  assumes "wf_db d" "on_failure X d" "\<And>e db. X e db = X e d"
    and "\<not> lease_holds d jid w a \<Longrightarrow> X (lease_error d jid) d"
    and "\<And>db db' u. ins db = Inr (db', u) \<Longrightarrow> db_jobs db' = db_jobs db"
    and rest: "triple (\<lambda>db. db_jobs db = db_jobs d) m (insert_post d jid w a False) X"
  shows "triple (\<lambda>db. db_jobs db = db_jobs d)
      (\<lambda>s. and_then (exec_stmt E what (with_lease E jid w a (fenced_insert jid w a ins)) s)
         (\<lambda>n s1. if n = 0 then fenceFailure E jid s1 else m s1))
      (insert_post d jid w a True) X"
proof (rule triple_then [OF fenced_insert_triple [OF assms(1,2) assms(5) assms(3)]])
  show "triple (\<lambda>db. db_jobs db = db_jobs d \<and> (n = 0 \<longleftrightarrow> \<not> lease_holds d jid w a))
      (\<lambda>s1. if n = 0 then fenceFailure E jid s1 else m s1) (insert_post d jid w a True) X" for n
  proof (rule triple_if)
    assume n: "n = 0"
    show "triple (\<lambda>db. db_jobs db = db_jobs d \<and> (n = 0 \<longleftrightarrow> \<not> lease_holds d jid w a))
        (fenceFailure E jid) (insert_post d jid w a True) X"
    proof (rule triple_each)
      fix d' :: pg_db assume d': "db_jobs d' = db_jobs d \<and> (n = 0 \<longleftrightarrow> \<not> lease_holds d jid w a)"
      show "triple (\<lambda>db. db = d') (fenceFailure E jid) (insert_post d jid w a True) X"
      proof (rule fenceFailure_triple)
        show "X (lease_error d jid) d'" using assms(3) [of _ d'] assms(4) d' n by simp
        show "on_failure X d'" using assms(2) assms(3) [of _ d'] by (simp add: on_failure_def)
      qed (use d' in simp)
    qed
  next
    assume "n \<noteq> 0"
    then show "triple (\<lambda>db. db_jobs db = db_jobs d \<and> (n = 0 \<longleftrightarrow> \<not> lease_holds d jid w a)) m
        (insert_post d jid w a True) X"
      using rest by (fastforce simp: triple_def insert_post_def split: sum.splits)
  qed
qed

lemma insert_findings_triple:
  assumes "wf_db d" "on_failure X d" "\<And>e db. X e db = X e d"
    and "\<not> lease_holds d jid w a \<Longrightarrow> X (lease_error d jid) d"
  shows "triple (\<lambda>db. db_jobs db = db_jobs d) (insert_findings_loop E jid w a fs) (insert_post d jid w a (fs \<noteq> [])) X"
proof (induction fs)
  case Nil
  then show ?case by (simp add: triple_def insert_post_def)
next
  case (Cons f fs)
  have rest: "triple (\<lambda>db. db_jobs db = db_jobs d) (insert_findings_loop E jid w a fs) (insert_post d jid w a False) X"
    using Cons by (fastforce simp: triple_def insert_post_def split: sum.splits)
  have "triple (\<lambda>db. db_jobs db = db_jobs d)
      (\<lambda>s. and_then (exec_stmt E ''insert findings: inserting''
          (with_lease E jid w a (fenced_insert jid w a (insert_finding E
            (f\<lparr>jf_job_id := jid, jf_attempt := a, jf_created_at := stamped_at E k (jf_created_at f)\<rparr>)))) s)
         (\<lambda>n s1. if n = 0 then fenceFailure E jid s1 else insert_findings_loop E jid w a fs s1))
      (insert_post d jid w a True) X" for k
    by (rule insert_step [OF assms]) (use insert_finding_jobs rest in auto)
  then show ?case by (simp add: triple_def)
qed

lemma insert_diagnostics_triple:
  assumes "wf_db d" "on_failure X d" "\<And>e db. X e db = X e d"
    and "\<not> lease_holds d jid w a \<Longrightarrow> X (lease_error d jid) d"
  shows "triple (\<lambda>db. db_jobs db = db_jobs d) (insert_diagnostics_loop E jid w a ds) (insert_post d jid w a (ds \<noteq> [])) X"
proof (induction ds)
  case Nil
  then show ?case by (simp add: triple_def insert_post_def)
next
  case (Cons x ds)
  have rest: "triple (\<lambda>db. db_jobs db = db_jobs d) (insert_diagnostics_loop E jid w a ds) (insert_post d jid w a False) X"
    using Cons by (fastforce simp: triple_def insert_post_def split: sum.splits)
  have "triple (\<lambda>db. db_jobs db = db_jobs d)
      (\<lambda>s. and_then (exec_stmt E ''insert diagnostics: inserting''
          (with_lease E jid w a (fenced_insert jid w a (insert_diagnostic E
            (x\<lparr>jd_job_id := jid, jd_attempt := a, jd_created_at := stamped_at E k (jd_created_at x)\<rparr>)))) s)
         (\<lambda>n s1. if n = 0 then fenceFailure E jid s1 else insert_diagnostics_loop E jid w a ds s1))
      (insert_post d jid w a True) X" for k
    by (rule insert_step [OF assms]) (use insert_diagnostic_jobs rest in auto)
  then show ?case by (simp add: triple_def)
qed

text \<open>A transaction that leaves the job rows alone and ends well only under the lease.\<close>

lemma insert_transaction:
  assumes "wf_db d" "\<And>rows. sql_call E c rows = fenced rows jid w a id" "\<not> empty_insert c"
    and body: "\<And>X. on_failure X d \<Longrightarrow> (\<And>e db. X e db = X e d) \<Longrightarrow>
      (\<not> lease_holds d jid w a \<Longrightarrow> X (lease_error d jid) d) \<Longrightarrow>
      triple (\<lambda>db. db_jobs db = db_jobs d) m (insert_post d jid w a True) X"
  shows "implements E c d (transaction E what m) (\<lambda>_. RUnit)"
  unfolding implements_def
proof (rule triple_transaction)
  let ?X = "\<lambda>e (db :: pg_db). pg_post E c d (Inl e) d"
  have fail: "on_failure (\<lambda>e. pg_post E c d (Inl e)) d"
    by (rule pg_post_fail) (use assms(1,3) in simp_all)
  show "on_failure (\<lambda>e. pg_post E c d (Inl e)) d" by (rule fail)
  have lost: "pg_post E c d (Inl (lease_error d jid)) d" if "\<not> lease_holds d jid w a"
    by (rule pg_post_exact) (use assms(1,3) that in \<open>simp_all add: assms(2) fenced_not\<close>)
  have "triple (\<lambda>db. db_jobs db = db_jobs d) m (insert_post d jid w a True) ?X"
    by (rule body) (use fail lost in \<open>auto simp: on_failure_def\<close>)
  moreover have "pg_post E c d (Inr RUnit) db" if "insert_post d jid w a True u db" for u db
    using that assms(1,3) same_jobs [of db d]
    by (intro pg_post_exact) (auto simp: insert_post_def assms(2) fenced_yes lease_holds_def)
  ultimately show "triple (\<lambda>db. db = d) m (\<lambda>v. pg_post E c d (Inr RUnit)) (\<lambda>e db. pg_post E c d (Inl e) d)"
    by (fastforce simp: triple_def split: sum.splits)
  show "on_failure (\<lambda>e. pg_post E c d (Inl e)) db" if "pg_post E c d (Inr RUnit) db" for v :: unit and db
    by (rule pg_post_ok_fail [OF that assms(3)])
qed

lemma insert_findings_implements:
  assumes "wf_db d"
  shows "implements E (CallInsertFindings jid w a fs) d (\<lambda>s. pg_InsertFindings E s jid w a fs) (\<lambda>_. RUnit)"
proof (cases "fs = []")
  case True
  then show ?thesis
    using assms by (auto simp: implements_def triple_def pg_InsertFindings_def pg_post_def sql_refines_def)
next
  case False
  then show ?thesis
    using insert_findings_triple [OF assms, of _ jid w a E fs]
      insert_transaction [OF assms, of E "CallInsertFindings jid w a fs" jid w a "insert_findings_loop E jid w a fs"]
    by (simp add: pg_InsertFindings_def)
qed

lemma insert_diagnostics_implements:
  assumes "wf_db d"
  shows "implements E (CallInsertDiagnostics jid w a ds) d (\<lambda>s. pg_InsertDiagnostics E s jid w a ds) (\<lambda>_. RUnit)"
proof (cases "ds = []")
  case True
  then show ?thesis
    using assms by (auto simp: implements_def triple_def pg_InsertDiagnostics_def pg_post_def sql_refines_def)
next
  case False
  then show ?thesis
    using insert_diagnostics_triple [OF assms, of _ jid w a E ds]
      insert_transaction [OF assms, of E "CallInsertDiagnostics jid w a ds" jid w a "insert_diagnostics_loop E jid w a ds"]
    by (simp add: pg_InsertDiagnostics_def)
qed

subsection \<open>Completion\<close>

text \<open>The tables once the row is completed; the inserts that follow keep that.\<close>

definition completed_post :: "pg_env \<Rightarrow> store_call \<Rightarrow> pg_db \<Rightarrow> pg_db \<Rightarrow> bool" where
  "completed_post E c d db \<longleftrightarrow> wf_db db \<and> sql_call E c (db_rows d) = (db_rows db, Inr RUnit)"

lemma completed_post_jobs: "completed_post E c d db \<Longrightarrow> db_jobs db' = db_jobs db \<Longrightarrow> completed_post E c d db'"
  using same_jobs [of db' db] by (simp add: completed_post_def)

lemma completion_findings_triple:
  assumes "\<And>db. completed_post E c d db \<Longrightarrow> on_failure X db"
  shows "triple (completed_post E c d) (completion_findings E what g st k fs) (\<lambda>_. completed_post E c d) X"
proof (induction fs arbitrary: k)
  case Nil
  show ?case by (simp add: triple_return)
next
  case (Cons f fs)
  have "triple (completed_post E c d)
      (exec_stmt E w (insert_finding E (f\<lparr>jf_created_at := t\<rparr>))) (\<lambda>_. completed_post E c d) X" for w t
    by (rule triple_stmt) (use assms insert_finding_jobs completed_post_jobs in \<open>blast+\<close>)
  from triple_then [OF this Cons.IH] show ?case by simp
qed

lemma completion_diagnostics_triple:
  assumes "\<And>db. completed_post E c d db \<Longrightarrow> on_failure X db"
  shows "triple (completed_post E c d) (completion_diagnostics E what g st k ds) (\<lambda>_. completed_post E c d) X"
proof (induction ds arbitrary: k)
  case Nil
  show ?case by (simp add: triple_return)
next
  case (Cons x ds)
  have "triple (completed_post E c d)
      (exec_stmt E w (insert_diagnostic E (x\<lparr>jd_created_at := t\<rparr>))) (\<lambda>_. completed_post E c d) X" for w t
    by (rule triple_stmt) (use assms insert_diagnostic_jobs completed_post_jobs in \<open>blast+\<close>)
  from triple_then [OF this Cons.IH] show ?case by simp
qed

lemma leased_completion:
  assumes "wf_db d"
    and "with_lease E jid w a (update_completion E jid (fence_where jid w a) a c) d = Inr (db', n)"
  shows "if n = 0 then db' = d \<and> \<not> lease_holds d jid w a else completed_post E (CallComplete jid w a c) d db'"
proof -
  have u: "with_lease E jid w a (update_jobs (fence_where jid w a) (completion_set a c)) d = Inr (db', n)"
    using assms(2) by (auto simp: with_lease_def with_uuid_def update_completion_def split: if_splits)
  have "if n = 0 then db' = d \<and> \<not> lease_holds d jid w a
    else lease_holds d jid w a \<and> wf_db db'
      \<and> db_rows db' = (db_rows d)(jid \<mapsto> pj_job (completion_set a c (the (find_job d jid))))"
    by (rule leased_update [OF assms(1) u]) (simp_all add: completion_set_def precise_job_def)
  moreover have "pj_job (completion_set a c (the (find_job d jid))) =
      completed_row (c\<lparr>cp_finished_at := micro (cp_finished_at c)\<rparr>) (the (db_rows d jid))"
    if "lease_holds d jid w a"
    using that by (auto simp: lease_holds_def db_rows_def completion_set_def completed_row_def fence_row_def)
  ultimately show ?thesis
    by (auto simp: completed_post_def fenced_yes)
qed

lemma complete_implements:
  assumes "wf_db d"
  shows "implements E (CallComplete jid w a c) d (\<lambda>s. pg_CompleteJob E s jid w a c) (\<lambda>_. RUnit)"
proof -
  let ?c = "CallComplete jid w a c"
  let ?X = "\<lambda>e. pg_post E ?c d (Inl e)"
  let ?upd = "\<lambda>n db. if n = (0 :: nat) then db = d \<and> \<not> lease_holds d jid w a else completed_post E ?c d db"
  have fail_d: "on_failure ?X d" by (rule pg_post_fail) (use assms in simp_all)
  have fail: "on_failure ?X db" if "completed_post E ?c d db" for db
    using that by (intro pg_post_fail) (auto simp: completed_post_def)
  have lost: "pg_post E ?c d (Inl (lease_error d jid)) d" if "\<not> lease_holds d jid w a"
    by (rule pg_post_exact) (use assms that in \<open>simp_all add: fenced_not\<close>)
  have first: "triple (\<lambda>db. db = d) (exec_stmt E what
      (with_lease E jid w a (update_completion E jid (fence_where jid w a) a c))) ?upd (\<lambda>e db. ?X e d)" for what
  proof (rule triple_stmt)
    fix db db' n
    assume "db = d" "with_lease E jid w a (update_completion E jid (fence_where jid w a) a c) db = Inr (db', n)"
    then show "?upd n db' \<and> on_failure (\<lambda>e db. ?X e d) db'"
      using leased_completion [OF assms, of E jid w a c db' n] fail_d by (simp add: on_failure_def)
  qed (use fail_d in \<open>simp add: on_failure_def\<close>)
  have fail': "on_failure (\<lambda>e db. ?X e d) db" for db using fail_d by (simp add: on_failure_def)
  have ok: "triple (?upd n)
      (\<lambda>s2. and_then (completion_findings E what g st k fs s2)
         (\<lambda>k s3. completion_diagnostics E what g st k ds s3))
      (\<lambda>v. pg_post E ?c d (Inr RUnit)) (\<lambda>e db. ?X e d)" if "n \<noteq> 0" for n what g st k fs ds
  proof -
    have "triple (completed_post E ?c d)
        (\<lambda>s2. and_then (completion_findings E what g st k fs s2)
           (\<lambda>k s3. completion_diagnostics E what g st k ds s3))
        (\<lambda>_. completed_post E ?c d) (\<lambda>e db. ?X e d)"
      by (rule triple_then [OF completion_findings_triple completion_diagnostics_triple]) (rule fail')+
    then show ?thesis
      using that by (fastforce simp: triple_def completed_post_def intro: pg_post_exact split: sum.splits)
  qed
  have none: "triple (?upd 0) (fenceFailure E jid) (\<lambda>v. pg_post E ?c d (Inr RUnit)) (\<lambda>e db. ?X e d)"
    by (rule triple_each, simp) (use fail' lost in \<open>auto intro: fenceFailure_triple\<close>)
  show ?thesis
    unfolding implements_def pg_CompleteJob_def
    by (rule triple_transaction, rule triple_then [OF first], rule triple_if)
      (use none ok fail_d in \<open>auto intro: pg_post_ok_fail\<close>)
qed

section \<open>The store contract\<close>

lemma call_of_op:
  assumes "implements E c (ps_db s) m res"
  shows "pg_post E c (ps_db s) (snd (map_result res (m s))) (ps_db (fst (m s)))"
  using assms unfolding implements_def triple_def map_result_def
  by (auto split: sum.splits)

lemma fst_map_result [simp]: "fst (map_result f o1) = fst o1"
  by (simp add: map_result_def)

lemma exec_call_post:
  assumes "pg_wf s"
  shows "pg_post E c (ps_db s) (snd (exec_call (postgres_ops E) c s)) (ps_db (fst (exec_call (postgres_ops E) c s)))"
proof -
  have wf: "wf_db (ps_db s)" using assms by (simp add: pg_wf_def)
  note ops = create_implements claim_implements heartbeat_implements insert_findings_implements
    insert_diagnostics_implements complete_implements fail_implements release_implements release_stale_implements
  show ?thesis
    by (cases c) (simp_all add: postgres_ops_def ops [OF wf, THEN call_of_op])
qed

lemma sql_call_advances: "rows_advance rows (fst (sql_call E c rows))"
proof (cases c)
  case (CallCreate j)
  then show ?thesis by (auto simp: rows_advance_def split: option.splits)
next
  case (CallClaim jid w now st)
  have "row_step j (claimed_row j w (micro now))" if "sql_claimable t j" for t j
    by (rule row_step.claim [where st = min_duration])
      (use that in \<open>auto simp: claimable_row_def sql_claimable_def stale_row_def time_sub_def not_less split: option.splits\<close>)
  then show ?thesis using CallClaim by (auto split: option.splits intro: rows_advance_upd)
next
  case (CallRelease jid w a)
  then show ?thesis
    by (auto intro!: rows_advance_fenced r_into_rtranclp row_step.release simp: fence_row_def)
next
  case (CallInsertFindings jid w a fs)
  then show ?thesis by (auto intro!: rows_advance_fenced)
next
  case (CallInsertDiagnostics jid w a ds)
  then show ?thesis by (auto intro!: rows_advance_fenced)
next
  case (CallReleaseStale now st)
  then show ?thesis by (auto simp: rows_advance_def sql_release_def intro: row_step.release)
qed (auto intro!: rows_advance_fenced r_into_rtranclp intro: row_step.intros)

lemma sql_refines_advances: "sql_refines E c rows rows' r \<Longrightarrow> rows_advance rows rows'"
  unfolding sql_refines_def by (metis fst_conv rows_advance_refl sql_call_advances)

lemma pg_get_found:
  "so_get_job (postgres_ops E) s jid = Inr j \<Longrightarrow> pg_rows s jid = Some j"
  by (auto simp: postgres_ops_def pg_GetJob_def query_def exec_stmt_def with_uuid_def scanJob_def pg_rows_def
      db_rows_def Let_def split: pg_fault.splits if_splits sum.splits option.splits prod.splits)

lemma pg_get_missing:
  "so_get_job (postgres_ops E) s jid = Inl ErrJobNotFound \<Longrightarrow> pg_rows s jid = None"
  by (auto simp: postgres_ops_def pg_GetJob_def query_def exec_stmt_def with_uuid_def scanJob_def pg_rows_def
      pg_fail_def db_rows_def Let_def split: pg_fault.splits if_splits sum.splits option.splits prod.splits)

lemma pg_row_key: "pg_wf s \<Longrightarrow> pg_rows s k = Some j \<Longrightarrow> job_id j = k"
  by (auto simp: pg_wf_def pg_rows_def db_rows_def find_job_iff)

interpretation pg: advancing_store "postgres_ops E" pg_rows pg_wf for E
proof unfold_locales
  fix s c assume wf: "pg_wf s"
  note post = exec_call_post [OF wf, of E c]
  show "pg_wf (fst (exec_call (postgres_ops E) c s))"
    using post by (simp add: pg_wf_def pg_post_def)
  show "rows_advance (pg_rows s) (pg_rows (fst (exec_call (postgres_ops E) c s)))"
    using post by (auto simp: pg_post_def pg_rows_def intro: sql_refines_advances)
qed (auto intro: pg_row_key pg_get_found pg_get_missing)

subsection \<open>Calls at the precision of the columns\<close>

definition whole_micros :: "time \<Rightarrow> bool" where
  "whole_micros t \<longleftrightarrow> micro t = t"

definition precise_span :: "time \<Rightarrow> duration \<Rightarrow> bool" where
  "precise_span now st \<longleftrightarrow> whole_micros now \<and> whole_micros (time_add now (- st)) \<and> min_duration < st \<and> st \<le> max_duration"

fun precise_call :: "pg_env \<Rightarrow> store_call \<Rightarrow> bool" where
  "precise_call E (CallCreate j) \<longleftrightarrow>
     pe_jsonb E (job_params j) = Some (job_params j) \<and> whole_micros (job_created_at j)
     \<and> pred_option whole_micros (job_started_at j) \<and> pred_option whole_micros (job_finished_at j)
     \<and> pred_option whole_micros (job_heartbeat_at j)"
| "precise_call E (CallClaim jid w now st) \<longleftrightarrow> precise_span now st"
| "precise_call E (CallHeartbeat jid w a now) \<longleftrightarrow> whole_micros now"
| "precise_call E (CallComplete jid w a c) \<longleftrightarrow> whole_micros (cp_finished_at c)"
| "precise_call E (CallFail jid w a msg t) \<longleftrightarrow> whole_micros t"
| "precise_call E (CallReleaseStale now st) \<longleftrightarrow> precise_span now st"
| "precise_call E _ \<longleftrightarrow> True"

lemma micro_option: "pred_option whole_micros x \<Longrightarrow> map_option micro x = x"
  by (cases x) (simp_all add: whole_micros_def)

lemma stored_precise: "precise_call E (CallCreate j) \<Longrightarrow> stored_job E j = j"
  by (simp add: stored_job_def micro_option) (simp add: whole_micros_def)

lemma sql_stale_precise:
  assumes "precise_span now st"
  shows "sql_stale (micro (time_add now (- st))) j \<longleftrightarrow> stale_row j now st"
  using assms
  by (auto simp: precise_span_def whole_micros_def sql_stale_def stale_row_def time_sub_less_iff time_add_def
      split: option.splits)

lemma sql_call_precise: "precise_call E c \<Longrightarrow> sql_call E c rows = spec_call c rows"
proof (cases c)
  case (CallCreate j)
  assume "precise_call E c"
  then show ?thesis using CallCreate stored_precise [of E j] by (simp split: option.split)
next
  case (CallClaim jid w now st)
  assume "precise_call E c"
  then have "precise_span now st" using CallClaim by simp
  then show ?thesis
    using CallClaim
    by (simp add: sql_claimable_def claimable_row_def sql_stale_precise split: option.split)
      (simp add: precise_span_def whole_micros_def)
next
  case (CallReleaseStale now st)
  assume "precise_call E c"
  then have "precise_span now st" using CallReleaseStale by simp
  then show ?thesis
    using CallReleaseStale
    by (simp add: sql_stale_precise stale_running_def release_all_def sql_release_def [abs_def])
qed (simp_all add: whole_micros_def)


text \<open>A database that never fails and accepts every value, holding one running job.\<close>

definition calm_env :: pg_env where
  "calm_env = \<lparr>pe_uuid = (\<lambda>_. True), pe_text = (\<lambda>_. True), pe_jsonb = Some, pe_fault = (\<lambda>_. NoFault), pe_now = int\<rparr>"

definition sample_row :: pg_job where
  "sample_row =
     \<lparr>pj_job = \<lparr>job_id = ''j'', job_kind = ''baseline'', job_params = RawNil, job_status = JobRunning, job_error = None,
        job_created_at = 1000, job_started_at = Some 2000, job_finished_at = None, job_claimed_by = Some ''w'',
        job_heartbeat_at = Some 2000, job_attempt = 1, job_created_by_provider = ''github'',
        job_created_by_subject = ''1'', job_created_by_login = ''me''\<rparr>,
      pj_commit_sha = None, pj_versions = None, pj_generated_at = None\<rparr>"

definition sample_store :: pg_store where
  "sample_store = \<lparr>ps_db = empty_db\<lparr>db_jobs := [sample_row]\<rparr>, ps_stmt = 0\<rparr>"

definition sample_finding :: "string \<Rightarrow> job_finding" where
  "sample_finding i = \<lparr>jf_id = i, jf_job_id = ''j'', jf_attempt = 1, jf_source = ''deterministic'', jf_rubric_id = None,
     jf_rubric_version = None, jf_model_identity = None, jf_payload = RawBad i, jf_payload_hash = i, jf_created_at = 0\<rparr>"

definition sample_completion :: completion where
  "sample_completion = \<lparr>cp_attempt = 1, cp_commit_sha = ''c'', cp_findings = [sample_finding ''b'', sample_finding ''a''],
     cp_diagnostics = [], cp_versions = no_versions, cp_finished_at = 5000, cp_generated_at = 5000\<rparr>"

lemma sample_store_wf: "pg_wf sample_store"
  by (simp add: pg_wf_def wf_db_def sample_store_def empty_db_def sample_row_def precise_job_def micro_def)


text \<open>
  The report of two findings b, a: RecordCompletion's microseconds keep their order,
  CompleteJob's nanoseconds are lost in the column and the report orders them by id.
\<close>

definition payloads_of :: "store_error + report \<Rightarrow> raw_message list" where
  "payloads_of r = (case r of Inl _ \<Rightarrow> [] | Inr rp \<Rightarrow> map fi_payload (rp_findings rp))"

lemma record_completion_keeps_order:
  "payloads_of (pg_GetReport calm_env (fst (pg_RecordCompletion calm_env sample_store ''j'' sample_completion)) ''j'')
    = [RawBad ''b'', RawBad ''a'']"
  by code_simp

lemma complete_job_loses_order:
  "payloads_of (pg_GetReport calm_env (fst (pg_CompleteJob calm_env sample_store ''j'' ''w'' 1 sample_completion)) ''j'')
    = [RawBad ''a'', RawBad ''b'']"
  by code_simp

end
