(* ===== verification/RedisQueue.thy ===== *)
theory RedisQueue
  imports TaskQueue
begin

text \<open>
  The Redis Streams adapter (internal/coachapi/queue/redisstream).  Watermill and the
  broker are outside the repository: what they answer (a delivered message, a closed
  channel, a publish error, the entries of the poison stream) and the UUID generator are
  arguments of the operations.  The Queue's own state is the pending-claims map with its
  tokens and attempt counts; the acknowledgements and publications it issues are kept as
  lists, in order.

  A Go map is ranged over in an unspecified order: \<open>rank\<close> is an argument that orders the
  entries, so every theorem holds for every order.
\<close>

section \<open>Configuration\<close>

record redis_config =
  rc_Address :: string
  rc_Password :: string
  rc_DB :: int
  rc_Stream :: string
  rc_ConsumerGroup :: string
  rc_Consumer :: string
  rc_ClaimAfter :: duration
  rc_DialTimeout :: duration

definition defaultDialTimeout :: duration where
  "defaultDialTimeout = 5 * second"

definition redis_setDefaults :: "redis_config \<Rightarrow> redis_config" where
  "redis_setDefaults c =
     (if rc_DialTimeout c \<le> 0 then c\<lparr>rc_DialTimeout := defaultDialTimeout\<rparr> else c)"

datatype redis_config_error = MissingFields "string list" | ClaimAfterNotPositive

definition redis_Validate :: "redis_config \<Rightarrow> redis_config_error option" where
  "redis_Validate c =
     (let missing = (if rc_Address c = [] then [''Address''] else [])
                    @ (if rc_Stream c = [] then [''Stream''] else [])
                    @ (if rc_ConsumerGroup c = [] then [''ConsumerGroup''] else [])
      in if length missing > 0 then Some (MissingFields missing)
         else if rc_ClaimAfter c \<le> 0 then Some ClaimAfterNotPositive
         else None)"

definition poisonStreamName :: "string \<Rightarrow> string" where
  "poisonStreamName stream = stream @ ''-poison''"

section \<open>State\<close>

definition taskIDMetadataKey :: string where
  "taskIDMetadataKey = ''task_id''"

text \<open>A Watermill message: its UUID, metadata and payload.\<close>

record wire_message =
  wm_uuid :: string
  wm_metadata :: "(string \<times> string) list"
  wm_payload :: string

definition metadata_get :: "wire_message \<Rightarrow> string \<Rightarrow> string" where
  "metadata_get m k = (case map_of (wm_metadata m) k of None \<Rightarrow> [] | Some v \<Rightarrow> v)"

record pending_claim =
  pc_task_id :: string
  pc_attempt :: int
  pc_token :: string
  pc_claimed_at :: time
  pc_ready :: bool
  pc_msg :: wire_message

record redis_queue =
  rq_stream :: string
  rq_poison_stream :: string
  rq_claim_after :: duration
  rq_pending :: "(string \<times> pending_claim) list"
  rq_fresh :: nat
  rq_published :: "(string \<times> wire_message) list"
  rq_acked :: "wire_message list"

definition redis_NewQueue :: "redis_config \<Rightarrow> redis_config_error + redis_queue" where
  "redis_NewQueue cfg0 =
     (let cfg = redis_setDefaults cfg0 in
      case redis_Validate cfg of
        Some e \<Rightarrow> Inl e
      | None \<Rightarrow> Inr \<lparr>rq_stream = rc_Stream cfg, rq_poison_stream = poisonStreamName (rc_Stream cfg),
                    rq_claim_after = rc_ClaimAfter cfg, rq_pending = [], rq_fresh = 0,
                    rq_published = [], rq_acked = []\<rparr>)"

section \<open>Publishing\<close>

text \<open>\<open>uuid n\<close> is the n-th value of watermill.NewUUID; \<open>perr\<close> is the publisher's answer.\<close>

definition redis_publish ::
  "(nat \<Rightarrow> string) \<Rightarrow> string option \<Rightarrow> redis_queue \<Rightarrow> string \<Rightarrow> string \<Rightarrow> string \<Rightarrow> (redis_queue, queue_error, unit) outcome" where
  "redis_publish uuid perr q stream tid payload =
     (let msg = \<lparr>wm_uuid = uuid (rq_fresh q), wm_metadata = [(taskIDMetadataKey, tid)], wm_payload = payload\<rparr>;
          q1 = q\<lparr>rq_fresh := rq_fresh q + 1\<rparr>
      in case perr of
           Some e \<Rightarrow> (q1, Inl (QueueFailure e))
         | None \<Rightarrow> (q1\<lparr>rq_published := rq_published q1 @ [(stream, msg)]\<rparr>, Inr ()))"

definition redis_Enqueue ::
  "(nat \<Rightarrow> string) \<Rightarrow> string option \<Rightarrow> redis_queue \<Rightarrow> task \<Rightarrow> (redis_queue, queue_error, unit) outcome" where
  "redis_Enqueue uuid perr q t = redis_publish uuid perr q (rq_stream q) (tk_id t) (tk_payload t)"

definition publishPoison ::
  "(nat \<Rightarrow> string) \<Rightarrow> string option \<Rightarrow> redis_queue \<Rightarrow> string \<Rightarrow> string \<Rightarrow> (redis_queue, queue_error, unit) outcome" where
  "publishPoison uuid perr q tid payload = redis_publish uuid perr q (rq_poison_stream q) tid payload"

text \<open>Reading the poison stream back: the entries XRANGE returns, each with the unmarshaller's answer.\<close>

fun poison_tasks_loop :: "(string + wire_message) list \<Rightarrow> task list \<Rightarrow> string + task list" where
  "poison_tasks_loop [] acc = Inr acc"
| "poison_tasks_loop (Inl e # rest) acc = Inl e"
| "poison_tasks_loop (Inr m # rest) acc =
     poison_tasks_loop rest (acc @ [\<lparr>tk_id = metadata_get m taskIDMetadataKey, tk_payload = wm_payload m\<rparr>])"

definition redis_PoisonTasks :: "string + (string + wire_message) list \<Rightarrow> string + task list" where
  "redis_PoisonTasks answer =
     (case answer of Inl e \<Rightarrow> Inl e | Inr entries \<Rightarrow> poison_tasks_loop entries [])"

section \<open>Claiming\<close>

definition claim_of :: "pending_claim \<Rightarrow> queue_claim" where
  "claim_of pc = \<lparr>qc_task_id = pc_task_id pc, qc_attempt = pc_attempt pc, qc_token = pc_token pc\<rparr>"

definition reclaimable :: "redis_queue \<Rightarrow> time \<Rightarrow> pending_claim \<Rightarrow> bool" where
  "reclaimable q now pc \<longleftrightarrow> pc_ready pc \<or> \<not> time_sub now (pc_claimed_at pc) < rq_claim_after q"

definition reclaimExpired ::
  "(nat \<Rightarrow> string) \<Rightarrow> (string \<Rightarrow> nat) \<Rightarrow> time \<Rightarrow> redis_queue \<Rightarrow> redis_queue \<times> queue_claim option" where
  "reclaimExpired uuid rank now q =
     (case find (\<lambda>(token, pc). reclaimable q now pc) (sort_key (rank \<circ> fst) (rq_pending q)) of
        None \<Rightarrow> (q, None)
      | Some (token, pc) \<Rightarrow>
          if pc_ready pc
          then (q\<lparr>rq_pending := AList.update token (pc\<lparr>pc_ready := False\<rparr>) (rq_pending q)\<rparr>, Some (claim_of pc))
          else
            let pc' = pc\<lparr>pc_attempt := pc_attempt pc + 1, pc_token := uuid (rq_fresh q), pc_claimed_at := now\<rparr>
            in (q\<lparr>rq_fresh := rq_fresh q + 1,
                  rq_pending := AList.update (pc_token pc') pc' (AList.delete token (rq_pending q))\<rparr>,
                Some (claim_of pc')))"

definition trackNewClaim :: "(nat \<Rightarrow> string) \<Rightarrow> time \<Rightarrow> redis_queue \<Rightarrow> wire_message \<Rightarrow> redis_queue \<times> queue_claim" where
  "trackNewClaim uuid now q msg =
     (let tid = metadata_get msg taskIDMetadataKey;
          token = uuid (rq_fresh q);
          pc = \<lparr>pc_task_id = tid, pc_attempt = 0, pc_token = token, pc_claimed_at = now,
                pc_ready = False, pc_msg = msg\<rparr>
      in (q\<lparr>rq_fresh := rq_fresh q + 1, rq_pending := AList.update token pc (rq_pending q)\<rparr>, claim_of pc))"

text \<open>What the select in Claim sees: a message and the clock when it is tracked, the closed
  channel, the poll window's end, or the caller's cancelled context.\<close>

datatype poll_event = PollMessage wire_message time | PollClosed | PollTimeout | PollCtxDone string

definition redis_Claim ::
  "(nat \<Rightarrow> string) \<Rightarrow> (string \<Rightarrow> nat) \<Rightarrow> time \<Rightarrow> poll_event \<Rightarrow> redis_queue \<Rightarrow> (redis_queue, queue_error, queue_claim option) outcome" where
  "redis_Claim uuid rank now ev q =
     (case reclaimExpired uuid rank now q of
        (q1, Some c) \<Rightarrow> (q1, Inr (Some c))
      | (q1, None) \<Rightarrow>
          (case ev of
             PollMessage msg now2 \<Rightarrow> (let (q2, c) = trackNewClaim uuid now2 q1 msg in (q2, Inr (Some c)))
           | PollClosed \<Rightarrow> (q1, Inl (QueueFailure ''redisstream: subscriber channel closed''))
           | PollTimeout \<Rightarrow> (q1, Inr None)
           | PollCtxDone e \<Rightarrow> (q1, Inl (QueueFailure e))))"

section \<open>Settling\<close>

definition takePending :: "redis_queue \<Rightarrow> queue_claim \<Rightarrow> (redis_queue \<times> pending_claim) option" where
  "takePending q c =
     (case map_of (rq_pending q) (qc_token c) of
        None \<Rightarrow> None
      | Some pc \<Rightarrow>
          if pc_task_id pc \<noteq> qc_task_id c then None
          else Some (q\<lparr>rq_pending := AList.delete (qc_token c) (rq_pending q)\<rparr>, pc))"

definition redis_Complete :: "redis_queue \<Rightarrow> queue_claim \<Rightarrow> (redis_queue, queue_error, unit) outcome" where
  "redis_Complete q c =
     (case takePending q c of
        None \<Rightarrow> (q, Inl (StaleClaim (qc_task_id c)))
      | Some (q1, pc) \<Rightarrow> (q1\<lparr>rq_acked := rq_acked q1 @ [pc_msg pc]\<rparr>, Inr ()))"

definition redis_Nack ::
  "(nat \<Rightarrow> string) \<Rightarrow> time \<Rightarrow> string option \<Rightarrow> redis_queue \<Rightarrow> queue_claim \<Rightarrow> bool \<Rightarrow> (redis_queue, queue_error, unit) outcome" where
  "redis_Nack uuid now perr q c permanent =
     (case takePending q c of
        None \<Rightarrow> (q, Inl (StaleClaim (qc_task_id c)))
      | Some (q1, pc) \<Rightarrow>
          if permanent
          then (case publishPoison uuid perr q1 (pc_task_id pc) (wm_payload (pc_msg pc)) of
                  (q2, Inl e) \<Rightarrow> (q2\<lparr>rq_pending := AList.update (pc_token pc) pc (rq_pending q2)\<rparr>, Inl e)
                | (q2, Inr _) \<Rightarrow> (q2\<lparr>rq_acked := rq_acked q2 @ [pc_msg pc]\<rparr>, Inr ()))
          else
            let pc' = pc\<lparr>pc_attempt := pc_attempt pc + 1, pc_token := uuid (rq_fresh q1),
                         pc_claimed_at := now, pc_ready := True\<rparr>
            in (q1\<lparr>rq_fresh := rq_fresh q1 + 1,
                   rq_pending := AList.update (pc_token pc') pc' (rq_pending q1)\<rparr>, Inr ()))"

section \<open>The queue in its environment\<close>

text \<open>
  The n-th operation reads the n-th answers of the environment: clock, map order, poll
  event, publisher.  This turns the adapter into an instance of the port.
\<close>

record redis_env =
  re_uuid :: "nat \<Rightarrow> string"
  re_now :: "nat \<Rightarrow> time"
  re_rank :: "nat \<Rightarrow> string \<Rightarrow> nat"
  re_poll :: "nat \<Rightarrow> poll_event"
  re_publish :: "nat \<Rightarrow> string option"

record redis_world =
  rw_env :: redis_env
  rw_step :: nat
  rw_queue :: redis_queue

definition in_world :: "redis_world \<Rightarrow> (redis_queue, queue_error, 'a) outcome \<Rightarrow> (redis_world, queue_error, 'a) outcome" where
  "in_world w o1 = (w\<lparr>rw_step := rw_step w + 1, rw_queue := fst o1\<rparr>, snd o1)"

definition redis_ops :: "redis_world queue_ops" where
  "redis_ops =
     \<lparr>qo_enqueue = (\<lambda>w t. in_world w (redis_Enqueue (re_uuid (rw_env w)) (re_publish (rw_env w) (rw_step w)) (rw_queue w) t)),
      qo_claim = (\<lambda>w. in_world w (redis_Claim (re_uuid (rw_env w)) (re_rank (rw_env w) (rw_step w))
                                   (re_now (rw_env w) (rw_step w)) (re_poll (rw_env w) (rw_step w)) (rw_queue w))),
      qo_complete = (\<lambda>w c. in_world w (redis_Complete (rw_queue w) c)),
      qo_nack = (\<lambda>w c p. in_world w (redis_Nack (re_uuid (rw_env w)) (re_now (rw_env w) (rw_step w))
                                       (re_publish (rw_env w) (rw_step w)) (rw_queue w) c p))\<rparr>"

section \<open>Steps of the pending-claims map\<close>

text \<open>
  Well-formed: tokens are distinct generated UUIDs and every entry is filed under its own
  token.
\<close>

definition issued :: "(nat \<Rightarrow> string) \<Rightarrow> nat \<Rightarrow> string \<Rightarrow> bool" where
  "issued uuid n t \<longleftrightarrow> (\<exists>i < n. t = uuid i)"

definition redis_wf :: "(nat \<Rightarrow> string) \<Rightarrow> redis_queue \<Rightarrow> bool" where
  "redis_wf uuid q \<longleftrightarrow>
     inj uuid \<and> distinct (map fst (rq_pending q)) \<and> rq_stream q \<noteq> rq_poison_stream q
     \<and> (\<forall>k pc. map_of (rq_pending q) k = Some pc \<longrightarrow> pc_token pc = k \<and> issued uuid (rq_fresh q) k)"

definition held_messages :: "redis_queue \<Rightarrow> wire_message multiset" where
  "held_messages q = mset (map (pc_msg \<circ> snd) (rq_pending q))"

text \<open>
  What one operation may do to the map: nothing (up to the order of its entries), hand out
  a nacked entry, move an entry to a fresh token, take in a delivered message, or drop an
  entry and acknowledge its message.  The third argument lists the messages taken in.
\<close>

inductive redis_step :: "(nat \<Rightarrow> string) \<Rightarrow> redis_queue \<Rightarrow> wire_message list \<Rightarrow> redis_queue \<Rightarrow> bool"
  for uuid q where
  quiet: "mset (rq_pending q') = mset (rq_pending q) \<Longrightarrow> rq_acked q' = rq_acked q \<Longrightarrow>
    rq_fresh q \<le> rq_fresh q' \<Longrightarrow> redis_step uuid q [] q'"
| handout: "map_of (rq_pending q) k = Some pc \<Longrightarrow>
    rq_pending q' = AList.update k (pc\<lparr>pc_ready := False\<rparr>) (rq_pending q) \<Longrightarrow>
    rq_acked q' = rq_acked q \<Longrightarrow> rq_fresh q' = rq_fresh q \<Longrightarrow> redis_step uuid q [] q'"
| retoken: "map_of (rq_pending q) k = Some pc \<Longrightarrow> pc_token pc' = uuid (rq_fresh q) \<Longrightarrow>
    pc_msg pc' = pc_msg pc \<Longrightarrow>
    rq_pending q' = AList.update (uuid (rq_fresh q)) pc' (AList.delete k (rq_pending q)) \<Longrightarrow>
    rq_acked q' = rq_acked q \<Longrightarrow> rq_fresh q' = rq_fresh q + 1 \<Longrightarrow> redis_step uuid q [] q'"
| track: "pc_token pc' = uuid (rq_fresh q) \<Longrightarrow> pc_msg pc' = msg \<Longrightarrow>
    rq_pending q' = AList.update (uuid (rq_fresh q)) pc' (rq_pending q) \<Longrightarrow>
    rq_acked q' = rq_acked q \<Longrightarrow> rq_fresh q' = rq_fresh q + 1 \<Longrightarrow> redis_step uuid q [msg] q'"
| ack: "map_of (rq_pending q) k = Some pc \<Longrightarrow>
    rq_pending q' = AList.delete k (rq_pending q) \<Longrightarrow>
    rq_acked q' = rq_acked q @ [pc_msg pc] \<Longrightarrow> rq_fresh q \<le> rq_fresh q' \<Longrightarrow> redis_step uuid q [] q'"

inductive_cases redis_stepE: "redis_step uuid q ds q'"

lemma issued_mono: "issued uuid n t \<Longrightarrow> n \<le> m \<Longrightarrow> issued uuid m t"
  unfolding issued_def by (metis order_less_le_trans)

lemma issued_next [simp]: "issued uuid (Suc n) (uuid n)"
  unfolding issued_def by blast

lemma issued_Suc [simp]: "issued uuid n t \<Longrightarrow> issued uuid (Suc n) t"
  by (erule issued_mono) simp

lemma issued_not_next: "inj uuid \<Longrightarrow> issued uuid n t \<Longrightarrow> t \<noteq> uuid n"
  unfolding issued_def inj_def by auto

lemma fresh_not_pending:
  "redis_wf uuid q \<Longrightarrow> map_of (rq_pending q) (uuid (rq_fresh q)) = None"
  unfolding redis_wf_def using issued_not_next by (metis not_None_eq)

lemma quiet_map:
  assumes "distinct (map fst m)" "mset m' = mset m"
  shows "map_of m' = map_of m" "distinct (map fst m')"
proof -
  have "mset (map fst m') = mset (map fst m)" using assms(2) by simp
  then show d: "distinct (map fst m')" using assms(1) by (metis mset_eq_imp_distinct_iff)
  have s: "set m' = set m" using assms(2) by (metis set_mset_mset)
  have iff: "map_of m' k = Some v \<longleftrightarrow> map_of m k = Some v" for k v
    by (simp only: map_of_Some_iff_in_set [OF d] map_of_Some_iff_in_set [OF assms(1)] s)
  show "map_of m' = map_of m"
  proof (rule ext)
    fix k
    show "map_of m' k = map_of m k"
      using iff [of k] by (cases "map_of m k"; cases "map_of m' k") auto
  qed
qed

lemma redis_step_wf:
  assumes "redis_wf uuid q" "redis_step uuid q ds q'" "rq_stream q' = rq_stream q"
    "rq_poison_stream q' = rq_poison_stream q"
  shows "redis_wf uuid q'"
proof -
  have d: "distinct (map fst (rq_pending q))"
    and e: "map_of (rq_pending q) k = Some pc \<Longrightarrow> pc_token pc = k \<and> issued uuid (rq_fresh q) k" for k pc
    using assms(1) by (auto simp: redis_wf_def)
  have base: "inj uuid" "rq_stream q' \<noteq> rq_poison_stream q'"
    using assms(1,3,4) by (simp_all add: redis_wf_def)
  have key: "redis_wf uuid q'"
    if "distinct (map fst (rq_pending q'))"
      and "\<And>k pc. map_of (rq_pending q') k = Some pc \<Longrightarrow> pc_token pc = k \<and> issued uuid (rq_fresh q') k"
    using that base unfolding redis_wf_def by blast
  from assms(2) show ?thesis
  proof cases
    case quiet
    note same = quiet_map [OF d quiet(2)]
    show ?thesis
      by (intro key) (use same e issued_mono quiet(4) in \<open>simp_all (no_asm_simp)\<close>, metis e issued_mono quiet(4) same(1))
  next
    case ack
    then show ?thesis
      by (intro key) (auto simp: d dest: e issued_mono split: if_splits simp del: map_of_eq_Some_iff)
  qed (intro key; auto simp: d dest: e split: if_splits simp del: map_of_eq_Some_iff)+
qed

text \<open>A generated token that is not pending never becomes pending again.\<close>

lemma redis_step_spent:
  assumes "redis_wf uuid q" "redis_step uuid q ds q'" "issued uuid (rq_fresh q) t"
    "map_of (rq_pending q) t = None"
  shows "issued uuid (rq_fresh q') t \<and> map_of (rq_pending q') t = None"
proof -
  have ne: "t \<noteq> uuid (rq_fresh q)" and d: "distinct (map fst (rq_pending q))"
    using assms(1,3) issued_not_next by (auto simp: redis_wf_def)
  have less: "rq_fresh q \<le> rq_fresh q'"
    using assms(2) by cases simp_all
  from assms(2) have "map_of (rq_pending q') t = None"
  proof cases
    case quiet
    show ?thesis using assms(4) unfolding quiet_map(1) [OF d quiet(2)] .
  qed (use assms(4) ne in auto)
  then show ?thesis using issued_mono [OF assms(3) less] by blast
qed

lemma held_delete:
  assumes "redis_wf uuid q" "map_of (rq_pending q) k = Some pc"
  shows "held_messages q = add_mset (pc_msg pc) (mset (map (pc_msg \<circ> snd) (AList.delete k (rq_pending q))))"
  using mset_alist_delete [OF _ assms(2)] assms(1)
  unfolding redis_wf_def held_messages_def by simp

lemma held_update:
  assumes "distinct (map fst m)"
  shows "mset (map (pc_msg \<circ> snd) (AList.update k pc m)) =
    add_mset (pc_msg pc) (mset (map (pc_msg \<circ> snd) (AList.delete k m)))"
  using mset_alist_update [OF assms, of k pc] by simp

lemma redis_step_conserves:
  assumes "redis_wf uuid q" "redis_step uuid q ds q'"
  shows "held_messages q' + mset (rq_acked q') = held_messages q + mset (rq_acked q) + mset ds"
proof -
  have d: "distinct (map fst (rq_pending q))" using assms(1) by (simp add: redis_wf_def)
  have fresh: "AList.delete (uuid (rq_fresh q)) (rq_pending q) = rq_pending q"
    using fresh_not_pending [OF assms(1)] by (simp add: map_of_eq_None_iff)
  from assms(2) show ?thesis
  proof cases
    case quiet
    then show ?thesis unfolding held_messages_def by simp
  next
    case (handout k pc)
    then show ?thesis
      using held_delete [OF assms(1) handout(2)] held_update [OF d, of k "pc\<lparr>pc_ready := False\<rparr>"]
      by (simp add: held_messages_def)
  next
    case (retoken k pc pc')
    have "AList.delete (uuid (rq_fresh q)) (AList.delete k (rq_pending q)) = AList.delete k (rq_pending q)"
      by (metis AList.delete_twist fresh)
    then show ?thesis
      using retoken held_delete [OF assms(1) retoken(2)] d
        held_update [of "AList.delete k (rq_pending q)" "uuid (rq_fresh q)" pc']
      by (simp add: held_messages_def)
  next
    case (track pc' msg)
    then show ?thesis
      using held_update [OF d, of "uuid (rq_fresh q)" pc'] fresh by (simp add: held_messages_def)
  next
    case (ack k pc)
    then show ?thesis
      using held_delete [OF assms(1) ack(2)] by (simp add: held_messages_def)
  qed
qed

section \<open>Operations are steps\<close>

lemma redis_publish_fields [simp]:
  "rq_pending (fst (redis_publish uuid perr q s tid p)) = rq_pending q"
  "rq_acked (fst (redis_publish uuid perr q s tid p)) = rq_acked q"
  "rq_fresh (fst (redis_publish uuid perr q s tid p)) = rq_fresh q + 1"
  "rq_stream (fst (redis_publish uuid perr q s tid p)) = rq_stream q"
  "rq_poison_stream (fst (redis_publish uuid perr q s tid p)) = rq_poison_stream q"
  by (simp_all add: redis_publish_def Let_def split: option.splits)

lemma redis_publish_result:
  "snd (redis_publish uuid perr q s tid p) = (case perr of None \<Rightarrow> Inr () | Some e \<Rightarrow> Inl (QueueFailure e))"
  by (simp add: redis_publish_def Let_def split: option.splits)

lemma takePending_Some:
  assumes "takePending q c = Some (q1, pc)"
  shows "map_of (rq_pending q) (qc_token c) = Some pc" "pc_task_id pc = qc_task_id c"
    "q1 = q\<lparr>rq_pending := AList.delete (qc_token c) (rq_pending q)\<rparr>"
  using assms by (auto simp: takePending_def split: option.splits if_splits)

lemma takePending_None:
  "takePending q c = None \<longleftrightarrow>
     \<not> (\<exists>pc. map_of (rq_pending q) (qc_token c) = Some pc \<and> pc_task_id pc = qc_task_id c)"
  by (auto simp: takePending_def split: option.splits)

lemma reclaim_found:
  assumes "redis_wf uuid q"
    and "find (\<lambda>(token, pc). reclaimable q now pc) (sort_key (rank \<circ> fst) (rq_pending q)) = Some (k, pc)"
  shows "map_of (rq_pending q) k = Some pc" "reclaimable q now pc" "pc_token pc = k"
proof -
  have "(k, pc) \<in> set (sort_key (rank \<circ> fst) (rq_pending q)) \<and> reclaimable q now pc"
    using find_SomeD [OF assms(2)] by simp
  then show "map_of (rq_pending q) k = Some pc" and "reclaimable q now pc"
    using assms(1) by (auto simp: redis_wf_def map_of_Some_iff_in_set)
  then show "pc_token pc = k" using assms(1) by (auto simp: redis_wf_def)
qed

definition claim_delivers ::
  "(nat \<Rightarrow> string) \<Rightarrow> (string \<Rightarrow> nat) \<Rightarrow> time \<Rightarrow> poll_event \<Rightarrow> redis_queue \<Rightarrow> wire_message list" where
  "claim_delivers uuid rank now ev q =
     (case snd (reclaimExpired uuid rank now q) of
        Some _ \<Rightarrow> []
      | None \<Rightarrow> (case ev of PollMessage msg _ \<Rightarrow> [msg] | _ \<Rightarrow> []))"

lemma reclaim_none:
  "reclaimExpired uuid rank now q = (q1, None) \<Longrightarrow> q1 = q"
  by (auto simp: reclaimExpired_def Let_def split: option.splits if_splits)

lemma reclaim_step:
  assumes "redis_wf uuid q" "reclaimExpired uuid rank now q = (q1, Some c)"
  shows "redis_step uuid q [] q1"
proof -
  obtain k pc where f: "find (\<lambda>(token, pc). reclaimable q now pc) (sort_key (rank \<circ> fst) (rq_pending q)) = Some (k, pc)"
    using assms(2) by (auto simp: reclaimExpired_def split: option.splits)
  note found = reclaim_found [OF assms(1) f]
  show ?thesis
  proof (cases "pc_ready pc")
    case True
    then show ?thesis
      using assms(2) f by (intro redis_step.handout [OF found(1)]) (auto simp: reclaimExpired_def)
  next
    case False
    then show ?thesis
      using assms(2) f
      by (intro redis_step.retoken [OF found(1),
            of "pc\<lparr>pc_attempt := pc_attempt pc + 1, pc_token := uuid (rq_fresh q), pc_claimed_at := now\<rparr>"])
        (auto simp: reclaimExpired_def Let_def)
  qed
qed

lemma redis_Claim_step:
  assumes "redis_wf uuid q"
  shows "redis_step uuid q (claim_delivers uuid rank now ev q) (fst (redis_Claim uuid rank now ev q))"
proof (cases "reclaimExpired uuid rank now q")
  case (Pair q1 oc)
  show ?thesis
  proof (cases oc)
    case (Some c)
    then show ?thesis using Pair reclaim_step [OF assms, of rank now q1 c]
      by (simp add: redis_Claim_def claim_delivers_def)
  next
    case None
    then have "q1 = q" using Pair reclaim_none by blast
    show ?thesis
    proof (cases ev)
      case (PollMessage msg now2)
      show ?thesis
        using None Pair PollMessage \<open>q1 = q\<close>
        by (simp add: redis_Claim_def claim_delivers_def trackNewClaim_def Let_def)
          (rule redis_step.track [of "\<lparr>pc_task_id = metadata_get msg taskIDMetadataKey, pc_attempt = 0,
             pc_token = uuid (rq_fresh q), pc_claimed_at = now2, pc_ready = False, pc_msg = msg\<rparr>"]; simp)
    qed (use None Pair \<open>q1 = q\<close> in \<open>auto simp: redis_Claim_def claim_delivers_def intro!: redis_step.quiet\<close>)
  qed
qed

lemma redis_Enqueue_step: "redis_step uuid q [] (fst (redis_Enqueue uuid perr q t))"
  by (rule redis_step.quiet) (simp_all add: redis_Enqueue_def)

lemma redis_Complete_step: "redis_step uuid q [] (fst (redis_Complete q c))"
proof (cases "takePending q c")
  case None
  then show ?thesis by (auto simp: redis_Complete_def intro!: redis_step.quiet)
next
  case (Some r)
  obtain q1 pc where r: "r = (q1, pc)" by (cases r)
  show ?thesis
    using Some r takePending_Some [of q c q1 pc]
    by (intro redis_step.ack [of q "qc_token c" pc]) (auto simp: redis_Complete_def)
qed

lemma redis_Nack_step:
  assumes "redis_wf uuid q"
  shows "redis_step uuid q [] (fst (redis_Nack uuid now perr q c permanent))"
proof (cases "takePending q c")
  case None
  then show ?thesis by (auto simp: redis_Nack_def intro!: redis_step.quiet)
next
  case (Some r)
  obtain q1 pc where r: "r = (q1, pc)" by (cases r)
  note taken = takePending_Some [OF Some [unfolded r]]
  have d: "distinct (map fst (rq_pending q))" and tok: "pc_token pc = qc_token c"
    using assms taken(1) by (auto simp: redis_wf_def)
  show ?thesis
  proof (cases permanent)
    case False
    then show ?thesis
      using Some r taken(3)
      by (intro redis_step.retoken [OF taken(1),
            of "pc\<lparr>pc_attempt := pc_attempt pc + 1, pc_token := uuid (rq_fresh q), pc_claimed_at := now, pc_ready := True\<rparr>"])
        (auto simp: redis_Nack_def Let_def)
  next
    case True
    let ?q2 = "redis_publish uuid perr q1 (rq_poison_stream q1) (pc_task_id pc) (wm_payload (pc_msg pc))"
    show ?thesis
    proof (cases perr)
      case None
      then show ?thesis
        using Some r True taken(3)
        by (intro redis_step.ack [OF taken(1)])
          (auto simp: redis_Nack_def publishPoison_def redis_publish_def Let_def)
    next
      case (Some e)
      have "mset (AList.update (qc_token c) pc (AList.delete (qc_token c) (rq_pending q))) = mset (rq_pending q)"
        using mset_alist_update [of "AList.delete (qc_token c) (rq_pending q)"] d
          mset_alist_delete [OF d taken(1)] by (simp add: AList.delete_idem)
      then show ?thesis
        using \<open>takePending q c = Some r\<close> Some r True taken(3) tok
        by (intro redis_step.quiet)
          (auto simp: redis_Nack_def publishPoison_def redis_publish_def Let_def)
    qed
  qed
qed

lemma redis_config_fixed [simp]:
  "rq_stream (fst (redis_Enqueue uuid perr q t)) = rq_stream q"
  "rq_poison_stream (fst (redis_Enqueue uuid perr q t)) = rq_poison_stream q"
  "rq_stream (fst (redis_Claim uuid rank now ev q)) = rq_stream q"
  "rq_poison_stream (fst (redis_Claim uuid rank now ev q)) = rq_poison_stream q"
  "rq_stream (fst (redis_Complete q c)) = rq_stream q"
  "rq_poison_stream (fst (redis_Complete q c)) = rq_poison_stream q"
  "rq_stream (fst (redis_Nack uuid now perr q c permanent)) = rq_stream q"
  "rq_poison_stream (fst (redis_Nack uuid now perr q c permanent)) = rq_poison_stream q"
  by (auto simp: redis_Enqueue_def redis_Claim_def reclaimExpired_def trackNewClaim_def redis_Complete_def
      takePending_def redis_Nack_def publishPoison_def redis_publish_def Let_def
      split: option.splits prod.splits if_splits poll_event.splits)

section \<open>The adapter keeps the port's contract\<close>

definition redis_world_wf :: "redis_world \<Rightarrow> bool" where
  "redis_world_wf w \<longleftrightarrow> redis_wf (re_uuid (rw_env w)) (rw_queue w)"

definition redis_owner :: "redis_world \<Rightarrow> string \<Rightarrow> string option" where
  "redis_owner w t = map_option pc_task_id (map_of (rq_pending (rw_queue w)) t)"

definition redis_spent :: "redis_world \<Rightarrow> string set" where
  "redis_spent w = {t. issued (re_uuid (rw_env w)) (rq_fresh (rw_queue w)) t \<and> redis_owner w t = None}"

definition redis_poison :: "redis_queue \<Rightarrow> wire_message list" where
  "redis_poison q = map snd (filter (\<lambda>(s, m). s = rq_poison_stream q) (rq_published q))"

definition poison_ids :: "redis_world \<Rightarrow> string list" where
  "poison_ids w = map (\<lambda>m. metadata_get m taskIDMetadataKey) (redis_poison (rw_queue w))"

definition world_delivers :: "queue_call \<Rightarrow> redis_world \<Rightarrow> wire_message list" where
  "world_delivers c w =
     (case c of
        QClaim \<Rightarrow> claim_delivers (re_uuid (rw_env w)) (re_rank (rw_env w) (rw_step w))
                    (re_now (rw_env w) (rw_step w)) (re_poll (rw_env w) (rw_step w)) (rw_queue w)
      | _ \<Rightarrow> [])"

lemma in_world_simps [simp]:
  "rw_queue (fst (in_world w o1)) = fst o1" "snd (in_world w o1) = snd o1"
  "rw_env (fst (in_world w o1)) = rw_env w"
  by (simp_all add: in_world_def)

lemma world_env [simp]: "rw_env (exec_queue redis_ops c w) = rw_env w"
  by (cases c) (simp_all add: redis_ops_def)

lemma world_step:
  assumes "redis_world_wf w"
  shows "redis_step (re_uuid (rw_env w)) (rw_queue w) (world_delivers c w) (rw_queue (exec_queue redis_ops c w))"
  using assms unfolding redis_world_wf_def
  by (cases c)
    (simp_all add: redis_ops_def world_delivers_def redis_Enqueue_step redis_Claim_step redis_Complete_step
      redis_Nack_step)

lemma world_wf_step:
  assumes "redis_world_wf w"
  shows "redis_world_wf (exec_queue redis_ops c w)"
proof -
  have "rq_stream (rw_queue (exec_queue redis_ops c w)) = rq_stream (rw_queue w)"
    and "rq_poison_stream (rw_queue (exec_queue redis_ops c w)) = rq_poison_stream (rw_queue w)"
    by (cases c; simp add: redis_ops_def)+
  then show ?thesis
    using redis_step_wf [OF _ world_step [OF assms, of c]] assms
    by (simp add: redis_world_wf_def)
qed

lemma reclaim_pending:
  assumes "redis_wf uuid q" "reclaimExpired uuid rank now q = (q', Some c)"
  shows "\<exists>pc. map_of (rq_pending q') (qc_token c) = Some pc \<and> claim_of pc = c"
proof -
  obtain k pc where f: "find (\<lambda>(token, pc). reclaimable q now pc) (sort_key (rank \<circ> fst) (rq_pending q)) = Some (k, pc)"
    using assms(2) by (auto simp: reclaimExpired_def split: option.splits)
  show ?thesis
    using assms(2) f reclaim_found(3) [OF assms(1) f]
    by (auto simp: reclaimExpired_def claim_of_def Let_def split: if_splits)
qed

lemma redis_claim_pending:
  assumes "redis_wf uuid q" "redis_Claim uuid rank now ev q = (q', Inr (Some c))"
  shows "\<exists>pc. map_of (rq_pending q') (qc_token c) = Some pc \<and> claim_of pc = c"
  using assms(2) reclaim_pending [OF assms(1), of rank now]
  by (auto simp: redis_Claim_def trackNewClaim_def claim_of_def Let_def
      split: prod.splits option.splits poll_event.splits)

text \<open>The answers of Complete and Nack.\<close>

lemma redis_Complete_ok:
  assumes "redis_wf uuid q" "redis_Complete q c = (q', Inr u)"
  shows "\<exists>pc. map_of (rq_pending q) (qc_token c) = Some pc \<and> pc_task_id pc = qc_task_id c
    \<and> map_of (rq_pending q') = (map_of (rq_pending q))(qc_token c := None)
    \<and> rq_acked q' = rq_acked q @ [pc_msg pc] \<and> rq_published q' = rq_published q"
  using assms(2) takePending_Some [of q c]
  by (cases "takePending q c") (auto simp: redis_Complete_def)

lemma redis_Nack_permanent_ok:
  assumes "redis_wf uuid q" "redis_Nack uuid now perr q c True = (q', Inr u)"
  shows "\<exists>pc. map_of (rq_pending q) (qc_token c) = Some pc \<and> pc_task_id pc = qc_task_id c
    \<and> map_of (rq_pending q') = (map_of (rq_pending q))(qc_token c := None)
    \<and> rq_acked q' = rq_acked q @ [pc_msg pc]
    \<and> redis_poison q' = redis_poison q @ [\<lparr>wm_uuid = uuid (rq_fresh q),
         wm_metadata = [(taskIDMetadataKey, qc_task_id c)], wm_payload = wm_payload (pc_msg pc)\<rparr>]"
  using assms(2) takePending_Some [of q c]
  by (cases "takePending q c")
    (auto simp: redis_Nack_def publishPoison_def redis_publish_def redis_poison_def Let_def split: option.splits)

lemma redis_Nack_retry_ok:
  assumes "redis_wf uuid q" "redis_Nack uuid now perr q c False = (q', Inr u)"
  shows "\<exists>pc. map_of (rq_pending q) (qc_token c) = Some pc \<and> pc_task_id pc = qc_task_id c
    \<and> map_of (rq_pending q') = (map_of (rq_pending q))(qc_token c := None,
         uuid (rq_fresh q) \<mapsto> pc\<lparr>pc_attempt := pc_attempt pc + 1, pc_token := uuid (rq_fresh q),
                                pc_claimed_at := now, pc_ready := True\<rparr>)
    \<and> rq_acked q' = rq_acked q \<and> redis_poison q' = redis_poison q"
  using assms(2) takePending_Some [of q c]
  by (cases "takePending q c") (auto simp: redis_Nack_def redis_poison_def Let_def)

interpretation redis: task_queue redis_ops redis_world_wf redis_owner redis_spent poison_ids
proof unfold_locales
  fix w c
  assume wf: "redis_world_wf w"
  show "redis_world_wf (exec_queue redis_ops c w)" by (rule world_wf_step [OF wf])
  show "redis_spent w \<subseteq> redis_spent (exec_queue redis_ops c w)"
    using redis_step_spent [OF _ world_step [OF wf, of c]] wf
    by (auto simp: redis_spent_def redis_owner_def redis_world_wf_def)
next
  fix w t
  assume "t \<in> redis_spent w"
  then show "redis_owner w t = None" by (simp add: redis_spent_def)
next
  fix w w' c
  assume "redis_world_wf w" "qo_claim redis_ops w = (w', Inr (Some c))"
  then show "redis_owner w' (qc_token c) = Some (qc_task_id c)"
    using redis_claim_pending
    by (fastforce simp: redis_ops_def in_world_def redis_owner_def claim_of_def prod_eq_iff redis_world_wf_def)
next
  fix w w' c u
  assume wf: "redis_world_wf w" and ok: "qo_complete redis_ops w c = (w', Inr u)"
  obtain q' where q: "redis_Complete (rw_queue w) c = (q', Inr u)" and
    w': "rw_queue w' = q'" "rw_env w' = rw_env w"
    using ok by (auto simp: redis_ops_def in_world_def prod_eq_iff)
  obtain pc where pc: "map_of (rq_pending (rw_queue w)) (qc_token c) = Some pc" "pc_task_id pc = qc_task_id c"
      "map_of (rq_pending q') = (map_of (rq_pending (rw_queue w)))(qc_token c := None)"
      "rq_published q' = rq_published (rw_queue w)"
    using redis_Complete_ok [OF _ q] wf unfolding redis_world_wf_def by blast
  have "issued (re_uuid (rw_env w)) (rq_fresh q') (qc_token c)"
    using wf pc(1) q takePending_Some(3) [of "rw_queue w" c]
    by (auto simp: redis_world_wf_def redis_wf_def redis_Complete_def split: option.splits)
  moreover have "poison_ids w' = poison_ids w"
    using w' pc(4) redis_config_fixed(6) [of "rw_queue w" c] q
    by (simp add: poison_ids_def redis_poison_def)
  ultimately show "redis_owner w (qc_token c) = Some (qc_task_id c) \<and> qc_token c \<in> redis_spent w'
      \<and> poison_ids w' = poison_ids w"
    using w' pc by (simp add: redis_owner_def redis_spent_def)
next
  fix w w' c p u
  assume wf: "redis_world_wf w" and ok: "qo_nack redis_ops w c p = (w', Inr u)"
  let ?uuid = "re_uuid (rw_env w)"
  obtain q' now perr where q: "redis_Nack ?uuid now perr (rw_queue w) c p = (q', Inr u)" and
    w': "rw_queue w' = q'" "rw_env w' = rw_env w"
    using ok by (auto simp: redis_ops_def in_world_def prod_eq_iff)
  have wf': "redis_wf ?uuid (rw_queue w)" using wf by (simp add: redis_world_wf_def)
  obtain pc where pc: "map_of (rq_pending (rw_queue w)) (qc_token c) = Some pc" "pc_task_id pc = qc_task_id c"
      "map_of (rq_pending q') (qc_token c) = None"
      "poison_ids w' = poison_ids w @ (if p then [qc_task_id c] else [])"
  proof (cases p)
    case True
    then have q1: "redis_Nack ?uuid now perr (rw_queue w) c True = (q', Inr u)" using q by simp
    show thesis
      using that redis_Nack_permanent_ok [OF wf' q1] w' True
      by (auto simp: poison_ids_def metadata_get_def)
  next
    case False
    have fresh: "qc_token c \<noteq> ?uuid (rq_fresh (rw_queue w))"
      if "map_of (rq_pending (rw_queue w)) (qc_token c) = Some pc" for pc :: pending_claim
      using fresh_not_pending [OF wf'] that by auto
    have q1: "redis_Nack ?uuid now perr (rw_queue w) c False = (q', Inr u)" using q False by simp
    show thesis
      using that redis_Nack_retry_ok [OF wf' q1] fresh False w' by (auto simp: poison_ids_def)
  qed
  have "issued ?uuid (rq_fresh (rw_queue w)) (qc_token c)"
    using wf' pc(1) by (auto simp: redis_wf_def)
  moreover have "rq_fresh (rw_queue w) \<le> rq_fresh q'"
    using redis_Nack_step [OF wf', of now perr c p] q by (auto elim: redis_stepE)
  ultimately have "issued ?uuid (rq_fresh q') (qc_token c)" by (rule issued_mono)
  then show "redis_owner w (qc_token c) = Some (qc_task_id c) \<and> qc_token c \<in> redis_spent w'
      \<and> poison_ids w' = poison_ids w @ (if p then [qc_task_id c] else [])"
    using w' pc by (simp add: redis_owner_def redis_spent_def)
qed

section \<open>Runs from a new queue\<close>

definition redis_start :: "redis_env \<Rightarrow> redis_queue \<Rightarrow> redis_world" where
  "redis_start env q = \<lparr>rw_env = env, rw_step = 0, rw_queue = q\<rparr>"

fun deliveries :: "queue_call list \<Rightarrow> redis_world \<Rightarrow> wire_message list" where
  "deliveries [] w = []"
| "deliveries (c # cs) w = world_delivers c w @ deliveries cs (exec_queue redis_ops c w)"

text \<open>The task a successful permanent Nack poisons: its id and the held message's payload.\<close>

definition poisons :: "queue_call \<Rightarrow> redis_world \<Rightarrow> task list" where
  "poisons c w =
     (case c of
        QNack cl p \<Rightarrow>
          if p \<and> is_ok (snd (qo_nack redis_ops w cl p))
          then (case map_of (rq_pending (rw_queue w)) (qc_token cl) of
                  Some pc \<Rightarrow> [\<lparr>tk_id = qc_task_id cl, tk_payload = wm_payload (pc_msg pc)\<rparr>]
                | None \<Rightarrow> [])
          else []
      | _ \<Rightarrow> [])"

fun poisoned_by :: "queue_call list \<Rightarrow> redis_world \<Rightarrow> task list" where
  "poisoned_by [] w = []"
| "poisoned_by (c # cs) w = poisons c w @ poisoned_by cs (exec_queue redis_ops c w)"

lemma redis_new_empty:
  assumes "redis_NewQueue cfg = Inr q"
  shows "rq_pending q = []" "rq_acked q = []" "rq_published q = []" "rq_fresh q = 0"
    "rq_stream q \<noteq> rq_poison_stream q" "rq_claim_after q = rc_ClaimAfter cfg" "0 < rc_ClaimAfter cfg"
  using assms
  by (auto simp: redis_NewQueue_def redis_setDefaults_def redis_Validate_def poisonStreamName_def Let_def
      split: option.splits if_splits)

lemma redis_start_wf:
  "inj (re_uuid env) \<Longrightarrow> redis_NewQueue cfg = Inr q \<Longrightarrow> redis_world_wf (redis_start env q)"
  by (simp add: redis_world_wf_def redis_start_def redis_wf_def redis_new_empty)

lemma run_conserves:
  "redis_world_wf w \<Longrightarrow>
   held_messages (rw_queue (run_queue redis_ops cs w)) + mset (rq_acked (rw_queue (run_queue redis_ops cs w))) =
   held_messages (rw_queue w) + mset (rq_acked (rw_queue w)) + mset (deliveries cs w)"
proof (induction cs arbitrary: w)
  case Nil
  then show ?case by simp
next
  case (Cons c cs)
  show ?case
    using Cons.IH [OF world_wf_step [OF Cons.prems]] Cons.prems
      redis_step_conserves [OF _ world_step [OF Cons.prems, of c]]
    by (simp add: redis_world_wf_def)
qed

definition as_task :: "wire_message \<Rightarrow> task" where
  "as_task m = \<lparr>tk_id = metadata_get m taskIDMetadataKey, tk_payload = wm_payload m\<rparr>"

lemma poison_tasks_loop_all: "poison_tasks_loop (map Inr ms) acc = Inr (acc @ map as_task ms)"
  by (induction ms arbitrary: acc) (simp_all add: as_task_def)

lemma poison_unchanged:
  "redis_poison (fst (redis_Claim uuid rank now ev q)) = redis_poison q"
  "redis_poison (fst (redis_Complete q c)) = redis_poison q"
  "rq_stream q \<noteq> rq_poison_stream q \<Longrightarrow> redis_poison (fst (redis_Enqueue uuid perr q t)) = redis_poison q"
  by (auto simp: redis_poison_def redis_Claim_def reclaimExpired_def trackNewClaim_def redis_Complete_def
      takePending_def redis_Enqueue_def redis_publish_def Let_def
      split: option.splits prod.splits if_splits poll_event.splits)

lemma poison_unchanged_nack:
  assumes "\<not> p \<or> \<not> is_ok (snd (redis_Nack uuid now perr q c p))"
  shows "redis_poison (fst (redis_Nack uuid now perr q c p)) = redis_poison q"
  using assms
  by (auto simp: redis_Nack_def takePending_def publishPoison_def redis_publish_def redis_poison_def Let_def
      split: option.splits)

lemma poison_call:
  assumes "redis_world_wf w"
  shows "map as_task (redis_poison (rw_queue (exec_queue redis_ops c w))) =
    map as_task (redis_poison (rw_queue w)) @ poisons c w"
proof (cases c)
  case (QNack cl p)
  let ?N = "redis_Nack (re_uuid (rw_env w)) (re_now (rw_env w) (rw_step w)) (re_publish (rw_env w) (rw_step w))
    (rw_queue w) cl p"
  show ?thesis
  proof (cases "p \<and> is_ok (snd ?N)")
    case True
    then obtain q' u where "?N = (q', Inr u)"
      by (cases ?N; cases "snd ?N") auto
    then show ?thesis
      using redis_Nack_permanent_ok [of _ "rw_queue w"] assms True QNack
      by (fastforce simp: redis_world_wf_def redis_ops_def poisons_def as_task_def metadata_get_def)
  next
    case False
    then show ?thesis
      using QNack poison_unchanged_nack [of p] by (auto simp: redis_ops_def poisons_def)
  qed
qed (use assms in \<open>simp_all add: redis_ops_def poisons_def poison_unchanged redis_world_wf_def redis_wf_def\<close>)

lemma poison_run:
  "redis_world_wf w \<Longrightarrow>
   map as_task (redis_poison (rw_queue (run_queue redis_ops cs w))) =
   map as_task (redis_poison (rw_queue w)) @ poisoned_by cs w"
  by (induction cs arbitrary: w) (simp_all add: poison_call world_wf_step)

lemma reclaim_when_available:
  assumes "redis_wf uuid q" "(k, pc) \<in> set (rq_pending q)" "reclaimable q now pc"
  obtains k' pc' where "find (\<lambda>(token, pc). reclaimable q now pc) (sort_key (rank \<circ> fst) (rq_pending q)) = Some (k', pc')"
proof -
  have "find (\<lambda>(token, pc). reclaimable q now pc) (sort_key (rank \<circ> fst) (rq_pending q)) \<noteq> None"
    using assms(2,3) by (auto simp: find_None_iff)
  then show thesis using that by auto
qed

section \<open>Properties\<close>

text \<open>A claim settles at most once: in every run of the Redis adapter from a new queue,
  once Complete or Nack has succeeded for a claim, every later Complete and Nack with it
  fails, whatever is called in between and whatever the broker, the clock and the map
  order do.\<close>

theorem redis_claim_settles_once:
  assumes "inj (re_uuid env)" "redis_NewQueue cfg = Inr q0"
    and "w = run_queue redis_ops cs (redis_start env q0)"
    and "qo_complete redis_ops w c = (w', Inr u) \<or> qo_nack redis_ops w c p = (w', Inr u)"
  shows "\<not> is_ok (snd (qo_complete redis_ops (run_queue redis_ops ds w') c))
    \<and> \<not> is_ok (snd (qo_nack redis_ops (run_queue redis_ops ds w') c p'))"
  unfolding assms(3)
  by (rule redis.settled_once [OF redis.qwf_run [OF redis_start_wf [OF assms(1,2)]] assms(4) [unfolded assms(3)]])

text \<open>No message is lost or acknowledged twice: in every run, the messages the broker
  delivered are, counted with multiplicity, those still held pending and those
  acknowledged.\<close>

theorem redis_conserves_messages:
  assumes "inj (re_uuid env)" "redis_NewQueue cfg = Inr q0"
    and "w = run_queue redis_ops cs (redis_start env q0)"
  shows "mset (map (pc_msg \<circ> snd) (rq_pending (rw_queue w))) + mset (rq_acked (rw_queue w)) =
    mset (deliveries cs (redis_start env q0))"
  using run_conserves [OF redis_start_wf [OF assms(1,2)], of cs] assms(3) redis_new_empty [OF assms(2)]
  by (simp add: held_messages_def redis_start_def)

text \<open>The poison stream is the record of permanent failures: in every run, PoisonTasks on
  what was published there returns exactly the tasks of the successful permanent Nacks, id
  and payload, in their order.\<close>

theorem redis_poison_is_permanent_failures:
  assumes "inj (re_uuid env)" "redis_NewQueue cfg = Inr q0"
    and "w = run_queue redis_ops cs (redis_start env q0)"
  shows "redis_PoisonTasks (Inr (map Inr (redis_poison (rw_queue w)))) =
    Inr (poisoned_by cs (redis_start env q0))"
proof -
  have "redis_poison (rw_queue (redis_start env q0)) = []"
    by (simp add: redis_start_def redis_poison_def redis_new_empty(3) [OF assms(2)])
  then have "map as_task (redis_poison (rw_queue w)) = poisoned_by cs (redis_start env q0)"
    using poison_run [OF redis_start_wf [OF assms(1,2)], of cs] assms(3) by simp
  then show ?thesis
    by (simp add: redis_PoisonTasks_def poison_tasks_loop_all)
qed

text \<open>A nacked or expired claim is handed out before any new message: if some pending
  entry is marked ready or has been held for ClaimAfter, Claim answers at once, leaves the
  broker's message alone, and returns such an entry's task, with the attempt the Nack set,
  or, for an expired one, the next attempt under a token that replaces the old one, which
  from then on is rejected.\<close>

theorem redis_claim_prefers_reclaim:
  assumes "redis_wf uuid q" "map_of (rq_pending q) k0 = Some pc0" "reclaimable q now pc0"
  shows "\<exists>q' c k pc. redis_Claim uuid rank now ev q = (q', Inr (Some c))
    \<and> claim_delivers uuid rank now ev q = []
    \<and> map_of (rq_pending q) k = Some pc \<and> reclaimable q now pc \<and> qc_task_id c = pc_task_id pc
    \<and> (if pc_ready pc then qc_attempt c = pc_attempt pc \<and> qc_token c = k
       else qc_attempt c = pc_attempt pc + 1 \<and> qc_token c \<noteq> k
            \<and> redis_Complete q' (claim_of pc) = (q', Inl (StaleClaim (pc_task_id pc)))
            \<and> redis_Nack uuid t perr q' (claim_of pc) p = (q', Inl (StaleClaim (pc_task_id pc))))"
proof -
  obtain k pc where f: "find (\<lambda>(token, pc). reclaimable q now pc) (sort_key (rank \<circ> fst) (rq_pending q)) = Some (k, pc)"
    by (rule reclaim_when_available [OF assms(1) _ assms(3)]) (use assms in \<open>auto simp: redis_wf_def\<close>)
  note found = reclaim_found [OF assms(1) f]
  have "k \<noteq> uuid (rq_fresh q)"
    using fresh_not_pending [OF assms(1)] found(1) by auto
  then have "\<exists>q' c. redis_Claim uuid rank now ev q = (q', Inr (Some c))
    \<and> claim_delivers uuid rank now ev q = [] \<and> qc_task_id c = pc_task_id pc
    \<and> (if pc_ready pc then qc_attempt c = pc_attempt pc \<and> qc_token c = k
       else qc_attempt c = pc_attempt pc + 1 \<and> qc_token c \<noteq> k
            \<and> redis_Complete q' (claim_of pc) = (q', Inl (StaleClaim (pc_task_id pc)))
            \<and> redis_Nack uuid t perr q' (claim_of pc) p = (q', Inl (StaleClaim (pc_task_id pc))))"
    using f found
    by (auto simp: redis_Claim_def claim_delivers_def reclaimExpired_def claim_of_def redis_Complete_def
        redis_Nack_def takePending_def Let_def)
  then show ?thesis using found(1,2) by blast
qed

section \<open>Witnesses\<close>

definition demo_message :: wire_message where
  "demo_message = \<lparr>wm_uuid = ''m'', wm_metadata = [(''task_id'', ''j'')], wm_payload = ''p''\<rparr>"

definition demo_env :: redis_env where
  "demo_env = \<lparr>re_uuid = (\<lambda>n. replicate n (CHR ''u'')), re_now = (\<lambda>n. int n * 10),
     re_rank = (\<lambda>n t. 0), re_poll = (\<lambda>n. PollMessage demo_message (int n * 10)), re_publish = (\<lambda>n. None)\<rparr>"

definition demo_config :: redis_config where
  "demo_config = \<lparr>rc_Address = ''a'', rc_Password = [], rc_DB = 0, rc_Stream = ''s'', rc_ConsumerGroup = ''g'',
     rc_Consumer = [], rc_ClaimAfter = 5, rc_DialTimeout = 0\<rparr>"

definition demo_queue :: redis_queue where
  "demo_queue = \<lparr>rq_stream = ''s'', rq_poison_stream = ''s-poison'', rq_claim_after = 5, rq_pending = [],
     rq_fresh = 0, rq_published = [], rq_acked = []\<rparr>"

lemma demo_uuid_inj: "inj (re_uuid demo_env)"
proof (rule injI)
  fix m n
  assume "re_uuid demo_env m = re_uuid demo_env n"
  then have "length (re_uuid demo_env m) = length (re_uuid demo_env n)" by simp
  then show "m = n" by (simp add: demo_env_def)
qed

lemma demo_new: "redis_NewQueue demo_config = Inr demo_queue"
  by (simp add: redis_NewQueue_def demo_config_def demo_queue_def redis_setDefaults_def redis_Validate_def
      poisonStreamName_def)

lemmas redis_demo_defs = redis_start_def demo_env_def demo_queue_def demo_message_def redis_ops_def
  in_world_def redis_Claim_def reclaimExpired_def trackNewClaim_def Let_def metadata_get_def
  taskIDMetadataKey_def claim_of_def redis_Complete_def takePending_def redis_Nack_def publishPoison_def
  redis_publish_def

definition demo_claim :: queue_claim where
  "demo_claim = \<lparr>qc_task_id = ''j'', qc_attempt = 0, qc_token = []\<rparr>"

lemma redis_claim_settles_once_witness:
  "\<exists>w'. qo_complete redis_ops (run_queue redis_ops [QClaim] (redis_start demo_env demo_queue)) demo_claim = (w', Inr ())
    \<and> \<not> is_ok (snd (qo_complete redis_ops (run_queue redis_ops [QClaim] w') demo_claim))"
proof -
  obtain w' where w': "qo_complete redis_ops (run_queue redis_ops [QClaim] (redis_start demo_env demo_queue)) demo_claim
      = (w', Inr ())"
    by (simp add: redis_demo_defs demo_claim_def)
  then show ?thesis
    using redis_claim_settles_once [OF demo_uuid_inj demo_new refl disjI1 [OF w'], of "[QClaim]"] by blast
qed

lemma redis_conserves_messages_witness:
  "mset (map (pc_msg \<circ> snd) (rq_pending (rw_queue (run_queue redis_ops [QClaim] (redis_start demo_env demo_queue)))))
     + mset (rq_acked (rw_queue (run_queue redis_ops [QClaim] (redis_start demo_env demo_queue)))) = {#demo_message#}"
  using redis_conserves_messages [OF demo_uuid_inj demo_new refl, of "[QClaim]"]
  by (simp add: world_delivers_def claim_delivers_def redis_demo_defs)

lemma redis_poison_is_permanent_failures_witness:
  "redis_PoisonTasks (Inr (map Inr (redis_poison
      (rw_queue (run_queue redis_ops [QClaim, QNack demo_claim True] (redis_start demo_env demo_queue)))))) =
   Inr [\<lparr>tk_id = ''j'', tk_payload = ''p''\<rparr>]"
  using redis_poison_is_permanent_failures [OF demo_uuid_inj demo_new refl, of "[QClaim, QNack demo_claim True]"]
  by (simp add: poisons_def redis_demo_defs demo_claim_def)

lemma redis_claim_prefers_reclaim_witness:
  "\<exists>q' c. redis_Claim (re_uuid demo_env) (\<lambda>_. 0) 10 PollTimeout
     (rw_queue (run_queue redis_ops [QClaim] (redis_start demo_env demo_queue))) = (q', Inr (Some c))
     \<and> qc_attempt c = 1 \<and> redis_Complete q' demo_claim = (q', Inl (StaleClaim ''j''))"
proof -
  let ?q = "rw_queue (run_queue redis_ops [QClaim] (redis_start demo_env demo_queue))"
  let ?pc = "\<lparr>pc_task_id = ''j'', pc_attempt = 0, pc_token = [], pc_claimed_at = 0, pc_ready = False,
    pc_msg = demo_message\<rparr>"
  have p: "rq_pending ?q = [([], ?pc)]" and ca: "rq_claim_after ?q = 5"
    by (simp_all add: redis_demo_defs)
  have wf: "redis_wf (re_uuid demo_env) ?q"
    using redis.qwf_run [OF redis_start_wf [OF demo_uuid_inj demo_new], of "[QClaim]"]
    by (simp add: redis_world_wf_def redis_start_def del: run_queue.simps)
      (simp add: redis_demo_defs)
  have r: "reclaimable ?q 10 ?pc"
    using ca by (simp add: reclaimable_def time_sub_def max_duration_def min_duration_def)
  show ?thesis
    using redis_claim_prefers_reclaim [OF wf _ r, of "[]" "\<lambda>_. 0" PollTimeout 0 None False] p
    by (auto simp: claim_of_def demo_claim_def split: if_splits)
qed

end
