(* ===== verification/SqsQueue.thy ===== *)
theory SqsQueue
  imports TaskQueue
begin

text \<open>
  The SQS adapter (internal/coachapi/queue/sqs).  The AWS client is outside the
  repository: every answer it gives (errors, received messages) is an argument.  The
  Queue's own state is the in-flight map keyed by receipt handle; messages sent and
  deleted and visibility resets are kept as lists, in order.

  The message body is JSON with a base64 payload; base64 is modelled byte for byte, a
  body is represented by its parsed document.  A range over the in-flight map visits it
  in the order an argument \<open>rank\<close> gives.
\<close>

section \<open>Base64\<close>

definition b64_char :: "nat \<Rightarrow> char" where
  "b64_char n = char_of (if n < 26 then 65 + n else if n < 52 then 71 + n
                         else if n < 62 then n - 4 else if n = 62 then 43 else (47 :: nat))"

definition b64_index :: "char \<Rightarrow> nat option" where
  "b64_index ch = (let n = of_char ch in
     if 65 \<le> n \<and> n \<le> 90 then Some (n - 65)
     else if 97 \<le> n \<and> n \<le> 122 then Some (n - 71)
     else if 48 \<le> n \<and> n \<le> 57 then Some (n + 4)
     else if n = 43 then Some 62
     else if n = (47 :: nat) then Some 63
     else None)"

definition b64_pad :: char where
  "b64_pad = CHR ''=''"

definition b64_group :: "nat \<Rightarrow> nat \<Rightarrow> nat \<Rightarrow> nat list" where
  "b64_group a b c = (let n = a * 65536 + b * 256 + c in
     [n div 262144, n div 4096 mod 64, n div 64 mod 64, n mod 64])"

fun base64_encode :: "string \<Rightarrow> string" where
  "base64_encode [] = []"
| "base64_encode [a] = map b64_char (take 2 (b64_group (of_char a) 0 0)) @ [b64_pad, b64_pad]"
| "base64_encode [a, b] = map b64_char (take 3 (b64_group (of_char a) (of_char b) 0)) @ [b64_pad]"
| "base64_encode (a # b # c # rest) =
     map b64_char (b64_group (of_char a) (of_char b) (of_char c)) @ base64_encode rest"

definition b64_bytes :: "nat \<Rightarrow> nat \<Rightarrow> nat \<Rightarrow> nat \<Rightarrow> string" where
  "b64_bytes w x y z = (let n = w * 262144 + x * 4096 + y * 64 + z in
     [char_of (n div 65536), char_of (n div 256 mod 256), char_of (n mod 256)])"

text \<open>The decoder skips line breaks anywhere and accepts padding only in the last group.\<close>

fun b64_quanta :: "string \<Rightarrow> string option" where
  "b64_quanta [] = Some []"
| "b64_quanta (a # b # c # d # rest) =
     (if d = b64_pad
      then (if rest \<noteq> [] then None
            else if c = b64_pad
            then (case (b64_index a, b64_index b) of
                    (Some w, Some x) \<Rightarrow> Some (take 1 (b64_bytes w x 0 0))
                  | _ \<Rightarrow> None)
            else (case (b64_index a, b64_index b, b64_index c) of
                    (Some w, Some x, Some y) \<Rightarrow> Some (take 2 (b64_bytes w x y 0))
                  | _ \<Rightarrow> None))
      else (case (b64_index a, b64_index b, b64_index c, b64_index d, b64_quanta rest) of
              (Some w, Some x, Some y, Some z, Some out) \<Rightarrow> Some (b64_bytes w x y z @ out)
            | _ \<Rightarrow> None))"
| "b64_quanta _ = None"

definition base64_decode :: "string \<Rightarrow> string option" where
  "base64_decode s = b64_quanta (filter (\<lambda>ch. ch \<noteq> CHR 0x0A \<and> ch \<noteq> CHR 0x0D) s)"

lemma b64_index_char [simp]: "n < 64 \<Longrightarrow> b64_index (b64_char n) = Some n"
  by (auto simp: b64_index_def b64_char_def Let_def)

lemma b64_char_plain [simp]:
  assumes "n < 64"
  shows "b64_char n \<noteq> CHR 0x0A" "b64_char n \<noteq> CHR 0x0D" "b64_char n \<noteq> b64_pad"
proof -
  have "of_char (b64_char n) \<noteq> (10 :: nat) \<and> of_char (b64_char n) \<noteq> (13 :: nat) \<and> of_char (b64_char n) \<noteq> (61 :: nat)"
    using assms by (auto simp: b64_char_def)
  then show "b64_char n \<noteq> CHR 0x0A" "b64_char n \<noteq> CHR 0x0D" "b64_char n \<noteq> b64_pad"
    by (auto simp: b64_pad_def)
qed

lemma byte_bound: "of_char (ch :: char) < (256 :: nat)"
  using of_char_mod_256 [where 'a = nat, of ch] by (metis mod_less_divisor zero_less_numeral)

lemma digits64:
  "(n div 64 div 64 div 64) * 262144 + (n div 64 div 64 mod 64) * 4096 + (n div 64 mod 64) * 64 + n mod 64 = (n :: nat)"
  using mult_div_mod_eq [of 64 n] mult_div_mod_eq [of 64 "n div 64"] mult_div_mod_eq [of 64 "n div 64 div 64"]
  by linarith

lemma byte_digits:
  assumes "b < 256" "c < (256 :: nat)"
  shows "(a * 65536 + b * 256 + c) div 65536 = a" "(a * 65536 + b * 256 + c) div 256 mod 256 = b"
    "(a * 65536 + b * 256 + c) mod 256 = c"
proof -
  have n: "a * 65536 + b * 256 + c = c + (a * 256 + b) * 256" by simp
  have d: "(a * 65536 + b * 256 + c) div 256 = a * 256 + b"
    unfolding n using assms(2) by simp
  show "(a * 65536 + b * 256 + c) mod 256 = c" unfolding n mod_mult_self1 using assms(2) by simp
  show "(a * 65536 + b * 256 + c) div 256 mod 256 = b" unfolding d using assms(1) by simp
  have "(a * 65536 + b * 256 + c) div 65536 = (a * 65536 + b * 256 + c) div 256 div 256"
    by (simp only: div_mult2_eq [symmetric]) simp
  then show "(a * 65536 + b * 256 + c) div 65536 = a" unfolding d using assms(1) by simp
qed

lemma group_bytes:
  assumes "a < 256" "b < 256" "c < 256" "b64_group a b c = [w, x, y, z]"
  shows "w < 64" "x < 64" "y < 64" "z < 64"
    "b64_bytes w x y z = [char_of a, char_of b, char_of c]"
proof -
  let ?n = "a * 65536 + b * 256 + c"
  have w: "w = ?n div 262144" and x: "x = ?n div 4096 mod 64" and y: "y = ?n div 64 mod 64" and z: "z = ?n mod 64"
    using assms(4) by (simp_all add: b64_group_def Let_def)
  have n: "?n < 16777216" using assms by simp
  show "w < 64" "x < 64" "y < 64" "z < 64" using n w x y z by simp_all
  have "w * 262144 + x * 4096 + y * 64 + z = ?n"
    unfolding w x y z using digits64 [of ?n]
    by (simp only: div_mult2_eq [symmetric]) simp
  then show "b64_bytes w x y z = [char_of a, char_of b, char_of c]"
    using byte_digits [OF assms(2,3), of a] by (simp add: b64_bytes_def Let_def)
qed

lemma group_list: "b64_group a b c =
  [(a * 65536 + b * 256 + c) div 262144, (a * 65536 + b * 256 + c) div 4096 mod 64,
   (a * 65536 + b * 256 + c) div 64 mod 64, (a * 65536 + b * 256 + c) mod 64]"
  by (simp add: b64_group_def Let_def)

lemma group_zero:
  "b64_group a b 0 ! 3 = 0" "b64_group a 0 0 ! 2 = 0"
  by (simp_all add: group_list)

lemma b64_quanta_group:
  assumes "b64_group (of_char a) (of_char b) (of_char c) = ds"
  shows "b64_quanta (map b64_char ds @ rest) = map_option (\<lambda>out. a # b # c # out) (b64_quanta rest)"
proof -
  obtain w x y z where ds: "ds = [w, x, y, z]"
    using assms [symmetric] that by (simp add: group_list)
  note g = group_bytes [OF byte_bound [of a] byte_bound [of b] byte_bound [of c], of w x y z]
  have "b64_group (of_char a) (of_char b) (of_char c) = [w, x, y, z]" using assms ds by simp
  from g [OF this] show ?thesis
    by (simp add: ds split: option.splits)
qed

lemma b64_plain: "set (base64_encode s) \<inter> {CHR 0x0A, CHR 0x0D} = {}"
proof (induction s rule: base64_encode.induct)
  case (4 a b c rest)
  obtain w x y z where "b64_group (of_char a) (of_char b) (of_char c) = [w, x, y, z]"
    by (simp add: group_list)
  with group_bytes [OF byte_bound [of a] byte_bound [of b] byte_bound [of c] this] 4
  show ?case by auto
next
  case (2 a)
  obtain w x y z where "b64_group (of_char a) 0 0 = [w, x, y, z]"
    by (simp add: group_list)
  with group_bytes [OF byte_bound [of a] _ _ this] show ?case by (auto simp: b64_pad_def)
next
  case (3 a b)
  obtain w x y z where "b64_group (of_char a) (of_char b) 0 = [w, x, y, z]"
    by (simp add: group_list)
  with group_bytes [OF byte_bound [of a] byte_bound [of b] _ this] show ?case by (auto simp: b64_pad_def)
qed simp

lemma b64_quanta_encode: "b64_quanta (base64_encode s) = Some s"
proof (induction s rule: base64_encode.induct)
  case 1
  then show ?case by simp
next
  case (2 a)
  obtain w x y z where g: "b64_group (of_char a) 0 0 = [w, x, y, z]"
    by (simp add: group_list)
  moreover have "y = 0" "z = 0"
    using g group_zero(1) [of "of_char a" 0] group_zero(2) [of "of_char a"] by simp_all
  ultimately show ?case
    using group_bytes [OF byte_bound [of a] _ _ g] by simp
next
  case (3 a b)
  obtain w x y z where g: "b64_group (of_char a) (of_char b) 0 = [w, x, y, z]"
    by (simp add: group_list)
  moreover have "z = 0"
    using g group_zero(1) [of "of_char a" "of_char b"] by simp
  ultimately show ?case
    using group_bytes [OF byte_bound [of a] byte_bound [of b] _ g] by simp
next
  case (4 a b c rest)
  then show ?case by (simp add: b64_quanta_group)
qed

lemma base64_roundtrip [simp]: "base64_decode (base64_encode s) = Some s"
proof -
  have "filter (\<lambda>ch. ch \<noteq> CHR 0x0A \<and> ch \<noteq> CHR 0x0D) (base64_encode s) = base64_encode s"
    using b64_plain [of s] by (auto simp: filter_id_conv)
  then show ?thesis by (simp add: base64_decode_def b64_quanta_encode)
qed

section \<open>Message bodies\<close>

record wire_task =
  wt_id :: string
  wt_payload :: string

definition marshal_wire :: "wire_task \<Rightarrow> raw_message" where
  "marshal_wire wt =
     RawJson (JObj [(''id'', JStr (wt_id wt)), (''payload'', JStr (base64_encode (wt_payload wt)))])"

text \<open>
  json.Unmarshal into wireTask.  A string fills \<open>ID\<close>; \<open>Payload\<close> takes a base64 string, null,
  or an array of byte values.  Any other value of a matching key is a decoding error.
\<close>

fun json_byte :: "json \<Rightarrow> char option" where
  "json_byte JNull = Some (char_of (0 :: nat))"
| "json_byte (JNum r) =
     (if \<lfloor>r\<rfloor> = \<lceil>r\<rceil> \<and> 0 \<le> r \<and> r < 256 then Some (char_of (nat \<lfloor>r\<rfloor>)) else None)"
| "json_byte _ = None"

fun json_bytes :: "json list \<Rightarrow> string option" where
  "json_bytes [] = Some []"
| "json_bytes (j # js) =
     (case (json_byte j, json_bytes js) of (Some ch, Some s) \<Rightarrow> Some (ch # s) | _ \<Rightarrow> None)"

fun unmarshal_wire_members :: "(string \<times> json) list \<Rightarrow> wire_task \<Rightarrow> wire_task option" where
  "unmarshal_wire_members [] wt = Some wt"
| "unmarshal_wire_members ((k, v) # ms) wt =
     (if fold_name k = ''id''
      then (case v of JStr s \<Rightarrow> unmarshal_wire_members ms (wt\<lparr>wt_id := s\<rparr>)
            | JNull \<Rightarrow> unmarshal_wire_members ms wt
            | _ \<Rightarrow> None)
      else if fold_name k = ''payload''
      then (case v of
              JStr s \<Rightarrow> (case base64_decode s of
                          Some p \<Rightarrow> unmarshal_wire_members ms (wt\<lparr>wt_payload := p\<rparr>)
                        | None \<Rightarrow> None)
            | JNull \<Rightarrow> unmarshal_wire_members ms (wt\<lparr>wt_payload := []\<rparr>)
            | JArr js \<Rightarrow> (case json_bytes js of
                            Some p \<Rightarrow> unmarshal_wire_members ms (wt\<lparr>wt_payload := p\<rparr>)
                          | None \<Rightarrow> None)
            | _ \<Rightarrow> None)
      else unmarshal_wire_members ms wt)"

definition unmarshal_wire :: "raw_message \<Rightarrow> wire_task option" where
  "unmarshal_wire body =
     (case body of
        RawJson (JObj ms) \<Rightarrow> unmarshal_wire_members ms \<lparr>wt_id = [], wt_payload = []\<rparr>
      | RawJson JNull \<Rightarrow> Some \<lparr>wt_id = [], wt_payload = []\<rparr>
      | _ \<Rightarrow> None)"

section \<open>Configuration\<close>

record sqs_config =
  sc_Region :: string
  sc_QueueURL :: string
  sc_VisibilityTimeout :: duration
  sc_Endpoint :: string
  sc_has_Credentials :: bool
  sc_PoisonQueueURL :: string
  sc_HTTPTimeout :: duration

definition defaultHTTPTimeout :: duration where
  "defaultHTTPTimeout = 10 * second"

datatype sqs_config_error =
    RegionRequired | QueueURLRequired | VisibilityTooShort | VisibilityNotWholeSeconds | CredentialsRequired

definition sqs_Validate :: "sqs_config \<Rightarrow> sqs_config_error option" where
  "sqs_Validate cfg =
     (if blank_string (sc_Region cfg) then Some RegionRequired
      else if blank_string (sc_QueueURL cfg) then Some QueueURLRequired
      else if sc_VisibilityTimeout cfg < second then Some VisibilityTooShort
      else if sc_VisibilityTimeout cfg mod second \<noteq> 0 then Some VisibilityNotWholeSeconds
      else if \<not> sc_has_Credentials cfg then Some CredentialsRequired
      else None)"

definition httpTimeout :: "sqs_config \<Rightarrow> duration" where
  "httpTimeout cfg = (if sc_HTTPTimeout cfg > 0 then sc_HTTPTimeout cfg else defaultHTTPTimeout)"

definition poisonQueueName :: "string \<Rightarrow> string" where
  "poisonQueueName main = main @ ''-poison''"

definition queueNameFromURL :: "string \<Rightarrow> string" where
  "queueNameFromURL url =
     (let trimmed = rev (dropWhile (\<lambda>ch. ch = CHR ''/'') (rev url)) in
      if CHR ''/'' \<notin> set trimmed then trimmed
      else rev (takeWhile (\<lambda>ch. ch \<noteq> CHR ''/'') (rev trimmed)))"

section \<open>State\<close>

datatype aws_error = AwsError string string

definition isReceiptHandleInvalid :: "aws_error \<Rightarrow> bool" where
  "isReceiptHandleInvalid e = (case e of AwsError code msg \<Rightarrow> code = ''ReceiptHandleIsInvalid'')"

record inflight_claim =
  ic_task_id :: string
  ic_receipt :: string
  ic_payload :: string
  ic_attempt :: int
  ic_deadline :: time

record sqs_queue =
  sq_url :: string
  sq_poison_url :: string
  sq_visibility :: duration
  sq_inflight :: "(string \<times> inflight_claim) list"
  sq_sent :: "(string \<times> raw_message) list"
  sq_deleted :: "string list"
  sq_reset :: "string list"

text \<open>\<open>created\<close> is the client's answer to CreateQueue, asked for only without a configured poison queue.\<close>

definition sqs_NewQueue :: "(string \<Rightarrow> string + string) \<Rightarrow> sqs_config \<Rightarrow> (sqs_config_error + string) + sqs_queue" where
  "sqs_NewQueue created cfg =
     (case sqs_Validate cfg of
        Some e \<Rightarrow> Inl (Inl e)
      | None \<Rightarrow>
          let q = \<lparr>sq_url = sc_QueueURL cfg, sq_poison_url = sc_PoisonQueueURL cfg,
                   sq_visibility = sc_VisibilityTimeout cfg, sq_inflight = [], sq_sent = [],
                   sq_deleted = [], sq_reset = []\<rparr>
          in if sq_poison_url q = []
             then (case created (poisonQueueName (queueNameFromURL (sc_QueueURL cfg))) of
                     Inl e \<Rightarrow> Inl (Inr e)
                   | Inr url \<Rightarrow> Inr (q\<lparr>sq_poison_url := url\<rparr>))
             else Inr q)"

definition sqs_fail :: "aws_error \<Rightarrow> queue_error" where
  "sqs_fail e = (case e of AwsError code msg \<Rightarrow> QueueFailure msg)"

section \<open>Operations\<close>

definition sqs_Enqueue :: "aws_error option \<Rightarrow> sqs_queue \<Rightarrow> task \<Rightarrow> (sqs_queue, queue_error, unit) outcome" where
  "sqs_Enqueue send q t =
     (let body = marshal_wire \<lparr>wt_id = tk_id t, wt_payload = tk_payload t\<rparr> in
      case send of
        Some e \<Rightarrow> (q, Inl (sqs_fail e))
      | None \<Rightarrow> (q\<lparr>sq_sent := sq_sent q @ [(sq_url q, body)]\<rparr>, Inr ()))"

text \<open>Reaping: reset the visibility of every expired entry of the snapshot, then forget it.\<close>

fun reap_loop :: "(string \<Rightarrow> aws_error option) \<Rightarrow> (string \<times> inflight_claim) list \<Rightarrow> sqs_queue \<Rightarrow> (sqs_queue, queue_error, unit) outcome" where
  "reap_loop change [] q = (q, Inr ())"
| "reap_loop change ((token, c) # rest) q =
     (case change (ic_receipt c) of
        Some e \<Rightarrow>
          if \<not> isReceiptHandleInvalid e then (q, Inl (sqs_fail e))
          else reap_loop change rest (q\<lparr>sq_inflight := AList.delete token (sq_inflight q)\<rparr>)
      | None \<Rightarrow>
          reap_loop change rest
            (q\<lparr>sq_reset := sq_reset q @ [ic_receipt c],
               sq_inflight := AList.delete token (sq_inflight q)\<rparr>))"

definition reapExpired ::
  "(string \<Rightarrow> nat) \<Rightarrow> time \<Rightarrow> (string \<Rightarrow> aws_error option) \<Rightarrow> sqs_queue \<Rightarrow> (sqs_queue, queue_error, unit) outcome" where
  "reapExpired rank now change q =
     reap_loop change
       (filter (\<lambda>(token, c). \<not> now < ic_deadline c) (sort_key (rank \<circ> fst) (sq_inflight q))) q"

record sqs_message =
  sm_id :: string
  sm_receipt :: string
  sm_body :: raw_message
  sm_receive_count :: "string option"

definition receive_attempt :: "string option \<Rightarrow> int" where
  "receive_attempt raw =
     (case raw of
        None \<Rightarrow> 0
      | Some s \<Rightarrow> (case atoi s of Some n \<Rightarrow> if n > 1 then n - 1 else 0 | None \<Rightarrow> 0))"

definition sqs_Claim ::
  "(string \<Rightarrow> nat) \<Rightarrow> time \<Rightarrow> (string \<Rightarrow> aws_error option) \<Rightarrow> aws_error + sqs_message list \<Rightarrow> time
   \<Rightarrow> sqs_queue \<Rightarrow> (sqs_queue, queue_error, queue_claim option) outcome" where
  "sqs_Claim rank now change received now2 q =
     (case reapExpired rank now change q of
        (q1, Inl e) \<Rightarrow> (q1, Inl e)
      | (q1, Inr _) \<Rightarrow>
          (case received of
             Inl e \<Rightarrow> (q1, Inl (sqs_fail e))
           | Inr [] \<Rightarrow> (q1, Inr None)
           | Inr (msg # _) \<Rightarrow>
               (case unmarshal_wire (sm_body msg) of
                  None \<Rightarrow> (q1, Inl (QueueFailure ''sqs: decoding received message body''))
                | Some wt \<Rightarrow>
                    let attempt = receive_attempt (sm_receive_count msg);
                        token = sm_receipt msg
                    in (q1\<lparr>sq_inflight := AList.update token
                             \<lparr>ic_task_id = wt_id wt, ic_receipt = token, ic_payload = wt_payload wt,
                              ic_attempt = attempt, ic_deadline = time_add now2 (sq_visibility q1)\<rparr>
                             (sq_inflight q1)\<rparr>,
                        Inr (Some \<lparr>qc_task_id = wt_id wt, qc_attempt = attempt, qc_token = token\<rparr>)))))"

definition sqs_Complete :: "aws_error option \<Rightarrow> sqs_queue \<Rightarrow> queue_claim \<Rightarrow> (sqs_queue, queue_error, unit) outcome" where
  "sqs_Complete del q c =
     (case map_of (sq_inflight q) (qc_token c) of
        None \<Rightarrow> (q, Inl (StaleClaim (qc_task_id c)))
      | Some entry \<Rightarrow>
          if ic_task_id entry \<noteq> qc_task_id c then (q, Inl (StaleClaim (qc_task_id c)))
          else (case del of
                  Some e \<Rightarrow> (q, Inl (sqs_fail e))
                | None \<Rightarrow> (q\<lparr>sq_deleted := sq_deleted q @ [qc_token c],
                            sq_inflight := AList.delete (qc_token c) (sq_inflight q)\<rparr>, Inr ())))"

definition sqs_Nack ::
  "aws_error option \<Rightarrow> aws_error option \<Rightarrow> aws_error option \<Rightarrow> sqs_queue \<Rightarrow> queue_claim \<Rightarrow> bool
   \<Rightarrow> (sqs_queue, queue_error, unit) outcome" where
  "sqs_Nack send del change q c permanent =
     (case map_of (sq_inflight q) (qc_token c) of
        None \<Rightarrow> (q, Inl (StaleClaim (qc_task_id c)))
      | Some entry \<Rightarrow>
          if ic_task_id entry \<noteq> qc_task_id c then (q, Inl (StaleClaim (qc_task_id c)))
          else if permanent
          then (case send of
                  Some e \<Rightarrow> (q, Inl (sqs_fail e))
                | None \<Rightarrow>
                    let q1 = q\<lparr>sq_sent := sq_sent q @ [(sq_poison_url q,
                                 marshal_wire \<lparr>wt_id = qc_task_id c, wt_payload = ic_payload entry\<rparr>)]\<rparr>
                    in (case del of
                          Some e \<Rightarrow> (q1, Inl (sqs_fail e))
                        | None \<Rightarrow> (q1\<lparr>sq_deleted := sq_deleted q1 @ [qc_token c],
                                     sq_inflight := AList.delete (qc_token c) (sq_inflight q1)\<rparr>, Inr ())))
          else (case change of
                  Some e \<Rightarrow> (q, Inl (sqs_fail e))
                | None \<Rightarrow> (q\<lparr>sq_reset := sq_reset q @ [qc_token c],
                            sq_inflight := AList.delete (qc_token c) (sq_inflight q)\<rparr>, Inr ())))"

section \<open>Draining the poison queue\<close>

definition maxPoisonDrainRounds :: nat where
  "maxPoisonDrainRounds = 50"

fun decodeRound :: "sqs_message list \<Rightarrow> string list \<Rightarrow> task list \<Rightarrow> bool \<Rightarrow> (string list \<times> task list \<times> bool) option" where
  "decodeRound [] seen tasks progressed = Some (seen, tasks, progressed)"
| "decodeRound (msg # msgs) seen tasks progressed =
     (case unmarshal_wire (sm_body msg) of
        None \<Rightarrow> None
      | Some wt \<Rightarrow>
          if sm_id msg \<in> set seen then decodeRound msgs seen tasks progressed
          else decodeRound msgs (sm_id msg # seen) (tasks @ [\<lparr>tk_id = wt_id wt, tk_payload = wt_payload wt\<rparr>]) True)"

text \<open>\<open>n\<close> rounds are left; the answers are those of the remaining ReceiveMessage calls.\<close>

fun poison_rounds :: "nat \<Rightarrow> (nat \<Rightarrow> aws_error + sqs_message list) \<Rightarrow> nat \<Rightarrow> string list \<Rightarrow> task list \<Rightarrow> queue_error + task list" where
  "poison_rounds 0 answers rnd seen tasks = Inr tasks"
| "poison_rounds (Suc n) answers rnd seen tasks =
     (case answers rnd of
        Inl e \<Rightarrow> Inl (sqs_fail e)
      | Inr [] \<Rightarrow> Inr tasks
      | Inr (m # ms) \<Rightarrow>
          (case decodeRound (m # ms) seen [] False of
             None \<Rightarrow> Inl (QueueFailure ''sqs: decoding poison queue message body'')
           | Some (seen', batch, progressed) \<Rightarrow>
               if \<not> progressed then Inr (tasks @ batch)
               else poison_rounds n answers (rnd + 1) seen' (tasks @ batch)))"

definition sqs_PoisonTasks :: "(nat \<Rightarrow> aws_error + sqs_message list) \<Rightarrow> queue_error + task list" where
  "sqs_PoisonTasks answers = poison_rounds maxPoisonDrainRounds answers 0 [] []"

section \<open>The in-flight map\<close>

lemma reap_loop_inflight:
  "map_of (sq_inflight (fst (reap_loop change es q))) t = Some x \<Longrightarrow> map_of (sq_inflight q) t = Some x"
  by (induction change es q rule: reap_loop.induct) (auto split: option.splits if_splits)

lemma reap_loop_distinct:
  "distinct (map fst (sq_inflight q)) \<Longrightarrow> distinct (map fst (sq_inflight (fst (reap_loop change es q))))"
  by (induction change es q rule: reap_loop.induct) (auto split: option.splits)

lemma reap_loop_fields:
  "sq_sent (fst (reap_loop change es q)) = sq_sent q
   \<and> sq_deleted (fst (reap_loop change es q)) = sq_deleted q
   \<and> sq_poison_url (fst (reap_loop change es q)) = sq_poison_url q
   \<and> sq_visibility (fst (reap_loop change es q)) = sq_visibility q"
  by (induction change es q rule: reap_loop.induct) (auto split: option.splits)

lemma reap_loop_removes:
  "snd (reap_loop change es q) = Inr u \<Longrightarrow>
   (t, c) \<in> set es \<Longrightarrow> map_of (sq_inflight (fst (reap_loop change es q))) t = None"
proof (induction change es q rule: reap_loop.induct)
  case (1 change q)
  then show ?case by simp
next
  case (2 change token c' rest q)
  have gone: "map_of (sq_inflight (fst (reap_loop change rest (q\<lparr>sq_reset := rs, sq_inflight := AList.delete token (sq_inflight q)\<rparr>)))) token = None" for rs
    using reap_loop_inflight [of change rest "q\<lparr>sq_reset := rs, sq_inflight := AList.delete token (sq_inflight q)\<rparr>" token]
    by fastforce
  have gone': "map_of (sq_inflight (fst (reap_loop change rest (q\<lparr>sq_inflight := AList.delete token (sq_inflight q)\<rparr>)))) token = None"
    using reap_loop_inflight [of change rest "q\<lparr>sq_inflight := AList.delete token (sq_inflight q)\<rparr>" token]
    by fastforce
  show ?case
    using 2 gone gone' by (cases "t = token") (auto split: option.splits if_splits)
qed

lemma reapExpired_keeps_live:
  assumes "distinct (map fst (sq_inflight q))" "reapExpired rank now change q = (q1, Inr u)"
    and "map_of (sq_inflight q1) t = Some x"
  shows "map_of (sq_inflight q) t = Some x \<and> now < ic_deadline x"
proof -
  let ?es = "filter (\<lambda>(token, c). \<not> now < ic_deadline c) (sort_key (rank \<circ> fst) (sq_inflight q))"
  have q1: "q1 = fst (reap_loop change ?es q)" and ok: "snd (reap_loop change ?es q) = Inr u"
    using assms(2) by (simp_all add: reapExpired_def)
  have old: "map_of (sq_inflight q) t = Some x"
    using reap_loop_inflight assms(3) unfolding q1 by fast
  moreover have "now < ic_deadline x"
  proof (rule ccontr)
    assume "\<not> now < ic_deadline x"
    then have "(t, x) \<in> set ?es" using old assms(1) by (simp add: map_of_Some_iff_in_set)
    from reap_loop_removes [OF ok this] show False using assms(3) q1 by simp
  qed
  ultimately show ?thesis by blast
qed

lemma fold_name_wire [simp]: "fold_name ''id'' = ''id''" "fold_name ''payload'' = ''payload''"
  by (simp_all add: fold_name_def fold_char_def)

lemma unmarshal_marshal: "unmarshal_wire (marshal_wire wt) = Some wt"
  by (simp add: unmarshal_wire_def marshal_wire_def)

section \<open>The queue in its environment\<close>

record sqs_env =
  se_now :: "nat \<Rightarrow> time"
  se_now2 :: "nat \<Rightarrow> time"
  se_rank :: "nat \<Rightarrow> string \<Rightarrow> nat"
  se_change :: "nat \<Rightarrow> string \<Rightarrow> aws_error option"
  se_receive :: "nat \<Rightarrow> aws_error + sqs_message list"
  se_send :: "nat \<Rightarrow> aws_error option"
  se_delete :: "nat \<Rightarrow> aws_error option"

record sqs_world =
  sw_env :: sqs_env
  sw_step :: nat
  sw_queue :: sqs_queue

definition in_sqs :: "sqs_world \<Rightarrow> (sqs_queue, queue_error, 'a) outcome \<Rightarrow> (sqs_world, queue_error, 'a) outcome" where
  "in_sqs w o1 = (w\<lparr>sw_step := sw_step w + 1, sw_queue := fst o1\<rparr>, snd o1)"

definition sqs_ops :: "sqs_world queue_ops" where
  "sqs_ops =
     \<lparr>qo_enqueue = (\<lambda>w t. in_sqs w (sqs_Enqueue (se_send (sw_env w) (sw_step w)) (sw_queue w) t)),
      qo_claim = (\<lambda>w. in_sqs w (sqs_Claim (se_rank (sw_env w) (sw_step w)) (se_now (sw_env w) (sw_step w))
                       (se_change (sw_env w) (sw_step w)) (se_receive (sw_env w) (sw_step w))
                       (se_now2 (sw_env w) (sw_step w)) (sw_queue w))),
      qo_complete = (\<lambda>w c. in_sqs w (sqs_Complete (se_delete (sw_env w) (sw_step w)) (sw_queue w) c)),
      qo_nack = (\<lambda>w c p. in_sqs w (sqs_Nack (se_send (sw_env w) (sw_step w)) (se_delete (sw_env w) (sw_step w))
                           (se_change (sw_env w) (sw_step w) (qc_token c)) (sw_queue w) c p))\<rparr>"

text \<open>SQS hands out a new receipt handle with every receive.\<close>

definition receipt_at :: "sqs_env \<Rightarrow> nat \<Rightarrow> string option" where
  "receipt_at env n = (case se_receive env n of Inr (m # _) \<Rightarrow> Some (sm_receipt m) | _ \<Rightarrow> None)"

definition fresh_receipts :: "sqs_env \<Rightarrow> bool" where
  "fresh_receipts env \<longleftrightarrow> (\<forall>m n h. receipt_at env m = Some h \<longrightarrow> receipt_at env n = Some h \<longrightarrow> m = n)"

definition received :: "sqs_env \<Rightarrow> nat \<Rightarrow> string \<Rightarrow> bool" where
  "received env n h \<longleftrightarrow> (\<exists>i < n. receipt_at env i = Some h)"

definition sqs_wf :: "sqs_world \<Rightarrow> bool" where
  "sqs_wf w \<longleftrightarrow> fresh_receipts (sw_env w) \<and> distinct (map fst (sq_inflight (sw_queue w)))
     \<and> (\<forall>t x. map_of (sq_inflight (sw_queue w)) t = Some x \<longrightarrow> received (sw_env w) (sw_step w) t)"

definition sqs_owner :: "sqs_world \<Rightarrow> string \<Rightarrow> string option" where
  "sqs_owner w t = map_option ic_task_id (map_of (sq_inflight (sw_queue w)) t)"

definition sqs_spent :: "sqs_world \<Rightarrow> string set" where
  "sqs_spent w = {t. received (sw_env w) (sw_step w) t \<and> sqs_owner w t = None}"

definition sqs_poison_ids :: "sqs_world \<Rightarrow> string list" where
  "sqs_poison_ids w =
     map (\<lambda>(url, body). case unmarshal_wire body of None \<Rightarrow> [] | Some wt \<Rightarrow> wt_id wt)
       (filter (\<lambda>(url, body). url = sq_poison_url (sw_queue w)) (sq_sent (sw_queue w)))"

lemma received_Suc: "received env (Suc n) h \<longleftrightarrow> received env n h \<or> receipt_at env n = Some h"
  by (auto simp: received_def less_Suc_eq)

lemma in_sqs_simps [simp]:
  "sw_queue (fst (in_sqs w o1)) = fst o1" "snd (in_sqs w o1) = snd o1"
  "sw_env (fst (in_sqs w o1)) = sw_env w" "sw_step (fst (in_sqs w o1)) = sw_step w + 1"
  by (simp_all add: in_sqs_def)

lemma sqs_step_fields [simp]:
  "sw_env (exec_queue sqs_ops c w) = sw_env w" "sw_step (exec_queue sqs_ops c w) = sw_step w + 1"
  by (cases c; simp add: sqs_ops_def)+

text \<open>An operation only removes entries, or files the message it received under its handle.\<close>

lemma sqs_Claim_inflight:
  assumes "map_of (sq_inflight (fst (sqs_Claim rank now change r now2 q))) t = Some x"
  shows "map_of (sq_inflight q) t = Some x \<or> (\<exists>m ms. r = Inr (m # ms) \<and> sm_receipt m = t)"
proof -
  obtain q1 res where r1: "reapExpired rank now change q = (q1, res)" by fastforce
  have "map_of (sq_inflight q1) t = Some x \<Longrightarrow> map_of (sq_inflight q) t = Some x"
    using r1 reap_loop_inflight unfolding reapExpired_def by (metis fst_conv)
  then show ?thesis
    using assms r1
    by (auto simp: sqs_Claim_def Let_def split: sum.splits list.splits option.splits if_splits)
qed

lemma sqs_settle_inflight:
  "map_of (sq_inflight (fst (sqs_Complete del q c))) t = Some x \<Longrightarrow> map_of (sq_inflight q) t = Some x"
  "map_of (sq_inflight (fst (sqs_Nack send del change q c p))) t = Some x \<Longrightarrow> map_of (sq_inflight q) t = Some x"
  "sq_inflight (fst (sqs_Enqueue send q tk)) = sq_inflight q"
  by (auto simp: sqs_Complete_def sqs_Nack_def sqs_Enqueue_def Let_def split: option.splits if_splits)

lemma sqs_step_inflight:
  assumes "map_of (sq_inflight (sw_queue (exec_queue sqs_ops c w))) t = Some x"
  shows "map_of (sq_inflight (sw_queue w)) t = Some x \<or> receipt_at (sw_env w) (sw_step w) = Some t"
proof (cases c)
  case QClaim
  then show ?thesis
    using assms sqs_Claim_inflight by (fastforce simp: sqs_ops_def receipt_at_def)
qed (use assms in \<open>auto simp: sqs_ops_def dest: sqs_settle_inflight(1,2) simp: sqs_settle_inflight(3)\<close>)

lemma sqs_step_distinct:
  assumes "distinct (map fst (sq_inflight (sw_queue w)))"
  shows "distinct (map fst (sq_inflight (sw_queue (exec_queue sqs_ops c w))))"
proof (cases c)
  case QClaim
  obtain q1 res where r1: "reapExpired (se_rank (sw_env w) (sw_step w)) (se_now (sw_env w) (sw_step w))
      (se_change (sw_env w) (sw_step w)) (sw_queue w) = (q1, res)" by fastforce
  then have "distinct (map fst (sq_inflight q1))"
    using reap_loop_distinct [OF assms] unfolding reapExpired_def by (metis fst_conv)
  then show ?thesis
    using QClaim r1
    by (auto simp: sqs_ops_def sqs_Claim_def Let_def split: sum.splits list.splits option.splits)
qed (use assms in \<open>auto simp: sqs_ops_def sqs_Complete_def sqs_Nack_def sqs_Enqueue_def Let_def
       split: option.splits\<close>)

lemma sqs_Complete_ok:
  "sqs_Complete del q c = (q', Inr u) \<Longrightarrow>
   \<exists>x. map_of (sq_inflight q) (qc_token c) = Some x \<and> ic_task_id x = qc_task_id c
     \<and> map_of (sq_inflight q') (qc_token c) = None \<and> sq_sent q' = sq_sent q \<and> sq_poison_url q' = sq_poison_url q"
  by (auto simp: sqs_Complete_def split: option.splits if_splits)

lemma sqs_Nack_ok:
  "sqs_Nack send del change q c p = (q', Inr u) \<Longrightarrow>
   \<exists>x. map_of (sq_inflight q) (qc_token c) = Some x \<and> ic_task_id x = qc_task_id c
     \<and> map_of (sq_inflight q') (qc_token c) = None \<and> sq_poison_url q' = sq_poison_url q
     \<and> sq_sent q' = sq_sent q @ (if p then [(sq_poison_url q,
          marshal_wire \<lparr>wt_id = qc_task_id c, wt_payload = ic_payload x\<rparr>)] else [])"
  by (auto simp: sqs_Nack_def Let_def split: option.splits if_splits)

interpretation sqs: task_queue sqs_ops sqs_wf sqs_owner sqs_spent sqs_poison_ids
proof unfold_locales
  fix w c
  assume wf: "sqs_wf w"
  show "sqs_wf (exec_queue sqs_ops c w)"
    using wf sqs_step_distinct [of w c] sqs_step_inflight [of c w]
    unfolding sqs_wf_def by (auto simp: received_Suc simp del: map_of_eq_Some_iff)
  show "sqs_spent w \<subseteq> sqs_spent (exec_queue sqs_ops c w)"
  proof
    fix t
    assume t: "t \<in> sqs_spent w"
    then have "receipt_at (sw_env w) (sw_step w) \<noteq> Some t"
      using wf by (auto simp: sqs_spent_def sqs_wf_def fresh_receipts_def received_def)
    then show "t \<in> sqs_spent (exec_queue sqs_ops c w)"
      using t sqs_step_inflight [of c w t]
      by (cases "map_of (sq_inflight (sw_queue (exec_queue sqs_ops c w))) t")
        (auto simp: sqs_spent_def sqs_owner_def received_Suc)
  qed
next
  fix w t
  assume "t \<in> sqs_spent w"
  then show "sqs_owner w t = None" by (simp add: sqs_spent_def)
next
  fix w w' c
  assume "qo_claim sqs_ops w = (w', Inr (Some c))"
  then show "sqs_owner w' (qc_token c) = Some (qc_task_id c)"
    by (auto simp: sqs_ops_def in_sqs_def sqs_owner_def sqs_Claim_def Let_def
        split: prod.splits sum.splits list.splits option.splits)
next
  fix w w' c u
  assume wf: "sqs_wf w" and ok: "qo_complete sqs_ops w c = (w', Inr u)"
  then show "sqs_owner w (qc_token c) = Some (qc_task_id c) \<and> qc_token c \<in> sqs_spent w'
      \<and> sqs_poison_ids w' = sqs_poison_ids w"
    using sqs_Complete_ok [of "se_delete (sw_env w) (sw_step w)" "sw_queue w" c]
    by (fastforce simp: sqs_ops_def in_sqs_def sqs_owner_def sqs_spent_def sqs_poison_ids_def sqs_wf_def
        received_Suc prod_eq_iff)
next
  fix w w' c p u
  assume wf: "sqs_wf w" and ok: "qo_nack sqs_ops w c p = (w', Inr u)"
  then show "sqs_owner w (qc_token c) = Some (qc_task_id c) \<and> qc_token c \<in> sqs_spent w'
      \<and> sqs_poison_ids w' = sqs_poison_ids w @ (if p then [qc_task_id c] else [])"
    using sqs_Nack_ok [of "se_send (sw_env w) (sw_step w)" "se_delete (sw_env w) (sw_step w)"
        "se_change (sw_env w) (sw_step w) (qc_token c)" "sw_queue w" c p]
    by (fastforce simp: sqs_ops_def in_sqs_def sqs_owner_def sqs_spent_def sqs_poison_ids_def sqs_wf_def
        received_Suc prod_eq_iff unmarshal_marshal)
qed

section \<open>The poison drain\<close>

text \<open>The first message of every id, in order.\<close>

fun first_seen :: "string list \<Rightarrow> sqs_message list \<Rightarrow> sqs_message list" where
  "first_seen seen [] = []"
| "first_seen seen (m # ms) =
     (if sm_id m \<in> set seen then first_seen seen ms else m # first_seen (sm_id m # seen) ms)"

definition message_task :: "sqs_message \<Rightarrow> task" where
  "message_task m = (case unmarshal_wire (sm_body m) of
     None \<Rightarrow> \<lparr>tk_id = [], tk_payload = []\<rparr>
   | Some wt \<Rightarrow> \<lparr>tk_id = wt_id wt, tk_payload = wt_payload wt\<rparr>)"

definition batch :: "(nat \<Rightarrow> aws_error + sqs_message list) \<Rightarrow> nat \<Rightarrow> sqs_message list" where
  "batch answers i = (case answers i of Inl _ \<Rightarrow> [] | Inr ms \<Rightarrow> ms)"

lemma first_seen_set: "set s1 = set s2 \<Longrightarrow> first_seen s1 ms = first_seen s2 ms"
  by (induction ms arbitrary: s1 s2) (simp, metis first_seen.simps(2) insert_iff list.simps(15))

lemma first_seen_append:
  "first_seen seen (ms @ ns) = first_seen seen ms @ first_seen (map sm_id ms @ seen) ns"
proof (induction ms arbitrary: seen)
  case Nil
  then show ?case by simp
next
  case (Cons m ms)
  have "first_seen (sm_id m # map sm_id ms @ seen) ns = first_seen (map sm_id ms @ sm_id m # seen) ns"
    by (rule first_seen_set) auto
  moreover have "sm_id m \<in> set seen \<Longrightarrow>
      first_seen (sm_id m # map sm_id ms @ seen) ns = first_seen (map sm_id ms @ seen) ns"
    by (rule first_seen_set) auto
  ultimately show ?case using Cons by simp
qed

lemma first_seen_ids: "distinct (map sm_id (first_seen seen ms)) \<and> sm_id ` set (first_seen seen ms) = sm_id ` set ms - set seen"
  by (induction ms arbitrary: seen) auto

lemma decodeRound_first:
  "decodeRound msgs seen tasks prog = Some (seen', tasks', prog') \<Longrightarrow>
   tasks' = tasks @ map message_task (first_seen seen msgs)
   \<and> set seen' = set (map sm_id msgs @ seen)
   \<and> (prog' \<longleftrightarrow> prog \<or> first_seen seen msgs \<noteq> [])"
  by (induction msgs seen tasks prog rule: decodeRound.induct)
    (auto simp: message_task_def split: option.splits if_splits)

lemma poison_rounds_first:
  "poison_rounds n answers r seen tasks = Inr ts \<Longrightarrow>
   \<exists>k \<le> n. ts = tasks @ map message_task (first_seen seen (concat (map (batch answers) [r..<r + k])))"
proof (induction n arbitrary: r seen tasks)
  case 0
  then show ?case by simp
next
  case (Suc n)
  show ?case
  proof (cases "answers r")
    case (Inl e)
    then show ?thesis using Suc.prems by simp
  next
    case (Inr msgs)
    show ?thesis
    proof (cases msgs)
      case Nil
      then show ?thesis using Suc.prems Inr by (intro exI [of _ 0]) simp
    next
      case (Cons m ms)
      obtain seen' bt prog where d: "decodeRound (m # ms) seen [] False = Some (seen', bt, prog)"
        using Suc.prems Inr Cons by (auto split: option.splits)
      note first = decodeRound_first [OF d]
      have b: "batch answers r = m # ms" by (simp add: batch_def Inr Cons)
      show ?thesis
      proof (cases prog)
        case False
        then have "ts = tasks @ map message_task (first_seen seen (concat (map (batch answers) [r..<r + 1])))"
          using Suc.prems Inr Cons d first b by simp
        then show ?thesis by (intro exI [of _ 1]) simp
      next
        case True
        then have "poison_rounds n answers (r + 1) seen' (tasks @ bt) = Inr ts"
          using Suc.prems Inr Cons d by simp
        from Suc.IH [OF this] obtain k where k: "k \<le> n" and ts: "ts = (tasks @ bt) @ map message_task
            (first_seen seen' (concat (map (batch answers) [r + 1..<r + 1 + k])))"
          by blast
        have "[r..<r + Suc k] = r # [r + 1..<r + 1 + k]"
          by (simp add: upt_rec)
        moreover have "first_seen seen' ns = first_seen (map sm_id (m # ms) @ seen) ns" for ns
          by (rule first_seen_set) (use first in simp)
        ultimately have "ts = tasks @ map message_task (first_seen seen (concat (map (batch answers) [r..<r + Suc k])))"
          using ts first b first_seen_append [of seen "m # ms"] by (simp del: first_seen.simps upt_Suc)
        then show ?thesis using k by (intro exI [of _ "Suc k"]) simp
      qed
    qed
  qed
qed

section \<open>Properties\<close>

definition sqs_start :: "sqs_env \<Rightarrow> sqs_queue \<Rightarrow> sqs_world" where
  "sqs_start env q = \<lparr>sw_env = env, sw_step = 0, sw_queue = q\<rparr>"

lemma sqs_start_wf:
  "fresh_receipts env \<Longrightarrow> sqs_NewQueue created cfg = Inr q \<Longrightarrow> sqs_wf (sqs_start env q)"
  by (auto simp: sqs_wf_def sqs_start_def sqs_NewQueue_def Let_def split: option.splits sum.splits if_splits)

text \<open>A claim of the SQS adapter settles at most once: in every run from a new queue
  against a service that never repeats a receipt handle, once Complete or Nack has
  succeeded for a claim, every later Complete and Nack with it fails.\<close>

theorem sqs_claim_settles_once:
  assumes "fresh_receipts env" "sqs_NewQueue created cfg = Inr q0"
    and "w = run_queue sqs_ops cs (sqs_start env q0)"
    and "qo_complete sqs_ops w c = (w', Inr u) \<or> qo_nack sqs_ops w c p = (w', Inr u)"
  shows "\<not> is_ok (snd (qo_complete sqs_ops (run_queue sqs_ops ds w') c))
    \<and> \<not> is_ok (snd (qo_nack sqs_ops (run_queue sqs_ops ds w') c p'))"
  unfolding assms(3)
  by (rule sqs.settled_once [OF sqs.qwf_run [OF sqs_start_wf [OF assms(1,2)]] assms(4) [unfolded assms(3)]])

text \<open>An expired claim cannot outlive a poll: in every run, when Claim returns without an
  error, every tracked claim is either unexpired at the time Claim read the clock, or the
  one just received; a claim whose deadline had passed is rejected from then on.\<close>

theorem sqs_claim_reaps_expired:
  assumes "fresh_receipts env" "sqs_NewQueue created cfg = Inr q0"
    and "q = sw_queue (run_queue sqs_ops cs (sqs_start env q0))"
    and "sqs_Claim rank now change received_msgs now2 q = (q', Inr r)"
  shows "\<forall>t x. map_of (sq_inflight q') t = Some x \<longrightarrow>
      now < ic_deadline x \<or> (\<exists>c. r = Some c \<and> qc_token c = t \<and> ic_deadline x = now2 + sq_visibility q)"
proof (intro allI impI)
  fix t x
  assume x: "map_of (sq_inflight q') t = Some x"
  have "sqs_wf (run_queue sqs_ops cs (sqs_start env q0))"
    by (rule sqs.qwf_run [OF sqs_start_wf [OF assms(1,2)]])
  then have d: "distinct (map fst (sq_inflight q))" unfolding assms(3) sqs_wf_def by blast
  obtain q1 res where r1: "reapExpired rank now change q = (q1, res)" by fastforce
  have vis: "sq_visibility q1 = sq_visibility q"
    using r1 reap_loop_fields unfolding reapExpired_def by (metis fst_conv)
  obtain u where res: "res = Inr u"
    using assms(4) r1 by (cases res) (auto simp: sqs_Claim_def)
  have live: "map_of (sq_inflight q1) t = Some x \<Longrightarrow> now < ic_deadline x"
    using reapExpired_keeps_live [OF d r1 [unfolded res]] by blast
  show "now < ic_deadline x \<or> (\<exists>c. r = Some c \<and> qc_token c = t \<and> ic_deadline x = now2 + sq_visibility q)"
    using assms(4) r1 res x live vis
    by (auto simp: sqs_Claim_def Let_def time_add_def split: sum.splits list.splits option.splits if_splits)
qed

text \<open>A task survives the wire: decoding the body that Enqueue and the poison copy
  write gives back the task id and the exact payload bytes.\<close>

theorem sqs_wire_roundtrip:
  "unmarshal_wire (marshal_wire wt) = Some wt
   \<and> sq_sent (fst (sqs_Enqueue None q \<lparr>tk_id = wt_id wt, tk_payload = wt_payload wt\<rparr>)) =
     sq_sent q @ [(sq_url q, marshal_wire wt)]"
  by (cases wt) (simp add: unmarshal_marshal sqs_Enqueue_def)

text \<open>PoisonTasks reads at most 50 batches and reports every message id it saw exactly
  once, in first-seen order, whatever the service re-serves.\<close>

theorem sqs_poison_tasks_once:
  assumes "sqs_PoisonTasks answers = Inr tasks"
  shows "\<exists>k \<le> 50. \<exists>ms. tasks = map message_task ms \<and> distinct (map sm_id ms)
    \<and> ms = first_seen [] (concat (map (batch answers) [0..<k]))
    \<and> sm_id ` set ms = sm_id ` set (concat (map (batch answers) [0..<k]))"
proof -
  obtain k where "k \<le> 50" "tasks = map message_task (first_seen [] (concat (map (batch answers) [0..<k])))"
    using poison_rounds_first assms unfolding sqs_PoisonTasks_def maxPoisonDrainRounds_def
    by (metis add_0 append_Nil)
  then show ?thesis
    using first_seen_ids [of "[]" "concat (map (batch answers) [0..<k])"] by auto
qed

section \<open>Witnesses\<close>

definition sqs_demo_message :: sqs_message where
  "sqs_demo_message = \<lparr>sm_id = ''m'', sm_receipt = ''r'',
     sm_body = marshal_wire \<lparr>wt_id = ''j'', wt_payload = ''p''\<rparr>, sm_receive_count = Some ''1''\<rparr>"

definition sqs_demo_env :: sqs_env where
  "sqs_demo_env = \<lparr>se_now = (\<lambda>n. int n), se_now2 = (\<lambda>n. int n), se_rank = (\<lambda>n t. 0),
     se_change = (\<lambda>n t. None), se_receive = (\<lambda>n. if n = 0 then Inr [sqs_demo_message] else Inr []),
     se_send = (\<lambda>n. None), se_delete = (\<lambda>n. None)\<rparr>"

definition sqs_demo_config :: sqs_config where
  "sqs_demo_config = \<lparr>sc_Region = ''r'', sc_QueueURL = ''http://h/q'', sc_VisibilityTimeout = 5 * second,
     sc_Endpoint = [], sc_has_Credentials = True, sc_PoisonQueueURL = ''http://h/q-poison'', sc_HTTPTimeout = 0\<rparr>"

definition sqs_demo_queue :: sqs_queue where
  "sqs_demo_queue = \<lparr>sq_url = ''http://h/q'', sq_poison_url = ''http://h/q-poison'',
     sq_visibility = 5 * second, sq_inflight = [], sq_sent = [], sq_deleted = [], sq_reset = []\<rparr>"

definition sqs_demo_claim :: queue_claim where
  "sqs_demo_claim = \<lparr>qc_task_id = ''j'', qc_attempt = 0, qc_token = ''r''\<rparr>"

lemma sqs_demo_fresh: "fresh_receipts sqs_demo_env"
  by (auto simp: fresh_receipts_def receipt_at_def sqs_demo_env_def split: if_splits)

lemma sqs_demo_new: "sqs_NewQueue (\<lambda>_. Inl []) sqs_demo_config = Inr sqs_demo_queue"
  by (simp add: sqs_NewQueue_def sqs_demo_config_def sqs_demo_queue_def sqs_Validate_def second_def
      blank_string_def ascii_space_def)

lemmas sqs_demo_defs = sqs_start_def sqs_demo_env_def sqs_demo_queue_def sqs_demo_message_def sqs_ops_def
  in_sqs_def sqs_Claim_def reapExpired_def Let_def unmarshal_marshal sqs_Complete_def sqs_demo_claim_def

lemma sqs_claim_settles_once_witness:
  "\<exists>w'. qo_complete sqs_ops (run_queue sqs_ops [QClaim] (sqs_start sqs_demo_env sqs_demo_queue)) sqs_demo_claim
      = (w', Inr ())
    \<and> \<not> is_ok (snd (qo_complete sqs_ops (run_queue sqs_ops [QClaim] w') sqs_demo_claim))"
proof -
  obtain w' where w': "qo_complete sqs_ops (run_queue sqs_ops [QClaim] (sqs_start sqs_demo_env sqs_demo_queue))
      sqs_demo_claim = (w', Inr ())"
    by (simp add: sqs_demo_defs)
  then show ?thesis
    using sqs_claim_settles_once [OF sqs_demo_fresh sqs_demo_new refl disjI1 [OF w'], of "[QClaim]"] by blast
qed

lemma sqs_claim_reaps_expired_witness:
  "\<exists>q' x. sqs_Claim (\<lambda>_. 0) 1 (\<lambda>_. None) (Inr []) 0
       (sw_queue (run_queue sqs_ops [QClaim] (sqs_start sqs_demo_env sqs_demo_queue))) = (q', Inr None)
     \<and> map_of (sq_inflight q') ''r'' = Some x \<and> 1 < ic_deadline x"
proof -
  obtain q' where c: "sqs_Claim (\<lambda>_. 0) 1 (\<lambda>_. None) (Inr []) 0
       (sw_queue (run_queue sqs_ops [QClaim] (sqs_start sqs_demo_env sqs_demo_queue))) = (q', Inr None)"
    and x: "map_of (sq_inflight q') ''r'' \<noteq> None"
    by (simp add: sqs_demo_defs time_add_def second_def)
  then show ?thesis
    using sqs_claim_reaps_expired [OF sqs_demo_fresh sqs_demo_new refl c] by fastforce
qed

lemma sqs_poison_tasks_once_witness:
  "\<exists>tasks. sqs_PoisonTasks (\<lambda>_. Inr [sqs_demo_message]) = Inr tasks
    \<and> (\<exists>k \<le> 50. \<exists>ms. tasks = map message_task ms \<and> distinct (map sm_id ms)
      \<and> ms = first_seen [] (concat (map (batch (\<lambda>_. Inr [sqs_demo_message])) [0..<k]))
      \<and> sm_id ` set ms = sm_id ` set (concat (map (batch (\<lambda>_. Inr [sqs_demo_message])) [0..<k])))"
proof -
  have p: "sqs_PoisonTasks (\<lambda>_. Inr [sqs_demo_message]) = Inr [\<lparr>tk_id = ''j'', tk_payload = ''p''\<rparr>]"
    by (simp add: sqs_PoisonTasks_def maxPoisonDrainRounds_def numeral_eq_Suc sqs_demo_message_def
        unmarshal_marshal)
  show ?thesis by (rule exI, rule conjI [OF p sqs_poison_tasks_once [OF p]])
qed

end
