(* ===== verification/CallGraph.thy ===== *)
theory CallGraph
  imports CoachPrelude "HOL-Library.Monad_Syntax"
begin

text \<open>
  The call-graph searches of pkg/projectmodel: adjacency, the budgeted breadth-first
  search shared by reachability and layer bypass, path reconstruction, the two searches,
  and the layer membership they rest on (pkg/domain/layer_membership.go).

  A context is the answers of its \<open>Err\<close> method: \<open>ctx n\<close> tells whether the n-th check finds
  it cancelled.  A Go set is a list without duplicates.  Walking the parent map back is a
  loop that the code does not bound, so it is a partial function whose value None means
  that it does not return; the searches inherit that option.
\<close>

section \<open>Layers\<close>

definition LayerPrefixContains :: "string \<Rightarrow> string \<Rightarrow> bool" where
  "LayerPrefixContains prefix key \<longleftrightarrow> prefix = ''.'' \<or> key = prefix \<or> has_prefix key (prefix @ ''/'')"

definition anyLayerPrefixContains :: "string list \<Rightarrow> string \<Rightarrow> bool" where
  "anyLayerPrefixContains prefixes key \<longleftrightarrow> (\<exists>p \<in> set prefixes. LayerPrefixContains p key)"

record layer_membership =
  lm_analyzed :: nat
  lm_outside :: nat

definition NewLayerMembership :: "string list \<Rightarrow> string list \<Rightarrow> layer_membership" where
  "NewLayerMembership keys prefixes =
     \<lparr>lm_analyzed = length keys,
      lm_outside = length (filter (\<lambda>k. \<not> anyLayerPrefixContains prefixes k) keys)\<rparr>"

record policy_layer =
  pl_name :: string
  pl_prefixes :: "string list"

definition layerPrefixes :: "policy_layer list \<Rightarrow> string list" where
  "layerPrefixes layers = concat (map pl_prefixes layers)"

definition rootAllowsDir :: "string list \<Rightarrow> string \<Rightarrow> bool" where
  "rootAllowsDir roots dir \<longleftrightarrow>
     (\<exists>r0 \<in> set roots. let r = path_clean r0 in r = ''.'' \<or> dir = r \<or> has_prefix dir (r @ ''/''))"

definition rootHoldsAPath :: "string list \<Rightarrow> string \<Rightarrow> bool" where
  "rootHoldsAPath paths root \<longleftrightarrow> (\<exists>p \<in> set paths. rootAllowsDir [root] p)"

definition everyRootHoldsAPath :: "string list \<Rightarrow> string list \<Rightarrow> bool" where
  "everyRootHoldsAPath paths roots \<longleftrightarrow> paths \<noteq> [] \<and> (\<forall>r \<in> set roots. rootHoldsAPath paths r)"

text \<open>\<open>files\<close> are the model's file paths, \<open>complete\<close> its coverage flag.\<close>

definition GoLayerMembership :: "string list \<Rightarrow> bool \<Rightarrow> string list \<Rightarrow> policy_layer list \<Rightarrow> layer_membership option" where
  "GoLayerMembership files complete roots layers =
     (if layers = [] \<or> \<not> complete \<or> \<not> everyRootHoldsAPath files roots then None
      else Some (NewLayerMembership (map path_dir files) (layerPrefixes layers)))"

record root_scope =
  sc_root :: string
  sc_candidates :: nat
  sc_analyzed :: nat
  sc_paths :: "string list"

fun ts_scope_roots :: "root_scope list \<Rightarrow> string list \<Rightarrow> string list option" where
  "ts_scope_roots [] roots = Some roots"
| "ts_scope_roots (s # ss) roots =
     (if sc_analyzed s < sc_candidates s \<or> length (sc_paths s) \<noteq> sc_analyzed s then None
      else ts_scope_roots ss (roots @ [sc_root s]))"

definition tsLayerMembership ::
  "bool \<Rightarrow> root_scope list \<Rightarrow> string list \<Rightarrow> policy_layer list \<Rightarrow> layer_membership option" where
  "tsLayerMembership complete scopes analyzed layers =
     (if layers = [] \<or> \<not> complete then None
      else (case ts_scope_roots scopes [] of
              None \<Rightarrow> None
            | Some roots \<Rightarrow>
                if \<not> everyRootHoldsAPath analyzed roots then None
                else Some (NewLayerMembership analyzed (layerPrefixes layers))))"

fun add_paths :: "string list \<Rightarrow> string list \<Rightarrow> string list" where
  "add_paths [] acc = acc"
| "add_paths (p # ps) acc = (if p \<in> set acc then add_paths ps acc else add_paths ps (acc @ [p]))"

definition analyzedFilePathsFromRootScopes :: "root_scope list \<Rightarrow> string list" where
  "analyzedFilePathsFromRootScopes scopes = foldl (\<lambda>acc s. add_paths (sc_paths s) acc) [] scopes"

definition prefixMatchesAnyPath :: "string \<Rightarrow> string list \<Rightarrow> bool" where
  "prefixMatchesAnyPath prefix paths \<longleftrightarrow> (\<exists>p \<in> set paths. LayerPrefixContains prefix p)"

definition layerMatchesAnyPath :: "policy_layer \<Rightarrow> string list \<Rightarrow> bool" where
  "layerMatchesAnyPath layer paths \<longleftrightarrow> (\<exists>p \<in> set (pl_prefixes layer). prefixMatchesAnyPath p paths)"

definition InclusionRuleTSConfigIncludesNoTestClassification :: string where
  "InclusionRuleTSConfigIncludesNoTestClassification = ''tsconfig_includes_no_test_classification''"

definition TSReachabilityAlgorithm :: string where
  "TSReachabilityAlgorithm = ''ts-source-sink-registry@1''"

record project_scope =
  ps_inclusion :: string
  ps_pattern :: string
  ps_roots :: "(string \<times> nat \<times> nat) list"
  ps_matched :: "string list"
  ps_unmatched :: "string list"
  ps_membership :: "layer_membership option"

definition scope_by_root :: "root_scope list \<Rightarrow> string \<rightharpoonup> root_scope" where
  "scope_by_root scopes = foldl (\<lambda>m s. m(path_clean (sc_root s) \<mapsto> s)) Map.empty scopes"

fun policy_scopes :: "(string \<rightharpoonup> root_scope) \<Rightarrow> string list \<Rightarrow> root_scope list \<Rightarrow> string + root_scope list" where
  "policy_scopes by_root [] acc = Inr acc"
| "policy_scopes by_root (r # rs) acc =
     (case by_root (path_clean r) of
        None \<Rightarrow> Inl r
      | Some s \<Rightarrow> policy_scopes by_root rs (acc @ [s]))"

text \<open>The error is the policy root that the analyzer did not report.\<close>

definition ProjectScopeFromModel ::
  "root_scope list \<Rightarrow> bool \<Rightarrow> string list \<Rightarrow> policy_layer list \<Rightarrow> string + project_scope" where
  "ProjectScopeFromModel root_scopes complete roots layers =
     (case policy_scopes (scope_by_root root_scopes) roots [] of
        Inl r \<Rightarrow> Inl r
      | Inr scopes \<Rightarrow>
          let analyzed = analyzedFilePathsFromRootScopes scopes in
          Inr \<lparr>ps_inclusion = InclusionRuleTSConfigIncludesNoTestClassification,
               ps_pattern = TSReachabilityAlgorithm,
               ps_roots = map (\<lambda>s. (sc_root s, sc_candidates s, sc_analyzed s)) scopes,
               ps_matched = map pl_name (filter (\<lambda>l. layerMatchesAnyPath l analyzed) layers),
               ps_unmatched = map pl_name (filter (\<lambda>l. \<not> layerMatchesAnyPath l analyzed) layers),
               ps_membership = tsLayerMembership complete scopes analyzed layers\<rparr>)"

section \<open>Adjacency\<close>

record call_fact =
  cf_from :: string
  cf_to :: string

type_synonym adjacency = "(string \<times> string list) list"

definition adj_of :: "adjacency \<Rightarrow> string \<Rightarrow> string list" where
  "adj_of adj n = (case map_of adj n of None \<Rightarrow> [] | Some ns \<Rightarrow> ns)"

definition insert_key :: "string \<Rightarrow> string list \<Rightarrow> string list" where
  "insert_key k ks = (if k \<in> set ks then ks else ks @ [k])"

definition add_call :: "adjacency \<Rightarrow> call_fact \<Rightarrow> adjacency" where
  "add_call tmp f = AList.update (cf_from f) (insert_key (cf_to f) (adj_of tmp (cf_from f))) tmp"

definition mapKeysSorted :: "string list \<Rightarrow> string list" where
  "mapKeysSorted keys = sort_strings keys"

definition buildCallGraphAdjacency :: "call_fact list \<Rightarrow> adjacency" where
  "buildCallGraphAdjacency facts = map (\<lambda>(k, tos). (k, mapKeysSorted tos)) (foldl add_call [] facts)"

definition keptNeighbors :: "string list \<Rightarrow> string list \<Rightarrow> string list" where
  "keptNeighbors tos removed = filter (\<lambda>t. t \<notin> set removed) tos"

definition removeLayerNodesFromAdjacency :: "adjacency \<Rightarrow> string list \<Rightarrow> adjacency" where
  "removeLayerNodesFromAdjacency adj removed =
     filter (\<lambda>(k, tos). tos \<noteq> [])
       (map (\<lambda>(k, tos). (k, keptNeighbors tos removed)) (filter (\<lambda>(k, tos). k \<notin> set removed) adj))"

section \<open>Breadth-first search\<close>

record bfs_budget =
  bb_visited :: nat
  bb_max :: int
  bb_checks :: nat

definition ctx_err :: "(nat \<Rightarrow> bool) \<Rightarrow> bfs_budget \<Rightarrow> bfs_budget \<times> bool" where
  "ctx_err ctx b = (b\<lparr>bb_checks := bb_checks b + 1\<rparr>, ctx (bb_checks b))"

record bfs_frontier =
  fr_parents :: "(string \<times> string) list"
  fr_visited :: "string list"
  fr_queue :: "string list"

fun bfs_enqueue :: "string list \<Rightarrow> string \<Rightarrow> bfs_frontier \<Rightarrow> bfs_frontier" where
  "bfs_enqueue [] node f = f"
| "bfs_enqueue (n # ns) node f =
     (if n \<in> set (fr_visited f) then bfs_enqueue ns node f
      else bfs_enqueue ns node
             (f\<lparr>fr_visited := n # fr_visited f, fr_parents := AList.update n node (fr_parents f),
                fr_queue := fr_queue f @ [n]\<rparr>))"

definition neighbours :: "adjacency \<Rightarrow> string set" where
  "neighbours adj = set (concat (map snd adj))"

lemma adj_of_neighbours: "set (adj_of adj n) \<subseteq> neighbours adj"
proof (cases "map_of adj n")
  case (Some ns)
  then have "(n, ns) \<in> set adj" by (rule map_of_SomeD)
  then show ?thesis using Some by (force simp: adj_of_def neighbours_def)
qed (simp add: adj_of_def)

lemma finite_neighbours [simp]: "finite (neighbours adj)"
  by (simp add: neighbours_def)

lemma bfs_enqueue_visited:
  "set (fr_visited f) \<subseteq> set (fr_visited (bfs_enqueue ns node f))
   \<and> set (fr_visited (bfs_enqueue ns node f)) \<subseteq> set (fr_visited f) \<union> set ns"
  by (induction ns node f rule: bfs_enqueue.induct) auto

lemma bfs_enqueue_queue:
  "set (fr_visited (bfs_enqueue ns node f)) = set (fr_visited f) \<Longrightarrow>
   fr_queue (bfs_enqueue ns node f) = fr_queue f"
proof (induction ns node f rule: bfs_enqueue.induct)
  case (1 node f)
  then show ?case by simp
next
  case (2 n ns node f)
  then show ?case
    using bfs_enqueue_visited [of "f\<lparr>fr_visited := n # fr_visited f, fr_parents := AList.update n node (fr_parents f),
                fr_queue := fr_queue f @ [n]\<rparr>" ns node]
    by (auto split: if_splits)
qed

function bfs_loop :: "(nat \<Rightarrow> bool) \<Rightarrow> adjacency \<Rightarrow> bfs_budget \<Rightarrow> bfs_frontier \<Rightarrow> bfs_budget \<times> bfs_frontier \<times> bool" where
  "bfs_loop ctx adj b f =
     (case fr_queue f of
        [] \<Rightarrow> (b, f, False)
      | node # rest \<Rightarrow>
          (let (b1, dead) = ctx_err ctx b in
           if dead then (b1, f, True)
           else if bb_max b1 > 0 \<and> int (bb_visited b1) \<ge> bb_max b1 then (b1, f, True)
           else bfs_loop ctx adj (b1\<lparr>bb_visited := bb_visited b1 + 1\<rparr>)
                  (bfs_enqueue (adj_of adj node) node (f\<lparr>fr_queue := rest\<rparr>))))"
  by pat_completeness auto

termination
proof (relation "measures [\<lambda>(ctx, adj, b, f). card (neighbours adj - set (fr_visited f)),
                           \<lambda>(ctx, adj, b, f). length (fr_queue f)]", goal_cases)
  case 1
  then show ?case by simp
next
  case (2 ctx adj b f node rest x b1 dead)
  let ?f = "f\<lparr>fr_queue := rest\<rparr>"
  let ?f' = "bfs_enqueue (adj_of adj node) node ?f"
  have sub: "set (fr_visited f) \<subseteq> set (fr_visited ?f')"
    using bfs_enqueue_visited [of ?f "adj_of adj node" node] by simp
  show ?case
  proof (cases "set (fr_visited ?f') = set (fr_visited f)")
    case True
    then have "fr_queue ?f' = rest"
      using bfs_enqueue_queue [of "adj_of adj node" node ?f] by simp
    then show ?thesis using 2(1) True by simp
  next
    case False
    have "set (fr_visited ?f') \<subseteq> set (fr_visited f) \<union> neighbours adj"
      using bfs_enqueue_visited [of ?f "adj_of adj node" node] adj_of_neighbours [of adj node] by auto
    then have "neighbours adj - set (fr_visited ?f') \<subset> neighbours adj - set (fr_visited f)"
      using False sub by blast
    then have "card (neighbours adj - set (fr_visited ?f')) < card (neighbours adj - set (fr_visited f))"
      by (rule psubset_card_mono [rotated]) simp
    then show ?thesis by simp
  qed
qed

declare bfs_loop.simps [simp del]

definition shortestPaths ::
  "(nat \<Rightarrow> bool) \<Rightarrow> string \<Rightarrow> adjacency \<Rightarrow> bfs_budget \<Rightarrow> bfs_budget \<times> (string \<times> string) list \<times> bool" where
  "shortestPaths ctx source adj b =
     (let (b', f, hit) = bfs_loop ctx adj b
            \<lparr>fr_parents = [(source, [])], fr_visited = [source], fr_queue = [source]\<rparr>
      in (b', fr_parents f, hit))"

section \<open>Path reconstruction\<close>

definition parent_of :: "(string \<times> string) list \<Rightarrow> string \<Rightarrow> string" where
  "parent_of parents n = (case map_of parents n of None \<Rightarrow> [] | Some p \<Rightarrow> p)"

partial_function (option) path_nodes :: "(string \<times> string) list \<Rightarrow> string \<Rightarrow> string \<Rightarrow> string list option" where
  "path_nodes parents source cur =
     (if cur = source then Some [cur]
      else Option.bind (path_nodes parents source (parent_of parents cur)) (\<lambda>ns. Some (cur # ns)))"

declare path_nodes.simps [code]

definition reconstructReachabilityPath ::
  "(string \<times> string) list \<Rightarrow> string \<Rightarrow> string \<Rightarrow> (string list \<times> bool) option" where
  "reconstructReachabilityPath parents source sink =
     (case map_of parents sink of
        None \<Rightarrow> Some ([], False)
      | Some _ \<Rightarrow> map_option (\<lambda>ns. (rev ns, True)) (path_nodes parents source sink))"

section \<open>Reachability facts\<close>

definition ReachabilityAlgorithm :: string where
  "ReachabilityAlgorithm = ''go-source-sink-registry@1''"

definition KindPossibleCallReachability :: string where
  "KindPossibleCallReachability = ''possible_call_reachability''"

definition ReachabilityConfidenceResolvedDirect :: string where
  "ReachabilityConfidenceResolvedDirect = ''resolved_direct''"

record reachability_fact =
  rf_id :: string
  rf_kind :: string
  rf_confidence :: string
  rf_source :: string
  rf_sink :: string
  rf_path :: "string list"
  rf_algorithm :: string

record reachability_search =
  rs_facts :: "reachability_fact list"
  rs_evaluated :: nat
  rs_truncated_pairs :: nat
  rs_nodes_visited :: nat
  rs_truncated_search :: bool

definition reachability_fact_of :: "string \<Rightarrow> string \<Rightarrow> string list \<Rightarrow> reachability_fact" where
  "reachability_fact_of source sink path =
     \<lparr>rf_id = ''reach:'' @ source @ ''->'' @ sink @ ''@'' @ ReachabilityAlgorithm,
      rf_kind = KindPossibleCallReachability, rf_confidence = ReachabilityConfidenceResolvedDirect,
      rf_source = source, rf_sink = sink, rf_path = path, rf_algorithm = ReachabilityAlgorithm\<rparr>"

fun reachabilityFactsForSource ::
  "string \<Rightarrow> string list \<Rightarrow> (string \<times> string) list \<Rightarrow> bool \<Rightarrow> reachability_fact list \<times> nat \<times> nat
   \<Rightarrow> (reachability_fact list \<times> nat \<times> nat) option" where
  "reachabilityFactsForSource source [] parents skip acc = Some acc"
| "reachabilityFactsForSource source (sink # sinks) parents skip (facts, evaluated, truncated) =
     (if skip then reachabilityFactsForSource source sinks parents skip (facts, evaluated, truncated + 1)
      else (case reconstructReachabilityPath parents source sink of
              None \<Rightarrow> None
            | Some (path, ok) \<Rightarrow>
                if \<not> ok then reachabilityFactsForSource source sinks parents skip (facts, evaluated + 1, truncated)
                else reachabilityFactsForSource source sinks parents skip
                       (facts @ [reachability_fact_of source sink path], evaluated + 1, truncated)))"

text \<open>One source after the other, sharing the budget; the context is checked in the code's order.\<close>

fun search_sources ::
  "(nat \<Rightarrow> bool) \<Rightarrow> string list \<Rightarrow> string list \<Rightarrow> adjacency \<Rightarrow> bool \<Rightarrow> bfs_budget \<times> reachability_search
   \<Rightarrow> (bfs_budget \<times> reachability_search) option" where
  "search_sources ctx [] sinks adj incomplete (b, s) = Some (b, s)"
| "search_sources ctx (source # sources) sinks adj incomplete (b, s) =
     (let (b0, dead) = ctx_err ctx b in
      if dead then Some (b0, s\<lparr>rs_truncated_search := True\<rparr>)
      else
        let (b1, parents, hit) = shortestPaths ctx source adj b0;
            (b2, cancelled) = (if hit then (b1, True) else ctx_err ctx b1)
        in (case reachabilityFactsForSource source sinks parents (hit \<or> cancelled \<or> incomplete) ([], 0, 0) of
              None \<Rightarrow> None
            | Some (facts, evaluated, truncated) \<Rightarrow>
                search_sources ctx sources sinks adj incomplete
                  (b2, s\<lparr>rs_facts := rs_facts s @ facts, rs_evaluated := rs_evaluated s + evaluated,
                         rs_truncated_pairs := rs_truncated_pairs s + truncated,
                         rs_truncated_search := (rs_truncated_search s \<or> hit)\<rparr>)))"

definition searchReachabilityFacts ::
  "(nat \<Rightarrow> bool) \<Rightarrow> string list \<Rightarrow> string list \<Rightarrow> adjacency \<Rightarrow> int \<Rightarrow> bool \<Rightarrow> reachability_search option" where
  "searchReachabilityFacts ctx sources sinks adj max_nodes incomplete =
     (case search_sources ctx sources sinks adj incomplete
             (\<lparr>bb_visited = 0, bb_max = max_nodes, bb_checks = 0\<rparr>,
              \<lparr>rs_facts = [], rs_evaluated = 0, rs_truncated_pairs = 0, rs_nodes_visited = 0,
               rs_truncated_search = False\<rparr>) of
        None \<Rightarrow> None
      | Some (b, s) \<Rightarrow>
          let s1 = (if \<not> rs_truncated_search s \<and> snd (ctx_err ctx b) then s\<lparr>rs_truncated_search := True\<rparr> else s)
          in Some (s1\<lparr>rs_nodes_visited := bb_visited b\<rparr>))"

section \<open>Layer-bypass witnesses\<close>

record bypass_layer =
  bl_name :: string
  bl_prefixes :: "string list"

record node_position =
  np_dir :: string
  np_file :: string
  np_line :: int

record bypass_step =
  bs_node :: string
  bs_path :: string
  bs_line :: int

record bypass_witness =
  bw_id :: string
  bw_source :: string
  bw_sink :: string
  bw_required_layer :: string
  bw_path :: "bypass_step list"
  bw_confidence :: string
  bw_algorithm :: string

type_synonym node_positions = "(string \<times> node_position) list"

definition LayerBypassAlgorithm :: string where
  "LayerBypassAlgorithm = ''go-layer-bypass-registry@1''"

definition TSLayerBypassAlgorithm :: string where
  "TSLayerBypassAlgorithm = ''ts-layer-bypass-registry@1''"

definition LayerBypassConfidenceHigh :: string where
  "LayerBypassConfidenceHigh = ''high''"

definition layerBypassContainsDir :: "bypass_layer \<Rightarrow> string \<Rightarrow> bool" where
  "layerBypassContainsDir layer dir \<longleftrightarrow> (\<exists>p \<in> set (bl_prefixes layer). LayerPrefixContains p dir)"

definition requiredLayerNodeSet :: "bypass_layer \<Rightarrow> node_positions \<Rightarrow> string list" where
  "requiredLayerNodeSet layer positions =
     map fst (filter (\<lambda>(node, pos). layerBypassContainsDir layer (np_dir pos)) positions)"

definition stepPathFullyClassified :: "string list \<Rightarrow> node_positions \<Rightarrow> bool" where
  "stepPathFullyClassified path positions \<longleftrightarrow>
     (if path = [] then True else (\<forall>n \<in> set (butlast path). map_of positions n \<noteq> None))"

definition layerBypassSteps :: "string list \<Rightarrow> node_positions \<Rightarrow> bypass_step list" where
  "layerBypassSteps path positions =
     map (\<lambda>n. case map_of positions n of
                None \<Rightarrow> \<lparr>bs_node = n, bs_path = [], bs_line = 0\<rparr>
              | Some pos \<Rightarrow> \<lparr>bs_node = n, bs_path = np_file pos, bs_line = np_line pos\<rparr>) path"

record bypass_search =
  bp_witnesses :: "bypass_witness list"
  bp_evaluated :: nat
  bp_truncated_pairs :: nat
  bp_nodes_visited :: nat
  bp_truncated_search :: bool
  bp_unclassified :: bool

definition empty_bypass_search :: bypass_search where
  "empty_bypass_search = \<lparr>bp_witnesses = [], bp_evaluated = 0, bp_truncated_pairs = 0, bp_nodes_visited = 0,
     bp_truncated_search = False, bp_unclassified = False\<rparr>"

definition bypass_witness_of :: "string \<Rightarrow> string \<Rightarrow> string \<Rightarrow> string \<Rightarrow> string list \<Rightarrow> node_positions \<Rightarrow> bypass_witness" where
  "bypass_witness_of algorithm layer source sink path positions =
     \<lparr>bw_id = ''bypass:'' @ layer @ '':'' @ source @ ''->'' @ sink @ ''@'' @ algorithm,
      bw_source = source, bw_sink = sink, bw_required_layer = layer,
      bw_path = layerBypassSteps path positions, bw_confidence = LayerBypassConfidenceHigh,
      bw_algorithm = algorithm\<rparr>"

text \<open>collectWitnesses of the Go search and the sink loop of the TypeScript one.\<close>

fun collectWitnesses ::
  "string \<Rightarrow> string \<Rightarrow> string list \<Rightarrow> (string \<times> string) list \<Rightarrow> node_positions \<Rightarrow> string \<Rightarrow> bool
   \<Rightarrow> bypass_search \<Rightarrow> bypass_search option" where
  "collectWitnesses algorithm source [] parents positions layer skip s = Some s"
| "collectWitnesses algorithm source (sink # sinks) parents positions layer skip s =
     (if skip
      then collectWitnesses algorithm source sinks parents positions layer skip
             (s\<lparr>bp_truncated_pairs := bp_truncated_pairs s + 1\<rparr>)
      else
        let s1 = s\<lparr>bp_evaluated := bp_evaluated s + 1\<rparr> in
        (case reconstructReachabilityPath parents source sink of
           None \<Rightarrow> None
         | Some (path, ok) \<Rightarrow>
             if \<not> ok then collectWitnesses algorithm source sinks parents positions layer skip s1
             else if \<not> stepPathFullyClassified path positions
             then collectWitnesses algorithm source sinks parents positions layer skip (s1\<lparr>bp_unclassified := True\<rparr>)
             else collectWitnesses algorithm source sinks parents positions layer skip
                    (s1\<lparr>bp_witnesses := bp_witnesses s1 @
                          [bypass_witness_of algorithm layer source sink path positions]\<rparr>)))"

fun bypass_sources ::
  "string \<Rightarrow> (nat \<Rightarrow> bool) \<Rightarrow> string list \<Rightarrow> string list \<Rightarrow> adjacency \<Rightarrow> node_positions \<Rightarrow> string \<Rightarrow> bool
   \<Rightarrow> bfs_budget \<times> bypass_search \<Rightarrow> (bfs_budget \<times> bypass_search) option" where
  "bypass_sources algorithm ctx [] sinks adj positions layer incomplete (b, s) = Some (b, s)"
| "bypass_sources algorithm ctx (source # sources) sinks adj positions layer incomplete (b, s) =
     (let (b0, dead) = ctx_err ctx b in
      if dead then Some (b0, s\<lparr>bp_truncated_search := True\<rparr>)
      else
        let (b1, parents, hit) = shortestPaths ctx source adj b0;
            s1 = (if hit then s\<lparr>bp_truncated_search := True\<rparr> else s);
            (b2, cancelled) = (if hit then (b1, True) else ctx_err ctx b1)
        in (case collectWitnesses algorithm source sinks parents positions layer (hit \<or> cancelled \<or> incomplete) s1 of
              None \<Rightarrow> None
            | Some s2 \<Rightarrow> bypass_sources algorithm ctx sources sinks adj positions layer incomplete (b2, s2)))"

text \<open>searchLayerBypassWitnesses (Go) and tsLayerBypassRunSearch (TypeScript, no node budget).\<close>

definition searchLayerBypassWitnesses ::
  "(nat \<Rightarrow> bool) \<Rightarrow> string list \<Rightarrow> string list \<Rightarrow> adjacency \<Rightarrow> node_positions \<Rightarrow> bypass_layer \<Rightarrow> int
   \<Rightarrow> bool \<Rightarrow> bool \<Rightarrow> bool \<Rightarrow> bypass_search option" where
  "searchLayerBypassWitnesses ctx sources sinks adj positions layer max_nodes graph_incomplete dirs_complete ambiguous =
     (if ambiguous
      then Some (empty_bypass_search\<lparr>bp_truncated_pairs := length sources * length sinks, bp_truncated_search := True\<rparr>)
      else (case bypass_sources LayerBypassAlgorithm ctx sources sinks adj positions (bl_name layer)
                   (graph_incomplete \<or> \<not> dirs_complete)
                   (\<lparr>bb_visited = 0, bb_max = max_nodes, bb_checks = 0\<rparr>, empty_bypass_search) of
              None \<Rightarrow> None
            | Some (b, s) \<Rightarrow>
                let s1 = (if \<not> bp_truncated_search s \<and> snd (ctx_err ctx b) then s\<lparr>bp_truncated_search := True\<rparr> else s)
                in Some (s1\<lparr>bp_nodes_visited := bb_visited b\<rparr>)))"

definition tsLayerBypassRunSearch ::
  "(nat \<Rightarrow> bool) \<Rightarrow> string list \<Rightarrow> string list \<Rightarrow> adjacency \<Rightarrow> node_positions \<Rightarrow> bypass_layer \<Rightarrow> bool \<Rightarrow> bypass_search option" where
  "tsLayerBypassRunSearch ctx sources sinks adj positions layer ambiguous =
     (if ambiguous
      then Some (empty_bypass_search\<lparr>bp_truncated_pairs := length sources * length sinks, bp_truncated_search := True\<rparr>)
      else (case bypass_sources TSLayerBypassAlgorithm ctx sources sinks adj positions (bl_name layer) False
                   (\<lparr>bb_visited = 0, bb_max = 0, bb_checks = 0\<rparr>, empty_bypass_search) of
              None \<Rightarrow> None
            | Some (b, s) \<Rightarrow>
                let s1 = s\<lparr>bp_nodes_visited := bb_visited b\<rparr>
                in Some (if \<not> bp_truncated_search s1 \<and> snd (ctx_err ctx b) then s1\<lparr>bp_truncated_search := True\<rparr> else s1)))"

subsection \<open>TypeScript node positions\<close>

text \<open>\<open>strings.Cut\<close>: the text before the first separator, and whether it was found.\<close>

definition cut_hash :: "string \<Rightarrow> string \<times> bool" where
  "cut_hash s = (takeWhile (\<lambda>ch. ch \<noteq> CHR ''#'') s, CHR ''#'' \<in> set s)"

definition tsLayerBypassNodePosition :: "string \<Rightarrow> node_position option" where
  "tsLayerBypassNodePosition node =
     (if \<not> has_prefix node ''file:'' then None
      else
        let (file, found) = cut_hash (drop 5 node) in
        if \<not> found \<or> file = [] then None
        else Some \<lparr>np_dir = path_dir file, np_file = file, np_line = 0\<rparr>)"

definition add_position :: "node_positions \<Rightarrow> string \<Rightarrow> node_positions" where
  "add_position positions node =
     (if map_of positions node \<noteq> None then positions
      else (case tsLayerBypassNodePosition node of
              None \<Rightarrow> positions
            | Some pos \<Rightarrow> AList.update node pos positions))"

definition tsLayerBypassNodePositions :: "call_fact list \<Rightarrow> node_positions" where
  "tsLayerBypassNodePositions facts =
     foldl (\<lambda>m f. add_position (add_position m (cf_from f)) (cf_to f)) [] facts"

definition tsLayerBypassLayerMatchesFiles :: "string list \<Rightarrow> bypass_layer \<Rightarrow> bool" where
  "tsLayerBypassLayerMatchesFiles files layer \<longleftrightarrow> (\<exists>f \<in> set files. layerBypassContainsDir layer (path_dir f))"

definition tsLayerBypassRequiredLayerNodes :: "string list \<Rightarrow> node_positions \<Rightarrow> bypass_layer \<Rightarrow> string list \<times> bool" where
  "tsLayerBypassRequiredLayerNodes files positions layer =
     (map fst (filter (\<lambda>(node, pos). layerBypassContainsDir layer (np_dir pos)) positions),
      bl_prefixes layer = [] \<or> \<not> tsLayerBypassLayerMatchesFiles files layer)"

subsection \<open>The two builders\<close>

text \<open>
  What BuildGoLayerBypass computes from a loaded snapshot: call facts, sources, node
  positions and completeness flags are the loader's; the verdict is the witnesses in
  source and sink order and the coverage flag.
\<close>

record bypass_result =
  br_witnesses :: "bypass_witness list"
  br_complete :: bool
  br_pairs_evaluated :: nat
  br_pairs_truncated :: nat
  br_nodes_matched :: nat
  br_nodes_visited :: nat
  br_diagnostics :: "string list"

definition DiagLayerBypassAmbiguousLayer :: string where
  "DiagLayerBypassAmbiguousLayer = ''project_layer_bypass_ambiguous_layer''"

definition DiagLayerBypassBudgetExceeded :: string where
  "DiagLayerBypassBudgetExceeded = ''project_layer_bypass_budget_exceeded''"

text \<open>Diagnostics are represented by their codes.\<close>

definition containsDiagnosticCode :: "string list \<Rightarrow> string \<Rightarrow> bool" where
  "containsDiagnosticCode diags code \<longleftrightarrow> code \<in> set diags"

definition tsLayerBypassDiagnostics :: "string list \<Rightarrow> bool \<Rightarrow> bool \<Rightarrow> bool \<Rightarrow> string list" where
  "tsLayerBypassDiagnostics base ambiguous unclassified truncated =
     (let d1 = (if ambiguous then base @ [DiagLayerBypassAmbiguousLayer]
                else if unclassified \<and> \<not> containsDiagnosticCode base DiagLayerBypassAmbiguousLayer
                then base @ [DiagLayerBypassAmbiguousLayer] else base)
      in if truncated \<and> \<not> containsDiagnosticCode d1 DiagLayerBypassBudgetExceeded
         then d1 @ [DiagLayerBypassBudgetExceeded] else d1)"

definition cmp_witness :: "bypass_witness \<Rightarrow> bypass_witness \<Rightarrow> int" where
  "cmp_witness a b = cmp_or [cmp_compare (bw_source a) (bw_source b), cmp_compare (bw_sink a) (bw_sink b)]"

text \<open>The tail of both builders: the verdict and its coverage, from the search's result.\<close>

definition assembleLayerBypassResult ::
  "bypass_search \<Rightarrow> string list \<Rightarrow> string list \<Rightarrow> bool \<Rightarrow> bool \<Rightarrow> bypass_result" where
  "assembleLayerBypassResult s required diagnostics complete ambiguous =
     \<lparr>br_witnesses = stable_sort cmp_witness (bp_witnesses s),
      br_complete = (complete \<and> \<not> bp_truncated_search s),
      br_pairs_evaluated = bp_evaluated s, br_pairs_truncated = bp_truncated_pairs s,
      br_nodes_matched = length required, br_nodes_visited = bp_nodes_visited s,
      br_diagnostics = tsLayerBypassDiagnostics diagnostics ambiguous (bp_unclassified s) (bp_truncated_search s)\<rparr>"

record go_snapshot =
  gs_call_facts :: "call_fact list"
  gs_call_graph_complete :: bool
  gs_sources :: "string list"
  gs_sources_complete :: bool
  gs_positions :: node_positions
  gs_dirs_complete :: bool
  gs_diagnostics :: "string list"

definition BuildGoLayerBypass ::
  "(nat \<Rightarrow> bool) \<Rightarrow> go_snapshot \<Rightarrow> string list \<Rightarrow> bypass_layer \<Rightarrow> int \<Rightarrow> bypass_result option" where
  "BuildGoLayerBypass ctx g sink_patterns layer max_nodes =
     (let adj = buildCallGraphAdjacency (gs_call_facts g);
          sinks = sort_strings sink_patterns;
          required = requiredLayerNodeSet layer (gs_positions g);
          ambiguous = (bl_prefixes layer = [] \<or> required = []);
          bypass_adj = (if ambiguous then adj else removeLayerNodesFromAdjacency adj required)
      in map_option
           (\<lambda>s. assembleLayerBypassResult s required (gs_diagnostics g)
                 (gs_call_graph_complete g \<and> gs_sources_complete g \<and> gs_dirs_complete g) ambiguous)
           (searchLayerBypassWitnesses ctx (gs_sources g) sinks bypass_adj (gs_positions g) layer max_nodes
              (\<not> gs_call_graph_complete g) (gs_dirs_complete g) ambiguous))"

definition distinct_keys :: "string list \<Rightarrow> string list" where
  "distinct_keys xs = foldl (\<lambda>ks k. insert_key k ks) [] xs"

definition tsReachabilitySourcesReachedASink :: "reachability_fact list \<Rightarrow> string list" where
  "tsReachabilitySourcesReachedASink facts = mapKeysSorted (distinct_keys (map rf_source facts))"

definition tsLayerBypassSinks :: "reachability_fact list \<Rightarrow> string list" where
  "tsLayerBypassSinks facts = mapKeysSorted (distinct_keys (map rf_sink facts))"

definition tsReachabilityGapDiagnosticCodes :: "string list" where
  "tsReachabilityGapDiagnosticCodes =
     [''ts_reachability_dynamic_import_gap'', ''ts_reachability_unresolved_handler_gap'',
      ''ts_reachability_local_call_not_followed_gap'', ''ts_reachability_type_only_gap'',
      ''ts_reachability_unresolved_type_gap'']"

definition tsReachabilityHasGap :: "string list \<Rightarrow> bool" where
  "tsReachabilityHasGap codes \<longleftrightarrow> (\<exists>c \<in> set codes. c \<in> set tsReachabilityGapDiagnosticCodes)"

record ts_model =
  tm_call_facts :: "call_fact list"
  tm_reachability :: "reachability_fact list"
  tm_files :: "string list"
  tm_complete :: bool
  tm_diagnostic_codes :: "string list"

definition BuildTypeScriptLayerBypassFromModel :: "(nat \<Rightarrow> bool) \<Rightarrow> ts_model \<Rightarrow> bypass_layer \<Rightarrow> bypass_result option" where
  "BuildTypeScriptLayerBypassFromModel ctx m layer =
     (let adj = buildCallGraphAdjacency (tm_call_facts m);
          positions = tsLayerBypassNodePositions (tm_call_facts m);
          (required, ambiguous) = tsLayerBypassRequiredLayerNodes (tm_files m) positions layer;
          bypass_adj = (if ambiguous then adj else removeLayerNodesFromAdjacency adj required)
      in map_option
           (\<lambda>s. assembleLayerBypassResult s required (tm_diagnostic_codes m)
                 (tm_complete m \<and> \<not> tsReachabilityHasGap (tm_diagnostic_codes m)) ambiguous)
           (tsLayerBypassRunSearch ctx (tsReachabilitySourcesReachedASink (tm_reachability m))
              (tsLayerBypassSinks (tm_reachability m)) bypass_adj positions layer ambiguous))"

section \<open>The search is breadth-first\<close>

text \<open>\<open>d\<close> is the depth of a visited node in the tree the parent map describes.\<close>

definition bfs_tree :: "adjacency \<Rightarrow> string \<Rightarrow> (string \<Rightarrow> nat) \<Rightarrow> bfs_frontier \<Rightarrow> bool" where
  "bfs_tree adj src d f \<longleftrightarrow>
     dom (map_of (fr_parents f)) = set (fr_visited f) \<and> src \<in> set (fr_visited f) \<and> d src = 0
     \<and> (\<forall>n p. map_of (fr_parents f) n = Some p \<longrightarrow> n \<noteq> src \<longrightarrow>
          p \<in> set (fr_visited f) \<and> n \<in> set (adj_of adj p) \<and> d n = Suc (d p))
     \<and> set (fr_queue f) \<subseteq> set (fr_visited f) \<and> sorted (map d (fr_queue f))"

definition bfs_inv :: "adjacency \<Rightarrow> string \<Rightarrow> (string \<Rightarrow> nat) \<Rightarrow> bfs_frontier \<Rightarrow> string set \<Rightarrow> bool" where
  "bfs_inv adj src d f D \<longleftrightarrow>
     bfs_tree adj src d f \<and> set (fr_visited f) = D \<union> set (fr_queue f)
     \<and> (\<forall>m \<in> D. \<forall>n \<in> set (adj_of adj m). n \<in> set (fr_visited f) \<and> d n \<le> Suc (d m))
     \<and> (\<forall>x \<in> set (fr_visited f). \<forall>y \<in> set (fr_queue f). d x \<le> Suc (d y))"

lemma bfs_tree_add:
  assumes "bfs_tree adj src d f" "n \<notin> set (fr_visited f)" "m \<in> set (fr_visited f)" "n \<in> set (adj_of adj m)"
    and "\<forall>x \<in> set (fr_visited f). d x \<le> Suc (d m)"
  shows "bfs_tree adj src (d(n := Suc (d m)))
    (f\<lparr>fr_visited := n # fr_visited f, fr_parents := AList.update n m (fr_parents f), fr_queue := fr_queue f @ [n]\<rparr>)"
proof -
  have q: "set (fr_queue f) \<subseteq> set (fr_visited f)" using assms(1) by (simp add: bfs_tree_def)
  then have same: "map (d(n := Suc (d m))) (fr_queue f) = map d (fr_queue f)"
    using assms(2) by auto
  have "sorted (map (d(n := Suc (d m))) (fr_queue f @ [n]))"
    using assms(1,5) q unfolding map_append same by (auto simp: sorted_append bfs_tree_def)
  then show ?thesis
    using assms unfolding bfs_tree_def by (auto simp: domIff)
qed

lemma bfs_enqueue_tree:
  assumes "bfs_tree adj src d f" "m \<in> set (fr_visited f)" "set ns \<subseteq> set (adj_of adj m)"
    and "\<forall>x \<in> set (fr_visited f). d x \<le> Suc (d m)" "\<forall>y \<in> set (fr_queue f). d m \<le> d y"
  shows "\<exists>d'. bfs_tree adj src d' (bfs_enqueue ns m f) \<and> (\<forall>x \<in> set (fr_visited f). d' x = d x)
    \<and> set (fr_visited (bfs_enqueue ns m f)) = set (fr_visited f) \<union> set ns
    \<and> set (fr_queue (bfs_enqueue ns m f)) = set (fr_queue f) \<union> (set ns - set (fr_visited f))
    \<and> (\<forall>x \<in> set (fr_visited (bfs_enqueue ns m f)). d' x \<le> Suc (d' m))
    \<and> (\<forall>y \<in> set (fr_queue (bfs_enqueue ns m f)). d' m \<le> d' y)"
  using assms
proof (induction ns arbitrary: d f)
  case Nil
  then show ?case by (intro exI [of _ d]) simp
next
  case (Cons n ns)
  show ?case
  proof (cases "n \<in> set (fr_visited f)")
    case True
    have "set ns \<subseteq> set (adj_of adj m)" using Cons.prems(3) by simp
    from Cons.IH [OF Cons.prems(1,2) this Cons.prems(4,5)] True show ?thesis by (auto simp: insert_absorb)
  next
    case False
    let ?d = "d(n := Suc (d m))"
    let ?f = "f\<lparr>fr_visited := n # fr_visited f, fr_parents := AList.update n m (fr_parents f), fr_queue := fr_queue f @ [n]\<rparr>"
    have mn: "m \<noteq> n" using False Cons.prems(2) by blast
    have t: "bfs_tree adj src ?d ?f"
      using bfs_tree_add [OF Cons.prems(1) False Cons.prems(2) _ Cons.prems(4)] Cons.prems(3) by simp
    have sub: "set (fr_queue f) \<subseteq> set (fr_visited f)" using Cons.prems(1) by (simp add: bfs_tree_def)
    have "\<exists>d'. bfs_tree adj src d' (bfs_enqueue ns m ?f) \<and> (\<forall>x \<in> set (fr_visited ?f). d' x = ?d x)
      \<and> set (fr_visited (bfs_enqueue ns m ?f)) = set (fr_visited ?f) \<union> set ns
      \<and> set (fr_queue (bfs_enqueue ns m ?f)) = set (fr_queue ?f) \<union> (set ns - set (fr_visited ?f))
      \<and> (\<forall>x \<in> set (fr_visited (bfs_enqueue ns m ?f)). d' x \<le> Suc (d' m))
      \<and> (\<forall>y \<in> set (fr_queue (bfs_enqueue ns m ?f)). d' m \<le> d' y)"
      by (rule Cons.IH [OF t]) (use Cons.prems mn sub in auto)
    then obtain d' where d': "bfs_tree adj src d' (bfs_enqueue ns m ?f)" "\<forall>x \<in> set (fr_visited ?f). d' x = ?d x"
      "set (fr_visited (bfs_enqueue ns m ?f)) = set (fr_visited ?f) \<union> set ns"
      "set (fr_queue (bfs_enqueue ns m ?f)) = set (fr_queue ?f) \<union> (set ns - set (fr_visited ?f))"
      "\<forall>x \<in> set (fr_visited (bfs_enqueue ns m ?f)). d' x \<le> Suc (d' m)"
      "\<forall>y \<in> set (fr_queue (bfs_enqueue ns m ?f)). d' m \<le> d' y"
      by blast
    have e: "bfs_enqueue (n # ns) m f = bfs_enqueue ns m ?f" using False by simp
    show ?thesis
      unfolding e
      by (rule exI [of _ d']) (use d' False in auto)
  qed
qed

lemma bfs_inv_step:
  assumes "bfs_inv adj src d f D" "fr_queue f = m # rest"
  shows "\<exists>d'. bfs_inv adj src d' (bfs_enqueue (adj_of adj m) m (f\<lparr>fr_queue := rest\<rparr>)) (insert m D)"
proof -
  let ?f = "f\<lparr>fr_queue := rest\<rparr>"
  have tree: "bfs_tree adj src d ?f" and m: "m \<in> set (fr_visited ?f)"
    and vis: "\<forall>x \<in> set (fr_visited ?f). d x \<le> Suc (d m)" and rest: "\<forall>y \<in> set (fr_queue ?f). d m \<le> d y"
    using assms by (auto simp: bfs_inv_def bfs_tree_def)
  obtain d' where d': "bfs_tree adj src d' (bfs_enqueue (adj_of adj m) m ?f)" "\<forall>x \<in> set (fr_visited ?f). d' x = d x"
    "set (fr_visited (bfs_enqueue (adj_of adj m) m ?f)) = set (fr_visited ?f) \<union> set (adj_of adj m)"
    "set (fr_queue (bfs_enqueue (adj_of adj m) m ?f)) = set rest \<union> (set (adj_of adj m) - set (fr_visited ?f))"
    "\<forall>x \<in> set (fr_visited (bfs_enqueue (adj_of adj m) m ?f)). d' x \<le> Suc (d' m)"
    "\<forall>y \<in> set (fr_queue (bfs_enqueue (adj_of adj m) m ?f)). d' m \<le> d' y"
    using bfs_enqueue_tree [OF tree m subset_refl vis rest] by auto
  have v: "set (fr_visited f) = insert m D \<union> set rest"
    using assms by (auto simp: bfs_inv_def)
  have old: "\<forall>x \<in> D. \<forall>n \<in> set (adj_of adj x). n \<in> set (fr_visited f) \<and> d n \<le> Suc (d x)"
    using assms(1) unfolding bfs_inv_def by blast
  show ?thesis
    unfolding bfs_inv_def
  proof (intro exI [of _ d'] conjI ballI)
    show "bfs_tree adj src d' (bfs_enqueue (adj_of adj m) m ?f)" by (rule d'(1))
    show "set (fr_visited (bfs_enqueue (adj_of adj m) m ?f)) =
        insert m D \<union> set (fr_queue (bfs_enqueue (adj_of adj m) m ?f))"
      using d'(3,4) v by auto
  next
    fix x n
    assume x: "x \<in> insert m D" and n: "n \<in> set (adj_of adj x)"
    show "n \<in> set (fr_visited (bfs_enqueue (adj_of adj m) m ?f))"
      using x n d'(3) old by auto
    show "d' n \<le> Suc (d' x)"
    proof (cases "x = m")
      case True
      then show ?thesis using d'(3,5) n by auto
    next
      case False
      then have "n \<in> set (fr_visited f)" "d n \<le> Suc (d x)" "x \<in> set (fr_visited f)"
        using x n old v by auto
      then show ?thesis using d'(2) by simp
    qed
  next
    fix x y
    assume "x \<in> set (fr_visited (bfs_enqueue (adj_of adj m) m ?f))"
      "y \<in> set (fr_queue (bfs_enqueue (adj_of adj m) m ?f))"
    then have "d' x \<le> Suc (d' m)" "d' m \<le> d' y" using d'(5,6) by auto
    then show "d' x \<le> Suc (d' y)" by simp
  qed
qed

lemma bfs_loop_inv:
  assumes "bfs_inv adj src d f D" "bfs_loop ctx adj b f = (b', f', hit)"
  shows "\<exists>d' D'. bfs_inv adj src d' f' D' \<and> (\<not> hit \<longrightarrow> fr_queue f' = [])"
  using assms
proof (induction ctx adj b f arbitrary: d D rule: bfs_loop.induct)
  case (1 ctx adj b f)
  show ?case
  proof (cases "fr_queue f")
    case Nil
    then show ?thesis
      using "1.prems" by (subst (asm) bfs_loop.simps) auto
  next
    case (Cons m rest)
    obtain b1 dead where c: "ctx_err ctx b = (b1, dead)" by fastforce
    show ?thesis
    proof (cases "dead \<or> bb_max b1 > 0 \<and> int (bb_visited b1) \<ge> bb_max b1")
      case True
      then have "f' = f \<and> hit"
        using "1.prems"(2) Cons c by (subst (asm) bfs_loop.simps) (auto split: if_splits)
      then show ?thesis using "1.prems"(1) by blast
    next
      case False
      have r: "bfs_loop ctx adj (b1\<lparr>bb_visited := bb_visited b1 + 1\<rparr>)
          (bfs_enqueue (adj_of adj m) m (f\<lparr>fr_queue := rest\<rparr>)) = (b', f', hit)"
        using "1.prems"(2) Cons c False by (subst (asm) bfs_loop.simps) auto
      obtain d2 where "bfs_inv adj src d2 (bfs_enqueue (adj_of adj m) m (f\<lparr>fr_queue := rest\<rparr>)) (insert m D)"
        using bfs_inv_step [OF "1.prems"(1) Cons] by blast
      from "1.IH" [OF Cons c [symmetric] refl _ _ this r] False show ?thesis by auto
    qed
  qed
qed

text \<open>The parent map a search returns, with and without a completed walk.\<close>

lemma shortestPaths_tree:
  assumes "shortestPaths ctx source adj b = (b', parents, hit)"
  shows "\<exists>d. source \<in> dom (map_of parents) \<and> d source = 0
    \<and> (\<forall>n p. map_of parents n = Some p \<longrightarrow> n \<noteq> source \<longrightarrow>
         p \<in> dom (map_of parents) \<and> n \<in> set (adj_of adj p) \<and> d n = Suc (d p))
    \<and> (\<not> hit \<longrightarrow> (\<forall>m \<in> dom (map_of parents). \<forall>n \<in> set (adj_of adj m).
         n \<in> dom (map_of parents) \<and> d n \<le> Suc (d m)))"
proof -
  let ?f = "\<lparr>fr_parents = [(source, [])], fr_visited = [source], fr_queue = [source]\<rparr>"
  obtain f where f: "bfs_loop ctx adj b ?f = (b', f, hit)" "parents = fr_parents f"
    using assms by (auto simp: shortestPaths_def Let_def split: prod.splits)
  have "bfs_inv adj source (\<lambda>_. 0) ?f {}"
    by (auto simp: bfs_inv_def bfs_tree_def split: if_splits)
  from bfs_loop_inv [OF this f(1)] obtain d D where i: "bfs_inv adj source d f D" "\<not> hit \<longrightarrow> fr_queue f = []"
    by blast
  show ?thesis
    by (rule exI [of _ d]) (use i f(2) in \<open>auto simp: bfs_inv_def bfs_tree_def\<close>)
qed

end
