(* ===== verification/CallGraphSearch.thy ===== *)
theory CallGraphSearch
  imports CallGraph
begin

text \<open>
  What the call-graph searches compute: the parent map of a search describes shortest
  paths, reconstruction walks it back and always returns, and the two searches report
  exactly what the edges they were given allow.
\<close>

section \<open>Paths\<close>

fun path_in :: "adjacency \<Rightarrow> string list \<Rightarrow> bool" where
  "path_in adj [] \<longleftrightarrow> False"
| "path_in adj [x] \<longleftrightarrow> True"
| "path_in adj (x # y # ys) \<longleftrightarrow> y \<in> set (adj_of adj x) \<and> path_in adj (y # ys)"

definition path_between :: "adjacency \<Rightarrow> string \<Rightarrow> string \<Rightarrow> string list \<Rightarrow> bool" where
  "path_between adj s t xs \<longleftrightarrow> path_in adj xs \<and> hd xs = s \<and> last xs = t"

definition shortest_path :: "adjacency \<Rightarrow> string \<Rightarrow> string \<Rightarrow> string list \<Rightarrow> bool" where
  "shortest_path adj s t xs \<longleftrightarrow>
     path_between adj s t xs \<and> (\<forall>ys. path_between adj s t ys \<longrightarrow> length xs \<le> length ys)"

lemma path_in_nonempty: "path_in adj xs \<Longrightarrow> xs \<noteq> []"
  by (cases xs) auto

lemma path_in_snoc: "path_in adj xs \<Longrightarrow> y \<in> set (adj_of adj (last xs)) \<Longrightarrow> path_in adj (xs @ [y])"
  by (induction adj xs rule: path_in.induct) auto

lemma path_in_edges:
  "path_in adj xs \<Longrightarrow> Suc i < length xs \<Longrightarrow> xs ! Suc i \<in> set (adj_of adj (xs ! i))"
proof (induction adj xs arbitrary: i rule: path_in.induct)
  case (3 adj x y ys)
  then show ?case by (cases i) auto
qed auto

definition bfs_parents :: "adjacency \<Rightarrow> string \<Rightarrow> (string \<Rightarrow> nat) \<Rightarrow> (string \<times> string) list \<Rightarrow> bool" where
  "bfs_parents adj source d parents \<longleftrightarrow>
     source \<in> dom (map_of parents) \<and> d source = 0
     \<and> (\<forall>n p. map_of parents n = Some p \<longrightarrow> n \<noteq> source \<longrightarrow>
          p \<in> dom (map_of parents) \<and> n \<in> set (adj_of adj p) \<and> d n = Suc (d p))"

definition bfs_closed :: "adjacency \<Rightarrow> (string \<Rightarrow> nat) \<Rightarrow> (string \<times> string) list \<Rightarrow> bool" where
  "bfs_closed adj d parents \<longleftrightarrow>
     (\<forall>m \<in> dom (map_of parents). \<forall>n \<in> set (adj_of adj m). n \<in> dom (map_of parents) \<and> d n \<le> Suc (d m))"

lemma shortestPaths_parents:
  assumes "shortestPaths ctx source adj b = (b', parents, hit)"
  obtains d where "bfs_parents adj source d parents" "\<not> hit \<Longrightarrow> bfs_closed adj d parents"
  using shortestPaths_tree [OF assms] unfolding bfs_parents_def bfs_closed_def by blast

lemma path_nodes_ok:
  assumes "bfs_parents adj source d parents"
  shows "n \<in> dom (map_of parents) \<Longrightarrow>
    \<exists>ns. path_nodes parents source n = Some ns \<and> path_between adj source n (rev ns) \<and> length ns = Suc (d n)"
proof (induction "d n" arbitrary: n)
  case 0
  obtain p where p: "map_of parents n = Some p" using "0.prems" by blast
  have n: "n = source"
  proof (rule ccontr)
    assume "n \<noteq> source"
    then have "d n = Suc (d p)" using p assms unfolding bfs_parents_def by blast
    then show False using "0.hyps" by simp
  qed
  have "path_nodes parents source n = Some [n]" using n by (subst path_nodes.simps) simp
  then show ?case
    using n "0.hyps" by (simp add: path_between_def)
next
  case (Suc k)
  have ne: "n \<noteq> source"
  proof
    assume "n = source"
    then have "d n = 0" using assms by (simp add: bfs_parents_def)
    then show False using Suc.hyps(2) by simp
  qed
  obtain p where p: "map_of parents n = Some p" using Suc.prems by blast
  then have e: "p \<in> dom (map_of parents)" "n \<in> set (adj_of adj p)" "d n = Suc (d p)"
    using assms ne unfolding bfs_parents_def by blast+
  then obtain ns where ns: "path_nodes parents source p = Some ns" "path_between adj source p (rev ns)"
      "length ns = Suc (d p)"
    using Suc.hyps(1) [of p] Suc.hyps(2) by auto
  have "path_nodes parents source n = Some (n # ns)"
    using ne p ns(1) by (subst path_nodes.simps) (simp add: parent_of_def)
  moreover have "path_between adj source n (rev (n # ns))"
  proof -
    have i: "path_in adj (rev ns)" "hd (rev ns) = source" "last (rev ns) = p"
      using ns(2) by (simp_all add: path_between_def)
    have "path_in adj (rev ns @ [n])" using i(1) e(2) i(3) by (simp add: path_in_snoc)
    moreover have "hd (rev ns @ [n]) = source" using i(2) path_in_nonempty [OF i(1)] by simp
    ultimately show ?thesis by (simp add: path_between_def)
  qed
  ultimately show ?case using ns(3) e(3) by simp
qed

lemma closed_reaches:
  assumes "bfs_closed adj d parents"
  shows "path_in adj xs \<Longrightarrow> hd xs \<in> dom (map_of parents) \<Longrightarrow>
    last xs \<in> dom (map_of parents) \<and> d (last xs) + 1 \<le> d (hd xs) + length xs"
proof (induction xs rule: induct_list012)
  case (3 x y ys)
  have "x \<in> dom (map_of parents)" "y \<in> set (adj_of adj x)" using "3.prems" by simp_all
  then have y: "y \<in> dom (map_of parents)" "d y \<le> Suc (d x)"
    using assms unfolding bfs_closed_def by blast+
  have "path_in adj (y # ys)" using "3.prems" by simp
  from "3.IH"(2) [OF this] y have "last (y # ys) \<in> dom (map_of parents) \<and> d (last (y # ys)) + 1 \<le> d y + length (y # ys)"
    by simp
  with y(2) show ?case by simp
qed simp_all

text \<open>Reconstruction always returns on the parent map of a search, and returns a path.\<close>

lemma reconstruct_some:
  assumes "shortestPaths ctx source adj b = (b', parents, hit)"
  obtains path ok where "reconstructReachabilityPath parents source sink = Some (path, ok)"
    "ok \<Longrightarrow> path_between adj source sink path"
    "\<not> hit \<Longrightarrow> ok \<longleftrightarrow> (\<exists>xs. path_between adj source sink xs)"
    "\<not> hit \<Longrightarrow> ok \<Longrightarrow> shortest_path adj source sink path"
proof -
  obtain d where d: "bfs_parents adj source d parents" and closed: "\<not> hit \<Longrightarrow> bfs_closed adj d parents"
    using shortestPaths_parents [OF assms] by blast
  have src: "source \<in> dom (map_of parents)" "d source = 0" using d by (auto simp: bfs_parents_def)
  have reach: "sink \<in> dom (map_of parents) \<and> d sink + 1 \<le> length xs"
    if "\<not> hit" "path_between adj source sink xs" for xs
    using closed_reaches [OF closed [OF that(1)], of xs] that(2) src by (auto simp: path_between_def)
  show thesis
  proof (cases "sink \<in> dom (map_of parents)")
    case False
    have r: "reconstructReachabilityPath parents source sink = Some ([], False)"
      using False by (simp add: reconstructReachabilityPath_def domIff)
    show thesis
      by (rule that [OF r]) (use False reach in blast)+
  next
    case True
    obtain ns where ns: "path_nodes parents source sink = Some ns" "path_between adj source sink (rev ns)"
        "length ns = Suc (d sink)"
      using path_nodes_ok [OF d True] by blast
    have r: "reconstructReachabilityPath parents source sink = Some (rev ns, True)"
      using True ns(1) by (auto simp: reconstructReachabilityPath_def)
    show thesis
    proof (rule that [OF r])
      show "path_between adj source sink (rev ns)" by (rule ns(2))
      show "True \<longleftrightarrow> (\<exists>xs. path_between adj source sink xs)" using ns(2) by blast
      show "shortest_path adj source sink (rev ns)" if "\<not> hit"
        using ns(2,3) reach [OF that] by (auto simp: shortest_path_def)
    qed
  qed
qed

section \<open>Adjacency\<close>

lemma adj_of_add: "adj_of (add_call tmp f) n =
  (if n = cf_from f then insert_key (cf_to f) (adj_of tmp n) else adj_of tmp n)"
  by (simp add: adj_of_def add_call_def)

lemma fold_add_calls:
  "distinct (adj_of tmp n) \<Longrightarrow>
   distinct (adj_of (foldl add_call tmp facts) n)
   \<and> set (adj_of (foldl add_call tmp facts) n) = set (adj_of tmp n) \<union> {cf_to f |f. f \<in> set facts \<and> cf_from f = n}"
proof (induction facts arbitrary: tmp)
  case Nil
  then show ?case by simp
next
  case (Cons f facts)
  have "distinct (adj_of (add_call tmp f) n)"
    using Cons.prems by (auto simp: adj_of_add insert_key_def)
  from Cons.IH [OF this] show ?case
    by (auto simp: adj_of_add insert_key_def split: if_splits)
qed

lemma adj_of_build: "adj_of (buildCallGraphAdjacency facts) n = sort_strings (adj_of (foldl add_call [] facts) n)"
proof -
  have "map_of (map (\<lambda>(k, tos). (k, mapKeysSorted tos)) m) n = map_option mapKeysSorted (map_of m n)"
    for m :: adjacency
    by (rule map_of_map_value)
  then show ?thesis
    by (simp add: adj_of_def buildCallGraphAdjacency_def mapKeysSorted_def sort_strings_def split: option.splits)
qed

lemma sort_strings_distinct: "distinct xs \<Longrightarrow> sort_strings xs = sorted_list_of_set (set xs)"
proof -
  assume d: "distinct xs"
  have s: "set (sort_strings xs) = set xs" using sort_strings_mset [of xs] by (rule mset_eq_setD)
  have "distinct (sort_strings xs)" using d mset_eq_imp_distinct_iff [OF sort_strings_mset [of xs]] by blast
  moreover have "sorted (sort_strings xs)" by (rule sort_strings_sorted)
  ultimately have "sorted_list_of_set (set (sort_strings xs)) = sort_strings xs"
    by (metis sorted_list_of_set.idem_if_sorted_distinct)
  then show ?thesis using s by simp
qed

lemma adjacency_sorted:
  "adj_of (buildCallGraphAdjacency facts) n = sorted_list_of_set {cf_to f |f. f \<in> set facts \<and> cf_from f = n}"
proof -
  have "distinct (adj_of (foldl add_call [] facts) n)
      \<and> set (adj_of (foldl add_call [] facts) n) = {cf_to f |f. f \<in> set facts \<and> cf_from f = n}"
    using fold_add_calls [of "[]" n facts] by (simp add: adj_of_def)
  then show ?thesis by (simp add: adj_of_build sort_strings_distinct)
qed

lemma build_edge: "t \<in> set (adj_of (buildCallGraphAdjacency facts) n) \<longleftrightarrow>
  (\<exists>f \<in> set facts. cf_from f = n \<and> cf_to f = t)"
  by (auto simp: adjacency_sorted)

lemma distinct_add_call: "distinct (map fst tmp) \<Longrightarrow> distinct (map fst (add_call tmp f))"
  by (simp add: add_call_def)

lemma build_distinct: "distinct (map fst (buildCallGraphAdjacency facts))"
proof -
  have "distinct (map fst (foldl add_call tmp facts))" if "distinct (map fst tmp)" for tmp
    using that by (induction facts arbitrary: tmp) (auto simp: distinct_add_call)
  then show ?thesis
    by (simp add: buildCallGraphAdjacency_def case_prod_unfold comp_def)
qed

lemma adj_of_removed:
  assumes "distinct (map fst adj)"
  shows "adj_of (removeLayerNodesFromAdjacency adj removed) n =
    (if n \<in> set removed then [] else keptNeighbors (adj_of adj n) removed)"
  using assms
proof (induction adj)
  case Nil
  then show ?case by (simp add: removeLayerNodesFromAdjacency_def adj_of_def keptNeighbors_def)
next
  case (Cons e adj)
  obtain k tos where e: "e = (k, tos)" by fastforce
  have k: "map_of adj k = None" using Cons.prems e by (simp add: map_of_eq_None_iff)
  have ih: "adj_of (removeLayerNodesFromAdjacency adj removed) n =
      (if n \<in> set removed then [] else keptNeighbors (adj_of adj n) removed)"
    using Cons by simp
  have split: "removeLayerNodesFromAdjacency (e # adj) removed =
      (if k \<in> set removed \<or> keptNeighbors tos removed = [] then removeLayerNodesFromAdjacency adj removed
       else (k, keptNeighbors tos removed) # removeLayerNodesFromAdjacency adj removed)"
    by (simp add: removeLayerNodesFromAdjacency_def e)
  have empty: "adj_of adj k = []" using k by (simp add: adj_of_def)
  have head: "adj_of ((k, ts) # m) z = (if z = k then ts else adj_of m z)" for ts m z
    by (simp add: adj_of_def)
  show ?case
    unfolding split using ih empty by (auto simp: e head keptNeighbors_def)
qed

section \<open>Budgets and contexts\<close>

text \<open>A context that has been cancelled stays cancelled, as package context documents.\<close>

definition ctx_sticky :: "(nat \<Rightarrow> bool) \<Rightarrow> bool" where
  "ctx_sticky ctx \<longleftrightarrow> (\<forall>m n. m \<le> n \<longrightarrow> ctx m \<longrightarrow> ctx n)"

lemma ctx_stickyD: "ctx_sticky ctx \<Longrightarrow> \<not> ctx n \<Longrightarrow> m \<le> n \<Longrightarrow> \<not> ctx m"
  unfolding ctx_sticky_def by blast

definition budget_ok :: "bfs_budget \<Rightarrow> bool" where
  "budget_ok b \<longleftrightarrow> (bb_max b > 0 \<longrightarrow> int (bb_visited b) \<le> bb_max b)"

definition budget_step :: "bfs_budget \<Rightarrow> bfs_budget \<Rightarrow> bool" where
  "budget_step b b' \<longleftrightarrow> bb_max b' = bb_max b \<and> bb_checks b \<le> bb_checks b' \<and> (budget_ok b \<longrightarrow> budget_ok b')"

lemma budget_step_refl [simp]: "budget_step b b"
  by (simp add: budget_step_def)

lemma budget_step_trans: "budget_step a b \<Longrightarrow> budget_step b c \<Longrightarrow> budget_step a c"
  by (simp add: budget_step_def)

lemma budget_step_check: "budget_step b (fst (ctx_err ctx b))"
  by (simp add: budget_step_def budget_ok_def ctx_err_def)

lemma bfs_loop_budget: "budget_step b (fst (bfs_loop ctx adj b f))"
proof (induction ctx adj b f rule: bfs_loop.induct)
  case (1 ctx adj b f)
  show ?case
  proof (cases "fr_queue f")
    case Nil
    then show ?thesis by (simp add: bfs_loop.simps)
  next
    case (Cons m rest)
    obtain b1 dead where c: "ctx_err ctx b = (b1, dead)" by fastforce
    have b1: "budget_step b b1" using budget_step_check [of b ctx] c by simp
    show ?thesis
    proof (cases "dead \<or> bb_max b1 > 0 \<and> int (bb_visited b1) \<ge> bb_max b1")
      case True
      then show ?thesis using b1 Cons c by (auto simp: bfs_loop.simps)
    next
      case False
      have "budget_step b1 (b1\<lparr>bb_visited := bb_visited b1 + 1\<rparr>)"
        using False by (auto simp: budget_step_def budget_ok_def)
      moreover have "budget_step (b1\<lparr>bb_visited := bb_visited b1 + 1\<rparr>)
          (fst (bfs_loop ctx adj (b1\<lparr>bb_visited := bb_visited b1 + 1\<rparr>)
             (bfs_enqueue (adj_of adj m) m (f\<lparr>fr_queue := rest\<rparr>))))"
        using "1" [OF Cons c [symmetric] refl] False by simp
      ultimately show ?thesis
        using b1 Cons c False by (auto simp: bfs_loop.simps intro: budget_step_trans)
    qed
  qed
qed

lemma shortestPaths_budget:
  "shortestPaths ctx source adj b = (b', parents, hit) \<Longrightarrow> budget_step b b'"
  using bfs_loop_budget [of b ctx adj "\<lparr>fr_parents = [(source, [])], fr_visited = [source], fr_queue = [source]\<rparr>"]
  by (auto simp: shortestPaths_def split: prod.splits)

section \<open>Reachability facts\<close>

text \<open>A fact is sound when it names a source, a sink and a shortest call path between them.\<close>

definition sound_fact :: "adjacency \<Rightarrow> string set \<Rightarrow> string set \<Rightarrow> reachability_fact \<Rightarrow> bool" where
  "sound_fact adj sources sinks f \<longleftrightarrow>
     (\<exists>s t p. f = reachability_fact_of s t p \<and> s \<in> sources \<and> t \<in> sinks \<and> shortest_path adj s t p)"

definition complete_facts :: "adjacency \<Rightarrow> string set \<Rightarrow> string set \<Rightarrow> reachability_fact list \<Rightarrow> bool" where
  "complete_facts adj sources sinks fs \<longleftrightarrow>
     (\<forall>s \<in> sources. \<forall>t \<in> sinks. (\<exists>p. path_between adj s t p) \<longrightarrow> (\<exists>f \<in> set fs. rf_source f = s \<and> rf_sink f = t))"

lemma facts_for_source:
  assumes "shortestPaths ctx source adj b = (b', parents, hit)" "hit \<longrightarrow> skip"
  shows "\<exists>facts. reachabilityFactsForSource source sinks parents skip (fs0, e0, t0)
      = Some (fs0 @ facts, if skip then e0 else e0 + length sinks, if skip then t0 + length sinks else t0)
    \<and> (\<forall>f \<in> set facts. sound_fact adj {source} (set sinks) f)
    \<and> (\<not> skip \<longrightarrow> complete_facts adj {source} (set sinks) facts)"
proof (induction sinks arbitrary: fs0 e0 t0)
  case Nil
  then show ?case by (auto simp: complete_facts_def)
next
  case (Cons t ts)
  have mono: "sound_fact adj {source} (set ts) f \<Longrightarrow> sound_fact adj {source} (set (t # ts)) f" for f
    unfolding sound_fact_def by auto
  show ?case
  proof (cases skip)
    case True
    then show ?thesis using Cons.IH [of fs0 e0 "t0 + 1"] mono by fastforce
  next
    case False
    then have nh: "\<not> hit" using assms(2) by blast
    obtain path ok where r: "reconstructReachabilityPath parents source t = Some (path, ok)"
      and ok: "ok \<longleftrightarrow> (\<exists>xs. path_between adj source t xs)" "ok \<Longrightarrow> shortest_path adj source t path"
      using reconstruct_some [OF assms(1), of t] nh by metis
    show ?thesis
    proof (cases ok)
      case False
      obtain facts where f: "reachabilityFactsForSource source ts parents skip (fs0, e0 + 1, t0)
          = Some (fs0 @ facts, e0 + 1 + length ts, t0)"
        "\<forall>f \<in> set facts. sound_fact adj {source} (set ts) f" "complete_facts adj {source} (set ts) facts"
        using Cons.IH [of fs0 "e0 + 1" t0] \<open>\<not> skip\<close> by auto
      have "complete_facts adj {source} (set (t # ts)) facts"
        using f(3) ok(1) False unfolding complete_facts_def by auto
      then show ?thesis
        using f r False \<open>\<not> skip\<close> mono by auto
    next
      case True
      let ?fact = "reachability_fact_of source t path"
      obtain facts where f: "reachabilityFactsForSource source ts parents skip (fs0 @ [?fact], e0 + 1, t0)
          = Some ((fs0 @ [?fact]) @ facts, e0 + 1 + length ts, t0)"
        "\<forall>f \<in> set facts. sound_fact adj {source} (set ts) f" "complete_facts adj {source} (set ts) facts"
        using Cons.IH [of "fs0 @ [?fact]" "e0 + 1" t0] \<open>\<not> skip\<close> by auto
      have "complete_facts adj {source} (set (t # ts)) (?fact # facts)"
        using f(3) unfolding complete_facts_def by (auto simp: reachability_fact_of_def)
      moreover have "\<forall>f \<in> set (?fact # facts). sound_fact adj {source} (set (t # ts)) f"
        using f(2) mono ok(2) [OF True] by (auto simp: sound_fact_def)
      moreover have "reachabilityFactsForSource source (t # ts) parents skip (fs0, e0, t0)
          = Some (fs0 @ (?fact # facts), e0 + length (t # ts), t0)"
        using f(1) r True \<open>\<not> skip\<close> by simp
      ultimately show ?thesis using \<open>\<not> skip\<close> by (intro exI [of _ "?fact # facts"]) simp
    qed
  qed
qed

text \<open>One whole run: never stuck, facts sound, pairs accounted for, and complete when nothing was cut.\<close>

definition source_run ::
  "(nat \<Rightarrow> bool) \<Rightarrow> adjacency \<Rightarrow> string list \<Rightarrow> string list \<Rightarrow> bool \<Rightarrow> bfs_budget \<Rightarrow> reachability_search
   \<Rightarrow> bfs_budget \<Rightarrow> reachability_search \<Rightarrow> reachability_fact list \<Rightarrow> bool" where
  "source_run ctx adj sources sinks inc b s b' s' fs \<longleftrightarrow>
     budget_step b b' \<and> rs_facts s' = rs_facts s @ fs
     \<and> (\<forall>f \<in> set fs. sound_fact adj (set sources) (set sinks) f)
     \<and> rs_evaluated s' + rs_truncated_pairs s' \<le> rs_evaluated s + rs_truncated_pairs s + length sources * length sinks
     \<and> (\<not> rs_truncated_search s' \<longrightarrow> \<not> rs_truncated_search s \<and>
          rs_evaluated s' + rs_truncated_pairs s' = rs_evaluated s + rs_truncated_pairs s + length sources * length sinks)
     \<and> (ctx_sticky ctx \<longrightarrow> \<not> ctx (bb_checks b') \<longrightarrow> \<not> rs_truncated_search s' \<longrightarrow> \<not> inc \<longrightarrow>
          complete_facts adj (set sources) (set sinks) fs
          \<and> rs_evaluated s' = rs_evaluated s + length sources * length sinks)"

lemma source_run_cons:
  assumes sp: "shortestPaths ctx source adj b0 = (b1, parents, hit)" and b0: "budget_step b b0"
    and b2: "(b2, cancelled) = (if hit then (b1, True) else ctx_err ctx b1)"
    and facts: "\<forall>f \<in> set facts. sound_fact adj {source} (set sinks) f"
      "\<not> (hit \<or> cancelled \<or> inc) \<longrightarrow> complete_facts adj {source} (set sinks) facts"
    and s1: "s1 = s\<lparr>rs_facts := rs_facts s @ facts,
        rs_evaluated := rs_evaluated s + (if hit \<or> cancelled \<or> inc then 0 else length sinks),
        rs_truncated_pairs := rs_truncated_pairs s + (if hit \<or> cancelled \<or> inc then length sinks else 0),
        rs_truncated_search := (rs_truncated_search s \<or> hit)\<rparr>"
    and run: "source_run ctx adj sources sinks inc b2 s1 b' s' fs"
  shows "source_run ctx adj (source # sources) sinks inc b s b' s' (facts @ fs)"
proof -
  have b12: "budget_step b1 b2" using b2 budget_step_check [of b1 ctx] by (metis fst_conv prod.inject budget_step_refl)
  have step: "budget_step b b'"
    using b0 shortestPaths_budget [OF sp] b12 run unfolding source_run_def by (blast intro: budget_step_trans)
  have snd1: "\<forall>f \<in> set (facts @ fs). sound_fact adj (set (source # sources)) (set sinks) f"
    using facts(1) run unfolding source_run_def sound_fact_def by fastforce
  have count: "rs_evaluated s1 + rs_truncated_pairs s1 = rs_evaluated s + rs_truncated_pairs s + length sinks"
    using s1 by simp
  have keep: "\<not> rs_truncated_search s1 \<longrightarrow> \<not> rs_truncated_search s \<and> \<not> hit" using s1 by simp
  have final: "complete_facts adj (set (source # sources)) (set sinks) (facts @ fs)
      \<and> rs_evaluated s' = rs_evaluated s + length (source # sources) * length sinks"
    if sticky: "ctx_sticky ctx" and alive: "\<not> ctx (bb_checks b')" and nt: "\<not> rs_truncated_search s'" and ni: "\<not> inc"
  proof -
    have t1: "\<not> rs_truncated_search s1" using run nt unfolding source_run_def by blast
    then have nh: "\<not> hit" using keep by blast
    then have c: "ctx_err ctx b1 = (b2, cancelled)" using b2 by simp
    have "bb_checks b1 \<le> bb_checks b2" "bb_checks b2 \<le> bb_checks b'"
      using b12 run unfolding source_run_def budget_step_def by blast+
    then have "\<not> ctx (bb_checks b1)" using ctx_stickyD [OF sticky alive] by simp
    then have nc: "\<not> cancelled" using c by (simp add: ctx_err_def)
    have rest: "complete_facts adj (set sources) (set sinks) fs
        \<and> rs_evaluated s' = rs_evaluated s1 + length sources * length sinks"
      using run sticky alive nt ni unfolding source_run_def by blast
    have "complete_facts adj {source} (set sinks) facts" using facts(2) nh nc ni by blast
    then have "complete_facts adj (set (source # sources)) (set sinks) (facts @ fs)"
      using rest unfolding complete_facts_def by simp (metis UnI1 UnI2)
    then show ?thesis using rest s1 nh nc ni by simp
  qed
  have "rs_facts s' = rs_facts s @ (facts @ fs)" using run s1 by (simp add: source_run_def)
  moreover have "rs_evaluated s' + rs_truncated_pairs s'
      \<le> rs_evaluated s + rs_truncated_pairs s + length (source # sources) * length sinks"
    using run count unfolding source_run_def by simp
  moreover have "\<not> rs_truncated_search s' \<longrightarrow> \<not> rs_truncated_search s \<and>
      rs_evaluated s' + rs_truncated_pairs s'
        = rs_evaluated s + rs_truncated_pairs s + length (source # sources) * length sinks"
    using run count keep unfolding source_run_def by simp
  ultimately show ?thesis using step snd1 final unfolding source_run_def by blast
qed

lemma search_sources_run:
  "\<exists>b' s' fs. search_sources ctx sources sinks adj inc (b, s) = Some (b', s')
     \<and> source_run ctx adj sources sinks inc b s b' s' fs"
proof (induction sources arbitrary: b s)
  case Nil
  show ?case by (intro exI [of _ b] exI [of _ s] exI [of _ "[]"]) (simp add: source_run_def complete_facts_def)
next
  case (Cons source sources)
  obtain b0 dead where c: "ctx_err ctx b = (b0, dead)" by fastforce
  have b0: "budget_step b b0" using budget_step_check [of b ctx] c by simp
  show ?case
  proof (cases dead)
    case True
    then show ?thesis
      using c b0 by (intro exI [of _ b0] exI [of _ "s\<lparr>rs_truncated_search := True\<rparr>"] exI [of _ "[]"])
        (simp add: source_run_def)
  next
    case False
    obtain b1 parents hit where sp: "shortestPaths ctx source adj b0 = (b1, parents, hit)" by (metis prod_cases3)
    obtain b2 cancelled where b2: "(b2, cancelled) = (if hit then (b1, True) else ctx_err ctx b1)"
      by (metis surj_pair)
    let ?skip = "hit \<or> cancelled \<or> inc"
    obtain facts where f: "reachabilityFactsForSource source sinks parents ?skip ([], 0, 0)
          = Some (facts, if ?skip then 0 else length sinks, if ?skip then length sinks else 0)"
        "\<forall>f \<in> set facts. sound_fact adj {source} (set sinks) f"
        "\<not> ?skip \<longrightarrow> complete_facts adj {source} (set sinks) facts"
      using facts_for_source [OF sp, of ?skip sinks "[]" 0 0] by (metis add_0 append_Nil)
    define s1 where "s1 = s\<lparr>rs_facts := rs_facts s @ facts,
        rs_evaluated := rs_evaluated s + (if ?skip then 0 else length sinks),
        rs_truncated_pairs := rs_truncated_pairs s + (if ?skip then length sinks else 0),
        rs_truncated_search := (rs_truncated_search s \<or> hit)\<rparr>"
    obtain b' s' fs where r: "search_sources ctx sources sinks adj inc (b2, s1) = Some (b', s')"
        "source_run ctx adj sources sinks inc b2 s1 b' s' fs"
      using Cons.IH [of b2 s1] by blast
    have "search_sources ctx (source # sources) sinks adj inc (b, s) = Some (b', s')"
      using r(1) c False sp b2 [symmetric] f(1) s1_def by simp
    moreover have "source_run ctx adj (source # sources) sinks inc b s b' s' (facts @ fs)"
      by (rule source_run_cons [OF sp b0 b2 f(2,3) s1_def r(2)])
    ultimately show ?thesis by blast
  qed
qed

section \<open>Layer-bypass witnesses\<close>

definition sound_witness ::
  "string \<Rightarrow> string \<Rightarrow> node_positions \<Rightarrow> adjacency \<Rightarrow> string set \<Rightarrow> string set \<Rightarrow> bypass_witness \<Rightarrow> bool" where
  "sound_witness alg layer positions adj sources sinks w \<longleftrightarrow>
     (\<exists>s t p. w = bypass_witness_of alg layer s t p positions \<and> s \<in> sources \<and> t \<in> sinks
        \<and> shortest_path adj s t p \<and> stepPathFullyClassified p positions)"

definition complete_witnesses :: "adjacency \<Rightarrow> string set \<Rightarrow> string set \<Rightarrow> bypass_witness list \<Rightarrow> bool \<Rightarrow> bool" where
  "complete_witnesses adj sources sinks ws unclassified \<longleftrightarrow>
     (\<forall>s \<in> sources. \<forall>t \<in> sinks. (\<exists>p. path_between adj s t p) \<longrightarrow>
        unclassified \<or> (\<exists>w \<in> set ws. bw_source w = s \<and> bw_sink w = t))"

definition witnesses_added ::
  "bypass_search \<Rightarrow> bypass_witness list \<Rightarrow> bool \<Rightarrow> bool \<Rightarrow> nat \<Rightarrow> bypass_search" where
  "witnesses_added s ws unclassified skip n =
     s\<lparr>bp_witnesses := bp_witnesses s @ ws, bp_evaluated := bp_evaluated s + (if skip then 0 else n),
       bp_truncated_pairs := bp_truncated_pairs s + (if skip then n else 0),
       bp_unclassified := (bp_unclassified s \<or> unclassified)\<rparr>"

lemma witnesses_for_source:
  assumes "shortestPaths ctx source adj b = (b', parents, hit)" "hit \<longrightarrow> skip"
  shows "\<exists>ws u. collectWitnesses alg source sinks parents positions layer skip s0
      = Some (witnesses_added s0 ws u skip (length sinks))
    \<and> (\<forall>w \<in> set ws. sound_witness alg layer positions adj {source} (set sinks) w)
    \<and> (\<not> skip \<longrightarrow> complete_witnesses adj {source} (set sinks) ws u)"
proof (induction sinks arbitrary: s0)
  case Nil
  show ?case
    by (intro exI [of _ "[]"] exI [of _ False]) (simp add: complete_witnesses_def witnesses_added_def)
next
  case (Cons t ts)
  have mono: "sound_witness alg layer positions adj {source} (set ts) w
      \<Longrightarrow> sound_witness alg layer positions adj {source} (set (t # ts)) w" for w
    unfolding sound_witness_def by auto
  show ?case
  proof (cases skip)
    case True
    obtain ws u where w: "collectWitnesses alg source ts parents positions layer skip
          (s0\<lparr>bp_truncated_pairs := bp_truncated_pairs s0 + 1\<rparr>)
        = Some (witnesses_added (s0\<lparr>bp_truncated_pairs := bp_truncated_pairs s0 + 1\<rparr>) ws u skip (length ts))"
        "\<forall>w \<in> set ws. sound_witness alg layer positions adj {source} (set ts) w"
      using Cons.IH by blast
    then show ?thesis
      using True mono by (intro exI [of _ ws] exI [of _ u]) (simp add: witnesses_added_def)
  next
    case False
    then have nh: "\<not> hit" using assms(2) by blast
    let ?s1 = "s0\<lparr>bp_evaluated := bp_evaluated s0 + 1\<rparr>"
    obtain path ok where r: "reconstructReachabilityPath parents source t = Some (path, ok)"
      and ok: "ok \<longleftrightarrow> (\<exists>xs. path_between adj source t xs)" "ok \<Longrightarrow> shortest_path adj source t path"
      using reconstruct_some [OF assms(1), of t] nh by metis
    consider "\<not> ok" | "ok" "\<not> stepPathFullyClassified path positions" | "ok" "stepPathFullyClassified path positions"
      by blast
    then show ?thesis
    proof cases
      case 1
      obtain ws u where w: "collectWitnesses alg source ts parents positions layer skip ?s1
          = Some (witnesses_added ?s1 ws u skip (length ts))"
          "\<forall>w \<in> set ws. sound_witness alg layer positions adj {source} (set ts) w"
          "complete_witnesses adj {source} (set ts) ws u"
        using Cons.IH [of ?s1] False by blast
      have "complete_witnesses adj {source} (set (t # ts)) ws u"
        using w(3) 1 ok(1) unfolding complete_witnesses_def by auto
      then show ?thesis
        using w(1,2) False r 1 mono by (intro exI [of _ ws] exI [of _ u]) (simp add: witnesses_added_def)
    next
      case 2
      let ?s2 = "?s1\<lparr>bp_unclassified := True\<rparr>"
      obtain ws u where w: "collectWitnesses alg source ts parents positions layer skip ?s2
          = Some (witnesses_added ?s2 ws u skip (length ts))"
          "\<forall>w \<in> set ws. sound_witness alg layer positions adj {source} (set ts) w"
        using Cons.IH [of ?s2] by blast
      have "complete_witnesses adj {source} (set (t # ts)) ws True" by (simp add: complete_witnesses_def)
      then show ?thesis
        using w(1,2) False r 2 mono by (intro exI [of _ ws] exI [of _ True]) (simp add: witnesses_added_def)
    next
      case 3
      let ?w = "bypass_witness_of alg layer source t path positions"
      let ?s2 = "?s1\<lparr>bp_witnesses := bp_witnesses ?s1 @ [?w]\<rparr>"
      obtain ws u where w: "collectWitnesses alg source ts parents positions layer skip ?s2
          = Some (witnesses_added ?s2 ws u skip (length ts))"
          "\<forall>w \<in> set ws. sound_witness alg layer positions adj {source} (set ts) w"
          "complete_witnesses adj {source} (set ts) ws u"
        using Cons.IH [of ?s2] False by blast
      have "complete_witnesses adj {source} (set (t # ts)) (?w # ws) u"
        using w(3) unfolding complete_witnesses_def by (auto simp: bypass_witness_of_def)
      moreover have "sound_witness alg layer positions adj {source} (set (t # ts)) ?w"
        using ok(2) 3 unfolding sound_witness_def by auto
      ultimately show ?thesis
        using w(1,2) False r 3 mono by (intro exI [of _ "?w # ws"] exI [of _ u]) (simp add: witnesses_added_def)
    qed
  qed
qed

definition bypass_run ::
  "string \<Rightarrow> string \<Rightarrow> node_positions \<Rightarrow> (nat \<Rightarrow> bool) \<Rightarrow> adjacency \<Rightarrow> string list \<Rightarrow> string list \<Rightarrow> bool \<Rightarrow> bfs_budget
   \<Rightarrow> bypass_search \<Rightarrow> bfs_budget \<Rightarrow> bypass_search \<Rightarrow> bypass_witness list \<Rightarrow> bool" where
  "bypass_run alg layer positions ctx adj sources sinks inc b s b' s' ws \<longleftrightarrow>
     budget_step b b' \<and> bp_witnesses s' = bp_witnesses s @ ws
     \<and> (\<forall>w \<in> set ws. sound_witness alg layer positions adj (set sources) (set sinks) w)
     \<and> bp_evaluated s' + bp_truncated_pairs s' \<le> bp_evaluated s + bp_truncated_pairs s + length sources * length sinks
     \<and> (bp_unclassified s \<longrightarrow> bp_unclassified s')
     \<and> (\<not> bp_truncated_search s' \<longrightarrow> \<not> bp_truncated_search s)
     \<and> (ctx_sticky ctx \<longrightarrow> \<not> ctx (bb_checks b') \<longrightarrow> \<not> bp_truncated_search s' \<longrightarrow> \<not> inc \<longrightarrow>
          complete_witnesses adj (set sources) (set sinks) ws (bp_unclassified s')
          \<and> bp_evaluated s' = bp_evaluated s + length sources * length sinks)"

lemma bypass_run_cons:
  assumes sp: "shortestPaths ctx source adj b0 = (b1, parents, hit)" and b0: "budget_step b b0"
    and b2: "(b2, cancelled) = (if hit then (b1, True) else ctx_err ctx b1)"
    and facts: "\<forall>w \<in> set ws0. sound_witness alg layer positions adj {source} (set sinks) w"
      "\<not> (hit \<or> cancelled \<or> inc) \<longrightarrow> complete_witnesses adj {source} (set sinks) ws0 u"
    and s1: "s1 = witnesses_added (if hit then s\<lparr>bp_truncated_search := True\<rparr> else s) ws0 u
        (hit \<or> cancelled \<or> inc) (length sinks)"
    and run: "bypass_run alg layer positions ctx adj sources sinks inc b2 s1 b' s' ws"
  shows "bypass_run alg layer positions ctx adj (source # sources) sinks inc b s b' s' (ws0 @ ws)"
proof -
  have b12: "budget_step b1 b2" using b2 budget_step_check [of b1 ctx] by (metis fst_conv prod.inject budget_step_refl)
  have step: "budget_step b b'"
    using b0 shortestPaths_budget [OF sp] b12 run unfolding bypass_run_def by (blast intro: budget_step_trans)
  have snd1: "\<forall>w \<in> set (ws0 @ ws). sound_witness alg layer positions adj (set (source # sources)) (set sinks) w"
    using facts(1) run unfolding bypass_run_def sound_witness_def by fastforce
  have count: "bp_evaluated s1 + bp_truncated_pairs s1 = bp_evaluated s + bp_truncated_pairs s + length sinks"
    using s1 by (simp add: witnesses_added_def)
  have keep: "\<not> bp_truncated_search s1 \<longrightarrow> \<not> bp_truncated_search s \<and> \<not> hit"
    using s1 by (auto simp: witnesses_added_def split: if_splits)
  have flag: "bp_unclassified s1 \<longleftrightarrow> bp_unclassified s \<or> u"
    using s1 by (auto simp: witnesses_added_def split: if_splits)
  have up: "bp_unclassified s1 \<longrightarrow> bp_unclassified s'" using run unfolding bypass_run_def by blast
  have final: "complete_witnesses adj (set (source # sources)) (set sinks) (ws0 @ ws) (bp_unclassified s')
      \<and> bp_evaluated s' = bp_evaluated s + length (source # sources) * length sinks"
    if sticky: "ctx_sticky ctx" and alive: "\<not> ctx (bb_checks b')" and nt: "\<not> bp_truncated_search s'" and ni: "\<not> inc"
  proof -
    have t1: "\<not> bp_truncated_search s1" using run nt unfolding bypass_run_def by blast
    then have nh: "\<not> hit" using keep by blast
    then have c: "ctx_err ctx b1 = (b2, cancelled)" using b2 by simp
    have "bb_checks b1 \<le> bb_checks b2" "bb_checks b2 \<le> bb_checks b'"
      using b12 run unfolding bypass_run_def budget_step_def by blast+
    then have "\<not> ctx (bb_checks b1)" using ctx_stickyD [OF sticky alive] by simp
    then have nc: "\<not> cancelled" using c by (simp add: ctx_err_def)
    have rest: "complete_witnesses adj (set sources) (set sinks) ws (bp_unclassified s')
        \<and> bp_evaluated s' = bp_evaluated s1 + length sources * length sinks"
      using run sticky alive nt ni unfolding bypass_run_def by blast
    have "complete_witnesses adj {source} (set sinks) ws0 u" using facts(2) nh nc ni by blast
    then have "complete_witnesses adj (set (source # sources)) (set sinks) (ws0 @ ws) (bp_unclassified s')"
      using rest flag up unfolding complete_witnesses_def by simp (metis UnI1 UnI2)
    then show ?thesis using rest s1 nh nc ni by (simp add: witnesses_added_def)
  qed
  have "bp_witnesses s' = bp_witnesses s @ (ws0 @ ws)" using run s1 by (simp add: bypass_run_def witnesses_added_def)
  moreover have "bp_evaluated s' + bp_truncated_pairs s'
      \<le> bp_evaluated s + bp_truncated_pairs s + length (source # sources) * length sinks"
    using run count unfolding bypass_run_def by simp
  moreover have "\<not> bp_truncated_search s' \<longrightarrow> \<not> bp_truncated_search s"
    using run keep unfolding bypass_run_def by blast
  moreover have "bp_unclassified s \<longrightarrow> bp_unclassified s'" using flag up by blast
  ultimately show ?thesis using step snd1 final unfolding bypass_run_def by blast
qed

lemma bypass_sources_run:
  "\<exists>b' s' ws. bypass_sources alg ctx sources sinks adj positions layer inc (b, s) = Some (b', s')
     \<and> bypass_run alg layer positions ctx adj sources sinks inc b s b' s' ws"
proof (induction sources arbitrary: b s)
  case Nil
  show ?case
    by (intro exI [of _ b] exI [of _ s] exI [of _ "[]"]) (simp add: bypass_run_def complete_witnesses_def)
next
  case (Cons source sources)
  obtain b0 dead where c: "ctx_err ctx b = (b0, dead)" by fastforce
  have b0: "budget_step b b0" using budget_step_check [of b ctx] c by simp
  show ?case
  proof (cases dead)
    case True
    then show ?thesis
      using c b0 by (intro exI [of _ b0] exI [of _ "s\<lparr>bp_truncated_search := True\<rparr>"] exI [of _ "[]"])
        (simp add: bypass_run_def)
  next
    case False
    obtain b1 parents hit where sp: "shortestPaths ctx source adj b0 = (b1, parents, hit)" by (metis prod_cases3)
    obtain b2 cancelled where b2: "(b2, cancelled) = (if hit then (b1, True) else ctx_err ctx b1)"
      by (metis surj_pair)
    let ?skip = "hit \<or> cancelled \<or> inc"
    let ?s = "if hit then s\<lparr>bp_truncated_search := True\<rparr> else s"
    obtain ws0 u where f: "collectWitnesses alg source sinks parents positions layer ?skip ?s
          = Some (witnesses_added ?s ws0 u ?skip (length sinks))"
        "\<forall>w \<in> set ws0. sound_witness alg layer positions adj {source} (set sinks) w"
        "\<not> ?skip \<longrightarrow> complete_witnesses adj {source} (set sinks) ws0 u"
      using witnesses_for_source [OF sp, of ?skip alg sinks positions layer ?s] by blast
    define s1 where "s1 = witnesses_added ?s ws0 u ?skip (length sinks)"
    obtain b' s' ws where r: "bypass_sources alg ctx sources sinks adj positions layer inc (b2, s1) = Some (b', s')"
        "bypass_run alg layer positions ctx adj sources sinks inc b2 s1 b' s' ws"
      using Cons.IH [of b2 s1] by blast
    have "bypass_sources alg ctx (source # sources) sinks adj positions layer inc (b, s) = Some (b', s')"
      using r(1) c False sp b2 [symmetric] f(1) s1_def by simp
    moreover have "bypass_run alg layer positions ctx adj (source # sources) sinks inc b s b' s' (ws0 @ ws)"
      by (rule bypass_run_cons [OF sp b0 b2 f(2,3) s1_def r(2)])
    ultimately show ?thesis by blast
  qed
qed

section \<open>What the searches promise, over call facts\<close>

definition call_chain :: "call_fact list \<Rightarrow> string list \<Rightarrow> bool" where
  "call_chain facts xs \<longleftrightarrow>
     xs \<noteq> [] \<and> (\<forall>i. Suc i < length xs \<longrightarrow> (\<exists>f \<in> set facts. cf_from f = xs ! i \<and> cf_to f = xs ! Suc i))"

definition layer_node :: "node_positions \<Rightarrow> bypass_layer \<Rightarrow> string \<Rightarrow> bool" where
  "layer_node positions layer n \<longleftrightarrow> n \<in> set (requiredLayerNodeSet layer positions)"

lemma all_nat_split: "(\<forall>i. P i) \<longleftrightarrow> P 0 \<and> (\<forall>i. P (Suc i))"
  by (metis nat.exhaust)

lemma path_in_iff:
  "path_in adj xs \<longleftrightarrow> xs \<noteq> [] \<and> (\<forall>i. Suc i < length xs \<longrightarrow> xs ! Suc i \<in> set (adj_of adj (xs ! i)))"
proof (induction xs rule: induct_list012)
  case (3 x y zs)
  have "(\<forall>i. Suc i < length (x # y # zs) \<longrightarrow> (x # y # zs) ! Suc i \<in> set (adj_of adj ((x # y # zs) ! i)))
      \<longleftrightarrow> y \<in> set (adj_of adj x)
        \<and> (\<forall>i. Suc i < length (y # zs) \<longrightarrow> (y # zs) ! Suc i \<in> set (adj_of adj ((y # zs) ! i)))"
    by (subst all_nat_split) simp
  then show ?case using 3 by simp
qed simp_all

lemma path_in_build: "path_in (buildCallGraphAdjacency facts) xs \<longleftrightarrow> call_chain facts xs"
  by (simp add: path_in_iff call_chain_def build_edge)

lemma removed_edge:
  "t \<in> set (adj_of (removeLayerNodesFromAdjacency (buildCallGraphAdjacency facts) removed) n) \<longleftrightarrow>
     n \<notin> set removed \<and> t \<notin> set removed \<and> (\<exists>f \<in> set facts. cf_from f = n \<and> cf_to f = t)"
  by (auto simp: adj_of_removed [OF build_distinct] keptNeighbors_def build_edge)

lemma path_in_removed:
  "path_in (removeLayerNodesFromAdjacency (buildCallGraphAdjacency facts) removed) xs \<longleftrightarrow>
     call_chain facts xs \<and> (1 < length xs \<longrightarrow> set xs \<inter> set removed = {})"
proof
  assume p: "path_in (removeLayerNodesFromAdjacency (buildCallGraphAdjacency facts) removed) xs"
  have "x \<notin> set removed" if long: "1 < length xs" and x: "x \<in> set xs" for x
  proof -
    obtain i where i: "i < length xs" "x = xs ! i" using x by (metis in_set_conv_nth)
    show ?thesis
    proof (cases i)
      case 0
      then show ?thesis using p i long by (auto simp: path_in_iff removed_edge)
    next
      case (Suc j)
      then show ?thesis using p i by (auto simp: path_in_iff removed_edge)
    qed
  qed
  then show "call_chain facts xs \<and> (1 < length xs \<longrightarrow> set xs \<inter> set removed = {})"
    using p by (auto simp: path_in_iff removed_edge call_chain_def)
next
  assume c: "call_chain facts xs \<and> (1 < length xs \<longrightarrow> set xs \<inter> set removed = {})"
  have "xs ! i \<notin> set removed \<and> xs ! Suc i \<notin> set removed" if "Suc i < length xs" for i
  proof -
    have "xs ! i \<in> set xs" "xs ! Suc i \<in> set xs" "set xs \<inter> set removed = {}" using c that by auto
    then show ?thesis by blast
  qed
  then show "path_in (removeLayerNodesFromAdjacency (buildCallGraphAdjacency facts) removed) xs"
    using c by (simp add: path_in_iff removed_edge call_chain_def)
qed

lemma search_run:
  "\<exists>b s fs s1. source_run ctx adj sources sinks inc \<lparr>bb_visited = 0, bb_max = max_nodes, bb_checks = 0\<rparr>
       \<lparr>rs_facts = [], rs_evaluated = 0, rs_truncated_pairs = 0, rs_nodes_visited = 0, rs_truncated_search = False\<rparr>
       b s fs
     \<and> searchReachabilityFacts ctx sources sinks adj max_nodes inc = Some s1
     \<and> s1 = s\<lparr>rs_truncated_search := (rs_truncated_search s \<or> ctx (bb_checks b)), rs_nodes_visited := bb_visited b\<rparr>"
  using search_sources_run [of ctx sources sinks adj inc "\<lparr>bb_visited = 0, bb_max = max_nodes, bb_checks = 0\<rparr>"
      "\<lparr>rs_facts = [], rs_evaluated = 0, rs_truncated_pairs = 0, rs_nodes_visited = 0, rs_truncated_search = False\<rparr>"]
  by (force simp: searchReachabilityFacts_def ctx_err_def)

text \<open>C27. A reachability search always returns, whatever the graph (cycles included), the budget and
  the context.  Every fact it reports names one of the sources and one of the sinks and carries a call
  path between them, every step of which is a call fact of the model and which is as short as any; it
  never accounts for more pairs than there are, and it never visits more nodes than a positive budget.\<close>

theorem reachability_facts_are_shortest_call_paths:
  "\<exists>s. searchReachabilityFacts ctx sources sinks (buildCallGraphAdjacency facts) max_nodes incomplete = Some s
     \<and> (\<forall>f. f \<in> set (rs_facts s) \<longrightarrow>
          rf_source f \<in> set sources \<and> rf_sink f \<in> set sinks
          \<and> call_chain facts (rf_path f) \<and> hd (rf_path f) = rf_source f \<and> last (rf_path f) = rf_sink f
          \<and> (\<forall>p. call_chain facts p \<and> hd p = rf_source f \<and> last p = rf_sink f \<longrightarrow> length (rf_path f) \<le> length p))
     \<and> rs_evaluated s + rs_truncated_pairs s \<le> length sources * length sinks
     \<and> (max_nodes > 0 \<longrightarrow> int (rs_nodes_visited s) \<le> max_nodes)"
proof -
  let ?adj = "buildCallGraphAdjacency facts"
  obtain b s fs s1 where r: "source_run ctx ?adj sources sinks incomplete \<lparr>bb_visited = 0, bb_max = max_nodes, bb_checks = 0\<rparr>
       \<lparr>rs_facts = [], rs_evaluated = 0, rs_truncated_pairs = 0, rs_nodes_visited = 0, rs_truncated_search = False\<rparr>
       b s fs" "searchReachabilityFacts ctx sources sinks ?adj max_nodes incomplete = Some s1"
     "s1 = s\<lparr>rs_truncated_search := (rs_truncated_search s \<or> ctx (bb_checks b)), rs_nodes_visited := bb_visited b\<rparr>"
    using search_run [of ctx ?adj sources sinks incomplete max_nodes] by blast
  have facts: "rs_facts s1 = fs" "\<forall>f \<in> set fs. sound_fact ?adj (set sources) (set sinks) f"
    "rs_evaluated s1 + rs_truncated_pairs s1 \<le> length sources * length sinks"
    using r(1,3) by (simp_all add: source_run_def)
  have "max_nodes > 0 \<longrightarrow> int (rs_nodes_visited s1) \<le> max_nodes"
    using r(3) r(1) [unfolded source_run_def, THEN conjunct1] by (auto simp: budget_step_def budget_ok_def)
  moreover have "rf_source f \<in> set sources \<and> rf_sink f \<in> set sinks
          \<and> call_chain facts (rf_path f) \<and> hd (rf_path f) = rf_source f \<and> last (rf_path f) = rf_sink f
          \<and> (\<forall>p. call_chain facts p \<and> hd p = rf_source f \<and> last p = rf_sink f \<longrightarrow> length (rf_path f) \<le> length p)"
    if "f \<in> set (rs_facts s1)" for f
    using facts(1,2) that
    by (auto simp: sound_fact_def reachability_fact_of_def shortest_path_def path_between_def path_in_build)
  ultimately show ?thesis using r(2) facts(3) by blast
qed

text \<open>C28. A reachability search that is not cut short misses nothing: when the call graph is complete
  and the result is not marked truncated, every source/sink pair was evaluated and each pair joined by
  a chain of call facts has its fact.\<close>

theorem complete_search_misses_no_path:
  assumes "ctx_sticky ctx"
    and "searchReachabilityFacts ctx sources sinks (buildCallGraphAdjacency facts) max_nodes False = Some s"
    and "\<not> rs_truncated_search s"
  shows "rs_evaluated s = length sources * length sinks \<and> rs_truncated_pairs s = 0
    \<and> (\<forall>p. call_chain facts p \<and> hd p \<in> set sources \<and> last p \<in> set sinks \<longrightarrow>
         (\<exists>f \<in> set (rs_facts s). rf_source f = hd p \<and> rf_sink f = last p))"
proof -
  let ?adj = "buildCallGraphAdjacency facts"
  obtain b s0 fs where r: "source_run ctx ?adj sources sinks False \<lparr>bb_visited = 0, bb_max = max_nodes, bb_checks = 0\<rparr>
       \<lparr>rs_facts = [], rs_evaluated = 0, rs_truncated_pairs = 0, rs_nodes_visited = 0, rs_truncated_search = False\<rparr>
       b s0 fs"
     "s = s0\<lparr>rs_truncated_search := (rs_truncated_search s0 \<or> ctx (bb_checks b)), rs_nodes_visited := bb_visited b\<rparr>"
    using search_run [of ctx ?adj sources sinks False max_nodes] assms(2) by auto
  have live: "\<not> rs_truncated_search s0" "\<not> ctx (bb_checks b)" using r(2) assms(3) by auto
  have c: "complete_facts ?adj (set sources) (set sinks) fs" "rs_evaluated s0 = length sources * length sinks"
    "rs_evaluated s0 + rs_truncated_pairs s0 = length sources * length sinks" "rs_facts s0 = fs"
    using r(1) live assms(1) by (simp_all add: source_run_def)
  have "\<exists>f \<in> set (rs_facts s). rf_source f = hd p \<and> rf_sink f = last p"
    if "call_chain facts p" "hd p \<in> set sources" "last p \<in> set sinks" for p
    using c(1,4) that r(2) unfolding complete_facts_def path_between_def path_in_build by auto
  then show ?thesis using c r(2) by simp
qed

lemma reachability_facts_are_shortest_call_paths_witness:
  "\<exists>s. searchReachabilityFacts (\<lambda>_. False) [''a''] [''c'']
         (buildCallGraphAdjacency [\<lparr>cf_from = ''a'', cf_to = ''b''\<rparr>, \<lparr>cf_from = ''b'', cf_to = ''c''\<rparr>]) 10 False = Some s
     \<and> int (rs_nodes_visited s) \<le> 10 \<and> rs_evaluated s + rs_truncated_pairs s \<le> 1"
proof -
  obtain s where "searchReachabilityFacts (\<lambda>_. False) [''a''] [''c'']
         (buildCallGraphAdjacency [\<lparr>cf_from = ''a'', cf_to = ''b''\<rparr>, \<lparr>cf_from = ''b'', cf_to = ''c''\<rparr>]) 10 False = Some s"
      "(10 :: int) > 0 \<longrightarrow> int (rs_nodes_visited s) \<le> 10"
      "rs_evaluated s + rs_truncated_pairs s \<le> length [''a''] * length [''c'']"
    using reachability_facts_are_shortest_call_paths [of "\<lambda>_. False" "[''a'']" "[''c'']" _ 10 False] by blast
  then show ?thesis by auto
qed

lemma complete_search_misses_no_path_witness:
  "\<exists>s. searchReachabilityFacts (\<lambda>_. False) [''a''] [''c'']
         (buildCallGraphAdjacency [\<lparr>cf_from = ''b'', cf_to = ''c''\<rparr>, \<lparr>cf_from = ''a'', cf_to = ''b''\<rparr>,
            \<lparr>cf_from = ''b'', cf_to = ''a''\<rparr>]) 0 False = Some s
     \<and> rs_evaluated s = 1 \<and> map rf_path (rs_facts s) = [[''a'', ''b'', ''c'']]"
proof -
  let ?facts = "[\<lparr>cf_from = ''b'', cf_to = ''c''\<rparr>, \<lparr>cf_from = ''a'', cf_to = ''b''\<rparr>, \<lparr>cf_from = ''b'', cf_to = ''a''\<rparr>]"
  have run: "map_option (\<lambda>s. (rs_truncated_search s, map rf_path (rs_facts s)))
      (searchReachabilityFacts (\<lambda>_. False) [''a''] [''c''] (buildCallGraphAdjacency ?facts) 0 False)
      = Some (False, [[''a'', ''b'', ''c'']])"
    by code_simp
  then obtain s where s: "searchReachabilityFacts (\<lambda>_. False) [''a''] [''c''] (buildCallGraphAdjacency ?facts) 0 False = Some s"
      "\<not> rs_truncated_search s" "map rf_path (rs_facts s) = [[''a'', ''b'', ''c'']]"
    by auto
  have "rs_evaluated s = length [''a''] * length [''c'']"
    using complete_search_misses_no_path [of "\<lambda>_. False" "[''a'']" "[''c'']" ?facts 0, OF _ s(1,2)]
    by (simp add: ctx_sticky_def)
  then show ?thesis using s by auto
qed

text \<open>A witness and its path: never through the layer, and every step before the sink classified outside it.\<close>

definition avoiding_chain :: "call_fact list \<Rightarrow> node_positions \<Rightarrow> bypass_layer \<Rightarrow> string list \<Rightarrow> bool" where
  "avoiding_chain facts positions layer p \<longleftrightarrow>
     call_chain facts p \<and> (1 < length p \<longrightarrow> (\<forall>n \<in> set p. \<not> layer_node positions layer n))"

lemma path_avoids:
  "path_in (removeLayerNodesFromAdjacency (buildCallGraphAdjacency facts) (requiredLayerNodeSet layer positions)) p
     \<longleftrightarrow> avoiding_chain facts positions layer p"
  by (auto simp: path_in_removed avoiding_chain_def layer_node_def)

lemma layer_node_position:
  "map_of positions n = Some pos \<Longrightarrow> \<not> layer_node positions layer n \<Longrightarrow> \<not> layerBypassContainsDir layer (np_dir pos)"
  unfolding layer_node_def requiredLayerNodeSet_def by (force dest: map_of_SomeD)

definition proven_bypass ::
  "string \<Rightarrow> call_fact list \<Rightarrow> node_positions \<Rightarrow> bypass_layer \<Rightarrow> string list \<Rightarrow> string list \<Rightarrow> bypass_witness \<Rightarrow> bool" where
  "proven_bypass alg facts positions layer sources sinks w \<longleftrightarrow>
     (\<exists>p. w = bypass_witness_of alg (bl_name layer) (hd p) (last p) p positions
        \<and> hd p \<in> set sources \<and> last p \<in> set sinks \<and> avoiding_chain facts positions layer p
        \<and> (\<forall>q. avoiding_chain facts positions layer q \<and> hd q = hd p \<and> last q = last p \<longrightarrow> length p \<le> length q)
        \<and> (\<forall>n \<in> set (butlast p). \<exists>pos. map_of positions n = Some pos \<and> \<not> layerBypassContainsDir layer (np_dir pos)))"

lemma sound_witness_proven:
  assumes "sound_witness alg (bl_name layer) positions
      (removeLayerNodesFromAdjacency (buildCallGraphAdjacency facts) (requiredLayerNodeSet layer positions))
      (set sources) (set sinks) w"
  shows "proven_bypass alg facts positions layer sources sinks w"
proof -
  let ?adj = "removeLayerNodesFromAdjacency (buildCallGraphAdjacency facts) (requiredLayerNodeSet layer positions)"
  obtain s t p where p: "w = bypass_witness_of alg (bl_name layer) s t p positions" "s \<in> set sources" "t \<in> set sinks"
      "shortest_path ?adj s t p" "stepPathFullyClassified p positions"
    using assms unfolding sound_witness_def by blast
  have st: "hd p = s" "last p = t" "avoiding_chain facts positions layer p"
    "\<forall>q. avoiding_chain facts positions layer q \<and> hd q = s \<and> last q = t \<longrightarrow> length p \<le> length q"
    using p(4) unfolding shortest_path_def path_between_def path_avoids by blast+
  have "\<exists>pos. map_of positions n = Some pos \<and> \<not> layerBypassContainsDir layer (np_dir pos)"
    if n: "n \<in> set (butlast p)" for n
  proof -
    have "p \<noteq> []" using n by auto
    then obtain pos where pos: "map_of positions n = Some pos"
      using p(5) n by (auto simp: stepPathFullyClassified_def)
    have "0 < length (butlast p)" using n by (rule length_pos_if_in_set)
    then have "1 < length p" by simp
    then have "\<not> layer_node positions layer n"
      using st(3) in_set_butlastD [OF n] unfolding avoiding_chain_def by blast
    then show ?thesis using pos layer_node_position by blast
  qed
  then show ?thesis using p(1,2,3) st unfolding proven_bypass_def by (intro exI [of _ p]) simp
qed

lemma go_search_run:
  assumes "\<not> ambiguous"
  shows "\<exists>b s ws s1. bypass_run LayerBypassAlgorithm (bl_name layer) positions ctx adj sources sinks
       (graph_incomplete \<or> \<not> dirs_complete) \<lparr>bb_visited = 0, bb_max = max_nodes, bb_checks = 0\<rparr> empty_bypass_search b s ws
     \<and> searchLayerBypassWitnesses ctx sources sinks adj positions layer max_nodes graph_incomplete dirs_complete ambiguous = Some s1
     \<and> s1 = s\<lparr>bp_truncated_search := (bp_truncated_search s \<or> ctx (bb_checks b)), bp_nodes_visited := bb_visited b\<rparr>"
  using bypass_sources_run [of LayerBypassAlgorithm ctx sources sinks adj positions "bl_name layer"
      "graph_incomplete \<or> \<not> dirs_complete" "\<lparr>bb_visited = 0, bb_max = max_nodes, bb_checks = 0\<rparr>" empty_bypass_search] assms
  by (force simp: searchLayerBypassWitnesses_def ctx_err_def)

lemma ts_search_run:
  assumes "\<not> ambiguous"
  shows "\<exists>b s ws s1. bypass_run TSLayerBypassAlgorithm (bl_name layer) positions ctx adj sources sinks
       False \<lparr>bb_visited = 0, bb_max = 0, bb_checks = 0\<rparr> empty_bypass_search b s ws
     \<and> tsLayerBypassRunSearch ctx sources sinks adj positions layer ambiguous = Some s1
     \<and> s1 = s\<lparr>bp_truncated_search := (bp_truncated_search s \<or> ctx (bb_checks b)), bp_nodes_visited := bb_visited b\<rparr>"
proof -
  obtain b s ws where r: "bypass_sources TSLayerBypassAlgorithm ctx sources sinks adj positions (bl_name layer)
      False (\<lparr>bb_visited = 0, bb_max = 0, bb_checks = 0\<rparr>, empty_bypass_search) = Some (b, s)"
    "bypass_run TSLayerBypassAlgorithm (bl_name layer) positions ctx adj sources sinks
       False \<lparr>bb_visited = 0, bb_max = 0, bb_checks = 0\<rparr> empty_bypass_search b s ws"
    using bypass_sources_run by blast
  have "tsLayerBypassRunSearch ctx sources sinks adj positions layer ambiguous
    = Some (s\<lparr>bp_truncated_search := (bp_truncated_search s \<or> ctx (bb_checks b)), bp_nodes_visited := bb_visited b\<rparr>)"
    using r(1) assms by (cases "ctx (bb_checks b)"; cases "bp_truncated_search s")
      (simp_all add: tsLayerBypassRunSearch_def ctx_err_def)
  then show ?thesis using r(2) by blast
qed

lemma go_bypass_ambiguous_incomplete:
  "BuildGoLayerBypass ctx g sink_patterns layer max_nodes = Some r \<Longrightarrow>
   bl_prefixes layer = [] \<or> requiredLayerNodeSet layer (gs_positions g) = [] \<Longrightarrow> \<not> br_complete r"
  by (auto simp: BuildGoLayerBypass_def Let_def searchLayerBypassWitnesses_def assembleLayerBypassResult_def
        empty_bypass_search_def)

text \<open>A layer-bypass witness of the Go builder is a proof: the builder always returns, and every
  witness carries a chain of call facts from an identified source to a pinned sink on which no node
  belongs to the required layer (unless the source is itself the sink), whose nodes before the sink all
  have a known package directory outside the layer's prefixes, and no layer-avoiding chain between the
  two is shorter.  An ambiguous layer yields no witness and an incomplete result.\<close>

theorem go_bypass_witness_is_proof:
  "\<exists>r. BuildGoLayerBypass ctx g sink_patterns layer max_nodes = Some r
     \<and> (\<forall>w. w \<in> set (br_witnesses r) \<longrightarrow>
          proven_bypass LayerBypassAlgorithm (gs_call_facts g) (gs_positions g) layer (gs_sources g) sink_patterns w)
     \<and> (bl_prefixes layer = [] \<or> requiredLayerNodeSet layer (gs_positions g) = [] \<longrightarrow>
          br_witnesses r = [] \<and> \<not> br_complete r \<and> DiagLayerBypassAmbiguousLayer \<in> set (br_diagnostics r))"
proof (cases "bl_prefixes layer = [] \<or> requiredLayerNodeSet layer (gs_positions g) = []")
  case True
  then show ?thesis
    by (simp add: BuildGoLayerBypass_def Let_def searchLayerBypassWitnesses_def assembleLayerBypassResult_def
        tsLayerBypassDiagnostics_def empty_bypass_search_def)
next
  case False
  let ?adj = "removeLayerNodesFromAdjacency (buildCallGraphAdjacency (gs_call_facts g))
      (requiredLayerNodeSet layer (gs_positions g))"
  obtain b s ws s1 where r: "bypass_run LayerBypassAlgorithm (bl_name layer) (gs_positions g) ctx ?adj (gs_sources g)
       (sort_strings sink_patterns) (\<not> gs_call_graph_complete g \<or> \<not> gs_dirs_complete g)
       \<lparr>bb_visited = 0, bb_max = max_nodes, bb_checks = 0\<rparr> empty_bypass_search b s ws"
     "searchLayerBypassWitnesses ctx (gs_sources g) (sort_strings sink_patterns) ?adj (gs_positions g) layer max_nodes
        (\<not> gs_call_graph_complete g) (gs_dirs_complete g) False = Some s1"
     "s1 = s\<lparr>bp_truncated_search := (bp_truncated_search s \<or> ctx (bb_checks b)), bp_nodes_visited := bb_visited b\<rparr>"
    using go_search_run [of False] by blast
  have sinks: "set (sort_strings sink_patterns) = set sink_patterns"
    using sort_strings_mset [of sink_patterns] by (rule mset_eq_setD)
  have "proven_bypass LayerBypassAlgorithm (gs_call_facts g) (gs_positions g) layer (gs_sources g) sink_patterns w"
    if "w \<in> set (bp_witnesses s1)" for w
    using that r(1,3) sinks by (intro sound_witness_proven) (simp add: bypass_run_def empty_bypass_search_def)
  then show ?thesis
    using False r(2) by (simp add: BuildGoLayerBypass_def Let_def assembleLayerBypassResult_def)
qed

text \<open>A complete Go verdict misses no bypass: when the result claims completeness, every chain of
  call facts of two or more nodes from a source to a pinned sink that stays out of the required layer
  has a witness for its two ends, or the result carries the diagnostic that a node could not be
  classified.\<close>

theorem complete_go_bypass_misses_nothing:
  assumes "ctx_sticky ctx" "BuildGoLayerBypass ctx g sink_patterns layer max_nodes = Some r" "br_complete r"
    and "call_chain (gs_call_facts g) p" "\<not> (\<exists>n \<in> set p. layer_node (gs_positions g) layer n)"
    and "hd p \<in> set (gs_sources g)" "last p \<in> set sink_patterns"
  shows "(\<exists>w \<in> set (br_witnesses r). bw_source w = hd p \<and> bw_sink w = last p)
    \<or> DiagLayerBypassAmbiguousLayer \<in> set (br_diagnostics r)"
proof -
  let ?adj = "removeLayerNodesFromAdjacency (buildCallGraphAdjacency (gs_call_facts g))
      (requiredLayerNodeSet layer (gs_positions g))"
  have na: "\<not> (bl_prefixes layer = [] \<or> requiredLayerNodeSet layer (gs_positions g) = [])"
    using go_bypass_ambiguous_incomplete [OF assms(2)] assms(3) by blast
  obtain b s ws s1 where r: "bypass_run LayerBypassAlgorithm (bl_name layer) (gs_positions g) ctx ?adj (gs_sources g)
       (sort_strings sink_patterns) (\<not> gs_call_graph_complete g \<or> \<not> gs_dirs_complete g)
       \<lparr>bb_visited = 0, bb_max = max_nodes, bb_checks = 0\<rparr> empty_bypass_search b s ws"
     "searchLayerBypassWitnesses ctx (gs_sources g) (sort_strings sink_patterns) ?adj (gs_positions g) layer max_nodes
        (\<not> gs_call_graph_complete g) (gs_dirs_complete g) False = Some s1"
     "s1 = s\<lparr>bp_truncated_search := (bp_truncated_search s \<or> ctx (bb_checks b)), bp_nodes_visited := bb_visited b\<rparr>"
    using go_search_run [of False] by blast
  have res: "r = assembleLayerBypassResult s1 (requiredLayerNodeSet layer (gs_positions g)) (gs_diagnostics g)
      (gs_call_graph_complete g \<and> gs_sources_complete g \<and> gs_dirs_complete g) False"
    using assms(2) na r(2) by (simp add: BuildGoLayerBypass_def Let_def)
  have live: "gs_call_graph_complete g" "gs_dirs_complete g" "\<not> bp_truncated_search s" "\<not> ctx (bb_checks b)"
    using assms(3) r(3) unfolding res by (simp_all add: assembleLayerBypassResult_def)
  have c: "complete_witnesses ?adj (set (gs_sources g)) (set (sort_strings sink_patterns)) ws (bp_unclassified s)"
    using r(1) assms(1) live unfolding bypass_run_def by blast
  have sinks: "set (sort_strings sink_patterns) = set sink_patterns"
    using sort_strings_mset [of sink_patterns] by (rule mset_eq_setD)
  have "path_between ?adj (hd p) (last p) p"
    using assms(4,5) by (auto simp: path_between_def path_avoids avoiding_chain_def)
  then have w: "bp_unclassified s \<or> (\<exists>w \<in> set ws. bw_source w = hd p \<and> bw_sink w = last p)"
    using c assms(6,7) sinks unfolding complete_witnesses_def by blast
  have "set (br_witnesses r) = set ws"
    using r(1,3) by (simp add: res assembleLayerBypassResult_def bypass_run_def empty_bypass_search_def)
  moreover have "bp_unclassified s \<Longrightarrow> DiagLayerBypassAmbiguousLayer \<in> set (br_diagnostics r)"
    using r(3) by (simp add: res assembleLayerBypassResult_def tsLayerBypassDiagnostics_def containsDiagnosticCode_def Let_def)
  ultimately show ?thesis using w by blast
qed

definition sample_snapshot :: go_snapshot where
  "sample_snapshot =
     \<lparr>gs_call_facts = [\<lparr>cf_from = ''h'', cf_to = ''svc''\<rparr>, \<lparr>cf_from = ''svc'', cf_to = ''db''\<rparr>, \<lparr>cf_from = ''h'', cf_to = ''db''\<rparr>],
      gs_call_graph_complete = True, gs_sources = [''h''], gs_sources_complete = True,
      gs_positions = [(''h'', \<lparr>np_dir = ''http'', np_file = ''http/h.go'', np_line = 3\<rparr>),
        (''svc'', \<lparr>np_dir = ''service'', np_file = ''service/s.go'', np_line = 9\<rparr>)],
      gs_dirs_complete = True, gs_diagnostics = []\<rparr>"

lemma go_bypass_witness_is_proof_witness:
  "\<exists>r. BuildGoLayerBypass (\<lambda>_. False) sample_snapshot [''db''] \<lparr>bl_name = ''L'', bl_prefixes = []\<rparr> 0 = Some r
     \<and> br_witnesses r = [] \<and> \<not> br_complete r"
  using go_bypass_witness_is_proof [of "\<lambda>_. False" sample_snapshot "[''db'']" "\<lparr>bl_name = ''L'', bl_prefixes = []\<rparr>" 0]
  by auto

lemma complete_go_bypass_misses_nothing_witness:
  "\<exists>r. BuildGoLayerBypass (\<lambda>_. False) sample_snapshot [''db''] \<lparr>bl_name = ''L'', bl_prefixes = [''service'']\<rparr> 0 = Some r
     \<and> (\<exists>w. w \<in> set (br_witnesses r) \<and> bw_source w = ''h'' \<and> bw_sink w = ''db'')"
proof -
  let ?layer = "\<lparr>bl_name = ''L'', bl_prefixes = [''service'']\<rparr>"
  have "map_option (\<lambda>r. (br_complete r, br_diagnostics r)) (BuildGoLayerBypass (\<lambda>_. False) sample_snapshot [''db''] ?layer 0)
      = Some (True, [])"
    by code_simp
  then obtain r where r: "BuildGoLayerBypass (\<lambda>_. False) sample_snapshot [''db''] ?layer 0 = Some r"
      "br_complete r" "br_diagnostics r = []"
    by auto
  have chain: "call_chain (gs_call_facts sample_snapshot) [''h'', ''db'']"
    by (auto simp: call_chain_def sample_snapshot_def)
  have nodes: "requiredLayerNodeSet ?layer (gs_positions sample_snapshot) = [''svc'']" by code_simp
  show ?thesis
    using complete_go_bypass_misses_nothing [OF _ r(1,2) chain] r
    by (auto simp: ctx_sticky_def layer_node_def nodes) (auto simp: sample_snapshot_def)
qed

lemma set_distinct_keys: "set (distinct_keys xs) = set xs"
proof -
  have "set (foldl (\<lambda>ks k. insert_key k ks) ks xs) = set ks \<union> set xs" for ks
    by (induction xs arbitrary: ks) (auto simp: insert_key_def)
  then show ?thesis by (simp add: distinct_keys_def)
qed

lemma set_mapKeysSorted [simp]: "set (mapKeysSorted xs) = set xs"
  unfolding mapKeysSorted_def using sort_strings_mset [of xs] by (rule mset_eq_setD)

lemma set_reached: "set (tsReachabilitySourcesReachedASink fs) = set (map rf_source fs)"
  by (simp add: tsReachabilitySourcesReachedASink_def set_distinct_keys)

lemma set_ts_sinks: "set (tsLayerBypassSinks fs) = set (map rf_sink fs)"
  by (simp add: tsLayerBypassSinks_def set_distinct_keys)

text \<open>The TypeScript builder reports the same proofs over the sidecar's call facts: it always
  returns, every witness runs from a source that reached a sink to a sink of the reachability facts on a
  chain of call facts outside the required layer, and a layer that no analyzed file matches yields none.\<close>

theorem ts_bypass_witness_is_proof:
  "\<exists>r. BuildTypeScriptLayerBypassFromModel ctx m layer = Some r
     \<and> (\<forall>w. w \<in> set (br_witnesses r) \<longrightarrow>
          proven_bypass TSLayerBypassAlgorithm (tm_call_facts m) (tsLayerBypassNodePositions (tm_call_facts m)) layer
            (map rf_source (tm_reachability m)) (map rf_sink (tm_reachability m)) w)
     \<and> (\<not> tsLayerBypassLayerMatchesFiles (tm_files m) layer \<longrightarrow> br_witnesses r = [] \<and> \<not> br_complete r)"
proof (cases "bl_prefixes layer = [] \<or> \<not> tsLayerBypassLayerMatchesFiles (tm_files m) layer")
  case True
  then show ?thesis
    by (simp add: BuildTypeScriptLayerBypassFromModel_def Let_def tsLayerBypassRequiredLayerNodes_def
        tsLayerBypassRunSearch_def assembleLayerBypassResult_def empty_bypass_search_def)
next
  case False
  let ?pos = "tsLayerBypassNodePositions (tm_call_facts m)"
  let ?adj = "removeLayerNodesFromAdjacency (buildCallGraphAdjacency (tm_call_facts m)) (requiredLayerNodeSet layer ?pos)"
  let ?sources = "tsReachabilitySourcesReachedASink (tm_reachability m)"
  let ?sinks = "tsLayerBypassSinks (tm_reachability m)"
  obtain b s ws s1 where r: "bypass_run TSLayerBypassAlgorithm (bl_name layer) ?pos ctx ?adj ?sources ?sinks False
       \<lparr>bb_visited = 0, bb_max = 0, bb_checks = 0\<rparr> empty_bypass_search b s ws"
     "tsLayerBypassRunSearch ctx ?sources ?sinks ?adj ?pos layer False = Some s1"
     "s1 = s\<lparr>bp_truncated_search := (bp_truncated_search s \<or> ctx (bb_checks b)), bp_nodes_visited := bb_visited b\<rparr>"
    using ts_search_run [of False] by blast
  have "proven_bypass TSLayerBypassAlgorithm (tm_call_facts m) ?pos layer
        (map rf_source (tm_reachability m)) (map rf_sink (tm_reachability m)) w"
    if "w \<in> set (bp_witnesses s1)" for w
    using that r(1,3)
    by (intro sound_witness_proven) (simp add: bypass_run_def empty_bypass_search_def set_reached set_ts_sinks)
  then show ?thesis
    using False r(2)
    by (simp add: BuildTypeScriptLayerBypassFromModel_def Let_def tsLayerBypassRequiredLayerNodes_def
        requiredLayerNodeSet_def assembleLayerBypassResult_def)
qed

lemma ts_bypass_witness_is_proof_witness:
  "\<exists>r. BuildTypeScriptLayerBypassFromModel (\<lambda>_. False)
         \<lparr>tm_call_facts = [], tm_reachability = [], tm_files = [''src/a.ts''], tm_complete = True, tm_diagnostic_codes = []\<rparr>
         \<lparr>bl_name = ''L'', bl_prefixes = [''lib'']\<rparr> = Some r
     \<and> br_witnesses r = [] \<and> \<not> br_complete r"
proof -
  let ?m = "\<lparr>tm_call_facts = [], tm_reachability = [], tm_files = [''src/a.ts''], tm_complete = True, tm_diagnostic_codes = []\<rparr>"
  have "\<not> tsLayerBypassLayerMatchesFiles (tm_files ?m) \<lparr>bl_name = ''L'', bl_prefixes = [''lib'']\<rparr>" by code_simp
  then show ?thesis
    using ts_bypass_witness_is_proof [of "\<lambda>_. False" ?m "\<lparr>bl_name = ''L'', bl_prefixes = [''lib'']\<rparr>"] by blast
qed

section \<open>Adjacency and layer membership\<close>

text \<open>The adjacency list of a node is exactly its set of callees, sorted and without duplicates,
  so it does not depend on the order or multiplicity of the call facts it was built from.\<close>

theorem adjacency_is_canonical:
  "adj_of (buildCallGraphAdjacency facts) n = sorted_list_of_set {cf_to f |f. f \<in> set facts \<and> cf_from f = n}"
  by (rule adjacency_sorted)

lemma policy_scopes_cover:
  "policy_scopes by_root roots acc = Inr scopes \<Longrightarrow>
   \<exists>ss. scopes = acc @ ss \<and> (\<forall>s. s \<in> set ss \<longleftrightarrow> (\<exists>r \<in> set roots. by_root (path_clean r) = Some s))
     \<and> (\<forall>r \<in> set roots. by_root (path_clean r) \<noteq> None)"
proof (induction roots arbitrary: acc)
  case (Cons r rs)
  then obtain s where s: "by_root (path_clean r) = Some s" "policy_scopes by_root rs (acc @ [s]) = Inr scopes"
    by (auto split: option.splits)
  from Cons.IH [OF s(2)] s(1) show ?case by fastforce
qed simp

lemma ts_scope_roots_some:
  "ts_scope_roots ss acc = Some roots \<Longrightarrow>
   roots = acc @ map sc_root ss \<and> (\<forall>s \<in> set ss. sc_candidates s \<le> sc_analyzed s \<and> length (sc_paths s) = sc_analyzed s)"
proof (induction ss arbitrary: acc)
  case (Cons s ss)
  then have "ts_scope_roots ss (acc @ [sc_root s]) = Some roots" "sc_candidates s \<le> sc_analyzed s"
    "length (sc_paths s) = sc_analyzed s"
    by (auto split: if_splits)
  with Cons.IH [OF this(1)] show ?case by simp
qed simp

lemma add_paths_set: "set (add_paths ps acc) = set acc \<union> set ps \<and> (distinct acc \<longrightarrow> distinct (add_paths ps acc))"
  by (induction ps acc rule: add_paths.induct) auto

lemma analyzed_paths:
  "distinct (analyzedFilePathsFromRootScopes scopes)
   \<and> set (analyzedFilePathsFromRootScopes scopes) = \<Union> (set ` sc_paths ` set scopes)"
proof -
  have "distinct acc \<longrightarrow> distinct (foldl (\<lambda>acc s. add_paths (sc_paths s) acc) acc scopes)
     \<and> set (foldl (\<lambda>acc s. add_paths (sc_paths s) acc) acc scopes) = set acc \<union> \<Union> (set ` sc_paths ` set scopes)" for acc
  proof (induction scopes arbitrary: acc)
    case (Cons s ss)
    show ?case using Cons [of "add_paths (sc_paths s) acc"] add_paths_set [of "sc_paths s" acc] by auto
  qed simp
  from this [of "[]"] show ?thesis by (simp add: analyzedFilePathsFromRootScopes_def)
qed

text \<open>The project scope credits layer membership only to a scope that was analyzed in full: the
  model is complete, every policy root was reported, analyzed all its candidate files and holds an
  analyzed path, and the membership then counts exactly the analyzed paths that lie under no layer
  prefix.  The layer names are split between matched and unmatched by whether some analyzed path lies
  under one of their prefixes.\<close>

theorem project_scope_membership_is_earned:
  assumes "ProjectScopeFromModel root_scopes complete roots layers = Inr ps"
  shows "(\<forall>r \<in> set roots. \<exists>s. scope_by_root root_scopes (path_clean r) = Some s
            \<and> (ps_membership ps \<noteq> None \<longrightarrow> sc_candidates s \<le> sc_analyzed s \<and> length (sc_paths s) = sc_analyzed s))
    \<and> length (ps_matched ps) + length (ps_unmatched ps) = length layers
    \<and> (\<forall>m. ps_membership ps = Some m \<longrightarrow> complete \<and> layers \<noteq> []
         \<and> (\<exists>analyzed. analyzed \<noteq> [] \<and> distinct analyzed
              \<and> set analyzed = \<Union> (set ` sc_paths ` {s. \<exists>r \<in> set roots. scope_by_root root_scopes (path_clean r) = Some s})
              \<and> ps_matched ps = map pl_name (filter (\<lambda>l. \<exists>p \<in> set analyzed. anyLayerPrefixContains (pl_prefixes l) p) layers)
              \<and> lm_analyzed m = card (set analyzed)
              \<and> lm_outside m = card {p \<in> set analyzed. \<forall>l \<in> set layers. \<not> anyLayerPrefixContains (pl_prefixes l) p}))"
proof -
  obtain scopes where scopes: "policy_scopes (scope_by_root root_scopes) roots [] = Inr scopes"
    using assms by (auto simp: ProjectScopeFromModel_def split: sum.splits)
  let ?analyzed = "analyzedFilePathsFromRootScopes scopes"
  have ps: "ps_matched ps = map pl_name (filter (\<lambda>l. layerMatchesAnyPath l ?analyzed) layers)"
    "ps_unmatched ps = map pl_name (filter (\<lambda>l. \<not> layerMatchesAnyPath l ?analyzed) layers)"
    "ps_membership ps = tsLayerMembership complete scopes ?analyzed layers"
    using assms scopes by (auto simp: ProjectScopeFromModel_def Let_def)
  have cover: "\<forall>s. s \<in> set scopes \<longleftrightarrow> (\<exists>r \<in> set roots. scope_by_root root_scopes (path_clean r) = Some s)"
    "\<forall>r \<in> set roots. scope_by_root root_scopes (path_clean r) \<noteq> None"
    using policy_scopes_cover [OF scopes] by auto
  have paths: "distinct ?analyzed" "set ?analyzed = \<Union> (set ` sc_paths ` set scopes)"
    using analyzed_paths [of scopes] by auto
  have earned: "complete \<and> layers \<noteq> [] \<and> ?analyzed \<noteq> [] \<and> m = NewLayerMembership ?analyzed (layerPrefixes layers)
      \<and> (\<forall>s \<in> set scopes. sc_candidates s \<le> sc_analyzed s \<and> length (sc_paths s) = sc_analyzed s)"
    if "ps_membership ps = Some m" for m
    using that ts_scope_roots_some [of scopes "[]"] unfolding ps(3) tsLayerMembership_def everyRootHoldsAPath_def
    by (auto split: if_splits option.splits)
  have matches: "layerMatchesAnyPath l ?analyzed \<longleftrightarrow> (\<exists>p \<in> set ?analyzed. anyLayerPrefixContains (pl_prefixes l) p)" for l
    by (auto simp: layerMatchesAnyPath_def prefixMatchesAnyPath_def anyLayerPrefixContains_def)
  have outside: "lm_outside (NewLayerMembership ?analyzed (layerPrefixes layers))
      = card {p \<in> set ?analyzed. \<forall>l \<in> set layers. \<not> anyLayerPrefixContains (pl_prefixes l) p}"
    using paths(1) by (auto simp: NewLayerMembership_def distinct_length_filter layerPrefixes_def
        anyLayerPrefixContains_def intro!: arg_cong [where f = card])
  have full: "\<exists>s. scope_by_root root_scopes (path_clean r) = Some s
      \<and> (ps_membership ps \<noteq> None \<longrightarrow> sc_candidates s \<le> sc_analyzed s \<and> length (sc_paths s) = sc_analyzed s)"
    if "r \<in> set roots" for r
    using cover that earned by fastforce
  have scopeset: "set scopes = {s. \<exists>r \<in> set roots. scope_by_root root_scopes (path_clean r) = Some s}"
    using cover(1) by blast
  have count: "length (ps_matched ps) + length (ps_unmatched ps) = length layers"
    unfolding ps by (simp add: sum_length_filter_compl)
  have "complete \<and> layers \<noteq> [] \<and> (\<exists>analyzed. analyzed \<noteq> [] \<and> distinct analyzed
        \<and> set analyzed = \<Union> (set ` sc_paths ` {s. \<exists>r \<in> set roots. scope_by_root root_scopes (path_clean r) = Some s})
        \<and> ps_matched ps = map pl_name (filter (\<lambda>l. \<exists>p \<in> set analyzed. anyLayerPrefixContains (pl_prefixes l) p) layers)
        \<and> lm_analyzed m = card (set analyzed)
        \<and> lm_outside m = card {p \<in> set analyzed. \<forall>l \<in> set layers. \<not> anyLayerPrefixContains (pl_prefixes l) p})"
    if m: "ps_membership ps = Some m" for m
  proof (intro conjI exI [of _ ?analyzed])
    show "complete" "layers \<noteq> []" "?analyzed \<noteq> []" using earned [OF m] by blast+
    show "distinct ?analyzed" by (rule paths(1))
    show "set ?analyzed = \<Union> (set ` sc_paths ` {s. \<exists>r \<in> set roots. scope_by_root root_scopes (path_clean r) = Some s})"
      using paths(2) unfolding scopeset .
    show "ps_matched ps = map pl_name (filter (\<lambda>l. \<exists>p \<in> set ?analyzed. anyLayerPrefixContains (pl_prefixes l) p) layers)"
      unfolding ps(1) matches ..
    show "lm_analyzed m = card (set ?analyzed)"
      using earned [OF m] distinct_card [OF paths(1)] by (simp add: NewLayerMembership_def)
    show "lm_outside m = card {p \<in> set ?analyzed. \<forall>l \<in> set layers. \<not> anyLayerPrefixContains (pl_prefixes l) p}"
      using earned [OF m] outside by blast
  qed
  with full count show ?thesis by blast
qed

lemma project_scope_membership_is_earned_witness:
  "\<exists>ps m. ProjectScopeFromModel
       [\<lparr>sc_root = ''app'', sc_candidates = 2, sc_analyzed = 2, sc_paths = [''app/ui/a.ts'', ''app/x.ts'']\<rparr>]
       True [''app''] [\<lparr>pl_name = ''ui'', pl_prefixes = [''app/ui'']\<rparr>] = Inr ps
     \<and> ps_membership ps = Some m \<and> (\<exists>analyzed :: string list. lm_analyzed m = card (set analyzed) \<and> analyzed \<noteq> [])"
proof -
  let ?scopes = "[\<lparr>sc_root = ''app'', sc_candidates = 2, sc_analyzed = 2, sc_paths = [''app/ui/a.ts'', ''app/x.ts'']\<rparr>]"
  let ?layers = "[\<lparr>pl_name = ''ui'', pl_prefixes = [''app/ui'']\<rparr>]"
  have "map_sum id ps_membership (ProjectScopeFromModel ?scopes True [''app''] ?layers)
      = Inr (Some \<lparr>lm_analyzed = 2, lm_outside = 1\<rparr>)"
    by code_simp
  then obtain ps m where ps: "ProjectScopeFromModel ?scopes True [''app''] ?layers = Inr ps" "ps_membership ps = Some m"
    by (cases "ProjectScopeFromModel ?scopes True [''app''] ?layers") auto
  obtain analyzed :: "string list" where a: "lm_analyzed m = card (set analyzed)" "analyzed \<noteq> []"
    using project_scope_membership_is_earned [OF ps(1), THEN conjunct2, THEN conjunct2, rule_format, OF ps(2)]
    by (elim conjE exE) (rule that, assumption, assumption)
  show ?thesis by (intro exI conjI) (rule ps a)+
qed

end
