(* ===== verification/ToolSchema.thy ===== *)
theory ToolSchema
  imports GoJson
begin

text \<open>
  The validation of tool arguments of internal/agentloop (schema.go, schema_object.go,
  schema_array.go, schema_types.go).

  A raw JSON message is represented by what the code can see of it: nil, empty, not
  JSON, or the value \<open>json.Unmarshal\<close> decodes it to.  A decoded object is a list of
  entries with distinct keys, a decoded number a rational (every float64 that JSON can
  denote is one).  The validator ranges over a Go map of properties: the list of
  properties is the order one call happens to visit them in.
\<close>

section \<open>JSON values and schemas\<close>

datatype 'a raw_doc = NilMsg | EmptyMsg | Malformed | Doc 'a

definition raw_empty :: "'a raw_doc \<Rightarrow> bool" where
  "raw_empty m \<longleftrightarrow> m = NilMsg \<or> m = EmptyMsg"

lemma raw_empty_simps [simp]:
  "raw_empty NilMsg" "raw_empty EmptyMsg" "\<not> raw_empty Malformed" "\<not> raw_empty (Doc x)"
  by (simp_all add: raw_empty_def)

text \<open>argsSchemaDoc (type, required, properties, items) and argsPropSchema (types, items).\<close>

datatype args_schema = ArgsSchema string "string list" "(string \<times> prop_schema) list" "args_schema option"
  and prop_schema = PropSchema "string list" "args_schema option"

fun sd_type :: "args_schema \<Rightarrow> string" where "sd_type (ArgsSchema t rs ps it) = t"
fun sd_required :: "args_schema \<Rightarrow> string list" where "sd_required (ArgsSchema t rs ps it) = rs"
fun sd_properties :: "args_schema \<Rightarrow> (string \<times> prop_schema) list" where "sd_properties (ArgsSchema t rs ps it) = ps"
fun sd_items :: "args_schema \<Rightarrow> args_schema option" where "sd_items (ArgsSchema t rs ps it) = it"

text \<open>The \<open>type\<close> of a property: a string or a list of strings (null elements decode to the empty string).\<close>

fun string_elements :: "json list \<Rightarrow> string list option" where
  "string_elements [] = Some []"
| "string_elements (v # vs) =
     (case v of
        JStr s \<Rightarrow> map_option ((#) s) (string_elements vs)
      | JNull \<Rightarrow> map_option ((#) []) (string_elements vs)
      | _ \<Rightarrow> None)"

definition parseJSONTypes :: "json raw_doc \<Rightarrow> string list option" where
  "parseJSONTypes raw =
     (case raw of
        NilMsg \<Rightarrow> Some []
      | EmptyMsg \<Rightarrow> Some []
      | Malformed \<Rightarrow> None
      | Doc (JStr s) \<Rightarrow> Some [s]
      | Doc JNull \<Rightarrow> Some [[]]
      | Doc (JArr vs) \<Rightarrow> string_elements vs
      | Doc _ \<Rightarrow> None)"

section \<open>Types\<close>

text \<open>\<open>strings.EqualFold\<close> on ASCII text.\<close>

definition ascii_lower :: "char \<Rightarrow> char" where
  "ascii_lower c = (let n = (of_char c :: nat) in if 65 \<le> n \<and> n \<le> 90 then char_of (n + 32) else c)"

definition equal_fold :: "string \<Rightarrow> string \<Rightarrow> bool" where
  "equal_fold s t \<longleftrightarrow> map ascii_lower s = map ascii_lower t"

lemma equal_fold_code [code]: "equal_fold s t \<longleftrightarrow> s = t \<or> map ascii_lower s = map ascii_lower t"
  by (auto simp: equal_fold_def)

fun jsonTypeOf :: "json \<Rightarrow> string" where
  "jsonTypeOf JNull = ''null''"
| "jsonTypeOf (JBool b) = ''boolean''"
| "jsonTypeOf (JNum q) = ''number''"
| "jsonTypeOf (JStr s) = ''string''"
| "jsonTypeOf (JArr vs) = ''array''"
| "jsonTypeOf (JObj es) = ''object''"

text \<open>Go's conversion of a float64 to int64 truncates; out of range the result is amd64's.\<close>

definition go_int64 :: "rat \<Rightarrow> int" where
  "go_int64 q = (let t = (if q < 0 then \<lceil>q\<rceil> else \<lfloor>q\<rfloor>) in
     if - (2 ^ 63) \<le> t \<and> t < 2 ^ 63 then t else - (2 ^ 63))"

definition wholeJSONNumber :: "json \<Rightarrow> bool" where
  "wholeJSONNumber v = (case v of JNum q \<Rightarrow> q = of_int (go_int64 q) | _ \<Rightarrow> False)"

text \<open>
  An invalid-arguments error: what its message says.  The path is the label of the
  offending value, empty for the arguments themselves.
\<close>

datatype schema_error =
    ArgsNotJSON
  | SchemaNotJSON
  | ArgsEmpty
  | NotAnObject string
  | NotAnArray string
  | MissingProperty string
  | WrongType string string "string list"

definition type_accepts :: "json \<Rightarrow> string \<Rightarrow> bool" where
  "type_accepts value t \<longleftrightarrow>
     equal_fold t (jsonTypeOf value)
     \<or> (equal_fold t ''integer'' \<and> jsonTypeOf value = ''number'' \<and> wholeJSONNumber value)"

definition checkPropType :: "string \<Rightarrow> json \<Rightarrow> string list \<Rightarrow> schema_error option" where
  "checkPropType name value types =
     (if types = [] then None
      else if (\<exists>t \<in> set types. type_accepts value t) then None
      else Some (WrongType name (jsonTypeOf value) types))"

section \<open>Labels\<close>

definition qualifiedLabel :: "string \<Rightarrow> string \<Rightarrow> string" where
  "qualifiedLabel path name = (if path = [] then name else path @ ''.'' @ name)"

definition rootLabel :: "string \<Rightarrow> string" where
  "rootLabel path = (if path = [] then ''args'' else path)"

definition item_label :: "string \<Rightarrow> nat \<Rightarrow> string" where
  "item_label path i = path @ ''['' @ decimal i @ '']''"

section \<open>Validation\<close>

fun missing_required :: "string \<Rightarrow> (string \<times> json) list \<Rightarrow> string list \<Rightarrow> schema_error option" where
  "missing_required path obj [] = None"
| "missing_required path obj (r # rs) =
     (if map_of obj r = None then Some (MissingProperty (qualifiedLabel path r))
      else missing_required path obj rs)"

text \<open>
  validateAgainstSchema with validateObjectAgainstSchema (and its loop over the
  properties), validateArrayItems (and its loop over the items) and validateSchemaItem.
\<close>

function (sequential)
  validateAgainstSchema :: "string \<Rightarrow> json \<Rightarrow> args_schema \<Rightarrow> schema_error option" and
  validate_properties :: "string \<Rightarrow> (string \<times> json) list \<Rightarrow> (string \<times> prop_schema) list \<Rightarrow> schema_error option" and
  validateArrayItems :: "string \<Rightarrow> json \<Rightarrow> args_schema option \<Rightarrow> schema_error option" and
  validate_items :: "string \<Rightarrow> nat \<Rightarrow> json list \<Rightarrow> args_schema \<Rightarrow> schema_error option" and
  validateSchemaItem :: "string \<Rightarrow> json \<Rightarrow> args_schema \<Rightarrow> schema_error option" where
  "validateAgainstSchema path value (ArgsSchema ty required properties items) =
     (if ty = '''' \<or> ty = ''object''
      then (case value of
              JObj obj \<Rightarrow>
                (case missing_required path obj required of
                   Some e \<Rightarrow> Some e
                 | None \<Rightarrow> validate_properties path obj properties)
            | _ \<Rightarrow> Some (NotAnObject (rootLabel path)))
      else if ty = ''array'' then validateArrayItems path value items
      else None)"
| "validate_properties path obj [] = None"
| "validate_properties path obj ((name, PropSchema types items) # ps) =
     (case map_of obj name of
        None \<Rightarrow> validate_properties path obj ps
      | Some raw \<Rightarrow>
          (case checkPropType (qualifiedLabel path name) raw types of
             Some e \<Rightarrow> Some e
           | None \<Rightarrow>
               (case validateArrayItems (qualifiedLabel path name) raw items of
                  Some e \<Rightarrow> Some e
                | None \<Rightarrow> validate_properties path obj ps)))"
| "validateArrayItems path value None = None"
| "validateArrayItems path value (Some item_schema) =
     (case value of
        JArr vs \<Rightarrow> validate_items path 0 vs item_schema
      | _ \<Rightarrow> Some (NotAnArray (rootLabel path)))"
| "validate_items path i [] item_schema = None"
| "validate_items path i (v # vs) item_schema =
     (case validateSchemaItem (item_label path i) v item_schema of
        Some e \<Rightarrow> Some e
      | None \<Rightarrow> validate_items path (i + 1) vs item_schema)"
| "validateSchemaItem path item (ArgsSchema ty required properties items) =
     (if ty = ''object'' \<or> ty = '''' \<or> required \<noteq> [] \<or> properties \<noteq> []
      then validateAgainstSchema path item (ArgsSchema ty required properties items)
      else checkPropType path item [ty])"
  by pat_completeness auto

termination
  by (relation "measures [\<lambda>p. case p of
        Inl (Inl (path, value, s)) \<Rightarrow> 2 * size s
      | Inl (Inr (path, obj, ps)) \<Rightarrow> 2 * size_list (size_prod (\<lambda>_. 0) size) ps
      | Inr (Inl (path, value, it)) \<Rightarrow> 2 * size_option size it
      | Inr (Inr (Inl (path, i, vs, s))) \<Rightarrow> 2 * size s + 1
      | Inr (Inr (Inr (path, item, s))) \<Rightarrow> 2 * size s + 1,
     \<lambda>p. case p of
        Inr (Inr (Inl (path, i, vs, s))) \<Rightarrow> Suc (length vs)
      | _ \<Rightarrow> 0]") auto

text \<open>The arguments of a call against a registered schema; the schema document is as decoded.\<close>

definition validateToolArgs :: "args_schema raw_doc \<Rightarrow> json raw_doc \<Rightarrow> schema_error option" where
  "validateToolArgs schema args =
     (if raw_empty schema
      then (if raw_empty args then None
            else (case args of Doc _ \<Rightarrow> None | _ \<Rightarrow> Some ArgsNotJSON))
      else (case schema of
              Doc sch \<Rightarrow>
                if raw_empty args then Some ArgsEmpty
                else (case args of
                        Doc value \<Rightarrow> validateAgainstSchema [] value sch
                      | _ \<Rightarrow> Some ArgsNotJSON)
            | _ \<Rightarrow> Some SchemaNotJSON))"

section \<open>Conformance\<close>

text \<open>What the validator decides, without an order of the properties and without labels.\<close>

definition types_admit :: "string list \<Rightarrow> json \<Rightarrow> bool" where
  "types_admit types v \<longleftrightarrow> types = [] \<or> (\<exists>t \<in> set types. type_accepts v t)"

inductive conforms :: "json \<Rightarrow> args_schema \<Rightarrow> bool"
  and items_conform :: "json \<Rightarrow> args_schema option \<Rightarrow> bool"
  and item_conforms :: "json \<Rightarrow> args_schema \<Rightarrow> bool" where
  conforms_object: "ty = '''' \<or> ty = ''object'' \<Longrightarrow> \<forall>r \<in> set required. map_of obj r \<noteq> None \<Longrightarrow>
    \<forall>name types its raw. (name, PropSchema types its) \<in> set properties \<longrightarrow> map_of obj name = Some raw \<longrightarrow>
      types_admit types raw \<and> items_conform raw its \<Longrightarrow>
    conforms (JObj obj) (ArgsSchema ty required properties items)"
| conforms_array: "ty = ''array'' \<Longrightarrow> items_conform v items \<Longrightarrow> conforms v (ArgsSchema ty required properties items)"
| conforms_other: "ty \<notin> {'''', ''object'', ''array''} \<Longrightarrow> conforms v (ArgsSchema ty required properties items)"
| items_free: "items_conform v None"
| items_each: "\<forall>v \<in> set vs. item_conforms v s \<Longrightarrow> items_conform (JArr vs) (Some s)"
| item_structured: "ty = ''object'' \<or> ty = '''' \<or> required \<noteq> [] \<or> properties \<noteq> [] \<Longrightarrow>
    conforms v (ArgsSchema ty required properties items) \<Longrightarrow>
    item_conforms v (ArgsSchema ty required properties items)"
| item_plain: "ty \<noteq> ''object'' \<Longrightarrow> ty \<noteq> '''' \<Longrightarrow> types_admit [ty] v \<Longrightarrow>
    item_conforms v (ArgsSchema ty [] [] items)"

inductive_simps conforms_schema: "conforms v (ArgsSchema ty required properties items)"
inductive_simps items_conform_none: "items_conform v None"
inductive_simps items_conform_some: "items_conform v (Some s)"
inductive_simps item_conforms_schema: "item_conforms v (ArgsSchema ty required properties items)"

lemma checkPropType_ok: "checkPropType name v types = None \<longleftrightarrow> types_admit types v"
  by (simp add: checkPropType_def types_admit_def)

lemma missing_required_ok: "missing_required path obj rs = None \<longleftrightarrow> (\<forall>r \<in> set rs. map_of obj r \<noteq> None)"
  by (induction rs) auto

definition props_conform :: "(string \<times> json) list \<Rightarrow> (string \<times> prop_schema) list \<Rightarrow> bool" where
  "props_conform obj ps \<longleftrightarrow>
     (\<forall>name types its raw. (name, PropSchema types its) \<in> set ps \<longrightarrow> map_of obj name = Some raw \<longrightarrow>
        types_admit types raw \<and> items_conform raw its)"

lemma props_conform_simps:
  "props_conform obj []"
  "props_conform obj ((name, PropSchema types its) # ps) \<longleftrightarrow>
     (\<forall>raw. map_of obj name = Some raw \<longrightarrow> types_admit types raw \<and> items_conform raw its) \<and> props_conform obj ps"
  unfolding props_conform_def by auto

lemma conforms_object_schema:
  "ty = '''' \<or> ty = ''object'' \<Longrightarrow>
   conforms v (ArgsSchema ty required properties items) \<longleftrightarrow>
     (\<exists>obj. v = JObj obj \<and> (\<forall>r \<in> set required. map_of obj r \<noteq> None) \<and> props_conform obj properties)"
  unfolding props_conform_def conforms_schema by auto

lemma validates:
  "validateAgainstSchema path v0 s = None \<longleftrightarrow> conforms v0 s"
  "validate_properties path obj ps = None \<longleftrightarrow>
     props_conform obj ps"
  "validateArrayItems path v0 it = None \<longleftrightarrow> items_conform v0 it"
  "validate_items path i vs s = None \<longleftrightarrow> (\<forall>v \<in> set vs. item_conforms v s)"
  "validateSchemaItem path v0 s = None \<longleftrightarrow> item_conforms v0 s"
proof (induction path v0 s and path obj ps and path v0 it and path i vs s and path v0 s
    rule: validateAgainstSchema_validate_properties_validateArrayItems_validate_items_validateSchemaItem.induct)
  case (1 path v0 ty required properties items)
  show ?case
  proof (cases "ty = '''' \<or> ty = ''object''")
    case True
    show ?thesis
    proof (cases v0)
      case (JObj obj)
      show ?thesis
      proof (cases "missing_required path obj required")
        case None
        then have "\<forall>r \<in> set required. map_of obj r \<noteq> None" by (simp only: missing_required_ok)
        then show ?thesis
          using True None "1.IH"(1) [OF True JObj None] JObj by (simp add: conforms_object_schema)
      next
        case (Some e)
        then have "\<not> (\<forall>r \<in> set required. map_of obj r \<noteq> None)"
          by (metis missing_required_ok option.discI)
        then show ?thesis using True Some JObj by (auto simp: conforms_object_schema)
      qed
    qed (use True in \<open>auto simp: conforms_object_schema\<close>)
  next
    case False
    then show ?thesis using "1.IH"(2) by (auto simp: conforms_schema)
  qed
next
  case (3 path obj name types items ps)
  show ?case
  proof (cases "map_of obj name")
    case None
    then show ?thesis using "3.IH"(1) by (simp add: props_conform_simps)
  next
    case (Some raw)
    then show ?thesis
      using "3.IH"(2,3) [OF Some] checkPropType_ok [of "qualifiedLabel path name" raw types]
      by (auto simp: props_conform_simps split: option.splits)
  qed
next
  case (5 path v0 item_schema)
  then show ?case by (cases v0) (auto simp: items_conform_some)
next
  case (7 path i v vs item_schema)
  then show ?case by (auto split: option.splits)
next
  case (8 path item ty required properties items)
  then show ?case by (auto simp: item_conforms_schema checkPropType_ok)
qed (simp_all add: items_conform_none props_conform_simps)


lemma conforms_property_order:
  "set ps = set qs \<Longrightarrow> conforms v (ArgsSchema ty required ps items) \<longleftrightarrow> conforms v (ArgsSchema ty required qs items)"
  by (simp add: conforms_schema)

text \<open>An item schema of type array is checked for being an array only: its own items are not consulted.\<close>

lemma nested_array_items_ignored:
  "item_conforms (JArr vs) (ArgsSchema ''array'' [] [] items)"
  by (simp add: item_conforms_schema types_admit_def type_accepts_def equal_fold_def)

end
