(* ===== verification/AgentLoop.thy ===== *)
theory AgentLoop
  imports ToolSchema
begin

text \<open>
  The bounded tool-call broker of internal/agentloop: budgets, the registry of tools,
  one call, one model turn, the multi-turn run.

  The environment of a loop is the answers it gets from outside, numbered by request:
  readings of the clock, \<open>Err\<close> of the caller's context and of the contexts derived from
  it, the model's turns.  A tool handler is a function of the number of handler
  invocations so far and of its arguments; it does not call back into the loop.
\<close>

section \<open>Errors\<close>

datatype budget_kind = MaxToolCallsKind int | MaxModelCallsKind int | MaxWallTimeKind duration

datatype loop_error =
    CtxCanceled
  | CtxDeadlineExceeded
  | ErrUnknownTool
  | ErrBudgetExceeded budget_kind
  | ErrInvalidArgs schema_error
  | GatewayRequired
  | ToolNameRequired
  | ToolHandlerRequired
  | CannotReplaceCoreTool string
  | MarshalFailed
  | OtherError string
  | WrappedError string loop_error

text \<open>\<open>errors.Is\<close>, also on no error.\<close>

fun errors_is :: "loop_error \<Rightarrow> loop_error \<Rightarrow> bool" where
  "errors_is (WrappedError t e) target \<longleftrightarrow> WrappedError t e = target \<or> errors_is e target"
| "errors_is e target \<longleftrightarrow> e = target"

definition err_is :: "loop_error option \<Rightarrow> loop_error \<Rightarrow> bool" where
  "err_is err target \<longleftrightarrow> (case err of None \<Rightarrow> False | Some e \<Rightarrow> errors_is e target)"

section \<open>Budgets\<close>

record budget =
  MaxToolCalls :: int
  MaxModelCalls :: int
  MaxWallTime :: duration

definition DefaultMaxToolCalls :: int where "DefaultMaxToolCalls = 50"

definition DefaultMaxModelCalls :: int where "DefaultMaxModelCalls = 20"

definition DefaultMaxWallTime :: duration where "DefaultMaxWallTime = 5 * 60 * second"

definition applyBudgetDefaults :: "budget \<Rightarrow> budget" where
  "applyBudgetDefaults b =
     \<lparr>MaxToolCalls = (if MaxToolCalls b \<le> 0 then DefaultMaxToolCalls else MaxToolCalls b),
      MaxModelCalls = (if MaxModelCalls b \<le> 0 then DefaultMaxModelCalls else MaxModelCalls b),
      MaxWallTime = (if MaxWallTime b \<le> 0 then DefaultMaxWallTime else MaxWallTime b)\<rparr>"

section \<open>Tools\<close>

type_synonym tool_handler = "nat \<Rightarrow> json raw_doc \<Rightarrow> json raw_doc \<times> loop_error option"

record registered_tool =
  rt_schema :: "args_schema raw_doc"
  rt_handler :: tool_handler

record tool_spec =
  ts_name :: string
  ts_schema :: "args_schema raw_doc"
  ts_handler :: "tool_handler option"

definition ToolSemanticsAnalyze :: string where
  "ToolSemanticsAnalyze = ''semantics_analyze''"

definition ToolCodeSignalReport :: string where
  "ToolCodeSignalReport = ''codesignal_report''"

definition typed :: "string \<Rightarrow> prop_schema" where
  "typed t = PropSchema [t] None"

definition coreSemanticsSchema :: args_schema where
  "coreSemanticsSchema = ArgsSchema ''object'' [''path'', ''language'', ''content'']
     [(''path'', typed ''string''), (''language'', typed ''string''), (''content'', typed ''string'')] None"

definition coreCodeSignalSchema :: args_schema where
  "coreCodeSignalSchema = ArgsSchema ''object'' [''files'']
     [(''files'', PropSchema [''array''] (Some (ArgsSchema ''object'' [''path''] [(''path'', typed ''string'')] None))),
      (''baseline'', typed ''boolean''), (''repository'', typed ''string''), (''revision'', typed ''string''),
      (''include_resolved'', typed ''boolean''), (''diagnostics'', typed ''array'')] None"

text \<open>The options: budget and injected core handlers; the default handlers are pkg/semantics and pkg/codesignal.\<close>

record loop_options =
  op_budget :: budget
  op_semantics :: "tool_handler option"
  op_code_signal :: "tool_handler option"

record default_handlers =
  DefaultSemanticsAnalyze :: tool_handler
  DefaultCodeSignalReport :: tool_handler

definition pick_handler :: "tool_handler option \<Rightarrow> tool_handler \<Rightarrow> tool_handler" where
  "pick_handler h dflt = (case h of Some f \<Rightarrow> f | None \<Rightarrow> dflt)"

definition coreToolDefs :: "default_handlers \<Rightarrow> (string \<times> args_schema \<times> (loop_options \<Rightarrow> tool_handler)) list" where
  "coreToolDefs D =
     [(ToolSemanticsAnalyze, coreSemanticsSchema, \<lambda>o1. pick_handler (op_semantics o1) (DefaultSemanticsAnalyze D)),
      (ToolCodeSignalReport, coreCodeSignalSchema, \<lambda>o1. pick_handler (op_code_signal o1) (DefaultCodeSignalReport D))]"

definition isCoreToolName :: "default_handlers \<Rightarrow> string \<Rightarrow> bool" where
  "isCoreToolName D name \<longleftrightarrow> (\<exists>d \<in> set (coreToolDefs D). fst d = name)"

definition newCoreToolRegistry :: "default_handlers \<Rightarrow> loop_options \<Rightarrow> string \<rightharpoonup> registered_tool" where
  "newCoreToolRegistry D opts =
     foldl (\<lambda>m (name, schema, pick). m(name \<mapsto> \<lparr>rt_schema = Doc schema, rt_handler = pick opts\<rparr>))
       Map.empty (coreToolDefs D)"

definition rejectCoreToolRegister :: "default_handlers \<Rightarrow> string \<Rightarrow> loop_error option" where
  "rejectCoreToolRegister D name = (if isCoreToolName D name then Some (CannotReplaceCoreTool name) else None)"

section \<open>The loop\<close>

datatype call_source = CallSourceHandler | CallSourceModel

record recorded_call =
  rc_name :: string
  rc_source :: call_source
  rc_args :: "json raw_doc"
  rc_result :: "json raw_doc"
  rc_err :: "loop_error option"

text \<open>The counters of clock readings, context checks and handler invocations number the environment's answers.\<close>

record agent_loop =
  lp_tools :: "string \<rightharpoonup> registered_tool"
  lp_budget :: budget
  lp_start :: time
  lp_tool_calls :: int
  lp_model_calls :: int
  lp_calls :: "recorded_call list"
  lp_readings :: nat
  lp_checks :: nat
  lp_op_checks :: nat
  lp_invocations :: nat

record tool_call =
  tc_name :: string
  tc_args :: "json raw_doc"

record turn_response =
  tr_text :: string
  tr_tool_calls :: "tool_call list"

text \<open>A turn's prompt is the caller's text or the marshalled results of the turn before.\<close>

datatype prompt = PromptText string | ToolResults "json raw_doc list"

record loop_env =
  ev_now :: "nat \<Rightarrow> time"
  ev_ctx :: "nat \<Rightarrow> loop_error option"
  ev_op :: "nat \<Rightarrow> loop_error option"
  ev_generate :: "int \<Rightarrow> prompt \<Rightarrow> turn_response \<times> loop_error option"

definition now :: "loop_env \<Rightarrow> agent_loop \<Rightarrow> agent_loop \<times> time" where
  "now E l = (l\<lparr>lp_readings := lp_readings l + 1\<rparr>, ev_now E (lp_readings l))"

definition ctx_check :: "loop_env \<Rightarrow> agent_loop \<Rightarrow> agent_loop \<times> loop_error option" where
  "ctx_check E l = (l\<lparr>lp_checks := lp_checks l + 1\<rparr>, ev_ctx E (lp_checks l))"

definition op_check :: "loop_env \<Rightarrow> agent_loop \<Rightarrow> agent_loop \<times> loop_error option" where
  "op_check E l = (l\<lparr>lp_op_checks := lp_op_checks l + 1\<rparr>, ev_op E (lp_op_checks l))"

definition New :: "default_handlers \<Rightarrow> loop_env \<Rightarrow> loop_options \<Rightarrow> agent_loop" where
  "New D E opts =
     \<lparr>lp_tools = newCoreToolRegistry D opts, lp_budget = applyBudgetDefaults (op_budget opts), lp_start = ev_now E 0,
      lp_tool_calls = 0, lp_model_calls = 0, lp_calls = [], lp_readings = 1, lp_checks = 0, lp_op_checks = 0,
      lp_invocations = 0\<rparr>"

definition Register :: "default_handlers \<Rightarrow> tool_spec \<Rightarrow> agent_loop \<Rightarrow> agent_loop \<times> loop_error option" where
  "Register D spec l =
     (if ts_name spec = [] then (l, Some ToolNameRequired)
      else (case ts_handler spec of
              None \<Rightarrow> (l, Some ToolHandlerRequired)
            | Some h \<Rightarrow>
                (case rejectCoreToolRegister D (ts_name spec) of
                   Some e \<Rightarrow> (l, Some e)
                 | None \<Rightarrow> (l\<lparr>lp_tools := (lp_tools l)(ts_name spec \<mapsto> \<lparr>rt_schema = ts_schema spec, rt_handler = h\<rparr>)\<rparr>, None))))"

subsection \<open>Wall time\<close>

definition wall_exceeded :: "agent_loop \<Rightarrow> loop_error" where
  "wall_exceeded l = ErrBudgetExceeded (MaxWallTimeKind (MaxWallTime (lp_budget l)))"

definition checkWallLocked :: "loop_env \<Rightarrow> agent_loop \<Rightarrow> agent_loop \<times> loop_error option" where
  "checkWallLocked E l =
     (let (l1, t) = now E l in
      if time_sub t (lp_start l) \<ge> MaxWallTime (lp_budget l)
      then (l1, Some (wall_exceeded l))
      else (l1, None))"

definition wallBudgetContext :: "loop_env \<Rightarrow> agent_loop \<Rightarrow> agent_loop \<times> loop_error option" where
  "wallBudgetContext E l =
     (case ctx_check E l of
        (l1, Some e) \<Rightarrow> (l1, Some e)
      | (l1, None) \<Rightarrow>
          (case checkWallLocked E l1 of
             (l2, Some e) \<Rightarrow> (l2, Some e)
           | (l2, None) \<Rightarrow>
               let (l3, t) = now E l2;
                   remaining = wrap64 (MaxWallTime (lp_budget l) - time_sub t (lp_start l))
               in if remaining \<le> 0
                  then (l3, Some (wall_exceeded l))
                  else (l3, None)))"

definition mapWallErr :: "loop_env \<Rightarrow> agent_loop \<Rightarrow> loop_error option \<Rightarrow> agent_loop \<times> loop_error option" where
  "mapWallErr E l err =
     (if err = None then (l, None)
      else
        let (l1, parent) = ctx_check E l in
        if parent \<noteq> None then (l1, err)
        else
          let (l2, op) = op_check E l1 in
          if op = None then (l2, err)
          else if err_is err CtxDeadlineExceeded \<or> err_is err CtxCanceled then (l2, Some (wall_exceeded l))
          else
            let (l3, op1) = op_check E l2 in
            if err_is op1 CtxDeadlineExceeded then (l3, Some (wall_exceeded l))
            else
              let (l4, op2) = op_check E l3 in
              if err_is op2 CtxCanceled then (l4, Some (wall_exceeded l))
              else (l4, err))"

subsection \<open>One tool call\<close>

text \<open>
  \<open>Call\<close> takes the lock twice: once to check the budgets and reserve a slot, and again, after
  the handler has run, to record the call.  \<open>call_reserve\<close> is the first critical section and
  returns what the rest of the call needs; \<open>call_execute\<close> validates the arguments and runs the
  handler without the lock, and \<open>call_finish\<close> also records the call.
\<close>

record call_ticket =
  tk_name :: string
  tk_source :: call_source
  tk_args :: "json raw_doc"
  tk_schema :: "args_schema raw_doc"
  tk_handler :: tool_handler

definition record_call ::
  "string \<Rightarrow> call_source \<Rightarrow> json raw_doc \<Rightarrow> json raw_doc \<Rightarrow> loop_error option \<Rightarrow> agent_loop \<Rightarrow> agent_loop" where
  "record_call name source args result err l =
     l\<lparr>lp_calls := lp_calls l @ [\<lparr>rc_name = name, rc_source = source, rc_args = args, rc_result = result, rc_err = err\<rparr>]\<rparr>"

definition call_reserve ::
  "loop_env \<Rightarrow> call_source \<Rightarrow> string \<Rightarrow> json raw_doc \<Rightarrow> agent_loop \<Rightarrow> agent_loop \<times> (loop_error + call_ticket)" where
  "call_reserve E source name args l =
     (case checkWallLocked E l of
        (l1, Some e) \<Rightarrow> (l1, Inl e)
      | (l1, None) \<Rightarrow>
          if lp_tool_calls l1 \<ge> MaxToolCalls (lp_budget l1)
          then (l1, Inl (ErrBudgetExceeded (MaxToolCallsKind (MaxToolCalls (lp_budget l1)))))
          else (case lp_tools l1 name of
                  None \<Rightarrow> (record_call name source args NilMsg (Some ErrUnknownTool) l1, Inl ErrUnknownTool)
                | Some tool \<Rightarrow>
                    (l1\<lparr>lp_tool_calls := lp_tool_calls l1 + 1\<rparr>,
                     Inr \<lparr>tk_name = name, tk_source = source, tk_args = args, tk_schema = rt_schema tool,
                          tk_handler = rt_handler tool\<rparr>)))"

definition invoke :: "tool_handler \<Rightarrow> json raw_doc \<Rightarrow> agent_loop \<Rightarrow> agent_loop \<times> json raw_doc \<times> loop_error option" where
  "invoke h args l = (l\<lparr>lp_invocations := lp_invocations l + 1\<rparr>, h (lp_invocations l) args)"

definition call_execute :: "loop_env \<Rightarrow> call_ticket \<Rightarrow> agent_loop \<Rightarrow> agent_loop \<times> json raw_doc \<times> loop_error option" where
  "call_execute E tk l =
     (case validateToolArgs (tk_schema tk) (tk_args tk) of
        Some se \<Rightarrow> (l, NilMsg, Some (ErrInvalidArgs se))
      | None \<Rightarrow>
          (case wallBudgetContext E l of
             (l1, Some e) \<Rightarrow> (l1, NilMsg, Some e)
           | (l1, None) \<Rightarrow>
               let (l2, result, err0) = invoke (tk_handler tk) (tk_args tk) l1;
                   (l3, err) = mapWallErr E l2 err0
               in (l3, result, err)))"

definition call_finish :: "loop_env \<Rightarrow> call_ticket \<Rightarrow> agent_loop \<Rightarrow> agent_loop \<times> json raw_doc \<times> loop_error option" where
  "call_finish E tk l =
     (let (l1, result, err) = call_execute E tk l
      in (record_call (tk_name tk) (tk_source tk) (tk_args tk) result err l1, result, err))"

definition Call ::
  "loop_env \<Rightarrow> call_source \<Rightarrow> string \<Rightarrow> json raw_doc \<Rightarrow> agent_loop \<Rightarrow> agent_loop \<times> json raw_doc \<times> loop_error option" where
  "Call E source name args l =
     (case ctx_check E l of
        (l1, Some e) \<Rightarrow> (l1, NilMsg, Some e)
      | (l1, None) \<Rightarrow>
          (case call_reserve E source name args l1 of
             (l2, Inl e) \<Rightarrow> (l2, NilMsg, Some e)
           | (l2, Inr tk) \<Rightarrow> call_finish E tk l2))"

subsection \<open>Turns\<close>

fun call_all :: "loop_env \<Rightarrow> tool_call list \<Rightarrow> json raw_doc list \<Rightarrow> agent_loop
    \<Rightarrow> agent_loop \<times> (loop_error + json raw_doc list)" where
  "call_all E [] results l = (l, Inr results)"
| "call_all E (tc # tcs) results l =
     (case Call E CallSourceModel (tc_name tc) (tc_args tc) l of
        (l1, out, Some e) \<Rightarrow> (l1, Inl e)
      | (l1, out, None) \<Rightarrow> call_all E tcs (results @ [out]) l1)"

text \<open>\<open>json.Marshal\<close> of the raw results: a nil message is null, any other has to be valid JSON.\<close>

definition marshals :: "json raw_doc \<Rightarrow> bool" where
  "marshals m \<longleftrightarrow> m \<noteq> EmptyMsg \<and> m \<noteq> Malformed"

definition runModelToolCalls ::
  "loop_env \<Rightarrow> tool_call list \<Rightarrow> agent_loop \<Rightarrow> agent_loop \<times> (loop_error + prompt)" where
  "runModelToolCalls E calls l =
     (case call_all E calls [] l of
        (l1, Inl e) \<Rightarrow> (l1, Inl e)
      | (l1, Inr results) \<Rightarrow>
          if list_all marshals results then (l1, Inr (ToolResults results)) else (l1, Inl MarshalFailed))"

definition reserveModelCall :: "loop_env \<Rightarrow> agent_loop \<Rightarrow> agent_loop \<times> loop_error option" where
  "reserveModelCall E l =
     (case checkWallLocked E l of
        (l1, Some e) \<Rightarrow> (l1, Some e)
      | (l1, None) \<Rightarrow>
          if lp_model_calls l1 \<ge> MaxModelCalls (lp_budget l1)
          then (l1, Some (ErrBudgetExceeded (MaxModelCallsKind (MaxModelCalls (lp_budget l1)))))
          else (l1\<lparr>lp_model_calls := lp_model_calls l1 + 1\<rparr>, None))"

definition nextTurn :: "loop_env \<Rightarrow> prompt \<Rightarrow> agent_loop \<Rightarrow> agent_loop \<times> (loop_error + turn_response)" where
  "nextTurn E prompt l =
     (case ctx_check E l of
        (l1, Some e) \<Rightarrow> (l1, Inl e)
      | (l1, None) \<Rightarrow>
          (case reserveModelCall E l1 of
             (l2, Some e) \<Rightarrow> (l2, Inl e)
           | (l2, None) \<Rightarrow>
               (case wallBudgetContext E l2 of
                  (l3, Some e) \<Rightarrow> (l3, Inl e)
                | (l3, None) \<Rightarrow>
                    let (resp, err0) = ev_generate E (lp_model_calls l3) prompt in
                    (case mapWallErr E l3 err0 of
                       (l4, Some e) \<Rightarrow> (l4, Inl e)
                     | (l4, None) \<Rightarrow>
                         (case checkWallLocked E l4 of
                            (l5, Some e) \<Rightarrow> (l5, Inl e)
                          | (l5, None) \<Rightarrow> (l5, Inr resp))))))"

section \<open>What the steps leave alone\<close>

text \<open>Bookkeeping: the tools, budget, start, call counters and log, which clock and context checks do not touch.\<close>

definition same_log :: "agent_loop \<Rightarrow> agent_loop \<Rightarrow> bool" where
  "same_log l l' \<longleftrightarrow> lp_tools l' = lp_tools l \<and> lp_budget l' = lp_budget l \<and> lp_start l' = lp_start l
     \<and> lp_tool_calls l' = lp_tool_calls l \<and> lp_model_calls l' = lp_model_calls l \<and> lp_calls l' = lp_calls l
     \<and> lp_invocations l' = lp_invocations l"

lemma same_log_refl [simp]: "same_log l l"
  by (simp add: same_log_def)

lemma same_log_trans: "same_log a b \<Longrightarrow> same_log b c \<Longrightarrow> same_log a c"
  by (simp add: same_log_def)

lemma ctx_check_log: "ctx_check E l = (l', r) \<Longrightarrow> same_log l l'"
  by (auto simp: ctx_check_def same_log_def)

lemma op_check_log: "op_check E l = (l', r) \<Longrightarrow> same_log l l'"
  by (auto simp: op_check_def same_log_def)

lemma checkWallLocked_log: "checkWallLocked E l = (l', r) \<Longrightarrow> same_log l l'"
  by (auto simp: checkWallLocked_def now_def same_log_def split: if_splits)

lemma wallBudgetContext_log: "wallBudgetContext E l = (l', r) \<Longrightarrow> same_log l l'"
  unfolding wallBudgetContext_def Let_def now_def
  by (auto split: prod.splits option.splits if_splits dest!: ctx_check_log checkWallLocked_log simp: same_log_def)

lemma mapWallErr_log: "mapWallErr E l err = (l', r) \<Longrightarrow> same_log l l' \<and> (r = None \<longleftrightarrow> err = None)"
  unfolding mapWallErr_def Let_def
  by (auto split: prod.splits if_splits dest!: ctx_check_log op_check_log simp: same_log_def)

lemma invoke_log: "invoke h args l = (l', r) \<Longrightarrow>
  lp_invocations l' = lp_invocations l + 1 \<and> same_log (l\<lparr>lp_invocations := lp_invocations l + 1\<rparr>) l'"
  by (auto simp: invoke_def same_log_def)

lemma call_execute_log:
  assumes "call_execute E tk l = (l', out, err)"
  shows "\<exists>n. n \<le> 1 \<and> same_log (l\<lparr>lp_invocations := lp_invocations l + n\<rparr>) l'
    \<and> (err = None \<longrightarrow> n = 1 \<and> validateToolArgs (tk_schema tk) (tk_args tk) = None)"
proof (cases "validateToolArgs (tk_schema tk) (tk_args tk)")
  case (Some se)
  then show ?thesis using assms by (intro exI [of _ 0]) (auto simp: call_execute_def)
next
  case None
  obtain l1 w where w: "wallBudgetContext E l = (l1, w)" by fastforce
  then have l1: "same_log l l1" by (rule wallBudgetContext_log)
  show ?thesis
  proof (cases w)
    case (Some e)
    then show ?thesis using assms None w l1 by (intro exI [of _ 0]) (auto simp: call_execute_def)
  next
    case wn: None
    obtain l2 result err0 where i: "invoke (tk_handler tk) (tk_args tk) l1 = (l2, result, err0)" by (metis prod_cases3)
    obtain l3 err1 where m: "mapWallErr E l2 err0 = (l3, err1)" by fastforce
    have l': "l' = l3" "err = err1" using assms None w wn i m by (auto simp: call_execute_def)
    have "same_log (l1\<lparr>lp_invocations := lp_invocations l1 + 1\<rparr>) l2" using invoke_log [OF i] by blast
    moreover have "same_log l2 l3" using mapWallErr_log [OF m] by blast
    ultimately have "same_log (l\<lparr>lp_invocations := lp_invocations l + 1\<rparr>) l'"
      using l1 l' by (simp add: same_log_def)
    then show ?thesis using None by (intro exI [of _ 1]) simp
  qed
qed

lemma call_reserve_ok:
  assumes "call_reserve E source name args l = (l', Inr tk)"
  shows "\<exists>tool. lp_tools l name = Some tool \<and> lp_tool_calls l < MaxToolCalls (lp_budget l)
    \<and> same_log (l\<lparr>lp_tool_calls := lp_tool_calls l + 1\<rparr>) l'
    \<and> tk = \<lparr>tk_name = name, tk_source = source, tk_args = args, tk_schema = rt_schema tool, tk_handler = rt_handler tool\<rparr>"
proof -
  obtain l1 w where w: "checkWallLocked E l = (l1, w)" by fastforce
  have "same_log l l1" using w by (rule checkWallLocked_log)
  then show ?thesis
    using assms w by (auto simp: call_reserve_def same_log_def split: option.splits if_splits)
qed

lemma call_reserve_rejects:
  assumes "call_reserve E source name args l = (l', Inl e)"
  shows "same_log l l'
    \<or> lp_tools l name = None \<and> e = ErrUnknownTool \<and> same_log (record_call name source args NilMsg (Some ErrUnknownTool) l) l'"
proof -
  obtain l1 w where w: "checkWallLocked E l = (l1, w)" by fastforce
  have "same_log l l1" using w by (rule checkWallLocked_log)
  then show ?thesis
    using assms w by (auto simp: call_reserve_def record_call_def same_log_def split: option.splits if_splits)
qed

lemma reserveModelCall_log:
  assumes "reserveModelCall E l = (l', err)"
  shows "if err = None then lp_model_calls l < MaxModelCalls (lp_budget l)
      \<and> same_log (l\<lparr>lp_model_calls := lp_model_calls l + 1\<rparr>) l' else same_log l l'"
proof -
  obtain l1 w where w: "checkWallLocked E l = (l1, w)" by fastforce
  have "same_log l l1" using w by (rule checkWallLocked_log)
  then show ?thesis
    using assms w by (auto simp: reserveModelCall_def same_log_def split: option.splits if_splits)
qed

section \<open>Concurrent use\<close>

text \<open>
  Calls of several goroutines interleave at the two critical sections.  A pending call is
  reserved, or executed and waiting to be recorded.  The environment may read the clock and
  check contexts at any time (\<open>quiet\<close>), and tools may be registered.
\<close>

datatype pending_call = Reserved call_ticket | Executed call_ticket "json raw_doc" "loop_error option"

inductive loop_step :: "default_handlers \<Rightarrow> loop_env \<Rightarrow> agent_loop \<times> pending_call list \<Rightarrow> agent_loop \<times> pending_call list \<Rightarrow> bool"
  for D E where
  step_quiet: "same_log l l' \<Longrightarrow> loop_step D E (l, ps) (l', ps)"
| step_register: "Register D spec l = (l', r) \<Longrightarrow> loop_step D E (l, ps) (l', ps)"
| step_reserve: "call_reserve E source name args l = (l', Inr tk) \<Longrightarrow> loop_step D E (l, ps) (l', ps @ [Reserved tk])"
| step_reject: "call_reserve E source name args l = (l', Inl e) \<Longrightarrow> loop_step D E (l, ps) (l', ps)"
| step_execute: "call_execute E tk l = (l', out, err) \<Longrightarrow>
    loop_step D E (l, ps @ Reserved tk # qs) (l', ps @ Executed tk out err # qs)"
| step_record: "loop_step D E (l, ps @ Executed tk out err # qs)
    (record_call (tk_name tk) (tk_source tk) (tk_args tk) out err l, ps @ qs)"
| step_model: "reserveModelCall E l = (l', err) \<Longrightarrow> loop_step D E (l, ps) (l', ps)"

inductive_cases loop_stepE: "loop_step D E s s'"

definition reserved :: "pending_call list \<Rightarrow> nat" where
  "reserved ps = length (filter (\<lambda>p. case p of Reserved _ \<Rightarrow> True | _ \<Rightarrow> False) ps)"

lemma reserved_simps [simp]:
  "reserved [] = 0" "reserved (ps @ qs) = reserved ps + reserved qs"
  "reserved (Reserved tk # ps) = Suc (reserved ps)" "reserved (Executed tk out err # ps) = reserved ps"
  by (simp_all add: reserved_def)

definition within_budget :: "agent_loop \<times> pending_call list \<Rightarrow> bool" where
  "within_budget s \<longleftrightarrow> (case s of (l, ps) \<Rightarrow>
     0 < MaxToolCalls (lp_budget l) \<and> 0 < MaxModelCalls (lp_budget l) \<and> 0 < MaxWallTime (lp_budget l)
     \<and> lp_tool_calls l \<le> MaxToolCalls (lp_budget l) \<and> lp_model_calls l \<le> MaxModelCalls (lp_budget l)
     \<and> int (lp_invocations l + reserved ps) \<le> lp_tool_calls l)"

lemma within_budget_new: "within_budget (New D E opts, [])"
  by (simp add: within_budget_def New_def applyBudgetDefaults_def DefaultMaxToolCalls_def DefaultMaxModelCalls_def
      DefaultMaxWallTime_def second_def)

lemma within_budget_step:
  assumes "within_budget s" "loop_step D E s s'"
  shows "within_budget s' \<and> lp_budget (fst s') = lp_budget (fst s)"
  using assms(2)
proof cases
  case (step_quiet l l' ps)
  then show ?thesis using assms(1) by (simp add: within_budget_def same_log_def)
next
  case (step_register spec l l' r ps)
  have "lp_budget l' = lp_budget l \<and> lp_tool_calls l' = lp_tool_calls l \<and> lp_model_calls l' = lp_model_calls l
      \<and> lp_invocations l' = lp_invocations l"
    using step_register(3) by (auto simp: Register_def split: if_splits option.splits)
  then show ?thesis using step_register assms(1) by (simp add: within_budget_def)
next
  case (step_reserve source name args l l' tk ps)
  then show ?thesis
    using assms(1) call_reserve_ok [OF step_reserve(3)] by (auto simp: within_budget_def same_log_def)
next
  case (step_reject source name args l l' e ps)
  then show ?thesis
    using assms(1) call_reserve_rejects [OF step_reject(3)]
    by (auto simp: within_budget_def same_log_def record_call_def)
next
  case (step_execute tk l l' out err ps qs)
  then show ?thesis
    using assms(1) call_execute_log [OF step_execute(3)] by (auto simp: within_budget_def same_log_def)
next
  case (step_record l ps tk out err qs)
  then show ?thesis using assms(1) by (simp add: within_budget_def record_call_def)
next
  case (step_model l l' err ps)
  then show ?thesis
    using assms(1) reserveModelCall_log [OF step_model(3)]
    by (auto simp: within_budget_def same_log_def split: if_splits)
qed

text \<open>C29. Budgets hold under concurrency: in every interleaving of calls, model turns and
  registrations on a new loop, the number of reserved tool calls never exceeds MaxToolCalls, handlers
  run at most once per reserved call, model calls never exceed MaxModelCalls, and the limits in force
  are the configured ones or the defaults 50, 20 and five minutes where none is configured.\<close>

theorem budgets_hold_in_every_interleaving:
  assumes "(loop_step D E)\<^sup>*\<^sup>* (New D E opts, []) (l, ps)"
  shows "lp_budget l = applyBudgetDefaults (op_budget opts)
    \<and> int (lp_invocations l + reserved ps) \<le> lp_tool_calls l \<and> lp_tool_calls l \<le> MaxToolCalls (lp_budget l)
    \<and> lp_model_calls l \<le> MaxModelCalls (lp_budget l)
    \<and> MaxToolCalls (lp_budget l) = (if MaxToolCalls (op_budget opts) > 0 then MaxToolCalls (op_budget opts) else 50)
    \<and> MaxModelCalls (lp_budget l) = (if MaxModelCalls (op_budget opts) > 0 then MaxModelCalls (op_budget opts) else 20)
    \<and> MaxWallTime (lp_budget l) = (if MaxWallTime (op_budget opts) > 0 then MaxWallTime (op_budget opts) else 300000000000)"
proof -
  have "within_budget (l, ps) \<and> lp_budget (fst (l, ps)) = applyBudgetDefaults (op_budget opts)"
    using assms
  proof (induction rule: rtranclp_induct)
    case base
    show ?case using within_budget_new by (simp add: New_def)
  next
    case (step s s')
    then show ?case using within_budget_step by metis
  qed
  then have w: "within_budget (l, ps)" and b: "lp_budget l = applyBudgetDefaults (op_budget opts)" by simp_all
  have "int (lp_invocations l + reserved ps) \<le> lp_tool_calls l \<and> lp_tool_calls l \<le> MaxToolCalls (lp_budget l)
      \<and> lp_model_calls l \<le> MaxModelCalls (lp_budget l)"
    using w by (simp add: within_budget_def)
  moreover have "MaxToolCalls (applyBudgetDefaults bd) = (if MaxToolCalls bd > 0 then MaxToolCalls bd else 50)"
    "MaxModelCalls (applyBudgetDefaults bd) = (if MaxModelCalls bd > 0 then MaxModelCalls bd else 20)"
    "MaxWallTime (applyBudgetDefaults bd) = (if MaxWallTime bd > 0 then MaxWallTime bd else 300000000000)" for bd
    by (simp_all add: applyBudgetDefaults_def DefaultMaxToolCalls_def DefaultMaxModelCalls_def
        DefaultMaxWallTime_def second_def)
  ultimately show ?thesis unfolding b by blast
qed

section \<open>The run\<close>

lemma call_reserve_log:
  "call_reserve E source name args l = (l', r) \<Longrightarrow> lp_model_calls l' = lp_model_calls l \<and> lp_budget l' = lp_budget l
     \<and> lp_tools l' = lp_tools l"
  by (cases r) (auto dest!: call_reserve_ok call_reserve_rejects simp: same_log_def record_call_def)

lemma Call_log:
  assumes "Call E source name args l = (l', out, err)"
  shows "lp_model_calls l' = lp_model_calls l \<and> lp_budget l' = lp_budget l \<and> lp_tools l' = lp_tools l"
proof -
  obtain l1 c where c: "ctx_check E l = (l1, c)" by fastforce
  obtain l2 r where r: "call_reserve E source name args l1 = (l2, r)" by fastforce
  have l1: "same_log l l1" by (rule ctx_check_log [OF c])
  show ?thesis
  proof (cases "c \<noteq> None \<or> \<not> is_ok r")
    case True
    then show ?thesis
      using assms c r l1 call_reserve_log [OF r] by (cases c; cases r) (auto simp: Call_def same_log_def)
  next
    case False
    then obtain tk where tk: "c = None" "r = Inr tk" by (cases r) auto
    obtain l3 o3 e3 where x: "call_execute E tk l2 = (l3, o3, e3)" by (metis prod_cases3)
    have "l' = record_call (tk_name tk) (tk_source tk) (tk_args tk) o3 e3 l3"
      using assms c r tk x by (auto simp: Call_def call_finish_def)
    then show ?thesis
      using call_execute_log [OF x] call_reserve_log [OF r] l1 by (auto simp: same_log_def record_call_def)
  qed
qed

lemma call_all_log:
  "call_all E tcs results l = (l', r) \<Longrightarrow>
   lp_model_calls l' = lp_model_calls l \<and> lp_budget l' = lp_budget l \<and> lp_tools l' = lp_tools l"
proof (induction tcs arbitrary: results l)
  case (Cons tc tcs)
  obtain l1 out err where c: "Call E CallSourceModel (tc_name tc) (tc_args tc) l = (l1, out, err)" by (metis prod_cases3)
  show ?case
  proof (cases err)
    case None
    then have "call_all E tcs (results @ [out]) l1 = (l', r)" using Cons.prems c by simp
    from Cons.IH [OF this] show ?thesis using Call_log [OF c] by simp
  next
    case (Some e)
    then show ?thesis using Cons.prems c Call_log [OF c] by simp
  qed
qed simp

lemma runModelToolCalls_log:
  "runModelToolCalls E tcs l = (l', r) \<Longrightarrow>
   lp_model_calls l' = lp_model_calls l \<and> lp_budget l' = lp_budget l \<and> lp_tools l' = lp_tools l"
  by (auto simp: runModelToolCalls_def split: prod.splits sum.splits if_splits dest: call_all_log)

lemma nextTurn_log:
  assumes "nextTurn E p l = (l', r)"
  shows "if is_ok r then lp_model_calls l < MaxModelCalls (lp_budget l) \<and> same_log (l\<lparr>lp_model_calls := lp_model_calls l + 1\<rparr>) l'
    else same_log l l' \<or> same_log (l\<lparr>lp_model_calls := lp_model_calls l + 1\<rparr>) l' \<and> lp_model_calls l < MaxModelCalls (lp_budget l)"
proof -
  obtain l1 c where c: "ctx_check E l = (l1, c)" by fastforce
  obtain l2 r2 where r2: "reserveModelCall E l1 = (l2, r2)" by fastforce
  obtain l3 r3 where r3: "wallBudgetContext E l2 = (l3, r3)" by fastforce
  obtain resp err0 where g: "ev_generate E (lp_model_calls l3) p = (resp, err0)" by fastforce
  obtain l4 r4 where r4: "mapWallErr E l3 err0 = (l4, r4)" by fastforce
  obtain l5 r5 where r5: "checkWallLocked E l4 = (l5, r5)" by fastforce
  have logs: "same_log l l1" "same_log l2 l3" "same_log l3 l4" "same_log l4 l5"
    using ctx_check_log [OF c] wallBudgetContext_log [OF r3] mapWallErr_log [OF r4] checkWallLocked_log [OF r5] by simp_all
  have m: "if r2 = None then lp_model_calls l1 < MaxModelCalls (lp_budget l1)
      \<and> same_log (l1\<lparr>lp_model_calls := lp_model_calls l1 + 1\<rparr>) l2 else same_log l1 l2"
    by (rule reserveModelCall_log [OF r2])
  have l': "(l', r) = (if c \<noteq> None then (l1, Inl (the c)) else if r2 \<noteq> None then (l2, Inl (the r2))
      else if r3 \<noteq> None then (l3, Inl (the r3)) else if r4 \<noteq> None then (l4, Inl (the r4))
      else if r5 \<noteq> None then (l5, Inl (the r5)) else (l5, Inr resp))"
    using assms c r2 r3 g r4 r5
    by (cases c; cases r2; cases r3; cases r4; cases r5) (simp_all add: nextTurn_def)
  show ?thesis
    using l' logs m by (auto simp: same_log_def split: if_splits)
qed

function run_turns :: "loop_env \<Rightarrow> prompt \<Rightarrow> agent_loop \<Rightarrow> agent_loop \<times> (loop_error + string)" where
  "run_turns E p l =
     (case nextTurn E p l of
        (l1, Inl e) \<Rightarrow> (l1, Inl e)
      | (l1, Inr resp) \<Rightarrow>
          if tr_tool_calls resp = [] then (l1, Inr (tr_text resp))
          else (case runModelToolCalls E (tr_tool_calls resp) l1 of
                  (l2, Inl e) \<Rightarrow> (l2, Inl e)
                | (l2, Inr p2) \<Rightarrow> run_turns E p2 l2))"
  by pat_completeness auto

termination
proof (relation "measure (\<lambda>(E, p, l). nat (MaxModelCalls (lp_budget l) - lp_model_calls l))", goal_cases)
  case 1
  then show ?case by simp
next
  case 2
  note h = this
  show ?case
    using h nextTurn_log [OF h(1) [symmetric]] runModelToolCalls_log [OF h(4) [symmetric]] by (auto simp: same_log_def)
qed

declare run_turns.simps [simp del]

text \<open>The gateway may be nil.\<close>

definition Run :: "loop_env \<Rightarrow> bool \<Rightarrow> string \<Rightarrow> agent_loop \<Rightarrow> agent_loop \<times> (loop_error + string)" where
  "Run E has_gateway prompt l =
     (if \<not> has_gateway then (l, Inl GatewayRequired) else run_turns E (PromptText prompt) l)"

section \<open>What a run does\<close>

definition ran_ok :: "agent_loop \<Rightarrow> tool_call \<Rightarrow> recorded_call \<Rightarrow> bool" where
  "ran_ok l tc rc \<longleftrightarrow> rc_name rc = tc_name tc \<and> rc_args rc = tc_args tc \<and> rc_source rc = CallSourceModel \<and> rc_err rc = None
     \<and> (\<exists>tool. lp_tools l (tc_name tc) = Some tool \<and> validateToolArgs (rt_schema tool) (tc_args tc) = None)"

lemma Call_records:
  assumes "Call E CallSourceModel (tc_name tc) (tc_args tc) l = (l', out, err)"
  shows "if err = None then \<exists>rc. lp_calls l' = lp_calls l @ [rc] \<and> ran_ok l tc rc
    else lp_calls l' = lp_calls l \<or> (\<exists>rc. lp_calls l' = lp_calls l @ [rc] \<and> rc_source rc = CallSourceModel \<and> rc_err rc = err)"
proof -
  obtain l1 c where c: "ctx_check E l = (l1, c)" by fastforce
  obtain l2 r where r: "call_reserve E CallSourceModel (tc_name tc) (tc_args tc) l1 = (l2, r)" by fastforce
  have l1: "lp_calls l1 = lp_calls l" "lp_tools l1 = lp_tools l" using ctx_check_log [OF c] by (simp_all add: same_log_def)
  show ?thesis
  proof (cases c)
    case (Some e)
    then show ?thesis using assms c l1 by (auto simp: Call_def)
  next
    case None
    show ?thesis
    proof (cases r)
      case (Inl e)
      then have "l' = l2" "err = Some e" using assms c r None by (auto simp: Call_def)
      then show ?thesis
        using call_reserve_rejects [OF r [unfolded Inl]] l1 by (auto simp: same_log_def record_call_def)
    next
      case (Inr tk)
      obtain tool where tool: "lp_tools l (tc_name tc) = Some tool" "lp_calls l2 = lp_calls l"
        "tk = \<lparr>tk_name = tc_name tc, tk_source = CallSourceModel, tk_args = tc_args tc, tk_schema = rt_schema tool,
           tk_handler = rt_handler tool\<rparr>"
        using call_reserve_ok [OF r [unfolded Inr]] l1 by (auto simp: same_log_def)
      obtain l3 o3 e3 where x: "call_execute E tk l2 = (l3, o3, e3)" by (metis prod_cases3)
      have l': "l' = record_call (tk_name tk) (tk_source tk) (tk_args tk) o3 e3 l3" "err = e3"
        using assms c r None Inr x by (auto simp: Call_def call_finish_def)
      have "lp_calls l3 = lp_calls l2" "e3 = None \<longrightarrow> validateToolArgs (tk_schema tk) (tk_args tk) = None"
        using call_execute_log [OF x] by (auto simp: same_log_def)
      then show ?thesis using l' tool by (auto simp: record_call_def ran_ok_def)
    qed
  qed
qed

lemma ran_ok_tools: "lp_tools l' = lp_tools l \<Longrightarrow> ran_ok l' tc rc \<longleftrightarrow> ran_ok l tc rc"
  by (simp add: ran_ok_def)

lemma ran_ok_err: "ran_ok l tc rc \<Longrightarrow> rc_err rc = None \<and> rc_source rc = CallSourceModel"
  by (simp add: ran_ok_def)

text \<open>The records a list of calls leaves: a prefix of successful calls, and then perhaps the failed one.\<close>

definition call_trail :: "agent_loop \<Rightarrow> tool_call list \<Rightarrow> recorded_call list \<Rightarrow> bool \<Rightarrow> bool" where
  "call_trail l tcs recs ok \<longleftrightarrow>
     (if ok then list_all2 (ran_ok l) tcs recs
      else (\<forall>rc \<in> set recs. rc_source rc = CallSourceModel) \<and> (\<forall>rc \<in> set (butlast recs). rc_err rc = None))"

lemma call_trail_prepend:
  assumes "list_all2 (ran_ok l) tcs0 recs0" "call_trail l tcs recs ok"
  shows "call_trail l (tcs0 @ tcs) (recs0 @ recs) ok"
proof -
  have "\<forall>rc \<in> set recs0. rc_err rc = None \<and> rc_source rc = CallSourceModel"
    using assms(1) ran_ok_err by (metis list_all2_conv_all_nth in_set_conv_nth)
  then show ?thesis
    using assms by (auto simp: call_trail_def butlast_append list_all2_appendI dest: in_set_butlastD split: if_splits)
qed

lemma call_trail_weaken:
  assumes "call_trail l tcs recs ok"
  shows "call_trail l tcs recs False"
proof (cases ok)
  case True
  have "rc_err rc = None \<and> rc_source rc = CallSourceModel" if "rc \<in> set recs" for rc
    using assms True that ran_ok_err unfolding call_trail_def by (metis list_all2_conv_all_nth in_set_conv_nth)
  then show ?thesis by (auto simp: call_trail_def dest: in_set_butlastD)
qed (use assms in \<open>simp add: call_trail_def\<close>)

lemma call_all_trail:
  "call_all E tcs results l = (l', r) \<Longrightarrow>
   \<exists>recs. lp_calls l' = lp_calls l @ recs \<and> call_trail l tcs recs (is_ok r)"
proof (induction tcs arbitrary: results l)
  case Nil
  then show ?case by (auto simp: call_trail_def)
next
  case (Cons tc tcs)
  obtain l1 out err where c: "Call E CallSourceModel (tc_name tc) (tc_args tc) l = (l1, out, err)" by (metis prod_cases3)
  show ?case
  proof (cases err)
    case None
    then have run: "call_all E tcs (results @ [out]) l1 = (l', r)" using Cons.prems c by simp
    obtain recs where recs: "lp_calls l' = lp_calls l1 @ recs" "call_trail l1 tcs recs (is_ok r)"
      using Cons.IH [OF run] by blast
    obtain rc where rc: "lp_calls l1 = lp_calls l @ [rc]" "ran_ok l tc rc"
      using Call_records [OF c] None by auto
    have t: "lp_tools l1 = lp_tools l" using Call_log [OF c] by blast
    have "call_trail l tcs recs (is_ok r)"
      using recs(2) unfolding call_trail_def ran_ok_tools [OF t, abs_def] .
    then have "call_trail l ([tc] @ tcs) ([rc] @ recs) (is_ok r)"
      using rc(2) by (intro call_trail_prepend) simp_all
    then show ?thesis using recs(1) rc(1) by auto
  next
    case (Some e)
    then have "l' = l1" "r = Inl e" using Cons.prems c by simp_all
    then show ?thesis using Call_records [OF c] Some by (auto simp: call_trail_def)
  qed
qed

definition turn_of :: "loop_env \<Rightarrow> int \<Rightarrow> turn_response \<Rightarrow> bool" where
  "turn_of E k resp \<longleftrightarrow> (\<exists>p. ev_generate E k p = (resp, None))"

lemma nextTurn_response:
  assumes "nextTurn E p l = (l', Inr resp)"
  shows "lp_calls l' = lp_calls l \<and> lp_tools l' = lp_tools l \<and> lp_budget l' = lp_budget l
    \<and> lp_model_calls l' = lp_model_calls l + 1 \<and> turn_of E (lp_model_calls l') resp"
proof -
  have log: "same_log (l\<lparr>lp_model_calls := lp_model_calls l + 1\<rparr>) l'"
    using nextTurn_log [OF assms] by simp
  obtain l1 c where c: "ctx_check E l = (l1, c)" by fastforce
  obtain l2 r2 where r2: "reserveModelCall E l1 = (l2, r2)" by fastforce
  obtain l3 r3 where r3: "wallBudgetContext E l2 = (l3, r3)" by fastforce
  obtain rs err0 where g: "ev_generate E (lp_model_calls l3) p = (rs, err0)" by fastforce
  obtain l4 r4 where r4: "mapWallErr E l3 err0 = (l4, r4)" by fastforce
  obtain l5 r5 where r5: "checkWallLocked E l4 = (l5, r5)" by fastforce
  have n: "c = None" "r2 = None" "r3 = None" "r4 = None" "r5 = None" "l' = l5" "rs = resp"
    using assms c r2 r3 g r4 r5
    by (cases c; cases r2; cases r3; cases r4; cases r5; simp add: nextTurn_def)+
  have "err0 = None" using mapWallErr_log [OF r4] n(4) by simp
  moreover have "lp_model_calls l' = lp_model_calls l3"
    using mapWallErr_log [OF r4] checkWallLocked_log [OF r5] n(6) by (simp add: same_log_def)
  ultimately show ?thesis using log g n(7) by (auto simp: same_log_def turn_of_def)
qed

text \<open>The whole trail of a run: the responses of its completed turns, and the records of the calls they asked for.\<close>

definition run_trail :: "loop_env \<Rightarrow> agent_loop \<Rightarrow> turn_response list \<Rightarrow> recorded_call list \<Rightarrow> bool \<Rightarrow> bool" where
  "run_trail E l rs recs ok \<longleftrightarrow>
     (\<forall>i < length rs. turn_of E (lp_model_calls l + 1 + int i) (rs ! i))
     \<and> call_trail l (concat (map tr_tool_calls rs)) recs ok"

lemma run_trail_nil: "run_trail E l [] [] ok"
  by (simp add: run_trail_def call_trail_def)

lemma run_turns_trail:
  "run_turns E p l = (l', r) \<Longrightarrow>
   \<exists>rs recs. lp_calls l' = lp_calls l @ recs \<and> run_trail E l rs recs (is_ok r)
     \<and> (\<forall>text. r = Inr text \<longrightarrow> rs \<noteq> [] \<and> tr_tool_calls (last rs) = [] \<and> tr_text (last rs) = text
          \<and> lp_model_calls l' = lp_model_calls l + int (length rs))
     \<and> (lp_model_calls l \<le> MaxModelCalls (lp_budget l) \<longrightarrow> lp_model_calls l' \<le> MaxModelCalls (lp_budget l))"
proof (induction E p l rule: run_turns.induct)
  case (1 E p l)
  obtain l1 t where t: "nextTurn E p l = (l1, t)" by fastforce
  show ?case
  proof (cases t)
    case (Inl e)
    then have "l' = l1" "r = Inl e" using "1.prems" t by (simp_all add: run_turns.simps)
    then show ?thesis
      using nextTurn_log [OF t] Inl run_trail_nil [of E l]
      by (intro exI [of _ "[]"]) (auto simp: same_log_def)
  next
    case (Inr resp)
    have l1: "lp_calls l1 = lp_calls l" "lp_tools l1 = lp_tools l" "lp_budget l1 = lp_budget l"
      "lp_model_calls l1 = lp_model_calls l + 1" "turn_of E (lp_model_calls l + 1) resp"
      "lp_model_calls l < MaxModelCalls (lp_budget l)"
      using nextTurn_response [OF t [unfolded Inr]] nextTurn_log [OF t] Inr by auto
    show ?thesis
    proof (cases "tr_tool_calls resp = []")
      case True
      then have "l' = l1" "r = Inr (tr_text resp)" using "1.prems" t Inr by (simp_all add: run_turns.simps)
      then show ?thesis
        using l1 True by (intro exI [of _ "[resp]"] exI [of _ "[]"]) (simp add: run_trail_def call_trail_def)
    next
      case False
      obtain l2 m where m: "runModelToolCalls E (tr_tool_calls resp) l1 = (l2, m)" by fastforce
      obtain r0 where a: "call_all E (tr_tool_calls resp) [] l1 = (l2, r0)" "is_ok m \<longrightarrow> is_ok r0"
        using m by (auto simp: runModelToolCalls_def split: prod.splits sum.splits if_splits)
      obtain recs0 where recs0: "lp_calls l2 = lp_calls l1 @ recs0" "call_trail l1 (tr_tool_calls resp) recs0 (is_ok r0)"
        using call_all_trail [OF a(1)] by blast
      have trail0: "call_trail l (tr_tool_calls resp) recs0 (is_ok r0)"
        using recs0(2) unfolding call_trail_def ran_ok_tools [OF l1(2), abs_def] .
      have l2: "lp_model_calls l2 = lp_model_calls l1" "lp_budget l2 = lp_budget l1" "lp_tools l2 = lp_tools l1"
        using runModelToolCalls_log [OF m] by simp_all
      show ?thesis
      proof (cases m)
        case ml: (Inl e)
        then have res: "l' = l2" "r = Inl e" using "1.prems" t Inr False m by (simp_all add: run_turns.simps)
        have "call_trail l (tr_tool_calls resp) recs0 False"
          using trail0 call_trail_weaken by blast
        then show ?thesis
          using res recs0(1) l1 l2 by (intro exI [of _ "[resp]"] exI [of _ recs0]) (simp add: run_trail_def)
      next
        case mr: (Inr p2)
        have run: "run_turns E p2 l2 = (l', r)" using "1.prems" t Inr False m mr by (simp add: run_turns.simps)
        obtain rs recs where ih: "lp_calls l' = lp_calls l2 @ recs" "run_trail E l2 rs recs (is_ok r)"
          "\<forall>text. r = Inr text \<longrightarrow> rs \<noteq> [] \<and> tr_tool_calls (last rs) = [] \<and> tr_text (last rs) = text
             \<and> lp_model_calls l' = lp_model_calls l2 + int (length rs)"
          "lp_model_calls l2 \<le> MaxModelCalls (lp_budget l2) \<longrightarrow> lp_model_calls l' \<le> MaxModelCalls (lp_budget l2)"
          using "1.IH" [OF t [symmetric] Inr False m [symmetric] mr run] by blast
        have tools: "lp_tools l2 = lp_tools l" using l1(2) l2(3) by simp
        have ok0: "list_all2 (ran_ok l) (tr_tool_calls resp) recs0"
          using trail0 a(2) mr by (simp add: call_trail_def)
        have tr: "call_trail l (concat (map tr_tool_calls rs)) recs (is_ok r)"
          using ih(2) unfolding run_trail_def call_trail_def ran_ok_tools [OF tools, abs_def] by blast
        have turns: "turn_of E (lp_model_calls l + 1 + int i) ((resp # rs) ! i)" if "i < length (resp # rs)" for i
          using that ih(2) l1 l2 by (cases i) (auto simp: run_trail_def algebra_simps)
        have "run_trail E l (resp # rs) (recs0 @ recs) (is_ok r)"
          unfolding run_trail_def using turns call_trail_prepend [OF ok0 tr] by simp
        then show ?thesis
          using ih(1,3,4) recs0(1) l1 l2 by (intro exI [of _ "resp # rs"] exI [of _ "recs0 @ recs"]) auto
      qed
    qed
  qed
qed

text \<open>C31. A run that ends with text ran exactly what the model asked for: the loop made one model call
  per turn, the text is that of the last turn, which asked for no tool, and the calls recorded during the
  run are, in order and each once, the tool calls of the turns, made on the model's behalf to a registered
  tool with arguments its schema accepts, and free of errors.\<close>

theorem run_executes_exactly_the_requests:
  assumes "Run E has_gateway prompt l = (l', Inr text)"
  shows "\<exists>rs recs. lp_calls l' = lp_calls l @ recs \<and> rs \<noteq> []
    \<and> lp_model_calls l' = lp_model_calls l + int (length rs)
    \<and> (\<forall>i < length rs. \<exists>p. ev_generate E (lp_model_calls l + 1 + int i) p = (rs ! i, None))
    \<and> tr_text (last rs) = text \<and> tr_tool_calls (last rs) = []
    \<and> list_all2 (\<lambda>tc rc. rc_name rc = tc_name tc \<and> rc_args rc = tc_args tc \<and> rc_source rc = CallSourceModel
         \<and> rc_err rc = None
         \<and> (\<exists>tool. lp_tools l (tc_name tc) = Some tool \<and> validateToolArgs (rt_schema tool) (tc_args tc) = None))
       (concat (map tr_tool_calls rs)) recs"
proof -
  have "run_turns E (PromptText prompt) l = (l', Inr text)" using assms by (simp add: Run_def split: if_splits)
  from run_turns_trail [OF this] obtain rs recs where r: "lp_calls l' = lp_calls l @ recs" "run_trail E l rs recs True"
      "rs \<noteq> []" "tr_tool_calls (last rs) = []" "tr_text (last rs) = text"
      "lp_model_calls l' = lp_model_calls l + int (length rs)"
    by auto
  then show ?thesis
    unfolding run_trail_def turn_of_def call_trail_def ran_ok_def [abs_def] by (intro exI [of _ rs] exI [of _ recs]) simp
qed

text \<open>A run stops at the first error and within its budget: it always returns, its model calls stay
  within MaxModelCalls, every call it recorded was made for the model, and no recorded call but the last
  carries an error; without a gateway it does nothing.\<close>

theorem run_stops_at_first_error:
  assumes "lp_model_calls l \<le> MaxModelCalls (lp_budget l)"
  shows "\<exists>l' r recs. Run E has_gateway prompt l = (l', r) \<and> lp_calls l' = lp_calls l @ recs
    \<and> lp_model_calls l' \<le> MaxModelCalls (lp_budget l)
    \<and> (\<forall>rc \<in> set recs. rc_source rc = CallSourceModel) \<and> (\<forall>rc \<in> set (butlast recs). rc_err rc = None)
    \<and> (\<not> has_gateway \<longrightarrow> l' = l \<and> r = Inl GatewayRequired)"
proof (cases has_gateway)
  case True
  obtain l' r where run: "run_turns E (PromptText prompt) l = (l', r)" by fastforce
  from run_turns_trail [OF run] obtain rs recs where r: "lp_calls l' = lp_calls l @ recs" "run_trail E l rs recs (is_ok r)"
      "lp_model_calls l' \<le> MaxModelCalls (lp_budget l)"
    using assms by blast
  have "call_trail l (concat (map tr_tool_calls rs)) recs False"
    using r(2) call_trail_weaken unfolding run_trail_def by blast
  then show ?thesis
    using True run r by (intro exI [of _ l'] exI [of _ r] exI [of _ recs]) (simp add: Run_def call_trail_def)
next
  case False
  then show ?thesis using assms by (intro exI [of _ l] exI [of _ "Inl GatewayRequired"] exI [of _ "[]"]) (simp add: Run_def)
qed

text \<open>The core tools are always there: a new loop offers both under their own schemas, and no
  sequence of registrations replaces either; every other named tool with a handler can be registered,
  and the latest registration is the one in force.\<close>

theorem core_tools_cannot_be_replaced:
  assumes "isCoreToolName D name" "ts_name spec \<noteq> []" "ts_handler spec = Some h" "\<not> isCoreToolName D (ts_name spec)"
  shows "lp_tools (foldl (\<lambda>l spec. fst (Register D spec l)) (New D E opts) specs) name = lp_tools (New D E opts) name
     \<and> lp_tools (New D E opts) name \<noteq> None
     \<and> snd (Register D spec l) = None
     \<and> lp_tools (fst (Register D spec l)) (ts_name spec) = Some \<lparr>rt_schema = ts_schema spec, rt_handler = h\<rparr>"
proof -
  have keep: "isCoreToolName D name \<longrightarrow> lp_tools (foldl (\<lambda>l spec. fst (Register D spec l)) l specs) name = lp_tools l name"
    for l
  proof (induction specs arbitrary: l)
    case (Cons sp specs)
    have "isCoreToolName D name \<longrightarrow> lp_tools (fst (Register D sp l)) name = lp_tools l name"
      by (auto simp: Register_def rejectCoreToolRegister_def split: option.splits)
    then show ?case using Cons by simp
  qed simp
  have "isCoreToolName D name \<longrightarrow> lp_tools (New D E opts) name \<noteq> None"
    by (auto simp: isCoreToolName_def coreToolDefs_def New_def newCoreToolRegistry_def)
  moreover have "snd (Register D spec l) = None
     \<and> lp_tools (fst (Register D spec l)) (ts_name spec) = Some \<lparr>rt_schema = ts_schema spec, rt_handler = h\<rparr>"
    using assms by (simp add: Register_def rejectCoreToolRegister_def)
  ultimately show ?thesis using assms(1) keep by blast
qed

section \<open>Witnesses\<close>

definition sample_defaults :: default_handlers where
  "sample_defaults = \<lparr>DefaultSemanticsAnalyze = (\<lambda>n args. (Doc (JStr ''ok''), None)),
     DefaultCodeSignalReport = (\<lambda>n args. (NilMsg, Some (OtherError ''no files'')))\<rparr>"

definition sample_args :: "json raw_doc" where
  "sample_args = Doc (JObj [(''path'', JStr ''a.go''), (''language'', JStr ''go''), (''content'', JStr [])])"

definition sample_env :: loop_env where
  "sample_env = \<lparr>ev_now = int, ev_ctx = (\<lambda>_. None), ev_op = (\<lambda>_. None),
     ev_generate = (\<lambda>k p. if k = 1 then (\<lparr>tr_text = [], tr_tool_calls = [\<lparr>tc_name = ''semantics_analyze'', tc_args = sample_args\<rparr>]\<rparr>, None)
        else (\<lparr>tr_text = ''done'', tr_tool_calls = []\<rparr>, None))\<rparr>"

definition sample_loop :: agent_loop where
  "sample_loop = New sample_defaults sample_env
     \<lparr>op_budget = \<lparr>MaxToolCalls = 0, MaxModelCalls = 0, MaxWallTime = 0\<rparr>, op_semantics = None, op_code_signal = None\<rparr>"

lemmas sample_eval = sample_loop_def sample_env_def sample_defaults_def sample_args_def New_def newCoreToolRegistry_def
  coreToolDefs_def applyBudgetDefaults_def DefaultMaxToolCalls_def DefaultMaxModelCalls_def DefaultMaxWallTime_def
  ToolSemanticsAnalyze_def ToolCodeSignalReport_def pick_handler_def second_def Run_def run_turns.simps nextTurn_def ctx_check_def
  reserveModelCall_def checkWallLocked_def now_def time_sub_def max_duration_def min_duration_def wallBudgetContext_def
  wrap64_def mapWallErr_def runModelToolCalls_def Call_def call_reserve_def call_finish_def call_execute_def invoke_def
  record_call_def marshals_def validateToolArgs_def coreSemanticsSchema_def typed_def checkPropType_def type_accepts_def

lemma run_executes_exactly_the_requests_witness:
  "\<exists>l'. Run sample_env True ''go'' sample_loop = (l', Inr ''done'')
     \<and> map rc_name (lp_calls l') = [''semantics_analyze''] \<and> lp_model_calls l' \<ge> 1"
proof -
  have "snd (Run sample_env True ''go'' sample_loop) = Inr ''done''
      \<and> map rc_name (lp_calls (fst (Run sample_env True ''go'' sample_loop))) = [''semantics_analyze'']"
    by (simp add: sample_eval equal_fold_def)
  then obtain l' where l': "Run sample_env True ''go'' sample_loop = (l', Inr ''done'')"
      "map rc_name (lp_calls l') = [''semantics_analyze'']"
    by (metis prod.collapse)
  obtain rs :: "turn_response list" where "rs \<noteq> []" "lp_model_calls l' = lp_model_calls sample_loop + int (length rs)"
    using run_executes_exactly_the_requests [OF l'(1)] by blast
  moreover have "lp_model_calls sample_loop = 0" by (simp add: sample_loop_def New_def)
  moreover have "length rs > 0" using \<open>rs \<noteq> []\<close> by simp
  ultimately show ?thesis using l' by (intro exI [of _ l']) (auto simp: Suc_le_eq)
qed

lemma run_stops_at_first_error_witness:
  "\<exists>l' r. Run sample_env True ''go'' sample_loop = (l', r) \<and> lp_model_calls l' \<le> 20"
proof -
  have b: "lp_model_calls sample_loop \<le> MaxModelCalls (lp_budget sample_loop)" "MaxModelCalls (lp_budget sample_loop) = 20"
    by (simp_all add: sample_loop_def New_def applyBudgetDefaults_def DefaultMaxModelCalls_def)
  show ?thesis using run_stops_at_first_error [OF b(1), of sample_env True "''go''"] unfolding b(2) by blast
qed

lemma budgets_hold_in_every_interleaving_witness:
  "\<exists>l tk. (loop_step sample_defaults sample_env)\<^sup>*\<^sup>* (sample_loop, []) (l, [Reserved tk]) \<and> lp_tool_calls l \<le> 50"
proof -
  have "\<exists>l tk. call_reserve sample_env CallSourceHandler ''semantics_analyze'' NilMsg sample_loop = (l, Inr tk)"
    by (simp add: sample_eval)
  then obtain l tk where r: "call_reserve sample_env CallSourceHandler ''semantics_analyze'' NilMsg sample_loop = (l, Inr tk)"
    by blast
  have "loop_step sample_defaults sample_env (sample_loop, []) (l, [] @ [Reserved tk])"
    by (rule step_reserve [OF r])
  then have s: "(loop_step sample_defaults sample_env)\<^sup>*\<^sup>* (sample_loop, []) (l, [Reserved tk])" by simp
  show ?thesis
    using s budgets_hold_in_every_interleaving [OF s [unfolded sample_loop_def]] by (intro exI conjI) (assumption, simp)
qed

lemma core_tools_cannot_be_replaced_witness:
  "lp_tools (fst (Register sample_defaults \<lparr>ts_name = ''codesignal_report'', ts_schema = NilMsg, ts_handler = Some (\<lambda>n a. (a, None))\<rparr>
       sample_loop)) ''codesignal_report'' \<noteq> None
   \<and> snd (Register sample_defaults \<lparr>ts_name = ''history'', ts_schema = NilMsg, ts_handler = Some (\<lambda>n a. (a, None))\<rparr> sample_loop) = None"
proof -
  let ?bad = "\<lparr>ts_name = ''codesignal_report'', ts_schema = NilMsg, ts_handler = Some (\<lambda>n a. (a, None))\<rparr> :: tool_spec"
  let ?spec = "\<lparr>ts_name = ''history'', ts_schema = NilMsg, ts_handler = Some (\<lambda>n a. (a, None))\<rparr> :: tool_spec"
  have "isCoreToolName sample_defaults ''codesignal_report''" "\<not> isCoreToolName sample_defaults (ts_name ?spec)"
    by (simp_all add: isCoreToolName_def coreToolDefs_def ToolSemanticsAnalyze_def ToolCodeSignalReport_def)
  from core_tools_cannot_be_replaced [OF this(1) _ _ this(2), of _ sample_env _ "[?bad]" sample_loop]
  show ?thesis by (auto simp: sample_loop_def)
qed

end
