(* ===== verification/Signals.thy ===== *)
theory Signals
  imports CoachStrings Complex_Main
begin

text \<open>
  The signal data model of pkg/codesignal: signals, their ranks and metric rules, their
  keys, fingerprints and identifiers, and the order of a report's signals (severity.go,
  signal_rank.go, metric_rules.go, signal_key.go, fingerprint.go, sort.go,
  location_compare.go, diagnostics.go).

  A tree-sitter position is a natural number.  SHA-256 with hexadecimal output is the
  argument \<open>digest\<close> of the functions that use it.  A metric's ratio to its threshold is
  the rational number; the code's float64 agrees with its order for every metric below
  2 to the 49.
\<close>

section \<open>Data\<close>

record location =
  StartByte :: nat
  EndByte :: nat
  StartRow :: nat
  StartCol :: nat
  EndRow :: nat
  EndCol :: nat

record provenance =
  Producer :: string
  FindingKind :: string
  Language :: string

record project_location =
  pl_path :: string
  pl_location :: location

record project_path_step =
  st_node :: string
  st_display :: string
  st_resolution :: string
  st_confidence :: string
  st_locations :: "project_location list"

record signal =
  sg_id :: string
  sg_fingerprint :: string
  sg_rule :: string
  sg_rule_version :: string
  sg_kind :: string
  sg_category :: string
  sg_severity :: string
  sg_confidence :: string
  sg_lifecycle :: string
  sg_changed :: bool
  sg_path :: string
  sg_source_scope :: string
  sg_subject :: string
  sg_location :: location
  sg_evidence :: string
  sg_why :: string
  sg_recommendation :: string
  sg_skill :: string
  sg_provenance :: provenance
  sg_machine_evidence :: "(string \<times> string) list"
  sg_related :: "project_location list"
  sg_steps :: "project_path_step list"
  sg_coverage_refs :: "string list"

record diagnostic =
  dg_path :: string
  dg_kind :: string
  dg_message :: string
  dg_location :: "location option"
  dg_side :: string
  dg_revision :: string

definition zero_location :: location where
  "zero_location = \<lparr>StartByte = 0, EndByte = 0, StartRow = 0, StartCol = 0, EndRow = 0, EndCol = 0\<rparr>"

section \<open>Ranks\<close>

definition severityOrder :: "string list" where
  "severityOrder = [''low'', ''advisory'', ''medium'', ''high'']"

fun index_of :: "string \<Rightarrow> string list \<Rightarrow> nat option" where
  "index_of s [] = None"
| "index_of s (t # ts) = (if s = t then Some 0 else map_option Suc (index_of s ts))"

definition severityRank :: "string \<Rightarrow> int" where
  "severityRank s = (case index_of s severityOrder of Some i \<Rightarrow> int i + 1 | None \<Rightarrow> 1)"

definition SeverityFloors :: "string list" where
  "SeverityFloors = rev severityOrder"

definition ParseSeverityFloor :: "string \<Rightarrow> string option" where
  "ParseSeverityFloor v = (if v \<in> set severityOrder then Some v else None)"

definition confidenceRank :: "string \<Rightarrow> int" where
  "confidenceRank c = (if c = ''high'' then 3 else if c = ''medium'' then 2 else if c = ''low'' then 1 else 0)"

definition signalPriorityGroup :: "signal \<Rightarrow> int" where
  "signalPriorityGroup s =
     (if sg_lifecycle s = ''introduced'' then (if sg_changed s then 0 else 2)
      else if sg_lifecycle s = ''existing'' then (if sg_changed s then 1 else 3)
      else if sg_lifecycle s = ''resolved'' then 4 else 5)"

section \<open>Metric rules\<close>

record metric_rule =
  mr_rule :: string
  mr_prefix :: string
  mr_threshold :: int
  mr_escalates :: bool

definition cognitiveComplexityRule :: metric_rule where
  "cognitiveComplexityRule = \<lparr>mr_rule = ''complexity.cognitive_complexity'', mr_prefix = ''cognitive_complexity='',
     mr_threshold = 15, mr_escalates = True\<rparr>"

definition branchDensityRule :: metric_rule where
  "branchDensityRule = \<lparr>mr_rule = ''complexity.branch_density'', mr_prefix = ''branch_sum='',
     mr_threshold = 12, mr_escalates = False\<rparr>"

definition maxNestingDepthRule :: metric_rule where
  "maxNestingDepthRule = \<lparr>mr_rule = ''complexity.max_nesting_depth'', mr_prefix = ''max_nesting_depth='',
     mr_threshold = 4, mr_escalates = True\<rparr>"

definition metricRules :: "metric_rule list" where
  "metricRules = [cognitiveComplexityRule, branchDensityRule, maxNestingDepthRule]"

definition highSeverityThresholdMultiple :: int where
  "highSeverityThresholdMultiple = 2"

definition metric_reaches :: "metric_rule \<Rightarrow> int \<Rightarrow> bool" where
  "metric_reaches r m \<longleftrightarrow> m \<ge> mr_threshold r"

definition metric_severity :: "metric_rule \<Rightarrow> int \<Rightarrow> string" where
  "metric_severity r m =
     (if mr_escalates r \<and> m \<ge> highSeverityThresholdMultiple * mr_threshold r then ''high'' else ''medium'')"

definition metric_evidence :: "metric_rule \<Rightarrow> int \<Rightarrow> string" where
  "metric_evidence r m = mr_prefix r @ itoa m"

definition metric_magnitude :: "metric_rule \<Rightarrow> signal \<Rightarrow> rat option" where
  "metric_magnitude r s =
     (case cut_prefix (mr_prefix r) (sg_evidence s) of
        None \<Rightarrow> None
      | Some v \<Rightarrow> map_option (\<lambda>m. of_int m / of_int (mr_threshold r)) (atoi v))"

definition signalMagnitude :: "signal \<Rightarrow> rat option" where
  "signalMagnitude s =
     (case find (\<lambda>r. mr_rule r = sg_rule s) metricRules of
        Some r \<Rightarrow> metric_magnitude r s
      | None \<Rightarrow> None)"

section \<open>Fingerprints and identifiers\<close>

definition normalizePath :: "string \<Rightarrow> string" where
  "normalizePath p = trim_left_char CHR ''/'' (trim_prefix ''./'' (replace_char (char_of (92::nat)) CHR ''/'' p))"

definition normalizeEvidence :: "string \<Rightarrow> string" where
  "normalizeEvidence e = trim_space e"

text \<open>\<open>binary.BigEndian.PutUint32\<close> of the length as a uint32.\<close>

definition be32 :: "nat \<Rightarrow> string" where
  "be32 n = map char_of [(n div 2 ^ 24) mod 256, (n div 2 ^ 16) mod 256, (n div 2 ^ 8) mod 256, n mod (256 :: nat)]"

definition appendLengthPrefixed :: "string \<Rightarrow> string \<Rightarrow> string" where
  "appendLengthPrefixed buf field = buf @ be32 (length field mod 2 ^ 32) @ field"

definition fingerprint_fields :: "string \<Rightarrow> string \<Rightarrow> string \<Rightarrow> string \<Rightarrow> nat \<Rightarrow> string list" where
  "fingerprint_fields rule path subject evidence ordinal =
     [rule, normalizePath path, subject, normalizeEvidence evidence, decimal ordinal]"

definition id_fields :: "string \<Rightarrow> string \<Rightarrow> string \<Rightarrow> string \<Rightarrow> nat \<Rightarrow> nat \<Rightarrow> nat \<Rightarrow> string list" where
  "id_fields rule path subject evidence row col ordinal =
     [rule, normalizePath path, subject, normalizeEvidence evidence, decimal row, decimal col, decimal ordinal]"

definition encode_fields :: "string list \<Rightarrow> string" where
  "encode_fields fs = foldl appendLengthPrefixed [] fs"

definition computeFingerprint ::
  "(string \<Rightarrow> string) \<Rightarrow> string \<Rightarrow> string \<Rightarrow> string \<Rightarrow> string \<Rightarrow> nat \<Rightarrow> string" where
  "computeFingerprint digest rule path subject evidence ordinal =
     ''fp_'' @ digest (encode_fields (fingerprint_fields rule path subject evidence ordinal))"

definition computeSignalID ::
  "(string \<Rightarrow> string) \<Rightarrow> string \<Rightarrow> string \<Rightarrow> string \<Rightarrow> string \<Rightarrow> nat \<Rightarrow> nat \<Rightarrow> nat \<Rightarrow> string" where
  "computeSignalID digest rule path subject evidence row col ordinal =
     ''sig_'' @ digest (encode_fields (id_fields rule path subject evidence row col ordinal))"

section \<open>Locations and diagnostics\<close>

definition compareUint :: "nat \<Rightarrow> nat \<Rightarrow> int" where
  "compareUint a b = (if a < b then -1 else if a > b then 1 else 0)"

definition compareLocationValue :: "location \<Rightarrow> location \<Rightarrow> int" where
  "compareLocationValue a b =
     (if StartRow a \<noteq> StartRow b then compareUint (StartRow a) (StartRow b)
      else if StartCol a \<noteq> StartCol b then compareUint (StartCol a) (StartCol b)
      else if EndRow a \<noteq> EndRow b then compareUint (EndRow a) (EndRow b)
      else if EndCol a \<noteq> EndCol b then compareUint (EndCol a) (EndCol b)
      else if StartByte a \<noteq> StartByte b then compareUint (StartByte a) (StartByte b)
      else if EndByte a \<noteq> EndByte b then compareUint (EndByte a) (EndByte b)
      else 0)"

definition compareLocationPtr :: "location option \<Rightarrow> location option \<Rightarrow> int" where
  "compareLocationPtr a b =
     (case (a, b) of
        (None, None) \<Rightarrow> 0
      | (None, Some _) \<Rightarrow> -1
      | (Some _, None) \<Rightarrow> 1
      | (Some x, Some y) \<Rightarrow> compareLocationValue x y)"

text \<open>The comparison function of a less function, as \<open>sort.SliceStable\<close> uses it.\<close>

definition cmp_of_less :: "('a \<Rightarrow> 'a \<Rightarrow> bool) \<Rightarrow> 'a \<Rightarrow> 'a \<Rightarrow> int" where
  "cmp_of_less lt a b = (if lt a b then -1 else if lt b a then 1 else 0)"

definition diagnostic_less :: "diagnostic \<Rightarrow> diagnostic \<Rightarrow> bool" where
  "diagnostic_less a b =
     (if dg_path a \<noteq> dg_path b then dg_path a < dg_path b
      else if dg_kind a \<noteq> dg_kind b then dg_kind a < dg_kind b
      else if compareLocationPtr (dg_location a) (dg_location b) \<noteq> 0
      then compareLocationPtr (dg_location a) (dg_location b) < 0
      else dg_message a < dg_message b)"

definition sortDiagnostics :: "diagnostic list \<Rightarrow> diagnostic list" where
  "sortDiagnostics ds = stable_sort (cmp_of_less diagnostic_less) ds"

section \<open>The order of signals\<close>

definition compareSignals :: "signal \<Rightarrow> signal \<Rightarrow> int" where
  "compareSignals a b = cmp_or
     [cmp_compare (signalPriorityGroup a) (signalPriorityGroup b),
      cmp_compare (severityRank (sg_severity b)) (severityRank (sg_severity a)),
      cmp_compare (confidenceRank (sg_confidence b)) (confidenceRank (sg_confidence a)),
      cmp_compare (sg_path a) (sg_path b),
      cmp_compare (StartRow (sg_location a)) (StartRow (sg_location b)),
      cmp_compare (StartCol (sg_location a)) (StartCol (sg_location b)),
      cmp_compare (sg_rule a) (sg_rule b),
      cmp_compare (sg_id a) (sg_id b)]"

type_synonym peer_key = "int \<times> int \<times> int \<times> string"

definition peer_key_of :: "signal \<Rightarrow> peer_key" where
  "peer_key_of s = (signalPriorityGroup s, severityRank (sg_severity s), confidenceRank (sg_confidence s), sg_rule s)"

text \<open>The index positions of each peer group, and the ranking of one group over its positions.\<close>

definition add_position :: "signal list \<Rightarrow> (peer_key \<times> nat list) list \<Rightarrow> nat \<Rightarrow> (peer_key \<times> nat list) list" where
  "add_position signals m i =
     (if signalMagnitude (signals ! i) = None then m
      else let k = peer_key_of (signals ! i) in
           AList.update k ((case map_of m k of None \<Rightarrow> [] | Some ps \<Rightarrow> ps) @ [i]) m)"

definition peer_positions :: "signal list \<Rightarrow> (peer_key \<times> nat list) list" where
  "peer_positions signals = foldl (add_position signals) [] [0..<length signals]"

definition ratio_of :: "signal \<Rightarrow> rat" where
  "ratio_of s = (case signalMagnitude s of Some q \<Rightarrow> q | None \<Rightarrow> 0)"

definition cmp_ratio :: "signal \<Rightarrow> signal \<Rightarrow> int" where
  "cmp_ratio a b = cmp_compare (ratio_of b) (ratio_of a)"

definition rankedByMagnitude :: "signal list \<Rightarrow> nat list \<Rightarrow> signal list" where
  "rankedByMagnitude signals positions = stable_sort cmp_ratio (map (\<lambda>i. signals ! i) positions)"

fun place :: "nat list \<Rightarrow> 'a list \<Rightarrow> 'a list \<Rightarrow> 'a list" where
  "place (i # is) (s # ss) out = place is ss (out[i := s])"
| "place _ _ out = out"

definition rankMetricRulesWithinTiers :: "signal list \<Rightarrow> signal list" where
  "rankMetricRulesWithinTiers signals =
     foldl (\<lambda>out (k, peers). place peers (rankedByMagnitude signals peers) out) signals (peer_positions signals)"

definition sortSignals :: "signal list \<Rightarrow> signal list" where
  "sortSignals signals = rankMetricRulesWithinTiers (stable_sort compareSignals signals)"

section \<open>Facts on comparisons\<close>

definition signal_order_key ::
  "signal \<Rightarrow> int \<times> int \<times> int \<times> string \<times> nat \<times> nat \<times> string \<times> string" where
  "signal_order_key s = (signalPriorityGroup s, - severityRank (sg_severity s), - confidenceRank (sg_confidence s),
     sg_path s, StartRow (sg_location s), StartCol (sg_location s), sg_rule s, sg_id s)"

lemma compareSignals_le: "compareSignals a b \<le> 0 \<longleftrightarrow> signal_order_key a \<le> signal_order_key b"
  unfolding compareSignals_def signal_order_key_def
  by (intro cmp_or_asc cmp_or_desc cmp_or_last)

interpretation by_signal: comparison compareSignals
  by (rule comparison_by_key [OF compareSignals_le])

lemma compareUint_laws [cmp_laws]:
  "compareUint a b < 0 \<longleftrightarrow> a < b" "compareUint a b = 0 \<longleftrightarrow> a = b" "compareUint a b \<le> 0 \<longleftrightarrow> a \<le> b"
  by (auto simp: compareUint_def)

definition location_key :: "location \<Rightarrow> nat \<times> nat \<times> nat \<times> nat \<times> nat \<times> nat" where
  "location_key l = (StartRow l, StartCol l, EndRow l, EndCol l, StartByte l, EndByte l)"

lemma compareLocationValue_or:
  "compareLocationValue a b = cmp_or [cmp_compare (StartRow a) (StartRow b), cmp_compare (StartCol a) (StartCol b),
     cmp_compare (EndRow a) (EndRow b), cmp_compare (EndCol a) (EndCol b), cmp_compare (StartByte a) (StartByte b),
     cmp_compare (EndByte a) (EndByte b)]"
  by (simp add: compareLocationValue_def compareUint_def cmp_compare_def)

lemma compareLocationValue_le: "compareLocationValue a b \<le> 0 \<longleftrightarrow> location_key a \<le> location_key b"
  unfolding compareLocationValue_or location_key_def by (intro cmp_or_asc cmp_or_last)

lemma compareLocationValue_zero: "compareLocationValue a b = 0 \<longleftrightarrow> location_key a = location_key b"
  by (simp add: compareLocationValue_or location_key_def cmp_compare_def)

lemma compareLocationValue_laws:
  "compareLocationValue a b \<le> 0 \<longleftrightarrow> location_key a \<le> location_key b"
  "compareLocationValue a b < 0 \<longleftrightarrow> location_key a < location_key b"
  "compareLocationValue a b = 0 \<longleftrightarrow> location_key a = location_key b"
proof -
  show le: "compareLocationValue a b \<le> 0 \<longleftrightarrow> location_key a \<le> location_key b" by (rule compareLocationValue_le)
  show z: "compareLocationValue a b = 0 \<longleftrightarrow> location_key a = location_key b" by (rule compareLocationValue_zero)
  show "compareLocationValue a b < 0 \<longleftrightarrow> location_key a < location_key b"
    using le z by (auto simp: order.order_iff_strict)
qed

lemma location_key_inject: "location_key a = location_key b \<longleftrightarrow> a = (b :: location)"
  by (cases a; cases b) (auto simp: location_key_def)

definition diagnostic_key ::
  "diagnostic \<Rightarrow> string \<times> string \<times> nat \<times> (nat \<times> nat \<times> nat \<times> nat \<times> nat \<times> nat) \<times> string" where
  "diagnostic_key d = (dg_path d, dg_kind d,
     (case dg_location d of None \<Rightarrow> 0 | Some _ \<Rightarrow> 1),
     (case dg_location d of None \<Rightarrow> (0, 0, 0, 0, 0, 0) | Some l \<Rightarrow> location_key l), dg_message d)"

lemma diagnostic_less_iff: "diagnostic_less a b \<longleftrightarrow> diagnostic_key a < diagnostic_key b"
  by (cases "dg_location a"; cases "dg_location b")
    (auto simp: diagnostic_less_def diagnostic_key_def less_prod_simp compareLocationPtr_def compareLocationValue_laws)

lemma cmp_of_less_le:
  fixes k :: "'a \<Rightarrow> 'k::linorder"
  assumes "\<And>a b. lt a b \<longleftrightarrow> k a < k b"
  shows "cmp_of_less lt a b \<le> 0 \<longleftrightarrow> k a \<le> k b"
  by (auto simp: cmp_of_less_def assms)

interpretation by_diagnostic: comparison "cmp_of_less diagnostic_less"
  by (rule comparison_by_key [OF cmp_of_less_le [OF diagnostic_less_iff]])

lemma cmp_ratio_le: "cmp_ratio a b \<le> 0 \<longleftrightarrow> - ratio_of a \<le> - ratio_of b"
  by (simp add: cmp_ratio_def cmp_laws)

interpretation by_ratio: comparison cmp_ratio
  by (rule comparison_by_key [OF cmp_ratio_le])

section \<open>What the sort guarantees\<close>

lemma length_place [simp]: "length (place ps zs out) = length out"
  by (induction ps zs out rule: place.induct) auto

lemma place_other: "j \<notin> set ps \<Longrightarrow> place ps zs out ! j = out ! j"
  by (induction ps zs out rule: place.induct) auto

lemma place_at:
  "distinct ps \<Longrightarrow> length zs = length ps \<Longrightarrow> set ps \<subseteq> {..<length out} \<Longrightarrow> map (\<lambda>i. place ps zs out ! i) ps = zs"
proof (induction ps zs out rule: place.induct)
  case (1 i ps z zs out)
  have "place ps zs (out[i := z]) ! i = out[i := z] ! i" by (rule place_other) (use "1.prems" in simp)
  then show ?case using 1 by simp
qed auto

lemma place_mset:
  "distinct ps \<Longrightarrow> length zs = length ps \<Longrightarrow> set ps \<subseteq> {..<length out} \<Longrightarrow>
   mset (place ps zs out) + mset (map (\<lambda>i. out ! i) ps) = mset out + mset zs"
proof (induction ps zs out rule: place.induct)
  case (1 i ps z zs out)
  have "out[i := z] ! j = out ! j" if "j \<in> set ps" for j
    using "1.prems"(1) that by (cases "i = j") auto
  then have same: "map (\<lambda>j. out[i := z] ! j) ps = map (\<lambda>j. out ! j) ps" by simp
  have i: "i < length out" using "1.prems"(3) by simp
  have "mset (place ps zs (out[i := z])) + mset (map (\<lambda>j. out ! j) ps) = mset (out[i := z]) + mset zs"
    using 1 by (simp add: same)
  moreover have "add_mset (out ! i) (mset (out[i := z])) = add_mset z (mset out)"
    using i by (simp add: mset_update)
  ultimately show ?case by simp
qed auto

definition peers :: "signal list \<Rightarrow> peer_key \<Rightarrow> nat list" where
  "peers xs k = filter (\<lambda>i. signalMagnitude (xs ! i) \<noteq> None \<and> peer_key_of (xs ! i) = k) [0..<length xs]"

lemma distinct_add_position: "distinct (map fst m) \<Longrightarrow> distinct (map fst (add_position xs m i))"
  by (simp add: add_position_def Let_def)

lemma add_positions:
  "map_of (foldl (add_position xs) [] is) k =
     (let ps = filter (\<lambda>i. signalMagnitude (xs ! i) \<noteq> None \<and> peer_key_of (xs ! i) = k) is
      in if ps = [] then None else Some ps)
   \<and> distinct (map fst (foldl (add_position xs) [] is))"
proof (induction "is" arbitrary: k rule: rev_induct)
  case Nil
  then show ?case by simp
next
  case (snoc i js)
  let ?m = "foldl (add_position xs) [] js"
  have step: "foldl (add_position xs) [] (js @ [i]) = add_position xs ?m i" by simp
  have dm: "distinct (map fst ?m)" using snoc by blast
  have d: "distinct (map fst (add_position xs ?m i))"
    by (rule distinct_add_position [OF dm])
  show ?case
  proof (cases "signalMagnitude (xs ! i) = None")
    case True
    then have "add_position xs ?m i = ?m" by (simp add: add_position_def)
    then show ?thesis using snoc [of k] d True unfolding step by simp
  next
    case False
    then obtain q where q: "signalMagnitude (xs ! i) = Some q" by blast
    have "map_of (add_position xs ?m i) k =
        (if k = peer_key_of (xs ! i) then Some ((case map_of ?m k of None \<Rightarrow> [] | Some ps \<Rightarrow> ps) @ [i]) else map_of ?m k)"
      using q by (simp add: add_position_def Let_def)
    moreover have "map_of ?m k = (let ps = filter (\<lambda>i. signalMagnitude (xs ! i) \<noteq> None \<and> peer_key_of (xs ! i) = k) js
        in if ps = [] then None else Some ps)"
      using snoc [of k] by blast
    ultimately have "map_of (add_position xs ?m i) k =
        (let ps = filter (\<lambda>i. signalMagnitude (xs ! i) \<noteq> None \<and> peer_key_of (xs ! i) = k) (js @ [i])
         in if ps = [] then None else Some ps)"
      using q by (auto simp: Let_def)
    then show ?thesis using d unfolding step by blast
  qed
qed

lemma peer_positions_groups:
  "distinct (map fst (peer_positions xs))"
  "(k, ps) \<in> set (peer_positions xs) \<Longrightarrow> ps = peers xs k"
  "i \<in> set (peers xs k) \<Longrightarrow> (k, peers xs k) \<in> set (peer_positions xs)"
proof -
  have m: "map_of (peer_positions xs) k = (if peers xs k = [] then None else Some (peers xs k))" for k
    using add_positions [of xs "[0..<length xs]" k] by (simp add: peer_positions_def peers_def Let_def)
  show d: "distinct (map fst (peer_positions xs))"
    using add_positions [of xs "[0..<length xs]"] by (simp add: peer_positions_def)
  show "(k, ps) \<in> set (peer_positions xs) \<Longrightarrow> ps = peers xs k"
    using m [of k] d by (auto dest: map_of_is_SomeI split: if_splits)
  show "i \<in> set (peers xs k) \<Longrightarrow> (k, peers xs k) \<in> set (peer_positions xs)"
    using m [of k] by (auto dest: map_of_SomeD split: if_splits)
qed

lemma peers_props:
  "distinct (peers xs k)" "set (peers xs k) \<subseteq> {..<length xs}"
  "k \<noteq> k' \<Longrightarrow> set (peers xs k) \<inter> set (peers xs k') = {}"
  by (auto simp: peers_def)

lemma length_ranked [simp]: "length (rankedByMagnitude xs ps) = length ps"
  by (simp add: rankedByMagnitude_def)

lemma mset_ranked: "mset (rankedByMagnitude xs ps) = mset (map (\<lambda>i. xs ! i) ps)"
  by (simp add: rankedByMagnitude_def)

lemma fold_place:
  assumes "distinct (map fst P)" "\<And>k ps. (k, ps) \<in> set P \<Longrightarrow> ps = peers xs k" "length out = length xs"
    and "\<And>k ps. (k, ps) \<in> set P \<Longrightarrow> map (\<lambda>i. out ! i) ps = map (\<lambda>i. xs ! i) ps"
  shows "(let r = foldl (\<lambda>out (k, ps). place ps (rankedByMagnitude xs ps) out) out P in
     mset r = mset out \<and> length r = length xs
     \<and> (\<forall>k ps. (k, ps) \<in> set P \<longrightarrow> map (\<lambda>i. r ! i) ps = rankedByMagnitude xs ps)
     \<and> (\<forall>j. (\<forall>k ps. (k, ps) \<in> set P \<longrightarrow> j \<notin> set ps) \<longrightarrow> r ! j = out ! j))"
  using assms
proof (induction P arbitrary: out)
  case Nil
  then show ?case by simp
next
  case (Cons e P)
  obtain k0 ps0 where e: "e = (k0, ps0)" by fastforce
  have ps0: "ps0 = peers xs k0" using Cons.prems(2) e by auto
  let ?out = "place ps0 (rankedByMagnitude xs ps0) out"
  have disj: "set ps \<inter> set ps0 = {}" if "(k, ps) \<in> set P" for k ps
  proof -
    have "k \<noteq> k0" using Cons.prems(1) that e by force
    then show ?thesis using Cons.prems(2) [of k ps] that ps0 peers_props(3) by auto
  qed
  have pre: "map (\<lambda>i. ?out ! i) ps = map (\<lambda>i. xs ! i) ps" if "(k, ps) \<in> set P" for k ps
  proof -
    have "map (\<lambda>i. ?out ! i) ps = map (\<lambda>i. out ! i) ps"
      using disj [OF that] by (auto intro!: place_other)
    then show ?thesis using Cons.prems(4) [of k ps] that by simp
  qed
  have range: "set ps0 \<subseteq> {..<length out}" "distinct ps0"
    using ps0 peers_props Cons.prems(3) by auto
  have "mset ?out + mset (map (\<lambda>i. out ! i) ps0) = mset out + mset (rankedByMagnitude xs ps0)"
    by (rule place_mset) (use range in simp_all)
  moreover have "map (\<lambda>i. out ! i) ps0 = map (\<lambda>i. xs ! i) ps0" by (rule Cons.prems(4) [of k0]) (simp add: e)
  ultimately have m: "mset ?out = mset out" by (simp add: mset_ranked)
  let ?r = "foldl (\<lambda>out (k, ps). place ps (rankedByMagnitude xs ps) out) ?out P"
  have p1: "distinct (map fst P)" using Cons.prems(1) by simp
  have p2: "ps = peers xs k" if "(k, ps) \<in> set P" for k ps by (rule Cons.prems(2)) (use that in simp)
  have p3: "length ?out = length xs" using Cons.prems(3) by simp
  have ih: "mset ?r = mset ?out \<and> length ?r = length xs
     \<and> (\<forall>k ps. (k, ps) \<in> set P \<longrightarrow> map (\<lambda>i. ?r ! i) ps = rankedByMagnitude xs ps)
     \<and> (\<forall>j. (\<forall>k ps. (k, ps) \<in> set P \<longrightarrow> j \<notin> set ps) \<longrightarrow> ?r ! j = ?out ! j)"
  proof (rule Cons.IH [unfolded Let_def])
    show "distinct (map fst P)" by (rule p1)
    show "\<And>k ps. (k, ps) \<in> set P \<Longrightarrow> ps = peers xs k" by (rule p2)
    show "length ?out = length xs" by (rule p3)
    show "\<And>k ps. (k, ps) \<in> set P \<Longrightarrow> map (\<lambda>i. ?out ! i) ps = map (\<lambda>i. xs ! i) ps" by (rule pre)
  qed
  have head: "map (\<lambda>i. ?r ! i) ps0 = rankedByMagnitude xs ps0"
  proof -
    have "map (\<lambda>i. ?r ! i) ps0 = map (\<lambda>i. ?out ! i) ps0"
    proof (rule map_cong [OF refl])
      fix x
      assume "x \<in> set ps0"
      then have "\<forall>k ps. (k, ps) \<in> set P \<longrightarrow> x \<notin> set ps" using disj by (meson disjoint_iff)
      then show "?r ! x = ?out ! x" using ih by blast
    qed
    then show ?thesis using place_at [OF range(2) _ range(1), of "rankedByMagnitude xs ps0"] by simp
  qed
  have "?r ! j = out ! j" if "\<forall>k ps. (k, ps) \<in> set (e # P) \<longrightarrow> j \<notin> set ps" for j
  proof -
    have "?r ! j = ?out ! j" using ih that by auto
    moreover have "j \<notin> set ps0" using that [rule_format, of k0 ps0] e by simp
    ultimately show ?thesis by (simp add: place_other)
  qed
  moreover have "foldl (\<lambda>out (k, ps). place ps (rankedByMagnitude xs ps) out) out (e # P) = ?r" by (simp add: e)
  ultimately show ?case using ih head m unfolding Let_def by (simp add: e)
qed

lemma rank_tiers:
  defines "r xs \<equiv> rankMetricRulesWithinTiers xs"
  shows "mset (r xs) = mset xs" "length (r xs) = length xs"
    "i \<in> set (peers xs k) \<Longrightarrow> map (\<lambda>i. r xs ! i) (peers xs k) = rankedByMagnitude xs (peers xs k)"
    "signalMagnitude (xs ! i) = None \<Longrightarrow> r xs ! i = xs ! i"
proof -
  have f: "mset (r xs) = mset xs \<and> length (r xs) = length xs
     \<and> (\<forall>k ps. (k, ps) \<in> set (peer_positions xs) \<longrightarrow> map (\<lambda>i. r xs ! i) ps = rankedByMagnitude xs ps)
     \<and> (\<forall>j. (\<forall>k ps. (k, ps) \<in> set (peer_positions xs) \<longrightarrow> j \<notin> set ps) \<longrightarrow> r xs ! j = xs ! j)"
    unfolding r_def rankMetricRulesWithinTiers_def
    by (rule fold_place [unfolded Let_def]) (auto simp: peer_positions_groups)
  then show "mset (r xs) = mset xs" "length (r xs) = length xs" by blast+
  show "i \<in> set (peers xs k) \<Longrightarrow> map (\<lambda>i. r xs ! i) (peers xs k) = rankedByMagnitude xs (peers xs k)"
    using f peer_positions_groups(3) by blast
  have "j \<notin> set ps" if "signalMagnitude (xs ! j) = None" "(k, ps) \<in> set (peer_positions xs)" for j k ps
    using peer_positions_groups(2) [OF that(2)] that(1) by (simp add: peers_def)
  then show "signalMagnitude (xs ! i) = None \<Longrightarrow> r xs ! i = xs ! i" using f by blast
qed

text \<open>Ranking moves signals only within their peer group.\<close>

lemma rank_tiers_peer:
  assumes "i < length xs"
  shows "peer_key_of (rankMetricRulesWithinTiers xs ! i) = peer_key_of (xs ! i)
    \<and> (signalMagnitude (rankMetricRulesWithinTiers xs ! i) = None \<longleftrightarrow> signalMagnitude (xs ! i) = None)"
proof (cases "signalMagnitude (xs ! i) = None")
  case True
  then show ?thesis by (simp add: rank_tiers(4))
next
  case False
  let ?k = "peer_key_of (xs ! i)"
  have i: "i \<in> set (peers xs ?k)" using assms False by (simp add: peers_def)
  have "rankMetricRulesWithinTiers xs ! i \<in> set (map (\<lambda>i. rankMetricRulesWithinTiers xs ! i) (peers xs ?k))"
    using i by auto
  also have "\<dots> = set (rankedByMagnitude xs (peers xs ?k))" by (simp only: rank_tiers(3) [OF i])
  also have "\<dots> = set (map (\<lambda>i. xs ! i) (peers xs ?k))" using mset_ranked by (rule mset_eq_setD)
  finally show ?thesis using False by (auto simp: peers_def)
qed

lemma rank_tiers_descending:
  assumes "i < j" "j < length xs" "signalMagnitude (xs ! i) \<noteq> None" "signalMagnitude (xs ! j) \<noteq> None"
    and "peer_key_of (xs ! i) = peer_key_of (xs ! j)"
  shows "ratio_of (rankMetricRulesWithinTiers xs ! j) \<le> ratio_of (rankMetricRulesWithinTiers xs ! i)"
proof -
  let ?k = "peer_key_of (xs ! i)" and ?r = "rankMetricRulesWithinTiers xs"
  have mem: "i \<in> set (peers xs ?k)" "j \<in> set (peers xs ?k)" using assms by (auto simp: peers_def)
  have sorted: "sorted (peers xs ?k)" unfolding peers_def by (rule sorted_wrt_filter) simp
  obtain a b where ab: "a < length (peers xs ?k)" "b < length (peers xs ?k)" "peers xs ?k ! a = i" "peers xs ?k ! b = j"
    using mem by (metis in_set_conv_nth)
  have "a < b" using sorted ab assms(1) by (metis leD leI sorted_nth_mono)
  have "sorted_wrt (\<lambda>a b. cmp_ratio a b \<le> 0) (map (\<lambda>i. ?r ! i) (peers xs ?k))"
    unfolding rank_tiers(3) [OF mem(1)] rankedByMagnitude_def by (rule by_ratio.sorted_result)
  then have "cmp_ratio (?r ! (peers xs ?k ! a)) (?r ! (peers xs ?k ! b)) \<le> 0"
    using \<open>a < b\<close> ab(1,2) by (simp add: sorted_wrt_iff_nth_less)
  then have "cmp_ratio (?r ! i) (?r ! j) \<le> 0" using ab(3,4) by simp
  then show ?thesis by (simp add: cmp_ratio_le)
qed

definition tier_of :: "signal \<Rightarrow> int \<times> int \<times> int" where
  "tier_of s = (signalPriorityGroup s, - severityRank (sg_severity s), - confidenceRank (sg_confidence s))"

lemma tier_of_peer: "peer_key_of a = peer_key_of b \<Longrightarrow> tier_of a = tier_of b"
  by (simp add: peer_key_of_def tier_of_def)

lemma order_key_tier: "signal_order_key a \<le> signal_order_key b \<Longrightarrow> tier_of a \<le> tier_of b"
  unfolding signal_order_key_def tier_of_def by (auto simp: less_eq_prod_simp)

text \<open>Sorting a report's signals only reorders them: the tiers (lifecycle group, then severity,
  then confidence) come in order; a signal without a magnitude stands exactly where the comparison by
  tier, path, location, rule and ID puts it; and the signals of one metric rule within one tier appear
  with non-increasing magnitude.\<close>

theorem sorted_signals_are_tiered_and_ranked:
  "mset (sortSignals ss) = mset ss
   \<and> sorted_wrt (\<lambda>a b. tier_of a \<le> tier_of b) (sortSignals ss)
   \<and> (\<forall>i. i < length ss \<and> signalMagnitude (stable_sort compareSignals ss ! i) = None \<longrightarrow>
        sortSignals ss ! i = stable_sort compareSignals ss ! i)
   \<and> (\<forall>i j. i < j \<and> j < length ss \<and> peer_key_of (sortSignals ss ! i) = peer_key_of (sortSignals ss ! j)
        \<and> signalMagnitude (sortSignals ss ! i) \<noteq> None \<and> signalMagnitude (sortSignals ss ! j) \<noteq> None \<longrightarrow>
        ratio_of (sortSignals ss ! j) \<le> ratio_of (sortSignals ss ! i))"
proof -
  let ?b = "stable_sort compareSignals ss"
  have len: "length ?b = length ss" by simp
  have tiers: "tier_of (sortSignals ss ! i) = tier_of (?b ! i)" if "i < length ss" for i
    unfolding sortSignals_def using rank_tiers_peer [of i ?b] that by (intro tier_of_peer) simp
  have "tier_of (?b ! i) \<le> tier_of (?b ! j)" if "i < j" "j < length ss" for i j
    using by_signal.sorted_result [of ss] that len
    by (auto simp: sorted_wrt_iff_nth_less compareSignals_le intro!: order_key_tier)
  then have "sorted_wrt (\<lambda>a b. tier_of a \<le> tier_of b) (sortSignals ss)"
    using tiers by (auto simp: sorted_wrt_iff_nth_less sortSignals_def rank_tiers(2))
  moreover have "ratio_of (sortSignals ss ! j) \<le> ratio_of (sortSignals ss ! i)"
    if "i < j" "j < length ss" "peer_key_of (sortSignals ss ! i) = peer_key_of (sortSignals ss ! j)"
      "signalMagnitude (sortSignals ss ! i) \<noteq> None" "signalMagnitude (sortSignals ss ! j) \<noteq> None" for i j
    using rank_tiers_descending [of i j ?b] rank_tiers_peer [of i ?b] rank_tiers_peer [of j ?b] that len
    unfolding sortSignals_def by auto
  ultimately show ?thesis by (auto simp: sortSignals_def rank_tiers)
qed

definition sample_signal :: "string \<Rightarrow> int \<Rightarrow> signal" where
  "sample_signal path depth =
     \<lparr>sg_id = path, sg_fingerprint = [], sg_rule = ''complexity.max_nesting_depth'', sg_rule_version = ''1'',
      sg_kind = ''max_nesting_depth'', sg_category = ''complexity'', sg_severity = ''medium'', sg_confidence = ''medium'',
      sg_lifecycle = ''introduced'', sg_changed = True, sg_path = path, sg_source_scope = [], sg_subject = [],
      sg_location = zero_location, sg_evidence = metric_evidence maxNestingDepthRule depth, sg_why = [],
      sg_recommendation = [], sg_skill = [], sg_provenance = \<lparr>Producer = ''codesignal'', FindingKind = [], Language = []\<rparr>,
      sg_machine_evidence = [], sg_related = [], sg_steps = [], sg_coverage_refs = []\<rparr>"

lemma metric_rule_names:
  "mr_rule cognitiveComplexityRule \<noteq> mr_rule branchDensityRule" "mr_rule cognitiveComplexityRule \<noteq> mr_rule maxNestingDepthRule"
  "mr_rule branchDensityRule \<noteq> mr_rule maxNestingDepthRule"
  by (simp_all add: cognitiveComplexityRule_def branchDensityRule_def maxNestingDepthRule_def)

lemma find_metric_rule:
  assumes "r \<in> set metricRules"
  shows "find (\<lambda>r'. mr_rule r' = mr_rule r) metricRules = Some r"
proof -
  consider "r = cognitiveComplexityRule" | "r = branchDensityRule" | "r = maxNestingDepthRule"
    using assms by (auto simp: metricRules_def)
  then show ?thesis by cases (simp_all add: metricRules_def metric_rule_names metric_rule_names [symmetric])
qed

lemma metric_read:
  assumes "r \<in> set metricRules" "- (2 ^ 63) \<le> m" "m < 2 ^ 63" "sg_rule s = mr_rule r" "sg_evidence s = metric_evidence r m"
  shows "signalMagnitude s = Some (of_int m / of_int (mr_threshold r))"
proof -
  have "metric_magnitude r s = Some (of_int m / of_int (mr_threshold r))"
    unfolding metric_magnitude_def assms(5) metric_evidence_def cut_prefix_append option.case atoi_itoa [OF assms(2,3)]
    by simp
  then show ?thesis unfolding signalMagnitude_def assms(4) find_metric_rule [OF assms(1)] by simp
qed

lemma sample_magnitude:
  assumes "0 \<le> d" "d < 100"
  shows "signalMagnitude (sample_signal p d) = Some (of_int d / 4)"
proof -
  have "signalMagnitude (sample_signal p d) = Some (of_int d / of_int (mr_threshold maxNestingDepthRule))"
    by (rule metric_read) (use assms in \<open>simp_all add: metricRules_def sample_signal_def\<close>, simp add: maxNestingDepthRule_def)
  then show ?thesis by (simp add: maxNestingDepthRule_def)
qed

lemma sample_peer: "peer_key_of (sample_signal p d) = peer_key_of (sample_signal q e)"
  by (simp add: peer_key_of_def sample_signal_def signalPriorityGroup_def)

lemma sorted_signals_are_tiered_and_ranked_witness:
  "ratio_of (sortSignals [sample_signal ''a.go'' 5, sample_signal ''b.go'' 9] ! 1)
     \<le> ratio_of (sortSignals [sample_signal ''a.go'' 5, sample_signal ''b.go'' 9] ! 0)"
proof -
  let ?ss = "[sample_signal ''a.go'' 5, sample_signal ''b.go'' 9]"
  have t: "mset (sortSignals ?ss) = mset ?ss"
    "\<forall>i j. i < j \<and> j < length ?ss \<and> peer_key_of (sortSignals ?ss ! i) = peer_key_of (sortSignals ?ss ! j)
        \<and> signalMagnitude (sortSignals ?ss ! i) \<noteq> None \<and> signalMagnitude (sortSignals ?ss ! j) \<noteq> None \<longrightarrow>
        ratio_of (sortSignals ?ss ! j) \<le> ratio_of (sortSignals ?ss ! i)"
    using sorted_signals_are_tiered_and_ranked [of ?ss] by blast+
  have "set (sortSignals ?ss) = set ?ss" "length (sortSignals ?ss) = 2"
    using t(1) by (metis mset_eq_setD, metis length_Cons list.size(3) numeral_2_eq_2 size_mset)
  then have mem: "sortSignals ?ss ! 0 \<in> set ?ss" "sortSignals ?ss ! 1 \<in> set ?ss"
    by (metis nth_mem zero_less_numeral, metis nth_mem one_less_numeral_iff semiring_norm(76))
  have all: "signalMagnitude s \<noteq> None \<and> peer_key_of s = peer_key_of (sample_signal ''a.go'' 5)" if "s \<in> set ?ss" for s
  proof -
    obtain p d where s: "s = sample_signal p d" "0 \<le> d" "d < 100" using \<open>s \<in> set ?ss\<close> by force
    then show ?thesis using sample_magnitude [OF s(2,3), of p] sample_peer by (metis option.distinct(1))
  qed
  show ?thesis using t(2) [rule_format, of 0 1] all [OF mem(1)] all [OF mem(2)] by simp
qed

section \<open>Fingerprints identify their fields\<close>

text \<open>The length-prefixed encoding can be read back, so different fields have different encodings.\<close>

lemma length_be32 [simp]: "length (be32 n) = 4"
  by (simp add: be32_def)

lemma be32_inject:
  assumes "m < 2 ^ 32" "n < 2 ^ 32" "be32 m = be32 n"
  shows "m = n"
proof -
  have byte: "char_of (a mod 256) = (char_of (b mod 256) :: char) \<Longrightarrow> a mod 256 = b mod (256 :: nat)" for a b
    by (metis mod_mod_trivial of_char_of)
  have eqs: "(m div 2 ^ 24) mod 256 = (n div 2 ^ 24) mod 256" "(m div 2 ^ 16) mod 256 = (n div 2 ^ 16) mod 256"
    "(m div 2 ^ 8) mod 256 = (n div 2 ^ 8) mod 256" "m mod 256 = n mod 256"
    using assms(3) unfolding be32_def by (auto dest: byte)
  have top: "k div 2 ^ 24 mod 256 = k div 2 ^ 24" if "k < 2 ^ 32" for k :: nat
    using that by (intro mod_less) (simp add: less_mult_imp_div_less)
  have split: "k = k div 256 * 256 + k mod 256" for k :: nat by simp
  have d8: "k div 2 ^ 16 = k div 2 ^ 8 div 256" "k div 2 ^ 24 = k div 2 ^ 16 div 256" "k div 2 ^ 8 = k div 256" for k :: nat
    by (simp_all flip: div_mult2_eq)
  have "m div 2 ^ 24 = n div 2 ^ 24" using eqs(1) top assms(1,2) by simp
  then have "m div 2 ^ 16 = n div 2 ^ 16" using eqs(2) split [of "m div 2 ^ 16"] split [of "n div 2 ^ 16"] d8(2) by metis
  then have "m div 2 ^ 8 = n div 2 ^ 8" using eqs(3) split [of "m div 2 ^ 8"] split [of "n div 2 ^ 8"] d8(1) by metis
  then show ?thesis using eqs(4) split [of m] split [of n] d8(3) by metis
qed

lemma encode_fields_fold: "foldl appendLengthPrefixed buf fs = buf @ encode_fields fs"
proof -
  have "foldl appendLengthPrefixed buf fs = buf @ concat (map (\<lambda>f. be32 (length f mod 2 ^ 32) @ f) fs)" for buf
    by (induction fs arbitrary: buf) (auto simp: appendLengthPrefixed_def)
  then show ?thesis by (simp add: encode_fields_def)
qed

lemma encode_fields_Cons: "encode_fields (f # fs) = be32 (length f mod 2 ^ 32) @ f @ encode_fields fs"
  unfolding encode_fields_def [of "f # fs"] foldl_Cons encode_fields_fold by (simp add: appendLengthPrefixed_def)

lemma encode_fields_Nil [simp]: "encode_fields [] = []"
  by (simp add: encode_fields_def)

lemma encode_fields_inject:
  assumes "\<forall>f \<in> set fs \<union> set gs. length f < 2 ^ 32" "encode_fields fs = encode_fields gs"
  shows "fs = gs"
  using assms
proof (induction fs arbitrary: gs)
  case Nil
  then show ?case by (cases gs) (auto simp: encode_fields_Cons be32_def)
next
  case (Cons f fs)
  show ?case
  proof (cases gs)
    case Nil
    then show ?thesis using Cons.prems(2) by (auto simp: encode_fields_Cons be32_def)
  next
    case (Cons g gs')
    have e: "be32 (length f) @ f @ encode_fields fs = be32 (length g) @ g @ encode_fields gs'"
      using Cons.prems Cons by (simp add: encode_fields_Cons)
    then have "be32 (length f) = be32 (length g)" by (metis append_eq_append_conv length_be32)
    then have len: "length f = length g" using be32_inject Cons.prems(1) Cons by simp
    then have "f = g \<and> encode_fields fs = encode_fields gs'" using e by simp
    then show ?thesis using Cons.IH [of gs'] Cons.prems(1) Cons by auto
  qed
qed

text \<open>The preimage of fingerprints and identifiers is injective: two lists of fields, each field
  shorter than 2^32 bytes, have the same encoding exactly when they are the same list, so a collision of two
  fingerprints of different fields is a collision of SHA-256.\<close>

theorem field_encoding_is_injective:
  assumes "\<forall>f \<in> set fs \<union> set gs. length f < 2 ^ 32"
  shows "encode_fields fs = encode_fields gs \<longleftrightarrow> fs = gs"
  using encode_fields_inject [OF assms] by blast

lemma field_encoding_is_injective_witness: "encode_fields [''ab'', ''c''] \<noteq> encode_fields [''a'', ''bc'']"
  using field_encoding_is_injective [of "[''ab'', ''c'']" "[''a'', ''bc'']"] by simp

text \<open>A metric signal's evidence parses back: a metric within 64 bits that a metric rule renders
  into its evidence is read by the sort as that metric over the rule's threshold, and the rule escalates to
  high severity exactly at twice its threshold, if it escalates at all.\<close>

theorem metric_evidence_round_trip:
  assumes "r \<in> set metricRules" "- (2 ^ 63) \<le> m" "m < 2 ^ 63" "sg_rule s = mr_rule r" "sg_evidence s = metric_evidence r m"
  shows "signalMagnitude s = Some (of_int m / of_int (mr_threshold r))
    \<and> (metric_severity r m = ''high'' \<longleftrightarrow> mr_escalates r \<and> m \<ge> 2 * mr_threshold r)"
  using metric_read [OF assms] by (simp add: metric_severity_def highSeverityThresholdMultiple_def)

lemma metric_evidence_round_trip_witness: "signalMagnitude (sample_signal ''a.go'' 9) = Some (9 / 4)"
proof -
  have "signalMagnitude (sample_signal ''a.go'' 9) = Some (of_int 9 / of_int (mr_threshold maxNestingDepthRule))"
    by (rule metric_evidence_round_trip [THEN conjunct1])
      (simp_all add: metricRules_def sample_signal_def, simp add: maxNestingDepthRule_def)
  then show ?thesis by (simp add: maxNestingDepthRule_def)
qed

end
