(* ===== verification/SignalRules.thy ===== *)
theory SignalRules
  imports Signals
begin

text \<open>
  The file rules of pkg/codesignal: what a semantic analysis result holds
  (pkg/semantics/result.go) and the signals each rule derives from it (rule_*.go,
  registry.go, file_signals.go).  The metrics and counts of a file are integers that
  stay far below 64 bits.  A regular expression of the React rule matches when its
  alternatives, all plain text, occur in the case-folded name.
\<close>

section \<open>Analysis results\<close>

record syntax_issue =
  sx_kind :: string
  sx_location :: location

record import_feature =
  im_path :: string
  im_alias :: string
  im_location :: location

record structural_metrics =
  Ifs :: int
  Fors :: int
  ExprSwitches :: int
  TypeSwitches :: int
  Selects :: int
  Functions :: int
  Methods :: int
  MaxNestingDepth :: int
  MaxCognitiveComplexity :: int
  SumCognitiveComplexity :: int

record function_complexity =
  fn_name :: string
  fn_kind :: string
  fn_location :: location
  Score :: int

record semantic_finding =
  sf_kind :: string
  sf_name :: string
  sf_location :: location
  sf_confidence :: string
  sf_evidence :: string
  sf_recommendation :: string
  sf_skill :: string

record react_state =
  Binding :: string
  Setter :: string
  rs_location :: location

record react_transition =
  rt_name :: string
  rt_kind :: string
  rt_location :: location
  UpdatedBindings :: "string list"

record react_branch =
  rb_label :: string
  rb_location :: location

record react_call =
  API :: string
  rc_location :: location

record react_dep =
  rd_name :: string
  Panels :: "string list"

record react_component =
  co_name :: string
  co_location :: location
  ClientKind :: string
  UseState :: "react_state list"
  CoordinatedTransitions :: "react_transition list"
  WorkspaceBranches :: "react_branch list"
  ImperativeUI :: "react_call list"
  SharedPanelDeps :: "react_dep list"

record sem_result =
  re_path :: string
  re_language :: string
  ParseStatus :: string
  SyntaxErrors :: "syntax_issue list"
  Imports :: "import_feature list"
  Metrics :: structural_metrics
  Findings :: "semantic_finding list"
  CognitiveComplexity :: "function_complexity list"
  ReactComponents :: "react_component list"

section \<open>Texts\<close>

definition defaultHiddenInputMutationRecommendation :: string where
  \<open>defaultHiddenInputMutationRecommendation =
    ''Return the updated value instead of mutating caller-owned state, or make the in-place behavior explicit through the API name and documentation.''\<close>

definition hiddenInputMutationWhyItMatters :: string where
  \<open>hiddenInputMutationWhyItMatters =
    ''Mutating a caller-owned input can create behavior that is not visible from the function signature, make outcomes dependent on call ordering, introduce temporal coupling, make tests and local reasoning more difficult, and surprise callers that expect an input to remain unchanged.''\<close>

definition defaultTightConstructorInitRecommendation :: string where
  \<open>defaultTightConstructorInitRecommendation =
    ''Inject collaborators through the constructor's parameters or setters instead of instantiating them directly inside it, so tests and callers can substitute alternatives.''\<close>

definition tightConstructorInitWhyItMatters :: string where
  \<open>tightConstructorInitWhyItMatters =
    ''A constructor that directly instantiates its own collaborators hardwires those dependencies, making the type harder to test in isolation, harder to substitute alternative implementations for, and more prone to hidden coupling that only surfaces at runtime.''\<close>

definition defaultConstructorDensityRecommendation :: string where
  \<open>defaultConstructorDensityRecommendation =
    ''Consolidate overlapping constructor-like functions in this file, or split the file so each constructor's responsibility is clearer.''\<close>

definition constructorDensityWhyItMatters :: string where
  \<open>constructorDensityWhyItMatters =
    ''A high concentration of constructor-like functions in one file often signals overlapping responsibilities or an object graph that's grown organically rather than by design, making the file harder to navigate and its construction paths harder to reason about.''\<close>

definition defaultPointerReturnDensityRecommendation :: string where
  \<open>defaultPointerReturnDensityRecommendation =
    ''Reconsider whether all of these functions need to return pointers; returning values where mutation and nil-ness aren't required can simplify ownership and reduce aliasing risk.''\<close>

definition pointerReturnDensityWhyItMatters :: string where
  \<open>pointerReturnDensityWhyItMatters =
    ''A high concentration of pointer-returning functions in one file can indicate widespread reliance on aliasing and shared mutable state, which makes ownership harder to reason about and increases the risk of unintended mutation through shared references.''\<close>

definition defaultTOCTOUCheckThenActRecommendation :: string where
  \<open>defaultTOCTOUCheckThenActRecommendation =
    ''Attempt the filesystem operation directly and handle its error (try/catch or check the returned error) instead of checking existence first; a re-check between the check and the act does not close the race.''\<close>

definition toctouCheckThenActWhyItMatters :: string where
  \<open>toctouCheckThenActWhyItMatters =
    ''Checking for a file's existence and then acting on it in a separate step leaves a non-atomic check-then-act window (CWE-367, Time-of-Check Time-of-Use) in which another process or actor can create, delete, or replace the file between the check and the act, causing the acted-upon state to differ from what was checked.''\<close>

definition maxNestingDepthWhyItMatters :: string where
  \<open>maxNestingDepthWhyItMatters =
    ''Deeply nested control flow is harder to read, harder to test exhaustively, and hides the function's actual branching structure behind indentation, making it easy to miss an edge case.''\<close>

definition maxNestingDepthRecommendation :: string where
  \<open>maxNestingDepthRecommendation =
    ''Extract deeply nested blocks into named helper functions or invert conditionals with early returns to flatten the control flow.''\<close>

definition branchDensityWhyItMatters :: string where
  \<open>branchDensityWhyItMatters =
    ''A large number of branching constructs concentrated in one file increases the number of paths a reader has to hold in mind at once and the number of cases tests need to cover.''\<close>

definition branchDensityRecommendation :: string where
  \<open>branchDensityRecommendation =
    ''Split this file's branching logic across smaller, single-purpose functions or files so each piece has fewer paths to reason about.''\<close>

definition cognitiveComplexityWhyItMatters :: string where
  \<open>cognitiveComplexityWhyItMatters =
    ''High cognitive complexity means the control flow takes more mental effort to follow: nested branches, mixed logical sequences, and jumps compound so reviewers and authors miss paths.''\<close>

definition cognitiveComplexityRecommendation :: string where
  \<open>cognitiveComplexityRecommendation =
    ''Extract nested branches into named helpers, replace nested conditionals with early returns or lookup tables, and simplify boolean expressions so each function stays linearly readable.''\<close>

definition deepRelativeImportWhyItMatters :: string where
  \<open>deepRelativeImportWhyItMatters =
    ''A deep relative import ("../../../") tightly couples a module to another module's exact directory location, so moving or renaming either side breaks the import and makes refactors brittle.''\<close>

definition deepRelativeImportRecommendation :: string where
  \<open>deepRelativeImportRecommendation =
    ''Introduce a path alias or restructure toward a shared module boundary instead of climbing many directories with relative imports.''\<close>

definition reactOrchestrationWhyItMatters :: string where
  \<open>reactOrchestrationWhyItMatters =
    ''This component coordinates several independently changing UI concerns and feature panels. This is a refactoring opportunity, not a functional defect: changes to one workflow can unintentionally affect another, and the component is harder to test or extract safely.''\<close>

definition reactOrchestrationRecommendation :: string where
  \<open>reactOrchestrationRecommendation =
    ''Preserve the public component boundary. First extract one cohesive workspace or panel, then move only its local interaction state and derived data into that module or a dedicated hook. Keep cross-workspace state in the parent. Do not split by line count; derive explicit state-transition actions before moving state.''\<close>

section \<open>Rules on findings\<close>

definition codesignal_provenance :: provenance where
  "codesignal_provenance = \<lparr>Producer = ''codesignal'', FindingKind = [], Language = []\<rparr>"

definition zero_signal :: signal where
  "zero_signal =
     \<lparr>sg_id = [], sg_fingerprint = [], sg_rule = [], sg_rule_version = [], sg_kind = [], sg_category = [],
      sg_severity = [], sg_confidence = [], sg_lifecycle = [], sg_changed = False, sg_path = [],
      sg_source_scope = [], sg_subject = [], sg_location = zero_location, sg_evidence = [], sg_why = [],
      sg_recommendation = [], sg_skill = [], sg_provenance = \<lparr>Producer = [], FindingKind = [], Language = []\<rparr>,
      sg_machine_evidence = [], sg_related = [], sg_steps = [], sg_coverage_refs = []\<rparr>"

definition or_default :: "string \<Rightarrow> string \<Rightarrow> string" where
  "or_default s d = (if s = [] then d else s)"

definition finding_confidence :: "semantic_finding \<Rightarrow> string" where
  "finding_confidence f =
     (if sf_confidence f \<in> {''low'', ''medium'', ''high''} then sf_confidence f else ''medium'')"

definition newHiddenInputMutationSignal :: "string \<Rightarrow> semantic_finding \<Rightarrow> signal" where
  "newHiddenInputMutationSignal path f = zero_signal
     \<lparr>sg_rule := ''state.hidden_input_mutation'', sg_rule_version := ''1'', sg_kind := ''hidden_input_mutation'',
      sg_category := ''state_management'', sg_severity := ''medium'', sg_confidence := finding_confidence f,
      sg_path := path, sg_subject := sf_name f, sg_location := sf_location f, sg_evidence := sf_evidence f,
      sg_why := hiddenInputMutationWhyItMatters,
      sg_recommendation := or_default (sf_recommendation f) defaultHiddenInputMutationRecommendation,
      sg_skill := sf_skill f,
      sg_provenance := \<lparr>Producer = ''semantics'', FindingKind = ''mutates_input'', Language = []\<rparr>\<rparr>"

definition newTightCouplingSignal :: "string \<Rightarrow> semantic_finding \<Rightarrow> signal" where
  "newTightCouplingSignal path f = zero_signal
     \<lparr>sg_rule := ''coupling.tight_constructor_init'', sg_rule_version := ''1'', sg_kind := ''tight_constructor_init'',
      sg_category := ''coupling'', sg_severity := ''medium'', sg_confidence := ''medium'',
      sg_path := path, sg_subject := sf_name f, sg_location := sf_location f, sg_evidence := sf_evidence f,
      sg_why := tightConstructorInitWhyItMatters,
      sg_recommendation := or_default (sf_recommendation f) defaultTightConstructorInitRecommendation,
      sg_skill := sf_skill f,
      sg_provenance := \<lparr>Producer = ''semantics'', FindingKind = ''tight_coupling'', Language = []\<rparr>\<rparr>"

definition newConstructorDensitySignal :: "string \<Rightarrow> semantic_finding \<Rightarrow> signal" where
  "newConstructorDensitySignal path f = zero_signal
     \<lparr>sg_rule := ''structure.constructor_density'', sg_rule_version := ''1'', sg_kind := ''constructor_density'',
      sg_category := ''structure'', sg_severity := ''low'', sg_confidence := ''medium'',
      sg_path := path, sg_subject := sf_name f, sg_location := sf_location f, sg_evidence := sf_evidence f,
      sg_why := constructorDensityWhyItMatters,
      sg_recommendation := or_default (sf_recommendation f) defaultConstructorDensityRecommendation,
      sg_skill := sf_skill f,
      sg_provenance := \<lparr>Producer = ''semantics'', FindingKind = ''constructor_func'', Language = []\<rparr>\<rparr>"

definition newPointerReturnDensitySignal :: "string \<Rightarrow> semantic_finding \<Rightarrow> signal" where
  "newPointerReturnDensitySignal path f = zero_signal
     \<lparr>sg_rule := ''structure.pointer_return_density'', sg_rule_version := ''1'', sg_kind := ''pointer_return_density'',
      sg_category := ''structure'', sg_severity := ''low'', sg_confidence := ''medium'',
      sg_path := path, sg_subject := sf_name f, sg_location := sf_location f, sg_evidence := sf_evidence f,
      sg_why := pointerReturnDensityWhyItMatters,
      sg_recommendation := or_default (sf_recommendation f) defaultPointerReturnDensityRecommendation,
      sg_skill := sf_skill f,
      sg_provenance := \<lparr>Producer = ''semantics'', FindingKind = ''pointer_return'', Language = []\<rparr>\<rparr>"

definition newTOCTOUCheckThenActSignal :: "string \<Rightarrow> semantic_finding \<Rightarrow> signal" where
  "newTOCTOUCheckThenActSignal path f = zero_signal
     \<lparr>sg_rule := ''security.toctou_check_then_act'', sg_rule_version := ''1'', sg_kind := ''toctou_check_then_act'',
      sg_category := ''security'', sg_severity := ''medium'', sg_confidence := finding_confidence f,
      sg_path := path, sg_subject := sf_name f, sg_location := sf_location f, sg_evidence := sf_evidence f,
      sg_why := toctouCheckThenActWhyItMatters,
      sg_recommendation := or_default (sf_recommendation f) defaultTOCTOUCheckThenActRecommendation,
      sg_skill := sf_skill f,
      sg_provenance := \<lparr>Producer = ''semantics'', FindingKind = ''toctou_check_then_act'', Language = []\<rparr>\<rparr>"

text \<open>The registry of rules by finding kind, and the density gate.\<close>

definition densityGateThreshold :: nat where
  "densityGateThreshold = 2"

definition gatedFindingKinds :: "string list" where
  "gatedFindingKinds = [''constructor_func'', ''pointer_return'']"

definition ruleRegistry :: "string \<Rightarrow> (string \<Rightarrow> semantic_finding \<Rightarrow> signal) option" where
  "ruleRegistry = map_of
     [(''mutates_input'', newHiddenInputMutationSignal),
      (''tight_coupling'', newTightCouplingSignal),
      (''constructor_func'', newConstructorDensitySignal),
      (''pointer_return'', newPointerReturnDensitySignal),
      (''toctou_check_then_act'', newTOCTOUCheckThenActSignal)]"

text \<open>The count of a kind in the map; a missing kind counts 0.\<close>

definition findingCountsByKind :: "semantic_finding list \<Rightarrow> string \<Rightarrow> nat" where
  "findingCountsByKind fs kind = length (filter (\<lambda>f. sf_kind f = kind) fs)"

definition signalsFromFindings ::
  "string \<Rightarrow> semantic_finding list \<Rightarrow> (string \<Rightarrow> nat) \<Rightarrow> signal list" where
  "signalsFromFindings path fs counts =
     List.map_filter (\<lambda>f.
       case ruleRegistry (sf_kind f) of
         None \<Rightarrow> None
       | Some mk \<Rightarrow>
           if sf_kind f \<in> set gatedFindingKinds \<and> counts (sf_kind f) < densityGateThreshold then None
           else Some (mk path f)) fs"

section \<open>Rules on metrics\<close>

definition branchSum :: "structural_metrics \<Rightarrow> int" where
  "branchSum m = Ifs m + Fors m + ExprSwitches m + TypeSwitches m + Selects m"

definition newBranchDensitySignal :: "string \<Rightarrow> structural_metrics \<Rightarrow> signal option" where
  "newBranchDensitySignal path m =
     (let sum = branchSum m in
      if \<not> metric_reaches branchDensityRule sum then None
      else Some (zero_signal
        \<lparr>sg_rule := mr_rule branchDensityRule, sg_rule_version := ''1'', sg_kind := ''branch_density'',
         sg_category := ''complexity'', sg_severity := metric_severity branchDensityRule sum,
         sg_confidence := ''medium'', sg_path := path, sg_evidence := metric_evidence branchDensityRule sum,
         sg_why := branchDensityWhyItMatters, sg_recommendation := branchDensityRecommendation,
         sg_provenance := codesignal_provenance\<rparr>))"

definition newMaxNestingDepthSignal :: "string \<Rightarrow> structural_metrics \<Rightarrow> signal option" where
  "newMaxNestingDepthSignal path m =
     (if \<not> metric_reaches maxNestingDepthRule (MaxNestingDepth m) then None
      else Some (zero_signal
        \<lparr>sg_rule := mr_rule maxNestingDepthRule, sg_rule_version := ''1'', sg_kind := ''max_nesting_depth'',
         sg_category := ''complexity'', sg_severity := metric_severity maxNestingDepthRule (MaxNestingDepth m),
         sg_confidence := ''medium'', sg_path := path,
         sg_evidence := metric_evidence maxNestingDepthRule (MaxNestingDepth m),
         sg_why := maxNestingDepthWhyItMatters, sg_recommendation := maxNestingDepthRecommendation,
         sg_provenance := codesignal_provenance\<rparr>))"

definition metricsRuleRegistry :: "(string \<Rightarrow> structural_metrics \<Rightarrow> signal option) list" where
  "metricsRuleRegistry = [newMaxNestingDepthSignal, newBranchDensitySignal]"

definition signalsFromMetrics :: "string \<Rightarrow> structural_metrics \<Rightarrow> signal list" where
  "signalsFromMetrics path m = List.map_filter (\<lambda>mk. mk path m) metricsRuleRegistry"

definition newCognitiveComplexitySignal :: "string \<Rightarrow> function_complexity \<Rightarrow> signal" where
  "newCognitiveComplexitySignal path rec = zero_signal
     \<lparr>sg_rule := mr_rule cognitiveComplexityRule, sg_rule_version := ''1'', sg_kind := ''cognitive_complexity'',
      sg_category := ''complexity'', sg_severity := metric_severity cognitiveComplexityRule (Score rec),
      sg_confidence := ''high'', sg_path := path, sg_subject := fn_name rec, sg_location := fn_location rec,
      sg_evidence := metric_evidence cognitiveComplexityRule (Score rec),
      sg_why := cognitiveComplexityWhyItMatters, sg_recommendation := cognitiveComplexityRecommendation,
      sg_provenance := codesignal_provenance\<rparr>"

definition signalsFromCognitiveComplexity :: "string \<Rightarrow> function_complexity list \<Rightarrow> signal list" where
  "signalsFromCognitiveComplexity path records =
     map (newCognitiveComplexitySignal path) (filter (\<lambda>rec. metric_reaches cognitiveComplexityRule (Score rec)) records)"

section \<open>Deep relative imports\<close>

definition deepRelativeImportDepthThreshold :: nat where
  "deepRelativeImportDepthThreshold = 3"

definition noteDotDotSegment :: "string \<Rightarrow> nat \<Rightarrow> nat \<Rightarrow> nat \<Rightarrow> nat \<times> nat" where
  "noteDotDotSegment path start i depth =
     (if i = length path \<or> path ! i = CHR ''/''
      then (i + 1, if take (i - start) (drop start path) = ''..'' then depth + 1 else depth)
      else (start, depth))"

text \<open>The result is None for a path that is not relative.\<close>

definition deepRelativeImportDepth :: "string \<Rightarrow> nat option" where
  "deepRelativeImportDepth path =
     (if path = [] \<or> hd path \<noteq> CHR ''.'' then None
      else Some (snd (foldl (\<lambda>(start, depth) i. noteDotDotSegment path start i depth)
                        (0, 0) [0..<length path + 1])))"

definition LanguageTypeScript :: string where
  "LanguageTypeScript = ''typescript''"

definition LanguageTSX :: string where
  "LanguageTSX = ''tsx''"

definition LanguageGo :: string where "LanguageGo = ''go''"

definition LanguageForExtension :: "string \<Rightarrow> string option" where
  "LanguageForExtension ext =
     (let e = to_lower ext in
      if e = ''.go'' then Some LanguageGo
      else if e = ''.ts'' then Some LanguageTypeScript
      else if e = ''.tsx'' then Some LanguageTSX
      else None)"

definition newDeepRelativeImportSignal :: "string \<Rightarrow> import_feature \<Rightarrow> signal" where
  "newDeepRelativeImportSignal path imp = zero_signal
     \<lparr>sg_rule := ''coupling.deep_relative_import'', sg_rule_version := ''1'', sg_kind := ''deep_relative_import'',
      sg_category := ''coupling'', sg_severity := ''medium'', sg_confidence := ''medium'', sg_path := path,
      sg_subject := im_path imp, sg_evidence := im_path imp, sg_location := im_location imp,
      sg_why := deepRelativeImportWhyItMatters, sg_recommendation := deepRelativeImportRecommendation,
      sg_provenance := codesignal_provenance\<rparr>"

definition deep_import :: "import_feature \<Rightarrow> bool" where
  "deep_import imp \<longleftrightarrow>
     (case deepRelativeImportDepth (im_path imp) of
        None \<Rightarrow> False
      | Some depth \<Rightarrow> \<not> depth < deepRelativeImportDepthThreshold)"

definition signalsFromImports :: "string \<Rightarrow> string \<Rightarrow> import_feature list \<Rightarrow> signal list" where
  "signalsFromImports path language imports =
     (if language \<noteq> LanguageTypeScript \<and> language \<noteq> LanguageTSX then []
      else map (newDeepRelativeImportSignal path) (filter deep_import imports))"

section \<open>React orchestration\<close>

text \<open>
  Case folding of a name under the flag i: the two letters outside ASCII that fold to an
  ASCII letter are the long s and the Kelvin sign.
\<close>

fun fold_bytes :: "nat list \<Rightarrow> nat list" where
  "fold_bytes [] = []"
| "fold_bytes (b # bs) =
     (if b = 0xC5 \<and> take 1 bs = [0xBF] then 115 # fold_bytes (drop 1 bs)
      else if b = 0xE2 \<and> take 2 bs = [0x84, 0xAA] then 107 # fold_bytes (drop 2 bs)
      else lower_byte b # fold_bytes bs)"

definition fold_case :: "string \<Rightarrow> string" where
  "fold_case s = map char_of (fold_bytes (map of_char s))"

fun contains :: "string \<Rightarrow> string \<Rightarrow> bool" where
  "contains [] p = (p = [])"
| "contains (ch # s) p = (has_prefix (ch # s) p \<or> contains s p)"

text \<open>A pattern: alternatives that must be the whole name, and alternatives found anywhere in it.\<close>

datatype name_pattern = Pattern (whole: "string list") (anywhere: "string list") | Everything

fun pattern_matches :: "name_pattern \<Rightarrow> string \<Rightarrow> bool" where
  "pattern_matches Everything s = True"
| "pattern_matches (Pattern ws as) s =
     (fold_case s \<in> set ws \<or> list_ex (contains (fold_case s)) as)"

definition reactStateDomainRules :: "(string \<times> name_pattern) list" where
  "reactStateDomainRules =
     [(''navigation'', Pattern
         [''activeview'', ''activetab'', ''activepanel'', ''activesection'', ''activepage'',
          ''selectedview'', ''selectedtab'', ''currentview'', ''currenttab'', ''view'', ''tab'', ''route'', ''screen''] []),
      (''selection'', Pattern [] [''selected'', ''selection'', ''checked'', ''highlighted'']),
      (''hover_focus'', Pattern [''focus''] [''hover'', ''focused'', ''focusable'']),
      (''filtering'', Pattern [] [''filter'', ''search'', ''query'']),
      (''pagination'', Pattern [''page'', ''limit''] [''pageindex'', ''pagenumber'', ''offset'', ''cursor'', ''pagelimit'']),
      (''sorting'', Pattern [] [''sort'', ''orderby'']),
      (''modal'', Pattern [''open'', ''visible'', ''show'']
         [''modal'', ''dialog'', ''drawer'', ''expanded'', ''collapsed'', ''isopen'', ''opened'', ''isvisible'']),
      (''loading_error'', Pattern [''error'', ''err'', ''status''] [''loading'', ''pending'', ''iserror'', ''fetchstatus'']),
      (''other'', Everything)]"

definition classifyStateDomain :: "string \<Rightarrow> string" where
  "classifyStateDomain binding =
     (case find (\<lambda>(domain, pattern). pattern_matches pattern binding) reactStateDomainRules of
        Some (domain, _) \<Rightarrow> domain
      | None \<Rightarrow> ''other'')"

definition uniqueStateDomains :: "react_component \<Rightarrow> string list" where
  "uniqueStateDomains rec =
     sort_strings (remdups (map (\<lambda>b. classifyStateDomain (Binding b)) (filter (\<lambda>b. Binding b \<noteq> []) (UseState rec))))"

definition reactStateDomainMinUnique :: nat where
  "reactStateDomainMinUnique = 3"

definition reactStateDomainMinTransitions :: nat where
  "reactStateDomainMinTransitions = 1"

definition reactStateDomainMinBranches :: nat where
  "reactStateDomainMinBranches = 3"

definition reactOrchestrationRequiredMet :: "react_component \<Rightarrow> bool" where
  "reactOrchestrationRequiredMet rec \<longleftrightarrow>
     length (uniqueStateDomains rec) \<ge> reactStateDomainMinUnique
     \<and> length (CoordinatedTransitions rec) \<ge> reactStateDomainMinTransitions
     \<and> length (WorkspaceBranches rec) \<ge> reactStateDomainMinBranches"

definition reactHasSupportingTransition :: "react_transition list \<Rightarrow> bool" where
  "reactHasSupportingTransition ts \<longleftrightarrow>
     list_ex (\<lambda>t. rt_kind t = ''effect'' \<and> length (UpdatedBindings t) \<ge> 2 \<or> length (UpdatedBindings t) \<ge> 3) ts"

definition reactOrchestrationSupportingMet :: "react_component \<Rightarrow> bool" where
  "reactOrchestrationSupportingMet rec \<longleftrightarrow>
     reactHasSupportingTransition (CoordinatedTransitions rec)
     \<or> length (ImperativeUI rec) \<ge> 1 \<or> length (SharedPanelDeps rec) \<ge> 1"

definition reactOrchestrationEvidence :: "react_component \<Rightarrow> string" where
  "reactOrchestrationEvidence rec =
     ''domains='' @ decimal (length (uniqueStateDomains rec)) @
     '';states='' @ decimal (length (UseState rec)) @
     '';transitions='' @ decimal (length (CoordinatedTransitions rec)) @
     '';branches='' @ decimal (length (WorkspaceBranches rec)) @
     '';imperative='' @ decimal (length (ImperativeUI rec)) @
     '';shared='' @ decimal (length (SharedPanelDeps rec)) @
     '';client='' @ ClientKind rec"

definition newReactOrchestrationSignal :: "string \<Rightarrow> react_component \<Rightarrow> signal" where
  "newReactOrchestrationSignal path rec = zero_signal
     \<lparr>sg_rule := ''structure.react_component_orchestration_density'', sg_rule_version := ''1'',
      sg_kind := ''react_component_orchestration_density'', sg_category := ''structure'',
      sg_severity := ''medium'', sg_confidence := ''high'', sg_path := path, sg_subject := co_name rec,
      sg_location := co_location rec, sg_evidence := reactOrchestrationEvidence rec,
      sg_why := reactOrchestrationWhyItMatters, sg_recommendation := reactOrchestrationRecommendation,
      sg_provenance := codesignal_provenance\<rparr>"

definition signalsFromReactOrchestration :: "string \<Rightarrow> react_component list \<Rightarrow> signal list" where
  "signalsFromReactOrchestration path records =
     map (newReactOrchestrationSignal path)
       (filter (\<lambda>rec. reactOrchestrationRequiredMet rec \<and> reactOrchestrationSupportingMet rec) records)"

section \<open>Facts\<close>

text \<open>The loop over a path's characters counts the segments that are exactly two dots.\<close>

definition dotdot_count :: "string list \<Rightarrow> nat" where
  "dotdot_count segments = length (filter (\<lambda>seg. seg = ''..'') segments)"

lemma dotdot_loop:
  assumes "path = pre @ seg @ rest"
  shows "snd (foldl (\<lambda>(start, depth) i. noteDotDotSegment path start i depth) (length pre, depth)
      [length pre + length seg..<length path + 1]) = depth + dotdot_count (split_slash rest (rev seg))"
  using assms
proof (induction rest arbitrary: pre seg depth)
  case Nil
  then show ?case by (simp add: noteDotDotSegment_def dotdot_count_def)
next
  case (Cons ch rest)
  let ?i = "length pre + length seg"
  have upt: "[?i..<length path + 1] = ?i # [Suc ?i..<length path + 1]"
    using Cons.prems by (subst upt_conv_Cons) simp_all
  have at: "path ! ?i = ch" "?i \<noteq> length path" "take (?i - length pre) (drop (length pre) path) = seg"
    using Cons.prems by (simp_all add: nth_append)
  show ?case
  proof (cases "ch = CHR ''/''")
    case True
    have len: "length (pre @ seg @ [ch]) + length ([] :: string) = Suc ?i" by simp
    have "path = (pre @ seg @ [ch]) @ [] @ rest" using Cons.prems by simp
    from Cons.IH [OF this] show ?thesis
      unfolding upt foldl_Cons len using True at
      by (simp add: noteDotDotSegment_def dotdot_count_def)
  next
    case False
    have len: "length pre + length (seg @ [ch]) = Suc ?i" by simp
    have "path = pre @ (seg @ [ch]) @ rest" using Cons.prems by simp
    from Cons.IH [OF this] show ?thesis
      unfolding upt foldl_Cons len using False at by (simp add: noteDotDotSegment_def)
  qed
qed

lemma deepRelativeImportDepth_counts:
  "deepRelativeImportDepth path =
     (if has_prefix path ''.'' then Some (dotdot_count (split_slash path [])) else None)"
proof -
  have "has_prefix path ''.'' \<longleftrightarrow> path \<noteq> [] \<and> hd path = CHR ''.''"
    by (cases path) (auto simp: has_prefix_def)
  then show ?thesis using dotdot_loop [of path "[]" "[]" path 0] by (simp add: deepRelativeImportDepth_def)
qed

text \<open>What every signal of a file rule has, whatever the rule.\<close>

definition file_rules :: "string list" where
  "file_rules =
     [''state.hidden_input_mutation'', ''coupling.tight_constructor_init'', ''structure.constructor_density'',
      ''structure.pointer_return_density'', ''security.toctou_check_then_act'', ''complexity.cognitive_complexity'',
      ''complexity.branch_density'', ''complexity.max_nesting_depth'', ''coupling.deep_relative_import'',
      ''structure.react_component_orchestration_density'']"

definition well_typed_signal :: "string \<Rightarrow> signal \<Rightarrow> bool" where
  "well_typed_signal path s \<longleftrightarrow>
     sg_path s = path \<and> sg_rule s \<in> set file_rules \<and> sg_rule_version s = ''1''
     \<and> sg_severity s \<in> set severityOrder \<and> sg_confidence s \<in> {''low'', ''medium'', ''high''}
     \<and> sg_id s = [] \<and> sg_fingerprint s = [] \<and> sg_lifecycle s = [] \<and> \<not> sg_changed s \<and> sg_source_scope s = []
     \<and> sg_why s \<noteq> [] \<and> sg_recommendation s \<noteq> []
     \<and> sg_machine_evidence s = [] \<and> sg_related s = [] \<and> sg_steps s = [] \<and> sg_coverage_refs s = []"

lemmas rule_texts =
  defaultHiddenInputMutationRecommendation_def hiddenInputMutationWhyItMatters_def
  defaultTightConstructorInitRecommendation_def tightConstructorInitWhyItMatters_def
  defaultConstructorDensityRecommendation_def constructorDensityWhyItMatters_def
  defaultPointerReturnDensityRecommendation_def pointerReturnDensityWhyItMatters_def
  defaultTOCTOUCheckThenActRecommendation_def toctouCheckThenActWhyItMatters_def
  maxNestingDepthWhyItMatters_def maxNestingDepthRecommendation_def
  branchDensityWhyItMatters_def branchDensityRecommendation_def
  cognitiveComplexityWhyItMatters_def cognitiveComplexityRecommendation_def
  deepRelativeImportWhyItMatters_def deepRelativeImportRecommendation_def
  reactOrchestrationWhyItMatters_def reactOrchestrationRecommendation_def

lemma texts_nonempty [simp]:
  "defaultHiddenInputMutationRecommendation \<noteq> []" "hiddenInputMutationWhyItMatters \<noteq> []"
  "defaultTightConstructorInitRecommendation \<noteq> []" "tightConstructorInitWhyItMatters \<noteq> []"
  "defaultConstructorDensityRecommendation \<noteq> []" "constructorDensityWhyItMatters \<noteq> []"
  "defaultPointerReturnDensityRecommendation \<noteq> []" "pointerReturnDensityWhyItMatters \<noteq> []"
  "defaultTOCTOUCheckThenActRecommendation \<noteq> []" "toctouCheckThenActWhyItMatters \<noteq> []"
  "maxNestingDepthWhyItMatters \<noteq> []" "maxNestingDepthRecommendation \<noteq> []"
  "branchDensityWhyItMatters \<noteq> []" "branchDensityRecommendation \<noteq> []"
  "cognitiveComplexityWhyItMatters \<noteq> []" "cognitiveComplexityRecommendation \<noteq> []"
  "deepRelativeImportWhyItMatters \<noteq> []" "deepRelativeImportRecommendation \<noteq> []"
  "reactOrchestrationWhyItMatters \<noteq> []" "reactOrchestrationRecommendation \<noteq> []"
  by (simp_all only: rule_texts list.distinct not_False_eq_True)

lemma or_default_nonempty [simp]: "d \<noteq> [] \<Longrightarrow> or_default s d \<noteq> []"
  by (simp add: or_default_def)

lemma metric_severity_known: "metric_severity r m = ''high'' \<or> metric_severity r m = ''medium''"
  by (simp add: metric_severity_def)

lemma severities [simp]:
  "''low'' \<in> set severityOrder" "''medium'' \<in> set severityOrder" "''high'' \<in> set severityOrder"
  by (simp_all add: severityOrder_def)

lemma metric_severity_ordered [simp]: "metric_severity r m \<in> set severityOrder"
  using metric_severity_known [of r m] by auto

lemma rule_names [simp]:
  "mr_rule cognitiveComplexityRule \<in> set file_rules" "mr_rule branchDensityRule \<in> set file_rules"
  "mr_rule maxNestingDepthRule \<in> set file_rules"
  by (simp_all add: file_rules_def cognitiveComplexityRule_def branchDensityRule_def maxNestingDepthRule_def)

lemma finding_confidence_known [simp]: "finding_confidence f \<in> {''low'', ''medium'', ''high''}"
  by (simp add: finding_confidence_def)

lemma finding_rules_typed:
  "well_typed_signal path (newHiddenInputMutationSignal path f)"
  "well_typed_signal path (newTightCouplingSignal path f)"
  "well_typed_signal path (newConstructorDensitySignal path f)"
  "well_typed_signal path (newPointerReturnDensitySignal path f)"
  "well_typed_signal path (newTOCTOUCheckThenActSignal path f)"
  unfolding well_typed_signal_def newHiddenInputMutationSignal_def newTightCouplingSignal_def
    newConstructorDensitySignal_def newPointerReturnDensitySignal_def newTOCTOUCheckThenActSignal_def
  using finding_confidence_known [of f] by (simp_all add: zero_signal_def file_rules_def)

lemma other_rules_typed:
  "well_typed_signal path (newCognitiveComplexitySignal path r)"
  "well_typed_signal path (newDeepRelativeImportSignal path i)"
  "well_typed_signal path (newReactOrchestrationSignal path c)"
  unfolding well_typed_signal_def newCognitiveComplexitySignal_def newDeepRelativeImportSignal_def
    newReactOrchestrationSignal_def
  by (simp_all add: zero_signal_def) (simp_all add: file_rules_def)

lemma metric_rules_typed:
  "newBranchDensitySignal path m = Some s \<Longrightarrow> well_typed_signal path s"
  "newMaxNestingDepthSignal path m = Some s \<Longrightarrow> well_typed_signal path s"
  unfolding well_typed_signal_def newBranchDensitySignal_def newMaxNestingDepthSignal_def
  by (auto simp: zero_signal_def Let_def split: if_splits)

lemma registry_typed: "ruleRegistry k = Some mk \<Longrightarrow> well_typed_signal path (mk path f)"
  unfolding ruleRegistry_def by (auto split: if_splits intro: finding_rules_typed)

lemma set_map_filter: "set (List.map_filter g xs) = {y. \<exists>x \<in> set xs. g x = Some y}"
  by (induction xs) (auto simp: List.map_filter_simps split: option.splits)

lemma signals_from_findings_typed: "s \<in> set (signalsFromFindings path fs counts) \<Longrightarrow> well_typed_signal path s"
  unfolding signalsFromFindings_def
  by (auto simp: set_map_filter split: option.splits if_splits intro: registry_typed)

lemma signals_from_others_typed:
  "s \<in> set (signalsFromMetrics path m) \<Longrightarrow> well_typed_signal path s"
  "s \<in> set (signalsFromImports path l is) \<Longrightarrow> well_typed_signal path s"
  "s \<in> set (signalsFromCognitiveComplexity path rs) \<Longrightarrow> well_typed_signal path s"
  "s \<in> set (signalsFromReactOrchestration path cs) \<Longrightarrow> well_typed_signal path s"
  by (auto simp: signalsFromMetrics_def metricsRuleRegistry_def signalsFromImports_def
      signalsFromCognitiveComplexity_def signalsFromReactOrchestration_def List.map_filter_simps
      intro: metric_rules_typed other_rules_typed split: option.splits if_splits)

end
