(* ===== verification/SignalLifecycle.thy ===== *)
theory SignalLifecycle
  imports SignalRules
begin

text \<open>
  From file changes to classified signals: input.go's FileChange, file_change.go,
  file_signals.go, changed_ranges.go, signal_key.go, lifecycle.go and signal_summary.go of
  pkg/codesignal.  A Go map from keys to groups is an association list; the code only
  visits it in the order of its sorted keys.
\<close>

section \<open>Input\<close>

record line_range =
  lr_start :: nat
  lr_end :: nat

record file_change =
  fc_path :: string
  fc_status :: string
  fc_source_scope :: string
  fc_base :: "sem_result option"
  fc_head :: "sem_result option"
  fc_ranges :: "line_range list"

definition file_diagnostic :: "string \<Rightarrow> string \<Rightarrow> string \<Rightarrow> diagnostic" where
  "file_diagnostic path kind message =
     \<lparr>dg_path = path, dg_kind = kind, dg_message = message, dg_location = None, dg_side = [], dg_revision = []\<rparr>"

definition quote :: string where
  \<open>quote = ''"''\<close>

definition quoted :: "string \<Rightarrow> string" where
  "quoted s = quote @ s @ quote"

section \<open>Signals of one side\<close>

definition signals_of_result :: "string \<Rightarrow> sem_result \<Rightarrow> signal list" where
  "signals_of_result path r =
     signalsFromFindings path (Findings r) (findingCountsByKind (Findings r))
     @ signalsFromMetrics path (Metrics r)
     @ signalsFromImports path (re_language r) (Imports r)
     @ signalsFromCognitiveComplexity path (CognitiveComplexity r)
     @ signalsFromReactOrchestration path (ReactComponents r)"

definition syntax_diagnostic :: "string \<Rightarrow> syntax_issue \<Rightarrow> diagnostic" where
  "syntax_diagnostic path issue =
     (file_diagnostic path ''syntax_errors''
        (''head analysis found a syntax issue of kind '' @ quoted (sx_kind issue)))
     \<lparr>dg_location := Some (sx_location issue)\<rparr>"

definition processHeadResult :: "file_change \<Rightarrow> diagnostic list \<times> signal list" where
  "processHeadResult fc =
     (case fc_head fc of
        None \<Rightarrow>
          (if fc_status fc = ''modified'' \<or> fc_status fc = ''added''
           then ([file_diagnostic (fc_path fc) ''missing_head_result''
                    (''file change status '' @ quoted (fc_status fc) @ '' has no head analysis result'')], [])
           else ([], []))
      | Some r \<Rightarrow>
          (if ParseStatus r = ''ok'' then ([], signals_of_result (fc_path fc) r)
           else if ParseStatus r = ''syntax_errors''
           then (map (syntax_diagnostic (fc_path fc)) (SyntaxErrors r), [])
           else ([file_diagnostic (fc_path fc) ''unsupported_parse_status''
                    (''head analysis result has unsupported parse status '' @ quoted (ParseStatus r))], [])))"

definition baseUsableForLifecycle :: "file_change \<Rightarrow> bool" where
  "baseUsableForLifecycle fc =
     (case fc_base fc of None \<Rightarrow> False | Some r \<Rightarrow> re_path r = [] \<or> re_path r = fc_path fc)"

definition eligibleForLifecycleClassification :: "file_change \<Rightarrow> bool" where
  "eligibleForLifecycleClassification fc =
     (case fc_head fc of Some r \<Rightarrow> ParseStatus r = ''ok'' | None \<Rightarrow> fc_status fc = ''removed'')"

definition extractBaseSignals :: "file_change \<Rightarrow> signal list" where
  "extractBaseSignals fc =
     (case fc_base fc of
        None \<Rightarrow> []
      | Some r \<Rightarrow>
          if \<not> baseUsableForLifecycle fc \<or> ParseStatus r \<noteq> ''ok'' then []
          else signals_of_result (fc_path fc) r)"

definition side_path_mismatch :: "file_change \<Rightarrow> string \<Rightarrow> sem_result option \<Rightarrow> diagnostic list" where
  "side_path_mismatch fc side result =
     (case result of
        None \<Rightarrow> []
      | Some r \<Rightarrow>
          if re_path r \<noteq> [] \<and> re_path r \<noteq> fc_path fc
          then [file_diagnostic (fc_path fc) ''invalid_file_change''
                  (side @ '' result path '' @ quoted (re_path r) @ '' does not match file change path '' @ quoted (fc_path fc))]
          else [])"

definition validateFileChange :: "file_change \<Rightarrow> diagnostic list" where
  "validateFileChange fc = side_path_mismatch fc ''base'' (fc_base fc) @ side_path_mismatch fc ''head'' (fc_head fc)"

section \<open>Changed ranges\<close>

definition range_diagnostic :: "string \<Rightarrow> line_range \<Rightarrow> diagnostic" where
  "range_diagnostic path r =
     file_diagnostic path ''invalid_changed_range''
       (''changed range start_row '' @ decimal (lr_start r) @ '' is greater than end_row '' @ decimal (lr_end r))"

definition validateChangedRanges :: "file_change \<Rightarrow> diagnostic list \<times> line_range list" where
  "validateChangedRanges fc =
     (map (range_diagnostic (fc_path fc)) (filter (\<lambda>r. lr_start r > lr_end r) (fc_ranges fc)),
      filter (\<lambda>r. \<not> lr_start r > lr_end r) (fc_ranges fc))"

definition overlapsAny :: "location \<Rightarrow> line_range list \<Rightarrow> bool" where
  "overlapsAny loc ranges = list_ex (\<lambda>r. StartRow loc \<le> lr_end r \<and> lr_start r \<le> EndRow loc) ranges"

definition mark_signal :: "line_range list \<Rightarrow> signal \<Rightarrow> signal" where
  "mark_signal ranges s =
     s\<lparr>sg_changed := (if sg_lifecycle s = ''resolved'' then False else overlapsAny (sg_location s) ranges)\<rparr>"

definition markChanged :: "signal list \<Rightarrow> line_range list \<Rightarrow> signal list" where
  "markChanged signals ranges = map (mark_signal ranges) signals"

section \<open>Keys and groups\<close>

type_synonym signal_key = "string \<times> string \<times> string \<times> string"

definition keyOf :: "signal \<Rightarrow> signal_key" where
  "keyOf s = (sg_rule s, normalizePath (sg_path s), sg_subject s, normalizeEvidence (sg_evidence s))"

definition signalLocationLess :: "location \<Rightarrow> location \<Rightarrow> bool" where
  "signalLocationLess a b =
     (if StartRow a \<noteq> StartRow b then StartRow a < StartRow b
      else if StartCol a \<noteq> StartCol b then StartCol a < StartCol b
      else StartByte a < StartByte b)"

definition cmp_signal_location :: "signal \<Rightarrow> signal \<Rightarrow> int" where
  "cmp_signal_location a b = cmp_of_less signalLocationLess (sg_location a) (sg_location b)"

definition group_of :: "(signal_key \<times> signal list) list \<Rightarrow> signal_key \<Rightarrow> signal list" where
  "group_of groups k = (case map_of groups k of None \<Rightarrow> [] | Some g \<Rightarrow> g)"

definition add_to_group :: "(signal_key \<times> signal list) list \<Rightarrow> signal \<Rightarrow> (signal_key \<times> signal list) list" where
  "add_to_group groups s = AList.update (keyOf s) (group_of groups (keyOf s) @ [s]) groups"

definition groupAndOrder :: "signal list \<Rightarrow> (signal_key \<times> signal list) list" where
  "groupAndOrder signals =
     map (\<lambda>(k, members). (k, stable_sort cmp_signal_location members)) (foldl add_to_group [] signals)"

definition key_less :: "signal_key \<Rightarrow> signal_key \<Rightarrow> bool" where
  "key_less a b =
     (case (a, b) of
        ((rule1, path1, subject1, evidence1), (rule2, path2, subject2, evidence2)) \<Rightarrow>
          if rule1 \<noteq> rule2 then rule1 < rule2
          else if path1 \<noteq> path2 then path1 < path2
          else if subject1 \<noteq> subject2 then subject1 < subject2
          else evidence1 < evidence2)"

definition sortedKeys :: "(signal_key \<times> signal list) list \<Rightarrow> signal_key list" where
  "sortedKeys groups = stable_sort (cmp_of_less key_less) (map fst groups)"

section \<open>Lifecycles\<close>

definition lifecycleWithoutBase :: "bool \<Rightarrow> string" where
  "lifecycleWithoutBase baseline = (if baseline then ''baseline'' else ''unknown'')"

definition noBaseLifecycleForFile :: "file_change \<Rightarrow> string \<Rightarrow> string" where
  "noBaseLifecycleForFile fc noBase =
     (if fc_status fc = ''added'' \<and> noBase \<noteq> ''baseline'' then ''introduced'' else noBase)"

definition identified :: "(string \<Rightarrow> string) \<Rightarrow> nat \<Rightarrow> string \<Rightarrow> signal \<Rightarrow> signal" where
  "identified digest i lifecycle s =
     s\<lparr>sg_lifecycle := lifecycle,
       sg_fingerprint := computeFingerprint digest (sg_rule s) (sg_path s) (sg_subject s) (sg_evidence s) i,
       sg_id := computeSignalID digest (sg_rule s) (sg_path s) (sg_subject s) (sg_evidence s)
                  (StartRow (sg_location s)) (StartCol (sg_location s)) i\<rparr>"

definition head_lifecycle :: "bool \<Rightarrow> string \<Rightarrow> nat \<Rightarrow> nat \<Rightarrow> string" where
  "head_lifecycle hasBase noBase nb i =
     (if \<not> hasBase then noBase else if i < nb then ''existing'' else if nb = 0 then ''introduced'' else ''unknown'')"

definition classify_head_group :: "(string \<Rightarrow> string) \<Rightarrow> bool \<Rightarrow> string \<Rightarrow> nat \<Rightarrow> signal list \<Rightarrow> signal list" where
  "classify_head_group digest hasBase noBase nb members =
     map (\<lambda>(i, s). identified digest i (head_lifecycle hasBase noBase nb i) s) (enumerate 0 members)"

definition appendResolvedBaseSignals ::
  "(string \<Rightarrow> string) \<Rightarrow> signal list \<Rightarrow> signal list \<Rightarrow> signal list \<Rightarrow> signal list" where
  "appendResolvedBaseSignals digest result baseGroup headGroup =
     result @ map (\<lambda>(i, s). identified digest i ''resolved'' s)
       (filter (\<lambda>(i, s). i \<ge> length headGroup) (enumerate 0 baseGroup))"

definition classifyFileSignals ::
  "(string \<Rightarrow> string) \<Rightarrow> bool \<Rightarrow> signal list \<Rightarrow> signal list \<Rightarrow> string \<Rightarrow> signal list" where
  "classifyFileSignals digest hasBase headSignals baseSignals noBase =
     (let headGroups = groupAndOrder headSignals;
          baseGroups = groupAndOrder baseSignals;
          heads = foldl (\<lambda>result k. result @ classify_head_group digest hasBase noBase
                           (length (group_of baseGroups k)) (group_of headGroups k)) [] (sortedKeys headGroups)
      in foldl (\<lambda>result k. appendResolvedBaseSignals digest result (group_of baseGroups k) (group_of headGroups k))
           heads (sortedKeys baseGroups))"

section \<open>All files\<close>

definition process_file ::
  "(string \<Rightarrow> string) \<Rightarrow> string \<Rightarrow> file_change \<Rightarrow> diagnostic list \<times> signal list" where
  "process_file digest noBase fc =
     (let (fileDiagnostics, fileSignals) = processHeadResult fc;
          (rangeDiagnostics, validRanges) = validateChangedRanges fc;
          diagnostics = validateFileChange fc @ fileDiagnostics @ rangeDiagnostics
      in if \<not> eligibleForLifecycleClassification fc then (diagnostics, [])
         else (diagnostics,
           markChanged
             (map (\<lambda>s. s\<lparr>sg_source_scope := fc_source_scope fc\<rparr>)
               (classifyFileSignals digest (baseUsableForLifecycle fc) fileSignals (extractBaseSignals fc)
                  (noBaseLifecycleForFile fc noBase)))
             validRanges))"

definition processFileChanges ::
  "(string \<Rightarrow> string) \<Rightarrow> file_change list \<Rightarrow> diagnostic list \<Rightarrow> string \<Rightarrow> diagnostic list \<times> signal list" where
  "processFileChanges digest files seed noBase =
     foldl (\<lambda>(ds, ss) fc. let (ds', ss') = process_file digest noBase fc in (ds @ ds', ss @ ss')) (seed, []) files"

section \<open>Summary\<close>

record summary =
  FilesAnalyzed :: nat
  FilesWithDiagnostics :: nat
  FilesUnanalyzed :: nat
  ActiveSignals :: nat
  IntroducedSignals :: nat
  ExistingSignals :: nat
  ResolvedSignals :: nat
  BaselineSignals :: nat
  UnknownSignals :: nat

definition omitResolvedSignals :: "signal list \<Rightarrow> signal list" where
  "omitResolvedSignals signals = filter (\<lambda>s. \<not> sg_lifecycle s = ''resolved'') signals"

definition isProjectEdgeDiagnosticKind :: "string \<Rightarrow> bool" where
  "isProjectEdgeDiagnosticKind kind \<longleftrightarrow>
     trim_prefix ''base_'' kind \<in>
       {''project_import_unresolved'', ''project_import_non_literal'', ''project_external_imports_not_evaluated''}"

definition withoutProjectEdgeDiagnostics :: "diagnostic list \<Rightarrow> diagnostic list" where
  "withoutProjectEdgeDiagnostics ds = filter (\<lambda>d. \<not> isProjectEdgeDiagnosticKind (dg_kind d)) ds"

definition distinctDiagnosticPaths :: "diagnostic list \<Rightarrow> string list" where
  "distinctDiagnosticPaths ds = remdups (map dg_path (filter (\<lambda>d. dg_path d \<noteq> []) ds))"

definition countFilesWithDiagnostics :: "diagnostic list \<Rightarrow> nat" where
  "countFilesWithDiagnostics ds = length (distinctDiagnosticPaths ds)"

definition countUnanalyzedFiles :: "file_change list \<Rightarrow> diagnostic list \<Rightarrow> nat" where
  "countUnanalyzedFiles files ds =
     length (filter (\<lambda>p. \<not> list_ex (\<lambda>fc. fc_path fc \<noteq> [] \<and> fc_path fc = p) files)
       (distinctDiagnosticPaths (withoutProjectEdgeDiagnostics ds)))"

definition zero_summary :: summary where
  "zero_summary = \<lparr>FilesAnalyzed = 0, FilesWithDiagnostics = 0, FilesUnanalyzed = 0, ActiveSignals = 0,
     IntroducedSignals = 0, ExistingSignals = 0, ResolvedSignals = 0, BaselineSignals = 0, UnknownSignals = 0\<rparr>"

definition count_signal :: "summary \<Rightarrow> signal \<Rightarrow> summary" where
  "count_signal m s =
     (if sg_lifecycle s = ''introduced'' then m\<lparr>IntroducedSignals := IntroducedSignals m + 1\<rparr>
      else if sg_lifecycle s = ''existing'' then m\<lparr>ExistingSignals := ExistingSignals m + 1\<rparr>
      else if sg_lifecycle s = ''resolved'' then m\<lparr>ResolvedSignals := ResolvedSignals m + 1\<rparr>
      else if sg_lifecycle s = ''baseline'' then m\<lparr>BaselineSignals := BaselineSignals m + 1\<rparr>
      else if sg_lifecycle s = ''unknown'' then m\<lparr>UnknownSignals := UnknownSignals m + 1\<rparr>
      else m)"

definition finalizeSignals ::
  "signal list \<Rightarrow> nat \<Rightarrow> file_change list \<Rightarrow> diagnostic list \<Rightarrow> bool \<Rightarrow> signal list \<times> summary" where
  "finalizeSignals signals filesAnalyzed files ds includeResolved =
     (let counted = foldl count_signal
            (zero_summary\<lparr>FilesAnalyzed := filesAnalyzed, FilesWithDiagnostics := countFilesWithDiagnostics ds,
               FilesUnanalyzed := countUnanalyzedFiles files ds\<rparr>) signals;
          kept = (if includeResolved then signals else omitResolvedSignals signals);
          sorted = sortSignals kept
      in (sorted, counted\<lparr>ActiveSignals := length sorted\<rparr>))"

section \<open>Groups\<close>

lemma foldl_append: "foldl (\<lambda>result k. result @ f k) acc ks = acc @ concat (map f ks)"
  by (induction ks arbitrary: acc) auto

lemma group_of_update [simp]:
  "group_of (AList.update k g groups) k' = (if k' = k then g else group_of groups k')"
  by (simp add: group_of_def)

lemma group_of_fold:
  "group_of (foldl add_to_group groups xs) k = group_of groups k @ filter (\<lambda>s. keyOf s = k) xs"
  by (induction xs arbitrary: groups) (auto simp: add_to_group_def)

lemma keys_fold:
  "distinct (map fst groups) \<Longrightarrow> distinct (map fst (foldl add_to_group groups xs))
   \<and> set (map fst (foldl add_to_group groups xs)) = set (map fst groups) \<union> keyOf ` set xs"
  by (induction xs arbitrary: groups) (auto simp: add_to_group_def)

definition cmp_signal_position :: "signal \<Rightarrow> nat \<times> nat \<times> nat" where
  "cmp_signal_position s = (StartRow (sg_location s), StartCol (sg_location s), StartByte (sg_location s))"

lemma cmp_signal_location_le:
  "cmp_signal_location a b \<le> 0 \<longleftrightarrow> cmp_signal_position a \<le> cmp_signal_position b"
  by (auto simp: cmp_signal_location_def cmp_of_less_def signalLocationLess_def cmp_signal_position_def)

interpretation by_location: comparison cmp_signal_location
  by (rule comparison_by_key [OF cmp_signal_location_le])

text \<open>The group of a key: the signals with that key, ordered by position, stable.\<close>

lemma group_of_groups:
  "group_of (groupAndOrder xs) k = stable_sort cmp_signal_location (filter (\<lambda>s. keyOf s = k) xs)"
proof -
  let ?m = "foldl add_to_group [] xs"
  have "group_of (groupAndOrder xs) k = stable_sort cmp_signal_location (group_of ?m k)"
    unfolding group_of_def groupAndOrder_def map_of_map_value by (simp split: option.split)
  also have "group_of ?m k = filter (\<lambda>s. keyOf s = k) xs" unfolding group_of_fold by (simp add: group_of_def)
  finally show ?thesis .
qed

lemma mset_group: "mset (group_of (groupAndOrder xs) k) = mset (filter (\<lambda>s. keyOf s = k) xs)"
  by (simp add: group_of_groups)

lemma length_group: "length (group_of (groupAndOrder xs) k) = length (filter (\<lambda>s. keyOf s = k) xs)"
  by (simp add: group_of_groups)

lemma group_key: "s \<in> set (group_of (groupAndOrder xs) k) \<Longrightarrow> keyOf s = k \<and> s \<in> set xs"
  by (simp add: group_of_groups)

lemma sortedKeys_keys: "distinct (sortedKeys (groupAndOrder xs)) \<and> set (sortedKeys (groupAndOrder xs)) = keyOf ` set xs"
proof -
  have "distinct (map fst (groupAndOrder xs))" "set (map fst (groupAndOrder xs)) = keyOf ` set xs"
    using keys_fold [of "[]" xs] by (simp_all only: groupAndOrder_def map_fst_map_value) simp_all
  then show ?thesis unfolding sortedKeys_def
    by (metis mset_eq_imp_distinct_iff mset_stable_sort set_stable_sort)
qed

section \<open>Classification\<close>

definition heads_of :: "(string \<Rightarrow> string) \<Rightarrow> bool \<Rightarrow> string \<Rightarrow> signal list \<Rightarrow> signal list \<Rightarrow> signal_key \<Rightarrow> signal list" where
  "heads_of digest hasBase noBase hs bs k =
     classify_head_group digest hasBase noBase (length (group_of (groupAndOrder bs) k)) (group_of (groupAndOrder hs) k)"

definition resolved_of :: "(string \<Rightarrow> string) \<Rightarrow> signal list \<Rightarrow> signal list \<Rightarrow> signal_key \<Rightarrow> signal list" where
  "resolved_of digest hs bs k =
     appendResolvedBaseSignals digest [] (group_of (groupAndOrder bs) k) (group_of (groupAndOrder hs) k)"

lemma classify_concat:
  "classifyFileSignals digest hasBase hs bs noBase =
     concat (map (heads_of digest hasBase noBase hs bs) (sortedKeys (groupAndOrder hs)))
     @ concat (map (resolved_of digest hs bs) (sortedKeys (groupAndOrder bs)))"
  unfolding classifyFileSignals_def Let_def heads_of_def [abs_def] resolved_of_def [abs_def]
    appendResolvedBaseSignals_def foldl_append by simp

lemma identified_simps [simp]:
  "keyOf (identified digest i l s) = keyOf s" "sg_lifecycle (identified digest i l s) = l"
  "sg_location (identified digest i l s) = sg_location s" "sg_path (identified digest i l s) = sg_path s"
  "sg_rule (identified digest i l s) = sg_rule s"
  by (simp_all add: identified_def keyOf_def)

lemma keys_of_blocks:
  "s \<in> set (heads_of digest hasBase noBase hs bs k) \<Longrightarrow> keyOf s = k"
  "s \<in> set (resolved_of digest hs bs k) \<Longrightarrow> keyOf s = k"
  by (auto simp: heads_of_def classify_head_group_def resolved_of_def appendResolvedBaseSignals_def
      in_set_enumerate_eq set_zip enumerate_eq_zip dest!: group_key nth_mem)

lemma filter_concat_block:
  assumes "distinct ks" "\<And>k s. s \<in> set (f k) \<Longrightarrow> keyOf s = k" "k \<notin> set ks \<Longrightarrow> f k = []"
  shows "filter (\<lambda>s. keyOf s = k) (concat (map f ks)) = f k"
  using assms(1,3)
proof (induction ks)
  case Nil
  then show ?case by simp
next
  case (Cons k' ks)
  have block: "filter (\<lambda>s. keyOf s = k) (f k') = (if k' = k then f k else [])"
    using assms(2) [of _ k'] by (auto intro: filter_True filter_False)
  show ?case
  proof (cases "k' = k")
    case True
    have "filter (\<lambda>s. keyOf s = k) (concat (map f ks)) = []"
      using Cons.prems(1) True assms(2) by (auto simp: filter_empty_conv)
    then show ?thesis using block True by simp
  next
    case False
    then show ?thesis using Cons block by simp
  qed
qed

lemma classified_by_key:
  "filter (\<lambda>s. keyOf s = k) (classifyFileSignals digest hasBase hs bs noBase) =
     heads_of digest hasBase noBase hs bs k @ resolved_of digest hs bs k"
proof -
  have empty: "group_of (groupAndOrder xs) k = []" if "k \<notin> keyOf ` set xs" for xs
    using that unfolding group_of_groups by (metis (mono_tags, lifting) filter_False imageI stable_sort.simps(1))
  have "filter (\<lambda>s. keyOf s = k) (concat (map (heads_of digest hasBase noBase hs bs) (sortedKeys (groupAndOrder hs))))
      = heads_of digest hasBase noBase hs bs k"
    using sortedKeys_keys [of hs] empty [of hs] keys_of_blocks(1)
    by (intro filter_concat_block) (auto simp: heads_of_def classify_head_group_def)
  moreover have "filter (\<lambda>s. keyOf s = k) (concat (map (resolved_of digest hs bs) (sortedKeys (groupAndOrder bs))))
      = resolved_of digest hs bs k"
    using sortedKeys_keys [of bs] empty [of bs] keys_of_blocks(2)
    by (intro filter_concat_block) (auto simp: resolved_of_def appendResolvedBaseSignals_def)
  ultimately show ?thesis unfolding classify_concat by simp
qed

lemma map_fst_fun_enumerate: "map (\<lambda>(i, s). f i) (enumerate n xs) = map f [n..<n + length xs]"
proof (induction xs arbitrary: n)
  case Nil
  then show ?case by simp
next
  case (Cons x xs)
  then show ?case by (subst upt_conv_Cons) simp_all
qed

lemma filter_enumerate_ge:
  "filter (\<lambda>(i, s). m \<le> i) (enumerate n xs) = enumerate (max m n) (drop (m - n) xs)"
proof (induction xs arbitrary: n)
  case Nil
  then show ?case by simp
next
  case (Cons x xs)
  show ?case
  proof (cases "m \<le> n")
    case True
    have "filter (\<lambda>(i, s). m \<le> i) (enumerate n (x # xs)) = enumerate n (x # xs)"
      using True by (intro filter_True) (auto simp: in_set_enumerate_eq)
    then show ?thesis using True by (simp add: max_def)
  next
    case False
    then have "m - n = Suc (m - Suc n)" "max m n = max m (Suc n)" by auto
    then show ?thesis using Cons False by simp
  qed
qed

lemma resolved_of_enumerate:
  "resolved_of digest hs bs k =
     map (\<lambda>(i, s). identified digest i ''resolved'' s)
       (enumerate (length (group_of (groupAndOrder hs) k))
          (drop (length (group_of (groupAndOrder hs) k)) (group_of (groupAndOrder bs) k)))"
  unfolding resolved_of_def appendResolvedBaseSignals_def filter_enumerate_ge by simp

text \<open>What classification leaves of a signal as it was.\<close>

definition unclassified :: "signal \<Rightarrow> signal" where
  "unclassified s = s\<lparr>sg_id := [], sg_fingerprint := [], sg_lifecycle := []\<rparr>"

lemma unclassified_identified [simp]: "unclassified (identified digest i l s) = unclassified s"
  by (simp add: unclassified_def identified_def)

lemma map_unclassified_enumerate:
  "map unclassified (map (\<lambda>(i, s). identified digest i (f i) s) (enumerate n xs)) = map unclassified xs"
  by (induction xs arbitrary: n) auto

definition key_fields :: "signal_key \<Rightarrow> nat \<Rightarrow> string list" where
  "key_fields k i = (case k of (rule, path, subject, evidence) \<Rightarrow> [rule, path, subject, evidence, decimal i])"

definition key_fingerprint :: "(string \<Rightarrow> string) \<Rightarrow> signal_key \<Rightarrow> nat \<Rightarrow> string" where
  "key_fingerprint digest k i = ''fp_'' @ digest (encode_fields (key_fields k i))"

lemma fingerprint_identified: "sg_fingerprint (identified digest i l s) = key_fingerprint digest (keyOf s) i"
  by (simp add: identified_def computeFingerprint_def fingerprint_fields_def key_fingerprint_def key_fields_def keyOf_def)

lemma map_fingerprint_enumerate:
  "(\<And>s. s \<in> set xs \<Longrightarrow> keyOf s = k) \<Longrightarrow>
   map sg_fingerprint (map (\<lambda>(i, s). identified digest i (f i) s) (enumerate n xs))
     = map (key_fingerprint digest k) [n..<n + length xs]"
proof (induction xs arbitrary: n)
  case Nil
  then show ?case by simp
next
  case (Cons x xs)
  then show ?case by (subst upt_conv_Cons) (simp_all add: fingerprint_identified)
qed

lemma map_lifecycle_enumerate:
  "map sg_lifecycle (map (\<lambda>(i, s). identified digest i (f i) s) (enumerate n xs)) = map f [n..<n + length xs]"
  by (simp add: case_prod_beta' flip: map_fst_fun_enumerate)

lemma map_upt_split: "map (\<lambda>i. if i < m then a else b) [0..<n] = replicate (min n m) a @ replicate (n - m) b"
proof (induction n)
  case 0
  then show ?case by simp
next
  case (Suc n)
  then show ?case
    by (cases "n < m") (simp_all add: min_def Suc_diff_le replicate_append_same flip: replicate_Suc)
qed

definition occurrences :: "signal_key \<Rightarrow> signal list \<Rightarrow> nat" where
  "occurrences k ss = length (filter (\<lambda>s. keyOf s = k) ss)"

definition expected_lifecycles :: "bool \<Rightarrow> string \<Rightarrow> nat \<Rightarrow> nat \<Rightarrow> string list" where
  "expected_lifecycles hasBase noBase nh nb =
     (if hasBase
      then replicate (min nh nb) ''existing'' @ replicate (nh - nb) (if nb = 0 then ''introduced'' else ''unknown'')
      else replicate nh noBase)
     @ replicate (nb - nh) ''resolved''"

lemma head_lifecycles:
  "map (head_lifecycle hasBase noBase nb) [0..<nh] =
     (if hasBase
      then replicate (min nh nb) ''existing'' @ replicate (nh - nb) (if nb = 0 then ''introduced'' else ''unknown'')
      else replicate nh noBase)"
proof (cases hasBase)
  case True
  have "map (head_lifecycle True noBase nb) [0..<nh] =
      map (\<lambda>i. if i < nb then ''existing'' else if nb = 0 then ''introduced'' else ''unknown'') [0..<nh]"
    by (intro map_cong) (auto simp: head_lifecycle_def)
  then show ?thesis using True unfolding map_upt_split by simp
next
  case False
  then show ?thesis by (simp add: head_lifecycle_def [abs_def] map_replicate_const)
qed

lemma classified_lifecycles:
  "map sg_lifecycle (filter (\<lambda>s. keyOf s = k) (classifyFileSignals digest hasBase hs bs noBase))
     = expected_lifecycles hasBase noBase (occurrences k hs) (occurrences k bs)"
  unfolding classified_by_key map_append heads_of_def classify_head_group_def map_lifecycle_enumerate
    resolved_of_enumerate length_drop length_group occurrences_def expected_lifecycles_def head_lifecycles [symmetric]
  by (simp add: map_replicate_const)

lemma classified_content:
  "map unclassified (filter (\<lambda>s. keyOf s = k) (classifyFileSignals digest hasBase hs bs noBase))
     = map unclassified (stable_sort cmp_signal_location (filter (\<lambda>s. keyOf s = k) hs)
         @ drop (occurrences k hs) (stable_sort cmp_signal_location (filter (\<lambda>s. keyOf s = k) bs)))"
  unfolding classified_by_key map_append heads_of_def classify_head_group_def resolved_of_enumerate
    map_unclassified_enumerate length_group occurrences_def [symmetric]
  by (simp add: group_of_groups)

lemma classified_fingerprints:
  "map sg_fingerprint (filter (\<lambda>s. keyOf s = k) (classifyFileSignals digest hasBase hs bs noBase))
     = map (key_fingerprint digest k) [0..<max (occurrences k hs) (occurrences k bs)]"
proof -
  let ?h = "group_of (groupAndOrder hs) k" and ?b = "group_of (groupAndOrder bs) k"
  have h: "map sg_fingerprint (heads_of digest hasBase noBase hs bs k) = map (key_fingerprint digest k) [0..<length ?h]"
    unfolding heads_of_def classify_head_group_def
    by (subst map_fingerprint_enumerate [where k = k]) (auto dest: group_key)
  have b: "map sg_fingerprint (resolved_of digest hs bs k)
      = map (key_fingerprint digest k) [length ?h..<length ?h + (length ?b - length ?h)]"
    unfolding resolved_of_enumerate
    by (subst map_fingerprint_enumerate [where k = k]) (auto dest!: in_set_dropD group_key)
  have "[0..<length ?h] @ [length ?h..<length ?h + (length ?b - length ?h)] = [0..<max (length ?h) (length ?b)]"
    by (simp add: max_def flip: upt_add_eq_append [OF le0])
  then show ?thesis unfolding classified_by_key map_append h b
    by (simp only: length_group occurrences_def flip: map_append)
qed

text \<open>C22. Lifecycles are assigned by counting occurrences. For each key (rule, path, subject, evidence)
  the classified signals are the head's signals in order of position followed by the base's signals beyond
  the head's number; with a base, as many head signals as the base has occurrences are existing and the
  rest are introduced when the base has none and unknown otherwise; without one they all get the given
  lifecycle; and exactly the base's surplus is resolved.\<close>

theorem lifecycle_classification_is_exact:
  "map sg_lifecycle (filter (\<lambda>s. keyOf s = k) (classifyFileSignals digest hasBase hs bs noBase))
     = expected_lifecycles hasBase noBase (occurrences k hs) (occurrences k bs)
   \<and> map unclassified (filter (\<lambda>s. keyOf s = k) (classifyFileSignals digest hasBase hs bs noBase))
     = map unclassified (stable_sort cmp_signal_location (filter (\<lambda>s. keyOf s = k) hs)
         @ drop (occurrences k hs) (stable_sort cmp_signal_location (filter (\<lambda>s. keyOf s = k) bs)))"
  by (simp only: classified_lifecycles classified_content)

lemma classified_from:
  assumes "s \<in> set (classifyFileSignals digest hasBase hs bs noBase)"
  shows "\<exists>t \<in> set hs \<union> set bs. unclassified s = unclassified t \<and> keyOf s = keyOf t"
    and "sg_lifecycle s \<in> {''introduced'', ''existing'', ''unknown'', ''resolved'', noBase}"
    and "\<exists>i < length hs + length bs. sg_fingerprint s = key_fingerprint digest (keyOf s) i"
proof -
  let ?k = "keyOf s"
  let ?r = "filter (\<lambda>x. keyOf x = ?k) (classifyFileSignals digest hasBase hs bs noBase)"
  have s: "s \<in> set ?r" using assms by simp
  then have "unclassified s \<in> set (map unclassified ?r)" by simp
  then obtain t where t: "unclassified s = unclassified t" "t \<in> set (stable_sort cmp_signal_location (filter (\<lambda>x. keyOf x = ?k) hs)
         @ drop (occurrences ?k hs) (stable_sort cmp_signal_location (filter (\<lambda>x. keyOf x = ?k) bs)))"
    unfolding classified_content set_map by (rule imageE)
  have "t \<in> set hs \<union> set bs" using t(2) by (auto dest: in_set_dropD)
  note t = this t(1)
  have "keyOf (unclassified x) = keyOf x" for x by (simp add: unclassified_def keyOf_def)
  then show "\<exists>t \<in> set hs \<union> set bs. unclassified s = unclassified t \<and> keyOf s = keyOf t" using t by metis
  have "sg_lifecycle s \<in> set (map sg_lifecycle ?r)" using s by simp
  then show "sg_lifecycle s \<in> {''introduced'', ''existing'', ''unknown'', ''resolved'', noBase}"
    unfolding classified_lifecycles expected_lifecycles_def by (auto split: if_splits)
  have "sg_fingerprint s \<in> set (map sg_fingerprint ?r)" using s by simp
  then obtain i where i: "i < max (occurrences ?k hs) (occurrences ?k bs)" "sg_fingerprint s = key_fingerprint digest ?k i"
    unfolding classified_fingerprints by auto
  moreover have "occurrences ?k hs \<le> length hs" "occurrences ?k bs \<le> length bs" by (simp_all add: occurrences_def)
  ultimately show "\<exists>i < length hs + length bs. sg_fingerprint s = key_fingerprint digest ?k i"
    by (intro exI [of _ i]) auto
qed

lemma distinct_by_groups:
  assumes "\<And>k. distinct (map f (filter (\<lambda>x. g x = k) xs))"
    and "\<And>x y. x \<in> set xs \<Longrightarrow> y \<in> set xs \<Longrightarrow> f x = f y \<Longrightarrow> g x = g y"
  shows "distinct (map f xs)"
  using assms
proof (induction xs)
  case Nil
  then show ?case by simp
next
  case (Cons x xs)
  have "distinct (map f (filter (\<lambda>y. g y = k) xs))" for k
    using Cons.prems(1) [of k] by (simp split: if_splits)
  then have "distinct (map f xs)" using Cons.prems(2) by (intro Cons.IH) auto
  moreover have "f x \<notin> f ` set xs"
  proof
    assume "f x \<in> f ` set xs"
    then obtain y where y: "y \<in> set xs" "f y = f x" by force
    then have "g y = g x" using Cons.prems(2) by simp
    then show False using Cons.prems(1) [of "g x"] y by (auto simp: image_iff)
  qed
  ultimately show ?case by simp
qed

lemma length_decimal: "length (decimal n) \<le> Suc n"
proof (induction n rule: decimal.induct)
  case (1 n)
  show ?case
  proof (cases "n < 10")
    case True
    then show ?thesis by (simp add: decimal_small)
  next
    case False
    then have "length (decimal n) \<le> Suc (n div 10) + 1" using 1 by (simp add: decimal_big)
    also have "\<dots> \<le> Suc n" using False by (simp add: Suc_leI)
    finally show ?thesis .
  qed
qed

text \<open>The preimages hashed for the keys of a file: the digest must not collide on them.\<close>

definition file_preimages :: "signal list \<Rightarrow> signal list \<Rightarrow> string set" where
  "file_preimages hs bs =
     {encode_fields (key_fields k i) | k i. k \<in> keyOf ` (set hs \<union> set bs) \<and> i < length hs + length bs}"

definition short_key :: "signal_key \<Rightarrow> bool" where
  "short_key k = (case k of (rule, path, subject, evidence) \<Rightarrow>
     length rule < 2 ^ 32 \<and> length path < 2 ^ 32 \<and> length subject < 2 ^ 32 \<and> length evidence < 2 ^ 32)"

lemma key_fields_inject: "key_fields k i = key_fields k' i' \<longleftrightarrow> k = k' \<and> i = i'"
  by (auto simp: key_fields_def split: prod.splits)

lemma key_fingerprint_inject:
  assumes digest: "inj_on digest (file_preimages hs bs)"
    and k: "k \<in> keyOf ` (set hs \<union> set bs)" "short_key k" "i < length hs + length bs"
    and k': "k' \<in> keyOf ` (set hs \<union> set bs)" "short_key k'" "i' < length hs + length bs"
    and small: "length hs + length bs < 2 ^ 32"
    and eq: "key_fingerprint digest k i = key_fingerprint digest k' i'"
  shows "k = k' \<and> i = i'"
proof -
  have "encode_fields (key_fields k i) \<in> file_preimages hs bs" "encode_fields (key_fields k' i') \<in> file_preimages hs bs"
    using k k' unfolding file_preimages_def by blast+
  then have e: "encode_fields (key_fields k i) = encode_fields (key_fields k' i')"
    using eq digest by (simp add: key_fingerprint_def inj_on_eq_iff)
  have short: "\<forall>f \<in> set (key_fields k i). length f < 2 ^ 32" if "short_key k" "i < length hs + length bs" for k i
  proof -
    have "length (decimal i) < 2 ^ 32" using length_decimal [of i] that(2) small by linarith
    then show ?thesis using that(1) by (auto simp: key_fields_def short_key_def split: prod.splits)
  qed
  have "key_fields k i = key_fields k' i'"
    using encode_fields_inject [OF _ e] short [OF k(2,3)] short [OF k'(2,3)] by blast
  then show ?thesis by (simp only: key_fields_inject)
qed

text \<open>Fingerprints are stable and unique. The fingerprints of a key's signals depend only on the key
  and the occurrence number (so they survive line moves, and the i-th occurrence in the base and in the
  head share one), and unless the digest collides all fingerprints of a file are distinct, resolved
  signals included.\<close>

theorem fingerprints_are_stable_and_unique:
  "map sg_fingerprint (filter (\<lambda>s. keyOf s = k) (classifyFileSignals digest hasBase hs bs noBase))
     = map (key_fingerprint digest k) [0..<max (occurrences k hs) (occurrences k bs)]
   \<and> (inj_on digest (file_preimages hs bs) \<and> (\<forall>s \<in> set hs \<union> set bs. short_key (keyOf s))
        \<and> length hs + length bs < 2 ^ 32 \<longrightarrow>
      distinct (map sg_fingerprint (classifyFileSignals digest hasBase hs bs noBase)))"
proof (intro conjI impI)
  show "map sg_fingerprint (filter (\<lambda>s. keyOf s = k) (classifyFileSignals digest hasBase hs bs noBase))
     = map (key_fingerprint digest k) [0..<max (occurrences k hs) (occurrences k bs)]" for k
    by (rule classified_fingerprints)
  assume a: "inj_on digest (file_preimages hs bs) \<and> (\<forall>s \<in> set hs \<union> set bs. short_key (keyOf s))
    \<and> length hs + length bs < 2 ^ 32"
  let ?r = "classifyFileSignals digest hasBase hs bs noBase"
  have inj: "k = k' \<and> i = i'"
    if "key_fingerprint digest k i = key_fingerprint digest k' i'" "k \<in> keyOf ` (set hs \<union> set bs)"
      "k' \<in> keyOf ` (set hs \<union> set bs)" "i < length hs + length bs" "i' < length hs + length bs" for k k' i i'
    using key_fingerprint_inject [of digest hs bs k i k' i'] a that by blast
  have key: "keyOf s \<in> keyOf ` (set hs \<union> set bs)" if s: "s \<in> set ?r" for s
  proof -
    obtain t where "t \<in> set hs \<union> set bs" "keyOf s = keyOf t" using classified_from(1) [OF s] by blast
    then show ?thesis by (intro image_eqI)
  qed
  have "distinct (map sg_fingerprint (filter (\<lambda>x. keyOf x = k) ?r))" for k
  proof (cases "filter (\<lambda>x. keyOf x = k) ?r = []")
    case False
    then obtain s where "s \<in> set ?r" "keyOf s = k" unfolding filter_empty_conv by blast
    then have k: "k \<in> keyOf ` (set hs \<union> set bs)" using key by blast
    have "occurrences k hs \<le> length hs" "occurrences k bs \<le> length bs" by (simp_all add: occurrences_def)
    then have n: "max (occurrences k hs) (occurrences k bs) \<le> length hs + length bs" by linarith
    have "inj_on (key_fingerprint digest k) {0..<max (occurrences k hs) (occurrences k bs)}"
    proof (rule inj_onI)
      fix i j
      assume "i \<in> {0..<max (occurrences k hs) (occurrences k bs)}" "j \<in> {0..<max (occurrences k hs) (occurrences k bs)}"
        and eq: "key_fingerprint digest k i = key_fingerprint digest k j"
      then have "i < length hs + length bs" "j < length hs + length bs" 
        using n by (auto elim: less_le_trans)
      then show "i = j" using inj [OF eq k k] by blast
    qed
    then show ?thesis unfolding classified_fingerprints by (simp add: distinct_map)
  qed simp
  moreover have "keyOf s = keyOf t" if st: "s \<in> set ?r" "t \<in> set ?r" "sg_fingerprint s = sg_fingerprint t" for s t
  proof -
    obtain i j where "i < length hs + length bs" "sg_fingerprint s = key_fingerprint digest (keyOf s) i"
      "j < length hs + length bs" "sg_fingerprint t = key_fingerprint digest (keyOf t) j"
      using classified_from(3) [OF st(1)] classified_from(3) [OF st(2)] by blast
    then show ?thesis using inj key st by metis
  qed
  ultimately show "distinct (map sg_fingerprint ?r)" by (rule distinct_by_groups)
qed

definition keyed_sample :: "string \<Rightarrow> nat \<Rightarrow> signal" where
  "keyed_sample subject row =
     zero_signal\<lparr>sg_rule := ''structure.constructor_density'', sg_subject := subject, sg_location := zero_location\<lparr>StartRow := row\<rparr>\<rparr>"

lemma keyOf_sample: "keyOf (keyed_sample subject row) = (''structure.constructor_density'', [], subject, [])"
  by (simp add: keyed_sample_def keyOf_def zero_signal_def normalizePath_def replace_char_def trim_left_char_def
      trim_prefix_def has_prefix_def normalizeEvidence_def trim_space_def trim_runes.simps [of _ "[]"] Let_def)

lemma fingerprints_are_stable_and_unique_witness:
  "distinct (map sg_fingerprint (classifyFileSignals id True [keyed_sample ''New'' 3, keyed_sample ''New'' 9]
     [keyed_sample ''New'' 5, keyed_sample ''Old'' 1] ''unknown''))"
proof (rule fingerprints_are_stable_and_unique [THEN conjunct2, THEN mp], intro conjI)
  show "\<forall>s \<in> set [keyed_sample ''New'' 3, keyed_sample ''New'' 9] \<union> set [keyed_sample ''New'' 5, keyed_sample ''Old'' 1].
      short_key (keyOf s)"
    by (simp add: keyOf_sample short_key_def)
qed simp_all

section \<open>Signals of a run\<close>

lemma signals_of_result_typed: "s \<in> set (signals_of_result path r) \<Longrightarrow> well_typed_signal path s"
  unfolding signals_of_result_def by (auto intro: signals_from_findings_typed signals_from_others_typed)

lemma head_signals_typed: "s \<in> set (snd (processHeadResult fc)) \<Longrightarrow> well_typed_signal (fc_path fc) s"
  unfolding processHeadResult_def by (auto split: option.splits if_splits intro: signals_of_result_typed)

lemma base_signals_typed: "s \<in> set (extractBaseSignals fc) \<Longrightarrow> well_typed_signal (fc_path fc) s"
  unfolding extractBaseSignals_def by (auto split: option.splits if_splits intro: signals_of_result_typed)

text \<open>A signal as its rule made it: without what processing the file change adds.\<close>

definition rule_signal :: "signal \<Rightarrow> signal" where
  "rule_signal s = (unclassified s)\<lparr>sg_changed := False, sg_source_scope := []\<rparr>"

lemma rule_signal_typed: "well_typed_signal path s \<Longrightarrow> rule_signal s = s"
  by (simp add: well_typed_signal_def rule_signal_def unclassified_def)

lemma rule_signal_cong: "unclassified s = unclassified t \<Longrightarrow> rule_signal s = rule_signal t"
  by (simp add: rule_signal_def)

lemma mark_signal_simps [simp]:
  "sg_lifecycle (mark_signal rs s) = sg_lifecycle s" "sg_location (mark_signal rs s) = sg_location s"
  "sg_source_scope (mark_signal rs s) = sg_source_scope s" "sg_fingerprint (mark_signal rs s) = sg_fingerprint s"
  "rule_signal (mark_signal rs s) = rule_signal s" "keyOf (mark_signal rs s) = keyOf s"
  by (simp_all add: mark_signal_def rule_signal_def unclassified_def keyOf_def)

lemma scope_update_simps [simp]:
  "rule_signal (s\<lparr>sg_source_scope := x\<rparr>) = rule_signal s" "keyOf (s\<lparr>sg_source_scope := x\<rparr>) = keyOf s"
  by (simp_all add: rule_signal_def unclassified_def keyOf_def)

definition row_overlap :: "location \<Rightarrow> line_range \<Rightarrow> bool" where
  "row_overlap loc r \<longleftrightarrow> lr_start r \<le> lr_end r \<and> StartRow loc \<le> lr_end r \<and> lr_start r \<le> EndRow loc"

lemma mark_signal_changed:
  "sg_changed (mark_signal (snd (validateChangedRanges fc)) s)
     \<longleftrightarrow> sg_lifecycle s \<noteq> ''resolved'' \<and> (\<exists>r \<in> set (fc_ranges fc). row_overlap (sg_location s) r)"
  by (auto simp: mark_signal_def validateChangedRanges_def overlapsAny_def list_ex_iff row_overlap_def not_less)

text \<open>What holds of every signal the file changes give.\<close>

definition signal_of_change :: "string \<Rightarrow> file_change \<Rightarrow> signal \<Rightarrow> bool" where
  "signal_of_change noBase fc s \<longleftrightarrow>
     eligibleForLifecycleClassification fc \<and> well_typed_signal (fc_path fc) (rule_signal s)
     \<and> sg_source_scope s = fc_source_scope fc
     \<and> sg_lifecycle s \<in> {''introduced'', ''existing'', ''unknown'', ''resolved'', noBase}
     \<and> (sg_changed s \<longleftrightarrow> sg_lifecycle s \<noteq> ''resolved'' \<and> (\<exists>r \<in> set (fc_ranges fc). row_overlap (sg_location s) r))"

lemma noBase_for_file: "noBaseLifecycleForFile fc noBase \<in> {''introduced'', noBase}"
  by (simp add: noBaseLifecycleForFile_def)

lemma process_file_signals:
  "snd (process_file digest noBase fc) =
     (if eligibleForLifecycleClassification fc
      then map (\<lambda>s. mark_signal (snd (validateChangedRanges fc)) (s\<lparr>sg_source_scope := fc_source_scope fc\<rparr>))
             (classifyFileSignals digest (baseUsableForLifecycle fc) (snd (processHeadResult fc)) (extractBaseSignals fc)
                (noBaseLifecycleForFile fc noBase))
      else [])"
  unfolding process_file_def Let_def markChanged_def by (simp split: prod.splits)

lemma process_file_typed:
  assumes "s \<in> set (snd (process_file digest noBase fc))"
  shows "signal_of_change noBase fc s"
proof -
  let ?nb = "noBaseLifecycleForFile fc noBase"
  have e: "eligibleForLifecycleClassification fc" using assms unfolding process_file_signals by (auto split: if_splits)
  obtain c where c: "c \<in> set (classifyFileSignals digest (baseUsableForLifecycle fc) (snd (processHeadResult fc)) (extractBaseSignals fc) ?nb)"
    and s: "s = mark_signal (snd (validateChangedRanges fc)) (c\<lparr>sg_source_scope := fc_source_scope fc\<rparr>)"
    using assms unfolding process_file_signals by (auto split: if_splits)
  obtain t where t: "t \<in> set (snd (processHeadResult fc)) \<union> set (extractBaseSignals fc)" "unclassified c = unclassified t"
    using classified_from(1) [OF c] by blast
  have "well_typed_signal (fc_path fc) t" using t(1) head_signals_typed base_signals_typed by blast
  then have typed: "well_typed_signal (fc_path fc) (rule_signal c)" using rule_signal_typed rule_signal_cong [OF t(2)] by metis
  have life: "sg_lifecycle c \<in> {''introduced'', ''existing'', ''unknown'', ''resolved'', noBase}"
    using classified_from(2) [OF c] noBase_for_file [of fc noBase] by auto
  show ?thesis
    unfolding signal_of_change_def s mark_signal_changed using e typed life by simp
qed

lemma processFileChanges_signals:
  "snd (processFileChanges digest files seed noBase) = concat (map (\<lambda>fc. snd (process_file digest noBase fc)) files)"
proof -
  have "snd (foldl (\<lambda>(ds, ss) fc. let (ds', ss') = process_file digest noBase fc in (ds @ ds', ss @ ss')) (ds, ss) files)
      = ss @ concat (map (\<lambda>fc. snd (process_file digest noBase fc)) files)" for ds ss
    by (induction files arbitrary: ds ss) (auto split: prod.splits)
  then show ?thesis by (simp add: processFileChanges_def)
qed

text \<open>C38. Every signal of the file changes is well typed: it stands for one eligible file change, carries
  that file's path and source scope, a known rule, severity, confidence and lifecycle, and it is marked
  changed exactly when it is not resolved and its rows meet a well-formed changed range of that file.\<close>

theorem processed_signals_are_well_typed:
  "list_all (\<lambda>s. list_ex (\<lambda>fc. signal_of_change noBase fc s) files) (snd (processFileChanges digest files seed noBase))"
  unfolding processFileChanges_signals list_all_iff list_ex_iff by (auto dest: process_file_typed)

text \<open>
  A base that did not parse still counts as a base: its file's head signals are all
  introduced (the command line never passes such a base).
\<close>

lemma unparsed_base_introduces:
  assumes "fc_base fc = Some r" "re_path r = []" "ParseStatus r = ''syntax_errors''"
    and "s \<in> set (snd (process_file digest noBase fc))"
  shows "sg_lifecycle s = ''introduced''"
proof -
  have u: "baseUsableForLifecycle fc" "extractBaseSignals fc = []"
    using assms(1-3) by (simp_all add: baseUsableForLifecycle_def extractBaseSignals_def)
  obtain c where c: "c \<in> set (classifyFileSignals digest True (snd (processHeadResult fc)) [] (noBaseLifecycleForFile fc noBase))"
    and s: "sg_lifecycle s = sg_lifecycle c"
    using assms(4) u unfolding process_file_signals by (auto split: if_splits)
  have "sg_lifecycle c \<in> set (map sg_lifecycle (filter (\<lambda>x. keyOf x = keyOf c)
      (classifyFileSignals digest True (snd (processHeadResult fc)) [] (noBaseLifecycleForFile fc noBase))))"
    using c by simp
  then show ?thesis unfolding classified_lifecycles s by (simp add: expected_lifecycles_def occurrences_def)
qed

section \<open>The summary\<close>

definition lifecycle_count :: "string \<Rightarrow> signal list \<Rightarrow> nat" where
  "lifecycle_count l ss = length (filter (\<lambda>s. sg_lifecycle s = l) ss)"

lemma lifecycle_count_Cons [simp]:
  "lifecycle_count l [] = 0"
  "lifecycle_count l (s # ss) = (if sg_lifecycle s = l then 1 else 0) + lifecycle_count l ss"
  by (simp_all add: lifecycle_count_def)

lemma count_signals_fold:
  "IntroducedSignals (foldl count_signal m ss) = IntroducedSignals m + lifecycle_count ''introduced'' ss
   \<and> ExistingSignals (foldl count_signal m ss) = ExistingSignals m + lifecycle_count ''existing'' ss
   \<and> ResolvedSignals (foldl count_signal m ss) = ResolvedSignals m + lifecycle_count ''resolved'' ss
   \<and> BaselineSignals (foldl count_signal m ss) = BaselineSignals m + lifecycle_count ''baseline'' ss
   \<and> UnknownSignals (foldl count_signal m ss) = UnknownSignals m + lifecycle_count ''unknown'' ss
   \<and> FilesAnalyzed (foldl count_signal m ss) = FilesAnalyzed m
   \<and> FilesUnanalyzed (foldl count_signal m ss) = FilesUnanalyzed m
   \<and> FilesWithDiagnostics (foldl count_signal m ss) = FilesWithDiagnostics m"
  by (induction ss arbitrary: m) (auto simp: count_signal_def)

definition known_lifecycles :: "string list" where
  "known_lifecycles = [''introduced'', ''existing'', ''resolved'', ''baseline'', ''unknown'']"

lemma lifecycle_total:
  "list_all (\<lambda>s. sg_lifecycle s \<in> set known_lifecycles) ss \<Longrightarrow>
   length ss = lifecycle_count ''introduced'' ss + lifecycle_count ''existing'' ss + lifecycle_count ''resolved'' ss
     + lifecycle_count ''baseline'' ss + lifecycle_count ''unknown'' ss"
  by (induction ss) (auto simp: known_lifecycles_def)

lemma length_omit: "length (omitResolvedSignals ss) + lifecycle_count ''resolved'' ss = length ss"
  unfolding omitResolvedSignals_def lifecycle_count_def using sum_length_filter_compl [of "\<lambda>s. sg_lifecycle s = ''resolved''" ss]
  by simp

lemma mset_sortSignals [simp]: "mset (sortSignals ss) = mset ss"
  by (simp add: sortSignals_def rank_tiers(1))

lemma length_sortSignals [simp]: "length (sortSignals ss) = length ss"
  by (metis mset_sortSignals size_mset)

lemma set_sortSignals [simp]: "set (sortSignals ss) = set ss"
  by (metis mset_sortSignals set_mset_mset)

lemma finalize_summary:
  assumes "finalizeSignals ss n files ds inc = (out, m)"
  shows "mset out = mset (if inc then ss else omitResolvedSignals ss)" "ActiveSignals m = length out"
    and "IntroducedSignals m = lifecycle_count ''introduced'' ss" "ExistingSignals m = lifecycle_count ''existing'' ss"
    and "ResolvedSignals m = lifecycle_count ''resolved'' ss" "BaselineSignals m = lifecycle_count ''baseline'' ss"
    and "UnknownSignals m = lifecycle_count ''unknown'' ss" "FilesAnalyzed m = n"
  using assms count_signals_fold [of "zero_summary\<lparr>FilesAnalyzed := n, FilesWithDiagnostics := countFilesWithDiagnostics ds,
       FilesUnanalyzed := countUnanalyzedFiles files ds\<rparr>" ss]
  by (auto simp: finalizeSignals_def Let_def zero_summary_def)

lemma finalize_active:
  assumes "finalizeSignals ss n files ds inc = (out, m)" "list_all (\<lambda>s. sg_lifecycle s \<in> set known_lifecycles) ss"
  shows "ActiveSignals m + (if inc then 0 else ResolvedSignals m) =
     IntroducedSignals m + ExistingSignals m + ResolvedSignals m + BaselineSignals m + UnknownSignals m"
proof -
  have "length out = length (if inc then ss else omitResolvedSignals ss)"
    using finalize_summary(1) [OF assms(1)] by (metis size_mset)
  then show ?thesis
    using finalize_summary(2-7) [OF assms(1)] lifecycle_total [OF assms(2)] length_omit [of ss] by auto
qed

end
