(* ===== verification/ProjectChanges.thy ===== *)
theory ProjectChanges
  imports SignalLifecycle CallGraph
begin

text \<open>
  Project-level observations of pkg/codesignal: changes, facts, coverage, the lifecycle of
  changes between two revisions, rename continuity, and the orders of the report's project
  sections (project_report.go, project_lifecycle.go, project_lifecycle_state.go,
  project_continuity.go, project_order.go, project_fact_order.go, project_path_step_order.go,
  string_slice_order.go, project_fingerprint.go, project_model_coverage_diagnostics.go).

  Go's nil and empty slices are one empty list.  A set of paths is a list without duplicates.
  A coverage's maps are association lists.
\<close>

section \<open>Data\<close>

record domain_diagnostic =
  dd_code :: string
  dd_message :: string
  dd_path :: string

record coverage =
  cv_phase :: string
  cv_complete :: bool
  cv_counts :: "(string \<times> int) list"
  cv_budgets :: "(string \<times> int) list"
  cv_diagnostics :: "domain_diagnostic list"

record project_change =
  pc_key :: string
  pc_id :: string
  pc_fingerprint :: string
  pc_rule :: string
  pc_rule_version :: string
  pc_backend_version :: string
  pc_algorithm_version :: string
  pc_config_digest :: string
  pc_kind :: string
  pc_category :: string
  pc_severity :: string
  pc_confidence :: string
  pc_lifecycle :: string
  pc_changed :: bool
  pc_causal_digest :: string
  pc_anchor :: project_location
  pc_related :: "project_location list"
  pc_steps :: "project_path_step list"
  pc_coverage_refs :: "string list"
  pc_evidence :: string
  pc_machine_evidence :: "(string \<times> string) list"
  pc_why :: string
  pc_recommendation :: string
  pc_skill :: string
  pc_provenance :: provenance

record project_fact =
  pf_kind :: string
  pf_key :: string
  pf_steps :: "project_path_step list"
  pf_coverage_refs :: "string list"
  pf_evidence :: string
  pf_provenance :: provenance

record project_summary =
  ActiveChanges :: nat
  IntroducedChanges :: nat
  ExistingChanges :: nat
  ResolvedChanges :: nat
  BaselineChanges :: nat

record path_continuity =
  ct_path :: string
  ct_previous :: string

section \<open>Rename continuity\<close>

record undetermined_continuity =
  uc_head :: "string list"
  uc_base :: "string list"

definition add_pair :: "undetermined_continuity \<Rightarrow> path_continuity \<Rightarrow> undetermined_continuity" where
  "add_pair c p =
     \<lparr>uc_head = (if ct_path p \<noteq> [] then List.insert (ct_path p) (uc_head c) else uc_head c),
      uc_base = (if ct_previous p \<noteq> [] then List.insert (ct_previous p) (uc_base c) else uc_base c)\<rparr>"

definition newUndeterminedContinuity :: "path_continuity list \<Rightarrow> undetermined_continuity" where
  "newUndeterminedContinuity pairs = foldl add_pair \<lparr>uc_head = [], uc_base = []\<rparr> pairs"

definition projectChangeLocationPaths :: "project_change \<Rightarrow> string list" where
  "projectChangeLocationPaths c =
     pl_path (pc_anchor c) # map pl_path (pc_related c) @ concat (map (\<lambda>s. map pl_path (st_locations s)) (pc_steps c))"

definition machine_value :: "project_change \<Rightarrow> string \<Rightarrow> string" where
  "machine_value c k = (case map_of (pc_machine_evidence c) k of None \<Rightarrow> [] | Some v \<Rightarrow> v)"

definition projectChangeIdentityPaths :: "project_change \<Rightarrow> string list" where
  "projectChangeIdentityPaths c =
     filter (\<lambda>p. p \<noteq> []) (map (machine_value c) [''importer'', ''importee''])"

definition sortedPaths :: "string list \<Rightarrow> string list" where
  "sortedPaths paths = sort_strings paths"

definition identity_touches :: "string list \<Rightarrow> string \<Rightarrow> bool" where
  "identity_touches identities p = list_ex (\<lambda>identity. identity = p \<or> identity = path_dir p) identities"

definition firstMovedPathTouchedBy :: "project_change \<Rightarrow> string list \<Rightarrow> string option" where
  "firstMovedPathTouchedBy c moved =
     (if moved = [] then None
      else case find (\<lambda>p. p \<in> set moved) (projectChangeLocationPaths c) of
             Some p \<Rightarrow> Some p
           | None \<Rightarrow>
               (let identities = projectChangeIdentityPaths c in
                if identities = [] then None else find (identity_touches identities) (sortedPaths moved)))"

definition headPath :: "undetermined_continuity \<Rightarrow> project_change \<Rightarrow> string option" where
  "headPath u c = firstMovedPathTouchedBy c (uc_head u)"

definition basePath :: "undetermined_continuity \<Rightarrow> project_change \<Rightarrow> string option" where
  "basePath u c = firstMovedPathTouchedBy c (uc_base u)"

section \<open>Indeterminacy\<close>

record indeterminacy =
  headIncomplete :: bool
  baseIncomplete :: bool
  inconsistentBase :: bool
  headRevision :: string
  baseRevision :: string

definition any_indeterminacy :: "indeterminacy \<Rightarrow> bool" where
  "any_indeterminacy s \<longleftrightarrow> headIncomplete s \<or> baseIncomplete s \<or> inconsistentBase s"

definition sideRevisionLabel :: "string \<Rightarrow> string \<Rightarrow> string" where
  "sideRevisionLabel side revision = (if revision = [] then side @ '' revision'' else side @ '' revision '' @ revision)"

definition DiagKindProjectChangeLifecycleIndeterminate :: string where
  "DiagKindProjectChangeLifecycleIndeterminate = ''project_change_lifecycle_indeterminate''"

definition DiagKindProjectCoverageIncomplete :: string where
  "DiagKindProjectCoverageIncomplete = ''project_coverage_incomplete''"

definition DiagKindProjectLifecycleIndeterminate :: string where
  "DiagKindProjectLifecycleIndeterminate = ''project_lifecycle_indeterminate''"

definition DiagRootScopeIncomplete :: string where
  "DiagRootScopeIncomplete = ''project_root_scope_incomplete''"

definition DiagBackendUnavailable :: string where
  "DiagBackendUnavailable = ''project_backend_unavailable''"

definition unknown_lifecycle_prefix :: string where
  "unknown_lifecycle_prefix = ''project change lifecycle is '' @ quoted ''unknown'' @ '': ''"

definition degraded_diagnostic :: "string \<Rightarrow> string \<Rightarrow> string \<Rightarrow> string \<Rightarrow> diagnostic" where
  "degraded_diagnostic path side revision reason =
     \<lparr>dg_path = path, dg_kind = DiagKindProjectChangeLifecycleIndeterminate,
      dg_message = unknown_lifecycle_prefix @ sideRevisionLabel side revision @ reason,
      dg_location = None, dg_side = side, dg_revision = revision\<rparr>"

definition degradedProjectChangeDiagnostics :: "string \<Rightarrow> indeterminacy \<Rightarrow> diagnostic list" where
  "degradedProjectChangeDiagnostics path s =
     (if headIncomplete s
      then [degraded_diagnostic path ''head'' (headRevision s) '' project analysis coverage is incomplete''] else [])
     @ (if baseIncomplete s
        then [degraded_diagnostic path ''base'' (baseRevision s) '' project analysis coverage is incomplete''] else [])
     @ (if inconsistentBase s
        then [degraded_diagnostic path ''base'' (baseRevision s)
                '' supplied project observations without a completed base analysis''] else [])"

definition continuityDegradedDiagnostic :: "string \<Rightarrow> string \<Rightarrow> string \<Rightarrow> diagnostic" where
  "continuityDegradedDiagnostic path side revision =
     \<lparr>dg_path = path, dg_kind = DiagKindProjectChangeLifecycleIndeterminate,
      dg_message = unknown_lifecycle_prefix
        @ ''rename/copy continuity of this path was not determined at '' @ sideRevisionLabel side revision,
      dg_location = None, dg_side = side, dg_revision = revision\<rparr>"

definition completeProjectCoverage :: "coverage option \<Rightarrow> bool" where
  "completeProjectCoverage c = (case c of None \<Rightarrow> False | Some v \<Rightarrow> cv_complete v)"

fun appendDistinctDiagnostics ::
  "diagnostic list \<Rightarrow> diagnostic list \<Rightarrow> diagnostic list \<Rightarrow> diagnostic list \<times> diagnostic list" where
  "appendDistinctDiagnostics ds seen [] = (ds, seen)"
| "appendDistinctDiagnostics ds seen (d # candidates) =
     (if d \<in> set seen then appendDistinctDiagnostics ds seen candidates
      else appendDistinctDiagnostics (ds @ [d]) (d # seen) candidates)"

section \<open>Identity\<close>

definition project_identity :: "project_change \<Rightarrow> string list" where
  "project_identity c =
     [pc_key c, pc_rule c, pc_rule_version c, pc_backend_version c, pc_algorithm_version c, pc_config_digest c]"

definition appendProjectIdentity :: "string \<Rightarrow> project_change \<Rightarrow> string" where
  "appendProjectIdentity buf c = foldl appendLengthPrefixed buf (project_identity c)"

definition computeProjectFingerprint :: "(string \<Rightarrow> string) \<Rightarrow> project_change \<Rightarrow> string" where
  "computeProjectFingerprint digest c = ''pfp_'' @ digest (appendProjectIdentity [] c)"

definition computeProjectChangeID :: "(string \<Rightarrow> string) \<Rightarrow> project_change \<Rightarrow> string" where
  "computeProjectChangeID digest c = ''pchg_'' @ digest (appendProjectIdentity [] c)"

section \<open>Lifecycle of changes\<close>

definition duplicate_diagnostic :: "project_change \<Rightarrow> diagnostic" where
  "duplicate_diagnostic c =
     file_diagnostic (pl_path (pc_anchor c)) ''project_duplicate_semantic_key''
       (''duplicate project observation semantic_key '' @ quoted (pc_key c) @ ''; keeping the first occurrence'')"

type_synonym change_index = "(string \<times> project_change) list"

definition index_change :: "change_index \<times> diagnostic list \<Rightarrow> project_change \<Rightarrow> change_index \<times> diagnostic list" where
  "index_change acc c =
     (case acc of (m, ds) \<Rightarrow>
        if map_of m (pc_key c) \<noteq> None then (m, ds @ [duplicate_diagnostic c])
        else (AList.update (pc_key c) c m, ds))"

definition indexProjectChangesByKey :: "project_change list \<Rightarrow> change_index \<times> diagnostic list" where
  "indexProjectChangesByKey changes = foldl index_change ([], []) changes"

definition sortedProjectKeys :: "change_index \<Rightarrow> string list" where
  "sortedProjectKeys m = sort_strings (map fst m)"

definition projectChangeChanged :: "project_change \<Rightarrow> project_change \<Rightarrow> bool" where
  "projectChangeChanged head base =
     (if pc_causal_digest head \<noteq> [] \<or> pc_causal_digest base \<noteq> []
      then pc_causal_digest head \<noteq> pc_causal_digest base
      else pc_anchor head \<noteq> pc_anchor base)"

definition indeterminateLifecycleEvidenceNote :: string where
  "indeterminateLifecycleEvidenceNote =
     '' (lifecycle is '' @ quoted ''unknown'' @ '': see the project_lifecycle_indeterminate diagnostic for why)''"

definition undeterminedContinuityEvidenceNote :: string where
  "undeterminedContinuityEvidenceNote =
     '' (lifecycle is '' @ quoted ''unknown'' @ '': see the '' @ DiagKindProjectChangeLifecycleIndeterminate
       @ '' diagnostic for why)''"

definition finish_change :: "(string \<Rightarrow> string) \<Rightarrow> project_change \<Rightarrow> project_change" where
  "finish_change digest c =
     (let c' = c\<lparr>pc_fingerprint := computeProjectFingerprint digest c\<rparr>
      in c'\<lparr>pc_id := computeProjectChangeID digest c'\<rparr>)"

definition degrade :: "project_change \<Rightarrow> string \<Rightarrow> project_change" where
  "degrade c note = c\<lparr>pc_lifecycle := ''unknown'', pc_changed := False, pc_evidence := pc_evidence c @ note\<rparr>"

text \<open>The switch of the head's loop, and of the base's: the classified change and its diagnostics.\<close>

definition classify_head_change ::
  "bool \<Rightarrow> indeterminacy \<Rightarrow> undetermined_continuity \<Rightarrow> string \<Rightarrow> project_change option \<Rightarrow> project_change
   \<Rightarrow> project_change \<times> diagnostic list" where
  "classify_head_change hasBase state continuity noBase base c =
     (if any_indeterminacy state
      then (degrade c indeterminateLifecycleEvidenceNote,
            degradedProjectChangeDiagnostics (pl_path (pc_anchor c)) state)
      else if \<not> hasBase then (c\<lparr>pc_lifecycle := noBase, pc_changed := False\<rparr>, [])
      else case base of
             Some b \<Rightarrow> (c\<lparr>pc_lifecycle := ''existing'', pc_changed := projectChangeChanged c b\<rparr>, [])
           | None \<Rightarrow>
               (case headPath continuity c of
                  Some moved \<Rightarrow> (degrade c undeterminedContinuityEvidenceNote,
                    [continuityDegradedDiagnostic moved ''head'' (headRevision state)])
                | None \<Rightarrow> (c\<lparr>pc_lifecycle := ''introduced'', pc_changed := True\<rparr>, [])))"

definition classify_base_change ::
  "bool \<Rightarrow> indeterminacy \<Rightarrow> undetermined_continuity \<Rightarrow> project_change \<Rightarrow> project_change \<times> diagnostic list" where
  "classify_base_change hasBase state continuity c =
     (if any_indeterminacy state \<or> \<not> hasBase
      then (degrade c indeterminateLifecycleEvidenceNote,
            degradedProjectChangeDiagnostics (pl_path (pc_anchor c)) state)
      else case basePath continuity c of
             Some moved \<Rightarrow> (degrade c undeterminedContinuityEvidenceNote,
               [continuityDegradedDiagnostic moved ''base'' (baseRevision state)])
           | None \<Rightarrow> (c\<lparr>pc_lifecycle := ''resolved'', pc_changed := False\<rparr>, []))"

type_synonym classify_state = "project_change list \<times> diagnostic list \<times> diagnostic list"

definition add_classified ::
  "(string \<Rightarrow> string) \<Rightarrow> classify_state \<Rightarrow> project_change \<times> diagnostic list \<Rightarrow> classify_state" where
  "add_classified digest acc classified =
     (case (acc, classified) of ((result, ds, seen), (c, candidates)) \<Rightarrow>
        let (ds', seen') = appendDistinctDiagnostics ds seen candidates
        in (result @ [finish_change digest c], ds', seen'))"

definition classifyProjectChanges ::
  "(string \<Rightarrow> string) \<Rightarrow> bool \<Rightarrow> indeterminacy \<Rightarrow> undetermined_continuity \<Rightarrow> project_change list \<Rightarrow> project_change list
   \<Rightarrow> string \<Rightarrow> project_change list \<times> diagnostic list" where
  "classifyProjectChanges digest hasBase state continuity headChanges baseChanges noBase =
     (let (headByKey, headDiags) = indexProjectChangesByKey headChanges;
          (baseByKey, baseDiags) = indexProjectChangesByKey baseChanges;
          afterHead = foldl (\<lambda>acc key.
              case map_of headByKey key of
                None \<Rightarrow> acc
              | Some c \<Rightarrow> add_classified digest acc
                  (classify_head_change hasBase state continuity noBase (map_of baseByKey key) c))
            ([], headDiags @ baseDiags, []) (sortedProjectKeys headByKey);
          (result, ds, _) = foldl (\<lambda>acc key.
              if map_of headByKey key \<noteq> None then acc
              else case map_of baseByKey key of
                     None \<Rightarrow> acc
                   | Some c \<Rightarrow> add_classified digest acc (classify_base_change hasBase state continuity c))
            afterHead (sortedProjectKeys baseByKey)
      in (result, ds))"

section \<open>Orders of project sections\<close>

fun compare_lists :: "('a \<Rightarrow> 'a \<Rightarrow> int) \<Rightarrow> 'a list \<Rightarrow> 'a list \<Rightarrow> int" where
  "compare_lists c (x # xs) (y # ys) = (if c x y \<noteq> 0 then c x y else compare_lists c xs ys)"
| "compare_lists c [] (y # ys) = -1"
| "compare_lists c (x # xs) [] = 1"
| "compare_lists c [] [] = 0"

definition compareStringSlices :: "string list \<Rightarrow> string list \<Rightarrow> int" where
  "compareStringSlices a b = compare_lists cmp_compare a b"

definition compare_project_location :: "project_location \<Rightarrow> project_location \<Rightarrow> int" where
  "compare_project_location a b =
     cmp_or [cmp_compare (pl_path a) (pl_path b), compareLocationValue (pl_location a) (pl_location b)]"

definition comparePathSteps :: "project_path_step \<Rightarrow> project_path_step \<Rightarrow> int" where
  "comparePathSteps a b = cmp_or
     [cmp_compare (st_node a) (st_node b), cmp_compare (st_display a) (st_display b),
      cmp_compare (st_resolution a) (st_resolution b), cmp_compare (st_confidence a) (st_confidence b),
      compare_lists compare_project_location (st_locations a) (st_locations b)]"

definition comparePathStepSlices :: "project_path_step list \<Rightarrow> project_path_step list \<Rightarrow> int" where
  "comparePathStepSlices a b = compare_lists comparePathSteps a b"

definition compareProjectFacts :: "project_fact \<Rightarrow> project_fact \<Rightarrow> int" where
  "compareProjectFacts a b = cmp_or
     [cmp_compare (pf_kind a) (pf_kind b), cmp_compare (pf_key a) (pf_key b),
      cmp_compare (pf_evidence a) (pf_evidence b),
      cmp_compare (Producer (pf_provenance a)) (Producer (pf_provenance b)),
      cmp_compare (FindingKind (pf_provenance a)) (FindingKind (pf_provenance b)),
      compareStringSlices (pf_coverage_refs a) (pf_coverage_refs b),
      comparePathStepSlices (pf_steps a) (pf_steps b)]"

definition canonicalStringSlice :: "string list \<Rightarrow> string list" where
  "canonicalStringSlice xs = sort_strings xs"

definition project_location_less :: "project_location \<Rightarrow> project_location \<Rightarrow> bool" where
  "project_location_less a b =
     (if pl_path a \<noteq> pl_path b then pl_path a < pl_path b else compareLocationValue (pl_location a) (pl_location b) < 0)"

definition canonicalProjectLocations :: "project_location list \<Rightarrow> project_location list" where
  "canonicalProjectLocations ls = stable_sort (cmp_of_less project_location_less) ls"

definition canonicalPathSteps :: "project_path_step list \<Rightarrow> project_path_step list" where
  "canonicalPathSteps ss = map (\<lambda>s. s\<lparr>st_locations := canonicalProjectLocations (st_locations s)\<rparr>) ss"

definition withCanonicalProjectChangeArrays :: "project_change \<Rightarrow> project_change" where
  "withCanonicalProjectChangeArrays c =
     c\<lparr>pc_related := canonicalProjectLocations (pc_related c), pc_steps := canonicalPathSteps (pc_steps c),
       pc_coverage_refs := canonicalStringSlice (pc_coverage_refs c)\<rparr>"

definition withCanonicalProjectFactArrays :: "project_fact \<Rightarrow> project_fact" where
  "withCanonicalProjectFactArrays f =
     f\<lparr>pf_steps := canonicalPathSteps (pf_steps f), pf_coverage_refs := canonicalStringSlice (pf_coverage_refs f)\<rparr>"

definition project_change_less :: "project_change \<Rightarrow> project_change \<Rightarrow> bool" where
  "project_change_less a b = (if pc_key a \<noteq> pc_key b then pc_key a < pc_key b else pc_rule a < pc_rule b)"

definition sortProjectChanges :: "project_change list \<Rightarrow> project_change list" where
  "sortProjectChanges cs = stable_sort (cmp_of_less project_change_less) (map withCanonicalProjectChangeArrays cs)"

definition sortProjectFacts :: "project_fact list \<Rightarrow> project_fact list" where
  "sortProjectFacts fs =
     stable_sort (cmp_of_less (\<lambda>a b. compareProjectFacts a b < 0)) (map withCanonicalProjectFactArrays fs)"

section \<open>Coverage and facts\<close>

definition domain_diagnostic_less :: "domain_diagnostic \<Rightarrow> domain_diagnostic \<Rightarrow> bool" where
  "domain_diagnostic_less a b =
     (if dd_code a \<noteq> dd_code b then dd_code a < dd_code b
      else if dd_path a \<noteq> dd_path b then dd_path a < dd_path b
      else dd_message a < dd_message b)"

definition cloneProjectCoverage :: "coverage option \<Rightarrow> coverage option" where
  "cloneProjectCoverage c =
     map_option (\<lambda>v. v\<lparr>cv_diagnostics := stable_sort (cmp_of_less domain_diagnostic_less) (cv_diagnostics v)\<rparr>) c"

definition sideModelCoverageDiagnostics :: "coverage option \<Rightarrow> string \<Rightarrow> string \<Rightarrow> diagnostic list" where
  "sideModelCoverageDiagnostics c side revision =
     (case c of
        None \<Rightarrow> []
      | Some v \<Rightarrow>
          map (\<lambda>d. \<lparr>dg_path = dd_path d, dg_kind = (if side = ''base'' then ''base_'' @ dd_code d else dd_code d),
                 dg_message = sideRevisionLabel side revision @ '' project model coverage: '' @ dd_message d,
                 dg_location = None, dg_side = side, dg_revision = revision\<rparr>)
            (filter (\<lambda>d. \<not> dd_code d \<noteq> DiagRootScopeIncomplete) (cv_diagnostics v)))"

definition reachabilityFactSemanticKey :: "reachability_fact \<Rightarrow> string" where
  "reachabilityFactSemanticKey f = rf_kind f @ '':'' @ rf_source f @ ''->'' @ rf_sink f"

definition reachabilityStepConfidence :: "string \<Rightarrow> string" where
  "reachabilityStepConfidence c = (if c = ReachabilityConfidenceResolvedDirect then ''high'' else c)"

definition reachabilityFactPathSteps :: "reachability_fact \<Rightarrow> project_path_step list" where
  "reachabilityFactPathSteps f =
     map (\<lambda>node. \<lparr>st_node = node, st_display = [], st_resolution = [],
            st_confidence = reachabilityStepConfidence (rf_confidence f), st_locations = []\<rparr>) (rf_path f)"

definition reachabilityFactEvidence :: "reachability_fact \<Rightarrow> string" where
  "reachabilityFactEvidence f = rf_source f @ '' has a possible call path to '' @ rf_sink f"

definition ReachabilityProjectFacts :: "reachability_fact list \<Rightarrow> string \<Rightarrow> project_fact list" where
  "ReachabilityProjectFacts facts language =
     map (\<lambda>f. \<lparr>pf_kind = rf_kind f, pf_key = reachabilityFactSemanticKey f, pf_steps = reachabilityFactPathSteps f,
            pf_coverage_refs = [], pf_evidence = reachabilityFactEvidence f,
            pf_provenance = \<lparr>Producer = ''projectmodel'', FindingKind = rf_kind f, Language = language\<rparr>\<rparr>) facts"

section \<open>Facts on the index\<close>

lemma index_fold:
  assumes "distinct (map fst m)"
  shows "map_of (fst (foldl index_change (m, ds) cs)) k =
           (case map_of m k of Some c \<Rightarrow> Some c | None \<Rightarrow> find (\<lambda>c. pc_key c = k) cs)
    \<and> distinct (map fst (fst (foldl index_change (m, ds) cs)))
    \<and> set (map fst (fst (foldl index_change (m, ds) cs))) = set (map fst m) \<union> pc_key ` set cs"
  using assms
proof (induction cs arbitrary: m ds)
  case Nil
  then show ?case by (simp split: option.split)
next
  case (Cons c cs)
  show ?case
  proof (cases "map_of m (pc_key c)")
    case None
    have d: "distinct (map fst (AList.update (pc_key c) c m))" using Cons.prems by simp
    have step: "index_change (m, ds) c = (AList.update (pc_key c) c m, ds)" using None by (simp add: index_change_def)
    show ?thesis unfolding foldl_Cons step using Cons.IH [OF d, of ds] None by (auto split: option.splits)
  next
    case (Some c')
    have step: "index_change (m, ds) c = (m, ds @ [duplicate_diagnostic c])" using Some by (simp add: index_change_def)
    have "pc_key c \<in> set (map fst m)" using Some by (metis map_of_eq_None_iff option.distinct(1) set_map)
    then show ?thesis
      unfolding foldl_Cons step using Cons.IH [OF Cons.prems, of "ds @ [duplicate_diagnostic c]"] Some
      by (auto split: option.splits)
  qed
qed

definition change_with_key :: "string \<Rightarrow> project_change list \<Rightarrow> project_change option" where
  "change_with_key k cs = find (\<lambda>c. pc_key c = k) cs"

lemma index_lookup: "map_of (fst (indexProjectChangesByKey cs)) k = change_with_key k cs"
  using index_fold [of "[]" "[]" cs k] by (simp add: indexProjectChangesByKey_def change_with_key_def)

lemma index_keys:
  "distinct (map fst (fst (indexProjectChangesByKey cs)))"
  "set (map fst (fst (indexProjectChangesByKey cs))) = pc_key ` set cs"
  using index_fold [of "[]" "[]" cs] by (simp_all add: indexProjectChangesByKey_def)

lemma sortedProjectKeys_index:
  "distinct (sortedProjectKeys (fst (indexProjectChangesByKey cs)))"
  "set (sortedProjectKeys (fst (indexProjectChangesByKey cs))) = pc_key ` set cs"
  "sorted (sortedProjectKeys (fst (indexProjectChangesByKey cs)))"
proof -
  show "distinct (sortedProjectKeys (fst (indexProjectChangesByKey cs)))"
    unfolding sortedProjectKeys_def by (metis index_keys(1) mset_eq_imp_distinct_iff sort_strings_mset)
  show "set (sortedProjectKeys (fst (indexProjectChangesByKey cs))) = pc_key ` set cs"
    unfolding sortedProjectKeys_def by (simp only: sort_strings_set index_keys)
  show "sorted (sortedProjectKeys (fst (indexProjectChangesByKey cs)))"
    unfolding sortedProjectKeys_def by (rule sort_strings_sorted)
qed

lemma change_with_key_simps:
  "change_with_key k cs = None \<longleftrightarrow> k \<notin> pc_key ` set cs"
  "change_with_key k cs = Some c \<Longrightarrow> pc_key c = k \<and> c \<in> set cs"
  unfolding change_with_key_def by (auto simp: find_None_iff dest: find_SomeD)

section \<open>Facts on classification\<close>

lemma degrade_key [simp]: "pc_key (degrade c note) = pc_key c"
  by (simp add: degrade_def)

lemma finish_simps [simp]:
  "pc_key (finish_change digest c) = pc_key c" "pc_lifecycle (finish_change digest c) = pc_lifecycle c"
  "pc_changed (finish_change digest c) = pc_changed c"
  by (simp_all add: finish_change_def Let_def)

lemma classify_key [simp]:
  "pc_key (fst (classify_head_change hasBase state u noBase b c)) = pc_key c"
  "pc_key (fst (classify_base_change hasBase state u c)) = pc_key c"
  by (simp_all add: classify_head_change_def classify_base_change_def split: option.split)

lemma fold_classified:
  "fst (foldl (\<lambda>acc key. case f key of None \<Rightarrow> acc | Some x \<Rightarrow> add_classified digest acc x) acc keys)
     = fst acc @ map (\<lambda>x. finish_change digest (fst x)) (List.map_filter f keys)"
proof (induction keys arbitrary: acc)
  case Nil
  then show ?case by (simp add: List.map_filter_simps)
next
  case (Cons k keys)
  have "fst (add_classified digest acc x) = fst acc @ [finish_change digest (fst x)]" for x
    by (simp add: add_classified_def split: prod.splits)
  then show ?case using Cons by (simp add: List.map_filter_simps split: option.split)
qed

text \<open>The classified change of one key, from the first observations with that key.\<close>

definition head_entry ::
  "bool \<Rightarrow> indeterminacy \<Rightarrow> undetermined_continuity \<Rightarrow> string \<Rightarrow> project_change list \<Rightarrow> project_change list \<Rightarrow> string
   \<Rightarrow> (project_change \<times> diagnostic list) option" where
  "head_entry hasBase state u noBase hs bs k =
     map_option (classify_head_change hasBase state u noBase (change_with_key k bs)) (change_with_key k hs)"

definition base_entry ::
  "bool \<Rightarrow> indeterminacy \<Rightarrow> undetermined_continuity \<Rightarrow> project_change list \<Rightarrow> project_change list \<Rightarrow> string
   \<Rightarrow> (project_change \<times> diagnostic list) option" where
  "base_entry hasBase state u hs bs k =
     (if change_with_key k hs \<noteq> None then None
      else map_option (classify_base_change hasBase state u) (change_with_key k bs))"

lemma classify_result:
  "fst (classifyProjectChanges digest hasBase state u hs bs noBase) =
     map (\<lambda>x. finish_change digest (fst x))
       (List.map_filter (head_entry hasBase state u noBase hs bs) (sortedProjectKeys (fst (indexProjectChangesByKey hs)))
        @ List.map_filter (base_entry hasBase state u hs bs) (sortedProjectKeys (fst (indexProjectChangesByKey bs))))"
proof -
  let ?h = "fst (indexProjectChangesByKey hs)" and ?b = "fst (indexProjectChangesByKey bs)"
  have h: "(\<lambda>acc key. case map_of ?h key of None \<Rightarrow> acc
        | Some c \<Rightarrow> add_classified digest acc (classify_head_change hasBase state u noBase (map_of ?b key) c))
      = (\<lambda>acc key. case head_entry hasBase state u noBase hs bs key of None \<Rightarrow> acc | Some x \<Rightarrow> add_classified digest acc x)"
    unfolding index_lookup head_entry_def by (intro ext) (simp split: option.split)
  have b: "(\<lambda>acc key. if map_of ?h key \<noteq> None then acc else case map_of ?b key of None \<Rightarrow> acc
        | Some c \<Rightarrow> add_classified digest acc (classify_base_change hasBase state u c))
      = (\<lambda>acc key. case base_entry hasBase state u hs bs key of None \<Rightarrow> acc | Some x \<Rightarrow> add_classified digest acc x)"
    unfolding index_lookup base_entry_def by (intro ext) (simp split: option.split)
  show ?thesis
    unfolding classifyProjectChanges_def Let_def
    by (simp only: case_prod_beta' h b fold_classified fst_conv append_Nil map_append)
qed

text \<open>What a key's observations decide: the specification.\<close>

definition project_verdict ::
  "bool \<Rightarrow> indeterminacy \<Rightarrow> undetermined_continuity \<Rightarrow> string \<Rightarrow> project_change option \<Rightarrow> project_change option
   \<Rightarrow> (string \<times> bool) option" where
  "project_verdict hasBase state u noBase head base =
     (case (head, base) of
        (None, None) \<Rightarrow> None
      | (Some c, _) \<Rightarrow> Some
          (if any_indeterminacy state then (''unknown'', False)
           else if \<not> hasBase then (noBase, False)
           else case base of
                  Some b \<Rightarrow> (''existing'', projectChangeChanged c b)
                | None \<Rightarrow> if headPath u c = None then (''introduced'', True) else (''unknown'', False))
      | (None, Some c) \<Rightarrow> Some
          (if any_indeterminacy state \<or> \<not> hasBase \<or> basePath u c \<noteq> None then (''unknown'', False)
           else (''resolved'', False)))"

definition verdicts :: "project_change list \<Rightarrow> (string \<times> string \<times> bool) list" where
  "verdicts cs = map (\<lambda>c. (pc_key c, pc_lifecycle c, pc_changed c)) cs"

lemma entry_key:
  "head_entry hasBase state u noBase hs bs k = Some x \<Longrightarrow> pc_key (fst x) = k"
  "base_entry hasBase state u hs bs k = Some x \<Longrightarrow> pc_key (fst x) = k"
  by (auto simp: head_entry_def base_entry_def dest: change_with_key_simps(2) split: if_splits)

lemma verdicts_map_filter:
  assumes "\<And>k x. f k = Some x \<Longrightarrow> pc_key (fst x) = k"
  shows "map_of (verdicts (map (\<lambda>x. finish_change digest (fst x)) (List.map_filter f keys))) k
    = (if k \<in> set keys then map_option (\<lambda>x. (pc_lifecycle (fst x), pc_changed (fst x))) (f k) else None)"
proof (induction keys)
  case Nil
  then show ?case by (simp add: List.map_filter_simps verdicts_def)
next
  case (Cons k' keys)
  then show ?case using assms [of k'] by (auto simp: List.map_filter_simps verdicts_def split: option.split)
qed

lemma verdicts_append: "verdicts (xs @ ys) = verdicts xs @ verdicts ys"
  by (simp add: verdicts_def)

lemma keys_map_filter:
  assumes "\<And>k x. f k = Some x \<Longrightarrow> pc_key (fst x) = k"
  shows "map pc_key (map (\<lambda>x. finish_change digest (fst x)) (List.map_filter f keys)) = filter (\<lambda>k. f k \<noteq> None) keys"
proof (induction keys)
  case Nil
  then show ?case by (simp add: List.map_filter_simps)
next
  case (Cons k' keys)
  then show ?case using assms [of k'] by (auto simp: List.map_filter_simps split: option.split)
qed

lemma entry_none:
  "head_entry hasBase state u noBase hs bs k = None \<longleftrightarrow> k \<notin> pc_key ` set hs"
  "base_entry hasBase state u hs bs k = None \<longleftrightarrow> k \<in> pc_key ` set hs \<or> k \<notin> pc_key ` set bs"
  using change_with_key_simps(1) [of k hs] change_with_key_simps(1) [of k bs]
  by (auto simp: head_entry_def base_entry_def)

lemma classified_verdicts:
  "map_of (verdicts (fst (classifyProjectChanges digest hasBase state u hs bs noBase))) k
     = project_verdict hasBase state u noBase (change_with_key k hs) (change_with_key k bs)"
proof -
  let ?hk = "sortedProjectKeys (fst (indexProjectChangesByKey hs))"
    and ?bk = "sortedProjectKeys (fst (indexProjectChangesByKey bs))"
  have heads: "map_option (\<lambda>x. (pc_lifecycle (fst x), pc_changed (fst x))) (head_entry hasBase state u noBase hs bs k)
      = (case change_with_key k hs of None \<Rightarrow> None
         | Some c \<Rightarrow> project_verdict hasBase state u noBase (Some c) (change_with_key k bs))"
    by (auto simp: head_entry_def project_verdict_def classify_head_change_def degrade_def split: option.split)
  have bases: "map_option (\<lambda>x. (pc_lifecycle (fst x), pc_changed (fst x))) (base_entry hasBase state u hs bs k)
      = (if change_with_key k hs \<noteq> None then None
         else project_verdict hasBase state u noBase None (change_with_key k bs))"
    by (auto simp: base_entry_def project_verdict_def classify_base_change_def degrade_def split: option.split)
  have hk: "k \<in> set ?hk \<longleftrightarrow> change_with_key k hs \<noteq> None" and bk: "k \<in> set ?bk \<longleftrightarrow> change_with_key k bs \<noteq> None"
    unfolding sortedProjectKeys_index(2) change_with_key_simps(1) by simp_all
  have vh: "map_of (verdicts (map (\<lambda>x. finish_change digest (fst x)) (List.map_filter (head_entry hasBase state u noBase hs bs) ?hk))) k
      = (if k \<in> set ?hk then map_option (\<lambda>x. (pc_lifecycle (fst x), pc_changed (fst x))) (head_entry hasBase state u noBase hs bs k) else None)"
    by (rule verdicts_map_filter) (rule entry_key)
  have vb: "map_of (verdicts (map (\<lambda>x. finish_change digest (fst x)) (List.map_filter (base_entry hasBase state u hs bs) ?bk))) k
      = (if k \<in> set ?bk then map_option (\<lambda>x. (pc_lifecycle (fst x), pc_changed (fst x))) (base_entry hasBase state u hs bs k) else None)"
    by (rule verdicts_map_filter) (rule entry_key)
  have "project_verdict hasBase state u noBase None None = None" by (simp add: project_verdict_def)
  then show ?thesis
    unfolding classify_result map_append verdicts_append map_of_append map_add_def
      vh vb heads bases hk bk
    by (auto split: option.splits)
qed

lemma classified_keys:
  "map pc_key (fst (classifyProjectChanges digest hasBase state u hs bs noBase))
     = sorted_list_of_set (pc_key ` set hs) @ sorted_list_of_set (pc_key ` set bs - pc_key ` set hs)"
proof -
  let ?hk = "sortedProjectKeys (fst (indexProjectChangesByKey hs))"
    and ?bk = "sortedProjectKeys (fst (indexProjectChangesByKey bs))"
  have sorted_keys: "filter P (sortedProjectKeys (fst (indexProjectChangesByKey cs))) = sorted_list_of_set {k \<in> pc_key ` set cs. P k}"
    for P cs
    using sortedProjectKeys_index [of cs]
    by (intro sorted_distinct_set_unique) (auto simp: sorted_wrt_filter)
  have kh: "map pc_key (map (\<lambda>x. finish_change digest (fst x)) (List.map_filter (head_entry hasBase state u noBase hs bs) ?hk))
      = filter (\<lambda>k. head_entry hasBase state u noBase hs bs k \<noteq> None) ?hk"
    by (rule keys_map_filter) (rule entry_key)
  have kb: "map pc_key (map (\<lambda>x. finish_change digest (fst x)) (List.map_filter (base_entry hasBase state u hs bs) ?bk))
      = filter (\<lambda>k. base_entry hasBase state u hs bs k \<noteq> None) ?bk"
    by (rule keys_map_filter) (rule entry_key)
  have "{k \<in> pc_key ` set hs. k \<in> pc_key ` set hs} = pc_key ` set hs"
    and "{k \<in> pc_key ` set bs. \<not> (k \<in> pc_key ` set hs \<or> k \<notin> pc_key ` set bs)} = pc_key ` set bs - pc_key ` set hs"
    by auto
  then show ?thesis
    unfolding classify_result map_append kh kb entry_none sorted_keys not_not by (simp only:)
qed

text \<open>Every classified change has the verdict of its key.\<close>

lemma classified_change:
  assumes "c \<in> set (fst (classifyProjectChanges digest hasBase state u hs bs noBase))"
  shows "project_verdict hasBase state u noBase (change_with_key (pc_key c) hs) (change_with_key (pc_key c) bs)
    = Some (pc_lifecycle c, pc_changed c)"
proof -
  let ?cs = "fst (classifyProjectChanges digest hasBase state u hs bs noBase)"
  have "map fst (verdicts ?cs) = map pc_key ?cs" by (simp add: verdicts_def)
  then have "distinct (map fst (verdicts ?cs))" unfolding classified_keys by simp
  moreover have "(pc_key c, pc_lifecycle c, pc_changed c) \<in> set (verdicts ?cs)" using assms by (auto simp: verdicts_def)
  ultimately show ?thesis using classified_verdicts [of digest hasBase state u hs bs noBase "pc_key c"] by simp
qed


section \<open>Facts on the orders\<close>

text \<open>
  A comparison with a key: it orders as the key does and is 0 only for equal keys.  Such
  comparisons compose lexicographically and lift to lists.
\<close>

definition compares_by :: "('a \<Rightarrow> 'a \<Rightarrow> int) \<Rightarrow> ('a \<Rightarrow> 'k::linorder) \<Rightarrow> bool" where
  "compares_by c k \<longleftrightarrow> (\<forall>a b. (c a b \<le> 0 \<longleftrightarrow> k a \<le> k b) \<and> (c a b = 0 \<longleftrightarrow> k a = k b))"

lemma compares_by_le: "compares_by c k \<Longrightarrow> c a b \<le> 0 \<longleftrightarrow> k a \<le> k b"
  and compares_by_zero: "compares_by c k \<Longrightarrow> c a b = 0 \<longleftrightarrow> k a = k b"
  by (simp_all add: compares_by_def)

lemma compares_by_less: "compares_by c k \<Longrightarrow> c a b < 0 \<longleftrightarrow> k a < k b"
  using compares_by_le [of c k a b] compares_by_zero [of c k a b] by (auto simp: less_le)

lemma compares_by_antisym: "compares_by c k \<Longrightarrow> c a b \<le> 0 \<Longrightarrow> c b a \<le> 0 \<Longrightarrow> k a = k b"
  using compares_by_le [of c k a b] compares_by_le [of c k b a] by simp

lemma compares_by_value: "compares_by (\<lambda>a b. cmp_compare (f a) (f b)) f"
  by (simp add: compares_by_def cmp_laws)

lemma compares_by_location: "compares_by compareLocationValue location_key"
  by (simp add: compares_by_def compareLocationValue_laws)

lemma compares_by_lists:
  fixes k :: "'a \<Rightarrow> 'k::linorder"
  assumes "compares_by c k"
  shows "compares_by (compare_lists c) (map k)"
proof -
  have "(compare_lists c xs ys \<le> 0 \<longleftrightarrow> map k xs \<le> map k ys) \<and> (compare_lists c xs ys = 0 \<longleftrightarrow> map k xs = map k ys)"
    for xs ys
  proof (induction xs arbitrary: ys)
    case Nil
    then show ?case by (cases ys) simp_all
  next
    case (Cons x xs)
    show ?case
    proof (cases ys)
      case Nil
      then show ?thesis by simp
    next
      case ys: (Cons y ys')
      show ?thesis
        using Cons.IH [of ys'] compares_by_le [OF assms, of x y] compares_by_zero [OF assms, of x y]
        by (cases "c x y = 0") (auto simp: ys)
    qed
  qed
  then show ?thesis by (simp add: compares_by_def)
qed

lemma compares_by_or:
  assumes "compares_by c k" "compares_by (\<lambda>a b. cmp_or (ds a b)) k'"
  shows "compares_by (\<lambda>a b. cmp_or (c a b # ds a b)) (\<lambda>x. (k x, k' x))"
  unfolding compares_by_def
proof (intro allI)
  fix a b
  show "(cmp_or (c a b # ds a b) \<le> 0 \<longleftrightarrow> (k a, k' a) \<le> (k b, k' b))
      \<and> (cmp_or (c a b # ds a b) = 0 \<longleftrightarrow> (k a, k' a) = (k b, k' b))"
    using compares_by_le [OF assms(1), of a b] compares_by_zero [OF assms(1), of a b]
      compares_by_le [OF assms(2), of a b] compares_by_zero [OF assms(2), of a b]
    by (cases "c a b = 0") (auto simp: less_eq_prod_simp less_le)
qed

lemma compares_by_or_last: "compares_by c k \<Longrightarrow> compares_by (\<lambda>a b. cmp_or [c a b]) k"
  by (simp add: compares_by_def)

lemma compares_by_comp: "compares_by c k \<Longrightarrow> compares_by (\<lambda>a b. c (f a) (f b)) (\<lambda>x. k (f x))"
  by (simp add: compares_by_def)

lemma compares_by_of_less:
  "(\<And>a b. lt a b \<longleftrightarrow> k a < k b) \<Longrightarrow> compares_by (cmp_of_less lt) k"
  by (auto simp: compares_by_def cmp_of_less_def)

lemma comparison_of_key: "compares_by c k \<Longrightarrow> comparison c"
  by (rule comparison_by_key [of c k]) (rule compares_by_le)

definition project_location_key :: "project_location \<Rightarrow> string \<times> nat \<times> nat \<times> nat \<times> nat \<times> nat \<times> nat" where
  "project_location_key l = (pl_path l, location_key (pl_location l))"

lemma compares_project_location: "compares_by compare_project_location project_location_key"
  unfolding compare_project_location_def [abs_def] project_location_key_def [abs_def]
  by (intro compares_by_or compares_by_or_last compares_by_value compares_by_comp [OF compares_by_location])

type_synonym location_order_key = "string \<times> nat \<times> nat \<times> nat \<times> nat \<times> nat \<times> nat"
type_synonym step_order_key = "string \<times> string \<times> string \<times> string \<times> location_order_key list"

definition step_key :: "project_path_step \<Rightarrow> step_order_key" where
  "step_key s = (st_node s, st_display s, st_resolution s, st_confidence s, map project_location_key (st_locations s))"

lemma compares_steps: "compares_by comparePathSteps step_key"
  unfolding comparePathSteps_def [abs_def] step_key_def [abs_def]
  by (intro compares_by_or compares_by_or_last compares_by_value
      compares_by_comp [OF compares_by_lists [OF compares_project_location]])

definition fact_key ::
  "project_fact \<Rightarrow> string \<times> string \<times> string \<times> string \<times> string \<times> string list \<times> step_order_key list" where
  "fact_key f = (pf_kind f, pf_key f, pf_evidence f, Producer (pf_provenance f), FindingKind (pf_provenance f),
     pf_coverage_refs f, map step_key (pf_steps f))"

lemma compares_strings: "compares_by compareStringSlices (\<lambda>xs. xs)"
  using compares_by_lists [OF compares_by_value [of "\<lambda>x :: string. x"]]
  by (simp add: compareStringSlices_def [abs_def])

lemma compares_facts: "compares_by compareProjectFacts fact_key"
  unfolding compareProjectFacts_def [abs_def] fact_key_def [abs_def] comparePathStepSlices_def
  by (intro compares_by_or compares_by_or_last compares_by_value compares_by_comp [OF compares_strings]
      compares_by_comp [OF compares_by_lists [OF compares_steps]])

text \<open>The keys determine what they stand for.\<close>

lemma project_location_key_inject: "project_location_key a = project_location_key b \<longleftrightarrow> a = (b :: project_location)"
  unfolding project_location_key_def by (auto simp: location_key_inject intro: project_location.equality)

lemma step_key_inject: "step_key a = step_key b \<longleftrightarrow> a = (b :: project_path_step)"
proof
  assume k: "step_key a = step_key b"
  have "inj project_location_key" by (auto intro: injI simp: project_location_key_inject)
  then have "st_locations a = st_locations b" using k by (simp add: step_key_def inj_map_eq_map)
  then show "a = b" using k by (intro project_path_step.equality) (simp_all add: step_key_def)
qed simp

definition without_language :: "project_fact \<Rightarrow> project_fact" where
  "without_language f = f\<lparr>pf_provenance := (pf_provenance f)\<lparr>Language := []\<rparr>\<rparr>"

lemma fact_key_inject: "fact_key a = fact_key b \<longleftrightarrow> without_language a = without_language (b :: project_fact)"
proof
  assume k: "fact_key a = fact_key b"
  have "inj step_key" by (auto intro: injI simp: step_key_inject)
  then have "pf_steps a = pf_steps b" using k by (simp add: fact_key_def inj_map_eq_map)
  moreover have "(pf_provenance a)\<lparr>Language := []\<rparr> = (pf_provenance b)\<lparr>Language := []\<rparr>"
    using k by (intro provenance.equality) (simp_all add: fact_key_def)
  ultimately show "without_language a = without_language b"
    using k by (intro project_fact.equality) (simp_all add: fact_key_def without_language_def)
next
  assume w: "without_language a = without_language b"
  have "fact_key (without_language x) = fact_key x" for x by (simp add: fact_key_def without_language_def)
  then show "fact_key a = fact_key b" using w by metis
qed

lemma compares_fact_less: "compares_by (cmp_of_less (\<lambda>a b. compareProjectFacts a b < 0)) fact_key"
  by (rule compares_by_of_less) (rule compares_by_less [OF compares_facts])

interpretation by_fact: comparison "cmp_of_less (\<lambda>a b. compareProjectFacts a b < 0)"
  by (rule comparison_of_key [OF compares_fact_less])

lemma project_location_less_key:
  "project_location_less a b \<longleftrightarrow> project_location_key a < project_location_key b"
  by (auto simp: project_location_less_def project_location_key_def compareLocationValue_laws less_prod_def)

interpretation by_project_location: comparison "cmp_of_less project_location_less"
  by (rule comparison_of_key [OF compares_by_of_less [OF project_location_less_key]])

text \<open>Canonical arrays do not depend on the producer's order.\<close>

lemma canonical_locations_order_independent:
  assumes "mset ls = mset ms"
  shows "canonicalProjectLocations ls = canonicalProjectLocations ms"
  unfolding canonicalProjectLocations_def
proof (rule by_project_location.order_independent [OF _ assms])
  fix x y :: project_location
  assume "cmp_of_less project_location_less x y \<le> 0" "cmp_of_less project_location_less y x \<le> 0"
  then have "project_location_key x = project_location_key y"
    by (rule compares_by_antisym [OF compares_by_of_less [OF project_location_less_key]])
  then show "x = y" by (simp only: project_location_key_inject)
qed

lemma project_change_less_key:
  "project_change_less a b \<longleftrightarrow> (pc_key a, pc_rule a) < (pc_key b, pc_rule b)"
  by (auto simp: project_change_less_def less_prod_def)

interpretation by_change: comparison "cmp_of_less project_change_less"
  by (rule comparison_of_key [OF compares_by_of_less [OF project_change_less_key]])

lemma canonical_change_key [simp]:
  "pc_key (withCanonicalProjectChangeArrays c) = pc_key c" "pc_rule (withCanonicalProjectChangeArrays c) = pc_rule c"
  "pc_lifecycle (withCanonicalProjectChangeArrays c) = pc_lifecycle c"
  "pc_changed (withCanonicalProjectChangeArrays c) = pc_changed c" "pc_id (withCanonicalProjectChangeArrays c) = pc_id c"
  "pc_anchor (withCanonicalProjectChangeArrays c) = pc_anchor c" "pc_severity (withCanonicalProjectChangeArrays c) = pc_severity c"
  by (simp_all add: withCanonicalProjectChangeArrays_def)

lemma sortProjectChanges_order_independent:
  assumes "mset cs = mset ds" "distinct (map pc_key cs)"
  shows "sortProjectChanges cs = sortProjectChanges ds"
  unfolding sortProjectChanges_def
proof (rule by_change.order_independent_on)
  fix x y
  assume xy: "x \<in> set (map withCanonicalProjectChangeArrays cs)" "y \<in> set (map withCanonicalProjectChangeArrays cs)"
    and le: "cmp_of_less project_change_less x y \<le> 0" "cmp_of_less project_change_less y x \<le> 0"
  have "(pc_key x, pc_rule x) = (pc_key y, pc_rule y)"
    by (rule compares_by_antisym [OF compares_by_of_less [OF project_change_less_key] le])
  then have "pc_key x = pc_key y" by simp
  moreover obtain c d where cd: "c \<in> set cs" "d \<in> set cs"
    and eq: "x = withCanonicalProjectChangeArrays c" "y = withCanonicalProjectChangeArrays d"
    using xy by auto
  ultimately have "pc_key c = pc_key d" by simp
  moreover have "inj_on pc_key (set cs)" using assms(2) by (simp add: distinct_map)
  ultimately have "c = d" using cd by (metis inj_onD)
  then show "x = y" by (simp only: eq)
qed (simp add: assms(1))

text \<open>The order of project facts is total up to the language of their provenance: the comparison is
  0 exactly for facts that agree in everything else, so the sorted facts do not depend on the producer's
  order as long as no two of them differ in language alone.\<close>

theorem project_fact_order_is_total_up_to_language:
  "(compareProjectFacts a b = 0 \<longleftrightarrow> without_language a = without_language b)
   \<and> sorted_wrt (\<lambda>x y. compareProjectFacts x y \<le> 0) (sortProjectFacts fs)
   \<and> (mset fs = mset gs \<and> inj_on without_language (set (map withCanonicalProjectFactArrays fs)) \<longrightarrow>
        sortProjectFacts fs = sortProjectFacts gs)"
proof (intro conjI impI)
  show "compareProjectFacts a b = 0 \<longleftrightarrow> without_language a = without_language b"
    by (simp add: compares_by_zero [OF compares_facts] fact_key_inject)
  show "sorted_wrt (\<lambda>x y. compareProjectFacts x y \<le> 0) (sortProjectFacts fs)"
    using by_fact.sorted_result [of "map withCanonicalProjectFactArrays fs"]
    by (simp add: sortProjectFacts_def compares_by_le [OF compares_fact_less] compares_by_le [OF compares_facts])
  assume a: "mset fs = mset gs \<and> inj_on without_language (set (map withCanonicalProjectFactArrays fs))"
  show "sortProjectFacts fs = sortProjectFacts gs"
    unfolding sortProjectFacts_def
  proof (rule by_fact.order_independent_on)
    fix x y
    assume xy: "x \<in> set (map withCanonicalProjectFactArrays fs)" "y \<in> set (map withCanonicalProjectFactArrays fs)"
      and le: "cmp_of_less (\<lambda>a b. compareProjectFacts a b < 0) x y \<le> 0" "cmp_of_less (\<lambda>a b. compareProjectFacts a b < 0) y x \<le> 0"
    have "without_language x = without_language y"
      using compares_by_antisym [OF compares_fact_less le] by (simp only: fact_key_inject)
    then show "x = y" using a xy by (metis inj_onD)
  qed (use a in simp)
qed

definition sample_fact :: "string \<Rightarrow> string \<Rightarrow> project_fact" where
  "sample_fact key language =
     \<lparr>pf_kind = ''possible_call_reachability'', pf_key = key, pf_steps = [], pf_coverage_refs = [], pf_evidence = [],
      pf_provenance = \<lparr>Producer = ''projectmodel'', FindingKind = ''possible_call_reachability'', Language = language\<rparr>\<rparr>"

lemma canonical_sample_fact [simp]: "withCanonicalProjectFactArrays (sample_fact k l) = sample_fact k l"
  by (simp add: withCanonicalProjectFactArrays_def sample_fact_def canonicalPathSteps_def canonicalStringSlice_def sort_strings_def)

lemma project_fact_order_is_total_up_to_language_witness:
  "sortProjectFacts [sample_fact ''b'' ''go'', sample_fact ''a'' ''go''] = sortProjectFacts [sample_fact ''a'' ''go'', sample_fact ''b'' ''go'']"
  by (rule project_fact_order_is_total_up_to_language [THEN conjunct2, THEN conjunct2, THEN mp])
    (simp add: without_language_def inj_on_def, simp add: sample_fact_def)

text \<open>
  The comment on \<open>sortProjectFacts\<close> promises a total order over every serialized field; two facts that
  differ only in language keep the producer's order.
\<close>

lemma language_twins_keep_producer_order:
  "sortProjectFacts [sample_fact ''a'' ''go'', sample_fact ''a'' ''typescript'']
     \<noteq> sortProjectFacts [sample_fact ''a'' ''typescript'', sample_fact ''a'' ''go'']"
proof -
  have "cmp_of_less (\<lambda>a b. compareProjectFacts a b < 0) (sample_fact ''a'' l) (sample_fact ''a'' l') \<le> 0" for l l'
    unfolding compares_by_le [OF compares_fact_less] by (simp add: fact_key_def sample_fact_def)
  then have "sortProjectFacts [sample_fact ''a'' l, sample_fact ''a'' l'] = [sample_fact ''a'' l, sample_fact ''a'' l']" for l l'
    by (simp add: sortProjectFacts_def)
  then show ?thesis by (simp add: sample_fact_def)
qed

end
