(* ===== verification/SignalReport.thy ===== *)
theory SignalReport
  imports ProjectChanges "HOL-Library.Sublist"
begin

text \<open>
  Building a report and narrowing its view: codesignal.go, report_assembly.go,
  project_report_surface.go, project_lifecycle_state.go, project_coverage_mapping.go,
  project_coverage_complete.go, project_complete_no_match.go, project_provenance.go,
  project_scope_report.go, layer_membership_report.go, signal_view.go and
  signals_withheld.go of pkg/codesignal.  A context is whether it is cancelled; a JSON
  document is represented by the record that is marshalled.
\<close>

section \<open>Input and report\<close>

record scope =
  sc_repository :: string
  sc_revision :: string
  sc_base :: string
  sc_applied :: string
  sc_baseline :: bool

record coverage_group =
  cg_reason :: string
  cg_language :: string
  cg_count :: nat

record file_coverage =
  fv_tracked :: nat
  fv_analyzed :: nat
  fv_unanalyzable :: nat
  fv_unsupported :: "coverage_group list"
  fv_excluded :: "coverage_group list"

record build_input =
  in_scope :: scope
  in_files :: "file_change list"
  in_diagnostics :: "diagnostic list"
  in_coverage :: "file_coverage option"
  in_changes :: "project_change list"
  in_base_changes :: "project_change list"
  in_facts :: "project_fact list"
  in_project_coverage :: "coverage option"
  in_base_project_coverage :: "coverage option"
  in_base_analyzed :: bool
  in_continuity :: "path_continuity list"
  in_runtime_kind :: string
  in_runtime_version :: string
  in_runtime_origin :: string
  in_compiler_version :: string
  in_compiler_origin :: string
  in_language :: string
  in_config_digest :: string
  in_selected_roots :: "string list"
  in_protocol_version :: int
  in_analyzer_version :: string
  in_analyzer_digest :: string
  in_package_manager_kind :: string
  in_package_manager_version :: string
  in_package_manager_origin :: string
  in_head_scope :: "project_scope option"
  in_base_scope :: "project_scope option"
  in_head_membership :: "layer_membership option"
  in_base_membership :: "layer_membership option"
  in_forbidden_declared :: bool
  in_head_model :: "coverage option"
  in_base_model :: "coverage option"
  in_head_bypass :: "coverage option"
  in_base_bypass :: "coverage option"
  in_head_reachability :: "coverage option"
  in_base_reachability :: "coverage option"

record options =
  IncludeResolved :: bool
  Baseline :: bool
  ProjectEnabled :: bool

record provenance_coverage =
  vc_model :: string
  vc_bypass :: string
  vc_reachability :: string

record provenance_revision =
  vr_revision :: string
  vr_coverage :: provenance_coverage

record provenance_analyzer =
  va_version :: string
  va_digest :: string
  va_protocol :: int

record provenance_runtime =
  vt_kind :: string
  vt_version :: string
  vt_origin :: string
  vt_compiler_version :: string
  vt_compiler_origin :: string
  vt_declared_version :: string

record provenance_package_manager =
  vp_kind :: string
  vp_version :: string
  vp_origin :: string

record project_provenance =
  pv_language :: string
  pv_config_digest :: string
  pv_selected_roots :: "string list"
  pv_analyzer :: provenance_analyzer
  pv_runtime :: provenance_runtime
  pv_package_manager :: "provenance_package_manager option"
  pv_head :: provenance_revision
  pv_base :: "provenance_revision option"

record scope_revision_report =
  sr_revision :: string
  sr_roots :: "(string \<times> nat \<times> nat) list"
  sr_matched :: "string list"
  sr_unmatched :: "string list"

record scope_report =
  sp_inclusion :: string
  sp_pattern :: string
  sp_head :: scope_revision_report
  sp_base :: "scope_revision_report option"

record membership_revision_report =
  mb_revision :: string
  mb_analyzed :: nat
  mb_outside :: nat

record membership_report =
  mm_head :: membership_revision_report
  mm_base :: "membership_revision_report option"
  mm_forbidden_declared :: bool
  mm_by_package :: bool

record signals_withheld =
  sw_min_severity :: string
  sw_below :: int
  sw_top :: int
  sw_beyond :: int

record report =
  rp_schema :: string
  rp_scope :: scope
  rp_summary :: summary
  rp_signals :: "signal list"
  rp_diagnostics :: "diagnostic list"
  rp_coverage :: "file_coverage option"
  rp_withheld :: "signals_withheld option"
  rp_changes :: "project_change list"
  rp_facts :: "project_fact list"
  rp_project_summary :: "project_summary option"
  rp_project_coverage :: "coverage option"
  rp_provenance :: "project_provenance option"
  rp_project_scope :: "scope_report option"
  rp_next_actions :: "string list"
  rp_membership :: "membership_report option"

section \<open>Indeterminate comparisons\<close>

definition project_state :: "build_input \<Rightarrow> indeterminacy" where
  "project_state inp =
     \<lparr>headIncomplete = (\<not> completeProjectCoverage (in_project_coverage inp)),
      baseIncomplete = (in_base_analyzed inp \<and> \<not> completeProjectCoverage (in_base_project_coverage inp)),
      inconsistentBase = (\<not> in_base_analyzed inp \<and> length (in_base_changes inp) > 0),
      headRevision = sc_revision (in_scope inp), baseRevision = sc_base (in_scope inp)\<rparr>"

definition projectLifecycleDiagnosticMessage :: "build_input \<Rightarrow> string" where
  "projectLifecycleDiagnosticMessage inp =
     (let reasons =
            (case in_project_coverage inp of
               None \<Rightarrow> [''head coverage unavailable'']
             | Some c \<Rightarrow> if \<not> cv_complete c then [''head coverage incomplete''] else [])
            @ (if in_base_analyzed inp \<or> length (in_base_changes inp) > 0
               then (if \<not> in_base_analyzed inp \<or> in_base_project_coverage inp = None
                     then [''base coverage unavailable'']
                     else if \<not> completeProjectCoverage (in_base_project_coverage inp)
                     then [''base coverage incomplete''] else [])
               else [])
      in if reasons = [] then ''project lifecycle is indeterminate''
         else ''project lifecycle is indeterminate: '' @ join_with ''; '' reasons)"

definition projectLifecycleState :: "build_input \<Rightarrow> indeterminacy \<times> diagnostic list" where
  "projectLifecycleState inp =
     (let state = project_state inp in
      (state,
       (case in_project_coverage inp of
          Some c \<Rightarrow> if \<not> cv_complete c
            then [file_diagnostic [] DiagKindProjectCoverageIncomplete
                    ''project analysis coverage is incomplete; project observations may be partial''] else []
        | None \<Rightarrow> [])
       @ (if any_indeterminacy state
          then [file_diagnostic [] DiagKindProjectLifecycleIndeterminate (projectLifecycleDiagnosticMessage inp)]
          else [])))"

definition modelCoverageDiagnostics :: "build_input \<Rightarrow> diagnostic list" where
  "modelCoverageDiagnostics inp =
     sideModelCoverageDiagnostics (in_head_model inp) ''head'' (sc_revision (in_scope inp))
     @ (if in_base_analyzed inp
        then sideModelCoverageDiagnostics (in_base_model inp) ''base'' (sc_base (in_scope inp)) else [])"

section \<open>The project surface\<close>

definition withoutResolvedProjectChanges :: "project_change list \<Rightarrow> project_change list" where
  "withoutResolvedProjectChanges cs = filter (\<lambda>c. \<not> pc_lifecycle c = ''resolved'') cs"

definition anchorless_diagnostic :: "project_change \<Rightarrow> diagnostic" where
  "anchorless_diagnostic c =
     file_diagnostic [] ''project_observation_missing_primary_path''
       (''project observation semantic_key '' @ quoted (pc_key c)
        @ '' omitted from active project findings: primary_anchor.path is empty'')"

definition filterAnchorlessProjectChanges :: "project_change list \<Rightarrow> project_change list \<times> diagnostic list" where
  "filterAnchorlessProjectChanges cs =
     (filter (\<lambda>c. pl_path (pc_anchor c) \<noteq> []) cs,
      map anchorless_diagnostic (filter (\<lambda>c. pl_path (pc_anchor c) = []) cs))"

definition signalFromProjectChange :: "project_change \<Rightarrow> signal" where
  "signalFromProjectChange c =
     \<lparr>sg_id = pc_id c, sg_fingerprint = pc_fingerprint c, sg_rule = pc_rule c, sg_rule_version = pc_rule_version c,
      sg_kind = pc_kind c, sg_category = pc_category c, sg_severity = pc_severity c, sg_confidence = pc_confidence c,
      sg_lifecycle = pc_lifecycle c, sg_changed = pc_changed c, sg_path = pl_path (pc_anchor c), sg_source_scope = [],
      sg_subject = pc_key c, sg_location = pl_location (pc_anchor c), sg_evidence = pc_evidence c, sg_why = pc_why c,
      sg_recommendation = pc_recommendation c, sg_skill = pc_skill c, sg_provenance = pc_provenance c,
      sg_machine_evidence = pc_machine_evidence c, sg_related = pc_related c, sg_steps = pc_steps c,
      sg_coverage_refs = pc_coverage_refs c\<rparr>"

definition count_change :: "project_summary \<Rightarrow> project_change \<Rightarrow> project_summary" where
  "count_change m c =
     (if pc_lifecycle c = ''introduced'' then m\<lparr>IntroducedChanges := IntroducedChanges m + 1\<rparr>
      else if pc_lifecycle c = ''existing'' then m\<lparr>ExistingChanges := ExistingChanges m + 1\<rparr>
      else if pc_lifecycle c = ''resolved'' then m\<lparr>ResolvedChanges := ResolvedChanges m + 1\<rparr>
      else if pc_lifecycle c = ''baseline'' then m\<lparr>BaselineChanges := BaselineChanges m + 1\<rparr>
      else m)"

definition zero_project_summary :: project_summary where
  "zero_project_summary =
     \<lparr>ActiveChanges = 0, IntroducedChanges = 0, ExistingChanges = 0, ResolvedChanges = 0, BaselineChanges = 0\<rparr>"

record project_surface =
  su_changes :: "project_change list"
  su_facts :: "project_fact list"
  su_summary :: project_summary
  su_coverage :: "coverage option"
  su_signals :: "signal list"
  su_diagnostics :: "diagnostic list"

definition buildProjectReportSurface :: "(string \<Rightarrow> string) \<Rightarrow> build_input \<Rightarrow> string \<Rightarrow> bool \<Rightarrow> project_surface" where
  "buildProjectReportSurface digest inp noBase includeResolved =
     (let (state, stateDiags) = projectLifecycleState inp;
          (classified, classifyDiags) = classifyProjectChanges digest (in_base_analyzed inp) state
             (newUndeterminedContinuity (in_continuity inp)) (in_changes inp) (in_base_changes inp) noBase;
          (anchored, missingDiags) = filterAnchorlessProjectChanges classified;
          counts = foldl count_change zero_project_summary anchored;
          signals = map (\<lambda>c. signalFromProjectChange (withCanonicalProjectChangeArrays c)) anchored;
          active = sortProjectChanges (if includeResolved then anchored else withoutResolvedProjectChanges anchored)
      in \<lparr>su_changes = active, su_facts = sortProjectFacts (in_facts inp),
          su_summary = counts\<lparr>ActiveChanges := length active\<rparr>,
          su_coverage = cloneProjectCoverage (in_project_coverage inp), su_signals = signals,
          su_diagnostics = stateDiags @ modelCoverageDiagnostics inp @ classifyDiags @ missingDiags\<rparr>)"

section \<open>Provenance, scope and membership\<close>

definition hasDiagCode :: "coverage \<Rightarrow> string \<Rightarrow> bool" where
  "hasDiagCode c code = list_ex (\<lambda>d. dd_code d = code) (cv_diagnostics c)"

definition mapCoveragePhase :: "coverage option \<Rightarrow> bool \<Rightarrow> string" where
  "mapCoveragePhase cov scopeNil =
     (case cov of
        None \<Rightarrow> ''not_run''
      | Some c \<Rightarrow>
          if cv_phase c = ''not_requested'' then ''not_requested''
          else if scopeNil \<and> hasDiagCode c DiagBackendUnavailable then ''not_run''
          else if cv_complete c then ''complete'' else ''incomplete'')"

definition provenance_side :: "coverage option \<Rightarrow> coverage option \<Rightarrow> coverage option \<Rightarrow> bool \<Rightarrow> provenance_coverage" where
  "provenance_side model bypass reachability scopeNil =
     \<lparr>vc_model = mapCoveragePhase model scopeNil, vc_bypass = mapCoveragePhase bypass scopeNil,
      vc_reachability = mapCoveragePhase reachability scopeNil\<rparr>"

definition buildProjectProvenance :: "build_input \<Rightarrow> options \<Rightarrow> project_provenance option" where
  "buildProjectProvenance inp opts =
     (if \<not> ProjectEnabled opts \<or> in_language inp \<noteq> ''typescript'' then None
      else Some
        \<lparr>pv_language = ''typescript'', pv_config_digest = in_config_digest inp,
         pv_selected_roots = in_selected_roots inp,
         pv_analyzer = \<lparr>va_version = in_analyzer_version inp, va_digest = in_analyzer_digest inp,
           va_protocol = (if in_protocol_version inp = 0 then 1 else in_protocol_version inp)\<rparr>,
         pv_runtime = \<lparr>vt_kind = in_runtime_kind inp, vt_version = in_runtime_version inp, vt_origin = in_runtime_origin inp,
           vt_compiler_version = in_compiler_version inp, vt_compiler_origin = in_compiler_origin inp, vt_declared_version = []\<rparr>,
         pv_package_manager = (if in_package_manager_kind inp \<noteq> []
           then Some \<lparr>vp_kind = in_package_manager_kind inp, vp_version = in_package_manager_version inp,
             vp_origin = in_package_manager_origin inp\<rparr> else None),
         pv_head = \<lparr>vr_revision = sc_revision (in_scope inp), vr_coverage = provenance_side (in_head_model inp)
           (in_head_bypass inp) (in_head_reachability inp) (in_head_scope inp = None)\<rparr>,
         pv_base = (if in_base_analyzed inp
           then Some \<lparr>vr_revision = sc_base (in_scope inp), vr_coverage = provenance_side (in_base_model inp)
             (in_base_bypass inp) (in_base_reachability inp) (in_base_scope inp = None)\<rparr> else None)\<rparr>)"

definition scope_revision :: "string \<Rightarrow> project_scope \<Rightarrow> scope_revision_report" where
  "scope_revision revision s =
     \<lparr>sr_revision = revision, sr_roots = ps_roots s, sr_matched = ps_matched s, sr_unmatched = ps_unmatched s\<rparr>"

definition buildProjectScope :: "build_input \<Rightarrow> scope_report option" where
  "buildProjectScope inp =
     (if in_language inp \<noteq> ''typescript'' then None
      else case in_head_scope inp of
             None \<Rightarrow> None
           | Some h \<Rightarrow> Some
               \<lparr>sp_inclusion = ps_inclusion h, sp_pattern = ps_pattern h,
                sp_head = scope_revision (sc_revision (in_scope inp)) h,
                sp_base = (if in_base_analyzed inp
                  then map_option (scope_revision (sc_base (in_scope inp))) (in_base_scope inp) else None)\<rparr>)"

definition layerMembershipRevision :: "string \<Rightarrow> layer_membership \<Rightarrow> membership_revision_report" where
  "layerMembershipRevision revision m = \<lparr>mb_revision = revision, mb_analyzed = lm_analyzed m, mb_outside = lm_outside m\<rparr>"

definition buildLayerMembership :: "build_input \<Rightarrow> membership_report option" where
  "buildLayerMembership inp =
     (case in_head_membership inp of
        None \<Rightarrow> None
      | Some h \<Rightarrow> Some
          \<lparr>mm_head = layerMembershipRevision (sc_revision (in_scope inp)) h,
           mm_base = (if in_base_analyzed inp
             then map_option (layerMembershipRevision (sc_base (in_scope inp))) (in_base_membership inp) else None),
           mm_forbidden_declared = in_forbidden_declared inp, mm_by_package = (in_language inp = ''go'')\<rparr>)"

section \<open>Completeness\<close>

definition requiredSideComplete :: "string \<Rightarrow> string \<Rightarrow> bool" where
  "requiredSideComplete model bypass \<longleftrightarrow> model = ''complete'' \<and> (bypass = ''complete'' \<or> bypass = ''not_requested'')"

definition isRequiredCoverageComplete :: "string \<Rightarrow> string \<Rightarrow> string \<Rightarrow> string \<Rightarrow> bool \<Rightarrow> bool" where
  "isRequiredCoverageComplete headModel headBypass baseModel baseBypass baseAnalyzed =
     (if \<not> requiredSideComplete headModel headBypass then False
      else if \<not> baseAnalyzed then True
      else requiredSideComplete baseModel baseBypass)"

definition base_phases :: "project_provenance \<Rightarrow> string \<times> string" where
  "base_phases p =
     (case pv_base p of None \<Rightarrow> ([], []) | Some b \<Rightarrow> (vc_model (vr_coverage b), vc_bypass (vr_coverage b)))"

definition requiredProvenanceComplete :: "project_provenance \<Rightarrow> bool" where
  "requiredProvenanceComplete p =
     isRequiredCoverageComplete (vc_model (vr_coverage (pv_head p))) (vc_bypass (vr_coverage (pv_head p)))
       (fst (base_phases p)) (snd (base_phases p)) (pv_base p \<noteq> None)"

definition HasProjectCoverageDiagnostic :: "diagnostic list \<Rightarrow> bool" where
  "HasProjectCoverageDiagnostic ds =
     list_ex (\<lambda>d. dg_kind d = DiagKindProjectCoverageIncomplete \<or> dg_kind d = DiagKindProjectLifecycleIndeterminate) ds"

definition hasProjectBackendUnavailable :: "diagnostic list \<Rightarrow> bool" where
  "hasProjectBackendUnavailable ds = list_ex (\<lambda>d. dg_kind d = ''project_backend_unavailable'') ds"

definition provenanceFreeCoverageIncomplete :: "report \<Rightarrow> bool" where
  "provenanceFreeCoverageIncomplete r =
     (case rp_project_coverage r of
        Some c \<Rightarrow> if \<not> cv_complete c then True else HasProjectCoverageDiagnostic (rp_diagnostics r)
      | None \<Rightarrow> HasProjectCoverageDiagnostic (rp_diagnostics r))"

definition RequiredCoverageIncomplete :: "report option \<Rightarrow> bool" where
  "RequiredCoverageIncomplete report =
     (case report of
        None \<Rightarrow> False
      | Some r \<Rightarrow>
          (case rp_provenance r of
             Some p \<Rightarrow> \<not> requiredProvenanceComplete p
           | None \<Rightarrow> hasProjectBackendUnavailable (rp_diagnostics r) \<or> provenanceFreeCoverageIncomplete r))"

definition ruleLayerViolationID :: string where
  "ruleLayerViolationID = ''architecture.layer_violation''"

definition ruleLayerBypassID :: string where
  "ruleLayerBypassID = ''architecture.layer_bypass''"

definition hasActiveLayerFinding :: "project_change list \<Rightarrow> bool" where
  "hasActiveLayerFinding cs = list_ex (\<lambda>c. pc_rule c = ruleLayerViolationID \<or> pc_rule c = ruleLayerBypassID) cs"

definition hasUnknownProjectChange :: "project_change list \<Rightarrow> bool" where
  "hasUnknownProjectChange cs = list_ex (\<lambda>c. pc_lifecycle c = ''unknown'') cs"

definition hasPreFilterProjectChanges :: "project_summary option \<Rightarrow> bool" where
  "hasPreFilterProjectChanges summary =
     (case summary of None \<Rightarrow> False
      | Some m \<Rightarrow> IntroducedChanges m > 0 \<or> ExistingChanges m > 0 \<or> ResolvedChanges m > 0)"

definition isCompleteNoMatch ::
  "options \<Rightarrow> project_provenance option \<Rightarrow> build_input \<Rightarrow> project_summary option \<Rightarrow> project_change list \<Rightarrow> bool" where
  "isCompleteNoMatch opts prov inp summary changes =
     (case prov of
        None \<Rightarrow> False
      | Some p \<Rightarrow>
          if \<not> isRequiredCoverageComplete (vc_model (vr_coverage (pv_head p))) (vc_bypass (vr_coverage (pv_head p)))
                 (fst (base_phases p)) (snd (base_phases p)) (in_base_analyzed inp)
          then False
          else if hasActiveLayerFinding changes \<or> hasUnknownProjectChange changes then False
          else if \<not> Baseline opts \<and> hasPreFilterProjectChanges summary then False
          else True)"

definition buildNextActions :: "options \<Rightarrow> bool \<Rightarrow> diagnostic list \<Rightarrow> string list" where
  "buildNextActions opts completeNoMatch ds =
     (if \<not> completeNoMatch then []
      else (if Baseline opts then [''record_baseline''] else []) @ [''review_policy_coverage'']
           @ (if length ds > 0 then [''inspect_diagnostics''] else []))"

section \<open>Build\<close>

definition assembleReport ::
  "options \<Rightarrow> build_input \<Rightarrow> signal list \<Rightarrow> diagnostic list \<Rightarrow> summary \<Rightarrow> project_surface option \<Rightarrow> report" where
  "assembleReport opts inp signals ds summary surface =
     (let base = \<lparr>rp_schema = (if ProjectEnabled opts then ''2'' else ''1''),
            rp_scope = (in_scope inp)\<lparr>sc_baseline := Baseline opts\<rparr>, rp_summary = summary, rp_signals = signals,
            rp_diagnostics = ds, rp_coverage = in_coverage inp, rp_withheld = None, rp_changes = [], rp_facts = [],
            rp_project_summary = None, rp_project_coverage = None, rp_provenance = None, rp_project_scope = None,
            rp_next_actions = [], rp_membership = None\<rparr>
      in case surface of
           None \<Rightarrow> base
         | Some su \<Rightarrow>
             (let prov = buildProjectProvenance inp opts;
                  cnm = isCompleteNoMatch opts prov inp (Some (su_summary su)) (su_changes su)
              in base\<lparr>rp_changes := su_changes su, rp_facts := su_facts su, rp_project_summary := Some (su_summary su),
                   rp_project_coverage := su_coverage su, rp_provenance := prov, rp_project_scope := buildProjectScope inp,
                   rp_membership := buildLayerMembership inp, rp_next_actions := buildNextActions opts cnm ds\<rparr>))"

text \<open>The error is that of a cancelled context.\<close>

definition Build :: "(string \<Rightarrow> string) \<Rightarrow> options \<Rightarrow> bool \<Rightarrow> build_input \<Rightarrow> report option" where
  "Build digest opts cancelled inp =
     (if cancelled then None
      else
       (let noBase = lifecycleWithoutBase (Baseline opts);
            (fileDiags, fileSignals) = processFileChanges digest (in_files inp) (in_diagnostics inp) noBase;
            surface = (if ProjectEnabled opts
              then Some (buildProjectReportSurface digest inp noBase (IncludeResolved opts)) else None);
            signals = fileSignals @ (case surface of None \<Rightarrow> [] | Some su \<Rightarrow> su_signals su);
            ds = sortDiagnostics (fileDiags @ (case surface of None \<Rightarrow> [] | Some su \<Rightarrow> su_diagnostics su));
            (sorted, summary) = finalizeSignals signals (length (in_files inp)) (in_files inp) fileDiags
              (IncludeResolved opts)
        in Some (assembleReport opts inp sorted ds summary surface)))"

section \<open>Narrowing a view\<close>

datatype narrow_error = ErrNilReport | ErrUnknownSeverityFloor | ErrNegativeTop | ErrAlreadyNarrowed

record narrow_options =
  no_min_severity :: string
  no_top :: int

definition validateNarrowing :: "report option \<Rightarrow> narrow_options \<Rightarrow> narrow_error option" where
  "validateNarrowing report opts =
     (case report of
        None \<Rightarrow> Some ErrNilReport
      | Some r \<Rightarrow>
          if rp_withheld r \<noteq> None then Some ErrAlreadyNarrowed
          else if no_top opts < 0 then Some ErrNegativeTop
          else if no_min_severity opts \<noteq> [] \<and> ParseSeverityFloor (no_min_severity opts) = None
          then Some ErrUnknownSeverityFloor else None)"

definition atOrAboveFloor :: "signal list \<Rightarrow> string \<Rightarrow> signal list \<times> int" where
  "atOrAboveFloor signals low =
     (let kept = filter (\<lambda>s. \<not> severityRank (sg_severity s) < severityRank low) signals
      in (kept, int (length signals) - int (length kept)))"

definition leading :: "signal list \<Rightarrow> int \<Rightarrow> signal list \<times> int" where
  "leading signals n =
     (let kept = min n (int (length signals)) in (take (nat kept) signals, int (length signals) - kept))"

definition followSignals :: "project_change list \<Rightarrow> signal list \<Rightarrow> project_change list" where
  "followSignals changes kept = filter (\<lambda>c. pc_id c \<in> sg_id ` set kept) changes"

definition Narrow :: "report option \<Rightarrow> narrow_options \<Rightarrow> narrow_error + report option" where
  "Narrow report opts =
     (case validateNarrowing report opts of
        Some e \<Rightarrow> Inl e
      | None \<Rightarrow>
          if opts = \<lparr>no_min_severity = [], no_top = 0\<rparr> then Inr report
          else case report of
                 None \<Rightarrow> Inl ErrNilReport
               | Some r \<Rightarrow>
                   (let ranked = sortSignals (rp_signals r);
                        (floored, below) = (if no_min_severity opts \<noteq> [] then atOrAboveFloor ranked (no_min_severity opts)
                                            else (ranked, 0));
                        (kept, beyond) = (if no_top opts > 0 then leading floored (no_top opts) else (floored, 0))
                    in Inr (Some (r\<lparr>rp_signals := kept, rp_changes := followSignals (rp_changes r) kept,
                         rp_withheld := Some \<lparr>sw_min_severity = no_min_severity opts, sw_below = below,
                           sw_top = (if no_top opts > 0 then no_top opts else 0), sw_beyond = beyond\<rparr>\<rparr>))))"

section \<open>The record of what was withheld\<close>

datatype withheld_error = NegativeCapOrCount | FloorNotASeverity string | FloorCountWithoutFloor | CapCountWithoutCap | NoNarrowingNamed

definition validate_withheld :: "signals_withheld \<Rightarrow> withheld_error option" where
  "validate_withheld w =
     (if sw_top w < 0 \<or> sw_below w < 0 \<or> sw_beyond w < 0 then Some NegativeCapOrCount
      else if sw_min_severity w \<noteq> [] \<and> ParseSeverityFloor (sw_min_severity w) = None
      then Some (FloorNotASeverity (sw_min_severity w))
      else if sw_min_severity w = [] \<and> sw_below w \<noteq> 0 then Some FloorCountWithoutFloor
      else if sw_top w = 0 \<and> sw_beyond w \<noteq> 0 then Some CapCountWithoutCap
      else if sw_min_severity w = [] \<and> sw_top w = 0 then Some NoNarrowingNamed
      else None)"

text \<open>The marshalled pairs: of the floor and its count, and of the cap and its count, while in effect.\<close>

definition marshal_withheld :: "signals_withheld \<Rightarrow> withheld_error + (string \<times> int) option \<times> (int \<times> int) option" where
  "marshal_withheld w =
     (case validate_withheld w of
        Some e \<Rightarrow> Inl e
      | None \<Rightarrow> Inr (if sw_min_severity w \<noteq> [] then Some (sw_min_severity w, sw_below w) else None,
                    if sw_top w > 0 then Some (sw_top w, sw_beyond w) else None))"

section \<open>Facts on the report\<close>

definition file_signals :: "(string \<Rightarrow> string) \<Rightarrow> options \<Rightarrow> build_input \<Rightarrow> signal list" where
  "file_signals digest opts inp =
     snd (processFileChanges digest (in_files inp) (in_diagnostics inp) (lifecycleWithoutBase (Baseline opts)))"

definition classified_changes :: "(string \<Rightarrow> string) \<Rightarrow> options \<Rightarrow> build_input \<Rightarrow> project_change list" where
  "classified_changes digest opts inp =
     filter (\<lambda>c. pl_path (pc_anchor c) \<noteq> [])
       (fst (classifyProjectChanges digest (in_base_analyzed inp) (project_state inp)
          (newUndeterminedContinuity (in_continuity inp)) (in_changes inp) (in_base_changes inp)
          (lifecycleWithoutBase (Baseline opts))))"

definition mirrored_signals :: "(string \<Rightarrow> string) \<Rightarrow> options \<Rightarrow> build_input \<Rightarrow> signal list" where
  "mirrored_signals digest opts inp =
     map (\<lambda>c. signalFromProjectChange (withCanonicalProjectChangeArrays c)) (classified_changes digest opts inp)"

definition report_signals :: "(string \<Rightarrow> string) \<Rightarrow> options \<Rightarrow> build_input \<Rightarrow> signal list" where
  "report_signals digest opts inp =
     file_signals digest opts inp @ (if ProjectEnabled opts then mirrored_signals digest opts inp else [])"

lemma fst_projectLifecycleState [simp]: "fst (projectLifecycleState inp) = project_state inp"
  by (simp add: projectLifecycleState_def Let_def)

lemma surface_parts:
  fixes digest opts inp
  defines "su \<equiv> buildProjectReportSurface digest inp (lifecycleWithoutBase (Baseline opts)) (IncludeResolved opts)"
  shows "su_signals su = mirrored_signals digest opts inp"
    and "su_changes su = sortProjectChanges (if IncludeResolved opts then classified_changes digest opts inp
           else withoutResolvedProjectChanges (classified_changes digest opts inp))"
    and "su_summary su = (foldl count_change zero_project_summary (classified_changes digest opts inp))
           \<lparr>ActiveChanges := length (su_changes su)\<rparr>"
    and "set (snd (projectLifecycleState inp)) \<subseteq> set (su_diagnostics su)"
    and "su_coverage su = cloneProjectCoverage (in_project_coverage inp)"
  unfolding su_def buildProjectReportSurface_def Let_def mirrored_signals_def classified_changes_def
  by (auto simp: case_prod_beta' filterAnchorlessProjectChanges_def)

lemma set_sortDiagnostics [simp]: "set (sortDiagnostics ds) = set ds"
  by (simp add: sortDiagnostics_def)

lemma Build_parts:
  assumes "Build digest opts cancelled inp = Some r"
  obtains su ds m where
    "su = buildProjectReportSurface digest inp (lifecycleWithoutBase (Baseline opts)) (IncludeResolved opts)"
    "r = assembleReport opts inp (rp_signals r) (rp_diagnostics r) (rp_summary r) (if ProjectEnabled opts then Some su else None)"
    "finalizeSignals (report_signals digest opts inp) (length (in_files inp)) (in_files inp) ds (IncludeResolved opts)
       = (rp_signals r, rp_summary r)"
    "ProjectEnabled opts \<Longrightarrow> set (su_diagnostics su) \<subseteq> set (rp_diagnostics r)"
proof -
  let ?su = "buildProjectReportSurface digest inp (lifecycleWithoutBase (Baseline opts)) (IncludeResolved opts)"
  let ?f = "processFileChanges digest (in_files inp) (in_diagnostics inp) (lifecycleWithoutBase (Baseline opts))"
  let ?surface = "if ProjectEnabled opts then Some ?su else None"
  let ?ds = "sortDiagnostics (fst ?f @ (case ?surface of None \<Rightarrow> [] | Some su \<Rightarrow> su_diagnostics su))"
  let ?fin = "finalizeSignals (report_signals digest opts inp) (length (in_files inp)) (in_files inp) (fst ?f) (IncludeResolved opts)"
  have signals: "snd ?f @ (case ?surface of None \<Rightarrow> [] | Some su \<Rightarrow> su_signals su) = report_signals digest opts inp"
    by (simp add: report_signals_def file_signals_def surface_parts)
  have "r = assembleReport opts inp (fst ?fin) ?ds (snd ?fin) ?surface"
    using assms unfolding Build_def Let_def case_prod_beta' signals by (simp split: if_splits)
  moreover have "rp_signals (assembleReport opts inp s d m su) = s" "rp_diagnostics (assembleReport opts inp s d m su) = d"
    "rp_summary (assembleReport opts inp s d m su) = m" for s d m su
    by (simp_all add: assembleReport_def Let_def split: option.split)
  ultimately have r: "r = assembleReport opts inp (rp_signals r) (rp_diagnostics r) (rp_summary r) ?surface"
    "?fin = (rp_signals r, rp_summary r)" "rp_diagnostics r = ?ds"
    by (metis prod.collapse)+
  show thesis
    by (rule that [of ?su "fst ?f"]) (use r in \<open>auto\<close>)
qed

lemma Build_returns: "\<not> cancelled \<Longrightarrow> Build digest opts cancelled inp \<noteq> None"
  unfolding Build_def Let_def by (simp add: case_prod_beta')

lemma lifecycleWithoutBase_known: "lifecycleWithoutBase b \<in> {''baseline'', ''unknown''}"
  by (simp add: lifecycleWithoutBase_def)

lemma verdict_known:
  assumes "project_verdict hasBase state u noBase h b = Some (l, ch)" "noBase \<in> {''baseline'', ''unknown''}"
  shows "l \<in> set known_lifecycles"
  using assms by (auto simp: project_verdict_def known_lifecycles_def split: option.splits if_splits)

lemma classified_known:
  assumes "c \<in> set (classified_changes digest opts inp)"
  shows "pc_lifecycle c \<in> set known_lifecycles"
proof -
  have "c \<in> set (fst (classifyProjectChanges digest (in_base_analyzed inp) (project_state inp)
      (newUndeterminedContinuity (in_continuity inp)) (in_changes inp) (in_base_changes inp) (lifecycleWithoutBase (Baseline opts))))"
    using assms by (simp add: classified_changes_def)
  from classified_change [OF this] show ?thesis by (rule verdict_known) (rule lifecycleWithoutBase_known)
qed

lemma mirrored_simps [simp]:
  "sg_lifecycle (signalFromProjectChange c) = pc_lifecycle c" "sg_id (signalFromProjectChange c) = pc_id c"
  "sg_changed (signalFromProjectChange c) = pc_changed c" "sg_severity (signalFromProjectChange c) = pc_severity c"
  by (simp_all add: signalFromProjectChange_def)

lemma report_lifecycles_known:
  "list_all (\<lambda>s. sg_lifecycle s \<in> set known_lifecycles) (report_signals digest opts inp)"
proof -
  have "sg_lifecycle s \<in> set known_lifecycles" if s: "s \<in> set (file_signals digest opts inp)" for s
  proof -
    obtain fc where "s \<in> set (snd (process_file digest (lifecycleWithoutBase (Baseline opts)) fc))"
      using s unfolding file_signals_def processFileChanges_signals by auto
    from process_file_typed [OF this]
    have "sg_lifecycle s \<in> {''introduced'', ''existing'', ''unknown'', ''resolved'', lifecycleWithoutBase (Baseline opts)}"
      by (simp add: signal_of_change_def)
    then show ?thesis using lifecycleWithoutBase_known [of "Baseline opts"] by (auto simp: known_lifecycles_def)
  qed
  moreover have "sg_lifecycle s \<in> set known_lifecycles" if "s \<in> set (mirrored_signals digest opts inp)" for s
    using that classified_known [of _ digest opts inp] by (auto simp: mirrored_signals_def)
  ultimately show ?thesis by (auto simp: report_signals_def list_all_iff)
qed

lemma assemble_project:
  "rp_changes (assembleReport opts inp s ds m (Some su)) = su_changes su"
  "rp_project_summary (assembleReport opts inp s ds m (Some su)) = Some (su_summary su)"
  "rp_project_coverage (assembleReport opts inp s ds m (Some su)) = su_coverage su"
  "rp_provenance (assembleReport opts inp s ds m (Some su)) = buildProjectProvenance inp opts"
  "rp_changes (assembleReport opts inp s ds m None) = []"
  "rp_next_actions (assembleReport opts inp s ds m (Some su)) =
     buildNextActions opts (isCompleteNoMatch opts (buildProjectProvenance inp opts) inp (Some (su_summary su)) (su_changes su)) ds"
  by (simp_all add: assembleReport_def Let_def)

text \<open>The changes a report shows are mirrored by its signals.\<close>

lemma report_changes:
  assumes "Build digest opts cancelled inp = Some r" "c \<in> set (rp_changes r)"
  obtains c' where "c' \<in> set (classified_changes digest opts inp)" "c = withCanonicalProjectChangeArrays c'"
    "ProjectEnabled opts" "IncludeResolved opts \<or> pc_lifecycle c' \<noteq> ''resolved''"
proof -
  obtain su ds m where b: "su = buildProjectReportSurface digest inp (lifecycleWithoutBase (Baseline opts)) (IncludeResolved opts)"
    "r = assembleReport opts inp (rp_signals r) (rp_diagnostics r) (rp_summary r) (if ProjectEnabled opts then Some su else None)"
    by (rule Build_parts [OF assms(1)])
  have p: "ProjectEnabled opts"
    using assms(2) assemble_project(5) b(2) by (metis empty_iff empty_set)
  then have "rp_changes r = su_changes su" using assemble_project(1) b(2) by metis
  then have "c \<in> set (su_changes su)" using assms(2) by simp
  then have "c \<in> withCanonicalProjectChangeArrays `
      set (if IncludeResolved opts then classified_changes digest opts inp
           else withoutResolvedProjectChanges (classified_changes digest opts inp))"
    unfolding b(1) surface_parts(2) sortProjectChanges_def by simp
  then show thesis using that p by (auto simp: withoutResolvedProjectChanges_def split: if_splits)
qed

lemma report_accounting:
  assumes "Build digest opts cancelled inp = Some r"
  shows "mset (rp_signals r) = mset (if IncludeResolved opts then report_signals digest opts inp
            else omitResolvedSignals (report_signals digest opts inp))"
    and "ActiveSignals (rp_summary r) = length (rp_signals r)"
    and "IntroducedSignals (rp_summary r) + ExistingSignals (rp_summary r) + ResolvedSignals (rp_summary r)
            + BaselineSignals (rp_summary r) + UnknownSignals (rp_summary r) = length (report_signals digest opts inp)"
    and "\<forall>c \<in> set (rp_changes r). \<exists>s \<in> set (rp_signals r).
            sg_id s = pc_id c \<and> sg_lifecycle s = pc_lifecycle c \<and> sg_changed s = pc_changed c"
proof -
  obtain su ds m where f: "finalizeSignals (report_signals digest opts inp) (length (in_files inp)) (in_files inp) ds (IncludeResolved opts)
       = (rp_signals r, rp_summary r)"
    by (rule Build_parts [OF assms])
  show ms: "mset (rp_signals r) = mset (if IncludeResolved opts then report_signals digest opts inp
            else omitResolvedSignals (report_signals digest opts inp))"
    by (rule finalize_summary(1) [OF f])
  show "ActiveSignals (rp_summary r) = length (rp_signals r)" by (rule finalize_summary(2) [OF f])
  show "IntroducedSignals (rp_summary r) + ExistingSignals (rp_summary r) + ResolvedSignals (rp_summary r)
            + BaselineSignals (rp_summary r) + UnknownSignals (rp_summary r) = length (report_signals digest opts inp)"
    using finalize_summary(3-7) [OF f] lifecycle_total [OF report_lifecycles_known, of digest opts inp] by simp
  show "\<forall>c \<in> set (rp_changes r). \<exists>s \<in> set (rp_signals r).
            sg_id s = pc_id c \<and> sg_lifecycle s = pc_lifecycle c \<and> sg_changed s = pc_changed c"
  proof
    fix c assume c: "c \<in> set (rp_changes r)"
    obtain c' where c': "c' \<in> set (classified_changes digest opts inp)" "c = withCanonicalProjectChangeArrays c'"
      "ProjectEnabled opts" "IncludeResolved opts \<or> pc_lifecycle c' \<noteq> ''resolved''"
      by (rule report_changes [OF assms c])
    let ?s = "signalFromProjectChange c"
    have "?s \<in> set (report_signals digest opts inp)"
      using c'(1-3) by (auto simp: report_signals_def mirrored_signals_def)
    moreover have "set (rp_signals r) = set (if IncludeResolved opts then report_signals digest opts inp
            else omitResolvedSignals (report_signals digest opts inp))"
      using ms by (rule mset_eq_setD)
    ultimately have "?s \<in> set (rp_signals r)" using c' by (auto simp: omitResolvedSignals_def)
    then show "\<exists>s \<in> set (rp_signals r). sg_id s = pc_id c \<and> sg_lifecycle s = pc_lifecycle c \<and> sg_changed s = pc_changed c"
      by (intro bexI [of _ ?s]) simp_all
  qed
qed

text \<open>C23. A report accounts for every signal. Its signals are exactly those of the file changes and the
  mirrors of the project changes, less the resolved ones when they are not included; its summary counts each
  lifecycle over all of them, and the active count is the number of signals shown; and every project change
  it shows is mirrored by a signal with the same ID, lifecycle and changed flag.\<close>

theorem report_accounts_for_every_signal:
  assumes "Build digest opts cancelled inp = Some r"
  shows "mset (rp_signals r) = mset (if IncludeResolved opts then report_signals digest opts inp
            else omitResolvedSignals (report_signals digest opts inp))
    \<and> ActiveSignals (rp_summary r) = length (rp_signals r)
    \<and> IntroducedSignals (rp_summary r) + ExistingSignals (rp_summary r) + ResolvedSignals (rp_summary r)
        + BaselineSignals (rp_summary r) + UnknownSignals (rp_summary r) = length (report_signals digest opts inp)
    \<and> (\<forall>c \<in> set (rp_changes r). \<exists>s \<in> set (rp_signals r).
        sg_id s = pc_id c \<and> sg_lifecycle s = pc_lifecycle c \<and> sg_changed s = pc_changed c)"
  using report_accounting [OF assms] by blast

definition sample_change :: "string \<Rightarrow> string \<Rightarrow> project_change" where
  "sample_change key path =
     \<lparr>pc_key = key, pc_id = [], pc_fingerprint = [], pc_rule = ruleLayerViolationID, pc_rule_version = ''1'',
      pc_backend_version = [], pc_algorithm_version = [], pc_config_digest = [], pc_kind = ruleLayerViolationID,
      pc_category = ''architecture'', pc_severity = ''advisory'', pc_confidence = ''high'', pc_lifecycle = [],
      pc_changed = False, pc_causal_digest = [], pc_anchor = \<lparr>pl_path = path, pl_location = zero_location\<rparr>,
      pc_related = [], pc_steps = [], pc_coverage_refs = [], pc_evidence = [], pc_machine_evidence = [], pc_why = [],
      pc_recommendation = [], pc_skill = [], pc_provenance = \<lparr>Producer = ''projectmodel'', FindingKind = [], Language = []\<rparr>\<rparr>"

definition sample_input :: "project_change list \<Rightarrow> bool \<Rightarrow> build_input" where
  "sample_input changes full =
     \<lparr>in_scope = \<lparr>sc_repository = [], sc_revision = ''h'', sc_base = ''b'', sc_applied = [], sc_baseline = False\<rparr>,
      in_files = [], in_diagnostics = [], in_coverage = None, in_changes = changes, in_base_changes = [], in_facts = [],
      in_project_coverage = Some \<lparr>cv_phase = [], cv_complete = full, cv_counts = [], cv_budgets = [], cv_diagnostics = []\<rparr>,
      in_base_project_coverage = Some \<lparr>cv_phase = [], cv_complete = True, cv_counts = [], cv_budgets = [], cv_diagnostics = []\<rparr>,
      in_base_analyzed = True, in_continuity = [], in_runtime_kind = [], in_runtime_version = [], in_runtime_origin = [],
      in_compiler_version = [], in_compiler_origin = [], in_language = ''go'', in_config_digest = [], in_selected_roots = [],
      in_protocol_version = 0, in_analyzer_version = [], in_analyzer_digest = [], in_package_manager_kind = [],
      in_package_manager_version = [], in_package_manager_origin = [], in_head_scope = None, in_base_scope = None,
      in_head_membership = None, in_base_membership = None, in_forbidden_declared = False, in_head_model = None,
      in_base_model = None, in_head_bypass = None, in_base_bypass = None, in_head_reachability = None,
      in_base_reachability = None\<rparr>"

definition sample_options :: options where
  "sample_options = \<lparr>IncludeResolved = False, Baseline = False, ProjectEnabled = True\<rparr>"

definition sample_report :: "bool \<Rightarrow> report" where
  "sample_report full =
     the (Build id sample_options False (sample_input [sample_change ''k1'' ''a.go'', sample_change ''k2'' ''b.go''] full))"

lemma sample_report_built:
  "Build id sample_options False (sample_input [sample_change ''k1'' ''a.go'', sample_change ''k2'' ''b.go''] full)
     = Some (sample_report full)"
  unfolding sample_report_def
  by (rule option.collapse [symmetric]) (rule Build_returns, simp)

lemma report_accounts_for_every_signal_witness:
  "ActiveSignals (rp_summary (sample_report True)) = length (rp_signals (sample_report True))"
  using report_accounts_for_every_signal [OF sample_report_built [of True]] by blast

section \<open>Incomplete coverage\<close>

definition comparison_indeterminate :: "build_input \<Rightarrow> bool" where
  "comparison_indeterminate inp \<longleftrightarrow>
     \<not> completeProjectCoverage (in_project_coverage inp)
     \<or> in_base_analyzed inp \<and> \<not> completeProjectCoverage (in_base_project_coverage inp)
     \<or> \<not> in_base_analyzed inp \<and> in_base_changes inp \<noteq> []"

lemma any_project_state: "any_indeterminacy (project_state inp) \<longleftrightarrow> comparison_indeterminate inp"
  by (auto simp: any_indeterminacy_def project_state_def comparison_indeterminate_def)

lemma indeterminate_changes:
  assumes "comparison_indeterminate inp" "c \<in> set (classified_changes digest opts inp)"
  shows "pc_lifecycle c = ''unknown'' \<and> \<not> pc_changed c"
proof -
  have "c \<in> set (fst (classifyProjectChanges digest (in_base_analyzed inp) (project_state inp)
      (newUndeterminedContinuity (in_continuity inp)) (in_changes inp) (in_base_changes inp) (lifecycleWithoutBase (Baseline opts))))"
    using assms(2) by (simp add: classified_changes_def)
  from classified_change [OF this] show ?thesis
    using assms(1) any_project_state by (auto simp: project_verdict_def split: option.splits if_splits)
qed

lemma count_unknown:
  "(\<And>c. c \<in> set cs \<Longrightarrow> pc_lifecycle c = ''unknown'') \<Longrightarrow> foldl count_change m cs = m"
  by (induction cs arbitrary: m) (simp_all add: count_change_def)

lemma indeterminate_diagnostic:
  assumes "comparison_indeterminate inp"
  shows "\<exists>d \<in> set (snd (projectLifecycleState inp)). dg_kind d = DiagKindProjectLifecycleIndeterminate"
  using assms any_project_state by (simp add: projectLifecycleState_def Let_def file_diagnostic_def)

text \<open>C21. Incomplete coverage never yields a verdict. When a side's coverage is incomplete, or base
  observations come without an analyzed base, no project change of the report is introduced, existing,
  resolved or changed: all are unknown; the project summary counts none of them; the report says so in a
  diagnostic; it recommends no next action while a change is shown; and outside TypeScript it is reported as
  incomplete.\<close>

theorem incomplete_coverage_withholds_verdicts:
  assumes "Build digest opts cancelled inp = Some r" "ProjectEnabled opts" "comparison_indeterminate inp"
  shows "(\<forall>c \<in> set (rp_changes r). pc_lifecycle c = ''unknown'' \<and> \<not> pc_changed c)
    \<and> (\<exists>n. rp_project_summary r = Some (zero_project_summary\<lparr>ActiveChanges := n\<rparr>) \<and> n = length (rp_changes r))
    \<and> (\<exists>d \<in> set (rp_diagnostics r). dg_kind d = DiagKindProjectLifecycleIndeterminate)
    \<and> (rp_changes r \<noteq> [] \<longrightarrow> rp_next_actions r = [])
    \<and> (in_language inp \<noteq> ''typescript'' \<longrightarrow> RequiredCoverageIncomplete (Some r))"
proof -
  obtain su ds m where b: "su = buildProjectReportSurface digest inp (lifecycleWithoutBase (Baseline opts)) (IncludeResolved opts)"
    "r = assembleReport opts inp (rp_signals r) (rp_diagnostics r) (rp_summary r) (if ProjectEnabled opts then Some su else None)"
    "set (su_diagnostics su) \<subseteq> set (rp_diagnostics r)"
    by (rule Build_parts [OF assms(1)]) (use assms(2) in blast)
  have r: "rp_changes r = su_changes su" "rp_project_summary r = Some (su_summary su)"
    "rp_provenance r = buildProjectProvenance inp opts"
    "rp_next_actions r = buildNextActions opts (isCompleteNoMatch opts (buildProjectProvenance inp opts) inp
       (Some (su_summary su)) (su_changes su)) (rp_diagnostics r)"
    using assemble_project b(2) assms(2) by metis+
  have changes: "pc_lifecycle c = ''unknown'' \<and> \<not> pc_changed c" if c: "c \<in> set (rp_changes r)" for c
  proof -
    obtain c' where "c' \<in> set (classified_changes digest opts inp)" "c = withCanonicalProjectChangeArrays c'"
      by (rule report_changes [OF assms(1) c])
    then show ?thesis using indeterminate_changes [OF assms(3)] by simp
  qed
  have "foldl count_change zero_project_summary (classified_changes digest opts inp) = zero_project_summary"
    using indeterminate_changes [OF assms(3)] by (intro count_unknown) blast
  then have summary: "su_summary su = zero_project_summary\<lparr>ActiveChanges := length (su_changes su)\<rparr>"
    unfolding b(1) surface_parts(3) by simp
  obtain d where d: "d \<in> set (rp_diagnostics r)" "dg_kind d = DiagKindProjectLifecycleIndeterminate"
    using indeterminate_diagnostic [OF assms(3)] surface_parts(4) [of inp digest opts] b(1,3) by blast
  have "rp_next_actions r = []" if "rp_changes r \<noteq> []"
  proof -
    obtain c where "c \<in> set (rp_changes r)" using \<open>rp_changes r \<noteq> []\<close> by (cases "rp_changes r") auto
    then have "hasUnknownProjectChange (su_changes su)"
      using changes r(1) by (auto simp: hasUnknownProjectChange_def list_ex_iff)
    then have "\<not> isCompleteNoMatch opts (buildProjectProvenance inp opts) inp (Some (su_summary su)) (su_changes su)"
      by (auto simp: isCompleteNoMatch_def split: option.split)
    then show ?thesis unfolding r(4) by (simp add: buildNextActions_def)
  qed
  moreover have "RequiredCoverageIncomplete (Some r)" if "in_language inp \<noteq> ''typescript''"
  proof -
    have "rp_provenance r = None" using r(3) that by (simp add: buildProjectProvenance_def)
    moreover have "HasProjectCoverageDiagnostic (rp_diagnostics r)"
      using d by (auto simp: HasProjectCoverageDiagnostic_def list_ex_iff)
    ultimately show ?thesis
      by (auto simp: RequiredCoverageIncomplete_def provenanceFreeCoverageIncomplete_def split: option.split)
  qed
  moreover have "rp_project_summary r = Some (zero_project_summary\<lparr>ActiveChanges := length (rp_changes r)\<rparr>)"
    using summary r(1,2) by simp
  ultimately show ?thesis using changes d by blast
qed

lemma incomplete_coverage_withholds_verdicts_witness:
  "RequiredCoverageIncomplete (Some (sample_report False))
   \<and> (\<exists>d \<in> set (rp_diagnostics (sample_report False)). dg_kind d = DiagKindProjectLifecycleIndeterminate)"
proof -
  have "comparison_indeterminate (sample_input cs False)" for cs
    by (simp add: comparison_indeterminate_def sample_input_def completeProjectCoverage_def)
  moreover have "in_language (sample_input cs False) \<noteq> ''typescript''" for cs by (simp add: sample_input_def)
  moreover have "ProjectEnabled sample_options" by (simp add: sample_options_def)
  ultimately show ?thesis
    using incomplete_coverage_withholds_verdicts [OF sample_report_built [of False]] by blast
qed

section \<open>Facts on narrowing\<close>

lemma ParseSeverityFloor_known: "ParseSeverityFloor v = None \<longleftrightarrow> v \<notin> set severityOrder"
  by (simp add: ParseSeverityFloor_def)

definition at_floor :: "string \<Rightarrow> signal \<Rightarrow> bool" where
  "at_floor low s \<longleftrightarrow> low = [] \<or> severityRank (sg_severity s) \<ge> severityRank low"

definition view_length :: "narrow_options \<Rightarrow> nat \<Rightarrow> nat" where
  "view_length opts n = (if no_top opts > 0 then min (nat (no_top opts)) n else n)"

text \<open>What narrowing gives, spelled out over the ranked signals.\<close>

lemma Narrow_result:
  assumes "Narrow (Some r) opts = Inr (Some v)" "opts \<noteq> \<lparr>no_min_severity = [], no_top = 0\<rparr>"
  shows "validateNarrowing (Some r) opts = None"
    and "rp_signals v = take (view_length opts (length (filter (at_floor (no_min_severity opts)) (sortSignals (rp_signals r)))))
           (filter (at_floor (no_min_severity opts)) (sortSignals (rp_signals r)))"
    and "rp_withheld v = Some
           \<lparr>sw_min_severity = no_min_severity opts,
            sw_below = int (length (rp_signals r)) - int (length (filter (at_floor (no_min_severity opts)) (rp_signals r))),
            sw_top = max 0 (no_top opts),
            sw_beyond = int (length (filter (at_floor (no_min_severity opts)) (rp_signals r))) - int (length (rp_signals v))\<rparr>"
    and "v = r\<lparr>rp_signals := rp_signals v, rp_changes := followSignals (rp_changes r) (rp_signals v), rp_withheld := rp_withheld v\<rparr>"
proof -
  let ?low = "no_min_severity opts" and ?ranked = "sortSignals (rp_signals r)"
  let ?floored = "filter (at_floor ?low) ?ranked"
  show valid: "validateNarrowing (Some r) opts = None"
    using assms(1) by (cases "validateNarrowing (Some r) opts") (simp_all add: Narrow_def)
  have same: "length ?floored = length (filter (at_floor ?low) (rp_signals r))"
    by (metis mset_filter mset_sortSignals size_mset)
  have fl: "(if ?low \<noteq> [] then atOrAboveFloor ?ranked ?low else (?ranked, 0))
      = (?floored, int (length (rp_signals r)) - int (length ?floored))"
    by (auto simp: atOrAboveFloor_def at_floor_def [abs_def] Let_def not_less)
  have ld: "(if no_top opts > 0 then leading ?floored (no_top opts) else (?floored, 0))
      = (take (view_length opts (length ?floored)) ?floored,
         int (length ?floored) - int (view_length opts (length ?floored)))"
    by (auto simp: leading_def view_length_def Let_def min_def)
  have len: "length (take (view_length opts (length ?floored)) ?floored) = view_length opts (length ?floored)"
    by (simp add: view_length_def)
  have v: "v = r\<lparr>rp_signals := take (view_length opts (length ?floored)) ?floored,
      rp_changes := followSignals (rp_changes r) (take (view_length opts (length ?floored)) ?floored),
      rp_withheld := Some \<lparr>sw_min_severity = ?low, sw_below = int (length (rp_signals r)) - int (length ?floored),
        sw_top = (if no_top opts > 0 then no_top opts else 0),
        sw_beyond = int (length ?floored) - int (view_length opts (length ?floored))\<rparr>\<rparr>"
    using assms valid unfolding Narrow_def Let_def by (simp only: option.case if_False fl ld prod.case sum.inject option.inject)
  show "rp_signals v = take (view_length opts (length ?floored)) ?floored" using v by simp
  then show "rp_withheld v = Some
           \<lparr>sw_min_severity = ?low, sw_below = int (length (rp_signals r)) - int (length (filter (at_floor ?low) (rp_signals r))),
            sw_top = max 0 (no_top opts),
            sw_beyond = int (length (filter (at_floor ?low) (rp_signals r))) - int (length (rp_signals v))\<rparr>"
    using v len same by simp
  show "v = r\<lparr>rp_signals := rp_signals v, rp_changes := followSignals (rp_changes r) (rp_signals v), rp_withheld := rp_withheld v\<rparr>"
    using v by simp
qed


lemma Narrow_returns:
  assumes "validateNarrowing (Some r) opts = None"
  obtains v where "Narrow (Some r) opts = Inr (Some v)"
proof -
  have "\<exists>v. Narrow (Some r) opts = Inr (Some v)" unfolding Narrow_def Let_def by (simp add: assms case_prod_beta')
  then show thesis using that by blast
qed

lemma Build_not_narrowed:
  assumes "Build digest opts cancelled inp = Some r"
  shows "rp_withheld r = None"
proof -
  obtain su where "r = assembleReport opts inp (rp_signals r) (rp_diagnostics r) (rp_summary r) su"
    by (rule Build_parts [OF assms]) blast
  moreover have "rp_withheld (assembleReport opts inp s ds m su) = None" for s ds m
    by (simp add: assembleReport_def Let_def split: option.split)
  ultimately show ?thesis by metis
qed


text \<open>A narrowed view does not depend on the order of the report's signals: two reports that differ only
  in that order, with no two signals that the order cannot tell apart, give the same view or the same error.\<close>

theorem narrowing_ignores_report_order:
  assumes "mset (rp_signals r) = mset ss" "inj_on signal_order_key (set (rp_signals r))"
    and "opts \<noteq> \<lparr>no_min_severity = [], no_top = 0\<rparr>"
  shows "Narrow (Some (r\<lparr>rp_signals := ss\<rparr>)) opts = Narrow (Some r) opts"
proof -
  have "stable_sort compareSignals (rp_signals r) = stable_sort compareSignals ss"
  proof (rule by_signal.order_independent_on [OF _ assms(1)])
    fix x y assume "x \<in> set (rp_signals r)" "y \<in> set (rp_signals r)" "compareSignals x y \<le> 0" "compareSignals y x \<le> 0"
    then show "x = y" using assms(2) by (auto simp: compareSignals_le inj_on_def)
  qed
  then have "sortSignals ss = sortSignals (rp_signals r)" by (simp add: sortSignals_def)
  moreover have "validateNarrowing (Some (r\<lparr>rp_signals := ss\<rparr>)) opts = validateNarrowing (Some r) opts"
    by (simp add: validateNarrowing_def)
  ultimately show ?thesis using assms(3) unfolding Narrow_def Let_def by (simp add: case_prod_beta' cong: option.case_cong)
qed

lemma narrowing_ignores_report_order_witness:
  "Narrow (Some ((sample_report True)\<lparr>rp_signals := [sample_signal ''b.go'' 5, sample_signal ''a.go'' 9]\<rparr>)) \<lparr>no_min_severity = [], no_top = 1\<rparr>
     = Narrow (Some ((sample_report True)\<lparr>rp_signals := [sample_signal ''a.go'' 9, sample_signal ''b.go'' 5]\<rparr>)) \<lparr>no_min_severity = [], no_top = 1\<rparr>"
proof -
  let ?r = "(sample_report True)\<lparr>rp_signals := [sample_signal ''a.go'' 9, sample_signal ''b.go'' 5]\<rparr>"
  have "sg_path (sample_signal p d) = p" for p d by (simp add: sample_signal_def)
  then have "inj_on signal_order_key (set (rp_signals ?r))" by (auto simp: inj_on_def signal_order_key_def)
  from narrowing_ignores_report_order [OF _ this, of "[sample_signal ''b.go'' 5, sample_signal ''a.go'' 9]" "\<lparr>no_min_severity = [], no_top = 1\<rparr>"]
  show ?thesis by simp
qed

end
