(* ===== verification/LayerRules.thy ===== *)
theory LayerRules
  imports SignalReport
begin

text \<open>
  The architecture rules of pkg/codesignal: layer violations of Go packages and TypeScript
  files, the TypeScript edges the rules cannot place, and layer bypasses
  (rule_layer_violation.go, rule_layer_violation_match.go, rule_layer_violation_go_edges.go,
  rule_layer_violation_ts_edges.go, rule_layer_violation_ts_unevaluated.go,
  rule_layer_bypass.go, rule_layer_bypass_path.go).

  \<open>strconv.Quote\<close> takes its table of printable code points as the argument \<open>printable\<close>.
\<close>

section \<open>Policy and edges\<close>

record import_edge =
  ie_from :: string
  ie_to :: string
  ie_kind :: string
  ie_site :: string
  ie_resolution :: string

record architecture_layer =
  al_name :: string
  al_prefixes :: "string list"

record forbidden_import =
  fi_from :: string
  fi_to :: string

record layer_policy =
  lp_layers :: "architecture_layer list"
  lp_forbidden :: "forbidden_import list"
  lp_exclude_type_only :: bool

type_synonym pair_key = "string \<times> string"
type_synonym layer_pair = "string \<times> string"

definition buildForbiddenLayerPairSet :: "layer_policy \<Rightarrow> layer_pair list" where
  "buildForbiddenLayerPairSet p = map (\<lambda>f. (fi_from f, fi_to f)) (lp_forbidden p)"

definition layerContainsDir :: "architecture_layer \<Rightarrow> string \<Rightarrow> bool" where
  "layerContainsDir layer dir = list_ex (\<lambda>p. LayerPrefixContains p dir) (al_prefixes layer)"

definition matchLayer :: "architecture_layer list \<Rightarrow> string \<Rightarrow> architecture_layer option" where
  "matchLayer layers dir = find (\<lambda>l. layerContainsDir l dir) layers"

definition forbiddenInternalPair ::
  "architecture_layer list \<Rightarrow> layer_pair list \<Rightarrow> import_edge \<Rightarrow> (pair_key \<times> layer_pair) option" where
  "forbiddenInternalPair layers forbidden e =
     (if ie_kind e \<noteq> ''internal'' then None
      else (let importer = trim_prefix ''package:'' (ie_from e);
                importee = trim_prefix ''package:'' (ie_to e)
            in case (matchLayer layers importer, matchLayer layers importee) of
                 (Some f, Some t) \<Rightarrow>
                   if (al_name f, al_name t) \<notin> set forbidden then None
                   else Some ((importer, importee), (al_name f, al_name t))
               | _ \<Rightarrow> None))"

definition evaluatedTSEdgeKind :: "string \<Rightarrow> bool \<Rightarrow> bool" where
  "evaluatedTSEdgeKind kind excludeTypeOnly =
     (if kind \<in> {''import'', ''reexport'', ''commonjs_require'', ''dynamic_import''} then True
      else if kind = ''type_only'' then \<not> excludeTypeOnly
      else False)"

definition forbiddenTSPair ::
  "architecture_layer list \<Rightarrow> layer_pair list \<Rightarrow> bool \<Rightarrow> import_edge \<Rightarrow> (pair_key \<times> layer_pair) option" where
  "forbiddenTSPair layers forbidden excludeTypeOnly e =
     (if \<not> evaluatedTSEdgeKind (ie_kind e) excludeTypeOnly then None
      else case (cut_prefix ''file:'' (ie_from e), cut_prefix ''file:'' (ie_to e)) of
             (Some importer, Some importee) \<Rightarrow>
               (case (matchLayer layers importer, matchLayer layers importee) of
                  (Some f, Some t) \<Rightarrow>
                    if (al_name f, al_name t) \<notin> set forbidden then None
                    else Some ((importer, importee), (al_name f, al_name t))
                | _ \<Rightarrow> None)
           | _ \<Rightarrow> None)"

text \<open>The groups of edges by pair, and the layers of each pair.\<close>

type_synonym edge_groups = "(pair_key \<times> import_edge list) list"
type_synonym group_layers = "(pair_key \<times> layer_pair) list"

definition edges_of :: "edge_groups \<Rightarrow> pair_key \<Rightarrow> import_edge list" where
  "edges_of groups k = (case map_of groups k of None \<Rightarrow> [] | Some es \<Rightarrow> es)"

definition add_edge ::
  "(import_edge \<Rightarrow> (pair_key \<times> layer_pair) option) \<Rightarrow> edge_groups \<times> group_layers \<Rightarrow> import_edge \<Rightarrow> edge_groups \<times> group_layers" where
  "add_edge pair acc e =
     (case acc of (groups, layers) \<Rightarrow>
        case pair e of
          None \<Rightarrow> (groups, layers)
        | Some (k, ls) \<Rightarrow> (AList.update k (edges_of groups k @ [e]) groups, AList.update k ls layers))"

definition groupForbiddenInternalEdges :: "import_edge list \<Rightarrow> layer_policy \<Rightarrow> edge_groups \<times> group_layers" where
  "groupForbiddenInternalEdges edges p =
     foldl (add_edge (forbiddenInternalPair (lp_layers p) (buildForbiddenLayerPairSet p))) ([], []) edges"

definition groupForbiddenTSEdges :: "import_edge list \<Rightarrow> layer_policy \<Rightarrow> edge_groups \<times> group_layers" where
  "groupForbiddenTSEdges edges p =
     foldl (add_edge (forbiddenTSPair (lp_layers p) (buildForbiddenLayerPairSet p) (lp_exclude_type_only p))) ([], []) edges"

definition pair_key_less :: "pair_key \<Rightarrow> pair_key \<Rightarrow> bool" where
  "pair_key_less a b = (if fst a \<noteq> fst b then fst a < fst b else snd a < snd b)"

definition sortedLayerPairKeys :: "edge_groups \<Rightarrow> pair_key list" where
  "sortedLayerPairKeys groups = stable_sort (cmp_of_less pair_key_less) (map fst groups)"

section \<open>Layer violations\<close>

text \<open>The last colon splits a site into a file and a line.\<close>

definition split_last_colon :: "string \<Rightarrow> (string \<times> string) option" where
  "split_last_colon s =
     (let tail = takeWhile (\<lambda>ch. ch \<noteq> CHR '':'') (rev s) in
      if length tail = length s then None
      else Some (take (length s - length tail - 1) s, rev tail))"

definition parseSiteLocation :: "string \<Rightarrow> project_location" where
  "parseSiteLocation site =
     (case split_last_colon site of
        None \<Rightarrow> \<lparr>pl_path = site, pl_location = zero_location\<rparr>
      | Some (path, line) \<Rightarrow>
          (case atoi line of
             None \<Rightarrow> \<lparr>pl_path = path, pl_location = zero_location\<rparr>
           | Some row \<Rightarrow>
               if row \<le> 0 then \<lparr>pl_path = path, pl_location = zero_location\<rparr>
               else \<lparr>pl_path = path, pl_location = zero_location\<lparr>StartRow := nat (row - 1)\<rparr>\<rparr>))"

definition zero_project_location :: project_location where
  "zero_project_location = \<lparr>pl_path = [], pl_location = zero_location\<rparr>"

definition allEdgesTypeOnly :: "import_edge list \<Rightarrow> bool" where
  "allEdgesTypeOnly edges \<longleftrightarrow> list_all (\<lambda>e. \<not> ie_kind e \<noteq> ''type_only'') edges \<and> length edges > 0"

definition zero_change :: project_change where
  "zero_change =
     \<lparr>pc_key = [], pc_id = [], pc_fingerprint = [], pc_rule = [], pc_rule_version = [], pc_backend_version = [],
      pc_algorithm_version = [], pc_config_digest = [], pc_kind = [], pc_category = [], pc_severity = [],
      pc_confidence = [], pc_lifecycle = [], pc_changed = False, pc_causal_digest = [], pc_anchor = zero_project_location,
      pc_related = [], pc_steps = [], pc_coverage_refs = [], pc_evidence = [], pc_machine_evidence = [], pc_why = [],
      pc_recommendation = [], pc_skill = [], pc_provenance = \<lparr>Producer = [], FindingKind = [], Language = []\<rparr>\<rparr>"

definition layerViolationWhyItMatters :: string where
  \<open>layerViolationWhyItMatters =
    ''Import edges that cross a configured layer boundary erode the architecture the team claims to follow, so drift compounds across packages that look fine in isolation.''\<close>

definition layerViolationRecommendation :: string where
  \<open>layerViolationRecommendation =
    ''Move the dependency behind an allowed boundary (interface in the lower layer, invert the import, or relocate the shared type), or update the explicit layer policy if the edge is intentional.''\<close>

definition layerBypassWhyItMatters :: string where
  \<open>layerBypassWhyItMatters =
    ''A statically resolved call path from a handler-shaped source to a pinned sink that structurally never passes through a required intermediate layer means that layer's invariants (validation, authorization, caching, ...) can be silently skipped by this route, even if a separate compliant path also exists.''\<close>

definition layerBypassRecommendation :: string where
  \<open>layerBypassRecommendation =
    ''Route the call through the required layer, or add an explicit exception/allowlist entry if the bypass is intentional so it stops surfacing as drift.''\<close>

text \<open>
  The sites of a group are sorted; a group always has an edge, so the first site exists.
\<close>

definition group_sites :: "import_edge list \<Rightarrow> project_location list" where
  "group_sites edges = map parseSiteLocation (sort_strings (map ie_site edges))"

definition violation_evidence :: "pair_key \<Rightarrow> layer_pair \<Rightarrow> string \<Rightarrow> import_edge list \<Rightarrow> (string \<times> string) list" where
  "violation_evidence k layers language edges =
     [(''importer'', fst k), (''importee'', snd k), (''layer_from'', fst layers), (''layer_to'', snd layers),
      (''rule'', fst layers @ ''->'' @ snd layers)]
     @ (if language \<noteq> [] then [(''language'', language)] else [])
     @ (if allEdgesTypeOnly edges then [(''removed_if_set'', ''exclude_type_only_edges'')] else [])"

definition layerViolationChange ::
  "pair_key \<Rightarrow> import_edge list \<Rightarrow> layer_pair \<Rightarrow> string \<Rightarrow> string \<Rightarrow> string \<Rightarrow> string \<Rightarrow> project_change" where
  "layerViolationChange k edges layers ruleVersion backendVersion configDigest language =
     zero_change
       \<lparr>pc_key := ''architecture.layer_violation:'' @ fst k @ ''->'' @ snd k, pc_rule := ruleLayerViolationID,
        pc_rule_version := ruleVersion, pc_backend_version := backendVersion, pc_config_digest := configDigest,
        pc_kind := ''architecture.layer_violation'', pc_category := ''architecture'', pc_severity := ''advisory'',
        pc_confidence := ''high'', pc_machine_evidence := violation_evidence k layers language edges,
        pc_anchor := hd (group_sites edges), pc_related := tl (group_sites edges),
        pc_evidence := fst k @ '' imports '' @ snd k @ '' (layer '' @ fst layers @ '' -> '' @ snd layers @ '' is forbidden)'',
        pc_why := layerViolationWhyItMatters, pc_recommendation := layerViolationRecommendation,
        pc_provenance := \<lparr>Producer = ''projectmodel'', FindingKind = ''architecture.layer_violation'', Language = []\<rparr>\<rparr>"

text \<open>The changes of all groups, in the order of their keys.\<close>

definition group_changes ::
  "edge_groups \<times> group_layers \<Rightarrow> string \<Rightarrow> string \<Rightarrow> string \<Rightarrow> string \<Rightarrow> project_change list" where
  "group_changes gl ruleVersion backendVersion configDigest language =
     map (\<lambda>k. layerViolationChange k (edges_of (fst gl) k) (the (map_of (snd gl) k))
            ruleVersion backendVersion configDigest language) (sortedLayerPairKeys (fst gl))"

definition EvaluateGoLayerViolations ::
  "import_edge list \<Rightarrow> layer_policy \<Rightarrow> string \<Rightarrow> string \<Rightarrow> string \<Rightarrow> project_change list \<times> diagnostic list" where
  "EvaluateGoLayerViolations edges p ruleVersion backendVersion configDigest =
     (if length (lp_layers p) = 0 \<or> length (lp_forbidden p) = 0 then ([], [])
      else (group_changes (groupForbiddenInternalEdges edges p) ruleVersion backendVersion configDigest [], []))"

section \<open>TypeScript edges that cannot be placed\<close>

definition nonSourceExtensions :: "string list" where
  "nonSourceExtensions =
     [''.json'', ''.css'', ''.scss'', ''.sass'', ''.less'', ''.styl'',
      ''.svg'', ''.png'', ''.jpg'', ''.jpeg'', ''.gif'', ''.webp'', ''.avif'', ''.ico'', ''.bmp'',
      ''.woff'', ''.woff2'', ''.ttf'', ''.otf'', ''.eot'',
      ''.mp3'', ''.mp4'', ''.webm'', ''.ogg'', ''.wav'',
      ''.html'', ''.md'', ''.mdx'', ''.txt'', ''.csv'', ''.yaml'', ''.yml'', ''.toml'',
      ''.graphql'', ''.gql'', ''.wasm'']"

definition isNonSourceSpecifier :: "string \<Rightarrow> bool" where
  "isNonSourceSpecifier specifier \<longleftrightarrow>
     to_lower (path_ext (takeWhile (\<lambda>ch. ch \<noteq> CHR ''?'' \<and> ch \<noteq> CHR ''#'') specifier)) \<in> set nonSourceExtensions"

definition located_diagnostic :: "string \<Rightarrow> string \<Rightarrow> string \<Rightarrow> string \<Rightarrow> diagnostic" where
  "located_diagnostic path kind message site =
     (file_diagnostic path kind message)\<lparr>dg_location := Some (pl_location (parseSiteLocation site))\<rparr>"

definition unresolvedImportDiagnostic :: "(nat \<Rightarrow> bool) \<Rightarrow> string \<Rightarrow> string \<Rightarrow> string \<Rightarrow> diagnostic" where
  "unresolvedImportDiagnostic printable importer specifier site =
     located_diagnostic importer ''project_import_unresolved''
       (''import of '' @ quote_go printable specifier @ '' from '' @ importer
        @ '' did not resolve within the snapshot, so layer rules cannot tell whether it crosses a layer; the layer verdict is incomplete'')
       site"

definition nonLiteralLoadDiagnostic :: "(nat \<Rightarrow> bool) \<Rightarrow> string \<Rightarrow> string \<Rightarrow> string \<Rightarrow> string \<Rightarrow> diagnostic" where
  "nonLiteralLoadDiagnostic printable importer kind expression site =
     located_diagnostic importer ''project_import_non_literal''
       ((if kind = ''commonjs_require'' then ''require()'' else ''import()'') @ '' in '' @ importer
        @ '' takes a non-literal specifier ('' @ quote_go printable expression
        @ ''), so layer rules did not evaluate it and cannot tell whether it crosses a layer; the layer verdict is incomplete'')
       site"

definition notEvaluatedImportsDiagnostic :: "nat \<Rightarrow> nat \<Rightarrow> diagnostic" where
  "notEvaluatedImportsDiagnostic external nonSource =
     file_diagnostic [] ''project_external_imports_not_evaluated''
       (if nonSource = 0 \<and> external = 1 then ''1 import edge to an external package was not evaluated by layer rules''
        else if nonSource = 0
        then decimal external @ '' import edges to external packages were not evaluated by layer rules''
        else if external = 0 \<and> nonSource = 1 then ''1 import edge to a non-source file was not evaluated by layer rules''
        else if external = 0
        then decimal nonSource @ '' import edges to non-source files were not evaluated by layer rules''
        else decimal (external + nonSource) @ '' import edges to external packages or non-source files were not evaluated by layer rules'')"

datatype edge_outcome = Skipped | Placed | Diagnosed diagnostic | NonSource | External

text \<open>One iteration of the loop: what becomes of an edge.\<close>

definition edge_outcome_of :: "(nat \<Rightarrow> bool) \<Rightarrow> layer_policy \<Rightarrow> import_edge \<Rightarrow> edge_outcome" where
  "edge_outcome_of printable p e =
     (if \<not> evaluatedTSEdgeKind (ie_kind e) (lp_exclude_type_only p) then Skipped
      else case cut_prefix ''file:'' (ie_from e) of
             None \<Rightarrow> Skipped
           | Some importer \<Rightarrow>
               if matchLayer (lp_layers p) importer = None then Skipped
               else case cut_prefix ''nonliteral:'' (ie_to e) of
                      Some expression \<Rightarrow>
                        Diagnosed (nonLiteralLoadDiagnostic printable importer (ie_kind e) expression (ie_site e))
                    | None \<Rightarrow>
                        (case cut_prefix ''unresolved:'' (ie_to e) of
                           Some specifier \<Rightarrow>
                             if isNonSourceSpecifier specifier then NonSource
                             else Diagnosed (unresolvedImportDiagnostic printable importer specifier (ie_site e))
                         | None \<Rightarrow> if has_prefix (ie_to e) ''external:'' then External else Placed))"

definition diagnosed :: "edge_outcome \<Rightarrow> diagnostic option" where
  "diagnosed outcome = (case outcome of Diagnosed d \<Rightarrow> Some d | _ \<Rightarrow> None)"

definition diagnostic_row :: "diagnostic \<Rightarrow> nat" where
  "diagnostic_row d = (case dg_location d of Some l \<Rightarrow> StartRow l | None \<Rightarrow> 0)"

definition edge_diagnostic_less :: "diagnostic \<Rightarrow> diagnostic \<Rightarrow> bool" where
  "edge_diagnostic_less a b =
     (if dg_path a \<noteq> dg_path b then dg_path a < dg_path b
      else if diagnostic_row a \<noteq> diagnostic_row b then diagnostic_row a < diagnostic_row b
      else dg_message a < dg_message b)"

definition unevaluatedTSEdgeDiagnostics :: "(nat \<Rightarrow> bool) \<Rightarrow> import_edge list \<Rightarrow> layer_policy \<Rightarrow> diagnostic list" where
  "unevaluatedTSEdgeDiagnostics printable edges p =
     (let outcomes = map (edge_outcome_of printable p) edges;
          external = length (filter (\<lambda>x. x = External) outcomes);
          nonSource = length (filter (\<lambda>x. x = NonSource) outcomes)
      in stable_sort (cmp_of_less edge_diagnostic_less) (List.map_filter diagnosed outcomes)
         @ (if external + nonSource > 0 then [notEvaluatedImportsDiagnostic external nonSource] else []))"

definition EvaluateTypeScriptLayerViolations ::
  "(nat \<Rightarrow> bool) \<Rightarrow> import_edge list \<Rightarrow> layer_policy \<Rightarrow> string \<Rightarrow> string \<Rightarrow> string \<Rightarrow> project_change list \<times> diagnostic list" where
  "EvaluateTypeScriptLayerViolations printable edges p ruleVersion backendVersion configDigest =
     (if length (lp_layers p) = 0 \<or> length (lp_forbidden p) = 0 then ([], [])
      else (group_changes (groupForbiddenTSEdges edges p) ruleVersion backendVersion configDigest ''typescript'',
            unevaluatedTSEdgeDiagnostics printable edges p))"

section \<open>Layer bypasses\<close>

definition layerBypassStepLocation :: "bypass_step \<Rightarrow> project_location option" where
  "layerBypassStepLocation s =
     (if bs_path s = [] then None
      else if bs_line s \<le> 0 then Some \<lparr>pl_path = bs_path s, pl_location = zero_location\<rparr>
      else Some \<lparr>pl_path = bs_path s, pl_location = zero_location\<lparr>StartRow := nat (bs_line s - 1)\<rparr>\<rparr>)"

definition layerBypassPrimaryAnchor :: "bypass_step list \<Rightarrow> project_location" where
  "layerBypassPrimaryAnchor steps =
     (case find (\<lambda>s. layerBypassStepLocation s \<noteq> None) steps of
        Some s \<Rightarrow> the (layerBypassStepLocation s)
      | None \<Rightarrow> zero_project_location)"

definition layerBypassStepSourceLocations :: "bypass_step \<Rightarrow> project_location list" where
  "layerBypassStepSourceLocations s = (case layerBypassStepLocation s of None \<Rightarrow> [] | Some l \<Rightarrow> [l])"

definition layerBypassCausalDigest :: "(string \<Rightarrow> string) \<Rightarrow> string list \<Rightarrow> string" where
  "layerBypassCausalDigest digest nodeIDs = ''cev_'' @ digest (foldl appendLengthPrefixed [] nodeIDs)"

definition LayerBypassConfidenceHigh :: string where
  "LayerBypassConfidenceHigh = ''high''"

definition bypass_witness_less :: "bypass_witness \<Rightarrow> bypass_witness \<Rightarrow> bool" where
  "bypass_witness_less a b = (if bw_source a \<noteq> bw_source b then bw_source a < bw_source b else bw_sink a < bw_sink b)"

definition highConfidenceWitnessesBySourceSink :: "bypass_witness list \<Rightarrow> bypass_witness list" where
  "highConfidenceWitnessesBySourceSink ws =
     stable_sort (cmp_of_less bypass_witness_less) (filter (\<lambda>w. \<not> bw_confidence w \<noteq> LayerBypassConfidenceHigh) ws)"

definition layerBypassChange ::
  "(string \<Rightarrow> string) \<Rightarrow> bypass_witness \<Rightarrow> string \<Rightarrow> string \<Rightarrow> string \<Rightarrow> string \<Rightarrow> project_change" where
  "layerBypassChange digest w ruleVersion backendVersion configDigest language =
     (let nodeIDs = map bs_node (bw_path w) in
      zero_change
        \<lparr>pc_key := ''architecture.layer_bypass:'' @ bw_required_layer w @ '':'' @ bw_source w @ ''->'' @ bw_sink w,
         pc_rule := ruleLayerBypassID, pc_rule_version := ruleVersion, pc_backend_version := backendVersion,
         pc_algorithm_version := bw_algorithm w, pc_config_digest := configDigest, pc_kind := ruleLayerBypassID,
         pc_category := ''architecture'', pc_severity := ''advisory'', pc_confidence := ''high'',
         pc_causal_digest := layerBypassCausalDigest digest nodeIDs, pc_anchor := layerBypassPrimaryAnchor (bw_path w),
         pc_steps := map (\<lambda>s. \<lparr>st_node = bs_node s, st_display = [], st_resolution = [], st_confidence = ''high'',
            st_locations = layerBypassStepSourceLocations s\<rparr>) (bw_path w),
         pc_machine_evidence := [(''source'', bw_source w), (''sink'', bw_sink w), (''required_layer'', bw_required_layer w),
            (''path'', join_with ''->'' nodeIDs)] @ (if language \<noteq> [] then [(''language'', language)] else []),
         pc_evidence := bw_source w @ '' reaches '' @ bw_sink w
            @ '' via a statically resolved path that never passes through required layer '' @ quoted (bw_required_layer w),
         pc_why := layerBypassWhyItMatters, pc_recommendation := layerBypassRecommendation,
         pc_provenance := \<lparr>Producer = ''projectmodel'', FindingKind = ruleLayerBypassID, Language = []\<rparr>\<rparr>)"

definition diagLayerBypassCoverageIncomplete :: string where
  "diagLayerBypassCoverageIncomplete = ''project_layer_bypass_coverage_incomplete''"

definition bypass_incomplete_message :: "string \<Rightarrow> string" where
  "bypass_incomplete_message language =
     language @ '' layer-bypass search coverage is incomplete; absence of a witness for a source/sink pair in this run does not mean no bypass exists''"

definition EvaluateGoLayerBypass ::
  "(string \<Rightarrow> string) \<Rightarrow> bypass_result \<Rightarrow> string \<Rightarrow> string \<Rightarrow> string \<Rightarrow> project_change list \<times> diagnostic list" where
  "EvaluateGoLayerBypass digest result ruleVersion backendVersion configDigest =
     (map (\<lambda>w. layerBypassChange digest w ruleVersion backendVersion configDigest [])
        (highConfidenceWitnessesBySourceSink (br_witnesses result)),
      if \<not> br_complete result
      then [file_diagnostic [] diagLayerBypassCoverageIncomplete (bypass_incomplete_message ''go'')] else [])"

definition EvaluateTypeScriptLayerBypass ::
  "(string \<Rightarrow> string) \<Rightarrow> bypass_result \<Rightarrow> string \<Rightarrow> string \<Rightarrow> string \<Rightarrow> project_change list \<times> diagnostic list" where
  "EvaluateTypeScriptLayerBypass digest result ruleVersion backendVersion configDigest =
     (map (\<lambda>w. layerBypassChange digest w ruleVersion backendVersion configDigest ''typescript'')
        (highConfidenceWitnessesBySourceSink (br_witnesses result)),
      if \<not> br_complete result
      then [file_diagnostic [] diagLayerBypassCoverageIncomplete (bypass_incomplete_message ''typescript'')] else [])"

section \<open>Facts on violations\<close>

lemma edges_of_update [simp]: "edges_of (AList.update k es groups) k' = (if k' = k then es else edges_of groups k')"
  by (simp add: edges_of_def)

text \<open>The edges of a pair, and the pairs of some edges.\<close>

definition edges_with :: "(import_edge \<Rightarrow> (pair_key \<times> layer_pair) option) \<Rightarrow> import_edge list \<Rightarrow> pair_key \<Rightarrow> import_edge list" where
  "edges_with pair edges k = filter (\<lambda>e. map_option fst (pair e) = Some k) edges"

definition pairs_of :: "(import_edge \<Rightarrow> (pair_key \<times> layer_pair) option) \<Rightarrow> import_edge list \<Rightarrow> pair_key set" where
  "pairs_of pair edges = {k. \<exists>e \<in> set edges. map_option fst (pair e) = Some k}"

lemma group_fold:
  assumes "distinct (map fst (fst acc))"
  shows "edges_of (fst (foldl (add_edge pair) acc edges)) k = edges_of (fst acc) k @ edges_with pair edges k"
    and "distinct (map fst (fst (foldl (add_edge pair) acc edges)))"
    and "set (map fst (fst (foldl (add_edge pair) acc edges))) = set (map fst (fst acc)) \<union> pairs_of pair edges"
proof -
  have "edges_of (fst (foldl (add_edge pair) acc edges)) k = edges_of (fst acc) k @ edges_with pair edges k
      \<and> distinct (map fst (fst (foldl (add_edge pair) acc edges)))
      \<and> set (map fst (fst (foldl (add_edge pair) acc edges))) = set (map fst (fst acc)) \<union> pairs_of pair edges"
    using assms
  proof (induction edges arbitrary: acc)
    case Nil
    then show ?case by (simp add: edges_with_def pairs_of_def)
  next
    case (Cons e edges)
    obtain groups layers where acc: "acc = (groups, layers)" by (cases acc)
    show ?case
    proof (cases "pair e")
      case None
      have "add_edge pair acc e = acc" using None by (simp add: add_edge_def acc)
      moreover have "pairs_of pair (e # edges) = pairs_of pair edges" "edges_with pair (e # edges) k = edges_with pair edges k"
        using None by (simp_all add: pairs_of_def edges_with_def)
      ultimately show ?thesis using Cons.IH [OF Cons.prems] by simp
    next
      case (Some kl)
      obtain k' ls where kl: "kl = (k', ls)" by (cases kl)
      let ?acc = "(AList.update k' (edges_of groups k' @ [e]) groups, AList.update k' ls layers)"
      have step: "add_edge pair acc e = ?acc" using Some by (simp add: add_edge_def acc kl)
      have d: "distinct (map fst (fst ?acc))" using Cons.prems by (simp add: acc)
      have "pairs_of pair (e # edges) = insert k' (pairs_of pair edges)"
        "edges_with pair (e # edges) k = (if k = k' then e # edges_with pair edges k else edges_with pair edges k)"
        using Some by (cases k', auto simp: pairs_of_def edges_with_def kl)+
      then show ?thesis unfolding foldl_Cons step using Cons.IH [OF d] by (simp add: acc)
    qed
  qed
  then show "edges_of (fst (foldl (add_edge pair) acc edges)) k = edges_of (fst acc) k @ edges_with pair edges k"
    "distinct (map fst (fst (foldl (add_edge pair) acc edges)))"
    "set (map fst (fst (foldl (add_edge pair) acc edges))) = set (map fst (fst acc)) \<union> pairs_of pair edges"
    by blast+
qed

lemma pair_key_less_key: "pair_key_less a b \<longleftrightarrow> a < b"
  by (cases a; cases b) (auto simp: pair_key_less_def less_prod_def)

interpretation by_pair: comparison "cmp_of_less pair_key_less"
  by (rule comparison_of_key [OF compares_by_of_less]) (rule pair_key_less_key)

lemma sortedLayerPairKeys_sorted:
  assumes "distinct (map fst groups)"
  shows "sortedLayerPairKeys groups = sorted_list_of_set (set (map fst groups))"
proof (rule sorted_distinct_set_unique)
  have "cmp_of_less pair_key_less a b \<le> 0 \<longleftrightarrow> a \<le> b" for a b
    by (rule compares_by_le [OF compares_by_of_less]) (rule pair_key_less_key)
  then show "sorted (sortedLayerPairKeys groups)"
    using by_pair.sorted_result [of "map fst groups"] by (simp add: sortedLayerPairKeys_def)
  show "distinct (sortedLayerPairKeys groups)"
    unfolding sortedLayerPairKeys_def using assms by (metis mset_eq_imp_distinct_iff mset_stable_sort)
qed (simp_all add: sortedLayerPairKeys_def)

definition change_pair :: "project_change \<Rightarrow> pair_key" where
  "change_pair c = (machine_value c ''importer'', machine_value c ''importee'')"

lemma layerViolationChange_simps:
  "change_pair (layerViolationChange k es ls rv bv cd lang) = k"
  "es \<noteq> [] \<Longrightarrow> pc_anchor (layerViolationChange k es ls rv bv cd lang) # pc_related (layerViolationChange k es ls rv bv cd lang)
     = group_sites es"
proof -
  show "change_pair (layerViolationChange k es ls rv bv cd lang) = k"
    by (simp add: change_pair_def machine_value_def layerViolationChange_def violation_evidence_def)
  have "length (group_sites es) = length es"
    unfolding group_sites_def by (metis length_map mset_eq_length sort_strings_mset)
  then show "pc_anchor (layerViolationChange k es ls rv bv cd lang) # pc_related (layerViolationChange k es ls rv bv cd lang)
     = group_sites es" if "es \<noteq> []"
    using that by (cases "group_sites es") (auto simp: layerViolationChange_def)
qed

text \<open>The changes of a grouping: one per pair of its edges, in order, at the sorted sites of those edges.\<close>

lemma group_changes_exact:
  "map change_pair (group_changes (foldl (add_edge pair) ([], []) edges) rv bv cd lang) = sorted_list_of_set (pairs_of pair edges)"
  "list_all (\<lambda>c. pc_anchor c # pc_related c = group_sites (edges_with pair edges (change_pair c)))
     (group_changes (foldl (add_edge pair) ([], []) edges) rv bv cd lang)"
proof -
  let ?gl = "foldl (add_edge pair) ([], []) edges"
  have g: "edges_of (fst ?gl) k = edges_with pair edges k" "distinct (map fst (fst ?gl))"
    "set (map fst (fst ?gl)) = pairs_of pair edges" for k
    using group_fold [of "([], [])" pair edges] by (simp_all add: edges_of_def)
  have keys: "sortedLayerPairKeys (fst ?gl) = sorted_list_of_set (pairs_of pair edges)"
    using sortedLayerPairKeys_sorted [OF g(2)] g(3) by simp
  show "map change_pair (group_changes ?gl rv bv cd lang) = sorted_list_of_set (pairs_of pair edges)"
    unfolding group_changes_def keys by (simp add: layerViolationChange_simps comp_def)
  have "finite (pairs_of pair edges)" using g(3) by (metis List.finite_set)
  moreover have "edges_with pair edges k \<noteq> []" if "k \<in> pairs_of pair edges" for k
    using that by (auto simp: pairs_of_def edges_with_def filter_empty_conv)
  ultimately show "list_all (\<lambda>c. pc_anchor c # pc_related c = group_sites (edges_with pair edges (change_pair c)))
     (group_changes ?gl rv bv cd lang)"
    unfolding group_changes_def keys g(1)
    by (simp add: list_all_iff layerViolationChange_simps)
qed

text \<open>When an edge violates the policy, as the rule states it.\<close>

definition forbidden_between :: "layer_policy \<Rightarrow> string \<Rightarrow> string \<Rightarrow> bool" where
  "forbidden_between p importer importee \<longleftrightarrow>
     (\<exists>f t. matchLayer (lp_layers p) importer = Some f \<and> matchLayer (lp_layers p) importee = Some t
        \<and> (\<exists>rule \<in> set (lp_forbidden p). fi_from rule = al_name f \<and> fi_to rule = al_name t))"

definition go_violates :: "layer_policy \<Rightarrow> import_edge \<Rightarrow> pair_key \<Rightarrow> bool" where
  "go_violates p e k \<longleftrightarrow>
     ie_kind e = ''internal'' \<and> k = (trim_prefix ''package:'' (ie_from e), trim_prefix ''package:'' (ie_to e))
     \<and> forbidden_between p (fst k) (snd k)"

definition ts_violates :: "layer_policy \<Rightarrow> import_edge \<Rightarrow> pair_key \<Rightarrow> bool" where
  "ts_violates p e k \<longleftrightarrow>
     (ie_kind e \<in> {''import'', ''reexport'', ''commonjs_require'', ''dynamic_import''}
        \<or> ie_kind e = ''type_only'' \<and> \<not> lp_exclude_type_only p)
     \<and> cut_prefix ''file:'' (ie_from e) = Some (fst k) \<and> cut_prefix ''file:'' (ie_to e) = Some (snd k)
     \<and> forbidden_between p (fst k) (snd k)"

lemma forbidden_pair_set: "(a, b) \<in> set (buildForbiddenLayerPairSet p) \<longleftrightarrow> (\<exists>rule \<in> set (lp_forbidden p). fi_from rule = a \<and> fi_to rule = b)"
  by (auto simp: buildForbiddenLayerPairSet_def)

lemma go_pair: "map_option fst (forbiddenInternalPair (lp_layers p) (buildForbiddenLayerPairSet p) e) = Some k \<longleftrightarrow> go_violates p e k"
  by (cases k) (auto simp: forbiddenInternalPair_def go_violates_def forbidden_between_def forbidden_pair_set Let_def
      split: option.splits)

lemma ts_pair:
  "map_option fst (forbiddenTSPair (lp_layers p) (buildForbiddenLayerPairSet p) (lp_exclude_type_only p) e) = Some k
     \<longleftrightarrow> ts_violates p e k"
  by (cases k) (auto simp: forbiddenTSPair_def ts_violates_def evaluatedTSEdgeKind_def forbidden_between_def forbidden_pair_set
      split: option.splits if_splits)

lemma no_policy: "lp_layers p = [] \<or> lp_forbidden p = [] \<Longrightarrow> \<not> forbidden_between p a b"
  by (auto simp: forbidden_between_def matchLayer_def)


text \<open>
  Edges from a layer that cannot be placed are never dropped: each is diagnosed at its
  importer or counted in the final notice.
\<close>

lemma unplaced_edges_are_reported:
  assumes "lp_layers p \<noteq> []" "lp_forbidden p \<noteq> []"
  shows "mset (snd (EvaluateTypeScriptLayerViolations printable edges p rv bv cd))
    = mset (List.map_filter diagnosed (map (edge_outcome_of printable p) edges))
      + (let n = length (filter (\<lambda>e. edge_outcome_of printable p e = External) edges);
             m = length (filter (\<lambda>e. edge_outcome_of printable p e = NonSource) edges)
         in if n + m > 0 then {#notEvaluatedImportsDiagnostic n m#} else {#})"
  using assms by (simp add: EvaluateTypeScriptLayerViolations_def unevaluatedTSEdgeDiagnostics_def Let_def filter_map comp_def)

end
