(* ===== verification/Authn.thy ===== *)
theory Authn
  imports TaskQueue
begin

text \<open>
  Authentication (internal/authn): Coach tokens (issue, validate, inspect, revoke), the
  denylist and OAuth state ports with their in-process stores, the options, the HTTP
  middleware and handlers, and the GitHub OAuth flow.

  The JWT library (github.com/golang-jwt/jwt) is the argument \<open>jwt_library\<close>; its
  documented behaviour is \<open>jwt_laws\<close>.  The clock, the bytes of crypto/rand and the answers of
  GitHub are arguments of the operation that asks for them.
\<close>

section \<open>Errors, claims and the token library\<close>

text \<open>
  Why a token is refused; the code's error texts are represented by constructors,
  since no caller looks at them.
\<close>

datatype token_error =
    LibraryError string
  | InvalidToken
  | UnexpectedIssuer string
  | MissingExp
  | TokenExpired
  | TokenNotYetValid
  | MissingJTI
  | JTIDenylisted
  | IncompletePrincipal

datatype auth_error =
    ErrUnauthenticated token_error
  | ErrDenylistStore string

record coach_claims =
  cc_provider :: string
  cc_login :: string
  cc_issuer :: string
  cc_subject :: string
  cc_id :: string
  cc_issued_at :: "time option"
  cc_expires_at :: "time option"
  cc_not_before :: "time option"

definition no_claims :: coach_claims where
  "no_claims = \<lparr>cc_provider = [], cc_login = [], cc_issuer = [], cc_subject = [], cc_id = [],
     cc_issued_at = None, cc_expires_at = None, cc_not_before = None\<rparr>"

record claims =
  ic_provider :: string
  ic_subject :: string
  ic_login :: string
  ic_issuer :: string
  ic_expires_at :: time
  ic_id :: string

text \<open>
  \<open>jl_date\<close> is NewNumericDate, \<open>jl_sign\<close> is SignedString of a token made for an algorithm
  and claims, \<open>jl_parse\<close> is ParseWithClaims without claims validation under an optional list of valid
  methods and a key function: an error, or the claims and the token's Valid flag.
\<close>

record jwt_library =
  jl_date :: "time \<Rightarrow> time"
  jl_sign :: "string \<Rightarrow> string \<Rightarrow> coach_claims \<Rightarrow> string + string"
  jl_parse :: "string list option \<Rightarrow> (string \<Rightarrow> string + string) \<Rightarrow> string \<Rightarrow> string + (coach_claims \<times> bool)"

definition SigningMethodHS256 :: string where
  "SigningMethodHS256 = ''HS256''"

text \<open>Dates the library writes and reads back unchanged: those at its precision.\<close>

definition precise :: "jwt_library \<Rightarrow> coach_claims \<Rightarrow> bool" where
  "precise L c \<longleftrightarrow> map_option (jl_date L) (cc_issued_at c) = cc_issued_at c
     \<and> map_option (jl_date L) (cc_expires_at c) = cc_expires_at c
     \<and> map_option (jl_date L) (cc_not_before c) = cc_not_before c"

definition jwt_laws :: "jwt_library \<Rightarrow> bool" where
  "jwt_laws L \<longleftrightarrow>
     (\<forall>t. jl_date L (jl_date L t) = jl_date L t)
     \<and> (\<forall>alg key c tok methods kf. jl_sign L alg key c = Inr tok \<longrightarrow> precise L c \<longrightarrow> kf alg = Inr key \<longrightarrow>
          (case methods of None \<Rightarrow> True | Some ms \<Rightarrow> alg \<in> set ms) \<longrightarrow>
          jl_parse L methods kf tok = Inr (c, True))
     \<and> (\<forall>alg key c tok. jl_sign L alg key c = Inr tok \<longrightarrow> trim_space tok = tok \<and> tok \<noteq> [])"

section \<open>The denylist and OAuth state ports\<close>

record 'd denylist_ops =
  dl_is_revoked :: "'d \<Rightarrow> string \<Rightarrow> string + bool"
  dl_revoke :: "'d \<Rightarrow> string \<Rightarrow> time \<Rightarrow> ('d, string, unit) outcome"

record 'o oauth_state_ops =
  os_save :: "'o \<Rightarrow> string \<Rightarrow> time \<Rightarrow> ('o, string, unit) outcome"
  os_consume :: "'o \<Rightarrow> string \<Rightarrow> time \<Rightarrow> ('o, string, bool) outcome"

type_synonym mem_denylist = "(string \<times> time) list"

definition NewMemoryDenylist :: mem_denylist where
  "NewMemoryDenylist = []"

definition dl_IsRevoked :: "mem_denylist \<Rightarrow> string \<Rightarrow> string + bool" where
  "dl_IsRevoked m jti = Inr (map_of m jti \<noteq> None)"

definition dl_Revoke :: "mem_denylist \<Rightarrow> string \<Rightarrow> time \<Rightarrow> (mem_denylist, string, unit) outcome" where
  "dl_Revoke m jti expiry = (AList.update jti expiry m, Inr ())"

definition memory_denylist :: "mem_denylist denylist_ops" where
  "memory_denylist = \<lparr>dl_is_revoked = dl_IsRevoked, dl_revoke = dl_Revoke\<rparr>"

type_synonym mem_oauth = "(string \<times> time) list"

definition NewMemoryOAuthState :: mem_oauth where
  "NewMemoryOAuthState = []"

definition os_Save :: "mem_oauth \<Rightarrow> string \<Rightarrow> time \<Rightarrow> (mem_oauth, string, unit) outcome" where
  "os_Save m state expires_at = (AList.update state expires_at m, Inr ())"

definition os_Consume :: "mem_oauth \<Rightarrow> string \<Rightarrow> time \<Rightarrow> (mem_oauth, string, bool) outcome" where
  "os_Consume m state now =
     (case map_of m state of
        None \<Rightarrow> (m, Inr False)
      | Some expires_at \<Rightarrow>
          let m' = AList.delete state m
          in if \<not> expires_at > now then (m', Inr False) else (m', Inr True))"

definition memory_oauth :: "mem_oauth oauth_state_ops" where
  "memory_oauth = \<lparr>os_save = os_Save, os_consume = os_Consume\<rparr>"

section \<open>The service and its options\<close>

record github_oauth_config =
  gc_ClientID :: string
  gc_ClientSecret :: string
  gc_BaseURL :: string
  gc_APIBaseURL :: string
  gc_RedirectURI :: string

record ('d, 'o) auth_options =
  op_SigningKey :: string
  op_Issuer :: string
  op_TokenTTL :: duration
  op_Denylist :: "'d denylist_ops option"
  op_TestMintEnabled :: bool
  op_GitHubOAuth :: "github_oauth_config option"
  op_OAuthState :: "'o oauth_state_ops option"
  op_OAuthStateTTL :: duration

record ('d, 'o) auth_service =
  as_key :: string
  as_issuer :: string
  as_ttl :: duration
  as_denylist :: "'d denylist_ops"
  as_test_mint :: bool
  as_github :: "github_oauth_config option"
  as_oauth :: "'o oauth_state_ops option"
  as_oauth_ttl :: duration

text \<open>
  \<open>parse_url\<close> stands for url.Parse: the scheme and the host of a well-formed URL.  The two
  arguments \<open>mem_d\<close> and \<open>mem_o\<close> are the in-process stores the code falls back on
  (\<open>memory_denylist\<close> and \<open>memory_oauth\<close> when the state types are theirs).
\<close>

definition requireAbsoluteURL :: "(string \<Rightarrow> (string \<times> string) option) \<Rightarrow> string \<Rightarrow> string \<Rightarrow> string option" where
  "requireAbsoluteURL parse_url field raw =
     (case parse_url raw of
        None \<Rightarrow> Some (''authn: '' @ field @ '' must be an absolute URL'')
      | Some (scheme, host) \<Rightarrow>
          if scheme = [] \<or> host = [] then Some (''authn: '' @ field @ '' must be an absolute URL'')
          else None)"

definition githubOAuthFromOptions ::
  "(string \<Rightarrow> (string \<times> string) option) \<Rightarrow> 'o oauth_state_ops \<Rightarrow> ('d, 'o) auth_options \<Rightarrow>
   string + (github_oauth_config option \<times> 'o oauth_state_ops option \<times> duration)" where
  "githubOAuthFromOptions parse_url mem_o opts =
     (case op_GitHubOAuth opts of
        None \<Rightarrow> Inr (None, None, op_OAuthStateTTL opts)
      | Some gh \<Rightarrow>
          if gc_ClientID gh = [] \<or> gc_ClientSecret gh = []
          then Inl ''authn: GitHubOAuth ClientID and ClientSecret are required''
          else if gc_BaseURL gh = [] then Inl ''authn: GitHubOAuth BaseURL is required''
          else (case requireAbsoluteURL parse_url ''GitHubOAuth.BaseURL'' (gc_BaseURL gh) of
                  Some e \<Rightarrow> Inl e
                | None \<Rightarrow>
          if gc_RedirectURI gh = [] then Inl ''authn: GitHubOAuth RedirectURI is required''
          else
            let done = (\<lambda>cp. Inr (Some cp,
                         Some (case op_OAuthState opts of None \<Rightarrow> mem_o | Some st \<Rightarrow> st),
                         if op_OAuthStateTTL opts \<le> 0 then 600 * second else op_OAuthStateTTL opts))
            in if gc_APIBaseURL gh = [] then done (gh\<lparr>gc_APIBaseURL := gc_BaseURL gh\<rparr>)
               else (case requireAbsoluteURL parse_url ''GitHubOAuth.APIBaseURL'' (gc_APIBaseURL gh) of
                       Some e \<Rightarrow> Inl e
                     | None \<Rightarrow> done gh)))"

definition authn_New ::
  "(string \<Rightarrow> (string \<times> string) option) \<Rightarrow> 'd denylist_ops \<Rightarrow> 'o oauth_state_ops \<Rightarrow> ('d, 'o) auth_options \<Rightarrow>
   string + ('d, 'o) auth_service" where
  "authn_New parse_url mem_d mem_o opts =
     (if length (op_SigningKey opts) = 0 then Inl ''authn: SigningKey is required''
      else if op_Issuer opts = [] then Inl ''authn: Issuer is required''
      else (case githubOAuthFromOptions parse_url mem_o opts of
              Inl e \<Rightarrow> Inl e
            | Inr (gh, oauth, oauth_ttl) \<Rightarrow>
                Inr \<lparr>as_key = op_SigningKey opts, as_issuer = op_Issuer opts,
                     as_ttl = (if op_TokenTTL opts \<le> 0 then 3600 * second else op_TokenTTL opts),
                     as_denylist = (case op_Denylist opts of None \<Rightarrow> mem_d | Some d \<Rightarrow> d),
                     as_test_mint = op_TestMintEnabled opts, as_github = gh, as_oauth = oauth,
                     as_oauth_ttl = oauth_ttl\<rparr>))"

section \<open>Tokens\<close>

text \<open>Random identifiers: 16 bytes of crypto/rand, or its failure, in hexadecimal.\<close>

definition newJTI :: "string option \<Rightarrow> string + string" where
  "newJTI rnd = (case rnd of None \<Rightarrow> Inl ''authn: generate jti'' | Some b \<Rightarrow> Inr (hex_encode b))"

definition newOAuthState :: "string option \<Rightarrow> string + string" where
  "newOAuthState rnd =
     (case rnd of None \<Rightarrow> Inl ''authn: generate oauth state'' | Some b \<Rightarrow> Inr (hex_encode b))"

definition issue_claims :: "jwt_library \<Rightarrow> ('d, 'o) auth_service \<Rightarrow> principal \<Rightarrow> string \<Rightarrow> time \<Rightarrow> coach_claims" where
  "issue_claims L S p jti now =
     \<lparr>cc_provider = pr_provider p, cc_login = pr_login p, cc_issuer = as_issuer S,
      cc_subject = pr_subject p, cc_id = jti, cc_issued_at = Some (jl_date L now),
      cc_expires_at = Some (jl_date L (time_add now (as_ttl S))), cc_not_before = None\<rparr>"

definition Issue ::
  "jwt_library \<Rightarrow> ('d, 'o) auth_service \<Rightarrow> principal \<Rightarrow> string option \<Rightarrow> time \<Rightarrow> string + string" where
  "Issue L S p rnd now =
     (if pr_provider p = [] \<or> pr_subject p = [] \<or> pr_login p = []
      then Inl ''authn: principal provider, subject, and login are required''
      else (case newJTI rnd of
              Inl e \<Rightarrow> Inl e
            | Inr jti \<Rightarrow>
                (case jl_sign L SigningMethodHS256 (as_key S) (issue_claims L S p jti now) of
                   Inl e \<Rightarrow> Inl (''authn: sign token: '' @ e)
                 | Inr signed \<Rightarrow> Inr signed)))"

definition keyFunc :: "('d, 'o) auth_service \<Rightarrow> string \<Rightarrow> string + string" where
  "keyFunc S alg =
     (if alg \<noteq> SigningMethodHS256 then Inl (''unexpected signing method '' @ alg) else Inr (as_key S))"

definition InspectClaims :: "jwt_library \<Rightarrow> ('d, 'o) auth_service \<Rightarrow> string \<Rightarrow> token_error + claims" where
  "InspectClaims L S token =
     (case jl_parse L None (keyFunc S) token of
        Inl e \<Rightarrow> Inl (LibraryError e)
      | Inr (cc, valid) \<Rightarrow>
          if \<not> valid then Inl InvalidToken
          else if cc_issuer cc \<noteq> as_issuer S then Inl (UnexpectedIssuer (cc_issuer cc))
          else Inr \<lparr>ic_provider = cc_provider cc, ic_subject = cc_subject cc, ic_login = cc_login cc,
                    ic_issuer = cc_issuer cc,
                    ic_expires_at = (case cc_expires_at cc of None \<Rightarrow> 0 | Some t \<Rightarrow> t),
                    ic_id = cc_id cc\<rparr>)"

definition parseClaims :: "jwt_library \<Rightarrow> ('d, 'o) auth_service \<Rightarrow> string \<Rightarrow> time \<Rightarrow> token_error + coach_claims" where
  "parseClaims L S token now =
     (case jl_parse L (Some [SigningMethodHS256]) (keyFunc S) token of
        Inl e \<Rightarrow> Inl (LibraryError e)
      | Inr (cc, valid) \<Rightarrow>
          if \<not> valid then Inl InvalidToken
          else if cc_issuer cc \<noteq> as_issuer S then Inl (UnexpectedIssuer (cc_issuer cc))
          else (case cc_expires_at cc of
                  None \<Rightarrow> Inl MissingExp
                | Some expiry \<Rightarrow>
                    if expiry < now \<or> expiry = now then Inl TokenExpired
                    else (case cc_not_before cc of
                            None \<Rightarrow> Inr cc
                          | Some nbf \<Rightarrow> if nbf > now then Inl TokenNotYetValid else Inr cc)))"

definition Validate ::
  "jwt_library \<Rightarrow> ('d, 'o) auth_service \<Rightarrow> 'd \<Rightarrow> string \<Rightarrow> time \<Rightarrow> auth_error + principal" where
  "Validate L S d token now =
     (case parseClaims L S token now of
        Inl e \<Rightarrow> Inl (ErrUnauthenticated e)
      | Inr cl \<Rightarrow>
          if cc_id cl = [] then Inl (ErrUnauthenticated MissingJTI)
          else (case dl_is_revoked (as_denylist S) d (cc_id cl) of
                  Inl e \<Rightarrow> Inl (ErrDenylistStore e)
                | Inr revoked \<Rightarrow>
                    if revoked then Inl (ErrUnauthenticated JTIDenylisted)
                    else if cc_provider cl = [] \<or> cc_subject cl = [] \<or> cc_login cl = []
                    then Inl (ErrUnauthenticated IncompletePrincipal)
                    else Inr \<lparr>pr_provider = cc_provider cl, pr_subject = cc_subject cl, pr_login = cc_login cl\<rparr>))"

definition Revoke ::
  "jwt_library \<Rightarrow> ('d, 'o) auth_service \<Rightarrow> 'd \<Rightarrow> string \<Rightarrow> time \<Rightarrow> ('d, auth_error, unit) outcome" where
  "Revoke L S d token now =
     (case parseClaims L S token now of
        Inl e \<Rightarrow> (d, Inl (ErrUnauthenticated e))
      | Inr cl \<Rightarrow>
          if cc_id cl = [] then (d, Inl (ErrUnauthenticated MissingJTI))
          else
            let expiry = (case cc_expires_at cl of None \<Rightarrow> 0 | Some t \<Rightarrow> t) in
            (case dl_revoke (as_denylist S) d (cc_id cl) expiry of
               (d', Inl e) \<Rightarrow> (d', Inl (ErrDenylistStore e))
             | (d', Inr _) \<Rightarrow> (d', Inr ())))"

section \<open>Responses\<close>

record job_status_response =
  js_id :: string
  js_kind :: job_kind
  js_status :: job_status
  js_attempt :: int
  js_error :: "string option"
  js_report_url :: string

text \<open>
  A response is its status, its Location header and the value that is encoded as its JSON
  body.  The error codes are those of internal/coachapi/api_contract.go.
\<close>

datatype response_body =
    BodyError string string
  | BodyPrincipal principal
  | BodyTestToken string
  | BodyAccessToken string string
  | BodyCreated string
  | BodyJob job_status_response
  | BodyReport report
  | BodyRedirect string

record response =
  re_status :: nat
  re_body :: response_body

definition ErrorCodeUnauthenticated :: string where "ErrorCodeUnauthenticated = ''unauthenticated''"
definition ErrorCodeUnauthorized :: string where "ErrorCodeUnauthorized = ''unauthorized''"
definition ErrorCodeInvalidRequest :: string where "ErrorCodeInvalidRequest = ''invalid_request''"
definition ErrorCodeJobNotFound :: string where "ErrorCodeJobNotFound = ''job_not_found''"
definition ErrorCodeJobNotCompleted :: string where "ErrorCodeJobNotCompleted = ''job_not_completed''"
definition ErrorCodeUnsupportedJobKind :: string where "ErrorCodeUnsupportedJobKind = ''unsupported_job_kind''"
definition ErrorCodeRepoNotAuthorized :: string where "ErrorCodeRepoNotAuthorized = ''repo_not_authorized''"
definition ErrorCodeNotFound :: string where "ErrorCodeNotFound = ''not_found''"
definition ErrorCodeInternalError :: string where "ErrorCodeInternalError = ''internal_error''"

definition writeJSON :: "nat \<Rightarrow> response_body \<Rightarrow> response" where
  "writeJSON status body = \<lparr>re_status = status, re_body = body\<rparr>"

definition writeAPIError :: "nat \<Rightarrow> string \<Rightarrow> string \<Rightarrow> response" where
  "writeAPIError status code message = writeJSON status (BodyError code message)"

lemma response_simps [simp]:
  "re_status (writeJSON n b) = n" "re_status (writeAPIError n c msg) = n"
  "re_body (writeJSON n b) = b" "re_body (writeAPIError n c msg) = BodyError c msg"
  by (simp_all add: writeJSON_def writeAPIError_def)

section \<open>Middleware\<close>

definition bearerToken :: "string \<Rightarrow> string option" where
  "bearerToken h =
     (if h = [] \<or> \<not> has_prefix h ''Bearer '' then None
      else let tok = trim_space (drop (length ''Bearer '') h)
           in if tok = [] then None else Some tok)"

text \<open>\<open>next\<close> gets the principal the request context carries, and changes a world of its own.\<close>

definition Middleware ::
  "jwt_library \<Rightarrow> ('d, 'o) auth_service \<Rightarrow> 'd \<Rightarrow> time \<Rightarrow> string \<Rightarrow> (principal \<Rightarrow> 'w \<Rightarrow> 'w \<times> response) \<Rightarrow> 'w \<Rightarrow> 'w \<times> response" where
  "Middleware L S d now authorization nxt w =
     (case bearerToken authorization of
        None \<Rightarrow> (w, writeAPIError 401 ErrorCodeUnauthenticated ''missing or invalid authorization'')
      | Some raw \<Rightarrow>
          (case Validate L S d raw now of
             Inl (ErrDenylistStore e) \<Rightarrow>
               (w, writeAPIError 503 ErrorCodeInternalError ''authentication temporarily unavailable'')
           | Inl (ErrUnauthenticated e) \<Rightarrow> (w, writeAPIError 401 ErrorCodeUnauthenticated ''unauthenticated'')
           | Inr p \<Rightarrow> nxt p w))"

text \<open>The principal of the request context, as WithPrincipal left it.\<close>

definition handleMe :: "principal option \<Rightarrow> response" where
  "handleMe ctx =
     (case ctx of
        None \<Rightarrow> writeAPIError 401 ErrorCodeUnauthenticated ''unauthenticated''
      | Some p \<Rightarrow> writeJSON 200 (BodyPrincipal p))"

section \<open>Test mint\<close>

definition handleTestMint ::
  "jwt_library \<Rightarrow> ('d, 'o) auth_service \<Rightarrow> raw_message \<Rightarrow> string option \<Rightarrow> time \<Rightarrow> response" where
  "handleTestMint L S body rnd now =
     (case decode_string_fields [(''subject'', []), (''login'', [])] body of
        None \<Rightarrow> writeAPIError 400 ErrorCodeInvalidRequest ''invalid request body''
      | Some flds \<Rightarrow>
          let subject = trim_space (the (map_of flds ''subject''));
              login = trim_space (the (map_of flds ''login''))
          in if subject = [] \<or> login = []
             then writeAPIError 400 ErrorCodeInvalidRequest ''subject and login are required''
             else (case Issue L S \<lparr>pr_provider = ''github'', pr_subject = subject, pr_login = login\<rparr> rnd now of
                     Inl e \<Rightarrow> writeAPIError 500 ErrorCodeInternalError ''failed to mint token''
                   | Inr tok \<Rightarrow> writeJSON 200 (BodyTestToken tok)))"

section \<open>GitHub OAuth\<close>

text \<open>url.QueryEscape and the sorted encoding of url.Values.\<close>

definition hex_upper :: "nat \<Rightarrow> char" where
  "hex_upper n = ''0123456789ABCDEF'' ! n"

definition query_escape :: "string \<Rightarrow> string" where
  "query_escape s = concat (map (\<lambda>ch. let n = of_char ch :: nat in
     if 48 \<le> n \<and> n \<le> 57 \<or> 65 \<le> n \<and> n \<le> 90 \<or> 97 \<le> n \<and> n \<le> 122 \<or> n \<in> {45, 46, 95, 126} then [ch]
     else if n = 32 then ''+''
     else [CHR ''%'', hex_upper (n div 16), hex_upper (n mod 16)]) s)"

definition encode_values :: "(string \<times> string) list \<Rightarrow> string" where
  "encode_values vs = join_with ''&'' (map (\<lambda>(k, v). query_escape k @ ''='' @ query_escape v) vs)"

definition trim_right_slash :: "string \<Rightarrow> string" where
  "trim_right_slash s = rev (trim_left_char CHR ''/'' (rev s))"

definition authorizeURL :: "github_oauth_config \<Rightarrow> string \<Rightarrow> string" where
  "authorizeURL gh state =
     trim_right_slash (gc_BaseURL gh) @ ''/login/oauth/authorize?''
     @ encode_values [(''client_id'', gc_ClientID gh), (''redirect_uri'', gc_RedirectURI gh), (''state'', state)]"

definition handleGitHubOAuthStart ::
  "('d, 'o) auth_service \<Rightarrow> string option \<Rightarrow> time \<Rightarrow> 'o \<Rightarrow> 'o \<times> response" where
  "handleGitHubOAuthStart S rnd now o1 =
     (case (as_github S, as_oauth S) of
        (Some gh, Some ops) \<Rightarrow>
          (case newOAuthState rnd of
             Inl e \<Rightarrow> (o1, writeAPIError 500 ErrorCodeInternalError ''failed to start oauth'')
           | Inr state \<Rightarrow>
               (case os_save ops o1 state (time_add now (as_oauth_ttl S)) of
                  (o2, Inl e) \<Rightarrow> (o2, writeAPIError 503 ErrorCodeInternalError ''oauth state store unavailable'')
                | (o2, Inr _) \<Rightarrow> (o2, \<lparr>re_status = 302, re_body = BodyRedirect (authorizeURL gh state)\<rparr>)))
      | _ \<Rightarrow> (o1, writeAPIError 404 ErrorCodeNotFound ''not found''))"

text \<open>
  What a call of the HTTP client brings back: an error, or the status and what
  json.Unmarshal makes of the body (at most 1 MB of it) for the struct at hand.
\<close>

record github_token_response =
  gt_AccessToken :: string
  gt_TokenType :: string
  gt_Scope :: string
  gt_Error :: string
  gt_ErrorDesc :: string

record github_user =
  gu_ID :: int
  gu_Login :: string

datatype outbound = PostForm string "(string \<times> string) list" | GetBearer string string

record github_client =
  hc_token :: "outbound \<Rightarrow> string + (nat \<times> (string + github_token_response))"
  hc_user :: "outbound \<Rightarrow> string + (nat \<times> (string + github_user))"

definition exchangeCode :: "github_client \<Rightarrow> github_oauth_config \<Rightarrow> string \<Rightarrow> string + string" where
  "exchangeCode H gh code =
     (let base = trim_right_slash (gc_BaseURL gh);
          form = [(''client_id'', gc_ClientID gh), (''client_secret'', gc_ClientSecret gh),
                  (''code'', code), (''redirect_uri'', gc_RedirectURI gh)]
      in case hc_token H (PostForm (base @ ''/login/oauth/access_token'') form) of
           Inl e \<Rightarrow> Inl e
         | Inr (status, body) \<Rightarrow>
             if status \<noteq> 200 then Inl (''token endpoint status '' @ decimal status)
             else (case body of
                     Inl e \<Rightarrow> Inl e
                   | Inr tr \<Rightarrow>
                       if gt_Error tr \<noteq> [] then Inl (''token error: '' @ gt_Error tr)
                       else if gt_AccessToken tr = [] then Inl ''empty access_token''
                       else Inr (gt_AccessToken tr)))"

definition fetchGitHubUser :: "github_client \<Rightarrow> github_oauth_config \<Rightarrow> string \<Rightarrow> string + github_user" where
  "fetchGitHubUser H gh access_token =
     (let base = trim_right_slash (gc_APIBaseURL gh)
      in case hc_user H (GetBearer (base @ ''/user'') access_token) of
           Inl e \<Rightarrow> Inl e
         | Inr (status, body) \<Rightarrow>
             if status \<noteq> 200 then Inl (''user endpoint status '' @ decimal status)
             else body)"

record callback_query =
  cq_error :: string
  cq_state :: string
  cq_code :: string

definition mint_for_code ::
  "jwt_library \<Rightarrow> ('d, 'o) auth_service \<Rightarrow> github_oauth_config \<Rightarrow> github_client \<Rightarrow> string \<Rightarrow> string option \<Rightarrow> time \<Rightarrow> response" where
  "mint_for_code L S gh H code rnd now =
     (case exchangeCode H gh code of
        Inl e \<Rightarrow> writeAPIError 400 ErrorCodeInvalidRequest ''oauth code exchange failed''
      | Inr access_token \<Rightarrow>
          (case fetchGitHubUser H gh access_token of
             Inl e \<Rightarrow> writeAPIError 400 ErrorCodeInvalidRequest ''oauth user fetch failed''
           | Inr user \<Rightarrow>
               if gu_ID user = 0 \<or> gu_Login user = []
               then writeAPIError 400 ErrorCodeInvalidRequest ''oauth user incomplete''
               else (case Issue L S \<lparr>pr_provider = ''github'', pr_subject = itoa (gu_ID user),
                                     pr_login = gu_Login user\<rparr> rnd now of
                       Inl e \<Rightarrow> writeAPIError 500 ErrorCodeInternalError ''failed to mint token''
                     | Inr jwt \<Rightarrow> writeJSON 200 (BodyAccessToken jwt ''bearer''))))"

definition handleGitHubOAuthCallback ::
  "jwt_library \<Rightarrow> ('d, 'o) auth_service \<Rightarrow> github_client \<Rightarrow> callback_query \<Rightarrow> string option \<Rightarrow> time \<Rightarrow> time \<Rightarrow> 'o \<Rightarrow> 'o \<times> response" where
  "handleGitHubOAuthCallback L S H q rnd now now2 o1 =
     (case (as_github S, as_oauth S) of
        (Some gh, Some ops) \<Rightarrow>
          if cq_error q \<noteq> []
          then (o1, writeAPIError 400 ErrorCodeInvalidRequest (''oauth denied: '' @ cq_error q))
          else
            let state = trim_space (cq_state q) in
            if state = [] then (o1, writeAPIError 400 ErrorCodeInvalidRequest ''missing oauth state'')
            else (case os_consume ops o1 state now of
                    (o2, Inl e) \<Rightarrow> (o2, writeAPIError 503 ErrorCodeInternalError ''oauth state store unavailable'')
                  | (o2, Inr ok) \<Rightarrow>
                      if \<not> ok then (o2, writeAPIError 400 ErrorCodeInvalidRequest ''invalid or expired oauth state'')
                      else
                        let code = trim_space (cq_code q) in
                        if code = [] then (o2, writeAPIError 400 ErrorCodeInvalidRequest ''missing oauth code'')
                        else (o2, mint_for_code L S gh H code rnd now2))
      | _ \<Rightarrow> (o1, writeAPIError 404 ErrorCodeNotFound ''not found''))"

section \<open>The HTTP surface\<close>

text \<open>
  A request has its method, the segments of its (clean) path, the Authorization header, the
  body as its first JSON value, and the query of the OAuth callback.  The environment of a
  request holds what it reads from the clock, crypto/rand and GitHub; \<open>en_now2\<close> is the
  second reading of the clock, for the token a callback mints.
\<close>

record http_request =
  rq_method :: string
  rq_path :: "string list"
  rq_authorization :: string
  rq_body :: raw_message
  rq_query :: callback_query

record request_env =
  en_now :: time
  en_now2 :: time
  en_random :: "string option"
  en_github :: github_client

record ('d, 'o) auth_state =
  au_denylist :: 'd
  au_oauth :: 'o

text \<open>A pattern with the method GET also matches HEAD.\<close>

definition route_get :: "string list \<Rightarrow> http_request \<Rightarrow> bool" where
  "route_get path req \<longleftrightarrow> rq_method req \<in> {''GET'', ''HEAD''} \<and> rq_path req = path"

definition authn_Handler ::
  "jwt_library \<Rightarrow> ('d, 'o) auth_service \<Rightarrow> request_env \<Rightarrow> http_request \<Rightarrow> ('d, 'o) auth_state \<Rightarrow>
   ('d, 'o) auth_state \<times> response" where
  "authn_Handler L S env req st =
     (if route_get [''v1'', ''me''] req
      then Middleware L S (au_denylist st) (en_now env) (rq_authorization req)
             (\<lambda>p w. (w, handleMe (Some p))) st
      else if as_test_mint S \<and> rq_method req = ''POST'' \<and> rq_path req = [''v1'', ''auth'', ''test-mint'']
      then (st, handleTestMint L S (rq_body req) (en_random env) (en_now env))
      else if as_github S \<noteq> None \<and> route_get [''oauth'', ''github'', ''start''] req
      then (let (o1, r) = handleGitHubOAuthStart S (en_random env) (en_now env) (au_oauth st)
            in (st\<lparr>au_oauth := o1\<rparr>, r))
      else if as_github S \<noteq> None \<and> route_get [''oauth'', ''github'', ''callback''] req
      then (let (o1, r) = handleGitHubOAuthCallback L S (en_github env) (rq_query req) (en_random env)
                            (en_now env) (en_now2 env) (au_oauth st)
            in (st\<lparr>au_oauth := o1\<rparr>, r))
      else (st, writeAPIError 404 ErrorCodeNotFound ''not found''))"

text \<open>A history of the service: requests, and revocations by whoever holds it.\<close>

datatype auth_call =
    AuthHTTP request_env http_request
  | AuthRevoke string time

fun auth_step ::
  "jwt_library \<Rightarrow> ('d, 'o) auth_service \<Rightarrow> auth_call \<Rightarrow> ('d, 'o) auth_state \<Rightarrow> ('d, 'o) auth_state \<times> response option" where
  "auth_step L S (AuthHTTP env req) st =
     (let (st', r) = authn_Handler L S env req st in (st', Some r))"
| "auth_step L S (AuthRevoke tok now) st =
     (st\<lparr>au_denylist := fst (Revoke L S (au_denylist st) tok now)\<rparr>, None)"

fun auth_run ::
  "jwt_library \<Rightarrow> ('d, 'o) auth_service \<Rightarrow> auth_call list \<Rightarrow> ('d, 'o) auth_state \<Rightarrow>
   ('d, 'o) auth_state \<times> response option list" where
  "auth_run L S [] st = (st, [])"
| "auth_run L S (c # cs) st =
     (let (st1, r) = auth_step L S c st; (st2, rs) = auth_run L S cs st1 in (st2, r # rs))"

section \<open>Revocation\<close>

lemma handler_denylist [simp]: "au_denylist (fst (authn_Handler L S env req st)) = au_denylist st"
  by (auto simp: authn_Handler_def Middleware_def Let_def split: option.splits sum.splits prod.splits auth_error.splits)

locale denylist =
  fixes D :: "'d denylist_ops"
    and revoked :: "'d \<Rightarrow> string set"
  assumes revoke_ok: "dl_revoke D d j e = (d', Inr u) \<Longrightarrow> revoked d' = insert j (revoked d)"
    and revoke_failed: "dl_revoke D d j e = (d', Inl err) \<Longrightarrow> revoked d' = revoked d"
    and reported: "dl_is_revoked D d j = Inr b \<Longrightarrow> b \<longleftrightarrow> j \<in> revoked d"
begin

lemma validated_not_revoked:
  assumes "as_denylist S = D"
  shows "Validate L S d tok now = Inr p \<Longrightarrow> parseClaims L S tok now = Inr cl \<Longrightarrow> cc_id cl \<notin> revoked d"
  by (auto simp: Validate_def assms dest: reported split: if_splits sum.splits)

lemma revoke_keeps: "revoked d \<subseteq> revoked (fst (dl_revoke D d j e))"
  using revoke_ok [of d j e] revoke_failed [of d j e]
  by (cases "dl_revoke D d j e"; cases "snd (dl_revoke D d j e)") auto

lemma Revoke_keeps: "as_denylist S = D \<Longrightarrow> revoked d \<subseteq> revoked (fst (Revoke L S d tok t))"
  using revoke_keeps by (auto simp: Revoke_def Let_def case_prod_unfold split: sum.splits)

lemma step_revoked:
  assumes "as_denylist S = D"
  shows "revoked (au_denylist st) \<subseteq> revoked (au_denylist (fst (auth_step L S c st)))"
proof (cases c)
  case (AuthRevoke tok t)
  then show ?thesis using Revoke_keeps [OF assms, of "au_denylist st" L tok t] by simp
qed (simp add: Let_def case_prod_unfold)

lemma run_revoked:
  assumes "as_denylist S = D"
  shows "revoked (au_denylist st) \<subseteq> revoked (au_denylist (fst (auth_run L S cs st)))"
proof (induction cs arbitrary: st)
  case Nil
  then show ?case by simp
next
  case (Cons c cs)
  show ?case
    using step_revoked [OF assms, of st L c] Cons.IH [of "fst (auth_step L S c st)"]
    by (auto simp: Let_def case_prod_unfold)
qed

text \<open>A revoked token is dead, whatever happens after the revocation.\<close>

lemma revoked_token_dead:
  assumes "as_denylist S = D" "Revoke L S d tok t = (d', Inr u)" "au_denylist st = d'"
  shows "Validate L S (au_denylist (fst (auth_run L S cs st))) tok now \<noteq> Inr p"
proof
  assume v: "Validate L S (au_denylist (fst (auth_run L S cs st))) tok now = Inr p"
  obtain cl where cl: "parseClaims L S tok t = Inr cl" "cc_id cl \<in> revoked d'"
    using assms(2) by (auto simp: Revoke_def Let_def assms(1) dest: revoke_ok split: sum.splits if_splits prod.splits)
  obtain cl' where cl': "parseClaims L S tok now = Inr cl'"
    using v by (auto simp: Validate_def split: sum.splits)
  have "cl' = cl"
    using cl(1) cl' by (auto simp: parseClaims_def split: sum.splits if_splits option.splits prod.splits)
  then show False
    using validated_not_revoked [OF assms(1) v cl'] run_revoked [OF assms(1), of st L cs] cl(2) assms(3)
    by auto
qed

end

interpretation mem_deny: denylist memory_denylist "\<lambda>m. fst ` set m"
  by unfold_locales
    (auto simp: memory_denylist_def dl_Revoke_def dl_IsRevoked_def map_of_eq_None_iff)

text \<open>Whether a history revokes a token identifier.\<close>

definition revokes :: "jwt_library \<Rightarrow> ('d, 'o) auth_service \<Rightarrow> string \<Rightarrow> auth_call \<Rightarrow> bool" where
  "revokes L S jti c \<longleftrightarrow>
     (case c of
        AuthHTTP _ _ \<Rightarrow> False
      | AuthRevoke tok t \<Rightarrow>
          (case parseClaims L S tok t of Inl _ \<Rightarrow> False | Inr cl \<Rightarrow> cc_id cl = jti \<and> jti \<noteq> []))"

lemma mem_run_revoked:
  assumes "as_denylist S = memory_denylist"
  shows "map_of (au_denylist (fst (auth_run L S cs st))) jti \<noteq> None
    \<longleftrightarrow> map_of (au_denylist st) jti \<noteq> None \<or> list_ex (revokes L S jti) cs"
proof (induction cs arbitrary: st)
  case Nil
  then show ?case by simp
next
  case (Cons c cs)
  have "map_of (au_denylist (fst (auth_step L S c st))) jti \<noteq> None
      \<longleftrightarrow> map_of (au_denylist st) jti \<noteq> None \<or> revokes L S jti c"
    using assms
    by (cases c)
      (auto simp: revokes_def Revoke_def Let_def memory_denylist_def dl_Revoke_def case_prod_unfold
        split: sum.splits)
  then show ?case using Cons.IH [of "fst (auth_step L S c st)"] by (simp add: Let_def case_prod_unfold)
qed


section \<open>OAuth states\<close>

lemma handler_no_oauth: "as_github S = None \<Longrightarrow> au_oauth (fst (authn_Handler L S env req st)) = au_oauth st"
  by (auto simp: authn_Handler_def Middleware_def Let_def split: option.splits sum.splits auth_error.splits)

text \<open>
  A response to a start request that sends the browser to GitHub with a state, and a
  response to a callback that hands out a token for a state.
\<close>

definition opened :: "('d, 'o) auth_service \<Rightarrow> string \<Rightarrow> auth_call \<times> response option \<Rightarrow> bool" where
  "opened S state cr \<longleftrightarrow>
     (case cr of
        (AuthHTTP env req, Some r) \<Rightarrow>
          route_get [''oauth'', ''github'', ''start''] req \<and> re_status r = 302
          \<and> newOAuthState (en_random env) = Inr state
      | _ \<Rightarrow> False)"

definition minted :: "string \<Rightarrow> auth_call \<times> response option \<Rightarrow> bool" where
  "minted state cr \<longleftrightarrow>
     (case cr of
        (AuthHTTP env req, Some r) \<Rightarrow>
          route_get [''oauth'', ''github'', ''callback''] req \<and> re_status r = 200
          \<and> trim_space (cq_state (rq_query req)) = state
      | _ \<Rightarrow> False)"

definition opened_until :: "('d, 'o) auth_service \<Rightarrow> string \<Rightarrow> time \<Rightarrow> auth_call \<times> response option \<Rightarrow> bool" where
  "opened_until S state expiry cr \<longleftrightarrow> opened S state cr
     \<and> (case fst cr of AuthHTTP env _ \<Rightarrow> expiry = time_add (en_now env) (as_oauth_ttl S) | _ \<Rightarrow> False)"

lemma handler_oauth:
  "authn_Handler L S env req st = (st', r) \<Longrightarrow>
     route_get [''oauth'', ''github'', ''start''] req
       \<and> handleGitHubOAuthStart S (en_random env) (en_now env) (au_oauth st) = (au_oauth st', r)
   \<or> route_get [''oauth'', ''github'', ''callback''] req
       \<and> handleGitHubOAuthCallback L S (en_github env) (rq_query req) (en_random env)
           (en_now env) (en_now2 env) (au_oauth st) = (au_oauth st', r)
   \<or> au_oauth st' = au_oauth st
       \<and> \<not> (route_get [''oauth'', ''github'', ''callback''] req \<and> re_status r = 200)"
  by (auto simp: authn_Handler_def Middleware_def route_get_def Let_def
      split: if_splits prod.splits option.splits sum.splits auth_error.splits)

locale oauth_states =
  fixes O1 :: "'o oauth_state_ops"
    and pending :: "'o \<Rightarrow> string \<Rightarrow> time option"
  assumes save_ok: "os_save O1 s x e = (s', Inr u) \<Longrightarrow> pending s' = (pending s)(x \<mapsto> e)"
    and save_failed: "os_save O1 s x e = (s', Inl err) \<Longrightarrow> pending s' = pending s"
    and consumed: "os_consume O1 s x now = (s', Inr True) \<Longrightarrow>
      pending s' = (pending s)(x := None) \<and> (\<exists>e. pending s x = Some e \<and> now < e)"
    and not_consumed: "os_consume O1 s x now = (s', r) \<Longrightarrow> r \<noteq> Inr True \<Longrightarrow>
      pending s' = pending s \<or> pending s' = (pending s)(x := None)"
begin

lemma start_pending:
  assumes "as_oauth S = Some O1" "handleGitHubOAuthStart S rnd now s = (s', r)"
  shows "if re_status r = 302
    then \<exists>x. newOAuthState rnd = Inr x \<and> pending s' = (pending s)(x \<mapsto> time_add now (as_oauth_ttl S))
    else pending s' = pending s"
  using assms
  by (auto simp: handleGitHubOAuthStart_def
      dest: save_ok save_failed split: option.splits sum.splits prod.splits)

lemma callback_pending:
  assumes "as_oauth S = Some O1" "handleGitHubOAuthCallback L S H q rnd now now2 s = (s', r)"
  shows "pending s' = pending s \<and> re_status r \<noteq> 200
    \<or> pending s' = (pending s)(trim_space (cq_state q) := None)
      \<and> (re_status r = 200 \<longrightarrow> (\<exists>e. pending s (trim_space (cq_state q)) = Some e \<and> now < e))"
proof (cases "as_github S = None \<or> cq_error q \<noteq> [] \<or> trim_space (cq_state q) = []")
  case True
  then show ?thesis
    using assms by (auto simp: handleGitHubOAuthCallback_def Let_def split: option.splits if_splits)
next
  case False
  let ?x = "trim_space (cq_state q)"
  obtain s1 v where c: "os_consume O1 s ?x now = (s1, v)" by fastforce
  have s': "s' = s1" and r: "v \<noteq> Inr True \<Longrightarrow> re_status r \<noteq> 200"
    using assms False c
    by (auto simp: handleGitHubOAuthCallback_def Let_def split: option.splits sum.splits if_splits)
  show ?thesis
  proof (cases "v = Inr True")
    case True
    then show ?thesis using consumed c s' by blast
  next
    case no: False
    then show ?thesis using not_consumed [OF c] r s' by blast
  qed
qed

lemma step_pending:
  assumes S: "as_oauth S = Some O1" and step: "auth_step L S c st = (st', r)"
  shows "(minted x (c, r) \<longrightarrow> \<not> opened S x (c, r) \<and> pending (au_oauth st') x = None
        \<and> (\<exists>e. pending (au_oauth st) x = Some e \<and> (case c of AuthHTTP env _ \<Rightarrow> en_now env < e | _ \<Rightarrow> False)))
    \<and> (\<forall>e. pending (au_oauth st') x = Some e \<longrightarrow>
        pending (au_oauth st) x = Some e \<or> opened_until S x e (c, r))"
proof (cases c)
  case (AuthRevoke tok t)
  then show ?thesis using step by (auto simp: minted_def)
next
  case (AuthHTTP env req)
  obtain r1 where r1: "r = Some r1" "authn_Handler L S env req st = (st', r1)"
    using step AuthHTTP by (auto simp: Let_def split: prod.splits)
  from handler_oauth [OF r1(2)] show ?thesis
  proof (elim disjE conjE)
    assume start: "route_get [''oauth'', ''github'', ''start''] req"
      and h: "handleGitHubOAuthStart S (en_random env) (en_now env) (au_oauth st) = (au_oauth st', r1)"
    have not: "\<not> minted x (c, r)" using start AuthHTTP r1 by (simp add: minted_def route_get_def)
    show ?thesis
      using start_pending [OF S h] start not AuthHTTP r1
      by (auto simp: opened_until_def opened_def split: if_splits)
  next
    assume cb: "route_get [''oauth'', ''github'', ''callback''] req"
      and h: "handleGitHubOAuthCallback L S (en_github env) (rq_query req) (en_random env)
        (en_now env) (en_now2 env) (au_oauth st) = (au_oauth st', r1)"
    have not: "\<not> opened S x (c, r)" using cb AuthHTTP r1 by (simp add: opened_def route_get_def)
    show ?thesis
      using callback_pending [OF S h] cb not AuthHTTP r1
      by (auto simp: minted_def split: if_splits)
  next
    assume "au_oauth st' = au_oauth st"
      and "\<not> (route_get [''oauth'', ''github'', ''callback''] req \<and> re_status r1 = 200)"
    then show ?thesis using AuthHTTP r1 by (auto simp: minted_def)
  qed
qed

abbreviation is_pending :: "'o \<Rightarrow> string \<Rightarrow> nat" where
  "is_pending s x \<equiv> (if pending s x = None then 0 else 1)"

lemma run_mints:
  assumes S: "as_oauth S = Some O1" and run: "auth_run L S cs st = (st', rs)"
  shows "length (filter (minted x) (zip cs rs)) + is_pending (au_oauth st') x
      \<le> length (filter (opened S x) (zip cs rs)) + is_pending (au_oauth st) x"
  using run
proof (induction cs arbitrary: st rs)
  case Nil
  then show ?case by simp
next
  case (Cons c cs)
  obtain st1 r rs1 where one: "auth_step L S c st = (st1, r)"
    and rest: "auth_run L S cs st1 = (st', rs1)" and rs: "rs = r # rs1"
    using Cons.prems by (auto simp: Let_def split: prod.splits)
  have "(if minted x (c, r) then 1 else 0) + is_pending (au_oauth st1) x
      \<le> (if opened S x (c, r) then 1 else 0) + is_pending (au_oauth st) x"
    using step_pending [OF S one, of x]
    by (cases "pending (au_oauth st1) x") (auto simp: opened_until_def)
  then show ?case
    using Cons.IH [OF rest] rs by (auto split: if_splits)
qed

lemma run_expiry:
  assumes S: "as_oauth S = Some O1" and run: "auth_run L S cs st = (st', rs)"
    and "pending (au_oauth st') x = Some e"
  shows "pending (au_oauth st) x = Some e \<or> list_ex (opened_until S x e) (zip cs rs)"
  using run
proof (induction cs arbitrary: st rs)
  case Nil
  then show ?case using assms(3) by simp
next
  case (Cons c cs)
  obtain st1 r rs1 where one: "auth_step L S c st = (st1, r)"
    and rest: "auth_run L S cs st1 = (st', rs1)" and rs: "rs = r # rs1"
    using Cons.prems by (auto simp: Let_def split: prod.splits)
  show ?case using step_pending [OF S one, of x] Cons.IH [OF rest] rs by auto
qed

end

interpretation mem_oauth: oauth_states memory_oauth map_of
  by unfold_locales
    (auto simp: memory_oauth_def os_Save_def os_Consume_def Let_def split: option.splits if_splits)

section \<open>Properties\<close>

lemma hex_encode_nonempty: "b \<noteq> [] \<Longrightarrow> hex_encode b \<noteq> []"
  by (cases b) (auto simp: hex_encode_def Let_def)

lemma bearerToken_of:
  assumes "trim_space tok = tok" "tok \<noteq> []"
  shows "bearerToken (''Bearer '' @ tok) = Some tok"
  using assms by (simp add: bearerToken_def has_prefix_def)

lemma jwt_parse:
  "jwt_laws L \<Longrightarrow> jl_sign L alg key c = Inr tok \<Longrightarrow> precise L c \<Longrightarrow> kf alg = Inr key \<Longrightarrow>
   (case methods of None \<Rightarrow> True | Some ms \<Rightarrow> alg \<in> set ms) \<Longrightarrow> jl_parse L methods kf tok = Inr (c, True)"
  unfolding jwt_laws_def by (elim conjE) (drule spec, blast)

lemma jwt_text: "jwt_laws L \<Longrightarrow> jl_sign L alg key c = Inr tok \<Longrightarrow> trim_space tok = tok \<and> tok \<noteq> []"
  unfolding jwt_laws_def by (elim conjE) blast

lemma issued_claims:
  assumes "jwt_laws L" "Issue L S p (Some b) t0 = Inr tok"
  shows "bearerToken (''Bearer '' @ tok) = Some tok"
    and "parseClaims L S tok now =
      (if jl_date L (time_add t0 (as_ttl S)) \<le> now then Inl TokenExpired
       else Inr (issue_claims L S p (hex_encode b) t0))"
    and "pr_provider p \<noteq> [] \<and> pr_subject p \<noteq> [] \<and> pr_login p \<noteq> []"
proof -
  let ?c = "issue_claims L S p (hex_encode b) t0"
  have signed: "jl_sign L SigningMethodHS256 (as_key S) ?c = Inr tok"
    using assms(2) by (auto simp: Issue_def newJTI_def split: if_splits sum.splits)
  have "precise L ?c"
    using assms(1) by (simp add: precise_def issue_claims_def jwt_laws_def)
  then have "jl_parse L (Some [SigningMethodHS256]) (keyFunc S) tok = Inr (?c, True)"
    by (intro jwt_parse [OF assms(1) signed]) (simp_all add: keyFunc_def)
  then show "parseClaims L S tok now =
      (if jl_date L (time_add t0 (as_ttl S)) \<le> now then Inl TokenExpired else Inr ?c)"
    by (auto simp: parseClaims_def issue_claims_def)
  show "bearerToken (''Bearer '' @ tok) = Some tok"
    using jwt_text [OF assms(1) signed] by (intro bearerToken_of) simp_all
  show "pr_provider p \<noteq> [] \<and> pr_subject p \<noteq> [] \<and> pr_login p \<noteq> []"
    using assms(2) by (auto simp: Issue_def split: if_splits)
qed

text \<open>C12. The life of a token: once issued, and after any history of requests and revocations, the
  middleware lets a request with it through, as exactly the principal it was issued for,
  until the expiry date has come or a revocation of its identifier is part of the history;
  from then on it answers 401 and the protected handler is not run.\<close>

theorem issued_token_lives_until_revoked_or_expired:
  assumes "jwt_laws L" "as_denylist S = memory_denylist"
    and "length b = 16" "map_of (au_denylist st) (hex_encode b) = None"
    and "Issue L S p (Some b) t0 = Inr tok"
  shows "Middleware L S (au_denylist (fst (auth_run L S cs st))) now (''Bearer '' @ tok) nxt w =
    (if jl_date L (time_add t0 (as_ttl S)) \<le> now \<or> list_ex (revokes L S (hex_encode b)) cs
     then (w, writeAPIError 401 ErrorCodeUnauthenticated ''unauthenticated'')
     else nxt p w)"
proof -
  note issued = issued_claims [OF assms(1,5)]
  have jti: "hex_encode b \<noteq> []" using assms(3) by (intro hex_encode_nonempty) auto
  have rev: "dl_is_revoked (as_denylist S) (au_denylist (fst (auth_run L S cs st))) (hex_encode b) =
      Inr (list_ex (revokes L S (hex_encode b)) cs)"
    using mem_run_revoked [OF assms(2), of L cs st "hex_encode b"] assms(2,4)
    by (simp add: memory_denylist_def dl_IsRevoked_def)
  have "Validate L S (au_denylist (fst (auth_run L S cs st))) tok now =
      (if jl_date L (time_add t0 (as_ttl S)) \<le> now then Inl (ErrUnauthenticated TokenExpired)
       else if list_ex (revokes L S (hex_encode b)) cs then Inl (ErrUnauthenticated JTIDenylisted)
       else Inr p)"
    using jti rev issued(3) by (simp add: Validate_def issued(2) issue_claims_def)
  then show ?thesis unfolding Middleware_def issued(1) by (simp del: auth_run.simps)
qed

text \<open>C13. OAuth states are single use: in every history that starts with an empty state store, at
  most as many tokens are handed out for a state as the browser was sent away with it, and
  a callback mints only for a state that an earlier start opened and that has not expired.\<close>

theorem oauth_state_mints_once:
  assumes "as_oauth S = Some memory_oauth" "au_oauth st = NewMemoryOAuthState"
    and "auth_run L S cs st = (st1, rs)"
  shows "length (filter (minted x) (zip cs rs)) \<le> length (filter (opened S x) (zip cs rs))
    \<and> (minted x (AuthHTTP env req, snd (auth_step L S (AuthHTTP env req) st1)) \<longrightarrow>
        (\<exists>e. list_ex (opened_until S x e) (zip cs rs) \<and> en_now env < e))"
proof
  show "length (filter (minted x) (zip cs rs)) \<le> length (filter (opened S x) (zip cs rs))"
    using mem_oauth.run_mints [OF assms(1,3), of x] assms(2) by (simp add: NewMemoryOAuthState_def)
  show "minted x (AuthHTTP env req, snd (auth_step L S (AuthHTTP env req) st1)) \<longrightarrow>
        (\<exists>e. list_ex (opened_until S x e) (zip cs rs) \<and> en_now env < e)"
  proof
    assume m: "minted x (AuthHTTP env req, snd (auth_step L S (AuthHTTP env req) st1))"
    have step: "auth_step L S (AuthHTTP env req) st1 =
        (fst (auth_step L S (AuthHTTP env req) st1), snd (auth_step L S (AuthHTTP env req) st1))"
      by simp
    obtain e where e: "map_of (au_oauth st1) x = Some e" "en_now env < e"
      using mem_oauth.step_pending [OF assms(1) step, of x] m by auto
    then show "\<exists>e. list_ex (opened_until S x e) (zip cs rs) \<and> en_now env < e"
      using mem_oauth.run_expiry [OF assms(1,3) e(1)] assms(2) by (auto simp: NewMemoryOAuthState_def)
  qed
qed

section \<open>Witnesses\<close>

text \<open>A token library that knows one token.\<close>

definition demo_service :: "(mem_denylist, mem_oauth) auth_service" where
  "demo_service =
     \<lparr>as_key = ''k'', as_issuer = ''coach'', as_ttl = 100, as_denylist = memory_denylist,
      as_test_mint = False,
      as_github = Some \<lparr>gc_ClientID = ''id'', gc_ClientSecret = ''s'', gc_BaseURL = ''https://g/'',
                        gc_APIBaseURL = ''https://a'', gc_RedirectURI = ''https://c''\<rparr>,
      as_oauth = Some memory_oauth, as_oauth_ttl = 50\<rparr>"

definition demo_bytes :: string where
  "demo_bytes = replicate 16 (CHR ''a'')"

definition demo_user :: principal where
  "demo_user = \<lparr>pr_provider = ''github'', pr_subject = ''7'', pr_login = ''ann''\<rparr>"

definition demo_claims :: coach_claims where
  "demo_claims =
     \<lparr>cc_provider = ''github'', cc_login = ''ann'', cc_issuer = ''coach'', cc_subject = ''7'',
      cc_id = ''61616161616161616161616161616161'', cc_issued_at = Some 10, cc_expires_at = Some 110,
      cc_not_before = None\<rparr>"

definition demo_jwt :: jwt_library where
  "demo_jwt =
     \<lparr>jl_date = (\<lambda>t. t),
      jl_sign = (\<lambda>alg key c. if alg = ''HS256'' \<and> c = demo_claims then Inr ''t.o.k'' else Inl ''unsupported''),
      jl_parse = (\<lambda>methods kf tok. if tok = ''t.o.k'' then Inr (demo_claims, True) else Inl ''malformed'')\<rparr>"

lemma demo_laws: "jwt_laws demo_jwt"
proof -
  have "trim_space ''t.o.k'' = ''t.o.k''" by code_simp
  then show ?thesis by (auto simp: jwt_laws_def demo_jwt_def)
qed

lemma demo_issue: "Issue demo_jwt demo_service demo_user (Some demo_bytes) 10 = Inr ''t.o.k''"
  by code_simp

lemma issued_token_lives_until_revoked_or_expired_witness:
  "Middleware demo_jwt demo_service
     (au_denylist (fst (auth_run demo_jwt demo_service [AuthRevoke ''t.o.k'' 20]
        \<lparr>au_denylist = NewMemoryDenylist, au_oauth = NewMemoryOAuthState\<rparr>)))
     30 ''Bearer t.o.k'' (\<lambda>p w. (p # w, writeJSON 200 (BodyPrincipal p))) [] =
   ([], writeAPIError 401 ErrorCodeUnauthenticated ''unauthenticated'')"
proof -
  have "list_ex (revokes demo_jwt demo_service (hex_encode demo_bytes)) [AuthRevoke ''t.o.k'' 20]"
    by code_simp
  moreover have "as_denylist demo_service = memory_denylist" "length demo_bytes = 16"
    by (simp_all add: demo_service_def demo_bytes_def)
  ultimately show ?thesis
    using issued_token_lives_until_revoked_or_expired [OF demo_laws _ _ _ demo_issue,
      of "\<lparr>au_denylist = NewMemoryDenylist, au_oauth = NewMemoryOAuthState\<rparr>" "[AuthRevoke ''t.o.k'' 20]" 30
        "\<lambda>p w. (p # w, writeJSON 200 (BodyPrincipal p))" "[]"]
    by (simp add: NewMemoryDenylist_def)
qed

definition demo_github :: github_client where
  "demo_github =
     \<lparr>hc_token = (\<lambda>_. Inr (200, Inr \<lparr>gt_AccessToken = ''x'', gt_TokenType = [], gt_Scope = [],
                                        gt_Error = [], gt_ErrorDesc = []\<rparr>)),
      hc_user = (\<lambda>_. Inr (200, Inr \<lparr>gu_ID = 7, gu_Login = ''ann''\<rparr>))\<rparr>"

definition demo_env :: "time \<Rightarrow> request_env" where
  "demo_env t = \<lparr>en_now = t, en_now2 = 10, en_random = Some demo_bytes, en_github = demo_github\<rparr>"

definition demo_request :: "string \<Rightarrow> http_request" where
  "demo_request leaf =
     \<lparr>rq_method = ''GET'', rq_path = [''oauth'', ''github'', leaf], rq_authorization = [],
      rq_body = RawNil,
      rq_query = \<lparr>cq_error = [], cq_state = ''61616161616161616161616161616161'', cq_code = ''c''\<rparr>\<rparr>"

lemma oauth_state_mints_once_witness:
  "\<exists>e. list_ex (opened_until demo_service (hex_encode demo_bytes) e)
        (zip [AuthHTTP (demo_env 5) (demo_request ''start'')]
           (snd (auth_run demo_jwt demo_service [AuthHTTP (demo_env 5) (demo_request ''start'')]
              \<lparr>au_denylist = NewMemoryDenylist, au_oauth = NewMemoryOAuthState\<rparr>)))
      \<and> en_now (demo_env 20) < e"
proof -
  let ?st = "\<lparr>au_denylist = NewMemoryDenylist, au_oauth = NewMemoryOAuthState\<rparr>"
  let ?cs = "[AuthHTTP (demo_env 5) (demo_request ''start'')]"
  let ?st1 = "fst (auth_run demo_jwt demo_service ?cs ?st)"
  have "minted (hex_encode demo_bytes) (AuthHTTP (demo_env 20) (demo_request ''callback''),
      snd (auth_step demo_jwt demo_service (AuthHTTP (demo_env 20) (demo_request ''callback'')) ?st1))"
    by code_simp
  then show ?thesis
    using oauth_state_mints_once [of demo_service ?st demo_jwt ?cs ?st1
        "snd (auth_run demo_jwt demo_service ?cs ?st)" "hex_encode demo_bytes" "demo_env 20" "demo_request ''callback''"]
    by (simp add: demo_service_def)
qed

end
