(* ===== verification/GithubIngest.thy ===== *)
theory GithubIngest
  imports CoachStrings "HOL-Library.Monad_Syntax"
begin

text \<open>
  GitHub ingestion (pkg/githubingest): App credentials, reading one file, resolving a
  commit, and the budgeted walk over a repository's tree.

  The GitHub client library (go-github, ghinstallation) is an argument: \<open>github_sdk\<close> builds
  clients, and \<open>github_api\<close> gives what a client's calls answer.  The walk over directories ends only if
  the repository's tree is finite, so it is a partial function: None is a walk that does
  not return.
\<close>

section \<open>The client library\<close>

text \<open>
  A failed call: its text, the status of the response if there was one, and whether it is
  a ghinstallation.HTTPError with a response (a failed token mint).
\<close>

record api_error =
  ae_text :: string
  ae_status :: "nat option"
  ae_token_mint :: bool

record repo_content =
  rc_type :: string
  rc_name :: string
  rc_path :: string
  rc_sha :: string
  rc_size :: int
  rc_content :: "string option"

text \<open>The calls: GetContents (owner, repo, path, ref), Repositories.Get (default branch), GetCommit (SHA),
  GetRepositoryInstallation, CreateInstallationToken, GetPermissionLevel.\<close>

record github_api =
  ga_contents :: "string \<Rightarrow> string \<Rightarrow> string \<Rightarrow> string \<Rightarrow> api_error + (repo_content option \<times> repo_content list option)"
  ga_default_branch :: "string \<Rightarrow> string \<Rightarrow> api_error + string"
  ga_commit :: "string \<Rightarrow> string \<Rightarrow> string \<Rightarrow> api_error + string"
  ga_installation :: "string \<Rightarrow> string \<Rightarrow> api_error + int"
  ga_token :: "int \<Rightarrow> api_error + string"
  ga_permission :: "string \<Rightarrow> string \<Rightarrow> string \<Rightarrow> api_error + string"

datatype 't client_option =
    WithTransport 't
  | WithTimeout duration
  | WithAuthToken string
  | WithEnterpriseURLs string string

text \<open>
  \<open>sdk_rebase\<close> is assigning the BaseURL of the ghinstallation transport a client was built on.
\<close>

record 't github_sdk =
  sdk_default_transport :: 't
  sdk_apps_transport :: "'t \<Rightarrow> int \<Rightarrow> string \<Rightarrow> string + 't"
  sdk_installation_transport :: "'t \<Rightarrow> int \<Rightarrow> int \<Rightarrow> string \<Rightarrow> string + 't"
  sdk_new_client :: "'t client_option list \<Rightarrow> string + github_api"
  sdk_base_url :: "github_api \<Rightarrow> string"
  sdk_rebase :: "github_api \<Rightarrow> string \<Rightarrow> github_api"

section \<open>Errors\<close>

text \<open>The sentinels errors.Is finds, each with the text around it.\<close>

datatype ingest_error =
    ErrAuth string
  | ErrNotFound string
  | ErrUnsupportedContent string
  | ErrEmptyContent string
  | ErrTooLarge string
  | IngestFailure string

definition isTokenMintFailure :: "api_error \<Rightarrow> bool" where
  "isTokenMintFailure e = ae_token_mint e"

definition rejected_text :: "string \<Rightarrow> nat \<Rightarrow> string" where
  "rejected_text action status = ''githubingest: '' @ action @ '' rejected with status '' @ decimal status"

definition mapContentsAPIError :: "api_error \<Rightarrow> string \<Rightarrow> ingest_error" where
  "mapContentsAPIError e action =
     (let other = IngestFailure (''githubingest: '' @ action @ '': '' @ ae_text e)
      in case ae_status e of
           Some status \<Rightarrow>
             if status = 404 then ErrNotFound (''githubingest: '' @ action)
             else if status = 401 \<or> status = 403 then ErrAuth (rejected_text action status)
             else other
         | None \<Rightarrow>
             if isTokenMintFailure e
             then ErrAuth (''githubingest: authenticating GitHub App installation while '' @ action)
             else other)"

definition mapCredentialAPIError :: "api_error \<Rightarrow> string \<Rightarrow> ingest_error" where
  "mapCredentialAPIError e action =
     (let other = IngestFailure (''githubingest: '' @ action @ '': '' @ ae_text e)
      in case ae_status e of
           Some status \<Rightarrow>
             if status = 404 then ErrNotFound (''githubingest: '' @ action)
             else if status = 401 \<or> status = 403 then ErrAuth (rejected_text action status)
             else other
         | None \<Rightarrow> other)"

section \<open>Credentials\<close>

record 't credential_config =
  cf_AppID :: int
  cf_PrivateKey :: string
  cf_BaseURL :: string
  cf_Transport :: "'t option"

definition DefaultCredentialResolverHTTPTimeout :: duration where
  "DefaultCredentialResolverHTTPTimeout = 10 * second"

definition enterprise_options :: "string \<Rightarrow> 't client_option list" where
  "enterprise_options base_url = (if base_url \<noteq> [] then [WithEnterpriseURLs base_url base_url] else [])"

definition rebased :: "'t github_sdk \<Rightarrow> string \<Rightarrow> github_api \<Rightarrow> github_api" where
  "rebased K base_url client =
     (if base_url \<noteq> [] then sdk_rebase K client (sdk_base_url K client) else client)"

definition NewCredentialResolver :: "'t github_sdk \<Rightarrow> 't credential_config \<Rightarrow> string + github_api" where
  "NewCredentialResolver K cfg =
     (if cf_AppID cfg \<le> 0
      then Inl (''githubingest: CredentialResolverConfig.AppID must be a positive ID, got '' @ itoa (cf_AppID cfg))
      else if length (cf_PrivateKey cfg) = 0
      then Inl ''githubingest: CredentialResolverConfig.PrivateKey must be set''
      else
        let base = (case cf_Transport cfg of None \<Rightarrow> sdk_default_transport K | Some t \<Rightarrow> t)
        in case sdk_apps_transport K base (cf_AppID cfg) (cf_PrivateKey cfg) of
             Inl e \<Rightarrow> Inl (''githubingest: building App JWT transport: '' @ e)
           | Inr atr \<Rightarrow>
               (case sdk_new_client K ([WithTransport atr, WithTimeout DefaultCredentialResolverHTTPTimeout]
                       @ enterprise_options (cf_BaseURL cfg)) of
                  Inl e \<Rightarrow> Inl (''githubingest: building GitHub client: '' @ e)
                | Inr client \<Rightarrow> Inr (rebased K (cf_BaseURL cfg) client)))"

definition ResolveInstallationID :: "github_api \<Rightarrow> string \<Rightarrow> string \<Rightarrow> ingest_error + int" where
  "ResolveInstallationID C owner repo =
     (case ga_installation C owner repo of
        Inl e \<Rightarrow> Inl (mapCredentialAPIError e (''resolving installation for '' @ owner @ ''/'' @ repo))
      | Inr iid \<Rightarrow> Inr iid)"

definition InstallationToken :: "github_api \<Rightarrow> int \<Rightarrow> ingest_error + string" where
  "InstallationToken C iid =
     (case ga_token C iid of
        Inl e \<Rightarrow> Inl (mapCredentialAPIError e (''minting installation token for installation '' @ itoa iid))
      | Inr tok \<Rightarrow> Inr tok)"

section \<open>Readers\<close>

record 't github_app_config =
  gf_AppID :: int
  gf_InstallationID :: int
  gf_PrivateKey :: string
  gf_BaseURL :: string
  gf_Transport :: "'t option"

definition DefaultGitHubFileReaderHTTPTimeout :: duration where
  "DefaultGitHubFileReaderHTTPTimeout = 10 * second"

definition NewGitHubFileReader :: "'t github_sdk \<Rightarrow> 't github_app_config \<Rightarrow> string + github_api" where
  "NewGitHubFileReader K cfg =
     (if gf_AppID cfg \<le> 0
      then Inl (''githubingest: GitHubAppConfig.AppID must be a positive ID, got '' @ itoa (gf_AppID cfg))
      else if gf_InstallationID cfg \<le> 0
      then Inl (''githubingest: GitHubAppConfig.InstallationID must be a positive ID, got '' @ itoa (gf_InstallationID cfg))
      else if length (gf_PrivateKey cfg) = 0 then Inl ''githubingest: GitHubAppConfig.PrivateKey must be set''
      else
        let base = (case gf_Transport cfg of None \<Rightarrow> sdk_default_transport K | Some t \<Rightarrow> t)
        in case sdk_installation_transport K base (gf_AppID cfg) (gf_InstallationID cfg) (gf_PrivateKey cfg) of
             Inl e \<Rightarrow> Inl (''githubingest: building installation transport: '' @ e)
           | Inr itr \<Rightarrow>
               (case sdk_new_client K ([WithTransport itr, WithTimeout DefaultGitHubFileReaderHTTPTimeout]
                       @ enterprise_options (gf_BaseURL cfg)) of
                  Inl e \<Rightarrow> Inl (''githubingest: building GitHub client: '' @ e)
                | Inr client \<Rightarrow> Inr (rebased K (gf_BaseURL cfg) client)))"

definition NewGitHubFileReaderFromToken :: "'t github_sdk \<Rightarrow> string \<Rightarrow> string \<Rightarrow> string + github_api" where
  "NewGitHubFileReaderFromToken K token base_url =
     (if token = [] then Inl ''githubingest: installation access token must be set''
      else (case sdk_new_client K ([WithTimeout DefaultGitHubFileReaderHTTPTimeout, WithAuthToken token]
                   @ enterprise_options base_url) of
              Inl e \<Rightarrow> Inl (''githubingest: building GitHub client from token: '' @ e)
            | Inr client \<Rightarrow> Inr client))"

definition ResolveCommitSHA :: "github_api \<Rightarrow> string \<Rightarrow> string \<Rightarrow> string \<Rightarrow> ingest_error + string" where
  "ResolveCommitSHA C owner repo ref0 =
     (let of_ref = (\<lambda>ref.
            case ga_commit C owner repo ref of
              Inl e \<Rightarrow> Inl (mapContentsAPIError e
                        (''resolving commit SHA for '' @ owner @ ''/'' @ repo @ '' at ref '' @ ref))
            | Inr sha \<Rightarrow>
                if sha = [] then Inl (IngestFailure (''githubingest: resolved empty commit SHA for ''
                                      @ owner @ ''/'' @ repo @ '' at ref '' @ ref))
                else Inr sha);
          ref1 = trim_space ref0
      in if ref1 = []
         then (case ga_default_branch C owner repo of
                 Inl e \<Rightarrow> Inl (mapContentsAPIError e (''resolving default branch for '' @ owner @ ''/'' @ repo))
               | Inr branch \<Rightarrow>
                   let ref2 = trim_space branch in
                   if ref2 = []
                   then Inl (IngestFailure (''githubingest: '' @ owner @ ''/'' @ repo @ '' has an empty default branch''))
                   else of_ref ref2)
         else of_ref ref1)"

section \<open>Reading a file\<close>

text \<open>
  \<open>base64.StdEncoding.DecodeString\<close>: line breaks are skipped, the rest are groups of four
  characters, of which the last may be padded.
\<close>

definition b64_value :: "nat \<Rightarrow> nat option" where
  "b64_value n =
     (if 65 \<le> n \<and> n \<le> 90 then Some (n - 65)
      else if 97 \<le> n \<and> n \<le> 122 then Some (n - 71)
      else if 48 \<le> n \<and> n \<le> 57 then Some (n + 4)
      else if n = 43 then Some 62 else if n = 47 then Some 63 else None)"

fun b64_groups :: "nat list \<Rightarrow> nat list option" where
  "b64_groups [] = Some []"
| "b64_groups (a # b # c # d # rest) =
     (case (b64_value a, b64_value b) of
        (Some x, Some y) \<Rightarrow>
          if c = 61 \<and> d = 61 \<and> rest = [] then Some [x * 4 + y div 16]
          else (case b64_value c of
                  None \<Rightarrow> None
                | Some z \<Rightarrow>
                    if d = 61 \<and> rest = [] then Some [x * 4 + y div 16, (y mod 16) * 16 + z div 4]
                    else (case (b64_value d, b64_groups rest) of
                            (Some v, Some decoded) \<Rightarrow>
                              Some ((x * 4 + y div 16) # ((y mod 16) * 16 + z div 4) # ((z mod 4) * 64 + v) # decoded)
                          | _ \<Rightarrow> None))
      | _ \<Rightarrow> None)"
| "b64_groups _ = None"

definition base64_decode :: "string \<Rightarrow> string option" where
  "base64_decode s =
     map_option (map char_of) (b64_groups (filter (\<lambda>n. n \<noteq> 10 \<and> n \<noteq> 13) (map of_char s)))"

record file_ref =
  fr_Owner :: string
  fr_Repo :: string
  fr_Ref :: string
  fr_Path :: string

record file_metadata =
  fm_Path :: string
  fm_Ref :: string
  fm_SHA :: string
  fm_Size :: int

definition maxContentSize :: int where
  "maxContentSize = 2 ^ 20"

definition at_ref :: "file_ref \<Rightarrow> string" where
  "at_ref ref = fr_Path ref @ '' at ref '' @ fr_Ref ref"

definition rejectIfPathIsSymlink :: "github_api \<Rightarrow> file_ref \<Rightarrow> ingest_error option" where
  "rejectIfPathIsSymlink C ref =
     (let dir = (if path_dir (fr_Path ref) = ''.'' then [] else path_dir (fr_Path ref))
      in case ga_contents C (fr_Owner ref) (fr_Repo ref) dir (fr_Ref ref) of
           Inl e \<Rightarrow> Some (mapContentsAPIError e (''listing the directory containing '' @ at_ref ref))
         | Inr (_, entries) \<Rightarrow>
             if list_ex (\<lambda>e. rc_name e = path_base (fr_Path ref) \<and> rc_type e = ''symlink'')
                  (case entries of None \<Rightarrow> [] | Some es \<Rightarrow> es)
             then Some (ErrUnsupportedContent (''githubingest: '' @ at_ref ref @ '' is a symlink''))
             else None)"

definition ReadFile :: "github_api \<Rightarrow> file_ref \<Rightarrow> ingest_error + (string \<times> file_metadata)" where
  "ReadFile C ref =
     (case ga_contents C (fr_Owner ref) (fr_Repo ref) (fr_Path ref) (fr_Ref ref) of
        Inl e \<Rightarrow> Inl (mapContentsAPIError e (''fetching '' @ at_ref ref))
      | Inr (Some file, None) \<Rightarrow>
          if rc_type file \<in> {''dir'', ''symlink'', ''submodule''}
          then Inl (ErrUnsupportedContent (''githubingest: '' @ at_ref ref @ '' is a '' @ rc_type file @ '', not a regular file''))
          else (case rejectIfPathIsSymlink C ref of
                  Some e \<Rightarrow> Inl e
                | None \<Rightarrow>
          if rc_size file > maxContentSize
          then Inl (ErrTooLarge (''githubingest: '' @ at_ref ref @ '' is '' @ itoa (rc_size file)
                 @ '' bytes, exceeding the '' @ itoa maxContentSize @ '' byte limit''))
          else (case rc_content file of
                  None \<Rightarrow> Inl (IngestFailure (''githubingest: '' @ at_ref ref @ '': response had no content field''))
                | Some content \<Rightarrow>
          (case base64_decode content of
             None \<Rightarrow> Inl (IngestFailure (''githubingest: decoding content for '' @ at_ref ref))
           | Some decoded \<Rightarrow>
               if length decoded = 0
               then Inl (ErrEmptyContent (''githubingest: '' @ at_ref ref @ '' decoded to empty content''))
               else Inr (decoded, \<lparr>fm_Path = rc_path file, fm_Ref = fr_Ref ref, fm_SHA = rc_sha file,
                                   fm_Size = rc_size file\<rparr>))))
      | Inr _ \<Rightarrow> Inl (ErrUnsupportedContent (''githubingest: '' @ at_ref ref @ '' is a directory listing'')))"

section \<open>Walking the tree\<close>

record tree_ref =
  tr_Owner :: string
  tr_Repo :: string
  tr_Ref :: string

record tree_entry =
  te_Path :: string
  te_SHA :: string
  te_Size :: int

record tree_options =
  to_Filter :: "(string \<Rightarrow> bool) option"
  to_MaxFiles :: int
  to_MaxTotalBytes :: int

record tree_walk =
  tw_entries :: "tree_entry list"
  tw_total :: int

definition repo_label :: "tree_ref \<Rightarrow> string" where
  "repo_label ref = tr_Owner ref @ ''/'' @ tr_Repo ref"

definition dirLabel :: "tree_ref \<Rightarrow> string \<Rightarrow> string" where
  "dirLabel ref dir = (if dir = [] then repo_label ref @ '' root'' else dir)"

definition appendFile :: "tree_ref \<Rightarrow> tree_options \<Rightarrow> repo_content \<Rightarrow> tree_walk \<Rightarrow> ingest_error + tree_walk" where
  "appendFile ref opts entry w =
     (if (case to_Filter opts of None \<Rightarrow> False | Some f \<Rightarrow> \<not> f (rc_path entry)) then Inr w
      else if to_MaxFiles opts > 0 \<and> int (length (tw_entries w)) + 1 > to_MaxFiles opts
      then Inl (ErrTooLarge (''githubingest: tree listing for '' @ repo_label ref @ '' at ref '' @ tr_Ref ref
             @ '' exceeds the configured file-count budget of '' @ itoa (to_MaxFiles opts)))
      else
        let new_total = wrap64 (tw_total w + rc_size entry) in
        if to_MaxTotalBytes opts > 0 \<and> new_total > to_MaxTotalBytes opts
        then Inl (ErrTooLarge (''githubingest: tree listing for '' @ repo_label ref @ '' at ref '' @ tr_Ref ref
               @ '' exceeds the configured byte budget of '' @ itoa (to_MaxTotalBytes opts) @ '' bytes''))
        else Inr (w\<lparr>tw_total := new_total,
                    tw_entries := tw_entries w @ [\<lparr>te_Path = rc_path entry, te_SHA = rc_sha entry, te_Size = rc_size entry\<rparr>]\<rparr>))"

definition list_dir :: "github_api \<Rightarrow> tree_ref \<Rightarrow> string \<Rightarrow> ingest_error + repo_content list" where
  "list_dir C ref dir =
     (case ga_contents C (tr_Owner ref) (tr_Repo ref) dir (tr_Ref ref) of
        Inl e \<Rightarrow> Inl (mapContentsAPIError e (''listing '' @ dirLabel ref dir @ '' at ref '' @ tr_Ref ref))
      | Inr (_, entries) \<Rightarrow> Inr (case entries of None \<Rightarrow> [] | Some es \<Rightarrow> es))"

text \<open>The loop over the entries of a directory, a directory among them walked first.\<close>

partial_function (option) walk_entries ::
  "github_api \<Rightarrow> tree_ref \<Rightarrow> tree_options \<Rightarrow> repo_content list \<Rightarrow> tree_walk \<Rightarrow> (ingest_error + tree_walk) option" where
  "walk_entries C ref opts entries w =
     (case entries of
        [] \<Rightarrow> Some (Inr w)
      | entry # rest \<Rightarrow>
          (if rc_type entry = ''dir''
           then (case list_dir C ref (rc_path entry) of
                   Inl e \<Rightarrow> Some (Inl e)
                 | Inr children \<Rightarrow>
                     Option.bind (walk_entries C ref opts children w)
                       (\<lambda>r. case r of Inl e \<Rightarrow> Some (Inl e) | Inr w1 \<Rightarrow> walk_entries C ref opts rest w1))
           else if rc_type entry = ''file''
           then (case appendFile ref opts entry w of
                   Inl e \<Rightarrow> Some (Inl e)
                 | Inr w1 \<Rightarrow> walk_entries C ref opts rest w1)
           else walk_entries C ref opts rest w))"

definition walk :: "github_api \<Rightarrow> tree_ref \<Rightarrow> tree_options \<Rightarrow> string \<Rightarrow> tree_walk \<Rightarrow> (ingest_error + tree_walk) option" where
  "walk C ref opts dir w =
     (case list_dir C ref dir of
        Inl e \<Rightarrow> Some (Inl e)
      | Inr entries \<Rightarrow> walk_entries C ref opts entries w)"

definition ListFiles :: "github_api \<Rightarrow> tree_ref \<Rightarrow> tree_options \<Rightarrow> (ingest_error + tree_entry list) option" where
  "ListFiles C ref opts =
     Option.bind (walk C ref opts [] \<lparr>tw_entries = [], tw_total = 0\<rparr>)
       (\<lambda>r. Some (case r of Inl e \<Rightarrow> Inl e | Inr w \<Rightarrow> Inr (tw_entries w)))"

section \<open>What a walk returns\<close>

text \<open>
  A finite repository tree, and that a client serves it: every directory lists exactly the
  nodes below it.
\<close>

datatype repo_tree =
    TFile repo_content
  | TOther repo_content
  | TDir repo_content "repo_tree list"

fun node :: "repo_tree \<Rightarrow> repo_content" where
  "node (TFile c) = c"
| "node (TOther c) = c"
| "node (TDir c ts) = c"

fun tree_served :: "github_api \<Rightarrow> tree_ref \<Rightarrow> repo_tree \<Rightarrow> bool" where
  "tree_served C ref (TFile c) \<longleftrightarrow> rc_type c = ''file''"
| "tree_served C ref (TOther c) \<longleftrightarrow> rc_type c \<noteq> ''file'' \<and> rc_type c \<noteq> ''dir''"
| "tree_served C ref (TDir c ts) \<longleftrightarrow>
     rc_type c = ''dir'' \<and> list_dir C ref (rc_path c) = Inr (map node ts) \<and> list_all (tree_served C ref) ts"

fun files_of :: "repo_tree \<Rightarrow> repo_content list" where
  "files_of (TFile c) = [c]"
| "files_of (TOther c) = []"
| "files_of (TDir c ts) = concat (map files_of ts)"

fun append_all :: "tree_ref \<Rightarrow> tree_options \<Rightarrow> repo_content list \<Rightarrow> tree_walk \<Rightarrow> ingest_error + tree_walk" where
  "append_all ref opts [] w = Inr w"
| "append_all ref opts (f # fs) w =
     (case appendFile ref opts f w of Inl e \<Rightarrow> Inl e | Inr w1 \<Rightarrow> append_all ref opts fs w1)"

lemma append_all_append:
  "append_all ref opts (fs @ gs) w =
     (case append_all ref opts fs w of Inl e \<Rightarrow> Inl e | Inr w1 \<Rightarrow> append_all ref opts gs w1)"
  by (induction fs arbitrary: w) (auto split: sum.splits)

text \<open>Walking a served tree ends and visits its files depth first.\<close>

lemma walk_served:
  "tree_served C ref t \<Longrightarrow>
   walk_entries C ref opts (node t # rest) w =
     (case append_all ref opts (files_of t) w of
        Inl e \<Rightarrow> Some (Inl e)
      | Inr w1 \<Rightarrow> walk_entries C ref opts rest w1)"
proof (induction t arbitrary: rest w)
  case (TFile c)
  then show ?case by (subst walk_entries.simps) (auto split: sum.splits)
next
  case (TOther c)
  then show ?case by (subst walk_entries.simps) auto
next
  case (TDir c ts)
  have children: "walk_entries C ref opts (map node us) w =
      Some (append_all ref opts (concat (map files_of us)) w)"
    if "set us \<subseteq> set ts" for us w
    using that
  proof (induction us arbitrary: w)
    case Nil
    then show ?case by (subst walk_entries.simps) simp
  next
    case (Cons u us)
    have "tree_served C ref u" using TDir.prems Cons.prems by (auto simp: list_all_iff)
    then have "walk_entries C ref opts (node u # map node us) w =
        (case append_all ref opts (files_of u) w of
           Inl e \<Rightarrow> Some (Inl e) | Inr w1 \<Rightarrow> walk_entries C ref opts (map node us) w1)"
      using TDir.IH [of u] Cons.prems by simp
    then show ?case
      using Cons.IH Cons.prems by (auto simp: append_all_append split: sum.splits)
  qed
  have "walk_entries C ref opts (c # rest) w =
      Option.bind (walk_entries C ref opts (map node ts) w)
        (\<lambda>r. case r of Inl e \<Rightarrow> Some (Inl e) | Inr w1 \<Rightarrow> walk_entries C ref opts rest w1)"
    using TDir.prems by (subst walk_entries.simps) simp
  then show ?case by (simp add: children)
qed

lemma walk_served_list:
  "list_all (tree_served C ref) ts \<Longrightarrow>
   walk_entries C ref opts (map node ts) w = Some (append_all ref opts (concat (map files_of ts)) w)"
proof (induction ts arbitrary: w)
  case Nil
  then show ?case by (subst walk_entries.simps) simp
next
  case (Cons t ts)
  then show ?case by (simp add: walk_served append_all_append split: sum.splits)
qed

definition selected :: "tree_options \<Rightarrow> repo_content list \<Rightarrow> repo_content list" where
  "selected opts fs = filter (\<lambda>c. case to_Filter opts of None \<Rightarrow> True | Some f \<Rightarrow> f (rc_path c)) fs"

definition tree_entry_of :: "repo_content \<Rightarrow> tree_entry" where
  "tree_entry_of c = \<lparr>te_Path = rc_path c, te_SHA = rc_sha c, te_Size = rc_size c\<rparr>"

definition bytes_of :: "repo_content list \<Rightarrow> int" where
  "bytes_of cs = sum_list (map rc_size cs)"

text \<open>Whether n files of b bytes are within the budgets.\<close>

definition within_budget :: "tree_options \<Rightarrow> int \<Rightarrow> int \<Rightarrow> bool" where
  "within_budget opts n b \<longleftrightarrow>
     (to_MaxFiles opts > 0 \<longrightarrow> n \<le> to_MaxFiles opts)
     \<and> (to_MaxTotalBytes opts > 0 \<longrightarrow> b \<le> to_MaxTotalBytes opts)"

definition sane_size :: "repo_content \<Rightarrow> bool" where
  "sane_size c \<longleftrightarrow> 0 \<le> rc_size c \<and> rc_size c < 2 ^ 62"

lemma selected_simps [simp]:
  "selected opts [] = []"
  "selected opts (f # fs) =
     (if case to_Filter opts of None \<Rightarrow> False | Some g \<Rightarrow> \<not> g (rc_path f) then selected opts fs
      else f # selected opts fs)"
  by (auto simp: selected_def split: option.splits)

lemma bytes_of_nonneg: "list_all sane_size cs \<Longrightarrow> 0 \<le> bytes_of cs"
  by (induction cs) (auto simp: bytes_of_def sane_size_def)

lemma sane_selected: "list_all sane_size fs \<Longrightarrow> list_all sane_size (selected opts fs)"
  by (auto simp: selected_def list_all_iff)

text \<open>The running total when it is looked at: unwrapped and within the budget.\<close>

definition walk_inv :: "tree_options \<Rightarrow> tree_walk \<Rightarrow> bool" where
  "walk_inv opts w \<longleftrightarrow>
     (to_MaxFiles opts > 0 \<longrightarrow> int (length (tw_entries w)) \<le> to_MaxFiles opts)
     \<and> (to_MaxTotalBytes opts > 0 \<longrightarrow> 0 \<le> tw_total w \<and> tw_total w \<le> to_MaxTotalBytes opts)"

lemma appendFile_cases:
  assumes "walk_inv opts w" "sane_size f" "to_MaxTotalBytes opts < 2 ^ 62"
    and "case to_Filter opts of None \<Rightarrow> True | Some g \<Rightarrow> g (rc_path f)"
  shows "if within_budget opts (int (length (tw_entries w)) + 1) (tw_total w + rc_size f)
    then \<exists>w1. appendFile ref opts f w = Inr w1 \<and> tw_entries w1 = tw_entries w @ [tree_entry_of f]
           \<and> walk_inv opts w1 \<and> (to_MaxTotalBytes opts > 0 \<longrightarrow> tw_total w1 = tw_total w + rc_size f)
    else \<exists>m. appendFile ref opts f w = Inl (ErrTooLarge m)"
proof -
  have wrap: "wrap64 (tw_total w + rc_size f) = tw_total w + rc_size f" if "to_MaxTotalBytes opts > 0"
    using that assms(1-3) by (intro wrap64_id) (auto simp: walk_inv_def sane_size_def)
  have filter: "\<not> (case to_Filter opts of None \<Rightarrow> False | Some g \<Rightarrow> \<not> g (rc_path f))"
    using assms(4) by (auto split: option.splits)
  show ?thesis
    using wrap assms(1,2) unfolding appendFile_def if_not_P [OF filter]
    by (auto simp: within_budget_def walk_inv_def sane_size_def tree_entry_of_def Let_def)
qed

lemma append_all_exact:
  assumes "walk_inv opts w" "list_all sane_size fs" "to_MaxTotalBytes opts < 2 ^ 62"
  shows "if within_budget opts (int (length (tw_entries w)) + int (length (selected opts fs)))
              (tw_total w + bytes_of (selected opts fs))
    then \<exists>w1. append_all ref opts fs w = Inr w1
           \<and> tw_entries w1 = tw_entries w @ map tree_entry_of (selected opts fs)
    else \<exists>m. append_all ref opts fs w = Inl (ErrTooLarge m)"
  using assms(1,2)
proof (induction fs arbitrary: w)
  case Nil
  then show ?case by (auto simp: within_budget_def walk_inv_def bytes_of_def)
next
  case (Cons f fs)
  show ?case
  proof (cases "case to_Filter opts of None \<Rightarrow> False | Some g \<Rightarrow> \<not> g (rc_path f)")
    case True
    then have "append_all ref opts (f # fs) w = append_all ref opts fs w"
      by (simp add: appendFile_def)
    then show ?thesis using Cons True by simp
  next
    case False
    then have keep: "case to_Filter opts of None \<Rightarrow> True | Some g \<Rightarrow> g (rc_path f)"
      by (auto split: option.splits)
    have sane: "sane_size f" "list_all sane_size fs" using Cons.prems(2) by simp_all
    have rest: "0 \<le> bytes_of (selected opts fs)"
      using bytes_of_nonneg [OF sane_selected [OF sane(2)]] .
    note step = appendFile_cases [OF Cons.prems(1) sane(1) assms(3) keep, of ref]
    show ?thesis
    proof (cases "within_budget opts (int (length (tw_entries w)) + 1) (tw_total w + rc_size f)")
      case True
      then obtain w1 where w1: "appendFile ref opts f w = Inr w1" "tw_entries w1 = tw_entries w @ [tree_entry_of f]"
          "walk_inv opts w1" "to_MaxTotalBytes opts > 0 \<longrightarrow> tw_total w1 = tw_total w + rc_size f"
        using step by auto
      have "within_budget opts (int (length (tw_entries w1)) + int (length (selected opts fs)))
              (tw_total w1 + bytes_of (selected opts fs))
          = within_budget opts (int (length (tw_entries w)) + int (length (selected opts (f # fs))))
              (tw_total w + bytes_of (selected opts (f # fs)))"
        using w1 False by (auto simp: within_budget_def bytes_of_def)
      then show ?thesis
        using Cons.IH [OF w1(3) sane(2)] w1(1,2) False by (auto split: if_splits)
    next
      case no: False
      then have "\<not> within_budget opts (int (length (tw_entries w)) + int (length (selected opts (f # fs))))
              (tw_total w + bytes_of (selected opts (f # fs)))"
        using False rest by (auto simp: within_budget_def bytes_of_def)
      moreover obtain m where "appendFile ref opts f w = Inl (ErrTooLarge m)" using step no by auto
      ultimately show ?thesis by simp
    qed
  qed
qed

text \<open>C32. Listing a repository ends whenever its tree is finite, and is exact: the regular
  files the filter accepts, depth first in the order of the directory listings, when their
  number and their total size are within the budgets, and ErrTooLarge otherwise.\<close>

theorem tree_listing_is_exact:
  assumes "list_dir C ref [] = Inr (map node ts)" "list_all (tree_served C ref) ts"
    and "list_all sane_size (concat (map files_of ts))" "to_MaxTotalBytes opts < 2 ^ 62"
  shows "if within_budget opts (int (length (selected opts (concat (map files_of ts)))))
              (bytes_of (selected opts (concat (map files_of ts))))
    then ListFiles C ref opts = Some (Inr (map tree_entry_of (selected opts (concat (map files_of ts)))))
    else \<exists>m. ListFiles C ref opts = Some (Inl (ErrTooLarge m))"
proof -
  let ?fs = "concat (map files_of ts)"
  have inv: "walk_inv opts \<lparr>tw_entries = [], tw_total = 0\<rparr>" by (auto simp: walk_inv_def)
  have "ListFiles C ref opts =
      Some (case append_all ref opts ?fs \<lparr>tw_entries = [], tw_total = 0\<rparr> of Inl e \<Rightarrow> Inl e | Inr w \<Rightarrow> Inr (tw_entries w))"
    using assms(1,2) by (simp add: ListFiles_def walk_def walk_served_list)
  then show ?thesis
    using append_all_exact [OF inv assms(3,4), of ref] by (auto split: if_splits)
qed

definition demo_content :: "string \<Rightarrow> string \<Rightarrow> int \<Rightarrow> repo_content" where
  "demo_content kind path sz =
     \<lparr>rc_type = kind, rc_name = path, rc_path = path, rc_sha = ''f00'', rc_size = sz, rc_content = None\<rparr>"

definition demo_api :: github_api where
  "demo_api =
     \<lparr>ga_contents = (\<lambda>owner repo path ref.
        if path = [] then Inr (None, Some [demo_content ''dir'' ''d'' 0, demo_content ''symlink'' ''l'' 9, demo_content ''file'' ''b.go'' 5])
        else Inr (None, Some [demo_content ''file'' ''d/a.go'' 3])),
      ga_default_branch = (\<lambda>_ _. Inr ''main''), ga_commit = (\<lambda>_ _ _. Inr ''c0ffee''),
      ga_installation = (\<lambda>_ _. Inr 1), ga_token = (\<lambda>_. Inr ''t''), ga_permission = (\<lambda>_ _ _. Inr ''read'')\<rparr>"

lemma tree_listing_is_exact_witness:
  "ListFiles demo_api \<lparr>tr_Owner = ''o'', tr_Repo = ''r'', tr_Ref = ''main''\<rparr>
     \<lparr>to_Filter = None, to_MaxFiles = 2, to_MaxTotalBytes = 8\<rparr> =
   Some (Inr (map tree_entry_of [demo_content ''file'' ''d/a.go'' 3, demo_content ''file'' ''b.go'' 5]))"
  using tree_listing_is_exact [of demo_api "\<lparr>tr_Owner = ''o'', tr_Repo = ''r'', tr_Ref = ''main''\<rparr>"
      "[TDir (demo_content ''dir'' ''d'' 0) [TFile (demo_content ''file'' ''d/a.go'' 3)],
        TOther (demo_content ''symlink'' ''l'' 9), TFile (demo_content ''file'' ''b.go'' 5)]"
      "\<lparr>to_Filter = None, to_MaxFiles = 2, to_MaxTotalBytes = 8\<rparr>"]
  by (simp add: list_dir_def demo_api_def demo_content_def sane_size_def within_budget_def selected_def bytes_of_def)

section \<open>Base64 and the bytes of a file\<close>

definition b64_char :: "nat \<Rightarrow> nat" where
  "b64_char v =
     (if v < 26 then v + 65 else if v < 52 then v + 71 else if v < 62 then v - 4
      else if v = 62 then 43 else 47)"

fun b64_encode :: "nat list \<Rightarrow> nat list" where
  "b64_encode [] = []"
| "b64_encode [a] = [b64_char (a div 4), b64_char ((a mod 4) * 16), 61, 61]"
| "b64_encode [a, b] =
     [b64_char (a div 4), b64_char ((a mod 4) * 16 + b div 16), b64_char ((b mod 16) * 4), 61]"
| "b64_encode (a # b # c # rest) =
     b64_char (a div 4) # b64_char ((a mod 4) * 16 + b div 16) # b64_char ((b mod 16) * 4 + c div 64)
     # b64_char (c mod 64) # b64_encode rest"

lemma b64_value_char [simp]: "v < 64 \<Longrightarrow> b64_value (b64_char v) = Some v"
  by (auto simp: b64_value_def b64_char_def)

lemma b64_char_not_pad [simp]: "v < 64 \<Longrightarrow> b64_char v \<noteq> 61"
  by (auto simp: b64_char_def)

lemma b64_parts:
  fixes a b c :: nat
  assumes "a < 256" "b < 256" "c < 256"
  shows "a div 4 < 64" "b div 16 < 16" "c div 64 < 4" "a mod 4 < 4" "b mod 16 < 16" "c mod 64 < 64"
  using assms by (simp_all add: less_mult_imp_div_less)

lemma b64_sextets:
  fixes a b c :: nat
  assumes "a < 256" "b < 256" "c < 256"
  shows "a div 4 < 64" "(a mod 4) * 16 + b div 16 < 64" "(a mod 4) * 16 < 64"
    "(b mod 16) * 4 + c div 64 < 64" "(b mod 16) * 4 < 64" "c mod 64 < 64"
  using b64_parts [OF assms] by linarith+

lemma join_div_mod:
  fixes x y k :: nat
  assumes "y < k"
  shows "(x * k + y) div k = x" "(x * k + y) mod k = y"
  using assms by simp_all

lemma b64_joins:
  fixes a b c :: nat
  assumes "a < 256" "b < 256" "c < 256"
  shows "a div 4 * 4 + ((a mod 4) * 16 + b div 16) div 16 = a"
    "((a mod 4) * 16 + b div 16) mod 16 * 16 + ((b mod 16) * 4 + c div 64) div 4 = b"
    "((b mod 16) * 4 + c div 64) mod 4 * 64 + c mod 64 = c"
  unfolding join_div_mod [OF b64_parts(2) [OF assms]] join_div_mod [OF b64_parts(3) [OF assms]]
  by (simp_all only: div_mult_mod_eq)

lemma b64_roundtrip: "list_all (\<lambda>n. n < 256) bs \<Longrightarrow> b64_groups (b64_encode bs) = Some bs"
proof (induction bs rule: b64_encode.induct)
  case 1
  then show ?case by simp
next
  case (2 a)
  then have a: "a < 256" by simp
  have "a div 4 * 4 + a mod 4 * 16 div 16 = a" by simp
  then show ?case using b64_sextets [OF a, of 0 0] by simp
next
  case (3 a b)
  then have s: "a < 256" "b < 256" by simp_all
  have "b mod 16 * 4 div 4 = b mod 16" by simp
  then show ?case using b64_sextets [OF s, of 0] b64_joins [OF s, of 0] by simp
next
  case (4 a b c rest)
  have s: "a < 256" "b < 256" "c < 256" and rest: "b64_groups (b64_encode rest) = Some rest"
    using 4 by simp_all
  note v = b64_value_char [OF b64_sextets(1) [OF s]] b64_value_char [OF b64_sextets(2) [OF s]]
    b64_value_char [OF b64_sextets(4) [OF s]] b64_value_char [OF b64_sextets(6) [OF s]]
  note n = b64_char_not_pad [OF b64_sextets(4) [OF s]] b64_char_not_pad [OF b64_sextets(6) [OF s]]
  show ?case
    by (simp only: b64_encode.simps b64_groups.simps v n rest option.case prod.case b64_joins [OF s]
        simp_thms if_False)
qed

text \<open>Reading a file gives back its bytes: for a regular file that the server sends in base64,
  with line breaks anywhere, the result is exactly those bytes with the file's metadata,
  unless the parent directory lists the path as a symlink, the file is over the size limit or
  empty, which are reported as such.\<close>

theorem read_file_returns_the_bytes:
  assumes "ga_contents C (fr_Owner ref) (fr_Repo ref) (fr_Path ref) (fr_Ref ref) = Inr (Some file, None)"
    and "rc_type file = ''file''" "rc_content file = Some content"
    and "filter (\<lambda>n. n \<noteq> 10 \<and> n \<noteq> 13) (map of_char content) = b64_encode (map of_char bytes)"
    and "ga_contents C (fr_Owner ref) (fr_Repo ref)
           (if path_dir (fr_Path ref) = ''.'' then [] else path_dir (fr_Path ref)) (fr_Ref ref) = Inr (x, Some entries)"
  shows "ReadFile C ref =
    (if list_ex (\<lambda>e. rc_name e = path_base (fr_Path ref) \<and> rc_type e = ''symlink'') entries
     then Inl (ErrUnsupportedContent (''githubingest: '' @ at_ref ref @ '' is a symlink''))
     else if 2 ^ 20 < rc_size file
     then Inl (ErrTooLarge (''githubingest: '' @ at_ref ref @ '' is '' @ itoa (rc_size file)
            @ '' bytes, exceeding the '' @ itoa (2 ^ 20) @ '' byte limit''))
     else if bytes = [] then Inl (ErrEmptyContent (''githubingest: '' @ at_ref ref @ '' decoded to empty content''))
     else Inr (bytes, \<lparr>fm_Path = rc_path file, fm_Ref = fr_Ref ref, fm_SHA = rc_sha file, fm_Size = rc_size file\<rparr>))"
proof -
  have "list_all (\<lambda>n :: nat. n < 256) (map of_char bytes)" by (simp add: list_all_iff)
  then have dec: "base64_decode content = Some bytes"
    using b64_roundtrip assms(4) by (simp add: base64_decode_def comp_def)
  have rej: "rejectIfPathIsSymlink C ref =
      (if list_ex (\<lambda>e. rc_name e = path_base (fr_Path ref) \<and> rc_type e = ''symlink'') entries
       then Some (ErrUnsupportedContent (''githubingest: '' @ at_ref ref @ '' is a symlink'')) else None)"
    unfolding rejectIfPathIsSymlink_def Let_def assms(5) sum.case prod.case option.case ..
  have regular: "\<not> rc_type file \<in> {''dir'', ''symlink'', ''submodule''}"
    by (simp add: assms(2))
  show ?thesis
    unfolding ReadFile_def assms(1,3) dec sum.case prod.case option.case rej if_not_P [OF regular]
      length_0_conv maxContentSize_def
    by (cases "list_ex (\<lambda>e. rc_name e = path_base (fr_Path ref) \<and> rc_type e = ''symlink'') entries")
      (simp_all only: if_True if_False option.case)
qed

definition demo_file_api :: github_api where
  "demo_file_api = demo_api\<lparr>ga_contents := (\<lambda>owner repo path ref.
     if path = ''d/a.go'' then Inr (Some ((demo_content ''file'' ''d/a.go'' 3)\<lparr>rc_content := Some ''Z2\<newline>8h\<newline>''\<rparr>), None)
     else Inr (None, Some [(demo_content ''file'' ''d/a.go'' 3)\<lparr>rc_name := ''a.go''\<rparr>]))\<rparr>"

lemma read_file_returns_the_bytes_witness:
  "ReadFile demo_file_api \<lparr>fr_Owner = ''o'', fr_Repo = ''r'', fr_Ref = ''main'', fr_Path = ''d/a.go''\<rparr> =
   Inr (''go!'', \<lparr>fm_Path = ''d/a.go'', fm_Ref = ''main'', fm_SHA = ''f00'', fm_Size = 3\<rparr>)"
proof -
  let ?ref = "\<lparr>fr_Owner = ''o'', fr_Repo = ''r'', fr_Ref = ''main'', fr_Path = ''d/a.go''\<rparr>"
  have dir: "path_dir ''d/a.go'' = ''d''" and base: "path_base ''d/a.go'' = ''a.go''" by code_simp+
  have enc: "filter (\<lambda>n. n \<noteq> 10 \<and> n \<noteq> 13) (map of_char ''Z2\<newline>8h\<newline>'') = b64_encode (map of_char ''go!'')"
    by code_simp
  show ?thesis
    using read_file_returns_the_bytes [of demo_file_api ?ref
        "(demo_content ''file'' ''d/a.go'' 3)\<lparr>rc_content := Some ''Z2\<newline>8h\<newline>''\<rparr>" "''Z2\<newline>8h\<newline>''" "''go!''" None
        "[(demo_content ''file'' ''d/a.go'' 3)\<lparr>rc_name := ''a.go''\<rparr>]"]
    using enc by (simp add: demo_file_api_def demo_content_def dir base)
qed

end
