(* ===== verification/HttpApi.thy ===== *)
theory HttpApi
  imports Authn GithubIngest JobWorker
begin

text \<open>
  Submitting and reading jobs over HTTP: repository authorization (internal/authz) and the
  /v1/jobs handlers (internal/coachapi/httpapi), composed with the authentication
  middleware the way cmd/coach-api composes them.

  A handler takes the principal of the request context, and works on the state of the job
  store and of the queue.  The new job id and the clock reading are arguments.  JSON
  encoding of strings does not fail, so the branches for it are left out.
\<close>

section \<open>Repository authorization\<close>

datatype authz_error =
    ErrNotAuthorized string
  | AuthzFailure string

type_synonym repo_authorizer = "string \<Rightarrow> string \<Rightarrow> string \<Rightarrow> authz_error option"

record 't authorizer_config =
  az_Credentials :: "github_api option"
  az_BaseURL :: string
  az_Transport :: "'t option"

record 't github_authorizer =
  gz_credentials :: github_api
  gz_baseURL :: string
  gz_transport :: "'t option"

definition DefaultGitHubRepoAuthorizerHTTPTimeout :: duration where
  "DefaultGitHubRepoAuthorizerHTTPTimeout = 10 * second"

definition NewGitHubRepoAuthorizer :: "'t authorizer_config \<Rightarrow> string + 't github_authorizer" where
  "NewGitHubRepoAuthorizer cfg =
     (case az_Credentials cfg of
        None \<Rightarrow> Inl ''authz: GitHubRepoAuthorizerConfig.Credentials is required''
      | Some c \<Rightarrow> Inr \<lparr>gz_credentials = c, gz_baseURL = az_BaseURL cfg, gz_transport = az_Transport cfg\<rparr>)"

definition permissionClient :: "'t github_sdk \<Rightarrow> 't github_authorizer \<Rightarrow> string \<Rightarrow> string + github_api" where
  "permissionClient K a token =
     (let transport = (case gz_transport a of None \<Rightarrow> sdk_default_transport K | Some t \<Rightarrow> t);
          opts = [WithTransport transport, WithTimeout DefaultGitHubRepoAuthorizerHTTPTimeout, WithAuthToken token]
      in sdk_new_client K
           (if gz_baseURL a \<noteq> [] then opts @ [WithEnterpriseURLs (gz_baseURL a) (gz_baseURL a)] else opts))"

definition recognizedRepoPermissions :: "string list" where
  "recognizedRepoPermissions = [''admin'', ''maintain'', ''write'', ''triage'', ''read'']"

definition isRecognizedRepoPermission :: "string \<Rightarrow> bool" where
  "isRecognizedRepoPermission permission \<longleftrightarrow> permission \<in> set recognizedRepoPermissions"

definition is_not_found :: "ingest_error \<Rightarrow> bool" where
  "is_not_found e \<longleftrightarrow> (case e of ErrNotFound _ \<Rightarrow> True | _ \<Rightarrow> False)"

text \<open>The text of a wrapped error is left to the caller, who answers without it.\<close>

definition github_Authorize :: "'t github_sdk \<Rightarrow> 't github_authorizer \<Rightarrow> repo_authorizer" where
  "github_Authorize K a login owner repo =
     (let name = owner @ ''/'' @ repo in
      case ResolveInstallationID (gz_credentials a) owner repo of
        Inl e \<Rightarrow>
          if is_not_found e then Some (ErrNotAuthorized (''authz: resolving installation for '' @ name))
          else Some (AuthzFailure (''authz: resolving installation for '' @ name))
      | Inr installation \<Rightarrow>
          (case InstallationToken (gz_credentials a) installation of
             Inl e \<Rightarrow> Some (AuthzFailure (''authz: minting installation token for '' @ name))
           | Inr token \<Rightarrow>
               (case permissionClient K a token of
                  Inl e \<Rightarrow> Some (AuthzFailure ''authz: building permission-check client'')
                | Inr client \<Rightarrow>
                    (case ga_permission client owner repo login of
                       Inl e \<Rightarrow>
                         if ae_status e = Some 404
                         then Some (ErrNotAuthorized (''authz: '' @ login @ '' has no relationship with '' @ name))
                         else Some (AuthzFailure (''authz: checking permission for '' @ login @ '' on '' @ name))
                     | Inr level \<Rightarrow>
                         if \<not> isRecognizedRepoPermission level
                         then Some (ErrNotAuthorized (''authz: '' @ login @ '' has no recognized role in '' @ name))
                         else None))))"

definition bypass_Authorize :: "repo_authorizer \<Rightarrow> string \<Rightarrow> string \<Rightarrow> repo_authorizer" where
  "bypass_Authorize inner bowner brepo login owner repo =
     (if owner = bowner \<and> repo = brepo then None else inner login owner repo)"

section \<open>The server\<close>

record ('s, 'q) server =
  sv_store :: "'s store_ops"
  sv_authorizer :: repo_authorizer
  sv_queue :: "'q queue_ops"

record ('s, 'q) server_config =
  vc_store :: "'s store_ops option"
  vc_authorizer :: "repo_authorizer option"
  vc_queue :: "'q queue_ops option"

definition NewServer :: "('s, 'q) server_config \<Rightarrow> string + ('s, 'q) server" where
  "NewServer cfg =
     (case vc_store cfg of
        None \<Rightarrow> Inl ''coachapi: ServerConfig.Store is required''
      | Some store \<Rightarrow>
          (case vc_authorizer cfg of
             None \<Rightarrow> Inl ''coachapi: ServerConfig.Authorizer is required''
           | Some authorizer \<Rightarrow>
               (case vc_queue cfg of
                  None \<Rightarrow> Inl ''coachapi: ServerConfig.Queue is required''
                | Some queue \<Rightarrow> Inr \<lparr>sv_store = store, sv_authorizer = authorizer, sv_queue = queue\<rparr>)))"

record ('s, 'q) api_state =
  ap_store :: 's
  ap_queue :: 'q

definition ownsJob :: "principal \<Rightarrow> job \<Rightarrow> bool" where
  "ownsJob p j \<longleftrightarrow> pr_provider p = job_created_by_provider j \<and> pr_subject p = job_created_by_subject j"

section \<open>Decoding a submission\<close>

fun decode_create_members :: "(string \<times> json) list \<Rightarrow> job_kind \<times> raw_message \<Rightarrow> (job_kind \<times> raw_message) option" where
  "decode_create_members [] acc = Some acc"
| "decode_create_members ((k, v) # ms) (kind, params) =
     (if field_name k = ''kind''
      then (case v of
              JStr s \<Rightarrow> decode_create_members ms (s, params)
            | JNull \<Rightarrow> decode_create_members ms (kind, params)
            | _ \<Rightarrow> None)
      else if field_name k = ''params'' then decode_create_members ms (kind, RawJson v)
      else None)"

definition decode_create_request :: "raw_message \<Rightarrow> (job_kind \<times> raw_message) option" where
  "decode_create_request body =
     (case body of
        RawJson (JObj ms) \<Rightarrow> decode_create_members ms ([], RawNil)
      | RawJson JNull \<Rightarrow> Some ([], RawNil)
      | _ \<Rightarrow> None)"

definition trim_params :: "scan_params \<Rightarrow> scan_params" where
  "trim_params p = p\<lparr>sp_RepoOwner := trim_space (sp_RepoOwner p), sp_RepoName := trim_space (sp_RepoName p)\<rparr>"

definition canonical_params :: "scan_params \<Rightarrow> raw_message" where
  "canonical_params p =
     RawJson (JObj ([(''repo_owner'', JStr (sp_RepoOwner p)), (''repo_name'', JStr (sp_RepoName p))]
       @ (if sp_Ref p = [] then [] else [(''ref'', JStr (sp_Ref p))])))"

section \<open>Handlers\<close>

definition forbidden_message :: string where
  "forbidden_message =
     ''you have no role in this repository, or the Coach GitHub App is not installed on it; ''
     @ ''public repositories with no assigned role are deliberately denied''"

definition new_job :: "principal \<Rightarrow> string \<Rightarrow> time \<Rightarrow> job_kind \<Rightarrow> scan_params \<Rightarrow> job" where
  "new_job p jid now kind params =
     \<lparr>job_id = jid, job_kind = kind, job_params = canonical_params params, job_status = JobQueued,
      job_error = None, job_created_at = now, job_started_at = None, job_finished_at = None,
      job_claimed_by = None, job_heartbeat_at = None, job_attempt = 0,
      job_created_by_provider = pr_provider p, job_created_by_subject = pr_subject p,
      job_created_by_login = pr_login p\<rparr>"

definition submit_job ::
  "('s, 'q) server \<Rightarrow> job \<Rightarrow> ('s, 'q) api_state \<Rightarrow> ('s, 'q) api_state \<times> response" where
  "submit_job V j st =
     (case so_create_job (sv_store V) (ap_store st) j of
        (s1, Inl e) \<Rightarrow> (st\<lparr>ap_store := s1\<rparr>, writeAPIError 503 ErrorCodeInternalError ''failed to persist job'')
      | (s1, Inr _) \<Rightarrow>
          let st1 = st\<lparr>ap_store := s1\<rparr> in
          (case qo_enqueue (sv_queue V) (ap_queue st1) \<lparr>tk_id = job_id j, tk_payload = MarshalTaskPayload (job_id j)\<rparr> of
             (q1, Inl e) \<Rightarrow>
               (st1\<lparr>ap_queue := q1\<rparr>, writeAPIError 503 ErrorCodeInternalError ''failed to enqueue job; it remains queued'')
           | (q1, Inr _) \<Rightarrow> (st1\<lparr>ap_queue := q1\<rparr>, writeJSON 202 (BodyCreated (job_id j)))))"

definition handleCreateJob ::
  "(nat \<Rightarrow> bool) \<Rightarrow> ('s, 'q) server \<Rightarrow> string \<Rightarrow> time \<Rightarrow> raw_message \<Rightarrow> principal option \<Rightarrow>
   ('s, 'q) api_state \<Rightarrow> ('s, 'q) api_state \<times> response" where
  "handleCreateJob printable V new_id now body ctx st =
     (case ctx of
        None \<Rightarrow> (st, writeAPIError 401 ErrorCodeUnauthenticated ''unauthenticated'')
      | Some p \<Rightarrow>
     (case decode_create_request body of
        None \<Rightarrow> (st, writeAPIError 400 ErrorCodeInvalidRequest ''invalid request body'')
      | Some (kind, raw) \<Rightarrow>
          if kind \<noteq> JobKindRepoBaselineScan
          then (st, writeAPIError 400 ErrorCodeUnsupportedJobKind (''unsupported job kind '' @ quote_go printable kind))
          else
     (case decode_scan_params raw of
        None \<Rightarrow> (st, writeAPIError 400 ErrorCodeInvalidRequest ''invalid params for repo_baseline_scan'')
      | Some params0 \<Rightarrow>
          let params = trim_params params0 in
          if sp_RepoOwner params = [] \<or> sp_RepoName params = []
          then (st, writeAPIError 400 ErrorCodeInvalidRequest ''repo_owner and repo_name are required'')
          else
     (case sv_authorizer V (pr_login p) (sp_RepoOwner params) (sp_RepoName params) of
        Some (ErrNotAuthorized _) \<Rightarrow> (st, writeAPIError 403 ErrorCodeRepoNotAuthorized forbidden_message)
      | Some (AuthzFailure _) \<Rightarrow>
          (st, writeAPIError 503 ErrorCodeInternalError ''authorization check temporarily unavailable'')
      | None \<Rightarrow> submit_job V (new_job p new_id now kind params) st))))"

definition status_text :: "job_status \<Rightarrow> string" where
  "status_text s =
     (case s of JobQueued \<Rightarrow> ''queued'' | JobRunning \<Rightarrow> ''running'' | JobCompleted \<Rightarrow> ''completed''
      | JobFailed \<Rightarrow> ''failed'' | JobOther t \<Rightarrow> t)"

definition handleGetJob :: "('s, 'q) server \<Rightarrow> string \<Rightarrow> principal option \<Rightarrow> 's \<Rightarrow> response" where
  "handleGetJob V jid ctx s =
     (case ctx of
        None \<Rightarrow> writeAPIError 401 ErrorCodeUnauthenticated ''unauthenticated''
      | Some p \<Rightarrow>
          (case so_get_job (sv_store V) s jid of
             Inl ErrJobNotFound \<Rightarrow> writeAPIError 404 ErrorCodeJobNotFound ''job not found''
           | Inl _ \<Rightarrow> writeAPIError 503 ErrorCodeInternalError ''failed to load job''
           | Inr j \<Rightarrow>
               if \<not> ownsJob p j
               then writeAPIError 403 ErrorCodeUnauthorized ''you are not authorized to view this job''
               else writeJSON 200 (BodyJob
                      \<lparr>js_id = job_id j, js_kind = job_kind j, js_status = job_status j,
                       js_attempt = job_attempt j, js_error = job_error j,
                       js_report_url = (if job_status j = JobCompleted then ''/v1/jobs/'' @ jid @ ''/report'' else [])\<rparr>)))"

definition handleGetReport :: "('s, 'q) server \<Rightarrow> string \<Rightarrow> principal option \<Rightarrow> 's \<Rightarrow> response" where
  "handleGetReport V jid ctx s =
     (case ctx of
        None \<Rightarrow> writeAPIError 401 ErrorCodeUnauthenticated ''unauthenticated''
      | Some p \<Rightarrow>
          (case so_get_job (sv_store V) s jid of
             Inl ErrJobNotFound \<Rightarrow> writeAPIError 404 ErrorCodeJobNotFound ''job not found''
           | Inl _ \<Rightarrow> writeAPIError 503 ErrorCodeInternalError ''failed to load job''
           | Inr j \<Rightarrow>
               if \<not> ownsJob p j
               then writeAPIError 403 ErrorCodeUnauthorized ''you are not authorized to view this job''
               else if job_status j \<noteq> JobCompleted
               then writeAPIError 409 ErrorCodeJobNotCompleted
                      (''job is not yet completed (status: '' @ status_text (job_status j) @ '')'')
               else (case so_get_report (sv_store V) s jid of
                       Inl _ \<Rightarrow> writeAPIError 503 ErrorCodeInternalError ''failed to load report''
                     | Inr r \<Rightarrow> writeJSON 200 (BodyReport r))))"

text \<open>The routes, and their composition with the middleware in cmd/coach-api.\<close>

definition server_Handler ::
  "(nat \<Rightarrow> bool) \<Rightarrow> ('s, 'q) server \<Rightarrow> string \<Rightarrow> time \<Rightarrow> http_request \<Rightarrow> principal \<Rightarrow>
   ('s, 'q) api_state \<Rightarrow> ('s, 'q) api_state \<times> response" where
  "server_Handler printable V new_id now req p st =
     (let is_get = rq_method req \<in> {''GET'', ''HEAD''};
          missing = (st, writeAPIError 404 ErrorCodeNotFound ''not found'') in
      case rq_path req of
        [v, jobs] \<Rightarrow>
          if v = ''v1'' \<and> jobs = ''jobs'' \<and> rq_method req = ''POST''
          then handleCreateJob printable V new_id now (rq_body req) (Some p) st else missing
      | [v, jobs, jid] \<Rightarrow>
          if v = ''v1'' \<and> jobs = ''jobs'' \<and> jid \<noteq> [] \<and> is_get
          then (st, handleGetJob V jid (Some p) (ap_store st)) else missing
      | [v, jobs, jid, leaf] \<Rightarrow>
          if v = ''v1'' \<and> jobs = ''jobs'' \<and> jid \<noteq> [] \<and> leaf = ''report'' \<and> is_get
          then (st, handleGetReport V jid (Some p) (ap_store st)) else missing
      | _ \<Rightarrow> missing)"

text \<open>
  buildHandler: the auth surface for its paths, the middleware around the server for
  /v1/jobs and below, 404 elsewhere.  The standard multiplexer redirects /oauth to the
  registered /oauth/.
\<close>

definition auth_path :: "http_request \<Rightarrow> bool" where
  "auth_path req \<longleftrightarrow> take 1 (rq_path req) = [''oauth''] \<or> rq_path req = [''v1'', ''me'']
     \<or> rq_path req = [''v1'', ''auth'', ''test-mint'']"

definition jobs_path :: "http_request \<Rightarrow> bool" where
  "jobs_path req \<longleftrightarrow> take 2 (rq_path req) = [''v1'', ''jobs'']"

definition buildHandler ::
  "(nat \<Rightarrow> bool) \<Rightarrow> jwt_library \<Rightarrow> ('d, 'o) auth_service \<Rightarrow> ('s, 'q) server \<Rightarrow> string \<Rightarrow> time \<Rightarrow> request_env \<Rightarrow>
   http_request \<Rightarrow> ('d, 'o) auth_state \<times> ('s, 'q) api_state \<Rightarrow>
   (('d, 'o) auth_state \<times> ('s, 'q) api_state) \<times> response" where
  "buildHandler printable L S V new_id now env req st =
     (if rq_path req = [''oauth''] then (st, \<lparr>re_status = 301, re_body = BodyRedirect ''/oauth/''\<rparr>)
      else if auth_path req
      then (let (a1, r) = authn_Handler L S env req (fst st) in ((a1, snd st), r))
      else if jobs_path req
      then (let (s1, r) = Middleware L S (au_denylist (fst st)) (en_now env) (rq_authorization req)
                            (server_Handler printable V new_id now req) (snd st)
            in ((fst st, s1), r))
      else (st, writeAPIError 404 ErrorCodeNotFound ''not found''))"

section \<open>Submissions\<close>

context job_store
begin

lemma submit_rows:
  assumes "sv_store V = S" "wf (ap_store st)" "submit_job V j st = (st', r)"
  shows "rows (ap_store st') = rows (ap_store st)
    \<or> rows (ap_store st) (job_id j) = None \<and> rows (ap_store st') = (rows (ap_store st))(job_id j \<mapsto> j)"
proof -
  obtain s1 v where c: "so_create_job S (ap_store st) j = (s1, v)" by fastforce
  have s1: "ap_store st' = s1"
    using assms(1,3) c by (auto simp: submit_job_def Let_def split: sum.splits prod.splits)
  show ?thesis
    using refines [OF assms(2), of "CallCreate j"] c
    by (auto simp: s1 refines_call_def map_result_def split: option.splits)
qed

lemma submit_accepted:
  assumes "sv_store V = S" "wf (ap_store st)" "submit_job V j st = (st', r)" "re_status r = 202"
  shows "rows (ap_store st) (job_id j) = None \<and> rows (ap_store st') = (rows (ap_store st))(job_id j \<mapsto> j)
    \<and> qo_enqueue (sv_queue V) (ap_queue st) \<lparr>tk_id = job_id j, tk_payload = MarshalTaskPayload (job_id j)\<rparr> =
        (ap_queue st', Inr ())"
proof -
  obtain s1 v where c: "so_create_job S (ap_store st) j = (s1, v)" by fastforce
  have v: "v = Inr ()" and st': "ap_store st' = s1"
    and q: "qo_enqueue (sv_queue V) (ap_queue st) \<lparr>tk_id = job_id j, tk_payload = MarshalTaskPayload (job_id j)\<rparr> =
      (ap_queue st', Inr ())"
    using assms(1,3,4) c by (auto simp: submit_job_def Let_def split: sum.splits prod.splits)
  show ?thesis
    using refines [OF assms(2), of "CallCreate j"] c v q
    by (auto simp: st' refines_call_def map_result_def split: option.splits)
qed

end

lemma submit_refused:
  assumes "submit_job V j st = (st', r)" "re_status r \<noteq> 202"
  shows "re_status r = 503"
    and "is_ok (snd (so_create_job (sv_store V) (ap_store st) j)) \<Longrightarrow>
      \<not> is_ok (snd (qo_enqueue (sv_queue V) (ap_queue st)
        \<lparr>tk_id = job_id j, tk_payload = MarshalTaskPayload (job_id j)\<rparr>))"
    and "\<not> is_ok (snd (so_create_job (sv_store V) (ap_store st) j)) \<Longrightarrow> ap_queue st' = ap_queue st"
  using assms by (auto simp: submit_job_def Let_def is_ok_def split: sum.splits prod.splits)

text \<open>Either nothing happens, or an authorized job is submitted.\<close>

lemma create_cases:
  assumes "handleCreateJob printable V new_id now body ctx st = (st', r)"
  obtains "st' = st" "re_status r \<noteq> 202"
  | p params where "ctx = Some p"
      "sv_authorizer V (pr_login p) (sp_RepoOwner params) (sp_RepoName params) = None"
      "submit_job V (new_job p new_id now JobKindRepoBaselineScan params) st = (st', r)"
proof (cases "\<exists>p params. ctx = Some p
    \<and> sv_authorizer V (pr_login p) (sp_RepoOwner params) (sp_RepoName params) = None
    \<and> submit_job V (new_job p new_id now JobKindRepoBaselineScan params) st = (st', r)")
  case True
  then show thesis using that(2) by blast
next
  case False
  then have none: "submit_job V (new_job p new_id now JobKindRepoBaselineScan params) st \<noteq> (st', r)"
    if "ctx = Some p" "sv_authorizer V (pr_login p) (sp_RepoOwner params) (sp_RepoName params) = None" for p params
    using that by blast
  have "st' = st \<and> re_status r \<noteq> 202"
    using assms none unfolding handleCreateJob_def
    by (auto simp: Let_def split: option.splits prod.splits if_splits authz_error.splits)
  then show thesis using that(1) by blast
qed

lemma create_route:
  assumes "rq_method req = ''POST''" "rq_path req = [''v1'', ''jobs'']"
    and "buildHandler printable L S V new_id now env req (au, st) = ((au', st'), r)"
  obtains "st' = st" "re_status r \<noteq> 202"
  | tok p params where "bearerToken (rq_authorization req) = Some tok"
      "Validate L S (au_denylist au) tok (en_now env) = Inr p"
      "sv_authorizer V (pr_login p) (sp_RepoOwner params) (sp_RepoName params) = None"
      "submit_job V (new_job p new_id now JobKindRepoBaselineScan params) st = (st', r)"
proof -
  have m: "Middleware L S (au_denylist au) (en_now env) (rq_authorization req)
      (server_Handler printable V new_id now req) st = (st', r)"
    using assms by (auto simp: buildHandler_def auth_path_def jobs_path_def split: prod.splits)
  show thesis
  proof (cases "\<exists>tok p. bearerToken (rq_authorization req) = Some tok
      \<and> Validate L S (au_denylist au) tok (en_now env) = Inr p")
    case False
    then have "st' = st \<and> re_status r \<noteq> 202"
      using m by (auto simp: Middleware_def split: option.splits sum.splits auth_error.splits)
    then show thesis using that(1) by blast
  next
    case True
    then obtain tok p where t: "bearerToken (rq_authorization req) = Some tok"
      "Validate L S (au_denylist au) tok (en_now env) = Inr p" by blast
    have "handleCreateJob printable V new_id now (rq_body req) (Some p) st = (st', r)"
      using m t assms(1,2) by (simp add: Middleware_def server_Handler_def Let_def)
    then show thesis
      by (rule create_cases) (use that t in auto)
  qed
qed

text \<open>What the GitHub authorizer requires of a principal for a repository.\<close>

definition has_repo_role :: "'t github_sdk \<Rightarrow> 't github_authorizer \<Rightarrow> string \<Rightarrow> string \<Rightarrow> string \<Rightarrow> bool" where
  "has_repo_role K a login owner repo \<longleftrightarrow>
     (\<exists>installation token client level.
        ga_installation (gz_credentials a) owner repo = Inr installation
        \<and> ga_token (gz_credentials a) installation = Inr token
        \<and> permissionClient K a token = Inr client
        \<and> ga_permission client owner repo login = Inr level
        \<and> level \<in> {''admin'', ''maintain'', ''write'', ''triage'', ''read''})"

lemma github_Authorize_iff: "github_Authorize K a login owner repo = None \<longleftrightarrow> has_repo_role K a login owner repo"
  unfolding has_repo_role_def github_Authorize_def ResolveInstallationID_def InstallationToken_def
  by (auto simp: Let_def isRecognizedRepoPermission_def recognizedRepoPermissions_def split: sum.splits)

text \<open>C10. Submitting a job, through the whole HTTP surface and over the in-process store: 202 is
  answered only when the token is valid, its principal has a recognized role in exactly the
  repository the stored job names, the job is a new queued row of that principal, and its task is
  enqueued; any other answer leaves rows and queue alone, or is 503 with the job persisted
  as queued because the queue refused the task.\<close>

theorem accepted_submission_is_authorized_and_durable:
  assumes "sv_store V = memory_ops" "sv_authorizer V = github_Authorize K a" "reachable_store (ap_store st)"
    and "rq_method req = ''POST''" "rq_path req = [''v1'', ''jobs'']"
    and "buildHandler printable L S V new_id now env req (au, st) = ((au', st'), r)"
  shows "if re_status r = 202
    then \<exists>tok p params. bearerToken (rq_authorization req) = Some tok
      \<and> Validate L S (au_denylist au) tok (en_now env) = Inr p
      \<and> has_repo_role K a (pr_login p) (sp_RepoOwner params) (sp_RepoName params)
      \<and> mem_rows (ap_store st) new_id = None
      \<and> mem_rows (ap_store st') =
          (mem_rows (ap_store st))(new_id \<mapsto> new_job p new_id now JobKindRepoBaselineScan params)
      \<and> qo_enqueue (sv_queue V) (ap_queue st) \<lparr>tk_id = new_id, tk_payload = MarshalTaskPayload new_id\<rparr> =
          (ap_queue st', Inr ())
    else mem_rows (ap_store st') = mem_rows (ap_store st) \<and> ap_queue st' = ap_queue st
      \<or> re_status r = 503
        \<and> \<not> is_ok (snd (qo_enqueue (sv_queue V) (ap_queue st) \<lparr>tk_id = new_id, tk_payload = MarshalTaskPayload new_id\<rparr>))
        \<and> (\<exists>p params. mem_rows (ap_store st') =
            (mem_rows (ap_store st))(new_id \<mapsto> new_job p new_id now JobKindRepoBaselineScan params))"
  using assms(4-6)
proof (rule create_route)
  fix tok p params
  assume tok: "bearerToken (rq_authorization req) = Some tok"
    "Validate L S (au_denylist au) tok (en_now env) = Inr p"
    and az: "sv_authorizer V (pr_login p) (sp_RepoOwner params) (sp_RepoName params) = None"
    and sub: "submit_job V (new_job p new_id now JobKindRepoBaselineScan params) st = (st', r)"
  let ?j = "new_job p new_id now JobKindRepoBaselineScan params"
  have wf: "mem_wf (ap_store st)" and jid: "job_id ?j = new_id"
    using reachable_wf [OF assms(3)] by (simp_all add: new_job_def)
  show ?thesis
  proof (cases "re_status r = 202")
    case True
    then show ?thesis
      using mem.submit_accepted [OF assms(1) wf sub] tok az assms(2) jid
      by (auto simp: github_Authorize_iff)
  next
    case False
    note refused = submit_refused [OF sub False]
    show ?thesis
    proof (cases "is_ok (snd (so_create_job (sv_store V) (ap_store st) ?j))")
      case True
      then have "mem_rows (ap_store st') = (mem_rows (ap_store st))(new_id \<mapsto> ?j)"
        using sub assms(1) jid
        by (auto simp: submit_job_def CreateJob_def Let_def new_record_def is_ok_def
            split: sum.splits prod.splits option.splits)
      then show ?thesis using refused True False jid by auto
    next
      case no: False
      then have "mem_rows (ap_store st') = mem_rows (ap_store st)"
        using sub assms(1)
        by (auto simp: submit_job_def CreateJob_def Let_def split: sum.splits prod.splits option.splits)
      then show ?thesis using refused no False by auto
    qed
  qed
qed auto

section \<open>Reading jobs\<close>

text \<open>
  What a principal may know of a store: which ids exist, and the whole record of the jobs
  it created.
\<close>

definition created_by :: "principal \<Rightarrow> job \<Rightarrow> bool" where
  "created_by p j \<longleftrightarrow>
     (pr_provider p, pr_subject p) = (job_created_by_provider j, job_created_by_subject j)"

lemma ownsJob_iff: "ownsJob p j \<longleftrightarrow> created_by p j"
  by (simp add: ownsJob_def created_by_def)

definition visible :: "principal \<Rightarrow> mem_store \<Rightarrow> string \<Rightarrow> job_record option option" where
  "visible p m = (\<lambda>k. map_option (\<lambda>r. if created_by p (jr_job r) then Some r else None) (map_of m k))"

lemma visible_same:
  assumes "visible p m1 = visible p m2"
  shows "map_of m1 k = None \<longleftrightarrow> map_of m2 k = None"
    and "map_of m1 k = Some r1 \<Longrightarrow> map_of m2 k = Some r2 \<Longrightarrow> ownsJob p (jr_job r1) \<longleftrightarrow> ownsJob p (jr_job r2)"
    and "map_of m1 k = Some r1 \<Longrightarrow> map_of m2 k = Some r2 \<Longrightarrow> ownsJob p (jr_job r1) \<Longrightarrow> r1 = r2"
  using fun_cong [OF assms, of k] by (auto simp: visible_def ownsJob_iff split: if_splits)

lemma get_job_visible:
  assumes "sv_store V = memory_ops" "visible p m1 = visible p m2"
  shows "handleGetJob V jid (Some p) m1 = handleGetJob V jid (Some p) m2"
proof (cases "map_of m1 jid"; cases "map_of m2 jid")
  fix r1 r2 assume r: "map_of m1 jid = Some r1" "map_of m2 jid = Some r2"
  show ?thesis
    using visible_same(2,3) [OF assms(2) r] r assms(1) by (auto simp: handleGetJob_def GetJob_def)
qed (use visible_same(1) [OF assms(2), of jid] assms(1) in \<open>auto simp: handleGetJob_def GetJob_def\<close>)

lemma get_report_visible:
  assumes "sv_store V = memory_ops" "visible p m1 = visible p m2"
  shows "handleGetReport V jid (Some p) m1 = handleGetReport V jid (Some p) m2"
proof (cases "map_of m1 jid"; cases "map_of m2 jid")
  fix r1 r2 assume r: "map_of m1 jid = Some r1" "map_of m2 jid = Some r2"
  show ?thesis
    using visible_same(2,3) [OF assms(2) r] r assms(1)
    by (auto simp: handleGetReport_def GetJob_def GetReport_def)
qed (use visible_same(1) [OF assms(2), of jid] assms(1) in \<open>auto simp: handleGetReport_def GetJob_def\<close>)

lemma server_read:
  assumes "sv_store V = memory_ops" "rq_method req \<noteq> ''POST''"
    and "visible p (ap_store s1) = visible p (ap_store s2)"
  shows "fst (server_Handler printable V new_id now req p s1) = s1
    \<and> snd (server_Handler printable V new_id now req p s1) = snd (server_Handler printable V new_id now req p s2)"
  using get_job_visible [OF assms(1,3)] get_report_visible [OF assms(1,3)] assms(2)
  by (auto simp: server_Handler_def Let_def split: list.splits)

text \<open>C11. Other people's jobs are invisible: when two stores hold the same ids and the same
  records of the jobs the requesting principal created, every request other than a submission
  gets the same response over both, and leaves the jobs as they are; without a valid token the
  response does not depend on the store at all.\<close>

theorem jobs_of_others_are_invisible:
  assumes "sv_store V = memory_ops" "rq_method req \<noteq> ''POST''"
    and "\<And>tok p. bearerToken (rq_authorization req) = Some tok \<Longrightarrow>
      Validate L S (au_denylist au) tok (en_now env) = Inr p \<Longrightarrow>
      visible p (ap_store s1) = visible p (ap_store s2)"
  shows "snd (buildHandler printable L S V new_id now env req (au, s1)) =
      snd (buildHandler printable L S V new_id now env req (au, s2))
    \<and> snd (fst (buildHandler printable L S V new_id now env req (au, s1))) = s1"
proof -
  let ?M = "Middleware L S (au_denylist au) (en_now env) (rq_authorization req)
      (server_Handler printable V new_id now req)"
  have "snd (?M s1) = snd (?M s2) \<and> fst (?M s1) = s1"
  proof (cases "bearerToken (rq_authorization req)")
    case None
    then show ?thesis by (simp add: Middleware_def)
  next
    case (Some tok)
    show ?thesis
    proof (cases "Validate L S (au_denylist au) tok (en_now env)")
      case (Inl e)
      then show ?thesis using Some by (cases e) (simp_all add: Middleware_def)
    next
      case (Inr p)
      show ?thesis
        using server_read [OF assms(1,2) assms(3) [OF Some Inr], of printable new_id now]
        by (simp add: Middleware_def Some Inr)
    qed
  qed
  then show ?thesis
    by (simp add: buildHandler_def Let_def case_prod_unfold)
qed

section \<open>No submission is stranded\<close>

lemma row_step_known:
  "row_step j j' \<Longrightarrow> job_status j \<in> {JobQueued, JobRunning, JobCompleted, JobFailed} \<Longrightarrow>
   job_status j' \<in> {JobQueued, JobRunning, JobCompleted, JobFailed}"
  by (auto elim!: row_stepE simp: claimed_row_def completed_row_def failed_row_def released_row_def)

lemma row_steps_known:
  "row_step\<^sup>*\<^sup>* j j' \<Longrightarrow> job_status j \<in> {JobQueued, JobRunning, JobCompleted, JobFailed} \<Longrightarrow>
   job_status j' \<in> {JobQueued, JobRunning, JobCompleted, JobFailed}"
  by (induction rule: rtranclp_induct) (auto dest: row_step_known)


section \<open>Witnesses\<close>

definition demo_sdk :: "unit github_sdk" where
  "demo_sdk =
     \<lparr>sdk_default_transport = (), sdk_apps_transport = (\<lambda>_ _ _. Inr ()),
      sdk_installation_transport = (\<lambda>_ _ _ _. Inr ()), sdk_new_client = (\<lambda>_. Inr demo_api),
      sdk_base_url = (\<lambda>_. []), sdk_rebase = (\<lambda>c _. c)\<rparr>"

definition demo_authorizer :: "unit github_authorizer" where
  "demo_authorizer = \<lparr>gz_credentials = demo_api, gz_baseURL = [], gz_transport = None\<rparr>"

definition full_queue :: "unit queue_ops" where
  "full_queue =
     \<lparr>qo_enqueue = (\<lambda>q t. (q, Inl (QueueFailure ''full''))), qo_claim = (\<lambda>q. (q, Inr None)),
      qo_complete = (\<lambda>q c. (q, Inr ())), qo_nack = (\<lambda>q c p. (q, Inr ()))\<rparr>"

definition demo_server :: "unit queue_ops \<Rightarrow> (mem_store, unit) server" where
  "demo_server Q =
     \<lparr>sv_store = memory_ops, sv_authorizer = github_Authorize demo_sdk demo_authorizer, sv_queue = Q\<rparr>"

definition demo_api_state :: "(mem_store, unit) api_state" where
  "demo_api_state = \<lparr>ap_store = NewStore, ap_queue = ()\<rparr>"

definition demo_auth_state :: "(mem_denylist, mem_oauth) auth_state" where
  "demo_auth_state = \<lparr>au_denylist = NewMemoryDenylist, au_oauth = NewMemoryOAuthState\<rparr>"

definition demo_submission :: http_request where
  "demo_submission =
     \<lparr>rq_method = ''POST'', rq_path = [''v1'', ''jobs''], rq_authorization = ''Bearer t.o.k'',
      rq_body = RawJson (JObj [(''kind'', JStr ''repo_baseline_scan''),
        (''Params'', JObj [(''repo_owner'', JStr '' o ''), (''repo_name'', JStr ''r'')])]),
      rq_query = \<lparr>cq_error = [], cq_state = [], cq_code = []\<rparr>\<rparr>"

definition demo_submit :: "unit queue_ops \<Rightarrow>
    (((mem_denylist, mem_oauth) auth_state \<times> (mem_store, unit) api_state) \<times> response)" where
  "demo_submit Q = buildHandler (\<lambda>_. True) demo_jwt demo_service (demo_server Q) ''j1'' 40 (demo_env 20)
     demo_submission (demo_auth_state, demo_api_state)"

lemma demo_submit_eq:
  "demo_submit Q = ((fst (fst (demo_submit Q)), snd (fst (demo_submit Q))), snd (demo_submit Q))"
  by simp

lemma demo_reach_new: "reachable_store (ap_store demo_api_state)"
  by (simp add: demo_api_state_def reachable_new)

lemma demo_server_simps:
  "sv_store (demo_server Q) = memory_ops"
  "sv_authorizer (demo_server Q) = github_Authorize demo_sdk demo_authorizer"
  "rq_method demo_submission = ''POST''" "rq_path demo_submission = [''v1'', ''jobs'']"
  by (simp_all add: demo_server_def demo_submission_def)

lemma demo_submit_results:
  "re_status (snd (demo_submit idle_queue)) = 202" "re_status (snd (demo_submit full_queue)) = 503"
  "mem_rows (ap_store (snd (fst (demo_submit full_queue)))) ''j1'' \<noteq> None"
  by code_simp+

lemma accepted_submission_is_authorized_and_durable_witness:
  "\<exists>tok p (params :: scan_params). bearerToken (rq_authorization demo_submission) = Some tok
      \<and> Validate demo_jwt demo_service (au_denylist demo_auth_state) tok (en_now (demo_env 20)) = Inr p
      \<and> has_repo_role demo_sdk demo_authorizer (pr_login p) (sp_RepoOwner params) (sp_RepoName params)"
  using accepted_submission_is_authorized_and_durable [OF demo_server_simps(1,2) demo_reach_new demo_server_simps(3,4)
      demo_submit_eq [of idle_queue, unfolded demo_submit_def], folded demo_submit_def]
  unfolding if_P [OF demo_submit_results(1)] by blast

definition demo_read :: http_request where
  "demo_read = demo_submission\<lparr>rq_method := ''GET'', rq_path := [''v1'', ''jobs'', ''test-job'']\<rparr>"

definition foreign_state :: "job_status \<Rightarrow> (mem_store, unit) api_state" where
  "foreign_state s =
     \<lparr>ap_store = [(''test-job'', new_record (demo_job\<lparr>job_status := s, job_created_by_subject := ''8''\<rparr>))], ap_queue = ()\<rparr>"

lemma jobs_of_others_are_invisible_witness:
  "snd (buildHandler (\<lambda>_. True) demo_jwt demo_service (demo_server idle_queue) ''j1'' 40 (demo_env 20) demo_read
      (demo_auth_state, foreign_state JobQueued)) =
   snd (buildHandler (\<lambda>_. True) demo_jwt demo_service (demo_server idle_queue) ''j1'' 40 (demo_env 20) demo_read
      (demo_auth_state, foreign_state JobFailed))"
proof -
  have tok: "bearerToken (rq_authorization demo_read) = Some ''t.o.k''" by code_simp
  have val: "Validate demo_jwt demo_service (au_denylist demo_auth_state) ''t.o.k'' (en_now (demo_env 20)) = Inr demo_user"
    by code_simp
  have vis: "visible demo_user (ap_store (foreign_state JobQueued)) = visible demo_user (ap_store (foreign_state JobFailed))"
    by (rule ext) (simp add: visible_def foreign_state_def new_record_def created_by_def demo_user_def)
  show ?thesis
    by (rule jobs_of_others_are_invisible [OF demo_server_simps(1), THEN conjunct1])
      (use tok val vis in \<open>auto simp: demo_read_def\<close>)
qed

definition demo_reconciler :: "(mem_store, unit) worker" where
  "demo_reconciler = (demo_worker \<lparr>hr_events = [], hr_end = EndContext ''stop''\<rparr>)\<lparr>wk_now := (\<lambda>_. 10 ^ 12)\<rparr>"


end
