(* ===== verification/ModelGateway.thy ===== *)
theory ModelGateway
  imports GoJson
begin

text \<open>
  The model gateway of internal/modelgateway: the classified errors, the schemas a
  judgment is validated against, and the client of an OpenAI-compatible server with its
  bounded retries.

  The text of a server's answer is parsed by the argument \<open>gv_parse\<close>, the HTTP client
  answers the n-th request by \<open>gv_do\<close>, and the n-th look at the context by \<open>gv_ctx\<close>.  A
  Go map of schema properties is a list in the order one call ranges over it.
\<close>

section \<open>Errors\<close>

record cause =
  ca_text :: string
  ca_canceled :: bool
  ca_deadline :: bool

datatype gateway_error =
    ValidationError string
  | UnavailableError string "cause option"

definition formatPrefixedError :: "string \<Rightarrow> string \<Rightarrow> string" where
  "formatPrefixedError sentinel detail = (if detail = [] then sentinel else sentinel @ '': '' @ detail)"

definition joinDetailCause :: "string \<Rightarrow> cause option \<Rightarrow> string" where
  "joinDetailCause detail cause =
     (case cause of
        None \<Rightarrow> detail
      | Some c \<Rightarrow> if detail = [] then ca_text c else detail @ '': '' @ ca_text c)"

definition ErrSchemaValidation :: string where
  "ErrSchemaValidation = ''modelgateway: schema validation failed''"

definition ErrUnavailable :: string where
  "ErrUnavailable = ''modelgateway: unavailable''"

definition gateway_error_text :: "gateway_error \<Rightarrow> string" where
  "gateway_error_text e =
     (case e of
        ValidationError detail \<Rightarrow> formatPrefixedError ErrSchemaValidation detail
      | UnavailableError detail cause \<Rightarrow> formatPrefixedError ErrUnavailable (joinDetailCause detail cause))"

text \<open>\<open>errors.Is\<close> with context.Canceled, through the joined cause.\<close>

definition wraps_cancel :: "gateway_error \<Rightarrow> bool" where
  "wraps_cancel e \<longleftrightarrow> (case e of UnavailableError _ (Some c) \<Rightarrow> ca_canceled c | _ \<Rightarrow> False)"

definition wraps_deadline :: "gateway_error \<Rightarrow> bool" where
  "wraps_deadline e \<longleftrightarrow> (case e of UnavailableError _ (Some c) \<Rightarrow> ca_deadline c | _ \<Rightarrow> False)"

section \<open>Requests and responses\<close>

definition DefaultLogicalModel :: string where "DefaultLogicalModel = ''coach-default''"

definition LogicalModelStub :: string where "LogicalModelStub = ''stub''"

record message =
  ms_role :: string
  ms_content :: string

record judgment_request =
  jr_rubric_id :: string
  jr_rubric_version :: string
  jr_messages :: "message list"
  jr_output_schema :: raw_message
  jr_logical_model :: string

record judgment_response =
  jp_judgment :: raw_message
  jp_logical :: string
  jp_served :: string

section \<open>Output schemas\<close>

text \<open>schemaDoc (type, required, properties) and propSchema (type, enum, items, parsed types).\<close>

datatype schema_doc = SchemaDoc string "string list" "(string \<times> prop_doc) list"
  and prop_doc = PropDoc raw_message "string list" "schema_doc option" "string list"

definition string_list_ty :: gty where "string_list_ty = TySlice TyString"

definition gstring_of :: "gval \<Rightarrow> string" where
  "gstring_of v = (case v of GString s \<Rightarrow> s | _ \<Rightarrow> [])"

definition decode_string :: "string \<Rightarrow> json \<Rightarrow> string option" where
  "decode_string cur j = map_option gstring_of (json_decode TyString (GString cur) j)"

definition decode_string_list :: "string list \<Rightarrow> json \<Rightarrow> string list option" where
  "decode_string_list cur j =
     map_option (map gstring_of \<circ> elements) (json_decode string_list_ty (GSlice (map GString cur)) j)"

text \<open>A property's \<open>type\<close>: absent, a string (null leaves it empty), or a list of strings.\<close>

definition parsePropTypes :: "raw_message \<Rightarrow> string list option" where
  "parsePropTypes raw =
     (case raw of
        RawNil \<Rightarrow> Some []
      | RawBad s \<Rightarrow> if s = [] then Some [] else None
      | RawJson j \<Rightarrow>
          (case decode_string [] j of
             Some single \<Rightarrow> Some [single]
           | None \<Rightarrow> decode_string_list [] j))"

definition empty_doc :: schema_doc where "empty_doc = SchemaDoc [] [] []"

function decode_doc :: "schema_doc \<Rightarrow> json \<Rightarrow> schema_doc option"
  and decode_doc_members :: "schema_doc \<Rightarrow> (string \<times> json) list \<Rightarrow> schema_doc option"
  and decode_props :: "(string \<times> prop_doc) list \<Rightarrow> (string \<times> json) list \<Rightarrow> (string \<times> prop_doc) list option"
  and decode_prop :: "json \<Rightarrow> prop_doc option"
  and decode_prop_members ::
    "raw_message \<times> string list \<times> schema_doc option \<Rightarrow> (string \<times> json) list \<Rightarrow>
     (raw_message \<times> string list \<times> schema_doc option) option" where
  "decode_doc cur j =
     (case j of JNull \<Rightarrow> Some cur | JObj ms \<Rightarrow> decode_doc_members cur ms | _ \<Rightarrow> None)"
| "decode_doc_members cur [] = Some cur"
| "decode_doc_members (SchemaDoc ty req props) ((k, j) # ms) =
     (if field_name k = ''type''
      then (case decode_string ty j of None \<Rightarrow> None | Some ty' \<Rightarrow> decode_doc_members (SchemaDoc ty' req props) ms)
      else if field_name k = ''required''
      then (case decode_string_list req j of None \<Rightarrow> None | Some req' \<Rightarrow> decode_doc_members (SchemaDoc ty req' props) ms)
      else if field_name k = ''properties''
      then (case j of
              JNull \<Rightarrow> decode_doc_members (SchemaDoc ty req []) ms
            | JObj ps \<Rightarrow>
                (case decode_props props ps of
                   None \<Rightarrow> None
                 | Some props' \<Rightarrow> decode_doc_members (SchemaDoc ty req props') ms)
            | _ \<Rightarrow> None)
      else decode_doc_members (SchemaDoc ty req props) ms)"
| "decode_props props [] = Some props"
| "decode_props props ((k, j) # ps) =
     (case decode_prop j of None \<Rightarrow> None | Some p \<Rightarrow> decode_props (AList.update k p props) ps)"
| "decode_prop j =
     (case (case j of JNull \<Rightarrow> Some (RawNil, [], None) | JObj ms \<Rightarrow> decode_prop_members (RawNil, [], None) ms | _ \<Rightarrow> None) of
        None \<Rightarrow> None
      | Some (raw, enum, items) \<Rightarrow> map_option (PropDoc raw enum items) (parsePropTypes raw))"
| "decode_prop_members cur [] = Some cur"
| "decode_prop_members (raw, enum, items) ((k, j) # ms) =
     (if field_name k = ''type'' then decode_prop_members (RawJson j, enum, items) ms
      else if field_name k = ''enum''
      then (case decode_string_list enum j of None \<Rightarrow> None | Some enum' \<Rightarrow> decode_prop_members (raw, enum', items) ms)
      else if field_name k = ''items''
      then (if j = JNull then decode_prop_members (raw, enum, None) ms
            else (case decode_doc (case items of None \<Rightarrow> empty_doc | Some d \<Rightarrow> d) j of
                    None \<Rightarrow> None
                  | Some d \<Rightarrow> decode_prop_members (raw, enum, Some d) ms))
      else decode_prop_members (raw, enum, items) ms)"
  by pat_completeness auto

termination
  by (relation "measures
    [\<lambda>x. case x of Inl (Inl (c, j)) \<Rightarrow> size j | Inl (Inr (c, ms)) \<Rightarrow> size_list (size_prod (\<lambda>_. 0) size) ms
      | Inr (Inl (c, ms)) \<Rightarrow> size_list (size_prod (\<lambda>_. 0) size) ms | Inr (Inr (Inl j)) \<Rightarrow> size j
      | Inr (Inr (Inr (c, ms))) \<Rightarrow> size_list (size_prod (\<lambda>_. 0) size) ms]")
    (auto simp: size_list_conv_sum_list)

fun od_type :: "schema_doc \<Rightarrow> string" where "od_type (SchemaDoc ty req props) = ty"
fun od_required :: "schema_doc \<Rightarrow> string list" where "od_required (SchemaDoc ty req props) = req"
fun od_properties :: "schema_doc \<Rightarrow> (string \<times> prop_doc) list" where "od_properties (SchemaDoc ty req props) = props"
fun pd_enum :: "prop_doc \<Rightarrow> string list" where "pd_enum (PropDoc raw enum items types) = enum"
fun pd_items :: "prop_doc \<Rightarrow> schema_doc option" where "pd_items (PropDoc raw enum items types) = items"
fun pd_types :: "prop_doc \<Rightarrow> string list" where "pd_types (PropDoc raw enum items types) = types"

definition parseSchemaDoc :: "raw_message \<Rightarrow> gateway_error + schema_doc" where
  "parseSchemaDoc schema =
     (case (case schema of RawJson j \<Rightarrow> decode_doc empty_doc j | _ \<Rightarrow> None) of
        None \<Rightarrow> Inl (ValidationError ''output schema is not valid JSON'')
      | Some sch \<Rightarrow>
          if od_type sch \<noteq> [] \<and> od_type sch \<noteq> ''object''
          then Inl (ValidationError ''output schema type must be object'') else Inr sch)"

section \<open>Supported schemas\<close>

text \<open>The checks return the detail of a ValidationError; type names are compared on ASCII letters.\<close>

definition supportedLeafPropType :: "string \<Rightarrow> bool" where
  "supportedLeafPropType t \<longleftrightarrow> fold_name t = ''string'' \<or> fold_name t = ''null''"

definition unsupportedLeafType :: "string list \<Rightarrow> string option" where
  "unsupportedLeafType types = find (\<lambda>t. \<not> supportedLeafPropType t) types"

fun first_error :: "('a \<Rightarrow> string option) \<Rightarrow> 'a list \<Rightarrow> string option" where
  "first_error f [] = None"
| "first_error f (x # xs) = (case f x of Some e \<Rightarrow> Some e | None \<Rightarrow> first_error f xs)"

lemma first_error_None: "first_error f xs = None \<longleftrightarrow> (\<forall>x\<in>set xs. f x = None)"
  by (induction xs) (auto split: option.splits)

definition ensureSupportedArrayProp :: "string \<Rightarrow> prop_doc \<Rightarrow> string option" where
  "ensureSupportedArrayProp name prop =
     (case pd_items prop of
        None \<Rightarrow> Some (name @ '' array schema requires object items'')
      | Some items \<Rightarrow>
          if od_type items \<noteq> [] \<and> fold_name (od_type items) \<noteq> ''object''
          then Some (name @ '' array items must be object'')
          else first_error (\<lambda>(elemName, elemProp).
             (case unsupportedLeafType (pd_types elemProp) of
                Some t \<Rightarrow> Some (name @ '' items.'' @ elemName @ '' has unsupported schema type: '' @ t)
              | None \<Rightarrow>
                  if pd_items elemProp \<noteq> None then Some (name @ '' items.'' @ elemName @ '' has unsupported nested array'')
                  else None)) (od_properties items))"

definition ensureSupportedPropSchema :: "string \<Rightarrow> prop_doc \<Rightarrow> string option" where
  "ensureSupportedPropSchema name prop =
     first_error (\<lambda>t.
       if supportedLeafPropType t then None
       else if fold_name t = ''array'' then ensureSupportedArrayProp name prop
       else Some (name @ '' has unsupported schema type: '' @ t)) (pd_types prop)"

definition ensureSupportedProperties :: "schema_doc \<Rightarrow> string option" where
  "ensureSupportedProperties sch = first_error (\<lambda>(name, prop). ensureSupportedPropSchema name prop) (od_properties sch)"

definition validateOutputSchema :: "raw_message \<Rightarrow> gateway_error option" where
  "validateOutputSchema schema =
     (if schema = RawNil \<or> schema = RawBad [] then None
      else (case parseSchemaDoc schema of
              Inl e \<Rightarrow> Some e
            | Inr sch \<Rightarrow> map_option ValidationError (ensureSupportedProperties sch)))"

section \<open>Validation of a judgment\<close>

text \<open>A decoded object: the last member of a key wins.\<close>

definition obj_get :: "(string \<times> json) list \<Rightarrow> string \<Rightarrow> json option" where
  "obj_get ms key = map_of (rev ms) key"

definition hasType :: "string list \<Rightarrow> string \<Rightarrow> bool" where
  "hasType types want \<longleftrightarrow> (\<exists>t\<in>set types. fold_name t = fold_name want)"

definition jsonValueKind :: "json \<Rightarrow> string" where
  "jsonValueKind v =
     (case v of JStr _ \<Rightarrow> ''string'' | JNum _ \<Rightarrow> ''number'' | JBool _ \<Rightarrow> ''boolean''
      | JObj _ \<Rightarrow> ''object'' | JArr _ \<Rightarrow> ''array'' | JNull \<Rightarrow> [])"

definition requireProperties :: "(string \<times> json) list \<Rightarrow> string list \<Rightarrow> string option" where
  "requireProperties obj required =
     first_error (\<lambda>key. if obj_get obj key = None then Some (''missing required property: '' @ key) else None) required"

definition checkEnumProperty :: "string \<Rightarrow> json \<Rightarrow> string list \<Rightarrow> string option" where
  "checkEnumProperty name raw allowed =
     (case raw of
        JStr s \<Rightarrow> if s \<in> set allowed then None else Some (name @ '' value not in enum'')
      | _ \<Rightarrow> Some (name @ '' must be a string enum value''))"

definition checkTypedProperty :: "string \<Rightarrow> json \<Rightarrow> string list \<Rightarrow> string option" where
  "checkTypedProperty name raw types =
     (if raw = JNull then (if hasType types ''null'' then None else Some (name @ '' must not be null''))
      else if jsonValueKind raw = ''string''
      then (if hasType types ''string'' then None else Some (name @ '' must not be a string''))
      else Some (name @ '' must not be a '' @ jsonValueKind raw))"

definition element_path :: "string \<Rightarrow> nat \<Rightarrow> string" where
  "element_path name i = name @ ''['' @ itoa (int i) @ '']''"

fun checkPresentProperties :: "(string \<times> json) list \<Rightarrow> (string \<times> prop_doc) list \<Rightarrow> string option"
  and checkProperty :: "string \<Rightarrow> json \<Rightarrow> prop_doc \<Rightarrow> string option"
  and checkElements :: "string \<Rightarrow> nat \<Rightarrow> json list \<Rightarrow> schema_doc \<Rightarrow> string option" where
  "checkPresentProperties obj [] = None"
| "checkPresentProperties obj ((name, prop) # props) =
     (case obj_get obj name of
        None \<Rightarrow> checkPresentProperties obj props
      | Some raw \<Rightarrow>
          (case checkProperty name raw prop of
             Some e \<Rightarrow> Some e
           | None \<Rightarrow> checkPresentProperties obj props))"
| "checkProperty name raw (PropDoc traw enum items types) =
     (if hasType types ''array''
      then (if raw = JNull then Some (name @ '' must not be null'')
            else (case raw of
                    JArr elems \<Rightarrow>
                      (case items of
                         None \<Rightarrow> Some (name @ '' array schema requires object items'')
                       | Some doc \<Rightarrow> checkElements name 0 elems doc)
                  | _ \<Rightarrow> Some (name @ '' must be an array'')))
      else if enum \<noteq> [] then checkEnumProperty name raw enum
      else if types = [] then None
      else checkTypedProperty name raw types)"
| "checkElements name i [] doc = None"
| "checkElements name i (e # es) (SchemaDoc ty required props) =
     (case e of
        JObj obj \<Rightarrow>
          (case requireProperties obj required of
             Some d \<Rightarrow> Some (element_path name i @ '': '' @ d)
           | None \<Rightarrow>
               (case checkPresentProperties obj props of
                  Some d \<Rightarrow> Some (element_path name i @ '': '' @ d)
                | None \<Rightarrow> checkElements name (i + 1) es (SchemaDoc ty required props)))
      | _ \<Rightarrow> Some (element_path name i @ '' must be an object''))"

definition parseJudgmentObject :: "raw_message \<Rightarrow> gateway_error + (string \<times> json) list" where
  "parseJudgmentObject judgment =
     (case judgment of
        RawJson (JObj obj) \<Rightarrow> Inr obj
      | RawJson _ \<Rightarrow> Inl (ValidationError ''judgment must be a JSON object'')
      | _ \<Rightarrow> Inl (ValidationError ''judgment is not valid JSON''))"

definition validateJudgmentJSON :: "raw_message \<Rightarrow> raw_message \<Rightarrow> gateway_error option" where
  "validateJudgmentJSON judgment schema =
     (case parseJudgmentObject judgment of
        Inl e \<Rightarrow> Some e
      | Inr obj \<Rightarrow>
          if schema = RawNil \<or> schema = RawBad [] then None
          else (case parseSchemaDoc schema of
                  Inl e \<Rightarrow> Some e
                | Inr sch \<Rightarrow>
                    (case ensureSupportedProperties sch of
                       Some d \<Rightarrow> Some (ValidationError d)
                     | None \<Rightarrow>
                         (case requireProperties obj (od_required sch) of
                            Some d \<Rightarrow> Some (ValidationError d)
                          | None \<Rightarrow> map_option ValidationError (checkPresentProperties obj (od_properties sch))))))"

section \<open>Assistant content\<close>

definition unwrapJSONStringOnce :: "(string \<Rightarrow> json option) \<Rightarrow> json \<Rightarrow> gateway_error + raw_message" where
  "unwrapJSONStringOnce parse raw =
     (case decode_string [] raw of
        None \<Rightarrow> Inr (RawJson raw)
      | Some s \<Rightarrow>
          let inner = trim_space s in
          if inner = [] then Inl (ValidationError ''assistant content is empty'')
          else (case parse inner of
                  None \<Rightarrow> Inl (ValidationError ''assistant content is not valid JSON'')
                | Some j \<Rightarrow> Inr (RawJson j)))"

definition parseAssistantContentJSON :: "(string \<Rightarrow> json option) \<Rightarrow> string \<Rightarrow> gateway_error + raw_message" where
  "parseAssistantContentJSON parse content =
     (let text = trim_space content in
      if text = [] then Inl (ValidationError ''assistant content is empty'')
      else (case parse text of
              None \<Rightarrow> Inl (ValidationError ''assistant content is not valid JSON'')
            | Some raw \<Rightarrow> unwrapJSONStringOnce parse raw))"

definition extractAndValidateJudgment :: "(string \<Rightarrow> json option) \<Rightarrow> string \<Rightarrow> raw_message \<Rightarrow> gateway_error + raw_message" where
  "extractAndValidateJudgment parse content schema =
     (case parseAssistantContentJSON parse content of
        Inl e \<Rightarrow> Inl e
      | Inr raw \<Rightarrow> (case validateJudgmentJSON raw schema of Some e \<Rightarrow> Inl e | None \<Rightarrow> Inr raw))"

section \<open>The client\<close>

definition DefaultHTTPClientTimeout :: duration where "DefaultHTTPClientTimeout = 10 * second"

definition DefaultSchemaValidationAttempts :: int where "DefaultSchemaValidationAttempts = 3"

definition maxUpstreamResponseBytes :: int where "maxUpstreamResponseBytes = 8 * 2 ^ 20"

definition limit_reader :: "int \<Rightarrow> string \<Rightarrow> string" where
  "limit_reader n s = (if int (length s) \<le> n then s else take (nat n) s)"

text \<open>An HTTP client is what the configuration checks of it: whether it is http.DefaultClient, and its timeout.\<close>

record http_client =
  hc_is_default :: bool
  hc_timeout :: duration

record client_config =
  cc_BaseURL :: string
  cc_LogicalModel :: string
  cc_APIKey :: string
  cc_AuthHeader :: string
  cc_ExtraHeaders :: "(string \<times> string) list"
  cc_HTTPClient :: "http_client option"
  cc_SchemaValidationAttempts :: int
  cc_DisableThinking :: bool

record openai_client =
  oc_baseURL :: string
  oc_logicalModel :: string
  oc_apiKey :: string
  oc_authHeader :: string
  oc_extraHeaders :: "(string \<times> string) list"
  oc_httpClient :: http_client
  oc_attempts :: int
  oc_disableThinking :: bool

definition trim_right_char :: "char \<Rightarrow> string \<Rightarrow> string" where
  "trim_right_char ch s = rev (trim_left_char ch (rev s))"

definition has_suffix :: "string \<Rightarrow> string \<Rightarrow> bool" where
  "has_suffix s suf = has_prefix (rev s) (rev suf)"

definition slash :: char where "slash = CHR ''/''"

definition trim_suffix :: "string \<Rightarrow> string \<Rightarrow> string" where
  "trim_suffix s suf = (if has_suffix s suf then take (length s - length suf) s else s)"

text \<open>The argument is url.ParseRequestURI's error.\<close>

definition normalizeBaseURL :: "(string \<Rightarrow> string option) \<Rightarrow> string \<Rightarrow> string + string" where
  "normalizeBaseURL parse_uri raw =
     (let base0 = trim_right_char slash (trim_space raw);
          base = (if has_suffix base0 ''/v1'' then trim_right_char slash (trim_suffix base0 ''/v1'') else base0)
      in if base = [] then Inl ''modelgateway: BaseURL is required''
         else (case parse_uri base of
                 Some e \<Rightarrow> Inl (''modelgateway: BaseURL is invalid: '' @ e)
               | None \<Rightarrow> Inr base))"

definition resolveLogicalModel :: "string \<Rightarrow> string \<Rightarrow> string" where
  "resolveLogicalModel requested client_default =
     (if trim_space requested \<noteq> [] then trim_space requested
      else if trim_space client_default \<noteq> [] then trim_space client_default
      else DefaultLogicalModel)"

definition resolveSchemaAttempts :: "int \<Rightarrow> int" where
  "resolveSchemaAttempts n = (if n \<le> 0 then DefaultSchemaValidationAttempts else n)"

definition resolveHTTPClient :: "http_client option \<Rightarrow> string + http_client" where
  "resolveHTTPClient c =
     (case c of
        None \<Rightarrow> Inr \<lparr>hc_is_default = False, hc_timeout = DefaultHTTPClientTimeout\<rparr>
      | Some h \<Rightarrow>
          if hc_is_default h then Inl ''modelgateway: HTTPClient must not be http.DefaultClient''
          else if hc_timeout h \<le> 0 then Inl ''modelgateway: HTTPClient.Timeout must be > 0''
          else Inr h)"

definition NewOpenAICompatClient :: "(string \<Rightarrow> string option) \<Rightarrow> client_config \<Rightarrow> string + openai_client" where
  "NewOpenAICompatClient parse_uri cfg =
     (case normalizeBaseURL parse_uri (cc_BaseURL cfg) of
        Inl e \<Rightarrow> Inl e
      | Inr base \<Rightarrow>
          (case resolveHTTPClient (cc_HTTPClient cfg) of
             Inl e \<Rightarrow> Inl e
           | Inr http \<Rightarrow>
               Inr \<lparr>oc_baseURL = base, oc_logicalModel = resolveLogicalModel (cc_LogicalModel cfg) [],
                    oc_apiKey = cc_APIKey cfg, oc_authHeader = cc_AuthHeader cfg, oc_extraHeaders = cc_ExtraHeaders cfg,
                    oc_httpClient = http, oc_attempts = resolveSchemaAttempts (cc_SchemaValidationAttempts cfg),
                    oc_disableThinking = cc_DisableThinking cfg\<rparr>))"

subsection \<open>One completion\<close>

text \<open>http.Header.Set: header names are compared in canonical form, the argument.\<close>

record http_request =
  hq_url :: string
  hq_headers :: "(string \<times> string) list"
  hq_body :: json

record gateway_env =
  gv_ctx :: "nat \<Rightarrow> cause option"
  gv_parse :: "string \<Rightarrow> json option"
  gv_canonical :: "string \<Rightarrow> string"
  gv_new_request :: "string \<Rightarrow> cause option"
  gv_do :: "nat \<Rightarrow> http_request \<Rightarrow> cause + (int \<times> (cause + string))"

record gateway_state =
  gs_checks :: nat
  gs_calls :: nat

definition set_header :: "gateway_env \<Rightarrow> string \<Rightarrow> string \<Rightarrow> (string \<times> string) list \<Rightarrow> (string \<times> string) list" where
  "set_header E k v h = AList.update (gv_canonical E k) v h"

definition applyAuthHeaders :: "gateway_env \<Rightarrow> openai_client \<Rightarrow> (string \<times> string) list \<Rightarrow> (string \<times> string) list" where
  "applyAuthHeaders E c h =
     (if oc_authHeader c \<noteq> [] then set_header E ''Authorization'' (oc_authHeader c) h
      else if oc_apiKey c \<noteq> [] then set_header E ''Authorization'' (''Bearer '' @ oc_apiKey c) h
      else h)"

definition chat_message_ty :: gty where
  "chat_message_ty = TyStruct [(''role'', False, TyString), (''content'', False, TyString)]"

definition chat_request_ty :: gty where
  "chat_request_ty = TyStruct [(''model'', False, TyString), (''messages'', False, TySlice chat_message_ty),
     (''stream'', False, TyBool), (''think'', True, TyPtr TyBool)]"

definition chat_response_ty :: gty where
  "chat_response_ty = TyStruct [(''model'', False, TyString),
     (''choices'', False, TySlice (TyStruct [(''message'', False, chat_message_ty), (''finish_reason'', False, TyString)]))]"

definition marshalChatCompletionRequest :: "string \<Rightarrow> message list \<Rightarrow> bool \<Rightarrow> json option" where
  "marshalChatCompletionRequest logical messages disable_thinking =
     json_encode chat_request_ty (GStruct
       [GString logical, GSlice (map (\<lambda>m. GStruct [GString (ms_role m), GString (ms_content m)]) messages),
        GBool False, if disable_thinking then GPtr (GBool False) else GNil])"

definition newChatCompletionsRequest :: "gateway_env \<Rightarrow> openai_client \<Rightarrow> json \<Rightarrow> gateway_error + http_request" where
  "newChatCompletionsRequest E c body =
     (let endpoint = oc_baseURL c @ ''/v1/chat/completions'' in
      case gv_new_request E endpoint of
        Some e \<Rightarrow> Inl (UnavailableError ''build request'' (Some e))
      | None \<Rightarrow>
          let h0 = set_header E ''Accept'' ''application/json'' (set_header E ''Content-Type'' ''application/json'' []);
              h1 = applyAuthHeaders E c h0;
              h2 = foldl (\<lambda>h (k, v). set_header E k v h) h1 (oc_extraHeaders c)
          in Inr \<lparr>hq_url = endpoint, hq_headers = h2, hq_body = body\<rparr>)"

definition classifyUpstreamStatus :: "int \<Rightarrow> gateway_error option" where
  "classifyUpstreamStatus status =
     (if 200 \<le> status \<and> status < 300 then None else Some (UnavailableError (''upstream HTTP '' @ itoa status) None))"

definition struct_field :: "nat \<Rightarrow> gval \<Rightarrow> gval" where
  "struct_field i v = fields_of v ! i"

definition decode_failed :: cause where
  "decode_failed = \<lparr>ca_text = ''decode'', ca_canceled = False, ca_deadline = False\<rparr>"

definition parseChatCompletionBody :: "json option \<Rightarrow> gateway_error + (string \<times> string)" where
  "parseChatCompletionBody body =
     (case (case body of None \<Rightarrow> None | Some j \<Rightarrow> json_decode chat_response_ty (zero_value chat_response_ty) j) of
        None \<Rightarrow> Inl (UnavailableError ''decode upstream response'' (Some decode_failed))
      | Some v \<Rightarrow>
          (case elements (struct_field 1 v) of
             [] \<Rightarrow> Inl (UnavailableError ''upstream response missing choices'' None)
           | choice # _ \<Rightarrow>
               Inr (gstring_of (struct_field 0 v), gstring_of (struct_field 1 (struct_field 0 choice)))))"

definition callChatCompletions ::
  "gateway_env \<Rightarrow> openai_client \<Rightarrow> string \<Rightarrow> message list \<Rightarrow> gateway_state \<Rightarrow>
   (gateway_state, gateway_error, string \<times> string) outcome" where
  "callChatCompletions E c logical messages s =
     (case marshalChatCompletionRequest logical messages (oc_disableThinking c) of
        None \<Rightarrow> (s, Inl (UnavailableError ''encode request'' (Some decode_failed)))
      | Some body \<Rightarrow>
     (case newChatCompletionsRequest E c body of
        Inl e \<Rightarrow> (s, Inl e)
      | Inr req \<Rightarrow>
          let s1 = s\<lparr>gs_calls := gs_calls s + 1\<rparr> in
          (case gv_do E (gs_calls s) req of
             Inl e \<Rightarrow> (s1, Inl (UnavailableError ''upstream request failed'' (Some e)))
           | Inr (status, Inl e) \<Rightarrow> (s1, Inl (UnavailableError ''read upstream response'' (Some e)))
           | Inr (status, Inr text) \<Rightarrow>
               (case classifyUpstreamStatus status of
                  Some e \<Rightarrow> (s1, Inl e)
                | None \<Rightarrow> (s1, parseChatCompletionBody (gv_parse E (limit_reader maxUpstreamResponseBytes text)))))))"

subsection \<open>Judge\<close>

definition gateway_ctx :: "gateway_env \<Rightarrow> gateway_state \<Rightarrow> gateway_state \<times> cause option" where
  "gateway_ctx E s = (s\<lparr>gs_checks := gs_checks s + 1\<rparr>, gv_ctx E (gs_checks s))"

text \<open>The loop over attempts, by the number of attempts left, with the last validation error.\<close>

fun judge_attempts ::
  "gateway_env \<Rightarrow> openai_client \<Rightarrow> string \<Rightarrow> judgment_request \<Rightarrow> nat \<Rightarrow> gateway_error option \<Rightarrow> gateway_state \<Rightarrow>
   (gateway_state, gateway_error, judgment_response) outcome" where
  "judge_attempts E c logical req 0 lastErr s =
     (s, Inl (case lastErr of Some e \<Rightarrow> e | None \<Rightarrow> ValidationError ''schema validation failed after retries''))"
| "judge_attempts E c logical req (Suc n) lastErr s =
     (case gateway_ctx E s of
        (s1, Some e) \<Rightarrow> (s1, Inl (UnavailableError ''context done'' (Some e)))
      | (s1, None) \<Rightarrow>
          (case callChatCompletions E c logical (jr_messages req) s1 of
             (s2, Inl e) \<Rightarrow> (s2, Inl e)
           | (s2, Inr (served, content)) \<Rightarrow>
               (case extractAndValidateJudgment (gv_parse E) content (jr_output_schema req) of
                  Inl e \<Rightarrow> judge_attempts E c logical req n (Some e) s2
                | Inr judgment \<Rightarrow>
                    (s2, Inr \<lparr>jp_judgment = judgment, jp_logical = logical, jp_served = served\<rparr>))))"

definition Judge ::
  "gateway_env \<Rightarrow> openai_client option \<Rightarrow> judgment_request \<Rightarrow> gateway_state \<Rightarrow>
   (gateway_state, gateway_error, judgment_response) outcome" where
  "Judge E client req s =
     (case client of
        None \<Rightarrow> (s, Inl (UnavailableError ''nil client'' None))
      | Some c \<Rightarrow>
     (case gateway_ctx E s of
        (s1, Some e) \<Rightarrow> (s1, Inl (UnavailableError ''context done'' (Some e)))
      | (s1, None) \<Rightarrow>
          let logical = resolveLogicalModel (jr_logical_model req) (oc_logicalModel c) in
          (case validateOutputSchema (jr_output_schema req) of
             Some e \<Rightarrow> (s1, Inl e)
           | None \<Rightarrow> judge_attempts E c logical req (nat (oc_attempts c)) None s1)))"

section \<open>What validation accepts\<close>

text \<open>The declarative reading of a schema: no order, no error texts.\<close>

definition typed_as :: "string list \<Rightarrow> json \<Rightarrow> bool" where
  "typed_as types v \<longleftrightarrow> v = JNull \<and> hasType types ''null'' \<or> (\<exists>s. v = JStr s \<and> hasType types ''string'')"

inductive conforms_prop :: "prop_doc \<Rightarrow> json \<Rightarrow> bool"
  and conforms_obj :: "string list \<Rightarrow> (string \<times> prop_doc) list \<Rightarrow> (string \<times> json) list \<Rightarrow> bool" where
  array: "hasType types ''array'' \<Longrightarrow> \<forall>v\<in>set elems. \<exists>obj. v = JObj obj \<and> conforms_obj required props obj \<Longrightarrow>
    conforms_prop (PropDoc raw enum (Some (SchemaDoc ty required props)) types) (JArr elems)"
| enum: "\<not> hasType types ''array'' \<Longrightarrow> s \<in> set enum \<Longrightarrow> conforms_prop (PropDoc raw enum items types) (JStr s)"
| untyped: "conforms_prop (PropDoc raw [] items []) v"
| typed: "\<not> hasType types ''array'' \<Longrightarrow> types \<noteq> [] \<Longrightarrow> typed_as types v \<Longrightarrow> conforms_prop (PropDoc raw [] items types) v"
| obj: "\<forall>k\<in>set required. obj_get obj k \<noteq> None \<Longrightarrow>
    \<forall>(name, prop)\<in>set props. \<forall>v. obj_get obj name = Some v \<longrightarrow> conforms_prop prop v \<Longrightarrow> conforms_obj required props obj"

inductive_cases conforms_propE: "conforms_prop (PropDoc raw enum items types) v"
inductive_simps conforms_obj_iff: "conforms_obj required props obj"

lemma requireProperties_None: "requireProperties obj required = None \<longleftrightarrow> (\<forall>k\<in>set required. obj_get obj k \<noteq> None)"
  by (simp add: requireProperties_def first_error_None)

lemma checkEnum_None: "checkEnumProperty name v allowed = None \<longleftrightarrow> (\<exists>s\<in>set allowed. v = JStr s)"
  by (auto simp: checkEnumProperty_def split: json.splits)

lemma checkTyped_None: "checkTypedProperty name v types = None \<longleftrightarrow> typed_as types v"
  by (cases v) (simp_all add: checkTypedProperty_def typed_as_def jsonValueKind_def)

lemma hasType_Nil [simp]: "\<not> hasType [] t"
  by (simp add: hasType_def)

lemma conforms_prop_iff:
  "conforms_prop (PropDoc raw enum items types) v \<longleftrightarrow>
     (if hasType types ''array''
      then \<exists>elems ty required props. v = JArr elems \<and> items = Some (SchemaDoc ty required props)
        \<and> (\<forall>e\<in>set elems. \<exists>obj. e = JObj obj \<and> conforms_obj required props obj)
      else if enum \<noteq> [] then \<exists>s\<in>set enum. v = JStr s
      else types = [] \<or> typed_as types v)"
proof
  assume "conforms_prop (PropDoc raw enum items types) v"
  then show "if hasType types ''array''
      then \<exists>elems ty required props. v = JArr elems \<and> items = Some (SchemaDoc ty required props)
        \<and> (\<forall>e\<in>set elems. \<exists>obj. e = JObj obj \<and> conforms_obj required props obj)
      else if enum \<noteq> [] then \<exists>s\<in>set enum. v = JStr s
      else types = [] \<or> typed_as types v"
    by (cases rule: conforms_propE) auto
next
  assume "if hasType types ''array''
      then \<exists>elems ty required props. v = JArr elems \<and> items = Some (SchemaDoc ty required props)
        \<and> (\<forall>e\<in>set elems. \<exists>obj. e = JObj obj \<and> conforms_obj required props obj)
      else if enum \<noteq> [] then \<exists>s\<in>set enum. v = JStr s
      else types = [] \<or> typed_as types v"
  then show "conforms_prop (PropDoc raw enum items types) v"
    by (auto split: if_splits intro: conforms_prop_conforms_obj.intros)
qed

lemma check_conforms:
  "checkPresentProperties obj props = None \<longleftrightarrow>
     (\<forall>(name, prop)\<in>set props. \<forall>v. obj_get obj name = Some v \<longrightarrow> conforms_prop prop v)"
  "checkProperty name v p = None \<longleftrightarrow> conforms_prop p v"
  "checkElements name i elems doc = None \<longleftrightarrow>
     (\<forall>e\<in>set elems. \<exists>obj. e = JObj obj \<and> conforms_obj (od_required doc) (od_properties doc) obj)"
proof (induction obj props and name v p and name i elems doc
    rule: checkPresentProperties_checkProperty_checkElements.induct)
  case (2 obj name p props)
  then show ?case by (auto simp: case_prod_unfold split: option.splits)
next
  case (3 name raw traw enum items types)
  show ?case
  proof (cases "hasType types ''array''")
    case False
    then show ?thesis by (simp add: conforms_prop_iff checkEnum_None checkTyped_None)
  next
    case True
    show ?thesis
    proof (cases raw)
      case (JArr elems)
      show ?thesis
      proof (cases items)
        case None
        then show ?thesis using True JArr by (simp add: conforms_prop_iff)
      next
        case (Some doc)
        obtain ty req ps where "doc = SchemaDoc ty req ps" by (cases doc)
        then show ?thesis using True JArr Some 3 by (simp add: conforms_prop_iff)
      qed
    qed (use True in \<open>simp_all add: conforms_prop_iff\<close>)
  qed
next
  case (5 name i e es ty required props)
  show ?case
  proof (cases e)
    case (JObj obj)
    have present: "checkPresentProperties obj props = None \<longleftrightarrow>
        (\<forall>(name, prop)\<in>set props. \<forall>v. obj_get obj name = Some v \<longrightarrow> conforms_prop prop v)"
      if "requireProperties obj required = None" using 5 JObj that by blast
    have rest: "checkElements name (i + 1) es (SchemaDoc ty required props) = None \<longleftrightarrow>
        (\<forall>e\<in>set es. \<exists>obj. e = JObj obj \<and> conforms_obj required props obj)"
      if "requireProperties obj required = None" "checkPresentProperties obj props = None"
      using 5 JObj that by simp
    have "conforms_obj required props obj \<longleftrightarrow> requireProperties obj required = None \<and> checkPresentProperties obj props = None"
      using present by (auto simp: conforms_obj_iff requireProperties_None)
    then show ?thesis using JObj rest by (auto split: option.splits)
  qed simp_all
qed auto

text \<open>
  Supported schemas, declaratively: every type of a property is string, null or array, and
  an array has object items whose properties are leaves.
\<close>

definition leaf_prop :: "prop_doc \<Rightarrow> bool" where
  "leaf_prop p \<longleftrightarrow> (\<forall>t\<in>set (pd_types p). supportedLeafPropType t) \<and> pd_items p = None"

definition array_prop :: "prop_doc \<Rightarrow> bool" where
  "array_prop p \<longleftrightarrow> (\<exists>doc. pd_items p = Some doc \<and> (od_type doc = [] \<or> fold_name (od_type doc) = ''object'')
     \<and> (\<forall>q\<in>set (od_properties doc). leaf_prop (snd q)))"

definition supported_prop :: "prop_doc \<Rightarrow> bool" where
  "supported_prop p \<longleftrightarrow>
     (\<forall>t\<in>set (pd_types p). supportedLeafPropType t \<or> fold_name t = ''array'' \<and> array_prop p)"

lemma ensureSupportedArrayProp_None: "ensureSupportedArrayProp name p = None \<longleftrightarrow> array_prop p"
proof -
  have leaf: "(case unsupportedLeafType (pd_types q) of Some t \<Rightarrow> Some (f t)
      | None \<Rightarrow> if pd_items q \<noteq> None then Some g else None) = None \<longleftrightarrow> leaf_prop q" for q f and g :: string
    by (auto simp: unsupportedLeafType_def leaf_prop_def find_None_iff split: option.splits dest: find_SomeD)
  show ?thesis
    by (simp add: ensureSupportedArrayProp_def array_prop_def first_error_None case_prod_unfold leaf split: option.split)
qed

lemma ensureSupportedProperties_None:
  "ensureSupportedProperties sch = None \<longleftrightarrow> (\<forall>q\<in>set (od_properties sch). supported_prop (snd q))"
proof -
  have "ensureSupportedPropSchema name p = None \<longleftrightarrow> supported_prop p" for name p
    by (auto simp: ensureSupportedPropSchema_def supported_prop_def first_error_None ensureSupportedArrayProp_None
        split: if_splits)
  then show ?thesis by (simp add: ensureSupportedProperties_def first_error_None case_prod_unfold)
qed

definition schema_ok :: "raw_message \<Rightarrow> schema_doc \<Rightarrow> bool" where
  "schema_ok schema sch \<longleftrightarrow> parseSchemaDoc schema = Inr sch \<and> (\<forall>q\<in>set (od_properties sch). supported_prop (snd q))"

definition no_schema :: "raw_message \<Rightarrow> bool" where
  "no_schema schema \<longleftrightarrow> schema = RawNil \<or> schema = RawBad []"

definition judgment_conforms :: "raw_message \<Rightarrow> raw_message \<Rightarrow> bool" where
  "judgment_conforms schema judgment \<longleftrightarrow>
     (\<exists>obj. judgment = RawJson (JObj obj)
       \<and> (no_schema schema \<or> (\<exists>sch. schema_ok schema sch \<and> conforms_obj (od_required sch) (od_properties sch) obj)))"

lemma case_fail_None: "(case x of None \<Rightarrow> y | Some d \<Rightarrow> Some (f d)) = None \<longleftrightarrow> x = None \<and> y = None"
  by (cases x) simp_all

lemma validate_conforms: "validateJudgmentJSON judgment schema = None \<longleftrightarrow> judgment_conforms schema judgment"
proof (cases "\<exists>obj. judgment = RawJson (JObj obj)")
  case False
  then show ?thesis
    by (auto simp: validateJudgmentJSON_def parseJudgmentObject_def judgment_conforms_def
        split: raw_message.splits json.splits)
next
  case True
  then obtain obj where "judgment = RawJson (JObj obj)" by blast
  then show ?thesis
    by (auto simp: validateJudgmentJSON_def parseJudgmentObject_def judgment_conforms_def no_schema_def schema_ok_def
        ensureSupportedProperties_None [symmetric] requireProperties_None check_conforms(1) conforms_obj_iff
        case_fail_None split: sum.splits)
qed

text \<open>The gateway accepts a judgment exactly when it is an object that conforms to a supported
  output schema (or any object without a schema), whatever order the properties are visited in.\<close>

theorem gateway_accepts_exactly_conforming:
  "validateJudgmentJSON judgment schema = None \<longleftrightarrow> judgment_conforms schema judgment"
  by (rule validate_conforms)

section \<open>What Judge promises\<close>

lemma gateway_ctx_calls [simp]: "gs_calls (fst (gateway_ctx E s)) = gs_calls s"
  by (simp add: gateway_ctx_def)

lemma callChatCompletions_calls:
  "gs_calls s \<le> gs_calls (fst (callChatCompletions E c logical msgs s))
   \<and> gs_calls (fst (callChatCompletions E c logical msgs s)) \<le> gs_calls s + 1
   \<and> (is_ok (snd (callChatCompletions E c logical msgs s)) \<longrightarrow>
        gs_calls (fst (callChatCompletions E c logical msgs s)) = gs_calls s + 1)"
  by (auto simp: callChatCompletions_def Let_def is_ok_def split: option.splits sum.splits prod.splits)

lemma extract_conforms:
  "extractAndValidateJudgment parse content schema = Inr raw \<Longrightarrow> judgment_conforms schema raw"
  by (auto simp: extractAndValidateJudgment_def validate_conforms [symmetric] split: sum.splits option.splits)

lemma extract_error: "extractAndValidateJudgment parse content schema = Inl e \<Longrightarrow> \<exists>d. e = ValidationError d"
proof -
  have "validateJudgmentJSON j schema = Some e \<Longrightarrow> \<exists>d. e = ValidationError d" for j
    by (auto simp: validateJudgmentJSON_def parseJudgmentObject_def parseSchemaDoc_def
        split: raw_message.splits json.splits sum.splits option.splits if_splits)
  then show "extractAndValidateJudgment parse content schema = Inl e \<Longrightarrow> \<exists>d. e = ValidationError d"
    by (auto simp: extractAndValidateJudgment_def parseAssistantContentJSON_def unwrapJSONStringOnce_def Let_def
        split: sum.splits option.splits if_splits)
qed

lemma judge_attempts_ok:
  assumes "judge_attempts E c logical req n lastErr s = (s', r)"
  shows "gs_calls s \<le> gs_calls s' \<and> gs_calls s' \<le> gs_calls s + n
    \<and> (\<forall>resp. r = Inr resp \<longrightarrow> judgment_conforms (jr_output_schema req) (jp_judgment resp)
         \<and> jp_logical resp = logical \<and> gs_calls s < gs_calls s')
    \<and> (\<forall>d. r = Inl (ValidationError d) \<longrightarrow> gs_calls s' = gs_calls s + n)"
  using assms
proof (induction n arbitrary: lastErr s)
  case 0
  then show ?case by auto
next
  case (Suc n)
  obtain s1 e where ctx: "gateway_ctx E s = (s1, e)" by fastforce
  then have s1: "gs_calls s1 = gs_calls s" by (metis fst_conv gateway_ctx_calls)
  show ?case
  proof (cases e)
    case (Some e)
    then show ?thesis using Suc.prems ctx s1 by auto
  next
    case None
    obtain s2 o2 where call: "callChatCompletions E c logical (jr_messages req) s1 = (s2, o2)" by fastforce
    have s2: "gs_calls s1 \<le> gs_calls s2" "gs_calls s2 \<le> gs_calls s1 + 1" "is_ok o2 \<longrightarrow> gs_calls s2 = gs_calls s1 + 1"
      using callChatCompletions_calls [of s1 E c logical "jr_messages req"] call by simp_all
    show ?thesis
    proof (cases o2)
      case (Inl e)
      moreover have "\<not> (\<exists>d. e = ValidationError d)"
        using call Inl
        by (auto simp: callChatCompletions_def Let_def parseChatCompletionBody_def newChatCompletionsRequest_def
            classifyUpstreamStatus_def split: option.splits sum.splits list.splits if_splits)
      ultimately show ?thesis using Suc.prems ctx None call s1 s2 by auto
    next
      case o2: (Inr v)
      obtain served content where v: "v = (served, content)" by fastforce
      have n2: "gs_calls s2 = gs_calls s + 1" using s1 s2 o2 by (simp add: is_ok_def)
      show ?thesis
      proof (cases "extractAndValidateJudgment (gv_parse E) content (jr_output_schema req)")
        case (Inl e')
        then have "judge_attempts E c logical req n (Some e') s2 = (s', r)"
          using Suc.prems ctx None call o2 v by simp
        from Suc.IH [OF this] show ?thesis using n2 by auto
      next
        case (Inr j)
        then show ?thesis
          using Suc.prems ctx None call o2 v n2 extract_conforms [OF Inr] by auto
      qed
    qed
  qed
qed

text \<open>C36. Judge asks the server at most as often as attempts are configured, answers with a judgment that
  conforms to the requested schema, and reports a validation failure only when the schema is unusable (and
  then asks nothing) or every attempt was answered by a document that fails validation.\<close>

theorem judge_is_bounded_and_conforming:
  assumes "Judge E (Some c) req s = (s', r)"
  shows "gs_calls s' \<le> gs_calls s + nat (oc_attempts c)
    \<and> (\<forall>resp. r = Inr resp \<longrightarrow> judgment_conforms (jr_output_schema req) (jp_judgment resp) \<and> gs_calls s < gs_calls s')
    \<and> (\<forall>d. r = Inl (ValidationError d) \<longrightarrow>
        (if validateOutputSchema (jr_output_schema req) = None then gs_calls s' = gs_calls s + nat (oc_attempts c)
         else gs_calls s' = gs_calls s))"
proof -
  obtain s1 e where ctx: "gateway_ctx E s = (s1, e)" by fastforce
  then have s1: "gs_calls s1 = gs_calls s" by (metis fst_conv gateway_ctx_calls)
  show ?thesis
  proof (cases "e = None \<and> validateOutputSchema (jr_output_schema req) = None")
    case True
    then have "judge_attempts E c (resolveLogicalModel (jr_logical_model req) (oc_logicalModel c)) req
        (nat (oc_attempts c)) None s1 = (s', r)"
      using assms ctx by (simp add: Judge_def Let_def)
    from judge_attempts_ok [OF this] show ?thesis using s1 True by auto
  next
    case False
    then show ?thesis using assms ctx s1 by (auto simp: Judge_def Let_def split: option.splits)
  qed
qed

definition demo_cause :: cause where
  "demo_cause = \<lparr>ca_text = ''reset'', ca_canceled = False, ca_deadline = False\<rparr>"

definition demo_gateway :: gateway_env where
  "demo_gateway = \<lparr>gv_ctx = (\<lambda>_. None),
     gv_parse = (\<lambda>t. if t = ''body'' then Some (JObj [(''model'', JStr ''m''),
         (''choices'', JArr [JObj [(''message'', JObj [(''role'', JStr ''assistant''), (''content'', JStr ''answer'')])]])])
       else if t = ''answer'' then Some (JObj [(''judgment'', JStr ''unclear'')]) else None),
     gv_canonical = id, gv_new_request = (\<lambda>_. None),
     gv_do = (\<lambda>n req. if n = 0 then Inr (200, Inr ''body'') else Inl demo_cause)\<rparr>"

definition demo_client :: openai_client where
  "demo_client = \<lparr>oc_baseURL = ''http://m'', oc_logicalModel = ''coach'', oc_apiKey = ''k'', oc_authHeader = [],
     oc_extraHeaders = [], oc_httpClient = \<lparr>hc_is_default = False, hc_timeout = 1\<rparr>, oc_attempts = 2,
     oc_disableThinking = True\<rparr>"

definition demo_request :: judgment_request where
  "demo_request = \<lparr>jr_rubric_id = ''r'', jr_rubric_version = ''1'', jr_messages = [\<lparr>ms_role = ''user'', ms_content = ''q''\<rparr>],
     jr_output_schema = RawJson (JObj [(''required'', JArr [JStr ''judgment'']), (''properties'',
       JObj [(''judgment'', JObj [(''enum'', JArr [JStr ''unclear''])])])]), jr_logical_model = []\<rparr>"

lemma demo_judge:
  "Judge demo_gateway (Some demo_client) demo_request \<lparr>gs_checks = 0, gs_calls = 0\<rparr> =
     (\<lparr>gs_checks = 2, gs_calls = 1\<rparr>,
      Inr \<lparr>jp_judgment = RawJson (JObj [(''judgment'', JStr ''unclear'')]), jp_logical = ''coach'', jp_served = ''m''\<rparr>)"
  by code_simp

theorem judge_is_bounded_and_conforming_witness:
  "judgment_conforms (jr_output_schema demo_request) (RawJson (JObj [(''judgment'', JStr ''unclear'')]))"
  using judge_is_bounded_and_conforming [OF demo_judge] by simp

section \<open>The stub gateway\<close>

text \<open>
  The matches of \<open>(?m)(?:^|\s)finding_ref:\s*(\S+)\<close>: the Boolean says whether the text
  starts a line.
\<close>

definition re_space :: "char \<Rightarrow> bool" where
  "re_space ch \<longleftrightarrow> (of_char ch :: nat) \<in> {9, 10, 12, 13, 32}"

definition finding_ref_label :: string where "finding_ref_label = ''finding_ref:''"

definition after_label :: "bool \<Rightarrow> string \<Rightarrow> string option" where
  "after_label bol s =
     (if bol \<and> has_prefix s finding_ref_label then Some (drop (length finding_ref_label) s)
      else (case s of
              [] \<Rightarrow> None
            | ch # t \<Rightarrow> if re_space ch \<and> has_prefix t finding_ref_label
                         then Some (drop (length finding_ref_label) t) else None))"

lemma after_label_shorter: "after_label bol s = Some rest \<Longrightarrow> length rest < length s"
proof -
  have n: "0 < length finding_ref_label" by (simp add: finding_ref_label_def)
  have "has_prefix t finding_ref_label \<Longrightarrow> length (drop (length finding_ref_label) t) < length t" for t
    using n by (cases t) (auto simp: has_prefix_def)
  then show "after_label bol s = Some rest \<Longrightarrow> length rest < length s"
    by (fastforce simp: after_label_def split: if_splits list.splits)
qed

function finding_refs :: "bool \<Rightarrow> string \<Rightarrow> string list" where
  "finding_refs bol s =
     (if s = [] then []
      else (case after_label bol s of
              None \<Rightarrow> finding_refs (of_char (hd s) = (10 :: nat)) (drop 1 s)
            | Some rest \<Rightarrow>
                let tail = dropWhile re_space rest;
                    r = takeWhile (\<lambda>ch. \<not> re_space ch) tail
                in if r = [] then finding_refs (of_char (hd s) = (10 :: nat)) (drop 1 s)
                   else r # finding_refs False (drop (length r) tail)))"
  by pat_completeness auto

termination
proof (relation "measure (\<lambda>(b, s). length s)", goal_cases)
  case (4 bol s rest tail r)
  have "length tail \<le> length rest" using 4(3) by (simp add: length_dropWhile_le)
  moreover have "length rest < length s" using 4(2) by (rule after_label_shorter)
  ultimately show ?case by simp
qed auto

declare finding_refs.simps [simp del]

definition appendUniqueFindingRefs :: "string list \<Rightarrow> string \<Rightarrow> string list" where
  "appendUniqueFindingRefs refs content =
     foldl (\<lambda>acc m. let r = trim_space m in if r = [] \<or> r \<in> set acc then acc else acc @ [r]) refs (finding_refs True content)"

definition extractFindingRefsFromMessages :: "message list \<Rightarrow> string list" where
  "extractFindingRefsFromMessages msgs = foldl (\<lambda>refs m. appendUniqueFindingRefs refs (ms_content m)) [] msgs"

definition batch_probe_ty :: gty where
  "batch_probe_ty = TyStruct [(''properties'', False, TyMap TyRaw)]"

definition type_probe_ty :: gty where
  "type_probe_ty = TyStruct [(''type'', False, TyString)]"

definition isBatchItemsOutputSchema :: "raw_message \<Rightarrow> bool" where
  "isBatchItemsOutputSchema schema \<longleftrightarrow>
     (case unmarshal batch_probe_ty schema of
        None \<Rightarrow> False
      | Some v \<Rightarrow>
          (case map_of (map_entries (struct_field 0 v)) ''items'' of
             Some (GRaw raw) \<Rightarrow>
               (case unmarshal type_probe_ty raw of
                  None \<Rightarrow> False
                | Some p \<Rightarrow> fold_name (gstring_of (struct_field 0 p)) = ''array'')
           | _ \<Rightarrow> False))"

definition judgment_object :: "string \<Rightarrow> string \<Rightarrow> string \<Rightarrow> (string \<times> json) list" where
  "judgment_object judgment rationale confidence =
     [(''judgment'', JStr judgment), (''rationale'', JStr rationale), (''confidence'', JStr confidence),
      (''suggested_focus'', JNull)]"

definition stubBatchJudgment :: "judgment_request \<Rightarrow> raw_message" where
  "stubBatchJudgment req =
     (let found = extractFindingRefsFromMessages (jr_messages req);
          refs = (if found = [] then [''stub-item-1''] else found)
      in RawJson (JObj [(''items'', JArr (map (\<lambda>r. JObj ((''finding_ref'', JStr r)
            # judgment_object ''acceptable'' (''stub: batch item for '' @ r) ''high'')) refs))]))"

definition stubJudgmentForRubric :: "string \<Rightarrow> raw_message option" where
  "stubJudgmentForRubric rubric =
     (if rubric = ''hidden_mutation'' \<or> rubric = ''hidden_mutation_contextualization''
      then Some (RawJson (JObj (judgment_object ''acceptable'' ''stub: no hidden mutation signals in fixture judgment'' ''high'')))
      else if rubric = ''change_cohesion''
      then Some (RawJson (JObj (judgment_object ''focused'' ''stub: change appears cohesive in fixture judgment'' ''medium'')))
      else None)"

definition stub_Judge :: "gateway_error option \<Rightarrow> cause option \<Rightarrow> judgment_request \<Rightarrow> gateway_error + judgment_response" where
  "stub_Judge judge_err ctx req =
     (case ctx of
        Some e \<Rightarrow> Inl (UnavailableError ''context done'' (Some e))
      | None \<Rightarrow>
     (case judge_err of
        Some e \<Rightarrow> Inl e
      | None \<Rightarrow>
          if isBatchItemsOutputSchema (jr_output_schema req)
          then Inr \<lparr>jp_judgment = stubBatchJudgment req, jp_logical = LogicalModelStub, jp_served = []\<rparr>
          else (case stubJudgmentForRubric (jr_rubric_id req) of
                  None \<Rightarrow> Inl (ValidationError (''unknown rubric_id: '' @ jr_rubric_id req))
                | Some j \<Rightarrow>
                    (case validateJudgmentJSON j (jr_output_schema req) of
                       Some e \<Rightarrow> Inl e
                     | None \<Rightarrow> Inr \<lparr>jp_judgment = j, jp_logical = LogicalModelStub, jp_served = []\<rparr>))))"

end
