(* ===== verification/RubricPacks.thy ===== *)
theory RubricPacks
  imports CoachStrings
begin

text \<open>
  Grouping findings into judgment packs and cutting source excerpts (internal/rubrics:
  pack.go, pack_greedy.go, pack_config.go, span.go).
\<close>

section \<open>Configuration\<close>

record pack_config =
  pk_MaxFindings :: int
  pk_MaxTokens :: int
  pk_AffinityMin :: int
  pk_WindowLines :: int

definition DefaultMaxFindingsPerJudgmentPack :: int where "DefaultMaxFindingsPerJudgmentPack = 4"

definition DefaultMaxJudgmentPromptTokens :: int where "DefaultMaxJudgmentPromptTokens = 3500"

definition DefaultJudgmentFileAffinityMinFindings :: int where "DefaultJudgmentFileAffinityMinFindings = 5"

definition DefaultEvidenceWindowLines :: int where "DefaultEvidenceWindowLines = 15"

definition ApplyPackConfigDefaults :: "pack_config \<Rightarrow> pack_config" where
  "ApplyPackConfigDefaults cfg =
     \<lparr>pk_MaxFindings = (if pk_MaxFindings cfg = 0 then DefaultMaxFindingsPerJudgmentPack else pk_MaxFindings cfg),
      pk_MaxTokens = (if pk_MaxTokens cfg = 0 then DefaultMaxJudgmentPromptTokens else pk_MaxTokens cfg),
      pk_AffinityMin = (if pk_AffinityMin cfg = 0 then DefaultJudgmentFileAffinityMinFindings else pk_AffinityMin cfg),
      pk_WindowLines = (if pk_WindowLines cfg = 0 then DefaultEvidenceWindowLines else pk_WindowLines cfg)\<rparr>"

section \<open>Candidates\<close>

record pack_candidate =
  kc_ref :: string
  kc_path :: string
  kc_row :: int
  kc_severity :: string
  kc_confidence :: string
  kc_payload :: string
  kc_evidence_chars :: int

type_synonym judgment_pack = "string list"

definition packPromptOverheadTokens :: int where "packPromptOverheadTokens = 64"

definition estimateCandidateTokens :: "pack_candidate \<Rightarrow> int" where
  "estimateCandidateTokens c =
     (let chars = int (length (kc_payload c)) + kc_evidence_chars c in
      if chars \<le> 0 then 0 else (chars + 3) div 4)"

section \<open>Greedy packs\<close>

definition flush :: "judgment_pack list \<Rightarrow> pack_candidate list \<Rightarrow> judgment_pack list" where
  "flush packs cur = (if cur = [] then packs else packs @ [map kc_ref cur])"

text \<open>The loop with its state: the pack being filled, its tokens, the packs so far.\<close>

fun packGreedy_loop ::
  "pack_config \<Rightarrow> pack_candidate list \<Rightarrow> pack_candidate list \<Rightarrow> int \<Rightarrow> judgment_pack list \<Rightarrow> judgment_pack list" where
  "packGreedy_loop cfg [] cur curTokens packs = flush packs cur"
| "packGreedy_loop cfg (c # cands) cur curTokens packs =
     (let itemTokens = estimateCandidateTokens c in
      if length cur = 0 then packGreedy_loop cfg cands [c] (curTokens + itemTokens) packs
      else if int (length cur) + 1 > pk_MaxFindings cfg \<or> curTokens + itemTokens > pk_MaxTokens cfg
      then packGreedy_loop cfg cands [c] (packPromptOverheadTokens + itemTokens) (flush packs cur)
      else packGreedy_loop cfg cands (cur @ [c]) (curTokens + itemTokens) packs)"

definition packGreedy :: "pack_candidate list \<Rightarrow> pack_config \<Rightarrow> judgment_pack list" where
  "packGreedy cands cfg =
     (if length cands = 0 then [] else packGreedy_loop cfg cands [] packPromptOverheadTokens [])"

definition cmp_candidate :: "pack_candidate \<Rightarrow> pack_candidate \<Rightarrow> int" where
  "cmp_candidate a b =
     cmp_or [cmp_compare (kc_path a) (kc_path b), cmp_compare (kc_row a) (kc_row b), cmp_compare (kc_ref a) (kc_ref b)]"

text \<open>The loop over the paths in first-seen order, with the packs so far and the mergeable candidates.\<close>

definition pathOrder :: "pack_candidate list \<Rightarrow> string list" where
  "pathOrder sorted_cands = foldl (\<lambda>ps c. if kc_path c \<in> set ps then ps else ps @ [kc_path c]) [] sorted_cands"

definition byPath :: "pack_candidate list \<Rightarrow> string \<Rightarrow> pack_candidate list" where
  "byPath cands path = filter (\<lambda>c. kc_path c = path) cands"

definition pack_path ::
  "pack_config \<Rightarrow> pack_candidate list \<Rightarrow> judgment_pack list \<times> pack_candidate list \<Rightarrow> string \<Rightarrow>
   judgment_pack list \<times> pack_candidate list" where
  "pack_path cfg sorted_cands acc path =
     (let g = byPath sorted_cands path in
      if int (length g) \<ge> pk_AffinityMin cfg then (fst acc @ packGreedy g cfg, snd acc)
      else (fst acc, snd acc @ g))"

definition PackJudgmentCandidates :: "pack_candidate list \<Rightarrow> pack_config \<Rightarrow> judgment_pack list" where
  "PackJudgmentCandidates cands cfg0 =
     (let cfg = ApplyPackConfigDefaults cfg0 in
      if length cands = 0 then []
      else
        let sorted_cands = stable_sort cmp_candidate cands;
            (packs, mergeable) = foldl (pack_path cfg sorted_cands) ([], []) (pathOrder sorted_cands)
        in if length mergeable > 0 then packs @ packGreedy mergeable cfg else packs)"

section \<open>Excerpts\<close>

fun split_on :: "char \<Rightarrow> string \<Rightarrow> string \<Rightarrow> string list" where
  "split_on sep [] acc = [rev acc]"
| "split_on sep (ch # s) acc = (if ch = sep then rev acc # split_on sep s [] else split_on sep s (ch # acc))"

definition newline :: char where "newline = CHR 0x0A"

definition splitContentLines :: "string \<Rightarrow> string list" where
  "splitContentLines content =
     (if content = [] then []
      else let lines = split_on newline content [] in
           if length lines > 0 \<and> lines ! (length lines - 1) = [] then butlast lines else lines)"

definition pad_left :: "nat \<Rightarrow> string \<Rightarrow> string" where
  "pad_left width s = replicate (width - length s) (CHR '' '') @ s"

definition window_bounds :: "nat \<Rightarrow> int \<Rightarrow> int \<Rightarrow> int \<times> int \<times> int" where
  "window_bounds n startRow0 radius =
     (let startRow = (if startRow0 < 0 then 0 else startRow0);
          startRow = (if startRow \<ge> int n then int n - 1 else startRow);
          lo = (if startRow - radius < 0 then 0 else startRow - radius);
          hi = (if startRow + radius \<ge> int n then int n - 1 else startRow + radius)
      in (startRow, lo, hi))"

definition FormatSpanWindow :: "string \<Rightarrow> int \<Rightarrow> int \<Rightarrow> string" where
  "FormatSpanWindow content startRow0 radius0 =
     (let radius = (if radius0 \<le> 0 then DefaultEvidenceWindowLines else radius0);
          lines = splitContentLines content
      in if length lines = 0 then []
         else
           let (startRow, lo, hi) = window_bounds (length lines) startRow0 radius;
               width = length (itoa (hi + 1))
           in concat (map (\<lambda>i. (if i = startRow then ''>'' else '' '') @ '' '' @ pad_left width (itoa (i + 1)) @ ''|''
                        @ lines ! nat i @ [newline]) [lo..hi]))"

section \<open>What a packing is\<close>

definition pack_tokens :: "pack_candidate list \<Rightarrow> int" where
  "pack_tokens g = packPromptOverheadTokens + (\<Sum>c\<leftarrow>g. estimateCandidateTokens c)"

text \<open>A pack is within both caps unless it is a single candidate.\<close>

definition fits :: "pack_config \<Rightarrow> pack_candidate list \<Rightarrow> bool" where
  "fits cfg g \<longleftrightarrow> g \<noteq> [] \<and>
     (length g = 1 \<or> int (length g) \<le> pk_MaxFindings cfg \<and> pack_tokens g \<le> pk_MaxTokens cfg)"

definition dedicated :: "pack_config \<Rightarrow> pack_candidate list \<Rightarrow> string \<Rightarrow> bool" where
  "dedicated cfg cands path \<longleftrightarrow> pk_AffinityMin cfg \<le> int (length (byPath cands path))"

text \<open>A path with enough findings shares no pack with another path.\<close>

definition respects_paths :: "pack_config \<Rightarrow> pack_candidate list \<Rightarrow> pack_candidate list \<Rightarrow> bool" where
  "respects_paths cfg cands g \<longleftrightarrow>
     (\<forall>c\<in>set g. dedicated cfg cands (kc_path c) \<longrightarrow> (\<forall>d\<in>set g. kc_path d = kc_path c))"

definition is_packing :: "pack_config \<Rightarrow> pack_candidate list \<Rightarrow> pack_candidate list list \<Rightarrow> bool" where
  "is_packing cfg cands gs \<longleftrightarrow>
     mset (concat gs) = mset cands \<and> (\<forall>g\<in>set gs. fits cfg g \<and> respects_paths cfg cands g)"

lemma packGreedy_loop_packs:
  assumes "cur \<noteq> [] \<longrightarrow> fits cfg cur" "tok = pack_tokens cur"
  shows "\<exists>gs. packGreedy_loop cfg cands cur tok packs = packs @ map (map kc_ref) gs
    \<and> concat gs = cur @ cands \<and> (\<forall>g\<in>set gs. fits cfg g)"
  using assms
proof (induction cands arbitrary: cur tok packs)
  case Nil
  then show ?case
    by (cases "cur = []") (auto simp: flush_def intro: exI [of _ "[]"] exI [of _ "[cur]"])
next
  case (Cons c cands)
  let ?item = "estimateCandidateTokens c"
  have single: "fits cfg [c]" "pack_tokens [c] = packPromptOverheadTokens + ?item"
    by (simp_all add: fits_def pack_tokens_def)
  consider (start) "cur = []"
    | (full) "cur \<noteq> []" "int (length cur) + 1 > pk_MaxFindings cfg \<or> tok + ?item > pk_MaxTokens cfg"
    | (room) "cur \<noteq> []" "\<not> (int (length cur) + 1 > pk_MaxFindings cfg \<or> tok + ?item > pk_MaxTokens cfg)"
    by blast
  then show ?case
  proof cases
    case start
    then show ?thesis
      using Cons.IH [of "[c]" "tok + ?item" packs] Cons.prems single by (simp add: pack_tokens_def)
  next
    case full
    obtain gs where gs: "packGreedy_loop cfg cands [c] (packPromptOverheadTokens + ?item) (flush packs cur) =
        flush packs cur @ map (map kc_ref) gs" "concat gs = c # cands" "\<forall>g\<in>set gs. fits cfg g"
      using Cons.IH [of "[c]" "packPromptOverheadTokens + ?item" "flush packs cur"] single by auto
    then show ?thesis
      using full Cons.prems by (intro exI [of _ "cur # gs"]) (auto simp: flush_def Let_def)
  next
    case room
    have "fits cfg (cur @ [c])" "tok + ?item = pack_tokens (cur @ [c])"
      using room Cons.prems by (auto simp: fits_def pack_tokens_def)
    then show ?thesis
      using Cons.IH [of "cur @ [c]" "tok + ?item" packs] room by (simp add: Let_def)
  qed
qed

lemma packGreedy_packs:
  "\<exists>gs. packGreedy cands cfg = map (map kc_ref) gs \<and> concat gs = cands \<and> (\<forall>g\<in>set gs. fits cfg g)"
  using packGreedy_loop_packs [of "[]" cfg packPromptOverheadTokens cands "[]"]
  by (auto simp: packGreedy_def pack_tokens_def)

lemma pathOrder_snoc:
  "foldl (\<lambda>ps c. if kc_path c \<in> set ps then ps else ps @ [kc_path c]) ps cs = rs \<Longrightarrow> distinct ps \<Longrightarrow>
   distinct rs \<and> set rs = set ps \<union> kc_path ` set cs"
  by (induction cs arbitrary: ps) (auto split: if_splits)

lemma pathOrder: "distinct (pathOrder cs)" "set (pathOrder cs) = kc_path ` set cs"
  using pathOrder_snoc [of "[]" cs "pathOrder cs"] by (simp_all add: pathOrder_def)

lemma pack_path_folds:
  assumes "distinct ps"
  shows "\<exists>gs ms. foldl (pack_path cfg cs) (packs, mergeable) ps = (packs @ map (map kc_ref) gs, mergeable @ ms)
    \<and> mset (concat gs) + mset ms = mset (filter (\<lambda>c. kc_path c \<in> set ps) cs)
    \<and> (\<forall>g\<in>set gs. fits cfg g \<and> (\<exists>p. \<forall>c\<in>set g. kc_path c = p)) \<and> (\<forall>c\<in>set ms. \<not> dedicated cfg cs (kc_path c))"
  using assms
proof (induction ps arbitrary: packs mergeable)
  case Nil
  then show ?case by (intro exI [of _ "[]"]) simp
next
  case (Cons p ps)
  have split: "mset (filter (\<lambda>c. kc_path c \<in> set (p # ps)) cs) =
      mset (byPath cs p) + mset (filter (\<lambda>c. kc_path c \<in> set ps) cs)"
    unfolding byPath_def using Cons.prems by (induction cs) auto
  have path: "\<forall>c\<in>set (byPath cs p). kc_path c = p" by (simp add: byPath_def)
  show ?case
  proof (cases "dedicated cfg cs p")
    case True
    obtain hs where hs: "packGreedy (byPath cs p) cfg = map (map kc_ref) hs" "concat hs = byPath cs p" "\<forall>g\<in>set hs. fits cfg g"
      using packGreedy_packs by blast
    obtain gs ms where IH: "foldl (pack_path cfg cs) (packs @ map (map kc_ref) hs, mergeable) ps =
        ((packs @ map (map kc_ref) hs) @ map (map kc_ref) gs, mergeable @ ms)"
      "mset (concat gs) + mset ms = mset (filter (\<lambda>c. kc_path c \<in> set ps) cs)"
      "\<forall>g\<in>set gs. fits cfg g \<and> (\<exists>p. \<forall>c\<in>set g. kc_path c = p)" "\<forall>c\<in>set ms. \<not> dedicated cfg cs (kc_path c)"
      using Cons.IH Cons.prems by fastforce
    have one: "\<exists>p. \<forall>c\<in>set g. kc_path c = p" if "g \<in> set hs" for g
    proof -
      have "set g \<subseteq> set (byPath cs p)" using that hs(2) by (metis UN_upper set_concat)
      then show ?thesis using path by blast
    qed
    have step: "pack_path cfg cs (packs, mergeable) p = (packs @ map (map kc_ref) hs, mergeable)"
      using True hs(1) by (simp add: pack_path_def dedicated_def Let_def)
    show ?thesis
      by (rule exI [of _ "hs @ gs"], rule exI [of _ ms]) (use step IH hs one split in \<open>auto simp: ac_simps\<close>)
  next
    case False
    obtain gs ms where IH: "foldl (pack_path cfg cs) (packs, mergeable @ byPath cs p) ps =
        (packs @ map (map kc_ref) gs, (mergeable @ byPath cs p) @ ms)"
      "mset (concat gs) + mset ms = mset (filter (\<lambda>c. kc_path c \<in> set ps) cs)"
      "\<forall>g\<in>set gs. fits cfg g \<and> (\<exists>p. \<forall>c\<in>set g. kc_path c = p)" "\<forall>c\<in>set ms. \<not> dedicated cfg cs (kc_path c)"
      using Cons.IH Cons.prems by fastforce
    have step: "pack_path cfg cs (packs, mergeable) p = (packs, mergeable @ byPath cs p)"
      using False by (simp add: pack_path_def dedicated_def Let_def)
    show ?thesis
      by (rule exI [of _ gs], rule exI [of _ "byPath cs p @ ms"])
        (use step IH False path split in \<open>auto simp: ac_simps\<close>)
  qed
qed

lemma packing_exists:
  "\<exists>gs. PackJudgmentCandidates cands cfg = map (map kc_ref) gs \<and> is_packing (ApplyPackConfigDefaults cfg) cands gs"
proof -
  let ?cfg = "ApplyPackConfigDefaults cfg" and ?cs = "stable_sort cmp_candidate cands"
  have count: "length (byPath ?cs p) = length (byPath cands p)" for p
    unfolding byPath_def by (metis mset_filter mset_stable_sort size_mset)
  then have ded: "dedicated ?cfg ?cs = dedicated ?cfg cands" by (simp add: dedicated_def fun_eq_iff)
  obtain gs ms where fold: "foldl (pack_path ?cfg ?cs) ([], []) (pathOrder ?cs) = (map (map kc_ref) gs, ms)"
    and parts: "mset (concat gs) + mset ms = mset (filter (\<lambda>c. kc_path c \<in> set (pathOrder ?cs)) ?cs)"
    and gs: "\<forall>g\<in>set gs. fits ?cfg g \<and> (\<exists>p. \<forall>c\<in>set g. kc_path c = p)" and ms: "\<forall>c\<in>set ms. \<not> dedicated ?cfg ?cs (kc_path c)"
    using pack_path_folds [OF pathOrder(1) [of ?cs], of ?cfg ?cs "[]" "[]"] by auto
  have all: "mset (concat gs) + mset ms = mset cands"
    using parts by (simp add: pathOrder(2) filter_True)
  obtain hs where hs: "packGreedy ms ?cfg = map (map kc_ref) hs" "concat hs = ms" "\<forall>g\<in>set hs. fits ?cfg g"
    using packGreedy_packs by blast
  have packing: "is_packing ?cfg cands (gs @ hs)"
  proof -
    have "respects_paths ?cfg cands g" if "g \<in> set gs" for g
      using gs that by (auto simp: respects_paths_def)
    moreover have "respects_paths ?cfg cands g" if "g \<in> set hs" for g
    proof -
      have "set g \<subseteq> set ms" using that hs(2) by auto
      then show ?thesis using ms ded by (auto simp: respects_paths_def)
    qed
    ultimately show ?thesis using all hs gs by (auto simp: is_packing_def)
  qed
  show ?thesis
  proof (cases "cands = []")
    case True
    then show ?thesis by (intro exI [of _ "[]"]) (simp add: PackJudgmentCandidates_def is_packing_def)
  next
    case False
    have "PackJudgmentCandidates cands cfg = map (map kc_ref) (gs @ hs)"
      using False fold hs by (cases "ms = []") (simp_all add: PackJudgmentCandidates_def Let_def packGreedy_def)
    then show ?thesis using packing by blast
  qed
qed

text \<open>Packing loses and repeats no finding; every pack is within the caps or a single finding, and a
  path with enough findings shares no pack with another.\<close>

theorem packs_partition_candidates:
  "\<exists>gs. PackJudgmentCandidates cands cfg = map (map kc_ref) gs \<and> is_packing (ApplyPackConfigDefaults cfg) cands gs"
  by (rule packing_exists)

text \<open>An excerpt holds the reported line and at most radius lines on each side, all in the file.\<close>

lemma window_bounds_within:
  assumes "0 < n" "0 < radius" "window_bounds n row radius = (start, lo, hi)"
  shows "0 \<le> lo \<and> lo \<le> start \<and> start \<le> hi \<and> hi < int n \<and> start - lo \<le> radius \<and> hi - start \<le> radius
    \<and> (0 \<le> row \<and> row < int n \<longrightarrow> start = row)"
  using assms by (auto simp: window_bounds_def Let_def split: if_splits)

end
