(* ===== verification/Rubrics.thy ===== *)
theory Rubrics
  imports AgentLoop ModelGateway RubricPacks
begin

text \<open>
  The judgment rubrics of internal/rubrics: definitions and output schemas, prompts, the
  run of one judgment with its degradation to a diagnostic, the answer to a pack of
  findings, tool results and their envelopes, and the tools on the agent loop.

  A tool handler's environment answers the reads of its context's error and the calls of
  the gateway, by handler invocation.  The indented text of a JSON message (json.Indent)
  is the argument \<open>indent\<close> of the prompts.
\<close>

section \<open>Definitions\<close>

definition IDHiddenMutationContextualization :: string where
  "IDHiddenMutationContextualization = ''hidden_mutation_contextualization''"

definition IDChangeCohesion :: string where
  "IDChangeCohesion = ''change_cohesion''"

definition Version1 :: string where "Version1 = ''1''"

record rubric_def =
  rd_id :: string
  rd_version :: string
  rd_schema :: raw_message

definition enum_prop :: "string list \<Rightarrow> json" where
  "enum_prop values = JObj [(''type'', JStr ''string''), (''enum'', JArr (map JStr values))]"

definition string_prop :: json where "string_prop = JObj [(''type'', JStr ''string'')]"

definition optional_prop :: json where
  "optional_prop = JObj [(''type'', JArr [JStr ''string'', JStr ''null''])]"

definition judgment_keys :: "string list" where
  "judgment_keys = [''judgment'', ''rationale'', ''confidence'', ''suggested_focus'']"

definition judgment_props :: "string list \<Rightarrow> (string \<times> json) list" where
  "judgment_props verdicts =
     [(''judgment'', enum_prop verdicts), (''rationale'', string_prop),
      (''confidence'', enum_prop [''high'', ''medium'', ''low'']), (''suggested_focus'', optional_prop)]"

definition object_schema :: "string list \<Rightarrow> (string \<times> json) list \<Rightarrow> json" where
  "object_schema required props =
     JObj [(''type'', JStr ''object''), (''required'', JArr (map JStr required)), (''properties'', JObj props)]"

definition schemaHiddenMutationV1 :: json where
  "schemaHiddenMutationV1 = object_schema judgment_keys (judgment_props [''concern'', ''acceptable'', ''unclear''])"

definition schemaChangeCohesionV1 :: json where
  "schemaChangeCohesionV1 = object_schema judgment_keys (judgment_props [''focused'', ''diffuse'', ''unclear''])"

definition schemaHiddenMutationBatchV1 :: json where
  "schemaHiddenMutationBatchV1 = object_schema [''items'']
     [(''items'', JObj [(''type'', JStr ''array''), (''items'', object_schema (''finding_ref'' # judgment_keys)
        ((''finding_ref'', string_prop) # judgment_props [''concern'', ''acceptable'', ''unclear'']))])]"

definition Seed :: "rubric_def list" where
  "Seed =
     [\<lparr>rd_id = IDHiddenMutationContextualization, rd_version = Version1, rd_schema = RawJson schemaHiddenMutationV1\<rparr>,
      \<lparr>rd_id = IDChangeCohesion, rd_version = Version1, rd_schema = RawJson schemaChangeCohesionV1\<rparr>]"

definition DefinitionByID :: "string \<Rightarrow> rubric_def option" where
  "DefinitionByID rid = find (\<lambda>d. rd_id d = rid) Seed"

record file_context =
  fc_Path :: string
  fc_Language :: string
  fc_Content :: string

record file_meta =
  fm_Path :: string
  fm_Language :: string

record rubric_diagnostic =
  rg_Scope :: string
  rg_Message :: string

record rubric_judgment =
  rj_RubricID :: string
  rj_RubricVersion :: string
  rj_ModelIdentity :: string
  rj_LogicalModelID :: string
  rj_ServedModelID :: string
  rj_JudgmentJSON :: raw_message

record rubric_result =
  rr_Judgment :: "rubric_judgment option"
  rr_Diagnostic :: "rubric_diagnostic option"

record tool_result =
  to_FindingRef :: string
  to_RubricID :: string
  to_RubricVersion :: string
  to_ModelIdentity :: "string option"
  to_LogicalModelID :: "string option"
  to_ServedModelID :: "string option"
  to_Judgment :: raw_message
  to_Diagnostic :: "rubric_diagnostic option"

record pack_item =
  pi_FindingRef :: string
  pi_Finding :: raw_message
  pi_File :: file_context

definition raw_empty_msg :: "raw_message \<Rightarrow> bool" where
  "raw_empty_msg raw \<longleftrightarrow> raw = RawNil \<or> raw = RawBad []"

definition HasJudgment :: "tool_result \<Rightarrow> bool" where
  "HasJudgment r \<longleftrightarrow> \<not> raw_empty_msg (to_Judgment r) \<and> to_Judgment r \<noteq> RawJson JNull"

definition diagnosticScope :: "string \<Rightarrow> string" where
  "diagnosticScope rubric = ''rubric:'' @ rubric"

definition FormatModelIdentity :: "string \<Rightarrow> string \<Rightarrow> string" where
  "FormatModelIdentity logical served =
     (if logical = [] then served
      else if served = [] \<or> served = logical then logical
      else logical @ ''/'' @ served)"

section \<open>Prompts\<close>

definition shortRationaleGuidance :: string where
  "shortRationaleGuidance = ''Keep each rationale short: at most 2 sentences and at most 400 characters.''"

definition lines_of :: "string list \<Rightarrow> string" where
  "lines_of ls = join_with [newline] ls"

definition hiddenMutationSystemPrompt :: string where
  "hiddenMutationSystemPrompt = lines_of
     [''You are a code-quality judge for the Coach platform.'',
      ''Evaluate one deterministic hidden_input_mutation finding in baseline file context.'',
      ''Question: Does the mutation hide input state in a way that will surprise a reviewer or complicate future changes?'',
      ''Distinguish benign constructor wiring from hidden state mutation.'',
      shortRationaleGuidance,
      ''Respond only with JSON matching the provided output schema.'',
      ''Do not modify, suppress, or restate deterministic findings as if they were yours to alter.'']"

definition hiddenMutationPackSystemPrompt :: string where
  "hiddenMutationPackSystemPrompt = lines_of
     [''You are a code-quality judge for the Coach platform.'',
      ''Evaluate multiple deterministic hidden_input_mutation findings in one batch.'',
      ''Question per item: Does the mutation hide input state in a way that will surprise a reviewer or complicate future changes?'',
      ''Distinguish benign constructor wiring from hidden state mutation.'',
      shortRationaleGuidance,
      ''Respond only with JSON matching the provided batch output schema (items array keyed by finding_ref).'',
      ''Do not modify, suppress, or restate deterministic findings as if they were yours to alter.'']"

definition changeCohesionSystemPrompt :: string where
  "changeCohesionSystemPrompt = lines_of
     [''You are a code-quality judge for the Coach platform.'',
      ''Evaluate whether deterministic findings and analyzed files form a cohesive unit of concern.'',
      ''Question (baseline): Do the analyzed files and findings cluster into coherent areas of concern, or is structural risk scattered across unrelated packages/modules?'',
      ''Flag tangled imports and cross-file coupling spikes in the snapshot.'',
      ''Respond only with JSON matching the provided output schema.'',
      ''Do not modify, suppress, or restate deterministic findings as if they were yours to alter.'']"

definition formatJSONEvidence :: "(raw_message \<Rightarrow> string) \<Rightarrow> raw_message \<Rightarrow> string" where
  "formatJSONEvidence indent raw = (if raw_empty_msg raw then ''null'' else indent raw)"

definition fence :: string where "fence = replicate 3 (CHR 0x60) @ [newline]"

definition fenced_content :: "string \<Rightarrow> string \<Rightarrow> string" where
  "fenced_content label content =
     (if content = [] then []
      else label @ [newline] @ fence @ content @ (if has_suffix content [newline] then [] else [newline]) @ fence)"

definition evidence_block :: "(raw_message \<Rightarrow> string) \<Rightarrow> string \<Rightarrow> raw_message \<Rightarrow> file_context \<Rightarrow> string" where
  "evidence_block indent label finding file =
     ''## Deterministic finding (hidden_input_mutation)'' @ [newline] @ formatJSONEvidence indent finding
     @ [newline, newline] @ ''## Baseline file context'' @ [newline]
     @ ''path: '' @ fc_Path file @ [newline] @ ''language: '' @ fc_Language file @ [newline]
     @ fenced_content label (fc_Content file)"

definition prompt_messages :: "string \<Rightarrow> string \<Rightarrow> message list" where
  "prompt_messages system user =
     [\<lparr>ms_role = ''system'', ms_content = system\<rparr>, \<lparr>ms_role = ''user'', ms_content = user\<rparr>]"

definition AssembleHiddenMutationMessages :: "(raw_message \<Rightarrow> string) \<Rightarrow> raw_message \<Rightarrow> file_context \<Rightarrow> message list" where
  "AssembleHiddenMutationMessages indent finding file =
     prompt_messages hiddenMutationSystemPrompt (evidence_block indent ''content:'' finding file)"

definition writeHiddenMutationItem :: "(raw_message \<Rightarrow> string) \<Rightarrow> pack_item \<Rightarrow> string" where
  "writeHiddenMutationItem indent it =
     [newline] @ ''### Item'' @ [newline] @ ''finding_ref: '' @ pi_FindingRef it @ [newline]
     @ evidence_block indent ''content (span window):'' (pi_Finding it) (pi_File it)"

definition AssembleHiddenMutationPackMessages :: "(raw_message \<Rightarrow> string) \<Rightarrow> pack_item list \<Rightarrow> message list" where
  "AssembleHiddenMutationPackMessages indent items =
     prompt_messages hiddenMutationPackSystemPrompt
       (''## Hidden-mutation judgment pack'' @ [newline]
        @ ''Judge each item independently. Map every input finding_ref to exactly one output item.'' @ [newline]
        @ shortRationaleGuidance @ [newline] @ concat (map (writeHiddenMutationItem indent) items))"

definition AssembleChangeCohesionMessages :: "(raw_message \<Rightarrow> string) \<Rightarrow> raw_message \<Rightarrow> file_meta list \<Rightarrow> message list" where
  "AssembleChangeCohesionMessages indent findings files =
     prompt_messages changeCohesionSystemPrompt
       (''## Deterministic findings'' @ [newline] @ formatJSONEvidence indent findings @ [newline, newline]
        @ ''## File metadata'' @ [newline]
        @ (if length files = 0 then ''(none)'' @ [newline]
           else concat (map (\<lambda>f. ''- path: '' @ fm_Path f @ '', language: '' @ fm_Language f @ [newline]) files)))"

section \<open>The batch envelope\<close>

record batch_item =
  bi_FindingRef :: string
  bi_Judgment :: string
  bi_Rationale :: string
  bi_Confidence :: string
  bi_SuggestedFocus :: raw_message

definition graw_of :: "gval \<Rightarrow> raw_message" where
  "graw_of v = (case v of GRaw r \<Rightarrow> r | _ \<Rightarrow> RawNil)"

definition batch_item_ty :: gty where
  "batch_item_ty = TyStruct [(''finding_ref'', False, TyString), (''judgment'', False, TyString),
     (''rationale'', False, TyString), (''confidence'', False, TyString), (''suggested_focus'', False, TyRaw)]"

definition batch_env_ty :: gty where
  "batch_env_ty = TyStruct [(''items'', False, TySlice batch_item_ty)]"

definition batch_item_of :: "gval \<Rightarrow> batch_item" where
  "batch_item_of v =
     \<lparr>bi_FindingRef = gstring_of (struct_field 0 v), bi_Judgment = gstring_of (struct_field 1 v),
      bi_Rationale = gstring_of (struct_field 2 v), bi_Confidence = gstring_of (struct_field 3 v),
      bi_SuggestedFocus = graw_of (struct_field 4 v)\<rparr>"

definition note_batch_item ::
  "(string \<rightharpoonup> batch_item) \<times> (string \<rightharpoonup> string) \<Rightarrow> batch_item \<Rightarrow> (string \<rightharpoonup> batch_item) \<times> (string \<rightharpoonup> string)" where
  "note_batch_item acc it =
     (case acc of
        (byRef, dup) \<Rightarrow>
          if bi_FindingRef it = [] then (byRef, dup)
          else if byRef (bi_FindingRef it) \<noteq> None
          then (byRef(bi_FindingRef it := None), dup(bi_FindingRef it \<mapsto> ''batch response has duplicate finding_ref''))
          else if dup (bi_FindingRef it) \<noteq> None then (byRef, dup)
          else (byRef(bi_FindingRef it \<mapsto> it), dup))"

definition batch_items :: "raw_message \<Rightarrow> batch_item list" where
  "batch_items raw =
     (case unmarshal batch_env_ty raw of
        None \<Rightarrow> []
      | Some v \<Rightarrow> map batch_item_of (elements (struct_field 0 v)))"

definition parseBatchItems :: "raw_message \<Rightarrow> (string \<rightharpoonup> batch_item) \<times> (string \<rightharpoonup> string)" where
  "parseBatchItems raw = foldl note_batch_item (Map.empty, Map.empty) (batch_items raw)"

definition validateBatchItem :: "batch_item \<Rightarrow> string option" where
  "validateBatchItem it =
     (if bi_Judgment it \<notin> {''concern'', ''acceptable'', ''unclear''}
      then Some ''schema validation failed: judgment value not in enum''
      else if bi_Confidence it \<notin> {''high'', ''medium'', ''low''}
      then Some ''schema validation failed: confidence value not in enum''
      else if trim_space (bi_Rationale it) = []
      then Some ''schema validation failed: rationale must be a non-empty string''
      else if raw_empty_msg (bi_SuggestedFocus it)
      then Some ''schema validation failed: missing required property: suggested_focus''
      else if bi_SuggestedFocus it \<noteq> RawJson JNull
        \<and> (case bi_SuggestedFocus it of RawJson j \<Rightarrow> decode_string [] j = None | _ \<Rightarrow> True)
      then Some ''schema validation failed: suggested_focus must be string or null''
      else None)"

text \<open>A failure to encode an item means that its focus is not valid JSON.\<close>

definition marshalBatchItemJudgment :: "batch_item \<Rightarrow> raw_message option" where
  "marshalBatchItemJudgment it =
     marshal (TyStruct [(''judgment'', False, TyString), (''rationale'', False, TyString),
        (''confidence'', False, TyString), (''suggested_focus'', False, TyRaw)])
       (GStruct [GString (bi_Judgment it), GString (bi_Rationale it), GString (bi_Confidence it),
         GRaw (bi_SuggestedFocus it)])"

definition packItemDiagnostic :: "rubric_def \<Rightarrow> string \<Rightarrow> string \<Rightarrow> tool_result" where
  "packItemDiagnostic d r msg =
     \<lparr>to_FindingRef = r, to_RubricID = rd_id d, to_RubricVersion = rd_version d, to_ModelIdentity = None,
      to_LogicalModelID = None, to_ServedModelID = None, to_Judgment = RawNil,
      to_Diagnostic = Some \<lparr>rg_Scope = diagnosticScope (rd_id d), rg_Message = msg\<rparr>\<rparr>"

definition served_model :: "string \<Rightarrow> string option" where
  "served_model served = (if served = [] then None else Some served)"

definition map_batch_ref ::
  "rubric_def \<Rightarrow> (string \<rightharpoonup> batch_item) \<Rightarrow> (string \<rightharpoonup> string) \<Rightarrow> judgment_response \<Rightarrow> string \<Rightarrow> tool_result" where
  "map_batch_ref d byRef parseDiags resp r =
     (case parseDiags r of
        Some msg \<Rightarrow> packItemDiagnostic d r msg
      | None \<Rightarrow>
     (case byRef r of
        None \<Rightarrow> packItemDiagnostic d r ''batch response missing finding_ref''
      | Some item \<Rightarrow>
     (case validateBatchItem item of
        Some e \<Rightarrow> packItemDiagnostic d r e
      | None \<Rightarrow>
     (case marshalBatchItemJudgment item of
        None \<Rightarrow> packItemDiagnostic d r ''failed to encode item judgment''
      | Some j \<Rightarrow>
          \<lparr>to_FindingRef = r, to_RubricID = rd_id d, to_RubricVersion = rd_version d,
           to_ModelIdentity = Some (FormatModelIdentity (jp_logical resp) (jp_served resp)),
           to_LogicalModelID = Some (jp_logical resp), to_ServedModelID = served_model (jp_served resp),
           to_Judgment = j, to_Diagnostic = None\<rparr>))))"

fun map_batch_refs ::
  "rubric_def \<Rightarrow> (string \<rightharpoonup> batch_item) \<Rightarrow> (string \<rightharpoonup> string) \<Rightarrow> judgment_response \<Rightarrow> string set \<Rightarrow> string list \<Rightarrow>
   tool_result list" where
  "map_batch_refs d byRef parseDiags resp seen [] = []"
| "map_batch_refs d byRef parseDiags resp seen (r # refs) =
     (if r = [] then map_batch_refs d byRef parseDiags resp seen refs
      else if r \<in> seen
      then packItemDiagnostic d r ''duplicate finding_ref in pack args'' # map_batch_refs d byRef parseDiags resp seen refs
      else map_batch_ref d byRef parseDiags resp r # map_batch_refs d byRef parseDiags resp (insert r seen) refs)"

definition mapBatchJudgmentToPackResult :: "rubric_def \<Rightarrow> string list \<Rightarrow> judgment_response \<Rightarrow> tool_result list" where
  "mapBatchJudgmentToPackResult d expectedRefs resp =
     (case parseBatchItems (jp_judgment resp) of
        (byRef, parseDiags) \<Rightarrow> map_batch_refs d byRef parseDiags resp {} expectedRefs)"

definition packResultsForGatewayDegrade :: "rubric_def \<Rightarrow> string list \<Rightarrow> rubric_result \<Rightarrow> tool_result list" where
  "packResultsForGatewayDegrade d refs r =
     (let msg = (case rr_Diagnostic r of
                   Some g \<Rightarrow> if rg_Message g \<noteq> [] then rg_Message g else ''judgment failed: empty result''
                 | None \<Rightarrow> ''judgment failed: empty result'')
      in map (\<lambda>x. packItemDiagnostic d x msg) refs)"

section \<open>Running one judgment\<close>

record rubric_env =
  rb_ctx :: "nat \<Rightarrow> nat \<Rightarrow> loop_error option"
  rb_judge :: "(nat \<Rightarrow> judgment_request \<Rightarrow> gateway_error + judgment_response) option"
  rb_indent :: "raw_message \<Rightarrow> string"

definition degrade :: "string \<Rightarrow> string \<Rightarrow> rubric_result" where
  "degrade rubric msg =
     \<lparr>rr_Judgment = None, rr_Diagnostic = Some \<lparr>rg_Scope = diagnosticScope rubric, rg_Message = msg\<rparr>\<rparr>"

definition degradeFromErr :: "string \<Rightarrow> gateway_error \<Rightarrow> rubric_result" where
  "degradeFromErr rubric e =
     (case e of
        ValidationError _ \<Rightarrow> degrade rubric (''schema validation failed: '' @ gateway_error_text e)
      | UnavailableError _ _ \<Rightarrow> degrade rubric (''model gateway unavailable: '' @ gateway_error_text e))"

definition isOpDeadlineExceeded :: "rubric_env \<Rightarrow> nat \<Rightarrow> bool" where
  "isOpDeadlineExceeded E n \<longleftrightarrow> rb_ctx E n 2 \<noteq> None \<and> err_is (rb_ctx E n 3) CtxDeadlineExceeded"

text \<open>A gateway error handed to the loop keeps what it wraps.\<close>

definition loop_error_of :: "gateway_error \<Rightarrow> loop_error" where
  "loop_error_of e =
     (if wraps_deadline e then WrappedError (gateway_error_text e) CtxDeadlineExceeded
      else OtherError (gateway_error_text e))"

text \<open>
  The call of the gateway in invocation n: an abort or wall-budget error for the caller,
  an error to degrade, or the response.
\<close>

definition judge_call ::
  "rubric_env \<Rightarrow> (nat \<Rightarrow> judgment_request \<Rightarrow> gateway_error + judgment_response) \<Rightarrow> nat \<Rightarrow> judgment_request \<Rightarrow>
   loop_error + (gateway_error + judgment_response)" where
  "judge_call E gw n req =
     (case gw n req of
        Inl e \<Rightarrow>
          if wraps_cancel e \<or> err_is (rb_ctx E n 1) CtxCanceled then Inl CtxCanceled
          else if isOpDeadlineExceeded E n then Inl (loop_error_of e)
          else Inr (Inl e)
      | Inr resp \<Rightarrow> if err_is (rb_ctx E n 1) CtxCanceled then Inl CtxCanceled else Inr (Inr resp))"

definition Run :: "rubric_env \<Rightarrow> nat \<Rightarrow> rubric_def \<Rightarrow> message list \<Rightarrow> loop_error + rubric_result" where
  "Run E n d msgs =
     (if err_is (rb_ctx E n 0) CtxCanceled then Inl CtxCanceled
      else if rd_id d = [] then Inr (degrade ''unknown'' ''rubric definition id is required'')
      else (case rb_judge E of
              None \<Rightarrow> Inr (degrade (rd_id d) ''model gateway is nil'')
            | Some gw \<Rightarrow>
                (case judge_call E gw n \<lparr>jr_rubric_id = rd_id d, jr_rubric_version = rd_version d, jr_messages = msgs,
                        jr_output_schema = rd_schema d, jr_logical_model = []\<rparr> of
                   Inl e \<Rightarrow> Inl e
                 | Inr (Inl e) \<Rightarrow> Inr (degradeFromErr (rd_id d) e)
                 | Inr (Inr resp) \<Rightarrow>
                     Inr \<lparr>rr_Judgment = Some
                            \<lparr>rj_RubricID = rd_id d, rj_RubricVersion = rd_version d,
                             rj_ModelIdentity = FormatModelIdentity (jp_logical resp) (jp_served resp),
                             rj_LogicalModelID = jp_logical resp, rj_ServedModelID = jp_served resp,
                             rj_JudgmentJSON = jp_judgment resp\<rparr>,
                          rr_Diagnostic = None\<rparr>)))"

section \<open>Tool results\<close>

definition diagnostic_ty :: gty where
  "diagnostic_ty = TyStruct [(''scope'', False, TyString), (''message'', False, TyString)]"

definition tool_result_ty :: gty where
  "tool_result_ty = TyStruct [(''finding_ref'', True, TyString), (''rubric_id'', False, TyString),
     (''rubric_version'', False, TyString), (''model_identity'', False, TyPtr TyString),
     (''logical_model_id'', True, TyPtr TyString), (''served_model_id'', True, TyPtr TyString),
     (''judgment'', False, TyRaw), (''diagnostic'', False, TyPtr diagnostic_ty)]"

definition pack_result_ty :: gty where
  "pack_result_ty = TyStruct [(''results'', False, TySlice tool_result_ty)]"

definition gptr :: "('a \<Rightarrow> gval) \<Rightarrow> 'a option \<Rightarrow> gval" where
  "gptr f x = (case x of None \<Rightarrow> GNil | Some v \<Rightarrow> GPtr (f v))"

definition gptr_of :: "(gval \<Rightarrow> 'a) \<Rightarrow> gval \<Rightarrow> 'a option" where
  "gptr_of f v = (case v of GPtr w \<Rightarrow> Some (f w) | _ \<Rightarrow> None)"

definition diagnostic_val :: "rubric_diagnostic \<Rightarrow> gval" where
  "diagnostic_val g = GStruct [GString (rg_Scope g), GString (rg_Message g)]"

definition diagnostic_of :: "gval \<Rightarrow> rubric_diagnostic" where
  "diagnostic_of v = \<lparr>rg_Scope = gstring_of (struct_field 0 v), rg_Message = gstring_of (struct_field 1 v)\<rparr>"

text \<open>The wire struct of marshalToolResult: an absent judgment is written as null.\<close>

definition tool_result_val :: "tool_result \<Rightarrow> gval" where
  "tool_result_val r =
     GStruct [GString (to_FindingRef r), GString (to_RubricID r), GString (to_RubricVersion r),
       gptr GString (to_ModelIdentity r), gptr GString (to_LogicalModelID r), gptr GString (to_ServedModelID r),
       GRaw (if raw_empty_msg (to_Judgment r) then RawJson JNull else to_Judgment r),
       gptr diagnostic_val (to_Diagnostic r)]"

definition tool_result_of :: "gval \<Rightarrow> tool_result" where
  "tool_result_of v =
     \<lparr>to_FindingRef = gstring_of (struct_field 0 v), to_RubricID = gstring_of (struct_field 1 v),
      to_RubricVersion = gstring_of (struct_field 2 v), to_ModelIdentity = gptr_of gstring_of (struct_field 3 v),
      to_LogicalModelID = gptr_of gstring_of (struct_field 4 v), to_ServedModelID = gptr_of gstring_of (struct_field 5 v),
      to_Judgment = graw_of (struct_field 6 v), to_Diagnostic = gptr_of diagnostic_of (struct_field 7 v)\<rparr>"

definition marshalToolResult :: "tool_result \<Rightarrow> raw_message option" where
  "marshalToolResult r = marshal tool_result_ty (tool_result_val r)"

definition marshalToolPackResult :: "tool_result list \<Rightarrow> raw_message option" where
  "marshalToolPackResult results = marshal pack_result_ty (GStruct [GSlice (map tool_result_val results)])"

definition parseToolResult :: "raw_message \<Rightarrow> tool_result option" where
  "parseToolResult raw = map_option tool_result_of (unmarshal tool_result_ty raw)"

definition IsToolPackResult :: "raw_message \<Rightarrow> bool" where
  "IsToolPackResult raw \<longleftrightarrow>
     (case unmarshal (TyStruct [(''results'', False, TyRaw)]) raw of
        None \<Rightarrow> False
      | Some v \<Rightarrow> unmarshal (TySlice TyRaw) (graw_of (struct_field 0 v)) \<noteq> None)"

definition ParseToolPackResult :: "raw_message \<Rightarrow> string + tool_result list" where
  "ParseToolPackResult raw =
     (if \<not> IsToolPackResult raw then Inl ''rubrics: not a tool pack result envelope''
      else (case unmarshal pack_result_ty raw of
              None \<Rightarrow> Inl ''rubrics: decoding tool pack result''
            | Some v \<Rightarrow> Inr (map tool_result_of (elements (struct_field 0 v)))))"

definition toolResultFromRun :: "rubric_def \<Rightarrow> rubric_result \<Rightarrow> tool_result" where
  "toolResultFromRun d r =
     (let out = \<lparr>to_FindingRef = [], to_RubricID = rd_id d, to_RubricVersion = rd_version d, to_ModelIdentity = None,
                 to_LogicalModelID = None, to_ServedModelID = None, to_Judgment = RawNil, to_Diagnostic = None\<rparr>
      in case rr_Diagnostic r of
           Some g \<Rightarrow> out\<lparr>to_Diagnostic := Some g\<rparr>
         | None \<Rightarrow>
             (case rr_Judgment r of
                None \<Rightarrow> out\<lparr>to_Diagnostic := Some \<lparr>rg_Scope = diagnosticScope (rd_id d),
                                                    rg_Message = ''judgment failed: empty result''\<rparr>\<rparr>
              | Some j \<Rightarrow>
                  out\<lparr>to_ModelIdentity := Some (rj_ModelIdentity j), to_LogicalModelID := Some (rj_LogicalModelID j),
                      to_ServedModelID := served_model (rj_ServedModelID j), to_Judgment := rj_JudgmentJSON j\<rparr>))"

section \<open>Tools\<close>

text \<open>The messages of the loop and the raw messages of encoding/json.\<close>

definition to_raw :: "json raw_doc \<Rightarrow> raw_message" where
  "to_raw m = (case m of NilMsg \<Rightarrow> RawNil | EmptyMsg \<Rightarrow> RawBad [] | Malformed \<Rightarrow> RawBad ''?'' | Doc j \<Rightarrow> RawJson j)"

definition of_raw :: "raw_message \<Rightarrow> json raw_doc" where
  "of_raw raw = (case raw of RawNil \<Rightarrow> NilMsg | RawBad s \<Rightarrow> if s = [] then EmptyMsg else Malformed | RawJson j \<Rightarrow> Doc j)"

definition file_context_ty :: gty where
  "file_context_ty = TyStruct [(''path'', False, TyString), (''language'', False, TyString), (''content'', True, TyString)]"

definition pack_item_ty :: gty where
  "pack_item_ty = TyStruct [(''finding_ref'', False, TyString), (''finding'', False, TyRaw), (''file'', False, file_context_ty)]"

definition hidden_args_ty :: gty where
  "hidden_args_ty = TyStruct [(''finding'', False, TyRaw), (''file'', False, file_context_ty),
     (''items'', False, TySlice pack_item_ty)]"

definition file_context_of :: "gval \<Rightarrow> file_context" where
  "file_context_of v = \<lparr>fc_Path = gstring_of (struct_field 0 v), fc_Language = gstring_of (struct_field 1 v),
     fc_Content = gstring_of (struct_field 2 v)\<rparr>"

definition file_context_val :: "file_context \<Rightarrow> gval" where
  "file_context_val f = GStruct [GString (fc_Path f), GString (fc_Language f), GString (fc_Content f)]"

definition pack_item_of :: "gval \<Rightarrow> pack_item" where
  "pack_item_of v = \<lparr>pi_FindingRef = gstring_of (struct_field 0 v), pi_Finding = graw_of (struct_field 1 v),
     pi_File = file_context_of (struct_field 2 v)\<rparr>"

definition pack_item_val :: "pack_item \<Rightarrow> gval" where
  "pack_item_val it = GStruct [GString (pi_FindingRef it), GRaw (pi_Finding it), file_context_val (pi_File it)]"

record hidden_args =
  ha_Finding :: raw_message
  ha_File :: file_context
  ha_Items :: "pack_item list"

text \<open>errors.Is with agentloop.ErrInvalidArgs, whose detail here is a text.\<close>

definition invalid_args :: "string \<Rightarrow> loop_error" where
  "invalid_args detail = WrappedError (''agentloop: invalid tool arguments: '' @ detail) (ErrInvalidArgs ArgsNotJSON)"

fun validateHiddenMutationItems :: "nat \<Rightarrow> pack_item list \<Rightarrow> loop_error option" where
  "validateHiddenMutationItems i [] = None"
| "validateHiddenMutationItems i (it # items) =
     (if pi_FindingRef it = [] then Some (invalid_args (''items['' @ itoa (int i) @ ''].finding_ref is required''))
      else if raw_empty_msg (pi_Finding it)
      then Some (invalid_args (''items['' @ itoa (int i) @ ''].finding is required''))
      else validateHiddenMutationItems (i + 1) items)"

definition parseHiddenMutationArgs :: "raw_message \<Rightarrow> loop_error + hidden_args" where
  "parseHiddenMutationArgs args =
     (case unmarshal hidden_args_ty args of
        None \<Rightarrow> Inl (invalid_args ''decoding'')
      | Some v \<Rightarrow>
          let items = map pack_item_of (elements (struct_field 2 v));
              finding = graw_of (struct_field 0 v)
          in if length items > 0
             then (case validateHiddenMutationItems 0 items of
                     Some e \<Rightarrow> Inl e
                   | None \<Rightarrow> Inr \<lparr>ha_Finding = RawNil, ha_File = \<lparr>fc_Path = [], fc_Language = [], fc_Content = []\<rparr>,
                                 ha_Items = items\<rparr>)
             else if raw_empty_msg finding then Inl (invalid_args ''finding or items is required'')
             else Inr \<lparr>ha_Finding = finding, ha_File = file_context_of (struct_field 1 v), ha_Items = []\<rparr>)"

definition packRefs :: "pack_item list \<Rightarrow> string list" where
  "packRefs items = map pi_FindingRef items"

text \<open>A handler's answer: json.Marshal fails only on a judgment that is not valid JSON.\<close>

definition tool_answer :: "raw_message option \<Rightarrow> json raw_doc \<times> loop_error option" where
  "tool_answer raw = (case raw of None \<Rightarrow> (NilMsg, Some MarshalFailed) | Some r \<Rightarrow> (of_raw r, None))"

definition runHiddenMutationPack ::
  "rubric_env \<Rightarrow> nat \<Rightarrow> rubric_def \<Rightarrow> pack_item list \<Rightarrow> json raw_doc \<times> loop_error option" where
  "runHiddenMutationPack E n d items =
     (if err_is (rb_ctx E n 0) CtxCanceled then (NilMsg, Some CtxCanceled)
      else
        let refs = packRefs items in
        case rb_judge E of
          None \<Rightarrow> tool_answer (marshalToolPackResult (packResultsForGatewayDegrade d refs (degrade (rd_id d) ''model gateway is nil'')))
        | Some gw \<Rightarrow>
            (case judge_call E gw n \<lparr>jr_rubric_id = rd_id d, jr_rubric_version = rd_version d,
                    jr_messages = AssembleHiddenMutationPackMessages (rb_indent E) items,
                    jr_output_schema = RawJson schemaHiddenMutationBatchV1, jr_logical_model = []\<rparr> of
               Inl e \<Rightarrow> (NilMsg, Some e)
             | Inr (Inl e) \<Rightarrow> tool_answer (marshalToolPackResult (packResultsForGatewayDegrade d refs (degradeFromErr (rd_id d) e)))
             | Inr (Inr resp) \<Rightarrow> tool_answer (marshalToolPackResult (mapBatchJudgmentToPackResult d refs resp))))"

definition hiddenMutationToolHandler :: "rubric_env \<Rightarrow> rubric_def \<Rightarrow> tool_handler" where
  "hiddenMutationToolHandler E d n args =
     (case parseHiddenMutationArgs (to_raw args) of
        Inl e \<Rightarrow> (NilMsg, Some e)
      | Inr inp \<Rightarrow>
          if length (ha_Items inp) \<ge> 2 then runHiddenMutationPack E n d (ha_Items inp)
          else
            let msgs = (case ha_Items inp of
                          it # _ \<Rightarrow> AssembleHiddenMutationMessages (rb_indent E) (pi_Finding it) (pi_File it)
                        | [] \<Rightarrow> AssembleHiddenMutationMessages (rb_indent E) (ha_Finding inp) (ha_File inp))
            in case Run E n d msgs of
                 Inl e \<Rightarrow> (NilMsg, Some e)
               | Inr result \<Rightarrow>
                   let tr = toolResultFromRun d result;
                       tr1 = (case ha_Items inp of it # _ \<Rightarrow> tr\<lparr>to_FindingRef := pi_FindingRef it\<rparr> | [] \<Rightarrow> tr)
                   in tool_answer (marshalToolResult tr1))"

definition cohesion_args_ty :: gty where
  "cohesion_args_ty = TyStruct [(''findings'', False, TyRaw),
     (''files'', False, TySlice (TyStruct [(''path'', False, TyString), (''language'', False, TyString)]))]"

definition assembleChangeCohesionArgs :: "rubric_env \<Rightarrow> raw_message \<Rightarrow> loop_error + message list" where
  "assembleChangeCohesionArgs E args =
     (case unmarshal cohesion_args_ty args of
        None \<Rightarrow> Inl (invalid_args ''decoding'')
      | Some v \<Rightarrow> Inr (AssembleChangeCohesionMessages (rb_indent E) (graw_of (struct_field 0 v))
          (map (\<lambda>f. \<lparr>fm_Path = gstring_of (struct_field 0 f), fm_Language = gstring_of (struct_field 1 f)\<rparr>)
            (elements (struct_field 1 v)))))"

definition changeCohesionToolHandler :: "rubric_env \<Rightarrow> rubric_def \<Rightarrow> tool_handler" where
  "changeCohesionToolHandler E d n args =
     (case assembleChangeCohesionArgs E (to_raw args) of
        Inl e \<Rightarrow> (NilMsg, Some e)
      | Inr msgs \<Rightarrow>
          (case Run E n d msgs of
             Inl e \<Rightarrow> (NilMsg, Some e)
           | Inr result \<Rightarrow> tool_answer (marshalToolResult (toolResultFromRun d result))))"

definition path_object :: "string list \<Rightarrow> args_schema" where
  "path_object names = ArgsSchema ''object'' [''path''] (map (\<lambda>n. (n, typed ''string'')) names) None"

text \<open>A property that is an object: only its type is checked by the loop.\<close>

definition hiddenMutationArgsSchema :: args_schema where
  "hiddenMutationArgsSchema = ArgsSchema ''object'' []
     [(''finding'', typed ''object''), (''file'', typed ''object''),
      (''items'', PropSchema [''array''] (Some (ArgsSchema ''object'' [''finding_ref'', ''finding'', ''file'']
         [(''finding_ref'', typed ''string''), (''finding'', typed ''object''), (''file'', typed ''object'')] None)))] None"

definition changeCohesionArgsSchema :: args_schema where
  "changeCohesionArgsSchema = ArgsSchema ''object'' [''findings'', ''files'']
     [(''findings'', typed ''array''), (''files'', PropSchema [''array''] (Some (path_object [''path'', ''language''])))] None"

definition seedJudgmentTool :: "rubric_env \<Rightarrow> string \<Rightarrow> string + tool_spec" where
  "seedJudgmentTool E rid =
     (case DefinitionByID rid of
        None \<Rightarrow> Inl (''rubrics: missing seed definition '' @ rid)
      | Some d \<Rightarrow>
          Inr (if rid = IDHiddenMutationContextualization
               then \<lparr>ts_name = rid, ts_schema = Doc hiddenMutationArgsSchema, ts_handler = Some (hiddenMutationToolHandler E d)\<rparr>
               else \<lparr>ts_name = rid, ts_schema = Doc changeCohesionArgsSchema, ts_handler = Some (changeCohesionToolHandler E d)\<rparr>))"

fun collect_specs :: "rubric_env \<Rightarrow> string list \<Rightarrow> tool_spec list \<Rightarrow> string + tool_spec list" where
  "collect_specs E [] out = Inr out"
| "collect_specs E (rid # rids) out =
     (case seedJudgmentTool E rid of Inl e \<Rightarrow> Inl e | Inr spec \<Rightarrow> collect_specs E rids (out @ [spec]))"

definition ToolSpecs :: "rubric_env \<Rightarrow> string + tool_spec list" where
  "ToolSpecs E =
     (if rb_judge E = None then Inl ''rubrics: gateway is required''
      else collect_specs E [IDHiddenMutationContextualization, IDChangeCohesion] [])"

fun register_all :: "default_handlers \<Rightarrow> tool_spec list \<Rightarrow> agent_loop \<Rightarrow> agent_loop \<times> loop_error option" where
  "register_all D [] l = (l, None)"
| "register_all D (spec # specs) l =
     (case Register D spec l of (l1, Some e) \<Rightarrow> (l1, Some e) | (l1, None) \<Rightarrow> register_all D specs l1)"

definition RegisterTools :: "default_handlers \<Rightarrow> rubric_env \<Rightarrow> agent_loop \<Rightarrow> agent_loop \<times> loop_error option" where
  "RegisterTools D E l =
     (case ToolSpecs E of
        Inl e \<Rightarrow> (l, Some (OtherError e))
      | Inr specs \<Rightarrow> register_all D specs l)"

section \<open>The answer to a pack\<close>

definition items_for :: "batch_item list \<Rightarrow> string \<Rightarrow> batch_item list" where
  "items_for items r = filter (\<lambda>it. bi_FindingRef it = r) items"

lemma note_batch_items:
  assumes "foldl note_batch_item (Map.empty, Map.empty) items = (byRef, dup)" "r \<noteq> []"
  shows "byRef r = (case items_for items r of [it] \<Rightarrow> Some it | _ \<Rightarrow> None)
    \<and> (dup r \<noteq> None \<longleftrightarrow> 2 \<le> length (items_for items r))"
  using assms(1)
proof (induction items arbitrary: byRef dup rule: rev_induct)
  case Nil
  then show ?case by (auto simp: items_for_def)
next
  case (snoc it items)
  obtain b0 d0 where f: "foldl note_batch_item (Map.empty, Map.empty) items = (b0, d0)" by fastforce
  have step: "note_batch_item (b0, d0) it = (byRef, dup)" using snoc.prems f by simp
  have IH: "b0 r = (case items_for items r of [it] \<Rightarrow> Some it | _ \<Rightarrow> None)"
    "d0 r \<noteq> None \<longleftrightarrow> 2 \<le> length (items_for items r)" using snoc.IH [OF f] by auto
  show ?case
  proof (cases "bi_FindingRef it = r")
    case False
    then have "items_for (items @ [it]) r = items_for items r" by (simp add: items_for_def)
    moreover have "byRef r = b0 r" "dup r = d0 r"
      using step False by (auto simp: note_batch_item_def split: if_splits)
    ultimately show ?thesis using IH by simp
  next
    case True
    have app: "items_for (items @ [it]) r = items_for items r @ [it]" using True by (simp add: items_for_def)
    consider (none) "items_for items r = []" | (one) x where "items_for items r = [x]"
      | (more) x y zs where "items_for items r = x # y # zs" by (metis list.exhaust)
    then show ?thesis
    proof cases
      case none
      then show ?thesis using step IH True assms(2) app by (auto simp: note_batch_item_def split: if_splits)
    next
      case one
      then show ?thesis using step IH True assms(2) app by (auto simp: note_batch_item_def split: if_splits)
    next
      case more
      then have "b0 r = None" "d0 r \<noteq> None" using IH by simp_all
      then show ?thesis using step True assms(2) app more by (auto simp: note_batch_item_def split: if_splits)
    qed
  qed
qed

text \<open>A finding is judged when the response has exactly one item for it and that item is valid.\<close>

definition judged_item :: "raw_message \<Rightarrow> string \<Rightarrow> batch_item option" where
  "judged_item raw r =
     (case items_for (batch_items raw) r of
        [it] \<Rightarrow> if validateBatchItem it = None then Some it else None
      | _ \<Rightarrow> None)"

lemma parseBatchItems_refs:
  assumes "parseBatchItems raw = (byRef, dup)" "r \<noteq> []"
  shows "byRef r = (case items_for (batch_items raw) r of [it] \<Rightarrow> Some it | _ \<Rightarrow> None)
    \<and> (dup r \<noteq> None \<longleftrightarrow> 2 \<le> length (items_for (batch_items raw) r))"
  by (rule note_batch_items) (use assms in \<open>simp_all add: parseBatchItems_def\<close>)

definition answers :: "judgment_response \<Rightarrow> rubric_def \<Rightarrow> string \<Rightarrow> batch_item option \<Rightarrow> tool_result \<Rightarrow> bool" where
  "answers resp d r item tr \<longleftrightarrow> to_FindingRef tr = r \<and> to_RubricID tr = rd_id d \<and> to_RubricVersion tr = rd_version d
     \<and> (case item of
          None \<Rightarrow> to_Diagnostic tr \<noteq> None \<and> \<not> HasJudgment tr
        | Some it \<Rightarrow> to_Diagnostic tr = None \<and> HasJudgment tr \<and> marshalBatchItemJudgment it = Some (to_Judgment tr)
            \<and> to_ModelIdentity tr = Some (FormatModelIdentity (jp_logical resp) (jp_served resp)))"

lemma diagnostic_answers: "answers resp d r None (packItemDiagnostic d r msg)"
  by (simp add: answers_def packItemDiagnostic_def HasJudgment_def raw_empty_msg_def)

lemma valid_focus: "validateBatchItem it = None \<Longrightarrow> \<exists>j. bi_SuggestedFocus it = RawJson j"
  by (cases "bi_SuggestedFocus it") (auto simp: validateBatchItem_def raw_empty_msg_def split: if_splits)

lemma marshal_valid_item:
  assumes "validateBatchItem it = None"
  obtains ms where "marshalBatchItemJudgment it = Some (RawJson (JObj ms))"
  using valid_focus [OF assms] by (auto simp: marshalBatchItemJudgment_def marshal_def)

lemma map_batch_ref_answers:
  assumes "parseBatchItems (jp_judgment resp) = (byRef, dup)" "r \<noteq> []"
  shows "answers resp d r (judged_item (jp_judgment resp) r) (map_batch_ref d byRef dup resp r)"
proof -
  note refs = parseBatchItems_refs [OF assms]
  consider (none) "items_for (batch_items (jp_judgment resp)) r = []"
    | (one) it where "items_for (batch_items (jp_judgment resp)) r = [it]"
    | (more) x y zs where "items_for (batch_items (jp_judgment resp)) r = x # y # zs" by (metis list.exhaust)
  then show ?thesis
  proof cases
    case none
    then have "byRef r = None" "dup r = None" using refs by auto
    then show ?thesis using none by (simp add: map_batch_ref_def judged_item_def diagnostic_answers)
  next
    case more
    then obtain msg where "dup r = Some msg" using refs by auto
    then show ?thesis using more by (simp add: map_batch_ref_def judged_item_def diagnostic_answers)
  next
    case one
    then have b: "byRef r = Some it" "dup r = None" using refs by auto
    show ?thesis
    proof (cases "validateBatchItem it")
      case (Some e)
      then show ?thesis using one b by (simp add: map_batch_ref_def judged_item_def diagnostic_answers)
    next
      case None
      then obtain ms where "marshalBatchItemJudgment it = Some (RawJson (JObj ms))" by (rule marshal_valid_item)
      then show ?thesis
        using one b None
        by (simp add: map_batch_ref_def judged_item_def answers_def HasJudgment_def raw_empty_msg_def)
    qed
  qed
qed

lemma map_batch_refs_answers:
  assumes "parseBatchItems (jp_judgment resp) = (byRef, dup)"
  shows "list_all2 (\<lambda>(i, r) tr. answers resp d r
      (if r \<in> seen \<or> r \<in> set (take i (filter (\<lambda>r. r \<noteq> []) refs)) then None else judged_item (jp_judgment resp) r) tr)
    (enumerate 0 (filter (\<lambda>r. r \<noteq> []) refs)) (map_batch_refs d byRef dup resp seen refs)"
proof (induction refs arbitrary: seen)
  case Nil
  then show ?case by simp
next
  case (Cons r refs)
  have shift: "list_all2 P (enumerate (Suc 0) xs) ys \<longleftrightarrow> list_all2 (\<lambda>(i, x). P (Suc i, x)) (enumerate 0 xs) ys"
    for P and xs :: "string list" and ys :: "tool_result list"
    by (simp add: list_all2_conv_all_nth nth_enumerate_eq)
  show ?case
  proof (cases "r = []")
    case True
    then show ?thesis using Cons by simp
  next
    case False
    show ?thesis
      using False Cons.IH [of seen] Cons.IH [of "insert r seen"] map_batch_ref_answers [OF assms False, of d]
      by (auto simp: shift diagnostic_answers case_prod_unfold insert_absorb elim!: list_all2_mono)
  qed
qed

text \<open>The answer to a pack has one result per requested finding, in order; it carries a judgment exactly
  for the first request of a finding for which the model's response holds one item and that item is valid,
  and a diagnostic otherwise.\<close>

theorem pack_answers_every_finding:
  "list_all2 (\<lambda>(i, r) tr. answers resp d r
      (if r \<in> set (take i (filter (\<lambda>r. r \<noteq> []) refs)) then None else judged_item (jp_judgment resp) r) tr)
    (enumerate 0 (filter (\<lambda>r. r \<noteq> []) refs)) (mapBatchJudgmentToPackResult d refs resp)"
  using map_batch_refs_answers [of resp _ _ d "{}" refs]
  by (simp add: mapBatchJudgmentToPackResult_def split: prod.split)

section \<open>Envelopes\<close>

text \<open>What a reader sees of a result: an absent judgment is null.\<close>

definition wire_result :: "tool_result \<Rightarrow> tool_result" where
  "wire_result r = r\<lparr>to_Judgment := (if raw_empty_msg (to_Judgment r) then RawJson JNull else to_Judgment r)\<rparr>"

definition writable :: "tool_result \<Rightarrow> bool" where
  "writable r \<longleftrightarrow> (case to_Judgment r of RawBad s \<Rightarrow> s = [] | _ \<Rightarrow> True)"

lemma tool_result_names:
  "field_name ''finding_ref'' = ''finding_ref''" "field_name ''rubric_id'' = ''rubric_id''"
  "field_name ''rubric_version'' = ''rubric_version''" "field_name ''model_identity'' = ''model_identity''"
  "field_name ''logical_model_id'' = ''logical_model_id''" "field_name ''served_model_id'' = ''served_model_id''"
  "field_name ''judgment'' = ''judgment''" "field_name ''diagnostic'' = ''diagnostic''"
  "field_name ''scope'' = ''scope''" "field_name ''message'' = ''message''" "field_name ''results'' = ''results''"
  by code_simp+

lemma tool_result_plain: "writable r \<Longrightarrow> plain tool_result_ty (tool_result_val r)"
  by (cases "to_Judgment r"; cases "to_ModelIdentity r"; cases "to_LogicalModelID r"; cases "to_ServedModelID r";
      cases "to_Diagnostic r")
    (simp_all add: tool_result_ty_def tool_result_val_def diagnostic_ty_def diagnostic_val_def gptr_def writable_def
      raw_empty_msg_def empty_value_def tool_result_names)

lemma tool_result_of_val: "writable r \<Longrightarrow> tool_result_of (tool_result_val r) = wire_result r"
  by (cases r)
    (auto simp: tool_result_of_def tool_result_val_def wire_result_def struct_field_def fields_of_def gstring_of_def
      graw_of_def gptr_def gptr_of_def diagnostic_of_def diagnostic_val_def numeral_eq_Suc split: option.splits)

lemma tool_result_round_trip:
  assumes "writable r"
  obtains raw where "marshalToolResult r = Some raw" "parseToolResult raw = Some (wire_result r)"
proof -
  obtain raw where "marshal tool_result_ty (tool_result_val r) = Some raw"
    "unmarshal tool_result_ty raw = Some (tool_result_val r)"
    by (rule codec_round_trip [OF tool_result_plain [OF assms]])
  then show ?thesis using that assms by (simp add: marshalToolResult_def parseToolResult_def tool_result_of_val)
qed

lemma pack_result_round_trip:
  assumes "list_all writable results"
  shows "\<exists>raw. marshalToolPackResult results = Some raw \<and> ParseToolPackResult raw = Inr (map wire_result results)"
proof -
  let ?v = "GStruct [GSlice (map tool_result_val results)]"
  have "plain pack_result_ty ?v"
    using assms by (auto simp: pack_result_ty_def tool_result_names empty_value_def tool_result_plain list_all_iff)
  then obtain raw where raw: "marshal pack_result_ty ?v = Some raw" "unmarshal pack_result_ty raw = Some ?v"
    by (rule codec_round_trip)
  then obtain js where js: "encode_elems tool_result_ty (map tool_result_val results) = Some js"
    "raw = RawJson (JObj [(''results'', JArr js)])"
    by (auto simp: marshal_def pack_result_ty_def empty_value_def split: option.splits)
  have elems: "\<exists>vs. decode_elems TyRaw olds xs = Some vs" for olds xs
    by (induction xs arbitrary: olds) auto
  have "IsToolPackResult raw"
    using elems by (auto simp: IsToolPackResult_def unmarshal_def js(2) tool_result_names graw_of_def struct_field_def
        fields_of_def elements_def)
  then show ?thesis
    using raw assms
    by (auto simp: marshalToolPackResult_def ParseToolPackResult_def struct_field_def fields_of_def elements_def
        tool_result_of_val list_all_iff)
qed

lemma map_batch_ref_writable: "writable (map_batch_ref d byRef dup resp r)"
  by (auto simp: map_batch_ref_def packItemDiagnostic_def writable_def marshalBatchItemJudgment_def marshal_def
      split: option.split)

lemma packItemDiagnostic_writable: "writable (packItemDiagnostic d r msg)"
  by (simp add: packItemDiagnostic_def writable_def)

lemma map_batch_refs_writable: "list_all writable (map_batch_refs d byRef dup resp seen refs)"
  by (induction refs arbitrary: seen) (simp_all add: map_batch_ref_writable packItemDiagnostic_writable)

lemma mapBatch_writable: "list_all writable (mapBatchJudgmentToPackResult d refs resp)"
  by (simp add: mapBatchJudgmentToPackResult_def map_batch_refs_writable split: prod.split)

lemma degrade_writable: "list_all writable (packResultsForGatewayDegrade d refs r)"
  by (auto simp: packResultsForGatewayDegrade_def packItemDiagnostic_def writable_def list_all_iff Let_def)

lemma of_raw_to_raw [simp]: "to_raw (of_raw (RawJson j)) = RawJson j"
  by (simp add: to_raw_def of_raw_def)

text \<open>
  A pack call ends with an abort or wall-budget error, or with an envelope that reads
  back as one result per item.
\<close>

lemma runHiddenMutationPack_answer:
  assumes "runHiddenMutationPack E n d items = (m, err)"
  shows "(\<exists>e. m = NilMsg \<and> err = Some e) \<or>
    (err = None \<and> (\<exists>results. ParseToolPackResult (to_raw m) = Inr (map wire_result results)
       \<and> (results = packResultsForGatewayDegrade d (packRefs items) (degrade (rd_id d) ''model gateway is nil'')
          \<or> (\<exists>e. results = packResultsForGatewayDegrade d (packRefs items) (degradeFromErr (rd_id d) e))
          \<or> (\<exists>resp. results = mapBatchJudgmentToPackResult d (packRefs items) resp))))"
proof -
  have good: "err = None \<and> ParseToolPackResult (to_raw m) = Inr (map wire_result results)"
    if "tool_answer (marshalToolPackResult results) = (m, err)" and w: "list_all writable results" for results
  proof -
    obtain raw where raw: "marshalToolPackResult results = Some raw" "ParseToolPackResult raw = Inr (map wire_result results)"
      using pack_result_round_trip [OF w] by blast
    then obtain j where "raw = RawJson j" by (auto simp: marshalToolPackResult_def marshal_def)
    then show ?thesis using raw that(1) by (auto simp: tool_answer_def)
  qed
  show ?thesis
    using assms unfolding runHiddenMutationPack_def Let_def
    by (auto split: if_splits option.splits sum.splits dest!: good [OF _ degrade_writable] good [OF _ mapBatch_writable])
qed

end
