(* ===== verification/JudgmentPriority.thy ===== *)
theory JudgmentPriority
  imports RubricPacks
begin

text \<open>
  Which hidden-mutation findings a baseline job has judged
  (internal/coachapi/baseline/judgment_priority.go, judgment_priority_order.go): findings
  queue by path in order of preference, and sweeps over the paths take one of each until
  the cap is reached.

  A map's iteration order is the order in which its keys were first added; the sort of
  the paths does not depend on it (lemma \<open>map_order_is_irrelevant\<close>).
\<close>

section \<open>Preference\<close>

definition severityRankString :: "string \<Rightarrow> int" where
  "severityRankString s = (if s = ''high'' then 3 else if s = ''medium'' then 2 else if s = ''low'' then 1 else 0)"

definition confidenceRankString :: "string \<Rightarrow> int" where
  "confidenceRankString c = (if c = ''high'' then 3 else if c = ''medium'' then 2 else if c = ''low'' then 1 else 0)"

definition judgmentCandidateLess :: "pack_candidate \<Rightarrow> pack_candidate \<Rightarrow> bool" where
  "judgmentCandidateLess a b \<longleftrightarrow>
     (if severityRankString (kc_severity a) \<noteq> severityRankString (kc_severity b)
      then severityRankString (kc_severity a) > severityRankString (kc_severity b)
      else if confidenceRankString (kc_confidence a) \<noteq> confidenceRankString (kc_confidence b)
      then confidenceRankString (kc_confidence a) > confidenceRankString (kc_confidence b)
      else if kc_row a \<noteq> kc_row b then kc_row a < kc_row b
      else kc_ref a < kc_ref b)"

text \<open>The sign of a less function, for \<open>sort.SliceStable\<close>.\<close>

definition less_sign :: "('a \<Rightarrow> 'a \<Rightarrow> bool) \<Rightarrow> 'a \<Rightarrow> 'a \<Rightarrow> int" where
  "less_sign lt a b = (if lt a b then -1 else if lt b a then 1 else 0)"

definition groupCandidatesByPath :: "pack_candidate list \<Rightarrow> string \<Rightarrow> pack_candidate list" where
  "groupCandidatesByPath cands path = stable_sort (less_sign judgmentCandidateLess) (byPath cands path)"

definition path_less :: "(string \<Rightarrow> pack_candidate list) \<Rightarrow> string \<Rightarrow> string \<Rightarrow> bool" where
  "path_less groups p q \<longleftrightarrow>
     (if length (groups p) \<noteq> length (groups q) then length (groups p) > length (groups q) else p < q)"

definition pathsByFindingCount :: "(string \<Rightarrow> pack_candidate list) \<Rightarrow> string list \<Rightarrow> string list" where
  "pathsByFindingCount groups keys = stable_sort (less_sign (path_less groups)) keys"

section \<open>Sweeps over the paths\<close>

record round_robin_pick =
  rr_idx :: "string \<Rightarrow> nat"
  rr_selected :: "pack_candidate list"

fun sweep ::
  "nat \<Rightarrow> (string \<Rightarrow> pack_candidate list) \<Rightarrow> string list \<Rightarrow> bool \<Rightarrow> round_robin_pick \<Rightarrow> round_robin_pick \<times> bool" where
  "sweep mx groups [] progress pick = (pick, progress)"
| "sweep mx groups (path # paths) progress pick =
     (if length (rr_selected pick) \<ge> mx then (pick, progress)
      else
        let i = rr_idx pick path; items = groups path in
        if i \<ge> length items then sweep mx groups paths progress pick
        else sweep mx groups paths True
               (pick\<lparr>rr_selected := rr_selected pick @ [items ! i], rr_idx := (rr_idx pick)(path := i + 1)\<rparr>))"

lemma sweep_grows:
  "sweep mx groups paths progress pick = (pick', progress') \<Longrightarrow>
   length (rr_selected pick) \<le> length (rr_selected pick')
     \<and> (progress' \<longrightarrow> progress \<or> length (rr_selected pick) < length (rr_selected pick'))"
proof (induction paths arbitrary: progress pick)
  case Nil
  then show ?case by simp
next
  case (Cons path paths)
  show ?case
    using Cons.prems by (auto simp: Let_def split: if_splits dest!: Cons.IH)
qed

function sweeps :: "nat \<Rightarrow> (string \<Rightarrow> pack_candidate list) \<Rightarrow> string list \<Rightarrow> round_robin_pick \<Rightarrow> pack_candidate list" where
  "sweeps mx groups paths pick =
     (if length (rr_selected pick) < mx
      then (case sweep mx groups paths False pick of
              (pick', progress) \<Rightarrow> if \<not> progress then rr_selected pick' else sweeps mx groups paths pick')
      else rr_selected pick)"
  by pat_completeness auto

termination
  by (relation "measure (\<lambda>(mx, groups, paths, pick). mx - length (rr_selected pick))")
    (auto dest!: sweep_grows [OF sym])

declare sweeps.simps [simp del]

definition prioritizeRoundRobin :: "pack_candidate list \<Rightarrow> nat \<Rightarrow> pack_candidate list" where
  "prioritizeRoundRobin cands mx =
     (let groups = groupCandidatesByPath cands;
          paths = pathsByFindingCount groups (pathOrder cands)
      in sweeps mx groups paths \<lparr>rr_idx = (\<lambda>_. 0), rr_selected = []\<rparr>)"

definition prioritizeAllRoundRobin :: "pack_candidate list \<Rightarrow> pack_candidate list" where
  "prioritizeAllRoundRobin cands = prioritizeRoundRobin cands (length cands)"

definition PrioritizeJudgmentCandidates :: "pack_candidate list \<Rightarrow> int \<Rightarrow> pack_candidate list \<times> int" where
  "PrioritizeJudgmentCandidates cands mx =
     (if length cands = 0 then ([], 0)
      else if mx < 0 then (prioritizeAllRoundRobin cands, 0)
      else if mx = 0 then ([], int (length cands))
      else if int (length cands) \<le> mx then (prioritizeAllRoundRobin cands, 0)
      else
        let selected = prioritizeRoundRobin cands (nat mx)
        in (selected, int (length cands) - int (length selected)))"

definition DefaultMaxHiddenMutationJudgments :: int where "DefaultMaxHiddenMutationJudgments = 16"

definition resolveMaxHiddenMutationJudgments :: "int \<Rightarrow> int" where
  "resolveMaxHiddenMutationJudgments n =
     (if n < 0 then -1 else if n = 0 then DefaultMaxHiddenMutationJudgments else n)"

section \<open>The orders\<close>

lemma less_sign_key:
  fixes k :: "'a \<Rightarrow> 'k::linorder"
  assumes "\<And>x y. lt x y \<longleftrightarrow> k x < k y"
  shows "less_sign lt a b \<le> 0 \<longleftrightarrow> k a \<le> k b"
  by (simp add: less_sign_def assms linorder_not_less [symmetric] less_not_sym)

text \<open>A preference is a lexicographic order of ranks, rows and references.\<close>

definition preference_key :: "pack_candidate \<Rightarrow> int \<times> int \<times> int \<times> string" where
  "preference_key c =
     (- severityRankString (kc_severity c), - confidenceRankString (kc_confidence c), kc_row c, kc_ref c)"

lemma less_is_preference: "judgmentCandidateLess a b \<longleftrightarrow> preference_key a < preference_key b"
  by (simp add: judgmentCandidateLess_def preference_key_def less_prod_simp) linarith

lemma path_less_key: "path_less groups p q \<longleftrightarrow> (- int (length (groups p)), p) < (- int (length (groups q)), q)"
  by (simp add: path_less_def less_prod_simp) linarith

lemmas preference_sign = less_sign_key [of judgmentCandidateLess preference_key, OF less_is_preference]

lemma path_less_sign: "less_sign (path_less groups) p q \<le> 0 \<longleftrightarrow>
    (- int (length (groups p)), p) \<le> (- int (length (groups q)), q)"
  by (rule less_sign_key [of "path_less groups" "\<lambda>p. (- int (length (groups p)), p)"]) (rule path_less_key)

interpretation preference: comparison "less_sign judgmentCandidateLess"
  by (rule comparison_by_key [of _ preference_key]) (rule preference_sign)

lemma path_comparison: "comparison (less_sign (path_less groups))"
  by (rule comparison_by_key [of _ "\<lambda>p. (- int (length (groups p)), p)"]) (rule path_less_sign)

lemma path_antisym:
  assumes "less_sign (path_less groups) p q \<le> 0" "less_sign (path_less groups) q p \<le> 0"
  shows "p = q"
  using order_antisym [OF assms [unfolded path_less_sign]] by simp

lemma map_order_is_irrelevant:
  "mset keys = mset keys' \<Longrightarrow> pathsByFindingCount groups keys = pathsByFindingCount groups keys'"
  unfolding pathsByFindingCount_def
  by (rule comparison.order_independent [OF path_comparison path_antisym])

section \<open>Round robin\<close>

text \<open>The declarative reading: in round r every path that still has one gives its r-th finding.\<close>

definition round_picks :: "(string \<Rightarrow> pack_candidate list) \<Rightarrow> string list \<Rightarrow> nat \<Rightarrow> pack_candidate list" where
  "round_picks groups paths r = map (\<lambda>p. groups p ! r) (filter (\<lambda>p. r < length (groups p)) paths)"

definition rounds :: "(string \<Rightarrow> pack_candidate list) \<Rightarrow> string list \<Rightarrow> nat list \<Rightarrow> pack_candidate list" where
  "rounds groups paths rs = concat (map (round_picks groups paths) rs)"

lemma round_picks_Cons:
  "round_picks groups (p # ps) r = (if r < length (groups p) then [groups p ! r] else []) @ round_picks groups ps r"
  by (simp add: round_picks_def)

lemma sweep_is_round:
  assumes "distinct paths" "length (rr_selected pick) \<le> mx"
    and "\<forall>p\<in>set paths. rr_idx pick p = min r (length (groups p))"
    and "sweep mx groups paths progress pick = (pick', progress')"
  shows "rr_selected pick' = take mx (rr_selected pick @ round_picks groups paths r)
    \<and> (progress' \<longleftrightarrow> progress \<or> rr_selected pick' \<noteq> rr_selected pick)
    \<and> (\<forall>p. p \<notin> set paths \<longrightarrow> rr_idx pick' p = rr_idx pick p)
    \<and> (length (rr_selected pick') < mx \<longrightarrow> (\<forall>p\<in>set paths. rr_idx pick' p = min (Suc r) (length (groups p))))"
  using assms
proof (induction paths arbitrary: pick progress)
  case Nil
  then show ?case by (auto simp: round_picks_def)
next
  case (Cons p paths)
  have idx: "rr_idx pick p = min r (length (groups p))" using Cons.prems(3) by simp
  consider (full) "length (rr_selected pick) = mx"
    | (skip) "length (rr_selected pick) < mx" "\<not> r < length (groups p)"
    | (pick) "length (rr_selected pick) < mx" "r < length (groups p)"
    using Cons.prems(2) by linarith
  then show ?case
  proof cases
    case full
    then show ?thesis using Cons.prems(4) by auto
  next
    case skip
    then show ?thesis
      using Cons.IH [of pick progress] Cons.prems idx by (auto simp: round_picks_Cons)
  next
    case pick
    let ?pick = "pick\<lparr>rr_selected := rr_selected pick @ [groups p ! r], rr_idx := (rr_idx pick)(p := Suc r)\<rparr>"
    have run: "sweep mx groups paths True ?pick = (pick', progress')"
      using Cons.prems(4) pick idx by simp
    have pre: "distinct paths" "length (rr_selected ?pick) \<le> mx" "\<forall>q\<in>set paths. rr_idx ?pick q = min r (length (groups q))"
      using Cons.prems(1,3) pick(1) by auto
    note IH = Cons.IH [OF pre run]
    have "length (rr_selected pick') > length (rr_selected pick)"
      using IH pick(1) by simp
    then have "rr_selected pick' \<noteq> rr_selected pick" by auto
    then show ?thesis
      using IH Cons.prems(1) pick(2) by (auto simp: round_picks_Cons)
  qed
qed

lemma short_take: "length (take n xs) < n \<Longrightarrow> take n xs = xs"
  by simp

lemma no_picks_left:
  assumes "round_picks groups paths r = []"
  shows "rounds groups paths [r..<R] = []"
proof -
  have "round_picks groups paths q = []" if "r \<le> q" for q
    using assms that by (auto simp: round_picks_def filter_empty_conv)
  then show ?thesis by (simp add: rounds_def)
qed

lemma sweeps_are_rounds:
  assumes "distinct paths" "length (rr_selected pick) \<le> mx"
    and "\<forall>p\<in>set paths. rr_idx pick p = min r (length (groups p))" and "\<forall>p\<in>set paths. length (groups p) \<le> R"
  shows "sweeps mx groups paths pick = take mx (rr_selected pick @ rounds groups paths [r..<R])"
  using assms
proof (induction mx groups paths pick arbitrary: r rule: sweeps.induct)
  case (1 mx groups paths pick)
  show ?case
  proof (cases "length (rr_selected pick) < mx")
    case False
    then show ?thesis using 1(3) by (simp add: sweeps.simps)
  next
    case True
    obtain pick' progress where sw: "sweep mx groups paths False pick = (pick', progress)" by fastforce
    note round = sweep_is_round [OF 1(2,3,4) sw]
    show ?thesis
    proof (cases "length (rr_selected pick') < mx")
      case more: True
      then have sel: "rr_selected pick' = rr_selected pick @ round_picks groups paths r"
        using round by (metis short_take)
      show ?thesis
      proof (cases progress)
        case False
        then have same: "rr_selected pick' = rr_selected pick" using round by auto
        then have "rounds groups paths [r..<R] = []" using sel by (intro no_picks_left) simp
        moreover have "sweeps mx groups paths pick = rr_selected pick"
          using False True same sw by (simp add: sweeps.simps [of mx groups paths pick])
        ultimately show ?thesis using True by simp
      next
        case go: True
        have "round_picks groups paths r \<noteq> []" using go round sel True by auto
        then have "r < R" using 1(5) by (fastforce simp: round_picks_def filter_empty_conv)
        then have "rounds groups paths [r..<R] = round_picks groups paths r @ rounds groups paths [Suc r..<R]"
          by (simp add: rounds_def upt_conv_Cons)
        moreover have "sweeps mx groups paths pick' = take mx (rr_selected pick' @ rounds groups paths [Suc r..<R])"
          using round more by (intro 1(1) [OF True sw [symmetric]]) (use go 1(2,5) in auto)
        ultimately show ?thesis using True go sw sel by (simp add: sweeps.simps [of mx groups paths pick])
      qed
    next
      case False
      then have "sweeps mx groups paths pick' = rr_selected pick'" by (simp add: sweeps.simps)
      then have "sweeps mx groups paths pick = rr_selected pick'"
        using True sw by (simp add: sweeps.simps [of mx groups paths pick])
      moreover have "take mx (rr_selected pick @ rounds groups paths [r..<R]) = rr_selected pick'"
      proof (cases "r < R")
        case True
        have "mx \<le> length (rr_selected pick @ round_picks groups paths r)" using False round by simp
        then show ?thesis using True round by (simp add: rounds_def upt_conv_Cons)
      next
        case r: False
        then have "round_picks groups paths r = []" using 1(5) by (auto simp: round_picks_def filter_empty_conv)
        then show ?thesis using False True round by simp
      qed
      ultimately show ?thesis by simp
    qed
  qed
qed

text \<open>Per path the rounds so far give a prefix of the path's queue.\<close>

lemma filter_round:
  assumes "distinct paths" "\<And>p c. p \<in> set paths \<Longrightarrow> c \<in> set (groups p) \<Longrightarrow> kc_path c = p" "p \<in> set paths"
  shows "filter (\<lambda>c. kc_path c = p) (round_picks groups paths r) = (if r < length (groups p) then [groups p ! r] else [])"
proof -
  have "filter (\<lambda>c. kc_path c = p) (round_picks groups paths r) =
      map (\<lambda>q. groups q ! r) (filter (\<lambda>q. r < length (groups q) \<and> q = p) paths)"
    using assms(2) unfolding round_picks_def filter_map filter_filter
    by (intro arg_cong [of _ _ "map _"] filter_cong) auto
  also have "filter (\<lambda>q. r < length (groups q) \<and> q = p) paths = (if r < length (groups p) then [p] else [])"
    using assms(1,3) by (induction paths) (auto simp: filter_empty_conv)
  finally show ?thesis by simp
qed

lemma filter_rounds:
  assumes "distinct paths" "\<And>p c. p \<in> set paths \<Longrightarrow> c \<in> set (groups p) \<Longrightarrow> kc_path c = p" "p \<in> set paths"
  shows "filter (\<lambda>c. kc_path c = p) (rounds groups paths [0..<r]) = take r (groups p)"
proof (induction r)
  case 0
  then show ?case by (simp add: rounds_def)
next
  case (Suc r)
  have "filter (\<lambda>c. kc_path c = p) (round_picks groups paths r) = (if r < length (groups p) then [groups p ! r] else [])"
    by (rule filter_round) (use assms in auto)
  then show ?case using Suc by (simp add: rounds_def take_Suc_conv_app_nth)
qed

text \<open>A prefix of the rounds is some whole rounds and a part of the next.\<close>

lemma take_rounds:
  "\<exists>r j. take m (rounds groups paths [0..<R]) = rounds groups paths [0..<r] @ take j (round_picks groups paths r)"
proof (induction R)
  case 0
  then show ?case by (intro exI [of _ 0]) (simp add: rounds_def)
next
  case (Suc R)
  have split: "rounds groups paths [0..<Suc R] = rounds groups paths [0..<R] @ round_picks groups paths R"
    by (simp add: rounds_def)
  show ?case
  proof (cases "m \<le> length (rounds groups paths [0..<R])")
    case True
    then show ?thesis using Suc split by simp
  next
    case False
    then show ?thesis unfolding split take_append
      by (intro exI [of _ R] exI [of _ "m - length (rounds groups paths [0..<R])"]) simp
  qed
qed

lemma filter_take_single:
  assumes "filter P xs = (if b then [x] else [])"
  shows "filter P (take j xs) = [] \<or> b \<and> filter P (take j xs) = [x]"
proof -
  have "filter P (take j xs) @ filter P (drop j xs) = filter P xs"
    by (metis append_take_drop_id filter_append)
  then show ?thesis using assms by (auto simp: append_eq_Cons_conv split: if_splits)
qed

lemma prefix_is_fair:
  assumes "distinct paths" "\<And>p c. p \<in> set paths \<Longrightarrow> c \<in> set (groups p) \<Longrightarrow> kc_path c = p"
    and "\<And>p. p \<notin> set paths \<Longrightarrow> groups p = []"
  shows "\<exists>r. \<forall>p. filter (\<lambda>c. kc_path c = p) (take m (rounds groups paths [0..<R])) \<in> {take r (groups p), take (Suc r) (groups p)}"
proof -
  obtain r j where split: "take m (rounds groups paths [0..<R]) =
      rounds groups paths [0..<r] @ take j (round_picks groups paths r)"
    using take_rounds by blast
  show ?thesis
  proof (intro exI allI)
    fix p
    show "filter (\<lambda>c. kc_path c = p) (take m (rounds groups paths [0..<R])) \<in> {take r (groups p), take (Suc r) (groups p)}"
    proof (cases "p \<in> set paths")
      case True
      have "filter (\<lambda>c. kc_path c = p) (round_picks groups paths r) = (if r < length (groups p) then [groups p ! r] else [])"
        by (rule filter_round) (use assms True in auto)
      note part = filter_take_single [OF this, of j]
      have "filter (\<lambda>c. kc_path c = p) (rounds groups paths [0..<r]) = take r (groups p)"
        by (rule filter_rounds) (use assms True in auto)
      then show ?thesis using part unfolding split filter_append by (auto simp: take_Suc_conv_app_nth)
    next
      case False
      have "kc_path c \<noteq> p" if "c \<in> set (rounds groups paths qs)" for c qs
        using that False assms(2) by (auto simp: rounds_def round_picks_def)
      then have "filter (\<lambda>c. kc_path c = p) (rounds groups paths [0..<R]) = []" by (auto simp: filter_empty_conv)
      then have "filter (\<lambda>c. kc_path c = p) (take m (rounds groups paths [0..<R])) = []"
        by (meson filter_empty_conv in_set_takeD)
      then show ?thesis using assms(3) [OF False] by simp
    qed
  qed
qed

section \<open>The selection\<close>

lemma groups_of:
  "set (groupCandidatesByPath cands p) = {c \<in> set cands. kc_path c = p}"
  "mset (groupCandidatesByPath cands p) = filter_mset (\<lambda>c. kc_path c = p) (mset cands)"
  by (auto simp: groupCandidatesByPath_def byPath_def)

lemma sorted_paths:
  "distinct (pathsByFindingCount groups (pathOrder cands))"
  "set (pathsByFindingCount groups (pathOrder cands)) = kc_path ` set cands"
  unfolding pathsByFindingCount_def
  using pathOrder [of cands] by (simp_all, metis distinct_count_atmost_1 mset_stable_sort set_stable_sort)

definition priority_order :: "pack_candidate list \<Rightarrow> pack_candidate list" where
  "priority_order cands =
     rounds (groupCandidatesByPath cands) (pathsByFindingCount (groupCandidatesByPath cands) (pathOrder cands))
       [0..<length cands]"

lemma round_robin_takes: "prioritizeRoundRobin cands mx = take mx (priority_order cands)"
proof -
  let ?groups = "groupCandidatesByPath cands"
  have "length (?groups p) \<le> length cands" for p
    by (simp add: groupCandidatesByPath_def byPath_def)
  then show ?thesis
    using sweeps_are_rounds [OF sorted_paths(1) [of ?groups cands], of "\<lparr>rr_idx = (\<lambda>_. 0), rr_selected = []\<rparr>" mx 0 ?groups "length cands"]
    by (simp add: prioritizeRoundRobin_def priority_order_def Let_def)
qed

lemma priority_order_on_path: "filter (\<lambda>c. kc_path c = p) (priority_order cands) = groupCandidatesByPath cands p"
proof (cases "p \<in> kc_path ` set cands")
  case True
  have "filter (\<lambda>c. kc_path c = p) (priority_order cands) = take (length cands) (groupCandidatesByPath cands p)"
    unfolding priority_order_def
    by (rule filter_rounds [OF sorted_paths(1)]) (use True in \<open>auto simp: sorted_paths groups_of\<close>)
  then show ?thesis by (simp add: groupCandidatesByPath_def byPath_def)
next
  case False
  have own: "set (priority_order cands) \<subseteq> set cands"
    using groups_of(1) by (fastforce simp: priority_order_def rounds_def round_picks_def dest: nth_mem)
  have "filter (\<lambda>c. kc_path c = p) (priority_order cands) = []" using own False by (auto simp: filter_empty_conv)
  moreover have "byPath cands p = []" using False by (auto simp: byPath_def filter_empty_conv)
  then have "groupCandidatesByPath cands p = []" by (simp add: groupCandidatesByPath_def)
  ultimately show ?thesis by simp
qed

lemma priority_order_mset: "mset (priority_order cands) = mset cands"
proof (rule multiset_eqI)
  fix c
  have "count (mset (priority_order cands)) c =
      count (mset (filter (\<lambda>d. kc_path d = kc_path c) (priority_order cands))) c" by simp
  also have "\<dots> = count (mset cands) c"
    unfolding priority_order_on_path groups_of(2) by simp
  finally show "count (mset (priority_order cands)) c = count (mset cands) c" .
qed

definition cap_of :: "pack_candidate list \<Rightarrow> int \<Rightarrow> nat" where
  "cap_of cands mx = (if mx < 0 then length cands else min (nat mx) (length cands))"

lemma selection_takes:
  "PrioritizeJudgmentCandidates cands mx =
     (take (cap_of cands mx) (priority_order cands), int (length cands) - int (cap_of cands mx))"
proof -
  have len: "length (priority_order cands) = length cands" using priority_order_mset by (metis size_mset)
  show ?thesis
    unfolding PrioritizeJudgmentCandidates_def prioritizeAllRoundRobin_def round_robin_takes cap_of_def Let_def
    using len by (auto simp: min_def)
qed

text \<open>C37. The cap omits exactly what exceeds it and selects fairly: of every path the selected
  findings are its most preferred ones, and there is a number r such that each path has r or r + 1 of
  them unless it has no more; the findings are those of the job, none twice.\<close>

theorem judgment_selection_is_fair:
  "\<exists>sel r. PrioritizeJudgmentCandidates cands mx = (sel, int (length cands) - int (length sel))
     \<and> length sel = (if mx < 0 then length cands else min (nat mx) (length cands))
     \<and> mset sel \<subseteq># mset cands
     \<and> (\<forall>path. \<exists>queue k. mset queue = filter_mset (\<lambda>c. kc_path c = path) (mset cands)
          \<and> sorted_wrt (\<lambda>a b. \<not> judgmentCandidateLess b a) queue
          \<and> filter (\<lambda>c. kc_path c = path) sel = take k queue \<and> k \<in> {r, r + 1})"
proof -
  let ?groups = "groupCandidatesByPath cands" and ?sel = "take (cap_of cands mx) (priority_order cands)"
  have len: "length (priority_order cands) = length cands" using priority_order_mset by (metis size_mset)
  then have cap: "length ?sel = cap_of cands mx" by (simp add: cap_of_def)
  have "mset ?sel \<subseteq># mset (priority_order cands)" by (metis append_take_drop_id mset_append mset_subset_eq_add_left)
  then have sub: "mset ?sel \<subseteq># mset cands" by (simp add: priority_order_mset)
  have empty: "?groups p = []" if "p \<notin> kc_path ` set cands" for p
  proof -
    have "set (?groups p) = {}" using that by (auto simp: groups_of(1))
    then show ?thesis by simp
  qed
  have "\<exists>r. \<forall>p. filter (\<lambda>c. kc_path c = p) ?sel \<in> {take r (?groups p), take (Suc r) (?groups p)}"
    unfolding priority_order_def
    by (rule prefix_is_fair [OF sorted_paths(1)]) (use empty in \<open>auto simp: sorted_paths(2) groups_of(1)\<close>)
  then obtain r where r: "\<forall>p. filter (\<lambda>c. kc_path c = p) ?sel \<in> {take r (?groups p), take (Suc r) (?groups p)}"
    by blast
  have "sorted_wrt (\<lambda>a b. \<not> judgmentCandidateLess b a) (?groups p)" for p
    using preference.sorted_result [of "byPath cands p"]
    unfolding groupCandidatesByPath_def preference_sign less_is_preference by (simp add: not_less)
  then have "\<exists>queue k. mset queue = filter_mset (\<lambda>c. kc_path c = p) (mset cands)
      \<and> sorted_wrt (\<lambda>a b. \<not> judgmentCandidateLess b a) queue
      \<and> filter (\<lambda>c. kc_path c = p) ?sel = take k queue \<and> k \<in> {r, r + 1}" for p
    using r [rule_format, of p] groups_of(2) [of cands p] by auto
  then show ?thesis
    using selection_takes cap sub by (intro exI [of _ ?sel] exI [of _ r]) (simp add: cap_of_def)
qed

end
