(* ===== verification/TreeSources.thy ===== *)
theory TreeSources
  imports GithubIngest JobDomain SignalRules
begin

text \<open>
  Where a baseline scan gets its files (internal/coachapi/baseline: params.go and the
  tree_source files): the job's parameters, the GitHub reader of a repository, built from
  an installation token per call, the operator's local fixture tree, and which of them
  serves a job.

  A source's error is an \<open>ingest_error\<close>, which carries the sentinel errors.Is finds and the
  text around it.  The file system is an argument: the directory entries WalkDir visits in
  its order, Lstat and ReadFile.  Listing a remote tree need not end, so it returns an option.
\<close>

section \<open>Parameters\<close>

definition object_keys :: "raw_message \<Rightarrow> string list option" where
  "object_keys raw =
     (case raw of RawJson (JObj ms) \<Rightarrow> Some (map fst ms) | RawJson JNull \<Rightarrow> Some [] | _ \<Rightarrow> None)"

definition parseBaselineParams :: "raw_message \<Rightarrow> string + scan_params" where
  "parseBaselineParams raw =
     (if raw = RawNil \<or> raw = RawBad [] then Inl ''coachapi: baseline params are required''
      else (case object_keys raw of
              None \<Rightarrow> Inl ''coachapi: invalid baseline params''
            | Some keys \<Rightarrow>
                (case find (\<lambda>k. k \<in> set keys) [''git_url'', ''clone_url''] of
                   Some k \<Rightarrow> Inl (''coachapi: client-supplied '' @ k @ '' is not allowed in repo_baseline_scan params'')
                 | None \<Rightarrow>
                     (case decode_scan_params raw of
                        None \<Rightarrow> Inl ''coachapi: invalid baseline params''
                      | Some p0 \<Rightarrow>
                          let p = \<lparr>sp_RepoOwner = trim_space (sp_RepoOwner p0), sp_RepoName = trim_space (sp_RepoName p0),
                                   sp_Ref = trim_space (sp_Ref p0)\<rparr>
                          in if sp_RepoOwner p = [] \<or> sp_RepoName p = []
                             then Inl ''coachapi: repo_owner and repo_name are required''
                             else Inr p))))"

section \<open>Sources\<close>

definition supportedBaselinePath :: "string \<Rightarrow> bool" where
  "supportedBaselinePath path \<longleftrightarrow> LanguageForExtension (path_ext path) \<noteq> None"

record file_entry =
  fe_Path :: string
  fe_SHA :: string
  fe_Size :: int

record list_options =
  lo_MaxFiles :: int
  lo_MaxTotalBytes :: int

record tree_source =
  sr_ResolveCommitSHA :: "string \<Rightarrow> string \<Rightarrow> string \<Rightarrow> ingest_error + string"
  sr_ListFiles :: "string \<Rightarrow> string \<Rightarrow> string \<Rightarrow> list_options \<Rightarrow> (ingest_error + file_entry list) option"
  sr_ReadFile :: "string \<Rightarrow> string \<Rightarrow> string \<Rightarrow> string \<Rightarrow> ingest_error + (string \<times> string)"

subsection \<open>GitHub\<close>

definition not_configured :: ingest_error where
  "not_configured = IngestFailure ''coachapi: GitHub tree source is not configured''"

definition github_ResolveCommitSHA :: "github_api option \<Rightarrow> string \<Rightarrow> string \<Rightarrow> string \<Rightarrow> ingest_error + string" where
  "github_ResolveCommitSHA reader owner repo ref =
     (case reader of None \<Rightarrow> Inl not_configured | Some C \<Rightarrow> ResolveCommitSHA C owner repo ref)"

definition github_ListFiles ::
  "github_api option \<Rightarrow> string \<Rightarrow> string \<Rightarrow> string \<Rightarrow> list_options \<Rightarrow> (ingest_error + file_entry list) option" where
  "github_ListFiles reader owner repo ref opts =
     (case reader of
        None \<Rightarrow> Some (Inl not_configured)
      | Some C \<Rightarrow>
          Option.bind (ListFiles C \<lparr>tr_Owner = owner, tr_Repo = repo, tr_Ref = ref\<rparr>
              \<lparr>to_Filter = Some supportedBaselinePath, to_MaxFiles = lo_MaxFiles opts, to_MaxTotalBytes = lo_MaxTotalBytes opts\<rparr>)
            (\<lambda>r. Some (case r of
               Inl e \<Rightarrow> Inl e
             | Inr es \<Rightarrow> Inr (map (\<lambda>e. \<lparr>fe_Path = te_Path e, fe_SHA = te_SHA e, fe_Size = te_Size e\<rparr>) es))))"

definition github_ReadFile ::
  "github_api option \<Rightarrow> string \<Rightarrow> string \<Rightarrow> string \<Rightarrow> string \<Rightarrow> ingest_error + (string \<times> string)" where
  "github_ReadFile reader owner repo ref path =
     (case reader of
        None \<Rightarrow> Inl not_configured
      | Some C \<Rightarrow>
          (case ReadFile C \<lparr>fr_Owner = owner, fr_Repo = repo, fr_Ref = ref, fr_Path = path\<rparr> of
             Inl e \<Rightarrow> Inl e
           | Inr (content, meta) \<Rightarrow> Inr (content, fm_SHA meta)))"

definition github_source :: "github_api option \<Rightarrow> tree_source" where
  "github_source reader =
     \<lparr>sr_ResolveCommitSHA = github_ResolveCommitSHA reader, sr_ListFiles = github_ListFiles reader,
      sr_ReadFile = github_ReadFile reader\<rparr>"

record resolving_source =
  rs_Credentials :: "github_api option"
  rs_BaseURL :: string
  rs_InstallationID :: int

definition readerFor :: "'t github_sdk \<Rightarrow> resolving_source \<Rightarrow> string \<Rightarrow> string \<Rightarrow> ingest_error + github_api" where
  "readerFor K S owner repo =
     (case rs_Credentials S of
        None \<Rightarrow> Inl (IngestFailure ''coachapi: resolving GitHub tree source is not configured'')
      | Some C \<Rightarrow>
          (case (if rs_InstallationID S = 0 then ResolveInstallationID C owner repo else Inr (rs_InstallationID S)) of
             Inl e \<Rightarrow> Inl e
           | Inr iid \<Rightarrow>
               (case InstallationToken C iid of
                  Inl e \<Rightarrow> Inl e
                | Inr token \<Rightarrow>
                    (case NewGitHubFileReaderFromToken K token (rs_BaseURL S) of
                       Inl e \<Rightarrow> Inl (IngestFailure e)
                     | Inr reader \<Rightarrow> Inr reader))))"

definition resolving_tree_source :: "'t github_sdk \<Rightarrow> resolving_source \<Rightarrow> tree_source" where
  "resolving_tree_source K S =
     \<lparr>sr_ResolveCommitSHA = (\<lambda>owner repo ref.
        case readerFor K S owner repo of
          Inl e \<Rightarrow> Inl e | Inr reader \<Rightarrow> github_ResolveCommitSHA (Some reader) owner repo ref),
      sr_ListFiles = (\<lambda>owner repo ref opts.
        case readerFor K S owner repo of
          Inl e \<Rightarrow> Some (Inl e) | Inr reader \<Rightarrow> github_ListFiles (Some reader) owner repo ref opts),
      sr_ReadFile = (\<lambda>owner repo ref path.
        case readerFor K S owner repo of
          Inl e \<Rightarrow> Inl e | Inr reader \<Rightarrow> github_ReadFile (Some reader) owner repo ref path)\<rparr>"

subsection \<open>The local fixture\<close>

datatype file_kind = RegularFile | DirectoryFile | SymlinkFile | OtherFile

text \<open>What WalkDir calls its function with: the path, its error, the entry's type and its Info.\<close>

record walk_entry =
  we_path :: string
  we_error :: "string option"
  we_kind :: file_kind
  we_info :: "string + file_kind \<times> int"

datatype fs_error = NotExist string | FsFailure string

record fixture_fs =
  fx_abs :: "string \<Rightarrow> string + string"
  fx_stat :: "string \<Rightarrow> string + bool"
  fx_walk :: "string \<Rightarrow> walk_entry list"
  fx_lstat :: "string \<Rightarrow> fs_error + file_kind"
  fx_read :: "string \<Rightarrow> fs_error + string"
  fx_quote :: "string \<Rightarrow> string"

definition localFixtureCommitSHA :: string where "localFixtureCommitSHA = ''local-fixture''"

definition fixture_missing :: ingest_error where
  "fixture_missing = IngestFailure ''coachapi: local fixture path is not configured''"

definition local_ResolveCommitSHA :: "string \<Rightarrow> ingest_error + string" where
  "local_ResolveCommitSHA dir = (if dir = [] then Inl fixture_missing else Inr localFixtureCommitSHA)"

record fixture_walk =
  fw_out :: "file_entry list"
  fw_total :: int

definition visit :: "list_options \<Rightarrow> string \<Rightarrow> walk_entry \<Rightarrow> fixture_walk \<Rightarrow> ingest_error + fixture_walk" where
  "visit opts dir d w =
     (case we_error d of
        Some e \<Rightarrow> Inl (IngestFailure e)
      | None \<Rightarrow>
          if we_kind d = SymlinkFile then Inr w
          else if we_kind d = DirectoryFile then Inr w
          else
     (case rel_path dir (we_path d) of
        None \<Rightarrow> Inl (IngestFailure ''Rel: can't make relative'')
      | Some rel \<Rightarrow>
          if \<not> supportedBaselinePath rel then Inr w
          else
     (case we_info d of
        Inl e \<Rightarrow> Inl (IngestFailure e)
      | Inr (mode, size0) \<Rightarrow>
          if mode \<noteq> RegularFile then Inr w
          else if lo_MaxFiles opts > 0 \<and> int (length (fw_out w)) + 1 > lo_MaxFiles opts
          then Inl (ErrTooLarge (''coachapi: local fixture tree exceeds the configured file-count budget of ''
                 @ itoa (lo_MaxFiles opts)))
          else
            let new_total = wrap64 (fw_total w + size0) in
            if lo_MaxTotalBytes opts > 0 \<and> new_total > lo_MaxTotalBytes opts
            then Inl (ErrTooLarge (''coachapi: local fixture tree exceeds the configured byte budget of ''
                   @ itoa (lo_MaxTotalBytes opts) @ '' bytes''))
            else Inr (w\<lparr>fw_total := new_total, fw_out := fw_out w @ [\<lparr>fe_Path = rel, fe_SHA = [], fe_Size = size0\<rparr>]\<rparr>))))"

fun visit_all :: "list_options \<Rightarrow> string \<Rightarrow> walk_entry list \<Rightarrow> fixture_walk \<Rightarrow> ingest_error + fixture_walk" where
  "visit_all opts dir [] w = Inr w"
| "visit_all opts dir (d # ds) w =
     (case visit opts dir d w of Inl e \<Rightarrow> Inl e | Inr w1 \<Rightarrow> visit_all opts dir ds w1)"

definition local_ListFiles :: "fixture_fs \<Rightarrow> string \<Rightarrow> list_options \<Rightarrow> ingest_error + file_entry list" where
  "local_ListFiles F dir0 opts =
     (if dir0 = [] then Inl fixture_missing
      else (case fx_abs F dir0 of
              Inl e \<Rightarrow> Inl (IngestFailure (''coachapi: resolving smoke fixture path: '' @ e))
            | Inr dir \<Rightarrow>
                (case fx_stat F dir of
                   Inl e \<Rightarrow> Inl (IngestFailure (''coachapi: smoke fixture path '' @ fx_quote F dir @ '': '' @ e))
                 | Inr False \<Rightarrow> Inl (IngestFailure (''coachapi: smoke fixture path '' @ fx_quote F dir @ '' is not a directory''))
                 | Inr True \<Rightarrow>
                     (case visit_all opts dir (fx_walk F dir) \<lparr>fw_out = [], fw_total = 0\<rparr> of
                        Inl e \<Rightarrow> Inl e
                      | Inr w \<Rightarrow> Inr (fw_out w)))))"

definition fixture_file :: "fixture_fs \<Rightarrow> string \<Rightarrow> string" where
  "fixture_file F path = ''coachapi: fixture file '' @ fx_quote F path"

definition local_ReadFile :: "fixture_fs \<Rightarrow> string \<Rightarrow> string \<Rightarrow> ingest_error + (string \<times> string)" where
  "local_ReadFile F dir0 path =
     (if dir0 = [] then Inl fixture_missing
      else (case fx_abs F dir0 of
              Inl e \<Rightarrow> Inl (IngestFailure (''coachapi: resolving smoke fixture path: '' @ e))
            | Inr dir \<Rightarrow>
                let full = path_clean (path_join dir path) in
     (case rel_path dir full of
        None \<Rightarrow> Inl (ErrNotFound (''coachapi: path '' @ fx_quote F path @ '' escapes smoke fixture root''))
      | Some rel \<Rightarrow>
          if rel = ''..'' \<or> has_prefix rel ''../''
          then Inl (ErrNotFound (''coachapi: path '' @ fx_quote F path @ '' escapes smoke fixture root''))
          else
     (case fx_lstat F full of
        Inl (NotExist e) \<Rightarrow> Inl (ErrNotFound (fixture_file F path))
      | Inl (FsFailure e) \<Rightarrow> Inl (IngestFailure e)
      | Inr kind \<Rightarrow>
          if kind = SymlinkFile
          then Inl (ErrUnsupportedContent (''coachapi: fixture path '' @ fx_quote F path @ '' is a symlink''))
          else if kind \<noteq> RegularFile
          then Inl (ErrUnsupportedContent (''coachapi: fixture path '' @ fx_quote F path @ '' is not a regular file''))
          else
     (case fx_read F full of
        Inl (NotExist e) \<Rightarrow> Inl (ErrNotFound (fixture_file F path))
      | Inl (FsFailure e) \<Rightarrow> Inl (IngestFailure e)
      | Inr content \<Rightarrow>
          if length content = 0 then Inl (ErrEmptyContent (fixture_file F path))
          else Inr (content, ''local-fixture''))))))"

definition local_source :: "fixture_fs \<Rightarrow> string \<Rightarrow> tree_source" where
  "local_source F dir =
     \<lparr>sr_ResolveCommitSHA = (\<lambda>_ _ _. local_ResolveCommitSHA dir),
      sr_ListFiles = (\<lambda>_ _ _ opts. Some (local_ListFiles F dir opts)),
      sr_ReadFile = (\<lambda>_ _ _ path. local_ReadFile F dir path)\<rparr>"

section \<open>The source of a job\<close>

record source_config =
  sf_TreeSource :: "tree_source option"
  sf_SmokeFixturePath :: string
  sf_SmokeRepoOwner :: string
  sf_SmokeRepoName :: string

definition resolveBaselineTreeSource :: "fixture_fs \<Rightarrow> source_config \<Rightarrow> scan_params \<Rightarrow> string + tree_source" where
  "resolveBaselineTreeSource F cfg params =
     (if sf_SmokeFixturePath cfg \<noteq> [] \<and> sf_SmokeRepoOwner cfg \<noteq> [] \<and> sf_SmokeRepoName cfg \<noteq> []
         \<and> sp_RepoOwner params = sf_SmokeRepoOwner cfg \<and> sp_RepoName params = sf_SmokeRepoName cfg
      then Inr (local_source F (sf_SmokeFixturePath cfg))
      else (case sf_TreeSource cfg of
              None \<Rightarrow> Inl (''coachapi: no tree source configured for '' @ sp_RepoOwner params @ ''/'' @ sp_RepoName params
                        @ '' (not the smoke fixture pair)'')
            | Some S \<Rightarrow> Inr S))"

text \<open>The wrapped error keeps its sentinel.\<close>

fun wrap_ingest :: "string \<Rightarrow> ingest_error \<Rightarrow> ingest_error" where
  "wrap_ingest p (ErrAuth t) = ErrAuth (p @ t)"
| "wrap_ingest p (ErrNotFound t) = ErrNotFound (p @ t)"
| "wrap_ingest p (ErrUnsupportedContent t) = ErrUnsupportedContent (p @ t)"
| "wrap_ingest p (ErrEmptyContent t) = ErrEmptyContent (p @ t)"
| "wrap_ingest p (ErrTooLarge t) = ErrTooLarge (p @ t)"
| "wrap_ingest p (IngestFailure t) = IngestFailure (p @ t)"

fun ingest_text :: "ingest_error \<Rightarrow> string" where
  "ingest_text (ErrAuth t) = t"
| "ingest_text (ErrNotFound t) = t"
| "ingest_text (ErrUnsupportedContent t) = t"
| "ingest_text (ErrEmptyContent t) = t"
| "ingest_text (ErrTooLarge t) = t"
| "ingest_text (IngestFailure t) = t"

fun has_sentinel :: "ingest_error \<Rightarrow> bool" where
  "has_sentinel (IngestFailure t) \<longleftrightarrow> False"
| "has_sentinel e \<longleftrightarrow> True"

definition mapBaselineFetchError :: "ingest_error \<Rightarrow> ingest_error" where
  "mapBaselineFetchError e =
     (if has_sentinel e \<and> has_prefix (ingest_text e) ''coachapi:'' then e
      else wrap_ingest ''coachapi: baseline fetch failed: '' e)"

record loaded_file =
  lb_Path :: string
  lb_Language :: string
  lb_Content :: string

fun loadBaselineFiles :: "tree_source \<Rightarrow> scan_params \<Rightarrow> string \<Rightarrow> file_entry list \<Rightarrow> ingest_error + loaded_file list" where
  "loadBaselineFiles S params ref [] = Inr []"
| "loadBaselineFiles S params ref (e # es) =
     (case LanguageForExtension (path_ext (fe_Path e)) of
        None \<Rightarrow> loadBaselineFiles S params ref es
      | Some lang \<Rightarrow>
          (case sr_ReadFile S (sp_RepoOwner params) (sp_RepoName params) ref (fe_Path e) of
             Inl err \<Rightarrow> Inl (mapBaselineFetchError err)
           | Inr (content, _) \<Rightarrow>
               (case loadBaselineFiles S params ref es of
                  Inl err \<Rightarrow> Inl err
                | Inr rest \<Rightarrow> Inr (\<lparr>lb_Path = fe_Path e, lb_Language = lang, lb_Content = content\<rparr> # rest))))"

section \<open>The contract of a source\<close>

text \<open>
  What the scan relies on: a listing has supported files only and is within its file budget.
\<close>

definition listing_ok :: "list_options \<Rightarrow> file_entry list \<Rightarrow> bool" where
  "listing_ok opts es \<longleftrightarrow>
     (\<forall>e\<in>set es. supportedBaselinePath (fe_Path e))
     \<and> (0 < lo_MaxFiles opts \<longrightarrow> int (length es) \<le> lo_MaxFiles opts)"

locale baseline_source =
  fixes src :: tree_source
  assumes listing: "sr_ListFiles src owner repo ref opts = Some (Inr es) \<Longrightarrow> listing_ok opts es"
begin

lemma load_all:
  assumes "sr_ListFiles src owner repo ref opts = Some (Inr es)" "set es' \<subseteq> set es"
    and "loadBaselineFiles src params ref es' = Inr fs"
  shows "map lb_Path fs = map fe_Path es'"
  using assms(2,3)
proof (induction es' arbitrary: fs)
  case Nil
  then show ?case by simp
next
  case (Cons e es')
  have "supportedBaselinePath (fe_Path e)"
    using listing [OF assms(1)] Cons.prems(1) by (simp add: listing_ok_def)
  then show ?case
    using Cons by (auto simp: supportedBaselinePath_def split: option.splits sum.splits prod.splits)
qed

end

lemma visit_ok:
  assumes "visit opts dir d w = Inr w'" "listing_ok opts (fw_out w)"
  shows "listing_ok opts (fw_out w')"
  using assms by (auto simp: visit_def listing_ok_def Let_def split: option.splits sum.splits prod.splits if_splits)

lemma visit_all_ok: "visit_all opts dir ds w = Inr w' \<Longrightarrow> listing_ok opts (fw_out w) \<Longrightarrow> listing_ok opts (fw_out w')"
  by (induction ds arbitrary: w) (auto split: sum.splits intro: visit_ok)

interpretation local_tree: baseline_source "local_source F dir" for F dir
proof
  fix owner repo ref opts es
  assume "sr_ListFiles (local_source F dir) owner repo ref opts = Some (Inr es)"
  then obtain w base where "visit_all opts base (fx_walk F base) \<lparr>fw_out = [], fw_total = 0\<rparr> = Inr w" "es = fw_out w"
    by (auto simp: local_source_def local_ListFiles_def split: if_splits sum.splits bool.splits)
  then show "listing_ok opts es" using visit_all_ok by (fastforce simp: listing_ok_def)
qed

definition tree_listing_ok :: "tree_options \<Rightarrow> tree_walk \<Rightarrow> bool" where
  "tree_listing_ok opts w \<longleftrightarrow>
     (\<forall>e\<in>set (tw_entries w). case to_Filter opts of None \<Rightarrow> True | Some f \<Rightarrow> f (te_Path e))
     \<and> (0 < to_MaxFiles opts \<longrightarrow> int (length (tw_entries w)) \<le> to_MaxFiles opts)"

lemma appendFile_ok: "appendFile ref opts f w = Inr w' \<Longrightarrow> tree_listing_ok opts w \<Longrightarrow> tree_listing_ok opts w'"
  by (auto simp: appendFile_def tree_listing_ok_def Let_def split: if_splits option.splits)

definition walk_keeps :: "tree_options \<Rightarrow> tree_walk \<Rightarrow> ingest_error + tree_walk \<Rightarrow> bool" where
  "walk_keeps opts w r \<longleftrightarrow>
     (tree_listing_ok opts w \<longrightarrow> (case r of Inl _ \<Rightarrow> True | Inr w' \<Rightarrow> tree_listing_ok opts w'))"

lemma walk_keeps_trans: "walk_keeps opts w (Inr w1) \<Longrightarrow> walk_keeps opts w1 r \<Longrightarrow> walk_keeps opts w r"
  by (auto simp: walk_keeps_def)

lemma walk_entries_ok:
  assumes "walk_entries C ref opts es w = Some r"
  shows "walk_keeps opts w r"
proof (rule walk_entries.raw_induct [of "\<lambda>C ref opts es w r. walk_keeps opts w r", OF _ assms], goal_cases)
  case (1 rec C ref opts es w r)
  note IH = 1(1) and body = 1(2)
  show ?case
  proof (cases es)
    case Nil
    then show ?thesis using body by (auto simp: walk_keeps_def)
  next
    case (Cons entry rest)
    consider (d) "rc_type entry = ''dir''" | (f) "rc_type entry \<noteq> ''dir''" "rc_type entry = ''file''"
      | (skip) "rc_type entry \<noteq> ''dir''" "rc_type entry \<noteq> ''file''"
      by blast
    then show ?thesis
    proof cases
      case d
      show ?thesis
      proof (cases "list_dir C ref (rc_path entry)")
        case (Inl e)
        then show ?thesis using body Cons d by (auto simp: walk_keeps_def)
      next
        case (Inr children)
        then obtain y where y: "rec C ref opts children w = Some y"
          using body Cons d by (auto simp: bind_eq_Some_conv)
        note first = IH [OF y]
        show ?thesis
        proof (cases y)
          case (Inl e)
          then show ?thesis using body Cons d \<open>list_dir C ref (rc_path entry) = Inr children\<close> y by (auto simp: walk_keeps_def)
        next
          case w1: (Inr w1)
          then have "walk_keeps opts w1 r"
            using body Cons d \<open>list_dir C ref (rc_path entry) = Inr children\<close> y IH by simp
          then show ?thesis using first w1 walk_keeps_trans by blast
        qed
      qed
    next
      case f
      show ?thesis
      proof (cases "appendFile ref opts entry w")
        case (Inl e)
        then have "r = Inl e" using body Cons f by simp
        then show ?thesis by (simp add: walk_keeps_def)
      next
        case (Inr w1)
        then have "walk_keeps opts w1 r" using body Cons f IH by simp
        moreover have "walk_keeps opts w (Inr w1)" using appendFile_ok [OF Inr] by (simp add: walk_keeps_def)
        ultimately show ?thesis using walk_keeps_trans by blast
      qed
    next
      case skip
      then show ?thesis using body Cons IH by simp
    qed
  qed
qed

interpretation github_tree: baseline_source "github_source reader" for reader
proof
  fix owner repo ref opts es
  assume "sr_ListFiles (github_source reader) owner repo ref opts = Some (Inr es)"
  moreover obtain C where "reader = Some C"
    using calculation by (cases reader) (simp_all add: github_source_def github_ListFiles_def)
  moreover obtain r where "ListFiles C \<lparr>tr_Owner = owner, tr_Repo = repo, tr_Ref = ref\<rparr>
       \<lparr>to_Filter = Some supportedBaselinePath, to_MaxFiles = lo_MaxFiles opts, to_MaxTotalBytes = lo_MaxTotalBytes opts\<rparr>
     = Some r"
    using calculation by (auto simp: github_source_def github_ListFiles_def bind_eq_Some_conv)
  ultimately obtain ts where C: "es = map (\<lambda>e. \<lparr>fe_Path = te_Path e, fe_SHA = te_SHA e, fe_Size = te_Size e\<rparr>) ts"
    "ListFiles C \<lparr>tr_Owner = owner, tr_Repo = repo, tr_Ref = ref\<rparr>
       \<lparr>to_Filter = Some supportedBaselinePath, to_MaxFiles = lo_MaxFiles opts, to_MaxTotalBytes = lo_MaxTotalBytes opts\<rparr>
     = Some (Inr ts)"
    by (cases r) (auto simp: github_source_def github_ListFiles_def)
  then show "listing_ok opts es"
    using walk_entries_ok
    by (fastforce simp: ListFiles_def walk_def bind_eq_Some_conv walk_keeps_def tree_listing_ok_def listing_ok_def split: sum.splits)
qed

interpretation resolving_tree: baseline_source "resolving_tree_source K S" for K S
proof
  fix owner repo ref opts es
  assume "sr_ListFiles (resolving_tree_source K S) owner repo ref opts = Some (Inr es)"
  then obtain reader where "sr_ListFiles (github_source (Some reader)) owner repo ref opts = Some (Inr es)"
    by (auto simp: resolving_tree_source_def github_source_def split: sum.splits)
  then show "listing_ok opts es" by (rule github_tree.listing)
qed

section \<open>Fixture reads stay below the root\<close>

lemma strip_common_prefix: "strip_common bs ts = (b, t) \<Longrightarrow> \<exists>p. bs = p @ b \<and> ts = p @ t"
proof (induction bs ts rule: strip_common.induct)
  case (1 x bs y ts)
  show ?case
  proof (cases "x = y")
    case True
    then obtain p where "bs = p @ b" "ts = p @ t" using 1 by auto
    then show ?thesis using True by (intro exI [of _ "y # p"]) simp
  next
    case False
    then show ?thesis using 1(2) by (intro exI [of _ "[]"]) auto
  qed
qed auto

lemma not_escaping_is_below:
  assumes "rel_path base target = Some rel" "rel \<noteq> ''..''" "\<not> has_prefix rel ''../''"
  shows "\<exists>t. path_elements target = path_elements base @ t"
proof -
  obtain b t where bt: "strip_common (path_elements base) (path_elements target) = (b, t)" by fastforce
  have "b = []"
  proof (cases b)
    case (Cons x b')
    then have "rel = join_with ''/'' (''..'' # map (\<lambda>_. ''..'') b' @ t)"
      using assms(1) bt by (auto simp: rel_path_def Let_def split: if_splits)
    then show ?thesis
      using assms(2,3) by (cases "map (\<lambda>_. ''..'') b' @ t") (auto simp: has_prefix_def)
  qed
  then show ?thesis using strip_common_prefix [OF bt] by auto
qed

lemma fixture_reads_stay_below_root:
  assumes "local_ReadFile F dir path = Inr (content, sha)"
  shows "\<exists>base full t. fx_abs F dir = Inr base \<and> fx_lstat F full = Inr RegularFile \<and> fx_read F full = Inr content
    \<and> path_elements full = path_elements base @ t"
proof -
  obtain base where base: "fx_abs F dir = Inr base"
    using assms by (cases "fx_abs F dir") (simp_all add: local_ReadFile_def split: if_splits)
  let ?full = "path_clean (path_join base path)"
  obtain rel where rel: "rel_path base ?full = Some rel" "rel \<noteq> ''..''" "\<not> has_prefix rel ''../''"
    using assms base by (auto simp: local_ReadFile_def Let_def split: if_splits option.splits)
  have "fx_lstat F ?full = Inr RegularFile" "fx_read F ?full = Inr content"
    using assms base rel by (auto simp: local_ReadFile_def Let_def split: if_splits sum.splits fs_error.splits)
  then show ?thesis using base not_escaping_is_below [OF rel] by blast
qed

end
