(* ===== verification/BaselineScan.thy ===== *)
theory BaselineScan
  imports Rubrics JudgmentPriority TreeSources MemoryStore "HOL-Library.Sublist"
begin

text \<open>
  One attempt of a repo_baseline_scan job (internal/coachapi/baseline: scan.go, prepare.go,
  the analysis, findings, judgment and completion files): fetch and analyze the tree, write
  the deterministic findings, have the hidden-mutation findings and the change's cohesion
  judged through the agent loop, write what the judges answer, complete.

  The environment of a scan holds what comes from outside: the file system, the loops'
  environments, the contexts the tools read, JSON text and indentation, the codecs of
  semantics.Result and codesignal.Report (of a report the scan reads two fields), SHA-256, the
  text of an error, and UUIDs, numbered among those that are kept.  The job writer is a record of operations
  on a writer's state, a store's for example.
\<close>

section \<open>Signals in JSON\<close>

definition uint_ty :: gty where "uint_ty = TyInt 0 (2 ^ 64 - 1)"

definition location_ty :: gty where
  "location_ty = TyStruct [(''start_byte'', False, uint_ty), (''end_byte'', False, uint_ty), (''start_row'', False, uint_ty),
     (''start_col'', False, uint_ty), (''end_row'', False, uint_ty), (''end_col'', False, uint_ty)]"

definition location_val :: "location \<Rightarrow> gval" where
  "location_val l = GStruct [GInt (int (StartByte l)), GInt (int (EndByte l)), GInt (int (StartRow l)),
     GInt (int (StartCol l)), GInt (int (EndRow l)), GInt (int (EndCol l))]"

definition gnat_of :: "gval \<Rightarrow> nat" where
  "gnat_of v = (case v of GInt n \<Rightarrow> nat n | _ \<Rightarrow> 0)"

definition location_of :: "gval \<Rightarrow> location" where
  "location_of v =
     \<lparr>StartByte = gnat_of (struct_field 0 v), EndByte = gnat_of (struct_field 1 v), StartRow = gnat_of (struct_field 2 v),
      StartCol = gnat_of (struct_field 3 v), EndRow = gnat_of (struct_field 4 v), EndCol = gnat_of (struct_field 5 v)\<rparr>"

definition provenance_ty :: gty where
  "provenance_ty = TyStruct [(''producer'', False, TyString), (''finding_kind'', True, TyString), (''language'', True, TyString)]"

definition provenance_val :: "provenance \<Rightarrow> gval" where
  "provenance_val p = GStruct [GString (Producer p), GString (FindingKind p), GString (Language p)]"

definition provenance_of :: "gval \<Rightarrow> provenance" where
  "provenance_of v = \<lparr>Producer = gstring_of (struct_field 0 v), FindingKind = gstring_of (struct_field 1 v),
     Language = gstring_of (struct_field 2 v)\<rparr>"

definition project_location_ty :: gty where
  "project_location_ty = TyStruct [(''path'', False, TyString), (''location'', False, location_ty)]"

definition project_location_val :: "project_location \<Rightarrow> gval" where
  "project_location_val p = GStruct [GString (pl_path p), location_val (pl_location p)]"

definition project_location_of :: "gval \<Rightarrow> project_location" where
  "project_location_of v = \<lparr>pl_path = gstring_of (struct_field 0 v), pl_location = location_of (struct_field 1 v)\<rparr>"

definition path_step_ty :: gty where
  "path_step_ty = TyStruct [(''node_id'', False, TyString), (''display_name'', True, TyString), (''resolution'', True, TyString),
     (''confidence'', True, TyString), (''source_locations'', True, TySlice project_location_ty)]"

text \<open>An empty slice under omitempty is not written and reads back as nil.\<close>

definition omit_empty :: "gval list \<Rightarrow> gval" where
  "omit_empty vs = (if vs = [] then GNil else GSlice vs)"

definition path_step_val :: "project_path_step \<Rightarrow> gval" where
  "path_step_val s = GStruct [GString (st_node s), GString (st_display s), GString (st_resolution s), GString (st_confidence s),
     omit_empty (map project_location_val (st_locations s))]"

definition path_step_of :: "gval \<Rightarrow> project_path_step" where
  "path_step_of v =
     \<lparr>st_node = gstring_of (struct_field 0 v), st_display = gstring_of (struct_field 1 v),
      st_resolution = gstring_of (struct_field 2 v), st_confidence = gstring_of (struct_field 3 v),
      st_locations = map project_location_of (elements (struct_field 4 v))\<rparr>"

definition signal_ty :: gty where
  "signal_ty = TyStruct [(''id'', False, TyString), (''fingerprint'', False, TyString), (''rule_id'', False, TyString),
     (''rule_version'', False, TyString), (''kind'', False, TyString), (''category'', False, TyString),
     (''severity'', False, TyString), (''confidence'', False, TyString), (''lifecycle'', False, TyString),
     (''changed'', False, TyBool), (''path'', False, TyString), (''source_scope'', True, TyString),
     (''subject'', True, TyString), (''location'', False, location_ty), (''evidence'', True, TyString),
     (''why_it_matters'', False, TyString), (''recommendation'', False, TyString), (''suggested_skill'', False, TyString),
     (''provenance'', False, provenance_ty), (''machine_evidence'', False, TyMap TyString),
     (''related_locations'', False, TySlice project_location_ty), (''path_steps'', False, TySlice path_step_ty),
     (''coverage_refs'', False, TySlice TyString)]"

text \<open>Signal.MarshalJSON: nil slices and maps are written as empty ones.\<close>

definition signal_val :: "signal \<Rightarrow> gval" where
  "signal_val s = GStruct [GString (sg_id s), GString (sg_fingerprint s), GString (sg_rule s), GString (sg_rule_version s),
     GString (sg_kind s), GString (sg_category s), GString (sg_severity s), GString (sg_confidence s),
     GString (sg_lifecycle s), GBool (sg_changed s), GString (sg_path s), GString (sg_source_scope s),
     GString (sg_subject s), location_val (sg_location s), GString (sg_evidence s), GString (sg_why s),
     GString (sg_recommendation s), GString (sg_skill s), provenance_val (sg_provenance s),
     GMap (map (\<lambda>(k, v). (k, GString v)) (sg_machine_evidence s)), GSlice (map project_location_val (sg_related s)),
     GSlice (map path_step_val (sg_steps s)), GSlice (map GString (sg_coverage_refs s))]"

definition gbool_of :: "gval \<Rightarrow> bool" where
  "gbool_of v = (case v of GBool b \<Rightarrow> b | _ \<Rightarrow> False)"

definition signal_of :: "gval \<Rightarrow> signal" where
  "signal_of v =
     \<lparr>sg_id = gstring_of (struct_field 0 v), sg_fingerprint = gstring_of (struct_field 1 v),
      sg_rule = gstring_of (struct_field 2 v), sg_rule_version = gstring_of (struct_field 3 v),
      sg_kind = gstring_of (struct_field 4 v), sg_category = gstring_of (struct_field 5 v),
      sg_severity = gstring_of (struct_field 6 v), sg_confidence = gstring_of (struct_field 7 v),
      sg_lifecycle = gstring_of (struct_field 8 v), sg_changed = gbool_of (struct_field 9 v),
      sg_path = gstring_of (struct_field 10 v), sg_source_scope = gstring_of (struct_field 11 v),
      sg_subject = gstring_of (struct_field 12 v), sg_location = location_of (struct_field 13 v),
      sg_evidence = gstring_of (struct_field 14 v), sg_why = gstring_of (struct_field 15 v),
      sg_recommendation = gstring_of (struct_field 16 v), sg_skill = gstring_of (struct_field 17 v),
      sg_provenance = provenance_of (struct_field 18 v),
      sg_machine_evidence = map (\<lambda>(k, x). (k, gstring_of x)) (map_entries (struct_field 19 v)),
      sg_related = map project_location_of (elements (struct_field 20 v)),
      sg_steps = map path_step_of (elements (struct_field 21 v)),
      sg_coverage_refs = map gstring_of (elements (struct_field 22 v))\<rparr>"

definition marshalSignal :: "signal \<Rightarrow> raw_message option" where
  "marshalSignal s = marshal signal_ty (signal_val s)"

definition hiddenMutationSignal :: "raw_message \<Rightarrow> signal option" where
  "hiddenMutationSignal payload =
     (case unmarshal signal_ty payload of
        None \<Rightarrow> None
      | Some v \<Rightarrow>
          let sig = signal_of v in
          if sg_kind sig \<noteq> ''hidden_input_mutation'' \<and> sg_rule sig \<noteq> ''state.hidden_input_mutation'' then None
          else Some sig)"

section \<open>The scan's environment\<close>

datatype scan_error =
    ScanText string
  | ScanFetch ingest_error
  | ScanLoop string loop_error
  | ScanWriter store_error
  | ScanBudget int int loop_error

text \<open>\<open>errors.Is(err, context.Canceled)\<close> and \<open>errors.Is(err, agentloop.ErrBudgetExceeded)\<close>.\<close>

definition is_canceled :: "scan_error \<Rightarrow> bool" where
  "is_canceled err \<longleftrightarrow>
     (case err of
        ScanLoop _ e \<Rightarrow> errors_is e CtxCanceled
      | ScanBudget _ _ e \<Rightarrow> errors_is e CtxCanceled
      | ScanWriter e \<Rightarrow> e = ErrStoreFailure ''context canceled''
      | _ \<Rightarrow> False)"

fun budget_error :: "loop_error \<Rightarrow> bool" where
  "budget_error (ErrBudgetExceeded k) \<longleftrightarrow> True"
| "budget_error (WrappedError t e) \<longleftrightarrow> budget_error e"
| "budget_error e \<longleftrightarrow> False"

definition is_budget :: "scan_error \<Rightarrow> bool" where
  "is_budget err \<longleftrightarrow>
     (case err of ScanLoop _ e \<Rightarrow> budget_error e | ScanBudget _ _ e \<Rightarrow> budget_error e | _ \<Rightarrow> False)"

type_synonym gateway = "nat \<Rightarrow> judgment_request \<Rightarrow> gateway_error + judgment_response"

record scan_config =
  sc_Source :: source_config
  sc_MaxFiles :: int
  sc_MaxTotalBytes :: int
  sc_Gateway :: "gateway option"
  sc_ObserveLoop :: bool
  sc_ConfigureLoop :: "(agent_loop \<Rightarrow> agent_loop) option"
  sc_PackConfig :: pack_config
  sc_JudgmentMaxWallTime :: duration
  sc_MaxHiddenMutationJudgments :: int
  sc_Now :: time

record baseline_report =
  br_Signals :: "signal list"
  br_Diagnostics :: "Signals.diagnostic list"

record 'r scan_env =
  se_fs :: fixture_fs
  se_defaults :: default_handlers
  se_analyze :: loop_env
  se_judgment :: loop_env
  se_tool_ctx :: "nat \<Rightarrow> nat \<Rightarrow> loop_error option"
  se_stub_ctx :: "nat \<Rightarrow> cause option"
  se_indent :: "raw_message \<Rightarrow> string"
  se_text :: "raw_message \<Rightarrow> string"
  se_decode_result :: "json raw_doc \<Rightarrow> 'r option"
  se_change_json :: "string \<Rightarrow> 'r \<Rightarrow> json"
  se_decode_report :: "json raw_doc \<Rightarrow> baseline_report option"
  se_uuid :: "nat \<Rightarrow> string"
  se_digest :: "string \<Rightarrow> string"
  se_loop_text :: "loop_error \<Rightarrow> string"
  se_error_text :: "scan_error \<Rightarrow> string"

record 'w job_writer =
  jw_Lease :: claim_lease
  jw_InsertFindings :: "'w \<Rightarrow> job_finding list \<Rightarrow> ('w, store_error, unit) outcome"
  jw_InsertDiagnostics :: "'w \<Rightarrow> job_diagnostic list \<Rightarrow> ('w, store_error, unit) outcome"

text \<open>A scan's state: the writer's, the UUIDs drawn, the loops shown to the observer.\<close>

record 'w scan_state =
  ss_writer :: 'w
  ss_uuids :: nat
  ss_observed :: "agent_loop list"

definition insertBaselineFindings ::
  "'w job_writer \<Rightarrow> job_finding list \<Rightarrow> 'w scan_state \<Rightarrow> 'w scan_state \<times> scan_error option" where
  "insertBaselineFindings W fs st =
     (if length fs = 0 then (st, None)
      else (case jw_InsertFindings W (ss_writer st) fs of
              (w, Inl e) \<Rightarrow> (st\<lparr>ss_writer := w\<rparr>, Some (ScanWriter e))
            | (w, Inr _) \<Rightarrow> (st\<lparr>ss_writer := w\<rparr>, None)))"

definition insertBaselineDiagnostics ::
  "'w job_writer \<Rightarrow> job_diagnostic list \<Rightarrow> 'w scan_state \<Rightarrow> 'w scan_state \<times> scan_error option" where
  "insertBaselineDiagnostics W ds st =
     (if length ds = 0 then (st, None)
      else (case jw_InsertDiagnostics W (ss_writer st) ds of
              (w, Inl e) \<Rightarrow> (st\<lparr>ss_writer := w\<rparr>, Some (ScanWriter e))
            | (w, Inr _) \<Rightarrow> (st\<lparr>ss_writer := w\<rparr>, None)))"

definition observe :: "scan_config \<Rightarrow> agent_loop \<Rightarrow> 'w scan_state \<Rightarrow> 'w scan_state" where
  "observe cfg l st = (if sc_ObserveLoop cfg then st\<lparr>ss_observed := ss_observed st @ [l]\<rparr> else st)"

definition configure :: "scan_config \<Rightarrow> agent_loop \<Rightarrow> agent_loop" where
  "configure cfg l = (case sc_ConfigureLoop cfg of None \<Rightarrow> l | Some f \<Rightarrow> f l)"

section \<open>Findings and diagnostics\<close>

definition stablePayloadHash :: "'r scan_env \<Rightarrow> string list \<Rightarrow> string" where
  "stablePayloadHash E parts = hex_encode (se_digest E (join_with [CHR 0x00] parts))"

definition det_finding :: "'r scan_env \<Rightarrow> nat \<Rightarrow> signal \<Rightarrow> raw_message \<Rightarrow> job_finding" where
  "det_finding E n sig payload =
     \<lparr>jf_id = se_uuid E n, jf_job_id = [], jf_attempt = 0, jf_source = FindingSourceDeterministic, jf_rubric_id = None,
      jf_rubric_version = None, jf_model_identity = None, jf_payload = payload,
      jf_payload_hash = (if sg_fingerprint sig = []
        then stablePayloadHash E [''deterministic'', sg_rule sig, sg_path sig, sg_subject sig, sg_evidence sig]
        else sg_fingerprint sig),
      jf_created_at = 0\<rparr>"

fun signal_findings :: "'r scan_env \<Rightarrow> nat \<Rightarrow> signal list \<Rightarrow> nat \<times> job_finding list" where
  "signal_findings E n [] = (n, [])"
| "signal_findings E n (sig # sigs) =
     (case marshalSignal sig of
        None \<Rightarrow> signal_findings E n sigs
      | Some payload \<Rightarrow>
          let (n', fs) = signal_findings E (n + 1) sigs in (n', det_finding E n sig payload # fs))"

definition findingsFromCodeSignalReport ::
  "'r scan_env \<Rightarrow> baseline_report option \<Rightarrow> 'w scan_state \<Rightarrow> 'w scan_state \<times> job_finding list" where
  "findingsFromCodeSignalReport E report st =
     (case report of
        None \<Rightarrow> (st, [])
      | Some r \<Rightarrow> let (n, fs) = signal_findings E (ss_uuids st) (br_Signals r) in (st\<lparr>ss_uuids := n\<rparr>, fs))"

definition new_diagnostic :: "'r scan_env \<Rightarrow> nat \<Rightarrow> string \<Rightarrow> string \<Rightarrow> job_diagnostic" where
  "new_diagnostic E n scope msg =
     \<lparr>jd_id = se_uuid E n, jd_job_id = [], jd_attempt = 0, jd_scope = scope, jd_message = msg, jd_created_at = 0\<rparr>"

fun signal_diagnostics :: "'r scan_env \<Rightarrow> nat \<Rightarrow> Signals.diagnostic list \<Rightarrow> job_diagnostic list" where
  "signal_diagnostics E n [] = []"
| "signal_diagnostics E n (d # ds) =
     new_diagnostic E n (if dg_kind d \<noteq> [] then ''codesignal:'' @ dg_kind d else ''codesignal'')
       (if dg_path d \<noteq> [] then dg_path d @ '': '' @ dg_message d else dg_message d)
     # signal_diagnostics E (n + 1) ds"

definition diagnosticsFromCodeSignal ::
  "'r scan_env \<Rightarrow> baseline_report option \<Rightarrow> 'w scan_state \<Rightarrow> 'w scan_state \<times> job_diagnostic list" where
  "diagnosticsFromCodeSignal E report st =
     (case report of
        None \<Rightarrow> (st, [])
      | Some r \<Rightarrow>
          (st\<lparr>ss_uuids := ss_uuids st + length (br_Diagnostics r)\<rparr>, signal_diagnostics E (ss_uuids st) (br_Diagnostics r)))"

section \<open>Preparation\<close>

definition analyzeOneBaselineFile ::
  "'r scan_env \<Rightarrow> agent_loop \<Rightarrow> loaded_file \<Rightarrow> agent_loop \<times> (scan_error + loaded_file \<times> (string \<times> 'r) option)" where
  "analyzeOneBaselineFile E l f =
     (let args = Doc (JObj [(''content'', JStr (lb_Content f)), (''language'', JStr (lb_Language f)), (''path'', JStr (lb_Path f))])
      in case Call (se_analyze E) CallSourceHandler ToolSemanticsAnalyze args l of
           (l1, raw, err) \<Rightarrow>
             (case (if raw = NilMsg then err else None) of
                Some e \<Rightarrow> (l1, Inl (ScanLoop (''coachapi: semantics_analyze '' @ lb_Path f) e))
              | None \<Rightarrow>
                  if raw = NilMsg \<or> raw = EmptyMsg then (l1, Inr (f, None))
                  else (case se_decode_result E raw of
                          None \<Rightarrow> (l1, Inl (ScanText (''coachapi: decoding semantics_analyze result for '' @ lb_Path f)))
                        | Some res \<Rightarrow> (l1, Inr (f, Some (lb_Path f, res))))))"

fun analyze_files ::
  "'r scan_env \<Rightarrow> agent_loop \<Rightarrow> loaded_file list \<Rightarrow> agent_loop \<times> (scan_error + loaded_file list \<times> (string \<times> 'r) list)" where
  "analyze_files E l [] = (l, Inr ([], []))"
| "analyze_files E l (f # fs) =
     (case analyzeOneBaselineFile E l f of
        (l1, Inl e) \<Rightarrow> (l1, Inl e)
      | (l1, Inr (entry, fc)) \<Rightarrow>
          (case analyze_files E l1 fs of
             (l2, Inl e) \<Rightarrow> (l2, Inl e)
           | (l2, Inr (loaded, changes)) \<Rightarrow>
               (l2, Inr (entry # loaded, (case fc of None \<Rightarrow> [] | Some c \<Rightarrow> [c]) @ changes))))"

definition codesignalReportViaLoop ::
  "'r scan_env \<Rightarrow> agent_loop \<Rightarrow> (string \<times> 'r) list \<Rightarrow> string \<Rightarrow> string \<Rightarrow> agent_loop \<times> (scan_error + baseline_report)" where
  "codesignalReportViaLoop E l changes repo revision =
     (let args = Doc (JObj [(''files'', JArr (map (\<lambda>(p, r). se_change_json E p r) changes)), (''baseline'', JBool True),
                            (''repository'', JStr repo), (''revision'', JStr revision)])
      in case Call (se_analyze E) CallSourceHandler ToolCodeSignalReport args l of
           (l1, raw, Some e) \<Rightarrow> (l1, Inl (ScanLoop ''coachapi: codesignal_report'' e))
         | (l1, raw, None) \<Rightarrow>
             (case se_decode_report E raw of
                None \<Rightarrow> (l1, Inl (ScanText ''coachapi: decoding codesignal_report''))
              | Some report \<Rightarrow> (l1, Inr report)))"

definition analyzeBaselineViaLoop ::
  "'r scan_env \<Rightarrow> agent_loop \<Rightarrow> loaded_file list \<Rightarrow> string \<Rightarrow> string \<Rightarrow>
   agent_loop \<times> (scan_error + loaded_file list \<times> baseline_report)" where
  "analyzeBaselineViaLoop E l files repo revision =
     (case analyze_files E l files of
        (l1, Inl e) \<Rightarrow> (l1, Inl e)
      | (l1, Inr (loaded, changes)) \<Rightarrow>
          (case codesignalReportViaLoop E l1 changes repo revision of
             (l2, Inl e) \<Rightarrow> (l2, Inl e)
           | (l2, Inr report) \<Rightarrow> (l2, Inr (loaded, report))))"

definition newAnalyzeLoop :: "'r scan_env \<Rightarrow> scan_config \<Rightarrow> nat \<Rightarrow> agent_loop" where
  "newAnalyzeLoop E cfg fileCount =
     (let n = int fileCount + 1 + 10;
          tools = (if n < DefaultMaxToolCalls then DefaultMaxToolCalls else n)
      in configure cfg (New (se_defaults E) (se_analyze E)
           \<lparr>op_budget = \<lparr>MaxToolCalls = tools, MaxModelCalls = 0, MaxWallTime = 0\<rparr>, op_semantics = None, op_code_signal = None\<rparr>))"

record prepared_baseline =
  pb_loaded :: "loaded_file list"
  pb_report :: "baseline_report option"
  pb_findings :: "job_finding list"
  pb_commitSHA :: string

definition analyze_and_record ::
  "'r scan_env \<Rightarrow> scan_config \<Rightarrow> 'w job_writer \<Rightarrow> scan_params \<Rightarrow> string \<Rightarrow> nat \<Rightarrow> loaded_file list \<Rightarrow> 'w scan_state \<Rightarrow>
   'w scan_state \<times> (scan_error + prepared_baseline)" where
  "analyze_and_record E cfg W params sha fileCount files st =
     (case analyzeBaselineViaLoop E (newAnalyzeLoop E cfg fileCount) files
             (sp_RepoOwner params @ ''/'' @ sp_RepoName params) sha of
        (l, Inl e) \<Rightarrow> (st, Inl e)
      | (l, Inr (loaded, report)) \<Rightarrow>
          (case findingsFromCodeSignalReport E (Some report) (observe cfg l st) of
             (st1, det) \<Rightarrow>
               (case insertBaselineFindings W det st1 of
                  (st2, Some e) \<Rightarrow> (st2, Inl e)
                | (st2, None) \<Rightarrow>
                    (st2, Inr \<lparr>pb_loaded = loaded, pb_report = Some report, pb_findings = det, pb_commitSHA = sha\<rparr>))))"

text \<open>Entries have distinct paths, so sort.Slice by path is determined.\<close>

definition sort_entries :: "file_entry list \<Rightarrow> file_entry list" where
  "sort_entries = stable_sort (\<lambda>a b. cmp_compare (fe_Path a) (fe_Path b))"

definition prepareRepoBaseline ::
  "'r scan_env \<Rightarrow> scan_config \<Rightarrow> job \<Rightarrow> 'w job_writer \<Rightarrow> 'w scan_state \<Rightarrow>
   ('w scan_state \<times> (scan_error + prepared_baseline)) option" where
  "prepareRepoBaseline E cfg jb W st =
     (if job_kind jb \<noteq> JobKindRepoBaselineScan
      then Some (st, Inl (ScanText (''coachapi: unsupported job kind '' @ fx_quote (se_fs E) (job_kind jb) @ '' for baseline handler'')))
      else
     (case parseBaselineParams (job_params jb) of
        Inl e \<Rightarrow> Some (st, Inl (ScanText e))
      | Inr params \<Rightarrow>
     (case resolveBaselineTreeSource (se_fs E) (sc_Source cfg) params of
        Inl e \<Rightarrow> Some (st, Inl (ScanText e))
      | Inr src \<Rightarrow>
     (case sr_ResolveCommitSHA src (sp_RepoOwner params) (sp_RepoName params) (sp_Ref params) of
        Inl e \<Rightarrow> Some (st, Inl (ScanFetch (mapBaselineFetchError e)))
      | Inr sha \<Rightarrow>
     (case sr_ListFiles src (sp_RepoOwner params) (sp_RepoName params) sha
             \<lparr>lo_MaxFiles = sc_MaxFiles cfg, lo_MaxTotalBytes = sc_MaxTotalBytes cfg\<rparr> of
        None \<Rightarrow> None
      | Some (Inl e) \<Rightarrow> Some (st, Inl (ScanFetch (mapBaselineFetchError e)))
      | Some (Inr entries) \<Rightarrow>
     (case loadBaselineFiles src params sha (sort_entries entries) of
        Inl e \<Rightarrow> Some (st, Inl (ScanFetch e))
      | Inr files \<Rightarrow> Some (analyze_and_record E cfg W params sha (length entries) files st)))))))"

section \<open>Completion\<close>

definition seedRubricVersions :: "(string \<times> string) list" where
  "seedRubricVersions = map (\<lambda>d. (rd_id d, rd_version d)) Seed"

definition baselineAnalyzerVersion :: string where "baselineAnalyzerVersion = ''codesignal@1''"

definition baselineCompletion :: "scan_config \<Rightarrow> 'w job_writer \<Rightarrow> string \<Rightarrow> completion" where
  "baselineCompletion cfg W sha =
     \<lparr>cp_attempt = cl_attempt (jw_Lease W), cp_commit_sha = sha, cp_findings = [], cp_diagnostics = [],
      cp_versions = \<lparr>rv_analyzer = baselineAnalyzerVersion, rv_rubrics = seedRubricVersions\<rparr>,
      cp_finished_at = sc_Now cfg, cp_generated_at = sc_Now cfg\<rparr>"

section \<open>Outcomes of a rubric tool\<close>

text \<open>\<open>json.Marshal\<close> of a tool result as it is.\<close>

definition marshal_result :: "tool_result \<Rightarrow> raw_message option" where
  "marshal_result r =
     marshal tool_result_ty
       (GStruct [GString (to_FindingRef r), GString (to_RubricID r), GString (to_RubricVersion r),
         gptr GString (to_ModelIdentity r), gptr GString (to_LogicalModelID r), gptr GString (to_ServedModelID r),
         GRaw (to_Judgment r), gptr diagnostic_val (to_Diagnostic r)])"

type_synonym job_outcome = "job_finding option \<times> job_diagnostic option"

definition jobOutcomeFromRubricTool ::
  "'r scan_env \<Rightarrow> nat \<Rightarrow> raw_message \<Rightarrow> string list \<Rightarrow> scan_error + job_outcome" where
  "jobOutcomeFromRubricTool E n raw discs =
     (case parseToolResult raw of
        None \<Rightarrow> Inl (ScanText ''coachapi: decoding rubric tool result'')
      | Some tr \<Rightarrow>
     (case to_Diagnostic tr of
        Some g \<Rightarrow> Inr (None, Some (new_diagnostic E n (rg_Scope g) (rg_Message g)))
      | None \<Rightarrow>
     if \<not> HasJudgment tr
     then Inr (None, Some (new_diagnostic E n (''rubric:'' @ to_RubricID tr) ''judgment failed: empty result''))
     else
     (case marshal_result tr of
        None \<Rightarrow> Inl (ScanText ''json: error calling MarshalJSON'')
      | Some payload \<Rightarrow>
          Inr (Some \<lparr>jf_id = se_uuid E n, jf_job_id = [], jf_attempt = 0, jf_source = FindingSourceAgent,
                 jf_rubric_id = Some (to_RubricID tr), jf_rubric_version = Some (to_RubricVersion tr),
                 jf_model_identity = to_ModelIdentity tr, jf_payload = payload,
                 jf_payload_hash = stablePayloadHash E ([''agent'', to_RubricID tr, se_text E payload] @ discs),
                 jf_created_at = 0\<rparr>, None))))"

definition opt_list :: "'a option \<Rightarrow> 'a list" where
  "opt_list x = (case x of None \<Rightarrow> [] | Some v \<Rightarrow> [v])"

text \<open>Every result of a pack draws one UUID.\<close>

fun jobOutcomesFromToolPack ::
  "'r scan_env \<Rightarrow> nat \<Rightarrow> tool_result list \<Rightarrow> scan_error + job_finding list \<times> job_diagnostic list" where
  "jobOutcomesFromToolPack E n [] = Inr ([], [])"
| "jobOutcomesFromToolPack E n (tr # trs) =
     (case marshal_result tr of
        None \<Rightarrow> Inl (ScanText ''json: error calling MarshalJSON'')
      | Some raw \<Rightarrow>
     (case jobOutcomeFromRubricTool E n raw [to_FindingRef tr] of
        Inl e \<Rightarrow> Inl e
      | Inr (af, d) \<Rightarrow>
          (case jobOutcomesFromToolPack E (n + 1) trs of
             Inl e \<Rightarrow> Inl e
           | Inr (fs, ds) \<Rightarrow> Inr (opt_list af @ fs, opt_list d @ ds))))"

definition jobOutcomeFromSingularToolResult ::
  "'r scan_env \<Rightarrow> nat \<Rightarrow> raw_message \<Rightarrow> scan_error + job_finding list \<times> job_diagnostic list" where
  "jobOutcomeFromSingularToolResult E n raw =
     (case parseToolResult raw of
        None \<Rightarrow> Inl (ScanText ''coachapi: decoding rubric tool result'')
      | Some tr \<Rightarrow>
          (case jobOutcomeFromRubricTool E n raw (if to_FindingRef tr \<noteq> [] then [to_FindingRef tr] else []) of
             Inl e \<Rightarrow> Inl e
           | Inr (af, d) \<Rightarrow> Inr (opt_list af, opt_list d)))"

definition jobOutcomesFromHiddenMutationResult ::
  "'r scan_env \<Rightarrow> nat \<Rightarrow> raw_message \<Rightarrow> scan_error + job_finding list \<times> job_diagnostic list" where
  "jobOutcomesFromHiddenMutationResult E n raw =
     (if IsToolPackResult raw
      then (case ParseToolPackResult raw of
              Inl e \<Rightarrow> Inl (ScanText e)
            | Inr results \<Rightarrow> jobOutcomesFromToolPack E n results)
      else jobOutcomeFromSingularToolResult E n raw)"

section \<open>The judgment loop\<close>

definition DefaultJudgmentMaxWallTime :: duration where "DefaultJudgmentMaxWallTime = 10 * 60 * second"

definition scan_rubric_env :: "'r scan_env \<Rightarrow> scan_config \<Rightarrow> rubric_env" where
  "scan_rubric_env E cfg =
     \<lparr>rb_ctx = se_tool_ctx E,
      rb_judge = Some (case sc_Gateway cfg of Some gw \<Rightarrow> gw | None \<Rightarrow> (\<lambda>n req. stub_Judge None (se_stub_ctx E n) req)),
      rb_indent = se_indent E\<rparr>"

definition newJudgmentLoop :: "'r scan_env \<Rightarrow> scan_config \<Rightarrow> nat \<Rightarrow> scan_error + agent_loop" where
  "newJudgmentLoop E cfg hiddenCount =
     (let wall = (if sc_JudgmentMaxWallTime cfg \<le> 0 then DefaultJudgmentMaxWallTime else sc_JudgmentMaxWallTime cfg);
          n = int hiddenCount + 1 + 10;
          tools = (if n < DefaultMaxToolCalls then DefaultMaxToolCalls else n);
          l = New (se_defaults E) (se_judgment E)
                \<lparr>op_budget = \<lparr>MaxToolCalls = tools, MaxModelCalls = 0, MaxWallTime = wall\<rparr>, op_semantics = None,
                 op_code_signal = None\<rparr>
      in case RegisterTools (se_defaults E) (scan_rubric_env E cfg) l of
           (l1, Some e) \<Rightarrow> Inl (ScanLoop ''coachapi: registering rubric tools'' e)
         | (l1, None) \<Rightarrow> Inr (configure cfg l1))"

section \<open>Hidden-mutation findings\<close>

definition by_path :: "loaded_file list \<Rightarrow> string \<rightharpoonup> loaded_file" where
  "by_path files = foldl (\<lambda>m f. m(lb_Path f \<mapsto> f)) Map.empty files"

definition file_at :: "(string \<rightharpoonup> loaded_file) \<Rightarrow> string \<Rightarrow> loaded_file" where
  "file_at m path = (case m path of Some f \<Rightarrow> f | None \<Rightarrow> \<lparr>lb_Path = path, lb_Language = [], lb_Content = []\<rparr>)"

definition signal_row :: "signal \<Rightarrow> int" where
  "signal_row sig = wrap64 (int (StartRow (sg_location sig)))"

text \<open>A candidate pairs the finding with its signal.\<close>

definition candidate_of ::
  "'r scan_env \<Rightarrow> (string \<rightharpoonup> loaded_file) \<Rightarrow> pack_config \<Rightarrow> job_finding \<Rightarrow> signal \<Rightarrow> pack_candidate" where
  "candidate_of E files cfg f sig =
     \<lparr>kc_ref = jf_payload_hash f, kc_path = sg_path sig, kc_row = signal_row sig, kc_severity = sg_severity sig,
      kc_confidence = sg_confidence sig, kc_payload = se_text E (jf_payload f),
      kc_evidence_chars = int (length (FormatSpanWindow (lb_Content (file_at files (sg_path sig))) (signal_row sig)
        (pk_WindowLines cfg)))\<rparr>"

fun collectHiddenMutationCandidates ::
  "'r scan_env \<Rightarrow> (string \<rightharpoonup> loaded_file) \<Rightarrow> pack_config \<Rightarrow> job_finding list \<Rightarrow>
   (pack_candidate \<times> job_finding \<times> signal) list" where
  "collectHiddenMutationCandidates E files cfg [] = []"
| "collectHiddenMutationCandidates E files cfg (f # fs) =
     (if jf_source f \<noteq> FindingSourceDeterministic then collectHiddenMutationCandidates E files cfg fs
      else (case hiddenMutationSignal (jf_payload f) of
              None \<Rightarrow> collectHiddenMutationCandidates E files cfg fs
            | Some sig \<Rightarrow> (candidate_of E files cfg f sig, f, sig) # collectHiddenMutationCandidates E files cfg fs))"

definition countHiddenMutationFindings :: "job_finding list \<Rightarrow> nat" where
  "countHiddenMutationFindings fs =
     length (filter (\<lambda>f. jf_source f = FindingSourceDeterministic \<and> hiddenMutationSignal (jf_payload f) \<noteq> None) fs)"

text \<open>The map from finding refs to candidates: a later candidate replaces an earlier one.\<close>

definition by_ref :: "(pack_candidate \<times> job_finding \<times> signal) list \<Rightarrow> string \<rightharpoonup> job_finding \<times> signal" where
  "by_ref cands = foldl (\<lambda>m (c, meta). m(kc_ref c \<mapsto> meta)) Map.empty cands"

definition pack_item_for ::
  "(string \<rightharpoonup> loaded_file) \<Rightarrow> pack_config \<Rightarrow> string \<Rightarrow> job_finding \<times> signal \<Rightarrow> pack_item" where
  "pack_item_for files cfg r meta =
     (let lf = file_at files (sg_path (snd meta)) in
      \<lparr>pi_FindingRef = r, pi_Finding = jf_payload (fst meta),
       pi_File = \<lparr>fc_Path = lb_Path lf, fc_Language = lb_Language lf,
                  fc_Content = FormatSpanWindow (lb_Content lf) (signal_row (snd meta)) (pk_WindowLines cfg)\<rparr>\<rparr>)"

definition hiddenMutationPackItems ::
  "judgment_pack \<Rightarrow> (string \<rightharpoonup> job_finding \<times> signal) \<Rightarrow> (string \<rightharpoonup> loaded_file) \<Rightarrow> pack_config \<Rightarrow> pack_item list" where
  "hiddenMutationPackItems refs byRef files cfg =
     concat (map (\<lambda>r. case byRef r of None \<Rightarrow> [] | Some meta \<Rightarrow> [pack_item_for files cfg r meta]) refs)"

definition pack_args_ty :: gty where
  "pack_args_ty = TyStruct [(''items'', False, TySlice pack_item_ty)]"

definition callHiddenMutationPack ::
  "'r scan_env \<Rightarrow> 'w job_writer \<Rightarrow> pack_item list \<Rightarrow> int \<Rightarrow> int \<Rightarrow> agent_loop \<Rightarrow> 'w scan_state \<Rightarrow>
   agent_loop \<times> 'w scan_state \<times> (scan_error + job_finding list \<times> job_diagnostic list)" where
  "callHiddenMutationPack E W items tot judged l st =
     (case marshal pack_args_ty (GStruct [GSlice (map pack_item_val items)]) of
        None \<Rightarrow> (l, st, Inl (ScanText ''json: error calling MarshalJSON''))
      | Some args \<Rightarrow>
     (case Call (se_judgment E) CallSourceHandler IDHiddenMutationContextualization (of_raw args) l of
        (l1, raw, Some e) \<Rightarrow>
          (l1, st, Inl (if errors_is e CtxCanceled then ScanLoop [] e
                        else if budget_error e then ScanBudget judged (tot - judged) e
                        else ScanLoop (''coachapi: rubric '' @ IDHiddenMutationContextualization) e))
      | (l1, raw, None) \<Rightarrow>
     (case jobOutcomesFromHiddenMutationResult E (ss_uuids st) (to_raw raw) of
        Inl e \<Rightarrow> (l1, st, Inl e)
      | Inr (fs, ds) \<Rightarrow>
          (case insertBaselineFindings W fs (st\<lparr>ss_uuids := ss_uuids st + length fs + length ds\<rparr>) of
             (st1, Some e) \<Rightarrow> (l1, st1, Inl e)
           | (st1, None) \<Rightarrow> (l1, st1, Inr (fs, ds))))))"

type_synonym 'w judged = "agent_loop \<times> 'w scan_state \<times> job_finding list \<times> job_diagnostic list \<times> scan_error option"

fun judge_packs ::
  "'r scan_env \<Rightarrow> 'w job_writer \<Rightarrow> (string \<rightharpoonup> job_finding \<times> signal) \<Rightarrow> (string \<rightharpoonup> loaded_file) \<Rightarrow> pack_config \<Rightarrow> int \<Rightarrow>
   judgment_pack list \<Rightarrow> int \<Rightarrow> job_finding list \<Rightarrow> job_diagnostic list \<Rightarrow> agent_loop \<Rightarrow> 'w scan_state \<Rightarrow> 'w judged" where
  "judge_packs E W byRef files cfg tot [] judged afs ds l st = (l, st, afs, ds, None)"
| "judge_packs E W byRef files cfg tot (pack # packs) judged afs ds l st =
     (let items = hiddenMutationPackItems pack byRef files cfg in
      if length items = 0 then judge_packs E W byRef files cfg tot packs judged afs ds l st
      else (case callHiddenMutationPack E W items tot judged l st of
              (l1, st1, Inl e) \<Rightarrow> (l1, st1, afs, ds, Some e)
            | (l1, st1, Inr (packFs, packDs)) \<Rightarrow>
                judge_packs E W byRef files cfg tot packs (judged + int (length packFs)) (afs @ packFs) (ds @ packDs) l1 st1))"

definition judgmentCapDiagnostic :: "'r scan_env \<Rightarrow> nat \<Rightarrow> int \<Rightarrow> int \<Rightarrow> job_diagnostic" where
  "judgmentCapDiagnostic E n sel omitted =
     new_diagnostic E n ''judgment_cap'' (''judgment_cap_omitted selected='' @ itoa sel @ '' omitted='' @ itoa omitted)"

definition judgeHiddenMutationFindings ::
  "'r scan_env \<Rightarrow> 'w job_writer \<Rightarrow> (string \<rightharpoonup> loaded_file) \<Rightarrow> job_finding list \<Rightarrow> pack_config \<Rightarrow> int \<Rightarrow>
   agent_loop \<Rightarrow> 'w scan_state \<Rightarrow> 'w judged" where
  "judgeHiddenMutationFindings E W files det cfg mx l st =
     (let cands = collectHiddenMutationCandidates E files cfg det in
      if length cands = 0 then (l, st, [], [], None)
      else
        let (sel, omitted) = PrioritizeJudgmentCandidates (map fst cands) mx;
            (st1, ds) = (if omitted > 0
              then (st\<lparr>ss_uuids := ss_uuids st + 1\<rparr>, [judgmentCapDiagnostic E (ss_uuids st) (int (length sel)) omitted])
              else (st, []))
        in judge_packs E W (by_ref cands) files cfg (int (length sel)) (PackJudgmentCandidates sel cfg) 0 [] ds l st1)"

section \<open>Change cohesion\<close>

definition cohesion_call_ty :: gty where
  "cohesion_call_ty = TyStruct [(''files'', False, TySlice (TyStruct [(''path'', False, TyString), (''language'', False, TyString)])),
     (''findings'', False, TySlice TyRaw)]"

definition cohesion_val :: "loaded_file list \<Rightarrow> job_finding list \<Rightarrow> gval" where
  "cohesion_val files det = GStruct
     [GSlice (map (\<lambda>f. GStruct [GString (lb_Path f), GString (lb_Language f)]) files),
      GSlice (map (\<lambda>f. GRaw (jf_payload f)) (filter (\<lambda>f. jf_source f = FindingSourceDeterministic) det))]"

definition judgeChangeCohesion ::
  "'r scan_env \<Rightarrow> loaded_file list \<Rightarrow> job_finding list \<Rightarrow> agent_loop \<Rightarrow> 'w scan_state \<Rightarrow>
   agent_loop \<times> 'w scan_state \<times> (scan_error + job_finding list \<times> job_diagnostic list)" where
  "judgeChangeCohesion E files det l st =
     (case marshal cohesion_call_ty (cohesion_val files det) of
        None \<Rightarrow> (l, st, Inl (ScanText ''json: error calling MarshalJSON''))
      | Some args \<Rightarrow>
     (case Call (se_judgment E) CallSourceHandler IDChangeCohesion (of_raw args) l of
        (l1, raw, Some e) \<Rightarrow> (l1, st, Inl (ScanLoop (''coachapi: rubric '' @ IDChangeCohesion) e))
      | (l1, raw, None) \<Rightarrow>
     (case jobOutcomeFromRubricTool E (ss_uuids st) (to_raw raw) [] of
        Inl e \<Rightarrow> (l1, st, Inl e)
      | Inr (af, d) \<Rightarrow> (l1, st\<lparr>ss_uuids := ss_uuids st + 1\<rparr>, Inr (opt_list af, opt_list d)))))"

section \<open>The judgment stage\<close>

definition judgeBaselineViaLoop ::
  "'r scan_env \<Rightarrow> 'w job_writer \<Rightarrow> loaded_file list \<Rightarrow> job_finding list \<Rightarrow> pack_config \<Rightarrow> int \<Rightarrow>
   agent_loop \<Rightarrow> 'w scan_state \<Rightarrow> 'w judged" where
  "judgeBaselineViaLoop E W files det cfg0 mx0 l st =
     (case judgeHiddenMutationFindings E W (by_path files) det (ApplyPackConfigDefaults cfg0)
             (resolveMaxHiddenMutationJudgments mx0) l st of
        (l1, st1, afs, ds, Some e) \<Rightarrow> (l1, st1, afs, ds, Some e)
      | (l1, st1, afs, ds, None) \<Rightarrow>
     (case judgeChangeCohesion E files det l1 st1 of
        (l2, st2, Inl e) \<Rightarrow>
          (l2, st2, afs, ds, Some (case e of
             ScanLoop p le \<Rightarrow> if budget_error le then ScanBudget (int (length afs)) 0 (WrappedError p le) else e
           | _ \<Rightarrow> e))
      | (l2, st2, Inr (cfs, cds)) \<Rightarrow>
     (case insertBaselineFindings W cfs st2 of
        (st3, Some e) \<Rightarrow> (l2, st3, afs, ds, Some e)
      | (st3, None) \<Rightarrow> (l2, st3, afs @ cfs, ds @ cds, None))))"

definition judgmentBudgetDiagnostic :: "'r scan_env \<Rightarrow> nat \<Rightarrow> int \<Rightarrow> int \<Rightarrow> loop_error \<Rightarrow> job_diagnostic" where
  "judgmentBudgetDiagnostic E n judged remaining e =
     new_diagnostic E n ''judgment_budget''
       (''judgment_budget_exceeded judged='' @ itoa judged @ '' remaining='' @ itoa remaining @ '': '' @ se_loop_text E e)"

definition completeAfterJudgmentError ::
  "'r scan_env \<Rightarrow> scan_config \<Rightarrow> 'w job_writer \<Rightarrow> string \<Rightarrow> baseline_report option \<Rightarrow> scan_error \<Rightarrow> job_diagnostic list \<Rightarrow>
   'w scan_state \<Rightarrow> 'w scan_state \<times> (scan_error + completion)" where
  "completeAfterJudgmentError E cfg W sha report err prior st =
     (if is_canceled err then (st, Inl err)
      else
        let d = (case err of
               ScanBudget judged remaining e \<Rightarrow> judgmentBudgetDiagnostic E (ss_uuids st) judged remaining e
             | _ \<Rightarrow> new_diagnostic E (ss_uuids st) ''judgment'' (''judgment phase failed: '' @ se_error_text E err));
            (st1, rest) = diagnosticsFromCodeSignal E report (st\<lparr>ss_uuids := ss_uuids st + 1\<rparr>)
        in case insertBaselineDiagnostics W (prior @ [d] @ rest) st1 of
             (st2, Some e) \<Rightarrow> (st2, Inl e)
           | (st2, None) \<Rightarrow> (st2, Inr (baselineCompletion cfg W sha)))"

definition judgePreparedBaseline ::
  "'r scan_env \<Rightarrow> scan_config \<Rightarrow> 'w job_writer \<Rightarrow> prepared_baseline \<Rightarrow> 'w scan_state \<Rightarrow>
   'w scan_state \<times> (scan_error + completion)" where
  "judgePreparedBaseline E cfg W p st =
     (case newJudgmentLoop E cfg (countHiddenMutationFindings (pb_findings p)) of
        Inl e \<Rightarrow> (st, Inl e)
      | Inr l \<Rightarrow>
     (case judgeBaselineViaLoop E W (pb_loaded p) (pb_findings p) (sc_PackConfig cfg) (sc_MaxHiddenMutationJudgments cfg) l st of
        (l1, st1, afs, agentDiags, err) \<Rightarrow>
          let st2 = observe cfg l1 st1 in
          (case err of
             Some e \<Rightarrow> completeAfterJudgmentError E cfg W (pb_commitSHA p) (pb_report p) e agentDiags st2
           | None \<Rightarrow>
               let (st3, rest) = diagnosticsFromCodeSignal E (pb_report p) st2 in
               (case insertBaselineDiagnostics W (agentDiags @ rest) st3 of
                  (st4, Some e) \<Rightarrow> (st4, Inl e)
                | (st4, None) \<Rightarrow> (st4, Inr (baselineCompletion cfg W (pb_commitSHA p)))))))"

definition runRepoBaselineScan ::
  "'r scan_env \<Rightarrow> scan_config \<Rightarrow> job \<Rightarrow> 'w job_writer \<Rightarrow> 'w scan_state \<Rightarrow>
   ('w scan_state \<times> (scan_error + completion)) option" where
  "runRepoBaselineScan E cfg jb W st =
     (case prepareRepoBaseline E cfg jb W st of
        None \<Rightarrow> None
      | Some (st1, Inl e) \<Rightarrow> Some (st1, Inl e)
      | Some (st1, Inr p) \<Rightarrow> Some (judgePreparedBaseline E cfg W p st1))"


section \<open>Outcomes are the judges' and signals are the analyzer's\<close>

definition is_agent :: "job_finding \<Rightarrow> bool" where
  "is_agent f \<longleftrightarrow> jf_source f = FindingSourceAgent"

definition is_deterministic :: "job_finding \<Rightarrow> bool" where
  "is_deterministic f \<longleftrightarrow> jf_source f = FindingSourceDeterministic"

lemma rubric_outcome_agent:
  "jobOutcomeFromRubricTool E n raw discs = Inr (af, d) \<Longrightarrow> list_all is_agent (opt_list af)"
  by (auto simp: jobOutcomeFromRubricTool_def is_agent_def opt_list_def split: option.splits if_splits)

lemma singular_outcome_agent:
  "jobOutcomeFromSingularToolResult E n raw = Inr (fs, ds) \<Longrightarrow> list_all is_agent fs"
  by (auto simp: jobOutcomeFromSingularToolResult_def split: option.splits sum.splits dest!: rubric_outcome_agent)

lemma pack_outcomes_agent:
  "jobOutcomesFromToolPack E n trs = Inr (fs, ds) \<Longrightarrow> list_all is_agent fs"
  by (induction trs arbitrary: n fs ds)
    (auto split: option.splits sum.splits dest!: rubric_outcome_agent)

lemma hidden_outcomes_agent:
  "jobOutcomesFromHiddenMutationResult E n raw = Inr (fs, ds) \<Longrightarrow> list_all is_agent fs"
  by (auto simp: jobOutcomesFromHiddenMutationResult_def split: if_splits sum.splits
      dest: singular_outcome_agent pack_outcomes_agent)

text \<open>Every signal marshals, so each has its finding.\<close>

lemma elems_encode: "(\<And>v. v \<in> set vs \<Longrightarrow> json_encode t v \<noteq> None) \<Longrightarrow> encode_elems t vs \<noteq> None"
  by (induction vs) (auto, fastforce)

lemma entries_encode: "(\<And>e. e \<in> set m \<Longrightarrow> json_encode t (snd e) \<noteq> None) \<Longrightarrow> encode_entries t m \<noteq> None"
  by (induction m) (auto, fastforce)

lemma location_encodes: "\<exists>j. json_encode location_ty (location_val l) = Some j"
  by (simp add: location_ty_def location_val_def)

lemma provenance_encodes: "\<exists>j. json_encode provenance_ty (provenance_val p) = Some j"
  by (simp add: provenance_ty_def provenance_val_def)

lemma project_location_encodes: "\<exists>j. json_encode project_location_ty (project_location_val p) = Some j"
  using location_encodes [of "pl_location p"] by (auto simp: project_location_ty_def project_location_val_def)

lemma project_locations_encode: "\<exists>js. encode_elems project_location_ty (map project_location_val ps) = Some js"
  using elems_encode [of "map project_location_val ps" project_location_ty] project_location_encodes by fastforce

lemma path_step_encodes: "\<exists>j. json_encode path_step_ty (path_step_val s) = Some j"
  using project_locations_encode [of "st_locations s"]
  by (auto simp: path_step_ty_def path_step_val_def omit_empty_def)

lemma signal_marshals: "marshalSignal sig \<noteq> None"
proof -
  obtain ps where ps: "encode_elems project_location_ty (map project_location_val (sg_related sig)) = Some ps"
    using project_locations_encode by blast
  obtain ss where ss: "encode_elems path_step_ty (map path_step_val (sg_steps sig)) = Some ss"
    using elems_encode [of "map path_step_val (sg_steps sig)" path_step_ty] path_step_encodes by fastforce
  obtain rs where rs: "encode_elems TyString (map GString (sg_coverage_refs sig)) = Some rs"
    using elems_encode [of "map GString (sg_coverage_refs sig)" TyString] by fastforce
  obtain es where es: "encode_entries TyString (map (\<lambda>(k, v). (k, GString v)) (sg_machine_evidence sig)) = Some es"
    using entries_encode [of "map (\<lambda>(k, v). (k, GString v)) (sg_machine_evidence sig)" TyString] by fastforce
  obtain l where l: "json_encode location_ty (location_val (sg_location sig)) = Some l" using location_encodes by blast
  obtain p where p: "json_encode provenance_ty (provenance_val (sg_provenance sig)) = Some p"
    using provenance_encodes by blast
  show ?thesis by (simp add: marshalSignal_def marshal_def signal_ty_def signal_val_def ps ss rs es l p)
qed

lemma signal_findings_rows:
  "signal_findings E n sigs = (n', fs) \<Longrightarrow>
   n' = n + length sigs \<and> list_all is_deterministic fs \<and> map (Some \<circ> jf_payload) fs = map marshalSignal sigs"
proof (induction sigs arbitrary: n n' fs)
  case (Cons sig sigs)
  obtain payload where p: "marshalSignal sig = Some payload" using signal_marshals [of sig] by blast
  obtain m gs where g: "signal_findings E (n + 1) sigs = (m, gs)" by fastforce
  show ?case using Cons.prems Cons.IH [OF g] p g by (auto simp: is_deterministic_def det_finding_def)
qed simp

section \<open>What the scan writes\<close>

text \<open>From one state of the writer to another: the rows added, and a lease held stays held.\<close>

definition appended ::
  "('w \<Rightarrow> job_finding list) \<Rightarrow> ('w \<Rightarrow> job_diagnostic list) \<Rightarrow> ('w \<Rightarrow> bool) \<Rightarrow> 'w \<Rightarrow> job_finding list \<Rightarrow>
   job_diagnostic list \<Rightarrow> 'w \<Rightarrow> bool" where
  "appended finds diags held w fs ds w' \<longleftrightarrow>
     finds w' = finds w @ fs \<and> diags w' = diags w @ ds \<and> (held w \<longrightarrow> held w')"

lemma appended_refl [simp]: "appended finds diags held w [] [] w"
  by (simp add: appended_def)

lemma appended_trans [trans]:
  "appended finds diags held w fs ds w1 \<Longrightarrow> appended finds diags held w1 fs1 ds1 w2 \<Longrightarrow>
   appended finds diags held w (fs @ fs1) (ds @ ds1) w2"
  by (simp add: appended_def)

lemma observe_writer [simp]: "ss_writer (observe cfg l st) = ss_writer st"
  by (simp add: observe_def)

lemma findings_writer:
  "findingsFromCodeSignalReport E report st = (st', fs) \<Longrightarrow> ss_writer st' = ss_writer st"
  by (auto simp: findingsFromCodeSignalReport_def Let_def split: option.splits prod.splits)

lemma diagnostics_writer:
  "diagnosticsFromCodeSignal E report st = (st', ds) \<Longrightarrow>
   ss_writer st' = ss_writer st \<and>
   ds = (case report of None \<Rightarrow> [] | Some r \<Rightarrow> signal_diagnostics E (ss_uuids st) (br_Diagnostics r))"
  by (auto simp: diagnosticsFromCodeSignal_def split: option.splits)

lemma cohesion_writer:
  "judgeChangeCohesion E files det l st = (l', st', r) \<Longrightarrow>
   ss_writer st' = ss_writer st \<and> (\<forall>fs ds. r = Inr (fs, ds) \<longrightarrow> list_all is_agent fs)"
  by (auto simp: judgeChangeCohesion_def split: option.splits sum.splits prod.splits dest: rubric_outcome_agent)

text \<open>A judgment loop is always built: the rubric tools have names, handlers and no core tool's name.\<close>

lemma rubric_tools_register: "\<exists>l1. RegisterTools D (scan_rubric_env E cfg) l = (l1, None)"
proof -
  have seed: "DefinitionByID IDHiddenMutationContextualization \<noteq> None" "DefinitionByID IDChangeCohesion \<noteq> None"
    by code_simp+
  have names: "\<not> isCoreToolName D IDHiddenMutationContextualization" "\<not> isCoreToolName D IDChangeCohesion"
    "IDHiddenMutationContextualization \<noteq> []" "IDChangeCohesion \<noteq> []"
    by (simp_all add: isCoreToolName_def coreToolDefs_def IDHiddenMutationContextualization_def IDChangeCohesion_def
        ToolSemanticsAnalyze_def ToolCodeSignalReport_def)
  show ?thesis
    using seed names
    by (auto simp: RegisterTools_def ToolSpecs_def scan_rubric_env_def seedJudgmentTool_def Register_def
        rejectCoreToolRegister_def)
qed

lemma judgment_loop_builds: "\<exists>l. newJudgmentLoop E cfg n = Inr l"
proof -
  obtain l1 where "RegisterTools (se_defaults E) (scan_rubric_env E cfg)
      (New (se_defaults E) (se_judgment E)
        \<lparr>op_budget = \<lparr>MaxToolCalls = max DefaultMaxToolCalls (int n + 1 + 10), MaxModelCalls = 0,
           MaxWallTime = (if sc_JudgmentMaxWallTime cfg \<le> 0 then DefaultJudgmentMaxWallTime else sc_JudgmentMaxWallTime cfg)\<rparr>,
         op_semantics = None, op_code_signal = None\<rparr>) = (l1, None)"
    using rubric_tools_register by blast
  then show ?thesis by (simp add: newJudgmentLoop_def Let_def max_def not_less split: if_splits)
qed

locale fenced_writer =
  fixes W :: "'w job_writer"
    and finds :: "'w \<Rightarrow> job_finding list"
    and diags :: "'w \<Rightarrow> job_diagnostic list"
    and held :: "'w \<Rightarrow> bool"
    and stamp :: "job_finding \<Rightarrow> job_finding"
    and dstamp :: "job_diagnostic \<Rightarrow> job_diagnostic"
  assumes insert_findings: "jw_InsertFindings W w fs = (w', r) \<Longrightarrow>
      appended finds diags held w (if is_ok r then map stamp fs else []) [] w' \<and> (held w \<longrightarrow> is_ok r)"
    and insert_diagnostics: "jw_InsertDiagnostics W w ds = (w', r) \<Longrightarrow>
      appended finds diags held w [] (if is_ok r then map dstamp ds else []) w' \<and> (held w \<longrightarrow> is_ok r)"
begin

abbreviation grows :: "'w scan_state \<Rightarrow> job_finding list \<Rightarrow> job_diagnostic list \<Rightarrow> 'w scan_state \<Rightarrow> bool" where
  "grows st fs ds st' \<equiv> appended finds diags held (ss_writer st) fs ds (ss_writer st')"

lemma baseline_findings:
  assumes "insertBaselineFindings W fs st = (st', err)"
  shows "grows st (if err = None then map stamp fs else []) [] st'
    \<and> (held (ss_writer st) \<longrightarrow> err = None) \<and> (err \<noteq> None \<longrightarrow> (\<exists>e. err = Some (ScanWriter e)))"
proof (cases "fs = []")
  case False
  obtain w r where i: "jw_InsertFindings W (ss_writer st) fs = (w, r)" by fastforce
  show ?thesis using assms insert_findings [OF i] False i
    by (cases r) (auto simp: insertBaselineFindings_def)
qed (use assms in \<open>simp add: insertBaselineFindings_def\<close>)

lemma baseline_diagnostics:
  assumes "insertBaselineDiagnostics W ds st = (st', err)"
  shows "grows st [] (if err = None then map dstamp ds else []) st'
    \<and> (held (ss_writer st) \<longrightarrow> err = None) \<and> (err \<noteq> None \<longrightarrow> (\<exists>e. err = Some (ScanWriter e)))"
proof (cases "ds = []")
  case False
  obtain w r where i: "jw_InsertDiagnostics W (ss_writer st) ds = (w, r)" by fastforce
  show ?thesis using assms insert_diagnostics [OF i] False i
    by (cases r) (auto simp: insertBaselineDiagnostics_def)
qed (use assms in \<open>simp add: insertBaselineDiagnostics_def\<close>)

lemma pack_call_rows:
  assumes "callHiddenMutationPack E W items tot judged l st = (l', st', r)"
  shows "grows st (case r of Inl e \<Rightarrow> [] | Inr (fs, ds) \<Rightarrow> map stamp fs) [] st'
    \<and> (\<forall>fs ds. r = Inr (fs, ds) \<longrightarrow> list_all is_agent fs)"
  using assms unfolding callHiddenMutationPack_def
  by (auto split: option.splits prod.splits sum.splits if_splits dest!: baseline_findings
      dest: hidden_outcomes_agent hidden_outcomes_agent [OF sym])

lemma judge_packs_rows:
  "judge_packs E W byRef files cfg tot packs judged afs ds l st = (l', st', afs', ds', err) \<Longrightarrow>
   \<exists>new. afs' = afs @ new \<and> list_all is_agent new \<and> grows st (map stamp new) [] st'"
proof (induction packs arbitrary: judged afs ds l st)
  case (Cons pack packs)
  let ?items = "hiddenMutationPackItems pack byRef files cfg"
  show ?case
  proof (cases "?items = []")
    case True
    then show ?thesis using Cons by simp
  next
    case False
    obtain l1 st1 r where c: "callHiddenMutationPack E W ?items tot judged l st = (l1, st1, r)" by (metis prod_cases3)
    show ?thesis
    proof (cases r)
      case (Inl e)
      then show ?thesis using Cons.prems c False pack_call_rows [OF c] by simp
    next
      case (Inr p)
      obtain fs1 ds1 where p: "p = (fs1, ds1)" by fastforce
      have one: "grows st (map stamp fs1) [] st1" "list_all is_agent fs1"
        using pack_call_rows [OF c] Inr p by auto
      have "judge_packs E W byRef files cfg tot packs (judged + int (length fs1)) (afs @ fs1) (ds @ ds1) l1 st1
          = (l', st', afs', ds', err)"
        using Cons.prems c False Inr p by simp
      then obtain new where new: "afs' = (afs @ fs1) @ new" "list_all is_agent new" "grows st1 (map stamp new) [] st'"
        using Cons.IH by blast
      show ?thesis
        by (rule exI [of _ "fs1 @ new"]) (use new one appended_trans [OF one(1) new(3)] in auto)
    qed
  qed
qed simp

lemma hidden_judgments_rows:
  assumes "judgeHiddenMutationFindings E W files det cfg mx l st = (l', st', afs, ds, err)"
  shows "list_all is_agent afs \<and> grows st (map stamp afs) [] st'"
proof (cases "collectHiddenMutationCandidates E files cfg det = []")
  case False
  obtain sel omitted where s: "PrioritizeJudgmentCandidates (map fst (collectHiddenMutationCandidates E files cfg det)) mx
      = (sel, omitted)" by fastforce
  show ?thesis
    using assms False s
    by (auto simp: judgeHiddenMutationFindings_def Let_def split: if_splits dest!: judge_packs_rows)
qed (use assms in \<open>simp add: judgeHiddenMutationFindings_def\<close>)

lemma judgments_rows:
  assumes "judgeBaselineViaLoop E W files det cfg mx l st = (l', st', afs, ds, err)"
  shows "list_all is_agent afs \<and> grows st (map stamp afs) [] st'"
proof -
  obtain l1 st1 afs1 ds1 err1 where h: "judgeHiddenMutationFindings E W (by_path files) det (ApplyPackConfigDefaults cfg)
      (resolveMaxHiddenMutationJudgments mx) l st = (l1, st1, afs1, ds1, err1)" by (metis prod_cases5)
  note H = hidden_judgments_rows [OF h]
  obtain l2 st2 r where c: "judgeChangeCohesion E files det l1 st1 = (l2, st2, r)" by (metis prod_cases3)
  note C = cohesion_writer [OF c]
  show ?thesis
  proof (cases "err1 \<noteq> None \<or> \<not> is_ok r")
    case True
    then show ?thesis using assms h c H C
      by (cases err1; cases r) (auto simp: judgeBaselineViaLoop_def)
  next
    case False
    then obtain fs2 ds2 where r: "err1 = None" "r = Inr (fs2, ds2)" by (cases r) auto
    obtain st3 err3 where i: "insertBaselineFindings W fs2 st2 = (st3, err3)" by fastforce
    note I = baseline_findings [OF i]
    show ?thesis
      using assms h c r i H C I
      by (cases err3) (auto simp: judgeBaselineViaLoop_def dest: appended_trans [where ?fs1.0 = "[]" and ?ds1.0 = "[]"]
          appended_trans)
  qed
qed

text \<open>
  After the judgment: the agent rows written are those counted, and the stage ends with the
  completion and the report's diagnostics, or with a cancellation or a failed write.
\<close>

lemma degraded_rows:
  assumes "completeAfterJudgmentError E cfg W sha report err prior st = (st', r)"
  shows "\<exists>ds. grows st [] (map dstamp ds) st' \<and>
    (case r of
       Inr c \<Rightarrow> c = baselineCompletion cfg W sha \<and> \<not> is_canceled err
         \<and> (\<exists>d n rest. ds = prior @ d # rest
              \<and> rest = (case report of None \<Rightarrow> [] | Some rep \<Rightarrow> signal_diagnostics E n (br_Diagnostics rep)))
     | Inl e \<Rightarrow> ds = [] \<and> (is_canceled e \<or> \<not> held (ss_writer st)))"
proof (cases "is_canceled err")
  case True
  then show ?thesis using assms by (intro exI [of _ "[]"]) (auto simp: completeAfterJudgmentError_def)
next
  case False
  obtain st1 rest where d: "diagnosticsFromCodeSignal E report (st\<lparr>ss_uuids := ss_uuids st + 1\<rparr>) = (st1, rest)"
    by fastforce
  note D = diagnostics_writer [OF d]
  obtain dg where e: "completeAfterJudgmentError E cfg W sha report err prior st =
      (case insertBaselineDiagnostics W (prior @ [dg] @ rest) st1 of
         (st2, Some e) \<Rightarrow> (st2, Inl e) | (st2, None) \<Rightarrow> (st2, Inr (baselineCompletion cfg W sha)))"
    using False d by (simp add: completeAfterJudgmentError_def Let_def)
  obtain st2 err2 where i: "insertBaselineDiagnostics W (prior @ [dg] @ rest) st1 = (st2, err2)" by fastforce
  note I = baseline_diagnostics [OF i]
  show ?thesis
  proof (cases err2)
    case None
    have r: "r = Inr (baselineCompletion cfg W sha)" "st' = st2" using assms e i None by auto
    have g: "grows st [] (map dstamp (prior @ dg # rest)) st'" using I D r None by simp
    show ?thesis
      using False D r by (intro exI [of _ "prior @ dg # rest"] conjI [OF g]) auto
  next
    case (Some e)
    then show ?thesis using assms e i I D by (intro exI [of _ "[]"]) auto
  qed
qed

lemma judgment_stage_rows:
  assumes "judgePreparedBaseline E cfg W p st = (st', r)"
  shows "\<exists>agent ds. list_all is_agent agent \<and> grows st (map stamp agent) (map dstamp ds) st' \<and>
    (case r of
       Inr c \<Rightarrow> c = baselineCompletion cfg W (pb_commitSHA p)
         \<and> (\<exists>n. suffix (case pb_report p of None \<Rightarrow> [] | Some rep \<Rightarrow> signal_diagnostics E n (br_Diagnostics rep)) ds)
     | Inl e \<Rightarrow> ds = [] \<and> (is_canceled e \<or> \<not> held (ss_writer st)))"
proof -
  obtain l where l: "newJudgmentLoop E cfg (countHiddenMutationFindings (pb_findings p)) = Inr l"
    using judgment_loop_builds by blast
  obtain l1 st1 afs ads err where j: "judgeBaselineViaLoop E W (pb_loaded p) (pb_findings p) (sc_PackConfig cfg)
      (sc_MaxHiddenMutationJudgments cfg) l st = (l1, st1, afs, ads, err)" by (metis prod_cases5)
  note J = judgments_rows [OF j]
  have base: "list_all is_agent afs" "grows st (map stamp afs) [] (observe cfg l1 st1)" using J by simp_all
  have unheld: "\<not> held (ss_writer (observe cfg l1 st1)) \<Longrightarrow> \<not> held (ss_writer st)"
    using base(2) by (auto simp: appended_def)
  have both: "grows st (map stamp afs) (map dstamp ds) st'" if "grows (observe cfg l1 st1) [] (map dstamp ds) st'" for ds
    using appended_trans [OF base(2) that] by simp
  show ?thesis
  proof (cases err)
    case (Some e)
    then have "completeAfterJudgmentError E cfg W (pb_commitSHA p) (pb_report p) e ads (observe cfg l1 st1) = (st', r)"
      using assms l j by (simp add: judgePreparedBaseline_def)
    from degraded_rows [OF this] obtain ds where ds: "grows (observe cfg l1 st1) [] (map dstamp ds) st'"
      "case r of Inr c \<Rightarrow> c = baselineCompletion cfg W (pb_commitSHA p) \<and> \<not> is_canceled e
         \<and> (\<exists>d n rest. ds = ads @ d # rest
              \<and> rest = (case pb_report p of None \<Rightarrow> [] | Some rep \<Rightarrow> signal_diagnostics E n (br_Diagnostics rep)))
       | Inl e \<Rightarrow> ds = [] \<and> (is_canceled e \<or> \<not> held (ss_writer (observe cfg l1 st1)))" by blast
    have suf: "suffix rest (ads @ d # rest)" for d rest by (simp add: suffix_def)
    show ?thesis
      by (rule exI [of _ afs], rule exI [of _ ds])
        (use base(1) both [OF ds(1)] ds(2) unheld suf in \<open>auto split: sum.splits\<close>)
  next
    case None
    obtain st3 rest where d: "diagnosticsFromCodeSignal E (pb_report p) (observe cfg l1 st1) = (st3, rest)" by fastforce
    note D = diagnostics_writer [OF d]
    obtain st4 err4 where i: "insertBaselineDiagnostics W (ads @ rest) st3 = (st4, err4)" by fastforce
    note I = baseline_diagnostics [OF i]
    have r: "st' = st4" "r = (case err4 of Some e \<Rightarrow> Inl e | None \<Rightarrow> Inr (baselineCompletion cfg W (pb_commitSHA p)))"
      using assms l j None d i by (auto simp: judgePreparedBaseline_def split: option.splits)
    show ?thesis
    proof (cases err4)
      case None
      have g: "grows (observe cfg l1 st1) [] (map dstamp (ads @ rest)) st'" using I D r None by simp
      have "suffix rest (ads @ rest)" by (simp add: suffix_def)
      then show ?thesis
        using base(1) both [OF g] D r None by (intro exI [of _ afs] exI [of _ "ads @ rest"]) auto
    next
      case (Some e)
      have g: "grows (observe cfg l1 st1) [] (map dstamp []) st'" using I D r Some by simp
      show ?thesis
        using base(1) both [OF g] I D r Some unheld by (intro exI [of _ afs] exI [of _ "[]"]) auto
    qed
  qed
qed

lemma preparation_rows:
  assumes "prepareRepoBaseline E cfg jb W st = Some (st', r)"
  shows "(case r of
       Inl e \<Rightarrow> grows st [] [] st'
     | Inr p \<Rightarrow> grows st (map stamp (pb_findings p)) [] st' \<and> list_all is_deterministic (pb_findings p)
         \<and> (\<exists>rep. pb_report p = Some rep \<and> map (Some \<circ> jf_payload) (pb_findings p) = map marshalSignal (br_Signals rep)))"
proof -
  have recorded: "(case r1 of
       Inl e \<Rightarrow> grows st [] [] st1
     | Inr p \<Rightarrow> grows st (map stamp (pb_findings p)) [] st1 \<and> list_all is_deterministic (pb_findings p)
         \<and> (\<exists>rep. pb_report p = Some rep \<and> map (Some \<circ> jf_payload) (pb_findings p) = map marshalSignal (br_Signals rep)))"
    if a: "analyze_and_record E cfg W params sha n files st = (st1, r1)" for params sha n files st1 r1
  proof -
    obtain l v where v: "analyzeBaselineViaLoop E (newAnalyzeLoop E cfg n) files
        (sp_RepoOwner params @ ''/'' @ sp_RepoName params) sha = (l, v)" by fastforce
    show ?thesis
    proof (cases v)
      case (Inl e)
      then show ?thesis using a v by (auto simp: analyze_and_record_def)
    next
      case (Inr lr)
      obtain loaded rep where lr: "lr = (loaded, rep)" by fastforce
      obtain st2 det where f: "findingsFromCodeSignalReport E (Some rep) (observe cfg l st) = (st2, det)" by fastforce
      obtain m fs where s: "signal_findings E (ss_uuids (observe cfg l st)) (br_Signals rep) = (m, fs)" by fastforce
      have det: "list_all is_deterministic det" "map (Some \<circ> jf_payload) det = map marshalSignal (br_Signals rep)"
        using f s signal_findings_rows [OF s] by (auto simp: findingsFromCodeSignalReport_def)
      obtain st3 err where i: "insertBaselineFindings W det st2 = (st3, err)" by fastforce
      show ?thesis
        using a v Inr lr f i det baseline_findings [OF i] findings_writer [OF f]
        by (cases err) (auto simp: analyze_and_record_def)
    qed
  qed
  have fails: ?thesis if "r = Inl e" "st' = st" for e using that by simp
  show ?thesis
    using assms fails
    by (auto simp: prepareRepoBaseline_def split: if_splits sum.splits option.splits dest: recorded)
qed

lemma scan_rows:
  assumes "runRepoBaselineScan E cfg jb W st = Some (st', r)"
  shows "case prepareRepoBaseline E cfg jb W st of
      Some (st1, Inr p) \<Rightarrow> \<exists>agent ds. list_all is_agent agent
         \<and> grows st (map stamp (pb_findings p @ agent)) (map dstamp ds) st' \<and>
        (case r of
           Inr c \<Rightarrow> c = baselineCompletion cfg W (pb_commitSHA p)
             \<and> (\<exists>n. suffix (case pb_report p of None \<Rightarrow> [] | Some rep \<Rightarrow> signal_diagnostics E n (br_Diagnostics rep)) ds)
         | Inl e \<Rightarrow> ds = [] \<and> (is_canceled e \<or> \<not> held (ss_writer st)))
    | _ \<Rightarrow> grows st [] [] st' \<and> \<not> is_ok r"
proof -
  obtain st1 q where q: "prepareRepoBaseline E cfg jb W st = Some (st1, q)"
    using assms by (auto simp: runRepoBaselineScan_def split: option.splits)
  note P = preparation_rows [OF q]
  show ?thesis
  proof (cases q)
    case (Inl e)
    then show ?thesis using assms q P by (auto simp: runRepoBaselineScan_def)
  next
    case (Inr p)
    have "judgePreparedBaseline E cfg W p st1 = (st', r)"
      using assms q Inr by (simp add: runRepoBaselineScan_def)
    from judgment_stage_rows [OF this] obtain agent ds where st: "list_all is_agent agent"
      "grows st1 (map stamp agent) (map dstamp ds) st'"
      "case r of Inr c \<Rightarrow> c = baselineCompletion cfg W (pb_commitSHA p)
         \<and> (\<exists>n. suffix (case pb_report p of None \<Rightarrow> [] | Some rep \<Rightarrow> signal_diagnostics E n (br_Diagnostics rep)) ds)
       | Inl e \<Rightarrow> ds = [] \<and> (is_canceled e \<or> \<not> held (ss_writer st1))" by blast
    have first: "grows st (map stamp (pb_findings p)) [] st1" using P Inr by simp
    have unheld: "\<not> held (ss_writer st1) \<Longrightarrow> \<not> held (ss_writer st)" using first by (auto simp: appended_def)
    show ?thesis
      using q Inr st(1,3) appended_trans [OF first st(2)] unheld
      by (auto intro!: exI [of _ agent] exI [of _ ds] split: sum.splits)
  qed
qed

end

text \<open>The worker's writer: the lease's job and attempt are stamped on every row, then the store is called.\<close>

definition store_writer :: "'s store_ops \<Rightarrow> claim_lease \<Rightarrow> 's job_writer" where
  "store_writer S l =
     \<lparr>jw_Lease = l,
      jw_InsertFindings = (\<lambda>s fs. so_insert_findings S s (cl_job_id l) (cl_worker_id l) (cl_attempt l)
        (stamp_findings (cl_job_id l) (cl_attempt l) fs)),
      jw_InsertDiagnostics = (\<lambda>s ds. so_insert_diagnostics S s (cl_job_id l) (cl_worker_id l) (cl_attempt l)
        (stamp_diagnostics (cl_job_id l) (cl_attempt l) ds))\<rparr>"

definition record_findings :: "string \<Rightarrow> mem_store \<Rightarrow> job_finding list" where
  "record_findings jid m = (case map_of m jid of None \<Rightarrow> [] | Some rec \<Rightarrow> jr_findings rec)"

definition record_diagnostics :: "string \<Rightarrow> mem_store \<Rightarrow> job_diagnostic list" where
  "record_diagnostics jid m = (case map_of m jid of None \<Rightarrow> [] | Some rec \<Rightarrow> jr_diagnostics rec)"

definition lease_holds :: "claim_lease \<Rightarrow> job \<Rightarrow> mem_store \<Rightarrow> bool" where
  "lease_holds l j m \<longleftrightarrow> fence_row j (cl_worker_id l) (cl_attempt l) \<and> mem_rows m (cl_job_id l) = Some j"

lemma fenced_write_appends:
  assumes "fenced_write m (cl_job_id l) (cl_worker_id l) (cl_attempt l) upd = (m', r)"
    and "\<And>rec. jr_job (upd rec) = jr_job rec \<and> jr_findings (upd rec) = jr_findings rec @ fs
      \<and> jr_diagnostics (upd rec) = jr_diagnostics rec @ ds"
  shows "appended (record_findings (cl_job_id l)) (record_diagnostics (cl_job_id l)) (lease_holds l j) m
      (if is_ok r then fs else []) (if is_ok r then ds else []) m' \<and> (lease_holds l j m \<longrightarrow> is_ok r)"
  using assms
  by (auto simp: fenced_write_def appended_def record_findings_def record_diagnostics_def lease_holds_def mem_rows_def
      split: option.splits if_splits)

interpretation mem_writer: fenced_writer "store_writer memory_ops l" "record_findings (cl_job_id l)"
    "record_diagnostics (cl_job_id l)" "lease_holds l j"
    "\<lambda>f. f\<lparr>jf_job_id := cl_job_id l, jf_attempt := cl_attempt l\<rparr>"
    "\<lambda>d. d\<lparr>jd_job_id := cl_job_id l, jd_attempt := cl_attempt l\<rparr>"
  for l j
proof
  fix w w' :: mem_store and fs and r :: "store_error + unit"
  assume "jw_InsertFindings (store_writer memory_ops l) w fs = (w', r)"
  then have "fenced_write w (cl_job_id l) (cl_worker_id l) (cl_attempt l)
      (\<lambda>r. r\<lparr>jr_findings := jr_findings r @ stamp_findings (cl_job_id l) (cl_attempt l)
        (stamp_findings (cl_job_id l) (cl_attempt l) fs)\<rparr>) = (w', r)"
    by (simp add: store_writer_def fenced_write_eqs)
  from fenced_write_appends [OF this, of "map (\<lambda>f. f\<lparr>jf_job_id := cl_job_id l, jf_attempt := cl_attempt l\<rparr>) fs" "[]" j]
  show "appended (record_findings (cl_job_id l)) (record_diagnostics (cl_job_id l)) (lease_holds l j) w
      (if is_ok r then map (\<lambda>f. f\<lparr>jf_job_id := cl_job_id l, jf_attempt := cl_attempt l\<rparr>) fs else []) [] w'
    \<and> (lease_holds l j w \<longrightarrow> is_ok r)"
    by (simp add: stamp_findings_def comp_def)
next
  fix w w' :: mem_store and ds and r :: "store_error + unit"
  assume "jw_InsertDiagnostics (store_writer memory_ops l) w ds = (w', r)"
  then have "fenced_write w (cl_job_id l) (cl_worker_id l) (cl_attempt l)
      (\<lambda>r. r\<lparr>jr_diagnostics := jr_diagnostics r @ stamp_diagnostics (cl_job_id l) (cl_attempt l)
        (stamp_diagnostics (cl_job_id l) (cl_attempt l) ds)\<rparr>) = (w', r)"
    by (simp add: store_writer_def fenced_write_eqs)
  from fenced_write_appends [OF this, of "[]" "map (\<lambda>d. d\<lparr>jd_job_id := cl_job_id l, jd_attempt := cl_attempt l\<rparr>) ds" j]
  show "appended (record_findings (cl_job_id l)) (record_diagnostics (cl_job_id l)) (lease_holds l j) w
      [] (if is_ok r then map (\<lambda>d. d\<lparr>jd_job_id := cl_job_id l, jd_attempt := cl_attempt l\<rparr>) ds else []) w'
    \<and> (lease_holds l j w \<longrightarrow> is_ok r)"
    by (simp add: stamp_diagnostics_def comp_def)
qed



section \<open>Witnesses\<close>

text \<open>An empty smoke fixture whose report holds one signal.\<close>

definition demo_scan :: "unit scan_env" where
  "demo_scan =
     \<lparr>se_fs = \<lparr>fx_abs = Inr, fx_stat = (\<lambda>_. Inr True), fx_walk = (\<lambda>_. []), fx_lstat = (\<lambda>p. Inl (NotExist p)),
        fx_read = (\<lambda>p. Inl (NotExist p)), fx_quote = (\<lambda>s. s)\<rparr>,
      se_defaults = sample_defaults\<lparr>DefaultCodeSignalReport := (\<lambda>n args. (Doc JNull, None))\<rparr>,
      se_analyze = sample_env, se_judgment = sample_env, se_tool_ctx = (\<lambda>_ _. None), se_stub_ctx = (\<lambda>_. None),
      se_indent = (\<lambda>_. []), se_text = (\<lambda>_. []), se_decode_result = (\<lambda>_. None), se_change_json = (\<lambda>_ _. JNull),
      se_decode_report = (\<lambda>_. Some \<lparr>br_Signals = [zero_signal], br_Diagnostics = []\<rparr>),
      se_uuid = (\<lambda>n. replicate n (CHR ''u'')), se_digest = (\<lambda>s. s), se_loop_text = (\<lambda>_. []), se_error_text = (\<lambda>_. [])\<rparr>"

definition demo_config :: scan_config where
  "demo_config =
     \<lparr>sc_Source = \<lparr>sf_TreeSource = None, sf_SmokeFixturePath = ''/f'', sf_SmokeRepoOwner = ''o'', sf_SmokeRepoName = ''r''\<rparr>,
      sc_MaxFiles = 0, sc_MaxTotalBytes = 0, sc_Gateway = None, sc_ObserveLoop = False, sc_ConfigureLoop = None,
      sc_PackConfig = \<lparr>pk_MaxFindings = 0, pk_MaxTokens = 0, pk_AffinityMin = 0, pk_WindowLines = 0\<rparr>,
      sc_JudgmentMaxWallTime = 0, sc_MaxHiddenMutationJudgments = 0, sc_Now = 3\<rparr>"

definition demo_scan_job :: job where
  "demo_scan_job = demo_job\<lparr>job_params := RawJson (JObj [(''repo_owner'', JStr ''o''), (''repo_name'', JStr ''r'')])\<rparr>"

definition demo_lease :: claim_lease where
  "demo_lease = \<lparr>cl_job_id = ''j'', cl_worker_id = ''w'', cl_attempt = 1, cl_started_at = 5\<rparr>"

definition demo_state :: "mem_store scan_state" where
  "demo_state = \<lparr>ss_writer = fst (ClaimJob demo_store ''j'' ''w'' 5 10), ss_uuids = 0, ss_observed = []\<rparr>"

lemma demo_lease_holds: "lease_holds demo_lease (claimed_row demo_job ''w'' 5) (ss_writer demo_state)"
  by (simp add: demo_state_def demo_lease_def lease_holds_def mem_rows_def demo_defs claimable_row_def claimed_row_def)

lemma demo_prepares:
  obtains st1 p where "prepareRepoBaseline demo_scan demo_config demo_scan_job (store_writer memory_ops demo_lease) demo_state
      = Some (st1, Inr p)" "pb_report p = Some \<lparr>br_Signals = [zero_signal], br_Diagnostics = []\<rparr>"
proof -
  have params: "parseBaselineParams (job_params demo_scan_job) = Inr \<lparr>sp_RepoOwner = ''o'', sp_RepoName = ''r'', sp_Ref = []\<rparr>"
    by code_simp
  have call: "\<exists>l. codesignalReportViaLoop demo_scan (newAnalyzeLoop demo_scan demo_config 0) [] ''o/r'' localFixtureCommitSHA
      = (l, Inr \<lparr>br_Signals = [zero_signal], br_Diagnostics = []\<rparr>)"
    by (simp add: codesignalReportViaLoop_def demo_scan_def newAnalyzeLoop_def configure_def demo_config_def sample_eval
        equal_fold_def coreCodeSignalSchema_def)
  then obtain l where "analyzeBaselineViaLoop demo_scan (newAnalyzeLoop demo_scan demo_config 0) [] ''o/r'' localFixtureCommitSHA
      = (l, Inr ([], \<lparr>br_Signals = [zero_signal], br_Diagnostics = []\<rparr>))"
    by (auto simp: analyzeBaselineViaLoop_def)
  then have a: "analyzeBaselineViaLoop demo_scan (newAnalyzeLoop demo_scan demo_config 0) [] ''o/r'' localFixtureCommitSHA
      = (l, Inr ([], \<lparr>br_Signals = [zero_signal], br_Diagnostics = []\<rparr>))" .
  obtain st2 det where f: "findingsFromCodeSignalReport demo_scan (Some \<lparr>br_Signals = [zero_signal], br_Diagnostics = []\<rparr>)
      (observe demo_config l demo_state) = (st2, det)" by fastforce
  obtain st3 err where i: "insertBaselineFindings (store_writer memory_ops demo_lease) det st2 = (st3, err)" by fastforce
  have "err = None"
    using mem_writer.baseline_findings [OF i, of "claimed_row demo_job ''w'' 5"] findings_writer [OF f] demo_lease_holds by simp
  then have "analyze_and_record demo_scan demo_config (store_writer memory_ops demo_lease)
      \<lparr>sp_RepoOwner = ''o'', sp_RepoName = ''r'', sp_Ref = []\<rparr> localFixtureCommitSHA 0 [] demo_state
      = (st3, Inr \<lparr>pb_loaded = [], pb_report = Some \<lparr>br_Signals = [zero_signal], br_Diagnostics = []\<rparr>, pb_findings = det,
          pb_commitSHA = localFixtureCommitSHA\<rparr>)"
    using a f i by (simp add: analyze_and_record_def)
  then have "prepareRepoBaseline demo_scan demo_config demo_scan_job (store_writer memory_ops demo_lease) demo_state
      = Some (st3, Inr \<lparr>pb_loaded = [], pb_report = Some \<lparr>br_Signals = [zero_signal], br_Diagnostics = []\<rparr>, pb_findings = det,
          pb_commitSHA = localFixtureCommitSHA\<rparr>)"
    using params
    by (simp add: prepareRepoBaseline_def demo_scan_job_def demo_job_def demo_config_def resolveBaselineTreeSource_def
        local_source_def local_ResolveCommitSHA_def local_ListFiles_def demo_scan_def sort_entries_def)
  then show ?thesis using that by simp
qed


end
