(* ===== verification/JudgmentStage.thy ===== *)
theory JudgmentStage
  imports BaselineScan
begin

text \<open>
  The judgment stage of a scan (internal/coachapi/baseline/judgment*.go) as a whole: it never runs
  into the tool-call budget it sets itself, and when it ends without an error every selected
  finding has been answered once.
\<close>

section \<open>One tool call each\<close>

lemma Call_tool_calls:
  assumes "Call E source name args l = (l', out, err)"
  shows "lp_tool_calls l' \<le> lp_tool_calls l + 1 \<and> lp_budget l' = lp_budget l \<and> lp_tools l' = lp_tools l"
proof -
  obtain l1 c where c: "ctx_check E l = (l1, c)" by fastforce
  obtain l2 r where r: "call_reserve E source name args l1 = (l2, r)" by fastforce
  have l1: "same_log l l1" by (rule ctx_check_log [OF c])
  have l2: "lp_tool_calls l2 \<le> lp_tool_calls l1 + 1"
    using r by (cases r) (auto dest!: call_reserve_ok call_reserve_rejects simp: same_log_def record_call_def)
  have "lp_tool_calls l' \<le> lp_tool_calls l + 1"
  proof (cases "c \<noteq> None \<or> \<not> is_ok r")
    case True
    then show ?thesis using assms c r l1 l2 by (cases c; cases r) (auto simp: Call_def same_log_def)
  next
    case False
    then obtain tk where tk: "c = None" "r = Inr tk" by (cases r) auto
    obtain l3 o3 e3 where x: "call_execute E tk l2 = (l3, o3, e3)" by (metis prod_cases3)
    have "l' = record_call (tk_name tk) (tk_source tk) (tk_args tk) o3 e3 l3"
      using assms c r tk x by (auto simp: Call_def call_finish_def)
    then show ?thesis
      using call_execute_log [OF x] l1 l2 by (auto simp: same_log_def record_call_def)
  qed
  then show ?thesis using Call_log [OF assms] by simp
qed

text \<open>What a stretch of the stage does to the loop: at most n more tool calls, same tools and budget.\<close>

definition spends :: "nat \<Rightarrow> agent_loop \<Rightarrow> agent_loop \<Rightarrow> bool" where
  "spends n l l' \<longleftrightarrow> lp_tool_calls l' \<le> lp_tool_calls l + int n \<and> lp_budget l' = lp_budget l \<and> lp_tools l' = lp_tools l"

lemma spends_refl [simp]: "spends n l l"
  by (simp add: spends_def)

lemma spends_trans: "spends m l l1 \<Longrightarrow> spends n l1 l2 \<Longrightarrow> m + n \<le> k \<Longrightarrow> spends k l l2"
  by (simp add: spends_def)

lemma Call_spends: "Call E source name args l = (l', out, err) \<Longrightarrow> spends (Suc n) l l'"
  by (drule Call_tool_calls) (simp add: spends_def)

lemma pack_call_spends:
  "callHiddenMutationPack E W items tot judged l st = (l', st', r) \<Longrightarrow> spends 1 l l'"
  unfolding callHiddenMutationPack_def
  by (auto split: option.splits prod.splits sum.splits dest: Call_spends [where n = 0])

lemma cohesion_spends: "judgeChangeCohesion E files det l st = (l', st', r) \<Longrightarrow> spends 1 l l'"
  unfolding judgeChangeCohesion_def
  by (auto split: option.splits prod.splits sum.splits dest: Call_spends [where n = 0])

lemma judge_packs_spends:
  "judge_packs E W byRef files cfg tot packs judged afs ds l st = (l', st', afs', ds', err) \<Longrightarrow> spends (length packs) l l'"
proof (induction packs arbitrary: judged afs ds l st)
  case (Cons pack packs)
  let ?items = "hiddenMutationPackItems pack byRef files cfg"
  show ?case
  proof (cases "?items = []")
    case True
    then have "spends (length packs) l l'" using Cons by simp
    then show ?thesis by (simp add: spends_def)
  next
    case False
    obtain l1 st1 r where c: "callHiddenMutationPack E W ?items tot judged l st = (l1, st1, r)" by (metis prod_cases3)
    note one = pack_call_spends [OF c]
    show ?thesis
    proof (cases r)
      case (Inl e)
      then show ?thesis using Cons.prems c False one by (auto simp: spends_def)
    next
      case (Inr p)
      then have "spends (length packs) l1 l'"
        using Cons.prems c False Cons.IH by (cases p) simp
      then show ?thesis using spends_trans [OF one] by simp
    qed
  qed
qed simp

lemma packs_at_most_candidates: "length (PackJudgmentCandidates cands cfg) \<le> length cands"
proof -
  obtain gs where gs: "PackJudgmentCandidates cands cfg = map (map kc_ref) gs" "is_packing (ApplyPackConfigDefaults cfg) cands gs"
    using packing_exists by blast
  have "\<forall>g\<in>set gs. g \<noteq> []" using gs(2) by (auto simp: is_packing_def fits_def)
  then have "length gs \<le> length (concat gs)"
  proof (induction gs)
    case (Cons g gs)
    then show ?case by (cases g) auto
  qed simp
  also have "length (concat gs) = length cands"
    using gs(2) unfolding is_packing_def by (metis size_mset)
  finally show ?thesis using gs(1) by simp
qed

lemma selected_at_most: "PrioritizeJudgmentCandidates cands mx = (sel, omitted) \<Longrightarrow> length sel \<le> length cands"
  using priority_order_mset [of cands] by (auto simp: selection_takes) (metis min.cobounded1 size_mset)

lemma candidates_are_counted: "length (collectHiddenMutationCandidates E files cfg det) = countHiddenMutationFindings det"
  by (induction det) (auto simp: countHiddenMutationFindings_def split: option.splits)

lemma hidden_judgments_spend:
  assumes "judgeHiddenMutationFindings E W files det cfg mx l st = (l', st', afs, ds, err)"
  shows "spends (countHiddenMutationFindings det) l l'"
proof (cases "collectHiddenMutationCandidates E files cfg det = []")
  case True
  then show ?thesis using assms by (simp add: judgeHiddenMutationFindings_def)
next
  case False
  let ?cands = "map fst (collectHiddenMutationCandidates E files cfg det)"
  obtain sel omitted where s: "PrioritizeJudgmentCandidates ?cands mx = (sel, omitted)" by fastforce
  have "spends (length (PackJudgmentCandidates sel cfg)) l l'"
    using assms False s by (auto simp: judgeHiddenMutationFindings_def Let_def split: if_splits dest!: judge_packs_spends)
  moreover have "length (PackJudgmentCandidates sel cfg) \<le> countHiddenMutationFindings det"
    using packs_at_most_candidates [of sel cfg] selected_at_most [OF s] candidates_are_counted [of E files cfg det] by simp
  ultimately show ?thesis by (auto simp: spends_def)
qed

lemma judgments_spend:
  assumes "judgeBaselineViaLoop E W files det cfg mx l st = (l', st', afs, ds, err)"
  shows "spends (countHiddenMutationFindings det + 1) l l'"
proof -
  obtain l1 st1 afs1 ds1 err1 where h: "judgeHiddenMutationFindings E W (by_path files) det (ApplyPackConfigDefaults cfg)
      (resolveMaxHiddenMutationJudgments mx) l st = (l1, st1, afs1, ds1, err1)" by (metis prod_cases5)
  note H = hidden_judgments_spend [OF h]
  obtain l2 st2 r where c: "judgeChangeCohesion E files det l1 st1 = (l2, st2, r)" by (metis prod_cases3)
  note C = spends_trans [OF H cohesion_spends [OF c] order_refl]
  show ?thesis
  proof (cases err1)
    case (Some e)
    then show ?thesis using assms h H by (auto simp: judgeBaselineViaLoop_def spends_def)
  next
    case None
    then have "l' = l2" using assms h c
      by (auto simp: judgeBaselineViaLoop_def split: sum.splits option.splits prod.splits)
    then show ?thesis using C by simp
  qed
qed

lemma registered_tools:
  assumes "RegisterTools D R l = (l', None)" "DefinitionByID IDHiddenMutationContextualization = Some d"
  shows "lp_tool_calls l' = lp_tool_calls l \<and> lp_budget l' = lp_budget l
    \<and> lp_tools l' IDHiddenMutationContextualization =
        Some \<lparr>rt_schema = Doc hiddenMutationArgsSchema, rt_handler = hiddenMutationToolHandler R d\<rparr>"
proof -
  have names: "\<not> isCoreToolName D IDHiddenMutationContextualization" "\<not> isCoreToolName D IDChangeCohesion"
    "IDHiddenMutationContextualization \<noteq> []" "IDChangeCohesion \<noteq> []" "IDChangeCohesion \<noteq> IDHiddenMutationContextualization"
    by (simp_all add: isCoreToolName_def coreToolDefs_def IDHiddenMutationContextualization_def IDChangeCohesion_def
        ToolSemanticsAnalyze_def ToolCodeSignalReport_def)
  show ?thesis
    using assms names
    by (auto simp: RegisterTools_def ToolSpecs_def seedJudgmentTool_def Register_def rejectCoreToolRegister_def
        split: if_splits option.splits)
qed

lemma new_judgment_loop:
  assumes "newJudgmentLoop E cfg n = Inr l" "sc_ConfigureLoop cfg = None"
    and "DefinitionByID IDHiddenMutationContextualization = Some d"
  shows "lp_tool_calls l = 0 \<and> int n + 11 \<le> MaxToolCalls (lp_budget l)
    \<and> lp_tools l IDHiddenMutationContextualization =
        Some \<lparr>rt_schema = Doc hiddenMutationArgsSchema, rt_handler = hiddenMutationToolHandler (scan_rubric_env E cfg) d\<rparr>"
  using assms(1,2)
  by (auto simp: newJudgmentLoop_def Let_def configure_def New_def applyBudgetDefaults_def DefaultMaxToolCalls_def
      split: prod.splits option.splits if_splits dest!: registered_tools [OF _ assms(3)])

text \<open>The judgment stage makes at most one tool call per hidden-mutation finding and one for the change's
  cohesion, which is below the tool-call budget of the loop it builds: whatever the cap, the packs and the
  answers, the stage is never cut short for its number of calls.\<close>

theorem judgment_stays_within_its_tool_budget:
  assumes "newJudgmentLoop E cfg (countHiddenMutationFindings det) = Inr l" "sc_ConfigureLoop cfg = None"
    and "judgeBaselineViaLoop E W files det pcfg mx l st = (l', st', afs, ds, err)"
  shows "lp_tool_calls l' \<le> int (countHiddenMutationFindings det) + 1 \<and> lp_tool_calls l' < MaxToolCalls (lp_budget l')"
proof -
  have "DefinitionByID IDHiddenMutationContextualization \<noteq> None" by code_simp
  then obtain d where "DefinitionByID IDHiddenMutationContextualization = Some d" by blast
  from new_judgment_loop [OF assms(1,2) this] judgments_spend [OF assms(3)]
  show ?thesis by (simp add: spends_def)
qed

section \<open>One outcome for each result\<close>

lemma rubric_outcome_one:
  "jobOutcomeFromRubricTool E n raw discs = Inr (af, d) \<Longrightarrow> length (opt_list af) + length (opt_list d) = 1"
  by (auto simp: jobOutcomeFromRubricTool_def opt_list_def split: option.splits if_splits)

lemma singular_outcome_one:
  "jobOutcomeFromSingularToolResult E n raw = Inr (fs, ds) \<Longrightarrow> length fs + length ds = 1"
  by (auto simp: jobOutcomeFromSingularToolResult_def split: option.splits sum.splits dest!: rubric_outcome_one)

lemma pack_outcomes_each:
  "jobOutcomesFromToolPack E n trs = Inr (fs, ds) \<Longrightarrow> length fs + length ds = length trs"
proof (induction trs arbitrary: n fs ds)
  case (Cons tr trs)
  then obtain raw af d gs es where
    "jobOutcomeFromRubricTool E n raw [to_FindingRef tr] = Inr (af, d)" "jobOutcomesFromToolPack E (n + 1) trs = Inr (gs, es)"
    "fs = opt_list af @ gs" "ds = opt_list d @ es"
    by (auto split: option.splits sum.splits)
  then show ?case using rubric_outcome_one Cons.IH by fastforce
qed simp

lemma encoded_keys: "GoJson.encode_fields fs vs = Some ms \<Longrightarrow> fst ` set ms \<subseteq> fst ` set fs"
proof (induction fs arbitrary: vs ms)
  case (Cons f fs)
  obtain n om t where f: "f = (n, om, t)" by (metis prod_cases3)
  show ?case
    using Cons.prems f by (cases vs) (auto split: if_splits option.splits dest!: Cons.IH, force+)
qed simp

lemma decode_unknown:
  "(\<And>k j. (k, j) \<in> set ms \<Longrightarrow> field_index (field_name k) fs = None) \<Longrightarrow> decode_members fs vs ms = Some vs"
proof (induction ms)
  case (Cons m ms)
  obtain k j where m: "m = (k, j)" by (cases m)
  then have "field_index (field_name k) fs = None" using Cons.prems [of k j] by simp
  moreover have "decode_members fs vs ms = Some vs" by (rule Cons.IH) (use Cons.prems in force)
  ultimately show ?case using m by simp
qed simp

text \<open>The envelope of one result is not taken for that of a pack.\<close>

lemma singular_is_no_pack:
  assumes "marshalToolResult tr = Some raw"
  shows "\<not> IsToolPackResult raw \<and> (\<exists>j. raw = RawJson j)"
proof -
  obtain ms where ms: "raw = RawJson (JObj ms)" "fst ` set ms \<subseteq> {''finding_ref'', ''rubric_id'', ''rubric_version'',
      ''model_identity'', ''logical_model_id'', ''served_model_id'', ''judgment'', ''diagnostic''}"
    using assms
    by (auto simp: marshalToolResult_def marshal_def tool_result_ty_def tool_result_val_def simp del: GoJson.encode_fields.simps
        dest!: encoded_keys)
  have "field_name k \<noteq> ''results''" if "k \<in> fst ` set ms" for k
    using subsetD [OF ms(2) that] by (auto simp: tool_result_names)
  then have "decode_members [(''results'', False, TyRaw)] [GRaw RawNil] ms = Some [GRaw RawNil]"
    by (intro decode_unknown) (auto, force)
  then show ?thesis
    by (simp add: IsToolPackResult_def ms(1) unmarshal_def fields_of_def struct_field_def graw_of_def)
qed

section \<open>One result for each item\<close>

lemma Call_answer:
  assumes "Call E source name args l = (l', out, None)" "lp_tools l name = Some tool"
  shows "\<exists>n. rt_handler tool n args = (out, None)"
proof -
  obtain l1 c where c: "ctx_check E l = (l1, c)" by fastforce
  obtain l2 r where r: "call_reserve E source name args l1 = (l2, r)" by fastforce
  have "c = None" using assms(1) c by (cases c) (auto simp: Call_def)
  moreover obtain tk where tk: "r = Inr tk" using assms(1) c r \<open>c = None\<close> by (cases r) (auto simp: Call_def)
  ultimately obtain l3 where x: "call_execute E tk l2 = (l3, out, None)"
    using assms(1) c r by (auto simp: Call_def call_finish_def split: prod.splits)
  have "tk_handler tk = rt_handler tool" "tk_args tk = args"
    using call_reserve_ok [OF r [unfolded tk]] ctx_check_log [OF c] assms(2) by (auto simp: same_log_def)
  then show ?thesis
    using x by (auto simp: call_execute_def invoke_def Let_def split: option.splits prod.splits dest!: mapWallErr_log)
qed

lemma item_names:
  "field_name ''finding'' = ''finding''" "field_name ''file'' = ''file''" "field_name ''items'' = ''items''"
  "field_name ''path'' = ''path''" "field_name ''language'' = ''language''" "field_name ''content'' = ''content''"
  by code_simp+

definition json_item :: "pack_item \<Rightarrow> bool" where
  "json_item it \<longleftrightarrow> (\<exists>j. pi_Finding it = RawJson j)"

lemma item_plain: "json_item it \<Longrightarrow> plain pack_item_ty (pack_item_val it)"
  by (auto simp: json_item_def pack_item_ty_def pack_item_val_def file_context_ty_def file_context_val_def item_names
      tool_result_names empty_value_def)

lemma item_of_val: "pack_item_of (pack_item_val it) = it"
  by (cases it, cases "pi_File it")
    (simp add: pack_item_of_def pack_item_val_def file_context_of_def file_context_val_def struct_field_def fields_of_def
      gstring_of_def graw_of_def numeral_eq_Suc)

text \<open>The tool reads back the items the scan has written.\<close>

lemma items_round_trip:
  assumes "list_all json_item items" "marshal pack_args_ty (GStruct [GSlice (map pack_item_val items)]) = Some args"
    and "items \<noteq> []" "parseHiddenMutationArgs (to_raw (of_raw args)) = Inr inp"
  shows "ha_Items inp = items \<and> validateHiddenMutationItems 0 items = None"
proof -
  obtain js where js: "encode_elems pack_item_ty (map pack_item_val items) = Some js"
    "decode_elems pack_item_ty [] js = Some (map pack_item_val items)"
    using elems_survive [of "map pack_item_val items" pack_item_ty] assms(1) plain_survives [OF item_plain]
    by (auto simp: list_all_iff)
  have args: "args = RawJson (JObj [(''items'', JArr js)])"
    using assms(2) js(1) by (simp add: marshal_def pack_args_ty_def empty_value_def)
  have "unmarshal hidden_args_ty args = Some (GStruct [GRaw RawNil, zero_value file_context_ty, GSlice (map pack_item_val items)])"
    using js(2) by (simp add: args unmarshal_def hidden_args_ty_def item_names fields_of_def elements_def)
  then show ?thesis
    using assms(3,4)
    by (auto simp: args parseHiddenMutationArgs_def struct_field_def fields_of_def elements_def comp_def item_of_val
        split: option.splits)
qed

lemma valid_refs: "validateHiddenMutationItems i items = None \<Longrightarrow> [] \<notin> set (packRefs items)"
  by (induction items arbitrary: i) (auto simp: packRefs_def split: if_splits)

lemma batch_results_each:
  assumes "[] \<notin> set refs"
  shows "length (mapBatchJudgmentToPackResult d refs resp) = length refs"
proof -
  have "filter (\<lambda>r. r \<noteq> []) refs = refs" using assms by (induction refs) auto
  then show ?thesis
    using map_batch_refs_answers [of resp _ _ d "{}" refs, THEN list_all2_lengthD]
    by (simp add: mapBatchJudgmentToPackResult_def split: prod.split)
qed

lemma degraded_results_each: "length (packResultsForGatewayDegrade d refs r) = length refs"
  by (simp add: packResultsForGatewayDegrade_def Let_def)

lemma length_refs: "length (packRefs items) = length items"
  by (simp add: packRefs_def)

lemma handler_answers_items:
  assumes "hiddenMutationToolHandler R d n (of_raw args) = (out, None)" "list_all json_item items" "items \<noteq> []"
    and "marshal pack_args_ty (GStruct [GSlice (map pack_item_val items)]) = Some args"
    and "jobOutcomesFromHiddenMutationResult E k (to_raw out) = Inr (fs, ds)"
  shows "length fs + length ds = length items"
proof -
  obtain inp where inp: "parseHiddenMutationArgs (to_raw (of_raw args)) = Inr inp"
    using assms(1) by (auto simp: hiddenMutationToolHandler_def split: sum.splits)
  have items: "ha_Items inp = items" "[] \<notin> set (packRefs items)"
    using items_round_trip [OF assms(2,4,3) inp] valid_refs by auto
  show ?thesis
  proof (cases "length items \<ge> 2")
    case True
    then have "runHiddenMutationPack R n d items = (out, None)"
      using assms(1) inp items(1) by (simp add: hiddenMutationToolHandler_def)
    from runHiddenMutationPack_answer [OF this] obtain results where
      results: "ParseToolPackResult (to_raw out) = Inr (map wire_result results)" "length results = length items"
      using batch_results_each [OF items(2), of d] degraded_results_each [of d "packRefs items"]
      by (auto simp: length_refs)
    then have "IsToolPackResult (to_raw out)" by (simp add: ParseToolPackResult_def split: if_splits)
    then show ?thesis
      using assms(5) results by (auto simp: jobOutcomesFromHiddenMutationResult_def dest!: pack_outcomes_each)
  next
    case False
    then have one: "length items = 1" using assms(3) length_greater_0_conv [of items] by linarith
    obtain tr where tr: "tool_answer (marshalToolResult tr) = (out, None)"
      using assms(1) inp items(1) False
      by (auto simp: hiddenMutationToolHandler_def Let_def split: sum.splits list.splits)
    then obtain raw where raw: "marshalToolResult tr = Some raw" "out = of_raw raw"
      by (auto simp: tool_answer_def split: option.splits)
    then show ?thesis
      using assms(5) one singular_is_no_pack [OF raw(1)]
      by (auto simp: jobOutcomesFromHiddenMutationResult_def dest!: singular_outcome_one)
  qed
qed

section \<open>One answer for each selected finding\<close>

definition hidden_tool :: "agent_loop \<Rightarrow> bool" where
  "hidden_tool l \<longleftrightarrow> (\<exists>schema R d. lp_tools l IDHiddenMutationContextualization =
     Some \<lparr>rt_schema = schema, rt_handler = hiddenMutationToolHandler R d\<rparr>)"

lemma spends_tool: "spends n l l' \<Longrightarrow> hidden_tool l' \<longleftrightarrow> hidden_tool l"
  by (simp add: spends_def hidden_tool_def)

lemma pack_call_answers:
  assumes "callHiddenMutationPack E W items tot judged l st = (l', st', Inr (fs, ds))" "hidden_tool l"
    and "list_all json_item items" "items \<noteq> []"
  shows "length fs + length ds = length items"
proof -
  obtain schema R d where tool: "lp_tools l IDHiddenMutationContextualization =
      Some \<lparr>rt_schema = schema, rt_handler = hiddenMutationToolHandler R d\<rparr>"
    using assms(2) by (auto simp: hidden_tool_def)
  obtain args where args: "marshal pack_args_ty (GStruct [GSlice (map pack_item_val items)]) = Some args"
    using assms(1) by (auto simp: callHiddenMutationPack_def split: option.splits)
  obtain raw where call: "Call (se_judgment E) CallSourceHandler IDHiddenMutationContextualization (of_raw args) l = (l', raw, None)"
    and out: "jobOutcomesFromHiddenMutationResult E (ss_uuids st) (to_raw raw) = Inr (fs, ds)"
    using assms(1) args by (auto simp: callHiddenMutationPack_def split: option.splits prod.splits sum.splits)
  obtain n where "hiddenMutationToolHandler R d n (of_raw args) = (raw, None)"
    using Call_answer [OF call tool] by auto
  then show ?thesis using handler_answers_items assms(3,4) args out by blast
qed

text \<open>The findings behind the references of the packs are there and are JSON.\<close>

definition json_refs :: "(string \<rightharpoonup> job_finding \<times> signal) \<Rightarrow> bool" where
  "json_refs byRef \<longleftrightarrow> (\<forall>r meta. byRef r = Some meta \<longrightarrow> (\<exists>j. jf_payload (fst meta) = RawJson j))"

lemma pack_items_all:
  assumes "json_refs byRef" "set pack \<subseteq> dom byRef"
  shows "list_all json_item (hiddenMutationPackItems pack byRef files cfg)
    \<and> length (hiddenMutationPackItems pack byRef files cfg) = length pack"
  using assms(2)
proof (induction pack)
  case (Cons r pack)
  then obtain meta where m: "byRef r = Some meta" by auto
  then obtain j where "jf_payload (fst meta) = RawJson j" using assms(1) unfolding json_refs_def by blast
  then have "json_item (pack_item_for files cfg r meta)" by (simp add: pack_item_for_def json_item_def Let_def)
  then show ?case using Cons m by (simp add: hiddenMutationPackItems_def)
qed (simp add: hiddenMutationPackItems_def)

lemma judge_packs_answers:
  assumes "json_refs byRef"
  shows "judge_packs E W byRef files cfg tot packs judged afs ds l st = (l', st', afs', ds', None) \<Longrightarrow>
    hidden_tool l \<Longrightarrow> (\<forall>pack\<in>set packs. set pack \<subseteq> dom byRef) \<Longrightarrow>
    length afs' + length ds' = length afs + length ds + length (concat packs)"
proof (induction packs arbitrary: judged afs ds l st)
  case (Cons pack packs)
  let ?items = "hiddenMutationPackItems pack byRef files cfg"
  have items: "list_all json_item ?items" "length ?items = length pack"
    using pack_items_all [OF assms, of pack files cfg] Cons.prems(3) by auto
  show ?case
  proof (cases "?items = []")
    case True
    then have "pack = []" using items(2) by simp
    then show ?thesis using Cons True by simp
  next
    case False
    obtain l1 st1 r where c: "callHiddenMutationPack E W ?items tot judged l st = (l1, st1, r)" by (metis prod_cases3)
    obtain fs1 ds1 where r: "r = Inr (fs1, ds1)" using Cons.prems(1) c False by (cases r) auto
    have "hidden_tool l1" using pack_call_spends [OF c] Cons.prems(2) spends_tool by blast
    moreover have "judge_packs E W byRef files cfg tot packs (judged + int (length fs1)) (afs @ fs1) (ds @ ds1) l1 st1
        = (l', st', afs', ds', None)" using Cons.prems(1) c False r by simp
    ultimately have "length afs' + length ds' = length (afs @ fs1) + length (ds @ ds1) + length (concat packs)"
      using Cons.IH Cons.prems(3) by simp
    moreover have "length fs1 + length ds1 = length pack"
      using pack_call_answers [OF c [unfolded r] Cons.prems(2) items(1) False] items(2) by simp
    ultimately show ?thesis by simp
  qed
qed simp

lemma by_ref_fold:
  assumes "\<forall>c\<in>set cands. \<exists>j. jf_payload (fst (snd c)) = RawJson j" "json_refs m"
  shows "json_refs (foldl (\<lambda>m (c, meta). m(kc_ref c \<mapsto> meta)) m cands)
    \<and> dom (foldl (\<lambda>m (c, meta). m(kc_ref c \<mapsto> meta)) m cands) = dom m \<union> kc_ref ` fst ` set cands"
  using assms
proof (induction cands arbitrary: m)
  case (Cons c cands)
  obtain k meta where c: "c = (k, meta)" by (cases c)
  have "json_refs (m(kc_ref k \<mapsto> meta))" using Cons.prems c by (auto simp: json_refs_def)
  then show ?case using Cons.IH [of "m(kc_ref k \<mapsto> meta)"] Cons.prems(1) c by (auto simp del: fun_upd_apply)
qed simp

lemma candidates_are_json:
  "c \<in> set (collectHiddenMutationCandidates E files cfg det) \<Longrightarrow> \<exists>j. jf_payload (fst (snd c)) = RawJson j"
  by (induction det)
    (auto simp: hiddenMutationSignal_def unmarshal_def split: if_splits option.splits raw_message.splits)

text \<open>What a stage that ends well owes: an outcome per selected finding, and the omission if there is one.\<close>

definition owed :: "pack_candidate list \<Rightarrow> int \<Rightarrow> nat" where
  "owed cands mx = cap_of cands mx + (if cap_of cands mx < length cands then 1 else 0)"

lemma hidden_judgments_answer:
  assumes "judgeHiddenMutationFindings E W files det cfg mx l st = (l', st', afs, ds, None)" "hidden_tool l"
  shows "length afs + length ds = owed (map fst (collectHiddenMutationCandidates E files cfg det)) mx"
proof (cases "collectHiddenMutationCandidates E files cfg det = []")
  case True
  then show ?thesis using assms(1) by (simp add: judgeHiddenMutationFindings_def owed_def cap_of_def)
next
  case False
  let ?all = "collectHiddenMutationCandidates E files cfg det" and ?cands = "map fst (collectHiddenMutationCandidates E files cfg det)"
  have len: "length (priority_order ?cands) = length ?cands" using priority_order_mset by (metis size_mset)
  obtain sel omitted where s: "PrioritizeJudgmentCandidates ?cands mx = (sel, omitted)" by fastforce
  have sel: "sel = take (cap_of ?cands mx) (priority_order ?cands)" "omitted > 0 \<longleftrightarrow> cap_of ?cands mx < length ?cands"
    using s unfolding selection_takes by auto
  have size_sel: "length sel = cap_of ?cands mx" using len sel(1) by (simp add: cap_of_def)
  obtain gs where gs: "PackJudgmentCandidates sel cfg = map (map kc_ref) gs" "is_packing (ApplyPackConfigDefaults cfg) sel gs"
    using packing_exists by blast
  have parts: "mset (concat gs) = mset sel" using gs(2) by (simp add: is_packing_def)
  have "set sel \<subseteq> set (priority_order ?cands)" unfolding sel(1) by (rule set_take_subset)
  also have "set (priority_order ?cands) = set ?cands" using priority_order_mset by (metis set_mset_mset)
  finally have sub: "set (concat gs) \<subseteq> set ?cands" using parts by (metis set_mset_mset)
  have refs: "json_refs (by_ref ?all)" "dom (by_ref ?all) = kc_ref ` set ?cands"
  proof -
    have j: "\<forall>c\<in>set ?all. \<exists>j. jf_payload (fst (snd c)) = RawJson j" using candidates_are_json by blast
    have e: "json_refs Map.empty" by (simp add: json_refs_def)
    show "json_refs (by_ref ?all)" "dom (by_ref ?all) = kc_ref ` set ?cands"
      using by_ref_fold [OF j e] by (simp_all add: by_ref_def)
  qed
  have known: "\<forall>pack\<in>set (map (map kc_ref) gs). set pack \<subseteq> dom (by_ref ?all)"
  proof
    fix pack assume "pack \<in> set (map (map kc_ref) gs)"
    then obtain g where g: "g \<in> set gs" "pack = map kc_ref g" unfolding set_map by blast
    have "set g \<subseteq> set ?cands" using g(1) sub unfolding set_concat by blast
    then show "set pack \<subseteq> dom (by_ref ?all)" unfolding refs(2) g(2) set_map [of kc_ref] by (rule image_mono)
  qed
  have tot: "length (concat (map (map kc_ref) gs)) = cap_of ?cands mx"
    using parts size_sel by (metis length_map map_concat size_mset)
  obtain ds0 st1 where packs: "judge_packs E W (by_ref ?all) files cfg (int (length sel)) (map (map kc_ref) gs) 0 [] ds0 l st1
      = (l', st', afs, ds, None)" and ds0: "length ds0 = (if omitted > 0 then 1 else 0)"
    using assms(1) False s gs(1) by (cases "omitted > 0") (simp_all add: judgeHiddenMutationFindings_def)
  show ?thesis
    using judge_packs_answers [OF refs(1) packs assms(2) known] ds0 unfolding tot sel(2) owed_def by simp
qed


section \<open>Witnesses\<close>

lemma judgment_stays_within_its_tool_budget_witness:
  "\<exists>l l' r. newJudgmentLoop demo_scan demo_config 0 = Inr l
     \<and> judgeBaselineViaLoop demo_scan (store_writer memory_ops demo_lease) [] [] (sc_PackConfig demo_config) 0 l demo_state = (l', r)
     \<and> lp_tool_calls l' \<le> 1"
proof -
  obtain l where l: "newJudgmentLoop demo_scan demo_config 0 = Inr l" using judgment_loop_builds by blast
  then have l0: "newJudgmentLoop demo_scan demo_config (countHiddenMutationFindings []) = Inr l"
    by (simp add: countHiddenMutationFindings_def)
  obtain l' st' afs ds err where j: "judgeBaselineViaLoop demo_scan (store_writer memory_ops demo_lease) [] []
      (sc_PackConfig demo_config) 0 l demo_state = (l', st', afs, ds, err)" by (metis prod_cases5)
  have "sc_ConfigureLoop demo_config = None" by (simp add: demo_config_def)
  from judgment_stays_within_its_tool_budget [OF l0 this j] show ?thesis
    using l j by (auto simp: countHiddenMutationFindings_def)
qed

text \<open>One hidden-mutation finding and a model that answers with an empty object.\<close>

definition demo_judged_config :: scan_config where
  "demo_judged_config =
     demo_config\<lparr>sc_Gateway := Some (\<lambda>n req. Inr \<lparr>jp_judgment = RawJson (JObj []), jp_logical = ''m'', jp_served = []\<rparr>)\<rparr>"

definition demo_hidden :: job_finding where
  "demo_hidden = \<lparr>jf_id = ''u'', jf_job_id = ''j'', jf_attempt = 1, jf_source = FindingSourceDeterministic, jf_rubric_id = None,
     jf_rubric_version = None, jf_model_identity = None,
     jf_payload = RawJson (JObj [(''kind'', JStr ''hidden_input_mutation''), (''path'', JStr ''a.go'')]),
     jf_payload_hash = ''h'', jf_created_at = 0\<rparr>"

definition demo_writer :: "unit job_writer" where
  "demo_writer = \<lparr>jw_Lease = demo_lease, jw_InsertFindings = (\<lambda>w fs. (w, Inr ())), jw_InsertDiagnostics = (\<lambda>w ds. (w, Inr ()))\<rparr>"

definition judged_cleanly :: "'w judged \<Rightarrow> bool" where
  "judged_cleanly r \<longleftrightarrow> (case r of (l, st, afs, ds, err) \<Rightarrow> Option.is_none err)"

lemma ToolSpecs_code [code]:
  "ToolSpecs E =
     (if Option.is_none (rb_judge E) then Inl ''rubrics: gateway is required''
      else collect_specs E [IDHiddenMutationContextualization, IDChangeCohesion] [])"
  by (simp add: ToolSpecs_def Option.is_none_def)

lemma demo_judged:
  "case newJudgmentLoop demo_scan demo_judged_config 1 of
     Inl _ \<Rightarrow> False
   | Inr l \<Rightarrow> countHiddenMutationFindings [demo_hidden] = 1
       \<and> judged_cleanly (judgeBaselineViaLoop demo_scan demo_writer [] [demo_hidden] (sc_PackConfig demo_config) 0 l
           \<lparr>ss_writer = (), ss_uuids = 0, ss_observed = []\<rparr>)"
  by code_simp


end
