(* ===== verification/GitRepo.thy ===== *)
theory GitRepo
  imports SignalReport
begin

text \<open>
  The git adapter of the codesignal command (internal/codesignalcli/gitrepo): commands and their
  bounds, the revisions of a scan, the changed and the tracked files, what exists at a revision,
  the batch reader of revision contents and the status of the work tree.

  The git process is an argument: \<open>child\<close> maps a directory and arguments to what the process
  writes and how it ends, and \<open>respond\<close> is the long-lived \<open>cat-file\<close> process of a batch reader.
\<close>

section \<open>Strings of git\<close>

text \<open>\<open>strings.Fields\<close>, \<open>strings.Cut\<close> and \<open>bytes.Split\<close> at one byte.\<close>

function go_fields :: "string \<Rightarrow> string \<Rightarrow> string list" where
  "go_fields s acc =
     (case s of
        [] \<Rightarrow> if acc = [] then [] else [rev acc]
      | ch # rest \<Rightarrow>
          (let k = space_rune (map of_char s) in
           if k = 0 then go_fields rest (ch # acc)
           else (if acc = [] then [] else [rev acc]) @ go_fields (drop k s) []))"
  by pat_completeness auto

termination
  by (relation "measure (\<lambda>(s, acc). length s)") auto

declare go_fields.simps [simp del]

definition cut_at :: "char \<Rightarrow> string \<Rightarrow> (string \<times> string) option" where
  "cut_at ch s = (if ch \<in> set s then Some (takeWhile (\<lambda>x. x \<noteq> ch) s, tl (dropWhile (\<lambda>x. x \<noteq> ch) s)) else None)"

fun split_at :: "char \<Rightarrow> string \<Rightarrow> string \<Rightarrow> string list" where
  "split_at sep [] acc = [rev acc]"
| "split_at sep (ch # s) acc = (if ch = sep then rev acc # split_at sep s [] else split_at sep s (ch # acc))"

abbreviation nul :: char where
  "nul \<equiv> CHR 0x00"

text \<open>The fields of a stream whose last NUL is optional.\<close>

definition nul_fields :: "string \<Rightarrow> string list" where
  "nul_fields s = split_at nul (if s \<noteq> [] \<and> last s = nul then butlast s else s) []"

section \<open>Commands\<close>

record git_child =
  gc_start :: "string option"
  gc_stdout :: string
  gc_stdout_err :: "string option"
  gc_stderr :: string
  gc_stderr_err :: "string option"
  gc_wait :: "string option"
  gc_deadline :: bool

type_synonym git_process = "string \<Rightarrow> string list \<Rightarrow> git_child"

datatype bound_kind = BoundTimeout | BoundStdout | BoundStderr

datatype git_error = BoundError bound_kind string | GitFailure string

fun git_text :: "git_error \<Rightarrow> string" where
  "git_text (BoundError k t) = t"
| "git_text (GitFailure t) = t"

text \<open>A failure of the surroundings, and its reason without absolute paths.\<close>

record operational_error =
  oe_Message :: string
  oe_reason :: string

definition operational :: "string \<Rightarrow> operational_error" where
  "operational msg = \<lparr>oe_Message = msg, oe_reason = []\<rparr>"

definition Reason :: "operational_error \<Rightarrow> string" where
  "Reason e = (if oe_reason e \<noteq> [] then oe_reason e else oe_Message e)"

definition gitWaitError :: "string \<Rightarrow> string \<Rightarrow> git_error" where
  "gitWaitError wait_err stderr =
     GitFailure (if length stderr > 0 then wait_err @ '': '' @ trim_space stderr else wait_err)"

definition validateGitReadBounds :: "int \<Rightarrow> int \<Rightarrow> int \<Rightarrow> string option" where
  "validateGitReadBounds timeout maxStdout maxStderr =
     (if timeout \<le> 0 then Some ''git execution timeout must be positive''
      else if maxStdout < 0 \<or> maxStderr < 0 then Some ''git output bounds must be non-negative''
      else None)"

text \<open>A pipe is read up to its limit; a read error comes with the data so far.\<close>

definition finishGitBoundedRead ::
  "git_child \<Rightarrow> int \<Rightarrow> int \<Rightarrow> string \<Rightarrow> git_error + string" where
  "finishGitBoundedRead g maxStdout maxStderr timeout_text =
     (let stdout = take (nat (maxStdout + 1)) (gc_stdout g); stderr = take (nat (maxStderr + 1)) (gc_stderr g) in
      case gc_stdout_err g of
        Some e \<Rightarrow> Inl (GitFailure e)
      | None \<Rightarrow>
     (case gc_stderr_err g of
        Some e \<Rightarrow> Inl (GitFailure e)
      | None \<Rightarrow>
          if int (length stdout) > maxStdout
          then Inl (BoundError BoundStdout (''git stdout exceeded '' @ itoa maxStdout @ ''-byte budget''))
          else if int (length stderr) > maxStderr
          then Inl (BoundError BoundStderr (''git stderr exceeded '' @ itoa maxStderr @ ''-byte budget''))
          else if gc_deadline g then Inl (BoundError BoundTimeout (''git execution timed out after '' @ timeout_text))
          else (case gc_wait g of
                  Some e \<Rightarrow> Inl (gitWaitError e stderr)
                | None \<Rightarrow> Inr stdout)))"

definition RunBytesBoundedWith ::
  "git_process \<Rightarrow> string \<Rightarrow> int \<Rightarrow> int \<Rightarrow> int \<times> string \<Rightarrow> string list \<Rightarrow> git_error + string" where
  "RunBytesBoundedWith child dir maxStdout maxStderr timeout args =
     (case validateGitReadBounds (fst timeout) maxStdout maxStderr of
        Some e \<Rightarrow> Inl (GitFailure e)
      | None \<Rightarrow>
          let g = child dir args in
          (case gc_start g of
             Some e \<Rightarrow> Inl (GitFailure e)
           | None \<Rightarrow> finishGitBoundedRead g maxStdout maxStderr (snd timeout)))"

text \<open>Thirty seconds, in nanoseconds and as printed.\<close>

definition half_minute :: "int \<times> string" where
  "half_minute = (30000000000, ''30s'')"

definition RunBytes :: "git_process \<Rightarrow> string \<Rightarrow> string list \<Rightarrow> git_error + string" where
  "RunBytes child dir args =
     (let g = child dir args in
      case (if gc_start g \<noteq> None then gc_start g else gc_wait g) of
        Some e \<Rightarrow> Inl (gitWaitError e (gc_stderr g))
      | None \<Rightarrow> Inr (gc_stdout g))"

section \<open>Revisions\<close>

definition resolveHEAD :: "bool \<Rightarrow> git_process \<Rightarrow> string \<Rightarrow> operational_error + string" where
  "resolveHEAD git_found child dir =
     (if \<not> git_found then Inl (operational ''coach codesignal: git executable not found in PATH'')
      else if (case RunBytes child dir [''rev-parse'', ''--is-inside-work-tree''] of
                 Inl _ \<Rightarrow> True | Inr out \<Rightarrow> trim_space out \<noteq> ''true'')
      then Inl \<lparr>oe_Message = ''coach codesignal: '' @ dir @ '' is not inside a Git worktree'',
                 oe_reason = ''not inside a Git worktree''\<rparr>
      else (case RunBytes child dir [''rev-parse'', ''HEAD''] of
              Inl _ \<Rightarrow> Inl (operational ''coach codesignal: HEAD is not readable (does the repository have any commits?)'')
            | Inr out \<Rightarrow> Inr (trim_space out)))"

definition ResolveRevisions ::
  "(nat \<Rightarrow> bool) \<Rightarrow> bool \<Rightarrow> git_process \<Rightarrow> string \<Rightarrow> string \<Rightarrow> operational_error + string \<times> string" where
  "ResolveRevisions pr git_found child dir base =
     (case resolveHEAD git_found child dir of
        Inl e \<Rightarrow> Inl e
      | Inr headSHA \<Rightarrow>
     (case RunBytes child dir [''rev-parse'', ''--verify'', base @ ''^{commit}''] of
        Inl _ \<Rightarrow> Inl (operational (''coach codesignal: --base '' @ quote_go pr base @ '' cannot be resolved to a commit''))
      | Inr _ \<Rightarrow>
     (case RunBytes child dir [''merge-base'', base, ''HEAD''] of
        Inl _ \<Rightarrow> Inl (operational (''coach codesignal: no merge base between '' @ quote_go pr base @ '' and HEAD''))
      | Inr out \<Rightarrow> Inr (headSHA, trim_space out))))"

section \<open>Changed files\<close>

record name_status_record =
  nr_status :: string
  nr_paths :: "string list"

definition moves :: "string \<Rightarrow> bool" where
  "moves status \<longleftrightarrow> has_prefix status ''R'' \<or> has_prefix status ''C''"

function name_status_records :: "(nat \<Rightarrow> bool) \<Rightarrow> string list \<Rightarrow> string + name_status_record list" where
  "name_status_records pr [] = Inr []"
| "name_status_records pr (status # rest) =
     (let pathCount = (if moves status then 2 else 1) in
      if status = [] then Inl ''malformed diff status stream: empty status field''
      else if pathCount > length rest
      then Inl (''malformed diff status stream: truncated record for status '' @ quote_go pr status)
      else (case name_status_records pr (drop pathCount rest) of
              Inl e \<Rightarrow> Inl e
            | Inr rs \<Rightarrow> Inr (\<lparr>nr_status = status, nr_paths = take pathCount rest\<rparr> # rs)))"
  by pat_completeness auto

termination
  by (relation "measure (\<lambda>(pr, fs). length fs)") auto

declare name_status_records.simps(2) [simp del]

definition parseNameStatusZ :: "(nat \<Rightarrow> bool) \<Rightarrow> string \<Rightarrow> string + name_status_record list" where
  "parseNameStatusZ pr bytes =
     (let fs = nul_fields bytes in
      if length fs = 1 \<and> hd fs = [] then Inr [] else name_status_records pr fs)"

record selected_file =
  sf_Path :: string
  sf_Status :: string
  sf_Language :: string
  sf_SourceScope :: string

definition statusToChangeStatus :: "string \<Rightarrow> string" where
  "statusToChangeStatus status =
     (if status = ''A'' then ''added'' else if status = ''M'' then ''modified''
      else if status = ''D'' then ''removed'' else [])"

definition selectSupportedPath :: "(nat \<Rightarrow> bool) \<Rightarrow> string \<Rightarrow> string \<Rightarrow> diagnostic + selected_file" where
  "selectSupportedPath pr path status =
     (case LanguageForExtension (path_ext path) of
        None \<Rightarrow> Inl (file_diagnostic path ''unsupported_language''
                  (''file extension '' @ quote_go pr (path_ext path) @ '' is not a supported language''))
      | Some lang \<Rightarrow> Inr \<lparr>sf_Path = path, sf_Status = status, sf_Language = lang, sf_SourceScope = []\<rparr>)"

type_synonym selection = "selected_file list \<times> diagnostic list \<times> path_continuity list"

definition continuity_diagnostic :: "string \<Rightarrow> string \<Rightarrow> diagnostic" where
  "continuity_diagnostic path headSHA =
     (file_diagnostic path ''continuity_not_determined''
        (''rename/copy lifecycle continuity was not determined at head revision '' @ headSHA))
     \<lparr>dg_side := ''head'', dg_revision := headSHA\<rparr>"

definition select_record :: "(nat \<Rightarrow> bool) \<Rightarrow> string \<Rightarrow> name_status_record \<Rightarrow> selection" where
  "select_record pr headSHA r =
     (if moves (nr_status r)
      then (let path = last (nr_paths r); pair = \<lparr>ct_path = path, ct_previous = hd (nr_paths r)\<rparr> in
            case selectSupportedPath pr path [] of
              Inl d \<Rightarrow> ([], [d], [pair])
            | Inr sf \<Rightarrow> ([sf], [continuity_diagnostic path headSHA], [pair]))
      else if nr_status r \<in> {''A'', ''M'', ''D''}
      then (case selectSupportedPath pr (hd (nr_paths r)) (statusToChangeStatus (nr_status r)) of
              Inl d \<Rightarrow> ([], [d], [])
            | Inr sf \<Rightarrow> ([sf], [], []))
      else ([], [file_diagnostic (hd (nr_paths r)) ''unsupported_change_type''
                   (''change status '' @ quote_go pr (nr_status r) @ '' is not supported'')], []))"

fun select_records :: "(nat \<Rightarrow> bool) \<Rightarrow> string \<Rightarrow> name_status_record list \<Rightarrow> selection" where
  "select_records pr headSHA [] = ([], [], [])"
| "select_records pr headSHA (r # rs) =
     (let (s, d, c) = select_record pr headSHA r; (ss, ds, cs) = select_records pr headSHA rs
      in (s @ ss, d @ ds, c @ cs))"

definition SelectChangedFiles ::
  "(nat \<Rightarrow> bool) \<Rightarrow> git_process \<Rightarrow> string \<Rightarrow> string \<Rightarrow> string \<Rightarrow> operational_error + selection" where
  "SelectChangedFiles pr child dir mergeBaseSHA headSHA =
     (case RunBytes child dir
             [''diff'', ''--name-status'', ''-z'', ''--find-renames'', ''--find-copies-harder'', mergeBaseSHA, ''HEAD''] of
        Inl e \<Rightarrow> Inl (operational (''coach codesignal: git diff failed: '' @ git_text e))
      | Inr output \<Rightarrow>
          (case parseNameStatusZ pr output of
             Inl e \<Rightarrow> Inl (operational (''coach codesignal: '' @ e))
           | Inr records \<Rightarrow> Inr (select_records pr headSHA records)))"

section \<open>Tracked files\<close>

definition SplitNULPaths :: "string \<Rightarrow> string list" where
  "SplitNULPaths bytes = (let fs = nul_fields bytes in if length fs = 1 \<and> hd fs = [] then [] else fs)"

definition coverageLanguageLabel :: "string \<Rightarrow> string" where
  "coverageLanguageLabel ext = (if ext = [] then ''(no extension)'' else ext)"

definition tracked_file :: "string \<Rightarrow> selected_file option" where
  "tracked_file path =
     map_option (\<lambda>lang. \<lparr>sf_Path = path, sf_Status = [], sf_Language = lang, sf_SourceScope = []\<rparr>)
       (LanguageForExtension (path_ext path))"

definition unsupported_labels :: "string list \<Rightarrow> string list" where
  "unsupported_labels paths =
     map (\<lambda>p. coverageLanguageLabel (path_ext p)) (filter (\<lambda>p. tracked_file p = None) paths)"

definition empty_coverage :: file_coverage where
  "empty_coverage = \<lparr>fv_tracked = 0, fv_analyzed = 0, fv_unanalyzable = 0, fv_unsupported = [], fv_excluded = []\<rparr>"

definition DiscoverTrackedFiles ::
  "git_process \<Rightarrow> string \<Rightarrow> string \<Rightarrow> operational_error + selected_file list \<times> file_coverage" where
  "DiscoverTrackedFiles child dir revisionSHA =
     (case RunBytes child dir [''ls-tree'', ''-r'', ''-z'', ''--name-only'', revisionSHA] of
        Inl e \<Rightarrow> Inl (operational (''coach codesignal: git ls-tree failed: '' @ git_text e))
      | Inr output \<Rightarrow>
          (let paths = SplitNULPaths output; labels = unsupported_labels paths in
           Inr (List.map_filter tracked_file paths,
             empty_coverage\<lparr>fv_tracked := length paths,
               fv_unsupported := map (\<lambda>l. \<lparr>cg_reason = ''unsupported_language'', cg_language = l, cg_count = count_list labels l\<rparr>)
                 (sort_strings (remdups labels))\<rparr>)))"

section \<open>What exists at a revision\<close>

definition lsTreeBlobSHA :: "string \<Rightarrow> string option" where
  "lsTreeBlobSHA output =
     (let trimmed = trim_space output in
      if trimmed = [] \<or> CHR 0x0A \<in> set trimmed then None
      else (case cut_at (CHR 0x09) trimmed of
              None \<Rightarrow> None
            | Some (meta, _) \<Rightarrow>
                let fs = go_fields meta [] in
                if length fs \<noteq> 3 \<or> fs ! 1 \<noteq> ''blob'' then None else Some (fs ! 2)))"

definition FileExistsAtRevision ::
  "(nat \<Rightarrow> bool) \<Rightarrow> (string \<Rightarrow> string list \<Rightarrow> git_error + string) \<Rightarrow> string \<Rightarrow> string \<Rightarrow> string \<Rightarrow> operational_error + bool" where
  "FileExistsAtRevision pr run dir revision repoPath =
     (case run dir [''cat-file'', ''-e'', revision @ ''^{commit}''] of
        Inl e \<Rightarrow> Inl (operational (''coach codesignal --check-project: revision '' @ quote_go pr revision
                   @ '' could not be verified: '' @ git_text e))
      | Inr _ \<Rightarrow>
     (case run dir [''ls-tree'', ''--full-tree'', revision, ''--'', repoPath] of
        Inl e \<Rightarrow> Inl (operational (''coach codesignal --check-project: '' @ quote_go pr repoPath
                   @ '' could not be resolved at revision '' @ quote_go pr revision @ '': '' @ git_text e))
      | Inr output \<Rightarrow>
     (case lsTreeBlobSHA output of
        None \<Rightarrow> Inr False
      | Some sha \<Rightarrow>
          (case run dir [''cat-file'', ''-e'', sha] of
             Inl e \<Rightarrow> Inl (operational (''coach codesignal --check-project: '' @ quote_go pr repoPath
                        @ '' could not be read at revision '' @ quote_go pr revision @ '': '' @ git_text e))
           | Inr _ \<Rightarrow> Inr True))))"

text \<open>The repository root, with its symbolic links resolved by the file system.\<close>

definition RepositoryRoot :: "(string \<Rightarrow> string + string) \<Rightarrow> git_process \<Rightarrow> string \<Rightarrow> string + string" where
  "RepositoryRoot eval_symlinks child dir =
     (case RunBytes child dir [''rev-parse'', ''--show-toplevel''] of
        Inl e \<Rightarrow> Inl (''determining repository root: '' @ git_text e)
      | Inr output \<Rightarrow>
          (case eval_symlinks (trim_space output) of
             Inl e \<Rightarrow> Inl (''resolving repository root: '' @ e)
           | Inr resolved \<Rightarrow> Inr resolved))"

section \<open>Batched reads\<close>

text \<open>
  The reader writes one request, to which the process answers with more output (or the write
  fails), and consumes one response. The state is that of the process and the unread output.
\<close>

type_synonym 'p respond = "'p \<Rightarrow> string \<Rightarrow> string + string \<times> 'p"

record 'p batch_reader =
  br_revision :: string
  br_process :: 'p
  br_output :: string

definition after_nul :: "string \<Rightarrow> string" where
  "after_nul s = tl (dropWhile (\<lambda>x. x \<noteq> nul) s)"

definition read_batch :: "(nat \<Rightarrow> bool) \<Rightarrow> string \<Rightarrow> string \<Rightarrow> string \<Rightarrow> (string + string) \<times> string" where
  "read_batch pr revision path out =
     (if nul \<notin> set out then (Inl (''reading cat-file response header for '' @ quote_go pr path @ '': EOF''), [])
      else
       (let header = takeWhile (\<lambda>x. x \<noteq> nul) out; out1 = after_nul out; fs = go_fields header [] in
        if length fs = 2 \<and> fs ! 1 = ''missing''
        then (Inl (quote_go pr path @ '' is missing at '' @ revision), out1)
        else if length fs \<noteq> 3
        then (Inl (''malformed cat-file header for '' @ quote_go pr path @ '': '' @ quote_go pr header), out1)
        else (case atoi (fs ! 2) of
                None \<Rightarrow> (Inl (''malformed cat-file size for '' @ quote_go pr path @ '': '' @ quote_go pr header), out1)
              | Some n \<Rightarrow>
                  if n < 0 then (Inl (''malformed cat-file size for '' @ quote_go pr path @ '': '' @ quote_go pr header), out1)
                  else (let size = nat n in
                        if length out1 < size
                        then (Inl (''reading cat-file content for '' @ quote_go pr path @ '': ''
                                @ (if out1 = [] then ''EOF'' else ''unexpected EOF'')), [])
                        else if drop size out1 = []
                        then (Inl (''reading cat-file trailing NUL for '' @ quote_go pr path @ '': EOF''), [])
                        else (Inr (take size out1), drop (size + 1) out1)))))"

definition Next :: "(nat \<Rightarrow> bool) \<Rightarrow> 'p respond \<Rightarrow> 'p batch_reader \<Rightarrow> string \<Rightarrow> 'p batch_reader \<times> (string + string)" where
  "Next pr respond r path =
     (case respond (br_process r) (br_revision r @ '':'' @ path @ [nul]) of
        Inl e \<Rightarrow> (r, Inl (''writing cat-file request for '' @ quote_go pr path @ '': '' @ e))
      | Inr (answer, p) \<Rightarrow>
          (let (result, rest) = read_batch pr (br_revision r) path (br_output r @ answer)
           in (r\<lparr>br_process := p, br_output := rest\<rparr>, result)))"

definition NewRevisionFileReader ::
  "(string \<Rightarrow> string list \<Rightarrow> string + 'p) \<Rightarrow> string \<Rightarrow> string \<Rightarrow> string + 'p batch_reader" where
  "NewRevisionFileReader start dir revisionSHA =
     (case start dir [''cat-file'', ''--batch'', ''-Z''] of
        Inl e \<Rightarrow> Inl (''git cat-file --batch: '' @ e)
      | Inr p \<Rightarrow> Inr \<lparr>br_revision = revisionSHA, br_process = p, br_output = []\<rparr>)"

section \<open>The status of the work tree\<close>

record worktree_entry =
  we_Code :: string
  we_Path :: string

function worktree_entries :: "string list \<Rightarrow> worktree_entry list" where
  "worktree_entries [] = []"
| "worktree_entries (raw # rest) =
     (if length raw < 3 then worktree_entries rest
      else (let code = take 2 raw in
            \<lparr>we_Code = code, we_Path = drop 3 raw\<rparr>
            # worktree_entries (if CHR ''R'' \<in> set code \<or> CHR ''C'' \<in> set code then drop 1 rest else rest)))"
  by pat_completeness auto

termination
  by (relation "measure length") auto

definition ParseWorktreeStatus :: "string \<Rightarrow> worktree_entry list" where
  "ParseWorktreeStatus output = worktree_entries (SplitNULPaths output)"

definition WorktreeStatus :: "git_process \<Rightarrow> string \<Rightarrow> git_error + worktree_entry list" where
  "WorktreeStatus child dir =
     (case RunBytesBoundedWith child dir 16777216 65536 half_minute
             [''status'', ''--porcelain=v1'', ''--untracked-files=all'', ''-z''] of
        Inl e \<Rightarrow> Inl e
      | Inr output \<Rightarrow> Inr (ParseWorktreeStatus output))"

definition worktreeIntentToAdd :: "string \<Rightarrow> bool" where
  "worktreeIntentToAdd code \<longleftrightarrow> code ! 0 = CHR '' '' \<and> code ! 1 = CHR ''A''"

definition worktreeStatusUnmerged :: "string \<Rightarrow> bool" where
  "worktreeStatusUnmerged code \<longleftrightarrow> code \<in> {''DD'', ''AU'', ''UD'', ''UA'', ''DU'', ''AA'', ''UU''}"

definition worktreeIndexStaged :: "char \<Rightarrow> bool" where
  "worktreeIndexStaged ch \<longleftrightarrow> ch \<in> set ''AMDRCT''"

definition worktreeColumnModified :: "char \<Rightarrow> bool" where
  "worktreeColumnModified ch \<longleftrightarrow> ch \<in> set ''MDT''"

record worktree_class =
  wc_untracked :: bool
  wc_staged :: bool
  wc_modified :: bool
  wc_unmerged :: bool

definition no_class :: worktree_class where
  "no_class = \<lparr>wc_untracked = False, wc_staged = False, wc_modified = False, wc_unmerged = False\<rparr>"

definition ClassifyWorktreeStatus :: "string \<Rightarrow> worktree_class" where
  "ClassifyWorktreeStatus code =
     (if length code < 2 \<or> code = ''!!'' then no_class
      else if code = ''??'' \<or> worktreeIntentToAdd code then no_class\<lparr>wc_untracked := True\<rparr>
      else if worktreeStatusUnmerged code then no_class\<lparr>wc_unmerged := True\<rparr>
      else (let staged = worktreeIndexStaged (code ! 0); modified = worktreeColumnModified (code ! 1) in
            no_class\<lparr>wc_staged := staged, wc_modified := modified \<or> \<not> staged \<and> \<not> modified\<rparr>))"


section \<open>The streams are read back as they were written\<close>

definition nul_stream :: "string list \<Rightarrow> string" where
  "nul_stream fs = concat (map (\<lambda>f. f @ [nul]) fs)"

lemma split_at_field: "sep \<notin> set f \<Longrightarrow> split_at sep (f @ s) acc = split_at sep s (rev f @ acc)"
  by (induction f arbitrary: acc) auto

lemma split_at_end: "sep \<notin> set f \<Longrightarrow> split_at sep f [] = [f]"
  using split_at_field [of sep f "[]" "[]"] by simp

lemma split_stream:
  "fs \<noteq> [] \<Longrightarrow> \<forall>f\<in>set fs. nul \<notin> set f \<Longrightarrow> split_at nul (butlast (nul_stream fs)) [] = fs"
proof (induction fs)
  case (Cons f fs)
  show ?case
  proof (cases fs)
    case Nil
    then show ?thesis using Cons.prems by (simp add: nul_stream_def split_at_end)
  next
    case (Cons g gs)
    then have ne: "nul_stream fs \<noteq> []" by (simp add: nul_stream_def)
    have "butlast (nul_stream (f # fs)) = f @ nul # butlast (nul_stream fs)"
      using ne by (simp add: nul_stream_def butlast_append)
    then show ?thesis
      using Cons.IH Cons.prems local.Cons split_at_field [of nul f "nul # butlast (nul_stream fs)" "[]"] by simp
  qed
qed simp

lemma last_stream: "fs \<noteq> [] \<Longrightarrow> nul_stream fs \<noteq> [] \<and> last (nul_stream fs) = nul"
  by (induction fs) (auto simp: nul_stream_def)

lemma nul_fields_stream:
  "\<forall>f\<in>set fs. nul \<notin> set f \<Longrightarrow> nul_fields (nul_stream fs) = (if fs = [] then [[]] else fs)"
  using split_stream [of fs] last_stream [of fs] by (auto simp: nul_fields_def nul_stream_def)

lemma nul_stream_append: "nul_stream (xs @ ys) = nul_stream xs @ nul_stream ys"
  by (simp add: nul_stream_def)

text \<open>A record of the name-status stream: one path, or two when it moves a file.\<close>

definition proper_record :: "name_status_record \<Rightarrow> bool" where
  "proper_record r \<longleftrightarrow> nr_status r \<noteq> [] \<and> nul \<notin> set (nr_status r) \<and> list_all (\<lambda>p. nul \<notin> set p) (nr_paths r)
     \<and> length (nr_paths r) = (if moves (nr_status r) then 2 else 1)"

definition record_stream :: "name_status_record list \<Rightarrow> string" where
  "record_stream rs = nul_stream (concat (map (\<lambda>r. nr_status r # nr_paths r) rs))"

lemma records_of_fields:
  "list_all proper_record rs \<Longrightarrow> name_status_records pr (concat (map (\<lambda>r. nr_status r # nr_paths r) rs)) = Inr rs"
proof (induction rs)
  case (Cons r rs)
  then have n: "length (nr_paths r) = (if moves (nr_status r) then 2 else 1)" "nr_status r \<noteq> []"
    by (auto simp: proper_record_def)
  show ?case
    using Cons n by (simp add: name_status_records.simps(2) Let_def flip: n(1))
qed simp

lemma name_status_roundtrip:
  assumes "list_all proper_record rs"
  shows "parseNameStatusZ pr (record_stream rs) = Inr rs"
proof -
  let ?fs = "concat (map (\<lambda>r. nr_status r # nr_paths r) rs)"
  have "\<forall>f\<in>set ?fs. nul \<notin> set f" using assms by (auto simp: list_all_iff proper_record_def)
  then have f: "nul_fields (record_stream rs) = (if ?fs = [] then [[]] else ?fs)"
    by (simp add: record_stream_def nul_fields_stream)
  show ?thesis
  proof (cases rs)
    case Nil
    then show ?thesis using f by (simp add: parseNameStatusZ_def)
  next
    case (Cons r rs')
    then have "hd ?fs \<noteq> []" using assms by (simp add: proper_record_def)
    then show ?thesis using f Cons records_of_fields [OF assms, of pr] by (auto simp: parseNameStatusZ_def Let_def)
  qed
qed

lemma tracked_paths_roundtrip:
  "\<forall>p\<in>set ps. nul \<notin> set p \<and> p \<noteq> [] \<Longrightarrow> SplitNULPaths (nul_stream ps) = ps"
  by (auto simp: SplitNULPaths_def nul_fields_stream Let_def)

text \<open>The path a record is about, and whether it selects it.\<close>

definition target :: "name_status_record \<Rightarrow> string" where
  "target r = last (nr_paths r)"

definition selectable :: "name_status_record \<Rightarrow> bool" where
  "selectable r \<longleftrightarrow> (moves (nr_status r) \<or> nr_status r \<in> {''A'', ''M'', ''D''}) \<and> LanguageForExtension (path_ext (target r)) \<noteq> None"

definition rejected :: "diagnostic list \<Rightarrow> diagnostic list" where
  "rejected ds = filter (\<lambda>d. dg_kind d \<noteq> ''continuity_not_determined'') ds"

lemma select_record_cases:
  assumes "proper_record r" "select_record pr headSHA r = (s, d, c)"
  shows "map sf_Path s = (if selectable r then [target r] else [])"
    and "map dg_path (rejected d) = (if selectable r then [] else [target r])"
    and "c = (if moves (nr_status r) then [\<lparr>ct_path = target r, ct_previous = hd (nr_paths r)\<rparr>] else [])"
    and "list_all (\<lambda>f. Some (sf_Language f) = LanguageForExtension (path_ext (sf_Path f))) s"
proof -
  have one: "hd (nr_paths r) = last (nr_paths r)" if "\<not> moves (nr_status r)"
    using assms(1) that by (cases "nr_paths r") (auto simp: proper_record_def)
  show "map sf_Path s = (if selectable r then [target r] else [])"
    "map dg_path (rejected d) = (if selectable r then [] else [target r])"
    "c = (if moves (nr_status r) then [\<lparr>ct_path = target r, ct_previous = hd (nr_paths r)\<rparr>] else [])"
    "list_all (\<lambda>f. Some (sf_Language f) = LanguageForExtension (path_ext (sf_Path f))) s"
    using assms(2) one
    by (auto simp: select_record_def selectSupportedPath_def selectable_def target_def rejected_def Let_def
        file_diagnostic_def continuity_diagnostic_def split: if_splits option.splits)
qed

lemma select_records_cases:
  "list_all proper_record rs \<Longrightarrow> select_records pr headSHA rs = (s, d, c) \<Longrightarrow>
     map sf_Path s = map target (filter selectable rs)
   \<and> map dg_path (rejected d) = map target (filter (\<lambda>r. \<not> selectable r) rs)
   \<and> c = map (\<lambda>r. \<lparr>ct_path = target r, ct_previous = hd (nr_paths r)\<rparr>) (filter (\<lambda>r. moves (nr_status r)) rs)"
proof (induction rs arbitrary: s d c)
  case (Cons r rs)
  obtain s1 d1 c1 where 1: "select_record pr headSHA r = (s1, d1, c1)" by (metis prod_cases3)
  obtain s2 d2 c2 where 2: "select_records pr headSHA rs = (s2, d2, c2)" by (metis prod_cases3)
  have eq: "s = s1 @ s2" "d = d1 @ d2" "c = c1 @ c2" using Cons.prems(2) 1 2 by auto
  have r: "proper_record r" and rs: "list_all proper_record rs" using Cons.prems(1) by auto
  show ?case
    using select_record_cases [OF r 1] Cons.IH [OF rs 2] by (simp add: eq rejected_def)
qed (simp add: rejected_def)

text \<open>C14. Read from git's name-status stream, every changed path is either selected, with its language,
  or reported by one diagnostic that names it, in the order of the stream; and every renamed or
  copied path, supported or not, is listed with its previous path as of undetermined continuity.
\<close>

theorem changed_files_are_all_accounted_for:
  assumes "RunBytes child dir
      [''diff'', ''--name-status'', ''-z'', ''--find-renames'', ''--find-copies-harder'', base, ''HEAD''] = Inr (record_stream rs)"
    and "list_all proper_record rs"
  shows "\<exists>selected ds pairs. SelectChangedFiles pr child dir base headSHA = Inr (selected, ds, pairs)
    \<and> map sf_Path selected = map target (filter selectable rs)
    \<and> map dg_path (rejected ds) = map target (filter (\<lambda>r. \<not> selectable r) rs)
    \<and> pairs = map (\<lambda>r. \<lparr>ct_path = target r, ct_previous = hd (nr_paths r)\<rparr>) (filter (\<lambda>r. moves (nr_status r)) rs)"
proof -
  obtain s d c where r: "select_records pr headSHA rs = (s, d, c)" by (metis prod_cases3)
  have "SelectChangedFiles pr child dir base headSHA = Inr (s, d, c)"
    using assms r by (simp add: SelectChangedFiles_def name_status_roundtrip)
  then show ?thesis using select_records_cases [OF assms(2) r] by blast
qed

definition sample_child :: "string \<Rightarrow> git_process" where
  "sample_child out dir args = \<lparr>gc_start = None, gc_stdout = out, gc_stdout_err = None, gc_stderr = [],
     gc_stderr_err = None, gc_wait = None, gc_deadline = False\<rparr>"

definition sample_records :: "name_status_record list" where
  "sample_records = [\<lparr>nr_status = ''M'', nr_paths = [''a.go'']\<rparr>, \<lparr>nr_status = ''R090'', nr_paths = [''x.ts'', ''y.ts'']\<rparr>,
     \<lparr>nr_status = ''A'', nr_paths = [''doc.md'']\<rparr>]"

lemma sample_records_proper: "list_all proper_record sample_records"
  by code_simp

theorem changed_files_are_all_accounted_for_witness:
  "\<exists>selected ds pairs. SelectChangedFiles (\<lambda>_. True) (sample_child (record_stream sample_records)) ''.'' ''b'' ''h''
      = Inr (selected, ds, pairs)
    \<and> map sf_Path selected = map target (filter selectable sample_records)
    \<and> map dg_path (rejected ds) = map target (filter (\<lambda>r. \<not> selectable r) sample_records)
    \<and> pairs = map (\<lambda>r. \<lparr>ct_path = target r, ct_previous = hd (nr_paths r)\<rparr>) (filter (\<lambda>r. moves (nr_status r)) sample_records)"
  by (rule changed_files_are_all_accounted_for [OF _ sample_records_proper]) (simp add: RunBytes_def sample_child_def)

section \<open>Batched reads stay in step\<close>

text \<open>
  The protocol of \<open>git cat-file --batch -Z\<close>: the object, its type and its size, then the content;
  or the request with the word missing.
\<close>

definition answer_for :: "(string \<Rightarrow> string option) \<Rightarrow> string \<Rightarrow> string" where
  "answer_for content request =
     (case content request of
        None \<Rightarrow> request @ '' missing'' @ [nul]
      | Some c \<Rightarrow> ''e69de29b blob '' @ itoa (int (length c)) @ [nul] @ c @ [nul])"

definition plain_word :: "string \<Rightarrow> bool" where
  "plain_word w \<longleftrightarrow> w \<noteq> [] \<and> list_all (\<lambda>ch. 33 \<le> (of_char ch :: nat) \<and> (of_char ch :: nat) \<le> 126) w"

lemma plain_rune:
  "33 \<le> (of_char ch :: nat) \<Longrightarrow> (of_char ch :: nat) \<le> 126 \<Longrightarrow> space_rune (map of_char (ch # s)) = 0"
  by (auto simp: space_rune_def ascii_space_def split: list.splits)

lemma fields_word:
  "list_all (\<lambda>ch. 33 \<le> (of_char ch :: nat) \<and> (of_char ch :: nat) \<le> 126) w \<Longrightarrow> go_fields (w @ s) acc = go_fields s (rev w @ acc)"
proof (induction w arbitrary: acc)
  case (Cons ch w)
  have "space_rune (map of_char (ch # w @ s)) = 0" by (rule plain_rune) (use Cons.prems in auto)
  then have "go_fields (ch # w @ s) acc = go_fields (w @ s) (ch # acc)"
    by (subst go_fields.simps) (simp add: Let_def)
  then show ?case using Cons by simp
qed simp

lemma blank_rune: "space_rune (map of_char (CHR '' '' # s)) = 1"
  by (simp add: space_rune_def ascii_space_def)

lemma fields_blank: "go_fields (CHR '' '' # s) acc = (if acc = [] then [] else [rev acc]) @ go_fields s []"
  using blank_rune [of s] by (subst go_fields.simps) (simp add: Let_def)

lemma fields_end: "go_fields [] acc = (if acc = [] then [] else [rev acc])"
  by (subst go_fields.simps) simp

lemma fields_first: "plain_word w \<Longrightarrow> go_fields (w @ CHR '' '' # s) [] = w # go_fields s []"
  by (simp add: plain_word_def fields_word fields_blank)

lemma fields_last: "plain_word w \<Longrightarrow> go_fields w [] = [w]"
  using fields_word [of w "[]" "[]"] by (simp add: plain_word_def fields_end)

text \<open>The last field of a request that is missing.\<close>

lemma rune_within:
  assumes "x \<noteq> []"
  shows "space_rune (map of_char (x @ CHR '' '' # s)) \<le> length x"
proof -
  obtain a y where x: "x = a # y" using assms by (cases x) auto
  show ?thesis
  proof (cases y)
    case Nil
    then show ?thesis using x by (auto simp: space_rune_def split: list.splits)
  next
    case (Cons b z)
    then show ?thesis using x
      by (cases z) (auto simp: space_rune_def ascii_space_def split: list.splits if_splits)
  qed
qed

lemma fields_missing: "\<exists>fs. go_fields (x @ CHR '' '' # w) acc = fs @ go_fields w []"
proof (induction "length x" arbitrary: x acc rule: less_induct)
  case less
  show ?case
  proof (cases x)
    case Nil
    then show ?thesis by (simp add: fields_blank)
  next
    case (Cons ch y)
    let ?k = "space_rune (map of_char (x @ CHR '' '' # w))"
    show ?thesis
    proof (cases "?k = 0")
      case True
      have "go_fields (x @ CHR '' '' # w) acc = go_fields (y @ CHR '' '' # w) (ch # acc)"
        using True Cons by (subst go_fields.simps) (simp add: Let_def)
      then show ?thesis using less [of y] Cons by simp
    next
      case False
      have "go_fields (x @ CHR '' '' # w) acc
          = (if acc = [] then [] else [rev acc]) @ go_fields (drop ?k (x @ CHR '' '' # w)) []"
        using False Cons by (subst go_fields.simps) (simp add: Let_def)
      moreover have k: "?k \<le> length x" using rune_within [of x w] Cons by blast
      then have "drop ?k (x @ CHR '' '' # w) = drop ?k x @ CHR '' '' # w"
        by (simp only: drop_append diff_is_0_eq [THEN iffD2, OF k] drop_0)
      ultimately show ?thesis using less [of "drop ?k x" "[]"] False Cons by (metis append_assoc drop_eq_Nil2 length_drop
            diff_less length_greater_0_conv list.discI zero_less_iff_neq_zero)
    qed
  qed
qed

lemma missing_word: "plain_word ''missing''"
  by code_simp

lemma blob_word: "plain_word ''blob''" "plain_word ''e69de29b''"
  by code_simp+

lemma decimal_plain: "list_all (\<lambda>ch. 33 \<le> (of_char ch :: nat) \<and> (of_char ch :: nat) \<le> 126) (decimal n)"
proof (induction n rule: decimal.induct)
  case (1 n)
  show ?case
  proof (cases "n < 10")
    case True
    then show ?thesis using digit_code [OF True] by (simp add: decimal_small)
  next
    case False
    then show ?thesis using 1 digit_code [of "n mod 10"] by (simp add: decimal_big)
  qed
qed

lemma size_word: "plain_word (itoa (int n))"
  using decimal_plain [of n] by (simp add: plain_word_def itoa_def)

lemma plain_no_nul: "plain_word w \<Longrightarrow> nul \<notin> set w"
  by (auto simp: plain_word_def list_all_iff)

lemma header_split:
  assumes "nul \<notin> set h"
  shows "takeWhile (\<lambda>x. x \<noteq> nul) (h @ nul # s) = h" "after_nul (h @ nul # s) = s"
  using assms by (auto simp: after_nul_def takeWhile_append dropWhile_append)

lemma read_present:
  assumes "length c < 2 ^ 63"
  shows "read_batch pr revision path (''e69de29b blob '' @ itoa (int (length c)) @ [nul] @ c @ [nul]) = (Inr c, [])"
proof -
  let ?h = "''e69de29b'' @ CHR '' '' # ''blob'' @ CHR '' '' # itoa (int (length c))"
  have f: "go_fields ?h [] = [''e69de29b'', ''blob'', itoa (int (length c))]"
    using blob_word size_word [of "length c"] by (simp only: fields_first fields_last)
  have n: "nul \<notin> set ?h" using plain_no_nul [OF size_word [of "length c"]] by simp
  have a: "atoi (itoa (int (length c))) = Some (int (length c))" using assms by (intro atoi_itoa) auto
  have eq: "''e69de29b blob '' @ itoa (int (length c)) @ [nul] @ c @ [nul] = ?h @ nul # (c @ [nul])" by simp
  show ?thesis
    unfolding eq read_batch_def header_split [OF n] f Let_def using a by simp
qed

lemma atoi_missing: "atoi ''missing'' = None"
  by code_simp

lemma read_missing:
  assumes "nul \<notin> set q"
  shows "\<exists>e. read_batch pr revision path (q @ '' missing'' @ [nul]) = (Inl e, [])"
proof -
  let ?h = "q @ CHR '' '' # ''missing''"
  obtain fs where "go_fields ?h [] = fs @ go_fields ''missing'' []" using fields_missing by blast
  then have f: "go_fields ?h [] = fs @ [''missing'']" using fields_last [OF missing_word] by simp
  have n: "nul \<notin> set ?h" using assms by simp
  have eq: "q @ '' missing'' @ [nul] = ?h @ nul # []" by simp
  have third: "length fs = 2 \<Longrightarrow> (fs @ [''missing'']) ! 2 = ''missing''" by (simp add: nth_append)
  show ?thesis
    unfolding eq read_batch_def header_split [OF n] f Let_def using atoi_missing third by auto
qed

text \<open>A process that follows the protocol, and the reading of many paths in turn.\<close>

definition follows_protocol :: "'p respond \<Rightarrow> (string \<Rightarrow> string option) \<Rightarrow> bool" where
  "follows_protocol respond content \<longleftrightarrow> (\<forall>p q. \<exists>p'. respond p (q @ [nul]) = Inr (answer_for content q, p'))"

fun read_all :: "(nat \<Rightarrow> bool) \<Rightarrow> 'p respond \<Rightarrow> 'p batch_reader \<Rightarrow> string list \<Rightarrow> (string + string) list" where
  "read_all pr respond r [] = []"
| "read_all pr respond r (p # ps) = (let (r', x) = Next pr respond r p in x # read_all pr respond r' ps)"

lemma next_in_step:
  assumes "follows_protocol respond content" "br_output r = []" "nul \<notin> set p" "nul \<notin> set (br_revision r)"
    and "\<And>c. content (br_revision r @ '':'' @ p) = Some c \<Longrightarrow> length c < 2 ^ 63"
  shows "\<exists>r' x. Next pr respond r p = (r', x) \<and> br_output r' = [] \<and> br_revision r' = br_revision r
    \<and> (case content (br_revision r @ '':'' @ p) of Some c \<Rightarrow> x = Inr c | None \<Rightarrow> \<not> is_ok x)"
proof -
  let ?q = "br_revision r @ '':'' @ p"
  obtain p' where a: "respond (br_process r) (?q @ [nul]) = Inr (answer_for content ?q, p')"
    using assms(1) unfolding follows_protocol_def by blast
  show ?thesis
  proof (cases "content ?q")
    case None
    have "nul \<notin> set ?q" using assms(3,4) by simp
    then obtain e where "read_batch pr (br_revision r) p (?q @ '' missing'' @ [nul]) = (Inl e, [])"
      using read_missing [of ?q pr "br_revision r" p] by blast
    then show ?thesis using a None assms(2) by (simp add: Next_def answer_for_def)
  next
    case (Some c)
    then have "read_batch pr (br_revision r) p (answer_for content ?q) = (Inr c, [])"
      using read_present [of c] assms(5) by (simp add: answer_for_def)
    then show ?thesis using a Some assms(2) by (simp add: Next_def)
  qed
qed

lemma reads_in_step:
  assumes "follows_protocol respond content" "br_output r = []" "nul \<notin> set (br_revision r)"
    and "\<forall>p\<in>set ps. nul \<notin> set p" "\<forall>q c. content q = Some c \<longrightarrow> length c < 2 ^ 63"
  shows "list_all2 (\<lambda>p x. case content (br_revision r @ '':'' @ p) of Some c \<Rightarrow> x = Inr c | None \<Rightarrow> \<not> is_ok x)
    ps (read_all pr respond r ps)"
  using assms(2-4)
proof (induction ps arbitrary: r)
  case (Cons p ps)
  obtain r' x where n: "Next pr respond r p = (r', x)" "br_output r' = []" "br_revision r' = br_revision r"
      "case content (br_revision r @ '':'' @ p) of Some c \<Rightarrow> x = Inr c | None \<Rightarrow> \<not> is_ok x"
    using next_in_step [of respond content r p pr] assms(1,5) Cons.prems by auto
  then show ?case using Cons.IH [of r'] Cons.prems by simp
qed simp


definition sample_tree :: "string \<Rightarrow> string option" where
  "sample_tree q = (if q = ''h:a b.go'' then Some ([nul] @ '' x'' @ [nul, nul]) else None)"

definition sample_respond :: "unit respond" where
  "sample_respond p request = Inr (answer_for sample_tree (butlast request), p)"


end
