(* ===== verification/ProjectConfig.thy ===== *)
theory ProjectConfig
  imports LayerRules GitRepo GoJson
begin

text \<open>
  The project policy document of the codesignal command (internal/codesignalcli/projectconfig):
  which document a revision selects, how it is read through bounded git commands
  (internal/codesignalcli/gitrepo), what its schema accepts, and the layer policy the rules get
  (internal/codesignalcli/go_project_policy.go).

  The environment holds the git child processes (what they write and how they end), the file
  system, the JSON parser from bytes to a document (of whose
  decoding errors the text is not kept) and the printable table of strconv.Quote.
\<close>

section \<open>The environment\<close>

definition MaxBytes :: nat where "MaxBytes = 1048576"
definition maxJSONDepth :: nat where "maxJSONDepth = 32"
definition MaxGitStderr :: nat where "MaxGitStderr = 65536"
definition MaxLayerPrefixes :: nat where "MaxLayerPrefixes = 4096"
definition MaxRoots :: nat where "MaxRoots = 256"
definition CanonicalPath :: string where "CanonicalPath = ''.lousy-agents/coach.json''"
definition DefaultPath :: string where "DefaultPath = ''project.json''"

record config_env =
  ce_child :: git_process
  ce_json :: "string \<Rightarrow> raw_message"
  ce_stat :: "string \<Rightarrow> bool"
  ce_eval :: "string \<Rightarrow> string + string"
  ce_printable :: "nat \<Rightarrow> bool"

abbreviation cquote :: "config_env \<Rightarrow> string \<Rightarrow> string" where
  "cquote V \<equiv> quote_go (ce_printable V)"

definition runProjectConfigGit :: "config_env \<Rightarrow> string \<Rightarrow> string list \<Rightarrow> git_error + string" where
  "runProjectConfigGit V dir args =
     RunBytesBoundedWith (ce_child V) dir (int MaxBytes) (int MaxGitStderr) half_minute args"

text \<open>The failures: a rejected document by kind, an environment that failed, any other error.\<close>

datatype config_kind = KindNotFound | KindInvalid | KindUncommitted | KindUnreadable

datatype config_failure = ConfigError config_kind string | OperationalError operational_error | OtherFailure string

section \<open>The document\<close>

record config_layer =
  cy_Name :: string
  cy_Prefixes :: "string list"

record config_forbidden =
  cb_From :: string
  cb_To :: string

record project_config =
  cf_SchemaVersion :: string
  cf_Roots :: "string list"
  cf_Layers :: "config_layer list"
  cf_ForbiddenImports :: "config_forbidden list"
  cf_SourceSinkPack :: string
  cf_RequiredLayer :: string
  cf_ExcludeTypeOnlyEdges :: bool

definition config_ty :: gty where
  "config_ty = TyStruct
     [(''schema_version'', False, TyString), (''roots'', False, TySlice TyString),
      (''layers'', True, TySlice (TyStruct [(''name'', False, TyString), (''prefixes'', False, TySlice TyString)])),
      (''forbidden_imports'', True, TySlice (TyStruct [(''from'', False, TyString), (''to'', False, TyString)])),
      (''source_sink_pack'', True, TyString), (''required_layer'', True, TyString),
      (''exclude_type_only_edges'', True, TyBool)]"

definition text_of :: "gval \<Rightarrow> string" where
  "text_of v = (case v of GString s \<Rightarrow> s | _ \<Rightarrow> [])"

definition config_of :: "gval \<Rightarrow> project_config" where
  "config_of v =
     (let f = (\<lambda>i w. fields_of w ! i) in
      \<lparr>cf_SchemaVersion = text_of (f 0 v), cf_Roots = map text_of (elements (f 1 v)),
       cf_Layers = map (\<lambda>w. \<lparr>cy_Name = text_of (f 0 w), cy_Prefixes = map text_of (elements (f 1 w))\<rparr>) (elements (f 2 v)),
       cf_ForbiddenImports = map (\<lambda>w. \<lparr>cb_From = text_of (f 0 w), cb_To = text_of (f 1 w)\<rparr>) (elements (f 3 v)),
       cf_SourceSinkPack = text_of (f 4 v), cf_RequiredLayer = text_of (f 5 v),
       cf_ExcludeTypeOnlyEdges = (case f 6 v of GBool b \<Rightarrow> b | _ \<Rightarrow> False)\<rparr>)"

text \<open>\<open>DisallowUnknownFields\<close>: every key of an object decoded into a struct names one of its fields.\<close>

function known_json :: "gty \<Rightarrow> json \<Rightarrow> bool"
  and known_elems :: "gty \<Rightarrow> json list \<Rightarrow> bool"
  and known_members :: "(string \<times> bool \<times> gty) list \<Rightarrow> (string \<times> json) list \<Rightarrow> bool" where
  "known_json t j =
     (case j of
        JArr js \<Rightarrow> (case t of TySlice u \<Rightarrow> known_elems u js | _ \<Rightarrow> True)
      | JObj ms \<Rightarrow> (case t of TyStruct fs \<Rightarrow> known_members fs ms | _ \<Rightarrow> True)
      | _ \<Rightarrow> True)"
| "known_elems t [] = True"
| "known_elems t (j # js) = (known_json t j \<and> known_elems t js)"
| "known_members fs [] = True"
| "known_members fs ((k, j) # ms) =
     ((case field_index (field_name k) fs of None \<Rightarrow> False | Some i \<Rightarrow> known_json (snd (snd (fs ! i))) j) \<and> known_members fs ms)"
  by pat_completeness auto

termination
  by (relation "measure (\<lambda>x. case x of Inl (t, j) \<Rightarrow> size j | Inr (Inl (t, js)) \<Rightarrow> size_list size js
      | Inr (Inr (fs, ms)) \<Rightarrow> size_list (size_prod (\<lambda>_. 0) size) ms)")
    (auto simp: size_list_conv_sum_list)

text \<open>The walk over the tokens: the nesting budget, then duplicate keys.\<close>

function walkJSONValue :: "(string \<Rightarrow> string) \<Rightarrow> nat \<Rightarrow> json \<Rightarrow> string option"
  and walkJSONObject :: "(string \<Rightarrow> string) \<Rightarrow> nat \<Rightarrow> string list \<Rightarrow> (string \<times> json) list \<Rightarrow> string option"
  and walkJSONArray :: "(string \<Rightarrow> string) \<Rightarrow> nat \<Rightarrow> json list \<Rightarrow> string option" where
  "walkJSONValue q depth j =
     (if depth > maxJSONDepth
      then Some (''document exceeds JSON nesting budget of '' @ itoa (int maxJSONDepth))
      else (case j of
              JObj ms \<Rightarrow> walkJSONObject q depth [] ms
            | JArr js \<Rightarrow> walkJSONArray q depth js
            | _ \<Rightarrow> None))"
| "walkJSONObject q depth seen [] = None"
| "walkJSONObject q depth seen ((k, j) # ms) =
     (if k \<in> set seen then Some (''duplicate object key '' @ q k)
      else (case walkJSONValue q (depth + 1) j of
              Some e \<Rightarrow> Some e
            | None \<Rightarrow> walkJSONObject q depth (k # seen) ms))"
| "walkJSONArray q depth [] = None"
| "walkJSONArray q depth (j # js) =
     (case walkJSONValue q (depth + 1) j of
        Some e \<Rightarrow> Some e
      | None \<Rightarrow> walkJSONArray q depth js)"
  by pat_completeness auto

termination
  by (relation "measure (\<lambda>x. case x of Inl (q, d, j) \<Rightarrow> size j
      | Inr (Inl (q, d, seen, ms)) \<Rightarrow> size_list (size_prod (\<lambda>_. 0) size) ms
      | Inr (Inr (q, d, js)) \<Rightarrow> size_list size js)")
    (auto simp: size_list_conv_sum_list)

definition decode_config :: "config_env \<Rightarrow> string \<Rightarrow> string + project_config" where
  "decode_config V data =
     (if length data > MaxBytes then Inl (''document exceeds '' @ itoa (int MaxBytes) @ ''-byte size budget'')
      else (case ce_json V data of
              RawJson j \<Rightarrow>
                (case walkJSONValue (cquote V) 1 j of
                   Some e \<Rightarrow> Inl e
                 | None \<Rightarrow>
                     (case (if known_json config_ty j then json_decode config_ty (zero_value config_ty) j else None) of
                        None \<Rightarrow> Inl ''schema decode failed''
                      | Some v \<Rightarrow>
                          if cf_SchemaVersion (config_of v) \<noteq> ''1'' then Inl ''schema_version must be \"1\"''
                          else Inr (config_of v)))
            | _ \<Rightarrow> Inl ''document is not valid JSON''))"

section \<open>Validation\<close>

definition ValidatePath :: "string \<Rightarrow> string option" where
  "ValidatePath repoPath =
     (if repoPath = [] \<or> hd repoPath = CHR ''/'' then Some ''path must be a non-empty repository-relative path''
      else if path_clean repoPath \<noteq> repoPath \<or> path_clean repoPath = ''.'' \<or> path_clean repoPath = ''..''
              \<or> has_prefix (path_clean repoPath) ''../''
      then Some ''path must be normalized and remain inside the repository''
      else if backslash \<in> set repoPath then Some ''path must use repository-relative slash separators''
      else None)"

definition ValidateDirectory :: "string \<Rightarrow> string option" where
  "ValidateDirectory d =
     (if d = [] \<or> hd d = CHR ''/'' then Some ''must be a non-empty repository-relative path''
      else if path_clean d \<noteq> d \<or> path_clean d = ''..'' \<or> has_prefix (path_clean d) ''../'' \<or> backslash \<in> set d
      then Some ''must be a normalized repository-relative path''
      else None)"

text \<open>The first error of a check over a list.\<close>

fun check_each :: "('a \<Rightarrow> string option) \<Rightarrow> 'a list \<Rightarrow> string option" where
  "check_each f [] = None"
| "check_each f (x # xs) = (case f x of Some e \<Rightarrow> Some e | None \<Rightarrow> check_each f xs)"

fun hasDuplicates :: "string list \<Rightarrow> string list \<Rightarrow> bool" where
  "hasDuplicates seen [] \<longleftrightarrow> False"
| "hasDuplicates seen (p # ps) \<longleftrightarrow> p \<in> set seen \<or> hasDuplicates (p # seen) ps"

definition hasDuplicatePaths :: "string list \<Rightarrow> bool" where
  "hasDuplicatePaths paths \<longleftrightarrow> hasDuplicates [] paths"

definition validateRoots :: "config_env \<Rightarrow> string list \<Rightarrow> string option" where
  "validateRoots V roots =
     (if length roots = 0 then Some ''roots must contain at least one repository-relative directory''
      else if length roots > MaxRoots then Some (''roots exceed budget of '' @ itoa (int MaxRoots) @ '' entries'')
      else (case check_each (\<lambda>d. map_option (\<lambda>e. ''root '' @ cquote V d @ '': '' @ e) (ValidateDirectory d)) roots of
              Some e \<Rightarrow> Some e
            | None \<Rightarrow> if hasDuplicatePaths roots then Some ''roots must be unique'' else None))"

text \<open>After sorting, only neighbours are compared.\<close>

fun neighbour_prefix :: "string list \<Rightarrow> bool" where
  "neighbour_prefix (a # b # ps) \<longleftrightarrow> has_prefix b a \<or> neighbour_prefix (b # ps)"
| "neighbour_prefix _ \<longleftrightarrow> False"

definition HasDuplicateOrOverlappingPaths :: "string list \<Rightarrow> bool" where
  "HasDuplicateOrOverlappingPaths paths =
     (if length paths < 2 then False
      else if ''.'' \<in> set paths then True
      else neighbour_prefix (sort (map (\<lambda>p. p @ ''/'') paths)))"

definition collectLayerPrefixes :: "config_env \<Rightarrow> config_layer \<Rightarrow> string + string list" where
  "collectLayerPrefixes V l =
     (if length (cy_Prefixes l) = 0 then Inl (''layer '' @ cquote V (cy_Name l) @ '' must contain at least one prefix'')
      else (case check_each (\<lambda>p. map_option (\<lambda>e. ''layer '' @ cquote V (cy_Name l) @ '' prefix '' @ cquote V p @ '': '' @ e)
                     (ValidateDirectory p)) (cy_Prefixes l) of
              Some e \<Rightarrow> Inl e
            | None \<Rightarrow> Inr (cy_Prefixes l)))"

fun collect_layers :: "config_env \<Rightarrow> config_layer list \<Rightarrow> string list \<Rightarrow> string list \<Rightarrow> string + string list \<times> string list" where
  "collect_layers V [] seen pfs = Inr (seen, pfs)"
| "collect_layers V (l # ls) seen pfs =
     (if cy_Name l = [] then Inl ''layer name must be non-empty''
      else if cy_Name l \<in> set seen then Inl ''layer names must be unique''
      else (case collectLayerPrefixes V l of
              Inl e \<Rightarrow> Inl e
            | Inr ps \<Rightarrow> collect_layers V ls (cy_Name l # seen) (pfs @ ps)))"

definition validateLayers :: "config_env \<Rightarrow> config_layer list \<Rightarrow> string + string list" where
  "validateLayers V ls =
     (case collect_layers V ls [] [] of
        Inl e \<Rightarrow> Inl e
      | Inr (seen, pfs) \<Rightarrow>
          if length pfs > MaxLayerPrefixes
          then Inl (''layer prefixes exceed budget of '' @ itoa (int MaxLayerPrefixes) @ '' entries'')
          else if HasDuplicateOrOverlappingPaths pfs then Inl ''layer prefixes must be unique and non-overlapping''
          else Inr seen)"

definition forbidden_key :: "config_forbidden \<Rightarrow> string" where
  "forbidden_key f = cb_From f @ [CHR 0x00] @ cb_To f"

fun validate_forbidden :: "config_env \<Rightarrow> string list \<Rightarrow> string list \<Rightarrow> config_forbidden list \<Rightarrow> string option" where
  "validate_forbidden V names seen [] = None"
| "validate_forbidden V names seen (f # fs) =
     (if cb_From f = [] \<or> cb_To f = [] then Some ''forbidden_imports entries require non-empty from and to''
      else if cb_From f \<notin> set names
      then Some (''forbidden_imports entry references undefined layer '' @ cquote V (cb_From f))
      else if cb_To f \<notin> set names
      then Some (''forbidden_imports entry references undefined layer '' @ cquote V (cb_To f))
      else if forbidden_key f \<in> set seen then Some ''forbidden_imports entries must be unique''
      else validate_forbidden V names (forbidden_key f # seen) fs)"

definition validateForbiddenImports :: "config_env \<Rightarrow> config_forbidden list \<Rightarrow> string list \<Rightarrow> string option" where
  "validateForbiddenImports V fs names = validate_forbidden V names [] fs"

definition validateLayerReferences :: "config_env \<Rightarrow> project_config \<Rightarrow> string list \<Rightarrow> string option" where
  "validateLayerReferences V c names =
     (if cf_SourceSinkPack c \<noteq> [] \<and> cf_SourceSinkPack c \<noteq> ''builtin-v1''
      then Some ''source_sink_pack must be \"builtin-v1\" when supplied''
      else if cf_RequiredLayer c \<noteq> [] \<and> cf_RequiredLayer c \<notin> set names
      then Some (''required_layer references undefined layer '' @ cquote V (cf_RequiredLayer c))
      else None)"

definition ParseConfig :: "config_env \<Rightarrow> string \<Rightarrow> string + project_config" where
  "ParseConfig V data =
     (case decode_config V data of
        Inl e \<Rightarrow> Inl e
      | Inr c \<Rightarrow>
     (case validateRoots V (cf_Roots c) of
        Some e \<Rightarrow> Inl e
      | None \<Rightarrow>
     (case validateLayers V (cf_Layers c) of
        Inl e \<Rightarrow> Inl e
      | Inr names \<Rightarrow>
     (case validateForbiddenImports V (cf_ForbiddenImports c) names of
        Some e \<Rightarrow> Inl e
      | None \<Rightarrow>
     (case validateLayerReferences V c names of
        Some e \<Rightarrow> Inl e
      | None \<Rightarrow> Inr c)))))"

section \<open>Loading and selection\<close>

definition join2 :: "string \<Rightarrow> string \<Rightarrow> string" where
  "join2 dir p = path_clean (if dir = [] then p else dir @ ''/'' @ p)"

definition configExistsInWorktree :: "config_env \<Rightarrow> string \<Rightarrow> string \<Rightarrow> bool" where
  "configExistsInWorktree V dir repoPath \<longleftrightarrow> ce_stat V (join2 dir repoPath)"

definition invalidError :: "config_env \<Rightarrow> string \<Rightarrow> string \<Rightarrow> string \<Rightarrow> config_failure" where
  "invalidError V repoPath revision reason =
     ConfigError KindInvalid (''coach codesignal: --project-config '' @ cquote V repoPath @ '' is invalid at revision ''
       @ cquote V revision @ '' (project_config_invalid): '' @ reason)"

definition readError :: "config_env \<Rightarrow> string \<Rightarrow> string \<Rightarrow> string \<Rightarrow> git_error \<Rightarrow> config_failure" where
  "readError V dir revision repoPath err =
     (case err of
        BoundError k msg \<Rightarrow>
          ConfigError KindUnreadable (''coach codesignal: --project-config '' @ cquote V repoPath
            @ '' is not readable at revision '' @ cquote V revision @ '' (project_config_invalid): '' @ msg)
      | GitFailure t \<Rightarrow>
          if configExistsInWorktree V dir repoPath
          then ConfigError KindUncommitted (''coach codesignal: --project-config '' @ cquote V repoPath
            @ '' exists in the worktree but is not committed at revision '' @ cquote V revision
            @ '' (project_config_invalid): commit the file so it is readable at the analyzed revision'')
          else ConfigError KindNotFound (''coach codesignal: --project-config '' @ cquote V repoPath
            @ '' was not found at revision '' @ cquote V revision @ '' (project_config_invalid)''))"

definition git_show :: "config_env \<Rightarrow> string \<Rightarrow> string \<Rightarrow> string \<Rightarrow> git_error + string" where
  "git_show V dir revision repoPath = runProjectConfigGit V dir [''show'', revision @ '':'' @ repoPath]"

definition LoadForReadiness :: "config_env \<Rightarrow> string \<Rightarrow> string \<Rightarrow> string \<Rightarrow> config_failure + project_config" where
  "LoadForReadiness V dir revision repoPath =
     (case ValidatePath repoPath of
        Some e \<Rightarrow> Inl (invalidError V repoPath revision e)
      | None \<Rightarrow>
     (case git_show V dir revision repoPath of
        Inl (BoundError BoundStdout msg) \<Rightarrow>
          Inl (invalidError V repoPath revision (''committed content exceeds the '' @ itoa (int MaxBytes)
            @ ''-byte size budget: '' @ msg))
      | Inl err \<Rightarrow>
          Inl (OperationalError (operational (''coach codesignal --check-project: --project-config '' @ cquote V repoPath
            @ '' could not be read at revision '' @ cquote V revision @ '': '' @ git_text err)))
      | Inr data \<Rightarrow>
          (case ParseConfig V data of
             Inl e \<Rightarrow> Inl (invalidError V repoPath revision e)
           | Inr c \<Rightarrow> Inr c)))"

definition LoadConfig :: "config_env \<Rightarrow> string \<Rightarrow> string \<Rightarrow> string \<Rightarrow> config_failure + string" where
  "LoadConfig V dir revision repoPath =
     (case ValidatePath repoPath of
        Some e \<Rightarrow> Inl (invalidError V repoPath revision e)
      | None \<Rightarrow>
     (case git_show V dir revision repoPath of
        Inl err \<Rightarrow> Inl (readError V dir revision repoPath err)
      | Inr data \<Rightarrow>
          (case ParseConfig V data of
             Inl e \<Rightarrow> Inl (invalidError V repoPath revision e)
           | Inr c \<Rightarrow> Inr data)))"

record config_selection =
  se_Path :: string
  se_Deprecated :: bool
  se_UncommittedCanonical :: bool
  se_Fatal :: "config_failure option"

definition no_selection :: config_selection where
  "no_selection = \<lparr>se_Path = [], se_Deprecated = False, se_UncommittedCanonical = False, se_Fatal = None\<rparr>"

definition loadCanonical :: "config_env \<Rightarrow> string \<Rightarrow> string \<Rightarrow> config_failure + config_selection" where
  "loadCanonical V dir revision =
     (case LoadConfig V dir revision CanonicalPath of
        Inl e \<Rightarrow> Inr (no_selection\<lparr>se_Fatal := Some e\<rparr>)
      | Inr _ \<Rightarrow> Inr (no_selection\<lparr>se_Path := CanonicalPath\<rparr>))"

definition legacyLoadFailure :: "config_selection \<Rightarrow> config_failure \<Rightarrow> config_failure + config_selection" where
  "legacyLoadFailure selection err =
     (case err of
        ConfigError KindNotFound _ \<Rightarrow> Inr selection
      | ConfigError KindInvalid _ \<Rightarrow> Inr selection
      | ConfigError KindUncommitted _ \<Rightarrow> Inr selection
      | _ \<Rightarrow> Inl err)"

definition selectLegacy :: "config_env \<Rightarrow> string \<Rightarrow> string \<Rightarrow> string \<Rightarrow> config_failure + config_selection" where
  "selectLegacy V dir base_dir revision =
     (let selection = no_selection\<lparr>se_UncommittedCanonical := configExistsInWorktree V base_dir CanonicalPath\<rparr> in
      case LoadConfig V dir revision DefaultPath of
        Inl e \<Rightarrow> legacyLoadFailure selection e
      | Inr _ \<Rightarrow> Inr (selection\<lparr>se_Path := DefaultPath, se_Deprecated := True\<rparr>))"

definition Discover :: "config_env \<Rightarrow> string \<Rightarrow> string \<Rightarrow> config_failure + config_selection" where
  "Discover V dir revision =
     (case RepositoryRoot (ce_eval V) (ce_child V) dir of
        Inl e \<Rightarrow> Inl (OtherFailure e)
      | Inr base_dir \<Rightarrow>
     (case FileExistsAtRevision (ce_printable V) (runProjectConfigGit V) dir revision CanonicalPath of
        Inl e \<Rightarrow> Inl (OperationalError e)
      | Inr True \<Rightarrow> loadCanonical V dir revision
      | Inr False \<Rightarrow> selectLegacy V dir base_dir revision))"

section \<open>The policy of the rules\<close>

definition layerPolicyFromConfig :: "project_config \<Rightarrow> layer_policy" where
  "layerPolicyFromConfig c =
     \<lparr>lp_layers = map (\<lambda>l. \<lparr>al_name = cy_Name l, al_prefixes = cy_Prefixes l\<rparr>) (cf_Layers c),
      lp_forbidden = map (\<lambda>f. \<lparr>fi_from = cb_From f, fi_to = cb_To f\<rparr>) (cf_ForbiddenImports c),
      lp_exclude_type_only = cf_ExcludeTypeOnlyEdges c\<rparr>"

definition goBypassLayerFromConfig :: "project_config \<Rightarrow> bypass_layer option" where
  "goBypassLayerFromConfig c =
     (if cf_RequiredLayer c = [] then None
      else map_option (\<lambda>l. \<lparr>bl_name = cy_Name l, bl_prefixes = cy_Prefixes l\<rparr>)
        (find (\<lambda>l. cy_Name l = cf_RequiredLayer c) (cf_Layers c)))"


section \<open>Overlap by sorting\<close>

lemma has_prefix_iff: "has_prefix s p \<longleftrightarrow> (\<exists>t. s = p @ t)"
  by (auto simp: has_prefix_def) (metis append_take_drop_id)

text \<open>What lies between a string and one of its extensions extends it too.\<close>

lemma prefix_between: "has_prefix c a \<Longrightarrow> a \<le> b \<Longrightarrow> b \<le> c \<Longrightarrow> has_prefix b a"
proof (induction a arbitrary: b c)
  case Nil
  then show ?case by (simp add: has_prefix_def)
next
  case (Cons x a)
  obtain c' where c: "c = x # c'" "has_prefix c' a" using Cons.prems(1) by (auto simp: has_prefix_iff)
  obtain y b' where b: "b = y # b'" using Cons.prems(2) by (cases b) auto
  have "x = y" using Cons.prems(2,3) b c by (auto simp: order.order_iff_strict)
  then have "a \<le> b'" "b' \<le> c'" using Cons.prems(2,3) b c by auto
  then show ?case using Cons.IH [OF c(2)] b \<open>x = y\<close> by (auto simp: has_prefix_iff)
qed

lemma neighbours_suffice:
  "sorted s \<Longrightarrow> \<not> neighbour_prefix s \<longleftrightarrow> sorted_wrt (\<lambda>a b. \<not> has_prefix b a) s"
proof (induction s rule: neighbour_prefix.induct)
  case (1 a b ps)
  have "has_prefix b a" if "c \<in> set ps" "has_prefix c a" for c
    using prefix_between [OF that(2), of b] 1(2) that(1) by auto
  then show ?case using 1 by auto
qed auto

text \<open>Every pair of different paths is apart, and there are no two equal ones.\<close>

definition apart :: "string list \<Rightarrow> bool" where
  "apart paths \<longleftrightarrow> distinct paths \<and> (\<forall>a\<in>set paths. \<forall>b\<in>set paths. a \<noteq> b \<longrightarrow> \<not> LayerPrefixContains a b)"

lemma apart_pair:
  "apart paths \<Longrightarrow> a \<in> set paths \<Longrightarrow> b \<in> set paths \<Longrightarrow> a \<noteq> b \<Longrightarrow> \<not> LayerPrefixContains a b"
  unfolding apart_def by blast

lemma slash_prefix: "has_prefix (b @ ''/'') (a @ ''/'') \<longleftrightarrow> a = b \<or> has_prefix b (a @ ''/'')"
proof
  assume "has_prefix (b @ ''/'') (a @ ''/'')"
  then obtain t where t: "b @ ''/'' = (a @ ''/'') @ t" by (auto simp: has_prefix_iff)
  show "a = b \<or> has_prefix b (a @ ''/'')"
  proof (cases t rule: rev_cases)
    case Nil
    then show ?thesis using t by simp
  next
    case (snoc u x)
    then have "b = (a @ ''/'') @ u" using t by (metis append_assoc butlast_snoc)
    then show ?thesis by (auto simp: has_prefix_iff)
  qed
qed (auto simp: has_prefix_iff)

lemma sorted_wrt_pairs:
  assumes "sorted s"
  shows "sorted_wrt (\<lambda>a b. \<not> has_prefix b a) s \<longleftrightarrow>
    distinct s \<and> (\<forall>a\<in>set s. \<forall>b\<in>set s. a \<noteq> b \<longrightarrow> \<not> has_prefix b a)"
  using assms
proof (induction s)
  case (Cons x s)
  have shorter: "\<not> has_prefix x b" if "b \<in> set s" "x \<noteq> b" for b
  proof
    assume "has_prefix x b"
    then obtain t where "x = b @ t" by (auto simp: has_prefix_iff)
    moreover have "b \<le> b @ t" by (induction b) auto
    ultimately show False using Cons.prems that by auto
  qed
  have self: "has_prefix x x" by (simp add: has_prefix_def)
  show ?case using Cons shorter self by auto
qed simp

lemma overlap_check_is_exact: "\<not> HasDuplicateOrOverlappingPaths paths \<longleftrightarrow> apart paths"
proof (cases "length paths < 2")
  case True
  then show ?thesis by (cases paths; cases "tl paths") (auto simp: HasDuplicateOrOverlappingPaths_def apart_def)
next
  case long: False
  show ?thesis
  proof (cases "''.'' \<in> set paths")
    case True
    have "\<not> apart paths"
    proof
      assume a: "apart paths"
      then have "card (set paths) = length paths" by (simp add: apart_def distinct_card)
      then have "\<not> set paths \<subseteq> {''.''}" using long card_mono [of "{''.''}" "set paths"] by auto
      then obtain b where b: "b \<in> set paths" "''.'' \<noteq> b" by force
      have "LayerPrefixContains ''.'' b" by (simp add: LayerPrefixContains_def)
      then show False using apart_pair [OF a True b] by contradiction
    qed
    then show ?thesis using long True by (simp add: HasDuplicateOrOverlappingPaths_def)
  next
    case False
    let ?m = "map (\<lambda>p. p @ ''/'') paths"
    have d: "distinct ?m \<longleftrightarrow> distinct paths" by (simp add: distinct_map inj_on_def)
    have "\<not> HasDuplicateOrOverlappingPaths paths \<longleftrightarrow> \<not> neighbour_prefix (sort ?m)"
      using long False by (simp add: HasDuplicateOrOverlappingPaths_def)
    also have "\<dots> \<longleftrightarrow> distinct ?m \<and> (\<forall>a\<in>set ?m. \<forall>b\<in>set ?m. a \<noteq> b \<longrightarrow> \<not> has_prefix b a)"
      by (simp add: neighbours_suffice sorted_wrt_pairs)
    also have "\<dots> \<longleftrightarrow> apart paths"
      unfolding apart_def d using False by (auto simp: slash_prefix LayerPrefixContains_def)
    finally show ?thesis .
  qed
qed

section \<open>Paths inside the repository\<close>

definition plain_element :: "string \<Rightarrow> bool" where
  "plain_element e \<longleftrightarrow> e \<noteq> [] \<and> e \<noteq> ''.'' \<and> e \<noteq> ''..''"

definition plain_path :: "string \<Rightarrow> bool" where
  "plain_path p \<longleftrightarrow> list_all plain_element (split_slash p [])"

lemma split_acc: "split_slash s acc = (rev acc @ hd (split_slash s [])) # tl (split_slash s [])"
proof (induction s arbitrary: acc)
  case (Cons ch s)
  show ?case using Cons.IH [of "ch # acc"] Cons.IH [of "[ch]"] by simp
qed simp

lemma split_cons: "ch \<noteq> CHR ''/'' \<Longrightarrow> split_slash (ch # s) [] = (ch # hd (split_slash s [])) # tl (split_slash s [])"
  using split_acc [of s "[ch]"] by simp

lemma split_nonempty [simp]: "split_slash s acc \<noteq> []"
  by (subst split_acc) simp

lemma join_split: "join_with ''/'' (split_slash s []) = s"
proof (induction s)
  case (Cons ch s)
  obtain e es where e: "split_slash s [] = e # es" by (cases "split_slash s []") auto
  show ?case
    using Cons e split_acc [of s "[ch]"] by (cases "ch = CHR ''/''"; cases es) simp_all
qed simp

lemma split_element: "CHR ''/'' \<notin> set e \<Longrightarrow> split_slash (e @ s) acc = split_slash s (rev e @ acc)"
  by (induction e arbitrary: acc) auto

lemma split_join:
  "es \<noteq> [] \<Longrightarrow> \<forall>e\<in>set es. CHR ''/'' \<notin> set e \<Longrightarrow> split_slash (join_with ''/'' es) [] = es"
proof (induction es)
  case (Cons e es)
  show ?case
  proof (cases es)
    case Nil
    then show ?thesis using Cons.prems split_element [of e "[]" "[]"] by simp
  next
    case (Cons e' es')
    then show ?thesis
      using Cons.IH Cons.prems split_element [of e "''/'' @ join_with ''/'' es" "[]"] by simp
  qed
qed simp

lemma split_no_slash: "e \<in> set (split_slash s acc) \<Longrightarrow> CHR ''/'' \<notin> set acc \<Longrightarrow> CHR ''/'' \<notin> set e"
proof (induction s arbitrary: acc)
  case (Cons ch s)
  show ?case
    using Cons.prems Cons.IH [of "[]"] Cons.IH [of "ch # acc"] by (cases "ch = CHR ''/''") auto
qed simp

lemma clean_plain: "list_all plain_element es \<Longrightarrow> clean_elements False es stack = rev stack @ es"
  by (induction es arbitrary: stack) (auto simp: plain_element_def)

text \<open>Cleaning leaves leading dot-dots and then plain elements.\<close>

definition clean_shape :: "string list \<Rightarrow> bool" where
  "clean_shape es \<longleftrightarrow> (\<exists>k qs. es = replicate k ''..'' @ qs \<and> list_all plain_element qs)"

lemma clean_elements_shape:
  "clean_shape (rev stack) \<Longrightarrow> clean_shape (clean_elements False es stack)
    \<and> set (clean_elements False es stack) \<subseteq> set es \<union> set stack"
proof (induction es arbitrary: stack)
  case (Cons e es)
  obtain k qs where st: "rev stack = replicate k ''..'' @ qs" "list_all plain_element qs"
    using Cons.prems by (auto simp: clean_shape_def)
  consider (skip) "e = [] \<or> e = ''.''" | (up) "e = ''..''" | (plain) "plain_element e"
    by (auto simp: plain_element_def)
  then show ?case
  proof cases
    case skip
    then show ?thesis using Cons by auto
  next
    case plain
    have "clean_shape (rev (e # stack))"
      unfolding clean_shape_def by (rule exI [of _ k], rule exI [of _ "qs @ [e]"]) (use st plain in simp)
    then show ?thesis using Cons.IH [of "e # stack"] plain by (auto simp: plain_element_def)
  next
    case up
    show ?thesis
    proof (cases stack)
      case Nil
      have "clean_shape (rev [''..''])"
        unfolding clean_shape_def by (rule exI [of _ 1], rule exI [of _ "[]"]) simp
      then show ?thesis using Cons.IH [of "[''..'']"] up Nil by auto
    next
      case (Cons inner below)
      show ?thesis
      proof (cases "inner = ''..''")
        case True
        have "qs = []" using st Cons True by (cases qs rule: rev_cases) (auto simp: plain_element_def)
        then have "clean_shape (rev (''..'' # stack))"
          unfolding clean_shape_def
          by (intro exI [of _ "Suc k"] exI [of _ "[]"]) (use st in \<open>simp add: replicate_append_same\<close>)
        then show ?thesis using Cons.IH [of "''..'' # stack"] up True local.Cons by auto
      next
        case False
        have "clean_shape (rev below)"
        proof (cases qs rule: rev_cases)
          case Nil
          then have "inner = ''..''" using st local.Cons by (cases k) (auto simp: replicate_append_same [symmetric])
          then show ?thesis using False by simp
        next
          case (snoc qs' q)
          then have "rev below = replicate k ''..'' @ qs'" using st local.Cons by simp
          then show ?thesis using st(2) snoc by (auto simp: clean_shape_def)
        qed
        then show ?thesis using Cons.IH [of below] up False local.Cons by auto
      qed
    qed
  qed
qed auto

lemma join_nonempty: "es \<noteq> [] \<Longrightarrow> es \<noteq> [[]] \<Longrightarrow> join_with ''/'' es \<noteq> []"
  by (induction "''/''" es rule: join_with.induct) auto

lemma plain_path_clean:
  assumes "plain_path p"
  shows "path_clean p = p" "p \<noteq> []" "hd p \<noteq> CHR ''/''"
proof -
  show ne: "p \<noteq> []" using assms by (auto simp: plain_path_def plain_element_def)
  show hd: "hd p \<noteq> CHR ''/''"
    using assms ne by (cases p) (auto simp: plain_path_def plain_element_def)
  have "clean_elements False (split_slash p []) [] = split_slash p []"
    using clean_plain [of "split_slash p []" "[]"] assms by (simp add: plain_path_def)
  then show "path_clean p = p"
    using ne hd join_split [of p] by (simp add: path_clean_def)
qed

lemma plain_path_inside:
  assumes "plain_path p"
  shows "p \<noteq> ''.''" "p \<noteq> ''..''" "\<not> has_prefix p ''../''"
proof -
  show "p \<noteq> ''.''" "p \<noteq> ''..''" using assms by (auto simp: plain_path_def plain_element_def)
  show "\<not> has_prefix p ''../''"
  proof
    assume "has_prefix p ''../''"
    then obtain t where "p = ''../'' @ t" by (auto simp: has_prefix_iff)
    then show False using assms by (simp add: plain_path_def plain_element_def)
  qed
qed

lemma clean_path_shape:
  assumes ne: "p \<noteq> []" and hd: "hd p \<noteq> CHR ''/''" and clean: "path_clean p = p"
  shows "p = ''.'' \<or> clean_shape (split_slash p [])"
proof -
  let ?es = "clean_elements False (split_slash p []) []"
  have shape: "clean_shape ?es" and sub: "set ?es \<subseteq> set (split_slash p [])"
    using clean_elements_shape [of "[]" "split_slash p []"] by (auto simp: clean_shape_def)
  have out: "path_clean p = (if join_with ''/'' ?es = [] then ''.'' else join_with ''/'' ?es)"
    using ne hd by (simp add: path_clean_def Let_def)
  show ?thesis
  proof (cases "join_with ''/'' ?es = []")
    case True
    then show ?thesis using out clean by simp
  next
    case False
    have "\<forall>e\<in>set ?es. CHR ''/'' \<notin> set e" using sub split_no_slash [of _ p "[]"] by auto
    moreover have "?es \<noteq> []" using False by auto
    ultimately have "split_slash (join_with ''/'' ?es) [] = ?es" by (rule split_join [rotated])
    then show ?thesis using out clean False shape by simp
  qed
qed

lemma clean_shape_inside:
  assumes "clean_shape (split_slash p [])" "p \<noteq> ''..''" "\<not> has_prefix p ''../''"
  shows "plain_path p"
proof -
  obtain k qs where s: "split_slash p [] = replicate k ''..'' @ qs" "list_all plain_element qs"
    using assms(1) by (auto simp: clean_shape_def)
  show ?thesis
  proof (cases k)
    case 0
    then show ?thesis using s by (simp add: plain_path_def)
  next
    case (Suc k')
    then obtain es where es: "split_slash p [] = ''..'' # es" using s by simp
    have "p = join_with ''/'' (''..'' # es)" using join_split [of p] es by simp
    then show ?thesis using assms(2,3) by (cases es) (auto simp: has_prefix_iff)
  qed
qed

lemma dot_no_backslash: "backslash \<noteq> CHR ''.''"
  by code_simp

definition directory_ok :: "string \<Rightarrow> bool" where
  "directory_ok d \<longleftrightarrow> d = ''.'' \<or> plain_path d \<and> backslash \<notin> set d"

lemma directory_check_is_exact: "ValidateDirectory d = None \<longleftrightarrow> directory_ok d"
proof
  assume v: "ValidateDirectory d = None"
  then have "d \<noteq> []" "hd d \<noteq> CHR ''/''" "path_clean d = d" "d \<noteq> ''..''" "\<not> has_prefix d ''../''" "backslash \<notin> set d"
    unfolding ValidateDirectory_def by (auto split: if_splits)
  then show "directory_ok d"
    using clean_path_shape [of d] clean_shape_inside [of d] unfolding directory_ok_def by blast
next
  assume "directory_ok d"
  then consider "d = ''.''" | "plain_path d" "backslash \<notin> set d" unfolding directory_ok_def by blast
  then show "ValidateDirectory d = None"
  proof cases
    case 1
    then show ?thesis by (simp add: ValidateDirectory_def path_clean_def has_prefix_def dot_no_backslash)
  next
    case 2
    then show ?thesis
      using plain_path_clean [OF 2(1)] plain_path_inside [OF 2(1)] by (simp add: ValidateDirectory_def)
  qed
qed

section \<open>The documents that are accepted\<close>

definition layer_names :: "project_config \<Rightarrow> string list" where
  "layer_names c = map cy_Name (cf_Layers c)"

definition layer_prefixes :: "project_config \<Rightarrow> string list" where
  "layer_prefixes c = concat (map cy_Prefixes (cf_Layers c))"

definition layer_ok :: "config_layer \<Rightarrow> bool" where
  "layer_ok l \<longleftrightarrow> cy_Name l \<noteq> [] \<and> cy_Prefixes l \<noteq> [] \<and> list_all directory_ok (cy_Prefixes l)"

definition well_formed :: "project_config \<Rightarrow> bool" where
  "well_formed c \<longleftrightarrow>
     cf_Roots c \<noteq> [] \<and> length (cf_Roots c) \<le> 256 \<and> list_all directory_ok (cf_Roots c) \<and> distinct (cf_Roots c)
   \<and> list_all layer_ok (cf_Layers c) \<and> distinct (layer_names c)
   \<and> length (layer_prefixes c) \<le> 4096 \<and> apart (layer_prefixes c)
   \<and> list_all (\<lambda>f. cb_From f \<in> set (layer_names c) \<and> cb_To f \<in> set (layer_names c)) (cf_ForbiddenImports c)
   \<and> distinct (map forbidden_key (cf_ForbiddenImports c))
   \<and> cf_SourceSinkPack c \<in> {[], ''builtin-v1''}
   \<and> cf_RequiredLayer c \<in> insert [] (set (layer_names c))"

lemma check_each_none: "check_each f xs = None \<longleftrightarrow> list_all (\<lambda>x. f x = None) xs"
  by (induction xs) (auto split: option.splits)

lemma duplicates_exact: "hasDuplicates seen ps \<longleftrightarrow> \<not> distinct ps \<or> set seen \<inter> set ps \<noteq> {}"
  by (induction seen ps rule: hasDuplicates.induct) auto

lemma roots_exact:
  "validateRoots V rs = None \<longleftrightarrow> rs \<noteq> [] \<and> length rs \<le> 256 \<and> list_all directory_ok rs \<and> distinct rs"
proof -
  have "check_each (\<lambda>d. map_option (\<lambda>e. ''root '' @ cquote V d @ '': '' @ e) (ValidateDirectory d)) rs = None
      \<longleftrightarrow> list_all directory_ok rs"
    by (simp add: check_each_none directory_check_is_exact)
  then show ?thesis
    by (auto simp: validateRoots_def MaxRoots_def hasDuplicatePaths_def duplicates_exact split: option.splits)
qed

lemma collect_prefixes_exact:
  "collectLayerPrefixes V l = Inr ps \<longleftrightarrow> cy_Prefixes l \<noteq> [] \<and> list_all directory_ok (cy_Prefixes l) \<and> ps = cy_Prefixes l"
proof -
  have "check_each (\<lambda>p. map_option (\<lambda>e. ''layer '' @ cquote V (cy_Name l) @ '' prefix '' @ cquote V p @ '': '' @ e)
      (ValidateDirectory p)) (cy_Prefixes l) = None \<longleftrightarrow> list_all directory_ok (cy_Prefixes l)"
    by (simp add: check_each_none directory_check_is_exact)
  then show ?thesis by (auto simp: collectLayerPrefixes_def split: option.splits)
qed

lemma collect_layers_exact:
  "collect_layers V ls seen pfs = Inr (names, all_pfs) \<longleftrightarrow>
     list_all layer_ok ls \<and> distinct (map cy_Name ls) \<and> set (map cy_Name ls) \<inter> set seen = {}
   \<and> names = rev (map cy_Name ls) @ seen \<and> all_pfs = pfs @ concat (map cy_Prefixes ls)"
proof (induction V ls seen pfs rule: collect_layers.induct)
  case (2 V l ls seen pfs)
  show ?case
  proof (cases "collectLayerPrefixes V l")
    case (Inl e)
    then have "\<not> (cy_Prefixes l \<noteq> [] \<and> list_all directory_ok (cy_Prefixes l))"
      using collect_prefixes_exact [of V l "cy_Prefixes l"] by auto
    then show ?thesis using Inl by (auto simp: layer_ok_def)
  next
    case (Inr ps)
    then have ok: "cy_Prefixes l \<noteq> []" "list_all directory_ok (cy_Prefixes l)" "ps = cy_Prefixes l"
      by (auto simp: collect_prefixes_exact)
    show ?thesis
    proof (cases "cy_Name l = [] \<or> cy_Name l \<in> set seen")
      case True
      then show ?thesis by (auto simp: layer_ok_def)
    next
      case False
      then show ?thesis using 2 Inr ok by (auto simp: layer_ok_def)
    qed
  qed
qed auto

lemma layers_exact:
  "validateLayers V ls = Inr names \<longleftrightarrow>
     list_all layer_ok ls \<and> distinct (map cy_Name ls) \<and> length (concat (map cy_Prefixes ls)) \<le> 4096
   \<and> apart (concat (map cy_Prefixes ls)) \<and> names = rev (map cy_Name ls)"
proof (cases "collect_layers V ls [] []")
  case (Inl e)
  then have "\<not> (list_all layer_ok ls \<and> distinct (map cy_Name ls))"
    using collect_layers_exact [of V ls "[]" "[]" "rev (map cy_Name ls)" "concat (map cy_Prefixes ls)"] by auto
  then show ?thesis using Inl by (auto simp: validateLayers_def)
next
  case (Inr r)
  obtain seen pfs where r: "r = (seen, pfs)" by (cases r)
  have ok: "list_all layer_ok ls" "distinct (map cy_Name ls)" "seen = rev (map cy_Name ls)" "pfs = concat (map cy_Prefixes ls)"
    using Inr r by (auto simp: collect_layers_exact)
  show ?thesis
    using Inr r ok overlap_check_is_exact [of pfs]
    by (auto simp: validateLayers_def MaxLayerPrefixes_def simp del: length_concat)
qed

lemma forbidden_exact:
  "validate_forbidden V names seen fs = None \<longleftrightarrow>
     list_all (\<lambda>f. cb_From f \<noteq> [] \<and> cb_To f \<noteq> [] \<and> cb_From f \<in> set names \<and> cb_To f \<in> set names) fs
   \<and> distinct (map forbidden_key fs) \<and> set (map forbidden_key fs) \<inter> set seen = {}"
  by (induction V names seen fs rule: validate_forbidden.induct) auto

lemma references_exact:
  "validateLayerReferences V c names = None \<longleftrightarrow>
     cf_SourceSinkPack c \<in> {[], ''builtin-v1''} \<and> cf_RequiredLayer c \<in> insert [] (set names)"
  by (auto simp: validateLayerReferences_def)

lemma decoded_checks_exact:
  assumes "decode_config V bytes = Inr d"
  shows "ParseConfig V bytes = Inr c \<longleftrightarrow> d = c \<and> well_formed d"
proof (cases "validateLayers V (cf_Layers d)")
  case (Inl e)
  then have "\<not> well_formed d"
    using layers_exact [of V "cf_Layers d" "rev (layer_names d)"]
    by (auto simp: well_formed_def layer_names_def layer_prefixes_def)
  then show ?thesis using assms Inl by (auto simp: ParseConfig_def split: option.splits)
next
  case names: (Inr names)
  then have ok: "list_all layer_ok (cf_Layers d)" "distinct (layer_names d)"
      "length (layer_prefixes d) \<le> 4096" "apart (layer_prefixes d)" "names = rev (layer_names d)"
    by (simp_all add: layers_exact layer_names_def layer_prefixes_def)
  have nonempty: "[] \<notin> set (layer_names d)"
    using ok(1) by (auto simp: layer_names_def layer_ok_def list_all_iff)
  have "ParseConfig V bytes = Inr c \<longleftrightarrow> d = c \<and> validateRoots V (cf_Roots d) = None
      \<and> validateForbiddenImports V (cf_ForbiddenImports d) names = None \<and> validateLayerReferences V d names = None"
    using assms names by (auto simp: ParseConfig_def split: option.splits)
  also have "\<dots> \<longleftrightarrow> d = c \<and> well_formed d"
    using ok nonempty
    by (auto simp: well_formed_def roots_exact validateForbiddenImports_def forbidden_exact references_exact list_all_iff)
  finally show ?thesis .
qed

section \<open>What the rules get\<close>

lemma concat_owner:
  "distinct (concat (map g xs)) \<Longrightarrow> i < j \<Longrightarrow> j < length xs \<Longrightarrow> p \<in> set (g (xs ! i)) \<Longrightarrow> p \<notin> set (g (xs ! j))"
proof (induction xs arbitrary: i j)
  case (Cons x xs)
  obtain j' where j: "j = Suc j'" using Cons.prems(2) by (cases j) auto
  then have mem: "xs ! j' \<in> set xs" using Cons.prems(3) by simp
  show ?case
  proof (cases i)
    case 0
    then show ?thesis using Cons.prems(1,4) j mem by auto
  next
    case (Suc i')
    then show ?thesis using Cons.IH [of i' j'] Cons.prems j by simp
  qed
qed simp

lemma apart_owner:
  assumes "apart (concat (map g xs))" "i < length xs" "j < length xs" "p \<in> set (g (xs ! i))" "p \<in> set (g (xs ! j))"
  shows "i = j"
  using assms concat_owner [of g xs i j p] concat_owner [of g xs j i p]
  by (auto simp: apart_def intro: linorder_cases [of i j])

lemma prefixes_comparable:
  assumes "LayerPrefixContains p d" "LayerPrefixContains q d"
  shows "LayerPrefixContains p q \<or> LayerPrefixContains q p"
proof (cases "p = ''.'' \<or> q = ''.''")
  case False
  have ext: "\<exists>t. d @ ''/'' = (r @ ''/'') @ t" if "LayerPrefixContains r d" "r \<noteq> ''.''" for r
    using that by (auto simp: LayerPrefixContains_def has_prefix_iff)
  obtain t u where "d @ ''/'' = (p @ ''/'') @ t" "d @ ''/'' = (q @ ''/'') @ u"
    using ext assms False by blast
  then have "(p @ ''/'') @ t = (q @ ''/'') @ u" by simp
  then have "has_prefix (q @ ''/'') (p @ ''/'') \<or> has_prefix (p @ ''/'') (q @ ''/'')"
    unfolding append_eq_append_conv2 has_prefix_iff by metis
  then show ?thesis unfolding slash_prefix LayerPrefixContains_def by blast
qed (auto simp: LayerPrefixContains_def)

lemma apart_comparable:
  "apart ps \<Longrightarrow> p \<in> set ps \<Longrightarrow> q \<in> set ps \<Longrightarrow> LayerPrefixContains p d \<Longrightarrow> LayerPrefixContains q d \<Longrightarrow> p = q"
  using apart_pair [of ps p q] apart_pair [of ps q p] prefixes_comparable [of p d q] by blast

lemma well_formed_single_owner:
  assumes c: "well_formed c"
    and i: "i < length (cf_Layers c)" "p \<in> set (cy_Prefixes (cf_Layers c ! i))" "LayerPrefixContains p d"
    and j: "j < length (cf_Layers c)" "q \<in> set (cy_Prefixes (cf_Layers c ! j))" "LayerPrefixContains q d"
  shows "i = j"
proof -
  have a: "apart (concat (map cy_Prefixes (cf_Layers c)))" using c by (simp add: well_formed_def layer_prefixes_def)
  have "p \<in> set (concat (map cy_Prefixes (cf_Layers c)))" "q \<in> set (concat (map cy_Prefixes (cf_Layers c)))"
    using i(2) j(2) nth_mem [OF i(1)] nth_mem [OF j(1)] by auto
  then have "p = q" using apart_comparable [OF a] i(3) j(3) by blast
  then show ?thesis using apart_owner [OF a] i j by blast
qed

lemma well_formed_layer_match:
  assumes c: "well_formed c" and l: "l \<in> set (lp_layers (layerPolicyFromConfig c))" "layerContainsDir l d"
  shows "matchLayer (lp_layers (layerPolicyFromConfig c)) d = Some l"
proof -
  let ?ls = "lp_layers (layerPolicyFromConfig c)"
  obtain i where i: "i < length (cf_Layers c)" "?ls ! i = l"
    using l(1) by (auto simp: layerPolicyFromConfig_def in_set_conv_nth)
  obtain m where "matchLayer ?ls d = Some m"
    using l by (cases "matchLayer ?ls d") (auto simp: matchLayer_def find_None_iff)
  moreover from this obtain j where j: "j < length (cf_Layers c)" "?ls ! j = m" "layerContainsDir m d"
    by (auto simp: matchLayer_def find_Some_iff layerPolicyFromConfig_def)
  moreover have "i = j"
    using well_formed_single_owner [OF c i(1) _ _ j(1)] l(2) i j
    by (auto simp: layerContainsDir_def list_ex_iff layerPolicyFromConfig_def)
  ultimately show ?thesis using i by simp
qed

text \<open>A required layer of a validated document always resolves, so the bypass search runs exactly when one is set.\<close>

lemma required_layer_resolves:
  assumes "ParseConfig V bytes = Inr c"
  shows "goBypassLayerFromConfig c = None \<longleftrightarrow> cf_RequiredLayer c = []"
    and "goBypassLayerFromConfig c = Some b \<Longrightarrow> bl_name b = cf_RequiredLayer c"
proof -
  have "well_formed c"
    using assms decoded_checks_exact [of V bytes _ c] by (cases "decode_config V bytes") (auto simp: ParseConfig_def)
  then have "cf_RequiredLayer c = [] \<or> (\<exists>l\<in>set (cf_Layers c). cy_Name l = cf_RequiredLayer c)"
    by (auto simp: well_formed_def layer_names_def)
  then show "goBypassLayerFromConfig c = None \<longleftrightarrow> cf_RequiredLayer c = []"
    by (auto simp: goBypassLayerFromConfig_def find_None_iff)
  show "goBypassLayerFromConfig c = Some b \<Longrightarrow> bl_name b = cf_RequiredLayer c"
    by (auto simp: goBypassLayerFromConfig_def find_Some_iff split: if_splits)
qed

section \<open>Loading\<close>

lemma bounded_run_within_budget:
  "RunBytesBoundedWith child dir n m t args = Inr out \<Longrightarrow> int (length out) \<le> n"
  by (auto simp: RunBytesBoundedWith_def finishGitBoundedRead_def Let_def split: option.splits if_splits)

text \<open>A document that is loaded was committed at the revision, is within the budget and is accepted.\<close>

lemma loaded_document_is_accepted:
  assumes "LoadConfig V dir revision p = Inr bytes"
  shows "ValidatePath p = None \<and> git_show V dir revision p = Inr bytes \<and> length bytes \<le> MaxBytes
    \<and> (\<exists>c. ParseConfig V bytes = Inr c)"
  using assms bounded_run_within_budget
  by (fastforce simp: LoadConfig_def git_show_def runProjectConfigGit_def split: option.splits sum.splits)

text \<open>A committed canonical document decides alone: the legacy document is not even read.\<close>

lemma canonical_document_wins:
  assumes "FileExistsAtRevision (ce_printable V) (runProjectConfigGit V) dir revision CanonicalPath = Inr True" "Discover V dir revision = Inr s"
  shows "\<not> se_Deprecated s" and "se_Path s = CanonicalPath \<longleftrightarrow> se_Fatal s = None"
    and "se_Fatal s \<noteq> None \<longleftrightarrow> (\<exists>e. LoadConfig V dir revision CanonicalPath = Inl e)"
  using assms
  by (auto simp: Discover_def loadCanonical_def no_selection_def CanonicalPath_def split: sum.splits)

lemma legacy_document_needs_no_canonical:
  assumes "Discover V dir revision = Inr s" "se_Deprecated s"
  shows "FileExistsAtRevision (ce_printable V) (runProjectConfigGit V) dir revision CanonicalPath = Inr False \<and> se_Path s = DefaultPath
    \<and> (\<exists>bytes. LoadConfig V dir revision DefaultPath = Inr bytes)"
  using assms
  by (auto simp: Discover_def loadCanonical_def selectLegacy_def legacyLoadFailure_def no_selection_def Let_def
      split: sum.splits bool.splits config_failure.splits config_kind.splits)

text \<open>Two different entries with the same key: the separator is a character that a name may hold.\<close>

lemma forbidden_keys_can_clash:
  "validate_forbidden V [''a'', ''c'', ''a'' @ [CHR 0x00] @ ''b'', ''b'' @ [CHR 0x00] @ ''c''] []
     [\<lparr>cb_From = ''a'' @ [CHR 0x00] @ ''b'', cb_To = ''c''\<rparr>, \<lparr>cb_From = ''a'', cb_To = ''b'' @ [CHR 0x00] @ ''c''\<rparr>]
   = Some ''forbidden_imports entries must be unique''"
  by (simp add: forbidden_key_def)

section \<open>The properties\<close>

text \<open>C16. ParseConfig accepts exactly the well-formed documents: a document it returns was decoded
  within the size and nesting budgets, and its roots, layers, forbidden imports, pack and required
  layer obey the declarative reading; and every decoded document that obeys it is returned. The
  sorted neighbour comparison of layer prefixes is shown to be pairwise separation and the test by
  path cleaning to be that of a path of plain elements.
\<close>

theorem config_accepts_exactly_well_formed:
  "ParseConfig V bytes = Inr c \<longleftrightarrow> decode_config V bytes = Inr c \<and> well_formed c"
proof (cases "decode_config V bytes")
  case (Inl e)
  then show ?thesis by (simp add: ParseConfig_def)
next
  case (Inr d)
  then show ?thesis using decoded_checks_exact [OF Inr] by auto
qed

text \<open>In the policy of an accepted document a directory has at most one layer: whichever layer
  contains it is the one matchLayer returns, so the order of the layers never decides a rule.
\<close>

theorem layer_of_a_directory_is_unambiguous:
  assumes "ParseConfig V bytes = Inr c"
    and "l \<in> set (lp_layers (layerPolicyFromConfig c))"
    and "layerContainsDir l d"
  shows "matchLayer (lp_layers (layerPolicyFromConfig c)) d = Some l"
proof -
  have "well_formed c"
    using assms(1) decoded_checks_exact [of V bytes _ c]
    by (cases "decode_config V bytes") (auto simp: ParseConfig_def)
  then show ?thesis using assms(2,3) by (rule well_formed_layer_match)
qed

definition sample_document :: json where
  "sample_document = JObj
     [(''schema_version'', JStr ''1''), (''roots'', JArr [JStr ''.'']),
      (''layers'', JArr
         [JObj [(''name'', JStr ''api''), (''prefixes'', JArr [JStr ''pkg/api''])],
          JObj [(''name'', JStr ''store''), (''prefixes'', JArr [JStr ''pkg/apis'', JStr ''db''])]])]"

definition sample_env :: config_env where
  "sample_env = \<lparr>ce_child = \<lambda>_ _. \<lparr>gc_start = None, gc_stdout = ''{}'', gc_stdout_err = None, gc_stderr = [],
       gc_stderr_err = None, gc_wait = None, gc_deadline = False\<rparr>,
     ce_json = \<lambda>_. RawJson sample_document, ce_stat = \<lambda>_. True, ce_eval = Inr, ce_printable = \<lambda>_. True\<rparr>"

definition sample_policy :: project_config where
  "sample_policy = \<lparr>cf_SchemaVersion = ''1'', cf_Roots = [''.''],
     cf_Layers = [\<lparr>cy_Name = ''api'', cy_Prefixes = [''pkg/api'']\<rparr>, \<lparr>cy_Name = ''store'', cy_Prefixes = [''pkg/apis'', ''db'']\<rparr>],
     cf_ForbiddenImports = [], cf_SourceSinkPack = [], cf_RequiredLayer = [], cf_ExcludeTypeOnlyEdges = False\<rparr>"

lemma sample_walk: "walkJSONValue (cquote sample_env) 1 sample_document = None"
  by code_simp

lemma sample_known: "known_json config_ty sample_document"
  by code_simp

lemma sample_value:
  "map_option config_of (json_decode config_ty (zero_value config_ty) sample_document) = Some sample_policy"
  by code_simp

lemma sample_decodes: "decode_config sample_env ''{}'' = Inr sample_policy"
proof -
  obtain v where v: "json_decode config_ty (zero_value config_ty) sample_document = Some v" "config_of v = sample_policy"
    using sample_value by auto
  have "ce_json sample_env ''{}'' = RawJson sample_document" by (simp add: sample_env_def)
  then show ?thesis using sample_walk sample_known v by (simp add: decode_config_def MaxBytes_def sample_policy_def)
qed

lemma sample_layers: "list_all layer_ok (cf_Layers sample_policy)" "apart (layer_prefixes sample_policy)"
    "directory_ok ''.''" "distinct (layer_names sample_policy)"
  by code_simp+

lemma sample_accepted: "ParseConfig sample_env ''{}'' = Inr sample_policy"
  unfolding decoded_checks_exact [OF sample_decodes] using sample_layers
  by (simp add: well_formed_def layer_prefixes_def sample_policy_def)

theorem layer_of_a_directory_is_unambiguous_witness:
  "matchLayer (lp_layers (layerPolicyFromConfig sample_policy)) ''pkg/apis/v1''
     = Some \<lparr>al_name = ''store'', al_prefixes = [''pkg/apis'', ''db'']\<rparr>"
  by (rule layer_of_a_directory_is_unambiguous [OF sample_accepted])
    (simp_all add: layerPolicyFromConfig_def sample_policy_def layerContainsDir_def LayerPrefixContains_def has_prefix_def)

end
