(* ===== verification/SyntaxTree.thy ===== *)
theory SyntaxTree
  imports SignalRules
begin

text \<open>
  The syntax trees of pkg/semantics: what its engine interface (internal/engine/engine.go) offers of
  a node, and the walks that do not depend on the language. The parser itself is a library; a tree
  is data here, and a node of the interface is a cursor: a tree and the trees it lies in, innermost
  first, so that its parent is known.
\<close>

section \<open>Nodes\<close>

record node_info =
  ni_kind :: string
  ni_span :: location
  ni_error :: bool
  ni_missing :: bool
  ni_has_error :: bool

datatype tree = Tree (tr_info: node_info) (tr_children: "(string \<times> tree) list")

text \<open>Each child carries the field it is bound to, if any.\<close>

datatype cursor = Cursor (cu_tree: tree) (cu_up: "tree list")

definition Kind :: "cursor \<Rightarrow> string" where
  "Kind c = ni_kind (tr_info (cu_tree c))"

definition HasError :: "cursor \<Rightarrow> bool" where
  "HasError c \<longleftrightarrow> ni_has_error (tr_info (cu_tree c))"

definition IsError :: "cursor \<Rightarrow> bool" where
  "IsError c \<longleftrightarrow> ni_error (tr_info (cu_tree c))"

definition IsMissing :: "cursor \<Rightarrow> bool" where
  "IsMissing c \<longleftrightarrow> ni_missing (tr_info (cu_tree c))"

definition locationFromNode :: "cursor \<Rightarrow> location" where
  "locationFromNode c = ni_span (tr_info (cu_tree c))"

definition Utf8Text :: "string \<Rightarrow> cursor \<Rightarrow> string" where
  "Utf8Text source c =
     (let l = locationFromNode c in take (EndByte l - StartByte l) (drop (StartByte l) source))"

definition below :: "cursor \<Rightarrow> tree \<Rightarrow> cursor" where
  "below c t = Cursor t (cu_tree c # cu_up c)"

text \<open>The loop over \<open>ChildCount\<close> and \<open>Child\<close>.\<close>

definition children :: "cursor \<Rightarrow> cursor list" where
  "children c = map (\<lambda>ft. below c (snd ft)) (tr_children (cu_tree c))"

definition ChildByFieldName :: "string \<Rightarrow> cursor \<Rightarrow> cursor option" where
  "ChildByFieldName name c =
     map_option (\<lambda>ft. below c (snd ft)) (find (\<lambda>ft. fst ft = name) (tr_children (cu_tree c)))"

definition Parent :: "cursor \<Rightarrow> cursor option" where
  "Parent c = (case cu_up c of [] \<Rightarrow> None | p # ps \<Rightarrow> Some (Cursor p ps))"

definition RootNode :: "tree \<Rightarrow> cursor" where
  "RootNode t = Cursor t []"

definition sameNodeSpan :: "cursor \<Rightarrow> cursor \<Rightarrow> bool" where
  "sameNodeSpan a b \<longleftrightarrow> StartByte (locationFromNode a) = StartByte (locationFromNode b)
     \<and> EndByte (locationFromNode a) = EndByte (locationFromNode b) \<and> Kind a = Kind b"

abbreviation extent :: "cursor \<Rightarrow> nat" where
  "extent c \<equiv> size (cu_tree c)"

lemma subtree_smaller: "ft \<in> set (tr_children t) \<Longrightarrow> size (snd ft) < size t"
proof (cases t)
  case (Tree i cs)
  assume "ft \<in> set (tr_children t)"
  then have "size_prod (\<lambda>_. 0) size ft \<le> sum_list (map (size_prod (\<lambda>_. 0) size) cs)"
    using Tree by (intro member_le_sum_list) auto
  then show ?thesis using Tree by (cases ft) (simp add: size_list_conv_sum_list)
qed

lemma children_smaller [termination_simp]: "x \<in> set (children c) \<Longrightarrow> extent x < extent c"
  using subtree_smaller by (auto simp: children_def below_def)

lemma field_is_child: "ChildByFieldName f c = Some x \<Longrightarrow> x \<in> set (children c)"
  unfolding ChildByFieldName_def children_def map_option_eq_Some find_Some_iff using nth_mem by fastforce

lemma field_smaller [termination_simp]: "ChildByFieldName f c = Some x \<Longrightarrow> extent x < extent c"
  using field_is_child children_smaller by blast

lemma parent_of_child: "x \<in> set (children c) \<Longrightarrow> Parent x = Some c"
  by (cases c) (auto simp: children_def below_def Parent_def)

section \<open>Every node, in pre-order\<close>

function nodes :: "cursor \<Rightarrow> cursor list" where
  "nodes c = c # concat (map nodes (children c))"
  by pat_completeness auto

termination
  by (relation "measure extent") (auto simp: children_smaller)

declare nodes.simps [simp del]

lemma node_self: "c \<in> set (nodes c)"
  by (subst nodes.simps) simp

lemma node_of_child: "x \<in> set (children c) \<Longrightarrow> y \<in> set (nodes x) \<Longrightarrow> y \<in> set (nodes c)"
  by (subst nodes.simps) auto

lemma node_of_field: "ChildByFieldName f c = Some x \<Longrightarrow> y \<in> set (nodes x) \<Longrightarrow> y \<in> set (nodes c)"
  using field_is_child node_of_child by blast

lemma field_node: "ChildByFieldName f c = Some x \<Longrightarrow> x \<in> set (nodes c)"
  using node_of_field node_self by blast

lemma nodes_trans: "y \<in> set (nodes x) \<Longrightarrow> z \<in> set (nodes y) \<Longrightarrow> z \<in> set (nodes x)"
proof (induction x rule: nodes.induct)
  case (1 c)
  show ?case
  proof (cases "y = c")
    case False
    then obtain x where "x \<in> set (children c)" "y \<in> set (nodes x)"
      using "1.prems"(1) by (subst (asm) nodes.simps) auto
    then show ?thesis using "1.IH" "1.prems"(2) node_of_child by blast
  qed (use "1.prems" in simp)
qed

section \<open>Syntax issues\<close>

function collectSyntaxIssues :: "cursor \<Rightarrow> syntax_issue list" where
  "collectSyntaxIssues n =
     (if IsMissing n then [\<lparr>sx_kind = ''missing'', sx_location = locationFromNode n\<rparr>]
      else if IsError n then [\<lparr>sx_kind = ''error'', sx_location = locationFromNode n\<rparr>] else [])
     @ concat (map collectSyntaxIssues (children n))"
  by pat_completeness auto

termination
  by (relation "measure extent") (auto simp: children_smaller)

declare collectSyntaxIssues.simps [simp del]

definition tsStatementContainerKinds :: "string list" where
  "tsStatementContainerKinds = [''program'', ''statement_block'', ''class_body'']"

definition tsBareTokenKinds :: "string list" where
  "tsBareTokenKinds = [''const'', ''let'', ''var'', ''='']"

definition bareTokenIssue :: "cursor \<Rightarrow> syntax_issue list" where
  "bareTokenIssue child =
     (if Kind child \<in> set tsBareTokenKinds then [\<lparr>sx_kind = ''error'', sx_location = locationFromNode child\<rparr>] else [])"

definition bareStatementTokenIssues :: "cursor \<Rightarrow> syntax_issue list" where
  "bareStatementTokenIssues n =
     (if Kind n \<in> set tsStatementContainerKinds then concat (map bareTokenIssue (children n)) else [])"

function detectTSBareStatementTokens :: "cursor \<Rightarrow> syntax_issue list" where
  "detectTSBareStatementTokens n =
     bareStatementTokenIssues n @ concat (map detectTSBareStatementTokens (children n))"
  by pat_completeness auto

termination
  by (relation "measure extent") (auto simp: children_smaller)

declare detectTSBareStatementTokens.simps [simp del]

lemma concat_nested: "concat (map g (concat (map f xs))) = concat (map (\<lambda>x. concat (map g (f x))) xs)"
  by (induction xs) auto

text \<open>A walk that visits every node is a map over the nodes.\<close>

lemma walk_nodes:
  assumes "\<And>n. f n = g n @ concat (map f (children n))"
  shows "f n = concat (map g (nodes n))"
proof (induction n rule: nodes.induct)
  case (1 c)
  then have eq: "map f (children c) = map (\<lambda>x. concat (map g (nodes x))) (children c)" by simp
  have "f c = g c @ concat (map (\<lambda>x. concat (map g (nodes x))) (children c))"
    using assms [of c] unfolding eq .
  then show ?case by (simp add: nodes.simps [of c] concat_nested)
qed

definition issue_at :: "cursor \<Rightarrow> syntax_issue list" where
  "issue_at n =
     (if IsMissing n then [\<lparr>sx_kind = ''missing'', sx_location = locationFromNode n\<rparr>]
      else if IsError n then [\<lparr>sx_kind = ''error'', sx_location = locationFromNode n\<rparr>] else [])"

lemma issues_are_the_bad_nodes: "collectSyntaxIssues n = concat (map issue_at (nodes n))"
  by (rule walk_nodes [of collectSyntaxIssues issue_at, OF collectSyntaxIssues.simps [folded issue_at_def]])

lemma no_issues_iff: "collectSyntaxIssues n = [] \<longleftrightarrow> (\<forall>x\<in>set (nodes n). \<not> IsError x \<and> \<not> IsMissing x)"
proof -
  have "issue_at x = [] \<longleftrightarrow> \<not> IsError x \<and> \<not> IsMissing x" for x
    by (simp add: issue_at_def)
  then show ?thesis unfolding issues_are_the_bad_nodes by simp
qed

lemma bare_tokens_by_node: "detectTSBareStatementTokens n = concat (map bareStatementTokenIssues (nodes n))"
  by (rule walk_nodes [of detectTSBareStatementTokens bareStatementTokenIssues, OF detectTSBareStatementTokens.simps])

end
