(* ===== verification/GoSyntax.thy ===== *)
theory GoSyntax
  imports SyntaxTree
begin

text \<open>
  The analysis of a Go file (pkg/semantics/go_*.go): its imports, the one walk that collects metrics
  and findings (constructors, pointer results, mutated inputs, check-then-act races), and the
  cognitive complexity of its functions. A set of names is a list; what a parameter allows is an
  association list. The query engine and the formatting of its errors are arguments.
\<close>

section \<open>Expressions and calls\<close>

fun first_some :: "'a option list \<Rightarrow> 'a option" where
  "first_some [] = None"
| "first_some (x # xs) = (case x of Some v \<Rightarrow> Some v | None \<Rightarrow> first_some xs)"

lemma first_some_member: "first_some xs = Some v \<Longrightarrow> Some v \<in> set xs"
  by (induction xs) (auto split: option.splits)

definition parenthesizedInner :: "cursor \<Rightarrow> cursor option" where
  "parenthesizedInner paren = find (\<lambda>x. Kind x \<noteq> ''('' \<and> Kind x \<noteq> '')'') (children paren)"

lemma find_member: "find P xs = Some x \<Longrightarrow> x \<in> set xs \<and> P x"
  by (induction xs) (auto split: if_splits)

lemma inner_smaller [termination_simp]: "parenthesizedInner p = Some x \<Longrightarrow> extent x < extent p"
  unfolding parenthesizedInner_def by (drule find_member) (simp add: children_smaller)

function unwrapGoParen :: "cursor \<Rightarrow> cursor" where
  "unwrapGoParen n =
     (if Kind n = ''parenthesized_expression''
      then (case parenthesizedInner n of None \<Rightarrow> n | Some inner \<Rightarrow> unwrapGoParen inner)
      else n)"
  by pat_completeness auto

termination
  by (relation "measure extent") (auto simp: inner_smaller)

declare unwrapGoParen.simps [simp del]

lemma unwrap_smaller: "extent (unwrapGoParen n) \<le> extent n"
proof (induction n rule: unwrapGoParen.induct)
  case (1 n)
  then show ?case
    using inner_smaller [of n] by (subst unwrapGoParen.simps) (fastforce split: option.splits)
qed

definition goBinaryOp :: "string \<Rightarrow> cursor \<Rightarrow> string" where
  "goBinaryOp source n = (case ChildByFieldName ''operator'' n of None \<Rightarrow> [] | Some op \<Rightarrow> Utf8Text source op)"

definition goExpressionListValues :: "cursor \<Rightarrow> cursor list" where
  "goExpressionListValues l = filter (\<lambda>x. Kind x \<noteq> '','') (children l)"

fun single_identifier :: "string \<Rightarrow> cursor list \<Rightarrow> string \<Rightarrow> string" where
  "single_identifier source [] ident = ident"
| "single_identifier source (x # xs) ident =
     (if Kind x = '','' then single_identifier source xs ident
      else if Kind x = ''identifier''
      then (if ident \<noteq> [] then [] else single_identifier source xs (Utf8Text source x))
      else [])"

definition singleIdentifierName :: "string \<Rightarrow> cursor option \<Rightarrow> string" where
  "singleIdentifierName source l = (case l of None \<Rightarrow> [] | Some n \<Rightarrow> single_identifier source (children n) [])"

definition expressionListIsSingleNode :: "cursor option \<Rightarrow> cursor \<Rightarrow> bool" where
  "expressionListIsSingleNode l want \<longleftrightarrow>
     (case l of None \<Rightarrow> False
      | Some n \<Rightarrow> (case goExpressionListValues n of [x] \<Rightarrow> sameNodeSpan x want | _ \<Rightarrow> False))"

definition goSelectorCallInfo :: "string \<Rightarrow> cursor \<Rightarrow> (string \<times> string) option" where
  "goSelectorCallInfo source call =
     (if Kind call \<noteq> ''call_expression'' then None
      else (case ChildByFieldName ''function'' call of
              None \<Rightarrow> None
            | Some fn \<Rightarrow>
                if Kind fn \<noteq> ''selector_expression'' then None
                else (case (ChildByFieldName ''operand'' fn, ChildByFieldName ''field'' fn) of
                        (Some operand, Some fld) \<Rightarrow>
                          if Kind operand \<noteq> ''identifier'' then None
                          else Some (Utf8Text source operand, Utf8Text source fld)
                      | _ \<Rightarrow> None)))"

definition goCallFirstArgument :: "cursor \<Rightarrow> cursor option" where
  "goCallFirstArgument call =
     (case ChildByFieldName ''arguments'' call of
        None \<Rightarrow> None
      | Some args \<Rightarrow> find (\<lambda>x. Kind x \<notin> {''('', '')'', '',''}) (children args))"

section \<open>Names\<close>

function idents :: "string \<Rightarrow> cursor \<Rightarrow> string list" where
  "idents source n =
     (if Kind n = ''identifier'' then [Utf8Text source n] else concat (map (idents source) (children n)))"
  by pat_completeness auto

termination
  by (relation "measure (\<lambda>(s, n). extent n)") (auto simp: children_smaller)

declare idents.simps [simp del]

function param_idents :: "string \<Rightarrow> cursor \<Rightarrow> string list" where
  "param_idents source n =
     (if Kind n \<in> {''parameter_declaration'', ''variadic_parameter_declaration''}
      then map (Utf8Text source) (filter (\<lambda>x. Kind x = ''identifier'') (children n))
      else concat (map (param_idents source) (children n)))"
  by pat_completeness auto

termination
  by (relation "measure (\<lambda>(s, n). extent n)") (auto simp: children_smaller)

declare param_idents.simps [simp del]

definition identifiersInNodeField :: "string \<Rightarrow> string \<Rightarrow> cursor \<Rightarrow> string list" where
  "identifiersInNodeField source fld n =
     (case ChildByFieldName fld n of None \<Rightarrow> [] | Some x \<Rightarrow> idents source x)"

definition parameterNames :: "string \<Rightarrow> cursor \<Rightarrow> string list" where
  "parameterNames source params = concat (map (param_idents source) (children params))"

section \<open>Parameters that can be mutated\<close>

datatype paramMutKind = paramNotMutable | paramMutPointer | paramMutCollection

type_synonym mutables = "(string \<times> paramMutKind) list"

definition put :: "string \<Rightarrow> paramMutKind \<Rightarrow> mutables \<Rightarrow> mutables" where
  "put k v m = (k, v) # filter (\<lambda>e. fst e \<noteq> k) m"

definition kind_of :: "mutables \<Rightarrow> string \<Rightarrow> paramMutKind" where
  "kind_of m k = (case map_of m k of None \<Rightarrow> paramNotMutable | Some v \<Rightarrow> v)"

definition addDecl :: "string \<Rightarrow> cursor \<Rightarrow> mutables \<Rightarrow> mutables" where
  "addDecl source decl m =
     (if Kind decl \<noteq> ''parameter_declaration'' then m
      else (let kind = (case ChildByFieldName ''type'' decl of
                          None \<Rightarrow> paramNotMutable
                        | Some t \<Rightarrow> if Kind t = ''pointer_type'' then paramMutPointer
                                    else if Kind t \<in> {''map_type'', ''slice_type''} then paramMutCollection
                                    else paramNotMutable)
            in fold (\<lambda>x m. if Kind x = ''identifier'' then put (Utf8Text source x) kind m else m) (children decl) m))"

definition mutableParamTypes :: "string \<Rightarrow> cursor \<Rightarrow> mutables" where
  "mutableParamTypes source params = fold (addDecl source) (children params) []"

definition shadowNames :: "mutables \<Rightarrow> string list \<Rightarrow> mutables" where
  "shadowNames outer names = filter (\<lambda>e. fst e \<notin> set names) outer"

definition shadowParamTypes :: "string \<Rightarrow> mutables \<Rightarrow> cursor \<Rightarrow> mutables" where
  "shadowParamTypes source outer literalParams = shadowNames outer (parameterNames source literalParams)"

definition reboundIdentifiersInAssignment :: "string \<Rightarrow> cursor \<Rightarrow> string list" where
  "reboundIdentifiersInAssignment source n =
     (case ChildByFieldName ''left'' n of
        None \<Rightarrow> []
      | Some l \<Rightarrow> map (Utf8Text source) (filter (\<lambda>x. Kind x = ''identifier'') (children l)))"

function var_decl_names :: "string \<Rightarrow> cursor \<Rightarrow> string list" where
  "var_decl_names source n =
     (if Kind n = ''var_spec'' then identifiersInNodeField source ''name'' n
      else concat (map (var_decl_names source) (children n)))"
  by pat_completeness auto

termination
  by (relation "measure (\<lambda>(s, n). extent n)") (auto simp: children_smaller)

declare var_decl_names.simps [simp del]

function identifiersDeclaredInSubtree :: "string \<Rightarrow> cursor \<Rightarrow> string list" where
  "identifiersDeclaredInSubtree source n =
     (if Kind n = ''short_var_declaration'' then identifiersInNodeField source ''left'' n
      else if Kind n = ''var_declaration'' then var_decl_names source n
      else concat (map (identifiersDeclaredInSubtree source) (children n)))"
  by pat_completeness auto

termination
  by (relation "measure (\<lambda>(s, n). extent n)") (auto simp: children_smaller)

declare identifiersDeclaredInSubtree.simps [simp del]

definition firstChildIdentifier :: "string \<Rightarrow> cursor \<Rightarrow> string option" where
  "firstChildIdentifier source n = map_option (Utf8Text source) (find (\<lambda>x. Kind x = ''identifier'') (children n))"

fun first_nonempty :: "'a list list \<Rightarrow> 'a list" where
  "first_nonempty [] = []"
| "first_nonempty (xs # xss) = (if xs \<noteq> [] then xs else first_nonempty xss)"

function typeSwitchGuardIdentifiers :: "string \<Rightarrow> cursor \<Rightarrow> string list" where
  "typeSwitchGuardIdentifiers source n =
     (if Kind n = ''type_switch_guard''
      then (if \<not> contains (Utf8Text source n) '':='' then []
            else (case firstChildIdentifier source n of Some name \<Rightarrow> [name] | None \<Rightarrow> []))
      else first_nonempty (map (typeSwitchGuardIdentifiers source) (children n)))"
  by pat_completeness auto

termination
  by (relation "measure (\<lambda>(s, n). extent n)") (auto simp: children_smaller)

declare typeSwitchGuardIdentifiers.simps [simp del]

definition shadowLocalDeclarations :: "string \<Rightarrow> mutables \<Rightarrow> cursor \<Rightarrow> mutables" where
  "shadowLocalDeclarations source outer n =
     (if Kind n = ''short_var_declaration'' then shadowNames outer (identifiersInNodeField source ''left'' n)
      else if Kind n = ''assignment_statement'' then shadowNames outer (reboundIdentifiersInAssignment source n)
      else if Kind n = ''for_clause'' then shadowNames outer (identifiersDeclaredInSubtree source n)
      else if Kind n = ''range_clause'' then shadowNames outer (identifiersInNodeField source ''left'' n)
      else if Kind n \<in> {''type_switch_header'', ''type_switch_guard''}
      then shadowNames outer (typeSwitchGuardIdentifiers source n)
      else if Kind n = ''var_declaration'' then shadowNames outer (var_decl_names source n)
      else outer)"

section \<open>The collector\<close>

record collector =
  fc_metrics :: structural_metrics
  fc_findings :: "semantic_finding list"
  fc_toctou_seen :: "(nat \<times> nat) list"
  fc_mutates_seen :: "(string \<times> nat \<times> nat) list"

definition zero_metrics :: structural_metrics where
  "zero_metrics = \<lparr>Ifs = 0, Fors = 0, ExprSwitches = 0, TypeSwitches = 0, Selects = 0, Functions = 0, Methods = 0,
     MaxNestingDepth = 0, MaxCognitiveComplexity = 0, SumCognitiveComplexity = 0\<rparr>"

definition new_collector :: collector where
  "new_collector = \<lparr>fc_metrics = zero_metrics, fc_findings = [], fc_toctou_seen = [], fc_mutates_seen = []\<rparr>"

definition add_finding :: "semantic_finding \<Rightarrow> collector \<Rightarrow> collector" where
  "add_finding f c = c\<lparr>fc_findings := fc_findings c @ [f]\<rparr>"

definition plain_finding :: "string \<Rightarrow> string \<Rightarrow> location \<Rightarrow> semantic_finding" where
  "plain_finding kind name l = \<lparr>sf_kind = kind, sf_name = name, sf_location = l, sf_confidence = [],
     sf_evidence = [], sf_recommendation = [], sf_skill = []\<rparr>"

text \<open>\<open>^New([A-Z0-9_]|$)\<close>.\<close>

definition constructor_name :: "string \<Rightarrow> bool" where
  "constructor_name name \<longleftrightarrow>
     (case cut_prefix ''New'' name of
        None \<Rightarrow> False
      | Some rest \<Rightarrow> rest = [] \<or>
          (let n = of_char (hd rest) :: nat in 65 \<le> n \<and> n \<le> 90 \<or> 48 \<le> n \<and> n \<le> 57 \<or> n = 95))"

definition checkConstructorFunc :: "string \<Rightarrow> cursor \<Rightarrow> collector \<Rightarrow> collector" where
  "checkConstructorFunc source decl c =
     (case ChildByFieldName ''name'' decl of
        None \<Rightarrow> c
      | Some nameNode \<Rightarrow>
          let name = Utf8Text source nameNode in
          if \<not> constructor_name name then c
          else add_finding (plain_finding ''constructor_func'' name (locationFromNode decl)) c)"

function resultHasPointerType :: "cursor \<Rightarrow> bool" where
  "resultHasPointerType n \<longleftrightarrow> Kind n = ''pointer_type'' \<or> list_ex resultHasPointerType (children n)"
  by pat_completeness auto

termination
  by (relation "measure extent") (auto simp: children_smaller)

declare resultHasPointerType.simps [simp del]

definition checkPointerReturn :: "string \<Rightarrow> cursor \<Rightarrow> collector \<Rightarrow> collector" where
  "checkPointerReturn source decl c =
     (case (ChildByFieldName ''name'' decl, ChildByFieldName ''result'' decl) of
        (Some nameNode, Some result) \<Rightarrow>
          if \<not> resultHasPointerType result then c
          else add_finding (plain_finding ''pointer_return'' (Utf8Text source nameNode) (locationFromNode decl)) c
      | _ \<Rightarrow> c)"

section \<open>Mutated inputs\<close>

definition newMutatesInputFinding :: "string \<Rightarrow> string \<Rightarrow> string \<Rightarrow> cursor \<Rightarrow> semantic_finding" where
  "newMutatesInputFinding source funcName paramName evidence =
     \<lparr>sf_kind = ''mutates_input'', sf_name = funcName @ '':'' @ paramName, sf_location = locationFromNode evidence,
      sf_confidence = ''medium'', sf_evidence = Utf8Text source evidence,
      sf_recommendation = ''Return a copy instead of mutating the caller'' @ [CHR 0x27] @ ''s value, or document/rename this function to make the in-place mutation explicit.'',
      sf_skill = ''refactor-hidden-mutation''\<rparr>"

definition recordMutatesInput :: "string \<Rightarrow> string \<Rightarrow> string \<Rightarrow> cursor \<Rightarrow> collector \<Rightarrow> collector" where
  "recordMutatesInput source funcName paramName target c =
     (let l = locationFromNode target; key = (paramName, StartByte l, EndByte l) in
      if key \<in> set (fc_mutates_seen c) then c
      else add_finding (newMutatesInputFinding source funcName paramName target)
             (c\<lparr>fc_mutates_seen := key # fc_mutates_seen c\<rparr>))"

definition derefOperand :: "string \<Rightarrow> cursor \<Rightarrow> cursor option" where
  "derefOperand source paren =
     first_some (map (\<lambda>x. if Kind x = ''unary_expression''
             \<and> map_option (Utf8Text source) (ChildByFieldName ''operator'' x) = Some ''*''
           then ChildByFieldName ''operand'' x else None) (children paren))"

lemma deref_smaller [termination_simp]: "derefOperand source p = Some x \<Longrightarrow> extent x < extent p"
proof -
  assume "derefOperand source p = Some x"
  then obtain y where "y \<in> set (children p)" "ChildByFieldName ''operand'' y = Some x"
    unfolding derefOperand_def by (auto dest!: first_some_member split: if_splits)
  then show ?thesis using field_smaller children_smaller by (meson less_trans)
qed

function base_loop :: "string \<Rightarrow> cursor \<Rightarrow> cursor option" where
  "base_loop source operand =
     (if Kind operand = ''identifier'' then Some operand
      else if Kind operand \<in> {''selector_expression'', ''index_expression''}
      then (case ChildByFieldName ''operand'' operand of None \<Rightarrow> None | Some x \<Rightarrow> base_loop source x)
      else if Kind operand = ''parenthesized_expression''
      then (case derefOperand source operand of
              Some inner \<Rightarrow> base_loop source inner
            | None \<Rightarrow> (case parenthesizedInner operand of None \<Rightarrow> None | Some inner \<Rightarrow> base_loop source inner))
      else None)"
  by pat_completeness auto

termination
  by (relation "measure (\<lambda>(s, n). extent n)") (auto simp: field_smaller inner_smaller deref_smaller)

declare base_loop.simps [simp del]

text \<open>The root identifier of an operand, and whether it took more than the direct shapes.\<close>

definition selectorBaseIdentifier :: "string \<Rightarrow> cursor \<Rightarrow> (cursor \<times> bool) option" where
  "selectorBaseIdentifier source operand =
     (if Kind operand = ''identifier'' then Some (operand, False)
      else (case (if Kind operand = ''parenthesized_expression''
                  then (case derefOperand source operand of
                          Some inner \<Rightarrow> if Kind inner = ''identifier'' then Some inner
                            else (case parenthesizedInner operand of
                                    Some x \<Rightarrow> if Kind x = ''identifier'' then Some x else None | None \<Rightarrow> None)
                        | None \<Rightarrow> (case parenthesizedInner operand of
                                    Some x \<Rightarrow> if Kind x = ''identifier'' then Some x else None | None \<Rightarrow> None))
                  else None) of
              Some x \<Rightarrow> Some (x, False)
            | None \<Rightarrow> map_option (\<lambda>x. (x, True)) (base_loop source operand)))"

definition recordMutableSelectorOrIndex ::
  "string \<Rightarrow> string \<Rightarrow> mutables \<Rightarrow> paramMutKind \<Rightarrow> cursor \<Rightarrow> collector \<Rightarrow> collector" where
  "recordMutableSelectorOrIndex source funcName m requiredKind target c =
     (case ChildByFieldName ''operand'' target of
        None \<Rightarrow> c
      | Some operand \<Rightarrow>
     (case selectorBaseIdentifier source operand of
        None \<Rightarrow> c
      | Some (base, nested) \<Rightarrow>
          let paramName = Utf8Text source base; kind = kind_of m paramName in
          if nested \<and> kind = paramNotMutable \<or> \<not> nested \<and> kind \<noteq> requiredKind then c
          else recordMutatesInput source funcName paramName target c))"

definition recordMutableDeref :: "string \<Rightarrow> string \<Rightarrow> mutables \<Rightarrow> cursor \<Rightarrow> collector \<Rightarrow> collector" where
  "recordMutableDeref source funcName m target c =
     (if map_option (Utf8Text source) (ChildByFieldName ''operator'' target) \<noteq> Some ''*'' then c
      else (case ChildByFieldName ''operand'' target of
              None \<Rightarrow> c
            | Some operand \<Rightarrow>
                if Kind operand \<noteq> ''identifier'' \<or> kind_of m (Utf8Text source operand) \<noteq> paramMutPointer then c
                else recordMutatesInput source funcName (Utf8Text source operand) target c))"

function checkAssignmentTarget :: "string \<Rightarrow> string \<Rightarrow> mutables \<Rightarrow> cursor \<Rightarrow> collector \<Rightarrow> collector" where
  "checkAssignmentTarget source funcName m target c =
     (if Kind target = ''parenthesized_expression''
      then (case parenthesizedInner target of None \<Rightarrow> c | Some inner \<Rightarrow> checkAssignmentTarget source funcName m inner c)
      else if Kind target = ''selector_expression'' then recordMutableSelectorOrIndex source funcName m paramMutPointer target c
      else if Kind target = ''index_expression'' then recordMutableSelectorOrIndex source funcName m paramMutCollection target c
      else if Kind target = ''unary_expression'' then recordMutableDeref source funcName m target c
      else c)"
  by pat_completeness auto

termination
  by (relation "measure (\<lambda>(s, f, m, n, c). extent n)") (auto simp: inner_smaller)

declare checkAssignmentTarget.simps [simp del]

definition checkAssignmentTargets :: "string \<Rightarrow> string \<Rightarrow> mutables \<Rightarrow> cursor option \<Rightarrow> collector \<Rightarrow> collector" where
  "checkAssignmentTargets source funcName m left c =
     (case left of None \<Rightarrow> c | Some l \<Rightarrow> fold (checkAssignmentTarget source funcName m) (children l) c)"

definition updateStatementTarget :: "cursor \<Rightarrow> cursor option" where
  "updateStatementTarget n =
     find (\<lambda>x. Kind x \<in> {''selector_expression'', ''index_expression'', ''unary_expression''}) (children n)"

text \<open>What one node adds, and the parameters its children see first.\<close>

definition assignments_at :: "string \<Rightarrow> string \<Rightarrow> mutables \<Rightarrow> cursor \<Rightarrow> collector \<Rightarrow> collector" where
  "assignments_at source funcName m n c =
     (if Kind n = ''assignment_statement'' then checkAssignmentTargets source funcName m (ChildByFieldName ''left'' n) c
      else if Kind n \<in> {''inc_statement'', ''dec_statement''}
      then (case updateStatementTarget n of None \<Rightarrow> c | Some t \<Rightarrow> checkAssignmentTarget source funcName m t c)
      else c)"

definition params_below :: "string \<Rightarrow> mutables \<Rightarrow> cursor \<Rightarrow> mutables" where
  "params_below source m n =
     (if Kind n = ''type_switch_statement'' then shadowNames m (identifiersInNodeField source ''alias'' n)
      else if Kind n = ''func_literal''
      then (case ChildByFieldName ''parameters'' n of None \<Rightarrow> m | Some ps \<Rightarrow> shadowParamTypes source m ps)
      else m)"

text \<open>The loop over the children: each sees the parameters that its elder siblings left.\<close>

fun thread_fold :: "('m \<Rightarrow> 'x \<Rightarrow> 'c \<Rightarrow> 'c) \<Rightarrow> ('m \<Rightarrow> 'x \<Rightarrow> 'm) \<Rightarrow> 'x list \<Rightarrow> 'c \<Rightarrow> 'm \<Rightarrow> 'c" where
  "thread_fold f g [] c m = c"
| "thread_fold f g (x # xs) c m = thread_fold f g xs (f m x c) (g m x)"

lemma thread_fold_cong [fundef_cong]:
  "xs = ys \<Longrightarrow> c = c' \<Longrightarrow> m = m' \<Longrightarrow> (\<And>m x c. x \<in> set ys \<Longrightarrow> f m x c = f' m x c) \<Longrightarrow>
     thread_fold f g xs c m = thread_fold f' g ys c' m'"
  by (induction xs arbitrary: ys c c' m m') auto

function findAssignments :: "string \<Rightarrow> string \<Rightarrow> mutables \<Rightarrow> cursor \<Rightarrow> collector \<Rightarrow> collector" where
  "findAssignments source funcName m n c =
     thread_fold (findAssignments source funcName) (shadowLocalDeclarations source) (children n)
       (assignments_at source funcName m n c) (params_below source m n)"
  by pat_completeness auto

termination
  by (relation "measure (\<lambda>(s, f, m, n, c). extent n)") (auto simp: children_smaller)

declare findAssignments.simps [simp del]

definition checkMutatesInput :: "string \<Rightarrow> cursor \<Rightarrow> collector \<Rightarrow> collector" where
  "checkMutatesInput source decl c =
     (case (ChildByFieldName ''name'' decl, ChildByFieldName ''parameters'' decl, ChildByFieldName ''body'' decl) of
        (Some nameNode, Some params, Some body) \<Rightarrow>
          let m = mutableParamTypes source params in
          if m = [] then c
          else findAssignments source (Utf8Text source nameNode) m body (c\<lparr>fc_mutates_seen := []\<rparr>)
      | _ \<Rightarrow> c)"

section \<open>Check-then-act races\<close>

definition goToctouActCallNames :: "string list" where
  "goToctouActCallNames = [''Open'', ''OpenFile'', ''Remove'', ''RemoveAll'', ''ReadFile'']"

definition goToctouStatCallNames :: "string list" where
  "goToctouStatCallNames = [''Stat'', ''Lstat'']"

definition os_call :: "string \<Rightarrow> string list \<Rightarrow> cursor \<Rightarrow> bool" where
  "os_call source names n \<longleftrightarrow> (case goSelectorCallInfo source n of Some (pkg, name) \<Rightarrow> pkg = ''os'' \<and> name \<in> set names | None \<Rightarrow> False)"

definition goToctouActMatch :: "string \<Rightarrow> string \<Rightarrow> cursor \<Rightarrow> bool" where
  "goToctouActMatch source pathText n \<longleftrightarrow>
     Kind n = ''call_expression'' \<and> os_call source goToctouActCallNames n
   \<and> map_option (Utf8Text source) (goCallFirstArgument n) = Some pathText"

function findGoToctouActCall :: "string \<Rightarrow> string \<Rightarrow> cursor \<Rightarrow> cursor option" where
  "findGoToctouActCall source pathText n =
     (if goToctouActMatch source pathText n then Some n
      else first_some (map (findGoToctouActCall source pathText) (children n)))"
  by pat_completeness auto

termination
  by (relation "measure (\<lambda>(s, p, n). extent n)") (auto simp: children_smaller)

declare findGoToctouActCall.simps [simp del]

definition goStatInitializerCall :: "string \<Rightarrow> cursor \<Rightarrow> (cursor \<times> string) option" where
  "goStatInitializerCall source ifStmt =
     (case ChildByFieldName ''initializer'' ifStmt of
        None \<Rightarrow> None
      | Some ini \<Rightarrow>
          if Kind ini \<notin> {''short_var_declaration'', ''assignment_statement''} then None
          else (case (ChildByFieldName ''left'' ini, ChildByFieldName ''right'' ini) of
                  (Some l, Some r) \<Rightarrow>
                    (case (goExpressionListValues l, goExpressionListValues r) of
                       ([_, target], [rhs]) \<Rightarrow>
                         if Kind target = ''identifier'' \<and> os_call source goToctouStatCallNames rhs
                         then Some (rhs, Utf8Text source target) else None
                     | _ \<Rightarrow> None)
                | _ \<Rightarrow> None))"

definition isGoErrNilGate :: "string \<Rightarrow> cursor option \<Rightarrow> string \<Rightarrow> bool" where
  "isGoErrNilGate source condition errName \<longleftrightarrow>
     (case condition of
        None \<Rightarrow> False
      | Some cnd \<Rightarrow>
          errName \<noteq> [] \<and> Kind cnd = ''binary_expression'' \<and> goBinaryOp source cnd = ''==''
        \<and> (case (ChildByFieldName ''left'' cnd, ChildByFieldName ''right'' cnd) of
             (Some l, Some r) \<Rightarrow>
               Kind l = ''nil'' \<and> Kind r = ''identifier'' \<and> Utf8Text source r = errName
             \<or> Kind r = ''nil'' \<and> Kind l = ''identifier'' \<and> Utf8Text source l = errName
           | _ \<Rightarrow> False))"

definition goToctouRecommendation :: string where
  "goToctouRecommendation = ''Don'' @ [CHR 0x27] @ ''t gate a filesystem operation behind an os.Stat/os.Lstat check on the same path -- the file can be created, removed, or replaced between the check and the act (CWE-367/TOCTOU). Call the operation directly and handle its fs.ErrNotExist (or equivalent) error instead (EAFP-style); for stronger hardening, prefer errors.Is(err, fs.ErrNotExist) over string/type sniffing, and consider os.Root to scope filesystem access and further shrink this race.''"

definition newGoTOCTOUCheckThenActFinding :: "string \<Rightarrow> cursor \<Rightarrow> cursor \<Rightarrow> string \<Rightarrow> semantic_finding" where
  "newGoTOCTOUCheckThenActFinding source checkCall actCall pathText =
     \<lparr>sf_kind = ''toctou_check_then_act'', sf_name = pathText, sf_location = locationFromNode actCall,
      sf_confidence = ''medium'', sf_evidence = Utf8Text source checkCall @ '' ... '' @ Utf8Text source actCall,
      sf_recommendation = goToctouRecommendation, sf_skill = ''find-bugs''\<rparr>"

definition checkGoTOCTOUCheckThenAct :: "string \<Rightarrow> cursor \<Rightarrow> collector \<Rightarrow> collector" where
  "checkGoTOCTOUCheckThenAct source n c =
     (case goStatInitializerCall source n of
        None \<Rightarrow> c
      | Some (statCall, errName) \<Rightarrow>
     (case goCallFirstArgument statCall of
        None \<Rightarrow> c
      | Some checkArg \<Rightarrow>
          if \<not> isGoErrNilGate source (ChildByFieldName ''condition'' n) errName then c
          else (case ChildByFieldName ''consequence'' n of
                  None \<Rightarrow> c
                | Some consequence \<Rightarrow>
               (case findGoToctouActCall source (Utf8Text source checkArg) consequence of
                  None \<Rightarrow> c
                | Some act \<Rightarrow>
                    let l = locationFromNode act; key = (StartByte l, EndByte l) in
                    if key \<in> set (fc_toctou_seen c) then c
                    else add_finding (newGoTOCTOUCheckThenActFinding source statCall act (Utf8Text source checkArg))
                           (c\<lparr>fc_toctou_seen := key # fc_toctou_seen c\<rparr>)))))"

section \<open>The walk\<close>

definition count_metric :: "((int \<Rightarrow> int) \<Rightarrow> structural_metrics \<Rightarrow> structural_metrics) \<Rightarrow> collector \<Rightarrow> collector" where
  "count_metric upd c = c\<lparr>fc_metrics := upd (\<lambda>n. n + 1) (fc_metrics c)\<rparr>"

text \<open>What the walk does at a node, and the depth and body flag its children see.\<close>

definition visit_node :: "string \<Rightarrow> int \<Rightarrow> bool \<Rightarrow> cursor \<Rightarrow> collector \<Rightarrow> collector \<times> int \<times> bool" where
  "visit_node source blockDepth inFunc n c =
     (if Kind n = ''if_statement''
      then (checkGoTOCTOUCheckThenAct source n (count_metric Ifs_update c), blockDepth, inFunc)
      else if Kind n = ''for_statement'' then (count_metric Fors_update c, blockDepth, inFunc)
      else if Kind n = ''expression_switch_statement'' then (count_metric ExprSwitches_update c, blockDepth, inFunc)
      else if Kind n = ''type_switch_statement'' then (count_metric TypeSwitches_update c, blockDepth, inFunc)
      else if Kind n = ''select_statement'' then (count_metric Selects_update c, blockDepth, inFunc)
      else if Kind n = ''function_declaration''
      then (checkMutatesInput source n (checkPointerReturn source n (checkConstructorFunc source n
              (count_metric Functions_update c))), 0, True)
      else if Kind n = ''method_declaration''
      then (checkMutatesInput source n (checkPointerReturn source n (count_metric Methods_update c)), 0, True)
      else if Kind n = ''block''
      then (if inFunc
            then (if blockDepth + 1 > MaxNestingDepth (fc_metrics c)
                  then c\<lparr>fc_metrics := (fc_metrics c)\<lparr>MaxNestingDepth := blockDepth + 1\<rparr>\<rparr> else c,
                  blockDepth + 1, inFunc)
            else (c, blockDepth, inFunc))
      else (c, blockDepth, inFunc))"

function walk :: "string \<Rightarrow> int \<Rightarrow> bool \<Rightarrow> cursor \<Rightarrow> collector \<Rightarrow> collector" where
  "walk source blockDepth inFunc n c =
     (case visit_node source blockDepth inFunc n c of
        (c1, d, f) \<Rightarrow> fold (walk source d f) (children n) c1)"
  by pat_completeness auto

termination
  by (relation "measure (\<lambda>(s, d, f, n, c). extent n)") (auto simp: children_smaller)

declare walk.simps [simp del]

definition computeGoFeatures :: "string \<Rightarrow> cursor \<Rightarrow> structural_metrics \<times> semantic_finding list" where
  "computeGoFeatures source n =
     (let c = walk source 0 False n new_collector in (fc_metrics c, fc_findings c))"

section \<open>Imports\<close>

text \<open>
  \<open>strconv.Unquote\<close> of a string literal: raw strings lose their carriage returns, interpreted ones
  their escapes. Code points are appended in UTF-8.
\<close>

definition utf8_encode :: "nat \<Rightarrow> nat list" where
  "utf8_encode r0 =
     (let r = (if r0 > 0x10FFFF \<or> 0xD800 \<le> r0 \<and> r0 \<le> 0xDFFF then 0xFFFD else r0) in
      if r < 0x80 then [r]
      else if r < 0x800 then [0xC0 + r div 64, 0x80 + r mod 64]
      else if r < 0x10000 then [0xE0 + r div 4096, 0x80 + r div 64 mod 64, 0x80 + r mod 64]
      else [0xF0 + r div 262144, 0x80 + r div 4096 mod 64, 0x80 + r div 64 mod 64, 0x80 + r mod 64])"

definition hex_value :: "nat \<Rightarrow> nat option" where
  "hex_value b =
     (if 48 \<le> b \<and> b \<le> 57 then Some (b - 48)
      else if 97 \<le> b \<and> b \<le> 102 then Some (b - 87)
      else if 65 \<le> b \<and> b \<le> 70 then Some (b - 55) else None)"

fun digits_of :: "nat \<Rightarrow> nat list \<Rightarrow> nat \<Rightarrow> nat option" where
  "digits_of base [] acc = Some acc"
| "digits_of base (b # bs) acc =
     (case hex_value b of
        None \<Rightarrow> None
      | Some v \<Rightarrow> if base \<le> v then None else digits_of base bs (acc * base + v))"

definition escaped_digits :: "nat \<Rightarrow> nat \<Rightarrow> nat \<Rightarrow> bool \<Rightarrow> nat list \<Rightarrow> (nat list \<times> nat) option" where
  "escaped_digits base n limit as_rune bs =
     (if length bs < n then None
      else (case digits_of base (take n bs) 0 of
              None \<Rightarrow> None
            | Some v \<Rightarrow>
                if v > limit \<or> as_rune \<and> 0xD800 \<le> v \<and> v \<le> 0xDFFF then None
                else Some (if as_rune then utf8_encode v else [v], n)))"

text \<open>\<open>strconv.UnquoteChar\<close>: the bytes to append and the number of bytes read.\<close>

definition unquote_char :: "nat \<Rightarrow> nat list \<Rightarrow> (nat list \<times> nat) option" where
  "unquote_char quote bs =
     (case bs of
        [] \<Rightarrow> None
      | b # rest \<Rightarrow>
          if b = quote then None
          else if b \<ge> 0x80
          then (case decode_rune bs of None \<Rightarrow> Some (utf8_encode 0xFFFD, 1) | Some (r, w) \<Rightarrow> Some (utf8_encode r, w))
          else if b \<noteq> 92 then Some ([b], 1)
          else (case rest of
                  [] \<Rightarrow> None
                | e # follow \<Rightarrow>
                    (case map_of [(97, 7), (98, 8), (102, 12), (110, 10), (114, 13), (116, 9), (118, 11), (92, 92)] e of
                       Some v \<Rightarrow> Some ([v], 2)
                     | None \<Rightarrow>
                         if e = 120 then map_option (\<lambda>(v, n). (v, n + 2)) (escaped_digits 16 2 255 False follow)
                         else if e = 117 then map_option (\<lambda>(v, n). (v, n + 2)) (escaped_digits 16 4 0x10FFFF True follow)
                         else if e = 85 then map_option (\<lambda>(v, n). (v, n + 2)) (escaped_digits 16 8 0x10FFFF True follow)
                         else if 48 \<le> e \<and> e \<le> 55
                         then map_option (\<lambda>(v, n). (v, n + 1)) (escaped_digits 8 3 255 False rest)
                         else if (e = 39 \<or> e = 34) \<and> e = quote then Some ([e], 2)
                         else None)))"

function unquote_bytes :: "nat \<Rightarrow> nat list \<Rightarrow> nat list option" where
  "unquote_bytes quote bs =
     (if bs = [] \<or> hd bs = 10 then None
      else if hd bs = quote then (if length bs = 1 then Some [] else None)
      else (case unquote_char quote bs of
              None \<Rightarrow> None
            | Some (out, n) \<Rightarrow>
                if n = 0 then None
                else map_option (\<lambda>rest. out @ rest) (unquote_bytes quote (drop n bs))))"
  by pat_completeness auto

termination
  by (relation "measure (\<lambda>(q, bs). length bs)") auto

declare unquote_bytes.simps [simp del]

text \<open>A single-quoted literal holds one character.\<close>

definition Unquote :: "string \<Rightarrow> string option" where
  "Unquote s =
     (let bs = map of_char s :: nat list in
      if length bs < 2 then None
      else if hd bs = 96
      then (if last bs = 96 \<and> 96 \<notin> set (butlast (tl bs))
            then Some (map char_of (filter (\<lambda>b. b \<noteq> 13) (butlast (tl bs)))) else None)
      else if hd bs = 34 then map_option (map char_of) (unquote_bytes 34 (tl bs))
      else if hd bs = 39
      then (case unquote_char 39 (tl bs) of
              None \<Rightarrow> None
            | Some (out, n) \<Rightarrow> if tl bs ! 0 \<noteq> 10 \<and> drop n (tl bs) = [39] then Some (map char_of out) else None)
      else None)"

text \<open>
  A compiled query yields the matches below a node, each with its captures; the library may fail to
  compile it.
\<close>

type_synonym query_engine = "string \<Rightarrow> string + (cursor \<Rightarrow> string \<Rightarrow> cursor list list)"

definition goImportQuerySource :: string where
  "goImportQuerySource = ''(import_spec path: (_) @import.path)''"

definition importAlias :: "string \<Rightarrow> cursor \<Rightarrow> string" where
  "importAlias source pathNode =
     (case Parent pathNode of
        None \<Rightarrow> []
      | Some spec \<Rightarrow> (case ChildByFieldName ''name'' spec of None \<Rightarrow> [] | Some name \<Rightarrow> Utf8Text source name))"

fun importFeaturesFromCaptures :: "(nat \<Rightarrow> bool) \<Rightarrow> string \<Rightarrow> cursor list \<Rightarrow> string + import_feature list" where
  "importFeaturesFromCaptures pr source [] = Inr []"
| "importFeaturesFromCaptures pr source (n # ns) =
     (case Unquote (Utf8Text source n) of
        None \<Rightarrow> Inl (''semantics: unquoting import path '' @ quote_go pr (Utf8Text source n) @ '': invalid syntax'')
      | Some path \<Rightarrow>
          (case importFeaturesFromCaptures pr source ns of
             Inl e \<Rightarrow> Inl e
           | Inr fs \<Rightarrow> Inr (\<lparr>im_path = path, im_alias = importAlias source n, im_location = locationFromNode n\<rparr> # fs)))"

fun match_imports :: "(nat \<Rightarrow> bool) \<Rightarrow> string \<Rightarrow> cursor list list \<Rightarrow> string + import_feature list" where
  "match_imports pr source [] = Inr []"
| "match_imports pr source (m # ms) =
     (case importFeaturesFromCaptures pr source m of
        Inl e \<Rightarrow> Inl e
      | Inr fs \<Rightarrow> (case match_imports pr source ms of Inl e \<Rightarrow> Inl e | Inr gs \<Rightarrow> Inr (fs @ gs)))"

definition by_start :: "import_feature \<Rightarrow> import_feature \<Rightarrow> int" where
  "by_start a b = cmp_compare (StartByte (im_location a)) (StartByte (im_location b))"

text \<open>Two imports never start at the same byte, so the order of the sort is determined.\<close>

definition extractGoImports :: "(nat \<Rightarrow> bool) \<Rightarrow> query_engine \<Rightarrow> string \<Rightarrow> cursor \<Rightarrow> string + import_feature list" where
  "extractGoImports pr query source n =
     (case query goImportQuerySource of
        Inl e \<Rightarrow> Inl (''semantics: compiling import query: '' @ e)
      | Inr matches \<Rightarrow>
          (case match_imports pr source (matches n source) of
             Inl e \<Rightarrow> Inl e
           | Inr fs \<Rightarrow> Inr (stable_sort by_start fs)))"

section \<open>The metrics count the nodes\<close>

definition counted :: "string \<Rightarrow> cursor \<Rightarrow> int" where
  "counted k n = int (length (filter (\<lambda>x. Kind x = k) (nodes n)))"

lemma filter_concat_length: "int (length (filter P (concat xss))) = sum_list (map (\<lambda>xs. int (length (filter P xs))) xss)"
  by (induction xss) auto

lemma counted_step: "counted k n = (if Kind n = k then 1 else 0) + sum_list (map (counted k) (children n))"
proof -
  have "sum_list (map (counted k) (children n)) = int (length (filter (\<lambda>x. Kind x = k) (concat (map nodes (children n)))))"
    unfolding filter_concat_length by (simp add: counted_def [abs_def] o_def)
  then show ?thesis unfolding counted_def by (subst nodes.simps) simp
qed

lemma fold_adds:
  "(\<And>x c. x \<in> set xs \<Longrightarrow> m (f x c) = m c + g x) \<Longrightarrow> m (fold f xs c) = m c + (sum_list (map g xs) :: int)"
  by (induction xs arbitrary: c) auto

lemma metrics_add [simp]: "fc_metrics (add_finding f c) = fc_metrics c"
  by (simp add: add_finding_def)

lemma metrics_record [simp]: "fc_metrics (recordMutatesInput s fn p t c) = fc_metrics c"
  by (simp add: recordMutatesInput_def Let_def)

lemma metrics_target [simp]: "fc_metrics (checkAssignmentTarget s fn m t c) = fc_metrics c"
proof (induction s fn m t c rule: checkAssignmentTarget.induct)
  case (1 s fn m t c)
  have sel: "fc_metrics (recordMutableSelectorOrIndex s fn m k t c) = fc_metrics c" for k
    by (simp add: recordMutableSelectorOrIndex_def Let_def split: option.splits)
  have der: "fc_metrics (recordMutableDeref s fn m t c) = fc_metrics c"
    by (simp add: recordMutableDeref_def split: option.splits)
  show ?case
    using 1 sel der by (subst checkAssignmentTarget.simps) (simp split: option.splits)
qed

lemma metrics_fold: "(\<And>x c. x \<in> set xs \<Longrightarrow> fc_metrics (f x c) = fc_metrics c) \<Longrightarrow> fc_metrics (fold f xs c) = fc_metrics c"
  by (induction xs arbitrary: c) auto

lemma metrics_at [simp]: "fc_metrics (assignments_at s fn m n c) = fc_metrics c"
  by (auto simp: assignments_at_def checkAssignmentTargets_def metrics_fold split: option.splits)

lemma metrics_thread:
  "(\<And>x c m. x \<in> set xs \<Longrightarrow> fc_metrics (f m x c) = fc_metrics c) \<Longrightarrow> fc_metrics (thread_fold f g xs c m) = fc_metrics c"
  by (induction xs arbitrary: c m) auto

lemma metrics_find [simp]: "fc_metrics (findAssignments s fn m n c) = fc_metrics c"
proof (induction s fn m n c rule: findAssignments.induct)
  case (1 s fn m n c)
  then show ?case by (subst findAssignments.simps) (simp add: metrics_thread)
qed

lemma metrics_checks [simp]:
  "fc_metrics (checkConstructorFunc s d c) = fc_metrics c"
  "fc_metrics (checkPointerReturn s d c) = fc_metrics c"
  "fc_metrics (checkMutatesInput s d c) = fc_metrics c"
  "fc_metrics (checkGoTOCTOUCheckThenAct s d c) = fc_metrics c"
  by (simp_all add: checkConstructorFunc_def checkPointerReturn_def checkMutatesInput_def checkGoTOCTOUCheckThenAct_def Let_def
      split: option.splits prod.splits)

lemma walk_metric:
  assumes visit: "\<And>s d f n c. m (fc_metrics (fst (visit_node s d f n c))) = m (fc_metrics c) + (if Kind n = k then 1 else 0)"
  shows "m (fc_metrics (walk s d f n c)) = m (fc_metrics c) + counted k n"
proof (induction s d f n c rule: walk.induct)
  case (1 s d f n c)
  obtain c1 d1 f1 where v: "visit_node s d f n c = (c1, d1, f1)" by (metis prod_cases3)
  have "m (fc_metrics (fold (walk s d1 f1) (children n) c1)) = m (fc_metrics c1) + sum_list (map (counted k) (children n))"
    by (rule fold_adds [of _ "\<lambda>c. m (fc_metrics c)"]) (use 1 v in auto)
  then show ?case
    using visit [of s d f n c] v counted_step [of k n] by (subst walk.simps) simp
qed

lemma visit_counts:
  "Ifs (fc_metrics (fst (visit_node s d f n c))) = Ifs (fc_metrics c) + (if Kind n = ''if_statement'' then 1 else 0)"
  "Fors (fc_metrics (fst (visit_node s d f n c))) = Fors (fc_metrics c) + (if Kind n = ''for_statement'' then 1 else 0)"
  "ExprSwitches (fc_metrics (fst (visit_node s d f n c)))
     = ExprSwitches (fc_metrics c) + (if Kind n = ''expression_switch_statement'' then 1 else 0)"
  "TypeSwitches (fc_metrics (fst (visit_node s d f n c)))
     = TypeSwitches (fc_metrics c) + (if Kind n = ''type_switch_statement'' then 1 else 0)"
  "Selects (fc_metrics (fst (visit_node s d f n c))) = Selects (fc_metrics c) + (if Kind n = ''select_statement'' then 1 else 0)"
  "Functions (fc_metrics (fst (visit_node s d f n c)))
     = Functions (fc_metrics c) + (if Kind n = ''function_declaration'' then 1 else 0)"
  "Methods (fc_metrics (fst (visit_node s d f n c)))
     = Methods (fc_metrics c) + (if Kind n = ''method_declaration'' then 1 else 0)"
  by (simp_all add: visit_node_def count_metric_def)

text \<open>How deep a block lies: the blocks around it, up to the declaration it belongs to.\<close>

definition declares :: "tree \<Rightarrow> bool" where
  "declares t \<longleftrightarrow> ni_kind (tr_info t) \<in> {''function_declaration'', ''method_declaration''}"

definition block_tree :: "tree \<Rightarrow> bool" where
  "block_tree t \<longleftrightarrow> ni_kind (tr_info t) = ''block''"

definition enclosed :: "tree list \<Rightarrow> bool" where
  "enclosed ups \<longleftrightarrow> list_ex declares ups"

definition blocks :: "tree list \<Rightarrow> int" where
  "blocks ups = (if enclosed ups then int (length (filter block_tree (takeWhile (\<lambda>t. \<not> declares t) ups))) else 0)"

definition block_depth :: "cursor \<Rightarrow> int" where
  "block_depth x = blocks (cu_tree x # cu_up x)"

definition block_depths :: "cursor \<Rightarrow> int set" where
  "block_depths n = block_depth ` {x \<in> set (nodes n). Kind x = ''block'' \<and> enclosed (cu_up x)}"

lemma block_depths_step:
  "block_depths n = (if Kind n = ''block'' \<and> enclosed (cu_up n) then {block_depth n} else {})
     \<union> (\<Union>x\<in>set (children n). block_depths x)"
  unfolding block_depths_def by (subst nodes.simps) auto

lemma block_depths_finite [simp]: "finite (block_depths n)"
  by (simp add: block_depths_def)

lemma child_up: "x \<in> set (children n) \<Longrightarrow> cu_up x = cu_tree n # cu_up n"
  by (auto simp: children_def below_def)

lemma decl_not_block: "declares t \<Longrightarrow> \<not> block_tree t"
  by (auto simp: declares_def block_tree_def)

lemma visit_depth:
  assumes "visit_node s (blocks (cu_up n)) (enclosed (cu_up n)) n c = (c1, d1, f1)"
  shows "d1 = blocks (cu_tree n # cu_up n)" and "f1 = enclosed (cu_tree n # cu_up n)"
    and "MaxNestingDepth (fc_metrics c1)
      = (if Kind n = ''block'' \<and> enclosed (cu_up n) then max (MaxNestingDepth (fc_metrics c)) (block_depth n)
         else MaxNestingDepth (fc_metrics c))"
  using assms decl_not_block [of "cu_tree n"]
  by (auto simp: visit_node_def count_metric_def enclosed_def blocks_def block_depth_def declares_def block_tree_def Kind_def
      split: if_splits)

lemma Max_within:
  assumes "finite A" "finite B"
  shows "Max (insert (Max (insert a A)) B) = Max (insert (a :: int) (A \<union> B))"
proof (cases "B = {}")
  case False
  have "Max (insert a A \<union> B) = max (Max (insert a A)) (Max B)"
    by (rule Max.union) (use assms False in auto)
  moreover have "Max (insert (Max (insert a A)) B) = max (Max (insert a A)) (Max B)"
    by (rule Max.insert) (use assms False in auto)
  ultimately show ?thesis unfolding Un_insert_left by (rule trans [OF _ sym, rotated])
qed simp

lemma fold_max:
  "(\<And>x c. x \<in> set xs \<Longrightarrow> m (f x c) = Max (insert (m c) (D x))) \<Longrightarrow> (\<And>x. finite (D x)) \<Longrightarrow>
     m (fold f xs c) = Max (insert (m c :: int) (\<Union>x\<in>set xs. D x))"
proof (induction xs arbitrary: c)
  case (Cons x xs)
  have "m (fold f (x # xs) c) = Max (insert (m (f x c)) (\<Union>y\<in>set xs. D y))" using Cons by simp
  also have "m (f x c) = Max (insert (m c) (D x))" using Cons.prems(1) by simp
  also have "Max (insert (Max (insert (m c) (D x))) (\<Union>y\<in>set xs. D y)) = Max (insert (m c) (D x \<union> (\<Union>y\<in>set xs. D y)))"
    by (rule Max_within) (use Cons.prems(2) in auto)
  finally show ?case by simp
qed simp

lemma walk_depth:
  "d = blocks (cu_up n) \<Longrightarrow> f = enclosed (cu_up n) \<Longrightarrow>
     MaxNestingDepth (fc_metrics (walk s d f n c)) = Max (insert (MaxNestingDepth (fc_metrics c)) (block_depths n))"
proof (induction s d f n c rule: walk.induct)
  case (1 s d f n c)
  obtain c1 d1 f1 where v: "visit_node s d f n c = (c1, d1, f1)" by (metis prod_cases3)
  note vd = visit_depth [of s n c c1 d1 f1, folded "1.prems", OF v]
  let ?M = "\<lambda>c. MaxNestingDepth (fc_metrics c)" and ?own = "if Kind n = ''block'' \<and> enclosed (cu_up n) then {block_depth n} else {}"
  have "?M (fold (walk s d1 f1) (children n) c1) = Max (insert (?M c1) (\<Union>x\<in>set (children n). block_depths x))"
    by (rule fold_max [of _ ?M]) (use "1.IH" [OF v [symmetric] refl] vd child_up in auto)
  also have "\<dots> = Max (insert (Max (insert (?M c) ?own)) (\<Union>x\<in>set (children n). block_depths x))"
    using vd(3) "1.prems" by simp
  also have "\<dots> = Max (insert (?M c) (?own \<union> (\<Union>x\<in>set (children n). block_depths x)))"
    by (rule Max_within) auto
  also have "?own \<union> (\<Union>x\<in>set (children n). block_depths x) = block_depths n"
    by (rule block_depths_step [symmetric])
  finally show ?case using v by (subst walk.simps) simp
qed

text \<open>C18. The metrics of a Go file count its tree: each counter is the number of nodes of its kind, and
  the nesting depth is the largest number of blocks around a point of a function or method, counted
  from its declaration, or zero.
\<close>

theorem go_metrics_count_the_tree:
  "let n = RootNode t; m = fst (computeGoFeatures source n) in
     Ifs m = counted ''if_statement'' n \<and> Fors m = counted ''for_statement'' n
   \<and> ExprSwitches m = counted ''expression_switch_statement'' n
   \<and> TypeSwitches m = counted ''type_switch_statement'' n \<and> Selects m = counted ''select_statement'' n
   \<and> Functions m = counted ''function_declaration'' n \<and> Methods m = counted ''method_declaration'' n
   \<and> MaxNestingDepth m = Max (insert 0 (block_depths n))"
  unfolding computeGoFeatures_def Let_def fst_conv
  using walk_metric [of Ifs, OF visit_counts(1)] walk_metric [of Fors, OF visit_counts(2)]
    walk_metric [of ExprSwitches, OF visit_counts(3)] walk_metric [of TypeSwitches, OF visit_counts(4)]
    walk_metric [of Selects, OF visit_counts(5)] walk_metric [of Functions, OF visit_counts(6)]
    walk_metric [of Methods, OF visit_counts(7)] walk_depth [of 0 "RootNode t" False source new_collector]
  by (simp add: new_collector_def zero_metrics_def RootNode_def blocks_def enclosed_def)

section \<open>Every finding has its reason\<close>

definition write_kinds :: "string list" where
  "write_kinds = [''selector_expression'', ''index_expression'', ''unary_expression'']"

text \<open>A write through a parameter of a declaration: never a plain rebinding of its name.\<close>

definition written_through :: "string \<Rightarrow> cursor \<Rightarrow> semantic_finding \<Rightarrow> bool" where
  "written_through source decl f \<longleftrightarrow>
     (\<exists>nameNode params body target param.
        ChildByFieldName ''name'' decl = Some nameNode \<and> ChildByFieldName ''parameters'' decl = Some params
      \<and> ChildByFieldName ''body'' decl = Some body \<and> target \<in> set (nodes body) \<and> Kind target \<in> set write_kinds
      \<and> kind_of (mutableParamTypes source params) param \<noteq> paramNotMutable
      \<and> f = newMutatesInputFinding source (Utf8Text source nameNode) param target)"

definition constructs :: "string \<Rightarrow> cursor \<Rightarrow> semantic_finding \<Rightarrow> bool" where
  "constructs source decl f \<longleftrightarrow> Kind decl = ''function_declaration''
     \<and> (\<exists>nameNode. ChildByFieldName ''name'' decl = Some nameNode \<and> constructor_name (Utf8Text source nameNode)
        \<and> f = plain_finding ''constructor_func'' (Utf8Text source nameNode) (locationFromNode decl))"

definition returns_pointer :: "string \<Rightarrow> cursor \<Rightarrow> semantic_finding \<Rightarrow> bool" where
  "returns_pointer source decl f \<longleftrightarrow>
     (\<exists>nameNode result p. ChildByFieldName ''name'' decl = Some nameNode \<and> ChildByFieldName ''result'' decl = Some result
        \<and> p \<in> set (nodes result) \<and> Kind p = ''pointer_type''
        \<and> f = plain_finding ''pointer_return'' (Utf8Text source nameNode) (locationFromNode decl))"

text \<open>A check of a path that guards an act on the same path text, in the branch taken when the check succeeded.\<close>

definition races :: "string \<Rightarrow> cursor \<Rightarrow> semantic_finding \<Rightarrow> bool" where
  "races source ifStmt f \<longleftrightarrow> Kind ifStmt = ''if_statement''
     \<and> (\<exists>statCall errName arg consequence act.
          goStatInitializerCall source ifStmt = Some (statCall, errName) \<and> goCallFirstArgument statCall = Some arg
        \<and> isGoErrNilGate source (ChildByFieldName ''condition'' ifStmt) errName
        \<and> ChildByFieldName ''consequence'' ifStmt = Some consequence \<and> act \<in> set (nodes consequence)
        \<and> goToctouActMatch source (Utf8Text source arg) act
        \<and> f = newGoTOCTOUCheckThenActFinding source statCall act (Utf8Text source arg))"

definition reason_at :: "string \<Rightarrow> cursor \<Rightarrow> semantic_finding \<Rightarrow> bool" where
  "reason_at source x f \<longleftrightarrow> constructs source x f \<or> races source x f
     \<or> Kind x \<in> {''function_declaration'', ''method_declaration''} \<and> (returns_pointer source x f \<or> written_through source x f)"

lemma pointer_search: "resultHasPointerType n \<longleftrightarrow> (\<exists>p\<in>set (nodes n). Kind p = ''pointer_type'')"
proof (induction n rule: resultHasPointerType.induct)
  case (1 n)
  then show ?case by (subst resultHasPointerType.simps, subst nodes.simps) (auto simp: list_ex_iff)
qed

lemma act_search: "findGoToctouActCall s p n = Some a \<Longrightarrow> a \<in> set (nodes n) \<and> goToctouActMatch s p a"
proof (induction s p n rule: findGoToctouActCall.induct)
  case (1 s p n)
  show ?case
  proof (cases "goToctouActMatch s p n")
    case True
    then show ?thesis using "1.prems" node_self by (subst (asm) findGoToctouActCall.simps) simp
  next
    case False
    then have "first_some (map (findGoToctouActCall s p) (children n)) = Some a"
      using "1.prems" by (subst (asm) findGoToctouActCall.simps) simp
    then obtain x where "x \<in> set (children n)" "findGoToctouActCall s p x = Some a"
      by (auto dest!: first_some_member)
    then show ?thesis using "1.IH" [OF False] node_of_child by blast
  qed
qed

lemma kind_of_shadow: "kind_of (shadowNames m ns) p = (if p \<in> set ns then paramNotMutable else kind_of m p)"
proof -
  have "map_of (filter (\<lambda>e. fst e \<notin> set ns) m) p = (if p \<in> set ns then None else map_of m p)"
    by (induction m) auto
  then show ?thesis by (simp add: kind_of_def shadowNames_def)
qed

definition narrows :: "mutables \<Rightarrow> mutables \<Rightarrow> bool" where
  "narrows m' m \<longleftrightarrow> (\<forall>p. kind_of m' p \<noteq> paramNotMutable \<longrightarrow> kind_of m p \<noteq> paramNotMutable)"

lemma narrows_refl: "narrows m m"
  by (simp add: narrows_def)

lemma narrows_trans: "narrows a b \<Longrightarrow> narrows b c \<Longrightarrow> narrows a c"
  by (simp add: narrows_def)

lemma narrows_shadow: "narrows (shadowNames m ns) m"
  by (simp add: narrows_def kind_of_shadow)

lemma narrows_local: "narrows (shadowLocalDeclarations s m x) m"
  by (simp add: shadowLocalDeclarations_def narrows_shadow narrows_refl)

lemma narrows_below: "narrows (params_below s m n) m"
  by (auto simp: params_below_def shadowParamTypes_def narrows_shadow narrows_refl split: option.splits)

text \<open>What writes a walk may add.\<close>

definition writes :: "string \<Rightarrow> string \<Rightarrow> mutables \<Rightarrow> cursor set \<Rightarrow> semantic_finding set" where
  "writes s fn m X = {newMutatesInputFinding s fn p t | p t. t \<in> X \<and> Kind t \<in> set write_kinds \<and> kind_of m p \<noteq> paramNotMutable}"

lemma writes_mono: "narrows m' m \<Longrightarrow> X \<subseteq> Y \<Longrightarrow> writes s fn m' X \<subseteq> writes s fn m Y"
  by (auto simp: writes_def narrows_def)

abbreviation found :: "collector \<Rightarrow> semantic_finding set" where
  "found c \<equiv> set (fc_findings c)"

lemma found_record:
  "Kind t \<in> set write_kinds \<Longrightarrow> kind_of m p \<noteq> paramNotMutable \<Longrightarrow> t \<in> X \<Longrightarrow>
     found (recordMutatesInput s fn p t c) \<subseteq> found c \<union> writes s fn m X"
  by (auto simp: recordMutatesInput_def add_finding_def writes_def Let_def)

lemma inner_node: "parenthesizedInner n = Some x \<Longrightarrow> x \<in> set (children n)"
  unfolding parenthesizedInner_def by (drule find_member) simp

lemma found_target: "found (checkAssignmentTarget s fn m t c) \<subseteq> found c \<union> writes s fn m (set (nodes t))"
proof (induction s fn m t c rule: checkAssignmentTarget.induct)
  case (1 s fn m t c)
  have self: "t \<in> set (nodes t)" by (rule node_self)
  have sel: "found (recordMutableSelectorOrIndex s fn m k t c) \<subseteq> found c \<union> writes s fn m (set (nodes t))"
    if "Kind t \<in> set write_kinds" "k \<noteq> paramNotMutable" for k
  proof (cases "ChildByFieldName ''operand'' t")
    case (Some operand)
    show ?thesis
    proof (cases "selectorBaseIdentifier s operand")
      case (Some r)
      obtain base nested where r: "r = (base, nested)" by (cases r)
      show ?thesis
        using found_record [OF that(1) _ self, of m "Utf8Text s base" s fn c] that(2) Some r \<open>ChildByFieldName _ t = _\<close>
        by (auto simp: recordMutableSelectorOrIndex_def Let_def)
    qed (use Some in \<open>simp add: recordMutableSelectorOrIndex_def\<close>)
  qed (simp add: recordMutableSelectorOrIndex_def)
  have der: "found (recordMutableDeref s fn m t c) \<subseteq> found c \<union> writes s fn m (set (nodes t))"
    if "Kind t \<in> set write_kinds"
  proof (cases "ChildByFieldName ''operand'' t")
    case (Some operand)
    show ?thesis
      using found_record [OF that _ self, of m "Utf8Text s operand" s fn c] Some
      by (auto simp: recordMutableDeref_def)
  qed (simp add: recordMutableDeref_def)
  show ?case
  proof (cases "Kind t = ''parenthesized_expression''")
    case True
    show ?thesis
    proof (cases "parenthesizedInner t")
      case None
      then show ?thesis using True by (subst checkAssignmentTarget.simps) simp
    next
      case (Some x)
      have "set (nodes x) \<subseteq> set (nodes t)" using inner_node [OF Some] node_of_child by blast
      then have "writes s fn m (set (nodes x)) \<subseteq> writes s fn m (set (nodes t))" by (rule writes_mono [OF narrows_refl])
      moreover have "checkAssignmentTarget s fn m t c = checkAssignmentTarget s fn m x c"
        using True Some by (subst checkAssignmentTarget.simps) simp
      ultimately show ?thesis using 1 [OF True Some] by auto
    qed
  next
    case False
    then show ?thesis
      using sel der by (subst checkAssignmentTarget.simps) (auto simp: write_kinds_def)
  qed
qed

lemma found_fold:
  "(\<And>x c. x \<in> set xs \<Longrightarrow> found (f x c) \<subseteq> found c \<union> W) \<Longrightarrow> found (fold f xs c) \<subseteq> found c \<union> W"
  by (induction xs arbitrary: c) (auto, blast)

lemma found_at: "found (assignments_at s fn m n c) \<subseteq> found c \<union> writes s fn m (set (nodes n))"
proof -
  have target: "found (checkAssignmentTarget s fn m t c) \<subseteq> found c \<union> writes s fn m (set (nodes n))"
    if "t \<in> set (nodes n)" for t c
    using found_target [of s fn m t c] writes_mono [OF narrows_refl, of "set (nodes t)" "set (nodes n)" s fn m]
      nodes_trans [OF that] by auto
  have targets: "found (checkAssignmentTargets s fn m l c) \<subseteq> found c \<union> writes s fn m (set (nodes n))"
    if left: "l = ChildByFieldName ''left'' n" for l
  proof (cases l)
    case (Some x)
    have "y \<in> set (nodes n)" if "y \<in> set (children x)" for y
      using node_of_field [of "''left''" n x y] node_of_child [OF that node_self] Some left by auto
    then show ?thesis using Some target by (simp add: checkAssignmentTargets_def found_fold)
  qed (simp add: checkAssignmentTargets_def)
  have update: "t \<in> set (nodes n)" if "updateStatementTarget n = Some t" for t
    using that node_of_child node_self unfolding updateStatementTarget_def by (auto dest!: find_member)
  show ?thesis
    using target targets update by (auto simp: assignments_at_def split: option.splits)
qed

lemma found_thread:
  assumes "\<And>x c m. x \<in> set xs \<Longrightarrow> narrows m m0 \<Longrightarrow> found (f m x c) \<subseteq> found c \<union> W"
    and "\<And>x m. narrows (g m x) m"
  shows "narrows m m0 \<Longrightarrow> found (thread_fold f g xs c m) \<subseteq> found c \<union> W"
  using assms(1)
proof (induction xs arbitrary: c m)
  case (Cons x xs)
  have "found (f m x c) \<subseteq> found c \<union> W" using Cons.prems by simp
  moreover have "found (thread_fold f g xs (f m x c) (g m x)) \<subseteq> found (f m x c) \<union> W"
    by (rule Cons.IH [OF narrows_trans [OF assms(2) Cons.prems(1)]]) (use Cons.prems(2) in auto)
  ultimately show ?case by auto
qed simp

lemma found_assignments: "found (findAssignments s fn m n c) \<subseteq> found c \<union> writes s fn m (set (nodes n))"
proof (induction s fn m n c rule: findAssignments.induct)
  case (1 s fn m n c)
  let ?W = "writes s fn m (set (nodes n))"
  have step: "found (findAssignments s fn m' x c') \<subseteq> found c' \<union> ?W"
    if "x \<in> set (children n)" "narrows m' (params_below s m n)" for x c' m'
  proof -
    have "set (nodes x) \<subseteq> set (nodes n)" using node_of_child [OF that(1)] by auto
    then have "writes s fn m' (set (nodes x)) \<subseteq> ?W"
      by (intro writes_mono narrows_trans [OF that(2) narrows_below])
    then show ?thesis using 1 [OF that(1)] by blast
  qed
  have "found (thread_fold (findAssignments s fn) (shadowLocalDeclarations s) (children n)
      (assignments_at s fn m n c) (params_below s m n)) \<subseteq> found (assignments_at s fn m n c) \<union> ?W"
    by (rule found_thread [where m0 = "params_below s m n"]) (use step narrows_local narrows_refl in auto)
  then show ?case using found_at [of s fn m n c] by (subst findAssignments.simps) blast
qed

lemma found_mutates: "f \<in> found (checkMutatesInput s d c) \<Longrightarrow> f \<in> found c \<or> written_through s d f"
proof (cases "ChildByFieldName ''name'' d"; cases "ChildByFieldName ''parameters'' d"; cases "ChildByFieldName ''body'' d")
  fix nameNode params body
  assume f: "f \<in> found (checkMutatesInput s d c)"
    and fields: "ChildByFieldName ''name'' d = Some nameNode" "ChildByFieldName ''parameters'' d = Some params"
      "ChildByFieldName ''body'' d = Some body"
  have "found (findAssignments s (Utf8Text s nameNode) (mutableParamTypes s params) body (c\<lparr>fc_mutates_seen := []\<rparr>))
      \<subseteq> found c \<union> writes s (Utf8Text s nameNode) (mutableParamTypes s params) (set (nodes body))"
    using found_assignments [of s "Utf8Text s nameNode" "mutableParamTypes s params" body "c\<lparr>fc_mutates_seen := []\<rparr>"] by simp
  then have "f \<in> found c \<or> f \<in> writes s (Utf8Text s nameNode) (mutableParamTypes s params) (set (nodes body))"
    using f fields by (auto simp: checkMutatesInput_def Let_def split: if_splits)
  then show ?thesis using fields unfolding writes_def written_through_def by blast
qed (simp_all add: checkMutatesInput_def)

lemma found_constructor: "f \<in> found (checkConstructorFunc s d c) \<Longrightarrow> Kind d = ''function_declaration'' \<Longrightarrow> f \<in> found c \<or> constructs s d f"
  by (auto simp: checkConstructorFunc_def constructs_def add_finding_def Let_def split: option.splits if_splits)

lemma found_pointer: "f \<in> found (checkPointerReturn s d c) \<Longrightarrow> f \<in> found c \<or> returns_pointer s d f"
  by (auto simp: checkPointerReturn_def returns_pointer_def pointer_search add_finding_def split: option.splits if_splits)

lemma found_race: "f \<in> found (checkGoTOCTOUCheckThenAct s n c) \<Longrightarrow> Kind n = ''if_statement'' \<Longrightarrow> f \<in> found c \<or> races s n f"
  by (auto simp: checkGoTOCTOUCheckThenAct_def races_def add_finding_def Let_def dest!: act_search
      split: option.splits if_splits)

lemma found_metric [simp]: "found (count_metric u c) = found c"
  by (simp add: count_metric_def)

lemma found_visit: "visit_node s d f n c = (c1, d1, f1) \<Longrightarrow> x \<in> found c1 \<Longrightarrow> x \<in> found c \<or> reason_at s n x"
proof -
  assume v: "visit_node s d f n c = (c1, d1, f1)" and x: "x \<in> found c1"
  consider (branch) "Kind n = ''if_statement''" | (func) "Kind n = ''function_declaration''"
    | (declared_method) "Kind n = ''method_declaration''"
    | (other) "Kind n \<notin> {''if_statement'', ''function_declaration'', ''method_declaration''}" by blast
  then show ?thesis
  proof cases
    case branch
    then have "x \<in> found (checkGoTOCTOUCheckThenAct s n (count_metric Ifs_update c))" using v x by (simp add: visit_node_def)
    then show ?thesis using found_race branch by (fastforce simp: reason_at_def)
  next
    case func
    then have "x \<in> found (checkMutatesInput s n (checkPointerReturn s n (checkConstructorFunc s n (count_metric Functions_update c))))"
      using v x by (simp add: visit_node_def)
    then show ?thesis
      using found_mutates found_pointer found_constructor func unfolding reason_at_def by fastforce
  next
    case declared_method
    then have "x \<in> found (checkMutatesInput s n (checkPointerReturn s n (count_metric Methods_update c)))"
      using v x by (simp add: visit_node_def)
    then show ?thesis using found_mutates found_pointer declared_method unfolding reason_at_def by fastforce
  next
    case other
    then have "found c1 = found c" using v by (auto simp: visit_node_def split: if_splits)
    then show ?thesis using x by simp
  qed
qed

lemma found_walk: "x \<in> found (walk s d f n c) \<Longrightarrow> x \<in> found c \<or> (\<exists>y\<in>set (nodes n). reason_at s y x)"
proof (induction s d f n c arbitrary: x rule: walk.induct)
  case (1 s d f n c)
  obtain c1 d1 f1 where v: "visit_node s d f n c = (c1, d1, f1)" by (metis prod_cases3)
  have step: "z \<in> found c2 \<or> (\<exists>w\<in>set (nodes n). reason_at s w z)"
    if "y \<in> set (children n)" "z \<in> found (walk s d1 f1 y c2)" for y z c2
    using "1.IH" [OF v [symmetric] refl that(1,2)] node_of_child [OF that(1)] by blast
  have "found (fold (walk s d1 f1) (children n) c1) \<subseteq> found c1 \<union> {z. \<exists>w\<in>set (nodes n). reason_at s w z}"
    by (rule found_fold) (use step in blast)
  moreover have "x \<in> found (fold (walk s d1 f1) (children n) c1)"
    using "1.prems" v by (subst (asm) walk.simps) simp
  ultimately show ?case using found_visit [OF v] node_self by blast
qed


definition leaf :: "string \<Rightarrow> nat \<Rightarrow> nat \<Rightarrow> (string \<times> tree) list \<Rightarrow> tree" where
  "leaf kind a b cs = Tree \<lparr>ni_kind = kind, ni_span = \<lparr>StartByte = a, EndByte = b, StartRow = 0, StartCol = a, EndRow = 0, EndCol = b\<rparr>,
     ni_error = False, ni_missing = False, ni_has_error = False\<rparr> cs"

text \<open>A function with one pointer parameter and the statements of its body.\<close>

definition sample_function :: "nat \<Rightarrow> (string \<times> tree) list \<Rightarrow> tree" where
  "sample_function len body = leaf ''source_file'' 0 len [([], leaf ''function_declaration'' 0 len
     [(''name'', leaf ''identifier'' 5 6 []),
      (''parameters'', leaf ''parameter_list'' 6 12 [([], leaf ''parameter_declaration'' 7 11
         [(''name'', leaf ''identifier'' 7 8 []), (''type'', leaf ''pointer_type'' 9 11 [])])]),
      (''body'', leaf ''block'' 12 len body)])]"

definition sample_write :: "nat \<Rightarrow> string \<times> tree" where
  "sample_write a = ([], leaf ''assignment_statement'' a (a + 5) [(''left'', leaf ''expression_list'' a (a + 3)
     [([], leaf ''selector_expression'' a (a + 3) [(''operand'', leaf ''identifier'' a (a + 1) []),
        (''field'', leaf ''field_identifier'' (a + 2) (a + 3) [])])])])"

definition sample_source :: string where
  "sample_source = ''func f(c *C){c.N=1}''"

lemma sample_findings:
  "map (\<lambda>f. (sf_kind f, sf_name f, sf_evidence f))
     (snd (computeGoFeatures sample_source (RootNode (sample_function 19 [sample_write 13])))) = [(''mutates_input'', ''f:c'', ''c.N'')]"
  by code_simp


text \<open>
  A variable declaration gives its names one field each, of which only the first is read: the second
  name does not shadow the parameter, and a write to the new variable is reported as one to it.
\<close>

definition second_name_source :: string where
  "second_name_source = ''func f(c *C){var a,c=1,g();c.N=1}''"

lemma second_declared_name_is_missed:
  "let t = sample_function 33 [([], leaf ''var_declaration'' 13 26 [([], leaf ''var_spec'' 17 26
         [(''name'', leaf ''identifier'' 17 18 []), ([], leaf '','' 18 19 []), (''name'', leaf ''identifier'' 19 20 [])])]),
       sample_write 27] in
   map sf_name (snd (computeGoFeatures second_name_source (RootNode t))) = [''f:c'']"
  by code_simp

end
