(* ===== verification/GoComplexity.thy ===== *)
theory GoComplexity
  imports GoSyntax
begin

text \<open>
  The cognitive complexity of the functions of a Go file (pkg/semantics/go_cognitive_complexity*.go):
  the score of a body by a walk that carries the nesting depth, one record per function, method and
  function literal, and the aggregates of a file.
\<close>

section \<open>Cognitive complexity\<close>

definition goHasLabel :: "cursor \<Rightarrow> bool" where
  "goHasLabel n \<longleftrightarrow> list_ex (\<lambda>x. Kind x = ''label_name'') (children n)"

definition isGoDirectRecursion :: "string \<Rightarrow> string \<Rightarrow> cursor \<Rightarrow> bool" where
  "isGoDirectRecursion source funcName call \<longleftrightarrow>
     funcName \<noteq> [] \<and>
     (case ChildByFieldName ''function'' call of
        None \<Rightarrow> False
      | Some fn \<Rightarrow> Kind fn = ''identifier'' \<and> Utf8Text source fn = funcName)"

definition isGoBooleanBinary :: "string \<Rightarrow> cursor \<Rightarrow> bool" where
  "isGoBooleanBinary source n \<longleftrightarrow>
     Kind n = ''binary_expression'' \<and> (goBinaryOp source n = ''&&'' \<or> goBinaryOp source n = ''||'')"

function flattenGoBooleanOps :: "string \<Rightarrow> cursor \<Rightarrow> string list" where
  "flattenGoBooleanOps source n0 =
     (let n = unwrapGoParen n0 in
      if \<not> isGoBooleanBinary source n then []
      else (case ChildByFieldName ''left'' n of None \<Rightarrow> [] | Some l \<Rightarrow> flattenGoBooleanOps source l)
           @ goBinaryOp source n
           # (case ChildByFieldName ''right'' n of None \<Rightarrow> [] | Some r \<Rightarrow> flattenGoBooleanOps source r))"
  by pat_completeness auto

termination
proof (relation "measure (\<lambda>(s, n). extent n)")
  show "wf (measure (\<lambda>(s :: string, n). extent n))" by simp
qed (use unwrap_smaller field_smaller in \<open>fastforce dest: less_le_trans\<close>)+

declare flattenGoBooleanOps.simps [simp del]

fun operator_runs :: "string list \<Rightarrow> int" where
  "operator_runs [] = 0"
| "operator_runs [op] = 1"
| "operator_runs (a # b # ops) = (if a \<noteq> b then 1 else 0) + operator_runs (b # ops)"

definition countGoBooleanRuns :: "string \<Rightarrow> cursor \<Rightarrow> int" where
  "countGoBooleanRuns source n = operator_runs (flattenGoBooleanOps source n)"

text \<open>The parent of a node, parentheses left out.\<close>

fun outer_parent :: "tree list \<Rightarrow> cursor option" where
  "outer_parent [] = None"
| "outer_parent (p # ps) =
     (if Kind (Cursor p ps) = ''parenthesized_expression'' then outer_parent ps else Some (Cursor p ps))"

definition isTopmostGoBooleanBinary :: "string \<Rightarrow> cursor \<Rightarrow> bool" where
  "isTopmostGoBooleanBinary source n \<longleftrightarrow>
     (case outer_parent (cu_up n) of None \<Rightarrow> True | Some p \<Rightarrow> \<not> isGoBooleanBinary source p)"

text \<open>The score a walk adds: that of a subtree, and that of the rest of an else-if chain.\<close>

definition over :: "('a \<Rightarrow> int) \<Rightarrow> 'a option \<Rightarrow> int" where
  "over f x = (case x of None \<Rightarrow> 0 | Some v \<Rightarrow> f v)"

lemma over_cong [fundef_cong]: "x = y \<Longrightarrow> (\<And>v. y = Some v \<Longrightarrow> f v = g v) \<Longrightarrow> over f x = over g y"
  by (auto simp: over_def split: option.splits)

definition structural_kinds :: "string list" where
  "structural_kinds = [''for_statement'', ''expression_switch_statement'', ''type_switch_statement'', ''select_statement'']"

lemma extent_pos: "0 < extent c"
  by (cases "cu_tree c") simp

function cc_walk :: "string \<Rightarrow> string \<Rightarrow> int \<Rightarrow> cursor \<Rightarrow> int"
  and cc_alternatives :: "string \<Rightarrow> string \<Rightarrow> int \<Rightarrow> cursor option \<Rightarrow> int" where
  "cc_walk source funcName depth n =
     (if Kind n = ''if_statement''
      then 1 + depth
         + over (cc_walk source funcName (depth + 1)) (ChildByFieldName ''initializer'' n)
         + over (cc_walk source funcName (depth + 1)) (ChildByFieldName ''condition'' n)
         + over (cc_walk source funcName (depth + 1)) (ChildByFieldName ''consequence'' n)
         + cc_alternatives source funcName (depth + 1) (ChildByFieldName ''alternative'' n)
      else if Kind n \<in> set structural_kinds
      then 1 + depth + sum_list (map (cc_walk source funcName (depth + 1)) (children n))
      else if Kind n \<in> {''func_literal'', ''function_declaration'', ''method_declaration''}
      then over (cc_walk source funcName (depth + 1)) (ChildByFieldName ''body'' n)
      else if Kind n \<in> {''break_statement'', ''continue_statement''} then (if goHasLabel n then 1 else 0)
      else if Kind n = ''goto_statement'' then 1
      else (if Kind n = ''binary_expression'' \<and> isGoBooleanBinary source n \<and> isTopmostGoBooleanBinary source n
            then countGoBooleanRuns source n
            else if Kind n = ''call_expression'' \<and> isGoDirectRecursion source funcName n then 1 else 0)
           + sum_list (map (cc_walk source funcName depth) (children n)))"
| "cc_alternatives source funcName nest alt =
     (case alt of
        None \<Rightarrow> 0
      | Some a \<Rightarrow>
          if Kind a = ''if_statement''
          then 1 + over (cc_walk source funcName nest) (ChildByFieldName ''initializer'' a)
             + over (cc_walk source funcName nest) (ChildByFieldName ''condition'' a)
             + over (cc_walk source funcName nest) (ChildByFieldName ''consequence'' a)
             + cc_alternatives source funcName nest (ChildByFieldName ''alternative'' a)
          else 1 + cc_walk source funcName nest a)"
  by pat_completeness auto

termination
proof (relation "measure (\<lambda>x. case x of Inl (s, f, d, n) \<Rightarrow> 2 * extent n
    | Inr (s, f, d, a) \<Rightarrow> (case a of None \<Rightarrow> 0 | Some n \<Rightarrow> 2 * extent n + 1))", goal_cases)
  case 1
  show ?case by simp
qed (auto dest!: field_smaller children_smaller simp: extent_pos split: option.splits)

section \<open>The records of a file\<close>

definition goDeclName :: "string \<Rightarrow> cursor \<Rightarrow> string" where
  "goDeclName source decl = (case ChildByFieldName ''name'' decl of None \<Rightarrow> [] | Some n \<Rightarrow> Utf8Text source n)"

definition goFuncLitName :: "string \<Rightarrow> cursor \<Rightarrow> string" where
  "goFuncLitName source lit =
     (let p0 = Parent lit;
          p = (case p0 of Some q \<Rightarrow> if Kind q = ''expression_list'' then Parent q else p0 | None \<Rightarrow> None) in
      case p of
        None \<Rightarrow> ''<func lit>''
      | Some q \<Rightarrow>
          if Kind q \<in> {''short_var_declaration'', ''assignment_statement''}
          then (let leftID = singleIdentifierName source (ChildByFieldName ''left'' q) in
                if leftID = [] \<or> \<not> expressionListIsSingleNode (ChildByFieldName ''right'' q) lit then ''<func lit>'' else leftID)
          else ''<func lit>'')"

record cc_target =
  ct_node :: cursor
  ct_name :: string
  ct_kind :: string

definition target_at :: "string \<Rightarrow> cursor \<Rightarrow> cc_target list" where
  "target_at source n =
     (if Kind n = ''function_declaration'' then [\<lparr>ct_node = n, ct_name = goDeclName source n, ct_kind = ''function''\<rparr>]
      else if Kind n = ''method_declaration'' then [\<lparr>ct_node = n, ct_name = goDeclName source n, ct_kind = ''method''\<rparr>]
      else if Kind n = ''func_literal'' then [\<lparr>ct_node = n, ct_name = goFuncLitName source n, ct_kind = ''func_lit''\<rparr>]
      else [])"

lemma children_total: "sum_list (map extent (children n)) < extent n"
proof -
  obtain i cs where t: "cu_tree n = Tree i cs" by (cases "cu_tree n")
  have "sum_list (map extent (children n)) = sum_list (map (\<lambda>ft. size (snd ft)) cs)"
    by (simp add: children_def t below_def o_def)
  also have "\<dots> \<le> sum_list (map (size_prod (\<lambda>_. 0) size) cs)"
    by (rule sum_list_mono) (auto split: prod.splits)
  finally show ?thesis by (simp add: t size_list_conv_sum_list)
qed

text \<open>The depth-first search with an explicit stack, its top first.\<close>

function collectGoCCTargets :: "string \<Rightarrow> cursor list \<Rightarrow> cc_target list" where
  "collectGoCCTargets source [] = []"
| "collectGoCCTargets source (n # stack) = target_at source n @ collectGoCCTargets source (children n @ stack)"
  by pat_completeness auto

termination
  by (relation "measure (\<lambda>(s, st). sum_list (map extent st))") (use children_total in auto)

declare collectGoCCTargets.simps(2) [simp del]

definition record_of :: "string \<Rightarrow> cc_target \<Rightarrow> function_complexity" where
  "record_of source t =
     \<lparr>fn_name = ct_name t, fn_kind = ct_kind t, fn_location = locationFromNode (ct_node t),
      Score = over (cc_walk source (ct_name t) 0) (ChildByFieldName ''body'' (ct_node t))\<rparr>"

definition record_order :: "function_complexity \<Rightarrow> function_complexity \<Rightarrow> int" where
  "record_order a b = cmp_or [cmp_compare (StartByte (fn_location a)) (StartByte (fn_location b)), cmp_compare (fn_name a) (fn_name b)]"

definition computeGoCognitiveComplexity :: "string \<Rightarrow> cursor \<Rightarrow> function_complexity list" where
  "computeGoCognitiveComplexity source n = stable_sort record_order (map (record_of source) (collectGoCCTargets source [n]))"

text \<open>The sum counts functions and methods, or the records a flag selects.\<close>

definition included :: "bool list option \<Rightarrow> nat \<Rightarrow> function_complexity \<Rightarrow> bool" where
  "included topLevel i r =
     (case topLevel of None \<Rightarrow> fn_kind r = ''function'' \<or> fn_kind r = ''method''
      | Some flags \<Rightarrow> i < length flags \<and> flags ! i)"

fun aggregate :: "bool list option \<Rightarrow> nat \<Rightarrow> function_complexity list \<Rightarrow> int \<times> int \<Rightarrow> int \<times> int" where
  "aggregate topLevel i [] acc = acc"
| "aggregate topLevel i (r # rs) (m, s) =
     aggregate topLevel (i + 1) rs (if Score r > m then Score r else m, if included topLevel i r then s + Score r else s)"

definition applyCognitiveComplexityAggregates ::
  "structural_metrics \<Rightarrow> function_complexity list \<Rightarrow> bool list option \<Rightarrow> structural_metrics" where
  "applyCognitiveComplexityAggregates ms rs topLevel =
     (let (m, s) = aggregate topLevel 0 rs (0, 0) in
      ms\<lparr>MaxCognitiveComplexity := m, SumCognitiveComplexity := s\<rparr>)"

section \<open>A score is linear in the depth\<close>

definition affine :: "(int \<Rightarrow> int) \<Rightarrow> bool" where
  "affine g \<longleftrightarrow> (\<exists>a m. 0 \<le> a \<and> 0 \<le> m \<and> (\<forall>d. g d = a + d * m))"

lemma affine_const: "0 \<le> a \<Longrightarrow> affine (\<lambda>d. a)"
  unfolding affine_def by (rule exI [of _ a], rule exI [of _ 0]) simp

lemma affine_one: "affine (\<lambda>d. 1 + d)"
  unfolding affine_def by (rule exI [of _ 1], rule exI [of _ 1]) simp

lemma affine_add:
  assumes "affine g" "affine h"
  shows "affine (\<lambda>d. g d + h d)"
proof -
  obtain a m b n where "0 \<le> a" "0 \<le> m" "\<forall>d. g d = a + d * m" "0 \<le> b" "0 \<le> n" "\<forall>d. h d = b + d * n"
    using assms unfolding affine_def by blast
  then show ?thesis
    unfolding affine_def by (intro exI [of _ "a + b"] exI [of _ "m + n"]) (simp add: algebra_simps)
qed

lemma affine_shift: "affine g \<Longrightarrow> affine (\<lambda>d. g (d + 1))"
proof -
  assume "affine g"
  then obtain a m where "0 \<le> a" "0 \<le> m" "\<forall>d. g d = a + d * m" unfolding affine_def by blast
  then show ?thesis unfolding affine_def by (intro exI [of _ "a + m"] exI [of _ m]) (simp add: algebra_simps)
qed

lemma affine_sum: "(\<And>x. x \<in> set xs \<Longrightarrow> affine (\<lambda>d. g d x)) \<Longrightarrow> affine (\<lambda>d. sum_list (map (g d) xs))"
proof (induction xs)
  case Nil
  show ?case using affine_const [of 0] by simp
next
  case (Cons x xs)
  then show ?case using affine_add [of "\<lambda>d. g d x"] by simp
qed

lemma affine_over: "(\<And>v. x = Some v \<Longrightarrow> affine (\<lambda>d. g d v)) \<Longrightarrow> affine (\<lambda>d. over (g d) x)"
  by (cases x) (auto simp: over_def affine_const)

lemma affine_alternatives:
  assumes "\<And>x. extent x \<le> N \<Longrightarrow> affine (\<lambda>d. cc_walk s f d x)"
  shows "extent a \<le> N \<Longrightarrow> affine (\<lambda>d. cc_alternatives s f d (Some a))"
proof (induction "extent a" arbitrary: a rule: less_induct)
  case less
  show ?case
  proof (cases "Kind a = ''if_statement''")
    case False
    then have "(\<lambda>d. cc_alternatives s f d (Some a)) = (\<lambda>d. 1 + cc_walk s f d a)"
      by (subst cc_alternatives.simps) simp
    then show ?thesis using affine_add [OF affine_const [of 1] assms [OF less.prems]] by simp
  next
    case True
    have fld: "affine (\<lambda>d. over (cc_walk s f d) (ChildByFieldName k a))" for k
      by (rule affine_over) (use assms field_smaller [of k a] less.prems in fastforce)
    have alt: "affine (\<lambda>d. cc_alternatives s f d (ChildByFieldName ''alternative'' a))"
    proof (cases "ChildByFieldName ''alternative'' a")
      case None
      then show ?thesis by (simp add: affine_const)
    next
      case (Some b)
      then show ?thesis using less field_smaller [OF Some] by simp
    qed
    have "(\<lambda>d. cc_alternatives s f d (Some a)) = (\<lambda>d. 1 + over (cc_walk s f d) (ChildByFieldName ''initializer'' a)
        + over (cc_walk s f d) (ChildByFieldName ''condition'' a) + over (cc_walk s f d) (ChildByFieldName ''consequence'' a)
        + cc_alternatives s f d (ChildByFieldName ''alternative'' a))"
      using True by (subst cc_alternatives.simps) simp
    then show ?thesis using fld alt by (simp only:) (intro affine_add affine_const; simp)
  qed
qed

lemma runs_nonneg: "0 \<le> operator_runs ops"
  by (induction ops rule: operator_runs.induct) auto

lemma affine_walk: "affine (\<lambda>d. cc_walk s f d n)"
proof (induction "extent n" arbitrary: n rule: less_induct)
  case less
  have fld: "affine (\<lambda>d. over (cc_walk s f d) (ChildByFieldName k n))" for k
    by (rule affine_over) (use less field_smaller [of k n] in blast)
  have kids: "affine (\<lambda>d. sum_list (map (cc_walk s f d) (children n)))"
    by (rule affine_sum) (use less children_smaller in blast)
  have alt: "affine (\<lambda>d. cc_alternatives s f d (ChildByFieldName ''alternative'' n))"
  proof (cases "ChildByFieldName ''alternative'' n")
    case None
    then show ?thesis by (simp add: affine_const)
  next
    case (Some a)
    have "affine (\<lambda>d. cc_walk s f d x)" if "extent x \<le> extent a" for x
      using less [of x] field_smaller [OF Some] that by simp
    then show ?thesis using affine_alternatives [of "extent a" s f a] Some by simp
  qed
  let ?own = "if Kind n = ''binary_expression'' \<and> isGoBooleanBinary s n \<and> isTopmostGoBooleanBinary s n
      then countGoBooleanRuns s n else if Kind n = ''call_expression'' \<and> isGoDirectRecursion s f n then 1 else 0"
  have own: "0 \<le> ?own" using runs_nonneg by (simp add: countGoBooleanRuns_def)
  consider (branch) "Kind n = ''if_statement''"
    | (loop) "Kind n \<noteq> ''if_statement''" "Kind n \<in> set structural_kinds"
    | (func) "Kind n \<in> {''func_literal'', ''function_declaration'', ''method_declaration''}"
    | (jump) "Kind n \<in> {''break_statement'', ''continue_statement''}"
    | (goto) "Kind n = ''goto_statement''"
    | (other) "Kind n \<notin> set structural_kinds \<union> {''if_statement'', ''func_literal'', ''function_declaration'',
        ''method_declaration'', ''break_statement'', ''continue_statement'', ''goto_statement''}" by blast
  then show ?case
  proof cases
    case branch
    then have "(\<lambda>d. cc_walk s f d n) = (\<lambda>d. 1 + d
        + over (cc_walk s f (d + 1)) (ChildByFieldName ''initializer'' n)
        + over (cc_walk s f (d + 1)) (ChildByFieldName ''condition'' n)
        + over (cc_walk s f (d + 1)) (ChildByFieldName ''consequence'' n)
        + cc_alternatives s f (d + 1) (ChildByFieldName ''alternative'' n))"
      by (subst cc_walk.simps) simp
    moreover have "affine \<dots>"
      by (rule affine_add [OF affine_add [OF affine_add [OF affine_add [OF affine_one affine_shift [OF fld]]
            affine_shift [OF fld]] affine_shift [OF fld]] affine_shift [OF alt]])
    ultimately show ?thesis by (simp only:)
  next
    case loop
    then have "(\<lambda>d. cc_walk s f d n) = (\<lambda>d. 1 + d + sum_list (map (cc_walk s f (d + 1)) (children n)))"
      by (subst cc_walk.simps) simp
    then show ?thesis using affine_add [OF affine_one affine_shift [OF kids]] by simp
  next
    case func
    then have "(\<lambda>d. cc_walk s f d n) = (\<lambda>d. over (cc_walk s f (d + 1)) (ChildByFieldName ''body'' n))"
      by (subst cc_walk.simps) (auto simp: structural_kinds_def)
    then show ?thesis using affine_shift [OF fld] by simp
  next
    case jump
    then have "(\<lambda>d. cc_walk s f d n) = (\<lambda>d. if goHasLabel n then 1 else 0)"
      by (subst cc_walk.simps) (auto simp: structural_kinds_def)
    then show ?thesis by (simp add: affine_const)
  next
    case goto
    then have "(\<lambda>d. cc_walk s f d n) = (\<lambda>d. 1)"
      by (subst cc_walk.simps) (auto simp: structural_kinds_def)
    then show ?thesis by (simp add: affine_const)
  next
    case other
    then have "(\<lambda>d. cc_walk s f d n) = (\<lambda>d. ?own + sum_list (map (cc_walk s f d) (children n)))"
      by (subst cc_walk.simps) simp
    then show ?thesis using affine_add [OF affine_const [OF own] kids] by simp
  qed
qed

section \<open>Every function has its record\<close>

definition function_kinds :: "string list" where
  "function_kinds = [''function_declaration'', ''method_declaration'', ''func_literal'']"

lemma targets_in_order: "collectGoCCTargets s stack = concat (map (target_at s) (concat (map nodes stack)))"
proof (induction s stack rule: collectGoCCTargets.induct)
  case (2 s n stack)
  then show ?case by (simp add: collectGoCCTargets.simps(2) nodes.simps [of n])
qed simp

lemma affine_nonneg: "affine g \<Longrightarrow> 0 \<le> d \<Longrightarrow> 0 \<le> g d"
  by (auto simp: affine_def)

lemma score_nonneg: "0 \<le> Score (record_of s t)"
  using affine_nonneg [OF affine_walk, of 0] by (auto simp: record_of_def over_def split: option.splits)

lemma aggregate_max:
  "fst (aggregate flags i rs (m, a)) = foldl max m (map Score rs)"
  by (induction rs arbitrary: i m a) (auto simp: max_def)

lemma foldl_max_set: "foldl max m xs = Max (insert (m :: int) (set xs))"
proof (induction xs arbitrary: m)
  case (Cons x xs)
  have "Max (insert (max m x) (set xs)) = Max (insert m (insert x (set xs)))"
    by (cases "set xs = {}") (auto simp: max.assoc)
  then show ?case using Cons by simp
qed simp

lemma aggregate_sum:
  "snd (aggregate None i rs (m, a)) = a + sum_list (map Score (filter (\<lambda>r. fn_kind r \<in> {''function'', ''method''}) rs))"
  by (induction rs arbitrary: i m a) (auto simp: included_def)

interpretation by_record: comparison record_order
proof
  show "record_order x y \<le> 0 \<or> record_order y x \<le> 0" for x y
    by (simp add: record_order_def cmp_compare_def)
  show "record_order x y \<le> 0 \<Longrightarrow> record_order y z \<le> 0 \<Longrightarrow> record_order x z \<le> 0" for x y z
    by (auto simp: record_order_def cmp_compare_def split: if_splits)
qed


end
