(* ===== verification/SourceAnalysis.thy ===== *)
theory SourceAnalysis
  imports GoComplexity
begin

text \<open>
  The analysis of one file (pkg/semantics: analyzer.go, analyzer_options.go, validate.go, parser.go,
  errors.go, language.go): preconditions, parsing, syntax issues, then the extraction of the
  language. A language is its grammar -- a parser and a query engine of a library -- and its
  extraction; that of Go is the one of GoSyntax and GoComplexity.
\<close>

section \<open>Errors\<close>

text \<open>What errors.Is sees of an error, and its text.\<close>

datatype sentinel = ErrEmptyContent | ErrUnsupportedLanguage | ErrSyntax "syntax_issue list" | ErrFileTooLarge
  | ErrBinaryContent | ErrParseFailure | NoSentinel

type_synonym analysis_error = "sentinel \<times> string"

fun is_syntax_error :: "analysis_error \<Rightarrow> bool" where
  "is_syntax_error (ErrSyntax issues, t) = True"
| "is_syntax_error _ = False"

definition syntax_error :: "syntax_issue list \<Rightarrow> analysis_error" where
  "syntax_error issues = (ErrSyntax issues, ''semantics: '' @ itoa (int (length issues)) @ '' syntax issue(s)'')"

section \<open>Languages\<close>

text \<open>
  A parser may fail or return no tree. The extraction gives the imports, the metrics and findings,
  the complexity records with the flags of those a sum counts, and the component facts.
\<close>

record language_spec =
  ls_new_parser :: "string option"
  ls_parse :: "string \<Rightarrow> string + tree option"
  ls_imports :: "string \<Rightarrow> cursor \<Rightarrow> string + import_feature list"
  ls_features :: "string \<Rightarrow> cursor \<Rightarrow> structural_metrics \<times> semantic_finding list"
  ls_cognitive :: "string \<Rightarrow> cursor \<Rightarrow> function_complexity list \<times> bool list option"
  ls_react :: "string \<Rightarrow> cursor \<Rightarrow> react_component list"

definition go_language ::
  "(nat \<Rightarrow> bool) \<Rightarrow> string option \<Rightarrow> (string \<Rightarrow> string + tree option) \<Rightarrow> query_engine \<Rightarrow> language_spec" where
  "go_language pr new_parser parse query =
     \<lparr>ls_new_parser = new_parser, ls_parse = parse, ls_imports = extractGoImports pr query,
      ls_features = computeGoFeatures, ls_cognitive = (\<lambda>source n. (computeGoCognitiveComplexity source n, None)),
      ls_react = (\<lambda>_ _. [])\<rparr>"

type_synonym language_registry = "string \<Rightarrow> language_spec option"

section \<open>The analyzer\<close>

record analyzer =
  an_maxFileBytes :: int
  an_languages :: "string list"

definition defaultMaxFileBytes :: int where
  "defaultMaxFileBytes = 2097152"

definition unsupported :: "(nat \<Rightarrow> bool) \<Rightarrow> string \<Rightarrow> analysis_error" where
  "unsupported pr lang = (ErrUnsupportedLanguage, ''semantics: unsupported language: '' @ quote_go pr lang)"

definition NewAnalyzer :: "(nat \<Rightarrow> bool) \<Rightarrow> language_registry \<Rightarrow> string list \<Rightarrow> int \<Rightarrow> analysis_error + analyzer" where
  "NewAnalyzer pr registry langs maxFileBytes =
     (if maxFileBytes < 0 then Inl (NoSentinel, ''semantics: MaxFileBytes must be >= 0, got '' @ itoa maxFileBytes)
      else (case find (\<lambda>l. registry l = None) langs of
              Some l \<Rightarrow> Inl (unsupported pr l)
            | None \<Rightarrow> Inr \<lparr>an_maxFileBytes = maxFileBytes, an_languages = langs\<rparr>))"

record file_input =
  fl_Path :: string
  fl_Language :: string
  fl_Content :: string

text \<open>The state of the context at a check: None while it is not done.\<close>

definition validate :: "(nat \<Rightarrow> bool) \<Rightarrow> language_registry \<Rightarrow> string option \<Rightarrow> analyzer \<Rightarrow> file_input \<Rightarrow> analysis_error option" where
  "validate pr registry done_ctx an inp =
     (case done_ctx of
        Some e \<Rightarrow> Some (NoSentinel, e)
      | None \<Rightarrow>
          if fl_Content inp = [] then Some (ErrEmptyContent, ''semantics: empty content'')
          else if registry (fl_Language inp) = None then Some (unsupported pr (fl_Language inp))
          else if an_languages an \<noteq> [] \<and> fl_Language inp \<notin> set (an_languages an) then Some (unsupported pr (fl_Language inp))
          else (let limit = (if an_maxFileBytes an \<le> 0 then defaultMaxFileBytes else an_maxFileBytes an) in
                if int (length (fl_Content inp)) > limit
                then Some (ErrFileTooLarge, ''semantics: file too large: content is '' @ itoa (int (length (fl_Content inp)))
                             @ '' bytes, exceeds max '' @ itoa limit @ '' bytes'')
                else if CHR 0x00 \<in> set (fl_Content inp) then Some (ErrBinaryContent, ''semantics: binary content'')
                else None))"

definition parse_failure :: "string \<Rightarrow> analysis_error" where
  "parse_failure e = (ErrParseFailure, ''semantics: parse failure: '' @ e)"

definition parse :: "(nat \<Rightarrow> bool) \<Rightarrow> language_registry \<Rightarrow> string option \<Rightarrow> file_input \<Rightarrow> analysis_error + tree" where
  "parse pr registry done_ctx inp =
     (case done_ctx of
        Some e \<Rightarrow> Inl (NoSentinel, e)
      | None \<Rightarrow>
     (case registry (fl_Language inp) of
        None \<Rightarrow> Inl (parse_failure (quote_go pr (fl_Language inp) @ '' has no registered grammar''))
      | Some spec \<Rightarrow>
     (case ls_new_parser spec of
        Some e \<Rightarrow> Inl (parse_failure e)
      | None \<Rightarrow>
     (case ls_parse spec (fl_Content inp) of
        Inl e \<Rightarrow> Inl (parse_failure e)
      | Inr None \<Rightarrow> Inl (parse_failure ''Parse returned a nil tree'')
      | Inr (Some t) \<Rightarrow> Inr t))))"

definition empty_result :: "file_input \<Rightarrow> string \<Rightarrow> sem_result" where
  "empty_result inp status =
     \<lparr>re_path = fl_Path inp, re_language = fl_Language inp, ParseStatus = status, SyntaxErrors = [], Imports = [],
      Metrics = zero_metrics, Findings = [], CognitiveComplexity = [], ReactComponents = []\<rparr>"

definition syntax_result :: "file_input \<Rightarrow> syntax_issue list \<Rightarrow> sem_result option \<times> analysis_error option" where
  "syntax_result inp issues =
     (Some ((empty_result inp ''syntax_errors'')\<lparr>SyntaxErrors := issues\<rparr>), Some (syntax_error issues))"

text \<open>The extraction of a tree without syntax errors.\<close>

definition extract_features :: "language_registry \<Rightarrow> file_input \<Rightarrow> cursor \<Rightarrow> sem_result option \<times> analysis_error option" where
  "extract_features registry inp n =
     (case registry (fl_Language inp) of
        None \<Rightarrow> (None, None)
      | Some spec \<Rightarrow>
          (case ls_imports spec (fl_Content inp) n of
             Inl e \<Rightarrow> (None, Some (NoSentinel, e))
           | Inr imports \<Rightarrow>
               (let (metrics, findings) = ls_features spec (fl_Content inp) n;
                    (records, topLevel) = ls_cognitive spec (fl_Content inp) n
                in (Some ((empty_result inp ''ok'')
                     \<lparr>Imports := imports, Metrics := applyCognitiveComplexityAggregates metrics records topLevel,
                      Findings := findings, CognitiveComplexity := records,
                      ReactComponents := ls_react spec (fl_Content inp) n\<rparr>), None))))"

text \<open>The context is asked three times: before anything, before and after parsing.\<close>

definition AnalyzeBytes ::
  "(nat \<Rightarrow> bool) \<Rightarrow> language_registry \<Rightarrow> (nat \<Rightarrow> string option) \<Rightarrow> analyzer \<Rightarrow> file_input
     \<Rightarrow> sem_result option \<times> analysis_error option" where
  "AnalyzeBytes pr registry ctx an inp =
     (case validate pr registry (ctx 0) an inp of
        Some e \<Rightarrow> (None, Some e)
      | None \<Rightarrow>
     (case parse pr registry (ctx 1) inp of
        Inl e \<Rightarrow> (None, Some e)
      | Inr t \<Rightarrow>
          let n = RootNode t in
          if HasError n then syntax_result inp (collectSyntaxIssues n)
          else (case ctx 2 of
                  Some e \<Rightarrow> (None, Some (NoSentinel, e))
                | None \<Rightarrow>
                    let issues = (if fl_Language inp \<in> {LanguageTypeScript, LanguageTSX} then detectTSBareStatementTokens n else [])
                    in if issues \<noteq> [] then syntax_result inp issues else extract_features registry inp n)))"

section \<open>What callers rely on\<close>

text \<open>A missing result comes with an error that is not one of syntax; so does no other.\<close>

lemma extract_shape:
  assumes "registry (fl_Language inp) \<noteq> None" "extract_features registry inp n = (r, e)"
  shows "r = None \<and> (\<exists>t. e = Some (NoSentinel, t)) \<or> (\<exists>x. r = Some x \<and> ParseStatus x = ''ok'' \<and> SyntaxErrors x = []
    \<and> re_path x = fl_Path inp \<and> re_language x = fl_Language inp) \<and> e = None"
  using assms by (auto simp: extract_features_def empty_result_def Let_def split: sum.splits prod.splits)

lemma parsed_registered: "parse pr registry d inp = Inr t \<Longrightarrow> registry (fl_Language inp) \<noteq> None"
  by (auto simp: parse_def split: option.splits)

lemma analysis_shape:
  assumes "AnalyzeBytes pr registry ctx an inp = (r, e)"
  shows "r = None \<and> (\<exists>x. e = Some x \<and> \<not> is_syntax_error x)
    \<or> (\<exists>x issues. r = Some x \<and> e = Some (syntax_error issues) \<and> x = (empty_result inp ''syntax_errors'')\<lparr>SyntaxErrors := issues\<rparr>)
    \<or> (\<exists>x. r = Some x \<and> e = None \<and> ParseStatus x = ''ok'' \<and> SyntaxErrors x = [] \<and> re_path x = fl_Path inp
         \<and> re_language x = fl_Language inp)"
proof (cases "validate pr registry (ctx 0) an inp")
  case (Some v)
  then have "\<not> is_syntax_error v"
    by (auto simp: validate_def unsupported_def Let_def split: option.splits if_splits)
  moreover have "r = None" "e = Some v" using assms Some by (auto simp: AnalyzeBytes_def)
  ultimately show ?thesis by blast
next
  case None
  show ?thesis
  proof (cases "parse pr registry (ctx 1) inp")
    case (Inl p)
    then have "\<not> is_syntax_error p"
      by (auto simp: parse_def parse_failure_def split: option.splits sum.splits)
    moreover have "r = None" "e = Some p" using assms None Inl by (auto simp: AnalyzeBytes_def)
    ultimately show ?thesis by blast
  next
    case (Inr t)
    note reg = parsed_registered [OF Inr]
    show ?thesis
      using assms None Inr extract_shape [of registry inp "RootNode t" r e, OF reg]
      by (auto simp: AnalyzeBytes_def syntax_result_def Let_def split: if_splits option.splits)
  qed
qed

lemma syntax_error_is: "is_syntax_error (syntax_error issues)"
  by (simp add: syntax_error_def)


definition sample_registry :: "tree \<Rightarrow> language_registry" where
  "sample_registry t lang =
     (if lang = ''go'' then Some (go_language (\<lambda>_. True) None (\<lambda>_. Inr (Some t)) (\<lambda>_. Inr (\<lambda>_ _. []))) else None)"

definition sample_go_file :: file_input where
  "sample_go_file = \<lparr>fl_Path = ''f.go'', fl_Language = ''go'', fl_Content = sample_source\<rparr>"

definition sample_go_tree :: tree where
  "sample_go_tree = sample_function 19 [sample_write 13]"

lemma sample_go_input: "fl_Language sample_go_file = ''go''"
  by (simp add: sample_go_file_def)

lemma sample_analysis:
  "\<exists>r. AnalyzeBytes (\<lambda>_. True) (sample_registry sample_go_tree) (\<lambda>_. None)
     \<lparr>an_maxFileBytes = 0, an_languages = []\<rparr> sample_go_file = (Some r, None)"
proof -
  have "extractGoImports (\<lambda>_. True) (\<lambda>_. Inr (\<lambda>_ _. [])) sample_source (RootNode sample_go_tree) = Inr []"
    by (simp add: extractGoImports_def)
  moreover have "\<not> HasError (RootNode sample_go_tree)" by code_simp
  ultimately show ?thesis
    by (simp add: AnalyzeBytes_def validate_def parse_def extract_features_def sample_registry_def sample_go_file_def go_language_def
        defaultMaxFileBytes_def LanguageTypeScript_def LanguageTSX_def case_prod_beta Let_def sample_source_def)
qed


end
