(* ===== verification/LocalScan.thy ===== *)
theory LocalScan
  imports ProjectConfig SourceAnalysis
begin

text \<open>
  The scan behind the codesignal command (internal/codesignalcli: analyze_changes.go,
  analyze_changed_file.go, analyze_removed_file.go, analyze_baseline.go, changed_ranges*.go,
  project_analysis.go, worktree_*.go and the relevance test of projectcheck): the files of a diff or
  of a revision are read from git, analyzed and handed, with the observations of a project backend,
  to the report builder of SignalReport.

  The environment holds the git processes, the languages, the project backend behind its interface,
  the JSON parser of the policy, the status of the work tree and the context.
\<close>

section \<open>Changed ranges\<close>

definition digit :: "char \<Rightarrow> bool" where
  "digit ch \<longleftrightarrow> 48 \<le> (of_char ch :: nat) \<and> (of_char ch :: nat) \<le> 57"

text \<open>One or more digits, as many as there are.\<close>

definition digits :: "string \<Rightarrow> (string \<times> string) option" where
  "digits s = (let ds = takeWhile digit s in if ds = [] then None else Some (ds, drop (length ds) s))"

text \<open>An optional comma and digits.\<close>

definition optional_count :: "string \<Rightarrow> string \<times> string" where
  "optional_count s =
     (case s of
        ch # rest \<Rightarrow> if ch = CHR '','' then (case digits rest of Some (ds, r) \<Rightarrow> (ds, r) | None \<Rightarrow> ([], s)) else ([], s)
      | [] \<Rightarrow> ([], s))"

text \<open>\<open>^@@ -\d+(?:,\d+)? \+(\d+)(?:,(\d+))? @@\<close>: the new start and the new count.\<close>

definition hunk_match :: "string \<Rightarrow> (string \<times> string) option" where
  "hunk_match line = do {
     s1 \<leftarrow> cut_prefix ''@@ -'' line;
     (_, s2) \<leftarrow> digits s1;
     s4 \<leftarrow> cut_prefix '' +'' (snd (optional_count s2));
     (start, s5) \<leftarrow> digits s4;
     (case optional_count s5 of
        (cnt, s6) \<Rightarrow> (case cut_prefix '' @@'' s6 of None \<Rightarrow> None | Some _ \<Rightarrow> Some (start, cnt)))
   }"

definition as_uint :: "int \<Rightarrow> nat" where
  "as_uint n = nat (n mod 2 ^ 64)"

text \<open>An error, no range for an empty count, or the rows of the new lines.\<close>

definition parseHunkHeaderRange :: "(nat \<Rightarrow> bool) \<Rightarrow> string \<Rightarrow> string + line_range option" where
  "parseHunkHeaderRange pr line =
     (case hunk_match line of
        None \<Rightarrow> Inl (''unparsable hunk header: '' @ quote_go pr line)
      | Some (start, cnt) \<Rightarrow>
     (case atoi start of
        None \<Rightarrow> Inl (''invalid hunk new-start in '' @ quote_go pr line @ '': strconv.Atoi: parsing '' @ quote_go pr start
                  @ '': value out of range'')
      | Some newStart \<Rightarrow>
     (case (if cnt = [] then Some 1 else atoi cnt) of
        None \<Rightarrow> Inl (''invalid hunk new-count in '' @ quote_go pr line @ '': strconv.Atoi: parsing '' @ quote_go pr cnt
                  @ '': value out of range'')
      | Some newCount \<Rightarrow>
          if newCount = 0 then Inr None
          else Inr (Some \<lparr>lr_start = as_uint (newStart - 1), lr_end = as_uint (newStart + newCount - 2)\<rparr>))))"

text \<open>The lines a scanner yields: without the last, empty one, and without a carriage return at the end.\<close>

definition scan_lines :: "string \<Rightarrow> string list" where
  "scan_lines s = (let ls = split_at (CHR 0x0A) s [] in if last ls = [] then butlast ls else ls)"

definition drop_cr :: "string \<Rightarrow> string" where
  "drop_cr l = (if l \<noteq> [] \<and> last l = CHR 0x0D then butlast l else l)"

definition max_line :: nat where "max_line = 16777216"

fun ranges_of_lines :: "(nat \<Rightarrow> bool) \<Rightarrow> string list \<Rightarrow> string + line_range list" where
  "ranges_of_lines pr [] = Inr []"
| "ranges_of_lines pr (raw # ls) =
     (if length raw \<ge> max_line then Inl ''bufio.Scanner: token too long''
      else (let line = drop_cr raw in
            if \<not> has_prefix line ''@@ '' then ranges_of_lines pr ls
            else (case parseHunkHeaderRange pr line of
                    Inl e \<Rightarrow> Inl e
                  | Inr r \<Rightarrow>
                      (case ranges_of_lines pr ls of
                         Inl e \<Rightarrow> Inl e
                       | Inr rs \<Rightarrow> Inr ((case r of None \<Rightarrow> [] | Some x \<Rightarrow> [x]) @ rs)))))"

definition parseChangedRanges :: "(nat \<Rightarrow> bool) \<Rightarrow> string \<Rightarrow> string + line_range list" where
  "parseChangedRanges pr diff = ranges_of_lines pr (scan_lines diff)"

definition computeChangedRanges ::
  "(nat \<Rightarrow> bool) \<Rightarrow> git_process \<Rightarrow> string \<Rightarrow> string \<Rightarrow> string \<Rightarrow> diagnostic + line_range list" where
  "computeChangedRanges pr child dir mergeBaseSHA path =
     (case RunBytes child dir [''diff'', ''--unified=0'', ''--no-ext-diff'', mergeBaseSHA, ''HEAD'', ''--'', path] of
        Inl e \<Rightarrow> Inl (file_diagnostic path ''diff_analysis_failed''
                   (''computing changed ranges for '' @ quote_go pr path @ '': '' @ git_text e))
      | Inr output \<Rightarrow>
          (case parseChangedRanges pr output of
             Inl e \<Rightarrow> Inl (file_diagnostic path ''diff_analysis_failed'' (''parsing diff for '' @ quote_go pr path @ '': '' @ e))
           | Inr ranges \<Rightarrow> Inr ranges))"

section \<open>The state of the work tree\<close>

definition worktreeDisclosureSampleLimit :: nat where "worktreeDisclosureSampleLimit = 5"

definition worktreeDisclosureDiagnostic :: "string \<Rightarrow> string \<Rightarrow> diagnostic" where
  "worktreeDisclosureDiagnostic kind message = file_diagnostic [] kind message"

definition worktreeStatusFailureDiagnostic :: "string \<Rightarrow> diagnostic" where
  "worktreeStatusFailureDiagnostic err =
     worktreeDisclosureDiagnostic ''worktree_status_check_failed'' (''working tree status check failed: '' @ err)"

definition ellipsis :: string where
  "ellipsis = '', '' @ [CHR 0xE2, CHR 0x80, CHR 0xA6]"

definition worktreePathSample :: "string list \<Rightarrow> string \<times> bool" where
  "worktreePathSample paths =
     (if length paths \<le> worktreeDisclosureSampleLimit then (join_with '', '' paths, False)
      else (join_with '', '' (take worktreeDisclosureSampleLimit paths), True))"

definition supportedWorktreeMessage :: "string \<Rightarrow> string list \<Rightarrow> string" where
  "supportedWorktreeMessage classification paths =
     (let (noun, verb) = (if length paths = 1 then (''file'', ''was'') else (''files'', ''were''));
          (sample, truncated) = worktreePathSample paths in
      itoa (int (length paths)) @ '' '' @ classification @ '' '' @ noun @ '' '' @ verb @ '' not analyzed: '' @ sample
      @ (if truncated then ellipsis else []))"

definition worktreeNotCleanMessage :: "string list \<Rightarrow> string" where
  "worktreeNotCleanMessage paths =
     (let (sample, truncated) = worktreePathSample paths in
      ''working tree is not clean: '' @ sample @ (if truncated then ellipsis else []))"

definition supportedWorktreePath :: "string \<Rightarrow> bool" where
  "supportedWorktreePath path \<longleftrightarrow> LanguageForExtension (path_ext path) \<noteq> None"

record worktree_paths =
  wp_untracked :: "string list"
  wp_staged :: "string list"
  wp_modified :: "string list"
  wp_unmerged :: "string list"
  wp_unsupported :: "string list"

definition appendSupported :: "worktree_paths \<Rightarrow> string \<Rightarrow> worktree_class \<Rightarrow> worktree_paths" where
  "appendSupported s path k =
     \<lparr>wp_untracked = wp_untracked s @ (if wc_untracked k then [path] else []),
      wp_staged = wp_staged s @ (if wc_staged k then [path] else []),
      wp_modified = wp_modified s @ (if wc_modified k then [path] else []),
      wp_unmerged = wp_unmerged s @ (if wc_unmerged k then [path] else []),
      wp_unsupported = wp_unsupported s\<rparr>"

definition add_entry :: "worktree_paths \<Rightarrow> worktree_entry \<Rightarrow> worktree_paths" where
  "add_entry s e =
     (let k = ClassifyWorktreeStatus (we_Code e) in
      if we_Path e = [] then s
      else if k = no_class then s
      else if \<not> supportedWorktreePath (we_Path e) then s\<lparr>wp_unsupported := wp_unsupported s @ [we_Path e]\<rparr>
      else appendSupported s (we_Path e) k)"

definition collectWorktreePaths :: "worktree_entry list \<Rightarrow> worktree_paths" where
  "collectWorktreePaths entries =
     foldl add_entry \<lparr>wp_untracked = [], wp_staged = [], wp_modified = [], wp_unmerged = [], wp_unsupported = []\<rparr> entries"

definition appendCategory :: "diagnostic list \<Rightarrow> string \<Rightarrow> string list \<Rightarrow> diagnostic list" where
  "appendCategory ds classification paths =
     (if paths = [] then ds
      else ds @ [worktreeDisclosureDiagnostic ''worktree_changes_not_analyzed'' (supportedWorktreeMessage classification paths)])"

definition unsupportedOnlyDiagnostic :: "string list \<Rightarrow> diagnostic list" where
  "unsupportedOnlyDiagnostic paths =
     (if paths = [] then []
      else [worktreeDisclosureDiagnostic ''worktree_not_clean'' (worktreeNotCleanMessage (sort_strings paths))])"

definition path_diagnostics :: "worktree_paths \<Rightarrow> diagnostic list" where
  "path_diagnostics s =
     (let ds = appendCategory (appendCategory (appendCategory (appendCategory []
                 ''untracked'' (sort_strings (wp_untracked s))) ''staged'' (sort_strings (wp_staged s)))
                 ''modified'' (sort_strings (wp_modified s))) ''unmerged'' (sort_strings (wp_unmerged s)) in
      if length ds > 0 then ds else unsupportedOnlyDiagnostic (wp_unsupported s))"

type_synonym worktree_status = "string + worktree_entry list"

definition WorkingTreeDisclosureDiagnostics :: "(string \<Rightarrow> worktree_status) \<Rightarrow> string \<Rightarrow> diagnostic list" where
  "WorkingTreeDisclosureDiagnostics status dir =
     (case status dir of
        Inl e \<Rightarrow> [worktreeStatusFailureDiagnostic e]
      | Inr entries \<Rightarrow> path_diagnostics (collectWorktreePaths entries))"

text \<open>The status read of git, and the captured one a scan may put in its place.\<close>

definition listWorktreeStatus :: "git_process \<Rightarrow> string \<Rightarrow> worktree_status" where
  "listWorktreeStatus child dir = (case WorktreeStatus child dir of Inl e \<Rightarrow> Inl (git_text e) | Inr es \<Rightarrow> Inr es)"

definition UseWorktreeStatusSnapshot :: "worktree_status \<Rightarrow> string \<Rightarrow> worktree_status" where
  "UseWorktreeStatusSnapshot captured dir = captured"

definition alwaysRelevantMetadataBasenames :: "string list" where
  "alwaysRelevantMetadataBasenames = [''package.json'', ''package-lock.json'', ''yarn.lock'', ''pnpm-lock.yaml'',
     ''npm-shrinkwrap.json'', ''bun.lock'', ''bun.lockb'', ''.npmrc'', ''bunfig.toml'']"

definition pathUnderRoot :: "string \<Rightarrow> string \<Rightarrow> bool" where
  "pathUnderRoot candidate r \<longleftrightarrow> r = ''.'' \<or> r = [] \<or> candidate = r \<or> has_prefix candidate (r @ ''/'')"

definition IsRelevantDirtyPath :: "string \<Rightarrow> string list \<Rightarrow> string \<Rightarrow> bool" where
  "IsRelevantDirtyPath candidate roots policyPath \<longleftrightarrow>
     candidate = policyPath \<or> has_prefix (path_base candidate) ''tsconfig''
   \<or> path_base candidate \<in> set alwaysRelevantMetadataBasenames \<or> list_ex (pathUnderRoot candidate) roots"

definition hasRelevantDirtyWorktree :: "worktree_entry list \<Rightarrow> string list \<Rightarrow> string \<Rightarrow> bool" where
  "hasRelevantDirtyWorktree entries roots configPath \<longleftrightarrow>
     list_ex (\<lambda>e. IsRelevantDirtyPath (we_Path e) roots configPath) entries"

definition hasDiagnosticKind :: "diagnostic list \<Rightarrow> string \<Rightarrow> bool" where
  "hasDiagnosticKind ds kind \<longleftrightarrow> list_ex (\<lambda>d. dg_kind d = kind) ds"

definition appendProjectWorktreeDiagnostic ::
  "worktree_status \<Rightarrow> diagnostic list \<Rightarrow> string list \<Rightarrow> string \<Rightarrow> diagnostic list" where
  "appendProjectWorktreeDiagnostic status ds roots configPath =
     (case status of
        Inl e \<Rightarrow>
          if hasDiagnosticKind ds ''worktree_status_check_failed'' \<or> hasDiagnosticKind ds ''worktree_not_clean'' then ds
          else ds @ [worktreeStatusFailureDiagnostic e]
      | Inr entries \<Rightarrow>
          if \<not> hasRelevantDirtyWorktree entries roots configPath then ds
          else if hasDiagnosticKind ds ''worktree_report_reflects_committed_head'' then ds
          else ds @ [file_diagnostic [] ''worktree_report_reflects_committed_head'' ''report reflects committed HEAD''])"

section \<open>The project backend\<close>

record backend_request =
  bq_Dir :: string
  bq_HeadRevision :: string
  bq_BaseRevision :: string
  bq_Baseline :: bool
  bq_ConfigPath :: string
  bq_Config :: string
  bq_ConfigDigest :: string
  bq_Language :: string

record backend_result =
  bs_HeadChanges :: "project_change list"
  bs_BaseChanges :: "project_change list"
  bs_Facts :: "project_fact list"
  bs_HeadDiagnostics :: "diagnostic list"
  bs_BaseDiagnostics :: "diagnostic list"
  bs_HeadCoverage :: "coverage option"
  bs_BaseCoverage :: "coverage option"
  bs_HeadProjectScope :: "project_scope option"
  bs_BaseProjectScope :: "project_scope option"
  bs_HeadLayerMembership :: "layer_membership option"
  bs_BaseLayerMembership :: "layer_membership option"
  bs_HeadModelCoverage :: "coverage option"
  bs_BaseModelCoverage :: "coverage option"
  bs_HeadBypassCoverage :: "coverage option"
  bs_BaseBypassCoverage :: "coverage option"
  bs_HeadReachabilityCoverage :: "coverage option"
  bs_BaseReachabilityCoverage :: "coverage option"
  bs_BaseAnalyzed :: bool
  bs_RuntimeKind :: string
  bs_RuntimeVersion :: string
  bs_RuntimeOrigin :: string
  bs_CompilerVersion :: string
  bs_CompilerOrigin :: string
  bs_AnalyzerProtocolVersion :: int
  bs_AnalyzerVersion :: string
  bs_AnalyzerDigest :: string
  bs_PackageManagerKind :: string
  bs_PackageManagerVersion :: string
  bs_PackageManagerOrigin :: string

text \<open>A backend answers with an error, with nothing, or with a result.\<close>

type_synonym project_backend = "backend_request \<Rightarrow> string + backend_result option"

record project_analysis =
  pa_ConfigPath :: string
  pa_Language :: string
  pa_Config :: string
  pa_ConfigDigest :: string
  pa_Backend :: "project_backend option"

definition selectedRootsFromConfig :: "config_env \<Rightarrow> string \<Rightarrow> string list" where
  "selectedRootsFromConfig V config =
     (if config = [] then [] else (case ParseConfig V config of Inl _ \<Rightarrow> [] | Inr c \<Rightarrow> cf_Roots c))"

definition forbiddenImportsDeclared :: "config_env \<Rightarrow> string \<Rightarrow> bool" where
  "forbiddenImportsDeclared V config \<longleftrightarrow>
     config \<noteq> [] \<and> (case ParseConfig V config of Inl _ \<Rightarrow> False | Inr c \<Rightarrow> cf_ForbiddenImports c \<noteq> [])"

definition headProjectDiagnostics :: "diagnostic list \<Rightarrow> string \<Rightarrow> diagnostic list" where
  "headProjectDiagnostics ds headRev = map (\<lambda>d. d\<lparr>dg_side := ''head'', dg_revision := headRev\<rparr>) ds"

definition baseProjectDiagnostics :: "diagnostic list \<Rightarrow> string \<Rightarrow> diagnostic list" where
  "baseProjectDiagnostics ds baseRev =
     map (\<lambda>d. d\<lparr>dg_kind := ''base_'' @ dg_kind d, dg_side := ''base'', dg_revision := baseRev\<rparr>) ds"

definition bridgeProtocolVersion :: int where "bridgeProtocolVersion = 1"

record 'p scan_env =
  le_config :: config_env
  le_child :: git_process
  le_start :: "string \<Rightarrow> string list \<Rightarrow> string + 'p"
  le_respond :: "'p respond"
  le_registry :: language_registry
  le_ctx :: "string \<Rightarrow> string \<Rightarrow> nat \<Rightarrow> string option"
  le_cancelled :: bool
  le_status :: "string \<Rightarrow> worktree_status"
  le_digest :: "string \<Rightarrow> string"

abbreviation le_printable :: "'p scan_env \<Rightarrow> nat \<Rightarrow> bool" where
  "le_printable L \<equiv> ce_printable (le_config L)"

definition merge_project ::
  "'p scan_env \<Rightarrow> build_input \<Rightarrow> project_analysis \<Rightarrow> string \<Rightarrow> string \<Rightarrow> string \<Rightarrow> backend_result \<Rightarrow> build_input" where
  "merge_project L inp p dir headRev baseRev r =
     (let ds0 = in_diagnostics inp @ headProjectDiagnostics (bs_HeadDiagnostics r) headRev
                  @ baseProjectDiagnostics (bs_BaseDiagnostics r) baseRev;
          roots = selectedRootsFromConfig (le_config L) (pa_Config p) in
      \<lparr>in_scope = in_scope inp, in_files = in_files inp,
       in_diagnostics = appendProjectWorktreeDiagnostic (le_status L dir) ds0 roots (pa_ConfigPath p),
       in_coverage = in_coverage inp, in_changes = bs_HeadChanges r, in_base_changes = bs_BaseChanges r,
       in_facts = bs_Facts r, in_project_coverage = bs_HeadCoverage r, in_base_project_coverage = bs_BaseCoverage r,
       in_base_analyzed = bs_BaseAnalyzed r, in_continuity = in_continuity inp,
       in_runtime_kind = bs_RuntimeKind r, in_runtime_version = bs_RuntimeVersion r, in_runtime_origin = bs_RuntimeOrigin r,
       in_compiler_version = bs_CompilerVersion r, in_compiler_origin = bs_CompilerOrigin r,
       in_language = pa_Language p, in_config_digest = pa_ConfigDigest p, in_selected_roots = roots,
       in_protocol_version = (if pa_Language p = ''typescript'' \<and> bs_AnalyzerProtocolVersion r = 0
                              then bridgeProtocolVersion else bs_AnalyzerProtocolVersion r),
       in_analyzer_version = bs_AnalyzerVersion r, in_analyzer_digest = bs_AnalyzerDigest r,
       in_package_manager_kind = bs_PackageManagerKind r, in_package_manager_version = bs_PackageManagerVersion r,
       in_package_manager_origin = bs_PackageManagerOrigin r,
       in_head_scope = bs_HeadProjectScope r, in_base_scope = bs_BaseProjectScope r,
       in_head_membership = bs_HeadLayerMembership r, in_base_membership = bs_BaseLayerMembership r,
       in_forbidden_declared = forbiddenImportsDeclared (le_config L) (pa_Config p),
       in_head_model = bs_HeadModelCoverage r, in_base_model = bs_BaseModelCoverage r,
       in_head_bypass = bs_HeadBypassCoverage r, in_base_bypass = bs_BaseBypassCoverage r,
       in_head_reachability = bs_HeadReachabilityCoverage r, in_base_reachability = bs_BaseReachabilityCoverage r\<rparr>)"

datatype scan_failure = ScanOperational operational_error | BackendFailure string | BuildFailure

definition applyProjectBackend ::
  "'p scan_env \<Rightarrow> build_input \<Rightarrow> options \<Rightarrow> project_analysis option \<Rightarrow> string \<Rightarrow> string \<Rightarrow> string \<Rightarrow> bool
     \<Rightarrow> scan_failure + build_input \<times> options" where
  "applyProjectBackend L inp opts project dir headRev baseRev baseline =
     (case project of
        None \<Rightarrow> Inr (inp, opts)
      | Some p \<Rightarrow>
     (case pa_Backend p of
        None \<Rightarrow> Inr (inp, opts)
      | Some backend \<Rightarrow>
     (case backend \<lparr>bq_Dir = dir, bq_HeadRevision = headRev, bq_BaseRevision = baseRev, bq_Baseline = baseline,
             bq_ConfigPath = pa_ConfigPath p, bq_Config = pa_Config p, bq_ConfigDigest = pa_ConfigDigest p,
             bq_Language = pa_Language p\<rparr> of
        Inl e \<Rightarrow> Inl (BackendFailure e)
      | Inr None \<Rightarrow> Inr (inp, opts\<lparr>ProjectEnabled := True\<rparr>)
      | Inr (Some r) \<Rightarrow> Inr (merge_project L inp p dir headRev baseRev r, opts\<lparr>ProjectEnabled := True\<rparr>))))"

section \<open>One file\<close>

definition readFailedDiagnostic :: "(nat \<Rightarrow> bool) \<Rightarrow> string \<Rightarrow> string \<Rightarrow> string \<Rightarrow> diagnostic" where
  "readFailedDiagnostic pr path side err =
     file_diagnostic path (side @ ''_read_failed'') (''reading '' @ side @ '' content for '' @ quote_go pr path @ '': '' @ err)"

definition mapSemanticsError :: "string \<Rightarrow> analysis_error \<Rightarrow> diagnostic" where
  "mapSemanticsError path err =
     file_diagnostic path
       (case fst err of
          ErrEmptyContent \<Rightarrow> ''empty_content'' | ErrBinaryContent \<Rightarrow> ''binary_content'' | ErrFileTooLarge \<Rightarrow> ''file_too_large''
        | ErrUnsupportedLanguage \<Rightarrow> ''unsupported_language'' | _ \<Rightarrow> ''analysis_failed'')
       (snd err)"

definition baseSyntaxDiagnostics :: "(nat \<Rightarrow> bool) \<Rightarrow> string \<Rightarrow> analysis_error \<Rightarrow> diagnostic list" where
  "baseSyntaxDiagnostics pr path err =
     (case fst err of
        ErrSyntax issues \<Rightarrow>
          map (\<lambda>i. (file_diagnostic path ''base_syntax_errors''
                      (''base analysis found a syntax issue of kind '' @ quote_go pr (sx_kind i)))
                    \<lparr>dg_location := Some (sx_location i)\<rparr>) issues
      | _ \<Rightarrow> [file_diagnostic path ''base_syntax_errors'' (snd err)])"

definition analyze_content :: "'p scan_env \<Rightarrow> string \<Rightarrow> selected_file \<Rightarrow> string \<Rightarrow> sem_result option \<times> analysis_error option" where
  "analyze_content L side sf content =
     AnalyzeBytes (le_printable L) (le_registry L) (le_ctx L side (sf_Path sf)) \<lparr>an_maxFileBytes = 0, an_languages = []\<rparr>
       \<lparr>fl_Path = sf_Path sf, fl_Language = sf_Language sf, fl_Content = content\<rparr>"

definition git_show_file :: "'p scan_env \<Rightarrow> string \<Rightarrow> string \<Rightarrow> string \<Rightarrow> git_error + string" where
  "git_show_file L dir sha path = RunBytes (le_child L) dir [''show'', sha @ '':'' @ path]"

definition base_of_modified ::
  "'p scan_env \<Rightarrow> string \<Rightarrow> string \<Rightarrow> selected_file \<Rightarrow> sem_result option \<times> diagnostic list" where
  "base_of_modified L dir mergeBaseSHA sf =
     (case git_show_file L dir mergeBaseSHA (sf_Path sf) of
        Inl e \<Rightarrow> (None, [readFailedDiagnostic (le_printable L) (sf_Path sf) ''base'' (git_text e)])
      | Inr content \<Rightarrow>
          (case analyze_content L ''base'' sf content of
             (r, None) \<Rightarrow> (r, [])
           | (r, Some e) \<Rightarrow>
               if is_syntax_error e then (None, baseSyntaxDiagnostics (le_printable L) (sf_Path sf) e)
               else (None, [file_diagnostic (sf_Path sf) ''base_analysis_failed'' (snd e)])))"

text \<open>The change of an analyzed head: its base, and its ranges unless the diff failed.\<close>

definition with_head ::
  "'p scan_env \<Rightarrow> string \<Rightarrow> string \<Rightarrow> selected_file \<Rightarrow> sem_result option \<Rightarrow> file_change option \<times> diagnostic list" where
  "with_head L dir mergeBaseSHA sf headResult =
     (let (base, ds) = (if sf_Status sf = ''modified'' then base_of_modified L dir mergeBaseSHA sf else (None, []));
          fc = \<lparr>fc_path = sf_Path sf, fc_status = sf_Status sf, fc_source_scope = sf_SourceScope sf, fc_base = base,
                fc_head = headResult, fc_ranges = []\<rparr> in
      case computeChangedRanges (le_printable L) (le_child L) dir mergeBaseSHA (sf_Path sf) of
        Inl d \<Rightarrow> (Some fc, ds @ [d])
      | Inr ranges \<Rightarrow> (Some (fc\<lparr>fc_ranges := ranges\<rparr>), ds))"

definition analyzeAddedOrModifiedFile ::
  "'p scan_env \<Rightarrow> string \<Rightarrow> string \<Rightarrow> string \<Rightarrow> selected_file \<Rightarrow> file_change option \<times> diagnostic list" where
  "analyzeAddedOrModifiedFile L dir headSHA mergeBaseSHA sf =
     (case git_show_file L dir headSHA (sf_Path sf) of
        Inl e \<Rightarrow> (None, [readFailedDiagnostic (le_printable L) (sf_Path sf) ''head'' (git_text e)])
      | Inr headBytes \<Rightarrow>
          (let (headResult, headErr) = analyze_content L ''head'' sf headBytes in
           case headErr of
             Some e \<Rightarrow> if is_syntax_error e then with_head L dir mergeBaseSHA sf headResult
                       else (None, [mapSemanticsError (sf_Path sf) e])
           | None \<Rightarrow> with_head L dir mergeBaseSHA sf headResult))"

definition analyzeRemovedFile :: "'p scan_env \<Rightarrow> string \<Rightarrow> string \<Rightarrow> selected_file \<Rightarrow> file_change option \<times> diagnostic list" where
  "analyzeRemovedFile L dir mergeBaseSHA sf =
     (case git_show_file L dir mergeBaseSHA (sf_Path sf) of
        Inl e \<Rightarrow> (None, [readFailedDiagnostic (le_printable L) (sf_Path sf) ''base'' (git_text e)])
      | Inr content \<Rightarrow>
          (case analyze_content L ''base'' sf content of
             (r, None) \<Rightarrow>
               (Some \<lparr>fc_path = sf_Path sf, fc_status = sf_Status sf, fc_source_scope = sf_SourceScope sf, fc_base = r,
                     fc_head = None, fc_ranges = []\<rparr>, [])
           | (r, Some e) \<Rightarrow>
               if is_syntax_error e then (None, baseSyntaxDiagnostics (le_printable L) (sf_Path sf) e)
               else (None, [mapSemanticsError (sf_Path sf) e])))"

section \<open>The scan of a diff\<close>

definition analyze_selected ::
  "'p scan_env \<Rightarrow> string \<Rightarrow> string \<Rightarrow> string \<Rightarrow> selected_file \<Rightarrow> file_change option \<times> diagnostic list" where
  "analyze_selected L dir headSHA mergeBaseSHA sf =
     (if sf_Status sf = ''removed'' then analyzeRemovedFile L dir mergeBaseSHA sf
      else analyzeAddedOrModifiedFile L dir headSHA mergeBaseSHA sf)"

definition base_input :: "scope \<Rightarrow> file_change list \<Rightarrow> diagnostic list \<Rightarrow> file_coverage option \<Rightarrow> path_continuity list \<Rightarrow> build_input" where
  "base_input sc files ds coverage continuity =
     \<lparr>in_scope = sc, in_files = files, in_diagnostics = ds, in_coverage = coverage, in_changes = [], in_base_changes = [],
      in_facts = [], in_project_coverage = None, in_base_project_coverage = None, in_base_analyzed = False,
      in_continuity = continuity, in_runtime_kind = [], in_runtime_version = [], in_runtime_origin = [],
      in_compiler_version = [], in_compiler_origin = [], in_language = [], in_config_digest = [], in_selected_roots = [],
      in_protocol_version = 0, in_analyzer_version = [], in_analyzer_digest = [], in_package_manager_kind = [],
      in_package_manager_version = [], in_package_manager_origin = [], in_head_scope = None, in_base_scope = None,
      in_head_membership = None, in_base_membership = None, in_forbidden_declared = False, in_head_model = None,
      in_base_model = None, in_head_bypass = None, in_base_bypass = None, in_head_reachability = None,
      in_base_reachability = None\<rparr>"

definition finish_scan ::
  "'p scan_env \<Rightarrow> build_input \<Rightarrow> options \<Rightarrow> project_analysis option \<Rightarrow> string \<Rightarrow> string \<Rightarrow> string \<Rightarrow> bool \<Rightarrow> scan_failure + report" where
  "finish_scan L inp opts project dir headRev baseRev baseline =
     (case applyProjectBackend L inp opts project dir headRev baseRev baseline of
        Inl e \<Rightarrow> Inl e
      | Inr (inp', opts') \<Rightarrow>
          (case Build (le_digest L) opts' (le_cancelled L) inp' of
             None \<Rightarrow> Inl BuildFailure
           | Some r \<Rightarrow> Inr r))"

definition new_analyzer_error :: "'p scan_env \<Rightarrow> scan_failure option" where
  "new_analyzer_error L =
     (case NewAnalyzer (le_printable L) (le_registry L) [] 0 of
        Inl e \<Rightarrow> Some (ScanOperational (operational (''coach codesignal: '' @ snd e)))
      | Inr _ \<Rightarrow> None)"

definition AnalyzeChanges ::
  "'p scan_env \<Rightarrow> string \<Rightarrow> string \<Rightarrow> string \<Rightarrow> selected_file list \<Rightarrow> diagnostic list \<Rightarrow> path_continuity list
     \<Rightarrow> string \<Rightarrow> coverage_group list \<Rightarrow> project_analysis option \<Rightarrow> scan_failure + report" where
  "AnalyzeChanges L dir headSHA mergeBaseSHA files extraDiagnostics continuity appliedScope excluded project =
     (case new_analyzer_error L of
        Some e \<Rightarrow> Inl e
      | None \<Rightarrow>
          (let results = map (analyze_selected L dir headSHA mergeBaseSHA) files;
               coverage = (if length excluded > 0 then Some (empty_coverage\<lparr>fv_excluded := excluded\<rparr>) else None);
               inp = base_input \<lparr>sc_repository = [], sc_revision = headSHA, sc_base = mergeBaseSHA, sc_applied = appliedScope, sc_baseline = False\<rparr>
                       (List.map_filter fst results) (extraDiagnostics @ concat (map snd results)) coverage continuity
           in finish_scan L inp \<lparr>IncludeResolved = True, Baseline = False, ProjectEnabled = False\<rparr>
                project dir headSHA mergeBaseSHA False))"

section \<open>The scan of a revision\<close>

record scan_state =
  ss_files :: "file_change list"
  ss_diagnostics :: "diagnostic list"
  ss_coverage :: file_coverage

definition unanalyzable :: "diagnostic list \<Rightarrow> scan_state \<Rightarrow> scan_state" where
  "unanalyzable ds st =
     st\<lparr>ss_diagnostics := ss_diagnostics st @ ds,
       ss_coverage := (ss_coverage st)\<lparr>fv_unanalyzable := fv_unanalyzable (ss_coverage st) + 1\<rparr>\<rparr>"

definition baseline_file ::
  "'p scan_env \<Rightarrow> selected_file \<Rightarrow> 'p batch_reader \<times> scan_state \<Rightarrow> 'p batch_reader \<times> scan_state" where
  "baseline_file L sf s =
     (case s of (reader, st) \<Rightarrow>
       (case Next (le_printable L) (le_respond L) reader (sf_Path sf) of
          (reader', Inl e) \<Rightarrow> (reader', unanalyzable [readFailedDiagnostic (le_printable L) (sf_Path sf) ''head'' e] st)
        | (reader', Inr headBytes) \<Rightarrow>
            (let (headResult, headErr) = analyze_content L ''head'' sf headBytes in
             case (case headErr of Some e \<Rightarrow> if is_syntax_error e then None else Some e | None \<Rightarrow> None) of
               Some e \<Rightarrow> (reader', unanalyzable [mapSemanticsError (sf_Path sf) e] st)
             | None \<Rightarrow>
                 (let st1 = st\<lparr>ss_files := ss_files st @ [\<lparr>fc_path = sf_Path sf, fc_status = [], fc_source_scope = sf_SourceScope sf,
                        fc_base = None, fc_head = headResult, fc_ranges = []\<rparr>]\<rparr> in
                  (reader',
                   if map_option ParseStatus headResult = Some ''ok''
                   then st1\<lparr>ss_coverage := (ss_coverage st1)\<lparr>fv_analyzed := fv_analyzed (ss_coverage st1) + 1\<rparr>\<rparr>
                   else unanalyzable [] st1)))))"

definition AnalyzeBaseline ::
  "'p scan_env \<Rightarrow> string \<Rightarrow> string \<Rightarrow> selected_file list \<Rightarrow> diagnostic list \<Rightarrow> string \<Rightarrow> file_coverage
     \<Rightarrow> project_analysis option \<Rightarrow> scan_failure + report" where
  "AnalyzeBaseline L dir revisionSHA files extraDiagnostics appliedScope coverage project =
     (case new_analyzer_error L of
        Some e \<Rightarrow> Inl e
      | None \<Rightarrow>
     (case NewRevisionFileReader (le_start L) dir revisionSHA of
        Inl e \<Rightarrow> Inl (ScanOperational (operational (''coach codesignal: starting git cat-file --batch failed: '' @ e)))
      | Inr reader \<Rightarrow>
          (let st = snd (fold (baseline_file L) files
                      (reader, \<lparr>ss_files = [], ss_diagnostics = extraDiagnostics, ss_coverage = coverage\<rparr>));
               inp = base_input \<lparr>sc_repository = [], sc_revision = revisionSHA, sc_base = [], sc_applied = appliedScope, sc_baseline = False\<rparr>
                       (ss_files st) (ss_diagnostics st) (Some (ss_coverage st)) []
           in finish_scan L inp \<lparr>IncludeResolved = False, Baseline = True, ProjectEnabled = False\<rparr>
                project dir revisionSHA [] True)))"

section \<open>No file is lost\<close>

lemma seed_kept: "set seed \<subseteq> set (fst (processFileChanges digest files seed noBase))"
proof -
  have "set ds \<subseteq> set (fst (foldl (\<lambda>(ds, ss) fc. let (ds', ss') = process_file digest noBase fc in (ds @ ds', ss @ ss')) (ds, ss) files))"
    for ds ss
  proof (induction files arbitrary: ds ss)
    case (Cons fc files)
    obtain ds' ss' where p: "process_file digest noBase fc = (ds', ss')" by (metis surj_pair)
    show ?case using Cons [of "ds @ ds'" "ss @ ss'"] p by auto
  qed simp
  then show ?thesis by (simp add: processFileChanges_def)
qed

lemma built_report:
  assumes "Build digest opts cancelled inp = Some r"
  shows "set (in_diagnostics inp) \<subseteq> set (rp_diagnostics r)" and "rp_coverage r = in_coverage inp"
proof -
  let ?p = "processFileChanges digest (in_files inp) (in_diagnostics inp) (lifecycleWithoutBase (Baseline opts))"
  obtain ds ss where p: "?p = (ds, ss)" by (metis surj_pair)
  have seed: "set (in_diagnostics inp) \<subseteq> set ds" using seed_kept p by (metis fst_conv)
  let ?surface = "if ProjectEnabled opts
      then Some (buildProjectReportSurface digest inp (lifecycleWithoutBase (Baseline opts)) (IncludeResolved opts)) else None"
  let ?more = "case ?surface of None \<Rightarrow> [] | Some su \<Rightarrow> su_diagnostics su"
  obtain signals summary where r: "r = assembleReport opts inp signals (sortDiagnostics (ds @ ?more)) summary ?surface"
    using assms p unfolding Build_def Let_def by (auto split: if_splits prod.splits)
  show "set (in_diagnostics inp) \<subseteq> set (rp_diagnostics r)"
    using seed by (cases ?surface) (auto simp: r assembleReport_def sortDiagnostics_def Let_def)
  show "rp_coverage r = in_coverage inp"
    by (cases ?surface) (auto simp: r assembleReport_def Let_def)
qed

lemma worktree_diagnostic_appends: "set ds \<subseteq> set (appendProjectWorktreeDiagnostic status ds roots path)"
  by (auto simp: appendProjectWorktreeDiagnostic_def split: sum.splits)

lemma finished_report:
  assumes "finish_scan L inp opts project dir h b baseline = Inr r"
  shows "set (in_diagnostics inp) \<subseteq> set (rp_diagnostics r)" and "rp_coverage r = in_coverage inp"
proof -
  obtain inp' opts' where a: "applyProjectBackend L inp opts project dir h b baseline = Inr (inp', opts')"
      and r: "Build (le_digest L) opts' (le_cancelled L) inp' = Some r"
    using assms by (auto simp: finish_scan_def split: sum.splits option.splits)
  have "set (in_diagnostics inp) \<subseteq> set (in_diagnostics inp') \<and> in_coverage inp' = in_coverage inp"
    using a worktree_diagnostic_appends
    by (fastforce simp: applyProjectBackend_def merge_project_def Let_def split: option.splits sum.splits)
  then show "set (in_diagnostics inp) \<subseteq> set (rp_diagnostics r)" "rp_coverage r = in_coverage inp"
    using built_report [OF r] by auto
qed

text \<open>A parser that reports an error shows where: its tree has an error or a missing node.\<close>

definition shows_errors :: "language_registry \<Rightarrow> bool" where
  "shows_errors registry \<longleftrightarrow>
     (\<forall>lang spec content t. registry lang = Some spec \<and> ls_parse spec content = Inr (Some t) \<and> HasError (RootNode t)
        \<longrightarrow> collectSyntaxIssues (RootNode t) \<noteq> [])"

lemma syntax_issues_nonempty:
  assumes "shows_errors registry" "AnalyzeBytes pr registry ctx an inp = (r, Some e)" "fst e = ErrSyntax issues"
  shows "issues \<noteq> []"
proof -
  have v: "validate pr registry (ctx 0) an inp = None"
  proof (cases "validate pr registry (ctx 0) an inp")
    case (Some x)
    then have "fst x \<noteq> ErrSyntax issues" by (auto simp: validate_def unsupported_def Let_def split: option.splits if_splits)
    then show ?thesis using assms(2,3) Some by (auto simp: AnalyzeBytes_def)
  qed
  show ?thesis
  proof (cases "parse pr registry (ctx 1) inp")
    case (Inl p)
    then have "fst p \<noteq> ErrSyntax issues" by (auto simp: parse_def parse_failure_def split: option.splits sum.splits)
    then show ?thesis using assms(2,3) v Inl by (auto simp: AnalyzeBytes_def)
  next
    case (Inr t)
    have issues: "HasError (RootNode t) \<Longrightarrow> collectSyntaxIssues (RootNode t) \<noteq> []"
      using Inr assms(1) unfolding shows_errors_def
      by (auto simp: parse_def split: option.splits sum.splits)
    have extracted: "fst e = NoSentinel" if "extract_features registry inp (RootNode t) = (r, Some e)"
      using that by (auto simp: extract_features_def Let_def split: option.splits sum.splits prod.splits)
    show ?thesis
      using assms(2,3) v Inr issues extracted
      by (auto simp: AnalyzeBytes_def syntax_result_def syntax_error_def Let_def split: if_splits option.splits)
  qed
qed

definition names_file :: "selected_file \<Rightarrow> diagnostic list \<Rightarrow> bool" where
  "names_file sf ds \<longleftrightarrow> (\<exists>d\<in>set ds. dg_path d = sf_Path sf)"

definition carries_file :: "selected_file \<Rightarrow> file_change \<Rightarrow> bool" where
  "carries_file sf fc \<longleftrightarrow> fc_path fc = sf_Path sf \<and> fc_status fc = sf_Status sf \<and> (fc_head fc \<noteq> None \<or> fc_base fc \<noteq> None)"

lemma file_diagnostic_path [simp]: "dg_path (file_diagnostic p k m) = p"
  by (simp add: file_diagnostic_def)

lemma base_syntax_names:
  assumes "is_syntax_error e" "\<And>issues. fst e = ErrSyntax issues \<Longrightarrow> issues \<noteq> []"
  shows "names_file sf (baseSyntaxDiagnostics pr (sf_Path sf) e)"
proof -
  obtain issues where "fst e = ErrSyntax issues" using assms(1) by (cases e rule: is_syntax_error.cases) auto
  then show ?thesis
    using assms(2) by (cases issues) (auto simp: names_file_def baseSyntaxDiagnostics_def)
qed

lemma result_present:
  assumes "AnalyzeBytes pr registry ctx an inp = (r, e)" "e = None \<or> (\<exists>x. e = Some x \<and> is_syntax_error x)"
  shows "r \<noteq> None"
  using analysis_shape [OF assms(1)] assms(2) by auto

lemma selected_file_accounted:
  assumes "shows_errors (le_registry L)" "analyze_selected L dir h b sf = (fc, ds)"
  shows "case fc of Some x \<Rightarrow> carries_file sf x | None \<Rightarrow> names_file sf ds"
proof -
  have whead: "case fst (with_head L dir b sf r) of Some x \<Rightarrow> carries_file sf x | None \<Rightarrow> False" if "r \<noteq> None" for r
    using that by (auto simp: with_head_def carries_file_def Let_def split: prod.splits sum.splits)
  show ?thesis
  proof (cases "sf_Status sf = ''removed''")
    case False
    then have a: "analyzeAddedOrModifiedFile L dir h b sf = (fc, ds)" using assms(2) by (simp add: analyze_selected_def)
    show ?thesis
    proof (cases "git_show_file L dir h (sf_Path sf)")
      case (Inl e)
      then show ?thesis using a by (auto simp: analyzeAddedOrModifiedFile_def names_file_def readFailedDiagnostic_def)
    next
      case (Inr content)
      obtain r e where re: "analyze_content L ''head'' sf content = (r, e)" by (metis surj_pair)
      show ?thesis
      proof (cases "e = None \<or> (\<exists>x. e = Some x \<and> is_syntax_error x)")
        case True
        then have "r \<noteq> None" using result_present re unfolding analyze_content_def by blast
        moreover have "with_head L dir b sf r = (fc, ds)"
          using a Inr re True by (auto simp: analyzeAddedOrModifiedFile_def)
        ultimately show ?thesis using whead [of r] by (cases fc) auto
      next
        case False
        then show ?thesis
          using a Inr re by (auto simp: analyzeAddedOrModifiedFile_def names_file_def mapSemanticsError_def)
      qed
    qed
  next
    case True
    then have a: "analyzeRemovedFile L dir b sf = (fc, ds)" using assms(2) by (simp add: analyze_selected_def)
    show ?thesis
    proof (cases "git_show_file L dir b (sf_Path sf)")
      case (Inl e)
      then show ?thesis using a by (auto simp: analyzeRemovedFile_def names_file_def readFailedDiagnostic_def)
    next
      case (Inr content)
      obtain r e where re: "analyze_content L ''base'' sf content = (r, e)" by (metis surj_pair)
      show ?thesis
      proof (cases e)
        case None
        then have "r \<noteq> None" using result_present re unfolding analyze_content_def by blast
        then show ?thesis using a Inr re None by (auto simp: analyzeRemovedFile_def carries_file_def)
      next
        case (Some x)
        show ?thesis
        proof (cases "is_syntax_error x")
          case True
          have "issues \<noteq> []" if "fst x = ErrSyntax issues" for issues
            using syntax_issues_nonempty [OF assms(1) re [unfolded Some analyze_content_def] that] .
          then have "names_file sf (baseSyntaxDiagnostics (le_printable L) (sf_Path sf) x)"
            using True by (rule base_syntax_names [rotated])
          then show ?thesis using a Inr re Some True by (auto simp: analyzeRemovedFile_def)
        next
          case False
          then show ?thesis
            using a Inr re Some by (auto simp: analyzeRemovedFile_def names_file_def mapSemanticsError_def)
        qed
      qed
    qed
  qed
qed


text \<open>A repository whose git shows one Go file, and no difference in its lines.\<close>

definition sample_git :: git_process where
  "sample_git dir args =
     \<lparr>gc_start = None, gc_stdout = (if hd args = ''show'' then sample_source else []), gc_stdout_err = None,
      gc_stderr = [], gc_stderr_err = None, gc_wait = None, gc_deadline = False\<rparr>"

definition sample_scan :: "unit scan_env" where
  "sample_scan = \<lparr>le_config = sample_env, le_child = sample_git, le_start = (\<lambda>_ _. Inr ()),
     le_respond = (\<lambda>_ _. Inl ''broken pipe''), le_registry = sample_registry sample_go_tree, le_ctx = (\<lambda>_ _ _. None),
     le_cancelled = False, le_status = (\<lambda>_. Inr []), le_digest = (\<lambda>s. s)\<rparr>"

definition sample_selected :: selected_file where
  "sample_selected = \<lparr>sf_Path = ''f.go'', sf_Status = ''added'', sf_Language = ''go'', sf_SourceScope = []\<rparr>"

lemma built: "\<exists>r. Build digest opts False inp = Some r"
  by (simp add: Build_def Let_def case_prod_beta)

lemma no_analyzer_error: "new_analyzer_error L = None"
  by (simp add: new_analyzer_error_def NewAnalyzer_def)

lemma scan_without_backend: "\<not> le_cancelled L \<Longrightarrow> \<exists>r. finish_scan L inp opts None dir h b baseline = Inr r"
  using built [of "le_digest L" opts inp] by (auto simp: finish_scan_def applyProjectBackend_def)

lemma diff_scan_finishes: "\<not> le_cancelled L \<Longrightarrow> \<exists>r. AnalyzeChanges L dir h b files extra continuity applied excluded None = Inr r"
  by (simp add: AnalyzeChanges_def no_analyzer_error Let_def scan_without_backend)

lemma sample_shows_errors: "shows_errors (le_registry sample_scan)"
proof -
  have "\<not> HasError (RootNode sample_go_tree)" by code_simp
  then show ?thesis by (auto simp: shows_errors_def sample_scan_def sample_registry_def go_language_def split: if_splits)
qed


section \<open>Every tracked file is counted\<close>

definition unsupported_total :: "file_coverage \<Rightarrow> nat" where
  "unsupported_total c = sum_list (map cg_count (fv_unsupported c))"

lemma one_label: "distinct ls \<Longrightarrow> x \<in> set ls \<Longrightarrow> count_list ls x = 1"
  by (induction ls) (auto simp: count_notin)

lemma count_by_label:
  "distinct ls \<Longrightarrow> set xs \<subseteq> set ls \<Longrightarrow> sum_list (map (count_list xs) ls) = length xs"
proof (induction xs)
  case (Cons x xs)
  have "sum_list (map (count_list (x # xs)) ls) = sum_list (map (count_list xs) ls) + sum_list (map (\<lambda>l. if x = l then 1 else 0) ls)"
    by (induction ls) (auto simp: algebra_simps)
  also have "sum_list (map (\<lambda>l. if x = l then 1 else 0) ls) = count_list ls x"
    by (induction ls) auto
  also have "count_list ls x = 1"
    using Cons.prems by (intro one_label) simp_all
  finally show ?case using Cons by simp
qed simp

lemma tracked_split:
  "length (List.map_filter tracked_file ps) + length (unsupported_labels ps) = length ps"
  by (induction ps) (auto simp: unsupported_labels_def split: option.splits)

lemma discovered_coverage:
  assumes "DiscoverTrackedFiles child dir sha = Inr (files, c)"
  shows "fv_tracked c = length files + unsupported_total c" and "fv_analyzed c = 0" and "fv_unanalyzable c = 0"
proof -
  obtain out where out: "RunBytes child dir [''ls-tree'', ''-r'', ''-z'', ''--name-only'', sha] = Inr out"
    using assms by (auto simp: DiscoverTrackedFiles_def split: sum.splits)
  let ?ps = "SplitNULPaths out" and ?ls = "unsupported_labels (SplitNULPaths out)"
  have "unsupported_total c = sum_list (map (count_list ?ls) (sort_strings (remdups ?ls)))"
    using assms out by (auto simp: DiscoverTrackedFiles_def unsupported_total_def Let_def comp_def)
  also have "\<dots> = length ?ls"
    by (rule count_by_label) (simp_all add: mset_eq_imp_distinct_iff [OF sort_strings_mset])
  finally show "fv_tracked c = length files + unsupported_total c"
    using assms out tracked_split [of ?ps] by (auto simp: DiscoverTrackedFiles_def Let_def)
  show "fv_analyzed c = 0" "fv_unanalyzable c = 0"
    using assms out by (auto simp: DiscoverTrackedFiles_def empty_coverage_def Let_def)
qed

lemma baseline_file_counts:
  assumes "baseline_file L sf (reader, st) = (reader', st')"
  shows "fv_analyzed (ss_coverage st') + fv_unanalyzable (ss_coverage st')
      = Suc (fv_analyzed (ss_coverage st) + fv_unanalyzable (ss_coverage st))"
    and "fv_tracked (ss_coverage st') = fv_tracked (ss_coverage st)"
    and "fv_unsupported (ss_coverage st') = fv_unsupported (ss_coverage st)"
  using assms
  by (auto simp: baseline_file_def unanalyzable_def Let_def split: prod.splits sum.splits option.splits if_splits)

lemma baseline_counts:
  "fold (baseline_file L) files (reader, st) = (reader', st') \<Longrightarrow>
     fv_analyzed (ss_coverage st') + fv_unanalyzable (ss_coverage st')
       = fv_analyzed (ss_coverage st) + fv_unanalyzable (ss_coverage st) + length files
   \<and> fv_tracked (ss_coverage st') = fv_tracked (ss_coverage st)
   \<and> fv_unsupported (ss_coverage st') = fv_unsupported (ss_coverage st)"
proof (induction files arbitrary: reader st)
  case (Cons sf files)
  obtain r1 st1 where 1: "baseline_file L sf (reader, st) = (r1, st1)" by (metis surj_pair)
  show ?case using Cons.IH [of r1 st1] Cons.prems 1 baseline_file_counts [OF 1] by simp
qed simp


definition sample_listing :: git_process where
  "sample_listing dir args =
     \<lparr>gc_start = None, gc_stdout = ''f.go'' @ [CHR 0x00] @ ''README'' @ [CHR 0x00], gc_stdout_err = None,
      gc_stderr = [], gc_stderr_err = None, gc_wait = None, gc_deadline = False\<rparr>"


end
