(* ===== verification/SourceScope.thy ===== *)
theory SourceScope
  imports LocalScan
begin

text \<open>
  Which files of a scan ship (internal/codesignalcli/sourcescope, gitrepo's archive of a revision and
  the two analyses of cmd/coach): the snapshot of a revision, the Go build graph as \<open>go list\<close> reports
  it, tsconfig.json with its chain of extended files, the label of each file and the count of what
  is left out.

  The file system, \<open>git\<close>, \<open>go list\<close> and the JSON parser are arguments.
\<close>

section \<open>Globs\<close>

text \<open>
  The regular expression a pattern is turned into, item by item. A byte of the pattern becomes the
  code point of its value. The code points of a path are those of UTF-8, with U+FFFD for a byte
  that is no part of one.
\<close>

datatype glob_item = Literal nat | OneChar | AnyName | AnyDeep | AnyDirs

fun glob_items :: "string \<Rightarrow> glob_item list" where
  "glob_items [] = []"
| "glob_items (ch # rest) =
     (if ch = CHR ''*''
      then (case rest of
              [] \<Rightarrow> [AnyName]
            | c1 # rest1 \<Rightarrow>
                if c1 = CHR ''*''
                then (case rest1 of
                        [] \<Rightarrow> [AnyDeep]
                      | c2 # rest2 \<Rightarrow> if c2 = CHR ''/'' then AnyDirs # glob_items rest2 else AnyDeep # glob_items rest1)
                else AnyName # glob_items rest)
      else if ch = CHR ''?'' then OneChar # glob_items rest
      else Literal (of_char ch) # glob_items rest)"

definition slash :: nat where "slash = 47"
definition newline :: nat where "newline = 10"

function rune_codes :: "nat list \<Rightarrow> nat list" where
  "rune_codes bs =
     (if bs = [] then []
      else (case decode_rune bs of
              None \<Rightarrow> 0xFFFD # rune_codes (drop 1 bs)
            | Some (r, w) \<Rightarrow> r # rune_codes (drop (max 1 w) bs)))"
  by pat_completeness auto

termination by (relation "measure length") auto

declare rune_codes.simps [simp del]

fun weight :: "glob_item \<Rightarrow> nat" where
  "weight AnyDirs = 3"
| "weight _ = 1"

function glob_accepts :: "glob_item list \<Rightarrow> nat list \<Rightarrow> bool" where
  "glob_accepts [] rs = (rs = [])"
| "glob_accepts (Literal c # is) rs = (case rs of [] \<Rightarrow> False | r # rs' \<Rightarrow> r = c \<and> glob_accepts is rs')"
| "glob_accepts (OneChar # is) rs = (case rs of [] \<Rightarrow> False | r # rs' \<Rightarrow> r \<noteq> slash \<and> glob_accepts is rs')"
| "glob_accepts (AnyName # is) rs =
     (glob_accepts is rs \<or> (case rs of [] \<Rightarrow> False | r # rs' \<Rightarrow> r \<noteq> slash \<and> glob_accepts (AnyName # is) rs'))"
| "glob_accepts (AnyDeep # is) rs =
     (glob_accepts is rs \<or> (case rs of [] \<Rightarrow> False | r # rs' \<Rightarrow> r \<noteq> newline \<and> glob_accepts (AnyDeep # is) rs'))"
| "glob_accepts (AnyDirs # is) rs = (glob_accepts is rs \<or> glob_accepts (AnyDeep # Literal slash # is) rs)"
  by pat_completeness auto

termination
  by (relation "measure (\<lambda>(is, rs). sum_list (map weight is) + length rs)") auto

definition globMatch :: "string \<Rightarrow> string \<Rightarrow> bool" where
  "globMatch pattern path = glob_accepts (glob_items pattern) (rune_codes (map of_char path))"

section \<open>JSON with comments\<close>

text \<open>A byte inside a string, and whether the string and an escape go on after it.\<close>

definition advanceInsideJSONString :: "char \<Rightarrow> bool \<Rightarrow> bool \<times> bool" where
  "advanceInsideJSONString b escaped =
     (if escaped then (True, False) else if b = backslash then (True, True) else if b = CHR ''\"'' then (False, False)
      else (True, False))"

text \<open>What follows the comment, after its end; a line comment stops before its newline.\<close>

fun skipJSONCLineComment :: "string \<Rightarrow> string" where
  "skipJSONCLineComment [] = []"
| "skipJSONCLineComment (ch # s) = (if ch = CHR 0x0A then ch # s else skipJSONCLineComment s)"

fun skipJSONCBlockComment :: "string \<Rightarrow> string option" where
  "skipJSONCBlockComment (a # b # s) =
     (if a = CHR ''*'' \<and> b = CHR ''/'' then Some s else skipJSONCBlockComment (b # s))"
| "skipJSONCBlockComment _ = None"

lemma skip_line_length [termination_simp]: "length (skipJSONCLineComment s) \<le> length s"
  by (induction s) auto

lemma skip_block_length: "skipJSONCBlockComment s = Some t \<Longrightarrow> length t < length s"
  by (induction s rule: skipJSONCBlockComment.induct) (auto split: if_splits)

lemma skip_line_shorter: "skipJSONCLineComment s = x # rest \<Longrightarrow> length rest < length s"
  using skip_line_length [of s] by simp

lemma skip_block_shorter: "skipJSONCBlockComment (tl s) = Some rest \<Longrightarrow> length rest < Suc (length s)"
  using skip_block_length [of "tl s" rest] by (cases s) auto

text \<open>None for a block comment that does not end.\<close>

function strip_comments :: "bool \<Rightarrow> bool \<Rightarrow> string \<Rightarrow> string option" where
  "strip_comments inString escaped [] = Some []"
| "strip_comments inString escaped (b # s) =
     (if inString
      then (case advanceInsideJSONString b escaped of (i, e) \<Rightarrow> map_option ((#) b) (strip_comments i e s))
      else if b = CHR ''\"'' then map_option ((#) b) (strip_comments True escaped s)
      else if b = CHR ''/'' \<and> s \<noteq> [] \<and> hd s = CHR ''/''
      then (case skipJSONCLineComment s of
              [] \<Rightarrow> Some []
            | nl # rest \<Rightarrow> map_option ((#) nl) (strip_comments False escaped rest))
      else if b = CHR ''/'' \<and> s \<noteq> [] \<and> hd s = CHR ''*''
      then (case skipJSONCBlockComment (tl s) of
              None \<Rightarrow> None
            | Some rest \<Rightarrow> strip_comments False escaped rest)
      else map_option ((#) b) (strip_comments False escaped s))"
  by pat_completeness auto

termination
  by (relation "measure (\<lambda>(i, e, s). length s)") (auto dest: skip_line_shorter skip_block_shorter)

fun closes_next :: "string \<Rightarrow> bool" where
  "closes_next [] = False"
| "closes_next (ch # s) =
     (if ch = CHR '' '' \<or> ch = CHR 0x09 \<or> ch = CHR 0x0A \<or> ch = CHR 0x0D then closes_next s
      else ch = CHR ''}'' \<or> ch = CHR '']'')"

fun strip_commas :: "bool \<Rightarrow> bool \<Rightarrow> string \<Rightarrow> string" where
  "strip_commas inString escaped [] = []"
| "strip_commas inString escaped (b # s) =
     (if inString then (case advanceInsideJSONString b escaped of (i, e) \<Rightarrow> b # strip_commas i e s)
      else if b = CHR ''\"'' then b # strip_commas True escaped s
      else if b = CHR '','' \<and> closes_next s then strip_commas False escaped s
      else b # strip_commas False escaped s)"

definition stripTrailingCommas :: "string \<Rightarrow> string" where
  "stripTrailingCommas data = strip_commas False False data"

definition stripJSONCComments :: "string \<Rightarrow> string" where
  "stripJSONCComments data =
     (case strip_comments False False data of None \<Rightarrow> data | Some out \<Rightarrow> stripTrailingCommas out)"

section \<open>tsconfig.json\<close>

record ts_config =
  tc_Extends :: string
  tc_Include :: "string list option"
  tc_Exclude :: "string list option"
  tc_Files :: "string list option"

definition no_config :: ts_config where
  "no_config = \<lparr>tc_Extends = [], tc_Include = None, tc_Exclude = None, tc_Files = None\<rparr>"

text \<open>The outer \<open>extends\<close> hides the embedded one, so that a value of another shape is not an error.\<close>

definition config_shape :: gty where
  "config_shape = TyStruct [(''extends'', False, TyRaw), (''include'', False, TySlice TyString),
     (''exclude'', False, TySlice TyString), (''files'', False, TyPtr (TySlice TyString))]"

fun list_text :: "gval \<Rightarrow> string" where
  "list_text (GString s) = s"
| "list_text _ = []"

fun strings_of :: "gval \<Rightarrow> string list option" where
  "strings_of (GSlice vs) = Some (map list_text vs)"
| "strings_of _ = None"

text \<open>An explicit \<open>null\<close> is a missing list; \<open>files\<close> is a pointer.\<close>

fun pointed_strings :: "gval \<Rightarrow> string list option" where
  "pointed_strings (GPtr v) = Some (case strings_of v of None \<Rightarrow> [] | Some xs \<Rightarrow> xs)"
| "pointed_strings _ = None"

fun extends_of :: "gval \<Rightarrow> string" where
  "extends_of (GRaw raw) = (case unmarshal TyString raw of Some (GString s) \<Rightarrow> s | _ \<Rightarrow> [])"
| "extends_of _ = []"

definition UnmarshalTSConfig :: "raw_message \<Rightarrow> ts_config option" where
  "UnmarshalTSConfig raw =
     (case unmarshal config_shape raw of
        Some (GStruct [e, i, x, f]) \<Rightarrow>
          Some \<lparr>tc_Extends = extends_of e, tc_Include = strings_of i, tc_Exclude = strings_of x, tc_Files = pointed_strings f\<rparr>
      | _ \<Rightarrow> None)"

definition isTSConfigPathSpecifier :: "string \<Rightarrow> bool" where
  "isTSConfigPathSpecifier extends \<longleftrightarrow>
     has_prefix extends ''./'' \<or> has_prefix extends ''../'' \<or> has_prefix extends (''.'' @ [backslash])
   \<or> has_prefix extends (''..'' @ [backslash]) \<or> rooted extends"

definition matchesAny :: "string \<Rightarrow> string list \<Rightarrow> bool" where
  "matchesAny path patterns \<longleftrightarrow> list_ex (\<lambda>p. globMatch p path) patterns"

definition listed :: "string list option \<Rightarrow> string list" where
  "listed xs = (case xs of None \<Rightarrow> [] | Some ys \<Rightarrow> ys)"

definition matchesExclude :: "ts_config \<Rightarrow> string \<Rightarrow> bool" where
  "matchesExclude c path \<longleftrightarrow> matchesAny path (listed (tc_Exclude c))"

definition matchesInclude :: "ts_config \<Rightarrow> string \<Rightarrow> bool" where
  "matchesInclude c path =
     (if tc_Files c \<noteq> None \<and> matchesAny path (listed (tc_Files c)) then True
      else if listed (tc_Include c) \<noteq> [] then matchesAny path (listed (tc_Include c))
      else tc_Files c = None)"

definition rebaseTSConfigPatterns :: "string \<Rightarrow> string \<Rightarrow> string list option \<Rightarrow> string list option" where
  "rebaseTSConfigPatterns snapshotRoot baseDir patterns =
     (case patterns of
        None \<Rightarrow> None
      | Some ps \<Rightarrow>
          (case rel_path snapshotRoot baseDir of
             None \<Rightarrow> Some ps
           | Some rel \<Rightarrow> Some (map (path_join rel) ps)))"

definition applyTSConfigBase :: "ts_config \<Rightarrow> string \<Rightarrow> string \<Rightarrow> ts_config \<Rightarrow> ts_config" where
  "applyTSConfigBase config snapshotRoot baseDir base =
     config\<lparr>tc_Include := (if tc_Include config = None then rebaseTSConfigPatterns snapshotRoot baseDir (tc_Include base) else tc_Include config),
            tc_Exclude := (if tc_Exclude config = None then rebaseTSConfigPatterns snapshotRoot baseDir (tc_Exclude base) else tc_Exclude config),
            tc_Files := (if tc_Files config = None then rebaseTSConfigPatterns snapshotRoot baseDir (tc_Files base) else tc_Files config)\<rparr>"

section \<open>The snapshot on disk\<close>

datatype file_bytes = FileMissing | ReadFailed string | FileBytes string

record go_package =
  gp_Dir :: string
  gp_GoFiles :: "string list"
  gp_CgoFiles :: "string list"

text \<open>
  What \<open>go list\<close> answers: an error, or the packages it wrote and, where its output breaks off, the
  error of the decoder.
\<close>

record scope_env =
  xe_child :: git_process
  xe_eval :: "string \<Rightarrow> string + string"
  xe_extract :: "string \<Rightarrow> string \<Rightarrow> string + string"
  xe_go_list :: "string \<Rightarrow> string \<Rightarrow> string + go_package list \<times> string option"
  xe_read :: "string \<Rightarrow> file_bytes"
  xe_is_file :: "string \<Rightarrow> bool"
  xe_json :: "string \<Rightarrow> raw_message"
  xe_printable :: "nat \<Rightarrow> bool"

definition readTSConfigFile :: "scope_env \<Rightarrow> string \<Rightarrow> string + ts_config option" where
  "readTSConfigFile E path =
     (case xe_read E path of
        FileMissing \<Rightarrow> Inr None
      | ReadFailed e \<Rightarrow> Inl (''reading '' @ path @ '': '' @ e)
      | FileBytes data \<Rightarrow> Inr (UnmarshalTSConfig (xe_json E (stripJSONCComments data))))"

definition has_suffix :: "string \<Rightarrow> string \<Rightarrow> bool" where
  "has_suffix s e \<longleftrightarrow> has_prefix (rev s) (rev e)"

definition resolveTSConfigExtendsTarget :: "scope_env \<Rightarrow> string \<Rightarrow> string" where
  "resolveTSConfigExtendsTarget E dest =
     (if has_suffix dest ''.json'' then dest else if xe_is_file E dest then dest else dest @ ''.json'')"

definition escapes :: "string option \<Rightarrow> bool" where
  "escapes rel = (case rel of None \<Rightarrow> True | Some r \<Rightarrow> r = ''..'' \<or> has_prefix r ''../'')"

text \<open>The extended file, its directory and its path.\<close>

definition resolveExtendedTSConfig ::
  "scope_env \<Rightarrow> string \<Rightarrow> string \<Rightarrow> string \<Rightarrow> (ts_config \<times> string \<times> string) option" where
  "resolveExtendedTSConfig E snapshotRoot dir extends =
     (if \<not> isTSConfigPathSpecifier extends then None
      else
       (let dest = resolveTSConfigExtendsTarget E (if rooted extends then extends else path_join dir extends) in
        case xe_eval E snapshotRoot of
          Inl _ \<Rightarrow> None
        | Inr resolvedRoot \<Rightarrow>
       (case xe_eval E dest of
          Inl _ \<Rightarrow> None
        | Inr resolvedTarget \<Rightarrow>
            if escapes (rel_path resolvedRoot resolvedTarget) then None
            else (case readTSConfigFile E resolvedTarget of
                    Inr (Some base) \<Rightarrow> Some (base, path_dir resolvedTarget, path_clean resolvedTarget)
                  | _ \<Rightarrow> None))))"

text \<open>The chain of extended files; None is not returning.\<close>

partial_function (option) extend_chain ::
  "scope_env \<Rightarrow> string \<Rightarrow> ts_config \<Rightarrow> string \<Rightarrow> string \<Rightarrow> string list \<Rightarrow> ts_config option option" where
  "extend_chain E snapshotRoot config currentDir extends visited =
     (if extends = [] then Some (Some config)
      else (case resolveExtendedTSConfig E snapshotRoot currentDir extends of
              None \<Rightarrow> Some None
            | Some ext_file \<Rightarrow>
                if snd (snd ext_file) \<in> set visited then Some None
                else extend_chain E snapshotRoot (applyTSConfigBase config snapshotRoot (fst (snd ext_file)) (fst ext_file))
                       (fst (snd ext_file)) (tc_Extends (fst ext_file)) (snd (snd ext_file) # visited)))"

definition loadTSConfig :: "scope_env \<Rightarrow> string \<Rightarrow> (string + ts_config option) option" where
  "loadTSConfig E dir =
     (case readTSConfigFile E (path_join dir ''tsconfig.json'') of
        Inl e \<Rightarrow> Some (Inl e)
      | Inr None \<Rightarrow> Some (Inr None)
      | Inr (Some config) \<Rightarrow>
          if tc_Extends config = [] then Some (Inr (Some config))
          else (case xe_eval E dir of
                  Inl _ \<Rightarrow> Some (Inr None)
                | Inr resolvedDir \<Rightarrow>
                    map_option Inr (extend_chain E resolvedDir config dir (tc_Extends config)
                      [path_clean (path_join dir ''tsconfig.json'')])))"

section \<open>Go production files\<close>

definition snapshotBuildTarget :: "scope_env \<Rightarrow> string \<Rightarrow> string \<Rightarrow> string \<Rightarrow> string \<Rightarrow> string + string" where
  "snapshotBuildTarget E dest repositoryRoot invocationDir snapshotDir =
     (case xe_eval E invocationDir of
        Inl e \<Rightarrow> Inl (''resolving invocation directory: '' @ e)
      | Inr resolvedInvocationDir \<Rightarrow>
          if rooted dest
          then (case xe_eval E dest of
                  Inl e \<Rightarrow> Inl (''resolving build target: '' @ e)
                | Inr resolvedTarget \<Rightarrow>
                    let rel = rel_path repositoryRoot resolvedTarget in
                    if escapes rel
                    then Inl (''build target '' @ quote_go (xe_printable E) dest @ '' is outside the repository'')
                    else Inr (path_join snapshotDir (case rel of None \<Rightarrow> [] | Some r \<Rightarrow> r)))
          else if \<not> has_prefix dest ''.'' then Inr dest
          else (case rel_path repositoryRoot resolvedInvocationDir of
                  None \<Rightarrow> Inl (''resolving build target: Rel: can'' @ [CHR 0x27] @ ''t make '' @ resolvedInvocationDir
                            @ '' relative to '' @ repositoryRoot)
                | Some relDir \<Rightarrow> Inr (path_join (path_join snapshotDir relDir) dest)))"

definition listed_go_files :: "string \<Rightarrow> go_package list \<Rightarrow> string list" where
  "listed_go_files snapshotRoot pkgs =
     concat (map (\<lambda>p. List.map_filter
       (\<lambda>name. case rel_path snapshotRoot (path_join (gp_Dir p) name) of
                 None \<Rightarrow> None
               | Some path \<Rightarrow> if has_prefix path ''../'' then None else Some path)
       (gp_GoFiles p @ gp_CgoFiles p)) pkgs)"

definition goProductionFiles :: "scope_env \<Rightarrow> string \<Rightarrow> string \<Rightarrow> string \<Rightarrow> string \<Rightarrow> string + string list" where
  "goProductionFiles E snapshotDir repositoryRoot invocationDir buildTarget =
     (if buildTarget = [] then Inr []
      else (case snapshotBuildTarget E buildTarget repositoryRoot invocationDir snapshotDir of
              Inl e \<Rightarrow> Inl e
            | Inr dest \<Rightarrow>
           (case xe_go_list E snapshotDir dest of
              Inl e \<Rightarrow> Inl (''determining Go production files for '' @ quote_go (xe_printable E) buildTarget @ '': '' @ e)
            | Inr (pkgs, broken) \<Rightarrow>
                (case broken of
                   Some e \<Rightarrow> Inl (''decoding go list output: '' @ e)
                 | None \<Rightarrow> Inr (listed_go_files snapshotDir pkgs)))))"

section \<open>Labels\<close>

definition Production :: string where "Production = ''production''"
definition TestOnly :: string where "TestOnly = ''test_only''"
definition ScopeExcluded :: string where "ScopeExcluded = ''excluded''"
definition ScopeUnknown :: string where "ScopeUnknown = ''unknown''"

definition classifySourceFile :: "selected_file \<Rightarrow> string list \<Rightarrow> string \<Rightarrow> ts_config option \<Rightarrow> string" where
  "classifySourceFile sf goProduction buildTarget config =
     (if sf_Language sf = LanguageGo
      then (if sf_Path sf \<in> set goProduction then Production
            else if has_suffix (sf_Path sf) ''_test.go'' then TestOnly
            else if buildTarget = [] then ScopeUnknown
            else ScopeExcluded)
      else if sf_Language sf \<in> {LanguageTypeScript, LanguageTSX}
      then (case config of
              None \<Rightarrow> ScopeUnknown
            | Some c \<Rightarrow> if matchesExclude c (sf_Path sf) \<or> \<not> matchesInclude c (sf_Path sf) then TestOnly else Production)
      else ScopeUnknown)"

definition classifyFilename :: "selected_file \<Rightarrow> string" where
  "classifyFilename sf = (if has_suffix (sf_Path sf) ''_test.go'' then TestOnly else ScopeUnknown)"

definition relabel :: "(selected_file \<Rightarrow> string) \<Rightarrow> selected_file \<Rightarrow> selected_file" where
  "relabel f sf = sf\<lparr>sf_SourceScope := f sf\<rparr>"

definition label_loaded ::
  "selected_file list \<Rightarrow> string list \<Rightarrow> string \<Rightarrow> string + ts_config option \<Rightarrow> string + selected_file list" where
  "label_loaded files goProduction buildTarget loaded =
     (case loaded of
        Inl e \<Rightarrow> Inl e
      | Inr config \<Rightarrow> Inr (map (relabel (\<lambda>sf. classifySourceFile sf goProduction buildTarget config)) files))"

text \<open>None is not returning, which only a chain of configurations could do.\<close>

definition classifySourceFiles ::
  "scope_env \<Rightarrow> string \<Rightarrow> string \<Rightarrow> string \<Rightarrow> string \<Rightarrow> selected_file list \<Rightarrow> (string + selected_file list) option" where
  "classifySourceFiles E dir headSHA buildTarget scope files =
     (if scope = ''all'' then Some (Inr (map (relabel classifyFilename) files))
      else (case RepositoryRoot (xe_eval E) (xe_child E) dir of
              Inl e \<Rightarrow> Some (Inl e)
            | Inr repositoryRoot \<Rightarrow>
           (case xe_extract E repositoryRoot headSHA of
              Inl e \<Rightarrow> Some (Inl e)
            | Inr snapshotDir \<Rightarrow>
           (case goProductionFiles E snapshotDir repositoryRoot dir buildTarget of
              Inl e \<Rightarrow> Some (Inl e)
            | Inr goProduction \<Rightarrow>
                map_option (label_loaded files goProduction buildTarget) (loadTSConfig E snapshotDir)))))"

section \<open>What is left out\<close>

definition left_out :: "selected_file \<Rightarrow> bool" where
  "left_out sf \<longleftrightarrow> sf_SourceScope sf = TestOnly \<or> sf_SourceScope sf = ScopeExcluded"

definition group_key :: "selected_file \<Rightarrow> string \<times> string" where
  "group_key sf = (sf_SourceScope sf, sf_Language sf)"

definition group_order :: "string \<times> string \<Rightarrow> string \<times> string \<Rightarrow> int" where
  "group_order a b = cmp_or [cmp_compare (fst a) (fst b), cmp_compare (snd a) (snd b)]"

definition tallyClassified :: "selected_file list \<Rightarrow> selected_file list \<times> coverage_group list" where
  "tallyClassified classified =
     (let keys = map group_key (filter left_out classified) in
      (filter (\<lambda>sf. \<not> left_out sf) classified,
       map (\<lambda>k. \<lparr>cg_reason = fst k, cg_language = snd k, cg_count = count_list keys k\<rparr>) (stable_sort group_order (remdups keys))))"

definition ApplyScope ::
  "scope_env \<Rightarrow> string \<Rightarrow> string \<Rightarrow> string \<Rightarrow> string \<Rightarrow> selected_file list
     \<Rightarrow> (string + selected_file list \<times> coverage_group list) option" where
  "ApplyScope E dir headSHA buildTarget scope files =
     map_option (\<lambda>answer. case answer of
         Inl e \<Rightarrow> Inl e
       | Inr classified \<Rightarrow> Inr (if scope = ''all'' then (classified, []) else tallyClassified classified))
       (classifySourceFiles E dir headSHA buildTarget scope files)"

section \<open>Archives\<close>

text \<open>What the extraction of a snapshot asks of the file system.\<close>

datatype tar_kind = TarMetadata | TarDir | TarFile | TarLink | TarOther

record tar_header =
  th_Name :: string
  th_Kind :: tar_kind
  th_Mode :: nat
  th_Linkname :: string
  th_Content :: "string"

datatype fs_action =
    MakeDirs string nat
  | WriteFile string nat string
  | MakeLink string string

type_synonym 's fs_apply = "fs_action \<Rightarrow> 's \<Rightarrow> 's \<times> string option"

definition then_do :: "'s fs_apply \<Rightarrow> fs_action \<Rightarrow> 's \<times> string option \<Rightarrow> 's \<times> string option" where
  "then_do act a r = (case snd r of Some e \<Rightarrow> r | None \<Rightarrow> act a (fst r))"

definition extractTarRegularFile :: "'s fs_apply \<Rightarrow> string \<Rightarrow> tar_header \<Rightarrow> 's \<Rightarrow> 's \<times> string option" where
  "extractTarRegularFile act path h s =
     then_do act (WriteFile path (th_Mode h) (th_Content h)) (act (MakeDirs (path_dir path) 0x1ED) s)"

definition extractTarSymlink :: "'s fs_apply \<Rightarrow> string \<Rightarrow> tar_header \<Rightarrow> 's \<Rightarrow> 's \<times> string option" where
  "extractTarSymlink act path h s =
     then_do act (MakeLink (th_Linkname h) path) (act (MakeDirs (path_dir path) 0x1ED) s)"

definition safeTarEntryPath :: "(nat \<Rightarrow> bool) \<Rightarrow> string \<Rightarrow> string \<Rightarrow> string + string" where
  "safeTarEntryPath pr dir name =
     (let path = path_join dir name in
      if escapes (rel_path dir path) then Inl (''unsafe archive path '' @ quote_go pr name) else Inr path)"

definition extractTarEntry ::
  "(nat \<Rightarrow> bool) \<Rightarrow> 's fs_apply \<Rightarrow> string \<Rightarrow> tar_header \<Rightarrow> 's \<Rightarrow> 's \<times> string option" where
  "extractTarEntry pr act dir h s =
     (case safeTarEntryPath pr dir (th_Name h) of
        Inl e \<Rightarrow> (s, Some e)
      | Inr path \<Rightarrow>
          (case th_Kind h of
             TarMetadata \<Rightarrow> (s, None)
           | TarDir \<Rightarrow> act (MakeDirs path (th_Mode h)) s
           | TarFile \<Rightarrow> extractTarRegularFile act path h s
           | TarLink \<Rightarrow> extractTarSymlink act path h s
           | TarOther \<Rightarrow> (s, Some (''unsupported archive entry '' @ quote_go pr (th_Name h)))))"

text \<open>The entries of the archive, and the error of the reader after them, if any.\<close>

fun extractTar ::
  "(nat \<Rightarrow> bool) \<Rightarrow> 's fs_apply \<Rightarrow> string \<Rightarrow> tar_header list \<Rightarrow> string option \<Rightarrow> 's \<Rightarrow> 's \<times> string option" where
  "extractTar pr act dir [] broken s = (s, broken)"
| "extractTar pr act dir (h # hs) broken s =
     (case extractTarEntry pr act dir h s of
        (s', Some e) \<Rightarrow> (s', Some e)
      | (s', None) \<Rightarrow> extractTar pr act dir hs broken s')"

definition ExtractRevision ::
  "(nat \<Rightarrow> bool) \<Rightarrow> git_process \<Rightarrow> (string \<Rightarrow> tar_header list \<times> string option) \<Rightarrow> 's fs_apply
     \<Rightarrow> ('s \<Rightarrow> 's \<times> (string + string)) \<Rightarrow> (string \<Rightarrow> 's \<Rightarrow> 's) \<Rightarrow> string \<Rightarrow> string \<Rightarrow> 's \<Rightarrow> 's \<times> (string + string)" where
  "ExtractRevision pr child untar act mkdir_temp remove_all repositoryRoot revision s =
     (case RunBytes child repositoryRoot [''archive'', ''--format=tar'', revision] of
        Inl e \<Rightarrow> (s, Inl (''reading source snapshot '' @ quote_go pr revision @ '': '' @ git_text e))
      | Inr archive \<Rightarrow>
          (case mkdir_temp s of
             (s1, Inl e) \<Rightarrow> (s1, Inl (''creating source snapshot: '' @ e))
           | (s1, Inr dir) \<Rightarrow>
               (case extractTar pr act dir (fst (untar archive)) (snd (untar archive)) s1 of
                  (s2, Some e) \<Rightarrow> (remove_all dir s2, Inl (''extracting source snapshot: '' @ e))
                | (s2, None) \<Rightarrow> (s2, Inr dir))))"

section \<open>What a glob stands for\<close>

fun item_lang :: "glob_item \<Rightarrow> nat list set" where
  "item_lang (Literal c) = {[c]}"
| "item_lang OneChar = {[r] | r. r \<noteq> slash}"
| "item_lang AnyName = {u. slash \<notin> set u}"
| "item_lang AnyDeep = {u. newline \<notin> set u}"
| "item_lang AnyDirs = {[]} \<union> {u @ [slash] | u. newline \<notin> set u}"

fun glob_lang :: "glob_item list \<Rightarrow> nat list set" where
  "glob_lang [] = {[]}"
| "glob_lang (i # is) = {u @ v | u v. u \<in> item_lang i \<and> v \<in> glob_lang is}"

lemma run_step:
  "(\<exists>u v. rs = u @ v \<and> x \<notin> set u \<and> v \<in> L)
     \<longleftrightarrow> rs \<in> L \<or> (\<exists>r rs'. rs = r # rs' \<and> r \<noteq> x \<and> (\<exists>u v. rs' = u @ v \<and> x \<notin> set u \<and> v \<in> L))"
proof
  assume "\<exists>u v. rs = u @ v \<and> x \<notin> set u \<and> v \<in> L"
  then obtain u v where "rs = u @ v" "x \<notin> set u" "v \<in> L" by blast
  then show "rs \<in> L \<or> (\<exists>r rs'. rs = r # rs' \<and> r \<noteq> x \<and> (\<exists>u v. rs' = u @ v \<and> x \<notin> set u \<and> v \<in> L))"
    by (cases u) auto
next
  assume "rs \<in> L \<or> (\<exists>r rs'. rs = r # rs' \<and> r \<noteq> x \<and> (\<exists>u v. rs' = u @ v \<and> x \<notin> set u \<and> v \<in> L))"
  then consider "rs \<in> L" | r u v where "rs = (r # u) @ v" "r \<noteq> x" "x \<notin> set u" "v \<in> L" by auto
  then show "\<exists>u v. rs = u @ v \<and> x \<notin> set u \<and> v \<in> L"
  proof cases
    case 1
    then show ?thesis by (intro exI [of _ "[]"] exI [of _ rs]) simp
  next
    case (2 r u v)
    then show ?thesis by (intro exI [of _ "r # u"] exI [of _ v]) simp
  qed
qed

lemma glob_accepts_iff: "glob_accepts is rs \<longleftrightarrow> rs \<in> glob_lang is"
proof (induction "is" rs rule: glob_accepts.induct)
  case (2 c "is" rs)
  then show ?case by (auto split: list.splits)
next
  case (3 "is" rs)
  have "rs \<in> glob_lang (OneChar # is) \<longleftrightarrow> (\<exists>r v. rs = [r] @ v \<and> r \<noteq> slash \<and> v \<in> glob_lang is)"
    unfolding glob_lang.simps item_lang.simps by blast
  then show ?case using 3 by (cases rs) auto
next
  case (4 "is" rs)
  then show ?case using run_step [of rs slash "glob_lang is"] by (auto split: list.splits)
next
  case (5 "is" rs)
  then show ?case using run_step [of rs newline "glob_lang is"] by (auto split: list.splits)
next
  case (6 "is" rs)
  have "rs \<in> glob_lang (AnyDeep # Literal slash # is) \<longleftrightarrow> (\<exists>u v. rs = (u @ [slash]) @ v \<and> newline \<notin> set u \<and> v \<in> glob_lang is)"
    by auto
  moreover have "rs \<in> glob_lang (AnyDirs # is)
      \<longleftrightarrow> rs \<in> glob_lang is \<or> (\<exists>u v. rs = (u @ [slash]) @ v \<and> newline \<notin> set u \<and> v \<in> glob_lang is)"
    by (auto simp del: append_assoc)
  ultimately show ?case using 6 by simp
qed auto

text \<open>A pattern of plain ASCII without wildcards matches itself only; one beyond ASCII not even itself.\<close>

lemma plain_items: "\<forall>ch\<in>set p. ch \<noteq> CHR ''*'' \<and> ch \<noteq> CHR ''?'' \<Longrightarrow> glob_items p = map (\<lambda>ch. Literal (of_char ch)) p"
  by (induction p) auto

lemma literal_lang: "glob_lang (map (\<lambda>ch. Literal (of_char ch)) p) = {map of_char p}"
  by (induction p) auto

lemma accented_pattern_misses_its_name: "\<not> globMatch [CHR 0xC3, CHR 0xA9] [CHR 0xC3, CHR 0xA9]"
  by code_simp

section \<open>The chain of configurations ends\<close>

definition readable :: "scope_env \<Rightarrow> string set" where
  "readable E = path_clean ` {p. \<exists>d. xe_read E p = FileBytes d}"

lemma resolved_readable:
  assumes "resolveExtendedTSConfig E r dir ext = Some ext_file"
  shows "snd (snd ext_file) \<in> readable E"
  using assms
  by (auto simp: resolveExtendedTSConfig_def readTSConfigFile_def readable_def Let_def
      split: if_splits sum.splits option.splits file_bytes.splits)

lemma chain_returns:
  assumes "finite (readable E)"
  shows "\<exists>c. extend_chain E r config cur ext visited = Some c"
proof (induction "card (readable E - set visited)" arbitrary: config cur ext visited rule: less_induct)
  case less
  show ?case
  proof (cases "ext = [] \<or> resolveExtendedTSConfig E r cur ext = None")
    case True
    then show ?thesis by (auto simp: extend_chain.simps [of E r config cur ext visited])
  next
    case False
    then obtain ext_file where f: "ext \<noteq> []" "resolveExtendedTSConfig E r cur ext = Some ext_file" by auto
    show ?thesis
    proof (cases "snd (snd ext_file) \<in> set visited")
      case True
      then show ?thesis using f by (simp add: extend_chain.simps [of E r config cur ext visited])
    next
      case new: False
      have "readable E - set (snd (snd ext_file) # visited) \<subset> readable E - set visited"
        using resolved_readable [OF f(2)] new by auto
      then have "card (readable E - set (snd (snd ext_file) # visited)) < card (readable E - set visited)"
        using assms by (meson finite_Diff psubset_card_mono)
      from less [OF this] show ?thesis
        using f new by (simp add: extend_chain.simps [of E r config cur ext visited])
    qed
  qed
qed

lemma load_returns: "finite (readable E) \<Longrightarrow> \<exists>x. loadTSConfig E dir = Some x"
  using chain_returns [of E]
  by (auto simp: loadTSConfig_def split: sum.splits option.splits)

text \<open>
  The file \<open>tsconfig.json\<close> itself is read without the check its bases get: where it is a link, what it
  points to decides, wherever that is.
\<close>

lemma root_config_is_not_contained:
  assumes "xe_read E (path_join dir ''tsconfig.json'') = FileBytes d"
    and "UnmarshalTSConfig (xe_json E (stripJSONCComments d)) = Some c" and "tc_Extends c = []"
  shows "loadTSConfig E dir = Some (Inr (Some c))"
  using assms by (simp add: loadTSConfig_def readTSConfigFile_def)

section \<open>What is left out is counted\<close>

interpretation by_group: comparison group_order
proof
  show "group_order x y \<le> 0 \<or> group_order y x \<le> 0" for x y
    by (simp add: group_order_def cmp_compare_def)
  show "group_order x y \<le> 0 \<Longrightarrow> group_order y z \<le> 0 \<Longrightarrow> group_order x z \<le> 0" for x y z
    by (auto simp: group_order_def cmp_compare_def split: if_splits)
qed

text \<open>The order in which the counters are visited does not matter.\<close>

lemma groups_are_canonical: "mset ks = mset ks' \<Longrightarrow> stable_sort group_order ks = stable_sort group_order ks'"
  by (rule by_group.order_independent) (auto simp: group_order_def cmp_compare_def prod_eq_iff split: if_splits)

lemma count_key: "count_list (map f (filter P xs)) k = length (filter (\<lambda>x. P x \<and> f x = k) xs)"
  by (induction xs) auto

lemma tally_counts:
  assumes "tallyClassified classified = (kept, groups)"
  shows "kept = filter (\<lambda>sf. \<not> left_out sf) classified"
    and "length classified = length kept + sum_list (map cg_count groups)"
    and "distinct (map (\<lambda>g. (cg_reason g, cg_language g)) groups)"
    and "g \<in> set groups \<Longrightarrow> cg_reason g \<in> {TestOnly, ScopeExcluded} \<and> cg_count g > 0
       \<and> cg_count g = length (filter (\<lambda>sf. group_key sf = (cg_reason g, cg_language g)) classified)"
proof -
  let ?keys = "map group_key (filter left_out classified)"
  let ?order = "stable_sort group_order (remdups ?keys)"
  have kept: "kept = filter (\<lambda>sf. \<not> left_out sf) classified"
    and groups: "groups = map (\<lambda>k. \<lparr>cg_reason = fst k, cg_language = snd k, cg_count = count_list ?keys k\<rparr>) ?order"
    using assms by (auto simp: tallyClassified_def Let_def)
  then show "kept = filter (\<lambda>sf. \<not> left_out sf) classified" by simp
  have d: "distinct ?order" by (simp add: mset_eq_imp_distinct_iff [OF mset_stable_sort])
  have "sum_list (map cg_count groups) = sum_list (map (count_list ?keys) ?order)" by (simp add: groups comp_def)
  also have "\<dots> = length ?keys" by (rule count_by_label [OF d]) simp
  finally show "length classified = length kept + sum_list (map cg_count groups)"
    using sum_length_filter_compl [of left_out classified] by (simp add: kept)
  show "distinct (map (\<lambda>g. (cg_reason g, cg_language g)) groups)" using d by (simp add: groups comp_def)
  show "cg_reason g \<in> {TestOnly, ScopeExcluded} \<and> cg_count g > 0
       \<and> cg_count g = length (filter (\<lambda>sf. group_key sf = (cg_reason g, cg_language g)) classified)"
    if "g \<in> set groups"
  proof -
    have "g \<in> (\<lambda>k. \<lparr>cg_reason = fst k, cg_language = snd k, cg_count = count_list ?keys k\<rparr>) ` set ?keys"
      using that by (simp add: groups)
    then obtain k where k: "g = \<lparr>cg_reason = fst k, cg_language = snd k, cg_count = count_list ?keys k\<rparr>" "k \<in> set ?keys"
      by (rule imageE)
    then have reason: "fst k \<in> {TestOnly, ScopeExcluded}" by (auto simp: group_key_def left_out_def)
    then have "filter (\<lambda>sf. left_out sf \<and> group_key sf = k) classified = filter (\<lambda>sf. group_key sf = k) classified"
      by (intro filter_cong) (auto simp: group_key_def left_out_def)
    then show ?thesis using k reason count_list_0_iff [of ?keys k] by (simp add: count_key) 
  qed
qed

lemma scope_labels:
  assumes "classifySourceFiles E dir sha dest scope files = Some (Inr classified)"
  shows "\<exists>goProduction config. classified = map (relabel (if scope = ''all'' then classifyFilename
      else (\<lambda>sf. classifySourceFile sf goProduction dest config))) files"
proof (cases "scope = ''all''")
  case False
  then obtain goProduction loaded where "label_loaded files goProduction dest loaded = Inr classified"
    using assms by (auto simp: classifySourceFiles_def split: sum.splits)
  then show ?thesis using False by (auto simp: label_loaded_def split: sum.splits)
qed (use assms in \<open>simp add: classifySourceFiles_def\<close>)

lemma left_out_reason:
  assumes "left_out (relabel (\<lambda>sf. classifySourceFile sf goProduction dest config) sf)"
  shows "sf_Language sf = LanguageGo \<and> sf_Path sf \<notin> set goProduction \<and> (has_suffix (sf_Path sf) ''_test.go'' \<or> dest \<noteq> [])
    \<or> (\<exists>c. config = Some c \<and> sf_Language sf \<in> {LanguageTypeScript, LanguageTSX}
         \<and> (matchesExclude c (sf_Path sf) \<or> \<not> matchesInclude c (sf_Path sf)))"
  using assms
  by (auto simp: left_out_def relabel_def classifySourceFile_def Production_def TestOnly_def ScopeExcluded_def ScopeUnknown_def
      split: if_splits option.splits)


definition sample_scope :: scope_env where
  "sample_scope = \<lparr>xe_child = (\<lambda>dir args. (sample_git dir args)\<lparr>gc_stdout := ''/repo''\<rparr>), xe_eval = Inr, xe_extract = (\<lambda>_ _. Inr ''/tmp/snapshot''),
     xe_go_list = (\<lambda>_ _. Inr ([], None)), xe_read = (\<lambda>_. FileMissing), xe_is_file = (\<lambda>_. False),
     xe_json = (\<lambda>_. RawNil), xe_printable = (\<lambda>_. True)\<rparr>"

definition sample_test_file :: selected_file where
  "sample_test_file = sample_selected\<lparr>sf_Path := ''f_test.go''\<rparr>"


end
