(* ===== verification/RevisionFS.thy ===== *)
theory RevisionFS
  imports ProjectConfig
begin

text \<open>
  A Git revision as a read-only file system (internal/codesignalcli/revisionfs): one listing of the
  revision, kept as sets of files and directories, and reads by \<open>git show\<close>. The git process and the
  environment of the command are arguments.
\<close>

section \<open>The git child\<close>

definition MaxListBytes :: int where "MaxListBytes = 67108864"
definition maxSnapshotFileBytes :: int where "maxSnapshotFileBytes = 33554432"
definition maxSnapshotGitStderr :: int where "maxSnapshotGitStderr = 65536"

text \<open>The environment of every child, from a lookup in that of the command.\<close>

definition sanitizedSnapshotGitEnv :: "(string \<Rightarrow> string option) \<Rightarrow> string list" where
  "sanitizedSnapshotGitEnv lookup =
     [''GIT_TERMINAL_PROMPT=0'', ''GIT_CONFIG_NOSYSTEM=1'', ''GIT_NO_LAZY_FETCH=1'']
     @ (case lookup ''PATH'' of None \<Rightarrow> [] | Some v \<Rightarrow> [''PATH='' @ v])
     @ (case lookup ''HOME'' of None \<Rightarrow> [] | Some v \<Rightarrow> [''HOME='' @ v])"

type_synonym snapshot_process = "string list \<Rightarrow> git_process"

definition runSnapshotGit ::
  "snapshot_process \<Rightarrow> (string \<Rightarrow> string option) \<Rightarrow> string \<Rightarrow> int \<Rightarrow> string list \<Rightarrow> git_error + string" where
  "runSnapshotGit child lookup dir maxStdout args =
     RunBytesBoundedWith (child (sanitizedSnapshotGitEnv lookup)) dir maxStdout maxSnapshotGitStderr half_minute args"

section \<open>The listing\<close>

record dir_entry =
  de_name :: string
  de_isDir :: bool

record snapshot_paths =
  sp_childSets :: "(string \<times> (string \<times> bool) list) list"
  sp_isDir :: "string list"

definition names_below :: "snapshot_paths \<Rightarrow> string \<Rightarrow> (string \<times> bool) list" where
  "names_below sp parent = (case map_of (sp_childSets sp) parent of None \<Rightarrow> [] | Some names \<Rightarrow> names)"

definition put_child :: "string \<Rightarrow> string \<Rightarrow> bool \<Rightarrow> snapshot_paths \<Rightarrow> snapshot_paths" where
  "put_child parent name isDir sp =
     sp\<lparr>sp_childSets := AList.update parent (AList.update name isDir (names_below sp parent)) (sp_childSets sp)\<rparr>"

fun add_segments :: "string \<Rightarrow> string list \<Rightarrow> snapshot_paths \<Rightarrow> snapshot_paths" where
  "add_segments parent [] sp = sp"
| "add_segments parent (segment # rest) sp =
     (if rest = [] then put_child parent segment False sp
      else (let sp1 = put_child parent segment True sp; parent1 = path_join parent segment in
            add_segments parent1 rest (sp1\<lparr>sp_isDir := parent1 # sp_isDir sp1\<rparr>)))"

definition add_path :: "string \<Rightarrow> snapshot_paths \<Rightarrow> snapshot_paths" where
  "add_path filePath sp = add_segments ''.'' (split_slash filePath []) sp"

text \<open>The path and the size of an entry; a size that is no number counts as 0.\<close>

definition parseSnapshotLsTreeEntry :: "(nat \<Rightarrow> bool) \<Rightarrow> string \<Rightarrow> string + string \<times> int" where
  "parseSnapshotLsTreeEntry pr entry =
     (case cut_at (CHR 0x09) entry of
        None \<Rightarrow> Inl ''missing tab-separated path''
      | Some (meta, p) \<Rightarrow>
          (let fs = go_fields meta [] in
           if length fs < 4 then Inl (''expected mode/type/object/size, got '' @ quote_go pr meta)
           else (case atoi (fs ! 3) of None \<Rightarrow> Inr (p, 0) | Some n \<Rightarrow> Inr (p, n))))"

definition validateSnapshotPath :: "string \<Rightarrow> string option" where
  "validateSnapshotPath p =
     (if p = [] then Some ''path must be non-empty''
      else if hd p = CHR ''/'' then Some ''path must not be absolute''
      else if path_clean p \<noteq> p \<or> path_clean p = ''.'' \<or> path_clean p = ''..'' \<or> has_prefix (path_clean p) ''../''
      then Some ''path must be a normalized, repository-relative path''
      else if backslash \<in> set p then Some ''path must use forward-slash separators''
      else None)"

definition by_name :: "dir_entry \<Rightarrow> dir_entry \<Rightarrow> int" where
  "by_name a b = cmp_compare (de_name a) (de_name b)"

definition finalizeSnapshotChildren :: "(string \<times> (string \<times> bool) list) list \<Rightarrow> (string \<times> dir_entry list) list" where
  "finalizeSnapshotChildren childSets =
     map (\<lambda>(dir, names). (dir, stable_sort by_name (map (\<lambda>(n, d). \<lparr>de_name = n, de_isDir = d\<rparr>) names))) childSets"

record revision_fs =
  rv_dir :: string
  rv_revision :: string
  rv_isDir :: "string list"
  rv_isFile :: "string list"
  rv_sizes :: "(string \<times> int) list"
  rv_children :: "(string \<times> dir_entry list) list"

datatype listing_error = ListingFailed string | ListError string string git_error

definition listing_text :: "(nat \<Rightarrow> bool) \<Rightarrow> listing_error \<Rightarrow> string" where
  "listing_text pr e =
     (case e of
        ListingFailed m \<Rightarrow> m
      | ListError revision dir err \<Rightarrow> ''coach: git ls-tree failed for revision '' @ quote_go pr revision @ '' in ''
          @ quote_go pr dir @ '': '' @ git_text err)"

text \<open>The files in the order of the listing, with the sizes; or the first entry refused.\<close>

fun list_entries :: "(nat \<Rightarrow> bool) \<Rightarrow> string list \<Rightarrow> listing_error + (string \<times> int) list" where
  "list_entries pr [] = Inr []"
| "list_entries pr (entry # entries) =
     (case parseSnapshotLsTreeEntry pr entry of
        Inl e \<Rightarrow> Inl (ListingFailed (''coach: git ls-tree reported an unparseable entry '' @ quote_go pr entry @ '': '' @ e))
      | Inr (p, bytes) \<Rightarrow>
          (case validateSnapshotPath p of
             Some e \<Rightarrow> Inl (ListingFailed (''coach: git ls-tree reported an unsafe path '' @ quote_go pr p @ '': '' @ e))
           | None \<Rightarrow>
               (case list_entries pr entries of
                  Inl e \<Rightarrow> Inl e
                | Inr rest \<Rightarrow> Inr ((p, bytes) # rest))))"

definition no_paths :: snapshot_paths where
  "no_paths = \<lparr>sp_childSets = [], sp_isDir = [''.'']\<rparr>"

definition NewRevisionFS ::
  "(nat \<Rightarrow> bool) \<Rightarrow> snapshot_process \<Rightarrow> (string \<Rightarrow> string option) \<Rightarrow> string \<Rightarrow> string \<Rightarrow> listing_error + revision_fs" where
  "NewRevisionFS pr child lookup dir revision =
     (if revision = [] then Inl (ListingFailed ''coach: revision must be a non-empty Git revision'')
      else (case runSnapshotGit child lookup dir MaxListBytes [''ls-tree'', ''-r'', ''-z'', ''-l'', revision] of
              Inl e \<Rightarrow> Inl (ListError revision dir e)
            | Inr output \<Rightarrow>
           (case list_entries pr (SplitNULPaths output) of
              Inl e \<Rightarrow> Inl e
            | Inr entries \<Rightarrow>
                (let sp = fold (add_path \<circ> fst) entries no_paths in
                 Inr \<lparr>rv_dir = dir, rv_revision = revision, rv_isDir = sp_isDir sp, rv_isFile = map fst entries,
                      rv_sizes = rev entries, rv_children = finalizeSnapshotChildren (sp_childSets sp)\<rparr>))))"

section \<open>Opening and reading\<close>

datatype path_problem = ErrInvalidName | ErrNotExist | OtherProblem string

record path_error =
  pe_Op :: string
  pe_Path :: string
  pe_Err :: path_problem

definition path_failure :: "string \<Rightarrow> string \<Rightarrow> path_problem \<Rightarrow> path_error" where
  "path_failure op p e = \<lparr>pe_Op = op, pe_Path = p, pe_Err = e\<rparr>"

text \<open>\<open>utf8.ValidString\<close> and \<open>fs.ValidPath\<close>.\<close>

function valid_codes :: "nat list \<Rightarrow> bool" where
  "valid_codes bs =
     (if bs = [] then True
      else (case decode_rune bs of None \<Rightarrow> False | Some (r, w) \<Rightarrow> valid_codes (drop (max 1 w) bs)))"
  by pat_completeness auto

termination by (relation "measure length") auto

declare valid_codes.simps [simp del]

definition ValidPath :: "string \<Rightarrow> bool" where
  "ValidPath name \<longleftrightarrow> valid_codes (map of_char name)
     \<and> (name = ''.'' \<or> list_all (\<lambda>e. e \<noteq> [] \<and> e \<noteq> ''.'' \<and> e \<noteq> ''..'') (split_slash name []))"

definition normalizeSnapshotName :: "string \<Rightarrow> string option" where
  "normalizeSnapshotName name = (if name = ''.'' then Some ''.'' else if \<not> ValidPath name then None else Some name)"

record file_info =
  fi_Name :: string
  fi_Size :: int
  fi_Mode :: nat
  fi_IsDir :: bool

definition snapshotFileInfo :: "string \<Rightarrow> int \<Rightarrow> file_info" where
  "snapshotFileInfo name bytes = \<lparr>fi_Name = name, fi_Size = bytes, fi_Mode = 0x124, fi_IsDir = False\<rparr>"

text \<open>\<open>fs.ModeDir\<close> is the highest of 32 bits.\<close>

definition snapshotDirInfo :: "string \<Rightarrow> file_info" where
  "snapshotDirInfo name = \<lparr>fi_Name = name, fi_Size = 0, fi_Mode = 2 ^ 31 + 0x16D, fi_IsDir = True\<rparr>"

definition entry_Info :: "dir_entry \<Rightarrow> file_info" where
  "entry_Info e = (if de_isDir e then snapshotDirInfo (de_name e) else snapshotFileInfo (de_name e) 0)"

definition entry_Type :: "dir_entry \<Rightarrow> nat" where
  "entry_Type e = (if de_isDir e then 2 ^ 31 else 0)"

datatype open_file =
    SnapshotFile string string nat
  | SnapshotDirFile string "dir_entry list" nat

definition read_content ::
  "snapshot_process \<Rightarrow> (string \<Rightarrow> string option) \<Rightarrow> revision_fs \<Rightarrow> string \<Rightarrow> path_error + string" where
  "read_content child lookup f name =
     (case runSnapshotGit child lookup (rv_dir f) maxSnapshotFileBytes [''show'', rv_revision f @ '':'' @ name] of
        Inl e \<Rightarrow> Inl (path_failure ''read'' name (OtherProblem (''git show '' @ rv_revision f @ '':'' @ name @ '': '' @ git_text e)))
      | Inr data \<Rightarrow> Inr data)"

definition entries_of :: "revision_fs \<Rightarrow> string \<Rightarrow> dir_entry list" where
  "entries_of f d = (case map_of (rv_children f) d of None \<Rightarrow> [] | Some es \<Rightarrow> es)"

definition OpenSnapshot ::
  "snapshot_process \<Rightarrow> (string \<Rightarrow> string option) \<Rightarrow> revision_fs \<Rightarrow> string \<Rightarrow> path_error + open_file" where
  "OpenSnapshot child lookup f name =
     (case normalizeSnapshotName name of
        None \<Rightarrow> Inl (path_failure ''open'' name ErrInvalidName)
      | Some clean \<Rightarrow>
          if clean \<in> set (rv_isDir f) then Inr (SnapshotDirFile clean (entries_of f clean) 0)
          else if clean \<in> set (rv_isFile f)
          then (case read_content child lookup f clean of Inl e \<Rightarrow> Inl e | Inr data \<Rightarrow> Inr (SnapshotFile clean data 0))
          else Inl (path_failure ''open'' name ErrNotExist))"

definition StatSnapshot :: "revision_fs \<Rightarrow> string \<Rightarrow> path_error + file_info" where
  "StatSnapshot f name =
     (case normalizeSnapshotName name of
        None \<Rightarrow> Inl (path_failure ''stat'' name ErrInvalidName)
      | Some clean \<Rightarrow>
          if clean \<in> set (rv_isDir f) then Inr (snapshotDirInfo (path_base clean))
          else if clean \<in> set (rv_isFile f)
          then Inr (snapshotFileInfo (path_base clean) (case map_of (rv_sizes f) clean of None \<Rightarrow> 0 | Some n \<Rightarrow> n))
          else Inl (path_failure ''stat'' name ErrNotExist))"

definition ReadDirSnapshot :: "revision_fs \<Rightarrow> string \<Rightarrow> path_error + dir_entry list" where
  "ReadDirSnapshot f name =
     (case normalizeSnapshotName name of
        None \<Rightarrow> Inl (path_failure ''readdir'' name ErrInvalidName)
      | Some clean \<Rightarrow>
          if clean \<notin> set (rv_isDir f)
          then Inl (path_failure ''readdir'' name (if clean \<in> set (rv_isFile f) then OtherProblem ''not a directory'' else ErrNotExist))
          else Inr (entries_of f clean))"

definition ReadFileSnapshot ::
  "snapshot_process \<Rightarrow> (string \<Rightarrow> string option) \<Rightarrow> revision_fs \<Rightarrow> string \<Rightarrow> path_error + string" where
  "ReadFileSnapshot child lookup f name =
     (case normalizeSnapshotName name of
        None \<Rightarrow> Inl (path_failure ''readfile'' name ErrInvalidName)
      | Some clean \<Rightarrow>
          if clean \<in> set (rv_isDir f) then Inl (path_failure ''read'' name (OtherProblem ''is a directory''))
          else if clean \<notin> set (rv_isFile f) then Inl (path_failure ''open'' name ErrNotExist)
          else read_content child lookup f clean)"

text \<open>
  Reads of an open file and of an open directory: the new position with the data, or None at the
  end; a directory has no bytes.
\<close>

definition ReadOpen :: "nat \<Rightarrow> open_file \<Rightarrow> open_file \<times> (path_error + string option)" where
  "ReadOpen room h =
     (case h of
        SnapshotFile name data pos \<Rightarrow>
          if pos \<ge> length data then (h, Inr None)
          else (let chunk = take room (drop pos data) in (SnapshotFile name data (pos + length chunk), Inr (Some chunk)))
      | SnapshotDirFile name es off \<Rightarrow> (h, Inl (path_failure ''read'' name (OtherProblem ''is a directory''))))"

definition ReadDirOpen :: "int \<Rightarrow> open_file \<Rightarrow> open_file \<times> dir_entry list option" where
  "ReadDirOpen n h =
     (case h of
        SnapshotDirFile name es off \<Rightarrow>
          if n \<le> 0 then (SnapshotDirFile name es (length es), Some (drop off es))
          else if off \<ge> length es then (h, None)
          else (let stop = min (off + nat n) (length es) in
                (SnapshotDirFile name es stop, Some (take (stop - off) (drop off es))))
      | SnapshotFile name data pos \<Rightarrow> (h, None))"

definition StatOpen :: "open_file \<Rightarrow> file_info" where
  "StatOpen h =
     (case h of
        SnapshotFile name data pos \<Rightarrow> snapshotFileInfo (path_base name) (int (length data))
      | SnapshotDirFile name es off \<Rightarrow> snapshotDirInfo (path_base name))"

section \<open>The tree of the listing\<close>

text \<open>The directory of a list of path elements, and what one path puts into the child sets.\<close>

definition dirname_of :: "string list \<Rightarrow> string" where
  "dirname_of es = (if es = [] then ''.'' else join_with ''/'' es)"

definition plain_elements :: "string list \<Rightarrow> bool" where
  "plain_elements es \<longleftrightarrow> (\<forall>e\<in>set es. plain_element e \<and> CHR ''/'' \<notin> set e)"

fun edges :: "string \<Rightarrow> string list \<Rightarrow> (string \<times> string \<times> bool) list" where
  "edges parent [] = []"
| "edges parent (e # es) = (parent, e, es \<noteq> []) # edges (path_join parent e) es"

definition entry_at :: "snapshot_paths \<Rightarrow> string \<Rightarrow> string \<Rightarrow> bool option" where
  "entry_at sp parent name = map_of (names_below sp parent) name"

lemma entry_put: "entry_at (put_child p n b sp) q m = (if q = p \<and> m = n then Some b else entry_at sp q m)"
  by (simp add: entry_at_def names_below_def put_child_def map_of_alist_update)

lemma entry_dirs [simp]: "entry_at (sp\<lparr>sp_isDir := ds\<rparr>) q m = entry_at sp q m"
  by (simp add: entry_at_def names_below_def)

lemma add_segments_edges:
  "(entry_at (add_segments parent es sp) q m = Some b \<longrightarrow> (q, m, b) \<in> set (edges parent es) \<or> entry_at sp q m = Some b)
   \<and> (entry_at (add_segments parent es sp) q m = None \<longleftrightarrow> entry_at sp q m = None \<and> (\<forall>b. (q, m, b) \<notin> set (edges parent es)))"
proof (induction es arbitrary: parent sp)
  case (Cons e es)
  show ?case
  proof (cases "es = []")
    case True
    then show ?thesis by (auto simp: entry_put)
  next
    case False
    then show ?thesis
      using Cons.IH [of "path_join parent e" "(put_child parent e True sp)\<lparr>sp_isDir := path_join parent e # sp_isDir (put_child parent e True sp)\<rparr>"]
      by (auto simp: Let_def entry_put split: if_splits)
  qed
qed simp

definition dirs_of :: "string \<Rightarrow> string list \<Rightarrow> string set" where
  "dirs_of parent es = {path_join q m | q m. (q, m, True) \<in> set (edges parent es)}"

lemma dirs_Cons: "dirs_of parent (e # es) = (if es = [] then {} else insert (path_join parent e) (dirs_of (path_join parent e) es))"
  by (auto simp: dirs_of_def)

lemma put_child_dirs [simp]: "sp_isDir (put_child p n b sp) = sp_isDir sp"
  by (simp add: put_child_def)

lemma add_segments_dirs: "set (sp_isDir (add_segments parent es sp)) = dirs_of parent es \<union> set (sp_isDir sp)"
  by (induction es arbitrary: parent sp) (auto simp: dirs_Cons Let_def dirs_of_def)

text \<open>Over all paths of a listing.\<close>

definition path_edges :: "string list \<Rightarrow> (string \<times> string \<times> bool) set" where
  "path_edges ps = (\<Union>p\<in>set ps. set (edges ''.'' (split_slash p [])))"

lemma listing_edges:
  "(entry_at (fold add_path ps sp) q m = Some b \<longrightarrow> (q, m, b) \<in> path_edges ps \<or> entry_at sp q m = Some b)
   \<and> (entry_at (fold add_path ps sp) q m = None \<longleftrightarrow> entry_at sp q m = None \<and> (\<forall>b. (q, m, b) \<notin> path_edges ps))"
proof (induction ps arbitrary: sp)
  case (Cons p ps)
  show ?case
    using Cons.IH [of "add_path p sp"] add_segments_edges [of "''.''" "split_slash p []" sp q m b]
      add_segments_edges [of "''.''" "split_slash p []" sp q m]
    by (auto simp: path_edges_def add_path_def)
qed (simp add: path_edges_def)

lemma listing_dirs:
  "set (sp_isDir (fold add_path ps sp)) = {path_join q m | q m. (q, m, True) \<in> path_edges ps} \<union> set (sp_isDir sp)"
  by (induction ps arbitrary: sp) (auto simp: path_edges_def add_path_def add_segments_dirs dirs_of_def)

section \<open>Paths and their elements\<close>

lemma dirname_split:
  assumes "plain_elements es" "es \<noteq> []"
  shows "split_slash (dirname_of es) [] = es"
  using assms split_join [of es] by (simp add: dirname_of_def plain_elements_def)

lemma dirname_plain: "plain_elements es \<Longrightarrow> es \<noteq> [] \<Longrightarrow> plain_path (dirname_of es)"
  by (simp add: plain_path_def dirname_split plain_elements_def list_all_iff)

lemma plain_path_elements: "plain_path p \<Longrightarrow> plain_elements (split_slash p []) \<and> dirname_of (split_slash p []) = p"
  using split_no_slash [of _ p "[]"] by (auto simp: plain_path_def plain_elements_def list_all_iff dirname_of_def join_split)

lemma dirname_inject:
  assumes "plain_elements es" "plain_elements fs" "dirname_of es = dirname_of fs"
  shows "es = fs"
proof (cases "es = [] \<or> fs = []")
  case True
  then show ?thesis
    using assms plain_path_inside(1) [OF dirname_plain] by (metis dirname_of_def)
next
  case False
  then show ?thesis using assms dirname_split by metis
qed

lemma join_snoc: "es \<noteq> [] \<Longrightarrow> join_with sep (es @ [e]) = join_with sep es @ sep @ e"
  by (induction sep es rule: join_with.induct) auto

lemma join_append: "es \<noteq> [] \<Longrightarrow> fs \<noteq> [] \<Longrightarrow> join_with sep (es @ fs) = join_with sep es @ sep @ join_with sep fs"
  by (induction sep es rule: join_with.induct) (auto simp: neq_Nil_conv)

lemma path_join_snoc:
  assumes "plain_elements (es @ [e])"
  shows "path_join (dirname_of es) e = dirname_of (es @ [e])"
proof -
  have e: "plain_element e" "CHR ''/'' \<notin> set e" using assms by (auto simp: plain_elements_def)
  have p: "plain_path (dirname_of (es @ [e]))" using dirname_plain [OF assms] by simp
  show ?thesis
  proof (cases "es = []")
    case False
    have "dirname_of es @ ''/'' @ e = dirname_of (es @ [e])" using False by (simp add: dirname_of_def join_snoc)
    then show ?thesis using plain_path_clean(1) [OF p] e(1) by (simp add: path_join_def plain_element_def)
  next
    case True
    have s: "split_slash (''./'' @ e) [] = [''.'', e]"
      using split_element [OF e(2), of "[]" "[]"] by simp
    have "clean_elements False [''.'', e] [] = [e]" using e(1) by (auto simp: plain_element_def)
    then have "path_clean (''./'' @ e) = e"
      using s e(1) by (simp add: path_clean_def plain_element_def)
    then show ?thesis using True e(1) by (simp add: path_join_def dirname_of_def plain_element_def)
  qed
qed

lemma edges_iff:
  "plain_elements (pre @ es) \<Longrightarrow>
     (q, n, b) \<in> set (edges (dirname_of pre) es)
       \<longleftrightarrow> (\<exists>mid post. es = mid @ n # post \<and> q = dirname_of (pre @ mid) \<and> b = (post \<noteq> []))"
proof (induction es arbitrary: pre)
  case (Cons e es)
  have j: "path_join (dirname_of pre) e = dirname_of (pre @ [e])"
    using Cons.prems by (intro path_join_snoc) (auto simp: plain_elements_def)
  have IH: "(q, n, b) \<in> set (edges (dirname_of (pre @ [e])) es)
      \<longleftrightarrow> (\<exists>mid post. es = mid @ n # post \<and> q = dirname_of ((pre @ [e]) @ mid) \<and> b = (post \<noteq> []))"
    using Cons.prems by (intro Cons.IH) simp
  show ?case
  proof
    assume "(q, n, b) \<in> set (edges (dirname_of pre) (e # es))"
    then consider "q = dirname_of pre" "n = e" "b = (es \<noteq> [])"
      | mid post where "es = mid @ n # post" "q = dirname_of ((pre @ [e]) @ mid)" "b = (post \<noteq> [])"
      using IH j by auto
    then show "\<exists>mid post. e # es = mid @ n # post \<and> q = dirname_of (pre @ mid) \<and> b = (post \<noteq> [])"
    proof cases
      case 1
      then show ?thesis by (intro exI [of _ "[]"] exI [of _ es]) simp
    next
      case (2 mid post)
      then show ?thesis by (intro exI [of _ "e # mid"] exI [of _ post]) simp
    qed
  next
    assume "\<exists>mid post. e # es = mid @ n # post \<and> q = dirname_of (pre @ mid) \<and> b = (post \<noteq> [])"
    then obtain mid post where m: "e # es = mid @ n # post" "q = dirname_of (pre @ mid)" "b = (post \<noteq> [])" by blast
    then show "(q, n, b) \<in> set (edges (dirname_of pre) (e # es))"
      using IH j by (cases mid) auto
  qed
qed auto

lemma has_prefix_split: "has_prefix p q \<longleftrightarrow> (\<exists>r. p = q @ r)"
  by (auto simp: has_prefix_def) (metis append_take_drop_id)

lemma split_parts: "split_slash (d @ ''/'' @ r) [] = split_slash d [] @ split_slash r []"
proof -
  have "d @ ''/'' @ r = join_with ''/'' (split_slash d [] @ split_slash r [])"
    by (simp add: join_append join_split)
  moreover have "\<forall>e\<in>set (split_slash d [] @ split_slash r []). CHR ''/'' \<notin> set e"
    using split_no_slash [of _ d "[]"] split_no_slash [of _ r "[]"] by auto
  ultimately show ?thesis using split_join by (metis append_is_Nil_conv split_nonempty)
qed

lemma split_below:
  assumes "plain_elements es" "es \<noteq> []"
  shows "split_slash (dirname_of es @ ''/'' @ r) [] = es @ split_slash r []"
  using split_parts [of "dirname_of es" r] dirname_split [OF assms] by simp

lemma below_iff:
  assumes "plain_path p" "plain_elements es" "es \<noteq> []"
  shows "has_prefix p (dirname_of es @ ''/'') \<longleftrightarrow> (\<exists>post. post \<noteq> [] \<and> split_slash p [] = es @ post)"
proof
  assume "has_prefix p (dirname_of es @ ''/'')"
  then obtain r where "p = dirname_of es @ ''/'' @ r" by (auto simp: has_prefix_split)
  then show "\<exists>post. post \<noteq> [] \<and> split_slash p [] = es @ post"
    using split_below [OF assms(2,3)] split_nonempty by metis
next
  assume "\<exists>post. post \<noteq> [] \<and> split_slash p [] = es @ post"
  then obtain post where post: "post \<noteq> []" "split_slash p [] = es @ post" by blast
  have "p = join_with ''/'' (es @ post)" using join_split [of p] post(2) by simp
  then have "p = (dirname_of es @ ''/'') @ join_with ''/'' post"
    using assms(3) post(1) by (simp add: dirname_of_def join_append)
  then show "has_prefix p (dirname_of es @ ''/'')" by (auto simp: has_prefix_split)
qed

definition all_plain :: "string list \<Rightarrow> bool" where
  "all_plain ps \<longleftrightarrow> (\<forall>p\<in>set ps. plain_path p)"

text \<open>What a listing says of a name below a directory.\<close>

definition listed_below :: "string list \<Rightarrow> string \<Rightarrow> string \<Rightarrow> bool \<Rightarrow> bool" where
  "listed_below ps d n b \<longleftrightarrow> plain_element n \<and> CHR ''/'' \<notin> set n
     \<and> (if b then \<exists>p\<in>set ps. has_prefix p (path_join d n @ ''/'') else path_join d n \<in> set ps)"

lemma edges_of_path:
  assumes "plain_path p"
  shows "(q, n, b) \<in> set (edges ''.'' (split_slash p []))
    \<longleftrightarrow> (\<exists>mid post. split_slash p [] = mid @ n # post \<and> q = dirname_of mid \<and> b = (post \<noteq> []))"
  using edges_iff [of "[]" "split_slash p []" q n b] plain_path_elements [OF assms] by (simp add: dirname_of_def)

lemma edges_listed:
  assumes "all_plain ps" "plain_elements es"
  shows "(dirname_of es, n, b) \<in> path_edges ps \<longleftrightarrow> listed_below ps (dirname_of es) n b"
proof
  assume "(dirname_of es, n, b) \<in> path_edges ps"
  then obtain p mid post where p: "p \<in> set ps" "split_slash p [] = mid @ n # post" "dirname_of es = dirname_of mid" "b = (post \<noteq> [])"
    using edges_of_path assms(1) by (fastforce simp: path_edges_def all_plain_def)
  have pp: "plain_path p" using p(1) assms(1) by (simp add: all_plain_def)
  have mid: "plain_elements mid" "plain_elements (mid @ [n])" "plain_element n" "CHR ''/'' \<notin> set n"
    using plain_path_elements [OF pp] p(2) by (auto simp: plain_elements_def)
  have es: "es = mid" using dirname_inject assms(2) mid(1) p(3) by blast
  have j: "path_join (dirname_of es) n = dirname_of (mid @ [n])" using path_join_snoc [OF mid(2)] es by simp
  show "listed_below ps (dirname_of es) n b"
  proof (cases "post = []")
    case True
    then have "dirname_of (mid @ [n]) = p" using plain_path_elements [OF pp] p(2) by simp
    then show ?thesis using True p(1,4) j mid by (simp add: listed_below_def)
  next
    case False
    then have "has_prefix p (dirname_of (mid @ [n]) @ ''/'')" using below_iff [OF pp mid(2)] p(2) by simp
    then show ?thesis using False p(1,4) j mid by (auto simp: listed_below_def)
  qed
next
  assume l: "listed_below ps (dirname_of es) n b"
  have pl: "plain_elements (es @ [n])" using l assms(2) by (auto simp: listed_below_def plain_elements_def)
  then have j: "path_join (dirname_of es) n = dirname_of (es @ [n])" by (rule path_join_snoc)
  show "(dirname_of es, n, b) \<in> path_edges ps"
  proof (cases b)
    case True
    then obtain p where p: "p \<in> set ps" "has_prefix p (dirname_of (es @ [n]) @ ''/'')"
      using l j by (auto simp: listed_below_def)
    have pp: "plain_path p" using p(1) assms(1) by (simp add: all_plain_def)
    obtain post where "post \<noteq> []" "split_slash p [] = es @ n # post" using below_iff [OF pp pl] p(2) by auto
    then have "(dirname_of es, n, True) \<in> set (edges ''.'' (split_slash p []))"
      unfolding edges_of_path [OF pp] by (intro exI conjI) (assumption, simp_all)
    then show ?thesis using True p(1) by (auto simp: path_edges_def)
  next
    case False
    then have p: "dirname_of (es @ [n]) \<in> set ps" using l j by (auto simp: listed_below_def)
    then have "plain_path (dirname_of (es @ [n]))" using assms(1) by (simp add: all_plain_def)
    from edges_of_path [OF this, of "dirname_of es" n b] have "(dirname_of es, n, b) \<in> set (edges ''.'' (split_slash (dirname_of (es @ [n])) []))"
      using False by (auto simp: dirname_split [OF pl])
    then show ?thesis using p by (auto simp: path_edges_def)
  qed
qed

text \<open>In the listing of a tree of git no file is also a directory.\<close>

definition tree_listing :: "string list \<Rightarrow> bool" where
  "tree_listing ps \<longleftrightarrow> (\<forall>p\<in>set ps. \<forall>q\<in>set ps. \<not> has_prefix q (p @ ''/''))"

lemma entry_listed:
  assumes "all_plain ps" "tree_listing ps" "plain_elements es"
  shows "entry_at (fold add_path ps no_paths) (dirname_of es) n = Some b \<longleftrightarrow> listed_below ps (dirname_of es) n b"
proof
  have none: "entry_at no_paths q m = None" for q m by (simp add: entry_at_def names_below_def no_paths_def)
  note L = listing_edges [of ps no_paths "dirname_of es" n]
  show "listed_below ps (dirname_of es) n b" if "entry_at (fold add_path ps no_paths) (dirname_of es) n = Some b"
    using that L [of b] none edges_listed [OF assms(1,3)] by auto
  show "entry_at (fold add_path ps no_paths) (dirname_of es) n = Some b" if l: "listed_below ps (dirname_of es) n b"
  proof -
    obtain b' where b': "entry_at (fold add_path ps no_paths) (dirname_of es) n = Some b'"
      using l L none edges_listed [OF assms(1,3)] by fastforce
    then have "listed_below ps (dirname_of es) n b'" using L [of b'] none edges_listed [OF assms(1,3)] by auto
    then have "b' = b" using l assms(2) unfolding listed_below_def tree_listing_def by (auto split: if_splits)
    then show ?thesis using b' by simp
  qed
qed

lemma dirs_listed:
  assumes "all_plain ps"
  shows "d \<in> set (sp_isDir (fold add_path ps no_paths)) \<longleftrightarrow> d = ''.'' \<or> (\<exists>p\<in>set ps. has_prefix p (d @ ''/''))"
proof -
  have "(\<exists>q m. d = path_join q m \<and> (q, m, True) \<in> path_edges ps) \<longleftrightarrow> (\<exists>p\<in>set ps. has_prefix p (d @ ''/''))"
  proof
    assume "\<exists>q m. d = path_join q m \<and> (q, m, True) \<in> path_edges ps"
    then obtain q m p mid post where p: "d = path_join q m" "p \<in> set ps" "split_slash p [] = mid @ m # post" "q = dirname_of mid" "post \<noteq> []"
      using edges_of_path assms by (fastforce simp: path_edges_def all_plain_def)
    have pp: "plain_path p" using p(2) assms by (simp add: all_plain_def)
    have pl: "plain_elements (mid @ [m])" using plain_path_elements [OF pp] p(3) by (auto simp: plain_elements_def)
    have "has_prefix p (dirname_of (mid @ [m]) @ ''/'')" using below_iff [OF pp pl] p(3,5) by simp
    then show "\<exists>p\<in>set ps. has_prefix p (d @ ''/'')" using p path_join_snoc [OF pl] by auto
  next
    assume "\<exists>p\<in>set ps. has_prefix p (d @ ''/'')"
    then obtain p r where p: "p \<in> set ps" "p = d @ ''/'' @ r" by (auto simp: has_prefix_split)
    have pp: "plain_path p" using p(1) assms by (simp add: all_plain_def)
    have s: "split_slash p [] = split_slash d [] @ split_slash r []" using split_parts p(2) by simp
    then have pd: "plain_path d" using pp by (simp add: plain_path_def)
    obtain mid m where m: "split_slash d [] = mid @ [m]" by (metis rev_exhaust split_nonempty)
    have pl: "plain_elements (mid @ [m])" using plain_path_elements [OF pd] m by simp
    have "d = dirname_of (mid @ [m])" using plain_path_elements [OF pd] m by simp
    then have "d = path_join (dirname_of mid) m" using path_join_snoc [OF pl] by simp
    moreover have "(dirname_of mid, m, True) \<in> path_edges ps"
    proof -
      have "split_slash p [] = mid @ m # split_slash r []" using s m by simp
      then have "(dirname_of mid, m, True) \<in> set (edges ''.'' (split_slash p []))"
        unfolding edges_of_path [OF pp] by (intro exI conjI) (assumption, simp_all)
      then show ?thesis using p(1) by (auto simp: path_edges_def)
    qed
    ultimately show "\<exists>q m. d = path_join q m \<and> (q, m, True) \<in> path_edges ps" by blast
  qed
  then show ?thesis unfolding listing_dirs by (auto simp: no_paths_def)
qed

lemma directory_elements:
  assumes "all_plain ps" "d = ''.'' \<or> (\<exists>p\<in>set ps. has_prefix p (d @ ''/''))"
  shows "\<exists>ds. plain_elements ds \<and> d = dirname_of ds"
proof (cases "d = ''.''")
  case True
  then show ?thesis by (intro exI [of _ "[]"]) (simp add: plain_elements_def dirname_of_def)
next
  case False
  then obtain p r where p: "p \<in> set ps" "p = d @ ''/'' @ r" using assms(2) by (auto simp: has_prefix_split)
  then have "plain_path p" using assms(1) by (simp add: all_plain_def)
  then have "plain_path d" using split_parts [of d r] p(2) by (simp add: plain_path_def)
  then show ?thesis using plain_path_elements by metis
qed

section \<open>The file system is the tree\<close>

lemma valid_path_plain: "validateSnapshotPath p = None \<Longrightarrow> plain_path p"
  using clean_path_shape [of p] clean_shape_inside [of p] by (auto simp: validateSnapshotPath_def split: if_splits)

lemma entries_plain: "list_entries pr es = Inr xs \<Longrightarrow> all_plain (map fst xs)"
  by (induction es arbitrary: xs) (fastforce simp: all_plain_def valid_path_plain split: sum.splits option.splits)+

lemma names_distinct_put: "distinct (map fst (names_below sp q)) \<Longrightarrow> distinct (map fst (names_below sp p))
    \<Longrightarrow> distinct (map fst (names_below (put_child p n b sp) q))"
  by (simp add: names_below_def put_child_def map_of_alist_update distinct_update)

lemma names_distinct_segments:
  "\<forall>q. distinct (map fst (names_below sp q)) \<Longrightarrow> \<forall>q. distinct (map fst (names_below (add_segments parent es sp) q))"
proof (induction es arbitrary: parent sp)
  case (Cons e es)
  have up: "names_below (sp\<lparr>sp_isDir := ds\<rparr>) q = names_below sp q" for sp ds q by (simp add: names_below_def)
  show ?case using Cons names_distinct_put [of sp] by (auto simp: Let_def up)
qed simp

lemma names_distinct: "distinct (map fst (names_below (fold add_path ps no_paths) q))"
proof -
  have "\<forall>q. distinct (map fst (names_below (fold add_path ps sp) q))" if "\<forall>q. distinct (map fst (names_below sp q))" for sp
    using that by (induction ps arbitrary: sp) (simp_all add: add_path_def names_distinct_segments)
  then show ?thesis by (simp add: no_paths_def names_below_def)
qed

interpretation by_name: comparison by_name
  by (rule comparison_by_key [where k = de_name]) (simp add: by_name_def cmp_laws)

lemma children_of: "map_of (finalizeSnapshotChildren cs) d
    = map_option (\<lambda>names. stable_sort by_name (map (\<lambda>(n, b). \<lparr>de_name = n, de_isDir = b\<rparr>) names)) (map_of cs d)"
  by (induction cs) (auto simp: finalizeSnapshotChildren_def)

lemma sorted_names:
  assumes "distinct (map fst names)"
  shows "sorted_wrt (<) (map de_name (stable_sort by_name (map (\<lambda>(n, b). \<lparr>de_name = n, de_isDir = b\<rparr>) names)))"
proof -
  let ?es = "map (\<lambda>(n, b). \<lparr>de_name = n, de_isDir = b\<rparr>) names"
  have "map de_name ?es = map fst names" by (simp add: case_prod_beta comp_def)
  then have "distinct (map de_name (stable_sort by_name ?es))"
    using assms by (metis mset_eq_imp_distinct_iff mset_map mset_stable_sort)
  moreover have "sorted (map de_name (stable_sort by_name ?es))"
    using by_name.sorted_result [of ?es] by (simp add: sorted_map by_name_def cmp_laws)
  ultimately show ?thesis by (simp add: strict_sorted_iff)
qed


text \<open>Reads with any buffers give the content in order, and the end only after all of it.\<close>

fun read_chunks :: "nat list \<Rightarrow> open_file \<Rightarrow> string" where
  "read_chunks [] h = []"
| "read_chunks (room # rooms) h =
     (case ReadOpen room h of (h', Inr (Some chunk)) \<Rightarrow> chunk @ read_chunks rooms h' | _ \<Rightarrow> [])"

lemma reads_give_the_content: "read_chunks rooms (SnapshotFile name data pos) = take (sum_list rooms) (drop pos data)"
proof (induction rooms arbitrary: pos)
  case (Cons room rooms)
  have "take room (drop pos data) @ take (sum_list rooms) (drop (pos + length (take room (drop pos data))) data)
      = take (room + sum_list rooms) (drop pos data)"
    by (cases "room \<le> length data - pos") (auto simp: take_add drop_drop add.commute)
  then show ?case using Cons.IH by (auto simp: ReadOpen_def Let_def)
qed simp

text \<open>No variable of the command but the two named ones reaches a git child.\<close>

lemma environment_is_sanitized:
  assumes "lookup ''PATH'' = lookup' ''PATH''" "lookup ''HOME'' = lookup' ''HOME''"
  shows "NewRevisionFS pr child lookup dir revision = NewRevisionFS pr child lookup' dir revision"
    and "ReadFileSnapshot child lookup f name = ReadFileSnapshot child lookup' f name"
proof -
  have same: "runSnapshotGit child lookup = runSnapshotGit child lookup'"
    using assms by (intro ext) (simp add: runSnapshotGit_def sanitizedSnapshotGitEnv_def)
  show "NewRevisionFS pr child lookup dir revision = NewRevisionFS pr child lookup' dir revision"
      "ReadFileSnapshot child lookup f name = ReadFileSnapshot child lookup' f name"
    unfolding NewRevisionFS_def ReadFileSnapshot_def read_content_def same by (rule refl)+
qed

definition sample_entries :: string where
  "sample_entries = ''100644 blob aa 12'' @ [CHR 0x09] @ ''main.go'' @ [CHR 0x00] @ ''100644 blob bb 7'' @ [CHR 0x09] @ ''pkg/lib.go'' @ [CHR 0x00]"

definition sample_lister :: snapshot_process where
  "sample_lister env dir args =
     \<lparr>gc_start = None, gc_stdout = sample_entries, gc_stdout_err = None, gc_stderr = [], gc_stderr_err = None, gc_wait = None,
      gc_deadline = False\<rparr>"


end
