(* ===== verification/Spec2Isabelle.thy ===== *)
theory Spec2Isabelle
  imports JobWorker PostgresStore RedisQueue SqsQueue CallGraphSearch AgentLoop LayerRules HttpApi JudgmentStage SourceScope RevisionFS
begin

text \<open>
  A verification of coach: a job platform that scans repositories (internal/coachapi and
  what it runs on) and the analysis libraries behind it (pkg/codesignal, pkg/projectmodel).

  The parts and how they interact.  A client authenticates with a Coach token
  (internal/authn) and submits a job for a repository it has a role in (internal/authz,
  over pkg/githubingest's credentials); the HTTP handlers (internal/coachapi/httpapi) put a
  queued row into the job store (internal/coachapi/store) and a task on a queue
  (internal/coachapi/queue).  A worker (internal/coachapi/worker) claims the task and the
  row under a lease, runs the handler with a heartbeat, and settles both; its reconciler
  requeues what was lost.  The handler of a baseline job (internal/coachapi/baseline) reads
  the repository's tree and runs two agent loops (internal/agentloop): the tools of the first
  analyze the files and build a report of code signals (pkg/codesignal); those of the second
  are rubrics (internal/rubrics), which pack the hidden-mutation findings and have a model
  judge them through the model gateway (internal/modelgateway).  Signals come from the file
  results and the project model, architecture evidence from searches over call graphs
  (pkg/projectmodel).  The codesignal command is a second driver of the same libraries: it
  reads the files of a diff or a revision from git (internal/codesignalcli/gitrepo), a policy
  document (projectconfig), analyzes each file over its syntax tree (pkg/semantics) and hands
  the result to the same report builder.

  Theories, in the order they build on each other.
    CoachPrelude     time, 64-bit wrap-around, Go maps, strings and paths, stable sorting
                     (locale comparison), lemma collections
    CoachStrings     decimal numbers, trimming, strconv.Quote
    JobDomain        jobs, findings, reports, their assembly, the store port
                     (coachapi/job.go, report.go, report_assembly.go, store.go, claim.go)
    StoreContract    the abstract machine of WorkerJobStore, the locales advancing_store (rows only
                     move along their transitions) and job_store (each call is a step)
    MemoryStore      coachapi/store/memory, interpretation of job_store
    PostgresStore    coachapi/store/postgres as statements and transactions over tables with
                     faults; the SQL refines the contract at the precision of its columns
    TaskQueue        coachapi/queue and the task payload, locale task_queue
    RedisQueue, SqsQueue   the two adapters, interpretations of task_queue
    JobWorker        coachapi/worker: one cycle under interference, the reconciler
    Authn            internal/authn; locales denylist and oauth_states, interpreted on the
                     in-process stores
    GithubIngest     pkg/githubingest: credentials, one file, commits, the tree walk
    HttpApi          internal/authz, coachapi/httpapi and cmd/coach-api's buildHandler
    ToolSchema, AgentLoop   internal/agentloop: schemas, budgets, calls, runs
    GoJson           encoding/json on typed values, its round trip
    ModelGateway     internal/modelgateway: requests, retries, output schemas, the stub
    RubricPacks, Rubrics   internal/rubrics: packing and excerpts; prompts, runs, batch answers,
                     envelopes and tools
    TreeSources, JudgmentPriority   coachapi/baseline: parameters and tree sources (locale
                     baseline_source, interpreted on the three sources); the findings to judge
    BaselineScan     coachapi/baseline: one attempt from parameters to completion, locale
                     fenced_writer interpreted on the in-memory store
    JudgmentStage    what the judgment stage of a scan answers and spends
    CallGraph, CallGraphSearch   the searches of pkg/projectmodel and their proofs
    Signals, SignalRules, SignalLifecycle, ProjectChanges, SignalReport, LayerRules
                     pkg/codesignal from metrics to the narrowed report
    GitRepo          codesignalcli/gitrepo: bounded git commands, changed and tracked files,
                     batched reads, the state of the work tree
    ProjectConfig    codesignalcli/projectconfig: decoding, validation, discovery, layer policies
    SyntaxTree, GoSyntax, GoComplexity   pkg/semantics on syntax trees: nodes and cursors, the
                     metrics, findings and imports of Go files, their cognitive complexity
    SourceAnalysis   semantics.AnalyzeBytes over a registry of languages
    LocalScan        codesignalcli: the scans of a diff and of a revision
    SourceScope      codesignalcli/sourcescope: globs, tsconfig.json, the label of each file
    RevisionFS       codesignalcli/revisionfs: a revision as a read-only file system
  A Go struct is a record whose fields carry the struct's names with a short prefix, a
  method is a definition with the method's name (prefixed where two packages share it).

  What the lemma groups show.  Store: every implementation step is a step of the abstract
  machine; leases, attempts and terminal rows.  Queues: a claim settles at most once and no
  message is lost.  Worker: every settlement is justified by the row, nothing accepted is
  stranded.  HTTP: submissions are authorized and durable, other people's jobs invisible,
  tokens and OAuth states live exactly as long as they should.  Agent loop: budgets in
  every interleaving, validation equivalent to its declarative reading.  Baseline scan:
  findings written are kept whatever the judges do, every selected finding is answered,
  packs and selection lose nothing, the gateway returns conforming judgments only.  Searches: sound,
  shortest, complete within their budgets.  Signals: lifecycle, fingerprints, ordering,
  coverage and narrowing are exact.  Local scan: git's streams are read back exactly, a policy
  is accepted exactly when it is well formed, the features of a Go file are those of its tree,
  and a scan loses no file and counts each tracked file once.

  Recursion.  Searches take their node budget as fuel and are proved to return; the tree
  walk over a remote repository is a partial function (None is not returning) and is proved
  to return on finite trees; everything else is total.  Integers the code keeps in 64 bits
  are HOL integers with wrap64 written where an overflow can matter.

  Arguments of the model, for code that is not in the repository: SHA-256 (digest), the
  printable table of strconv.Quote, the JWT library, the GitHub client, Redis and SQS
  clients, the model endpoint, the git process, the local file system, clocks, randomness, handlers, and the interleaving of concurrent steps.  Where
  they matter their documented laws are named hypotheses (for example jwt_laws) and a
  witness instantiates them.

  Not modelled.  The extraction of TypeScript and React features (an argument: the language
  registry), parsers and queries (tree-sitter), the project backends of the command (go/packages,
  SSA and the TypeScript sidecar; an argument of the scan by its interface); the TypeScript tool chain and the command-line drivers run processes on the
  host; rendering is presentation; the HTTP stub of the model and the fake GitHub are test
  support.  The manifest lists every such component with its reason.
\<close>

end
